(* ===== verification/Py_Prelude.thy ===== *)
theory Py_Prelude
  imports Main "HOL-Library.AList"
begin

text \<open>
  What every component theory shares: the exceptions the modelled code raises, the
  state-and-exception functions that stand for Python methods (a mutation made before an
  exception stays, as it does in Python), dictionaries as association lists in iteration
  order, and the small part of the string library the code uses.
\<close>

named_theorems py_run \<open>unfolding rules that execute the state-and-exception functions\<close>
named_theorems keeps_intros \<open>rules that push an invariant through a method\<close>
named_theorems dict_simps \<open>lookups after dictionary updates\<close>

section \<open>Exceptions and methods\<close>

datatype exn =
    KeyError | ValueError | TypeError | IndexError | AttributeError | NotImplementedError
  | BadRequest | Forbidden | NotFound | MethodNotAllowed | TooManyRequests | ServiceUnavailable
  | Unauthorized string
  | SkipDelivery | OtherError string

text \<open>
  A method of an object with state \<open>'s\<close>: it returns a value or raises, and leaves a state
  behind in both cases.
\<close>

type_synonym ('s, 'a) py = "'s \<Rightarrow> (exn + 'a) \<times> 's"

definition py_ret :: "'a \<Rightarrow> ('s, 'a) py" where
  [py_run]: "py_ret x s = (Inr x, s)"

definition py_raise :: "exn \<Rightarrow> ('s, 'a) py" where
  [py_run]: "py_raise e s = (Inl e, s)"

definition py_bind :: "('s, 'a) py \<Rightarrow> ('a \<Rightarrow> ('s, 'b) py) \<Rightarrow> ('s, 'b) py" where
  [py_run]: "py_bind m f s = (case m s of (Inl e, t) \<Rightarrow> (Inl e, t) | (Inr x, t) \<Rightarrow> f x t)"

definition py_seq :: "('s, 'a) py \<Rightarrow> ('s, 'b) py \<Rightarrow> ('s, 'b) py" where
  [py_run]: "py_seq m n s = (case m s of (Inl e, t) \<Rightarrow> (Inl e, t) | (Inr x, t) \<Rightarrow> n t)"

definition py_get :: "('s \<Rightarrow> 'a) \<Rightarrow> ('s, 'a) py" where
  [py_run]: "py_get f s = (Inr (f s), s)"

definition py_modify :: "('s \<Rightarrow> 's) \<Rightarrow> ('s, unit) py" where
  [py_run]: "py_modify f s = (Inr (), f s)"

text \<open>\<open>try: m except Exception: h\<close>.\<close>

definition py_try :: "('s, 'a) py \<Rightarrow> (exn \<Rightarrow> ('s, 'a) py) \<Rightarrow> ('s, 'a) py" where
  [py_run]: "py_try m h s = (case m s of (Inl e, t) \<Rightarrow> h e t | (Inr x, t) \<Rightarrow> (Inr x, t))"

text \<open>\<open>try: m finally: f\<close>: an exception of \<open>f\<close> replaces the outcome of \<open>m\<close>.\<close>

definition py_finally :: "('s, 'a) py \<Rightarrow> ('s, 'b) py \<Rightarrow> ('s, 'a) py" where
  [py_run]: "py_finally m f s =
     (case m s of (r, t) \<Rightarrow> (case f t of (Inl e, u) \<Rightarrow> (Inl e, u) | (Inr _, u) \<Rightarrow> (r, u)))"

text \<open>\<open>for x in xs: body(x)\<close>; an exception leaves the loop.\<close>

primrec py_for :: "'x list \<Rightarrow> ('x \<Rightarrow> ('s, unit) py) \<Rightarrow> ('s, unit) py" where
  "py_for [] body = py_ret ()"
| "py_for (x # xs) body = py_seq (body x) (py_for xs body)"

definition py_when :: "bool \<Rightarrow> ('s, unit) py \<Rightarrow> ('s, unit) py" where
  [py_run]: "py_when b m = (if b then m else py_ret ())"

text \<open>The value of an expression that raises \<open>e\<close> when it has none.\<close>

definition py_value :: "exn \<Rightarrow> 'a option \<Rightarrow> ('s, 'a) py" where
  [py_run]: "py_value e v = (case v of None \<Rightarrow> py_raise e | Some x \<Rightarrow> py_ret x)"

text \<open>The result of an operation that changes no state.\<close>

definition py_sum :: "exn + 'a \<Rightarrow> ('s, 'a) py" where
  "py_sum r s = (r, s)"

lemma py_bind_sum: "py_bind (py_sum (Inr x)) f = f x" "py_bind (py_sum (Inl e)) g = py_raise e"
  by (rule ext, simp add: py_sum_def py_bind_def py_raise_def)+

lemma py_bind_Inr: "m s = (Inr x, t) \<Longrightarrow> py_bind m f s = f x t"
  by (simp add: py_run)

lemma py_seq_Inr: "m s = (Inr x, t) \<Longrightarrow> py_seq m n s = n t"
  by (simp add: py_run)

lemma py_seq_Inl: "m s = (Inl e, t) \<Longrightarrow> py_seq m n s = (Inl e, t)"
  by (simp add: py_run)

text \<open>What a method that returned has done before.\<close>

lemma py_seq_InrE:
  assumes "py_seq m n s = (Inr x, t)"
  obtains y u where "m s = (Inr y, u)" "n u = (Inr x, t)"
  using assms by (auto simp: py_seq_def split: prod.splits sum.splits)

lemma py_bind_InrE:
  assumes "py_bind m f s = (Inr x, t)"
  obtains y u where "m s = (Inr y, u)" "f y u = (Inr x, t)"
  using assms by (auto simp: py_bind_def split: prod.splits sum.splits)

lemma py_value_InrE:
  assumes "py_value e v s = (Inr x, t)"
  obtains "v = Some x" "t = s"
  using assms by (auto simp: py_run split: option.splits)

lemma py_for_append:
  "py_for (xs @ ys) body = py_seq (py_for xs body) (py_for ys body)"
  by (induction xs) (auto simp: py_run fun_eq_iff split: prod.splits sum.splits)

lemma py_for_skip: "(\<And>x. x \<in> set xs \<Longrightarrow> body x s = (Inr (), s)) \<Longrightarrow> py_for xs body s = (Inr (), s)"
  by (induction xs) (simp_all add: py_run)

text \<open>A loop whose body never raises is a fold of the body's effect.\<close>

lemma py_for_fold:
  assumes "\<And>x t. x \<in> set xs \<Longrightarrow> body x t = (Inr (), step x t)"
  shows "py_for xs body s = (Inr (), fold step xs s)"
  using assms by (induction xs arbitrary: s) (simp_all add: py_run)

section \<open>Invariants of methods\<close>

text \<open>
  \<open>keeps I m\<close>: the method \<open>m\<close> keeps the invariant \<open>I\<close>, whether it returns or raises.
\<close>

definition keeps :: "('s \<Rightarrow> bool) \<Rightarrow> ('s, 'a) py \<Rightarrow> bool" where
  "keeps I m \<longleftrightarrow> (\<forall>s. I s \<longrightarrow> I (snd (m s)))"

lemma keepsI: "(\<And>s. I s \<Longrightarrow> I (snd (m s))) \<Longrightarrow> keeps I m"
  by (simp add: keeps_def)

lemma keepsD: "keeps I m \<Longrightarrow> I s \<Longrightarrow> I (snd (m s))"
  by (simp add: keeps_def)

lemma keeps_ret [keeps_intros]: "keeps I (py_ret x)"
  by (simp add: keeps_def py_run)

lemma keeps_raise [keeps_intros]: "keeps I (py_raise e)"
  by (simp add: keeps_def py_run)

lemma keeps_get [keeps_intros]: "keeps I (py_get f)"
  by (simp add: keeps_def py_run)

lemma keeps_modify [keeps_intros]: "(\<And>s. I s \<Longrightarrow> I (f s)) \<Longrightarrow> keeps I (py_modify f)"
  by (simp add: keeps_def py_run)

lemma keeps_bind [keeps_intros]:
  assumes m: "keeps I m" and f: "\<And>x. keeps I (f x)"
  shows "keeps I (py_bind m f)"
proof (rule keepsI)
  fix s assume "I s"
  then have "I (snd (m s))" by (rule keepsD [OF m])
  then show "I (snd (py_bind m f s))"
    using f by (auto simp: py_run keeps_def split: prod.splits sum.splits)
qed

lemma keeps_seq [keeps_intros]:
  assumes m: "keeps I m" and n: "keeps I n"
  shows "keeps I (py_seq m n)"
proof (rule keepsI)
  fix s assume "I s"
  then have "I (snd (m s))" by (rule keepsD [OF m])
  then show "I (snd (py_seq m n s))"
    using n by (auto simp: py_run keeps_def split: prod.splits sum.splits)
qed

lemma keeps_for [keeps_intros]:
  "(\<And>x. x \<in> set xs \<Longrightarrow> keeps I (body x)) \<Longrightarrow> keeps I (py_for xs body)"
  by (induction xs) (auto intro: keeps_intros)

lemma keeps_when [keeps_intros]: "(b \<Longrightarrow> keeps I m) \<Longrightarrow> keeps I (py_when b m)"
  by (auto simp: py_when_def intro: keeps_intros)

lemma keeps_value [keeps_intros]: "keeps I (py_value e v)"
  by (auto simp: py_value_def intro: keeps_intros split: option.splits)

lemma keeps_try [keeps_intros]:
  assumes m: "keeps I m" and h: "\<And>e. keeps I (h e)"
  shows "keeps I (py_try m h)"
proof (rule keepsI)
  fix s assume "I s"
  then have "I (snd (m s))" by (rule keepsD [OF m])
  then show "I (snd (py_try m h s))"
    using h by (auto simp: py_run keeps_def split: prod.splits sum.splits)
qed

lemma keeps_finally [keeps_intros]:
  assumes m: "keeps I m" and f: "keeps I f"
  shows "keeps I (py_finally m f)"
proof (rule keepsI)
  fix s assume "I s"
  then have "I (snd (m s))" by (rule keepsD [OF m])
  then have "I (snd (f (snd (m s))))" by (rule keepsD [OF f])
  then show "I (snd (py_finally m f s))"
    by (auto simp: py_run split: prod.splits sum.splits)
qed

lemma keeps_if [keeps_intros]:
  "(b \<Longrightarrow> keeps I m) \<Longrightarrow> (\<not> b \<Longrightarrow> keeps I n) \<Longrightarrow> keeps I (if b then m else n)"
  by simp

lemma keeps_case_option [keeps_intros]:
  "keeps I m \<Longrightarrow> (\<And>x. keeps I (f x)) \<Longrightarrow> keeps I (case v of None \<Rightarrow> m | Some x \<Rightarrow> f x)"
  by (simp split: option.split)

section \<open>Dictionaries\<close>

text \<open>
  A dictionary is the association list of its items in iteration order. Python 2 fixes no
  such order, so a theorem about every dictionary holds for every order.
\<close>

type_synonym ('k, 'v) dict = "('k \<times> 'v) list"

abbreviation dict_ok :: "('k, 'v) dict \<Rightarrow> bool" where
  "dict_ok d \<equiv> distinct (map fst d)"

abbreviation dict_keys :: "('k, 'v) dict \<Rightarrow> 'k list" where
  "dict_keys d \<equiv> map fst d"

abbreviation dict_values :: "('k, 'v) dict \<Rightarrow> 'v list" where
  "dict_values d \<equiv> map snd d"

abbreviation dict_has :: "'k \<Rightarrow> ('k, 'v) dict \<Rightarrow> bool" where
  "dict_has k d \<equiv> map_of d k \<noteq> None"

abbreviation dict_set :: "'k \<Rightarrow> 'v \<Rightarrow> ('k, 'v) dict \<Rightarrow> ('k, 'v) dict" where
  "dict_set \<equiv> AList.update"

abbreviation dict_del :: "'k \<Rightarrow> ('k, 'v) dict \<Rightarrow> ('k, 'v) dict" where
  "dict_del \<equiv> AList.delete"

lemma map_of_map_values: "map_of (map (\<lambda>(k, v). (k, f v)) d) k = map_option f (map_of d k)"
  by (induction d) auto

text \<open>\<open>d.get(k, dflt)\<close> and \<open>d.setdefault(k, dflt)\<close>.\<close>

definition dict_get :: "'k \<Rightarrow> 'v \<Rightarrow> ('k, 'v) dict \<Rightarrow> 'v" where
  "dict_get k dflt d = (case map_of d k of None \<Rightarrow> dflt | Some v \<Rightarrow> v)"

definition dict_setdefault :: "'k \<Rightarrow> 'v \<Rightarrow> ('k, 'v) dict \<Rightarrow> ('k, 'v) dict" where
  "dict_setdefault k dflt d = (case map_of d k of None \<Rightarrow> dict_set k dflt d | Some _ \<Rightarrow> d)"

text \<open>Changing the object stored under a key in place; nothing happens when there is none.\<close>

definition dict_mutate :: "'k \<Rightarrow> ('v \<Rightarrow> 'v) \<Rightarrow> ('k, 'v) dict \<Rightarrow> ('k, 'v) dict" where
  "dict_mutate k f d = map (\<lambda>(k', v). (k', if k' = k then f v else v)) d"

lemma map_of_dict_set [dict_simps]:
  "map_of (dict_set k v d) k' = (if k' = k then Some v else map_of d k')"
  by (simp add: update_conv')

lemma map_of_dict_del [dict_simps]:
  "map_of (dict_del k d) k' = (if k' = k then None else map_of d k')"
  by (simp add: delete_conv')

lemma map_of_dict_setdefault [dict_simps]:
  "map_of (dict_setdefault k v d) k' =
     (if k' = k \<and> map_of d k = None then Some v else map_of d k')"
  by (simp add: dict_setdefault_def dict_simps split: option.split)

lemma map_of_dict_mutate [dict_simps]:
  "map_of (dict_mutate k f d) k' = (if k' = k then map_option f (map_of d k) else map_of d k')"
  by (induction d) (auto simp: dict_mutate_def)

lemma keys_dict_mutate [simp]: "map fst (dict_mutate k f d) = map fst d"
  by (simp add: dict_mutate_def comp_def split_def)

lemma set_keys_dict_mutate [simp]: "fst ` set (dict_mutate k f d) = fst ` set d"
  using keys_dict_mutate [of k f d] by (metis list.set_map)

lemma length_dict_mutate [simp]: "length (dict_mutate k f d) = length d"
  by (simp add: dict_mutate_def)

lemma dict_mutate_id: "map_of d k = None \<Longrightarrow> dict_mutate k f d = d"
  by (induction d) (auto simp: dict_mutate_def split: if_splits)

lemma dict_ok_set [simp, intro]: "dict_ok d \<Longrightarrow> dict_ok (dict_set k v d)"
  by (rule distinct_update)

lemma dict_ok_del [simp, intro]: "dict_ok d \<Longrightarrow> dict_ok (dict_del k d)"
  by (rule distinct_delete)

lemma dict_ok_setdefault [simp, intro]: "dict_ok d \<Longrightarrow> dict_ok (dict_setdefault k v d)"
  by (simp add: dict_setdefault_def split: option.split)

lemma set_keys_dict_set [simp]: "fst ` set (dict_set k v d) = insert k (fst ` set d)"
  by (simp add: dom_update)

lemma set_keys_dict_del [simp]: "fst ` set (dict_del k d) = fst ` set d - {k}"
  using delete_keys [of k d] by (metis (no_types) list.set_map set_removeAll)

lemma dict_set_new: "k \<notin> fst ` set d \<Longrightarrow> dict_set k v d = d @ [(k, v)]"
  by (induction d) auto

lemma map_of_in_set: "dict_ok d \<Longrightarrow> (k, v) \<in> set d \<longleftrightarrow> map_of d k = Some v"
  by (metis map_of_eq_Some_iff)

lemma map_of_None_iff: "map_of d k = None \<longleftrightarrow> k \<notin> fst ` set d"
  by (rule map_of_eq_None_iff)

text \<open>\<open>d.update(new)\<close>.\<close>

definition dict_update :: "('k, 'v) dict \<Rightarrow> ('k, 'v) dict \<Rightarrow> ('k, 'v) dict" where
  "dict_update new d = foldl (\<lambda>d (k, v). dict_set k v d) d new"

lemma map_of_dict_update:
  "map_of (dict_update new d) k = (case map_of (rev new) k of None \<Rightarrow> map_of d k | Some v \<Rightarrow> Some v)"
  unfolding dict_update_def
  by (induction new arbitrary: d) (auto simp: dict_simps map_of_append map_add_def split: option.split)

lemma map_of_dict_update_ok:
  "dict_ok new \<Longrightarrow> map_of (dict_update new d) k = (case map_of new k of None \<Rightarrow> map_of d k | Some v \<Rightarrow> Some v)"
  using map_of_inject_set [of "rev new" new] by (simp add: map_of_dict_update rev_map [symmetric])

lemma dict_update_append:
  "dict_ok new \<Longrightarrow> fst ` set new \<inter> fst ` set d = {} \<Longrightarrow> dict_update new d = d @ new"
proof (induction new arbitrary: d)
  case (Cons kv new)
  obtain k v where kv: "kv = (k, v)" by fastforce
  have "dict_update (kv # new) d = dict_update new (d @ [(k, v)])"
    using Cons.prems kv by (auto simp: dict_update_def dict_set_new)
  also have "\<dots> = (d @ [(k, v)]) @ new"
    using Cons.prems kv by (intro Cons.IH) auto
  finally show ?case by (simp add: kv)
qed (simp add: dict_update_def)

text \<open>
  Dictionary attributes of an object: \<open>sel\<close> and \<open>upd\<close> are the selector and the update
  function of the record field that holds the dictionary.
\<close>

definition item_get :: "('s \<Rightarrow> ('k, 'v) dict) \<Rightarrow> 'k \<Rightarrow> ('s, 'v) py" where
  "item_get sel k = py_bind (py_get (\<lambda>s. map_of (sel s) k)) (py_value KeyError)"

definition item_set ::
  "((('k, 'v) dict \<Rightarrow> ('k, 'v) dict) \<Rightarrow> 's \<Rightarrow> 's) \<Rightarrow> 'k \<Rightarrow> 'v \<Rightarrow> ('s, unit) py" where
  "item_set upd k v = py_modify (upd (dict_set k v))"

definition item_del ::
  "('s \<Rightarrow> ('k, 'v) dict) \<Rightarrow> ((('k, 'v) dict \<Rightarrow> ('k, 'v) dict) \<Rightarrow> 's \<Rightarrow> 's) \<Rightarrow> 'k \<Rightarrow> ('s, unit) py" where
  "item_del sel upd k = py_seq (item_get sel k) (py_modify (upd (dict_del k)))"

lemma item_get_run [py_run]:
  "item_get sel k s = (case map_of (sel s) k of None \<Rightarrow> (Inl KeyError, s) | Some v \<Rightarrow> (Inr v, s))"
  by (simp add: item_get_def py_run split: option.split)

lemma item_set_run [py_run]: "item_set upd k v s = (Inr (), upd (dict_set k v) s)"
  by (simp add: item_set_def py_run)

lemma item_del_run [py_run]:
  "item_del sel upd k s =
     (case map_of (sel s) k of None \<Rightarrow> (Inl KeyError, s)
      | Some _ \<Rightarrow> (Inr (), upd (dict_del k) s))"
  by (simp add: item_del_def py_run split: option.split)

lemma item_get_InrE:
  assumes "item_get sel k s = (Inr v, t)"
  obtains "map_of (sel s) k = Some v" "t = s"
  using assms by (auto simp: py_run split: option.splits)

lemma keeps_item_get [keeps_intros]: "keeps I (item_get sel k)"
  by (auto simp: keeps_def py_run split: option.splits)

lemma keeps_item_set [keeps_intros]:
  "(\<And>s. I s \<Longrightarrow> I (upd (dict_set k v) s)) \<Longrightarrow> keeps I (item_set upd k v)"
  by (auto simp: keeps_def py_run)

lemma keeps_item_del [keeps_intros]:
  "(\<And>s. I s \<Longrightarrow> I (upd (dict_del k) s)) \<Longrightarrow> keeps I (item_del sel upd k)"
  by (auto simp: keeps_def py_run split: option.splits)

section \<open>Texts\<close>

definition startswith :: "string \<Rightarrow> string \<Rightarrow> bool" where
  "startswith p cs \<longleftrightarrow> take (length p) cs = p"

text \<open>\<open>p in s\<close>.\<close>

fun contains :: "string \<Rightarrow> string \<Rightarrow> bool" where
  "contains p [] = (p = [])"
| "contains p (c # cs) = (startswith p (c # cs) \<or> contains p cs)"

section \<open>Lists changed while they are iterated\<close>

text \<open>
  \<open>for x in xs: if p(x): xs.remove(x)\<close> over a list of distinct objects. Python's iterator
  keeps an index, so removing the current element makes it step over the next one.
\<close>

function remove_while_iterating :: "('a \<Rightarrow> bool) \<Rightarrow> nat \<Rightarrow> 'a list \<Rightarrow> 'a list" where
  "remove_while_iterating p i xs =
     (if i < length xs
      then (if p (xs ! i) then remove_while_iterating p (Suc i) (take i xs @ drop (Suc i) xs)
            else remove_while_iterating p (Suc i) xs)
      else xs)"
  by pat_completeness auto
termination
  by (relation "measure (\<lambda>(p, i, xs). length xs - i)") auto

declare remove_while_iterating.simps [simp del]

lemma remove_while_iterating_subset:
  "set (remove_while_iterating p i xs) \<subseteq> set xs"
proof (induction p i xs rule: remove_while_iterating.induct)
  case (1 p i xs)
  then show ?case
    by (subst remove_while_iterating.simps) (auto dest: in_set_takeD in_set_dropD)
qed

lemma remove_while_iterating_keeps:
  "x \<in> set xs \<Longrightarrow> \<not> p x \<Longrightarrow> x \<in> set (remove_while_iterating p i xs)"
proof (induction p i xs rule: remove_while_iterating.induct)
  case (1 p i xs)
  have "x \<in> set (take i xs @ drop (Suc i) xs)" if "i < length xs" "p (xs ! i)"
    using that "1.prems" by (metis id_take_nth_drop set_append Un_iff set_ConsD)
  with 1 show ?case
    by (subst remove_while_iterating.simps) auto
qed

text \<open>The elements such a loop visits, and those it steps over, when it removes each it visits.\<close>

fun evens :: "'a list \<Rightarrow> 'a list" where
  "evens [] = []"
| "evens [x] = [x]"
| "evens (x # y # zs) = x # evens zs"

fun odds :: "'a list \<Rightarrow> 'a list" where
  "odds [] = []"
| "odds [x] = []"
| "odds (x # y # zs) = y # odds zs"

lemma set_odds: "set (odds xs) \<subseteq> set xs"
  by (induction xs rule: odds.induct) auto

lemma remove_while_iterating_all:
  "\<forall>x \<in> set rest. p x \<Longrightarrow> remove_while_iterating p (length pre) (pre @ rest) = pre @ odds rest"
proof (induction rest arbitrary: pre rule: odds.induct)
  case 1
  show ?case by (subst remove_while_iterating.simps) simp
next
  case (2 x)
  then show ?case by (subst remove_while_iterating.simps) (simp add: remove_while_iterating.simps)
next
  case (3 x y zs)
  have "remove_while_iterating p (length (pre @ [y])) ((pre @ [y]) @ zs) = (pre @ [y]) @ odds zs"
    using "3.IH" [of "pre @ [y]"] "3.prems" by simp
  with "3.prems" show ?case by (subst remove_while_iterating.simps) simp
qed

section \<open>Reachable states\<close>

text \<open>
  An object is driven by events, each run by a method; \<open>allowed\<close> says which events its
  environment may send in which state. An exception ends an event, not the run.
\<close>

inductive reach ::
  "('e \<Rightarrow> ('s, 'a) py) \<Rightarrow> ('e \<Rightarrow> 's \<Rightarrow> bool) \<Rightarrow> 's \<Rightarrow> 's \<Rightarrow> bool"
  for action :: "'e \<Rightarrow> ('s, 'a) py" and allowed :: "'e \<Rightarrow> 's \<Rightarrow> bool" and s0 :: 's where
  reach_start: "reach action allowed s0 s0"
| reach_step: "reach action allowed s0 s \<Longrightarrow> allowed e s \<Longrightarrow> reach action allowed s0 (snd (action e s))"

text \<open>What every component with an invariant promises, and what follows for whole runs.\<close>

locale py_object =
  fixes action :: "'e \<Rightarrow> ('s, 'a) py"
    and allowed :: "'e \<Rightarrow> 's \<Rightarrow> bool"
    and inv :: "'s \<Rightarrow> bool"
  assumes action_inv: "inv s \<Longrightarrow> allowed e s \<Longrightarrow> inv (snd (action e s))"
begin

lemma reach_inv: "reach action allowed s0 s \<Longrightarrow> inv s0 \<Longrightarrow> inv s"
  by (induction rule: reach.induct) (auto intro: action_inv)

lemma reach_trans:
  "reach action allowed s1 s2 \<Longrightarrow> reach action allowed s0 s1 \<Longrightarrow> reach action allowed s0 s2"
  by (induction rule: reach.induct) (auto intro: reach.intros)

end

text \<open>
  A component that implements an abstract specification: \<open>abs\<close> is what its state stands
  for, and \<open>step\<close> what an event does to that, exceptions included.
\<close>

locale py_refinement = py_object action "\<lambda>_ _. True" inv
  for action :: "'e \<Rightarrow> ('s, 'a) py" and inv :: "'s \<Rightarrow> bool" +
  fixes abs :: "'s \<Rightarrow> 'm" and step :: "'e \<Rightarrow> 'm \<Rightarrow> 'm"
  assumes action_abs: "inv s \<Longrightarrow> abs (snd (action e s)) = step e (abs s)"
begin

lemma run_inv: "inv s \<Longrightarrow> inv (fold (\<lambda>e s. snd (action e s)) es s)"
  by (induction es arbitrary: s) (auto intro: action_inv)

lemma run_refines:
  "inv s \<Longrightarrow> abs (fold (\<lambda>e s. snd (action e s)) es s) = fold step es (abs s)"
  by (induction es arbitrary: s) (simp_all add: action_inv action_abs)

end

end
