(* ===== verification/Mdp_Wire.thy ===== *)
theory Mdp_Wire
  imports Py_Prelude
begin

text \<open>
  The wire format of the ZeroMQ Majordomo Protocol 0.1, from
  \<^verbatim>\<open>zato-zmq/src/zato/zmq_/mdp/__init__.py\<close>: the constants, the event classes with their
  frame lists, and the ids under which a broker keeps its workers (\<open>WorkerData\<close>), with the
  parts of the string library they use. A frame is a byte string, a message a list of frames.
\<close>

section \<open>The hex codec and \<open>str.replace\<close>\<close>

definition hex_digit :: "nat \<Rightarrow> char" where
  "hex_digit n = char_of (if n < 10 then 48 + n else 87 + n)"

definition hex_val :: "char \<Rightarrow> nat option" where
  "hex_val c = (let n = of_char c :: nat in
     if 48 \<le> n \<and> n \<le> 57 then Some (n - 48)
     else if 97 \<le> n \<and> n \<le> 102 then Some (n - 87)
     else if 65 \<le> n \<and> n \<le> 70 then Some (n - 55)
     else None)"

text \<open>\<open>s.encode('hex')\<close>.\<close>

primrec hex_encode :: "string \<Rightarrow> string" where
  "hex_encode [] = []"
| "hex_encode (c # cs) =
     hex_digit ((of_char c :: nat) div 16) # hex_digit ((of_char c :: nat) mod 16) # hex_encode cs"

text \<open>\<open>s.decode('hex')\<close>: a \<open>TypeError\<close> for an odd length or a character that is no digit.\<close>

fun hex_decode :: "string \<Rightarrow> exn + string" where
  "hex_decode [] = Inr []"
| "hex_decode [_] = Inl TypeError"
| "hex_decode (a # b # cs) =
     (case (hex_val a, hex_val b) of
        (Some x, Some y) \<Rightarrow>
          (case hex_decode cs of Inl e \<Rightarrow> Inl e | Inr s \<Rightarrow> Inr (char_of (16 * x + y) # s))
      | _ \<Rightarrow> Inl TypeError)"

lemma hex_val_digit [simp]: "n < 16 \<Longrightarrow> hex_val (hex_digit n) = Some n"
  by (auto simp: hex_val_def hex_digit_def Let_def)

lemma of_char_div_16 [simp]: "(of_char c :: nat) div 16 < 16"
  by (rule less_mult_imp_div_less) simp

lemma hex_decode_encode [simp]: "hex_decode (hex_encode s) = Inr s"
proof (induction s)
  case (Cons c s)
  have "char_of (16 * ((of_char c :: nat) div 16) + of_char c mod 16) = c"
    by (simp only: mult_div_mod_eq char_of_char)
  with Cons show ?case by simp
qed simp

lemma hex_digit_range: "n < 16 \<Longrightarrow> of_char (hex_digit n) \<in> {48..57::nat} \<union> {97..102}"
  by (auto simp: hex_digit_def)

lemma set_hex_encode:
  assumes "c \<in> set (hex_encode s)"
  shows "of_char c \<in> {48..57::nat} \<union> {97..102}"
  using assms
proof (induction s)
  case (Cons d s)
  then consider "c = hex_digit ((of_char d :: nat) div 16)" | "c = hex_digit ((of_char d :: nat) mod 16)"
    | "c \<in> set (hex_encode s)" by auto
  then show ?case
    by cases (use Cons.IH in \<open>simp_all add: hex_digit_range del: Un_iff atLeastAtMost_iff\<close>)
qed simp

lemma not_in_hex_encode:
  "of_char c \<notin> {48..57::nat} \<union> {97..102} \<Longrightarrow> c \<notin> set (hex_encode s)"
  using set_hex_encode by blast

text \<open>\<open>s.replace(pat, '')\<close>.\<close>

function str_remove :: "string \<Rightarrow> string \<Rightarrow> string" where
  "str_remove pat [] = []"
| "str_remove pat (c # cs) =
     (if pat \<noteq> [] \<and> take (length pat) (c # cs) = pat
      then str_remove pat (drop (length pat) (c # cs))
      else c # str_remove pat cs)"
  by pat_completeness auto
termination
  by (relation "measure (\<lambda>(pat, s). length s)") (auto simp: neq_Nil_conv)

lemma str_remove_absent: "pat = p # ps \<Longrightarrow> p \<notin> set s \<Longrightarrow> str_remove pat s = s"
  by (induction pat s rule: str_remove.induct) auto

section \<open>Constants\<close>

definition heartbeat_secs :: int where "heartbeat_secs = 3"
definition ttl_secs :: int where "ttl_secs = heartbeat_secs * 5"

datatype worker_type = WZmq | WZato

fun worker_type_name :: "worker_type \<Rightarrow> string" where
  "worker_type_name WZmq = ''zmq''"
| "worker_type_name WZato = ''zato''"

definition v01_client :: string where "v01_client = ''MDPC01''"
definition v01_worker :: string where "v01_worker = ''MDPW01''"
definition v01_ready :: string where "v01_ready = [CHR 0x01]"
definition v01_request_to_worker :: string where "v01_request_to_worker = [CHR 0x02]"
definition v01_reply_from_worker :: string where "v01_reply_from_worker = [CHR 0x03]"
definition v01_heartbeat :: string where "v01_heartbeat = [CHR 0x04]"
definition v01_disconnect :: string where "v01_disconnect = [CHR 0x05]"

lemmas v01_defs =
  v01_client_def v01_worker_def v01_ready_def v01_request_to_worker_def
  v01_reply_from_worker_def v01_heartbeat_def v01_disconnect_def

section \<open>Worker ids\<close>

definition worker_prefix :: string where "worker_prefix = ''mdp.worker.''"

definition wrap_worker_id :: "worker_type \<Rightarrow> string \<Rightarrow> string" where
  "wrap_worker_id ty raw_id = worker_prefix @ worker_type_name ty @ ''.'' @ hex_encode raw_id"

text \<open>\<open>timedelta(seconds=n)\<close>; times are integer microseconds.\<close>

definition seconds :: "int \<Rightarrow> int" where "seconds n = n * 1000000"

record worker_data =
  wd_type :: worker_type
  wd_id :: string
  wd_service_name :: string
  wd_last_hb_received :: int
  wd_last_hb_sent :: "int option"
  wd_expires_at :: int

text \<open>The constructor wraps the ids of ZeroMQ workers and takes others as they are.\<close>

definition WorkerData ::
  "worker_type \<Rightarrow> string \<Rightarrow> string \<Rightarrow> int \<Rightarrow> int option \<Rightarrow> int \<Rightarrow> worker_data" where
  "WorkerData ty raw_id service_name last_hb_received last_hb_sent expires_at =
     \<lparr>wd_type = ty,
      wd_id = (if ty = WZmq then wrap_worker_id ty raw_id else raw_id),
      wd_service_name = service_name,
      wd_last_hb_received = last_hb_received,
      wd_last_hb_sent = last_hb_sent,
      wd_expires_at = expires_at\<rparr>"

definition unwrap_id :: "worker_data \<Rightarrow> exn + string" where
  "unwrap_id w =
     hex_decode (str_remove (worker_type_name (wd_type w) @ ''.'')
                   (str_remove worker_prefix (wd_id w)))"

lemma str_remove_prefix_wrapped:
  "str_remove worker_prefix (wrap_worker_id WZmq i) = ''zmq.'' @ hex_encode i"
proof -
  have "str_remove worker_prefix (hex_encode i) = hex_encode i"
    by (rule str_remove_absent [where p = "CHR ''m''" and ps = "''dp.worker.''"])
       (simp_all add: worker_prefix_def not_in_hex_encode)
  then show ?thesis by (simp add: worker_prefix_def wrap_worker_id_def)
qed

lemma str_remove_zmq_hex: "str_remove ''zmq.'' (''zmq.'' @ hex_encode i) = hex_encode i"
proof -
  have "str_remove ''zmq.'' (hex_encode i) = hex_encode i"
    by (rule str_remove_absent [where p = "CHR ''z''" and ps = "''mq.''"])
       (simp_all add: not_in_hex_encode)
  then show ?thesis by simp
qed

lemma unwrap_wrapped:
  "wd_type w = WZmq \<Longrightarrow> wd_id w = wrap_worker_id WZmq i \<Longrightarrow> unwrap_id w = Inr i"
  using str_remove_zmq_hex by (simp add: unwrap_id_def str_remove_prefix_wrapped)

lemma wrap_worker_id_inj: "wrap_worker_id ty a = wrap_worker_id ty b \<longleftrightarrow> a = b"
  by (metis append_same_eq hex_decode_encode sum.inject(2) wrap_worker_id_def same_append_eq)

text \<open>
  The id of an internal worker, \<open>'mdp.' + cid\<close>, holds a full stop wherever it is cut, so
  it never decodes.
\<close>

lemma hex_decode_bad: "hex_val c = None \<Longrightarrow> c \<in> set s \<Longrightarrow> hex_decode s = Inl TypeError"
proof (induction s rule: hex_decode.induct)
  case (3 a b cs)
  then show ?case by (cases "hex_val a"; cases "hex_val b") auto
qed auto

lemma hex_decode_error: "hex_decode s = Inl e \<Longrightarrow> e = TypeError"
  by (induction s arbitrary: e rule: hex_decode.induct) (auto split: option.splits sum.splits)

lemma unwrap_error: "unwrap_id w = Inl e \<Longrightarrow> e = TypeError"
  unfolding unwrap_id_def by (rule hex_decode_error)

lemma unwrap_internal:
  "wd_type w = WZato \<Longrightarrow> wd_id w = ''mdp.'' @ hex_encode cid \<Longrightarrow> unwrap_id w = Inl TypeError"
proof -
  assume w: "wd_type w = WZato" "wd_id w = ''mdp.'' @ hex_encode cid"
  have p: "str_remove worker_prefix (hex_encode cid) = hex_encode cid"
    by (rule str_remove_absent [where p = "CHR ''m''" and ps = "''dp.worker.''"])
       (simp_all add: worker_prefix_def not_in_hex_encode)
  have z: "str_remove ''zato.'' (hex_encode cid) = hex_encode cid"
    by (rule str_remove_absent [where p = "CHR ''z''" and ps = "''ato.''"])
       (simp_all add: not_in_hex_encode)
  have h: "CHR ''w'' \<notin> set (hex_encode cid)"
    by (rule not_in_hex_encode) simp
  have "str_remove worker_prefix (''mdp.'' @ hex_encode cid) = ''mdp.'' @ hex_encode cid"
  proof (cases "hex_encode cid")
    case Nil
    then show ?thesis by (simp add: worker_prefix_def)
  next
    case (Cons x xs)
    with h have "x \<noteq> CHR ''w''" by auto
    with Cons p show ?thesis by (simp add: worker_prefix_def)
  qed
  then have "unwrap_id w = hex_decode (''mdp.'' @ hex_encode cid)"
    using w z by (simp add: unwrap_id_def)
  also have "\<dots> = Inl TypeError"
    by (rule hex_decode_bad [where c = "CHR ''.''"]) (simp_all add: hex_val_def)
  finally show ?thesis .
qed

section \<open>Events\<close>

definition EventReady_serialize :: "string \<Rightarrow> string list" where
  "EventReady_serialize service_name = [[], v01_worker, v01_ready, service_name]"

definition EventWorkerHeartbeat_serialize :: "string list" where
  "EventWorkerHeartbeat_serialize = [[], v01_worker, v01_heartbeat]"

definition EventBrokerHeartbeat_serialize :: "string \<Rightarrow> string list" where
  "EventBrokerHeartbeat_serialize worker_id = [worker_id, [], v01_worker, v01_heartbeat]"

definition EventClientRequest_serialize :: "string \<Rightarrow> string \<Rightarrow> string list" where
  "EventClientRequest_serialize body service_name = [[], v01_client, service_name, body]"

record worker_request =
  wr_body :: string
  wr_client :: string

definition EventWorkerRequest_serialize :: "worker_request \<Rightarrow> string \<Rightarrow> string list" where
  "EventWorkerRequest_serialize r worker_id =
     [worker_id, [], v01_worker, v01_request_to_worker, wr_client r, [], wr_body r]"

definition EventClientReply_serialize :: "string \<Rightarrow> string \<Rightarrow> string \<Rightarrow> string list" where
  "EventClientReply_serialize body recipient service = [recipient, [], v01_client, service, body]"

definition EventWorkerReply_serialize :: "string \<Rightarrow> string \<Rightarrow> string list" where
  "EventWorkerReply_serialize body recipient =
     [[], v01_worker, v01_reply_from_worker, recipient, [], body]"

definition EventWorkerDisconnect_serialize :: "string list" where
  "EventWorkerDisconnect_serialize = [[], v01_worker, v01_disconnect]"

definition EventBrokerDisconnect_serialize :: "string \<Rightarrow> string list" where
  "EventBrokerDisconnect_serialize worker_id = [worker_id, [], v01_worker, v01_disconnect]"

lemmas serialize_defs =
  EventReady_serialize_def EventWorkerHeartbeat_serialize_def EventBrokerHeartbeat_serialize_def
  EventClientRequest_serialize_def EventWorkerRequest_serialize_def EventClientReply_serialize_def
  EventWorkerReply_serialize_def EventWorkerDisconnect_serialize_def
  EventBrokerDisconnect_serialize_def

end
