(* ===== verification/Mdp_Broker.thy ===== *)
theory Mdp_Broker
  imports Mdp_Wire
begin

text \<open>
  The broker of the Majordomo Protocol, \<open>Broker\<close> of
  \<^verbatim>\<open>zato-zmq/src/zato/zmq_/mdp/broker.py\<close>: the services it offers with their queues of
  requests, the workers registered for them, heartbeats and expiry, the pool of internal
  workers and the dispatching of requests. The socket is the list of messages sent, the clock
  and the source of correlation ids are sequences of readings, and the callback that invokes
  a Zato service answers from the list of the invocations made so far.
\<close>

section \<open>State\<close>

record mdp_service =
  sv_name :: string
  sv_workers :: "string list"
  sv_len_current_workers :: int
  sv_has_initialized_workers :: bool
  sv_has_max_workers :: bool
  sv_pending_requests :: "worker_request list"

definition new_service :: "string \<Rightarrow> mdp_service" where
  "new_service name =
     \<lparr>sv_name = name, sv_workers = [], sv_len_current_workers = 0,
      sv_has_initialized_workers = False, sv_has_max_workers = False, sv_pending_requests = []\<rparr>"

text \<open>What a service invocation returns: \<open>None\<close>, bytes, text (here its code points) or another
  object with its truth value and its rendering.\<close>

datatype pyobj = PyNone | PyBytes string | PyText "nat list" | PyOther bool string

fun truthy :: "pyobj \<Rightarrow> bool" where
  "truthy PyNone = False"
| "truthy (PyBytes b) = (b \<noteq> [])"
| "truthy (PyText t) = (t \<noteq> [])"
| "truthy (PyOther b _) = b"

text \<open>\<open>text.encode('utf-8')\<close>, code point by code point.\<close>

definition utf8_point :: "nat \<Rightarrow> string" where
  "utf8_point n =
     (if n < 128 then [char_of n]
      else if n < 2048 then [char_of (192 + n div 64), char_of (128 + n mod 64)]
      else if n < 65536 then
        [char_of (224 + n div 4096), char_of (128 + n div 64 mod 64), char_of (128 + n mod 64)]
      else [char_of (240 + n div 262144), char_of (128 + n div 4096 mod 64),
            char_of (128 + n div 64 mod 64), char_of (128 + n mod 64)])"

definition utf8_encode :: "nat list \<Rightarrow> string" where
  "utf8_encode t = concat (map utf8_point t)"

text \<open>One invocation of the callback: correlation id, service name, request.\<close>

type_synonym invocation = "string \<times> string \<times> worker_request"

record broker =
  b_has_service_source_zato :: bool
  b_zato_service_name :: string
  b_workers_pool_initial :: int
  b_workers_pool_mult :: int
  b_workers_pool_max :: int
  b_heartbeat :: int
  b_services :: "(string, mdp_service) dict"
  b_workers :: "(string, worker_data) dict"
  b_sent :: "string list list"
  b_invoked :: "invocation list"
  b_callback :: "invocation list \<Rightarrow> exn + pyobj"
  b_clock :: "nat \<Rightarrow> int"
  b_ticks :: nat
  b_cid_source :: "nat \<Rightarrow> string"
  b_cids :: nat

text \<open>A hundred years in seconds, the life time of an internal worker.\<close>

definition y100 :: int where "y100 = 60 * 60 * 24 * 365 * 100"

datatype pool_strategy = Single | Unlimited
datatype service_source = SourceZato | SourceMdp01

definition init_broker ::
  "pool_strategy \<Rightarrow> service_source \<Rightarrow> string \<Rightarrow> int \<Rightarrow> int \<Rightarrow> int \<Rightarrow> int
   \<Rightarrow> (invocation list \<Rightarrow> exn + pyobj) \<Rightarrow> (nat \<Rightarrow> int) \<Rightarrow> (nat \<Rightarrow> string) \<Rightarrow> broker" where
  "init_broker strategy source service_name initial mult maxi heartbeat callback clock cids =
     \<lparr>b_has_service_source_zato = (source = SourceZato),
      b_zato_service_name = service_name,
      b_workers_pool_initial = (if strategy = Single then 1 else initial),
      b_workers_pool_mult = (if strategy = Single then 0 else mult),
      b_workers_pool_max = (if strategy = Single then 1 else maxi),
      b_heartbeat = heartbeat,
      b_services = [], b_workers = [], b_sent = [], b_invoked = [],
      b_callback = callback, b_clock = clock, b_ticks = 0, b_cid_source = cids, b_cids = 0\<rparr>"

text \<open>\<open>datetime.utcnow()\<close> and \<open>new_cid()\<close>.\<close>

definition utcnow :: "(broker, int) py" where
  "utcnow = py_bind (py_get (\<lambda>s. b_clock s (b_ticks s))) (\<lambda>t.
     py_seq (py_modify (b_ticks_update Suc)) (py_ret t))"

definition new_cid :: "(broker, string) py" where
  "new_cid = py_bind (py_get (\<lambda>s. b_cid_source s (b_cids s))) (\<lambda>c.
     py_seq (py_modify (b_cids_update Suc)) (py_ret c))"

definition send_multipart :: "string list \<Rightarrow> (broker, unit) py" where
  "send_multipart data = py_modify (b_sent_update (\<lambda>out. out @ [data]))"

definition mutate_service :: "string \<Rightarrow> (mdp_service \<Rightarrow> mdp_service) \<Rightarrow> (broker, unit) py" where
  "mutate_service n f = py_modify (b_services_update (dict_mutate n f))"

section \<open>Expiry\<close>

definition expired_ids :: "int \<Rightarrow> (string, worker_data) dict \<Rightarrow> string list" where
  "expired_ids now ws = [wd_id w. w \<leftarrow> dict_values ws, now \<ge> wd_expires_at w]"

text \<open>\<open>service.workers.remove(item)\<close> raises when the list does not hold the item.\<close>

definition remove_from_service :: "string \<Rightarrow> string \<Rightarrow> (broker, unit) py" where
  "remove_from_service item n = py_bind (item_get b_services n) (\<lambda>svc.
     if item \<in> set (sv_workers svc)
     then mutate_service n (\<lambda>v. v\<lparr>sv_workers := remove1 item (sv_workers v)\<rparr>)
     else py_raise ValueError)"

definition remove_expired :: "string \<Rightarrow> (broker, unit) py" where
  "remove_expired item =
     py_seq (item_del b_workers b_workers_update item)
    (py_bind (py_get (\<lambda>s. dict_keys (b_services s))) (\<lambda>names.
     py_for names (remove_from_service item)))"

definition cleanup_workers :: "(broker, unit) py" where
  "cleanup_workers = py_bind utcnow (\<lambda>now.
     py_bind (py_get (\<lambda>s. expired_ids now (b_workers s))) (\<lambda>expired.
     py_for expired remove_expired))"

section \<open>Sending\<close>

definition send_to_worker_zmq :: "string list \<Rightarrow> (broker, unit) py" where
  "send_to_worker_zmq data = send_multipart data"

definition unwrap_worker :: "worker_data \<Rightarrow> (broker, string) py" where
  "unwrap_worker w = (case unwrap_id w of Inl e \<Rightarrow> py_raise e | Inr i \<Rightarrow> py_ret i)"

definition send_disconnect_to_all :: "(broker, unit) py" where
  "send_disconnect_to_all = py_seq cleanup_workers
     (py_bind (py_get (\<lambda>s. dict_values (b_workers s))) (\<lambda>ws.
      py_for ws (\<lambda>w. py_bind (unwrap_worker w) (\<lambda>i.
        send_to_worker_zmq (EventBrokerDisconnect_serialize i)))))"

definition send_heartbeat :: "string \<times> worker_data \<Rightarrow> int \<Rightarrow> (broker, unit) py" where
  "send_heartbeat kw now = py_bind (unwrap_worker (snd kw)) (\<lambda>i.
     py_seq (send_to_worker_zmq (EventBrokerHeartbeat_serialize i))
       (py_modify (b_workers_update (dict_mutate (fst kw) (\<lambda>w. w\<lparr>wd_last_hb_sent := Some now\<rparr>)))))"

definition hb_due :: "int \<Rightarrow> int \<Rightarrow> worker_data \<Rightarrow> bool" where
  "hb_due heartbeat now w \<longleftrightarrow> wd_type w = WZmq \<and>
     (case wd_last_hb_sent w of None \<Rightarrow> True | Some t \<Rightarrow> now \<ge> t + seconds heartbeat)"

definition send_heartbeats :: "(broker, unit) py" where
  "send_heartbeats = py_bind utcnow (\<lambda>now.
     py_seq cleanup_workers
    (py_bind (py_get b_workers) (\<lambda>ws.
     py_bind (py_get b_heartbeat) (\<lambda>hb.
     py_for ws (\<lambda>kw. py_when (hb_due hb now (snd kw)) (send_heartbeat kw now))))))"

section \<open>Adding workers\<close>

definition add_worker :: "string \<Rightarrow> string \<Rightarrow> int \<Rightarrow> worker_type \<Rightarrow> (broker, unit) py" where
  "add_worker worker_id service_name ttl ty = py_bind utcnow (\<lambda>now.
     let wd = WorkerData ty worker_id service_name now None (now + seconds ttl) in
     py_seq (item_set b_workers_update (wd_id wd) wd)
    (py_seq (py_modify (b_services_update (dict_setdefault service_name (new_service service_name))))
       (mutate_service service_name (\<lambda>v. v\<lparr>sv_workers := sv_workers v @ [wd_id wd]\<rparr>))))"

text \<open>\<open>range(n)\<close> is empty for a negative \<open>n\<close>.\<close>

definition add_n_workers :: "string \<Rightarrow> int \<Rightarrow> (broker, unit) py" where
  "add_n_workers n how_many = py_for [0..<nat how_many] (\<lambda>_.
     py_bind new_cid (\<lambda>cid. add_worker (''mdp.'' @ cid) n y100 WZato))"

definition how_many_to_add :: "broker \<Rightarrow> mdp_service \<Rightarrow> int" where
  "how_many_to_add s svc =
     (let how_many = sv_len_current_workers svc * b_workers_pool_mult s in
      if sv_len_current_workers svc + how_many > b_workers_pool_max s
      then b_workers_pool_max s - sv_len_current_workers svc else how_many)"

definition add_workers :: "string \<Rightarrow> (broker, unit) py" where
  "add_workers n = py_bind (item_get b_services n) (\<lambda>svc.
     py_seq
       (if \<not> sv_has_initialized_workers svc
        then py_bind (py_get b_workers_pool_initial) (\<lambda>initial.
             py_seq (add_n_workers n initial)
               (mutate_service n (\<lambda>v. v\<lparr>sv_has_initialized_workers := True,
                                        sv_len_current_workers := initial\<rparr>)))
        else py_bind (py_get (\<lambda>s. how_many_to_add s svc)) (\<lambda>k.
             py_seq (add_n_workers n k)
               (mutate_service n (\<lambda>v. v\<lparr>sv_len_current_workers := sv_len_current_workers v + k\<rparr>))))
       (py_bind (item_get b_services n) (\<lambda>svc'.
        py_bind (py_get b_workers_pool_max) (\<lambda>maxi.
        py_when (sv_len_current_workers svc' \<ge> maxi)
          (mutate_service n (\<lambda>v. v\<lparr>sv_has_max_workers := True\<rparr>))))))"

section \<open>Dispatching\<close>

definition reply :: "string \<Rightarrow> string \<Rightarrow> (broker, unit) py" where
  "reply recipient body =
     send_multipart (EventClientReply_serialize body recipient ''dummy-for-now'')"

definition invoke_service :: "string \<Rightarrow> worker_request \<Rightarrow> (broker, pyobj) py" where
  "invoke_service service request = py_bind new_cid (\<lambda>cid.
     py_seq (py_modify (b_invoked_update (\<lambda>xs. xs @ [(cid, service, request)])))
    (py_bind (py_get (\<lambda>s. b_callback s (b_invoked s))) (\<lambda>r.
     case r of Inl e \<Rightarrow> py_raise e | Inr v \<Rightarrow> py_ret v)))"

text \<open>Responses go out as bytes: text is encoded, anything else rendered, \<open>None\<close> empty.\<close>

fun response_bytes :: "pyobj \<Rightarrow> string" where
  "response_bytes (PyText t) = utf8_encode t"
| "response_bytes (PyBytes b) = b"
| "response_bytes (PyOther _ r) = r"
| "response_bytes PyNone = []"

definition send_to_worker_zato ::
  "worker_request \<Rightarrow> worker_data \<Rightarrow> string \<Rightarrow> (broker, unit) py" where
  "send_to_worker_zato request worker zmq_service_name =
     py_finally
       (py_bind (py_get b_zato_service_name) (\<lambda>zato_name.
        py_bind (py_get b_has_service_source_zato) (\<lambda>from_zato.
        py_bind (if from_zato then py_ret True
                 else py_bind (invoke_service zato_name request) (\<lambda>r. py_ret (truthy r)))
          (\<lambda>is_allowed.
           py_when is_allowed
             (py_bind (invoke_service (if from_zato then zato_name else zmq_service_name) request)
               (\<lambda>response. reply (wr_client request) (response_bytes response)))))))
       (add_worker (wd_id worker) (wd_service_name worker) y100 WZato)"

definition workers_pop :: "string \<Rightarrow> (broker, worker_data) py" where
  "workers_pop i = py_bind (item_get b_workers i) (\<lambda>w.
     py_seq (py_modify (b_workers_update (dict_del i))) (py_ret w))"

definition deliver_request :: "string \<Rightarrow> worker_request \<Rightarrow> worker_data \<Rightarrow> (broker, unit) py" where
  "deliver_request n req worker =
     (if wd_type worker = WZato then send_to_worker_zato req worker n
      else py_bind (unwrap_worker worker) (\<lambda>i.
             send_to_worker_zmq (EventWorkerRequest_serialize req i)))"

text \<open>
  The loop over pending requests. Each round takes one request and none is added, so the
  number of pending requests at its start is enough fuel.
\<close>

primrec dispatch_loop :: "nat \<Rightarrow> string \<Rightarrow> (broker, unit) py" where
  "dispatch_loop 0 n = py_ret ()"
| "dispatch_loop (Suc k) n = py_bind (item_get b_services n) (\<lambda>svc.
     case (sv_pending_requests svc, sv_workers svc) of
       (req # _, i # _) \<Rightarrow>
         py_seq (mutate_service n (\<lambda>v. v\<lparr>sv_pending_requests := tl (sv_pending_requests v)\<rparr>))
        (py_seq (mutate_service n (\<lambda>v. v\<lparr>sv_workers := tl (sv_workers v)\<rparr>))
        (py_bind (workers_pop i) (\<lambda>worker.
         py_seq (deliver_request n req worker) (dispatch_loop k n))))
     | _ \<Rightarrow> py_ret ())"

definition dispatch_pending :: "string \<Rightarrow> (broker, unit) py" where
  "dispatch_pending n = py_bind (item_get b_services n) (\<lambda>svc.
     dispatch_loop (length (sv_pending_requests svc)) n)"

definition dispatch_requests :: "string \<Rightarrow> (broker, unit) py" where
  "dispatch_requests n = py_bind (item_get b_services n) (\<lambda>_.
     py_seq cleanup_workers
    (py_bind (item_get b_services n) (\<lambda>svc.
     if sv_workers svc = [] \<and> sv_has_max_workers svc then py_ret ()
     else py_seq (py_when (sv_workers svc = []) (add_workers n)) (dispatch_pending n))))"

section \<open>Messages from clients and workers\<close>

definition handle_client_message :: "string \<Rightarrow> string \<Rightarrow> string \<Rightarrow> (broker, unit) py" where
  "handle_client_message sender_id service_name received_body =
     py_seq (py_modify (b_services_update (dict_setdefault service_name (new_service service_name))))
    (py_seq (mutate_service service_name (\<lambda>v. v\<lparr>sv_pending_requests :=
               sv_pending_requests v @ [\<lparr>wr_body = received_body, wr_client = sender_id\<rparr>]\<rparr>))
       (dispatch_requests service_name))"

definition on_event_ready :: "string \<Rightarrow> string list \<Rightarrow> (broker, unit) py" where
  "on_event_ready worker_id data =
     (case data of [] \<Rightarrow> py_raise IndexError
      | service_name # _ \<Rightarrow>
          py_seq (add_worker worker_id service_name ttl_secs WZmq) (dispatch_requests service_name))"

definition on_event_reply :: "string \<Rightarrow> string list \<Rightarrow> (broker, unit) py" where
  "on_event_reply worker_id data =
     (case data of [recipient, _, body] \<Rightarrow> reply recipient body | _ \<Rightarrow> py_raise ValueError)"

definition on_event_heartbeat :: "string \<Rightarrow> (broker, unit) py" where
  "on_event_heartbeat worker_id =
     (let wrapped = wrap_worker_id WZmq worker_id in
      py_bind (py_get (\<lambda>s. map_of (b_workers s) wrapped)) (\<lambda>found.
      case found of None \<Rightarrow> py_ret ()
      | Some _ \<Rightarrow> py_bind utcnow (\<lambda>now.
          py_modify (b_workers_update (dict_mutate wrapped
            (\<lambda>w. w\<lparr>wd_last_hb_received := now, wd_expires_at := now + seconds ttl_secs\<rparr>))))))"

definition on_event_disconnect :: "string \<Rightarrow> (broker, unit) py" where
  "on_event_disconnect worker_id =
     (let wrapped = wrap_worker_id WZmq worker_id in
      py_seq (py_modify (b_workers_update (dict_del wrapped)))
        (py_modify (b_services_update (map (\<lambda>(n, v). (n,
           if wrapped \<in> set (sv_workers v)
           then v\<lparr>sv_workers := remove1 wrapped (sv_workers v)\<rparr> else v))))))"

definition handle_worker_message :: "string \<Rightarrow> string list \<Rightarrow> (broker, unit) py" where
  "handle_worker_message worker_id payload =
     (case payload of [] \<Rightarrow> py_raise IndexError
      | event # data \<Rightarrow>
          if event = v01_ready then on_event_ready worker_id data
          else if event = v01_reply_from_worker then on_event_reply worker_id data
          else if event = v01_heartbeat then on_event_heartbeat worker_id
          else if event = v01_disconnect then on_event_disconnect worker_id
          else py_raise KeyError)"

text \<open>
  A message is \<open>[sender id, empty, originator, payload...]\<close>. A client's payload is passed as
  two positional arguments, so any other number of frames is a \<open>TypeError\<close>.
\<close>

definition handle_raw :: "string list \<Rightarrow> (broker, unit) py" where
  "handle_raw msg =
     (case msg of
        sender_id # _ # originator # payload \<Rightarrow>
          if originator = v01_client then
            (case payload of [service_name, body] \<Rightarrow> handle_client_message sender_id service_name body
             | _ \<Rightarrow> py_raise TypeError)
          else handle_worker_message sender_id payload
      | _ \<Rightarrow> py_raise IndexError)"

definition handle :: "string list \<Rightarrow> (broker, unit) py" where
  "handle msg = py_try (handle_raw msg) (\<lambda>_. py_ret ())"

section \<open>The main loop\<close>

text \<open>
  One round of \<open>serve_forever\<close> for what polling gave; it returns whether the loop goes on
  and the message to handle in a new greenlet. A keyboard interrupt leaves the loop by way of
  \<open>send_disconnect_to_all\<close>, whose exceptions no other clause of that \<open>try\<close> catches.
\<close>

datatype polled = Nothing | Message "string list" | Interrupt

definition serve_round :: "polled \<Rightarrow> (broker, bool \<times> string list option) py" where
  "serve_round p =
     (case p of
        Interrupt \<Rightarrow> py_seq send_disconnect_to_all (py_ret (False, None))
      | _ \<Rightarrow> py_try
          (py_seq send_heartbeats
             (py_ret (True, case p of Message m \<Rightarrow> Some m | _ \<Rightarrow> None)))
          (\<lambda>_. py_ret (True, None)))"

end
