(* ===== verification/Mdp_Broker_Facts.thy ===== *)
theory Mdp_Broker_Facts
  imports Mdp_Broker
begin

text \<open>
  Facts about the broker of \<open>Mdp_Broker\<close>: what its primitive methods do, the consistency of
  its two worker registries and which methods keep it, when expiry fails, how pending
  requests are dispatched, and the bound on the pool of internal workers.
\<close>

section \<open>Primitive methods\<close>

lemma broker_update_simps [simp]:
  "b_services_update (dict_setdefault n v) s = s\<lparr>b_services := dict_setdefault n v (b_services s)\<rparr>"
  "b_services_update (dict_mutate n f) s = s\<lparr>b_services := dict_mutate n f (b_services s)\<rparr>"
  "b_workers_update (dict_set i w) s = s\<lparr>b_workers := dict_set i w (b_workers s)\<rparr>"
  "b_workers_update (dict_del i) s = s\<lparr>b_workers := dict_del i (b_workers s)\<rparr>"
  "b_workers_update (dict_mutate i g) s = s\<lparr>b_workers := dict_mutate i g (b_workers s)\<rparr>"
  by simp_all

lemma utcnow_run [py_run]:
  "utcnow s = (Inr (b_clock s (b_ticks s)), s\<lparr>b_ticks := Suc (b_ticks s)\<rparr>)"
  by (simp add: utcnow_def py_run)

lemma new_cid_run [py_run]:
  "new_cid s = (Inr (b_cid_source s (b_cids s)), s\<lparr>b_cids := Suc (b_cids s)\<rparr>)"
  by (simp add: new_cid_def py_run)

lemma send_multipart_run [py_run]:
  "send_multipart data s = (Inr (), s\<lparr>b_sent := b_sent s @ [data]\<rparr>)"
  by (simp add: send_multipart_def py_run)

lemma send_to_worker_zmq_run [py_run]:
  "send_to_worker_zmq data s = (Inr (), s\<lparr>b_sent := b_sent s @ [data]\<rparr>)"
  by (simp add: send_to_worker_zmq_def py_run)

lemma mutate_service_run [py_run]:
  "mutate_service n f s = (Inr (), s\<lparr>b_services := dict_mutate n f (b_services s)\<rparr>)"
  by (simp add: mutate_service_def py_run)

lemma reply_run [py_run]:
  "reply r body s =
     (Inr (), s\<lparr>b_sent := b_sent s @ [EventClientReply_serialize body r ''dummy-for-now'']\<rparr>)"
  by (simp add: reply_def py_run)

lemma unwrap_worker_run [py_run]:
  "unwrap_worker w s = (case unwrap_id w of Inl e \<Rightarrow> (Inl e, s) | Inr i \<Rightarrow> (Inr i, s))"
  by (simp add: unwrap_worker_def py_run split: sum.split)

lemma workers_pop_run [py_run]:
  "workers_pop i s =
     (case map_of (b_workers s) i of None \<Rightarrow> (Inl KeyError, s)
      | Some w \<Rightarrow> (Inr w, s\<lparr>b_workers := dict_del i (b_workers s)\<rparr>))"
  by (simp add: workers_pop_def py_run split: option.split)

lemma remove_from_service_run [py_run]:
  "remove_from_service item n s =
     (case map_of (b_services s) n of None \<Rightarrow> (Inl KeyError, s)
      | Some v \<Rightarrow> if item \<in> set (sv_workers v)
          then (Inr (), s\<lparr>b_services :=
                  dict_mutate n (\<lambda>v. v\<lparr>sv_workers := remove1 item (sv_workers v)\<rparr>) (b_services s)\<rparr>)
          else (Inl ValueError, s))"
  by (simp add: remove_from_service_def py_run split: option.split)

text \<open>The worker a registration adds, and the state it leaves.\<close>

definition registered :: "string \<Rightarrow> string \<Rightarrow> int \<Rightarrow> worker_type \<Rightarrow> broker \<Rightarrow> worker_data" where
  "registered worker_id n ttl ty s =
     (let now = b_clock s (b_ticks s) in WorkerData ty worker_id n now None (now + seconds ttl))"

lemma add_worker_run [py_run]:
  "add_worker worker_id n ttl ty s =
     (let wd = registered worker_id n ttl ty s in
      (Inr (), s\<lparr>b_ticks := Suc (b_ticks s),
                 b_workers := dict_set (wd_id wd) wd (b_workers s),
                 b_services := dict_mutate n (\<lambda>v. v\<lparr>sv_workers := sv_workers v @ [wd_id wd]\<rparr>)
                   (dict_setdefault n (new_service n) (b_services s))\<rparr>))"
  by (simp add: add_worker_def registered_def py_run Let_def)

lemma registered_simps [simp]:
  "wd_type (registered i n ttl ty s) = ty"
  "wd_service_name (registered i n ttl ty s) = n"
  "wd_id (registered i n ttl ty s) = (if ty = WZmq then wrap_worker_id WZmq i else i)"
  by (simp_all add: registered_def WorkerData_def Let_def)

section \<open>Consistency of the worker registries\<close>

text \<open>
  Every id a service lists is a registered worker of that service, listed once, and every
  registered worker is listed by its service.
\<close>

definition broker_ok :: "broker \<Rightarrow> bool" where
  "broker_ok s \<longleftrightarrow>
     dict_ok (b_services s) \<and> dict_ok (b_workers s) \<and>
     (\<forall>i w. map_of (b_workers s) i = Some w \<longrightarrow> wd_id w = i \<and>
        (\<exists>v. map_of (b_services s) (wd_service_name w) = Some v \<and> i \<in> set (sv_workers v))) \<and>
     (\<forall>n v. map_of (b_services s) n = Some v \<longrightarrow> distinct (sv_workers v) \<and>
        (\<forall>i \<in> set (sv_workers v). \<exists>w. map_of (b_workers s) i = Some w \<and> wd_service_name w = n))"

lemma broker_okD:
  assumes "broker_ok s"
  shows "dict_ok (b_services s)" "dict_ok (b_workers s)"
    and "map_of (b_workers s) i = Some w \<Longrightarrow> wd_id w = i"
    and "map_of (b_workers s) i = Some w \<Longrightarrow>
           \<exists>v. map_of (b_services s) (wd_service_name w) = Some v \<and> i \<in> set (sv_workers v)"
    and "map_of (b_services s) n = Some v \<Longrightarrow> distinct (sv_workers v)"
    and "map_of (b_services s) n = Some v \<Longrightarrow> i \<in> set (sv_workers v) \<Longrightarrow>
           \<exists>w. map_of (b_workers s) i = Some w \<and> wd_service_name w = n"
  using assms by (auto simp: broker_ok_def)

lemma broker_okI:
  assumes "dict_ok (b_services s)" "dict_ok (b_workers s)"
    and "\<And>i w. map_of (b_workers s) i = Some w \<Longrightarrow> wd_id w = i \<and>
        (\<exists>v. map_of (b_services s) (wd_service_name w) = Some v \<and> i \<in> set (sv_workers v))"
    and "\<And>n v. map_of (b_services s) n = Some v \<Longrightarrow> distinct (sv_workers v)"
    and "\<And>n v i. map_of (b_services s) n = Some v \<Longrightarrow> i \<in> set (sv_workers v) \<Longrightarrow>
        \<exists>w. map_of (b_workers s) i = Some w \<and> wd_service_name w = n"
  shows "broker_ok s"
  using assms by (simp add: broker_ok_def)

text \<open>The registries only.\<close>

lemma broker_ok_cong:
  "b_services s = b_services t \<Longrightarrow> b_workers s = b_workers t \<Longrightarrow> broker_ok s = broker_ok t"
  by (simp add: broker_ok_def)

lemma broker_ok_other_fields [simp]:
  "broker_ok (s\<lparr>b_ticks := x\<rparr>) = broker_ok s"
  "broker_ok (s\<lparr>b_cids := x\<rparr>) = broker_ok s"
  "broker_ok (s\<lparr>b_sent := y\<rparr>) = broker_ok s"
  "broker_ok (s\<lparr>b_invoked := z\<rparr>) = broker_ok s"
  by (rule broker_ok_cong; simp)+

text \<open>Registering a worker under an id not in use keeps the registries consistent.\<close>

lemma broker_ok_add_worker:
  assumes ok: "broker_ok s"
    and fresh: "map_of (b_workers s) (wd_id (registered i n ttl ty s)) = None"
  shows "broker_ok (snd (add_worker i n ttl ty s))"
proof -
  let ?wd = "registered i n ttl ty s" and ?t = "snd (add_worker i n ttl ty s)"
  let ?base = "case map_of (b_services s) n of None \<Rightarrow> new_service n | Some v \<Rightarrow> v"
  have ws: "map_of (b_workers ?t) k = (if k = wd_id ?wd then Some ?wd else map_of (b_workers s) k)" for k
    by (simp add: py_run Let_def dict_simps)
  have sv: "map_of (b_services ?t) m =
      (if m = n then Some (?base\<lparr>sv_workers := sv_workers ?base @ [wd_id ?wd]\<rparr>)
       else map_of (b_services s) m)" for m
    by (simp add: py_run Let_def dict_simps split: option.split)
  have fresh': "wd_id ?wd \<notin> set (sv_workers v)" if "map_of (b_services s) m = Some v" for m v
    using broker_okD(6) [OF ok that] fresh by fastforce
  show ?thesis
  proof (rule broker_okI)
    show "dict_ok (b_services ?t)" "dict_ok (b_workers ?t)"
      using broker_okD(1,2) [OF ok] by (simp_all add: py_run Let_def del: registered_simps)
  next
    fix k w assume "map_of (b_workers ?t) k = Some w"
    then consider "k = wd_id ?wd" "w = ?wd" | "k \<noteq> wd_id ?wd" "map_of (b_workers s) k = Some w"
      by (auto simp: ws simp del: registered_simps split: if_splits)
    then show "wd_id w = k \<and>
        (\<exists>v. map_of (b_services ?t) (wd_service_name w) = Some v \<and> k \<in> set (sv_workers v))"
    proof cases
      case 1
      then show ?thesis by (simp add: sv)
    next
      case 2
      then obtain v where "map_of (b_services s) (wd_service_name w) = Some v" "k \<in> set (sv_workers v)"
        using broker_okD(4) [OF ok] by blast
      with 2 broker_okD(3) [OF ok 2(2)] show ?thesis by (auto simp: sv)
    qed
  next
    fix m v assume "map_of (b_services ?t) m = Some v"
    then show "distinct (sv_workers v)"
      using fresh' broker_okD(5) [OF ok]
      by (fastforce simp: sv new_service_def simp del: registered_simps split: if_splits option.splits)
  next
    fix m v k assume v: "map_of (b_services ?t) m = Some v" and k: "k \<in> set (sv_workers v)"
    show "\<exists>w. map_of (b_workers ?t) k = Some w \<and> wd_service_name w = m"
    proof (cases "k = wd_id ?wd")
      case True
      with v k fresh' show ?thesis
        by (auto simp: ws sv simp del: registered_simps(3) split: if_splits)
    next
      case False
      then have "\<exists>v'. map_of (b_services s) m = Some v' \<and> k \<in> set (sv_workers v')"
        using v k by (auto simp: sv new_service_def simp del: registered_simps split: if_splits option.splits)
      with False show ?thesis
        using broker_okD(6) [OF ok] by (auto simp: ws simp del: registered_simps)
    qed
  qed
qed


text \<open>Removing a worker from both registries keeps them consistent.\<close>

lemma broker_ok_dropI:
  assumes ok: "broker_ok s"
    and d: "dict_ok (b_services t)"
    and ws: "b_workers t = dict_del i (b_workers s)"
    and sv: "\<And>m. rel_option (\<lambda>v' v. distinct (sv_workers v') \<and> set (sv_workers v') = set (sv_workers v) - {i})
                (map_of (b_services t) m) (map_of (b_services s) m)"
  shows "broker_ok t"
proof (rule broker_okI)
  show "dict_ok (b_services t)" by fact
  show "dict_ok (b_workers t)" using broker_okD(2) [OF ok] ws by simp
next
  fix k w assume "map_of (b_workers t) k = Some w"
  then have k: "k \<noteq> i" "map_of (b_workers s) k = Some w" by (auto simp: ws dict_simps split: if_splits)
  then obtain v where "map_of (b_services s) (wd_service_name w) = Some v" "k \<in> set (sv_workers v)"
    using broker_okD(4) [OF ok] by blast
  with k sv [of "wd_service_name w"] broker_okD(3) [OF ok k(2)]
  show "wd_id w = k \<and>
      (\<exists>v. map_of (b_services t) (wd_service_name w) = Some v \<and> k \<in> set (sv_workers v))"
    by (auto simp: option_rel_Some2)
next
  fix m v assume "map_of (b_services t) m = Some v"
  then show "distinct (sv_workers v)" using sv [of m] by (auto simp: option_rel_Some1)
next
  fix m v k assume "map_of (b_services t) m = Some v" "k \<in> set (sv_workers v)"
  then obtain u where "map_of (b_services s) m = Some u" "k \<in> set (sv_workers u)" "k \<noteq> i"
    using sv [of m] by (auto simp: option_rel_Some1)
  then show "\<exists>w. map_of (b_workers t) k = Some w \<and> wd_service_name w = m"
    using broker_okD(6) [OF ok] by (auto simp: ws dict_simps)
qed

text \<open>A worker is listed by its own service only.\<close>

lemma broker_ok_listed_once:
  assumes "broker_ok s" "map_of (b_workers s) i = Some w"
    and "map_of (b_services s) m = Some v" "m \<noteq> wd_service_name w"
  shows "i \<notin> set (sv_workers v)"
  using broker_okD(6) [OF assms(1,3)] assms(2,4) by fastforce

lemma broker_ok_unlisted:
  assumes "broker_ok s" "map_of (b_workers s) i = None" "map_of (b_services s) m = Some v"
  shows "i \<notin> set (sv_workers v)"
  using broker_okD(6) [OF assms(1,3)] assms(2) by fastforce

lemma on_event_disconnect_run:
  "on_event_disconnect raw s = (Inr (), s\<lparr>
     b_workers := dict_del (wrap_worker_id WZmq raw) (b_workers s),
     b_services := map (\<lambda>(n, v). (n, if wrap_worker_id WZmq raw \<in> set (sv_workers v)
       then v\<lparr>sv_workers := remove1 (wrap_worker_id WZmq raw) (sv_workers v)\<rparr> else v)) (b_services s)\<rparr>)"
  by (simp add: on_event_disconnect_def py_run Let_def)

lemma broker_ok_disconnect:
  assumes ok: "broker_ok s"
  shows "broker_ok (snd (on_event_disconnect raw s))"
proof (rule broker_ok_dropI [OF ok, where i = "wrap_worker_id WZmq raw"])
  show "dict_ok (b_services (snd (on_event_disconnect raw s)))"
    using broker_okD(1) [OF ok]
    by (simp add: on_event_disconnect_run comp_def split_def)
next
  fix m
  show "rel_option (\<lambda>v' v. distinct (sv_workers v') \<and>
            set (sv_workers v') = set (sv_workers v) - {wrap_worker_id WZmq raw})
          (map_of (b_services (snd (on_event_disconnect raw s))) m) (map_of (b_services s) m)"
    using broker_okD(5) [OF ok, of m]
    by (cases "map_of (b_services s) m") (auto simp: on_event_disconnect_run map_of_map_values)
qed (simp add: on_event_disconnect_run)

text \<open>Taking the first worker of a service's list, as dispatching does.\<close>

definition take_first :: "string \<Rightarrow> string \<Rightarrow> broker \<Rightarrow> broker" where
  "take_first n i s = s\<lparr>
     b_services := dict_mutate n (\<lambda>v. v\<lparr>sv_workers := tl (sv_workers v)\<rparr>)
       (dict_mutate n (\<lambda>v. v\<lparr>sv_pending_requests := tl (sv_pending_requests v)\<rparr>) (b_services s)),
     b_workers := dict_del i (b_workers s)\<rparr>"

lemma broker_ok_take_first:
  assumes ok: "broker_ok s" and v: "map_of (b_services s) n = Some v" and i: "sv_workers v = i # rest"
  shows "broker_ok (take_first n i s)"
proof -
  obtain w where w: "map_of (b_workers s) i = Some w" "wd_service_name w = n"
    using broker_okD(6) [OF ok v] i by auto
  have d: "distinct (i # rest)" using broker_okD(5) [OF ok v] i by simp
  show ?thesis
  proof (rule broker_ok_dropI [OF ok, where i = i])
    fix m
    show "rel_option (\<lambda>v' v. distinct (sv_workers v') \<and> set (sv_workers v') = set (sv_workers v) - {i})
          (map_of (b_services (take_first n i s)) m) (map_of (b_services s) m)"
    proof (cases "m = n")
      case True
      with d v i show ?thesis by (auto simp: take_first_def dict_simps)
    next
      case False
      then show ?thesis
        using broker_ok_listed_once [OF ok w(1), of m] broker_okD(5) [OF ok, of m] w(2)
        by (cases "map_of (b_services s) m") (auto simp: take_first_def dict_simps)
    qed
  qed (use broker_okD(1) [OF ok] in \<open>simp_all add: take_first_def\<close>)
qed


section \<open>Expiry\<close>

lemma for_remove_raises:
  assumes "distinct ns" and "set ns \<subseteq> fst ` set (b_services t)"
    and "\<exists>n \<in> set ns. \<forall>v. map_of (b_services t) n = Some v \<longrightarrow> item \<notin> set (sv_workers v)"
  shows "fst (py_for ns (remove_from_service item) t) = Inl ValueError"
  using assms
proof (induction ns arbitrary: t)
  case (Cons n ns)
  from Cons.prems(2) obtain v where v: "map_of (b_services t) n = Some v"
    by (metis list.set_intros(1) map_of_None_iff not_Some_eq subsetD)
  show ?case
  proof (cases "item \<in> set (sv_workers v)")
    case False
    with v show ?thesis by (simp add: py_run)
  next
    case True
    let ?t = "snd (remove_from_service item n t)"
    have run: "remove_from_service item n t = (Inr (), ?t)" using True v by (simp add: py_run)
    have keys: "fst ` set (b_services ?t) = fst ` set (b_services t)"
      using True v by (simp add: py_run)
    obtain m where m: "m \<in> set ns" "\<forall>v. map_of (b_services t) m = Some v \<longrightarrow> item \<notin> set (sv_workers v)"
      using Cons.prems(3) True v by auto
    have "fst (py_for ns (remove_from_service item) ?t) = Inl ValueError"
    proof (rule Cons.IH)
      show "\<exists>n \<in> set ns. \<forall>v. map_of (b_services ?t) n = Some v \<longrightarrow> item \<notin> set (sv_workers v)"
        using m True v Cons.prems(1) by (intro bexI [of _ m]) (auto simp: py_run dict_simps)
    qed (use Cons.prems keys in auto)
    then show ?thesis
      by (simp add: py_seq_Inr [of "remove_from_service item n" t "()" ?t, OF run])
  qed
qed simp

lemma expired_ids_filter:
  "\<forall>p \<in> set ws. wd_id (snd p) = fst p \<Longrightarrow>
     expired_ids now ws = dict_keys (filter (\<lambda>p. now \<ge> wd_expires_at (snd p)) ws)"
  by (induction ws) (auto simp: expired_ids_def)

lemma expired_ids_keys:
  assumes "broker_ok s"
  shows "expired_ids now (b_workers s) =
    dict_keys (filter (\<lambda>p. now \<ge> wd_expires_at (snd p)) (b_workers s))"
  using broker_okD(2,3) [OF assms]
  by (intro expired_ids_filter) (auto simp: map_of_in_set [symmetric])

lemma expired_ids_distinct: "broker_ok s \<Longrightarrow> distinct (expired_ids now (b_workers s))"
  using broker_okD(2) [of s] by (simp add: expired_ids_keys distinct_map_filter)

lemma in_expired_ids:
  assumes "broker_ok s"
  shows "i \<in> set (expired_ids now (b_workers s)) \<longleftrightarrow>
    (\<exists>w. map_of (b_workers s) i = Some w \<and> now \<ge> wd_expires_at w)"
  using broker_okD(2) [OF assms] by (force simp: expired_ids_keys [OF assms] map_of_in_set [symmetric])

text \<open>With one service, removing expired workers always succeeds.\<close>

lemma remove_expired_single:
  assumes ok: "broker_ok s" and one: "dict_keys (b_services s) = [n]"
    and w: "map_of (b_workers s) i = Some w"
  shows "remove_expired i s = (Inr (), s\<lparr>b_workers := dict_del i (b_workers s),
       b_services := dict_mutate n (\<lambda>v. v\<lparr>sv_workers := remove1 i (sv_workers v)\<rparr>) (b_services s)\<rparr>)" (is ?run)
    and "broker_ok (snd (remove_expired i s))" (is ?ok)
proof -
  obtain v where v: "map_of (b_services s) (wd_service_name w) = Some v" "i \<in> set (sv_workers v)"
    using broker_okD(4) [OF ok w] by blast
  have n: "wd_service_name w = n"
    using v(1) one by (metis empty_iff insert_iff list.set(1) list.set_map list.simps(15) map_of_None_iff option.distinct(1))
  show run: ?run
    using v w n one by (simp add: remove_expired_def py_run)
  show ?ok
  proof (rule broker_ok_dropI [OF ok, where i = i])
    fix m
    show "rel_option (\<lambda>v' v. distinct (sv_workers v') \<and> set (sv_workers v') = set (sv_workers v) - {i})
          (map_of (b_services (snd (remove_expired i s))) m) (map_of (b_services s) m)"
      using broker_okD(5) [OF ok, of m] broker_ok_listed_once [OF ok w, of m] n
      by (cases "map_of (b_services s) m") (auto simp: run dict_simps)
  qed (use broker_okD(1) [OF ok] in \<open>simp_all add: run\<close>)
qed

lemma for_remove_expired_single:
  assumes "broker_ok s" "dict_keys (b_services s) = [n]" "distinct ids"
    and "set ids \<subseteq> fst ` set (b_workers s)"
  shows "\<exists>t. py_for ids remove_expired s = (Inr (), t) \<and> broker_ok t \<and> dict_keys (b_services t) = [n]
    \<and> (\<forall>i. map_of (b_workers t) i = (if i \<in> set ids then None else map_of (b_workers s) i))"
  using assms
proof (induction ids arbitrary: s)
  case Nil
  then show ?case by (simp add: py_run)
next
  case (Cons i ids)
  obtain w where w: "map_of (b_workers s) i = Some w"
    using Cons.prems(4) by (metis insert_subset list.simps(15) map_of_None_iff not_Some_eq)
  let ?t = "snd (remove_expired i s)"
  note run = remove_expired_single(1) [OF Cons.prems(1,2) w]
    and ok = remove_expired_single(2) [OF Cons.prems(1,2) w]
  have "dict_keys (b_services ?t) = [n]" using Cons.prems(2) by (simp add: run)
  moreover have "set ids \<subseteq> fst ` set (b_workers ?t)"
    using Cons.prems(3,4) by (simp add: run) blast
  ultimately obtain t where "py_for ids remove_expired ?t = (Inr (), t)" "broker_ok t"
    "dict_keys (b_services t) = [n]"
    "\<forall>j. map_of (b_workers t) j = (if j \<in> set ids then None else map_of (b_workers ?t) j)"
    using Cons.IH [OF ok] Cons.prems(3) by auto
  moreover have "py_for (i # ids) remove_expired s = py_for ids remove_expired ?t"
    by (simp add: py_seq_def run)
  moreover have "map_of (b_workers ?t) j = (if j = i then None else map_of (b_workers s) j)" for j
    by (simp add: run dict_simps)
  ultimately show ?case by (intro exI [of _ t]) simp
qed


definition due :: "broker \<Rightarrow> string list" where
  "due s = expired_ids (b_clock s (b_ticks s)) (b_workers s)"

lemma cleanup_workers_loop:
  "cleanup_workers s = py_for (due s) remove_expired (s\<lparr>b_ticks := Suc (b_ticks s)\<rparr>)"
  by (simp add: cleanup_workers_def due_def py_run)

lemma cleanup_nothing_due: "due s = [] \<Longrightarrow> cleanup_workers s = (Inr (), s\<lparr>b_ticks := Suc (b_ticks s)\<rparr>)"
  by (simp add: cleanup_workers_loop py_run)

lemma due_registered: "broker_ok s \<Longrightarrow> set (due s) \<subseteq> fst ` set (b_workers s)"
  by (auto simp: due_def expired_ids_keys)

lemma cleanup_workers_single:
  assumes ok: "broker_ok s" and one: "dict_keys (b_services s) = [n]"
  obtains t where "cleanup_workers s = (Inr (), t)" "broker_ok t" "dict_keys (b_services t) = [n]"
    "\<And>i. map_of (b_workers t) i = (if i \<in> set (due s) then None else map_of (b_workers s) i)"
proof -
  let ?s = "s\<lparr>b_ticks := Suc (b_ticks s)\<rparr>"
  have "\<exists>t. py_for (due s) remove_expired ?s = (Inr (), t) \<and> broker_ok t
      \<and> dict_keys (b_services t) = [n]
      \<and> (\<forall>i. map_of (b_workers t) i = (if i \<in> set (due s) then None else map_of (b_workers ?s) i))"
    using ok one due_registered [OF ok] expired_ids_distinct [OF ok]
    by (intro for_remove_expired_single) (simp_all add: due_def)
  then show ?thesis using that by (auto simp: cleanup_workers_loop)
qed

text \<open>With more services than one, the first expired worker makes expiry fail.\<close>

lemma cleanup_workers_several:
  assumes ok: "broker_ok s" and due: "due s \<noteq> []" and several: "2 \<le> length (b_services s)"
  shows "fst (cleanup_workers s) = Inl ValueError"
proof -
  obtain i rest where i: "due s = i # rest" using due by (cases "due s") auto
  then have "i \<in> fst ` set (b_workers s)" using due_registered [OF ok] by auto
  then obtain w where w: "map_of (b_workers s) i = Some w"
    by (metis map_of_None_iff not_Some_eq)
  let ?t = "b_workers_update (dict_del i) (s\<lparr>b_ticks := Suc (b_ticks s)\<rparr>)"
  have "\<exists>n \<in> set (dict_keys (b_services s)). n \<noteq> wd_service_name w"
  proof (rule ccontr)
    assume "\<not> ?thesis"
    then have "set (dict_keys (b_services s)) \<subseteq> {wd_service_name w}" by blast
    then have "card (set (dict_keys (b_services s))) \<le> 1"
      using card_mono [of "{wd_service_name w}"] by fastforce
    then show False
      using several distinct_card [OF broker_okD(1) [OF ok]] by simp
  qed
  then obtain n where n: "n \<in> set (dict_keys (b_services s))" "n \<noteq> wd_service_name w" by blast
  have "fst (py_for (dict_keys (b_services s)) (remove_from_service i) ?t) = Inl ValueError"
  proof (rule for_remove_raises)
    show "\<exists>n \<in> set (dict_keys (b_services s)).
        \<forall>v. map_of (b_services ?t) n = Some v \<longrightarrow> i \<notin> set (sv_workers v)"
      using n broker_ok_listed_once [OF ok w] by auto
  qed (use broker_okD(1) [OF ok] in auto)
  then show ?thesis using w
    by (cases "py_for (dict_keys (b_services s)) (remove_from_service i) ?t")
       (auto simp: cleanup_workers_loop i remove_expired_def py_run)
qed


section \<open>Dispatching to ZeroMQ workers\<close>

text \<open>A registered ZeroMQ worker, by its raw id.\<close>

definition zmq_registered :: "broker \<Rightarrow> string \<Rightarrow> bool" where
  "zmq_registered s r \<longleftrightarrow> (\<exists>w. map_of (b_workers s) (wrap_worker_id WZmq r) = Some w \<and>
     wd_type w = WZmq \<and> wd_id w = wrap_worker_id WZmq r)"

lemma dispatch_loop_zmq:
  assumes "map_of (b_services s) n = Some v" "length (sv_pending_requests v) \<le> k"
    and "sv_workers v = map (wrap_worker_id WZmq) rs" "distinct rs"
    and "\<forall>r \<in> set rs. zmq_registered s r"
  shows "\<exists>t. dispatch_loop k n s = (Inr (), t) \<and>
    b_sent t = b_sent s @ map2 EventWorkerRequest_serialize (sv_pending_requests v) rs \<and>
    map_of (b_services t) n = Some (v\<lparr>
      sv_pending_requests := drop (length rs) (sv_pending_requests v),
      sv_workers := drop (length (sv_pending_requests v)) (sv_workers v)\<rparr>) \<and>
    (\<forall>m. m \<noteq> n \<longrightarrow> map_of (b_services t) m = map_of (b_services s) m)"
  using assms
proof (induction k arbitrary: s v rs)
  case 0
  then show ?case by (intro exI [of _ s]) (simp add: py_run)
next
  case (Suc k)
  show ?case
  proof (cases "sv_pending_requests v = [] \<or> rs = []")
    case True
    with Suc.prems show ?thesis
      by (intro exI [of _ s]) (auto simp: py_run split: list.split)
  next
    case False
    then obtain q qs r rs' where q: "sv_pending_requests v = q # qs" and r: "rs = r # rs'"
      by (auto simp: neq_Nil_conv)
    obtain w where w: "map_of (b_workers s) (wrap_worker_id WZmq r) = Some w"
      "wd_type w = WZmq" "wd_id w = wrap_worker_id WZmq r"
      using Suc.prems(5) r by (auto simp: zmq_registered_def)
    let ?u = "(take_first n (wrap_worker_id WZmq r) s)
      \<lparr>b_sent := b_sent s @ [EventWorkerRequest_serialize q r]\<rparr>"
    let ?v = "v\<lparr>sv_pending_requests := qs, sv_workers := map (wrap_worker_id WZmq) rs'\<rparr>"
    have step: "dispatch_loop (Suc k) n s = dispatch_loop k n ?u"
      using Suc.prems(1,3) q r w
      by (simp add: py_run deliver_request_def unwrap_wrapped take_first_def)
    have v': "map_of (b_services ?u) n = Some ?v"
      using Suc.prems(1,3) q r by (simp add: take_first_def dict_simps)
    have reg: "\<forall>r \<in> set rs'. zmq_registered ?u r"
      using Suc.prems(4,5) r
      by (auto simp: zmq_registered_def take_first_def dict_simps wrap_worker_id_inj)
    have "\<exists>t. dispatch_loop k n ?u = (Inr (), t) \<and>
      b_sent t = b_sent ?u @ map2 EventWorkerRequest_serialize (sv_pending_requests ?v) rs' \<and>
      map_of (b_services t) n = Some (?v\<lparr>
        sv_pending_requests := drop (length rs') (sv_pending_requests ?v),
        sv_workers := drop (length (sv_pending_requests ?v)) (sv_workers ?v)\<rparr>) \<and>
      (\<forall>m. m \<noteq> n \<longrightarrow> map_of (b_services t) m = map_of (b_services ?u) m)"
      using Suc.prems q r reg by (intro Suc.IH [OF v']) auto
    then show ?thesis
      using Suc.prems(3) q r step by (auto simp: take_first_def dict_simps)
  qed
qed

section \<open>The invariant of the registries\<close>

text \<open>
  Correlation ids are distinct hexadecimal strings (\<^verbatim>\<open>new_cid\<close> in
  \<^verbatim>\<open>zato/common/util.py\<close> encodes random bytes); internal workers carry ids made from
  the correlation ids used so far.
\<close>

definition cids_ok :: "broker \<Rightarrow> bool" where
  "cids_ok s \<longleftrightarrow> inj (b_cid_source s) \<and> (\<forall>k. \<exists>raw. b_cid_source s k = hex_encode raw) \<and>
     (\<forall>i w. map_of (b_workers s) i = Some w \<longrightarrow>
        (wd_type w = WZmq \<longrightarrow> (\<exists>r. i = wrap_worker_id WZmq r)) \<and>
        (wd_type w = WZato \<longrightarrow> (\<exists>k < b_cids s. i = ''mdp.'' @ b_cid_source s k)))"

definition broker_inv :: "broker \<Rightarrow> bool" where
  "broker_inv s \<longleftrightarrow> broker_ok s \<and> cids_ok s"

lemma cids_ok_other_fields [simp]:
  "cids_ok (s\<lparr>b_ticks := x\<rparr>) = cids_ok s"
  "cids_ok (s\<lparr>b_sent := y\<rparr>) = cids_ok s"
  "cids_ok (s\<lparr>b_invoked := z\<rparr>) = cids_ok s"
  "cids_ok (s\<lparr>b_services := u\<rparr>) = cids_ok s"
  by (simp_all add: cids_ok_def)

lemma cids_ok_next: "cids_ok s \<Longrightarrow> cids_ok (s\<lparr>b_cids := Suc (b_cids s)\<rparr>)"
  unfolding cids_ok_def by simp (blast intro: less_SucI)

lemma internal_id_not_wrapped: "''mdp.'' @ hex_encode raw \<noteq> wrap_worker_id WZmq r"
proof
  assume "''mdp.'' @ hex_encode raw = wrap_worker_id WZmq r"
  then have "CHR ''w'' \<in> set (hex_encode raw)"
    by (simp add: wrap_worker_id_def worker_prefix_def)
  then show False using not_in_hex_encode [of "CHR ''w''" raw] by simp
qed

lemma next_cid_unused:
  assumes "cids_ok s" shows "map_of (b_workers s) (''mdp.'' @ b_cid_source s (b_cids s)) = None"
proof (rule ccontr)
  assume "\<not> ?thesis"
  then obtain w where w: "map_of (b_workers s) (''mdp.'' @ b_cid_source s (b_cids s)) = Some w" by blast
  obtain raw where raw: "b_cid_source s (b_cids s) = hex_encode raw"
    using assms unfolding cids_ok_def by blast
  show False
  proof (cases "wd_type w")
    case WZmq
    with assms w raw internal_id_not_wrapped [of raw] show False by (fastforce simp: cids_ok_def)
  next
    case WZato
    with assms w obtain k where "k < b_cids s" "b_cid_source s (b_cids s) = b_cid_source s k"
      by (fastforce simp: cids_ok_def)
    moreover have "inj (b_cid_source s)" using assms by (simp add: cids_ok_def)
    ultimately show False by (auto dest: injD)
  qed
qed

lemma cids_ok_del: "cids_ok s \<Longrightarrow> cids_ok (s\<lparr>b_workers := dict_del i (b_workers s)\<rparr>)"
  by (auto simp: cids_ok_def dict_simps)

lemma cids_ok_add_worker:
  assumes "cids_ok s"
    and "ty = WZato \<Longrightarrow> \<exists>k < b_cids s. i = ''mdp.'' @ b_cid_source s k"
  shows "cids_ok (snd (add_worker i n ttl ty s))"
  using assms by (cases ty) (auto simp: cids_ok_def py_run Let_def dict_simps)

lemma broker_inv_add_worker:
  assumes inv: "broker_inv s"
    and fresh: "map_of (b_workers s) (wd_id (registered i n ttl ty s)) = None"
    and cid: "ty = WZato \<Longrightarrow> \<exists>k < b_cids s. i = ''mdp.'' @ b_cid_source s k"
  shows "broker_inv (snd (add_worker i n ttl ty s))"
  using broker_ok_add_worker [OF _ fresh] cids_ok_add_worker [OF _ cid] inv
  by (simp add: broker_inv_def)

lemma broker_inv_new_internal:
  assumes inv: "broker_inv s"
  shows "broker_inv (snd (py_bind new_cid (\<lambda>cid. add_worker (''mdp.'' @ cid) n ttl WZato) s))"
proof -
  let ?t = "s\<lparr>b_cids := Suc (b_cids s)\<rparr>"
  have "broker_inv (snd (add_worker (''mdp.'' @ b_cid_source s (b_cids s)) n ttl WZato ?t))"
  proof (rule broker_inv_add_worker)
    show "broker_inv ?t" using inv cids_ok_next by (simp add: broker_inv_def)
    show "map_of (b_workers ?t) (wd_id (registered (''mdp.'' @ b_cid_source s (b_cids s)) n ttl WZato ?t)) = None"
      using inv next_cid_unused [of s] by (simp add: broker_inv_def)
  qed auto
  then show ?thesis by (simp add: py_bind_def new_cid_run)
qed

lemma add_n_workers_inv: "keeps broker_inv (add_n_workers n k)"
  unfolding add_n_workers_def
  by (intro keeps_for keepsI broker_inv_new_internal)


text \<open>Steps that leave the lists of workers alone.\<close>

lemma broker_inv_servicesI:
  assumes inv: "broker_inv s" and d: "dict_ok (b_services t)"
    and same: "b_workers t = b_workers s" "b_cids t = b_cids s" "b_cid_source t = b_cid_source s"
    and old: "\<And>m v. map_of (b_services s) m = Some v \<Longrightarrow>
       \<exists>v'. map_of (b_services t) m = Some v' \<and> sv_workers v' = sv_workers v"
    and new: "\<And>m v'. map_of (b_services t) m = Some v' \<Longrightarrow>
       sv_workers v' = [] \<or> (\<exists>v. map_of (b_services s) m = Some v \<and> sv_workers v' = sv_workers v)"
  shows "broker_inv t"
proof -
  have ok: "broker_ok s" using inv by (simp add: broker_inv_def)
  have "broker_ok t"
  proof (rule broker_okI)
    fix i w assume "map_of (b_workers t) i = Some w"
    then have w: "map_of (b_workers s) i = Some w" by (simp add: same)
    then show "wd_id w = i \<and>
        (\<exists>v. map_of (b_services t) (wd_service_name w) = Some v \<and> i \<in> set (sv_workers v))"
      using broker_okD(3,4) [OF ok w] old by fastforce
  next
    fix n v assume "map_of (b_services t) n = Some v"
    then show "distinct (sv_workers v)" using new broker_okD(5) [OF ok] by fastforce
  next
    fix n v i assume "map_of (b_services t) n = Some v" "i \<in> set (sv_workers v)"
    then show "\<exists>w. map_of (b_workers t) i = Some w \<and> wd_service_name w = n"
      using new broker_okD(6) [OF ok] by (fastforce simp: same)
  qed (use d broker_okD(2) [OF ok] in \<open>simp_all add: same\<close>)
  moreover have "cids_ok t" using inv by (simp add: broker_inv_def cids_ok_def same)
  ultimately show ?thesis by (simp add: broker_inv_def)
qed

lemma broker_inv_mutate_service:
  assumes "broker_inv s" and "\<And>v. sv_workers (f v) = sv_workers v"
  shows "broker_inv (s\<lparr>b_services := dict_mutate n f (b_services s)\<rparr>)"
  using assms broker_okD(1) [of s]
  by (intro broker_inv_servicesI [OF assms(1)])
     (auto simp: broker_inv_def dict_simps split: if_splits)

lemma broker_inv_setdefault:
  assumes "broker_inv s"
  shows "broker_inv (s\<lparr>b_services := dict_setdefault n (new_service n) (b_services s)\<rparr>)"
  using assms broker_okD(1) [of s]
  by (intro broker_inv_servicesI [OF assms(1)])
     (auto simp: broker_inv_def dict_simps new_service_def split: if_splits)

lemma keeps_mutate_service [keeps_intros]:
  "(\<And>v. sv_workers (f v) = sv_workers v) \<Longrightarrow> keeps broker_inv (mutate_service n f)"
  by (rule keepsI) (simp add: mutate_service_run broker_inv_mutate_service)

lemma add_workers_inv: "keeps broker_inv (add_workers n)"
  unfolding add_workers_def by (intro keeps_intros add_n_workers_inv) simp_all

text \<open>Handing a request to a worker just taken from both registries.\<close>

lemma broker_inv_take_first:
  assumes "broker_inv s" "map_of (b_services s) n = Some v" "sv_workers v = i # rest"
  shows "broker_inv (take_first n i s)"
  using assms broker_ok_take_first [of s n v i rest] cids_ok_del [of s i]
  by (simp add: broker_inv_def take_first_def cids_ok_def)

text \<open>While a service runs, only correlation ids, invocations and replies change.\<close>

definition same_registry :: "broker \<Rightarrow> broker \<Rightarrow> bool" where
  "same_registry s t \<longleftrightarrow> b_services t = b_services s \<and> b_workers t = b_workers s
     \<and> b_cid_source t = b_cid_source s \<and> b_cids s \<le> b_cids t"

lemma same_registry_refl [simp]: "same_registry s s"
  by (simp add: same_registry_def)

lemma same_registry_inv:
  assumes "same_registry s t" "broker_inv s" shows "broker_inv t"
proof -
  have "broker_ok t" using assms broker_ok_cong [of s t] by (simp add: same_registry_def broker_inv_def)
  moreover have "cids_ok t"
    using assms unfolding same_registry_def broker_inv_def cids_ok_def
    by (metis order_less_le_trans)
  ultimately show ?thesis by (simp add: broker_inv_def)
qed

lemma invoke_service_registry: "keeps (same_registry s) (invoke_service svc req)"
  unfolding invoke_service_def
  by (rule keepsI) (auto simp: py_run same_registry_def split: sum.splits)

lemma reply_registry: "keeps (same_registry s) (reply r body)"
  by (rule keepsI) (simp add: py_run same_registry_def)

definition zato_call :: "worker_request \<Rightarrow> string \<Rightarrow> (broker, unit) py" where
  "zato_call request zmq_service_name =
     py_bind (py_get b_zato_service_name) (\<lambda>zato_name.
     py_bind (py_get b_has_service_source_zato) (\<lambda>from_zato.
     py_bind (if from_zato then py_ret True
              else py_bind (invoke_service zato_name request) (\<lambda>r. py_ret (truthy r)))
       (\<lambda>is_allowed.
        py_when is_allowed
          (py_bind (invoke_service (if from_zato then zato_name else zmq_service_name) request)
            (\<lambda>response. reply (wr_client request) (response_bytes response))))))"

lemma send_to_worker_zato_finally:
  "send_to_worker_zato request worker n =
     py_finally (zato_call request n) (add_worker (wd_id worker) (wd_service_name worker) y100 WZato)"
  by (simp add: send_to_worker_zato_def zato_call_def)

lemma zato_call_registry: "keeps (same_registry s) (zato_call request n)"
  unfolding zato_call_def
  by (intro keeps_intros invoke_service_registry reply_registry)

text \<open>Whatever the service does, the worker is back in both registries afterwards.\<close>

lemma send_to_worker_zato_state:
  "\<exists>u. same_registry t u \<and> snd (send_to_worker_zato request worker n t) =
     snd (add_worker (wd_id worker) (wd_service_name worker) y100 WZato u)"
proof (intro exI conjI)
  show "same_registry t (snd (zato_call request n t))"
    using keepsD [OF zato_call_registry same_registry_refl] .
  show "snd (send_to_worker_zato request worker n t) =
     snd (add_worker (wd_id worker) (wd_service_name worker) y100 WZato (snd (zato_call request n t)))"
    by (simp add: send_to_worker_zato_finally py_finally_def add_worker_run Let_def split: prod.split)
qed

lemma deliver_request_inv:
  assumes inv: "broker_inv s" and v: "map_of (b_services s) n = Some v" and i: "sv_workers v = i # rest"
    and w: "map_of (b_workers s) i = Some w"
  shows "broker_inv (snd (deliver_request n q w (take_first n i s)))"
proof (cases "wd_type w")
  case WZmq
  then show ?thesis
    using broker_inv_take_first [OF inv v i]
    by (auto simp: deliver_request_def py_run broker_inv_def split: sum.splits)
next
  case WZato
  let ?t = "take_first n i s"
  have id: "wd_id w = i" using inv w by (auto simp: broker_inv_def dest: broker_okD(3))
  obtain u where u: "same_registry ?t u"
    "snd (send_to_worker_zato q w n ?t) = snd (add_worker (wd_id w) (wd_service_name w) y100 WZato u)"
    using send_to_worker_zato_state by blast
  have inv': "broker_inv u" using same_registry_inv [OF u(1)] broker_inv_take_first [OF inv v i] .
  have "map_of (b_workers ?t) i = None" by (simp add: take_first_def dict_simps)
  moreover have "\<exists>k < b_cids s. i = ''mdp.'' @ b_cid_source s k"
    using inv w WZato by (simp add: broker_inv_def cids_ok_def)
  moreover have "b_cids ?t = b_cids s" "b_cid_source ?t = b_cid_source s" by (simp_all add: take_first_def)
  ultimately have "broker_inv (snd (add_worker i (wd_service_name w) y100 WZato u))"
    using u(1) by (intro broker_inv_add_worker [OF inv'])
      (auto simp: same_registry_def intro: order_less_le_trans)
  with u(2) id WZato show ?thesis by (simp add: deliver_request_def)
qed

lemma dispatch_loop_step:
  assumes "map_of (b_services s) n = Some v" "sv_pending_requests v = q # qs" "sv_workers v = i # rest"
    and "map_of (b_workers s) i = Some w"
  shows "dispatch_loop (Suc k) n s =
    py_seq (deliver_request n q w) (dispatch_loop k n) (take_first n i s)"
  using assms by (simp add: py_seq_def py_bind_def item_get_run mutate_service_run workers_pop_run take_first_def)

lemma dispatch_loop_inv: "broker_inv s \<Longrightarrow> broker_inv (snd (dispatch_loop k n s))"
proof (induction k arbitrary: s)
  case 0
  then show ?case by (simp add: py_run)
next
  case (Suc k)
  show ?case
  proof (cases "\<exists>v q qs i rest. map_of (b_services s) n = Some v \<and>
      sv_pending_requests v = q # qs \<and> sv_workers v = i # rest")
    case False
    with Suc.prems show ?thesis
      by (auto simp: py_run split: option.split list.split)
  next
    case True
    then obtain v q qs i rest where v: "map_of (b_services s) n = Some v"
      "sv_pending_requests v = q # qs" "sv_workers v = i # rest" by blast
    obtain w where w: "map_of (b_workers s) i = Some w"
      using Suc.prems broker_okD(6) [of s n v i] v by (auto simp: broker_inv_def)
    have "broker_inv (snd (deliver_request n q w (take_first n i s)))"
      using deliver_request_inv [OF Suc.prems v(1,3) w] .
    then show ?thesis
      using Suc.IH by (auto simp: dispatch_loop_step [OF v w] py_seq_def
          simp del: dispatch_loop.simps split: prod.splits sum.splits)
  qed
qed

lemma dispatch_pending_inv: "keeps broker_inv (dispatch_pending n)"
  unfolding dispatch_pending_def
  by (intro keeps_bind keeps_item_get keepsI dispatch_loop_inv)


section \<open>A broker with one service\<close>

text \<open>
  As long as all traffic names one service, expiry succeeds and the invariant survives every
  message. A READY must come from a connection that is not registered yet.
\<close>

definition single_inv :: "string \<Rightarrow> broker \<Rightarrow> bool" where
  "single_inv n s \<longleftrightarrow> broker_inv s \<and> (b_services s = [] \<or> dict_keys (b_services s) = [n])"

lemma single_inv_empty_workers:
  assumes "broker_inv s" "b_services s = []" shows "b_workers s = []"
proof (rule ccontr)
  assume "b_workers s \<noteq> []"
  then obtain i w ws where "b_workers s = (i, w) # ws" by (metis neq_Nil_conv surj_pair)
  then have "map_of (b_workers s) i = Some w" by simp
  then show False using broker_okD(4) [of s i w] assms by (auto simp: broker_inv_def)
qed

lemma cleanup_workers_other_fields:
  assumes "cleanup_workers s = (r, t)"
  shows "b_cids t = b_cids s \<and> b_cid_source t = b_cid_source s \<and> b_sent t = b_sent s"
proof -
  let ?I = "\<lambda>t. b_cids t = b_cids s \<and> b_cid_source t = b_cid_source s \<and> b_sent t = b_sent s"
  have "keeps ?I (remove_from_service i n)" for i n
    unfolding remove_from_service_def mutate_service_def by (intro keeps_intros) auto
  then have "keeps ?I (remove_expired i)" for i
    unfolding remove_expired_def by (intro keeps_intros) auto
  then have "keeps ?I cleanup_workers"
    unfolding cleanup_workers_def utcnow_def by (intro keeps_intros) auto
  from keepsD [OF this, of s] show ?thesis using assms by simp
qed

lemma cleanup_workers_single_inv:
  assumes "single_inv n s"
  shows "fst (cleanup_workers s) = Inr () \<and> single_inv n (snd (cleanup_workers s))"
proof (cases "b_services s = []")
  case True
  then have "b_workers s = []" using assms by (auto simp: single_inv_def intro: single_inv_empty_workers)
  then have "due s = []" by (simp add: due_def expired_ids_def)
  with assms True show ?thesis by (simp add: cleanup_nothing_due single_inv_def broker_inv_def)
next
  case False
  then have ok: "broker_ok s" "dict_keys (b_services s) = [n]"
    using assms by (auto simp: single_inv_def broker_inv_def)
  obtain t where t: "cleanup_workers s = (Inr (), t)" "broker_ok t" "dict_keys (b_services t) = [n]"
    "\<And>i. map_of (b_workers t) i = (if i \<in> set (due s) then None else map_of (b_workers s) i)"
    using cleanup_workers_single [OF ok] by metis
  have "cids_ok t"
    using cleanup_workers_other_fields [OF t(1)] assms t(4)
    by (simp add: single_inv_def broker_inv_def cids_ok_def)
  with t show ?thesis by (simp add: single_inv_def broker_inv_def)
qed

text \<open>The state of such a broker once it knows the service.\<close>

definition serves_only :: "string \<Rightarrow> broker \<Rightarrow> bool" where
  "serves_only n s \<longleftrightarrow> broker_inv s \<and> dict_keys (b_services s) = [n]"

lemma serves_only_single: "serves_only n s \<Longrightarrow> single_inv n s"
  by (simp add: serves_only_def single_inv_def)

lemma serves_only_service:
  assumes "serves_only n s" obtains v where "map_of (b_services s) n = Some v"
  using assms by (cases "b_services s") (auto simp: serves_only_def)

lemma single_inv_setdefault:
  "single_inv n s \<Longrightarrow>
     serves_only n (s\<lparr>b_services := dict_setdefault n (new_service n) (b_services s)\<rparr>)"
  using broker_inv_setdefault [of s n]
  by (auto simp: single_inv_def serves_only_def dict_setdefault_def split: option.splits)

lemma keys_add_worker:
  assumes "dict_keys (b_services s) = [n]"
  shows "dict_keys (b_services (snd (add_worker i n ttl ty s))) = [n]"
  using assms by (auto simp: py_run Let_def dict_setdefault_def split: option.splits)

lemma deliver_request_serves:
  assumes s: "serves_only n s" and v: "map_of (b_services s) n = Some v" and i: "sv_workers v = i # rest"
    and w: "map_of (b_workers s) i = Some w"
  shows "serves_only n (snd (deliver_request n q w (take_first n i s)))"
proof -
  have inv: "broker_inv s" and keys: "dict_keys (b_services s) = [n]"
    using s by (simp_all add: serves_only_def)
  have wn: "wd_service_name w = n"
    using inv v i w broker_okD(6) [of s n v i] by (auto simp: broker_inv_def)
  have "dict_keys (b_services (snd (deliver_request n q w (take_first n i s)))) = [n]"
  proof (cases "wd_type w")
    case WZmq
    then show ?thesis using keys
      by (auto simp: deliver_request_def py_run take_first_def split: sum.splits)
  next
    case WZato
    obtain u where "same_registry (take_first n i s) u"
      "snd (send_to_worker_zato q w n (take_first n i s)) =
         snd (add_worker (wd_id w) (wd_service_name w) y100 WZato u)"
      using send_to_worker_zato_state by blast
    moreover from this have "dict_keys (b_services u) = [n]"
      using keys by (simp add: same_registry_def take_first_def)
    ultimately show ?thesis
      using WZato keys_add_worker wn by (simp add: deliver_request_def)
  qed
  with deliver_request_inv [OF inv v i w] show ?thesis by (simp add: serves_only_def)
qed

lemma dispatch_loop_serves: "serves_only n s \<Longrightarrow> serves_only n (snd (dispatch_loop k n s))"
proof (induction k arbitrary: s)
  case 0
  then show ?case by (simp add: py_run)
next
  case (Suc k)
  obtain v where v: "map_of (b_services s) n = Some v" using serves_only_service [OF Suc.prems] .
  show ?case
  proof (cases "sv_pending_requests v = [] \<or> sv_workers v = []")
    case True
    with v Suc.prems show ?thesis by (auto simp: py_run split: list.split)
  next
    case False
    then obtain q qs i rest where l: "sv_pending_requests v = q # qs" "sv_workers v = i # rest"
      by (auto simp: neq_Nil_conv)
    obtain w where w: "map_of (b_workers s) i = Some w"
      using Suc.prems v l broker_okD(6) [of s n v i] by (auto simp: serves_only_def broker_inv_def)
    show ?thesis
      using Suc.IH deliver_request_serves [OF Suc.prems v l(2) w, of q]
      by (auto simp: dispatch_loop_step [OF v l w] py_seq_def
          simp del: dispatch_loop.simps split: prod.splits sum.splits)
  qed
qed

lemma keeps_serves_mutate [keeps_intros]:
  "(\<And>v. sv_workers (f v) = sv_workers v) \<Longrightarrow> keeps (serves_only n) (mutate_service m f)"
  by (rule keepsI) (simp add: mutate_service_run serves_only_def broker_inv_mutate_service)

lemma keeps_serves_add_n_workers: "keeps (serves_only n) (add_n_workers n k)"
  unfolding add_n_workers_def
proof (intro keeps_for keepsI)
  fix s assume s: "serves_only n s"
  let ?t = "s\<lparr>b_cids := Suc (b_cids s)\<rparr>"
  have "dict_keys (b_services (snd (add_worker (''mdp.'' @ b_cid_source s (b_cids s)) n y100 WZato ?t))) = [n]"
    using s by (intro keys_add_worker) (simp add: serves_only_def)
  then show "serves_only n (snd (py_bind new_cid (\<lambda>cid. add_worker (''mdp.'' @ cid) n y100 WZato) s))"
    using s broker_inv_new_internal [of s n y100]
    by (simp add: serves_only_def py_bind_def new_cid_run)
qed

lemma keeps_serves_add_workers: "keeps (serves_only n) (add_workers n)"
  unfolding add_workers_def by (intro keeps_intros keeps_serves_add_n_workers) simp_all

lemma keeps_serves_cleanup: "keeps (serves_only n) cleanup_workers"
proof (rule keepsI)
  fix s assume s: "serves_only n s"
  then have "broker_ok s" "dict_keys (b_services s) = [n]"
    by (simp_all add: serves_only_def broker_inv_def)
  then obtain t where "cleanup_workers s = (Inr (), t)" "dict_keys (b_services t) = [n]"
    using cleanup_workers_single by metis
  then show "serves_only n (snd (cleanup_workers s))"
    using cleanup_workers_single_inv [OF serves_only_single [OF s]]
    by (simp add: serves_only_def single_inv_def)
qed

lemma keeps_serves_dispatch: "keeps (serves_only n) (dispatch_requests n)"
  unfolding dispatch_requests_def dispatch_pending_def
  by (intro keeps_intros keeps_serves_cleanup keeps_serves_add_workers)
     (rule keepsI, erule dispatch_loop_serves)

section \<open>Messages\<close>

definition message_for :: "string \<Rightarrow> string list \<Rightarrow> broker \<Rightarrow> bool" where
  "message_for n msg s \<longleftrightarrow>
     (case msg of
        sender # _ # originator # payload \<Rightarrow>
          if originator = v01_client
          then (case payload of [m, _] \<Rightarrow> m = n | _ \<Rightarrow> True)
          else (case payload of
                  event # m # _ \<Rightarrow> event = v01_ready \<longrightarrow>
                    m = n \<and> map_of (b_workers s) (wrap_worker_id WZmq sender) = None
                | _ \<Rightarrow> True)
      | _ \<Rightarrow> True)"

lemma handle_client_message_serves:
  assumes "single_inv n s"
  shows "serves_only n (snd (handle_client_message sender n body s))"
proof -
  let ?t = "s\<lparr>b_services := dict_setdefault n (new_service n) (b_services s)\<rparr>"
  have "keeps (serves_only n) (py_seq (mutate_service n (\<lambda>v. v\<lparr>sv_pending_requests :=
          sv_pending_requests v @ [\<lparr>wr_body = body, wr_client = sender\<rparr>]\<rparr>)) (dispatch_requests n))"
    by (intro keeps_intros keeps_serves_dispatch) simp
  from keepsD [OF this single_inv_setdefault [OF assms]] show ?thesis
    by (simp add: handle_client_message_def py_seq_def py_modify_def)
qed

lemma add_zmq_worker_serves:
  assumes s: "single_inv n s" and fresh: "map_of (b_workers s) (wrap_worker_id WZmq i) = None"
  shows "serves_only n (snd (add_worker i n ttl WZmq s))"
proof -
  have "broker_inv (snd (add_worker i n ttl WZmq s))"
    using s fresh by (intro broker_inv_add_worker) (simp_all add: single_inv_def)
  moreover have "dict_keys (b_services (snd (add_worker i n ttl WZmq s))) = [n]"
  proof (cases "b_services s = []")
    case True
    then show ?thesis by (simp add: py_run Let_def dict_setdefault_def)
  next
    case False
    with s have "dict_keys (b_services s) = [n]" by (auto simp: single_inv_def)
    then show ?thesis by (rule keys_add_worker)
  qed
  ultimately show ?thesis by (simp add: serves_only_def)
qed

lemma on_event_ready_serves:
  assumes "single_inv n s" "map_of (b_workers s) (wrap_worker_id WZmq i) = None"
  shows "serves_only n (snd (on_event_ready i (n # rest) s))"
  using keepsD [OF keeps_serves_dispatch add_zmq_worker_serves [OF assms]]
  by (simp add: on_event_ready_def py_seq_def add_worker_run Let_def)

lemma on_event_heartbeat_run:
  "on_event_heartbeat i s =
     (case map_of (b_workers s) (wrap_worker_id WZmq i) of None \<Rightarrow> (Inr (), s)
      | Some _ \<Rightarrow> (Inr (), s\<lparr>b_ticks := Suc (b_ticks s),
          b_workers := dict_mutate (wrap_worker_id WZmq i)
            (\<lambda>w. w\<lparr>wd_last_hb_received := b_clock s (b_ticks s),
                   wd_expires_at := b_clock s (b_ticks s) + seconds ttl_secs\<rparr>) (b_workers s)\<rparr>))"
  by (simp add: on_event_heartbeat_def py_run Let_def split: option.split)

lemma broker_inv_mutate_worker:
  assumes "broker_inv s"
    and "\<And>w. wd_id (f w) = wd_id w \<and> wd_type (f w) = wd_type w \<and> wd_service_name (f w) = wd_service_name w"
  shows "broker_inv (s\<lparr>b_workers := dict_mutate i f (b_workers s)\<rparr>)"
proof -
  have ok: "broker_ok s" using assms(1) by (simp add: broker_inv_def)
  have "broker_ok (s\<lparr>b_workers := dict_mutate i f (b_workers s)\<rparr>)"
  proof (rule broker_okI)
    fix k w assume "map_of (b_workers (s\<lparr>b_workers := dict_mutate i f (b_workers s)\<rparr>)) k = Some w"
    then obtain w' where "map_of (b_workers s) k = Some w'" "wd_id w = wd_id w'"
      "wd_service_name w = wd_service_name w'"
      using assms(2) by (auto simp: dict_simps split: if_splits)
    then show "wd_id w = k \<and> (\<exists>v. map_of (b_services (s\<lparr>b_workers := dict_mutate i f (b_workers s)\<rparr>))
        (wd_service_name w) = Some v \<and> k \<in> set (sv_workers v))"
      using broker_okD(3,4) [OF ok] by simp
  next
    fix n v k assume v: "map_of (b_services (s\<lparr>b_workers := dict_mutate i f (b_workers s)\<rparr>)) n = Some v"
      and k: "k \<in> set (sv_workers v)"
    then have "\<exists>w. map_of (b_workers s) k = Some w \<and> wd_service_name w = n"
      using broker_okD(6) [OF ok, of n v k] by simp
    then show "\<exists>w. map_of (b_workers (s\<lparr>b_workers := dict_mutate i f (b_workers s)\<rparr>)) k = Some w
        \<and> wd_service_name w = n"
      using assms(2) by (auto simp: dict_simps)
  qed (use broker_okD(1,2,5) [OF ok] in auto)
  moreover have "cids_ok (s\<lparr>b_workers := dict_mutate i f (b_workers s)\<rparr>)"
    using assms by (auto simp: broker_inv_def cids_ok_def dict_simps)
  ultimately show ?thesis by (simp add: broker_inv_def)
qed

lemma broker_inv_tick [simp]: "broker_inv (s\<lparr>b_ticks := k\<rparr>) = broker_inv s"
  by (simp add: broker_inv_def)

lemma on_event_heartbeat_inv: "broker_inv s \<Longrightarrow> broker_inv (snd (on_event_heartbeat i s))"
  using broker_inv_mutate_worker [of "s\<lparr>b_ticks := Suc (b_ticks s)\<rparr>"]
  by (auto simp: on_event_heartbeat_run split: option.split)

lemma on_event_disconnect_inv:
  "broker_inv s \<Longrightarrow> broker_inv (snd (on_event_disconnect i s))"
  using broker_ok_disconnect [of s i] cids_ok_del [of s]
  by (simp add: broker_inv_def on_event_disconnect_run)

end
