(* ===== verification/Mdp_Broker_Pool.thy ===== *)
theory Mdp_Broker_Pool
  imports Mdp_Broker_Facts
begin

text \<open>
  The pool of internal workers: a service never has more of them than the configured
  maximum, in any run of the broker and whatever its clients and workers send.
\<close>

section \<open>Counting dictionary values\<close>

definition count_values :: "('v \<Rightarrow> bool) \<Rightarrow> ('k, 'v) dict \<Rightarrow> nat" where
  "count_values p d = length (filter p (dict_values d))"

lemma count_values_set:
  "count_values p (dict_set k v d) \<le> count_values p d + (if p v then 1 else 0)"
  by (induction d) (auto simp: count_values_def)

lemma count_values_del: "count_values p (dict_del k d) \<le> count_values p d"
  by (induction d) (auto simp: count_values_def)

lemma count_values_del_Some:
  assumes "map_of d k = Some v" "p v"
  shows "Suc (count_values p (dict_del k d)) \<le> count_values p d"
  using assms
proof (induction d)
  case (Cons kv d)
  then show ?case using count_values_del [of p k d]
    by (auto simp: count_values_def split: if_splits)
qed simp

lemma count_values_mutate:
  assumes "\<And>v. p (f v) = p v"
  shows "count_values p (dict_mutate k f d) = count_values p d"
proof (induction d)
  case (Cons kv d)
  then show ?case by (cases kv) (simp add: count_values_def dict_mutate_def assms)
qed (simp add: count_values_def dict_mutate_def)

section \<open>The invariant of the pool\<close>

definition internal_of :: "string \<Rightarrow> worker_data \<Rightarrow> bool" where
  "internal_of n w \<longleftrightarrow> wd_type w = WZato \<and> wd_service_name w = n"

definition internal_count :: "string \<Rightarrow> broker \<Rightarrow> nat" where
  "internal_count n s = count_values (internal_of n) (b_workers s)"

text \<open>What a service records of its pool: the number of its workers, whether it has any yet.\<close>

definition tally :: "string \<Rightarrow> broker \<Rightarrow> int \<times> bool" where
  "tally n s = (case map_of (b_services s) n of None \<Rightarrow> (0, False)
     | Some v \<Rightarrow> (sv_len_current_workers v, sv_has_initialized_workers v))"

definition pool_config_ok :: "broker \<Rightarrow> bool" where
  "pool_config_ok s \<longleftrightarrow> 0 \<le> b_workers_pool_initial s \<and> 0 \<le> b_workers_pool_mult s
     \<and> b_workers_pool_initial s \<le> b_workers_pool_max s"

definition pool_inv :: "int \<Rightarrow> broker \<Rightarrow> bool" where
  "pool_inv cap s \<longleftrightarrow> pool_config_ok s \<and> b_workers_pool_max s = cap \<and>
     (\<forall>n. int (internal_count n s) \<le> fst (tally n s) \<and> fst (tally n s) \<le> cap \<and>
        (\<not> snd (tally n s) \<longrightarrow> fst (tally n s) = 0))"

lemma pool_invD:
  assumes "pool_inv cap s"
  shows "pool_config_ok s" "b_workers_pool_max s = cap" "int (internal_count n s) \<le> fst (tally n s)"
    "fst (tally n s) \<le> cap"
    "\<not> snd (tally n s) \<Longrightarrow> fst (tally n s) = 0"
  using assms by (auto simp: pool_inv_def)

lemma pool_inv_other_fields [simp]:
  "pool_inv cap (b_ticks_update f s) = pool_inv cap s"
  "pool_inv cap (b_cids_update f s) = pool_inv cap s"
  "pool_inv cap (b_sent_update g s) = pool_inv cap s"
  "pool_inv cap (b_invoked_update h s) = pool_inv cap s"
  by (simp_all add: pool_inv_def pool_config_ok_def internal_count_def tally_def)

text \<open>Fewer workers, and services with the same tallies.\<close>

lemma pool_inv_workers:
  assumes "pool_inv cap s" "\<And>n. internal_count n (s\<lparr>b_workers := ws\<rparr>) \<le> internal_count n s"
  shows "pool_inv cap (s\<lparr>b_workers := ws\<rparr>)"
proof -
  have "int (internal_count n (s\<lparr>b_workers := ws\<rparr>)) \<le> fst (tally n s)" for n
    using assms(2) [of n] pool_invD(3) [OF assms(1), of n] by linarith
  then show ?thesis using assms(1) by (simp add: pool_inv_def pool_config_ok_def tally_def)
qed

lemma pool_inv_del: "pool_inv cap s \<Longrightarrow> pool_inv cap (s\<lparr>b_workers := dict_del i (b_workers s)\<rparr>)"
  by (rule pool_inv_workers) (simp_all add: internal_count_def count_values_del)

lemma pool_inv_mutate_worker:
  assumes "pool_inv cap s" "\<And>w. wd_type (f w) = wd_type w \<and> wd_service_name (f w) = wd_service_name w"
  shows "pool_inv cap (s\<lparr>b_workers := dict_mutate i f (b_workers s)\<rparr>)"
  using assms by (intro pool_inv_workers) (simp_all add: internal_count_def count_values_mutate internal_of_def)

definition same_tallies :: "broker \<Rightarrow> broker \<Rightarrow> bool" where
  "same_tallies s t \<longleftrightarrow> (\<forall>n. tally n t = tally n s \<and>
     (dict_has n (b_services s) \<longrightarrow> dict_has n (b_services t)))"

lemma pool_inv_services:
  assumes "pool_inv cap s" "same_tallies s (s\<lparr>b_services := sv\<rparr>)"
  shows "pool_inv cap (s\<lparr>b_services := sv\<rparr>)"
  using assms by (simp add: pool_inv_def same_tallies_def pool_config_ok_def internal_count_def)

lemma pool_inv_mutate_service:
  assumes "pool_inv cap s"
    and "\<And>v. sv_len_current_workers (f v) = sv_len_current_workers v"
    and "\<And>v. sv_has_initialized_workers (f v) = sv_has_initialized_workers v"
  shows "pool_inv cap (s\<lparr>b_services := dict_mutate n f (b_services s)\<rparr>)"
  using assms(2,3)
  by (intro pool_inv_services [OF assms(1)])
     (simp add: same_tallies_def tally_def dict_simps split: option.split)

lemma pool_inv_setdefault:
  assumes "pool_inv cap s"
  shows "pool_inv cap (s\<lparr>b_services := dict_setdefault n (new_service n) (b_services s)\<rparr>)"
  by (rule pool_inv_services [OF assms])
     (simp add: same_tallies_def tally_def dict_simps new_service_def split: option.split)

lemma keeps_pool_mutate_service [keeps_intros]:
  "(\<And>v. sv_len_current_workers (f v) = sv_len_current_workers v) \<Longrightarrow>
   (\<And>v. sv_has_initialized_workers (f v) = sv_has_initialized_workers v) \<Longrightarrow>
     keeps (pool_inv cap) (mutate_service n f)"
  by (rule keepsI) (simp add: mutate_service_run pool_inv_mutate_service)

section \<open>Registering workers\<close>

text \<open>One registration adds at most one worker to one count and changes no tally.\<close>

lemma add_worker_count:
  "internal_count m (snd (add_worker i n ttl ty s)) \<le>
     internal_count m s + (if ty = WZato \<and> m = n then 1 else 0)"
  using count_values_set [of "internal_of m" _ "registered i n ttl ty s" "b_workers s"]
  by (auto simp: internal_count_def py_run Let_def internal_of_def)

lemma add_worker_tallies: "same_tallies s (snd (add_worker i n ttl ty s))"
  by (simp add: same_tallies_def tally_def py_run Let_def dict_simps new_service_def split: option.split)

lemma add_worker_config:
  "b_workers_pool_initial (snd (add_worker i n ttl ty s)) = b_workers_pool_initial s"
  "b_workers_pool_mult (snd (add_worker i n ttl ty s)) = b_workers_pool_mult s"
  "b_workers_pool_max (snd (add_worker i n ttl ty s)) = b_workers_pool_max s"
  by (simp_all add: py_run Let_def)

lemma pool_inv_add_worker:
  assumes s: "pool_inv cap s"
    and room: "ty = WZato \<Longrightarrow> int (internal_count n s) < fst (tally n s)"
  shows "pool_inv cap (snd (add_worker i n ttl ty s))"
proof -
  let ?t = "snd (add_worker i n ttl ty s)"
  have tal: "tally m ?t = tally m s" for m
    using add_worker_tallies by (simp add: same_tallies_def)
  have "int (internal_count m ?t) \<le> fst (tally m s)" for m
    using add_worker_count [of m i n ttl ty s] pool_invD(3) [OF s, of m] room
    by (cases "ty = WZato \<and> m = n") auto
  then show ?thesis
    using s by (simp add: pool_inv_def pool_config_ok_def tal add_worker_config)
qed

lemma add_worker_Inr: "fst (add_worker i n ttl ty s) = Inr ()"
  by (simp add: py_run Let_def)

text \<open>A batch of registrations.\<close>

lemma same_tallies_refl: "same_tallies s s"
  by (simp add: same_tallies_def)

lemma same_tallies_trans: "same_tallies s t \<Longrightarrow> same_tallies t u \<Longrightarrow> same_tallies s u"
  by (simp add: same_tallies_def)

definition batch :: "string \<Rightarrow> nat \<Rightarrow> broker \<Rightarrow> broker \<Rightarrow> bool" where
  "batch n k s t \<longleftrightarrow> same_tallies s t \<and>
     (\<forall>m. internal_count m t \<le> internal_count m s + (if m = n then k else 0)) \<and>
     b_workers_pool_initial t = b_workers_pool_initial s \<and>
     b_workers_pool_mult t = b_workers_pool_mult s \<and>
     b_workers_pool_max t = b_workers_pool_max s"

lemma batch_refl: "batch n 0 s s"
  by (simp add: batch_def same_tallies_refl)

lemma batch_trans:
  assumes "batch n j s t" "batch n k t u" shows "batch n (j + k) s u"
proof -
  have "internal_count m u \<le> internal_count m s + (if m = n then j + k else 0)" for m
  proof -
    have "internal_count m u \<le> internal_count m t + (if m = n then k else 0)"
      "internal_count m t \<le> internal_count m s + (if m = n then j else 0)"
      using assms by (simp_all add: batch_def)
    then show ?thesis by (cases "m = n") simp_all
  qed
  then show ?thesis using assms same_tallies_trans unfolding batch_def by metis
qed

lemma batch_new_worker:
  "batch n 1 s (snd (py_bind new_cid (\<lambda>cid. add_worker (''mdp.'' @ cid) n ttl WZato) s))"
proof -
  let ?s = "s\<lparr>b_cids := Suc (b_cids s)\<rparr>"
  let ?t = "snd (add_worker (''mdp.'' @ b_cid_source s (b_cids s)) n ttl WZato ?s)"
  have "same_tallies s ?s" by (simp add: same_tallies_def tally_def)
  then have "same_tallies s ?t" using same_tallies_trans add_worker_tallies by blast
  moreover have "\<forall>m. internal_count m ?t \<le> internal_count m s + (if m = n then 1 else 0)"
  proof
    fix m
    show "internal_count m ?t \<le> internal_count m s + (if m = n then 1 else 0)"
      using add_worker_count [of m "''mdp.'' @ b_cid_source s (b_cids s)" n ttl WZato ?s]
      by (simp add: internal_count_def)
  qed
  ultimately have "batch n 1 s ?t"
    unfolding batch_def by (simp only: add_worker_config simp_thms) simp
  then show ?thesis by (simp add: py_bind_def new_cid_run)
qed

lemma add_n_workers_batch: "\<exists>t. add_n_workers n k s = (Inr (), t) \<and> batch n (nat k) s t"
proof -
  let ?body = "\<lambda>_ :: nat. py_bind new_cid (\<lambda>cid. add_worker (''mdp.'' @ cid) n y100 WZato)"
  have "\<exists>t. py_for xs ?body s = (Inr (), t) \<and> batch n (length xs) s t" for xs :: "nat list"
  proof (induction xs arbitrary: s)
    case Nil
    then show ?case by (simp add: py_run batch_refl)
  next
    case (Cons x xs)
    have run: "?body x s = (Inr (), snd (?body x s))"
      using add_worker_Inr by (simp add: py_bind_def new_cid_run prod_eq_iff)
    obtain t where "py_for xs ?body (snd (?body x s)) = (Inr (), t)"
      and t: "batch n (length xs) (snd (?body x s)) t"
      using Cons.IH by blast
    then have "py_for (x # xs) ?body s = (Inr (), t)"
      using py_seq_Inr [of "?body x" s "()" _ "py_for xs ?body", OF run] by simp
    moreover have "batch n (length (x # xs)) s t"
      using batch_trans [OF batch_new_worker t] by simp
    ultimately show ?case by blast
  qed
  from this [of "[0..<nat k]"] show ?thesis by (simp add: add_n_workers_def)
qed

text \<open>Adding workers makes room in the tally for exactly the workers added.\<close>

lemma pool_inv_batch:
  assumes inv: "pool_inv cap s" and b: "batch n (nat k) s t"
    and v: "map_of (b_services s) n = Some v"
    and len: "\<And>u. sv_len_current_workers u = sv_len_current_workers v \<Longrightarrow>
        sv_len_current_workers (f u) = sv_len_current_workers v + k"
    and has: "\<And>u. sv_has_initialized_workers u = sv_has_initialized_workers v \<Longrightarrow>
        sv_has_initialized_workers (f u)"
    and k: "0 \<le> k" "sv_len_current_workers v + k \<le> b_workers_pool_max s"
  shows "pool_inv cap (t\<lparr>b_services := dict_mutate n f (b_services t)\<rparr>)" (is "pool_inv cap ?t")
proof -
  have same: "same_tallies s t"
    and count: "internal_count m t \<le> internal_count m s + (if m = n then nat k else 0)"
    and cfg: "b_workers_pool_initial t = b_workers_pool_initial s"
      "b_workers_pool_mult t = b_workers_pool_mult s" "b_workers_pool_max t = b_workers_pool_max s"
    for m using b by (simp_all add: batch_def)
  obtain u where u: "map_of (b_services t) n = Some u"
    "sv_len_current_workers u = sv_len_current_workers v"
    "sv_has_initialized_workers u = sv_has_initialized_workers v"
    using same v by (force simp: same_tallies_def tally_def split: option.splits)
  have c: "internal_count m ?t = internal_count m t" for m by (simp add: internal_count_def)
  have tal: "tally m ?t = (if m = n then (sv_len_current_workers v + k, True) else tally m s)" for m
  proof (cases "m = n")
    case True
    with u len has show ?thesis by (simp add: tally_def dict_simps)
  next
    case False
    then have "tally m ?t = tally m t" by (simp add: tally_def dict_simps)
    with False same show ?thesis by (simp add: same_tallies_def)
  qed
  have here: "fst (tally n s) = sv_len_current_workers v" using v by (simp add: tally_def)
  have "int (internal_count m ?t) \<le> fst (tally m ?t) \<and> fst (tally m ?t) \<le> b_workers_pool_max ?t
      \<and> (\<not> snd (tally m ?t) \<longrightarrow> fst (tally m ?t) = 0)" for m
    using count [of m] pool_invD(2) [OF inv] pool_invD(3,4,5) [OF inv, of m] k here
    by (cases "m = n") (simp_all add: tal c cfg)
  then show ?thesis
    using inv by (simp add: pool_inv_def pool_config_ok_def cfg)
qed

lemma add_workers_pool: "keeps (pool_inv cap) (add_workers n)"
proof (rule keepsI)
  fix s assume inv: "pool_inv cap s"
  show "pool_inv cap (snd (add_workers n s))"
  proof (cases "map_of (b_services s) n")
    case None
    with inv show ?thesis by (simp add: add_workers_def py_run)
  next
    case (Some v)
    let ?fin = "py_bind (item_get b_services n) (\<lambda>svc'.
        py_bind (py_get b_workers_pool_max) (\<lambda>maxi.
        py_when (sv_len_current_workers svc' \<ge> maxi)
          (mutate_service n (\<lambda>v. v\<lparr>sv_has_max_workers := True\<rparr>))))"
    have fin: "keeps (pool_inv cap) ?fin" by (intro keeps_intros) simp_all
    let ?k = "if sv_has_initialized_workers v then how_many_to_add s v else b_workers_pool_initial s"
    let ?f = "if sv_has_initialized_workers v
      then (\<lambda>v. v\<lparr>sv_len_current_workers := sv_len_current_workers v + ?k\<rparr>)
      else (\<lambda>v. v\<lparr>sv_has_initialized_workers := True, sv_len_current_workers := ?k\<rparr>)"
    obtain t where t: "add_n_workers n ?k s = (Inr (), t)" "batch n (nat ?k) s t"
      using add_n_workers_batch by blast
    let ?t = "t\<lparr>b_services := dict_mutate n ?f (b_services t)\<rparr>"
    have "add_workers n s = ?fin ?t"
      using t(1) Some
      by (cases "sv_has_initialized_workers v")
         (simp_all add: add_workers_def py_seq_def py_bind_def item_get_run py_get_def mutate_service_run)
    moreover have "pool_inv cap ?t"
    proof (rule pool_inv_batch [OF inv t(2) Some])
      have v0: "\<not> sv_has_initialized_workers v \<Longrightarrow> sv_len_current_workers v = 0"
        using pool_invD(5) [OF inv, of n] Some by (simp add: tally_def)
      then show "sv_len_current_workers (?f u) = sv_len_current_workers v + ?k"
        if "sv_len_current_workers u = sv_len_current_workers v" for u
        using that by simp
      have "0 \<le> sv_len_current_workers v" "sv_len_current_workers v \<le> b_workers_pool_max s"
        using pool_invD(2) [OF inv] pool_invD(3,4) [OF inv, of n] Some by (simp_all add: tally_def)
      moreover have "pool_config_ok s" using pool_invD(1) [OF inv] .
      ultimately show "0 \<le> ?k" "sv_len_current_workers v + ?k \<le> b_workers_pool_max s"
        using v0 by (auto simp: how_many_to_add_def Let_def pool_config_ok_def)
    qed simp
    ultimately show ?thesis using keepsD [OF fin] by simp
  qed
qed

section \<open>Dispatching and messages\<close>

lemma keeps_pool_setdefault [keeps_intros]:
  "keeps (pool_inv cap) (py_modify (b_services_update (dict_setdefault n (new_service n))))"
  by (intro keeps_modify) (simp add: pool_inv_setdefault)

lemma keeps_pool_utcnow [keeps_intros]: "keeps (pool_inv cap) utcnow"
  by (rule keepsI) (simp add: utcnow_run)

lemma keeps_pool_send [keeps_intros]:
  "keeps (pool_inv cap) (send_multipart data)" "keeps (pool_inv cap) (send_to_worker_zmq data)"
  "keeps (pool_inv cap) (reply r body)"
  by (auto intro!: keepsI simp: send_multipart_run send_to_worker_zmq_run reply_run)

lemma keeps_pool_unwrap [keeps_intros]: "keeps (pool_inv cap) (unwrap_worker w)"
  by (rule keepsI) (simp add: unwrap_worker_run split: sum.split)

lemma keeps_pool_invoke [keeps_intros]: "keeps (pool_inv cap) (invoke_service svc req)"
  by (rule keepsI) (simp add: invoke_service_def py_bind_def new_cid_run py_seq_def py_modify_def
      py_get_def py_raise_def py_ret_def split: sum.split)

lemma keeps_pool_zato_call: "keeps (pool_inv cap) (zato_call req n)"
  unfolding zato_call_def by (intro keeps_intros)

lemma deliver_request_pool:
  assumes inv: "pool_inv cap s" and w: "map_of (b_workers s) i = Some w"
  shows "pool_inv cap (snd (deliver_request n q w (s\<lparr>b_workers := dict_del i (b_workers s)\<rparr>)))"
proof (cases "wd_type w")
  case WZmq
  have "keeps (pool_inv cap) (deliver_request n q w)"
    unfolding deliver_request_def using WZmq by (auto intro: keeps_intros)
  from keepsD [OF this pool_inv_del [OF inv]] show ?thesis .
next
  case WZato
  let ?t = "s\<lparr>b_workers := dict_del i (b_workers s)\<rparr>" and ?n = "wd_service_name w"
  let ?u = "snd (zato_call q n ?t)"
  have u: "pool_inv cap ?u" using keepsD [OF keeps_pool_zato_call pool_inv_del [OF inv]] .
  have "same_registry ?t ?u" using keepsD [OF zato_call_registry same_registry_refl] .
  then have "internal_count ?n ?u = internal_count ?n ?t" "tally ?n ?u = tally ?n s"
    by (simp_all add: same_registry_def internal_count_def tally_def)
  moreover have "Suc (internal_count ?n ?t) \<le> internal_count ?n s"
    using count_values_del_Some [OF w, of "internal_of ?n"] WZato
    by (simp add: internal_count_def internal_of_def)
  ultimately have "int (internal_count ?n ?u) < fst (tally ?n ?u)"
    using pool_invD(3) [OF inv, of ?n] by simp
  then have "pool_inv cap (snd (add_worker (wd_id w) ?n y100 WZato ?u))"
    using pool_inv_add_worker [OF u] by blast
  moreover have "snd (send_to_worker_zato q w n ?t) = snd (add_worker (wd_id w) ?n y100 WZato ?u)"
    by (simp add: send_to_worker_zato_finally py_finally_def add_worker_run Let_def split: prod.split)
  ultimately show ?thesis using WZato by (simp add: deliver_request_def)
qed

lemma keeps_pool_dispatch_loop: "keeps (pool_inv cap) (dispatch_loop k n)"
proof (induction k)
  case 0
  show ?case by (simp add: keeps_ret)
next
  case (Suc k)
  have "keeps (pool_inv cap) (py_bind (workers_pop i) (\<lambda>worker.
      py_seq (deliver_request n q worker) (dispatch_loop k n)))" for i q
  proof (rule keepsI)
    fix s assume inv: "pool_inv cap s"
    show "pool_inv cap (snd (py_bind (workers_pop i) (\<lambda>worker.
        py_seq (deliver_request n q worker) (dispatch_loop k n)) s))"
    proof (cases "map_of (b_workers s) i")
      case None
      with inv show ?thesis by (simp add: py_bind_def workers_pop_run)
    next
      case (Some w)
      from keepsD [OF Suc deliver_request_pool [OF inv Some, of n q]] deliver_request_pool [OF inv Some, of n q]
      show ?thesis
        using Some by (auto simp: py_bind_def workers_pop_run py_seq_def split: prod.split sum.split)
    qed
  qed
  note step = this
  show ?case
    unfolding dispatch_loop.simps
  proof (intro keeps_bind keeps_item_get)
    fix svc
    show "keeps (pool_inv cap) (case (sv_pending_requests svc, sv_workers svc) of
       (req # _, i # _) \<Rightarrow>
         py_seq (mutate_service n (\<lambda>v. v\<lparr>sv_pending_requests := tl (sv_pending_requests v)\<rparr>))
        (py_seq (mutate_service n (\<lambda>v. v\<lparr>sv_workers := tl (sv_workers v)\<rparr>))
        (py_bind (workers_pop i) (\<lambda>worker.
         py_seq (deliver_request n req worker) (dispatch_loop k n))))
     | _ \<Rightarrow> py_ret ())"
      by (cases "sv_pending_requests svc"; cases "sv_workers svc")
         (simp_all add: keeps_ret keeps_seq keeps_pool_mutate_service step)
  qed
qed

lemma keeps_pool_remove_expired: "keeps (pool_inv cap) (remove_expired i)"
  unfolding remove_expired_def remove_from_service_def
  by (intro keeps_intros) (simp_all add: pool_inv_del)

lemma keeps_pool_cleanup [keeps_intros]: "keeps (pool_inv cap) cleanup_workers"
  unfolding cleanup_workers_def by (intro keeps_intros keeps_pool_remove_expired)

lemma keeps_pool_dispatch_requests [keeps_intros]: "keeps (pool_inv cap) (dispatch_requests n)"
  unfolding dispatch_requests_def dispatch_pending_def
  by (intro keeps_intros add_workers_pool keeps_pool_dispatch_loop)

lemma keeps_pool_add_zmq: "keeps (pool_inv cap) (add_worker i n ttl WZmq)"
  by (rule keepsI) (erule pool_inv_add_worker, simp)

lemma keeps_pool_handle_client: "keeps (pool_inv cap) (handle_client_message sender n body)"
  unfolding handle_client_message_def by (intro keeps_intros) simp_all

lemma keeps_pool_ready: "keeps (pool_inv cap) (on_event_ready i data)"
  unfolding on_event_ready_def
  by (cases data) (auto intro!: keeps_intros keeps_pool_add_zmq)

lemma keeps_pool_reply: "keeps (pool_inv cap) (on_event_reply i data)"
  unfolding on_event_reply_def
  by (auto intro: keeps_intros split: list.split)

lemma keeps_pool_heartbeat: "keeps (pool_inv cap) (on_event_heartbeat i)"
  by (rule keepsI) (auto simp: on_event_heartbeat_run split: option.split
      intro!: pool_inv_mutate_worker [of _ "_\<lparr>b_ticks := _\<rparr>", simplified])

lemma keeps_pool_disconnect: "keeps (pool_inv cap) (on_event_disconnect i)"
proof (rule keepsI)
  fix s assume "pool_inv cap s"
  then have "pool_inv cap (s\<lparr>b_workers := dict_del (wrap_worker_id WZmq i) (b_workers s)\<rparr>)" (is "pool_inv cap ?t")
    by (rule pool_inv_del)
  moreover have "tally n (snd (on_event_disconnect i s)) = tally n ?t"
    "dict_has n (b_services ?t) \<Longrightarrow> dict_has n (b_services (snd (on_event_disconnect i s)))" for n
    by (cases "map_of (b_services s) n"; simp add: tally_def map_of_map_values on_event_disconnect_run)+
  ultimately show "pool_inv cap (snd (on_event_disconnect i s))"
    using pool_inv_services [of cap ?t] by (simp add: on_event_disconnect_run same_tallies_def)
qed

lemma keeps_pool_handle: "keeps (pool_inv cap) (handle msg)"
  unfolding handle_def handle_raw_def handle_worker_message_def
  by (auto intro!: keeps_intros keeps_pool_handle_client keeps_pool_ready keeps_pool_reply
      keeps_pool_heartbeat keeps_pool_disconnect split: list.split)

lemma keeps_pool_serve_round: "keeps (pool_inv cap) (serve_round p)"
  unfolding serve_round_def send_disconnect_to_all_def send_heartbeats_def send_heartbeat_def
  by (cases p) (auto intro!: keeps_intros pool_inv_mutate_worker)

end
