(* ===== verification/Mdp_Peers.thy ===== *)
theory Mdp_Peers
  imports Mdp_Broker
begin

text \<open>
  The two other parties of the Majordomo Protocol, the standalone \<open>Worker\<close> of
  \<^verbatim>\<open>zato-zmq/src/zato/zmq_/mdp/worker.py\<close> and the \<open>Client\<close> of \<^verbatim>\<open>client.py\<close>. What a worker
  does to its sockets is a list of actions; a ROUTER socket strips the first frame of what it
  sends, so a worker sees a broker's message without the identity frame.
\<close>

section \<open>Workers\<close>

datatype socket_action =
    Sent "string list" | Connected | Slept int | WorkerSocketClosed | ClientSocketReopened

text \<open>\<open>w_on_request\<close> is the method handling requests, which subclasses override: it gets the
  body and may read the clock.\<close>

record mdp_worker =
  w_service_name :: string
  w_heartbeat :: int
  w_heartbeat_mult :: int
  w_reconnect_sleep :: int
  w_broker_last_heartbeat :: "int option"
  w_worker_last_heartbeat :: "int option"
  w_last_connected :: int
  w_keep_running :: bool
  w_on_request :: "string \<Rightarrow> int \<Rightarrow> string"
  w_actions :: "socket_action list"
  w_clock :: "nat \<Rightarrow> int"
  w_ticks :: nat

text \<open>The base class answers with the time, rendered by \<open>isoformat\<close>.\<close>

definition on_event_request_to_worker :: "(int \<Rightarrow> string) \<Rightarrow> string \<Rightarrow> int \<Rightarrow> string" where
  "on_event_request_to_worker isoformat msg now = isoformat now"

definition init_worker ::
  "string \<Rightarrow> int \<Rightarrow> int \<Rightarrow> int \<Rightarrow> (string \<Rightarrow> int \<Rightarrow> string) \<Rightarrow> (nat \<Rightarrow> int) \<Rightarrow> mdp_worker" where
  "init_worker service_name heartbeat heartbeat_mult reconnect_sleep on_request clock =
     \<lparr>w_service_name = service_name, w_heartbeat = heartbeat, w_heartbeat_mult = heartbeat_mult,
      w_reconnect_sleep = reconnect_sleep, w_broker_last_heartbeat = None,
      w_worker_last_heartbeat = None, w_last_connected = clock 0, w_keep_running = True,
      w_on_request = on_request, w_actions = [], w_clock = clock, w_ticks = 1\<rparr>"

definition w_utcnow :: "(mdp_worker, int) py" where
  "w_utcnow = py_bind (py_get (\<lambda>s. w_clock s (w_ticks s))) (\<lambda>t.
     py_seq (py_modify (\<lambda>s. s\<lparr>w_ticks := Suc (w_ticks s)\<rparr>)) (py_ret t))"

definition w_act :: "socket_action \<Rightarrow> (mdp_worker, unit) py" where
  "w_act a = py_modify (\<lambda>s. s\<lparr>w_actions := w_actions s @ [a]\<rparr>)"

definition w_send :: "string list \<Rightarrow> bool \<Rightarrow> (mdp_worker, unit) py" where
  "w_send data needs_hb = py_seq (w_act (Sent data))
     (py_when needs_hb (py_bind w_utcnow (\<lambda>now.
        py_modify (\<lambda>s. s\<lparr>w_worker_last_heartbeat := Some now\<rparr>))))"

definition notify_ready :: "(mdp_worker, unit) py" where
  "notify_ready = py_bind (py_get w_service_name) (\<lambda>n. w_send (EventReady_serialize n) True)"

definition notify_heartbeat :: "(mdp_worker, unit) py" where
  "notify_heartbeat = w_send EventWorkerHeartbeat_serialize True"

definition notify_disconnect :: "(mdp_worker, unit) py" where
  "notify_disconnect = w_send EventWorkerDisconnect_serialize False"

definition w_connect :: "(mdp_worker, unit) py" where
  "w_connect = py_seq (w_act Connected) (py_seq notify_ready
     (py_bind w_utcnow (\<lambda>now. py_modify (\<lambda>s. s\<lparr>w_last_connected := now\<rparr>))))"

definition w_stop :: "(mdp_worker, unit) py" where
  "w_stop = py_seq (w_act WorkerSocketClosed) (w_act ClientSocketReopened)"

definition reconnect :: "(mdp_worker, unit) py" where
  "reconnect = py_bind (py_get w_reconnect_sleep) (\<lambda>d.
     py_seq (w_act (Slept d)) (py_seq w_stop (py_seq w_connect (w_act (Slept d)))))"

definition needs_reconnect :: "(mdp_worker, bool) py" where
  "needs_reconnect = py_bind (py_get (\<lambda>s. case w_broker_last_heartbeat s of
       Some t \<Rightarrow> t | None \<Rightarrow> w_last_connected s)) (\<lambda>base_timestamp.
     py_bind w_utcnow (\<lambda>now.
     py_get (\<lambda>s. now \<ge> base_timestamp + seconds (w_heartbeat s * w_heartbeat_mult s))))"

text \<open>Adding to a time stamp that is still \<open>None\<close> is a \<open>TypeError\<close>.\<close>

definition needs_hb_to_broker :: "(mdp_worker, bool) py" where
  "needs_hb_to_broker = py_bind w_utcnow (\<lambda>now.
     py_bind (py_get w_worker_last_heartbeat) (\<lambda>last.
     case last of None \<Rightarrow> py_raise TypeError
     | Some t \<Rightarrow> py_get (\<lambda>s. now \<ge> t + seconds (w_heartbeat s))))"

text \<open>
  The body handed on is frame 4 of the message. An event the map does not know is a
  \<open>KeyError\<close>, a message that is too short an \<open>IndexError\<close>.
\<close>

definition frame :: "nat \<Rightarrow> string list \<Rightarrow> (mdp_worker, string) py" where
  "frame i msg = (if i < length msg then py_ret (msg ! i) else py_raise IndexError)"

definition w_handle_event :: "string \<Rightarrow> string option \<Rightarrow> (mdp_worker, string option) py" where
  "w_handle_event command body =
     (if command = v01_request_to_worker then
        py_bind w_utcnow (\<lambda>now. py_get (\<lambda>s. Some (w_on_request s (the body) now)))
      else if command = v01_heartbeat then py_ret None
      else if command = v01_disconnect then py_seq reconnect (py_ret None)
      else py_raise KeyError)"

definition w_handle :: "string list \<Rightarrow> (mdp_worker, unit) py" where
  "w_handle msg = py_bind w_utcnow (\<lambda>now.
     py_seq (py_modify (\<lambda>s. s\<lparr>w_broker_last_heartbeat := Some now\<rparr>))
    (py_bind (frame 2 msg) (\<lambda>command.
     py_bind (if command = v01_request_to_worker
              then py_bind (frame 3 msg) (\<lambda>s. py_bind (frame 4 msg) (\<lambda>b. py_ret (Some (s, b))))
              else py_ret None) (\<lambda>request.
     py_bind (w_handle_event command (map_option snd request)) (\<lambda>response.
     py_seq
       (case (response, request) of
          (Some r, Some (sender, _)) \<Rightarrow>
            py_when (r \<noteq> []) (w_send (EventWorkerReply_serialize r sender) True)
        | _ \<Rightarrow> py_ret ())
       (py_when (command = v01_request_to_worker) notify_ready))))))"

text \<open>One round of the main loop; it returns whether the loop goes on.\<close>

definition w_round :: "polled \<Rightarrow> (mdp_worker, bool) py" where
  "w_round p =
     (case p of
        Interrupt \<Rightarrow> py_seq notify_disconnect (py_ret False)
      | Message msg \<Rightarrow> py_seq (w_handle msg) (py_get w_keep_running)
      | Nothing \<Rightarrow>
          py_bind needs_hb_to_broker (\<lambda>hb.
          py_seq (py_when hb notify_heartbeat)
         (py_bind needs_reconnect (\<lambda>rc.
          py_seq (py_when rc reconnect) (py_get w_keep_running)))))"

section \<open>Clients\<close>

record mdp_reply =
  rp_service_name :: string
  rp_body :: string

text \<open>
  Waiting for the reply: each round reads the clock and, while the time is not up, polls; a
  reply needs four frames. The outcome \<open>None\<close> is that the rounds given do not decide it.
\<close>

fun client_wait :: "int \<Rightarrow> (int \<times> polled) list \<Rightarrow> (exn + mdp_reply) option" where
  "client_wait until [] = None"
| "client_wait until ((now, p) # rounds) =
     (if now \<le> until then
        (case p of
           Interrupt \<Rightarrow> Some (Inl (OtherError ''No response received''))
         | Message msg \<Rightarrow>
             (if 3 < length msg then Some (Inr \<lparr>rp_service_name = msg ! 2, rp_body = msg ! 3\<rparr>)
              else Some (Inl IndexError))
         | Nothing \<Rightarrow> client_wait until rounds)
      else Some (Inl (OtherError ''No response received'')))"

text \<open>\<open>send\<close>: the frames sent, and the outcome. \<open>timeout\<close> is in microseconds.\<close>

definition client_send ::
  "string \<Rightarrow> string \<Rightarrow> bool \<Rightarrow> int \<Rightarrow> int \<Rightarrow> (int \<times> polled) list
   \<Rightarrow> string list \<times> (exn + mdp_reply option) option" where
  "client_send service body needs_reply timeout now rounds =
     (EventClientRequest_serialize body service,
      if needs_reply then map_option (map_sum id Some) (client_wait (now + timeout) rounds)
      else Some (Inr None))"

section \<open>Facts\<close>

lemma w_utcnow_run [py_run]:
  "w_utcnow s = (Inr (w_clock s (w_ticks s)), s\<lparr>w_ticks := Suc (w_ticks s)\<rparr>)"
  by (simp add: w_utcnow_def py_run)

lemma w_act_run [py_run]: "w_act a s = (Inr (), s\<lparr>w_actions := w_actions s @ [a]\<rparr>)"
  by (simp add: w_act_def py_run)

lemma frame_run [py_run]:
  "frame i msg s = (if i < length msg then (Inr (msg ! i), s) else (Inl IndexError, s))"
  by (simp add: frame_def py_run)

lemmas worker_defs =
  w_send_def notify_ready_def notify_heartbeat_def notify_disconnect_def w_connect_def
  w_stop_def reconnect_def needs_reconnect_def needs_hb_to_broker_def w_handle_event_def

text \<open>What leaves the worker during a method, in order.\<close>

fun sent_of :: "socket_action list \<Rightarrow> string list list" where
  "sent_of [] = []"
| "sent_of (Sent m # as) = m # sent_of as"
| "sent_of (_ # as) = sent_of as"

lemma sent_of_append [simp]: "sent_of (xs @ ys) = sent_of xs @ sent_of ys"
  by (induction xs rule: sent_of.induct) auto

lemma reconnect_actions:
  "\<exists>t. reconnect s = (Inr (), t) \<and> w_actions t = w_actions s @
     [Slept (w_reconnect_sleep s), WorkerSocketClosed, ClientSocketReopened, Connected,
      Sent (EventReady_serialize (w_service_name s)), Slept (w_reconnect_sleep s)]"
  by (simp add: worker_defs py_run)

lemma w_handle_request:
  assumes "msg = [e, v01_worker, v01_request_to_worker, client, f4, f5]"
    and r: "w_on_request s f4 (w_clock s (Suc (w_ticks s))) = r" "r \<noteq> []"
  shows "\<exists>t. w_handle msg s = (Inr (), t) \<and>
    w_actions t = w_actions s @ [Sent (EventWorkerReply_serialize r client),
                                 Sent (EventReady_serialize (w_service_name s))]"
  using assms by (simp add: w_handle_def worker_defs py_run)

lemma client_wait_late:
  assumes "\<forall>(now, p) \<in> set rounds. p = Nothing" "\<exists>(now, p) \<in> set rounds. until < now"
  shows "client_wait until rounds = Some (Inl (OtherError ''No response received''))"
  using assms by (induction until rounds rule: client_wait.induct) auto

end
