(* ===== verification/Mdp_Runs.thy ===== *)
theory Mdp_Runs
  imports Mdp_Broker_Pool Mdp_Peers
begin

text \<open>
  Whole runs of the broker: the invariants of \<open>Mdp_Broker_Facts\<close> and \<open>Mdp_Broker_Pool\<close>
  under every event it can receive, through the interface \<open>py_object\<close>; and the properties
  of the Majordomo Protocol implementation.
\<close>

section \<open>Events\<close>

text \<open>A message is handled, or the main loop polls once more.\<close>

datatype broker_event = Handle "string list" | Round polled

definition broker_step :: "broker_event \<Rightarrow> (broker, unit) py" where
  "broker_step e = (case e of Handle msg \<Rightarrow> handle msg
     | Round p \<Rightarrow> py_bind (serve_round p) (\<lambda>_. py_ret ()))"

text \<open>Traffic for one service, each READY from a worker that is not registered yet.\<close>

definition only_service :: "string \<Rightarrow> broker_event \<Rightarrow> broker \<Rightarrow> bool" where
  "only_service n e s \<longleftrightarrow> (case e of Handle msg \<Rightarrow> message_for n msg s | Round _ \<Rightarrow> True)"

lemma keeps_single_cleanup [keeps_intros]: "keeps (single_inv n) cleanup_workers"
  by (rule keepsI) (simp add: cleanup_workers_single_inv)

lemma single_inv_other_fields [simp]:
  "single_inv n (b_ticks_update f s) = single_inv n s"
  "single_inv n (b_sent_update g s) = single_inv n s"
  by (simp_all add: single_inv_def broker_inv_def broker_ok_def cids_ok_def)

lemma keeps_single_sending [keeps_intros]:
  "keeps (single_inv n) utcnow" "keeps (single_inv n) (unwrap_worker w)"
  "keeps (single_inv n) (send_to_worker_zmq data)" "keeps (single_inv n) (reply r body)"
  by (auto intro!: keepsI simp: utcnow_run unwrap_worker_run send_to_worker_zmq_run reply_run
      split: sum.split)

lemma single_inv_mutate_worker:
  assumes "single_inv n s"
    and "\<And>w. wd_id (f w) = wd_id w \<and> wd_type (f w) = wd_type w \<and> wd_service_name (f w) = wd_service_name w"
  shows "single_inv n (s\<lparr>b_workers := dict_mutate i f (b_workers s)\<rparr>)"
  using assms broker_inv_mutate_worker [of s f i] by (simp add: single_inv_def)

lemma keeps_single_round: "keeps (single_inv n) (serve_round p)"
  unfolding serve_round_def send_disconnect_to_all_def send_heartbeats_def send_heartbeat_def
  by (cases p) (auto intro!: keeps_intros single_inv_mutate_worker)

lemma single_inv_disconnect: "single_inv n s \<Longrightarrow> single_inv n (snd (on_event_disconnect i s))"
  using on_event_disconnect_inv [of s i]
  by (auto simp: single_inv_def on_event_disconnect_run comp_def split_def)

lemma single_inv_heartbeat: "single_inv n s \<Longrightarrow> single_inv n (snd (on_event_heartbeat i s))"
  using on_event_heartbeat_inv [of s i]
  by (auto simp: single_inv_def on_event_heartbeat_run split: option.splits)

lemma single_inv_worker_message:
  assumes s: "single_inv n s" and m: "message_for n (i # e # originator # payload) s"
    and worker: "originator \<noteq> v01_client"
  shows "single_inv n (snd (handle_worker_message i payload s))"
proof (cases payload)
  case Nil
  with s show ?thesis by (simp add: handle_worker_message_def py_run)
next
  case (Cons event data)
  have ready: "single_inv n (snd (on_event_ready i data s))" if "event = v01_ready"
  proof (cases data)
    case Nil
    with s show ?thesis by (simp add: on_event_ready_def py_run)
  next
    case (Cons m rest)
    with that m worker \<open>payload = event # data\<close>
    have "m = n" "map_of (b_workers s) (wrap_worker_id WZmq i) = None"
      by (simp_all add: message_for_def)
    with s Cons show ?thesis using on_event_ready_serves serves_only_single by blast
  qed
  have "keeps (single_inv n) (on_event_reply i data)"
    unfolding on_event_reply_def by (auto intro: keeps_intros split: list.split)
  from keepsD [OF this s] ready s Cons show ?thesis
    by (simp add: handle_worker_message_def single_inv_heartbeat single_inv_disconnect py_raise_def)
qed

lemma single_inv_handle_raw:
  assumes s: "single_inv n s" and m: "message_for n msg s"
  shows "single_inv n (snd (handle_raw msg s))"
proof (cases "\<exists>i e originator payload. msg = i # e # originator # payload")
  case False
  with s show ?thesis by (auto simp: handle_raw_def py_run split: list.split)
next
  case True
  then obtain i e originator payload where msg: "msg = i # e # originator # payload" by blast
  show ?thesis
  proof (cases "originator = v01_client")
    case False
    with msg m single_inv_worker_message [OF s, of i e originator payload] show ?thesis
      by (simp add: handle_raw_def)
  next
    case client: True
    show ?thesis
    proof (cases "\<exists>service body. payload = [service, body]")
      case True
      then obtain service body where "payload = [service, body]" by blast
      with msg m client have "service = n" by (simp add: message_for_def)
      with \<open>payload = [service, body]\<close> show ?thesis
        using handle_client_message_serves [OF s] serves_only_single msg client
        by (simp add: handle_raw_def)
    next
      case False
      with msg client s show ?thesis
        by (auto simp: handle_raw_def py_run split: list.split)
    qed
  qed
qed

lemma single_inv_step:
  assumes "single_inv n s" "only_service n e s"
  shows "single_inv n (snd (broker_step e s))"
proof (cases e)
  case (Handle msg)
  with assms single_inv_handle_raw [of n s msg] show ?thesis
    by (auto simp: broker_step_def handle_def only_service_def py_try_def py_ret_def
        split: prod.splits sum.splits)
next
  case (Round p)
  have "keeps (single_inv n) (py_bind (serve_round p) (\<lambda>_. py_ret ()))"
    by (intro keeps_intros keeps_single_round)
  from keepsD [OF this assms(1)] show ?thesis by (simp add: broker_step_def Round)
qed

interpretation registries: py_object broker_step "only_service n" "single_inv n" for n
  by unfold_locales (rule single_inv_step)

lemma pool_inv_step: "pool_inv cap s \<Longrightarrow> pool_inv cap (snd (broker_step e s))"
proof -
  have "keeps (pool_inv cap) (broker_step e)"
    unfolding broker_step_def
    by (cases e) (auto intro!: keeps_intros keeps_pool_handle keeps_pool_serve_round)
  then show "pool_inv cap s \<Longrightarrow> pool_inv cap (snd (broker_step e s))" by (rule keepsD)
qed

interpretation pool: py_object broker_step "\<lambda>_ _. True" "pool_inv cap" for cap
  by unfold_locales (rule pool_inv_step)

text \<open>The broker as it is created.\<close>

lemma init_single_inv:
  assumes "inj cids" "\<And>k. \<exists>raw. cids k = hex_encode raw"
  shows "single_inv n (init_broker strategy source zname initial mult maxi hb callback clock cids)"
  using assms by (simp add: init_broker_def single_inv_def broker_inv_def broker_ok_def cids_ok_def)

lemma init_pool_inv:
  assumes "0 \<le> initial" "initial \<le> maxi" "0 \<le> mult"
  shows "pool_inv (if strategy = Single then 1 else maxi) (init_broker strategy source zname initial mult maxi hb callback clock cids)"
  using assms
  by (simp add: init_broker_def pool_inv_def pool_config_ok_def tally_def internal_count_def count_values_def)

section \<open>Properties of the registries and the pool\<close>

text \<open>
  Claim C18. In every run of the broker in which all traffic names one service and every READY comes from
  a worker that is not registered at that time, every id that a service lists belongs to a worker
  registered for it, no id is listed twice, and every registered worker is listed by its service; the
  ids that the broker makes for internal workers are distinct and in hex. A second READY of a registered
  worker lists its id twice, and with more services cleaning up raises, so both conditions are needed.
\<close>

theorem broker_registries_consistent:
  assumes "inj cids" and "\<And>k. \<exists>raw. cids k = hex_encode raw"
    and "reach broker_step (only_service n)
           (init_broker strategy source zname initial mult maxi hb callback clock cids) s"
  shows "(\<forall>i w. map_of (b_workers s) i = Some w \<longrightarrow> wd_id w = i \<and>
           (\<exists>v. map_of (b_services s) (wd_service_name w) = Some v \<and> i \<in> set (sv_workers v))) \<and>
         (\<forall>m v. map_of (b_services s) m = Some v \<longrightarrow> distinct (sv_workers v) \<and>
           (\<forall>i \<in> set (sv_workers v). \<exists>w. map_of (b_workers s) i = Some w \<and> wd_service_name w = m))"
proof -
  have "broker_ok s"
    using registries.reach_inv [OF assms(3) init_single_inv [OF assms(1,2)]]
    by (simp add: single_inv_def broker_inv_def)
  then show ?thesis unfolding broker_ok_def by blast
qed

definition sample_cids :: "nat \<Rightarrow> string" where
  "sample_cids k = hex_encode (replicate k (CHR ''a''))"

lemma length_hex_encode: "length (hex_encode s) = 2 * length s"
  by (induction s) auto

lemma inj_sample_cids: "inj sample_cids"
  by (rule injI) (metis length_hex_encode length_replicate mult_cancel1 sample_cids_def zero_neq_numeral)

lemma sample_cids_hex: "\<exists>raw. sample_cids k = hex_encode raw"
  by (auto simp: sample_cids_def)

definition sample_broker :: "pool_strategy \<Rightarrow> service_source \<Rightarrow> broker" where
  "sample_broker strategy source = init_broker strategy source ''zato.invoker'' 2 1 4 3
     (\<lambda>_. Inr (PyBytes ''ok'')) (\<lambda>k. int k) sample_cids"

definition ready_event :: broker_event where
  "ready_event = Handle (''w1'' # EventReady_serialize ''svc'')"

definition request_event :: broker_event where
  "request_event = Handle (''c1'' # EventClientRequest_serialize ''hello'' ''svc'')"

lemma sample_reach_ready:
  "reach broker_step (only_service ''svc'') (sample_broker strategy source)
     (snd (broker_step ready_event (sample_broker strategy source)))"
  by (rule reach_step [OF reach_start])
     (simp add: only_service_def ready_event_def message_for_def serialize_defs v01_defs
       sample_broker_def init_broker_def)

theorem broker_registries_consistent_witness:
  "\<exists>v. map_of (b_services (snd (broker_step ready_event (sample_broker Unlimited SourceMdp01)))) ''svc''
     = Some v \<and> distinct (sv_workers v)"
proof -
  have "map_of (b_services (snd (broker_step ready_event (sample_broker Unlimited SourceMdp01)))) ''svc''
     \<noteq> None" by code_simp
  moreover note broker_registries_consistent
    [OF inj_sample_cids sample_cids_hex sample_reach_ready [unfolded sample_broker_def],
     of Unlimited SourceMdp01]
  ultimately show ?thesis unfolding sample_broker_def by blast
qed

text \<open>
  Claim C21. When the pool is configured with a multiplier that is not negative and an initial size
  between zero and the maximum, a service never has more internal workers than this maximum (one with
  the single strategy), whatever clients and workers send and however often the loop turns. That the
  initial size is within the maximum is needed, as the first batch is not compared with it.
\<close>

theorem internal_workers_bounded:
  assumes "0 \<le> initial" "initial \<le> maxi" "0 \<le> mult"
    and "reach broker_step (\<lambda>_ _. True)
           (init_broker strategy source zname initial mult maxi hb callback clock cids) s"
  shows "int (length (filter (\<lambda>w. wd_type w = WZato \<and> wd_service_name w = n) (dict_values (b_workers s))))
           \<le> (if strategy = Single then 1 else maxi)"
proof -
  have "pool_inv (if strategy = Single then 1 else maxi) s"
    using pool.reach_inv [OF assms(4) init_pool_inv [OF assms(1-3)]] .
  from pool_invD(3,4) [OF this, of n] show ?thesis
    by (simp add: internal_count_def count_values_def internal_of_def [abs_def])
qed

theorem internal_workers_bounded_witness:
  "int (length (filter (\<lambda>w. wd_type w = WZato \<and> wd_service_name w = ''svc'')
     (dict_values (b_workers (snd (broker_step request_event (sample_broker Unlimited SourceZato))))))) \<le> 4"
  unfolding sample_broker_def
  using internal_workers_bounded [of 2 4 1 Unlimited SourceZato "''zato.invoker''" 3
      "\<lambda>_. Inr (PyBytes ''ok'')" "\<lambda>k. int k" sample_cids
      "snd (broker_step request_event (init_broker Unlimited SourceZato ''zato.invoker'' 2 1 4 3
         (\<lambda>_. Inr (PyBytes ''ok'')) (\<lambda>k. int k) sample_cids))" "''svc''"]
  by (simp add: reach_start reach_step)

text \<open>With two or more services, cleaning up expired workers returns exactly when no
  worker is due: the first worker due makes it raise a \<open>ValueError\<close>, because its id is removed
  from the list of every service and not only of its own.\<close>

theorem cleanup_outcome_several_services:
  assumes "broker_ok s" "2 \<le> length (b_services s)"
  shows "fst (cleanup_workers s) =
    (if \<exists>w \<in> set (dict_values (b_workers s)). wd_expires_at w \<le> b_clock s (b_ticks s)
     then Inl ValueError else Inr ())"
proof -
  have "due s = [] \<longleftrightarrow> \<not> (\<exists>w \<in> set (dict_values (b_workers s)). wd_expires_at w \<le> b_clock s (b_ticks s))"
    by (auto simp: due_def expired_ids_def concat_eq_Nil_conv split: if_splits)
  then show ?thesis
    using cleanup_nothing_due [of s] cleanup_workers_several [OF assms(1) _ assms(2)] by auto
qed

definition two_services :: broker where
  "two_services = (sample_broker Unlimited SourceMdp01)\<lparr>
     b_workers := [(wrap_worker_id WZmq ''w1'', WorkerData WZmq ''w1'' ''svc'' 0 None 0)],
     b_services := [(''svc'', (new_service ''svc'')\<lparr>sv_workers := [wrap_worker_id WZmq ''w1'']\<rparr>),
                    (''other'', new_service ''other'')]\<rparr>"

theorem cleanup_outcome_several_services_witness:
  "fst (cleanup_workers two_services) = Inl ValueError"
proof -
  have "broker_ok two_services" "2 \<le> length (b_services two_services)"
    by (auto simp: broker_ok_def two_services_def WorkerData_def new_service_def split: if_splits)
  from cleanup_outcome_several_services [OF this] show ?thesis
    by (simp add: two_services_def WorkerData_def sample_broker_def init_broker_def)
qed


text \<open>Stopping the broker fails while internal workers exist: telling every worker to
  disconnect decodes the id of an internal worker, and the \<open>TypeError\<close> ends the main loop.\<close>

theorem disconnect_to_all_with_internal_workers:
  assumes "broker_inv s" "due s = []"
    and "map_of (b_workers s) i = Some w" "wd_type w = WZato"
  shows "fst (serve_round Interrupt s) = Inl TypeError"
proof -
  have inv: "broker_ok s" "cids_ok s" using assms(1) by (simp_all add: broker_inv_def)
  have zato: "unwrap_id u = Inl TypeError" if "u \<in> set (dict_values (b_workers s))" "wd_type u = WZato" for u
  proof -
    obtain k where "map_of (b_workers s) k = Some u"
      using \<open>u \<in> set (dict_values (b_workers s))\<close> broker_okD(2) [OF inv(1)] by auto
    with inv \<open>wd_type u = WZato\<close> obtain raw where "wd_id u = ''mdp.'' @ hex_encode raw"
      using broker_okD(3) [OF inv(1)] unfolding cids_ok_def by metis
    with \<open>wd_type u = WZato\<close> show ?thesis by (rule unwrap_internal)
  qed
  have "fst (py_for ws (\<lambda>w. py_bind (unwrap_worker w) (\<lambda>i.
      send_to_worker_zmq (EventBrokerDisconnect_serialize i))) t) = Inl TypeError"
    if "\<exists>u \<in> set ws. unwrap_id u = Inl TypeError" for ws t
    using that
  proof (induction ws arbitrary: t)
    case (Cons u ws)
    show ?case
    proof (cases "unwrap_id u")
      case (Inl e)
      with unwrap_error [OF Inl] show ?thesis by (simp add: py_run)
    next
      case (Inr r)
      with Cons show ?thesis by (simp add: py_run)
    qed
  qed simp
  note loop = this
  have "w \<in> set (dict_values (b_workers s))" using assms(3) by (force dest: map_of_SomeD)
  with zato assms(4) have "\<exists>u \<in> set (dict_values (b_workers s)). unwrap_id u = Inl TypeError" by blast
  from loop [OF this, of "s\<lparr>b_ticks := Suc (b_ticks s)\<rparr>"] show ?thesis
    by (auto simp: serve_round_def send_disconnect_to_all_def cleanup_nothing_due [OF assms(2)] py_seq_def
        py_bind_def py_get_def simp del: set_map split: prod.split sum.split)
qed

theorem disconnect_to_all_with_internal_workers_witness:
  "fst (serve_round Interrupt (sample_broker Single SourceZato \<lparr>
      b_workers := [(''mdp.'' @ sample_cids 0, WorkerData WZato (''mdp.'' @ sample_cids 0) ''svc'' 0 None 9)],
      b_services := [(''svc'', (new_service ''svc'')\<lparr>sv_workers := [''mdp.'' @ sample_cids 0]\<rparr>)],
      b_cids := 1\<rparr>)) = Inl TypeError" (is "fst (serve_round Interrupt ?s) = _")
proof (rule disconnect_to_all_with_internal_workers)
  have "broker_ok ?s" by (auto simp: broker_ok_def WorkerData_def new_service_def split: if_splits)
  moreover have "cids_ok ?s"
    using inj_sample_cids sample_cids_hex
    by (auto simp: cids_ok_def WorkerData_def sample_broker_def init_broker_def split: if_splits)
  ultimately show "broker_inv ?s" by (simp add: broker_inv_def)
  show "due ?s = []"
    by (simp add: due_def expired_ids_def WorkerData_def sample_broker_def init_broker_def)
  show "map_of (b_workers ?s) (''mdp.'' @ sample_cids 0) =
      Some (WorkerData WZato (''mdp.'' @ sample_cids 0) ''svc'' 0 None 9)" by simp
qed (simp add: WorkerData_def)

section \<open>Properties of dispatching\<close>

lemma dispatch_requests_loop:
  assumes "due s = []" "map_of (b_services s) n = Some v" "sv_workers v \<noteq> []"
  shows "dispatch_requests n s =
    dispatch_loop (length (sv_pending_requests v)) n (s\<lparr>b_ticks := Suc (b_ticks s)\<rparr>)"
  using assms by (simp add: dispatch_requests_def dispatch_pending_def cleanup_nothing_due py_run)

text \<open>Claim C22: pending requests are dispatched first in, first out to idle ZeroMQ workers in the
  order they became ready; what finds no worker stays queued, workers without a request stay
  idle, and no other service is touched.\<close>

theorem dispatch_requests_fifo:
  assumes "broker_ok s" "due s = []"
    and "map_of (b_services s) n = Some v"
    and "sv_workers v = map (wrap_worker_id WZmq) rs" "rs \<noteq> []"
    and "\<forall>r \<in> set rs. \<exists>w. map_of (b_workers s) (wrap_worker_id WZmq r) = Some w \<and> wd_type w = WZmq"
  shows "\<exists>t. dispatch_requests n s = (Inr (), t) \<and>
    b_sent t = b_sent s @ map2 EventWorkerRequest_serialize (sv_pending_requests v) rs \<and>
    map_of (b_services t) n = Some (v\<lparr>
      sv_pending_requests := drop (length rs) (sv_pending_requests v),
      sv_workers := drop (length (sv_pending_requests v)) (sv_workers v)\<rparr>) \<and>
    (\<forall>m. m \<noteq> n \<longrightarrow> map_of (b_services t) m = map_of (b_services s) m)"
proof -
  let ?s = "s\<lparr>b_ticks := Suc (b_ticks s)\<rparr>"
  have "dispatch_requests n s = dispatch_loop (length (sv_pending_requests v)) n ?s"
    using assms by (simp add: dispatch_requests_loop)
  moreover have "distinct rs"
    using broker_okD(5) [OF assms(1,3)] assms(4) by (simp add: distinct_map)
  moreover have "\<forall>r \<in> set rs. zmq_registered ?s r"
    using assms(6) broker_okD(3) [OF assms(1)] by (fastforce simp: zmq_registered_def)
  ultimately show ?thesis
    using dispatch_loop_zmq [of ?s n v "length (sv_pending_requests v)" rs] assms(3,4) by simp
qed

definition busy_service :: mdp_service where
  "busy_service = (new_service ''svc'')\<lparr>
     sv_workers := map (wrap_worker_id WZmq) [''w1'', ''w2''],
     sv_pending_requests := [\<lparr>wr_body = ''a'', wr_client = ''c1''\<rparr>,
       \<lparr>wr_body = ''b'', wr_client = ''c2''\<rparr>, \<lparr>wr_body = ''c'', wr_client = ''c1''\<rparr>]\<rparr>"

definition busy_broker :: broker where
  "busy_broker = (sample_broker Unlimited SourceMdp01)\<lparr>
     b_workers := map (\<lambda>r. (wrap_worker_id WZmq r, WorkerData WZmq r ''svc'' 0 None 9)) [''w1'', ''w2''],
     b_services := [(''svc'', busy_service)]\<rparr>"

lemma busy_broker_ok: "broker_ok busy_broker"
  by (auto simp: broker_ok_def busy_broker_def busy_service_def new_service_def WorkerData_def
      wrap_worker_id_inj split: if_splits)

theorem dispatch_requests_fifo_witness:
  "b_sent (snd (dispatch_requests ''svc'' busy_broker)) =
     [EventWorkerRequest_serialize \<lparr>wr_body = ''a'', wr_client = ''c1''\<rparr> ''w1'',
      EventWorkerRequest_serialize \<lparr>wr_body = ''b'', wr_client = ''c2''\<rparr> ''w2'']"
  using dispatch_requests_fifo [OF busy_broker_ok, of "''svc''" busy_service "[''w1'', ''w2'']"]
  by (auto simp: busy_broker_def busy_service_def due_def expired_ids_def WorkerData_def
      sample_broker_def init_broker_def wrap_worker_id_inj)


text \<open>
  Claim C23. A request handed to an internal worker of a broker that has no Zato service source is first
  authorised by invoking the Zato service; only a true response lets the requested service run, the
  client is answered with its response, and the worker is registered again in every case, an exception
  of either invocation included. A broker whose services come from Zato does not authorise requests in
  this way.
\<close>

theorem internal_worker_authorises_first:
  assumes "\<not> b_has_service_source_zato s"
  shows "let (r, t) = send_to_worker_zato req w n s;
      inv1 = b_invoked s @ [(b_cid_source s (b_cids s), b_zato_service_name s, req)];
      inv2 = inv1 @ [(b_cid_source s (Suc (b_cids s)), n, req)] in
    (case b_callback s inv1 of
       Inl e \<Rightarrow> r = Inl e \<and> b_invoked t = inv1 \<and> b_sent t = b_sent s
     | Inr allowed \<Rightarrow>
         if \<not> truthy allowed then r = Inr () \<and> b_invoked t = inv1 \<and> b_sent t = b_sent s
         else b_invoked t = inv2 \<and>
           (case b_callback s inv2 of
              Inl e \<Rightarrow> r = Inl e \<and> b_sent t = b_sent s
            | Inr response \<Rightarrow> r = Inr () \<and> b_sent t = b_sent s @
                [EventClientReply_serialize (response_bytes response) (wr_client req) ''dummy-for-now''])) \<and>
    map_option wd_type (map_of (b_workers t) (wd_id w)) = Some WZato \<and>
    wd_id w \<in> set (sv_workers (the (map_of (b_services t) (wd_service_name w))))"
proof -
  let ?inv1 = "b_invoked s @ [(b_cid_source s (b_cids s), b_zato_service_name s, req)]"
  note run = send_to_worker_zato_def invoke_service_def py_run Let_def dict_simps
  show ?thesis
  proof (cases "b_callback s ?inv1")
    case (Inl e)
    with assms show ?thesis
      by (cases "map_of (b_services s) (wd_service_name w)") (simp_all add: run)
  next
    case (Inr allowed)
    with assms show ?thesis
      by (cases "map_of (b_services s) (wd_service_name w)"; cases "truthy allowed";
          cases "b_callback s (?inv1 @ [(b_cid_source s (Suc (b_cids s)), n, req)])")
         (simp_all add: run)
  qed
qed

theorem internal_worker_authorises_first_witness:
  "b_invoked (snd (send_to_worker_zato \<lparr>wr_body = ''x'', wr_client = ''c''\<rparr>
      (WorkerData WZato ''mdp.1'' ''svc'' 0 None 9) ''svc'' (sample_broker Single SourceMdp01))) =
   [(sample_cids 0, ''zato.invoker'', \<lparr>wr_body = ''x'', wr_client = ''c''\<rparr>),
    (sample_cids 1, ''svc'', \<lparr>wr_body = ''x'', wr_client = ''c''\<rparr>)]"
  using internal_worker_authorises_first [of "sample_broker Single SourceMdp01"
      "\<lparr>wr_body = ''x'', wr_client = ''c''\<rparr>" "WorkerData WZato ''mdp.1'' ''svc'' 0 None 9" "''svc''"]
  by (simp add: sample_broker_def init_broker_def Let_def split_def)

section \<open>Properties of heartbeats\<close>

definition hb_step :: "int \<Rightarrow> int \<Rightarrow> string \<times> worker_data \<Rightarrow> broker \<Rightarrow> broker" where
  "hb_step hb now kw s = (if hb_due hb now (snd kw)
     then s\<lparr>b_sent := b_sent s @ [EventBrokerHeartbeat_serialize (projr (unwrap_id (snd kw)))],
            b_workers := dict_mutate (fst kw) (\<lambda>w. w\<lparr>wd_last_hb_sent := Some now\<rparr>) (b_workers s)\<rparr>
     else s)"

lemma hb_fold_sent:
  "b_sent (fold (hb_step hb now) ws s) = b_sent s @
     map (\<lambda>w. EventBrokerHeartbeat_serialize (projr (unwrap_id w))) (filter (hb_due hb now) (dict_values ws))"
  by (induction ws arbitrary: s) (auto simp: hb_step_def)

lemma hb_fold_workers:
  "dict_ok ws \<Longrightarrow> map_of (b_workers (fold (hb_step hb now) ws s)) i =
     (if \<exists>w. map_of ws i = Some w \<and> hb_due hb now w
      then map_option (\<lambda>w. w\<lparr>wd_last_hb_sent := Some now\<rparr>) (map_of (b_workers s) i)
      else map_of (b_workers s) i)"
proof (induction ws arbitrary: s)
  case (Cons kw ws)
  then have "fst kw \<notin> fst ` set ws" by simp
  then have "map_of ws (fst kw) = None" by (simp add: map_of_None_iff)
  with Cons show ?case by (auto simp: hb_step_def dict_simps)
qed simp

lemma internal_or_decodes:
  assumes "broker_inv s" "w \<in> set (dict_values (b_workers s))" "wd_type w = WZmq"
  shows "\<exists>r. unwrap_id w = Inr r"
proof -
  obtain i where i: "map_of (b_workers s) i = Some w"
    using assms(1,2) broker_okD(2) [of s] by (auto simp: broker_inv_def)
  then obtain r where "i = wrap_worker_id WZmq r"
    using assms(1,3) by (fastforce simp: broker_inv_def cids_ok_def)
  with assms(1,3) i broker_okD(3) [of s i w] show ?thesis
    using unwrap_wrapped [of w r] by (auto simp: broker_inv_def)
qed

text \<open>The broker sends a heartbeat to exactly the ZeroMQ workers that never had one or
  had their last one a heartbeat interval ago, in the order of the registry, and remembers the
  time for these workers only; internal workers get none.\<close>

theorem heartbeats_to_due_workers:
  assumes "broker_inv s" "due (s\<lparr>b_ticks := Suc (b_ticks s)\<rparr>) = []" "now = b_clock s (b_ticks s)"
  shows "\<exists>t. send_heartbeats s = (Inr (), t) \<and>
    b_sent t = b_sent s @ map (\<lambda>w. EventBrokerHeartbeat_serialize (projr (unwrap_id w)))
      (filter (hb_due (b_heartbeat s) now) (dict_values (b_workers s))) \<and>
    (\<forall>i. map_of (b_workers t) i = map_option (\<lambda>w. if hb_due (b_heartbeat s) now w
        then w\<lparr>wd_last_hb_sent := Some now\<rparr> else w) (map_of (b_workers s) i))"
proof -
  let ?s = "s\<lparr>b_ticks := Suc (Suc (b_ticks s))\<rparr>" and ?hb = "b_heartbeat s"
  have body: "py_when (hb_due ?hb now (snd kw)) (send_heartbeat kw now) u = (Inr (), hb_step ?hb now kw u)"
    if "kw \<in> set (b_workers s)" for kw u
  proof (cases "hb_due ?hb now (snd kw)")
    case True
    then have "wd_type (snd kw) = WZmq" by (simp add: hb_due_def)
    with that obtain r where "unwrap_id (snd kw) = Inr r"
      using internal_or_decodes [OF assms(1), of "snd kw"] by auto
    with True show ?thesis by (simp add: send_heartbeat_def hb_step_def py_run)
  qed (simp add: hb_step_def py_run)
  have "send_heartbeats s = (Inr (), fold (hb_step ?hb now) (b_workers s) ?s)"
    using py_for_fold [of "b_workers s" _ "hb_step ?hb now", OF body] cleanup_nothing_due [OF assms(2)]
    by (simp add: send_heartbeats_def py_bind_def py_seq_def py_get_def utcnow_run assms(3))
  moreover have "map_of (b_workers (fold (hb_step ?hb now) (b_workers s) ?s)) i =
      map_option (\<lambda>w. if hb_due ?hb now w then w\<lparr>wd_last_hb_sent := Some now\<rparr> else w)
        (map_of (b_workers s) i)" for i
  proof -
    have "dict_ok (b_workers s)" using assms(1) by (simp add: broker_inv_def broker_ok_def)
    then show ?thesis by (cases "map_of (b_workers s) i") (simp_all add: hb_fold_workers)
  qed
  ultimately show ?thesis by (simp add: hb_fold_sent)
qed

theorem heartbeats_to_due_workers_witness:
  "b_sent (snd (send_heartbeats busy_broker)) =
     [EventBrokerHeartbeat_serialize ''w1'', EventBrokerHeartbeat_serialize ''w2'']"
proof -
  have "broker_inv busy_broker"
    using busy_broker_ok inj_sample_cids sample_cids_hex
    by (auto simp: broker_inv_def cids_ok_def busy_broker_def sample_broker_def init_broker_def
        WorkerData_def split: if_splits)
  moreover have "due (busy_broker\<lparr>b_ticks := Suc (b_ticks busy_broker)\<rparr>) = []"
    by (simp add: due_def expired_ids_def busy_broker_def sample_broker_def init_broker_def WorkerData_def)
  ultimately show ?thesis
    using heartbeats_to_due_workers [of busy_broker 0]
    by (auto simp: busy_broker_def sample_broker_def init_broker_def WorkerData_def hb_due_def
        unwrap_wrapped)
qed

section \<open>Properties of the protocol\<close>

text \<open>The id under which the broker keeps a ZeroMQ worker determines the raw id it is
  sent to: unwrapping returns the connection's id, and no internal id is ever decoded.\<close>

theorem worker_id_roundtrip:
  "unwrap_id (WorkerData WZmq raw service_name received sent expires) = Inr raw \<and>
   unwrap_id (WorkerData WZato (''mdp.'' @ hex_encode cid) service_name received sent expires)
     = Inl TypeError"
proof
  show "unwrap_id (WorkerData WZmq raw service_name received sent expires) = Inr raw"
    by (rule unwrap_wrapped) (simp_all add: WorkerData_def)
  show "unwrap_id (WorkerData WZato (''mdp.'' @ hex_encode cid) service_name received sent expires)
     = Inl TypeError"
    by (rule unwrap_internal [of _ cid]) (simp_all add: WorkerData_def)
qed



definition idle_broker :: broker where
  "idle_broker = (sample_broker Unlimited SourceMdp01)\<lparr>
     b_workers := [(wrap_worker_id WZmq ''w1'', WorkerData WZmq ''w1'' ''svc'' 0 None 9)],
     b_services := [(''svc'', (new_service ''svc'')\<lparr>sv_workers := [wrap_worker_id WZmq ''w1'']\<rparr>)]\<rparr>"

definition echo_worker :: mdp_worker where
  "echo_worker = init_worker ''svc'' 3 2 2 (\<lambda>body now. ''got:'' @ body) (\<lambda>k. int k)"


text \<open>An idle round of the worker reconnects exactly when nothing was heard from the
  broker (or since the connection was made) for the heartbeat interval times its multiplier, and
  sends a heartbeat exactly when it sent nothing for the interval.\<close>

theorem worker_idle_round:
  assumes "w_worker_last_heartbeat w = Some t"
  shows "\<exists>w'. w_round Nothing w = (Inr (w_keep_running w), w') \<and>
    (let hb = (w_clock w (w_ticks w) \<ge> t + seconds (w_heartbeat w));
         last = (case w_broker_last_heartbeat w of Some b \<Rightarrow> b | None \<Rightarrow> w_last_connected w);
         now = w_clock w (w_ticks w + (if hb then 2 else 1));
         rc = (now \<ge> last + seconds (w_heartbeat w * w_heartbeat_mult w)) in
     w_actions w' = w_actions w @ (if hb then [Sent EventWorkerHeartbeat_serialize] else []) @
       (if rc then [Slept (w_reconnect_sleep w), WorkerSocketClosed, ClientSocketReopened, Connected,
          Sent (EventReady_serialize (w_service_name w)), Slept (w_reconnect_sleep w)] else []))"
  using assms
  by (cases "w_clock w (w_ticks w) \<ge> t + seconds (w_heartbeat w)")
     (simp_all add: w_round_def worker_defs py_run Let_def split: option.split)

theorem worker_idle_round_witness:
  "\<exists>w'. w_round Nothing (echo_worker\<lparr>w_worker_last_heartbeat := Some 0\<rparr>) = (Inr True, w')"
  using worker_idle_round [of "echo_worker\<lparr>w_worker_last_heartbeat := Some 0\<rparr>" 0]
  by (auto simp: echo_worker_def init_worker_def)

end
