(* ===== verification/Backlog.thy ===== *)
theory Backlog
  imports Py_Prelude "HOL-Library.Multiset"
begin

text \<open>
  The in-RAM backlog of messages without guaranteed delivery, \<open>InRAMBacklog\<close> of
  \<^verbatim>\<open>zato-server/src/zato/server/pubsub/__init__.py\<close>: message ids per topic and sub_key, one
  copy of each message per topic, and expiration times. Every operation holds the lock, so
  each runs to its end before another starts.
\<close>

section \<open>State\<close>

record ram_msg =
  rm_pub_msg_id :: string
  rm_expiration_time :: int
  rm_data :: string

type_synonym overflow = "string \<times> string \<times> int \<times> string \<times> ram_msg list"

text \<open>\<open>bl_key_order\<close> is the order in which \<open>dict.keys()\<close> lists the keys of a fresh dictionary;
  \<open>bl_overflow\<close> what was written to the overflow log.\<close>

record backlog =
  bl_topic_sub_key_to_msg_id :: "(int, (string, string list) dict) dict"
  bl_topic_msg_id_to_msg :: "(int, (string, ram_msg) dict) dict"
  bl_msg_id_to_expiration :: "(string, int \<times> string list \<times> int) dict"
  bl_overflow :: "overflow list"
  bl_key_order :: "string list \<Rightarrow> string list"

definition init_backlog :: "(string list \<Rightarrow> string list) \<Rightarrow> backlog" where
  "init_backlog order =
     \<lparr>bl_topic_sub_key_to_msg_id = [], bl_topic_msg_id_to_msg = [], bl_msg_id_to_expiration = [],
      bl_overflow = [], bl_key_order = order\<rparr>"

text \<open>\<open>d.get(topic_id, {}).get(key, [])\<close> on the nested dictionaries.\<close>

definition ids_of :: "backlog \<Rightarrow> int \<Rightarrow> string \<Rightarrow> string list" where
  "ids_of s topic_id sub_key = dict_get sub_key [] (dict_get topic_id [] (bl_topic_sub_key_to_msg_id s))"

definition msg_of :: "backlog \<Rightarrow> int \<Rightarrow> string \<Rightarrow> ram_msg option" where
  "msg_of s topic_id msg_id = map_of (dict_get topic_id [] (bl_topic_msg_id_to_msg s)) msg_id"

text \<open>\<open>d[topic_id][key]\<close>, and the in-place change of the inner dictionary.\<close>

definition sub_key_ids :: "int \<Rightarrow> string \<Rightarrow> (backlog, string list) py" where
  "sub_key_ids topic_id sub_key = py_bind (item_get bl_topic_sub_key_to_msg_id topic_id) (\<lambda>d.
     py_value KeyError (map_of d sub_key))"

definition change_sub_keys ::
  "int \<Rightarrow> ((string, string list) dict \<Rightarrow> (string, string list) dict) \<Rightarrow> (backlog, unit) py" where
  "change_sub_keys topic_id f = py_modify (bl_topic_sub_key_to_msg_id_update (dict_mutate topic_id f))"

definition topic_msg :: "int \<Rightarrow> string \<Rightarrow> (backlog, ram_msg) py" where
  "topic_msg topic_id msg_id = py_bind (item_get bl_topic_msg_id_to_msg topic_id) (\<lambda>d.
     py_value KeyError (map_of d msg_id))"

definition del_topic_msg :: "int \<Rightarrow> string \<Rightarrow> (backlog, unit) py" where
  "del_topic_msg topic_id msg_id = py_bind (topic_msg topic_id msg_id) (\<lambda>_.
     py_modify (bl_topic_msg_id_to_msg_update (dict_mutate topic_id (dict_del msg_id))))"

section \<open>Retrieving and deleting\<close>

type_synonym retrieved = "(string, (string, ram_msg) dict) dict"

text \<open>The messages of one sub_key, added to the output.\<close>

primrec collect_msgs ::
  "int \<Rightarrow> string \<Rightarrow> string list \<Rightarrow> retrieved \<Rightarrow> (backlog, retrieved) py" where
  "collect_msgs topic_id sub_key [] out = py_ret out"
| "collect_msgs topic_id sub_key (msg_id # msg_ids) out =
     (let out' = dict_setdefault sub_key [] out in
      py_bind (topic_msg topic_id msg_id) (\<lambda>msg.
        collect_msgs topic_id sub_key msg_ids (dict_mutate sub_key (dict_set msg_id msg) out')))"

primrec collect_out :: "int \<Rightarrow> string list \<Rightarrow> retrieved \<Rightarrow> (backlog, retrieved) py" where
  "collect_out topic_id [] out = py_ret out"
| "collect_out topic_id (sub_key # sub_keys) out =
     py_bind (py_get (\<lambda>s. ids_of s topic_id sub_key)) (\<lambda>msg_ids.
     py_bind (collect_msgs topic_id sub_key msg_ids out) (collect_out topic_id sub_keys))"

definition to_delete :: "backlog \<Rightarrow> int \<Rightarrow> string list \<Rightarrow> (string \<times> string) list" where
  "to_delete s topic_id sub_keys =
     concat (map (\<lambda>sub_key. map (Pair sub_key) (ids_of s topic_id sub_key)) sub_keys)"

definition delete_one :: "int \<Rightarrow> bool \<Rightarrow> string \<times> string \<Rightarrow> (backlog, unit) py" where
  "delete_one topic_id delete_sub km = (case km of (sub_key, msg_id) \<Rightarrow>
     py_bind (sub_key_ids topic_id sub_key) (\<lambda>ids.
     py_seq (if msg_id \<in> set ids
             then change_sub_keys topic_id (dict_set sub_key (remove1 msg_id ids))
             else py_raise ValueError)
    (py_seq (py_when (delete_sub \<or> remove1 msg_id ids = [])
               (change_sub_keys topic_id (dict_del sub_key)))
    (py_bind (item_get bl_topic_sub_key_to_msg_id topic_id) (\<lambda>d.
     if \<exists>kv \<in> set d. msg_id \<in> set (snd kv) then py_ret ()
     else py_seq (del_topic_msg topic_id msg_id)
            (item_del bl_msg_id_to_expiration bl_msg_id_to_expiration_update msg_id))))))"

definition get_delete_messages_by_sub_keys ::
  "int \<Rightarrow> string list \<Rightarrow> bool \<Rightarrow> bool \<Rightarrow> (backlog, retrieved option) py" where
  "get_delete_messages_by_sub_keys topic_id sub_keys needs_out delete_sub =
     py_bind (if needs_out then py_bind (collect_out topic_id sub_keys []) (\<lambda>out. py_ret (Some out))
              else py_ret None) (\<lambda>out.
     py_bind (py_get (\<lambda>s. to_delete s topic_id sub_keys)) (\<lambda>todo.
     py_seq (py_for todo (delete_one topic_id delete_sub)) (py_ret out)))"

definition retrieve_messages_by_sub_keys :: "int \<Rightarrow> string list \<Rightarrow> (backlog, retrieved option) py" where
  "retrieve_messages_by_sub_keys topic_id sub_keys =
     get_delete_messages_by_sub_keys topic_id sub_keys True False"

definition backlog_unsubscribe :: "int \<Rightarrow> string list \<Rightarrow> (backlog, unit) py" where
  "backlog_unsubscribe topic_id sub_keys =
     py_bind (get_delete_messages_by_sub_keys topic_id sub_keys False True) (\<lambda>_. py_ret ())"

section \<open>Cleaning up\<close>

text \<open>
  \<open>msg_ids_for_sub_key.pop(msg_id)\<close>: the value found for a sub_key is a list, whose \<open>pop\<close>
  takes an index and raises a \<open>TypeError\<close> for a string; for a sub_key that is not there it is
  an empty dictionary, whose \<open>pop\<close> raises a \<open>KeyError\<close>.
\<close>

definition cleanup_sub_key :: "int \<Rightarrow> string \<Rightarrow> (backlog, unit) py" where
  "cleanup_sub_key topic_id sub_key =
     py_bind (py_get (\<lambda>s. map_of (dict_get topic_id [] (bl_topic_sub_key_to_msg_id s)) sub_key)) (\<lambda>found.
     case found of Some _ \<Rightarrow> py_raise TypeError | None \<Rightarrow> py_raise KeyError)"

definition cleanup_msg :: "int \<times> string list \<times> string \<Rightarrow> (backlog, unit) py" where
  "cleanup_msg x = (case x of (topic_id, sub_keys, msg_id) \<Rightarrow>
     py_seq (item_del bl_msg_id_to_expiration bl_msg_id_to_expiration_update msg_id)
    (py_bind (py_get (\<lambda>s. msg_of s topic_id msg_id)) (\<lambda>found.
     py_seq (if found = None then py_raise KeyError
             else py_modify (bl_topic_msg_id_to_msg_update (dict_mutate topic_id (dict_del msg_id))))
    (py_bind (py_get (\<lambda>s. dict_get topic_id [] (bl_topic_sub_key_to_msg_id s))) (\<lambda>d.
     py_when (d \<noteq> []) (py_for sub_keys (cleanup_sub_key topic_id)))))))"

definition to_process :: "int \<Rightarrow> backlog \<Rightarrow> (int \<times> string list \<times> string) list" where
  "to_process now s = [(topic_id, sub_keys, msg_id).
     (msg_id, (topic_id, sub_keys, expiration)) \<leftarrow> bl_msg_id_to_expiration s, expiration \<le> now]"

text \<open>One round of the background task; the handler logs and lets the loop go on.\<close>

definition cleanup_body :: "int \<Rightarrow> (backlog, unit) py" where
  "cleanup_body now = py_bind (py_get (to_process now)) (\<lambda>xs. py_for xs cleanup_msg)"

definition run_cleanup_task :: "int \<Rightarrow> (backlog, unit) py" where
  "run_cleanup_task now = py_try (cleanup_body now) (\<lambda>_. py_ret ())"

section \<open>Adding messages\<close>

definition log_messages_to_store ::
  "string \<Rightarrow> string \<Rightarrow> int \<Rightarrow> string \<Rightarrow> ram_msg list \<Rightarrow> (backlog, unit) py" where
  "log_messages_to_store cid topic_name max_depth sub_key messages =
     py_modify (bl_overflow_update (\<lambda>xs. xs @ [(cid, topic_name, max_depth, sub_key, messages)]))"

primrec with_room ::
  "string \<Rightarrow> int \<Rightarrow> string \<Rightarrow> int \<Rightarrow> string list \<Rightarrow> ram_msg list \<Rightarrow> (backlog, string list) py" where
  "with_room cid topic_id topic_name max_depth [] messages = py_ret []"
| "with_room cid topic_id topic_name max_depth (sub_key # sub_keys) messages =
     py_seq (change_sub_keys topic_id (dict_setdefault sub_key []))
    (py_bind (py_get (\<lambda>s. ids_of s topic_id sub_key)) (\<lambda>ids.
     if int (length ids) + int (length messages) > max_depth
     then py_seq (log_messages_to_store cid topic_name max_depth sub_key messages)
            (with_room cid topic_id topic_name max_depth sub_keys messages)
     else py_bind (with_room cid topic_id topic_name max_depth sub_keys messages)
            (\<lambda>rest. py_ret (sub_key # rest))))"

definition add_reference :: "int \<Rightarrow> string list \<Rightarrow> string \<Rightarrow> (backlog, unit) py" where
  "add_reference topic_id msg_ids sub_key =
     py_bind (py_get (\<lambda>s. ids_of s topic_id sub_key)) (\<lambda>ids.
     change_sub_keys topic_id (dict_set sub_key (ids @ msg_ids)))"

definition msg_dict :: "ram_msg list \<Rightarrow> (string, ram_msg) dict" where
  "msg_dict messages = fold (\<lambda>item d. dict_set (rm_pub_msg_id item) item d) messages []"

definition add_messages ::
  "string \<Rightarrow> int \<Rightarrow> string \<Rightarrow> int \<Rightarrow> string list \<Rightarrow> ram_msg list \<Rightarrow> (backlog, unit) py" where
  "add_messages cid topic_id topic_name max_depth sub_keys messages =
     py_seq (py_modify (bl_topic_sub_key_to_msg_id_update (dict_setdefault topic_id [])))
    (py_seq (py_modify (bl_topic_msg_id_to_msg_update (dict_setdefault topic_id [])))
    (py_bind (with_room cid topic_id topic_name max_depth sub_keys messages) (\<lambda>may_continue.
     py_when (may_continue \<noteq> [])
       (py_seq (py_for messages (\<lambda>item. item_set bl_msg_id_to_expiration_update (rm_pub_msg_id item)
                  (topic_id, may_continue, rm_expiration_time item)))
       (py_bind (py_get (\<lambda>s. bl_key_order s (dict_keys (msg_dict messages)))) (\<lambda>msg_ids.
        py_seq (py_modify (bl_topic_msg_id_to_msg_update (dict_mutate topic_id
                  (\<lambda>d. fold (\<lambda>(k, m). dict_set k m) (msg_dict messages) d))))
          (py_for may_continue (add_reference topic_id msg_ids))))))))"

end
