(* ===== verification/Backlog_Facts.thy ===== *)
theory Backlog_Facts
  imports Backlog
begin

text \<open>
  The invariant of the backlog of \<open>Backlog\<close>, what each operation does to the ids kept for a
  sub_key and to the stored messages, and the properties of the backlog.
\<close>

section \<open>Lookups after updates\<close>

lemma backlog_update_simps [simp]:
  "bl_topic_sub_key_to_msg_id_update (dict_mutate t f) s =
     s\<lparr>bl_topic_sub_key_to_msg_id := dict_mutate t f (bl_topic_sub_key_to_msg_id s)\<rparr>"
  "bl_topic_sub_key_to_msg_id_update (dict_setdefault t u) s =
     s\<lparr>bl_topic_sub_key_to_msg_id := dict_setdefault t u (bl_topic_sub_key_to_msg_id s)\<rparr>"
  "bl_topic_msg_id_to_msg_update (dict_mutate t g) s =
     s\<lparr>bl_topic_msg_id_to_msg := dict_mutate t g (bl_topic_msg_id_to_msg s)\<rparr>"
  "bl_topic_msg_id_to_msg_update (dict_setdefault t v) s =
     s\<lparr>bl_topic_msg_id_to_msg := dict_setdefault t v (bl_topic_msg_id_to_msg s)\<rparr>"
  "bl_msg_id_to_expiration_update (dict_set m e) s =
     s\<lparr>bl_msg_id_to_expiration := dict_set m e (bl_msg_id_to_expiration s)\<rparr>"
  "bl_msg_id_to_expiration_update (dict_del m) s =
     s\<lparr>bl_msg_id_to_expiration := dict_del m (bl_msg_id_to_expiration s)\<rparr>"
  by simp_all

lemma change_sub_keys_run [py_run]:
  "change_sub_keys t f s =
     (Inr (), s\<lparr>bl_topic_sub_key_to_msg_id := dict_mutate t f (bl_topic_sub_key_to_msg_id s)\<rparr>)"
  by (simp add: change_sub_keys_def py_run)

text \<open>The dictionaries are those of Python: no key twice.\<close>

definition backlog_dicts :: "backlog \<Rightarrow> bool" where
  "backlog_dicts s \<longleftrightarrow> dict_ok (bl_topic_sub_key_to_msg_id s) \<and>
     (\<forall>t d. map_of (bl_topic_sub_key_to_msg_id s) t = Some d \<longrightarrow> dict_ok d)"

text \<open>
  Every id listed for a sub_key stands for a stored message, listed once; a stored message is
  listed for some sub_key of its topic and its expiration is known.
\<close>

definition backlog_ok :: "backlog \<Rightarrow> bool" where
  "backlog_ok s \<longleftrightarrow> backlog_dicts s \<and>
     (\<forall>t k. distinct (ids_of s t k)) \<and>
     (\<forall>t k m. m \<in> set (ids_of s t k) \<longrightarrow> (\<exists>x. msg_of s t m = Some x)) \<and>
     (\<forall>t m x. msg_of s t m = Some x \<longrightarrow>
        (\<exists>k. m \<in> set (ids_of s t k)) \<and> (\<exists>e. map_of (bl_msg_id_to_expiration s) m = Some e)) \<and>
     (\<forall>t t' m x y. msg_of s t m = Some x \<longrightarrow> msg_of s t' m = Some y \<longrightarrow> t = t')"

lemma backlog_okD:
  assumes "backlog_ok s"
  shows "backlog_dicts s" "distinct (ids_of s t k)"
    "m \<in> set (ids_of s t k) \<Longrightarrow> \<exists>x. msg_of s t m = Some x"
    "msg_of s t m = Some x \<Longrightarrow> \<exists>k. m \<in> set (ids_of s t k)"
    "msg_of s t m = Some x \<Longrightarrow> \<exists>e. map_of (bl_msg_id_to_expiration s) m = Some e"
    "msg_of s t m = Some x \<Longrightarrow> msg_of s t' m = Some y \<Longrightarrow> t = t'"
  using assms unfolding backlog_ok_def by blast+

lemma ids_of_other_fields [simp]:
  "ids_of (s\<lparr>bl_topic_msg_id_to_msg := a\<rparr>) = ids_of s"
  "ids_of (s\<lparr>bl_msg_id_to_expiration := b\<rparr>) = ids_of s"
  "ids_of (bl_overflow_update f s) = ids_of s"
  by (auto simp: ids_of_def fun_eq_iff)

lemma msg_of_other_fields [simp]:
  "msg_of (s\<lparr>bl_topic_sub_key_to_msg_id := a\<rparr>) = msg_of s"
  "msg_of (s\<lparr>bl_msg_id_to_expiration := b\<rparr>) = msg_of s"
  "msg_of (bl_overflow_update f s) = msg_of s"
  by (auto simp: msg_of_def fun_eq_iff)

lemma ids_of_known:
  "ids_of s t k \<noteq> [] \<Longrightarrow>
     \<exists>d. map_of (bl_topic_sub_key_to_msg_id s) t = Some d \<and> map_of d k = Some (ids_of s t k)"
  by (auto simp: ids_of_def dict_get_def split: option.splits)

lemma msg_of_known:
  "msg_of s t m = Some x \<Longrightarrow> \<exists>d. map_of (bl_topic_msg_id_to_msg s) t = Some d \<and> map_of d m = Some x"
  by (auto simp: msg_of_def dict_get_def split: option.splits)

text \<open>The scan over the sub_keys of a topic, as a statement about \<open>ids_of\<close>.\<close>

lemma scan_ids:
  assumes "backlog_dicts s" "map_of (bl_topic_sub_key_to_msg_id s) t = Some d"
  shows "(\<exists>kv \<in> set d. m \<in> set (snd kv)) \<longleftrightarrow> (\<exists>k. m \<in> set (ids_of s t k))"
proof
  have d: "dict_ok d" using assms by (auto simp: backlog_dicts_def)
  assume "\<exists>kv \<in> set d. m \<in> set (snd kv)"
  then obtain k v where "(k, v) \<in> set d" "m \<in> set v" by auto
  with d have "map_of d k = Some v" by simp
  with assms(2) \<open>m \<in> set v\<close> show "\<exists>k. m \<in> set (ids_of s t k)"
    by (intro exI [of _ k]) (simp add: ids_of_def dict_get_def)
next
  assume "\<exists>k. m \<in> set (ids_of s t k)"
  then obtain k where k: "m \<in> set (ids_of s t k)" ..
  then have "ids_of s t k \<noteq> []" by auto
  then have "map_of d k = Some (ids_of s t k)"
    using ids_of_known [of s t k] assms(2) by auto
  from map_of_SomeD [OF this] k show "\<exists>kv \<in> set d. m \<in> set (snd kv)" by (intro bexI [of _ "(k, ids_of s t k)"]) simp_all
qed

section \<open>Deleting one message for one sub_key\<close>

definition drop_ref :: "int \<Rightarrow> string \<Rightarrow> string \<Rightarrow> backlog \<Rightarrow> backlog" where
  "drop_ref t k m s = s\<lparr>bl_topic_sub_key_to_msg_id := dict_mutate t
     (\<lambda>d. if remove1 m (ids_of s t k) = [] then dict_del k d
          else dict_set k (remove1 m (ids_of s t k)) d) (bl_topic_sub_key_to_msg_id s)\<rparr>"

lemma ids_of_drop_ref:
  assumes "ids_of s t k \<noteq> []"
  shows "ids_of (drop_ref t k m s) t' k' =
    (if t' = t \<and> k' = k then remove1 m (ids_of s t k) else ids_of s t' k')"
  using ids_of_known [OF assms]
  by (auto simp: drop_ref_def ids_of_def dict_get_def dict_simps split: option.splits)

lemma backlog_dicts_drop_ref: "backlog_dicts s \<Longrightarrow> backlog_dicts (drop_ref t k m s)"
  by (auto simp: backlog_dicts_def drop_ref_def dict_simps split: if_splits)

definition drop_msg :: "int \<Rightarrow> string \<Rightarrow> backlog \<Rightarrow> backlog" where
  "drop_msg t m s = s\<lparr>bl_topic_msg_id_to_msg := dict_mutate t (dict_del m) (bl_topic_msg_id_to_msg s),
     bl_msg_id_to_expiration := dict_del m (bl_msg_id_to_expiration s)\<rparr>"

lemma drop_msg_alt:
  "s\<lparr>bl_msg_id_to_expiration := dict_del m (bl_msg_id_to_expiration s),
     bl_topic_msg_id_to_msg := dict_mutate t (dict_del m) (bl_topic_msg_id_to_msg s)\<rparr> = drop_msg t m s"
  by (cases s) (simp add: drop_msg_def)

lemma msg_of_drop_msg:
  "msg_of (drop_msg t m s) t' m' = (if t' = t \<and> m' = m then None else msg_of s t' m')"
  by (auto simp: drop_msg_def msg_of_def dict_get_def dict_simps split: option.splits)

lemma ids_of_drop_msg [simp]: "ids_of (drop_msg t m s) = ids_of s"
  by (auto simp: drop_msg_def ids_of_def fun_eq_iff)

lemma msg_of_drop_ref [simp]: "msg_of (drop_ref t k m s) = msg_of s"
  by (simp add: drop_ref_def)

lemma drop_simps [simp]:
  "bl_topic_sub_key_to_msg_id (drop_msg t m s) = bl_topic_sub_key_to_msg_id s"
  "bl_topic_msg_id_to_msg (drop_ref t k m s) = bl_topic_msg_id_to_msg s"
  "bl_msg_id_to_expiration (drop_ref t k m s) = bl_msg_id_to_expiration s"
  "bl_msg_id_to_expiration (drop_msg t m s) = dict_del m (bl_msg_id_to_expiration s)"
  "bl_overflow (drop_msg t m s) = bl_overflow s" "bl_overflow (drop_ref t k m s) = bl_overflow s"
  by (simp_all add: drop_msg_def drop_ref_def)

definition referenced :: "backlog \<Rightarrow> int \<Rightarrow> string \<Rightarrow> bool" where
  "referenced s t m \<longleftrightarrow> (\<exists>k. m \<in> set (ids_of s t k))"

definition deleted_one :: "int \<Rightarrow> string \<times> string \<Rightarrow> backlog \<Rightarrow> backlog" where
  "deleted_one t km s = (let s' = drop_ref t (fst km) (snd km) s in
     if referenced s' t (snd km) then s' else drop_msg t (snd km) s')"

lemma delete_one_run:
  assumes ok: "backlog_ok s" and m: "m \<in> set (ids_of s t k)"
  shows "delete_one t False (k, m) s = (Inr (), deleted_one t (k, m) s)"
proof -
  let ?s = "drop_ref t k m s"
  have ids: "ids_of s t k \<noteq> []" using m by auto
  then obtain d where d: "map_of (bl_topic_sub_key_to_msg_id s) t = Some d"
    "map_of d k = Some (ids_of s t k)"
    using ids_of_known by blast
  obtain x where "msg_of s t m = Some x" using backlog_okD(3) [OF ok m] by blast
  then obtain e c where e: "map_of (bl_msg_id_to_expiration s) m = Some e"
    "map_of (bl_topic_msg_id_to_msg s) t = Some c" "map_of c m = Some x"
    using backlog_okD(5) [OF ok] msg_of_known by blast
  let ?d = "if remove1 m (ids_of s t k) = [] then dict_del k d else dict_set k (remove1 m (ids_of s t k)) d"
  have mut: "dict_mutate t (dict_del k) (dict_mutate t (dict_set k v) D) = dict_mutate t (dict_del k) D"
    for v and D :: "(int, (string, string list) dict) dict"
    by (auto simp: dict_mutate_def AList.delete_update_same)
  have d': "map_of (bl_topic_sub_key_to_msg_id ?s) t = Some ?d"
    using d by (simp add: drop_ref_def dict_simps)
  have scan: "(\<exists>kv \<in> set ?d. m \<in> set (snd kv)) \<longleftrightarrow> referenced ?s t m"
    using scan_ids [OF backlog_dicts_drop_ref [OF backlog_okD(1) [OF ok]] d']
    by (simp add: referenced_def)
  have first: "py_seq (change_sub_keys t (dict_set k (remove1 m (ids_of s t k))))
      (py_seq (py_when (remove1 m (ids_of s t k) = []) (change_sub_keys t (dict_del k))) rest) s = rest ?s" for rest :: "(backlog, unit) py"
    by (simp add: py_run mut drop_ref_def)
  have "delete_one t False (k, m) s =
    py_bind (item_get bl_topic_sub_key_to_msg_id t) (\<lambda>d.
     if \<exists>kv \<in> set d. m \<in> set (snd kv) then py_ret ()
     else py_seq (del_topic_msg t m)
            (item_del bl_msg_id_to_expiration bl_msg_id_to_expiration_update m)) ?s"
    using d m by (simp add: delete_one_def sub_key_ids_def py_bind_def item_get_run py_value_def
        py_ret_def first [unfolded py_bind_def])
  also have "\<dots> = (Inr (), deleted_one t (k, m) s)"
    using d' scan e by (simp add: py_run del_topic_msg_def topic_msg_def deleted_one_def drop_msg_def)
  finally show ?thesis .
qed

lemma ids_of_deleted_one:
  assumes "m \<in> set (ids_of s t k)"
  shows "ids_of (deleted_one t (k, m) s) t' k' =
    (if t' = t \<and> k' = k then remove1 m (ids_of s t k) else ids_of s t' k')"
proof -
  have "ids_of s t k \<noteq> []" using assms by auto
  then show ?thesis by (simp add: deleted_one_def Let_def ids_of_drop_ref)
qed

lemma msg_of_deleted_one:
  "msg_of (deleted_one t (k, m) s) t' m' =
     (if t' = t \<and> m' = m \<and> \<not> referenced (drop_ref t k m s) t m then None else msg_of s t' m')"
  by (auto simp: deleted_one_def Let_def msg_of_drop_msg)

lemma referenced_deleted_one:
  assumes "m \<in> set (ids_of s t k)"
  shows "referenced (deleted_one t (k, m) s) t' m' = referenced (drop_ref t k m s) t' m'"
  using assms by (auto simp: referenced_def deleted_one_def Let_def)

lemma backlog_ok_deleted_one:
  assumes ok: "backlog_ok s" and m: "m \<in> set (ids_of s t k)"
  shows "backlog_ok (deleted_one t (k, m) s)" (is "backlog_ok ?t")
proof -
  note ids = ids_of_deleted_one [OF m]
  have sub: "set (ids_of ?t t' k') \<subseteq> set (ids_of s t' k')" for t' k'
    using set_remove1_subset [of m "ids_of s t k"] by (simp add: ids)
  have dicts: "backlog_dicts ?t"
    using backlog_dicts_drop_ref [OF backlog_okD(1) [OF ok], of t k m]
    by (simp add: deleted_one_def Let_def backlog_dicts_def)
  have dist: "distinct (ids_of ?t t' k')" for t' k'
    using backlog_okD(2) [OF ok] by (simp add: ids)
  have stored: "\<exists>x. msg_of ?t t' m' = Some x" if "m' \<in> set (ids_of ?t t' k')" for t' k' m'
  proof -
    have "referenced (drop_ref t k m s) t' m'"
      using that referenced_deleted_one [OF m] by (auto simp: referenced_def)
    then have "msg_of ?t t' m' = msg_of s t' m'" by (auto simp: msg_of_deleted_one)
    then show ?thesis using backlog_okD(3) [OF ok] sub that by fastforce
  qed
  have keep: "(\<exists>k'. m' \<in> set (ids_of ?t t' k')) \<and> (\<exists>e. map_of (bl_msg_id_to_expiration ?t) m' = Some e)"
    if x: "msg_of ?t t' m' = Some x" for t' m' x
  proof -
    have old: "msg_of s t' m' = Some x" using x by (auto simp: msg_of_deleted_one split: if_splits)
    obtain k' where k': "m' \<in> set (ids_of s t' k')" using backlog_okD(4) [OF ok old] ..
    have "referenced ?t t' m'"
    proof (cases "t' = t \<and> m' = m")
      case True
      with x have "referenced (drop_ref t k m s) t m" by (auto simp: msg_of_deleted_one split: if_splits)
      with True show ?thesis by (simp add: referenced_deleted_one [OF m])
    next
      case False
      with k' have "m' \<in> set (ids_of ?t t' k')" by (auto simp: ids)
      then show ?thesis by (auto simp: referenced_def)
    qed
    moreover have "\<exists>e. map_of (bl_msg_id_to_expiration ?t) m' = Some e"
    proof (cases "referenced (drop_ref t k m s) t m")
      case True
      with backlog_okD(5) [OF ok old] show ?thesis by (simp add: deleted_one_def)
    next
      case False
      obtain y where "msg_of s t m = Some y" using backlog_okD(3) [OF ok m] ..
      with False x old have "m' \<noteq> m"
        using backlog_okD(6) [OF ok, of t m y t' x] by (auto simp: msg_of_deleted_one split: if_splits)
      with False backlog_okD(5) [OF ok old] show ?thesis by (simp add: deleted_one_def dict_simps)
    qed
    ultimately show ?thesis by (simp add: referenced_def)
  qed
  have "t1 = t2" if "msg_of ?t t1 m' = Some x" "msg_of ?t t2 m' = Some y" for t1 t2 m' x y
    using that backlog_okD(6) [OF ok] by (auto simp: msg_of_deleted_one split: if_splits)
  with dicts dist stored keep show ?thesis unfolding backlog_ok_def by blast
qed

section \<open>Deleting many\<close>

lemma delete_loop:
  assumes "backlog_ok s" "distinct todo" "\<forall>km \<in> set todo. snd km \<in> set (ids_of s t (fst km))"
  shows "\<exists>u. py_for todo (delete_one t False) s = (Inr (), u) \<and> backlog_ok u \<and>
    (\<forall>t' k. ids_of u t' k = (if t' = t then filter (\<lambda>m. (k, m) \<notin> set todo) (ids_of s t k) else ids_of s t' k)) \<and>
    (\<forall>t' m. msg_of u t' m = (if referenced u t' m then msg_of s t' m else None))"
  using assms
proof (induction todo arbitrary: s)
  case Nil
  have "msg_of s t' m = (if referenced s t' m then msg_of s t' m else None)" for t' m
    using backlog_okD(4) [OF Nil(1), of t' m]
    by (cases "msg_of s t' m") (auto simp: referenced_def)
  with Nil show ?case by (auto simp: py_run)
next
  case (Cons km todo)
  obtain k m where km: "km = (k, m)" by force
  let ?s = "deleted_one t (k, m) s"
  have m: "m \<in> set (ids_of s t k)" using Cons.prems(3) km by simp
  note ids = ids_of_deleted_one [OF m]
  have "\<forall>km \<in> set todo. snd km \<in> set (ids_of ?s t (fst km))"
  proof
    fix km' assume km': "km' \<in> set todo"
    then have "snd km' \<in> set (ids_of s t (fst km'))" "km' \<noteq> (k, m)"
      using Cons.prems(2,3) km by auto
    then have "snd km' \<in> set (ids_of s t (fst km'))" "fst km' = k \<Longrightarrow> snd km' \<noteq> m"
      by (auto simp: prod_eq_iff)
    then show "snd km' \<in> set (ids_of ?s t (fst km'))" by (auto simp: ids in_set_remove1)
  qed
  then obtain u where u: "py_for todo (delete_one t False) ?s = (Inr (), u)" "backlog_ok u"
    "\<And>t' k'. ids_of u t' k' = (if t' = t then filter (\<lambda>m. (k', m) \<notin> set todo) (ids_of ?s t k') else ids_of ?s t' k')"
    "\<And>t' m. msg_of u t' m = (if referenced u t' m then msg_of ?s t' m else None)"
    using Cons.IH [OF backlog_ok_deleted_one [OF Cons.prems(1) m]] Cons.prems(2) by auto
  have run: "py_for (km # todo) (delete_one t False) s = (Inr (), u)"
    using u(1) delete_one_run [OF Cons.prems(1) m] by (simp add: km py_seq_def)
  have "ids_of u t' k' = (if t' = t then filter (\<lambda>m. (k', m) \<notin> set (km # todo)) (ids_of s t k')
      else ids_of s t' k')" for t' k'
    using backlog_okD(2) [OF Cons.prems(1), of t k]
    by (auto simp: u(3) ids km distinct_remove1_removeAll removeAll_filter_not_eq intro: filter_cong)
  moreover have "msg_of u t' m' = (if referenced u t' m' then msg_of s t' m' else None)" for t' m'
  proof (cases "referenced u t' m'")
    case True
    then obtain k' where "m' \<in> set (ids_of u t' k')" by (auto simp: referenced_def)
    then have "m' \<in> set (ids_of ?s t' k')" by (auto simp: u(3) split: if_splits)
    then have "referenced (drop_ref t k m s) t' m'"
      using referenced_deleted_one [OF m] by (auto simp: referenced_def)
    then have "msg_of ?s t' m' = msg_of s t' m'" by (auto simp: msg_of_deleted_one)
    then show ?thesis using True u(4) by simp
  qed (simp add: u(4))
  ultimately show ?case using run u(2) by blast
qed

section \<open>Collecting the output\<close>

lemma dict_mutate_last: "k \<notin> fst ` set d \<Longrightarrow> dict_mutate k f (d @ [(k, v)]) = d @ [(k, f v)]"
  by (induction d) (auto simp: dict_mutate_def)

lemma topic_msg_run: "msg_of s t m = Some x \<Longrightarrow> topic_msg t m s = (Inr x, s)"
  using msg_of_known [of s t m x] by (auto simp: topic_msg_def py_run)

definition stored_msgs :: "backlog \<Rightarrow> int \<Rightarrow> string list \<Rightarrow> (string, ram_msg) dict" where
  "stored_msgs s t ms = map (\<lambda>m. (m, the (msg_of s t m))) ms"

lemma collect_msgs_run:
  assumes "\<forall>m \<in> set ms. \<exists>x. msg_of s t m = Some x" "distinct ms"
    and "k \<notin> fst ` set pre" "fst ` set d \<inter> set ms = {}"
  shows "collect_msgs t k ms (pre @ [(k, d)]) s = (Inr (pre @ [(k, d @ stored_msgs s t ms)]), s)"
  using assms
proof (induction ms arbitrary: d)
  case Nil
  then show ?case by (simp add: py_run stored_msgs_def)
next
  case (Cons m ms)
  obtain x where x: "msg_of s t m = Some x" using Cons.prems(1) by auto
  have "map_of (pre @ [(k, d)]) k = Some d"
    using Cons.prems(3) by (simp add: map_add_def map_of_None_iff [symmetric] del: map_of_eq_None_iff)
  then have "collect_msgs t k (m # ms) (pre @ [(k, d)]) s = collect_msgs t k ms (pre @ [(k, d @ [(m, x)])]) s"
    using Cons.prems(3,4) x topic_msg_run [OF x]
    by (simp add: py_bind_def dict_setdefault_def dict_mutate_last dict_set_new)
  also have "\<dots> = (Inr (pre @ [(k, (d @ [(m, x)]) @ stored_msgs s t ms)]), s)"
    using Cons.prems by (intro Cons.IH) auto
  finally show ?case using x by (simp add: stored_msgs_def)
qed

lemma collect_msgs_new:
  assumes "\<forall>m \<in> set ms. \<exists>x. msg_of s t m = Some x" "distinct ms" "k \<notin> fst ` set out"
  shows "collect_msgs t k ms out s =
    (Inr (if ms = [] then out else out @ [(k, stored_msgs s t ms)]), s)"
proof (cases ms)
  case Nil
  then show ?thesis by (simp add: py_run)
next
  case (Cons m rest)
  have "map_of out k = None" using assms(3) by (simp add: map_of_None_iff)
  then have "dict_setdefault k [] out = out @ [(k, [])]"
    using assms(3) by (simp add: dict_setdefault_def dict_set_new)
  moreover have "dict_setdefault k [] (out @ [(k, [])]) = out @ [(k, [])]"
    using \<open>map_of out k = None\<close> by (simp add: dict_setdefault_def map_add_def)
  ultimately have "collect_msgs t k ms out s = collect_msgs t k ms (out @ [(k, [])]) s"
    by (simp add: Cons Let_def)
  then show ?thesis
    using collect_msgs_run [OF assms(1,2,3), of "[]"] Cons by simp
qed

definition found_msgs :: "backlog \<Rightarrow> int \<Rightarrow> string list \<Rightarrow> retrieved" where
  "found_msgs s t ks = map (\<lambda>k. (k, stored_msgs s t (ids_of s t k))) (filter (\<lambda>k. ids_of s t k \<noteq> []) ks)"

lemma collect_out_run:
  assumes "backlog_ok s" "distinct ks" "fst ` set out \<inter> set ks = {}"
  shows "collect_out t ks out s = (Inr (out @ found_msgs s t ks), s)"
  using assms(2,3)
proof (induction ks arbitrary: out)
  case Nil
  then show ?case by (simp add: py_run found_msgs_def)
next
  case (Cons k ks)
  let ?out = "if ids_of s t k = [] then out else out @ [(k, stored_msgs s t (ids_of s t k))]"
  have "collect_out t (k # ks) out s = collect_out t ks ?out s"
    using collect_msgs_new [of "ids_of s t k" s t k out] Cons.prems backlog_okD(2,3) [OF assms(1)]
    by (simp add: py_bind_def py_get_def)
  also have "\<dots> = (Inr (?out @ found_msgs s t ks), s)"
    using Cons.prems by (intro Cons.IH) auto
  finally show ?case by (simp add: found_msgs_def)
qed

section \<open>Retrieving\<close>

lemma to_delete_facts:
  assumes "backlog_ok s" "distinct ks"
  shows "distinct (to_delete s t ks)"
    "(k, m) \<in> set (to_delete s t ks) \<longleftrightarrow> k \<in> set ks \<and> m \<in> set (ids_of s t k)"
proof -
  show "distinct (to_delete s t ks)"
    using assms(2)
  proof (induction ks)
    case (Cons k ks)
    then show ?case
      using backlog_okD(2) [OF assms(1)] by (auto simp: to_delete_def distinct_map inj_on_def)
  qed (simp add: to_delete_def)
qed (auto simp: to_delete_def)

lemma delete_all_run:
  assumes "backlog_ok s" "distinct ks"
  shows "\<exists>u. py_for (to_delete s t ks) (delete_one t False) s = (Inr (), u) \<and> backlog_ok u \<and>
    (\<forall>t' k. ids_of u t' k = (if t' = t \<and> k \<in> set ks then [] else ids_of s t' k)) \<and>
    (\<forall>t' m. msg_of u t' m = (if referenced u t' m then msg_of s t' m else None))"
proof -
  obtain u where u: "py_for (to_delete s t ks) (delete_one t False) s = (Inr (), u)" "backlog_ok u"
    "\<forall>t' k. ids_of u t' k = (if t' = t then filter (\<lambda>m. (k, m) \<notin> set (to_delete s t ks)) (ids_of s t k)
      else ids_of s t' k)"
    "\<forall>t' m. msg_of u t' m = (if referenced u t' m then msg_of s t' m else None)"
    using delete_loop [OF assms(1) to_delete_facts(1) [OF assms]] to_delete_facts(2) [OF assms]
    by fastforce
  have "ids_of u t' k = (if t' = t \<and> k \<in> set ks then [] else ids_of s t' k)" for t' k
    using u(3) to_delete_facts(2) [OF assms] by (auto simp: filter_empty_conv intro: filter_True)
  with u show ?thesis by blast
qed

text \<open>Retrieving for some sub_keys returns, for each of them with messages, exactly its
  messages in order; afterwards these sub_keys have none, all other sub_keys keep theirs, and a
  message stays stored exactly when another sub_key still refers to it.\<close>

theorem retrieve_returns_and_removes:
  assumes "backlog_ok s" "distinct sub_keys"
  shows "\<exists>u. retrieve_messages_by_sub_keys topic_id sub_keys s =
      (Inr (Some (map (\<lambda>k. (k, map (\<lambda>m. (m, the (msg_of s topic_id m))) (ids_of s topic_id k)))
         (filter (\<lambda>k. ids_of s topic_id k \<noteq> []) sub_keys))), u) \<and> backlog_ok u \<and>
    (\<forall>t k. ids_of u t k = (if t = topic_id \<and> k \<in> set sub_keys then [] else ids_of s t k)) \<and>
    (\<forall>t m. msg_of u t m = (if \<exists>k. m \<in> set (ids_of u t k) then msg_of s t m else None))"
  using delete_all_run [OF assms, of topic_id] collect_out_run [OF assms(1,2), of "[]" topic_id]
  by (auto simp: retrieve_messages_by_sub_keys_def get_delete_messages_by_sub_keys_def py_bind_def
      py_get_def py_seq_def py_ret_def found_msgs_def stored_msgs_def referenced_def)

definition sample_msg :: "string \<Rightarrow> int \<Rightarrow> ram_msg" where
  "sample_msg i e = \<lparr>rm_pub_msg_id = i, rm_expiration_time = e, rm_data = ''data''\<rparr>"

definition sample_backlog :: backlog where
  "sample_backlog = \<lparr>bl_topic_sub_key_to_msg_id = [(1, [(''k1'', [''m1'', ''m2'']), (''k2'', [''m1''])])],
     bl_topic_msg_id_to_msg = [(1, [(''m1'', sample_msg ''m1'' 10), (''m2'', sample_msg ''m2'' 20)])],
     bl_msg_id_to_expiration = [(''m1'', (1, [''k1'', ''k2''], 10)), (''m2'', (1, [''k1''], 20))],
     bl_overflow = [], bl_key_order = id\<rparr>"

lemma sample_backlog_lookups:
  "ids_of sample_backlog t k =
     (if t = 1 then if k = ''k1'' then [''m1'', ''m2''] else if k = ''k2'' then [''m1''] else [] else [])"
  "msg_of sample_backlog t m = (if t = 1 then if m = ''m1'' then Some (sample_msg ''m1'' 10)
     else if m = ''m2'' then Some (sample_msg ''m2'' 20) else None else None)"
  by (auto simp: ids_of_def msg_of_def sample_backlog_def dict_get_def)

lemma sample_backlog_ok: "backlog_ok sample_backlog"
  unfolding backlog_ok_def
proof (intro conjI allI impI)
  show "backlog_dicts sample_backlog"
    by (auto simp: backlog_dicts_def sample_backlog_def split: if_splits)
next
  fix t m x assume "msg_of sample_backlog t m = Some x"
  then have tm: "t = 1" "m = ''m1'' \<or> m = ''m2''"
    by (auto simp: sample_backlog_lookups split: if_splits)
  then have "m \<in> set (ids_of sample_backlog t ''k1'')" by (auto simp: sample_backlog_lookups)
  then show "\<exists>k. m \<in> set (ids_of sample_backlog t k)" ..
  show "\<exists>e. map_of (bl_msg_id_to_expiration sample_backlog) m = Some e"
    using tm(2) by (auto simp: sample_backlog_def)
qed (auto simp: sample_backlog_lookups split: if_splits)

theorem retrieve_returns_and_removes_witness:
  "fst (retrieve_messages_by_sub_keys 1 [''k2''] sample_backlog) =
     Inr (Some [(''k2'', [(''m1'', sample_msg ''m1'' 10)])])"
  using retrieve_returns_and_removes [OF sample_backlog_ok, of "[''k2'']" 1]
  by (auto simp: sample_backlog_lookups)

section \<open>Unsubscribing and cleaning up\<close>

lemma sub_key_ids_run:
  "ids_of s t k \<noteq> [] \<Longrightarrow> sub_key_ids t k s = (Inr (ids_of s t k), s)"
  using ids_of_known [of s t k] by (auto simp: sub_key_ids_def py_run)

text \<open>Unsubscribing a sub_key that has two or more messages raises a \<open>KeyError\<close>: the
  sub_key is removed together with its first message, and then looked up for the second.\<close>

theorem unsubscribe_several_messages:
  assumes "backlog_ok s" "ids_of s topic_id sub_key = m1 # m2 # ms"
  shows "fst (backlog_unsubscribe topic_id [sub_key] s) = Inl KeyError"
proof -
  obtain d where d: "map_of (bl_topic_sub_key_to_msg_id s) topic_id = Some d"
    "map_of d sub_key = Some (m1 # m2 # ms)"
    using ids_of_known [of s topic_id sub_key] assms(2) by auto
  obtain x where "msg_of s topic_id m1 = Some x"
    using backlog_okD(3) [OF assms(1), of m1 topic_id sub_key] assms(2) by auto
  then obtain e c where e: "map_of (bl_msg_id_to_expiration s) m1 = Some e"
    "map_of (bl_topic_msg_id_to_msg s) topic_id = Some c" "map_of c m1 = Some x"
    using backlog_okD(5) [OF assms(1)] msg_of_known by blast
  have "\<exists>u. delete_one topic_id True (sub_key, m1) s = (Inr (), u) \<and>
    bl_topic_sub_key_to_msg_id u = dict_mutate topic_id (dict_del sub_key)
       (dict_mutate topic_id (dict_set sub_key (m2 # ms)) (bl_topic_sub_key_to_msg_id s))"
    using d e
    by (cases "\<exists>kv \<in> set (dict_del sub_key (dict_set sub_key (m2 # ms) d)). m1 \<in> set (snd kv)")
       (simp_all add: delete_one_def sub_key_ids_def del_topic_msg_def topic_msg_def py_run dict_simps)
  then obtain u where u: "delete_one topic_id True (sub_key, m1) s = (Inr (), u)"
    "bl_topic_sub_key_to_msg_id u = dict_mutate topic_id (dict_del sub_key)
       (dict_mutate topic_id (dict_set sub_key (m2 # ms)) (bl_topic_sub_key_to_msg_id s))"
    by blast
  have "fst (delete_one topic_id True (sub_key, m2) u) = Inl KeyError"
    using d by (simp add: delete_one_def sub_key_ids_def py_run u(2) dict_simps)
  then have "fst (py_for (to_delete s topic_id [sub_key]) (delete_one topic_id True) s) = Inl KeyError"
    using u(1) assms(2) by (cases "delete_one topic_id True (sub_key, m2) u") (simp add: to_delete_def py_seq_def)
  then show ?thesis
    by (auto simp: backlog_unsubscribe_def get_delete_messages_by_sub_keys_def py_bind_def py_ret_def
        py_get_def py_seq_def split: prod.split sum.split)
qed

theorem unsubscribe_several_messages_witness:
  "fst (backlog_unsubscribe 1 [''k1''] sample_backlog) = Inl KeyError"
  by (rule unsubscribe_several_messages [OF sample_backlog_ok]) (simp add: sample_backlog_lookups)

text \<open>When a message expires, the background task drops its data and its expiration, then
  fails before it can drop the references of any sub_key: the sub_key keeps the id, and its next
  retrieval raises a \<open>KeyError\<close>.\<close>

theorem cleanup_breaks_references:
  assumes "to_process now s = (topic_id, k # ks, m) # rest"
    and "m \<in> set (ids_of s topic_id sub_key)" "msg_of s topic_id m = Some x"
  shows "msg_of (snd (run_cleanup_task now s)) topic_id m = None \<and>
    ids_of (snd (run_cleanup_task now s)) = ids_of s \<and>
    fst (retrieve_messages_by_sub_keys topic_id [sub_key] (snd (run_cleanup_task now s))) = Inl KeyError"
proof -
  let ?u = "drop_msg topic_id m s"
  have exp: "dict_has m (bl_msg_id_to_expiration s)"
  proof -
    have "(topic_id, k # ks, m) \<in> set (to_process now s)" using assms(1) by simp
    then have "m \<in> fst ` set (bl_msg_id_to_expiration s)"
      by (force simp: to_process_def split: if_splits)
    then show ?thesis by (simp add: map_of_None_iff)
  qed
  have known: "dict_get topic_id [] (bl_topic_sub_key_to_msg_id s) \<noteq> []"
    using assms(2) by (auto simp: ids_of_def dict_get_def split: option.splits)
  obtain e where "py_for (k # ks) (cleanup_sub_key topic_id) ?u = (Inl e, ?u)"
    by (cases "map_of (dict_get topic_id [] (bl_topic_sub_key_to_msg_id s)) k")
       (simp_all add: cleanup_sub_key_def py_run)
  then have "cleanup_msg (topic_id, k # ks, m) s = (Inl e, ?u)"
    using exp known assms(3)
    by (auto simp: cleanup_msg_def py_seq_def py_bind_def py_get_def py_modify_def py_when_def item_del_run
        drop_msg_alt simp del: py_for.simps)
  then have task: "snd (run_cleanup_task now s) = ?u"
    using assms(1) by (simp add: run_cleanup_task_def cleanup_body_def py_bind_def py_get_def py_seq_def
        py_try_def py_ret_def)
  have gone: "msg_of ?u topic_id m = None" by (simp add: msg_of_drop_msg)
  have fail: "m \<in> set ms \<Longrightarrow> fst (collect_msgs topic_id sub_key ms out ?u) = Inl KeyError" for ms out
  proof (induction ms arbitrary: out)
    case (Cons m' ms)
    show ?case
    proof (cases "msg_of ?u topic_id m'")
      case None
      then have "topic_msg topic_id m' ?u = (Inl KeyError, ?u)"
        by (auto simp: topic_msg_def py_run msg_of_def dict_get_def split: option.splits)
      then show ?thesis by (simp add: py_bind_def)
    next
      case (Some x)
      with Cons gone show ?thesis by (auto simp: py_bind_def topic_msg_run)
    qed
  qed simp
  have "fst (collect_out topic_id [sub_key] [] ?u) = Inl KeyError"
    using fail [of "ids_of s topic_id sub_key" "[]"] assms(2)
    by (auto simp: py_bind_def py_get_def split: prod.split sum.split)
  then have "fst (retrieve_messages_by_sub_keys topic_id [sub_key] ?u) = Inl KeyError"
    by (auto simp: retrieve_messages_by_sub_keys_def get_delete_messages_by_sub_keys_def py_bind_def
        split: prod.splits sum.splits)
  then show ?thesis by (simp add: task gone)
qed

theorem cleanup_breaks_references_witness:
  "fst (retrieve_messages_by_sub_keys 1 [''k2''] (snd (run_cleanup_task 15 sample_backlog))) = Inl KeyError"
  using cleanup_breaks_references [of 15 sample_backlog 1 "''k1''" "[''k2'']" "''m1''" "[]" "''k2''" "sample_msg ''m1'' 10"]
  by (simp add: sample_backlog_lookups) (simp add: to_process_def sample_backlog_def)

end
