(* ===== verification/Backlog_Adding.thy ===== *)
theory Backlog_Adding
  imports Backlog_Facts
begin

text \<open>
  Adding messages to the backlog of \<open>Backlog\<close>: which sub_keys accept them, what is stored, and
  the invariant and the depth bound in every run of the backlog.
\<close>

section \<open>Which sub_keys have room\<close>

lemma ids_of_setdefault [simp]:
  "ids_of (s\<lparr>bl_topic_sub_key_to_msg_id :=
      dict_mutate t (dict_setdefault k []) (bl_topic_sub_key_to_msg_id s)\<rparr>) = ids_of s"
  by (auto simp: ids_of_def dict_get_def dict_simps fun_eq_iff split: option.splits)

lemma ids_of_new_topic [simp]:
  "ids_of (s\<lparr>bl_topic_sub_key_to_msg_id := dict_setdefault t [] (bl_topic_sub_key_to_msg_id s)\<rparr>) = ids_of s"
  by (auto simp: ids_of_def dict_get_def dict_simps fun_eq_iff split: option.splits)

lemma msg_of_new_topic [simp]:
  "msg_of (s\<lparr>bl_topic_msg_id_to_msg := dict_setdefault t [] (bl_topic_msg_id_to_msg s)\<rparr>) = msg_of s"
  by (auto simp: msg_of_def dict_get_def dict_simps fun_eq_iff split: option.splits)

lemma backlog_dicts_mutate:
  assumes "backlog_dicts s" "\<And>d. dict_ok d \<Longrightarrow> dict_ok (f d)"
  shows "backlog_dicts (s\<lparr>bl_topic_sub_key_to_msg_id := dict_mutate t f (bl_topic_sub_key_to_msg_id s)\<rparr>)"
  using assms by (auto simp: backlog_dicts_def dict_simps split: if_splits)

text \<open>States that differ in the overflow log and in empty lists only.\<close>

definition same_backlog :: "int \<Rightarrow> backlog \<Rightarrow> backlog \<Rightarrow> bool" where
  "same_backlog topic_id s t \<longleftrightarrow> ids_of t = ids_of s \<and>
     bl_topic_msg_id_to_msg t = bl_topic_msg_id_to_msg s \<and>
     bl_msg_id_to_expiration t = bl_msg_id_to_expiration s \<and> bl_key_order t = bl_key_order s \<and>
     (backlog_dicts s \<longrightarrow> backlog_dicts t) \<and>
     (dict_has topic_id (bl_topic_sub_key_to_msg_id s) \<longrightarrow> dict_has topic_id (bl_topic_sub_key_to_msg_id t))"

lemma same_backlog_refl: "same_backlog t s s"
  by (simp add: same_backlog_def)

lemma same_backlog_trans: "same_backlog i s t \<Longrightarrow> same_backlog i t u \<Longrightarrow> same_backlog i s u"
  by (simp add: same_backlog_def)

lemma same_backlog_setdefault:
  "same_backlog t s (s\<lparr>bl_topic_sub_key_to_msg_id :=
     dict_mutate t (dict_setdefault k []) (bl_topic_sub_key_to_msg_id s)\<rparr>)"
  by (auto simp: same_backlog_def dict_simps intro: backlog_dicts_mutate)

lemma same_backlog_overflow: "same_backlog t s (bl_overflow_update f s)"
  by (auto simp: same_backlog_def backlog_dicts_def)

definition has_room :: "backlog \<Rightarrow> int \<Rightarrow> int \<Rightarrow> ram_msg list \<Rightarrow> string \<Rightarrow> bool" where
  "has_room s topic_id max_depth messages k \<longleftrightarrow>
     int (length (ids_of s topic_id k)) + int (length messages) \<le> max_depth"

lemma with_room_run:
  "\<exists>t. with_room cid topic_id name max_depth ks messages s =
      (Inr (filter (has_room s topic_id max_depth messages) ks), t) \<and> same_backlog topic_id s t \<and>
    bl_overflow t = bl_overflow s @ map (\<lambda>k. (cid, name, max_depth, k, messages))
      (filter (\<lambda>k. \<not> has_room s topic_id max_depth messages k) ks)"
proof (induction ks arbitrary: s)
  case Nil
  then show ?case by (simp add: py_run same_backlog_refl)
next
  case (Cons k ks)
  let ?s = "s\<lparr>bl_topic_sub_key_to_msg_id :=
     dict_mutate topic_id (dict_setdefault k []) (bl_topic_sub_key_to_msg_id s)\<rparr>"
  let ?room = "has_room s topic_id max_depth messages"
  show ?case
  proof (cases "?room k")
    case True
    have room: "has_room ?s topic_id max_depth messages = ?room"
      by (simp add: has_room_def [abs_def])
    obtain t where t: "with_room cid topic_id name max_depth ks messages ?s = (Inr (filter ?room ks), t)"
      "same_backlog topic_id ?s t" "bl_overflow t = bl_overflow ?s @
        map (\<lambda>k. (cid, name, max_depth, k, messages)) (filter (\<lambda>k. \<not> ?room k) ks)"
      using Cons.IH [of ?s] unfolding room by blast
    moreover have "with_room cid topic_id name max_depth (k # ks) messages s = (Inr (k # filter ?room ks), t)"
      using t(1) True by (simp add: py_run has_room_def [of s topic_id max_depth messages k])
    ultimately show ?thesis
      using True same_backlog_trans [OF same_backlog_setdefault t(2)] by simp
  next
    case False
    let ?u = "bl_overflow_update (\<lambda>xs. xs @ [(cid, name, max_depth, k, messages)]) ?s"
    have room: "has_room ?u topic_id max_depth messages = ?room"
      by (simp add: has_room_def [abs_def])
    obtain t where t: "with_room cid topic_id name max_depth ks messages ?u = (Inr (filter ?room ks), t)"
      "same_backlog topic_id ?u t" "bl_overflow t = bl_overflow ?u @
        map (\<lambda>k. (cid, name, max_depth, k, messages)) (filter (\<lambda>k. \<not> ?room k) ks)"
      using Cons.IH [of ?u] unfolding room by blast
    moreover have "with_room cid topic_id name max_depth (k # ks) messages s = (Inr (filter ?room ks), t)"
      using t(1) False
      by (simp add: py_run log_messages_to_store_def has_room_def [of s topic_id max_depth messages k])
    ultimately show ?thesis
      using False same_backlog_trans [OF same_backlog_trans [OF same_backlog_setdefault same_backlog_overflow] t(2)]
      by simp
  qed
qed

section \<open>Storing the messages\<close>

lemma map_of_msg_dict:
  "map_of (fold (\<lambda>item d. dict_set (rm_pub_msg_id item) item d) messages d) i =
     (case find (\<lambda>m. rm_pub_msg_id m = i) (rev messages) of Some m \<Rightarrow> Some m | None \<Rightarrow> map_of d i)"
  by (induction messages rule: rev_induct) (auto simp: dict_simps)

lemma map_of_foldl_dict_set:
  "map_of (fold (\<lambda>(k, m). dict_set k m) xs d) i =
     (case map_of (rev xs) i of Some m \<Rightarrow> Some m | None \<Rightarrow> map_of d i)"
  by (induction xs rule: rev_induct) (auto simp: dict_simps split: option.splits)

definition stored_by_add :: "int \<Rightarrow> string list \<Rightarrow> ram_msg list \<Rightarrow> string list \<Rightarrow> backlog \<Rightarrow> backlog \<Rightarrow> bool" where
  "stored_by_add topic_id accepted messages new_ids s u \<longleftrightarrow>
     (\<forall>t k. ids_of u t k = (if t = topic_id \<and> k \<in> set accepted then ids_of s t k @ new_ids else ids_of s t k)) \<and>
     (\<forall>t m. msg_of u t m = (case find (\<lambda>x. rm_pub_msg_id x = m) messages of
        Some x \<Rightarrow> if t = topic_id \<and> accepted \<noteq> [] then Some x else msg_of s t m | None \<Rightarrow> msg_of s t m))"

lemma add_reference_run:
  "add_reference t ms k s = (Inr (), s\<lparr>bl_topic_sub_key_to_msg_id :=
     dict_mutate t (dict_set k (ids_of s t k @ ms)) (bl_topic_sub_key_to_msg_id s)\<rparr>)"
  by (simp add: add_reference_def py_run)

lemma ids_of_set:
  assumes "dict_has t (bl_topic_sub_key_to_msg_id s)"
  shows "ids_of (s\<lparr>bl_topic_sub_key_to_msg_id := dict_mutate t (dict_set k v) (bl_topic_sub_key_to_msg_id s)\<rparr>) t' k'
    = (if t' = t \<and> k' = k then v else ids_of s t' k')"
  using assms by (auto simp: ids_of_def dict_get_def dict_simps split: option.splits)

lemma add_references_run:
  assumes "dict_has t (bl_topic_sub_key_to_msg_id s)" "distinct ks" "backlog_dicts s"
  shows "\<exists>u. py_for ks (add_reference t ms) s = (Inr (), u) \<and>
    (\<forall>t' k. ids_of u t' k = (if t' = t \<and> k \<in> set ks then ids_of s t' k @ ms else ids_of s t' k)) \<and>
    bl_topic_msg_id_to_msg u = bl_topic_msg_id_to_msg s \<and>
    bl_msg_id_to_expiration u = bl_msg_id_to_expiration s \<and> bl_key_order u = bl_key_order s \<and>
    bl_overflow u = bl_overflow s \<and> backlog_dicts u"
  using assms
proof (induction ks arbitrary: s)
  case Nil
  then show ?case by (simp add: py_run)
next
  case (Cons k ks)
  let ?s = "s\<lparr>bl_topic_sub_key_to_msg_id :=
     dict_mutate t (dict_set k (ids_of s t k @ ms)) (bl_topic_sub_key_to_msg_id s)\<rparr>"
  have "dict_has t (bl_topic_sub_key_to_msg_id ?s)" using Cons.prems(1) by (auto simp: dict_simps)
  moreover have "backlog_dicts ?s" using Cons.prems(3) by (rule backlog_dicts_mutate) simp
  ultimately obtain u where u: "py_for ks (add_reference t ms) ?s = (Inr (), u)"
    "\<forall>t' k. ids_of u t' k = (if t' = t \<and> k \<in> set ks then ids_of ?s t' k @ ms else ids_of ?s t' k)"
    "bl_topic_msg_id_to_msg u = bl_topic_msg_id_to_msg ?s"
    "bl_msg_id_to_expiration u = bl_msg_id_to_expiration ?s" "bl_key_order u = bl_key_order ?s"
    "bl_overflow u = bl_overflow ?s" "backlog_dicts u"
    using Cons.IH [of ?s] Cons.prems(2) by auto
  have "py_for (k # ks) (add_reference t ms) s = (Inr (), u)"
    using u(1) by (simp add: py_seq_def add_reference_run)
  moreover have "ids_of u t' k' = (if t' = t \<and> k' \<in> set (k # ks) then ids_of s t' k' @ ms else ids_of s t' k')"
    for t' k' using u(2) Cons.prems(1,2) by (auto simp: ids_of_set)
  ultimately show ?case using u by auto
qed

lemma set_expirations_run:
  "\<exists>e. py_for messages (\<lambda>item. item_set bl_msg_id_to_expiration_update (rm_pub_msg_id item)
      (topic_id, accepted, rm_expiration_time item)) s = (Inr (), s\<lparr>bl_msg_id_to_expiration := e\<rparr>) \<and>
    (\<forall>m. dict_has m e \<longleftrightarrow> dict_has m (bl_msg_id_to_expiration s) \<or> m \<in> rm_pub_msg_id ` set messages)"
proof (induction messages arbitrary: s)
  case Nil
  then show ?case by (intro exI [of _ "bl_msg_id_to_expiration s"]) (simp add: py_run)
next
  case (Cons x xs)
  let ?s = "s\<lparr>bl_msg_id_to_expiration := dict_set (rm_pub_msg_id x) (topic_id, accepted, rm_expiration_time x)
    (bl_msg_id_to_expiration s)\<rparr>"
  obtain e where "py_for xs (\<lambda>item. item_set bl_msg_id_to_expiration_update (rm_pub_msg_id item)
      (topic_id, accepted, rm_expiration_time item)) ?s = (Inr (), ?s\<lparr>bl_msg_id_to_expiration := e\<rparr>)"
    "\<forall>m. dict_has m e \<longleftrightarrow> dict_has m (bl_msg_id_to_expiration ?s) \<or> m \<in> rm_pub_msg_id ` set xs"
    using Cons.IH [of ?s] by blast
  moreover have "item_set bl_msg_id_to_expiration_update (rm_pub_msg_id x)
      (topic_id, accepted, rm_expiration_time x) s = (Inr (), ?s)"
    by (simp add: item_set_run)
  ultimately show ?case by (intro exI [of _ e]) (auto simp: py_seq_def dict_simps)
qed

lemma keys_msg_dict: "fst ` set (msg_dict messages) = rm_pub_msg_id ` set messages"
  unfolding msg_dict_def by (induction messages rule: rev_induct) auto

lemma dict_ok_msg_dict: "dict_ok (msg_dict messages)"
  unfolding msg_dict_def by (induction messages rule: rev_induct) auto

lemma map_of_msg_dict_distinct:
  assumes "distinct (map rm_pub_msg_id messages)"
  shows "map_of (msg_dict messages) i = find (\<lambda>m. rm_pub_msg_id m = i) messages"
  using assms
proof (induction messages rule: rev_induct)
  case (snoc x xs)
  have "find (\<lambda>m. rm_pub_msg_id m = i) (xs @ [x]) =
      (case find (\<lambda>m. rm_pub_msg_id m = i) xs of None \<Rightarrow> if rm_pub_msg_id x = i then Some x else None | Some y \<Rightarrow> Some y)"
    by (induction xs) auto
  moreover have "find (\<lambda>m. rm_pub_msg_id m = i) xs = None" if "rm_pub_msg_id x = i"
    using snoc.prems that by (auto simp: find_None_iff image_iff)
  ultimately show ?case
    using snoc by (auto simp: msg_dict_def dict_simps split: option.splits)
qed (simp add: msg_dict_def)

lemma map_of_rev_ok: "dict_ok d \<Longrightarrow> map_of (rev d) i = map_of d i"
  using map_of_inject_set [of "rev d" d] by (simp add: rev_map [symmetric])

text \<open>The order of a dictionary's keys is some permutation of them.\<close>

definition key_order_ok :: "backlog \<Rightarrow> bool" where
  "key_order_ok s \<longleftrightarrow> (\<forall>ks. mset (bl_key_order s ks) = mset ks)"

definition accepting :: "backlog \<Rightarrow> int \<Rightarrow> int \<Rightarrow> ram_msg list \<Rightarrow> string list \<Rightarrow> string list" where
  "accepting s topic_id max_depth messages ks = filter (has_room s topic_id max_depth messages) ks"

lemma add_messages_run:
  assumes dicts: "backlog_dicts s" and order: "key_order_ok s" and ks: "distinct ks"
    and new: "distinct (map rm_pub_msg_id messages)"
    and acc: "accepting s topic_id max_depth messages ks = acc"
  shows "\<exists>u ids. add_messages cid topic_id name max_depth ks messages s = (Inr (), u) \<and>
    mset ids = mset (map rm_pub_msg_id messages) \<and>
    stored_by_add topic_id acc messages ids s u \<and> backlog_dicts u \<and>
    bl_key_order u = bl_key_order s \<and>
    bl_overflow u = bl_overflow s @ map (\<lambda>k. (cid, name, max_depth, k, messages))
      (filter (\<lambda>k. \<not> has_room s topic_id max_depth messages k) ks) \<and>
    (\<forall>m. dict_has m (bl_msg_id_to_expiration u) \<longleftrightarrow> dict_has m (bl_msg_id_to_expiration s) \<or>
       acc \<noteq> [] \<and> m \<in> rm_pub_msg_id ` set messages)"
proof -
  let ?s = "s\<lparr>bl_topic_sub_key_to_msg_id := dict_setdefault topic_id [] (bl_topic_sub_key_to_msg_id s),
    bl_topic_msg_id_to_msg := dict_setdefault topic_id [] (bl_topic_msg_id_to_msg s)\<rparr>"
  let ?room = "has_room s topic_id max_depth messages"
  have room: "has_room ?s topic_id max_depth messages = ?room" by (simp add: has_room_def [abs_def])
  obtain t where t: "with_room cid topic_id name max_depth ks messages ?s = (Inr acc, t)"
    "same_backlog topic_id ?s t"
    "bl_overflow t = bl_overflow s @ map (\<lambda>k. (cid, name, max_depth, k, messages)) (filter (\<lambda>k. \<not> ?room k) ks)"
    using with_room_run [of cid topic_id name max_depth ks messages ?s] acc
    unfolding room accepting_def by auto
  have t': "ids_of t = ids_of s" "msg_of t = msg_of s"
    "bl_msg_id_to_expiration t = bl_msg_id_to_expiration s" "bl_key_order t = bl_key_order s"
    "dict_has topic_id (bl_topic_sub_key_to_msg_id t)" "dict_has topic_id (bl_topic_msg_id_to_msg t)"
    "backlog_dicts t"
  proof -
    have "backlog_dicts ?s" using dicts by (auto simp: backlog_dicts_def dict_simps split: if_splits)
    moreover have "dict_has topic_id (bl_topic_sub_key_to_msg_id ?s)"
      "dict_has topic_id (bl_topic_msg_id_to_msg ?s)"
      by (cases "map_of (bl_topic_sub_key_to_msg_id s) topic_id";
          cases "map_of (bl_topic_msg_id_to_msg s) topic_id"; simp add: dict_simps)+
    ultimately show "ids_of t = ids_of s" "bl_msg_id_to_expiration t = bl_msg_id_to_expiration s"
      "bl_key_order t = bl_key_order s" "dict_has topic_id (bl_topic_sub_key_to_msg_id t)"
      "dict_has topic_id (bl_topic_msg_id_to_msg t)" "backlog_dicts t"
      using t(2) by (simp_all add: same_backlog_def)
    have "msg_of t = msg_of ?s" using t(2) by (simp add: same_backlog_def msg_of_def fun_eq_iff)
    also have "\<dots> = msg_of s"
      by (auto simp: msg_of_def dict_get_def dict_simps fun_eq_iff split: option.split)
    finally show "msg_of t = msg_of s" .
  qed
  have run: "add_messages cid topic_id name max_depth ks messages s =
      py_when (acc \<noteq> [])
       (py_seq (py_for messages (\<lambda>item. item_set bl_msg_id_to_expiration_update (rm_pub_msg_id item)
                  (topic_id, acc, rm_expiration_time item)))
       (py_bind (py_get (\<lambda>s. bl_key_order s (dict_keys (msg_dict messages)))) (\<lambda>msg_ids.
        py_seq (py_modify (bl_topic_msg_id_to_msg_update (dict_mutate topic_id
                  (\<lambda>d. fold (\<lambda>(k, m). dict_set k m) (msg_dict messages) d))))
          (py_for acc (add_reference topic_id msg_ids))))) t"
    using t(1) by (simp add: add_messages_def py_seq_def py_bind_def py_modify_def)
  let ?ids = "bl_key_order s (dict_keys (msg_dict messages))"
  have ids: "mset ?ids = mset (map rm_pub_msg_id messages)"
  proof -
    have "mset ?ids = mset (dict_keys (msg_dict messages))" using order by (simp add: key_order_ok_def)
    also have "\<dots> = mset (map rm_pub_msg_id messages)"
      using dict_ok_msg_dict new keys_msg_dict
      by (metis list.set_map set_eq_iff_mset_eq_distinct)
    finally show ?thesis .
  qed
  show ?thesis
  proof (cases "acc = []")
    case True
    then show ?thesis
      using run t t' ids
      by (intro exI [of _ t] exI [of _ ?ids])
         (simp add: py_when_def py_ret_def stored_by_add_def split: option.split)
  next
    case False
    obtain e where e: "py_for messages (\<lambda>item. item_set bl_msg_id_to_expiration_update (rm_pub_msg_id item)
        (topic_id, acc, rm_expiration_time item)) t = (Inr (), t\<lparr>bl_msg_id_to_expiration := e\<rparr>)"
      "\<forall>m. dict_has m e \<longleftrightarrow> dict_has m (bl_msg_id_to_expiration t) \<or> m \<in> rm_pub_msg_id ` set messages"
      using set_expirations_run by blast
    let ?store = "\<lambda>d. fold (\<lambda>(k, m). dict_set k m) (msg_dict messages) d"
    let ?v = "t\<lparr>bl_msg_id_to_expiration := e,
      bl_topic_msg_id_to_msg := dict_mutate topic_id ?store (bl_topic_msg_id_to_msg t)\<rparr>"
    have v: "dict_has topic_id (bl_topic_sub_key_to_msg_id ?v)" "backlog_dicts ?v"
      using t'(5,7) by (simp_all add: backlog_dicts_def)
    obtain u where u: "py_for acc (add_reference topic_id ?ids) ?v = (Inr (), u)"
      "\<forall>t k. ids_of u t k = (if t = topic_id \<and> k \<in> set acc then ids_of ?v t k @ ?ids else ids_of ?v t k)"
      "bl_topic_msg_id_to_msg u = bl_topic_msg_id_to_msg ?v"
      "bl_msg_id_to_expiration u = e" "bl_key_order u = bl_key_order s"
      "bl_overflow u = bl_overflow t" "backlog_dicts u"
      using add_references_run [OF v(1) _ v(2), of acc ?ids] ks acc t'(4) unfolding accepting_def by auto
    have msgs: "msg_of u i m = (case find (\<lambda>x. rm_pub_msg_id x = m) messages of
        Some x \<Rightarrow> if i = topic_id \<and> acc \<noteq> [] then Some x else msg_of s i m | None \<Rightarrow> msg_of s i m)" for i m
    proof -
      have "msg_of u i m = msg_of ?v i m" by (simp add: msg_of_def u(3))
      also have "\<dots> = (if i = topic_id then (case map_of (msg_dict messages) m of
          Some x \<Rightarrow> Some x | None \<Rightarrow> msg_of t i m) else msg_of t i m)"
        using t'(6) dict_ok_msg_dict [of messages]
        by (auto simp: msg_of_def dict_get_def dict_simps map_of_foldl_dict_set map_of_rev_ok
            split: option.splits)
      finally show ?thesis
        using False by (simp add: t'(2) map_of_msg_dict_distinct [OF new] split: option.split)
    qed
    have "add_messages cid topic_id name max_depth ks messages s = (Inr (), u)"
      using run False e(1) u(1) t'(4)
      by (simp add: py_when_def py_seq_def py_bind_def py_get_def py_modify_def)
    then show ?thesis
      using u t(3) e(2) t' ids False msgs
      by (intro exI [of _ u] exI [of _ ?ids]) (simp add: stored_by_add_def)
  qed
qed

section \<open>What adding does\<close>

lemma find_distinct: "distinct (map f xs) \<Longrightarrow> x \<in> set xs \<Longrightarrow> find (\<lambda>y. f y = f x) xs = Some x"
  by (induction xs) auto

text \<open>Messages with ids the backlog does not hold yet.\<close>

definition fresh_messages :: "backlog \<Rightarrow> ram_msg list \<Rightarrow> bool" where
  "fresh_messages s messages \<longleftrightarrow> distinct (map rm_pub_msg_id messages) \<and>
     (\<forall>x \<in> set messages. \<forall>t. msg_of s t (rm_pub_msg_id x) = None)"

lemma fresh_not_listed:
  assumes "backlog_ok s" "fresh_messages s messages" "x \<in> set messages"
  shows "rm_pub_msg_id x \<notin> set (ids_of s t k)"
  using assms backlog_okD(3) [OF assms(1)] by (fastforce simp: fresh_messages_def)

lemma backlog_ok_stored:
  assumes ok: "backlog_ok s" and new: "fresh_messages s messages"
    and ids: "mset ids = mset (map rm_pub_msg_id messages)"
    and st: "stored_by_add topic_id acc messages ids s u" and dicts: "backlog_dicts u"
    and exp: "\<forall>m. dict_has m (bl_msg_id_to_expiration u) \<longleftrightarrow> dict_has m (bl_msg_id_to_expiration s) \<or>
       acc \<noteq> [] \<and> m \<in> rm_pub_msg_id ` set messages"
  shows "backlog_ok u"
proof -
  have set_ids: "set ids = rm_pub_msg_id ` set messages" "distinct ids"
    using ids new by (metis list.set_map set_mset_mset)
      (use ids new in \<open>metis fresh_messages_def mset_eq_imp_distinct_iff\<close>)
  have ids_u: "ids_of u t k = (if t = topic_id \<and> k \<in> set acc then ids_of s t k @ ids else ids_of s t k)" for t k
    using st by (simp add: stored_by_add_def)
  have found: "find (\<lambda>x. rm_pub_msg_id x = m) messages = Some x \<Longrightarrow> m \<in> set ids" for m x
    using set_ids by (auto simp: find_Some_iff)
  have msg_u: "msg_of u t m = (if t = topic_id \<and> acc \<noteq> [] \<and> m \<in> set ids
      then find (\<lambda>x. rm_pub_msg_id x = m) messages else msg_of s t m)" for t m
  proof (cases "find (\<lambda>x. rm_pub_msg_id x = m) messages")
    case None
    then have "m \<notin> set ids" using set_ids(1) by (auto simp: find_None_iff)
    with None st show ?thesis by (simp add: stored_by_add_def)
  next
    case (Some x)
    with found [OF Some] st show ?thesis by (simp add: stored_by_add_def)
  qed
  have unknown: "msg_of s t m = None" "m \<notin> set (ids_of s t k)" if "m \<in> set ids" for t k m
    using that set_ids(1) new fresh_not_listed [OF ok new] by (auto simp: fresh_messages_def)
  have some: "\<exists>x. find (\<lambda>x. rm_pub_msg_id x = m) messages = Some x" if "m \<in> set ids" for m
    using that set_ids(1) by (cases "find (\<lambda>x. rm_pub_msg_id x = m) messages") (auto simp: find_None_iff)
  show ?thesis
    unfolding backlog_ok_def
  proof (intro conjI allI impI)
    fix t k
    show "distinct (ids_of u t k)"
      using set_ids(2) backlog_okD(2) [OF ok, of t k] unknown(2) by (auto simp: ids_u)
  next
    fix t k m assume m: "m \<in> set (ids_of u t k)"
    show "\<exists>x. msg_of u t m = Some x"
    proof (cases "m \<in> set ids")
      case True
      with m unknown(2) have "t = topic_id" "acc \<noteq> []" by (auto simp: ids_u split: if_splits)
      with True some show ?thesis by (simp add: msg_u)
    next
      case False
      with m have "m \<in> set (ids_of s t k)" by (auto simp: ids_u split: if_splits)
      with False backlog_okD(3) [OF ok] show ?thesis by (simp add: msg_u)
    qed
  next
    fix t m x assume x: "msg_of u t m = Some x"
    have "(\<exists>k. m \<in> set (ids_of u t k)) \<and> dict_has m (bl_msg_id_to_expiration u)"
    proof (cases "t = topic_id \<and> acc \<noteq> [] \<and> m \<in> set ids")
      case True
      then obtain k where "k \<in> set acc" by (cases acc) auto
      with True have "m \<in> set (ids_of u t k)" by (simp add: ids_u)
      with True exp set_ids(1) show ?thesis by blast
    next
      case False
      with x have old: "msg_of s t m = Some x" by (auto simp: msg_u)
      obtain k where "m \<in> set (ids_of s t k)" using backlog_okD(4) [OF ok old] ..
      then have "m \<in> set (ids_of u t k)" by (auto simp: ids_u)
      moreover have "dict_has m (bl_msg_id_to_expiration s)" using backlog_okD(5) [OF ok old] by auto
      ultimately show ?thesis using exp by blast
    qed
    then show "\<exists>k. m \<in> set (ids_of u t k)" "\<exists>e. map_of (bl_msg_id_to_expiration u) m = Some e"
      by auto
  next
    fix t t' m x y assume "msg_of u t m = Some x" "msg_of u t' m = Some y"
    then show "t = t'"
      using unknown(1) backlog_okD(6) [OF ok] by (auto simp: msg_u split: if_splits)
  qed (rule dicts)
qed

text \<open>
  Claim C34. Adding new messages to a well-formed backlog appends their ids to exactly the sub_keys that
  stay within the topic's maximum depth, stores one copy of each message under the topic if any sub_key
  took them, and writes the messages to the overflow log for every other sub_key; nothing else changes,
  and the backlog stays well-formed. Well-formed: references and stored messages agree, with an
  expiration time for each. The sub_keys are distinct, and the ids of the messages are distinct and not
  in the backlog, under any topic.
\<close>

theorem add_messages_outcome:
  assumes "backlog_ok s" "key_order_ok s" "distinct sub_keys" "fresh_messages s messages"
  shows "\<exists>u ids. add_messages cid topic_id topic_name max_depth sub_keys messages s = (Inr (), u) \<and>
    backlog_ok u \<and> mset ids = mset (map rm_pub_msg_id messages) \<and>
    (let room = (\<lambda>k. int (length (ids_of s topic_id k)) + int (length messages) \<le> max_depth) in
     (\<forall>t k. ids_of u t k =
        (if t = topic_id \<and> k \<in> set sub_keys \<and> room k then ids_of s t k @ ids else ids_of s t k)) \<and>
     (\<forall>x \<in> set messages. msg_of u topic_id (rm_pub_msg_id x) =
        (if \<exists>k \<in> set sub_keys. room k then Some x else None)) \<and>
     (\<forall>t m. m \<notin> rm_pub_msg_id ` set messages \<longrightarrow> msg_of u t m = msg_of s t m) \<and>
     bl_overflow u = bl_overflow s @
       map (\<lambda>k. (cid, topic_name, max_depth, k, messages)) (filter (Not \<circ> room) sub_keys))"
proof -
  let ?acc = "accepting s topic_id max_depth messages sub_keys"
  have new: "distinct (map rm_pub_msg_id messages)" using assms(4) by (simp add: fresh_messages_def)
  obtain u ids where u: "add_messages cid topic_id topic_name max_depth sub_keys messages s = (Inr (), u)"
    "mset ids = mset (map rm_pub_msg_id messages)"
    "stored_by_add topic_id ?acc messages ids s u" "backlog_dicts u"
    "bl_overflow u = bl_overflow s @ map (\<lambda>k. (cid, topic_name, max_depth, k, messages))
      (filter (\<lambda>k. \<not> has_room s topic_id max_depth messages k) sub_keys)"
    "\<forall>m. dict_has m (bl_msg_id_to_expiration u) \<longleftrightarrow> dict_has m (bl_msg_id_to_expiration s) \<or>
       ?acc \<noteq> [] \<and> m \<in> rm_pub_msg_id ` set messages"
    using add_messages_run [OF backlog_okD(1) [OF assms(1)] assms(2,3) new refl] by blast
  have ok: "backlog_ok u" by (rule backlog_ok_stored [OF assms(1,4) u(2,3,4,6)])
  have acc: "k \<in> set ?acc \<longleftrightarrow> k \<in> set sub_keys \<and> has_room s topic_id max_depth messages k" for k
    by (auto simp: accepting_def)
  then have some: "?acc \<noteq> [] \<longleftrightarrow> (\<exists>k \<in> set sub_keys. has_room s topic_id max_depth messages k)"
    by (metis empty_iff list.set(1) neq_Nil_conv list.set_intros(1))
  have stored: "msg_of u topic_id (rm_pub_msg_id x) = (if ?acc \<noteq> [] then Some x else None)"
    if "x \<in> set messages" for x
  proof -
    have "find (\<lambda>y. rm_pub_msg_id y = rm_pub_msg_id x) messages = Some x"
      using find_distinct [OF new that] .
    then show ?thesis using u(3) that assms(4) by (simp add: stored_by_add_def fresh_messages_def)
  qed
  have "ids_of u t k = (if t = topic_id \<and> k \<in> set ?acc then ids_of s t k @ ids else ids_of s t k)" for t k
    using u(3) by (simp add: stored_by_add_def)
  moreover have "msg_of u t m = msg_of s t m" if "m \<notin> rm_pub_msg_id ` set messages" for t m
  proof -
    have "find (\<lambda>x. rm_pub_msg_id x = m) messages = None" using that by (auto simp: find_None_iff)
    then show ?thesis using u(3) by (simp add: stored_by_add_def)
  qed
  ultimately show ?thesis
    using u(1,2,5) ok stored
    by (intro exI [of _ u] exI [of _ ids]) (simp add: acc some has_room_def comp_def)
qed

theorem add_messages_outcome_witness:
  "\<exists>u. add_messages ''cid'' 1 ''/t'' 2 [''k1'', ''k2''] [sample_msg ''m3'' 30] sample_backlog = (Inr (), u) \<and>
     ids_of u 1 ''k1'' = [''m1'', ''m2''] \<and> length (ids_of u 1 ''k2'') = 2 \<and>
     bl_overflow u = [(''cid'', ''/t'', 2, ''k1'', [sample_msg ''m3'' 30])]"
proof -
  have "key_order_ok sample_backlog" by (simp add: key_order_ok_def sample_backlog_def)
  moreover have "fresh_messages sample_backlog [sample_msg ''m3'' 30]"
    by (simp add: fresh_messages_def sample_backlog_lookups sample_msg_def)
  moreover have "bl_overflow sample_backlog = []" by (simp add: sample_backlog_def)
  ultimately show ?thesis
    using add_messages_outcome [OF sample_backlog_ok, of "[''k1'', ''k2'']" "[sample_msg ''m3'' 30]" "''cid''" 1 "''/t''" 2]
    by (auto simp: sample_backlog_lookups Let_def dest!: mset_eq_length [where xs = "_ :: string list"])
qed

section \<open>Runs of the backlog\<close>

datatype backlog_event =
    Add string int string "string list" "ram_msg list"
  | Retrieve int "string list"

text \<open>
  Every topic has one maximum depth. Unsubscribing and the clean-up task also change the backlog; they
  break its invariant and are not among these events.
\<close>

definition backlog_step :: "(int \<Rightarrow> int) \<Rightarrow> backlog_event \<Rightarrow> (backlog, unit) py" where
  "backlog_step depth e = (case e of
     Add cid topic_id name ks messages \<Rightarrow> add_messages cid topic_id name (depth topic_id) ks messages
   | Retrieve topic_id ks \<Rightarrow> py_bind (retrieve_messages_by_sub_keys topic_id ks) (\<lambda>_. py_ret ()))"

definition backlog_event_ok :: "backlog_event \<Rightarrow> backlog \<Rightarrow> bool" where
  "backlog_event_ok e s = (case e of
     Add _ _ _ ks messages \<Rightarrow> distinct ks \<and> fresh_messages s messages
   | Retrieve _ ks \<Rightarrow> distinct ks)"

definition backlog_inv :: "(int \<Rightarrow> int) \<Rightarrow> backlog \<Rightarrow> bool" where
  "backlog_inv depth s \<longleftrightarrow> backlog_ok s \<and> key_order_ok s \<and>
     (\<forall>t k. int (length (ids_of s t k)) \<le> max 0 (depth t))"

lemma keeps_order_delete_one: "keeps key_order_ok (delete_one t b km)"
  unfolding delete_one_def sub_key_ids_def change_sub_keys_def del_topic_msg_def topic_msg_def
  by (cases km) (auto intro!: keeps_intros simp: key_order_ok_def)

lemma keeps_order_collect_msgs: "keeps key_order_ok (collect_msgs t k ms out)"
  by (induction ms arbitrary: out) (auto intro!: keeps_intros simp: topic_msg_def Let_def)

lemma keeps_order_collect_out: "keeps key_order_ok (collect_out t ks out)"
  by (induction ks arbitrary: out) (auto intro!: keeps_intros keeps_order_collect_msgs)

lemma keeps_order_retrieve: "keeps key_order_ok (retrieve_messages_by_sub_keys t ks)"
  unfolding retrieve_messages_by_sub_keys_def get_delete_messages_by_sub_keys_def
  by (auto intro!: keeps_intros keeps_order_collect_out keeps_order_delete_one)

lemma retrieve_lengths:
  assumes "backlog_ok s" "distinct ks"
  shows "backlog_ok (snd (retrieve_messages_by_sub_keys t ks s))"
    "length (ids_of (snd (retrieve_messages_by_sub_keys t ks s)) t' k) \<le> length (ids_of s t' k)"
  using delete_all_run [OF assms, of t] collect_out_run [OF assms(1,2), of "[]" t]
  by (auto simp: retrieve_messages_by_sub_keys_def get_delete_messages_by_sub_keys_def py_bind_def
      py_get_def py_seq_def py_ret_def)

lemma add_lengths:
  assumes "backlog_ok s" "key_order_ok s" "distinct ks" "fresh_messages s messages"
  shows "backlog_ok (snd (add_messages cid t name d ks messages s))"
    "key_order_ok (snd (add_messages cid t name d ks messages s))"
    "ids_of (snd (add_messages cid t name d ks messages s)) t' k = ids_of s t' k \<or>
     t' = t \<and> int (length (ids_of (snd (add_messages cid t name d ks messages s)) t' k)) \<le> d"
proof -
  have new: "distinct (map rm_pub_msg_id messages)" using assms(4) by (simp add: fresh_messages_def)
  obtain u ids where u: "add_messages cid t name d ks messages s = (Inr (), u)"
    "mset ids = mset (map rm_pub_msg_id messages)"
    "stored_by_add t (accepting s t d messages ks) messages ids s u" "backlog_dicts u"
    "bl_key_order u = bl_key_order s"
    "\<forall>m. dict_has m (bl_msg_id_to_expiration u) \<longleftrightarrow> dict_has m (bl_msg_id_to_expiration s) \<or>
       accepting s t d messages ks \<noteq> [] \<and> m \<in> rm_pub_msg_id ` set messages"
    using add_messages_run [OF backlog_okD(1) [OF assms(1)] assms(2,3) new refl] by blast
  show "backlog_ok (snd (add_messages cid t name d ks messages s))"
    using backlog_ok_stored [OF assms(1,4) u(2,3,4,6)] u(1) by simp
  show "key_order_ok (snd (add_messages cid t name d ks messages s))"
    using assms(2) u(1,5) by (simp add: key_order_ok_def)
  have "length ids = length messages" using u(2) by (metis length_map mset_eq_length)
  then show "ids_of (snd (add_messages cid t name d ks messages s)) t' k = ids_of s t' k \<or>
     t' = t \<and> int (length (ids_of (snd (add_messages cid t name d ks messages s)) t' k)) \<le> d"
    using u(1,3) by (auto simp: stored_by_add_def accepting_def has_room_def)
qed

lemma backlog_inv_step:
  assumes "backlog_inv depth s" "backlog_event_ok e s"
  shows "backlog_inv depth (snd (backlog_step depth e s))"
proof (cases e)
  case (Add cid t name ks messages)
  have "int (length (ids_of (snd (add_messages cid t name (depth t) ks messages s)) t' k)) \<le> max 0 (depth t')"
    for t' k
    using add_lengths(3) [of s ks messages cid t name "depth t" t' k] assms Add
    by (auto simp: backlog_inv_def backlog_event_ok_def)
  then show ?thesis
    using add_lengths(1,2) [of s ks messages] assms Add
    by (simp add: backlog_inv_def backlog_event_ok_def backlog_step_def)
next
  case (Retrieve t ks)
  have ok: "backlog_ok s" "distinct ks" using assms Retrieve
    by (simp_all add: backlog_inv_def backlog_event_ok_def)
  have "int (length (ids_of (snd (retrieve_messages_by_sub_keys t ks s)) t' k)) \<le> max 0 (depth t')" for t' k
    using retrieve_lengths(2) [OF ok, of t t' k] assms(1)
    unfolding backlog_inv_def by (meson of_nat_mono order_trans)
  then have "backlog_inv depth (snd (retrieve_messages_by_sub_keys t ks s))"
    using retrieve_lengths(1) [OF ok, of t] keepsD [OF keeps_order_retrieve, of s t ks] assms(1)
    by (simp add: backlog_inv_def)
  then show ?thesis
    by (auto simp: Retrieve backlog_step_def py_bind_def py_ret_def split: prod.splits sum.splits)
qed

interpretation backlog: py_object "backlog_step depth" backlog_event_ok "backlog_inv depth" for depth
  by unfold_locales (rule backlog_inv_step)

text \<open>
  Claim C35. In every run of adding messages and retrieving them, from an empty backlog, the references
  and the stored messages agree and no sub_key ever has more messages than its topic's maximum depth.
  Each call gives sub_keys once, the messages added have ids that are new, and a topic has one maximum
  depth. Unsubscribing and the clean-up task are not among the events: the first raises half-way, and
  the second takes out expired messages and leaves their references, as
  \<open>unsubscribe_several_messages\<close> and \<open>cleanup_breaks_references\<close> show.
\<close>

theorem backlog_runs:
  assumes "\<And>ks. mset (order ks) = mset ks"
    and "reach (backlog_step depth) backlog_event_ok (init_backlog order) s"
  shows "backlog_ok s \<and> int (length (ids_of s topic_id sub_key)) \<le> max 0 (depth topic_id)"
proof -
  have "backlog_inv depth (init_backlog order)"
    using assms(1)
    by (auto simp: backlog_inv_def backlog_ok_def backlog_dicts_def key_order_ok_def init_backlog_def
        ids_of_def msg_of_def dict_get_def)
  from backlog.reach_inv [OF assms(2) this] show ?thesis by (simp add: backlog_inv_def)
qed

theorem backlog_runs_witness:
  "backlog_ok (snd (backlog_step (\<lambda>_. 5) (Add ''cid'' 1 ''/t'' [''k''] [sample_msg ''m'' 3]) (init_backlog rev)))"
  using backlog_runs [of rev "\<lambda>_. 5" "snd (backlog_step (\<lambda>_. 5) (Add ''cid'' 1 ''/t'' [''k''] [sample_msg ''m'' 3])
      (init_backlog rev))"]
  by (simp add: reach_step [OF reach_start] backlog_event_ok_def fresh_messages_def init_backlog_def
      msg_of_def dict_get_def)

end
