(* ===== verification/Pubsub_Sql.thy ===== *)
theory Pubsub_Sql
  imports Py_Prelude "HOL-Library.Multiset" "HOL-Library.Option_ord" "HOL-Library.Product_Lexorder"
begin

text \<open>
  Publish/subscribe messages and the SQL tables behind guaranteed delivery, with the queries
  of \<^verbatim>\<open>zato-common/src/zato/common/odb/query_ps_publish.py\<close> and \<^verbatim>\<open>query_ps_delivery.py\<close> over
  the tables of \<^verbatim>\<open>odb/model.py\<close>. A table is a list of rows; a unique index refuses a row
  whose key is taken.
\<close>

section \<open>Messages\<close>

datatype delivery_status = Initialized | WaitingForConfirmation | Delivered

text \<open>\<open>PubSubMessage\<close>, as it is published and as it is stored.\<close>

record pub_msg =
  pm_pub_msg_id :: string
  pm_pub_correl_id :: "string option"
  pm_in_reply_to :: "string option"
  pm_ext_client_id :: "string option"
  pm_group_id :: "string option"
  pm_position_in_group :: "int option"
  pm_pub_time :: int
  pm_ext_pub_time :: "int option"
  pm_data :: string
  pm_data_prefix :: "string option"
  pm_data_prefix_short :: "string option"
  pm_mime_type :: string
  pm_msg_size :: int
  pm_priority :: int
  pm_expiration :: int
  pm_expiration_time :: int
  pm_has_gd :: bool
  pm_delivery_status :: delivery_status
  pm_pattern_matched :: string
  pm_published_by_id :: int
  pm_topic_id :: int
  pm_cluster_id :: int

section \<open>Tables\<close>

record sql_topic =
  st_id :: int
  st_cluster_id :: int
  st_current_depth_gd :: int
  st_last_pub_time :: "int option"

record sql_sub =
  ss_id :: int
  ss_sub_key :: string
  ss_endpoint_id :: int
  ss_cluster_id :: int
  ss_server_id :: int

record sql_queue_msg =
  sq_creation_time :: int
  sq_delivery_count :: int
  sq_pub_msg_id :: string
  sq_endpoint_id :: int
  sq_topic_id :: int
  sq_subscription_id :: int
  sq_cluster_id :: int
  sq_has_gd :: bool
  sq_is_in_staging :: bool
  sq_delivery_status :: delivery_status
  sq_delivery_time :: "int option"

record sql_server =
  sr_id :: int
  sr_name :: string
  sr_cluster_id :: int

record sql_endpoint =
  se_id :: int
  se_cluster_id :: int
  se_endpoint_type :: string
  se_last_seen :: "int option"
  se_last_pub_time :: "int option"

record sql_endpoint_topic =
  et_endpoint_id :: int
  et_topic_id :: int
  et_cluster_id :: int
  et_last_pub_time :: int
  et_pub_msg_id :: string
  et_pub_correl_id :: "string option"
  et_in_reply_to :: "string option"
  et_pattern_matched :: string
  et_ext_client_id :: "string option"

record sql_db =
  db_topics :: "sql_topic list"
  db_messages :: "pub_msg list"
  db_queue :: "sql_queue_msg list"
  db_subs :: "sql_sub list"
  db_servers :: "sql_server list"
  db_endpoints :: "sql_endpoint list"
  db_endpoint_topics :: "sql_endpoint_topic list"
  db_ws_sub_keys :: "(int \<times> string \<times> int) list"

section \<open>Publishing\<close>

text \<open>\<open>fetchone()[0]\<close> on no row subscripts \<open>None\<close>, a \<open>TypeError\<close>.\<close>

definition get_topic_depth :: "int \<Rightarrow> int \<Rightarrow> (sql_db, int) py" where
  "get_topic_depth cluster topic = py_bind (py_get db_topics) (\<lambda>rows.
     case filter (\<lambda>t. st_id t = topic \<and> st_cluster_id t = cluster) rows of
       [] \<Rightarrow> py_raise TypeError | t # _ \<Rightarrow> py_ret (st_current_depth_gd t))"

definition incr_topic_depth :: "int \<Rightarrow> int \<Rightarrow> int \<Rightarrow> int \<Rightarrow> (sql_db, unit) py" where
  "incr_topic_depth cluster topic now incr_by = py_modify (db_topics_update (map (\<lambda>t.
     if st_id t = topic \<and> st_cluster_id t = cluster
     then t\<lparr>st_current_depth_gd := st_current_depth_gd t + incr_by, st_last_pub_time := Some now\<rparr> else t)))"

text \<open>
  One INSERT of all rows: it fails as a whole when a message id is already there or given
  twice (the unique index on \<open>pub_msg_id\<close>), which the caller sees as a \<open>BadRequest\<close>.
\<close>

definition insert_topic_messages :: "pub_msg list \<Rightarrow> (sql_db, unit) py" where
  "insert_topic_messages msg_list = py_bind (py_get db_messages) (\<lambda>rows.
     if distinct (map pm_pub_msg_id (rows @ msg_list))
     then py_modify (db_messages_update (\<lambda>rows. rows @ msg_list)) else py_raise BadRequest)"

definition queue_row :: "int \<Rightarrow> int \<Rightarrow> int \<Rightarrow> sql_sub \<Rightarrow> pub_msg \<Rightarrow> sql_queue_msg" where
  "queue_row cluster topic now sub msg =
     \<lparr>sq_creation_time = now, sq_delivery_count = 0, sq_pub_msg_id = pm_pub_msg_id msg,
      sq_endpoint_id = ss_endpoint_id sub, sq_topic_id = topic, sq_subscription_id = ss_id sub,
      sq_cluster_id = cluster, sq_has_gd = False, sq_is_in_staging = False,
      sq_delivery_status = Initialized, sq_delivery_time = None\<rparr>"

text \<open>The queue has a unique index on the cluster and the message id.\<close>

definition insert_queue_messages ::
  "int \<Rightarrow> sql_sub list \<Rightarrow> pub_msg list \<Rightarrow> int \<Rightarrow> int \<Rightarrow> (sql_db, unit) py" where
  "insert_queue_messages cluster subs msg_list topic now =
     (let queue_msgs = [queue_row cluster topic now sub msg. sub \<leftarrow> subs, msg \<leftarrow> msg_list] in
      py_bind (py_get db_queue) (\<lambda>rows.
      if distinct (map (\<lambda>q. (sq_cluster_id q, sq_pub_msg_id q)) (rows @ queue_msgs))
      then py_modify (db_queue_update (\<lambda>rows. rows @ queue_msgs))
      else py_raise (OtherError ''IntegrityError'')))"

text \<open>One row for each endpoint and topic, with a unique index on the cluster and the message id.\<close>

definition update_publish_metadata ::
  "int \<Rightarrow> int \<Rightarrow> int \<Rightarrow> int \<Rightarrow> string \<Rightarrow> string \<Rightarrow> string option \<Rightarrow> string option \<Rightarrow> string option
   \<Rightarrow> (sql_db, unit) py" where
  "update_publish_metadata cluster topic endpoint now pattern last_id last_correl last_ext last_reply =
     (let new = \<lparr>et_endpoint_id = endpoint, et_topic_id = topic, et_cluster_id = cluster,
            et_last_pub_time = now, et_pub_msg_id = last_id, et_pub_correl_id = last_correl,
            et_in_reply_to = last_reply, et_pattern_matched = pattern, et_ext_client_id = last_ext\<rparr>;
          matches = (\<lambda>r. et_topic_id r = topic \<and> et_endpoint_id r = endpoint \<and> et_cluster_id r = cluster) in
      py_bind (py_get db_endpoint_topics) (\<lambda>rows.
      let written = (if filter matches rows = [] then rows @ [new]
                     else map (\<lambda>r. if matches r then new else r) rows) in
      py_seq (if distinct (map (\<lambda>r. (et_cluster_id r, et_pub_msg_id r)) written)
              then py_modify (db_endpoint_topics_update (\<lambda>_. written))
              else py_raise (OtherError ''IntegrityError''))
        (py_modify (db_endpoints_update (map (\<lambda>e.
           if se_id e = endpoint \<and> se_cluster_id e = cluster
           then e\<lparr>se_last_seen := Some now, se_last_pub_time := Some now\<rparr> else e))))))"

section \<open>Delivering\<close>

text \<open>The order of messages: higher priority first, then external, then publication time.\<close>

definition msg_key :: "pub_msg \<Rightarrow> int \<times> int option \<times> int" where
  "msg_key m = (9 - pm_priority m, pm_ext_pub_time m, pm_pub_time m)"

text \<open>A falsy \<open>last_sql_run\<close> adds no filter.\<close>

definition get_sql_messages_by_sub_key :: "sql_db \<Rightarrow> int \<Rightarrow> string \<Rightarrow> int option \<Rightarrow> int \<Rightarrow> pub_msg list" where
  "get_sql_messages_by_sub_key db cluster sub_key last_sql_run now = sort_key msg_key
     [m. q \<leftarrow> db_queue db, m \<leftarrow> db_messages db, sub \<leftarrow> db_subs db,
         sq_pub_msg_id q = pm_pub_msg_id m \<and> sq_subscription_id q = ss_id sub \<and>
         sq_delivery_status q = Initialized \<and> ss_sub_key sub = sub_key \<and>
         pm_expiration_time m > now \<and> pm_cluster_id m = cluster \<and>
         (case last_sql_run of Some t \<Rightarrow> t \<noteq> 0 \<longrightarrow> pm_pub_time m > t | None \<Rightarrow> True)]"

definition confirm_pubsub_msg_delivered :: "string \<Rightarrow> string \<Rightarrow> int \<Rightarrow> sql_db \<Rightarrow> sql_db" where
  "confirm_pubsub_msg_delivered sub_key msg_id now db = db_queue_update (map (\<lambda>q.
     if sq_pub_msg_id q = msg_id \<and>
        (\<exists>sub \<in> set (db_subs db). ss_id sub = sq_subscription_id q \<and> ss_sub_key sub = sub_key)
     then q\<lparr>sq_delivery_status := Delivered, sq_delivery_time := Some now\<rparr> else q)) db"

text \<open>\<open>one()\<close>: no row is \<open>None\<close>, more than one an exception.\<close>

definition get_delivery_server_for_sub_key ::
  "sql_db \<Rightarrow> int \<Rightarrow> string \<Rightarrow> exn + (sql_server \<times> string) option" where
  "get_delivery_server_for_sub_key db cluster sub_key =
     (case [(server, se_endpoint_type e). server \<leftarrow> db_servers db, sub \<leftarrow> db_subs db, e \<leftarrow> db_endpoints db,
              sr_id server = ss_server_id sub \<and> ss_sub_key sub = sub_key \<and>
              ss_endpoint_id sub = se_id e \<and> ss_cluster_id sub = cluster] of
        [] \<Rightarrow> Inr None
      | [r] \<Rightarrow> Inr (Some r)
      | _ \<Rightarrow> Inl (OtherError ''MultipleResultsFound''))"

section \<open>Facts\<close>

lemma get_topic_depth_unchanged: "snd (get_topic_depth c t s) = s"
  by (simp add: get_topic_depth_def py_run split: list.split)

lemma two_subscribers_fail:
  assumes "m \<in> set msgs"
  shows "fst (insert_queue_messages c (s1 # s2 # subs) msgs t now db) = Inl (OtherError ''IntegrityError'')"
proof -
  let ?key = "\<lambda>q. (sq_cluster_id q, sq_pub_msg_id q)"
  have "map ?key (map (queue_row c t now s1) msgs) = map ?key (map (queue_row c t now s2) msgs)"
    by (simp add: queue_row_def)
  then have "\<not> distinct (map ?key (map (queue_row c t now s1) msgs @ map (queue_row c t now s2) msgs))"
    using assms by (auto simp: distinct_append disjoint_iff image_iff queue_row_def)
  then show ?thesis
    by (auto simp: insert_queue_messages_def Let_def py_run)
qed

end
