(* ===== verification/Pubsub_Task.thy ===== *)
theory Pubsub_Task
  imports Pubsub_Sql
begin

text \<open>
  Delivery of publish/subscribe messages: \<open>DeliveryTask\<close>, the message wrappers and \<open>PubSubTool\<close>
  of \<^verbatim>\<open>zato-server/src/zato/server/pubsub/task.py\<close>. The sorted lists come from a third-party
  package (\<open>sortedcontainers\<close>): their operations are the parameter \<open>ops\<close>, of which
  \<open>sorted_list_spec\<close> states what its documentation promises. The delivery callback and the
  failures of the confirming SQL are oracles over what was attempted so far.
\<close>

section \<open>Messages to deliver\<close>

record task_msg =
  tm_sub_key :: string
  tm_pub_msg_id :: string
  tm_pub_correl_id :: "string option"
  tm_in_reply_to :: "string option"
  tm_ext_client_id :: "string option"
  tm_group_id :: "string option"
  tm_position_in_group :: "int option"
  tm_pub_time :: int
  tm_ext_pub_time :: "int option"
  tm_data :: string
  tm_mime_type :: string
  tm_priority :: int
  tm_expiration :: int
  tm_expiration_time :: int
  tm_has_gd :: bool

definition GDMessage :: "string \<Rightarrow> pub_msg \<Rightarrow> task_msg" where
  "GDMessage sub_key msg =
     \<lparr>tm_sub_key = sub_key, tm_pub_msg_id = pm_pub_msg_id msg, tm_pub_correl_id = pm_pub_correl_id msg,
      tm_in_reply_to = pm_in_reply_to msg, tm_ext_client_id = pm_ext_client_id msg,
      tm_group_id = pm_group_id msg, tm_position_in_group = pm_position_in_group msg,
      tm_pub_time = pm_pub_time msg, tm_ext_pub_time = pm_ext_pub_time msg, tm_data = pm_data msg,
      tm_mime_type = pm_mime_type msg, tm_priority = pm_priority msg, tm_expiration = pm_expiration msg,
      tm_expiration_time = pm_expiration_time msg, tm_has_gd = pm_has_gd msg\<rparr>"

definition NonGDMessage :: "string \<Rightarrow> pub_msg \<Rightarrow> task_msg" where
  "NonGDMessage sub_key msg =
     \<lparr>tm_sub_key = sub_key, tm_pub_msg_id = pm_pub_msg_id msg, tm_pub_correl_id = pm_pub_correl_id msg,
      tm_in_reply_to = pm_in_reply_to msg, tm_ext_client_id = pm_ext_client_id msg,
      tm_group_id = pm_group_id msg, tm_position_in_group = pm_position_in_group msg,
      tm_pub_time = pm_pub_time msg, tm_ext_pub_time = pm_ext_pub_time msg, tm_data = pm_data msg,
      tm_mime_type = pm_mime_type msg, tm_priority = pm_priority msg, tm_expiration = pm_expiration msg,
      tm_expiration_time = pm_expiration_time msg, tm_has_gd = pm_has_gd msg\<rparr>"

text \<open>\<open>__cmp__\<close> compares these triples; two messages with the same triple are equal.\<close>

definition cmp_key :: "task_msg \<Rightarrow> int \<times> int option \<times> int" where
  "cmp_key m = (9 - tm_priority m, tm_ext_pub_time m, tm_pub_time m)"

section \<open>Sorted lists\<close>

text \<open>\<open>add\<close>, \<open>remove\<close> (none when no equal element is there), and the next element an iterator
  gives after \<open>i\<close> elements, in the list as it is then.\<close>

record sorted_list_ops =
  sl_add :: "task_msg \<Rightarrow> task_msg list \<Rightarrow> task_msg list"
  sl_remove :: "task_msg \<Rightarrow> task_msg list \<Rightarrow> task_msg list option"
  sl_next :: "nat \<Rightarrow> task_msg list \<Rightarrow> task_msg option"

text \<open>What the documentation says: \<open>add\<close> inserts, \<open>remove\<close> takes out one equal element and fails
  when there is none, iterating gives elements of the list and at most as many as it has. A list that is changed while it is
  iterated over may miss elements or raise; iterators that raise are not modelled.\<close>

definition sorted_list_spec :: "sorted_list_ops \<Rightarrow> bool" where
  "sorted_list_spec ops \<longleftrightarrow>
     (\<forall>m xs. mset (sl_add ops m xs) = add_mset m (mset xs)) \<and>
     (\<forall>m xs. sorted (map cmp_key xs) \<longrightarrow> sorted (map cmp_key (sl_add ops m xs))) \<and>
     (\<forall>m xs. (case sl_remove ops m xs of
        None \<Rightarrow> \<forall>x \<in> set xs. cmp_key x \<noteq> cmp_key m
      | Some ys \<Rightarrow> \<exists>us x vs. xs = us @ x # vs \<and> ys = us @ vs \<and> cmp_key x = cmp_key m)) \<and>
     (\<forall>i xs m. sl_next ops i xs = Some m \<longrightarrow> m \<in> set xs \<and> i < length xs)"

section \<open>State\<close>

record pubsub_tool =
  pt_endpoint_type :: string
  pt_sub_keys :: "string set"
  pt_batch_size :: "(string, int) dict"
  pt_last_sql_run :: "(string, int option) dict"
  pt_sub_key_locks :: "(string, unit) dict"
  pt_delivery_lists :: "(string, task_msg list) dict"
  pt_delivery_tasks :: "(string, bool) dict"
  pt_db :: sql_db
  pt_cluster_id :: int
  pt_clock :: "nat \<Rightarrow> int"
  pt_ticks :: nat
  pt_attempts :: "task_msg list"
  pt_deliver :: "task_msg list \<Rightarrow> exn option"
  pt_confirms :: "(string \<times> string) list"
  pt_confirm_fails :: "(string \<times> string) list \<Rightarrow> bool"

text \<open>A task is kept by its flag \<open>keep_running\<close>; its delivery list is the one of its sub_key.\<close>

definition init_tool ::
  "string \<Rightarrow> sql_db \<Rightarrow> int \<Rightarrow> (nat \<Rightarrow> int) \<Rightarrow> (task_msg list \<Rightarrow> exn option)
   \<Rightarrow> ((string \<times> string) list \<Rightarrow> bool) \<Rightarrow> pubsub_tool" where
  "init_tool endpoint_type db cluster clock deliver confirm_fails =
     \<lparr>pt_endpoint_type = endpoint_type, pt_sub_keys = {}, pt_batch_size = [], pt_last_sql_run = [],
      pt_sub_key_locks = [], pt_delivery_lists = [], pt_delivery_tasks = [], pt_db = db,
      pt_cluster_id = cluster, pt_clock = clock, pt_ticks = 0, pt_attempts = [], pt_deliver = deliver,
      pt_confirms = [], pt_confirm_fails = confirm_fails\<rparr>"

definition pt_utcnow :: "(pubsub_tool, int) py" where
  "pt_utcnow = py_bind (py_get (\<lambda>s. pt_clock s (pt_ticks s))) (\<lambda>t.
     py_seq (py_modify (pt_ticks_update Suc)) (py_ret t))"

definition delivery_list :: "string \<Rightarrow> pubsub_tool \<Rightarrow> task_msg list" where
  "delivery_list k s = dict_get k [] (pt_delivery_lists s)"

definition set_delivery_list :: "string \<Rightarrow> task_msg list \<Rightarrow> (pubsub_tool, unit) py" where
  "set_delivery_list k xs = py_modify (pt_delivery_lists_update (dict_mutate k (\<lambda>_. xs)))"

section \<open>Delivery tasks\<close>

definition deliver_pubsub_msg :: "task_msg \<Rightarrow> (pubsub_tool, exn option) py" where
  "deliver_pubsub_msg m = py_seq (py_modify (pt_attempts_update (\<lambda>ms. ms @ [m])))
     (py_get (\<lambda>s. pt_deliver s (pt_attempts s)))"

text \<open>All attempts to confirm a delivery are kept, those that fail included; what one does tells \<open>pt_confirm_fails\<close>.\<close>

definition confirm_delivered :: "string \<Rightarrow> string \<Rightarrow> (pubsub_tool, bool) py" where
  "confirm_delivered k msg_id = py_bind pt_utcnow (\<lambda>now.
     py_seq (py_modify (pt_confirms_update (\<lambda>cs. cs @ [(k, msg_id)])))
    (py_bind (py_get (\<lambda>s. pt_confirm_fails s (pt_confirms s))) (\<lambda>fails.
     if fails then py_ret False
     else py_seq (py_modify (pt_db_update (confirm_pubsub_msg_delivered k msg_id now))) (py_ret True))))"

definition remove_delivered :: "sorted_list_ops \<Rightarrow> string \<Rightarrow> task_msg \<Rightarrow> (pubsub_tool, unit) py" where
  "remove_delivered ops k m = py_bind (py_get (delivery_list k)) (\<lambda>xs.
     case sl_remove ops m xs of None \<Rightarrow> py_raise ValueError | Some ys \<Rightarrow> set_delivery_list k ys)"

text \<open>
  The iteration after \<open>i\<close> messages. A pass takes no more steps than the list had messages at
  its start, as the list does not grow while its lock-free pass runs to the end; \<open>False\<close> stands
  for the bare \<open>return\<close>.
\<close>

primrec delivery_loop :: "sorted_list_ops \<Rightarrow> string \<Rightarrow> nat \<Rightarrow> nat \<Rightarrow> (pubsub_tool, bool) py" where
  "delivery_loop ops k 0 i = py_ret True"
| "delivery_loop ops k (Suc fuel) i = py_bind (py_get (delivery_list k)) (\<lambda>xs.
     case sl_next ops i xs of
       None \<Rightarrow> py_ret True
     | Some m \<Rightarrow> py_bind (deliver_pubsub_msg m) (\<lambda>failed.
         case failed of
           Some e \<Rightarrow> py_ret False
         | None \<Rightarrow> py_bind (confirm_delivered k (tm_pub_msg_id m)) (\<lambda>confirmed.
             py_seq (py_when confirmed (remove_delivered ops k m))
               (delivery_loop ops k fuel (Suc i)))))"

definition run_delivery :: "sorted_list_ops \<Rightarrow> string \<Rightarrow> (pubsub_tool, bool) py" where
  "run_delivery ops k = py_bind (py_get (delivery_list k)) (\<lambda>xs. delivery_loop ops k (length xs) 0)"

datatype task_sleep = ShortSleep | LongSleep

text \<open>One round of the task's loop: what it sleeps afterwards, or nothing once it is stopped.\<close>

definition task_round :: "sorted_list_ops \<Rightarrow> string \<Rightarrow> (pubsub_tool, task_sleep option) py" where
  "task_round ops k = py_bind (py_get (\<lambda>s. dict_get k False (pt_delivery_tasks s))) (\<lambda>keep_running.
     if \<not> keep_running then py_ret None
     else py_bind (py_get (delivery_list k)) (\<lambda>xs.
       if xs = [] then py_ret (Some ShortSleep)
       else py_bind (run_delivery ops k) (\<lambda>success.
         py_ret (Some (if success then ShortSleep else LongSleep)))))"

definition task_stop :: "string \<Rightarrow> (pubsub_tool, unit) py" where
  "task_stop k = py_modify (pt_delivery_tasks_update (dict_mutate k (\<lambda>_. False)))"

definition task_clear :: "string \<Rightarrow> (pubsub_tool, unit) py" where
  "task_clear k = set_delivery_list k []"

primrec queue_depth :: "task_msg list \<Rightarrow> int \<times> int" where
  "queue_depth [] = (0, 0)"
| "queue_depth (m # ms) = (case queue_depth ms of (gd, non_gd) \<Rightarrow>
     if tm_has_gd m then (gd + 1, non_gd) else (gd, non_gd + 1))"

definition get_gd_queue_depth :: "task_msg list \<Rightarrow> int" where
  "get_gd_queue_depth ms = fst (queue_depth ms)"

definition get_non_gd_queue_depth :: "task_msg list \<Rightarrow> int" where
  "get_non_gd_queue_depth ms = snd (queue_depth ms)"

section \<open>The tool\<close>

definition add_sub_key_no_lock :: "string \<Rightarrow> (pubsub_tool, unit) py" where
  "add_sub_key_no_lock k = py_bind (py_get pt_sub_keys) (\<lambda>ks.
     if k \<in> ks then py_ret ()
     else py_seq (py_modify (pt_sub_keys_update (insert k)))
         (py_seq (item_set pt_batch_size_update k 1)
         (py_seq (item_set pt_last_sql_run_update k None)
         (py_seq (item_set pt_delivery_lists_update k [])
         (py_seq (item_set pt_delivery_tasks_update k True)
            (item_set pt_sub_key_locks_update k ()))))))"

definition remove_sub_key :: "string \<Rightarrow> (pubsub_tool, unit) py" where
  "remove_sub_key k = py_try
     (py_bind (py_get pt_sub_keys) (\<lambda>ks.
      py_seq (if k \<in> ks then py_modify (pt_sub_keys_update (\<lambda>ks. ks - {k})) else py_raise KeyError)
     (py_seq (item_del pt_batch_size pt_batch_size_update k)
     (py_seq (item_del pt_last_sql_run pt_last_sql_run_update k)
     (py_seq (item_del pt_sub_key_locks pt_sub_key_locks_update k)
     (py_seq (item_del pt_delivery_lists pt_delivery_lists_update k)
     (py_seq (py_bind (item_get pt_delivery_tasks k) (\<lambda>_. task_stop k))
        (item_del pt_delivery_tasks pt_delivery_tasks_update k))))))))
     (\<lambda>_. py_ret ())"

text \<open>The iteration order of a set is unspecified; \<open>ks\<close> lists the set in some order.\<close>

definition remove_all_sub_keys :: "string list \<Rightarrow> (pubsub_tool, unit) py" where
  "remove_all_sub_keys ks = py_for ks remove_sub_key"

definition add_to_list :: "sorted_list_ops \<Rightarrow> string \<Rightarrow> task_msg \<Rightarrow> (pubsub_tool, unit) py" where
  "add_to_list ops k m = py_bind (item_get pt_delivery_lists k) (\<lambda>xs.
     set_delivery_list k (sl_add ops m xs))"

definition add_non_gd_no_lock :: "sorted_list_ops \<Rightarrow> string \<Rightarrow> pub_msg list \<Rightarrow> (pubsub_tool, unit) py" where
  "add_non_gd_no_lock ops k messages = py_for messages (\<lambda>msg. add_to_list ops k (NonGDMessage k msg))"

definition with_sub_key_lock :: "string \<Rightarrow> (pubsub_tool, 'a) py \<Rightarrow> (pubsub_tool, 'a) py" where
  "with_sub_key_lock k m = py_bind (item_get pt_sub_key_locks k) (\<lambda>_. m)"

definition add_non_gd_messages_by_sub_key ::
  "sorted_list_ops \<Rightarrow> string \<Rightarrow> pub_msg list \<Rightarrow> (pubsub_tool, unit) py" where
  "add_non_gd_messages_by_sub_key ops k messages = with_sub_key_lock k (add_non_gd_no_lock ops k messages)"

definition fetch_gd_no_lock :: "sorted_list_ops \<Rightarrow> string \<Rightarrow> (pubsub_tool, unit) py" where
  "fetch_gd_no_lock ops k = py_bind (item_get pt_last_sql_run k) (\<lambda>last_run.
     py_bind pt_utcnow (\<lambda>now.
     py_bind (py_get (\<lambda>s. get_sql_messages_by_sub_key (pt_db s) (pt_cluster_id s) k last_run now)) (\<lambda>msgs.
     py_for msgs (\<lambda>msg. add_to_list ops k (GDMessage k msg)))))"

definition fetch_gd_messages_by_sub_key :: "sorted_list_ops \<Rightarrow> string \<Rightarrow> (pubsub_tool, unit) py" where
  "fetch_gd_messages_by_sub_key ops k = with_sub_key_lock k (fetch_gd_no_lock ops k)"

definition handle_new_messages ::
  "sorted_list_ops \<Rightarrow> bool \<Rightarrow> string list \<Rightarrow> pub_msg list \<Rightarrow> (pubsub_tool, unit) py" where
  "handle_new_messages ops gd sub_key_list non_gd_msg_list =
     (if \<not> gd \<and> non_gd_msg_list = [] then py_raise ValueError
      else py_for sub_key_list (\<lambda>k. with_sub_key_lock k
        (py_seq (py_when gd (fetch_gd_no_lock ops k))
           (py_when (non_gd_msg_list \<noteq> []) (add_non_gd_no_lock ops k non_gd_msg_list)))))"

definition get_queue_depth :: "string \<Rightarrow> (pubsub_tool, int \<times> int) py" where
  "get_queue_depth k = with_sub_key_lock k (py_bind (item_get pt_delivery_tasks k) (\<lambda>_.
     py_get (\<lambda>s. queue_depth (delivery_list k s))))"

definition handles_sub_key :: "string \<Rightarrow> pubsub_tool \<Rightarrow> bool" where
  "handles_sub_key k s \<longleftrightarrow> k \<in> pt_sub_keys s"

definition get_delivery_task :: "string \<Rightarrow> (pubsub_tool, bool) py" where
  "get_delivery_task k = item_get pt_delivery_tasks k"

end
