(* ===== verification/Pubsub_Delivery.thy ===== *)
theory Pubsub_Delivery
  imports Pubsub_Task
begin

text \<open>
  Facts and properties of the delivery of messages in \<open>Pubsub_Task\<close>: what one pass of a task
  delivers and removes, that repeated passes deliver everything, the consistency of the
  tool's dictionaries and the effect of new messages.
\<close>

section \<open>Primitive methods\<close>

lemma pt_utcnow_run [py_run]:
  "pt_utcnow s = (Inr (pt_clock s (pt_ticks s)), s\<lparr>pt_ticks := Suc (pt_ticks s)\<rparr>)"
  by (simp add: pt_utcnow_def py_run)

lemma set_delivery_list_run [py_run]:
  "set_delivery_list k xs s =
     (Inr (), s\<lparr>pt_delivery_lists := dict_mutate k (\<lambda>_. xs) (pt_delivery_lists s)\<rparr>)"
  by (simp add: set_delivery_list_def py_run)

lemma deliver_pubsub_msg_run [py_run]:
  "deliver_pubsub_msg m s =
     (Inr (pt_deliver s (pt_attempts s @ [m])), s\<lparr>pt_attempts := pt_attempts s @ [m]\<rparr>)"
  by (simp add: deliver_pubsub_msg_def py_run)

definition confirm_attempted :: "string \<Rightarrow> string \<Rightarrow> pubsub_tool \<Rightarrow> pubsub_tool" where
  "confirm_attempted k i s = s\<lparr>pt_ticks := Suc (pt_ticks s), pt_confirms := pt_confirms s @ [(k, i)]\<rparr>"

lemma confirm_delivered_run [py_run]:
  "confirm_delivered k i s =
     (let t = confirm_attempted k i s in
      if pt_confirm_fails s (pt_confirms s @ [(k, i)]) then (Inr False, t)
      else (Inr True, t\<lparr>pt_db := confirm_pubsub_msg_delivered k i (pt_clock s (pt_ticks s)) (pt_db s)\<rparr>))"
  by (simp add: confirm_delivered_def confirm_attempted_def py_run)

lemma delivery_list_simps [simp]:
  "delivery_list k (pt_ticks_update f1 s) = delivery_list k s"
  "delivery_list k (pt_attempts_update f2 s) = delivery_list k s"
  "delivery_list k (pt_confirms_update f3 s) = delivery_list k s"
  "delivery_list k (pt_db_update f4 s) = delivery_list k s"
  "delivery_list k (confirm_attempted k' i s) = delivery_list k s"
  by (simp_all add: delivery_list_def confirm_attempted_def)

lemma confirm_attempted_simps [simp]:
  "pt_attempts (confirm_attempted k i s) = pt_attempts s"
  "pt_deliver (confirm_attempted k i s) = pt_deliver s"
  "pt_confirm_fails (confirm_attempted k i s) = pt_confirm_fails s"
  "pt_confirms (confirm_attempted k i s) = pt_confirms s @ [(k, i)]"
  "pt_delivery_lists (confirm_attempted k i s) = pt_delivery_lists s"
  by (simp_all add: confirm_attempted_def)

lemma delivery_list_set:
  "delivery_list k (s\<lparr>pt_delivery_lists := dict_mutate k' (\<lambda>_. xs) (pt_delivery_lists s)\<rparr>) =
     (if k = k' \<and> dict_has k (pt_delivery_lists s) then xs else delivery_list k s)"
  by (auto simp: delivery_list_def dict_get_def dict_simps split: option.splits)

section \<open>Passes over a Python list\<close>

text \<open>The iterator of a Python list and the removal of the first equal element.\<close>

fun remove_first_equal :: "task_msg \<Rightarrow> task_msg list \<Rightarrow> task_msg list option" where
  "remove_first_equal m [] = None"
| "remove_first_equal m (x # xs) =
     (if cmp_key x = cmp_key m then Some xs else map_option ((#) x) (remove_first_equal m xs))"

definition iterates_like_list :: "sorted_list_ops \<Rightarrow> bool" where
  "iterates_like_list ops \<longleftrightarrow>
     (\<forall>i xs. sl_next ops i xs = (if i < length xs then Some (xs ! i) else None)) \<and>
     (\<forall>m xs. sl_remove ops m xs = remove_first_equal m xs)"

lemma iterates_like_listD:
  assumes "iterates_like_list ops"
  shows "sl_next ops i xs = (if i < length xs then Some (xs ! i) else None)"
    "sl_remove ops m xs = remove_first_equal m xs"
  using assms by (simp_all add: iterates_like_list_def)

lemma remove_first_equal_distinct:
  "distinct (map cmp_key (pre @ m # rest)) \<Longrightarrow> remove_first_equal m (pre @ m # rest) = Some (pre @ rest)"
  by (induction pre) auto

text \<open>Nothing fails.\<close>

definition all_succeeds :: "pubsub_tool \<Rightarrow> bool" where
  "all_succeeds s \<longleftrightarrow> (\<forall>ms. pt_deliver s ms = None) \<and> (\<forall>cs. \<not> pt_confirm_fails s cs)"

definition known_list :: "string \<Rightarrow> pubsub_tool \<Rightarrow> bool" where
  "known_list k s \<longleftrightarrow> dict_has k (pt_delivery_lists s)"

lemma delivery_step_removes:
  assumes ok: "all_succeeds s" "known_list k s"
    and m: "sl_next ops i (delivery_list k s) = Some m" and rm: "sl_remove ops m (delivery_list k s) = Some ys"
  shows "\<exists>t. delivery_loop ops k (Suc fuel) i s = delivery_loop ops k fuel (Suc i) t \<and>
    all_succeeds t \<and> known_list k t \<and> delivery_list k t = ys \<and> pt_attempts t = pt_attempts s @ [m] \<and>
    pt_delivery_tasks t = pt_delivery_tasks s"
proof -
  let ?u = "confirm_attempted k (tm_pub_msg_id m) (s\<lparr>pt_attempts := pt_attempts s @ [m]\<rparr>)"
  let ?v = "?u\<lparr>pt_db := confirm_pubsub_msg_delivered k (tm_pub_msg_id m) (pt_clock s (pt_ticks s)) (pt_db s)\<rparr>"
  let ?t = "?v\<lparr>pt_delivery_lists := dict_mutate k (\<lambda>_. ys) (pt_delivery_lists s)\<rparr>"
  have "delivery_loop ops k (Suc fuel) i s = delivery_loop ops k fuel (Suc i) ?t"
    using ok m rm by (simp add: py_run all_succeeds_def remove_delivered_def Let_def)
  moreover have "all_succeeds ?t" "known_list k ?t"
    using ok by (simp_all add: all_succeeds_def known_list_def dict_simps)
  moreover have "delivery_list k ?t = ys"
    using ok(2) by (auto simp: known_list_def delivery_list_def dict_get_def dict_simps)
  moreover have "pt_attempts ?t = pt_attempts s @ [m]" "pt_delivery_tasks ?t = pt_delivery_tasks s"
    by (simp_all add: confirm_attempted_def)
  ultimately show ?thesis by blast
qed

lemma delivery_step_any:
  assumes ops: "iterates_like_list ops" and ok: "all_succeeds s" "known_list k s"
    and i: "i < length (delivery_list k s)" "delivery_list k s ! i = m"
    and rm: "remove_first_equal m (delivery_list k s) = Some ys"
  shows "\<exists>t. delivery_loop ops k (Suc fuel) i s = delivery_loop ops k fuel (Suc i) t \<and>
    all_succeeds t \<and> known_list k t \<and> delivery_list k t = ys \<and> pt_attempts t = pt_attempts s @ [m] \<and>
    pt_delivery_tasks t = pt_delivery_tasks s"
  using i rm iterates_like_listD [OF ops] by (intro delivery_step_removes [OF ok]) simp_all

lemma delivery_step:
  assumes ops: "iterates_like_list ops" and ok: "all_succeeds s" "known_list k s"
    and list: "delivery_list k s = pre @ m # rest" and d: "distinct (map cmp_key (pre @ m # rest))"
  shows "\<exists>t. delivery_loop ops k (Suc fuel) (length pre) s = delivery_loop ops k fuel (Suc (length pre)) t \<and>
    all_succeeds t \<and> known_list k t \<and> delivery_list k t = pre @ rest \<and> pt_attempts t = pt_attempts s @ [m] \<and>
    pt_delivery_tasks t = pt_delivery_tasks s"
  using delivery_step_any [OF ops ok, of "length pre" m "pre @ rest"] remove_first_equal_distinct [OF d] list
  by simp

lemma delivery_end:
  assumes "iterates_like_list ops" "length (delivery_list k s) \<le> i"
  shows "delivery_loop ops k fuel i s = (Inr True, s)"
  using assms iterates_like_listD(1) [OF assms(1)] by (cases fuel) (simp_all add: py_run)

lemma delivery_pass:
  assumes "iterates_like_list ops" "all_succeeds s" "known_list k s"
    and "delivery_list k s = pre @ rest" "distinct (map cmp_key (pre @ rest))" "length (evens rest) \<le> fuel"
  shows "\<exists>t. delivery_loop ops k fuel (length pre) s = (Inr True, t) \<and>
    delivery_list k t = pre @ odds rest \<and> pt_attempts t = pt_attempts s @ evens rest \<and>
    all_succeeds t \<and> known_list k t \<and> pt_delivery_tasks t = pt_delivery_tasks s"
  using assms(2-)
proof (induction rest arbitrary: pre s fuel rule: evens.induct)
  case 1
  have "delivery_loop ops k fuel (length pre) s = (Inr True, s)"
    using 1 iterates_like_listD(1) [OF assms(1)] by (cases fuel) (simp_all add: py_run)
  with 1 show ?case by simp
next
  case (2 x)
  then obtain f where f: "fuel = Suc f" by (cases fuel) auto
  obtain t where t: "delivery_loop ops k (Suc f) (length pre) s = delivery_loop ops k f (Suc (length pre)) t"
    "all_succeeds t" "known_list k t" "delivery_list k t = pre" "pt_attempts t = pt_attempts s @ [x]"
    "pt_delivery_tasks t = pt_delivery_tasks s"
    using delivery_step [OF assms(1) 2(1,2,3,4), of f] by auto
  moreover have "delivery_loop ops k f (Suc (length pre)) t = (Inr True, t)"
    using t(4) iterates_like_listD(1) [OF assms(1)] by (cases f) (simp_all add: py_run)
  ultimately show ?case using f by (intro exI [of _ t]) simp
next
  case (3 x y zs)
  then obtain f where f: "fuel = Suc f" by (cases fuel) auto
  obtain t where t: "delivery_loop ops k (Suc f) (length pre) s = delivery_loop ops k f (Suc (length pre)) t"
    "all_succeeds t" "known_list k t" "delivery_list k t = pre @ y # zs" "pt_attempts t = pt_attempts s @ [x]"
    "pt_delivery_tasks t = pt_delivery_tasks s"
    using delivery_step [OF assms(1) 3(2,3,4,5), of f] by auto
  have "distinct (map cmp_key ((pre @ [y]) @ zs))" "length (evens zs) \<le> f"
    using "3.prems"(4,5) f by auto
  then obtain u where "delivery_loop ops k f (length (pre @ [y])) t = (Inr True, u)"
    "delivery_list k u = (pre @ [y]) @ odds zs" "pt_attempts u = pt_attempts t @ evens zs"
    "all_succeeds u" "known_list k u" "pt_delivery_tasks u = pt_delivery_tasks t"
    using "3.IH" [OF t(2,3), of "pre @ [y]" f] t(4) by auto
  then show ?case using t f by (intro exI [of _ u]) simp
qed

lemma length_evens: "length (evens xs) \<le> length xs"
  by (induction xs rule: evens.induct) auto

lemma run_delivery_pass:
  assumes "iterates_like_list ops" "all_succeeds s" "known_list k s"
    and "distinct (map cmp_key (delivery_list k s))"
  shows "\<exists>t. run_delivery ops k s = (Inr True, t) \<and>
    delivery_list k t = odds (delivery_list k s) \<and>
    pt_attempts t = pt_attempts s @ evens (delivery_list k s) \<and>
    all_succeeds t \<and> known_list k t \<and> pt_delivery_tasks t = pt_delivery_tasks s"
  using delivery_pass [OF assms(1,2,3), of "[]" "delivery_list k s" "length (delivery_list k s)"] assms(4) length_evens [of "delivery_list k s"]
  by (simp add: run_delivery_def py_bind_def py_get_def)

text \<open>If the sorted list is gone through by index, which its documentation leaves open, one pass of a delivery
  task reports success after delivering every other message only, when nothing fails and no two messages
  compare as equal: removing a delivered message from the list makes the iteration step over the next one.\<close>

theorem pass_delivers_every_other:
  assumes "iterates_like_list ops" "all_succeeds s" "known_list k s"
    and "distinct (map cmp_key (delivery_list k s))"
  shows "\<exists>t. run_delivery ops k s = (Inr True, t) \<and>
    pt_attempts t = pt_attempts s @ evens (delivery_list k s) \<and>
    delivery_list k t = odds (delivery_list k s)"
  using run_delivery_pass [OF assms] by blast

text \<open>Rounds of the task, one after the other.\<close>

primrec task_rounds :: "sorted_list_ops \<Rightarrow> string \<Rightarrow> nat \<Rightarrow> (pubsub_tool, unit) py" where
  "task_rounds ops k 0 = py_ret ()"
| "task_rounds ops k (Suc n) = py_bind (task_round ops k) (\<lambda>_. task_rounds ops k n)"

text \<open>
  Of going through a list that changes meanwhile, the documentation says only that it may miss elements
  (or raise, which is left out here as any failure is): a pass that finds messages delivers the first.
\<close>

definition starts_with_first :: "sorted_list_ops \<Rightarrow> bool" where
  "starts_with_first ops \<longleftrightarrow> (\<forall>xs. xs \<noteq> [] \<longrightarrow> sl_next ops 0 xs = Some (hd xs))"

lemma sorted_list_remove_distinct:
  assumes spec: "sorted_list_spec ops" and m: "m \<in> set xs" and d: "distinct (map cmp_key xs)"
  shows "\<exists>ys. sl_remove ops m xs = Some ys \<and> mset xs = add_mset m (mset ys) \<and> distinct (map cmp_key ys)"
proof -
  have law: "case sl_remove ops m xs of None \<Rightarrow> \<forall>x \<in> set xs. cmp_key x \<noteq> cmp_key m
      | Some ys \<Rightarrow> \<exists>us x vs. xs = us @ x # vs \<and> ys = us @ vs \<and> cmp_key x = cmp_key m"
    using spec unfolding sorted_list_spec_def by blast
  with m obtain ys us x vs where ys: "sl_remove ops m xs = Some ys" "xs = us @ x # vs" "ys = us @ vs" "cmp_key x = cmp_key m"
    by (cases "sl_remove ops m xs") auto
  then have "x = m" using m d by (auto simp: distinct_map inj_on_def)
  with ys d show ?thesis by auto
qed

lemma delivery_loop_delivers:
  assumes spec: "sorted_list_spec ops"
  shows "all_succeeds s \<Longrightarrow> known_list k s \<Longrightarrow> distinct (map cmp_key (delivery_list k s)) \<Longrightarrow>
    \<exists>t ms. delivery_loop ops k fuel i s = (Inr True, t) \<and> pt_attempts t = pt_attempts s @ ms \<and>
      mset (delivery_list k s) = mset ms + mset (delivery_list k t) \<and>
      (0 < fuel \<and> sl_next ops i (delivery_list k s) \<noteq> None \<longrightarrow> ms \<noteq> []) \<and> all_succeeds t \<and> known_list k t \<and>
      distinct (map cmp_key (delivery_list k t)) \<and> pt_delivery_tasks t = pt_delivery_tasks s"
proof (induction fuel arbitrary: s i)
  case 0
  then show ?case by (intro exI [of _ s] exI [of _ "[]"]) (simp add: py_run)
next
  case (Suc fuel)
  show ?case
  proof (cases "sl_next ops i (delivery_list k s)")
    case None
    with Suc.prems show ?thesis by (intro exI [of _ s] exI [of _ "[]"]) (simp add: py_run)
  next
    case (Some m)
    then have m: "m \<in> set (delivery_list k s)" using spec by (auto simp: sorted_list_spec_def)
    obtain ys where ys: "sl_remove ops m (delivery_list k s) = Some ys"
      "mset (delivery_list k s) = add_mset m (mset ys)" "distinct (map cmp_key ys)"
      using sorted_list_remove_distinct [OF spec m Suc.prems(3)] by blast
    obtain u where u: "delivery_loop ops k (Suc fuel) i s = delivery_loop ops k fuel (Suc i) u" "all_succeeds u"
      "known_list k u" "delivery_list k u = ys" "pt_attempts u = pt_attempts s @ [m]"
      "pt_delivery_tasks u = pt_delivery_tasks s"
      using delivery_step_removes [OF Suc.prems(1,2) Some ys(1)] by blast
    with Suc.IH [OF u(2,3), of "Suc i"] ys(3) obtain t ms where
      "delivery_loop ops k fuel (Suc i) u = (Inr True, t)" "pt_attempts t = pt_attempts u @ ms"
      "mset ys = mset ms + mset (delivery_list k t)" "all_succeeds t" "known_list k t"
      "distinct (map cmp_key (delivery_list k t))" "pt_delivery_tasks t = pt_delivery_tasks u" by auto
    with u ys(2) show ?thesis by (intro exI [of _ t] exI [of _ "m # ms"]) (simp add: u(1) del: delivery_loop.simps)
  qed
qed

lemma task_round_delivers:
  assumes ops: "sorted_list_spec ops" "starts_with_first ops" and ok: "all_succeeds s" "known_list k s"
    and "distinct (map cmp_key (delivery_list k s))" "map_of (pt_delivery_tasks s) k = Some True"
  shows "\<exists>t ms. task_round ops k s = (Inr (Some ShortSleep), t) \<and> pt_attempts t = pt_attempts s @ ms \<and>
    mset (delivery_list k s) = mset ms + mset (delivery_list k t) \<and> (delivery_list k s \<noteq> [] \<longrightarrow> ms \<noteq> []) \<and>
    all_succeeds t \<and> known_list k t \<and> distinct (map cmp_key (delivery_list k t)) \<and>
    pt_delivery_tasks t = pt_delivery_tasks s"
proof (cases "delivery_list k s = []")
  case True
  with assms show ?thesis by (intro exI [of _ s] exI [of _ "[]"]) (simp add: task_round_def py_run dict_get_def)
next
  case False
  then have "0 < length (delivery_list k s) \<and> sl_next ops 0 (delivery_list k s) \<noteq> None"
    using ops(2) by (simp add: starts_with_first_def)
  with delivery_loop_delivers [OF ops(1) ok assms(5), of "length (delivery_list k s)" 0] False assms(6) show ?thesis
    by (auto simp: task_round_def run_delivery_def py_bind_def py_get_def py_ret_def dict_get_def)
qed

lemma task_rounds_deliver:
  assumes "sorted_list_spec ops" "starts_with_first ops"
  shows "all_succeeds s \<Longrightarrow> known_list k s \<Longrightarrow> distinct (map cmp_key (delivery_list k s)) \<Longrightarrow>
    map_of (pt_delivery_tasks s) k = Some True \<Longrightarrow> length (delivery_list k s) \<le> n \<Longrightarrow>
    \<exists>t ms. task_rounds ops k n s = (Inr (), t) \<and> delivery_list k t = [] \<and>
      pt_attempts t = pt_attempts s @ ms \<and> mset ms = mset (delivery_list k s)"
proof (induction n arbitrary: s)
  case 0
  then show ?case by (simp add: py_run)
next
  case (Suc n)
  obtain t ms where t: "task_round ops k s = (Inr (Some ShortSleep), t)" "pt_attempts t = pt_attempts s @ ms"
    "mset (delivery_list k s) = mset ms + mset (delivery_list k t)" "delivery_list k s \<noteq> [] \<longrightarrow> ms \<noteq> []"
    "all_succeeds t" "known_list k t" "distinct (map cmp_key (delivery_list k t))" "pt_delivery_tasks t = pt_delivery_tasks s"
    using task_round_delivers [OF assms Suc.prems(1-4)] by blast
  have "length (delivery_list k s) = length ms + length (delivery_list k t)"
    using arg_cong [OF t(3), of size] by simp
  then have "length (delivery_list k t) \<le> n" using Suc.prems(5) t(4) by (cases ms) auto
  with Suc.IH [OF t(5-7)] Suc.prems(4) t(8) obtain u ns where u: "task_rounds ops k n t = (Inr (), u)" "delivery_list k u = []"
    "pt_attempts u = pt_attempts t @ ns" "mset ns = mset (delivery_list k t)" by auto
  with t show ?case by (intro exI [of _ u] exI [of _ "ms @ ns"]) (simp add: py_bind_def)
qed

text \<open>
  Claim C25. When no delivery, no confirmation and no iteration fails and no two queued messages compare
  as equal, a running task delivers every queued message exactly once and empties its list, in at most
  as many rounds as there are messages. Of the sorted list this relies on what is documented: an element
  that is removed is one that compares as equal, iteration gives elements of the list beginning with the
  first, and when the list changes meanwhile it may miss some. The queue gets no new messages in
  between.
\<close>

theorem task_delivers_everything:
  assumes "sorted_list_spec ops" "starts_with_first ops" "all_succeeds s"
    and "map_of (pt_delivery_lists s) k = Some queued" "distinct (map cmp_key queued)"
    and "map_of (pt_delivery_tasks s) k = Some True" "length queued \<le> n"
  shows "\<exists>t ms. task_rounds ops k n s = (Inr (), t) \<and> delivery_list k t = [] \<and>
    pt_attempts t = pt_attempts s @ ms \<and> mset ms = mset queued"
  using task_rounds_deliver [OF assms(1-3), of k n] assms(4-)
  by (simp add: known_list_def delivery_list_def dict_get_def)

definition sample_task_msg :: "string \<Rightarrow> int \<Rightarrow> int \<Rightarrow> task_msg" where
  "sample_task_msg i pri t =
     \<lparr>tm_sub_key = ''k1'', tm_pub_msg_id = i, tm_pub_correl_id = None, tm_in_reply_to = None,
      tm_ext_client_id = None, tm_group_id = None, tm_position_in_group = None, tm_pub_time = t,
      tm_ext_pub_time = None, tm_data = ''data'', tm_mime_type = ''text/plain'', tm_priority = pri,
      tm_expiration = 100, tm_expiration_time = t + 100, tm_has_gd = False\<rparr>"

definition empty_db :: sql_db where
  "empty_db = \<lparr>db_topics = [], db_messages = [], db_queue = [], db_subs = [], db_servers = [],
     db_endpoints = [], db_endpoint_topics = [], db_ws_sub_keys = []\<rparr>"

definition sample_tool :: "task_msg list \<Rightarrow> pubsub_tool" where
  "sample_tool queued = (snd (add_sub_key_no_lock ''k1''
     (init_tool ''rest'' empty_db 1 (\<lambda>n. int n) (\<lambda>_. None) (\<lambda>_. False))))
     \<lparr>pt_delivery_lists := [(''k1'', queued)]\<rparr>"

definition list_ops :: sorted_list_ops where
  "list_ops = \<lparr>sl_add = (\<lambda>m xs. filter (\<lambda>x. cmp_key x \<le> cmp_key m) xs @ m # filter (\<lambda>x. \<not> cmp_key x \<le> cmp_key m) xs),
     sl_remove = remove_first_equal,
     sl_next = (\<lambda>i xs. if i < length xs then Some (xs ! i) else None)\<rparr>"

lemma list_ops_iterates: "iterates_like_list list_ops"
  by (simp add: iterates_like_list_def list_ops_def)

lemma list_ops_spec: "sorted_list_spec list_ops"
proof -
  have "case remove_first_equal m xs of None \<Rightarrow> \<forall>x \<in> set xs. cmp_key x \<noteq> cmp_key m
      | Some ys \<Rightarrow> \<exists>us x vs. xs = us @ x # vs \<and> ys = us @ vs \<and> cmp_key x = cmp_key m" for m xs
  proof (induction xs)
    case (Cons y xs)
    show ?case
    proof (cases "cmp_key y = cmp_key m")
      case True
      then show ?thesis by (auto intro!: exI [of _ "[]"])
    next
      case False
      then show ?thesis
        using Cons by (auto split: option.splits) (metis append_Cons)
    qed
  qed simp
  moreover have "sorted (map cmp_key (sl_add list_ops m xs))" if "sorted (map cmp_key xs)" for m xs
    using that by (auto simp: list_ops_def sorted_append sorted_map sorted_wrt_filter)
  moreover have "mset (sl_add list_ops m xs) = add_mset m (mset xs)" for m xs
    by (simp add: list_ops_def)
  ultimately show ?thesis by (simp add: sorted_list_spec_def list_ops_def)
qed

lemma list_ops_starts: "starts_with_first list_ops"
  by (simp add: starts_with_first_def list_ops_def hd_conv_nth)

lemma sample_tool_simps [simp]:
  "delivery_list ''k1'' (sample_tool queued) = queued" "known_list ''k1'' (sample_tool queued)"
  "map_of (pt_delivery_lists (sample_tool queued)) ''k1'' = Some queued"
  "map_of (pt_delivery_tasks (sample_tool queued)) ''k1'' = Some True"
  "all_succeeds (sample_tool queued)" "pt_attempts (sample_tool queued) = []"
  by (simp_all add: sample_tool_def delivery_list_def known_list_def dict_get_def all_succeeds_def
      add_sub_key_no_lock_def init_tool_def py_run)

definition three_messages :: "task_msg list" where
  "three_messages = [sample_task_msg ''a'' 9 1, sample_task_msg ''b'' 5 2, sample_task_msg ''c'' 5 3]"

lemma three_messages_distinct: "distinct (map cmp_key three_messages)"
  by (simp add: three_messages_def cmp_key_def sample_task_msg_def)

theorem pass_delivers_every_other_witness:
  "\<exists>t. run_delivery list_ops ''k1'' (sample_tool three_messages) = (Inr True, t) \<and>
     delivery_list ''k1'' t = [sample_task_msg ''b'' 5 2]"
  using pass_delivers_every_other [OF list_ops_iterates, of "sample_tool three_messages" "''k1''"]
    three_messages_distinct
  by (auto simp: three_messages_def)

theorem task_delivers_everything_witness:
  "\<exists>t ms. task_rounds list_ops ''k1'' 3 (sample_tool three_messages) = (Inr (), t) \<and>
     mset ms = mset three_messages \<and> pt_attempts t = ms"
  using task_delivers_everything [OF list_ops_spec list_ops_starts, of "sample_tool three_messages" "''k1''" three_messages 3]
    three_messages_distinct
  by (auto simp: three_messages_def)

section \<open>Messages that compare as equal\<close>

text \<open>Of three queued messages that compare as equal (one publication of several messages
  gives them the same times), the second is lost and the third delivered twice: removing the
  third from the list takes out the first equal one.\<close>

theorem equal_messages_lost_and_repeated:
  assumes "iterates_like_list ops" "all_succeeds s" "map_of (pt_delivery_lists s) k = Some [m1, m2, m3]"
    and "map_of (pt_delivery_tasks s) k = Some True"
    and "cmp_key m1 = cmp_key m2" "cmp_key m2 = cmp_key m3"
  shows "\<exists>t. task_rounds ops k 2 s = (Inr (), t) \<and> delivery_list k t = [] \<and>
    pt_attempts t = pt_attempts s @ [m1, m3, m3]"
proof -
  have s: "known_list k s" "delivery_list k s = [m1, m2, m3]"
    using assms(3) by (simp_all add: known_list_def delivery_list_def dict_get_def)
  obtain t1 where t1: "delivery_loop ops k 3 0 s = delivery_loop ops k 2 1 t1" "all_succeeds t1"
    "known_list k t1" "delivery_list k t1 = [m2, m3]" "pt_attempts t1 = pt_attempts s @ [m1]"
    "pt_delivery_tasks t1 = pt_delivery_tasks s"
    using delivery_step_any [OF assms(1,2) s(1), of 0 m1 "[m2, m3]" 2] s(2) by (auto simp: numeral_eq_Suc)
  obtain t2 where t2: "delivery_loop ops k 2 1 t1 = delivery_loop ops k 1 2 t2" "all_succeeds t2"
    "known_list k t2" "delivery_list k t2 = [m3]" "pt_attempts t2 = pt_attempts t1 @ [m3]"
    "pt_delivery_tasks t2 = pt_delivery_tasks s"
    using delivery_step_any [OF assms(1) t1(2,3), of 1 m3 "[m3]" 1] t1(4,6) assms(6)
    by (auto simp: numeral_eq_Suc)
  obtain t3 where t3: "delivery_loop ops k 1 0 t2 = delivery_loop ops k 0 1 t3"
    "delivery_list k t3 = []" "pt_attempts t3 = pt_attempts t2 @ [m3]"
    using delivery_step_any [OF assms(1) t2(2,3), of 0 m3 "[]" 0] t2(4) by (auto simp: numeral_eq_Suc)
  have "task_round ops k s = (Inr (Some ShortSleep), t2)"
    using t1(1) t2(1) delivery_end [OF assms(1), of k t2 2 1] t2(4) s(2) assms(4)
    by (simp add: task_round_def run_delivery_def py_bind_def py_get_def py_ret_def dict_get_def numeral_eq_Suc
        del: delivery_loop.simps)
  moreover have "task_round ops k t2 = (Inr (Some ShortSleep), t3)"
    using t3(1) t2(4,6) assms(4)
    by (simp add: task_round_def run_delivery_def py_bind_def py_get_def py_ret_def dict_get_def
        del: delivery_loop.simps(2))
  ultimately have "task_rounds ops k 2 s = (Inr (), t3)"
    by (simp add: numeral_eq_Suc py_bind_def py_ret_def)
  then show ?thesis using t3(2,3) t2(5) t1(5) by simp
qed

theorem equal_messages_lost_and_repeated_witness:
  "pt_attempts (snd (task_rounds list_ops ''k1'' 2 (sample_tool [sample_task_msg ''a'' 5 1, sample_task_msg ''b'' 5 1,
     sample_task_msg ''c'' 5 1]))) = [sample_task_msg ''a'' 5 1, sample_task_msg ''c'' 5 1, sample_task_msg ''c'' 5 1]"
  using equal_messages_lost_and_repeated [OF list_ops_iterates, of "sample_tool [sample_task_msg ''a'' 5 1,
      sample_task_msg ''b'' 5 1, sample_task_msg ''c'' 5 1]" "''k1''"]
  by (auto simp: cmp_key_def sample_task_msg_def)

section \<open>Failures\<close>

text \<open>Why a message may leave the list: an attempt to deliver it and one to confirm this in SQL succeeded.\<close>

definition confirmed_since :: "pubsub_tool \<Rightarrow> pubsub_tool \<Rightarrow> string \<times> string \<Rightarrow> bool" where
  "confirmed_since s t c \<longleftrightarrow> (\<exists>p q. pt_confirms t = p @ c # q \<and> length (pt_confirms s) \<le> length p \<and>
     \<not> pt_confirm_fails s (p @ [c]))"

definition delivered_for :: "string \<Rightarrow> pubsub_tool \<Rightarrow> pubsub_tool \<Rightarrow> task_msg \<Rightarrow> bool" where
  "delivered_for k s t x \<longleftrightarrow> (\<exists>p m q. cmp_key m = cmp_key x \<and> m \<in> set (delivery_list k s) \<and>
     pt_deliver s (p @ [m]) = None \<and> pt_attempts t = p @ m # q \<and> length (pt_attempts s) \<le> length p \<and>
     confirmed_since s t (k, tm_pub_msg_id m))"

lemma delivered_for_later:
  assumes "delivered_for k u t x" "set (delivery_list k u) \<subseteq> set (delivery_list k s)"
    and "pt_deliver u = pt_deliver s" "length (pt_attempts s) \<le> length (pt_attempts u)"
    and "length (pt_confirms s) \<le> length (pt_confirms u)" "pt_confirm_fails u = pt_confirm_fails s"
  shows "delivered_for k s t x"
proof -
  obtain p m q where m: "cmp_key m = cmp_key x" "m \<in> set (delivery_list k u)"
    "pt_deliver u (p @ [m]) = None" "pt_attempts t = p @ m # q" "length (pt_attempts u) \<le> length p"
    "confirmed_since u t (k, tm_pub_msg_id m)"
    using assms(1) unfolding delivered_for_def by blast
  have "confirmed_since s t (k, tm_pub_msg_id m)"
    using m(6) assms(5,6) unfolding confirmed_since_def by fastforce
  moreover have "m \<in> set (delivery_list k s)" "pt_deliver s (p @ [m]) = None"
    "length (pt_attempts s) \<le> length p"
    using m(2,3,5) assms(2-4) by auto
  ultimately show ?thesis
    unfolding delivered_for_def using m(1,4) by (intro exI [of _ p] exI [of _ m] exI [of _ q]) simp
qed

lemma sorted_list_remove_Some:
  assumes "sorted_list_spec ops" "sl_remove ops m xs = Some ys"
  shows "\<exists>us x vs. xs = us @ x # vs \<and> ys = us @ vs \<and> cmp_key x = cmp_key m"
proof -
  have "case sl_remove ops m xs of None \<Rightarrow> \<forall>x \<in> set xs. cmp_key x \<noteq> cmp_key m
      | Some ys \<Rightarrow> \<exists>us x vs. xs = us @ x # vs \<and> ys = us @ vs \<and> cmp_key x = cmp_key m"
    using assms(1) unfolding sorted_list_spec_def by blast
  with assms(2) show ?thesis by auto
qed

lemma sorted_list_remove:
  assumes "sorted_list_spec ops" "m \<in> set xs"
  shows "\<exists>us x vs. sl_remove ops m xs = Some (us @ vs) \<and> xs = us @ x # vs \<and> cmp_key x = cmp_key m"
proof (cases "sl_remove ops m xs")
  case None
  have "case sl_remove ops m xs of None \<Rightarrow> \<forall>x \<in> set xs. cmp_key x \<noteq> cmp_key m
      | Some ys \<Rightarrow> \<exists>us x vs. xs = us @ x # vs \<and> ys = us @ vs \<and> cmp_key x = cmp_key m"
    using assms(1) unfolding sorted_list_spec_def by blast
  with None assms(2) show ?thesis by auto
next
  case (Some ys)
  have "case sl_remove ops m xs of None \<Rightarrow> \<forall>x \<in> set xs. cmp_key x \<noteq> cmp_key m
      | Some ys \<Rightarrow> \<exists>us x vs. xs = us @ x # vs \<and> ys = us @ vs \<and> cmp_key x = cmp_key m"
    using assms(1) unfolding sorted_list_spec_def by blast
  with Some show ?thesis by auto
qed

lemma delivery_loop_accounts:
  assumes spec: "sorted_list_spec ops" and known: "known_list k s"
  shows "\<exists>r t rem q c. delivery_loop ops k fuel i s = (Inr r, t) \<and> pt_deliver t = pt_deliver s \<and>
    pt_attempts t = pt_attempts s @ q \<and> pt_confirms t = pt_confirms s @ c \<and>
    mset (delivery_list k s) = mset (delivery_list k t) + mset rem \<and>
    (\<forall>x \<in> set rem. delivered_for k s t x)"
  using known
proof (induction fuel arbitrary: s i)
  case 0
  then show ?case by (intro exI [of _ True] exI [of _ s]) (simp add: py_run)
next
  case (Suc fuel)
  let ?xs = "delivery_list k s"
  show ?case
  proof (cases "sl_next ops i ?xs")
    case None
    then show ?thesis by (intro exI [of _ True] exI [of _ s]) (simp add: py_run)
  next
    case (Some m)
    then have m: "m \<in> set ?xs" using spec by (auto simp: sorted_list_spec_def)
    let ?s = "s\<lparr>pt_attempts := pt_attempts s @ [m]\<rparr>"
    show ?thesis
    proof (cases "pt_deliver s (pt_attempts s @ [m])")
      case failed: (Some e)
      with Some show ?thesis
        by (intro exI [of _ False] exI [of _ ?s]) (simp add: py_run)
    next
      case None
      let ?c = "confirm_attempted k (tm_pub_msg_id m) ?s"
      show ?thesis
      proof (cases "pt_confirm_fails s (pt_confirms s @ [(k, tm_pub_msg_id m)])")
        case True
        have "delivery_loop ops k (Suc fuel) i s = delivery_loop ops k fuel (Suc i) ?c"
          using Some None True by (simp add: py_run Let_def)
        moreover have "known_list k ?c" using Suc.prems by (simp add: known_list_def)
        from Suc.IH [OF this, of "Suc i"] obtain r t rem q c where
          t: "delivery_loop ops k fuel (Suc i) ?c = (Inr r, t)" "pt_deliver t = pt_deliver s"
          "pt_attempts t = pt_attempts s @ m # q" "pt_confirms t = pt_confirms s @ (k, tm_pub_msg_id m) # c"
          "mset ?xs = mset (delivery_list k t) + mset rem" "\<forall>x \<in> set rem. delivered_for k ?c t x"
          by auto
        moreover have "\<forall>x \<in> set rem. delivered_for k s t x"
          using t(6) by (auto elim!: delivered_for_later)
        ultimately show ?thesis
          by (intro exI [of _ r] exI [of _ t] exI [of _ rem] exI [of _ "m # q"]
              exI [of _ "(k, tm_pub_msg_id m) # c"]) simp
      next
        case False
        obtain ys us x vs where ys: "sl_remove ops m ?xs = Some ys" "?xs = us @ x # vs" "ys = us @ vs"
          "cmp_key x = cmp_key m"
          using sorted_list_remove [OF spec m] by blast
        let ?d = "?c\<lparr>pt_db := confirm_pubsub_msg_delivered k (tm_pub_msg_id m) (pt_clock s (pt_ticks s)) (pt_db s)\<rparr>"
        let ?u = "?d\<lparr>pt_delivery_lists := dict_mutate k (\<lambda>_. ys) (pt_delivery_lists s)\<rparr>"
        have run: "delivery_loop ops k (Suc fuel) i s = delivery_loop ops k fuel (Suc i) ?u"
          using Some None False ys(1) by (simp add: py_run Let_def remove_delivered_def)
        have u: "known_list k ?u" "delivery_list k ?u = ys"
          using Suc.prems by (auto simp: known_list_def delivery_list_def dict_get_def dict_simps)
        obtain r t rem q c where t: "delivery_loop ops k fuel (Suc i) ?u = (Inr r, t)" "pt_deliver t = pt_deliver s"
          "pt_attempts t = pt_attempts s @ m # q" "pt_confirms t = pt_confirms s @ (k, tm_pub_msg_id m) # c"
          "mset ys = mset (delivery_list k t) + mset rem" "\<forall>x \<in> set rem. delivered_for k ?u t x"
          using Suc.IH [OF u(1), of "Suc i"] u(2) by auto
        have "confirmed_since s t (k, tm_pub_msg_id m)"
          unfolding confirmed_since_def using False t(4)
          by (intro exI [of _ "pt_confirms s"] exI [of _ c]) simp
        then have "delivered_for k s t x"
          unfolding delivered_for_def using ys(4) m None t(3)
          by (intro exI [of _ "pt_attempts s"] exI [of _ m] exI [of _ q]) simp
        moreover have "\<forall>x \<in> set rem. delivered_for k s t x"
          using t(6) u(2) ys(2,3) by (auto elim!: delivered_for_later)
        moreover have "mset ?xs = mset (delivery_list k t) + mset (x # rem)"
          using t(5) ys(2,3) by simp
        ultimately show ?thesis
          unfolding run using t(1-4)
          by (intro exI [of _ r] exI [of _ t] exI [of _ "x # rem"] exI [of _ "m # q"]
              exI [of _ "(k, tm_pub_msg_id m) # c"]) simp
      qed
    qed
  qed
qed

text \<open>
  Claim C27. Whatever deliveries and confirmations fail, a pass over a delivery list in which no two
  messages compare as equal returns; a message that is gone from the list afterwards was delivered
  without an exception in this pass, and an attempt of this pass to confirm its delivery in SQL
  succeeded; nothing is added to the list. Iterating over the list is assumed not to raise, though
  messages may be missed.
\<close>

theorem messages_leave_after_delivery:
  assumes "sorted_list_spec ops" "map_of (pt_delivery_lists s) k = Some queued"
    and "distinct (map cmp_key queued)"
  shows "\<exists>r t. run_delivery ops k s = (Inr r, t) \<and> set (delivery_list k t) \<subseteq> set queued \<and>
    (\<forall>m \<in> set queued. m \<in> set (delivery_list k t) \<or>
       (\<exists>p q. pt_deliver s (p @ [m]) = None \<and> pt_attempts t = p @ m # q \<and>
          length (pt_attempts s) \<le> length p) \<and>
       confirmed_since s t (k, tm_pub_msg_id m))"
proof -
  have s: "known_list k s" "delivery_list k s = queued"
    using assms(2) by (simp_all add: known_list_def delivery_list_def dict_get_def)
  obtain r t rem where t: "delivery_loop ops k (length queued) 0 s = (Inr r, t)"
    "mset queued = mset (delivery_list k t) + mset rem" "\<forall>x \<in> set rem. delivered_for k s t x"
    using delivery_loop_accounts [OF assms(1) s(1), of "length queued" 0] s(2) by auto
  have set: "set queued = set (delivery_list k t) \<union> set rem"
    using arg_cong [OF t(2), of set_mset] by simp
  have "(\<exists>p q. pt_deliver s (p @ [m]) = None \<and> pt_attempts t = p @ m # q \<and>
        length (pt_attempts s) \<le> length p) \<and>
      confirmed_since s t (k, tm_pub_msg_id m)" if "m \<in> set rem" for m
  proof -
    have "delivered_for k s t m" using t(3) that by blast
    then obtain p n q where n: "cmp_key n = cmp_key m" "n \<in> set queued" "pt_deliver s (p @ [n]) = None"
      "pt_attempts t = p @ n # q" "length (pt_attempts s) \<le> length p"
      "confirmed_since s t (k, tm_pub_msg_id n)"
      unfolding delivered_for_def s(2) by blast
    have "n = m"
      using n(1,2) that set assms(3) by (auto simp: distinct_map inj_on_def)
    with n show ?thesis by blast
  qed
  with set have "\<forall>m \<in> set queued. m \<in> set (delivery_list k t) \<or>
      (\<exists>p q. pt_deliver s (p @ [m]) = None \<and> pt_attempts t = p @ m # q \<and>
        length (pt_attempts s) \<le> length p) \<and>
      confirmed_since s t (k, tm_pub_msg_id m)" by blast
  moreover have "run_delivery ops k s = (Inr r, t)"
    using t(1) s(2) by (simp add: run_delivery_def py_bind_def py_get_def)
  ultimately show ?thesis using set by blast
qed

theorem messages_leave_after_delivery_witness:
  "\<exists>r t. run_delivery list_ops ''k1'' (sample_tool three_messages) = (Inr r, t) \<and>
     set (delivery_list ''k1'' t) \<subseteq> set three_messages"
  using messages_leave_after_delivery [OF list_ops_spec, of "sample_tool three_messages" "''k1''" three_messages]
    three_messages_distinct by auto

text \<open>Claim C31: a message whose delivery raises, \<open>SkipDelivery\<close> included, stays first in the queue
  and ends the pass: no later message is attempted and the task sleeps for long.\<close>

theorem failed_delivery_blocks_queue:
  assumes "map_of (pt_delivery_lists s) k = Some queued" "queued \<noteq> []"
    and "map_of (pt_delivery_tasks s) k = Some True"
    and "sl_next ops 0 queued = Some m" "pt_deliver s (pt_attempts s @ [m]) = Some e"
  shows "task_round ops k s = (Inr (Some LongSleep), s\<lparr>pt_attempts := pt_attempts s @ [m]\<rparr>)"
proof -
  obtain n where "length queued = Suc n" using assms(2) by (cases queued) auto
  then show ?thesis
    using assms
    by (simp add: task_round_def run_delivery_def delivery_list_def dict_get_def py_run)
qed

theorem failed_delivery_blocks_queue_witness:
  "fst (task_round list_ops ''k1'' ((sample_tool three_messages)\<lparr>pt_deliver := \<lambda>_. Some SkipDelivery\<rparr>)) =
     Inr (Some LongSleep)"
  using failed_delivery_blocks_queue
    [of "(sample_tool three_messages)\<lparr>pt_deliver := \<lambda>_. Some SkipDelivery\<rparr>" "''k1''" three_messages list_ops
        "sample_task_msg ''a'' 9 1" SkipDelivery]
  by (simp add: three_messages_def list_ops_def)

section \<open>The tool's dictionaries\<close>

definition tool_inv :: "pubsub_tool \<Rightarrow> bool" where
  "tool_inv s \<longleftrightarrow> fst ` set (pt_batch_size s) = pt_sub_keys s \<and>
     fst ` set (pt_last_sql_run s) = pt_sub_keys s \<and> fst ` set (pt_sub_key_locks s) = pt_sub_keys s \<and>
     fst ` set (pt_delivery_lists s) = pt_sub_keys s \<and> fst ` set (pt_delivery_tasks s) = pt_sub_keys s \<and>
     (\<forall>k. map_of (pt_last_sql_run s) k \<noteq> None \<longrightarrow> map_of (pt_last_sql_run s) k = Some None) \<and>
     (\<forall>k. sorted (map cmp_key (delivery_list k s)))"

datatype tool_event =
    AddSubKey string | RemoveSubKey string | NewMessages bool "string list" "pub_msg list"
  | FetchGD string | RunTask string

definition tool_step :: "sorted_list_ops \<Rightarrow> tool_event \<Rightarrow> (pubsub_tool, unit) py" where
  "tool_step ops e = (case e of
     AddSubKey k \<Rightarrow> add_sub_key_no_lock k
   | RemoveSubKey k \<Rightarrow> remove_sub_key k
   | NewMessages gd ks msgs \<Rightarrow> handle_new_messages ops gd ks msgs
   | FetchGD k \<Rightarrow> fetch_gd_messages_by_sub_key ops k
   | RunTask k \<Rightarrow> py_bind (task_round ops k) (\<lambda>_. py_ret ()))"

lemma tool_inv_other_fields [simp]:
  "tool_inv (pt_ticks_update f1 s) = tool_inv s" "tool_inv (pt_attempts_update f2 s) = tool_inv s"
  "tool_inv (pt_confirms_update f3 s) = tool_inv s" "tool_inv (pt_db_update f4 s) = tool_inv s"
  by (simp_all add: tool_inv_def)

lemma tool_inv_set_list:
  assumes "tool_inv s" "sorted (map cmp_key xs)"
  shows "tool_inv (s\<lparr>pt_delivery_lists := dict_mutate k (\<lambda>_. xs) (pt_delivery_lists s)\<rparr>)"
  using assms by (simp add: tool_inv_def delivery_list_set)

lemma keeps_tool_utcnow [keeps_intros]: "keeps tool_inv pt_utcnow"
  unfolding pt_utcnow_def by (intro keeps_intros) simp

lemma sorted_removed: "sorted (map f (us @ x # vs)) \<Longrightarrow> sorted (map f (us @ vs))"
  by (auto simp: sorted_append)

lemma keeps_tool_add_to_list:
  assumes "sorted_list_spec ops" shows "keeps tool_inv (add_to_list ops k m)"
proof (rule keepsI)
  fix s assume inv: "tool_inv s"
  show "tool_inv (snd (add_to_list ops k m s))"
  proof (cases "map_of (pt_delivery_lists s) k")
    case None
    with inv show ?thesis by (simp add: add_to_list_def py_run)
  next
    case (Some xs)
    have "sorted (map cmp_key (delivery_list k s))" using inv by (simp add: tool_inv_def)
    then have "sorted (map cmp_key (sl_add ops m xs))"
      using Some assms by (simp add: delivery_list_def dict_get_def sorted_list_spec_def)
    with Some tool_inv_set_list [OF inv] show ?thesis
      by (simp add: add_to_list_def py_bind_def item_get_run set_delivery_list_run)
  qed
qed

lemma keeps_tool_delivery_loop:
  assumes spec: "sorted_list_spec ops" shows "keeps tool_inv (delivery_loop ops k fuel i)"
proof (induction fuel arbitrary: i)
  case 0
  show ?case by (simp add: keeps_ret)
next
  case (Suc fuel)
  have rm: "keeps tool_inv (remove_delivered ops k m)" for m
  proof (rule keepsI)
    fix s assume inv: "tool_inv s"
    show "tool_inv (snd (remove_delivered ops k m s))"
    proof (cases "sl_remove ops m (delivery_list k s)")
      case None
      with inv show ?thesis by (simp add: remove_delivered_def py_run)
    next
      case (Some ys)
      obtain us x vs where "delivery_list k s = us @ x # vs" "ys = us @ vs"
        using sorted_list_remove_Some [OF spec Some] by blast
      moreover have "sorted (map cmp_key (delivery_list k s))" using inv by (simp add: tool_inv_def)
      ultimately have "sorted (map cmp_key ys)" using sorted_removed by metis
      with Some tool_inv_set_list [OF inv] show ?thesis
        by (simp add: remove_delivered_def py_bind_def py_get_def set_delivery_list_run)
    qed
  qed
  show ?case
    unfolding delivery_loop.simps deliver_pubsub_msg_def confirm_delivered_def
    by (intro keeps_intros rm Suc) simp_all
qed

lemma keeps_tool_add_sub_key: "keeps tool_inv (add_sub_key_no_lock k)"
proof (rule keepsI)
  fix s assume inv: "tool_inv s"
  show "tool_inv (snd (add_sub_key_no_lock k s))"
    using inv by (auto simp: add_sub_key_no_lock_def py_run tool_inv_def delivery_list_def dict_get_def dict_simps
        split: option.split)
qed

lemma keeps_tool_remove_sub_key: "keeps tool_inv (remove_sub_key k)"
proof (rule keepsI)
  fix s assume inv: "tool_inv s"
  show "tool_inv (snd (remove_sub_key k s))"
  proof (cases "k \<in> pt_sub_keys s")
    case False
    with inv show ?thesis by (simp add: remove_sub_key_def py_run)
  next
    case True
    then have "k \<in> fst ` set (pt_batch_size s)" "k \<in> fst ` set (pt_last_sql_run s)"
      "k \<in> fst ` set (pt_sub_key_locks s)" "k \<in> fst ` set (pt_delivery_lists s)" "k \<in> fst ` set (pt_delivery_tasks s)"
      using inv by (simp_all add: tool_inv_def)
    then obtain a b c d e where "map_of (pt_batch_size s) k = Some a" "map_of (pt_last_sql_run s) k = Some b"
      "map_of (pt_sub_key_locks s) k = Some c" "map_of (pt_delivery_lists s) k = Some d"
      "map_of (pt_delivery_tasks s) k = Some e"
      by (metis map_of_None_iff not_None_eq)
    with True inv show ?thesis
      by (auto simp: remove_sub_key_def task_stop_def py_run tool_inv_def delivery_list_def dict_get_def dict_simps
          split: option.split)
  qed
qed

lemma keeps_tool_fetch:
  assumes "sorted_list_spec ops" shows "keeps tool_inv (fetch_gd_no_lock ops k)"
  unfolding fetch_gd_no_lock_def by (intro keeps_intros keeps_tool_add_to_list [OF assms])

lemma keeps_tool_new_messages:
  assumes "sorted_list_spec ops" shows "keeps tool_inv (handle_new_messages ops gd ks msgs)"
  unfolding handle_new_messages_def with_sub_key_lock_def add_non_gd_no_lock_def
  by (intro keeps_intros keeps_tool_fetch keeps_tool_add_to_list assms)

lemma tool_inv_step:
  assumes spec: "sorted_list_spec ops" and inv: "tool_inv s"
  shows "tool_inv (snd (tool_step ops e s))"
proof -
  have "keeps tool_inv (tool_step ops e)"
  proof (cases e)
    case (RunTask k)
    have "keeps tool_inv (task_round ops k)"
      unfolding task_round_def run_delivery_def
      by (intro keeps_intros keeps_tool_delivery_loop [OF spec])
    then show ?thesis unfolding tool_step_def by (simp add: RunTask keeps_bind keeps_ret)
  qed (simp_all add: tool_step_def keeps_tool_add_sub_key keeps_tool_remove_sub_key fetch_gd_messages_by_sub_key_def
      with_sub_key_lock_def keeps_tool_fetch keeps_tool_new_messages keeps_bind keeps_item_get spec)
  from keepsD [OF this inv] show ?thesis .
qed

text \<open>The interface is interpreted on the tool over sorted lists as documented.\<close>

interpretation tool: py_object "tool_step ops" "\<lambda>_ _. sorted_list_spec ops" tool_inv for ops
  by unfold_locales (rule tool_inv_step)

text \<open>In every run of a tool (sub_keys added and removed, messages accepted, tasks run, with
  whatever failures) its dictionaries have exactly its sub_keys as keys, every delivery list is
  ordered by priority, external and publication time, and the time of the last SQL query stays
  unset.\<close>

theorem tool_dictionaries_agree:
  assumes "sorted_list_spec ops"
    and "reach (tool_step ops) (\<lambda>_ _. True) (init_tool endpoint_type db cluster clock deliver fails) s"
  shows "fst ` set (pt_batch_size s) = pt_sub_keys s \<and> fst ` set (pt_sub_key_locks s) = pt_sub_keys s \<and>
    fst ` set (pt_delivery_lists s) = pt_sub_keys s \<and> fst ` set (pt_delivery_tasks s) = pt_sub_keys s \<and>
    (\<forall>k. sorted (map cmp_key (delivery_list k s))) \<and>
    (\<forall>k \<in> pt_sub_keys s. map_of (pt_last_sql_run s) k = Some None)"
proof -
  have "reach (tool_step ops) (\<lambda>_ _. sorted_list_spec ops)
      (init_tool endpoint_type db cluster clock deliver fails) s"
    using assms(2) by induction (auto intro: reach.intros assms(1))
  moreover have "tool_inv (init_tool endpoint_type db cluster clock deliver fails)"
    by (simp add: tool_inv_def init_tool_def delivery_list_def dict_get_def)
  ultimately have "tool_inv s" by (rule tool.reach_inv)
  moreover have "map_of (pt_last_sql_run s) k \<noteq> None" if "k \<in> fst ` set (pt_last_sql_run s)" for k
    using that by (metis map_of_None_iff)
  ultimately show ?thesis unfolding tool_inv_def by metis
qed

theorem tool_dictionaries_agree_witness:
  "fst ` set (pt_delivery_lists (snd (tool_step list_ops (AddSubKey ''k1'')
      (init_tool ''rest'' empty_db 1 int (\<lambda>_. None) (\<lambda>_. False))))) = {''k1''}"
  using tool_dictionaries_agree [OF list_ops_spec reach_step [OF reach_start, of "\<lambda>_ _. True" "AddSubKey ''k1''"
      "init_tool ''rest'' empty_db 1 int (\<lambda>_. None) (\<lambda>_. False)"]]
  by (simp add: tool_step_def add_sub_key_no_lock_def init_tool_def py_run)

section \<open>New messages\<close>

lemma add_all_to_list:
  assumes "sorted_list_spec ops" "map_of (pt_delivery_lists s) k = Some queued"
  shows "\<exists>d xs. py_for msgs (\<lambda>msg. add_to_list ops k (f msg)) s = (Inr (), s\<lparr>pt_delivery_lists := d\<rparr>) \<and>
    map_of d k = Some xs \<and> mset xs = mset queued + image_mset f (mset msgs) \<and>
    (\<forall>k'. k' \<noteq> k \<longrightarrow> map_of d k' = map_of (pt_delivery_lists s) k')"
  using assms(2)
proof (induction msgs arbitrary: s queued)
  case Nil
  then show ?case by (intro exI [of _ "pt_delivery_lists s"] exI [of _ queued]) (simp add: py_run)
next
  case (Cons m msgs)
  let ?q = "sl_add ops (f m) queued"
  let ?s = "s\<lparr>pt_delivery_lists := dict_mutate k (\<lambda>_. ?q) (pt_delivery_lists s)\<rparr>"
  have "map_of (pt_delivery_lists ?s) k = Some ?q" using Cons.prems by (simp add: dict_simps)
  from Cons.IH [OF this] obtain d xs where xs:
    "py_for msgs (\<lambda>msg. add_to_list ops k (f msg)) ?s = (Inr (), ?s\<lparr>pt_delivery_lists := d\<rparr>)"
    "map_of d k = Some xs" "mset xs = mset ?q + image_mset f (mset msgs)"
    "\<forall>k'. k' \<noteq> k \<longrightarrow> map_of d k' = map_of (pt_delivery_lists ?s) k'" by blast
  have q: "mset ?q = add_mset (f m) (mset queued)"
    using assms(1) by (simp add: sorted_list_spec_def)
  have run: "add_to_list ops k (f m) s = (Inr (), ?s)"
    using Cons.prems by (simp add: add_to_list_def py_bind_def item_get_run set_delivery_list_run)
  have "py_for (m # msgs) (\<lambda>msg. add_to_list ops k (f msg)) s = (Inr (), s\<lparr>pt_delivery_lists := d\<rparr>)"
    using xs(1) by (simp add: py_seq_def run)
  then show ?case
    using xs(2,3,4) q by (intro exI [of _ d] exI [of _ xs]) (simp add: dict_simps)
qed

text \<open>What a notification about new messages queues for a sub_key the tool handles.\<close>

lemma handle_new_messages_one:
  assumes spec: "sorted_list_spec ops" and known: "map_of (pt_delivery_lists s) k = Some queued"
    and tool: "dict_has k (pt_sub_key_locks s)" "map_of (pt_last_sql_run s) k = Some None"
    and some: "gd \<or> msgs \<noteq> []"
  shows "\<exists>t xs. handle_new_messages ops gd [k] msgs s = (Inr (), t) \<and> map_of (pt_delivery_lists t) k = Some xs \<and>
    mset xs = mset queued + image_mset (NonGDMessage k) (mset msgs) +
      (if gd then image_mset (GDMessage k) (mset (get_sql_messages_by_sub_key (pt_db s) (pt_cluster_id s) k None
         (pt_clock s (pt_ticks s)))) else {#}) \<and>
    (\<forall>k'. k' \<noteq> k \<longrightarrow> map_of (pt_delivery_lists t) k' = map_of (pt_delivery_lists s) k') \<and>
    pt_db t = pt_db s \<and> pt_cluster_id t = pt_cluster_id s \<and> pt_clock t = pt_clock s \<and>
    pt_ticks t = (if gd then Suc (pt_ticks s) else pt_ticks s) \<and>
    pt_sub_key_locks t = pt_sub_key_locks s \<and> pt_last_sql_run t = pt_last_sql_run s"
proof -
  let ?sql = "get_sql_messages_by_sub_key (pt_db s) (pt_cluster_id s) k None (pt_clock s (pt_ticks s))"
  let ?s = "if gd then s\<lparr>pt_ticks := Suc (pt_ticks s)\<rparr> else s"
  let ?gd = "if gd then ?sql else []"
  have "map_of (pt_delivery_lists ?s) k = Some queued" using known by simp
  from add_all_to_list [OF spec this, of ?gd "GDMessage k"] obtain d xs where d:
    "py_for ?gd (\<lambda>msg. add_to_list ops k (GDMessage k msg)) ?s = (Inr (), ?s\<lparr>pt_delivery_lists := d\<rparr>)"
    "map_of d k = Some xs" "mset xs = mset queued + image_mset (GDMessage k) (mset ?gd)"
    "\<forall>k'. k' \<noteq> k \<longrightarrow> map_of d k' = map_of (pt_delivery_lists ?s) k'" by blast
  have gd_run: "py_when gd (fetch_gd_no_lock ops k) s = (Inr (), ?s\<lparr>pt_delivery_lists := d\<rparr>)"
  proof (cases gd)
    case True
    then show ?thesis
      using d(1) tool(2) by (simp add: fetch_gd_no_lock_def py_when_def py_bind_def item_get_run pt_utcnow_run py_get_def)
  next
    case False
    then show ?thesis using d(1) by (simp add: py_when_def py_ret_def)
  qed
  have "map_of (pt_delivery_lists (?s\<lparr>pt_delivery_lists := d\<rparr>)) k = Some xs" using d(2) by simp
  from add_all_to_list [OF spec this, of msgs "NonGDMessage k"] obtain d' ys where d':
    "py_for msgs (\<lambda>msg. add_to_list ops k (NonGDMessage k msg)) (?s\<lparr>pt_delivery_lists := d\<rparr>) =
       (Inr (), ?s\<lparr>pt_delivery_lists := d'\<rparr>)"
    "map_of d' k = Some ys" "mset ys = mset xs + image_mset (NonGDMessage k) (mset msgs)"
    "\<forall>k'. k' \<noteq> k \<longrightarrow> map_of d' k' = map_of d k'" by auto
  have "handle_new_messages ops gd [k] msgs s = (Inr (), ?s\<lparr>pt_delivery_lists := d'\<rparr>)"
    using some gd_run d'(1) tool(1)
    by (auto simp: handle_new_messages_def with_sub_key_lock_def add_non_gd_no_lock_def py_seq_def py_bind_def
        item_get_run py_when_def py_ret_def)
  then show ?thesis
    using d(3,4) d'(2,3,4) by (intro exI [of _ "?s\<lparr>pt_delivery_lists := d'\<rparr>"] exI [of _ ys]) auto
qed

definition sample_pub_msg :: pub_msg where
  "sample_pub_msg =
     \<lparr>pm_pub_msg_id = ''m1'', pm_pub_correl_id = None, pm_in_reply_to = None, pm_ext_client_id = None,
      pm_group_id = None, pm_position_in_group = None, pm_pub_time = 0, pm_ext_pub_time = None,
      pm_data = ''hello'', pm_data_prefix = None, pm_data_prefix_short = None, pm_mime_type = ''text/plain'',
      pm_msg_size = 5, pm_priority = 5, pm_expiration = 0, pm_expiration_time = 1000, pm_has_gd = True,
      pm_delivery_status = Initialized, pm_pattern_matched = ''sub'', pm_published_by_id = 1, pm_topic_id = 1,
      pm_cluster_id = 1\<rparr>"

text \<open>A notification about new messages queues each message that came with it once, and,
  when it announces guaranteed ones, every undelivered and unexpired message SQL has for the
  sub_key; no other sub_key's queue changes.\<close>

theorem notification_queues_messages:
  assumes "sorted_list_spec ops" "map_of (pt_delivery_lists s) k = Some queued"
    and "dict_has k (pt_sub_key_locks s)" "map_of (pt_last_sql_run s) k = Some None" "gd \<or> msgs \<noteq> []"
  shows "\<exists>t xs. handle_new_messages ops gd [k] msgs s = (Inr (), t) \<and> map_of (pt_delivery_lists t) k = Some xs \<and>
    mset xs = mset queued + image_mset (NonGDMessage k) (mset msgs) +
      (if gd then image_mset (GDMessage k) (mset (get_sql_messages_by_sub_key (pt_db s) (pt_cluster_id s) k None
         (pt_clock s (pt_ticks s)))) else {#}) \<and>
    (\<forall>k'. k' \<noteq> k \<longrightarrow> map_of (pt_delivery_lists t) k' = map_of (pt_delivery_lists s) k')"
  using handle_new_messages_one [OF assms] by blast

theorem notification_queues_messages_witness:
  "\<exists>t xs. handle_new_messages list_ops True [''k1''] [sample_pub_msg] (sample_tool []) = (Inr (), t) \<and>
     map_of (pt_delivery_lists t) ''k1'' = Some xs \<and> mset xs = {#NonGDMessage ''k1'' sample_pub_msg#}"
proof -
  have "dict_has ''k1'' (pt_sub_key_locks (sample_tool []))"
    "map_of (pt_last_sql_run (sample_tool [])) ''k1'' = Some None" "db_queue (pt_db (sample_tool [])) = []"
    by (simp_all add: sample_tool_def add_sub_key_no_lock_def init_tool_def empty_db_def py_run)
  with notification_queues_messages [OF list_ops_spec, of "sample_tool []" "''k1''" "[]" True "[sample_pub_msg]"]
  show ?thesis by (auto simp: get_sql_messages_by_sub_key_def)
qed

lemma count_image_member: "m \<in> set ms \<Longrightarrow> 1 \<le> count (image_mset f (mset ms)) (f m)"
  by (simp add: Suc_le_eq)

text \<open>A guaranteed message that is still waiting when a second notification arrives is
  queued again: the time of the last query is never recorded, so each query returns every
  undelivered message.\<close>

theorem guaranteed_messages_queued_twice:
  assumes "sorted_list_spec ops" "map_of (pt_delivery_lists s) k = Some []"
    and "dict_has k (pt_sub_key_locks s)" "map_of (pt_last_sql_run s) k = Some None"
    and "m \<in> set (get_sql_messages_by_sub_key (pt_db s) (pt_cluster_id s) k None (pt_clock s (pt_ticks s)))"
    and "pt_clock s (Suc (pt_ticks s)) < pm_expiration_time m"
  shows "\<exists>t xs. py_seq (handle_new_messages ops True [k] []) (handle_new_messages ops True [k] []) s = (Inr (), t) \<and>
    map_of (pt_delivery_lists t) k = Some xs \<and> 2 \<le> count (mset xs) (GDMessage k m)"
proof -
  let ?sql = "\<lambda>now. get_sql_messages_by_sub_key (pt_db s) (pt_cluster_id s) k None now"
  from handle_new_messages_one [OF assms(1-4), of True "[]"] obtain t xs where t:
    "handle_new_messages ops True [k] [] s = (Inr (), t)" "map_of (pt_delivery_lists t) k = Some xs"
    "mset xs = image_mset (GDMessage k) (mset (?sql (pt_clock s (pt_ticks s))))"
    "pt_db t = pt_db s" "pt_cluster_id t = pt_cluster_id s" "pt_clock t = pt_clock s"
    "pt_ticks t = Suc (pt_ticks s)" "pt_sub_key_locks t = pt_sub_key_locks s"
    "pt_last_sql_run t = pt_last_sql_run s" by auto
  have locked: "dict_has k (pt_sub_key_locks t)" "map_of (pt_last_sql_run t) k = Some None"
    using assms(3,4) t(8,9) by simp_all
  from handle_new_messages_one [OF assms(1) t(2) locked, of True "[]"] obtain u ys where u:
    "handle_new_messages ops True [k] [] t = (Inr (), u)" "map_of (pt_delivery_lists u) k = Some ys"
    "mset ys = mset xs + image_mset (GDMessage k) (mset (?sql (pt_clock s (Suc (pt_ticks s)))))"
    using t(4-7) by auto
  have "m \<in> set (?sql (pt_clock s (Suc (pt_ticks s))))"
    using assms(5,6) by (auto simp: get_sql_messages_by_sub_key_def)
  then have "1 \<le> count (image_mset (GDMessage k) (mset (?sql (pt_clock s (Suc (pt_ticks s)))))) (GDMessage k m)"
    by (rule count_image_member)
  moreover have "1 \<le> count (mset xs) (GDMessage k m)"
    unfolding t(3) using assms(5) by (rule count_image_member)
  ultimately have "2 \<le> count (mset ys) (GDMessage k m)" unfolding u(3) count_union by linarith
  then show ?thesis using t(1) u(1,2) by (intro exI [of _ u] exI [of _ ys]) (simp add: py_seq_def)
qed

definition tool_with_gd_message :: pubsub_tool where
  "tool_with_gd_message = (sample_tool [])\<lparr>pt_db := empty_db\<lparr>db_messages := [sample_pub_msg],
     db_subs := [\<lparr>ss_id = 7, ss_sub_key = ''k1'', ss_endpoint_id = 1, ss_cluster_id = 1, ss_server_id = 1\<rparr>],
     db_queue := [queue_row 1 1 0 \<lparr>ss_id = 7, ss_sub_key = ''k1'', ss_endpoint_id = 1, ss_cluster_id = 1,
       ss_server_id = 1\<rparr> sample_pub_msg]\<rparr>\<rparr>"

theorem guaranteed_messages_queued_twice_witness:
  "\<exists>t xs. py_seq (handle_new_messages list_ops True [''k1''] []) (handle_new_messages list_ops True [''k1''] [])
      tool_with_gd_message = (Inr (), t) \<and> map_of (pt_delivery_lists t) ''k1'' = Some xs \<and>
     2 \<le> count (mset xs) (GDMessage ''k1'' sample_pub_msg)"
proof (rule guaranteed_messages_queued_twice [OF list_ops_spec])
  show "map_of (pt_delivery_lists tool_with_gd_message) ''k1'' = Some []"
    "dict_has ''k1'' (pt_sub_key_locks tool_with_gd_message)"
    "map_of (pt_last_sql_run tool_with_gd_message) ''k1'' = Some None"
    "pt_clock tool_with_gd_message (Suc (pt_ticks tool_with_gd_message)) < pm_expiration_time sample_pub_msg"
    by (simp_all add: tool_with_gd_message_def sample_tool_def add_sub_key_no_lock_def init_tool_def py_run
        sample_pub_msg_def)
  show "sample_pub_msg \<in> set (get_sql_messages_by_sub_key (pt_db tool_with_gd_message)
      (pt_cluster_id tool_with_gd_message) ''k1'' None (pt_clock tool_with_gd_message (pt_ticks tool_with_gd_message)))"
    by (simp add: tool_with_gd_message_def sample_tool_def add_sub_key_no_lock_def init_tool_def py_run
        sample_pub_msg_def get_sql_messages_by_sub_key_def queue_row_def empty_db_def)
qed

end
