(* ===== verification/Pubsub_Core.thy ===== *)
theory Pubsub_Core
  imports Pubsub_Task Backlog
begin

text \<open>
  \<open>PubSub\<close>, the publish/subscribe registry of a worker process, with \<open>Endpoint\<close>, \<open>Topic\<close>,
  \<open>Subscription\<close> and \<open>SubKeyServer\<close>, from \<^verbatim>\<open>zato-server/src/zato/server/pubsub/__init__.py\<close>, the
  handlers of broker messages in \<^verbatim>\<open>server/base/worker/pubsub.py\<close> and the services of
  \<^verbatim>\<open>service/internal/pubsub/delivery.py\<close> and \<^verbatim>\<open>migrate.py\<close> it calls. Pattern matching is a
  third-party package (\<open>globre\<close>): the parameter \<open>globre\<close> says whether a pattern matches a name.
\<close>

section \<open>Endpoints\<close>

text \<open>Ids are integers; \<open>None\<close> and 0 are both false in a condition.\<close>

definition truthy_id :: "int option \<Rightarrow> bool" where
  "truthy_id i \<longleftrightarrow> i \<noteq> None \<and> i \<noteq> Some 0"

record endpoint_config =
  ec_id :: int
  ec_name :: string
  ec_role :: string
  ec_is_active :: bool
  ec_is_internal :: bool
  ec_topic_patterns :: "string option"
  ec_security_id :: "int option"
  ec_ws_channel_id :: "int option"
  ec_service_id :: "int option"

record endpoint =
  ep_id :: int
  ep_name :: string
  ep_role :: string
  ep_is_active :: bool
  ep_is_internal :: bool
  ep_topic_patterns :: string
  ep_pub_topic_patterns :: "(string \<times> string) list"
  ep_sub_topic_patterns :: "(string \<times> string) list"

text \<open>\<open>splitlines\<close> and \<open>strip\<close> of Unicode strings, for the characters below 256.\<close>

definition is_line_break :: "char \<Rightarrow> bool" where
  "is_line_break c \<longleftrightarrow> of_char c \<in> {10, 11, 12, 13, 28, 29, 30, 133 :: nat}"

definition is_space :: "char \<Rightarrow> bool" where
  "is_space c \<longleftrightarrow> of_char c \<in> {9, 10, 11, 12, 13, 28, 29, 30, 31, 32, 133, 160 :: nat}"

text \<open>The second argument is the line read so far, reversed; a carriage return and a line feed
  are one break, and no empty line follows the last break.\<close>

fun splitlines_from :: "string \<Rightarrow> string \<Rightarrow> string list" where
  "splitlines_from [] acc = (if acc = [] then [] else [rev acc])"
| "splitlines_from [c] acc = (if is_line_break c then [rev acc] else [rev (c # acc)])"
| "splitlines_from (c # d # cs) acc =
     (if c = CHR 0x0D \<and> d = CHR 0x0A then rev acc # splitlines_from cs []
      else if is_line_break c then rev acc # splitlines_from (d # cs) []
      else splitlines_from (d # cs) (c # acc))"

definition splitlines :: "string \<Rightarrow> string list" where
  "splitlines cs = splitlines_from cs []"

definition strip :: "string \<Rightarrow> string" where
  "strip cs = rev (dropWhile is_space (rev (dropWhile is_space cs)))"

definition after_equals :: "string \<Rightarrow> string" where
  "after_equals line = tl (dropWhile (\<lambda>c. c \<noteq> CHR ''='') line)"

text \<open>The lists of [line, pattern] for publishing and subscribing; other lines are ignored.\<close>

fun set_up_patterns :: "string list \<Rightarrow> (string \<times> string) list \<times> (string \<times> string) list" where
  "set_up_patterns [] = ([], [])"
| "set_up_patterns (raw # lines) =
     (let line = strip raw; (pubs, subs) = set_up_patterns lines in
      if startswith ''pub='' line then ((line, after_equals line) # pubs, subs)
      else if startswith ''sub='' line then (pubs, (line, after_equals line) # subs)
      else (pubs, subs))"

definition new_endpoint :: "endpoint_config \<Rightarrow> endpoint" where
  "new_endpoint c =
     (let patterns = (case ec_topic_patterns c of None \<Rightarrow> '''' | Some p \<Rightarrow> p);
          (pubs, subs) = set_up_patterns (splitlines patterns) in
      \<lparr>ep_id = ec_id c, ep_name = ec_name c, ep_role = ec_role c, ep_is_active = ec_is_active c,
       ep_is_internal = ec_is_internal c, ep_topic_patterns = patterns,
       ep_pub_topic_patterns = pubs, ep_sub_topic_patterns = subs\<rparr>)"

section \<open>Topics, subscriptions, delivery servers\<close>

record topic_config =
  tc_id :: int
  tc_name :: string
  tc_is_active :: bool
  tc_is_internal :: bool
  tc_max_depth_gd :: int
  tc_max_depth_non_gd :: int
  tc_has_gd :: bool
  tc_gd_depth_check_freq :: int
  tc_hook_service_id :: "int option"
  tc_hook_service_name :: string

text \<open>A hook invoker is kept by the name of the service it invokes.\<close>

record topic =
  tp_id :: int
  tp_name :: string
  tp_is_active :: bool
  tp_is_internal :: bool
  tp_max_depth_gd :: int
  tp_max_depth_non_gd :: int
  tp_has_gd :: bool
  tp_gd_depth_check_freq :: int
  tp_gd_depth_check_iter :: int
  tp_before_publish_hook :: "string option"
  tp_before_delivery_hook :: "string option"

definition incr_gd_depth_check :: "topic \<Rightarrow> topic" where
  "incr_gd_depth_check t = t\<lparr>tp_gd_depth_check_iter := tp_gd_depth_check_iter t + 1\<rparr>"

text \<open>A frequency of zero divides by zero.\<close>

definition needs_gd_depth_check :: "topic \<Rightarrow> exn + bool" where
  "needs_gd_depth_check t =
     (if tp_gd_depth_check_freq t = 0 then Inl (OtherError ''ZeroDivisionError'')
      else Inr (tp_gd_depth_check_iter t mod tp_gd_depth_check_freq t = 0))"

record subscription =
  sb_id :: int
  sb_sub_key :: string
  sb_endpoint_id :: int
  sb_topic_name :: string
  sb_endpoint_type :: string
  sb_cluster_id :: int
  sb_server_id :: "int option"

record sub_key_server =
  sks_sub_key :: string
  sks_cluster_id :: int
  sks_server_name :: string
  sks_server_pid :: "int option"
  sks_endpoint_type :: string
  sks_channel_name :: "string option"
  sks_pub_client_id :: "string option"

section \<open>The registry\<close>

datatype hook_type = HookPub | HookSub

record worker_server =
  sv_id :: int
  sv_name :: string
  sv_pid :: int
  sv_cluster_id :: int
  sv_is_first_worker :: bool

text \<open>Functions spawned to run in background, and calls of other servers about new messages.\<close>

datatype pubsub_job =
    UpdatePubMetadata int int int "pub_msg list" string
  | AfterPublish int string "subscription list" "pub_msg list" bool

record notification =
  nt_service :: string
  nt_server :: "string \<times> int option \<times> string option \<times> string option \<times> string"
  nt_sub_keys :: "string list"
  nt_has_gd :: bool
  nt_messages :: "pub_msg list"

text \<open>
  \<open>ps_tools\<close> is \<open>pubsub_tools\<close>, which only grows: a tool is known by its index. The tools share
  the SQL database, the clock and the oracles of this record. \<open>ps_startup_pid\<close> is the shared
  memory the first worker writes, \<open>ps_hooks\<close> the hook services deployed (whether they override
  a hook), \<open>ps_remote_pid\<close> the answers of other servers, \<open>ps_published\<close> the broker messages sent,
  \<open>ps_id_count\<close> how many message ids were made, \<open>ps_jobs\<close> what was spawned, in that order, and
  \<open>ps_notified\<close> the calls made to servers that run delivery tasks.
\<close>

record pubsub =
  ps_cluster_id :: int
  ps_server :: worker_server
  ps_subscriptions_by_topic :: "(string, subscription list) dict"
  ps_subscriptions_by_sub_key :: "(string, subscription) dict"
  ps_sub_key_servers :: "(string, sub_key_server) dict"
  ps_endpoints :: "(int, endpoint) dict"
  ps_topics :: "(int, topic) dict"
  ps_sec_id_to_endpoint_id :: "(int, int) dict"
  ps_ws_channel_id_to_endpoint_id :: "(int, int) dict"
  ps_service_id_to_endpoint_id :: "(int, int) dict"
  ps_topic_name_to_id :: "(string, int) dict"
  ps_pubsub_tool_by_sub_key :: "(string, nat) dict"
  ps_tools :: "pubsub_tool list"
  ps_in_ram_backlog :: backlog
  ps_db :: sql_db
  ps_clock :: "nat \<Rightarrow> int"
  ps_ticks :: nat
  ps_deliver :: "task_msg list \<Rightarrow> exn option"
  ps_confirm_fails :: "(string \<times> string) list \<Rightarrow> bool"
  ps_startup_pid :: "int option"
  ps_hooks :: "(string, hook_type \<Rightarrow> bool option) dict"
  ps_remote_pid :: "string \<Rightarrow> string \<Rightarrow> exn + int option"
  ps_published :: "sub_key_server list"
  ps_id_count :: nat
  ps_jobs :: "pubsub_job list"
  ps_notified :: "notification list"

definition init_pubsub ::
  "worker_server \<Rightarrow> sql_db \<Rightarrow> (nat \<Rightarrow> int) \<Rightarrow> (task_msg list \<Rightarrow> exn option)
   \<Rightarrow> ((string \<times> string) list \<Rightarrow> bool) \<Rightarrow> (string, hook_type \<Rightarrow> bool option) dict
   \<Rightarrow> (string \<Rightarrow> string \<Rightarrow> exn + int option) \<Rightarrow> backlog \<Rightarrow> pubsub" where
  "init_pubsub server db clock deliver fails hooks remote empty_backlog =
     \<lparr>ps_cluster_id = sv_cluster_id server, ps_server = server, ps_subscriptions_by_topic = [],
      ps_subscriptions_by_sub_key = [], ps_sub_key_servers = [], ps_endpoints = [], ps_topics = [],
      ps_sec_id_to_endpoint_id = [], ps_ws_channel_id_to_endpoint_id = [],
      ps_service_id_to_endpoint_id = [], ps_topic_name_to_id = [], ps_pubsub_tool_by_sub_key = [],
      ps_tools = [], ps_in_ram_backlog = empty_backlog, ps_db = db, ps_clock = clock, ps_ticks = 0,
      ps_deliver = deliver, ps_confirm_fails = fails, ps_startup_pid = None, ps_hooks = hooks,
      ps_remote_pid = remote, ps_published = [], ps_id_count = 0, ps_jobs = [], ps_notified = []\<rparr>"

definition ps_utcnow :: "(pubsub, int) py" where
  "ps_utcnow = py_bind (py_get (\<lambda>s. ps_clock s (ps_ticks s))) (\<lambda>t.
     py_seq (py_modify (ps_ticks_update Suc)) (py_ret t))"

section \<open>Looking things up\<close>

definition get_subscriptions_by_topic :: "string \<Rightarrow> pubsub \<Rightarrow> subscription list" where
  "get_subscriptions_by_topic name s = dict_get name [] (ps_subscriptions_by_topic s)"

text \<open>The default is an empty list although the values are subscriptions: none is found.\<close>

definition get_subscriptions_by_sub_key :: "string \<Rightarrow> pubsub \<Rightarrow> subscription option" where
  "get_subscriptions_by_sub_key sub_key s = map_of (ps_subscriptions_by_sub_key s) sub_key"

definition has_sub_key :: "string \<Rightarrow> pubsub \<Rightarrow> bool" where
  "has_sub_key sub_key s \<longleftrightarrow> dict_has sub_key (ps_subscriptions_by_sub_key s)"

definition get_endpoint_id_by_sec_id :: "int \<Rightarrow> (pubsub, int) py" where
  "get_endpoint_id_by_sec_id i = item_get ps_sec_id_to_endpoint_id i"

definition get_endpoint_id_by_ws_channel_id :: "int \<Rightarrow> (pubsub, int) py" where
  "get_endpoint_id_by_ws_channel_id i = item_get ps_ws_channel_id_to_endpoint_id i"

definition get_endpoint_id_by_service_id :: "int \<Rightarrow> (pubsub, int) py" where
  "get_endpoint_id_by_service_id i = item_get ps_service_id_to_endpoint_id i"

definition get_topic_id_by_name :: "string \<Rightarrow> (pubsub, int) py" where
  "get_topic_id_by_name name = item_get ps_topic_name_to_id name"

definition get_topic_by_name :: "string \<Rightarrow> (pubsub, topic) py" where
  "get_topic_by_name name = py_bind (get_topic_id_by_name name) (item_get ps_topics)"

section \<open>Endpoints\<close>

definition create_endpoint :: "endpoint_config \<Rightarrow> (pubsub, unit) py" where
  "create_endpoint c = py_seq (item_set ps_endpoints_update (ec_id c) (new_endpoint c))
    (py_seq (py_when (truthy_id (ec_security_id c))
       (item_set ps_sec_id_to_endpoint_id_update (the (ec_security_id c)) (ec_id c)))
    (py_seq (py_when (truthy_id (ec_ws_channel_id c))
       (item_set ps_ws_channel_id_to_endpoint_id_update (the (ec_ws_channel_id c)) (ec_id c)))
       (py_when (truthy_id (ec_service_id c))
       (item_set ps_service_id_to_endpoint_id_update (the (ec_service_id c)) (ec_id c)))))"

text \<open>The first key with that value, which is deleted if it is true.\<close>

definition key_of_endpoint :: "int \<Rightarrow> (int, int) dict \<Rightarrow> int option" where
  "key_of_endpoint i d = map_option fst (find (\<lambda>(_, v). v = i) d)"

definition delete_key_of_endpoint ::
  "(pubsub \<Rightarrow> (int, int) dict) \<Rightarrow> (((int, int) dict \<Rightarrow> (int, int) dict) \<Rightarrow> pubsub \<Rightarrow> pubsub)
   \<Rightarrow> int \<Rightarrow> (pubsub, unit) py" where
  "delete_key_of_endpoint sel upd i = py_bind (py_get (\<lambda>s. key_of_endpoint i (sel s))) (\<lambda>k.
     py_when (truthy_id k) (item_del sel upd (the k)))"

text \<open>The three keys are looked up before any is deleted; the dictionaries are different ones.\<close>

definition delete_endpoint :: "int \<Rightarrow> (pubsub, unit) py" where
  "delete_endpoint i = py_seq (item_del ps_endpoints ps_endpoints_update i)
    (py_seq (delete_key_of_endpoint ps_sec_id_to_endpoint_id ps_sec_id_to_endpoint_id_update i)
    (py_seq (delete_key_of_endpoint ps_ws_channel_id_to_endpoint_id ps_ws_channel_id_to_endpoint_id_update i)
       (delete_key_of_endpoint ps_service_id_to_endpoint_id ps_service_id_to_endpoint_id_update i)))"

definition edit_endpoint :: "endpoint_config \<Rightarrow> (pubsub, unit) py" where
  "edit_endpoint c = py_seq (delete_endpoint (ec_id c)) (create_endpoint c)"

section \<open>Authorisation\<close>

datatype pattern_target = PubTopicPatterns | SubTopicPatterns

definition patterns_of :: "pattern_target \<Rightarrow> endpoint \<Rightarrow> (string \<times> string) list" where
  "patterns_of target e =
     (case target of PubTopicPatterns \<Rightarrow> ep_pub_topic_patterns e | SubTopicPatterns \<Rightarrow> ep_sub_topic_patterns e)"

definition is_allowed ::
  "(string \<Rightarrow> string \<Rightarrow> bool) \<Rightarrow> pattern_target \<Rightarrow> string \<Rightarrow> int option \<Rightarrow> int option \<Rightarrow> int option
   \<Rightarrow> (pubsub, string option) py" where
  "is_allowed globre target name security_id ws_channel_id endpoint_id =
     py_bind
      (if truthy_id endpoint_id then py_ret (the endpoint_id)
       else if \<not> (truthy_id security_id \<or> truthy_id ws_channel_id) then py_raise ValueError
       else if truthy_id security_id then item_get ps_sec_id_to_endpoint_id (the security_id)
       else item_get ps_ws_channel_id_to_endpoint_id (the ws_channel_id)) (\<lambda>i.
     py_bind (item_get ps_endpoints i) (\<lambda>e.
     py_ret (map_option fst (find (\<lambda>(_, pattern). globre pattern name) (patterns_of target e)))))"

definition is_allowed_pub_topic ::
  "(string \<Rightarrow> string \<Rightarrow> bool) \<Rightarrow> string \<Rightarrow> int option \<Rightarrow> int option \<Rightarrow> (pubsub, string option) py" where
  "is_allowed_pub_topic globre name security_id ws_channel_id =
     is_allowed globre PubTopicPatterns name security_id ws_channel_id None"

definition is_allowed_pub_topic_by_endpoint_id ::
  "(string \<Rightarrow> string \<Rightarrow> bool) \<Rightarrow> string \<Rightarrow> int option \<Rightarrow> (pubsub, string option) py" where
  "is_allowed_pub_topic_by_endpoint_id globre name endpoint_id =
     is_allowed globre PubTopicPatterns name None None endpoint_id"

definition is_allowed_sub_topic ::
  "(string \<Rightarrow> string \<Rightarrow> bool) \<Rightarrow> string \<Rightarrow> int option \<Rightarrow> int option \<Rightarrow> (pubsub, string option) py" where
  "is_allowed_sub_topic globre name security_id ws_channel_id =
     is_allowed globre SubTopicPatterns name security_id ws_channel_id None"

definition is_allowed_sub_topic_by_endpoint_id ::
  "(string \<Rightarrow> string \<Rightarrow> bool) \<Rightarrow> string \<Rightarrow> int option \<Rightarrow> (pubsub, string option) py" where
  "is_allowed_sub_topic_by_endpoint_id globre name endpoint_id =
     is_allowed globre SubTopicPatterns name None None endpoint_id"

section \<open>Topics\<close>

definition get_hook_service_invoker :: "string \<Rightarrow> hook_type \<Rightarrow> (pubsub, string option) py" where
  "get_hook_service_invoker service_name hook = py_bind (item_get ps_hooks service_name) (\<lambda>overridden.
     case overridden hook of
       None \<Rightarrow> py_raise AttributeError
     | Some yes \<Rightarrow> py_ret (if yes then Some service_name else None))"

definition new_topic :: "topic_config \<Rightarrow> string option \<Rightarrow> string option \<Rightarrow> topic" where
  "new_topic c before_publish before_delivery =
     \<lparr>tp_id = tc_id c, tp_name = tc_name c, tp_is_active = tc_is_active c,
      tp_is_internal = tc_is_internal c, tp_max_depth_gd = tc_max_depth_gd c,
      tp_max_depth_non_gd = tc_max_depth_non_gd c, tp_has_gd = tc_has_gd c,
      tp_gd_depth_check_freq = tc_gd_depth_check_freq c, tp_gd_depth_check_iter = 0,
      tp_before_publish_hook = before_publish, tp_before_delivery_hook = before_delivery\<rparr>"

definition create_topic :: "topic_config \<Rightarrow> (pubsub, unit) py" where
  "create_topic c = py_bind
     (if truthy_id (tc_hook_service_id c)
      then py_bind (get_hook_service_invoker (tc_hook_service_name c) HookPub) (\<lambda>p.
           py_bind (get_hook_service_invoker (tc_hook_service_name c) HookSub) (\<lambda>d. py_ret (p, d)))
      else py_ret (None, None)) (\<lambda>(p, d).
     py_seq (item_set ps_topics_update (tc_id c) (new_topic c p d))
       (item_set ps_topic_name_to_id_update (tc_name c) (tc_id c)))"

definition delete_topic_named :: "int \<Rightarrow> string \<Rightarrow> (pubsub, unit) py" where
  "delete_topic_named i name = py_seq (item_del ps_topic_name_to_id ps_topic_name_to_id_update name)
    (py_seq (py_modify (ps_subscriptions_by_topic_update (dict_del name)))
       (item_del ps_topics ps_topics_update i))"

definition delete_topic :: "int \<Rightarrow> (pubsub, unit) py" where
  "delete_topic i = py_bind (item_get ps_topics i) (\<lambda>t. delete_topic_named i (tp_name t))"

definition edit_topic :: "string \<Rightarrow> topic_config \<Rightarrow> (pubsub, unit) py" where
  "edit_topic del_name c = py_bind (py_get (get_subscriptions_by_topic del_name)) (\<lambda>subs.
     py_seq (py_modify (ps_subscriptions_by_topic_update (dict_del del_name)))
    (py_seq (delete_topic_named (tc_id c) del_name)
    (py_seq (create_topic c)
       (item_set ps_subscriptions_by_topic_update (tc_name c) subs))))"

section \<open>Delivery servers of sub_keys\<close>

definition set_sub_key_server :: "sub_key_server \<Rightarrow> (pubsub, unit) py" where
  "set_sub_key_server c = item_set ps_sub_key_servers_update (sks_sub_key c) c"

definition get_sub_key_server :: "string \<Rightarrow> (pubsub, sub_key_server) py" where
  "get_sub_key_server sub_key = item_get ps_sub_key_servers sub_key"

definition delete_sub_key_server :: "string \<Rightarrow> (pubsub, unit) py" where
  "delete_sub_key_server sub_key = item_del ps_sub_key_servers ps_sub_key_servers_update sub_key"

definition remove_ws_sub_key_server :: "string list \<Rightarrow> (pubsub, unit) py" where
  "remove_ws_sub_key_server sub_key_list = py_for sub_key_list (\<lambda>k.
     py_seq (py_modify (ps_sub_key_servers_update (dict_del k)))
    (py_bind (py_get (\<lambda>s. \<exists>i \<in> set (dict_values (ps_sub_key_servers s)). sks_sub_key i = k)) (\<lambda>left.
       py_when left (delete_sub_key_server k))))"

text \<open>Any failure is logged and there is no PID then.\<close>

definition get_server_pid_for_sub_key :: "string \<Rightarrow> string \<Rightarrow> (pubsub, int option) py" where
  "get_server_pid_for_sub_key server_name sub_key = py_get (\<lambda>s.
     case ps_remote_pid s server_name sub_key of Inl _ \<Rightarrow> None | Inr pid \<Rightarrow> pid)"

definition add_missing_server_for_sub_key :: "string \<Rightarrow> (pubsub, unit) py" where
  "add_missing_server_for_sub_key sub_key =
     py_bind (py_get (\<lambda>s. get_delivery_server_for_sub_key (ps_db s) (sv_cluster_id (ps_server s)) sub_key)) (\<lambda>data.
     case data of
       Inl e \<Rightarrow> py_raise e
     | Inr None \<Rightarrow> py_ret ()
     | Inr (Some (server, endpoint_type)) \<Rightarrow>
         py_bind (get_server_pid_for_sub_key (sr_name server) sub_key) (\<lambda>pid.
         set_sub_key_server \<lparr>sks_sub_key = sub_key, sks_cluster_id = sr_cluster_id server,
           sks_server_name = sr_name server, sks_server_pid = pid, sks_endpoint_type = endpoint_type,
           sks_channel_name = None, sks_pub_client_id = None\<rparr>))"

type_synonym task_server = "string \<times> int option \<times> string option \<times> string option \<times> string"

definition task_server_of :: "sub_key_server \<Rightarrow> task_server" where
  "task_server_of i = (sks_server_name i, sks_server_pid i, sks_pub_client_id i, sks_channel_name i,
     sks_endpoint_type i)"

primrec task_servers_loop ::
  "string list \<Rightarrow> (task_server, string list) dict \<Rightarrow> string list
   \<Rightarrow> (pubsub, (task_server, string list) dict \<times> string list) py" where
  "task_servers_loop [] found not_found = py_ret (found, not_found)"
| "task_servers_loop (k # ks) found not_found = py_bind (py_get (\<lambda>s. dict_has k (ps_sub_key_servers s))) (\<lambda>known.
     py_seq (py_when (\<not> known) (add_missing_server_for_sub_key k))
    (py_bind (py_get (\<lambda>s. map_of (ps_sub_key_servers s) k)) (\<lambda>info.
     case info of
       None \<Rightarrow> task_servers_loop ks found (not_found @ [k])
     | Some i \<Rightarrow>
         if truthy_id (sks_server_pid i)
         then task_servers_loop ks (dict_set (task_server_of i) (dict_get (task_server_of i) [] found @ [k]) found)
                not_found
         else task_servers_loop ks found (not_found @ [k]))))"

definition get_task_servers_by_sub_keys ::
  "string list \<Rightarrow> (pubsub, (task_server, string list) dict \<times> string list) py" where
  "get_task_servers_by_sub_keys sub_keys = task_servers_loop sub_keys [] []"

section \<open>Delivery tasks of this worker\<close>

text \<open>A method of the tool with index \<open>i\<close>, which sees the shared database and clock.\<close>

definition with_tool :: "nat \<Rightarrow> (pubsub_tool, 'a) py \<Rightarrow> (pubsub, 'a) py" where
  "with_tool i m s =
     (case m ((ps_tools s ! i)\<lparr>pt_db := ps_db s, pt_ticks := ps_ticks s\<rparr>) of
        (r, t) \<Rightarrow> (r, s\<lparr>ps_tools := (ps_tools s)[i := t], ps_db := pt_db t, ps_ticks := pt_ticks t\<rparr>))"

text \<open>\<open>PubSubTool(...)\<close> registers itself; the result is its index.\<close>

definition new_pubsub_tool :: "string \<Rightarrow> (pubsub, nat) py" where
  "new_pubsub_tool endpoint_type = py_bind (py_get (\<lambda>s. length (ps_tools s))) (\<lambda>i.
     py_seq (py_modify (\<lambda>s. s\<lparr>ps_tools := ps_tools s @
         [init_tool endpoint_type (ps_db s) (ps_cluster_id s) (ps_clock s) (ps_deliver s) (ps_confirm_fails s)]\<rparr>))
       (py_ret i))"

definition set_pubsub_tool_for_sub_key :: "string \<Rightarrow> nat \<Rightarrow> (pubsub, unit) py" where
  "set_pubsub_tool_for_sub_key sub_key i = item_set ps_pubsub_tool_by_sub_key_update sub_key i"

definition add_sub_key :: "nat \<Rightarrow> string \<Rightarrow> (pubsub, unit) py" where
  "add_sub_key i sub_key = py_seq (with_tool i (add_sub_key_no_lock sub_key))
     (set_pubsub_tool_for_sub_key sub_key i)"

definition local_server_of :: "worker_server \<Rightarrow> string \<Rightarrow> int option \<Rightarrow> string \<Rightarrow> sub_key_server" where
  "local_server_of server sub_key pid endpoint_type =
     \<lparr>sks_sub_key = sub_key, sks_cluster_id = sv_cluster_id server, sks_server_name = sv_name server,
      sks_server_pid = pid, sks_endpoint_type = endpoint_type, sks_channel_name = None,
      sks_pub_client_id = None\<rparr>"

definition create_delivery_task :: "string \<Rightarrow> string \<Rightarrow> (pubsub, unit) py" where
  "create_delivery_task sub_key endpoint_type = py_bind (new_pubsub_tool endpoint_type) (\<lambda>i.
     py_seq (add_sub_key i sub_key)
    (py_bind (py_get ps_server) (\<lambda>server.
     let msg = local_server_of server sub_key (Some (sv_pid server)) endpoint_type in
     py_seq (set_sub_key_server msg)
       (py_modify (ps_published_update (\<lambda>ms. ms @ [msg]))))))"

text \<open>Waiting for the process id in shared memory ends in a \<open>KeyError\<close> when no one sets it.\<close>

definition get_pubsub_pid :: "(pubsub, int option) py" where
  "get_pubsub_pid = py_bind (py_get ps_startup_pid) (\<lambda>pid.
     case pid of None \<Rightarrow> py_raise KeyError | Some p \<Rightarrow> py_ret (Some p))"

definition create_subscription :: "subscription \<Rightarrow> (pubsub, unit) py" where
  "create_subscription sub =
     py_seq (py_modify (\<lambda>s. s\<lparr>ps_subscriptions_by_topic :=
         dict_set (sb_topic_name sub) (get_subscriptions_by_topic (sb_topic_name sub) s @ [sub])
           (ps_subscriptions_by_topic s)\<rparr>))
    (py_seq (item_set ps_subscriptions_by_sub_key_update (sb_sub_key sub) sub)
    (py_bind (py_get (\<lambda>s. (ps_cluster_id s, ps_server s))) (\<lambda>(cluster, server).
     py_when (sb_endpoint_type sub \<noteq> ''websockets'' \<and> sb_cluster_id sub = cluster \<and>
              sb_server_id sub = Some (sv_id server))
       (if sv_is_first_worker server
        then py_seq (py_modify (ps_startup_pid_update (\<lambda>_. Some (sv_pid server))))
            (py_seq (set_sub_key_server ((local_server_of server (sb_sub_key sub) (Some (sv_pid server))
                       (sb_endpoint_type sub))\<lparr>sks_cluster_id := sb_cluster_id sub\<rparr>))
               (create_delivery_task (sb_sub_key sub) (sb_endpoint_type sub)))
        else py_bind get_pubsub_pid (\<lambda>pid.
             set_sub_key_server ((local_server_of server (sb_sub_key sub) pid
               (sb_endpoint_type sub))\<lparr>sks_cluster_id := sb_cluster_id sub\<rparr>))))))"

section \<open>Unsubscribing\<close>

definition with_backlog :: "(backlog, 'a) py \<Rightarrow> (pubsub, 'a) py" where
  "with_backlog m s = (case m (ps_in_ram_backlog s) of (r, b) \<Rightarrow> (r, s\<lparr>ps_in_ram_backlog := b\<rparr>))"

definition store_in_ram ::
  "string \<Rightarrow> int \<Rightarrow> string \<Rightarrow> string list \<Rightarrow> ram_msg list \<Rightarrow> (pubsub, unit) py" where
  "store_in_ram cid topic_id topic_name sub_keys msgs = py_bind (item_get ps_topics topic_id) (\<lambda>t.
     with_backlog (add_messages cid topic_id topic_name (tp_max_depth_non_gd t) sub_keys msgs))"

text \<open>The first tool that handles the sub_key, when this worker is its delivery server.\<close>

definition is_served_here :: "worker_server \<Rightarrow> sub_key_server \<Rightarrow> bool" where
  "is_served_here server i \<longleftrightarrow> sks_cluster_id i = sv_cluster_id server \<and>
     sks_server_name i = sv_name server \<and> sks_server_pid i = Some (sv_pid server)"

definition stop_task_here :: "string \<Rightarrow> (pubsub, unit) py" where
  "stop_task_here k = py_bind (py_get (\<lambda>s. (ps_server s, map_of (ps_sub_key_servers s) k, ps_tools s)))
     (\<lambda>(server, info, tools).
     case info of
       None \<Rightarrow> py_ret ()
     | Some i \<Rightarrow> if \<not> is_served_here server i then py_ret ()
         else (case find (\<lambda>n. handles_sub_key k (tools ! n)) [0..<length tools] of
                 None \<Rightarrow> py_ret ()
               | Some n \<Rightarrow> py_seq (with_tool n (remove_sub_key k))
                   (item_del ps_pubsub_tool_by_sub_key ps_pubsub_tool_by_sub_key_update k)))"

definition pubsub_unsubscribe :: "(string, string list) dict \<Rightarrow> (pubsub, unit) py" where
  "pubsub_unsubscribe topic_sub_keys = py_for topic_sub_keys (\<lambda>(topic_name, sub_keys).
     py_bind (item_get ps_topic_name_to_id topic_name) (\<lambda>topic_id.
     py_seq (with_backlog (backlog_unsubscribe topic_id sub_keys))
    (py_bind (item_get ps_subscriptions_by_topic topic_name) (\<lambda>subs.
     py_seq (item_set ps_subscriptions_by_topic_update topic_name
         (remove_while_iterating (\<lambda>sub. sb_sub_key sub \<in> set sub_keys) 0 subs))
       (py_for sub_keys stop_task_here)))))"

section \<open>Broker messages and services\<close>

definition on_sub_key_server_set :: "sub_key_server \<Rightarrow> (pubsub, unit) py" where
  "on_sub_key_server_set msg = py_bind (py_get ps_server) (\<lambda>server.
     py_when (sks_server_name msg \<noteq> sv_name server \<and> sks_server_pid msg \<noteq> Some (sv_pid server))
       (set_sub_key_server msg))"

definition notify_pub_sub_message ::
  "sorted_list_ops \<Rightarrow> bool \<Rightarrow> string list \<Rightarrow> pub_msg list \<Rightarrow> (pubsub, unit) py" where
  "notify_pub_sub_message ops gd sub_key_list msgs = py_for sub_key_list (\<lambda>k.
     py_bind (item_get ps_pubsub_tool_by_sub_key k) (\<lambda>i. with_tool i (handle_new_messages ops gd [k] msgs)))"

definition service_get_server_pid :: "string \<Rightarrow> (pubsub, int option) py" where
  "service_get_server_pid k = py_bind (py_try (get_sub_key_server k) (\<lambda>e.
       if e = KeyError then py_raise BadRequest else py_raise e))
     (\<lambda>i. py_ret (sks_server_pid i))"

text \<open>
  \<open>stopping_ok\<close> is what all servers answer to the notification, which each of their processes
  handles by forgetting the delivery server (its failures are part of that answer); \<open>created\<close> is
  the outcome of the call that starts the task on the new server.
\<close>

definition migrate_delivery_server :: "bool \<Rightarrow> exn option \<Rightarrow> string \<Rightarrow> (pubsub, unit) py" where
  "migrate_delivery_server stopping_ok created k = py_bind (item_get ps_pubsub_tool_by_sub_key k) (\<lambda>i.
     py_bind (with_tool i (get_delivery_task k)) (\<lambda>_.
     py_seq (py_try (delete_sub_key_server k) (\<lambda>_. py_ret ()))
       (if \<not> stopping_ok then py_ret ()
        else py_seq (with_tool i (task_stop k)) (py_seq (with_tool i (task_clear k))
            (py_seq (with_tool i (remove_sub_key k))
               (case created of None \<Rightarrow> py_ret () | Some e \<Rightarrow> py_raise e))))))"

definition on_delivery_server_change ::
  "bool \<Rightarrow> exn option \<Rightarrow> int \<Rightarrow> string \<Rightarrow> (pubsub, unit) py" where
  "on_delivery_server_change stopping_ok created old_server_id k = py_bind (py_get ps_server) (\<lambda>server.
     py_when (old_server_id = sv_id server) (py_bind (get_sub_key_server k) (\<lambda>i.
       py_when (sks_server_pid i = Some (sv_pid server)) (migrate_delivery_server stopping_ok created k))))"

definition add_ws_client_pubsub_keys ::
  "int \<Rightarrow> string \<Rightarrow> string \<Rightarrow> string \<Rightarrow> (pubsub, unit) py" where
  "add_ws_client_pubsub_keys sql_ws_client_id sub_key channel_name pub_client_id =
     py_modify (\<lambda>s. s\<lparr>
       ps_db := (ps_db s)\<lparr>db_ws_sub_keys := db_ws_sub_keys (ps_db s) @
         [(sql_ws_client_id, sub_key, ps_cluster_id s)]\<rparr>,
       ps_published := ps_published s @ [(local_server_of (ps_server s) sub_key
         (Some (sv_pid (ps_server s))) ''websockets'')\<lparr>sks_cluster_id := ps_cluster_id s,
         sks_channel_name := Some channel_name, sks_pub_client_id := Some pub_client_id\<rparr>]\<rparr>)"

end
