(* ===== verification/Pubsub_Registry.thy ===== *)
theory Pubsub_Registry
  imports Pubsub_Core
begin

text \<open>
  Facts and properties of the publish/subscribe registry of \<open>Pubsub_Core\<close>: what endpoints may do,
  that its dictionaries stay consistent in every run, how sub_keys are split among delivery
  servers, and what unsubscribing and broker messages leave out.
\<close>

section \<open>Patterns\<close>

lemma startswith_eq: "startswith p line \<longleftrightarrow> (\<exists>rest. line = p @ rest)"
  unfolding startswith_def by (metis append_eq_conv_conj append_take_drop_id)

lemma after_equals_pub: "startswith ''pub='' line \<Longrightarrow> after_equals line = drop 4 line"
  and after_equals_sub: "startswith ''sub='' line \<Longrightarrow> after_equals line = drop 4 line"
  by (auto simp: startswith_eq after_equals_def)

lemma set_up_patterns_eq:
  "set_up_patterns lines =
     (map (\<lambda>l. (l, drop 4 l)) (filter (startswith ''pub='') (map strip lines)),
      map (\<lambda>l. (l, drop 4 l)) (filter (startswith ''sub='') (map strip lines)))"
proof (induction lines)
  case (Cons l lines)
  have "\<not> (startswith ''pub='' l' \<and> startswith ''sub='' l')" for l'
    by (auto simp: startswith_eq)
  with Cons show ?case
    by (auto simp: Let_def after_equals_pub after_equals_sub)
qed simp

text \<open>The lines of a configuration that start with \<open>pub=\<close> or \<open>sub=\<close>, as they authorise.\<close>

definition pattern_lines :: "pattern_target \<Rightarrow> endpoint_config \<Rightarrow> string list" where
  "pattern_lines target c = filter (startswith (case target of PubTopicPatterns \<Rightarrow> ''pub='' | SubTopicPatterns \<Rightarrow> ''sub=''))
     (map strip (splitlines (case ec_topic_patterns c of None \<Rightarrow> '''' | Some p \<Rightarrow> p)))"

lemma patterns_of_new_endpoint:
  "patterns_of target (new_endpoint c) = map (\<lambda>l. (l, drop 4 l)) (pattern_lines target c)"
  by (cases target) (simp_all add: patterns_of_def new_endpoint_def pattern_lines_def set_up_patterns_eq Let_def)

lemma find_map_fst:
  "map_option fst (find (\<lambda>(_, p). P p) (map (\<lambda>l. (l, f l)) ls)) = find (\<lambda>l. P (f l)) ls"
  by (induction ls) auto

lemma is_allowed_run:
  assumes "map_of (ps_endpoints s) i = Some e" "i \<noteq> 0"
    and "endpoint_id = Some i \<or> \<not> truthy_id endpoint_id \<and>
      (truthy_id security_id \<and> map_of (ps_sec_id_to_endpoint_id s) (the security_id) = Some i \<or>
       \<not> truthy_id security_id \<and> truthy_id ws_channel_id \<and>
       map_of (ps_ws_channel_id_to_endpoint_id s) (the ws_channel_id) = Some i)"
  shows "is_allowed globre target name security_id ws_channel_id endpoint_id s =
    (Inr (map_option fst (find (\<lambda>(_, p). globre p name) (patterns_of target e))), s)"
  using assms by (auto simp: is_allowed_def truthy_id_def py_run)

section \<open>Dictionaries of endpoint ids\<close>

definition id_map_ok :: "(int, int) dict \<Rightarrow> int set \<Rightarrow> bool" where
  "id_map_ok d ids \<longleftrightarrow> dict_ok d \<and> (\<forall>k v. map_of d k = Some v \<longrightarrow> k \<noteq> 0 \<and> v \<in> ids) \<and>
     (\<forall>k k' v. map_of d k = Some v \<and> map_of d k' = Some v \<longrightarrow> k = k')"

definition add_key :: "int option \<Rightarrow> int \<Rightarrow> (int, int) dict \<Rightarrow> (int, int) dict" where
  "add_key k i d = (if truthy_id k then dict_set (the k) i d else d)"

definition del_key :: "int \<Rightarrow> (int, int) dict \<Rightarrow> (int, int) dict" where
  "del_key i d = (let k = key_of_endpoint i d in if truthy_id k then dict_del (the k) d else d)"

text \<open>The key an endpoint asks for is free or already its own.\<close>

definition key_available :: "int option \<Rightarrow> int \<Rightarrow> (int, int) dict \<Rightarrow> bool" where
  "key_available k i d \<longleftrightarrow> (case k of None \<Rightarrow> True | Some k \<Rightarrow> map_of d k = None \<or> map_of d k = Some i)"

lemma key_of_endpoint_None: "key_of_endpoint i d = None \<Longrightarrow> dict_ok d \<Longrightarrow> map_of d k \<noteq> Some i"
  by (induction d) (auto simp: key_of_endpoint_def split: if_splits)

lemma key_of_endpoint_Some: "key_of_endpoint i d = Some k \<Longrightarrow> dict_ok d \<Longrightarrow> map_of d k = Some i"
proof -
  assume "key_of_endpoint i d = Some k" "dict_ok d"
  then have "(k, i) \<in> set d"
    by (auto simp: key_of_endpoint_def find_Some_iff dest: nth_mem)
  with \<open>dict_ok d\<close> show ?thesis by (rule map_of_is_SomeI)
qed

lemma del_key_ok:
  assumes ok: "id_map_ok d ids"
  shows "id_map_ok (del_key i d) (ids - {i})" and "map_of (del_key i d) k \<noteq> Some i"
    and "map_of (del_key i d) k = (if map_of d k = Some i then None else map_of d k)"
proof -
  have "dict_ok d" using ok by (simp add: id_map_ok_def)
  have *: "map_of (del_key i d) k = (if map_of d k = Some i then None else map_of d k)" for k
  proof (cases "key_of_endpoint i d")
    case None
    with key_of_endpoint_None [OF None \<open>dict_ok d\<close>] show ?thesis
      by (simp add: del_key_def truthy_id_def)
  next
    case (Some k')
    from key_of_endpoint_Some [OF Some \<open>dict_ok d\<close>] have k': "map_of d k' = Some i" .
    then have "k' \<noteq> 0" and other: "k \<noteq> k' \<Longrightarrow> map_of d k \<noteq> Some i"
      using ok unfolding id_map_ok_def by blast+
    with Some have del: "del_key i d = dict_del k' d" by (simp add: del_key_def truthy_id_def)
    show ?thesis
      by (cases "k = k'") (use k' other in \<open>simp_all add: del dict_simps\<close>)
  qed
  show "map_of (del_key i d) k = (if map_of d k = Some i then None else map_of d k)" by (rule *)
  show "map_of (del_key i d) k \<noteq> Some i" by (simp add: *)
  have "dict_ok (del_key i d)" using \<open>dict_ok d\<close> by (simp add: del_key_def Let_def)
  moreover have "\<forall>k v. map_of (del_key i d) k = Some v \<longrightarrow> k \<noteq> 0 \<and> v \<in> ids - {i}"
    using ok by (auto simp: * id_map_ok_def)
  moreover have "k1 = k2" if "map_of (del_key i d) k1 = Some v" "map_of (del_key i d) k2 = Some v" for k1 k2 v
  proof -
    have "map_of d k1 = Some v" "map_of d k2 = Some v"
      using that by (simp_all add: * split: if_splits)
    with ok show ?thesis unfolding id_map_ok_def by blast
  qed
  ultimately show "id_map_ok (del_key i d) (ids - {i})" unfolding id_map_ok_def by blast
qed

lemma add_key_ok:
  assumes ok: "id_map_ok d ids" and new: "\<And>k. map_of d k \<noteq> Some i" and free: "key_available k i d"
  shows "id_map_ok (add_key k i d) (insert i ids)"
proof (cases "truthy_id k")
  case False
  with ok show ?thesis by (auto simp: add_key_def id_map_ok_def)
next
  case True
  then obtain x where x: "k = Some x" "x \<noteq> 0" by (auto simp: truthy_id_def)
  have "map_of (add_key k i d) y = (if y = x then Some i else map_of d y)" for y
    using True x by (simp add: add_key_def dict_simps)
  moreover have "dict_ok (add_key k i d)" using ok by (simp add: add_key_def id_map_ok_def)
  ultimately show ?thesis
    using ok x new unfolding id_map_ok_def by (simp split: if_splits)
qed

lemma key_available_del: "key_available k i d \<Longrightarrow> id_map_ok d ids \<Longrightarrow> key_available k i (del_key i d)"
  by (auto simp: key_available_def del_key_ok split: option.splits)

lemma create_endpoint_run:
  "create_endpoint c s = (Inr (), s
     \<lparr>ps_endpoints := dict_set (ec_id c) (new_endpoint c) (ps_endpoints s),
      ps_sec_id_to_endpoint_id := add_key (ec_security_id c) (ec_id c) (ps_sec_id_to_endpoint_id s),
      ps_ws_channel_id_to_endpoint_id := add_key (ec_ws_channel_id c) (ec_id c) (ps_ws_channel_id_to_endpoint_id s),
      ps_service_id_to_endpoint_id := add_key (ec_service_id c) (ec_id c) (ps_service_id_to_endpoint_id s)\<rparr>)"
  by (cases s) (simp add: create_endpoint_def add_key_def py_run)

lemma delete_key_of_endpoint_run:
  assumes "dict_ok (sel s)"
    and "\<And>t. upd (dict_del k) t = upd (\<lambda>_. dict_del k (sel t)) t"
  shows "delete_key_of_endpoint sel upd i s = (Inr (), if truthy_id (key_of_endpoint i (sel s))
     then upd (dict_del (the (key_of_endpoint i (sel s)))) s else s)"
proof (cases "key_of_endpoint i (sel s)")
  case None
  then show ?thesis by (simp add: delete_key_of_endpoint_def truthy_id_def py_run)
next
  case (Some x)
  from key_of_endpoint_Some [OF this assms(1)] Some show ?thesis
    by (simp add: delete_key_of_endpoint_def py_run)
qed

lemma delete_endpoint_run:
  assumes "dict_ok (ps_sec_id_to_endpoint_id s)" "dict_ok (ps_ws_channel_id_to_endpoint_id s)"
    "dict_ok (ps_service_id_to_endpoint_id s)" "dict_has i (ps_endpoints s)"
  shows "delete_endpoint i s = (Inr (), s
     \<lparr>ps_endpoints := dict_del i (ps_endpoints s),
      ps_sec_id_to_endpoint_id := del_key i (ps_sec_id_to_endpoint_id s),
      ps_ws_channel_id_to_endpoint_id := del_key i (ps_ws_channel_id_to_endpoint_id s),
      ps_service_id_to_endpoint_id := del_key i (ps_service_id_to_endpoint_id s)\<rparr>)"
proof -
  obtain e where e: "map_of (ps_endpoints s) i = Some e" using assms(4) by auto
  let ?s1 = "ps_endpoints_update (dict_del i) s"
  let ?s2 = "?s1\<lparr>ps_sec_id_to_endpoint_id := del_key i (ps_sec_id_to_endpoint_id s)\<rparr>"
  let ?s3 = "?s2\<lparr>ps_ws_channel_id_to_endpoint_id := del_key i (ps_ws_channel_id_to_endpoint_id s)\<rparr>"
  have 1: "delete_key_of_endpoint ps_sec_id_to_endpoint_id ps_sec_id_to_endpoint_id_update i ?s1 = (Inr (), ?s2)"
    using assms(1) by (subst delete_key_of_endpoint_run) (simp_all add: del_key_def Let_def)
  have 2: "delete_key_of_endpoint ps_ws_channel_id_to_endpoint_id ps_ws_channel_id_to_endpoint_id_update i ?s2 =
      (Inr (), ?s3)"
    using assms(2) by (subst delete_key_of_endpoint_run) (simp_all add: del_key_def Let_def)
  have 3: "delete_key_of_endpoint ps_service_id_to_endpoint_id ps_service_id_to_endpoint_id_update i ?s3 =
      (Inr (), ?s3\<lparr>ps_service_id_to_endpoint_id := del_key i (ps_service_id_to_endpoint_id s)\<rparr>)"
    using assms(3) by (subst delete_key_of_endpoint_run) (simp_all add: del_key_def Let_def)
  show ?thesis
    using e by (simp add: delete_endpoint_def py_seq_def item_del_run 1 2 3)
qed

section \<open>Consistency of the registry\<close>

definition endpoint_ids :: "pubsub \<Rightarrow> int set" where
  "endpoint_ids s = fst ` set (ps_endpoints s)"

definition endpoints_ok :: "pubsub \<Rightarrow> bool" where
  "endpoints_ok s \<longleftrightarrow> (\<forall>i e. map_of (ps_endpoints s) i = Some e \<longrightarrow> ep_id e = i) \<and>
     id_map_ok (ps_sec_id_to_endpoint_id s) (endpoint_ids s) \<and>
     id_map_ok (ps_ws_channel_id_to_endpoint_id s) (endpoint_ids s) \<and>
     id_map_ok (ps_service_id_to_endpoint_id s) (endpoint_ids s)"

definition topics_ok :: "pubsub \<Rightarrow> bool" where
  "topics_ok s \<longleftrightarrow> (\<forall>i t. map_of (ps_topics s) i = Some t \<longrightarrow> tp_id t = i) \<and>
     (\<forall>n i. map_of (ps_topic_name_to_id s) n = Some i \<longleftrightarrow> (\<exists>t. map_of (ps_topics s) i = Some t \<and> tp_name t = n))"

definition servers_ok :: "pubsub \<Rightarrow> bool" where
  "servers_ok s \<longleftrightarrow> (\<forall>k i. map_of (ps_sub_key_servers s) k = Some i \<longrightarrow> sks_sub_key i = k) \<and>
     dict_ok (ps_sub_key_servers s) \<and>
     (\<forall>k b. map_of (ps_subscriptions_by_sub_key s) k = Some b \<longrightarrow> sb_sub_key b = k)"

definition pubsub_inv :: "pubsub \<Rightarrow> bool" where
  "pubsub_inv s \<longleftrightarrow> endpoints_ok s \<and> topics_ok s \<and> servers_ok s"

lemma endpoints_ok_simps [simp]:
  "endpoints_ok (ps_topics_update a1 s) = endpoints_ok s" "endpoints_ok (ps_topic_name_to_id_update a2 s) = endpoints_ok s"
  "endpoints_ok (ps_sub_key_servers_update a3 s) = endpoints_ok s"
  "endpoints_ok (ps_subscriptions_by_topic_update a4 s) = endpoints_ok s"
  "endpoints_ok (ps_subscriptions_by_sub_key_update a5 s) = endpoints_ok s"
  "endpoints_ok (ps_tools_update a6 s) = endpoints_ok s" "endpoints_ok (ps_db_update a7 s) = endpoints_ok s"
  "endpoints_ok (ps_ticks_update a8 s) = endpoints_ok s" "endpoints_ok (ps_in_ram_backlog_update a9 s) = endpoints_ok s"
  "endpoints_ok (ps_startup_pid_update b1 s) = endpoints_ok s" "endpoints_ok (ps_published_update b2 s) = endpoints_ok s"
  "endpoints_ok (ps_pubsub_tool_by_sub_key_update b3 s) = endpoints_ok s"
  by (simp_all add: endpoints_ok_def endpoint_ids_def)

lemma topics_ok_simps [simp]:
  "topics_ok (ps_endpoints_update a1 s) = topics_ok s" "topics_ok (ps_sec_id_to_endpoint_id_update a2 s) = topics_ok s"
  "topics_ok (ps_sub_key_servers_update a3 s) = topics_ok s"
  "topics_ok (ps_subscriptions_by_topic_update a4 s) = topics_ok s"
  "topics_ok (ps_subscriptions_by_sub_key_update a5 s) = topics_ok s"
  "topics_ok (ps_tools_update a6 s) = topics_ok s" "topics_ok (ps_db_update a7 s) = topics_ok s"
  "topics_ok (ps_ticks_update a8 s) = topics_ok s" "topics_ok (ps_in_ram_backlog_update a9 s) = topics_ok s"
  "topics_ok (ps_startup_pid_update b1 s) = topics_ok s" "topics_ok (ps_published_update b2 s) = topics_ok s"
  "topics_ok (ps_pubsub_tool_by_sub_key_update b3 s) = topics_ok s"
  "topics_ok (ps_ws_channel_id_to_endpoint_id_update b4 s) = topics_ok s"
  "topics_ok (ps_service_id_to_endpoint_id_update b5 s) = topics_ok s"
  by (simp_all add: topics_ok_def)

lemma servers_ok_simps [simp]:
  "servers_ok (ps_endpoints_update a1 s) = servers_ok s" "servers_ok (ps_sec_id_to_endpoint_id_update a2 s) = servers_ok s"
  "servers_ok (ps_topics_update a3 s) = servers_ok s" "servers_ok (ps_topic_name_to_id_update a5 s) = servers_ok s"
  "servers_ok (ps_subscriptions_by_topic_update a4 s) = servers_ok s"
  "servers_ok (ps_tools_update a6 s) = servers_ok s" "servers_ok (ps_db_update a7 s) = servers_ok s"
  "servers_ok (ps_ticks_update a8 s) = servers_ok s" "servers_ok (ps_in_ram_backlog_update a9 s) = servers_ok s"
  "servers_ok (ps_startup_pid_update b1 s) = servers_ok s" "servers_ok (ps_published_update b2 s) = servers_ok s"
  "servers_ok (ps_pubsub_tool_by_sub_key_update b3 s) = servers_ok s"
  "servers_ok (ps_ws_channel_id_to_endpoint_id_update b4 s) = servers_ok s"
  "servers_ok (ps_service_id_to_endpoint_id_update b5 s) = servers_ok s"
  by (simp_all add: servers_ok_def)

lemma endpoints_ok_create:
  assumes ok: "endpoints_ok s"
    and new: "\<And>k. map_of (ps_sec_id_to_endpoint_id s) k \<noteq> Some (ec_id c)"
      "\<And>k. map_of (ps_ws_channel_id_to_endpoint_id s) k \<noteq> Some (ec_id c)"
      "\<And>k. map_of (ps_service_id_to_endpoint_id s) k \<noteq> Some (ec_id c)"
    and free: "key_available (ec_security_id c) (ec_id c) (ps_sec_id_to_endpoint_id s)"
      "key_available (ec_ws_channel_id c) (ec_id c) (ps_ws_channel_id_to_endpoint_id s)"
      "key_available (ec_service_id c) (ec_id c) (ps_service_id_to_endpoint_id s)"
  shows "endpoints_ok (snd (create_endpoint c s))"
proof -
  have "ep_id (new_endpoint c) = ec_id c" by (simp add: new_endpoint_def split_def Let_def)
  then show ?thesis
    using ok add_key_ok [OF _ new(1) free(1)] add_key_ok [OF _ new(2) free(2)] add_key_ok [OF _ new(3) free(3)]
    by (simp add: create_endpoint_run endpoints_ok_def endpoint_ids_def dict_simps)
qed

lemma delete_endpoint_cases:
  assumes "endpoints_ok s"
  obtains "delete_endpoint i s = (Inl KeyError, s)"
  | "delete_endpoint i s = (Inr (), s
     \<lparr>ps_endpoints := dict_del i (ps_endpoints s),
      ps_sec_id_to_endpoint_id := del_key i (ps_sec_id_to_endpoint_id s),
      ps_ws_channel_id_to_endpoint_id := del_key i (ps_ws_channel_id_to_endpoint_id s),
      ps_service_id_to_endpoint_id := del_key i (ps_service_id_to_endpoint_id s)\<rparr>)"
proof (cases "dict_has i (ps_endpoints s)")
  case False
  then have "delete_endpoint i s = (Inl KeyError, s)"
    by (simp add: delete_endpoint_def py_seq_def item_del_run)
  then show ?thesis by (rule that(1))
next
  case True
  have "dict_ok (ps_sec_id_to_endpoint_id s)" "dict_ok (ps_ws_channel_id_to_endpoint_id s)"
    "dict_ok (ps_service_id_to_endpoint_id s)" using assms by (simp_all add: endpoints_ok_def id_map_ok_def)
  from delete_endpoint_run [OF this True] show ?thesis by (rule that(2))
qed

lemma pubsub_inv_delete:
  assumes "pubsub_inv s" shows "pubsub_inv (snd (delete_endpoint i s))"
proof -
  have ok: "endpoints_ok s" using assms by (simp add: pubsub_inv_def)
  then show ?thesis
  proof (cases rule: delete_endpoint_cases [of s i])
    case 1
    then show ?thesis using assms by simp
  next
    case 2
    have "endpoints_ok (snd (delete_endpoint i s))"
      using ok unfolding 2 by (simp add: endpoints_ok_def endpoint_ids_def del_key_ok(1) dict_simps)
    then show ?thesis using assms unfolding pubsub_inv_def 2 by simp
  qed
qed

text \<open>A configuration whose keys are free or its endpoint's own.\<close>

definition keys_available :: "endpoint_config \<Rightarrow> pubsub \<Rightarrow> bool" where
  "keys_available c s \<longleftrightarrow> key_available (ec_security_id c) (ec_id c) (ps_sec_id_to_endpoint_id s) \<and>
     key_available (ec_ws_channel_id c) (ec_id c) (ps_ws_channel_id_to_endpoint_id s) \<and>
     key_available (ec_service_id c) (ec_id c) (ps_service_id_to_endpoint_id s)"

lemma pubsub_inv_create:
  assumes inv: "pubsub_inv s" and free: "keys_available c s"
    and new: "\<And>k. map_of (ps_sec_id_to_endpoint_id s) k \<noteq> Some (ec_id c)"
      "\<And>k. map_of (ps_ws_channel_id_to_endpoint_id s) k \<noteq> Some (ec_id c)"
      "\<And>k. map_of (ps_service_id_to_endpoint_id s) k \<noteq> Some (ec_id c)"
  shows "pubsub_inv (snd (create_endpoint c s))"
proof -
  have "endpoints_ok (snd (create_endpoint c s))"
    using inv free by (intro endpoints_ok_create new) (simp_all add: pubsub_inv_def keys_available_def)
  then show ?thesis using inv unfolding pubsub_inv_def create_endpoint_run by simp
qed

lemma pubsub_inv_create_new:
  assumes inv: "pubsub_inv s" and "keys_available c s" "ec_id c \<notin> endpoint_ids s"
  shows "pubsub_inv (snd (create_endpoint c s))"
proof (rule pubsub_inv_create [OF assms(1,2)])
  fix k
  have "endpoints_ok s" using inv by (simp add: pubsub_inv_def)
  with assms(3) show "map_of (ps_sec_id_to_endpoint_id s) k \<noteq> Some (ec_id c)"
    "map_of (ps_ws_channel_id_to_endpoint_id s) k \<noteq> Some (ec_id c)"
    "map_of (ps_service_id_to_endpoint_id s) k \<noteq> Some (ec_id c)"
    unfolding endpoints_ok_def id_map_ok_def by blast+
qed

lemma pubsub_inv_edit_endpoint:
  assumes inv: "pubsub_inv s" and free: "keys_available c s"
  shows "pubsub_inv (snd (edit_endpoint c s))"
proof -
  have ok: "endpoints_ok s" using inv by (simp add: pubsub_inv_def)
  then show ?thesis
  proof (cases rule: delete_endpoint_cases [of s "ec_id c"])
    case 1
    then show ?thesis using inv by (simp add: edit_endpoint_def py_seq_def)
  next
    case 2
    let ?t = "snd (delete_endpoint (ec_id c) s)"
    have maps: "id_map_ok (ps_sec_id_to_endpoint_id s) (endpoint_ids s)"
      "id_map_ok (ps_ws_channel_id_to_endpoint_id s) (endpoint_ids s)"
      "id_map_ok (ps_service_id_to_endpoint_id s) (endpoint_ids s)" using ok by (simp_all add: endpoints_ok_def)
    have "keys_available c ?t"
      using free maps unfolding keys_available_def 2 by (simp add: key_available_del)
    then have "pubsub_inv (snd (create_endpoint c ?t))"
      using maps unfolding 2
      by (intro pubsub_inv_create) (use pubsub_inv_delete [OF inv, of "ec_id c"] in \<open>simp_all add: 2 del_key_ok(2)\<close>)
    then show ?thesis using 2 by (simp add: edit_endpoint_def py_seq_def)
  qed
qed

lemma create_topic_cases:
  obtains e where "create_topic c s = (Inl e, s)"
  | p d where "create_topic c s = (Inr (), ps_topic_name_to_id_update (dict_set (tc_name c) (tc_id c))
      (ps_topics_update (dict_set (tc_id c) (new_topic c p d)) s))"
proof -
  have "(\<exists>e. create_topic c s = (Inl e, s)) \<or>
      (\<exists>p d. create_topic c s = (Inr (), ps_topic_name_to_id_update (dict_set (tc_name c) (tc_id c))
        (ps_topics_update (dict_set (tc_id c) (new_topic c p d)) s)))"
    by (auto simp: create_topic_def get_hook_service_invoker_def py_run split: option.splits)
  with that show ?thesis by blast
qed

lemma topics_ok_name:
  "topics_ok s \<Longrightarrow> map_of (ps_topics s) i = Some t \<Longrightarrow> map_of (ps_topic_name_to_id s) (tp_name t) = Some i"
  unfolding topics_ok_def by blast

lemma topics_ok_create:
  assumes "topics_ok s" "map_of (ps_topics s) (tc_id c) = None" "map_of (ps_topic_name_to_id s) (tc_name c) = None"
  shows "topics_ok (snd (create_topic c s))"
proof (cases rule: create_topic_cases [of c s])
  case (1 e)
  with assms show ?thesis by simp
next
  case (2 p d)
  have "tp_name t \<noteq> tc_name c" if "map_of (ps_topics s) i = Some t" for i t
    using topics_ok_name [OF assms(1) that] assms(3) by auto
  moreover have "tp_id (new_topic c p d) = tc_id c" "tp_name (new_topic c p d) = tc_name c"
    by (simp_all add: new_topic_def)
  ultimately show ?thesis
    using assms(1,2) unfolding 2 topics_ok_def by (auto simp: dict_simps)
qed

lemma pubsub_inv_create_topic:
  assumes "pubsub_inv s" "map_of (ps_topics s) (tc_id c) = None" "map_of (ps_topic_name_to_id s) (tc_name c) = None"
  shows "pubsub_inv (snd (create_topic c s))"
proof -
  have "topics_ok (snd (create_topic c s))" using assms by (simp add: topics_ok_create pubsub_inv_def)
  moreover have "endpoints_ok (snd (create_topic c s)) \<and> servers_ok (snd (create_topic c s))"
    using assms(1) by (cases rule: create_topic_cases [of c s]) (simp_all add: pubsub_inv_def)
  ultimately show ?thesis by (simp add: pubsub_inv_def)
qed

lemma delete_topic_named_run:
  assumes "map_of (ps_topic_name_to_id s) n = Some i" "map_of (ps_topics s) i = Some t"
  shows "delete_topic_named i n s = (Inr (), s\<lparr>ps_topic_name_to_id := dict_del n (ps_topic_name_to_id s),
     ps_subscriptions_by_topic := dict_del n (ps_subscriptions_by_topic s), ps_topics := dict_del i (ps_topics s)\<rparr>)"
  using assms by (simp add: delete_topic_named_def py_seq_def item_del_run py_modify_def)

lemma topics_ok_delete:
  assumes "topics_ok s" "map_of (ps_topic_name_to_id s) n = Some i"
  shows "topics_ok (snd (delete_topic_named i n s))"
proof -
  obtain t where t: "map_of (ps_topics s) i = Some t" "tp_name t = n"
    using assms unfolding topics_ok_def by blast
  have "(n' = n) = (i' = i)" if "map_of (ps_topics s) i' = Some t'" "tp_name t' = n'" for n' i' t'
    using topics_ok_name [OF assms(1) that(1)] topics_ok_name [OF assms(1) t(1)] t that by auto
  then show ?thesis
    using assms(1) t(2) unfolding delete_topic_named_run [OF assms(2) t(1)] topics_ok_def
    by (auto simp: dict_simps)
qed

lemma pubsub_inv_delete_topic_named:
  assumes "pubsub_inv s" "map_of (ps_topic_name_to_id s) n = Some i"
  shows "pubsub_inv (snd (delete_topic_named i n s))"
proof -
  have "topics_ok s" using assms(1) by (simp add: pubsub_inv_def)
  then obtain t where t: "map_of (ps_topics s) i = Some t"
    using assms(2) unfolding topics_ok_def by blast
  have "topics_ok (snd (delete_topic_named i n s))" using \<open>topics_ok s\<close> assms(2) by (rule topics_ok_delete)
  then show ?thesis
    using assms(1) unfolding pubsub_inv_def delete_topic_named_run [OF assms(2) t] by simp
qed

lemma pubsub_inv_other_fields [simp]:
  "pubsub_inv (ps_subscriptions_by_topic_update a4 s) = pubsub_inv s"
  "pubsub_inv (ps_tools_update a6 s) = pubsub_inv s" "pubsub_inv (ps_db_update a7 s) = pubsub_inv s"
  "pubsub_inv (ps_ticks_update a8 s) = pubsub_inv s" "pubsub_inv (ps_in_ram_backlog_update a9 s) = pubsub_inv s"
  "pubsub_inv (ps_startup_pid_update b1 s) = pubsub_inv s" "pubsub_inv (ps_published_update b2 s) = pubsub_inv s"
  "pubsub_inv (ps_pubsub_tool_by_sub_key_update b3 s) = pubsub_inv s"
  by (simp_all add: pubsub_inv_def)

lemma pubsub_inv_delete_topic:
  assumes "pubsub_inv s" shows "pubsub_inv (snd (delete_topic i s))"
proof (cases "map_of (ps_topics s) i")
  case None
  with assms show ?thesis by (simp add: delete_topic_def py_bind_def item_get_run)
next
  case (Some t)
  have "map_of (ps_topic_name_to_id s) (tp_name t) = Some i"
    using topics_ok_name Some assms by (simp add: pubsub_inv_def)
  with pubsub_inv_delete_topic_named [OF assms this] Some show ?thesis
    by (simp add: delete_topic_def py_bind_def item_get_run)
qed

lemma pubsub_inv_edit_topic:
  assumes inv: "pubsub_inv s" and known: "map_of (ps_topic_name_to_id s) n = Some (tc_id c)"
    and free: "map_of (ps_topic_name_to_id s) (tc_name c) = None \<or> tc_name c = n"
  shows "pubsub_inv (snd (edit_topic n c s))"
proof -
  let ?s = "ps_subscriptions_by_topic_update (dict_del n) s"
  have "topics_ok s" using inv by (simp add: pubsub_inv_def)
  then obtain t where t: "map_of (ps_topics s) (tc_id c) = Some t"
    using known unfolding topics_ok_def by blast
  have "map_of (ps_topic_name_to_id ?s) n = Some (tc_id c)" "map_of (ps_topics ?s) (tc_id c) = Some t"
    using known t by simp_all
  note del = delete_topic_named_run [OF this]
  let ?t = "snd (delete_topic_named (tc_id c) n ?s)"
  have "pubsub_inv ?t" using inv known by (intro pubsub_inv_delete_topic_named) simp_all
  moreover have "map_of (ps_topics ?t) (tc_id c) = None" "map_of (ps_topic_name_to_id ?t) (tc_name c) = None"
    using free unfolding del by (auto simp: dict_simps)
  ultimately have "pubsub_inv (snd (create_topic c ?t))" by (rule pubsub_inv_create_topic)
  moreover have "delete_topic_named (tc_id c) n ?s = (Inr (), ?t)" by (simp add: del)
  ultimately show ?thesis
    by (auto simp: edit_topic_def py_bind_def py_seq_def py_get_def py_modify_def item_set_run
        split: prod.splits sum.splits)
qed

lemma keeps_with_tool: "keeps pubsub_inv (with_tool i m)"
  by (simp add: keeps_def with_tool_def split: prod.splits)

lemma keeps_with_backlog: "keeps pubsub_inv (with_backlog m)"
  by (simp add: keeps_def with_backlog_def split: prod.splits)

lemma keeps_set_sub_key_server: "keeps pubsub_inv (set_sub_key_server i)"
  by (auto simp: keeps_def set_sub_key_server_def item_set_run pubsub_inv_def servers_ok_def dict_simps)

lemma pubsub_inv_forget_server:
  assumes "pubsub_inv s" shows "pubsub_inv (ps_sub_key_servers_update (dict_del k) s)"
proof -
  have "\<forall>k' i. map_of (dict_del k (ps_sub_key_servers s)) k' = Some i \<longrightarrow> sks_sub_key i = k'"
    using assms by (simp add: pubsub_inv_def servers_ok_def map_of_dict_del del: map_of_eq_Some_iff)
  then show ?thesis using assms by (simp add: pubsub_inv_def servers_ok_def)
qed

lemma keeps_delete_sub_key_server: "keeps pubsub_inv (delete_sub_key_server k)"
  unfolding delete_sub_key_server_def by (intro keeps_intros pubsub_inv_forget_server)

lemma keeps_forget_server: "keeps pubsub_inv (py_modify (ps_sub_key_servers_update (dict_del k)))"
  by (intro keeps_intros pubsub_inv_forget_server)

lemma keeps_add_subscription:
  "keeps pubsub_inv (item_set ps_subscriptions_by_sub_key_update (sb_sub_key b) b)"
  by (auto simp: keeps_def item_set_run pubsub_inv_def servers_ok_def dict_simps)

lemmas keeps_pubsub_parts = keeps_with_tool keeps_with_backlog keeps_set_sub_key_server
  keeps_delete_sub_key_server keeps_forget_server keeps_add_subscription

lemma keeps_item_set_other:
  "keeps pubsub_inv (item_set ps_pubsub_tool_by_sub_key_update k i)"
  "keeps pubsub_inv (item_set ps_subscriptions_by_topic_update n subs)"
  "keeps pubsub_inv (item_del ps_pubsub_tool_by_sub_key ps_pubsub_tool_by_sub_key_update k)"
  by (intro keeps_intros; simp)+

lemma keeps_create_delivery_task: "keeps pubsub_inv (create_delivery_task k t)"
  unfolding create_delivery_task_def new_pubsub_tool_def add_sub_key_def set_pubsub_tool_for_sub_key_def Let_def
  by (intro keeps_intros keeps_pubsub_parts keeps_item_set_other) simp_all

lemma keeps_create_subscription: "keeps pubsub_inv (create_subscription b)"
  unfolding create_subscription_def get_pubsub_pid_def split_def
  by (intro keeps_intros keeps_pubsub_parts keeps_create_delivery_task) simp_all

lemma keeps_stop_task_here: "keeps pubsub_inv (stop_task_here k)"
  unfolding stop_task_here_def split_def
  by (intro keeps_intros keeps_pubsub_parts keeps_item_set_other)

lemma keeps_pubsub_unsubscribe: "keeps pubsub_inv (pubsub_unsubscribe d)"
  unfolding pubsub_unsubscribe_def split_def
  by (intro keeps_intros keeps_pubsub_parts keeps_item_set_other keeps_stop_task_here)

lemma keeps_remove_ws_sub_key_server: "keeps pubsub_inv (remove_ws_sub_key_server ks)"
  unfolding remove_ws_sub_key_server_def by (intro keeps_intros keeps_pubsub_parts)

lemma keeps_add_missing_server: "keeps pubsub_inv (add_missing_server_for_sub_key k)"
  unfolding add_missing_server_for_sub_key_def get_server_pid_for_sub_key_def
  by (intro keeps_intros keeps_pubsub_parts) (auto intro!: keeps_intros keeps_pubsub_parts split: sum.split option.split)

lemma keeps_task_servers: "keeps pubsub_inv (get_task_servers_by_sub_keys ks)"
proof -
  have "keeps pubsub_inv (task_servers_loop ks found not_found)" for found not_found
    by (induction ks arbitrary: found not_found) (auto intro!: keeps_intros keeps_add_missing_server)
  then show ?thesis by (simp add: get_task_servers_by_sub_keys_def)
qed

lemma keeps_migrate: "keeps pubsub_inv (on_delivery_server_change ok created i k)"
  unfolding on_delivery_server_change_def migrate_delivery_server_def get_sub_key_server_def
  by (intro keeps_intros keeps_pubsub_parts)

section \<open>Runs of the registry\<close>

datatype pubsub_event =
    CreateEndpoint endpoint_config | EditEndpoint endpoint_config | DeleteEndpoint int
  | CreateTopic topic_config | EditTopic string topic_config | DeleteTopic int
  | CreateSubscription subscription | SubKeyServerSet sub_key_server | WsSubKeyServerRemove "string list"
  | TaskServers "string list" | PubsubUnsubscribe "(string, string list) dict"
  | StoreInRam string int string "string list" "ram_msg list"
  | NotifyTasks bool "string list" "pub_msg list" | DeliveryServerChange bool "exn option" int string

definition pubsub_step :: "sorted_list_ops \<Rightarrow> pubsub_event \<Rightarrow> (pubsub, unit) py" where
  "pubsub_step ops e = (case e of
     CreateEndpoint c \<Rightarrow> create_endpoint c
   | EditEndpoint c \<Rightarrow> edit_endpoint c
   | DeleteEndpoint i \<Rightarrow> delete_endpoint i
   | CreateTopic c \<Rightarrow> create_topic c
   | EditTopic n c \<Rightarrow> edit_topic n c
   | DeleteTopic i \<Rightarrow> delete_topic i
   | CreateSubscription b \<Rightarrow> create_subscription b
   | SubKeyServerSet i \<Rightarrow> on_sub_key_server_set i
   | WsSubKeyServerRemove ks \<Rightarrow> remove_ws_sub_key_server ks
   | TaskServers ks \<Rightarrow> py_bind (get_task_servers_by_sub_keys ks) (\<lambda>_. py_ret ())
   | PubsubUnsubscribe d \<Rightarrow> pubsub_unsubscribe d
   | StoreInRam cid i n ks msgs \<Rightarrow> store_in_ram cid i n ks msgs
   | NotifyTasks gd ks msgs \<Rightarrow> notify_pub_sub_message ops gd ks msgs
   | DeliveryServerChange ok created i k \<Rightarrow> on_delivery_server_change ok created i k)"

text \<open>What the database guarantees about broker messages: ids and names are unique, and no two
  endpoints share a security definition, a WebSocket channel or a service.\<close>

definition pubsub_event_ok :: "pubsub_event \<Rightarrow> pubsub \<Rightarrow> bool" where
  "pubsub_event_ok e s = (case e of
     CreateEndpoint c \<Rightarrow> ec_id c \<notin> endpoint_ids s \<and> keys_available c s
   | EditEndpoint c \<Rightarrow> keys_available c s
   | CreateTopic c \<Rightarrow> map_of (ps_topics s) (tc_id c) = None \<and> map_of (ps_topic_name_to_id s) (tc_name c) = None
   | EditTopic n c \<Rightarrow> map_of (ps_topic_name_to_id s) n = Some (tc_id c) \<and>
       (map_of (ps_topic_name_to_id s) (tc_name c) = None \<or> tc_name c = n)
   | _ \<Rightarrow> True)"

lemma pubsub_step_inv:
  assumes inv: "pubsub_inv s" and ok: "pubsub_event_ok e s"
  shows "pubsub_inv (snd (pubsub_step ops e s))"
proof (cases e)
  case (SubKeyServerSet i)
  have "keeps pubsub_inv (on_sub_key_server_set i)"
    unfolding on_sub_key_server_set_def by (intro keeps_intros keeps_pubsub_parts)
  with inv SubKeyServerSet show ?thesis by (simp add: pubsub_step_def keeps_def)
next
  case (StoreInRam cid i n ks msgs)
  have "keeps pubsub_inv (store_in_ram cid i n ks msgs)"
    unfolding store_in_ram_def by (intro keeps_intros keeps_pubsub_parts)
  with inv StoreInRam show ?thesis by (simp add: pubsub_step_def keeps_def)
next
  case (NotifyTasks gd ks msgs)
  have "keeps pubsub_inv (notify_pub_sub_message ops gd ks msgs)"
    unfolding notify_pub_sub_message_def by (intro keeps_intros keeps_pubsub_parts)
  with inv NotifyTasks show ?thesis by (simp add: pubsub_step_def keeps_def)
next
  case (TaskServers ks)
  have "keeps pubsub_inv (py_bind (get_task_servers_by_sub_keys ks) (\<lambda>_. py_ret ()))"
    by (intro keeps_intros keeps_task_servers)
  with inv TaskServers show ?thesis by (simp add: pubsub_step_def keeps_def)
qed (use assms in \<open>simp_all add: pubsub_step_def pubsub_event_ok_def pubsub_inv_create_new pubsub_inv_edit_endpoint
     pubsub_inv_delete pubsub_inv_create_topic pubsub_inv_edit_topic pubsub_inv_delete_topic
     keepsD [OF keeps_create_subscription] keepsD [OF keeps_remove_ws_sub_key_server]
     keepsD [OF keeps_pubsub_unsubscribe] keepsD [OF keeps_migrate]\<close>)

interpretation registry: py_object "pubsub_step ops" pubsub_event_ok pubsub_inv for ops
  by unfold_locales (rule pubsub_step_inv)

section \<open>Properties\<close>

text \<open>Once an endpoint is created, whoever presents its security definition may publish to
  exactly the topics that a \<open>pub=\<close> line of its patterns matches, and subscribe to those a \<open>sub=\<close>
  line matches; the answer is the first such line, in the order of the configuration.\<close>

theorem endpoint_authorises_by_its_lines:
  assumes "truthy_id (ec_security_id c)"
  shows "fst (is_allowed_pub_topic globre name (ec_security_id c) ws (snd (create_endpoint c s))) =
      Inr (find (\<lambda>line. globre (drop 4 line) name) (pattern_lines PubTopicPatterns c)) \<and>
    fst (is_allowed_sub_topic globre name (ec_security_id c) ws (snd (create_endpoint c s))) =
      Inr (find (\<lambda>line. globre (drop 4 line) name) (pattern_lines SubTopicPatterns c))"
proof -
  have none: "\<not> truthy_id None" by (simp add: truthy_id_def)
  have "map_of (ps_endpoints (snd (create_endpoint c s))) (ec_id c) = Some (new_endpoint c)"
    "map_of (ps_sec_id_to_endpoint_id (snd (create_endpoint c s))) (the (ec_security_id c)) = Some (ec_id c)"
    using assms by (simp_all add: create_endpoint_run add_key_def dict_simps)
  with assms none show ?thesis
    by (simp add: is_allowed_pub_topic_def is_allowed_sub_topic_def is_allowed_def py_bind_def py_ret_def
        item_get_run patterns_of_new_endpoint find_map_fst)
qed

definition sample_endpoint :: endpoint_config where
  "sample_endpoint = \<lparr>ec_id = 3, ec_name = ''crm'', ec_role = ''pub-sub'', ec_is_active = True,
     ec_is_internal = False, ec_topic_patterns = Some (''sub=/b'' @ [CHR 0x0A] @ '' pub=/a''), ec_security_id = Some 7,
     ec_ws_channel_id = None, ec_service_id = None\<rparr>"

definition sample_server :: worker_server where
  "sample_server = \<lparr>sv_id = 1, sv_name = ''server1'', sv_pid = 100, sv_cluster_id = 1, sv_is_first_worker = True\<rparr>"

definition sample_db :: sql_db where
  "sample_db = \<lparr>db_topics = [], db_messages = [], db_queue = [], db_subs = [], db_servers = [],
     db_endpoints = [], db_endpoint_topics = [], db_ws_sub_keys = []\<rparr>"

definition sample_pubsub :: pubsub where
  "sample_pubsub = init_pubsub sample_server sample_db int (\<lambda>_. None) (\<lambda>_. False) []
     (\<lambda>_ _. Inr None) (init_backlog id)"

theorem endpoint_authorises_by_its_lines_witness:
  "fst (is_allowed_pub_topic (=) ''/a'' (Some 7) None (snd (create_endpoint sample_endpoint sample_pubsub))) =
     Inr (Some ''pub=/a'')"
  using endpoint_authorises_by_its_lines [of sample_endpoint "(=)" "''/a''" None sample_pubsub]
  by (simp add: truthy_id_def sample_endpoint_def pattern_lines_def splitlines_def is_line_break_def strip_def
      is_space_def startswith_def)

lemma endpoint_of_sec_id:
  assumes ok: "endpoints_ok s" and known: "map_of (ps_sec_id_to_endpoint_id s) k = Some i"
  shows "(\<exists>e. map_of (ps_endpoints s) i = Some e \<and> ep_id e = i) \<and>
    (\<forall>k'. map_of (ps_sec_id_to_endpoint_id s) k' = Some i \<longrightarrow> k' = k) \<and> k \<noteq> 0"
proof -
  have ids: "id_map_ok (ps_sec_id_to_endpoint_id s) (endpoint_ids s)" using ok by (simp add: endpoints_ok_def)
  then have "i \<in> fst ` set (ps_endpoints s)"
    using known unfolding id_map_ok_def endpoint_ids_def by blast
  then have "map_of (ps_endpoints s) i \<noteq> None" by (simp add: map_of_None_iff)
  then obtain e where "map_of (ps_endpoints s) i = Some e" by blast
  moreover from this have "ep_id e = i" using ok unfolding endpoints_ok_def by blast
  ultimately show ?thesis using ids known unfolding id_map_ok_def by blast
qed

lemma topic_of_name:
  assumes ok: "topics_ok s" and known: "map_of (ps_topic_name_to_id s) n = Some i"
  shows "\<exists>t. get_topic_by_name n s = (Inr t, s) \<and> tp_name t = n \<and> tp_id t = i"
proof -
  obtain t where "map_of (ps_topics s) i = Some t" "tp_name t = n"
    using ok known unfolding topics_ok_def by blast
  moreover from this have "tp_id t = i" using ok unfolding topics_ok_def by blast
  ultimately show ?thesis
    using known by (simp add: get_topic_by_name_def get_topic_id_by_name_def py_bind_def item_get_run)
qed

lemma remove_ws_sub_key_server_run:
  "servers_ok s \<Longrightarrow> fst (remove_ws_sub_key_server ks s) = Inr ()"
  unfolding remove_ws_sub_key_server_def
proof (induction ks arbitrary: s)
  case Nil
  show ?case by (simp add: py_run)
next
  case (Cons k ks)
  let ?t = "ps_sub_key_servers_update (dict_del k) s"
  have others: "sks_sub_key i \<noteq> k" if i: "i \<in> set (dict_values (ps_sub_key_servers ?t))" for i
  proof -
    obtain k' where "(k', i) \<in> set (dict_del k (ps_sub_key_servers s))" using i by auto
    then have "(k', i) \<in> set (ps_sub_key_servers s)" "k' \<noteq> k"
      by (auto simp: AList.delete_eq)
    moreover have "dict_ok (ps_sub_key_servers s)" using Cons.prems by (simp add: servers_ok_def)
    ultimately have "map_of (ps_sub_key_servers s) k' = Some i" by (simp only: map_of_is_SomeI)
    then show ?thesis using Cons.prems \<open>k' \<noteq> k\<close> unfolding servers_ok_def by blast
  qed
  have "endpoints_ok x \<Longrightarrow> topics_ok x \<Longrightarrow> servers_ok x \<Longrightarrow> pubsub_inv x" for x by (simp add: pubsub_inv_def)
  have "\<forall>k' i. map_of (dict_del k (ps_sub_key_servers s)) k' = Some i \<longrightarrow> sks_sub_key i = k'"
    using Cons.prems by (simp add: servers_ok_def map_of_dict_del del: map_of_eq_Some_iff)
  then have "servers_ok ?t" using Cons.prems by (simp add: servers_ok_def)
  note IH = Cons.IH [OF this]
  have "\<not> (\<exists>i \<in> set (dict_values (ps_sub_key_servers ?t)). sks_sub_key i = k)" using others by blast
  then have "py_seq (py_modify (ps_sub_key_servers_update (dict_del k)))
      (py_bind (py_get (\<lambda>s. \<exists>i \<in> set (dict_values (ps_sub_key_servers s)). sks_sub_key i = k)) (\<lambda>left.
         py_when left (delete_sub_key_server k))) s = (Inr (), ?t)"
    by (simp add: py_seq_def py_bind_def py_get_def py_modify_def py_when_def py_ret_def)
  then show ?case using IH by (simp add: py_seq_def [of "_" "py_for _ _"])
qed

text \<open>In every run of the registry every known security definition leads to an endpoint that
  exists, and no other one leads to the same endpoint; asking whether it is allowed never raises;
  a known topic name leads to the topic of that name; and forgetting delivery servers of
  disconnected clients never raises.\<close>

theorem registry_stays_consistent:
  assumes "reach (pubsub_step ops) pubsub_event_ok
      (init_pubsub server db clock deliver fails hooks remote backlog) s"
  shows "(\<forall>k i. map_of (ps_sec_id_to_endpoint_id s) k = Some i \<longrightarrow>
      (\<exists>e. map_of (ps_endpoints s) i = Some e \<and> ep_id e = i) \<and>
      (\<forall>k'. map_of (ps_sec_id_to_endpoint_id s) k' = Some i \<longrightarrow> k' = k) \<and>
      (\<forall>target name. \<exists>r. is_allowed globre target name (Some k) ws None s = (Inr r, s))) \<and>
    (\<forall>n i. map_of (ps_topic_name_to_id s) n = Some i \<longrightarrow>
      (\<exists>t. get_topic_by_name n s = (Inr t, s) \<and> tp_name t = n \<and> tp_id t = i)) \<and>
    (\<forall>ks. fst (remove_ws_sub_key_server ks s) = Inr ())"
proof -
  have "pubsub_inv (init_pubsub server db clock deliver fails hooks remote backlog)"
    by (simp add: pubsub_inv_def endpoints_ok_def topics_ok_def servers_ok_def id_map_ok_def init_pubsub_def)
  with registry.reach_inv [OF assms] have inv: "endpoints_ok s" "topics_ok s" "servers_ok s"
    by (simp_all add: pubsub_inv_def)
  have "\<exists>r. is_allowed globre target name (Some k) ws None s = (Inr r, s)"
    if known: "map_of (ps_sec_id_to_endpoint_id s) k = Some i" for k i target name
  proof -
    obtain e where "map_of (ps_endpoints s) i = Some e" "k \<noteq> 0" using endpoint_of_sec_id [OF inv(1) known] by blast
    with known show ?thesis by (simp add: is_allowed_def truthy_id_def py_bind_def py_ret_def item_get_run)
  qed
  then show ?thesis
    using endpoint_of_sec_id [OF inv(1)] topic_of_name [OF inv(2)] remove_ws_sub_key_server_run [OF inv(3)]
    by blast
qed

definition no_ops :: sorted_list_ops where
  "no_ops = \<lparr>sl_add = (\<lambda>m xs. m # xs), sl_remove = (\<lambda>_ _. None), sl_next = (\<lambda>_ _. None)\<rparr>"

theorem registry_stays_consistent_witness:
  "\<exists>r. is_allowed (=) PubTopicPatterns ''/a'' (Some 7) None None
     (snd (pubsub_step no_ops (CreateEndpoint sample_endpoint) sample_pubsub)) =
     (Inr r, snd (pubsub_step no_ops (CreateEndpoint sample_endpoint) sample_pubsub))"
proof -
  have "pubsub_event_ok (CreateEndpoint sample_endpoint) sample_pubsub"
    by (simp add: pubsub_event_ok_def endpoint_ids_def keys_available_def key_available_def sample_pubsub_def
        init_pubsub_def sample_endpoint_def)
  with reach_start have "reach (pubsub_step no_ops) pubsub_event_ok sample_pubsub
      (snd (pubsub_step no_ops (CreateEndpoint sample_endpoint) sample_pubsub))" by (rule reach_step)
  from registry_stays_consistent [OF this [unfolded sample_pubsub_def], folded sample_pubsub_def]
  have "map_of (ps_sec_id_to_endpoint_id (snd (pubsub_step no_ops (CreateEndpoint sample_endpoint) sample_pubsub))) 7 =
      Some 3 \<longrightarrow> ?thesis" by blast
  then show ?thesis
    by (simp add: pubsub_step_def create_endpoint_run add_key_def truthy_id_def sample_endpoint_def dict_simps)
qed

end
