(* ===== verification/Pubsub_Servers.thy ===== *)
theory Pubsub_Servers
  imports Pubsub_Registry
begin

text \<open>
  Properties of the delivery servers of sub_keys in \<open>Pubsub_Core\<close>: how published sub_keys are
  split among them, who learns of a new delivery task, and what unsubscribing leaves behind.
\<close>

section \<open>Splitting sub_keys among servers\<close>

lemma mset_concat_values_append:
  "dict_ok d \<Longrightarrow> mset (concat (dict_values (dict_set k (dict_get k [] d @ [x]) d))) =
     add_mset x (mset (concat (dict_values d)))"
proof (induction d)
  case (Cons p d)
  show ?case
  proof (cases "fst p = k")
    case True
    then show ?thesis by (cases p) (simp add: dict_get_def)
  next
    case False
    then have "dict_get k [] (p # d) = dict_get k [] d" by (cases p) (simp add: dict_get_def)
    with False Cons show ?thesis by (cases p) simp
  qed
qed (simp add: dict_get_def)

text \<open>Nothing changes for a sub_key whose delivery server is known, or unknown to the database.\<close>

definition settled :: "string \<Rightarrow> pubsub \<Rightarrow> bool" where
  "settled k s \<longleftrightarrow> dict_has k (ps_sub_key_servers s) \<or>
     get_delivery_server_for_sub_key (ps_db s) (sv_cluster_id (ps_server s)) k = Inr None"

definition running :: "sub_key_server option \<Rightarrow> bool" where
  "running info \<longleftrightarrow> (case info of None \<Rightarrow> False | Some i \<Rightarrow> truthy_id (sks_server_pid i))"

lemma look_up_server:
  assumes "py_when (\<not> dict_has k (ps_sub_key_servers s)) (add_missing_server_for_sub_key k) s = (Inr (), t)"
  shows "settled k t \<and> ps_db t = ps_db s \<and> ps_server t = ps_server s \<and>
    (\<forall>k'. (k' \<noteq> k \<or> settled k' s) \<longrightarrow> map_of (ps_sub_key_servers t) k' = map_of (ps_sub_key_servers s) k')"
proof (cases "dict_has k (ps_sub_key_servers s)")
  case True
  with assms show ?thesis by (auto simp: py_run settled_def)
next
  case False
  with assms have add: "add_missing_server_for_sub_key k s = (Inr (), t)" by (simp add: py_when_def)
  let ?data = "get_delivery_server_for_sub_key (ps_db s) (sv_cluster_id (ps_server s)) k"
  show ?thesis
  proof (cases ?data)
    case (Inl e)
    with add show ?thesis by (simp add: add_missing_server_for_sub_key_def py_run)
  next
    case (Inr data)
    show ?thesis
    proof (cases data)
      case None
      with Inr add have "t = s" by (simp add: add_missing_server_for_sub_key_def py_run)
      with None Inr show ?thesis by (simp add: settled_def)
    next
      case (Some r)
      obtain server endpoint_type where r: "r = (server, endpoint_type)" by fastforce
      with Inr Some add have "\<exists>i. t = ps_sub_key_servers_update (dict_set k i) s"
        by (auto simp: add_missing_server_for_sub_key_def get_server_pid_for_sub_key_def set_sub_key_server_def
            py_bind_def py_get_def item_set_run)
      then show ?thesis using Inr Some False by (auto simp: settled_def dict_simps)
    qed
  qed
qed

definition entries_ok :: "(task_server, string list) dict \<Rightarrow> pubsub \<Rightarrow> bool" where
  "entries_ok found s \<longleftrightarrow> (\<forall>key sub_keys k. map_of found key = Some sub_keys \<longrightarrow> k \<in> set sub_keys \<longrightarrow>
     settled k s \<and> running (map_of (ps_sub_key_servers s) k) \<and>
     task_server_of (the (map_of (ps_sub_key_servers s) k)) = key)"

lemma entries_ok_add:
  assumes "entries_ok found s" "settled k s" "running (map_of (ps_sub_key_servers s) k)"
    and "key = task_server_of (the (map_of (ps_sub_key_servers s) k))"
  shows "entries_ok (dict_set key (dict_get key [] found @ [k]) found) s"
  unfolding entries_ok_def
proof (intro allI impI)
  fix key' sub_keys k'
  assume "map_of (dict_set key (dict_get key [] found @ [k]) found) key' = Some sub_keys" "k' \<in> set sub_keys"
  then consider "key' = key" "k' = k" | ys where "map_of found key' = Some ys" "k' \<in> set ys"
    by (auto simp: map_of_dict_set dict_get_def split: if_splits option.splits)
  then show "settled k' s \<and> running (map_of (ps_sub_key_servers s) k') \<and>
      task_server_of (the (map_of (ps_sub_key_servers s) k')) = key'"
    using assms unfolding entries_ok_def by cases blast+
qed

lemma task_servers_loop_correct:
  assumes "task_servers_loop ks found not_found s = (Inr (found', not_found'), t)" "dict_ok found"
    and "entries_ok found s" "\<forall>k \<in> set not_found. settled k s \<and> \<not> running (map_of (ps_sub_key_servers s) k)"
  shows "mset (concat (dict_values found') @ not_found') = mset (concat (dict_values found) @ not_found @ ks) \<and>
    entries_ok found' t \<and> (\<forall>k \<in> set not_found'. settled k t \<and> \<not> running (map_of (ps_sub_key_servers t) k))"
  using assms
proof (induction ks arbitrary: found not_found s)
  case Nil
  then show ?case by (simp add: py_ret_def)
next
  case (Cons k ks)
  let ?look = "py_when (\<not> dict_has k (ps_sub_key_servers s)) (add_missing_server_for_sub_key k)"
  obtain r u where u: "?look s = (r, u)" by fastforce
  with Cons.prems(1) have "r = Inr ()" by (auto simp: py_bind_def py_seq_def py_get_def split: sum.splits)
  with u have look: "?look s = (Inr (), u)" by simp
  from look_up_server [OF this] have settled: "settled k u"
    and same: "\<And>k'. settled k' s \<Longrightarrow> settled k' u \<and> map_of (ps_sub_key_servers u) k' = map_of (ps_sub_key_servers s) k'"
    unfolding settled_def by auto
  let ?info = "map_of (ps_sub_key_servers u) k"
  let ?key = "task_server_of (the ?info)"
  let ?found = "dict_set ?key (dict_get ?key [] found @ [k]) found"
  have rest: "task_servers_loop (k # ks) found not_found s =
      (if running ?info then task_servers_loop ks ?found not_found u
       else task_servers_loop ks found (not_found @ [k]) u)"
    using look by (simp add: py_bind_def py_seq_def py_get_def running_def split: option.splits)
  have old: "entries_ok found u" "\<forall>k \<in> set not_found. settled k u \<and> \<not> running (map_of (ps_sub_key_servers u) k)"
    using Cons.prems(3,4) same unfolding entries_ok_def by (metis, metis)
  show ?case
  proof (cases "running ?info")
    case False
    with rest Cons.prems(1) have "task_servers_loop ks found (not_found @ [k]) u = (Inr (found', not_found'), t)"
      by simp
    from Cons.IH [OF this Cons.prems(2) old(1)] False settled old(2) show ?thesis by simp
  next
    case True
    have "task_servers_loop ks ?found not_found u = (Inr (found', not_found'), t)"
      using rest True Cons.prems(1) by simp
    moreover have "dict_ok ?found" using Cons.prems(2) by simp
    moreover have "entries_ok ?found u" using old(1) settled True by (rule entries_ok_add) simp
    ultimately show ?thesis
      using Cons.IH [of ?found not_found u] old(2) mset_concat_values_append [OF Cons.prems(2), of ?key k]
      by simp
  qed
qed

text \<open>When the delivery servers of some sub_keys are looked up, each sub_key given is listed
  exactly once: under the server and process that run its task, or as not found when no running
  process is known for it, also after asking the database and that server.\<close>

theorem task_servers_split_sub_keys:
  assumes "get_task_servers_by_sub_keys sub_keys s = (Inr (found, not_found), t)"
  shows "mset (concat (dict_values found) @ not_found) = mset sub_keys \<and>
    (\<forall>key ks k. map_of found key = Some ks \<longrightarrow> k \<in> set ks \<longrightarrow> (\<exists>i. map_of (ps_sub_key_servers t) k = Some i \<and>
       truthy_id (sks_server_pid i) \<and> task_server_of i = key)) \<and>
    (\<forall>k \<in> set not_found. \<forall>i. map_of (ps_sub_key_servers t) k = Some i \<longrightarrow> \<not> truthy_id (sks_server_pid i))"
proof -
  have "entries_ok [] s" by (simp add: entries_ok_def)
  with task_servers_loop_correct [OF assms [unfolded get_task_servers_by_sub_keys_def]]
  have *: "mset (concat (dict_values found) @ not_found) = mset sub_keys" "entries_ok found t"
    "\<forall>k \<in> set not_found. settled k t \<and> \<not> running (map_of (ps_sub_key_servers t) k)" by simp_all
  have "\<exists>i. map_of (ps_sub_key_servers t) k = Some i \<and> truthy_id (sks_server_pid i) \<and> task_server_of i = key"
    if "map_of found key = Some ks" "k \<in> set ks" for key ks k
    using *(2) that unfolding entries_ok_def by (fastforce simp: running_def split: option.splits)
  with * show ?thesis by (auto simp: running_def split: option.splits)
qed

definition sample_task :: "string \<Rightarrow> int option \<Rightarrow> sub_key_server" where
  "sample_task k pid = \<lparr>sks_sub_key = k, sks_cluster_id = 1, sks_server_name = ''server2'', sks_server_pid = pid,
     sks_endpoint_type = ''rest'', sks_channel_name = None, sks_pub_client_id = None\<rparr>"

theorem task_servers_split_sub_keys_witness:
  "\<exists>found not_found t. get_task_servers_by_sub_keys [''k1'', ''k2'', ''k3'']
      (sample_pubsub\<lparr>ps_sub_key_servers := [(''k1'', sample_task ''k1'' (Some 5)), (''k2'', sample_task ''k2'' None)]\<rparr>) =
      (Inr (found, not_found), t) \<and> mset (concat (dict_values found) @ not_found) = mset [''k1'', ''k2'', ''k3'']"
proof -
  have "\<exists>found not_found t. get_task_servers_by_sub_keys [''k1'', ''k2'', ''k3'']
      (sample_pubsub\<lparr>ps_sub_key_servers := [(''k1'', sample_task ''k1'' (Some 5)), (''k2'', sample_task ''k2'' None)]\<rparr>) =
      (Inr (found, not_found), t)"
    by (simp add: get_task_servers_by_sub_keys_def py_run add_missing_server_for_sub_key_def sample_task_def
        get_delivery_server_for_sub_key_def sample_pubsub_def init_pubsub_def sample_db_def truthy_id_def)
  then show ?thesis using task_servers_split_sub_keys by blast
qed

section \<open>Who learns of a delivery task\<close>

lemma add_sub_key_run:
  "\<exists>t. add_sub_key i k s = (Inr (), t) \<and> ps_published t = ps_published s \<and> ps_server t = ps_server s"
proof -
  let ?tool = "(ps_tools s ! i)\<lparr>pt_db := ps_db s, pt_ticks := ps_ticks s\<rparr>"
  obtain tool where tool: "add_sub_key_no_lock k ?tool = (Inr (), tool)"
    by (cases "k \<in> pt_sub_keys ?tool") (simp_all add: add_sub_key_no_lock_def py_run)
  then show ?thesis
    by (simp add: add_sub_key_def with_tool_def set_pubsub_tool_for_sub_key_def item_set_run py_seq_def)
qed

lemma create_delivery_task_run:
  "\<exists>t. create_delivery_task k endpoint_type s = (Inr (), t) \<and>
     ps_published t = ps_published s @ [local_server_of (ps_server s) k (Some (sv_pid (ps_server s))) endpoint_type] \<and>
     map_of (ps_sub_key_servers t) k = Some (local_server_of (ps_server s) k (Some (sv_pid (ps_server s))) endpoint_type)"
proof -
  obtain i u where new: "new_pubsub_tool endpoint_type s = (Inr i, u)" "ps_published u = ps_published s"
    "ps_server u = ps_server s" by (simp add: new_pubsub_tool_def py_run)
  obtain v where v: "add_sub_key i k u = (Inr (), v)" "ps_published v = ps_published u" "ps_server v = ps_server u"
    using add_sub_key_run by blast
  have "sks_sub_key (local_server_of server k pid t) = k" for server pid t by (simp add: local_server_of_def)
  then show ?thesis
    using new v by (simp add: create_delivery_task_def set_sub_key_server_def py_bind_def py_seq_def py_get_def
        py_modify_def item_set_run dict_simps Let_def)
qed

text \<open>When a process starts a delivery task it tells every other process; a process of a
  server with another name and another process id learns of it, but any other process of the same
  server ignores the news, although only the sender knows it already.\<close>

theorem sibling_processes_not_told:
  assumes "create_delivery_task k endpoint_type s = (Inr (), t)"
  shows "\<exists>news. ps_published t = ps_published s @ [news] \<and> sks_sub_key news = k \<and>
    (\<forall>other. sv_name (ps_server other) = sv_name (ps_server s) \<longrightarrow> on_sub_key_server_set news other = (Inr (), other)) \<and>
    (\<forall>other. sv_name (ps_server other) \<noteq> sv_name (ps_server s) \<and> sv_pid (ps_server other) \<noteq> sv_pid (ps_server s) \<longrightarrow>
      map_of (ps_sub_key_servers (snd (on_sub_key_server_set news other))) k = Some news)"
proof -
  let ?news = "local_server_of (ps_server s) k (Some (sv_pid (ps_server s))) endpoint_type"
  have "ps_published t = ps_published s @ [?news]"
    using create_delivery_task_run [of k endpoint_type s] assms by auto
  moreover have "on_sub_key_server_set ?news other = (Inr (), other)"
    if "sv_name (ps_server other) = sv_name (ps_server s)" for other
    using that by (simp add: on_sub_key_server_set_def local_server_of_def py_run)
  moreover have "map_of (ps_sub_key_servers (snd (on_sub_key_server_set ?news other))) k = Some ?news"
    if "sv_name (ps_server other) \<noteq> sv_name (ps_server s) \<and> sv_pid (ps_server other) \<noteq> sv_pid (ps_server s)" for other
    using that by (auto simp: on_sub_key_server_set_def local_server_of_def set_sub_key_server_def py_run dict_simps)
  moreover have "sks_sub_key ?news = k" by (simp add: local_server_of_def)
  ultimately show ?thesis by blast
qed

theorem sibling_processes_not_told_witness:
  "\<exists>news t. create_delivery_task ''k1'' ''rest'' sample_pubsub = (Inr (), t) \<and> ps_published t = [news] \<and>
     on_sub_key_server_set news (sample_pubsub\<lparr>ps_server := sample_server\<lparr>sv_pid := 200\<rparr>\<rparr>) =
       (Inr (), sample_pubsub\<lparr>ps_server := sample_server\<lparr>sv_pid := 200\<rparr>\<rparr>)"
proof -
  obtain t where t: "create_delivery_task ''k1'' ''rest'' sample_pubsub = (Inr (), t)"
    using create_delivery_task_run by blast
  have "sv_name (ps_server (sample_pubsub\<lparr>ps_server := sample_server\<lparr>sv_pid := 200\<rparr>\<rparr>)) = sv_name (ps_server sample_pubsub)"
    "ps_published sample_pubsub = []" by (simp_all add: sample_pubsub_def init_pubsub_def)
  with t sibling_processes_not_told [OF t] show ?thesis by auto
qed

section \<open>Unsubscribing\<close>

lemma keeps_subscriptions_stop_task:
  "keeps (\<lambda>t. ps_subscriptions_by_topic t = subs \<and> ps_subscriptions_by_sub_key t = keys) (stop_task_here k)"
  (is "keeps ?I _")
proof -
  have "keeps ?I (with_tool n m)" for n :: nat and m :: "(pubsub_tool, unit) py"
    by (simp add: keeps_def with_tool_def split: prod.splits)
  then show ?thesis unfolding stop_task_here_def split_def by (intro keeps_intros) simp_all
qed

lemma stop_tasks_subscriptions:
  "ps_subscriptions_by_topic (snd (py_for ks stop_task_here s)) = ps_subscriptions_by_topic s \<and>
   ps_subscriptions_by_sub_key (snd (py_for ks stop_task_here s)) = ps_subscriptions_by_sub_key s"
  by (rule keepsD [OF keeps_for [OF keeps_subscriptions_stop_task]]) simp

text \<open>Unsubscribing all sub_keys of a topic leaves every other of its subscriptions in place,
  as the list is changed while it is iterated, and every one of them stays known by its sub_key.\<close>

theorem unsubscribe_leaves_every_other:
  assumes "map_of (ps_topic_name_to_id s) topic = Some i" "map_of (ps_subscriptions_by_topic s) topic = Some subs"
    and "sb_sub_key ` set subs \<subseteq> set sub_keys"
    and "fst (backlog_unsubscribe i sub_keys (ps_in_ram_backlog s)) = Inr ()"
  shows "get_subscriptions_by_topic topic (snd (pubsub_unsubscribe [(topic, sub_keys)] s)) = odds subs \<and>
    (\<forall>k. has_sub_key k (snd (pubsub_unsubscribe [(topic, sub_keys)] s)) = has_sub_key k s)"
proof -
  obtain b where b: "backlog_unsubscribe i sub_keys (ps_in_ram_backlog s) = (Inr (), b)"
    using assms(4) by (metis prod.collapse)
  let ?s = "s\<lparr>ps_in_ram_backlog := b\<rparr>"
  let ?t = "ps_subscriptions_by_topic_update (dict_set topic (odds subs)) ?s"
  have backlog: "with_backlog (backlog_unsubscribe i sub_keys) s = (Inr (), ?s)"
    by (simp add: with_backlog_def b)
  have removed: "remove_while_iterating (\<lambda>sub. sb_sub_key sub \<in> set sub_keys) 0 subs = odds subs"
    using remove_while_iterating_all [of subs "\<lambda>sub. sb_sub_key sub \<in> set sub_keys" "[]"] assms(3) by auto
  have "snd (pubsub_unsubscribe [(topic, sub_keys)] s) = snd (py_for sub_keys stop_task_here ?t)"
    using assms(1,2)
    by (simp add: pubsub_unsubscribe_def py_seq_def py_bind_def item_get_run item_set_run backlog removed py_ret_def
        split: prod.splits sum.splits)
  then show ?thesis
    using stop_tasks_subscriptions [of sub_keys ?t]
    by (simp add: get_subscriptions_by_topic_def has_sub_key_def dict_get_def dict_simps)
qed

definition sample_subscription :: "int \<Rightarrow> string \<Rightarrow> subscription" where
  "sample_subscription i k = \<lparr>sb_id = i, sb_sub_key = k, sb_endpoint_id = 3, sb_topic_name = ''/a'',
     sb_endpoint_type = ''rest'', sb_cluster_id = 1, sb_server_id = Some 2\<rparr>"

definition two_subscriptions :: pubsub where
  "two_subscriptions = sample_pubsub\<lparr>ps_topic_name_to_id := [(''/a'', 1)],
     ps_subscriptions_by_topic := [(''/a'', [sample_subscription 1 ''k1'', sample_subscription 2 ''k2''])]\<rparr>"

theorem unsubscribe_leaves_every_other_witness:
  "get_subscriptions_by_topic ''/a'' (snd (pubsub_unsubscribe [(''/a'', [''k1'', ''k2''])] two_subscriptions)) =
     [sample_subscription 2 ''k2'']"
proof -
  have "map_of (ps_topic_name_to_id two_subscriptions) ''/a'' = Some 1"
    "map_of (ps_subscriptions_by_topic two_subscriptions) ''/a'' = Some [sample_subscription 1 ''k1'', sample_subscription 2 ''k2'']"
    "sb_sub_key ` set [sample_subscription 1 ''k1'', sample_subscription 2 ''k2''] \<subseteq> set [''k1'', ''k2'']"
    "fst (backlog_unsubscribe 1 [''k1'', ''k2''] (ps_in_ram_backlog two_subscriptions)) = Inr ()"
    by (simp_all add: two_subscriptions_def sample_subscription_def sample_pubsub_def init_pubsub_def init_backlog_def
        backlog_unsubscribe_def get_delete_messages_by_sub_keys_def to_delete_def ids_of_def dict_get_def py_run)
  from unsubscribe_leaves_every_other [OF this] show ?thesis by simp
qed

end
