(* ===== verification/Pubsub_Publish.thy ===== *)
theory Pubsub_Publish
  imports Pubsub_Registry
begin

text \<open>
  Publishing: the service \<open>Publish\<close> of \<^verbatim>\<open>service/internal/pubsub/publish.py\<close>, \<open>get_priority\<close> and
  \<open>get_expiration\<close> of \<^verbatim>\<open>server/pubsub/__init__.py\<close>, what runs afterwards in background
  (\<open>AfterPublish\<close> in \<^verbatim>\<open>service/internal/pubsub/__init__.py\<close>), and the collection of messages kept in
  RAM. Hook services, message ids, the parser of dates and the outcome of calls to other servers
  are oracles. Text is made of code points below 256.
\<close>

section \<open>Input\<close>

datatype gd_input = GdAbsent | GdBool bool | GdOther

record msg_input =
  mi_data :: "string option"
  mi_msg_id :: string
  mi_has_gd :: gd_input
  mi_priority :: "int option"
  mi_expiration :: "int option"
  mi_mime_type :: "string option"
  mi_correl_id :: string
  mi_in_reply_to :: string
  mi_ext_client_id :: string
  mi_ext_pub_time :: string
  mi_group_id :: string
  mi_position_in_group :: int

record publish_input =
  pi_topic_name :: string
  pi_endpoint_id :: "int option"
  pi_security_id :: "int option"
  pi_ws_channel_id :: "int option"
  pi_data_list :: "msg_input list"
  pi_message :: msg_input

text \<open>\<open>en_hook\<close> is a hook service: it raises, or says whether to skip the message and leaves the
  message changed or not. \<open>en_parse_time\<close> gives milliseconds, or nothing for other text.\<close>

record publish_env =
  en_globre :: "string \<Rightarrow> string \<Rightarrow> bool"
  en_hook :: "string \<Rightarrow> pub_msg \<Rightarrow> exn + bool \<times> pub_msg"
  en_new_id :: "nat \<Rightarrow> string"
  en_parse_time :: "string \<Rightarrow> int option"
  en_notify_fails :: "notification \<Rightarrow> bool"

text \<open>Priorities from 1 to 9, 5 when none is given; an absent or zero expiration is \<open>2 ^ 31 - 1\<close>.\<close>

definition get_priority :: "msg_input \<Rightarrow> exn + int" where
  "get_priority input = (case mi_priority input of
     None \<Rightarrow> Inr 5
   | Some p \<Rightarrow> if p = 0 then Inr 5 else if p < 1 \<or> p > 9 then Inl BadRequest else Inr p)"

definition get_expiration :: "msg_input \<Rightarrow> exn + int" where
  "get_expiration input = (case mi_expiration input of
     None \<Rightarrow> Inr 2147483647
   | Some e \<Rightarrow> if e < 0 then Inl BadRequest else Inr (if e = 0 then 2147483647 else e))"

section \<open>Bytes\<close>

definition utf8_char :: "char \<Rightarrow> string" where
  "utf8_char c = (let n = of_char c in
     if n < (128 :: nat) then [c] else [char_of (192 + n div 64), char_of (128 + n mod 64)])"

definition utf8 :: "string \<Rightarrow> string" where
  "utf8 cs = concat (map utf8_char cs)"

definition is_ascii :: "string \<Rightarrow> bool" where
  "is_ascii cs \<longleftrightarrow> (\<forall>c \<in> set cs. of_char c < (128 :: nat))"

text \<open>\<open>encode\<close> of a byte string decodes it as ASCII first.\<close>

definition encode_bytes :: "string \<Rightarrow> exn + string" where
  "encode_bytes cs = (if is_ascii cs then Inr cs else Inl (OtherError ''UnicodeDecodeError''))"

lemma py_sum_case [py_run]: "py_sum r = (case r of Inl e \<Rightarrow> py_raise e | Inr x \<Rightarrow> py_ret x)"
  by (rule ext) (simp add: py_sum_def py_raise_def py_ret_def split: sum.split)

definition non_empty :: "string \<Rightarrow> string option" where
  "non_empty cs = (if cs = [] then None else Some cs)"

section \<open>Messages\<close>

definition new_msg_id :: "publish_env \<Rightarrow> (pubsub, string) py" where
  "new_msg_id env = py_bind (py_get (\<lambda>s. en_new_id env (ps_id_count s))) (\<lambda>i.
     py_seq (py_modify (ps_id_count_update Suc)) (py_ret i))"

definition get_has_gd :: "topic \<Rightarrow> msg_input \<Rightarrow> exn + bool" where
  "get_has_gd t input = (case mi_has_gd input of
     GdAbsent \<Rightarrow> Inr (tp_has_gd t) | GdBool b \<Rightarrow> Inr b | GdOther \<Rightarrow> Inl ValueError)"

definition get_ext_pub_time :: "publish_env \<Rightarrow> msg_input \<Rightarrow> exn + int option" where
  "get_ext_pub_time env input =
     (if mi_ext_pub_time input = [] then Inr None
      else case en_parse_time env (mi_ext_pub_time input) of None \<Rightarrow> Inl TypeError | Some t \<Rightarrow> Inr (Some t))"

definition new_message ::
  "topic \<Rightarrow> msg_input \<Rightarrow> int \<Rightarrow> string \<Rightarrow> int \<Rightarrow> int \<Rightarrow> string \<Rightarrow> int \<Rightarrow> int \<Rightarrow> bool \<Rightarrow> int option \<Rightarrow> string \<Rightarrow> pub_msg" where
  "new_message t input now pattern endpoint_id cluster msg_id priority expiration gd ext_pub_time data =
     \<lparr>pm_pub_msg_id = msg_id, pm_pub_correl_id = map_option utf8 (non_empty (mi_correl_id input)),
      pm_in_reply_to = map_option utf8 (non_empty (mi_in_reply_to input)),
      pm_ext_client_id = map_option utf8 (non_empty (mi_ext_client_id input)),
      pm_group_id = non_empty (mi_group_id input),
      pm_position_in_group = (if mi_position_in_group input = 0 then None else Some (mi_position_in_group input)),
      pm_pub_time = now, pm_ext_pub_time = ext_pub_time, pm_data = utf8 data, pm_data_prefix = None,
      pm_data_prefix_short = None,
      pm_mime_type = (case mi_mime_type input of None \<Rightarrow> ''text/plain'' | Some m \<Rightarrow> m),
      pm_msg_size = int (length data), pm_priority = priority, pm_expiration = expiration,
      pm_expiration_time = now + expiration * 1000, pm_has_gd = gd, pm_delivery_status = Initialized,
      pm_pattern_matched = pattern, pm_published_by_id = endpoint_id, pm_topic_id = tp_id t,
      pm_cluster_id = cluster\<rparr>"

text \<open>The hook may skip the message; a kept one gets its size again.\<close>

definition call_hook :: "publish_env \<Rightarrow> topic \<Rightarrow> pub_msg \<Rightarrow> exn + pub_msg option" where
  "call_hook env t msg = (case tp_before_publish_hook t of
     None \<Rightarrow> Inr (Some msg)
   | Some service \<Rightarrow> (case en_hook env service msg of
       Inl e \<Rightarrow> Inl e
     | Inr (True, _) \<Rightarrow> Inr None
     | Inr (False, msg') \<Rightarrow> Inr (Some (msg'\<lparr>pm_msg_size := int (length (pm_data msg'))\<rparr>))))"

definition set_prefixes :: "bool \<Rightarrow> pub_msg \<Rightarrow> exn + pub_msg" where
  "set_prefixes gd msg =
     (if \<not> gd then Inr msg
      else case encode_bytes (take 2048 (pm_data msg)) of
        Inl e \<Rightarrow> Inl e
      | Inr prefix \<Rightarrow> (case encode_bytes (take 64 (pm_data msg)) of
          Inl e \<Rightarrow> Inl e
        | Inr short \<Rightarrow> Inr (msg\<lparr>pm_data_prefix := Some prefix, pm_data_prefix_short := Some short\<rparr>)))"

definition get_message ::
  "publish_env \<Rightarrow> topic \<Rightarrow> msg_input \<Rightarrow> int \<Rightarrow> string \<Rightarrow> int \<Rightarrow> (pubsub, pub_msg option) py" where
  "get_message env t input now pattern endpoint_id =
     py_bind (py_sum (get_priority input)) (\<lambda>priority.
     py_bind (py_sum (get_expiration input)) (\<lambda>expiration.
     py_bind (if utf8 (mi_msg_id input) = [] then new_msg_id env else py_ret (utf8 (mi_msg_id input))) (\<lambda>msg_id.
     py_bind (py_sum (get_has_gd t input)) (\<lambda>gd.
     py_bind (py_sum (get_ext_pub_time env input)) (\<lambda>ext_pub_time.
     py_bind (py_value KeyError (mi_data input)) (\<lambda>data.
     py_bind (py_get (\<lambda>s. sv_cluster_id (ps_server s))) (\<lambda>cluster.
     py_bind (py_sum (call_hook env t
         (new_message t input now pattern endpoint_id cluster msg_id priority expiration gd ext_pub_time data))) (\<lambda>kept.
     case kept of
       None \<Rightarrow> py_ret None
     | Some msg \<Rightarrow> py_bind (py_sum (set_prefixes gd msg)) (\<lambda>msg. py_ret (Some msg))))))))))"

primrec get_messages ::
  "publish_env \<Rightarrow> topic \<Rightarrow> msg_input list \<Rightarrow> int \<Rightarrow> string \<Rightarrow> int \<Rightarrow> (pubsub, pub_msg list) py" where
  "get_messages env t [] now pattern endpoint_id = py_ret []"
| "get_messages env t (i # is) now pattern endpoint_id =
     py_bind (get_message env t i now pattern endpoint_id) (\<lambda>msg.
     py_bind (get_messages env t is now pattern endpoint_id) (\<lambda>msgs.
     py_ret (case msg of None \<Rightarrow> msgs | Some m \<Rightarrow> m # msgs)))"

text \<open>All ids in input order, the guaranteed messages, the others.\<close>

definition get_messages_from_data ::
  "publish_env \<Rightarrow> topic \<Rightarrow> publish_input \<Rightarrow> int \<Rightarrow> string \<Rightarrow> int
   \<Rightarrow> (pubsub, string list \<times> pub_msg list \<times> pub_msg list) py" where
  "get_messages_from_data env t input now pattern endpoint_id =
     py_bind (get_messages env t (if pi_data_list input \<noteq> [] then pi_data_list input else [pi_message input])
         now pattern endpoint_id) (\<lambda>msgs.
     py_ret (map pm_pub_msg_id msgs, filter pm_has_gd msgs, filter (\<lambda>m. \<not> pm_has_gd m) msgs))"

section \<open>Publishing\<close>

definition get_pattern_matched :: "publish_env \<Rightarrow> publish_input \<Rightarrow> (pubsub, int \<times> string) py" where
  "get_pattern_matched env input = py_bind
     (if \<not> truthy_id (pi_endpoint_id input)
      then py_bind
        (if truthy_id (pi_security_id input) then get_endpoint_id_by_sec_id (the (pi_security_id input))
         else if truthy_id (pi_ws_channel_id input) then get_endpoint_id_by_ws_channel_id (the (pi_ws_channel_id input))
         else py_raise NotImplementedError) (\<lambda>i.
        py_bind
        (if truthy_id (pi_security_id input)
         then is_allowed_pub_topic (en_globre env) (pi_topic_name input) (pi_security_id input) None
         else is_allowed_pub_topic (en_globre env) (pi_topic_name input) None (pi_ws_channel_id input)) (\<lambda>line.
        py_ret (i, line)))
      else py_bind (is_allowed_pub_topic_by_endpoint_id (en_globre env) (pi_topic_name input) (pi_endpoint_id input))
        (\<lambda>line. py_ret (the (pi_endpoint_id input), line))) (\<lambda>(i, line).
     case line of
       None \<Rightarrow> py_raise Forbidden
     | Some l \<Rightarrow> if l = [] then py_raise Forbidden else py_ret (i, l))"

text \<open>A transaction commits when its body returns; an exception closes the session without it.\<close>

definition in_transaction :: "(sql_db, 'a) py \<Rightarrow> (pubsub, 'a) py" where
  "in_transaction m s = (case m (ps_db s) of
     (Inl e, _) \<Rightarrow> (Inl e, s) | (Inr x, db) \<Rightarrow> (Inr x, s\<lparr>ps_db := db\<rparr>))"

text \<open>What the transaction runs; \<open>check\<close> says whether the depth is checked this time.\<close>

definition publish_transaction ::
  "bool \<Rightarrow> int \<Rightarrow> topic \<Rightarrow> subscription list \<Rightarrow> pub_msg list \<Rightarrow> int \<Rightarrow> (sql_db, unit) py" where
  "publish_transaction check cluster t subs gd_msgs now =
     py_seq (py_when check (py_bind (get_topic_depth cluster (tp_id t)) (\<lambda>depth.
       py_when (depth + int (length gd_msgs) > tp_max_depth_gd t) (py_raise ServiceUnavailable))))
    (py_seq (incr_topic_depth cluster (tp_id t) now (int (length gd_msgs)))
    (py_seq (insert_topic_messages gd_msgs)
       (py_when (subs \<noteq> []) (insert_queue_messages cluster
          (map (\<lambda>b. \<lparr>ss_id = sb_id b, ss_sub_key = sb_sub_key b, ss_endpoint_id = sb_endpoint_id b,
             ss_cluster_id = sb_cluster_id b, ss_server_id = (case sb_server_id b of None \<Rightarrow> 0 | Some i \<Rightarrow> i)\<rparr>) subs)
          gd_msgs (tp_id t) now))))"

definition spawn_job :: "pubsub_job \<Rightarrow> (pubsub, unit) py" where
  "spawn_job j = py_modify (ps_jobs_update (\<lambda>js. js @ [j]))"

definition publish_gd ::
  "topic \<Rightarrow> subscription list \<Rightarrow> pub_msg list \<Rightarrow> int \<Rightarrow> int \<Rightarrow> string \<Rightarrow> (pubsub, unit) py" where
  "publish_gd t subs gd_msgs now endpoint_id pattern =
     (let t' = incr_gd_depth_check t in
      py_seq (py_modify (ps_topics_update (dict_mutate (tp_id t) incr_gd_depth_check)))
     (py_bind (py_sum (needs_gd_depth_check t')) (\<lambda>check.
      py_bind (py_get (\<lambda>s. sv_cluster_id (ps_server s))) (\<lambda>cluster.
      py_seq (in_transaction (publish_transaction check cluster t' subs gd_msgs now))
        (spawn_job (UpdatePubMetadata (tp_id t) endpoint_id now gd_msgs pattern))))))"

datatype publish_response = SingleId string | IdList "string list"

text \<open>What follows once the messages are known.\<close>

definition publish_messages ::
  "topic \<Rightarrow> subscription list \<Rightarrow> string list \<Rightarrow> pub_msg list \<Rightarrow> pub_msg list \<Rightarrow> int \<Rightarrow> int \<Rightarrow> string
   \<Rightarrow> (pubsub, publish_response) py" where
  "publish_messages t subs ids gd_msgs non_gd_msgs now endpoint_id pattern =
     py_seq (py_when (gd_msgs \<noteq> []) (publish_gd t subs gd_msgs now endpoint_id pattern))
    (py_seq (py_when (subs \<noteq> [] \<and> (non_gd_msgs \<noteq> [] \<or> gd_msgs \<noteq> []))
         (spawn_job (AfterPublish (tp_id t) (tp_name t) subs non_gd_msgs (gd_msgs \<noteq> []))))
       (if length gd_msgs + length non_gd_msgs = 1
        then py_bind (py_value IndexError (case ids of [] \<Rightarrow> None | i # _ \<Rightarrow> Some i)) (\<lambda>i. py_ret (SingleId i))
        else py_ret (IdList ids)))"

definition publish_handle :: "publish_env \<Rightarrow> publish_input \<Rightarrow> (pubsub, publish_response) py" where
  "publish_handle env input =
     py_bind (get_pattern_matched env input) (\<lambda>(endpoint_id, pattern).
     py_bind (py_try (get_topic_by_name (pi_topic_name input)) (\<lambda>e.
         if e = KeyError then py_raise NotFound else py_raise e)) (\<lambda>t.
     py_bind ps_utcnow (\<lambda>now.
     py_bind (get_messages_from_data env t input now pattern endpoint_id) (\<lambda>(ids, gd_msgs, non_gd_msgs).
     py_bind (py_get (get_subscriptions_by_topic (pi_topic_name input))) (\<lambda>subs.
     publish_messages t subs ids gd_msgs non_gd_msgs now endpoint_id pattern)))))"

section \<open>In background\<close>

text \<open>\<open>gd_msg_list[-1]\<close> of no messages is an \<open>IndexError\<close>.\<close>

definition update_pub_metadata :: "int \<Rightarrow> int \<Rightarrow> int \<Rightarrow> pub_msg list \<Rightarrow> string \<Rightarrow> (pubsub, unit) py" where
  "update_pub_metadata topic_id endpoint_id now gd_msgs pattern =
     (if gd_msgs = [] then py_raise IndexError
      else py_bind (py_get (\<lambda>s. sv_cluster_id (ps_server s))) (\<lambda>cluster.
        in_transaction (update_publish_metadata cluster topic_id endpoint_id now pattern
          (pm_pub_msg_id (last gd_msgs)) (pm_pub_correl_id (last gd_msgs)) (pm_ext_client_id (last gd_msgs))
          (pm_in_reply_to (last gd_msgs)))))"

definition endpoint_type_service :: "(string, string) dict" where
  "endpoint_type_service =
     map (\<lambda>t. (t, ''zato.pubsub.delivery.notify-pub-sub-message''))
       [''amqp'', ''files'', ''ftp'', ''rest'', ''service'', ''sms_twilio'', ''smtp'', ''soap''] @
     [(''websockets'', ''zato.channel.web-socket.client.notify-pub-sub-message'')]"

primrec notify_loop ::
  "publish_env \<Rightarrow> pub_msg list \<Rightarrow> bool \<Rightarrow> (task_server, string list) dict \<Rightarrow> (pubsub, string list) py" where
  "notify_loop env non_gd_msgs gd [] = py_ret []"
| "notify_loop env non_gd_msgs gd (entry # servers) = (case entry of (server, sub_keys) \<Rightarrow>
     py_bind (py_value KeyError (map_of endpoint_type_service (snd (snd (snd (snd server)))))) (\<lambda>service.
     let n = \<lparr>nt_service = service, nt_server = server, nt_sub_keys = sub_keys, nt_has_gd = gd,
              nt_messages = non_gd_msgs\<rparr> in
     py_seq (py_modify (ps_notified_update (\<lambda>ns. ns @ [n])))
    (py_bind (notify_loop env non_gd_msgs gd servers) (\<lambda>failed.
     py_ret (if en_notify_fails env n then sub_keys @ failed else failed)))))"

definition notify_pub_sub ::
  "publish_env \<Rightarrow> (task_server, string list) dict \<Rightarrow> pub_msg list \<Rightarrow> bool \<Rightarrow> (pubsub, string list) py" where
  "notify_pub_sub env current_servers non_gd_msgs gd = notify_loop env non_gd_msgs gd current_servers"

text \<open>What the backlog keeps of a message.\<close>

definition ram_of :: "pub_msg \<Rightarrow> ram_msg" where
  "ram_of m = \<lparr>rm_pub_msg_id = pm_pub_msg_id m, rm_expiration_time = pm_expiration_time m, rm_data = pm_data m\<rparr>"

text \<open>Any exception is logged.\<close>

definition after_publish ::
  "publish_env \<Rightarrow> string \<Rightarrow> int \<Rightarrow> string \<Rightarrow> subscription list \<Rightarrow> pub_msg list \<Rightarrow> bool \<Rightarrow> (pubsub, unit) py" where
  "after_publish env cid topic_id topic_name subs non_gd_msgs gd = py_try
     (py_bind (get_task_servers_by_sub_keys (map sb_sub_key subs)) (\<lambda>(current_servers, not_found).
      py_seq (py_when (not_found \<noteq> []) (store_in_ram cid topic_id topic_name not_found (map ram_of non_gd_msgs)))
     (py_bind (notify_pub_sub env current_servers non_gd_msgs gd) (\<lambda>failed.
      py_when (failed \<noteq> []) (store_in_ram cid topic_id topic_name failed (map ram_of non_gd_msgs))))))
     (\<lambda>_. py_ret ())"

definition run_job :: "publish_env \<Rightarrow> string \<Rightarrow> pubsub_job \<Rightarrow> (pubsub, unit) py" where
  "run_job env cid j = (case j of
     UpdatePubMetadata topic_id endpoint_id now gd_msgs pattern \<Rightarrow>
       update_pub_metadata topic_id endpoint_id now gd_msgs pattern
   | AfterPublish topic_id topic_name subs non_gd_msgs gd \<Rightarrow>
       after_publish env cid topic_id topic_name subs non_gd_msgs gd)"

section \<open>Messages in RAM\<close>

text \<open>\<open>rows\<close> are the topic ids and sub_keys the database gives for the sub_keys asked for.\<close>

definition topic_sub_keys :: "(int \<times> string) list \<Rightarrow> (int, string list) dict" where
  "topic_sub_keys rows = fold (\<lambda>(i, k) d. dict_set i (dict_get i [] d @ [k]) d) rows []"

primrec in_ram_loop :: "(int, string list) dict \<Rightarrow> retrieved \<Rightarrow> (pubsub, retrieved) py" where
  "in_ram_loop [] out = py_ret out"
| "in_ram_loop (entry # rest) out = (case entry of (topic_id, sub_keys) \<Rightarrow>
     py_bind (with_backlog (retrieve_messages_by_sub_keys topic_id sub_keys)) (\<lambda>data.
     in_ram_loop rest (case data of None \<Rightarrow> out | Some d \<Rightarrow> fold (\<lambda>(k, v). dict_set k v) d out)))"

definition get_in_ram_message_list :: "(int \<times> string) list \<Rightarrow> (pubsub, retrieved) py" where
  "get_in_ram_message_list rows = in_ram_loop (topic_sub_keys rows) []"

text \<open>
  \<open>_parse_non_gd_messages\<close>: the values of the dictionary it builds are references to lists.
  \<open>dict.fromkeys(sub_key_list, [])\<close> gives every key the same list.
\<close>

record non_gd_out =
  ng_refs :: "(string, nat) dict"
  ng_lists :: "ram_msg list list"

definition fromkeys :: "string list \<Rightarrow> non_gd_out" where
  "fromkeys ks = \<lparr>ng_refs = fold (\<lambda>k. dict_set k 0) ks [], ng_lists = [[]]\<rparr>"

definition append_message :: "string \<Rightarrow> ram_msg \<Rightarrow> (non_gd_out, unit) py" where
  "append_message k m = py_bind (item_get ng_refs k) (\<lambda>r.
     py_modify (ng_lists_update (\<lambda>ls. ls[r := ls ! r @ [m]])))"

definition drop_empty :: "string \<Rightarrow> (non_gd_out, unit) py" where
  "drop_empty k = py_bind (item_get ng_refs k) (\<lambda>r.
     py_bind (py_get (\<lambda>s. ng_lists s ! r)) (\<lambda>ms.
     py_when (ms = []) (item_del ng_refs ng_refs_update k)))"

text \<open>A server's answer: an error, or for each process an error or its messages by sub_key.\<close>

type_synonym server_answer = "(int, (string, (string, ram_msg) dict) dict option) dict option"

definition parse_non_gd_messages ::
  "string list \<Rightarrow> (string, server_answer) dict \<Rightarrow> exn + (string, ram_msg list) dict" where
  "parse_non_gd_messages sub_key_list response =
     (case py_seq
        (py_for response (\<lambda>(_, server). case server of
           None \<Rightarrow> py_ret ()
         | Some pids \<Rightarrow> py_for pids (\<lambda>(_, pid). case pid of
             None \<Rightarrow> py_ret ()
           | Some messages \<Rightarrow> py_for messages (\<lambda>(k, d). py_for (dict_values d) (append_message k)))))
        (py_for sub_key_list drop_empty) (fromkeys sub_key_list) of
        (Inl e, _) \<Rightarrow> Inl e
      | (Inr _, out) \<Rightarrow> Inr (map (\<lambda>(k, r). (k, ng_lists out ! r)) (ng_refs out)))"

end
