(* ===== verification/Pubsub_Publishing.thy ===== *)
theory Pubsub_Publishing
  imports Pubsub_Publish
begin

text \<open>
  Properties of publishing in \<open>Pubsub_Publish\<close>: who may publish, the bound on the depth of a topic,
  transactions that fail as a whole, the messages that are refused, and the lists shared among
  subscribers.
\<close>

section \<open>What the first steps of a publication leave alone\<close>

definition same_core :: "pubsub \<Rightarrow> pubsub \<Rightarrow> bool" where
  "same_core s u \<longleftrightarrow> ps_topics u = ps_topics s \<and> ps_db u = ps_db s \<and> ps_server u = ps_server s \<and>
     ps_jobs u = ps_jobs s \<and> ps_subscriptions_by_topic u = ps_subscriptions_by_topic s"

lemma same_core_simps [simp]:
  "same_core s s" "same_core s (ps_ticks_update f u) = same_core s u"
  "same_core s (ps_id_count_update g u) = same_core s u"
  by (simp_all add: same_core_def)

lemma keeps_same_core_sum [keeps_intros]: "keeps I (py_sum r)"
  by (simp add: keeps_def py_sum_def py_run split: sum.split)

lemma keeps_same_core_message: "keeps (same_core s) (get_message env t i now pattern endpoint_id)"
  unfolding get_message_def new_msg_id_def by (intro keeps_intros) simp_all

lemma keeps_same_core_messages: "keeps (same_core s) (get_messages_from_data env t input now pattern endpoint_id)"
proof -
  have "keeps (same_core s) (get_messages env t is now pattern endpoint_id)" for "is"
    by (induction "is") (auto intro!: keeps_intros keeps_same_core_message)
  then show ?thesis unfolding get_messages_from_data_def by (intro keeps_intros)
qed

lemma is_allowed_same_state: "snd (is_allowed globre target name sec ws i s) = s"
  by (simp add: is_allowed_def py_run split: option.split)

lemma get_pattern_matched_same_state: "snd (get_pattern_matched env input s) = s"
proof -
  have "keeps (\<lambda>u. u = s) (is_allowed g target n sec ws i)" for g target n sec ws i
    unfolding keeps_def by (simp add: is_allowed_same_state)
  then have "keeps (\<lambda>u. u = s) (get_pattern_matched env input)"
    unfolding get_pattern_matched_def get_endpoint_id_by_sec_id_def get_endpoint_id_by_ws_channel_id_def
      is_allowed_pub_topic_def is_allowed_pub_topic_by_endpoint_id_def split_def
    by (intro keeps_intros)
  then show ?thesis by (simp add: keeps_def)
qed

lemma get_topic_by_name_same_state: "snd (get_topic_by_name n s) = s"
  by (simp add: get_topic_by_name_def get_topic_id_by_name_def py_run split: option.split)

text \<open>A publication either fails before it changes anything but counters, or gets to publish the
  messages it found.\<close>

lemma publish_handle_cases:
  obtains e u where "publish_handle env input s = (Inl e, u)" "same_core s u"
  | i pattern t now ids gd non_gd u where "get_pattern_matched env input s = (Inr (i, pattern), s)"
      "get_topic_by_name (pi_topic_name input) s = (Inr t, s)" "same_core s u"
      "get_messages_from_data env t input now pattern i (ps_ticks_update Suc s) = (Inr (ids, gd, non_gd), u)"
      "publish_handle env input s =
         publish_messages t (get_subscriptions_by_topic (pi_topic_name input) s) ids gd non_gd now i pattern u"
proof (cases "get_pattern_matched env input s")
  case (Pair r u)
  have u: "u = s" using get_pattern_matched_same_state [of env input s] Pair by simp
  show thesis
  proof (cases r)
    case (Inl e)
    then show thesis using Pair u by (intro that(1) [of e s]) (simp_all add: publish_handle_def py_bind_def)
  next
    case (Inr ip)
    obtain i pattern where ip: "ip = (i, pattern)" by fastforce
    obtain r' u' where top: "get_topic_by_name (pi_topic_name input) s = (r', u')" by fastforce
    have u': "u' = s" using get_topic_by_name_same_state [of "pi_topic_name input" s] top by simp
    show thesis
    proof (cases r')
      case (Inl e)
      then show thesis using Pair u u' Inr ip top
        by (intro that(1) [of "if e = KeyError then NotFound else e" s])
           (simp_all add: publish_handle_def py_bind_def py_try_def py_raise_def)
    next
      case (Inr t)
      let ?s = "ps_ticks_update Suc s"
      let ?now = "ps_clock s (ps_ticks s)"
      obtain q v where q: "get_messages_from_data env t input ?now pattern i ?s = (q, v)" by fastforce
      have v: "same_core s v" using keepsD [OF keeps_same_core_messages, of s ?s env t input ?now pattern i] q by simp
      have run: "publish_handle env input s = (case (q, v) of (Inl e, v) \<Rightarrow> (Inl e, v)
          | (Inr (ids, gd, non_gd), v) \<Rightarrow> publish_messages t (get_subscriptions_by_topic (pi_topic_name input) v)
              ids gd non_gd ?now i pattern v)"
        using Pair u u' \<open>r = Inr ip\<close> ip top Inr q
        by (simp add: publish_handle_def py_bind_def py_try_def ps_utcnow_def py_get_def py_seq_def py_modify_def
            py_ret_def split: sum.split)
      show thesis
      proof (cases q)
        case (Inl e)
        with run v show thesis by (intro that(1) [of e v]) simp_all
      next
        case (Inr found)
        obtain ids gd non_gd where found: "found = (ids, gd, non_gd)" by (metis prod_cases3)
        have "get_subscriptions_by_topic (pi_topic_name input) v = get_subscriptions_by_topic (pi_topic_name input) s"
          using v by (simp add: same_core_def get_subscriptions_by_topic_def)
        with run v q Inr found Pair u ip \<open>r = Inr ip\<close> top u' \<open>r' = Inr t\<close> show thesis
          by (intro that(2) [of i pattern t v ?now ids gd non_gd]) simp_all
      qed
    qed
  qed
qed

section \<open>Who may publish\<close>

definition may_publish :: "publish_env \<Rightarrow> publish_input \<Rightarrow> pubsub \<Rightarrow> int \<Rightarrow> string \<Rightarrow> bool" where
  "may_publish env input s i line \<longleftrightarrow>
     (if truthy_id (pi_endpoint_id input) then pi_endpoint_id input = Some i
      else if truthy_id (pi_security_id input)
      then map_of (ps_sec_id_to_endpoint_id s) (the (pi_security_id input)) = Some i
      else truthy_id (pi_ws_channel_id input) \<and>
        map_of (ps_ws_channel_id_to_endpoint_id s) (the (pi_ws_channel_id input)) = Some i) \<and>
     (\<exists>e pattern. map_of (ps_endpoints s) i = Some e \<and> (line, pattern) \<in> set (ep_pub_topic_patterns e) \<and>
        en_globre env pattern (pi_topic_name input))"

lemma find_pair: "find (\<lambda>(_, p). P p) xs = Some (l, p) \<Longrightarrow> (l, p) \<in> set xs \<and> P p"
  by (induction xs) (auto split: if_splits)

lemma is_allowed_SomeD:
  assumes "is_allowed globre target name sec ws j s = (Inr (Some line), s)"
  shows "\<exists>i e pattern. (if truthy_id j then j = Some i else if truthy_id sec
      then map_of (ps_sec_id_to_endpoint_id s) (the sec) = Some i
      else truthy_id ws \<and> map_of (ps_ws_channel_id_to_endpoint_id s) (the ws) = Some i) \<and>
    map_of (ps_endpoints s) i = Some e \<and> (line, pattern) \<in> set (patterns_of target e) \<and> globre pattern name"
  using assms
  by (fastforce simp: is_allowed_def py_run truthy_id_def split: if_splits option.splits dest: find_pair)

lemma get_pattern_matched_sound:
  assumes "get_pattern_matched env input s = (Inr (i, line), s)"
  shows "may_publish env input s i line"
proof (cases "truthy_id (pi_endpoint_id input)")
  case True
  then have "is_allowed (en_globre env) PubTopicPatterns (pi_topic_name input) None None (pi_endpoint_id input) s =
      (Inr (Some line), s)" "pi_endpoint_id input = Some i"
    using assms is_allowed_same_state [of "en_globre env" PubTopicPatterns "pi_topic_name input" None None "pi_endpoint_id input" s]
    by (auto simp: get_pattern_matched_def is_allowed_pub_topic_by_endpoint_id_def py_bind_def py_ret_def py_raise_def
        truthy_id_def split: prod.splits sum.splits option.splits if_splits)
  from is_allowed_SomeD [OF this(1)] this(2) True show ?thesis
    by (auto simp: may_publish_def patterns_of_def truthy_id_def)
next
  case False
  define sec where "sec = (if truthy_id (pi_security_id input) then pi_security_id input else None)"
  define ws where "ws = (if truthy_id (pi_security_id input) then None else pi_ws_channel_id input)"
  have none: "\<not> truthy_id None" by (simp add: truthy_id_def)
  have run: "is_allowed (en_globre env) PubTopicPatterns (pi_topic_name input) sec ws None s = (Inr (Some line), s)"
    "(if truthy_id (pi_security_id input) then map_of (ps_sec_id_to_endpoint_id s) (the (pi_security_id input)) = Some i
      else truthy_id (pi_ws_channel_id input) \<and>
        map_of (ps_ws_channel_id_to_endpoint_id s) (the (pi_ws_channel_id input)) = Some i)"
    using assms False is_allowed_same_state [of "en_globre env" PubTopicPatterns "pi_topic_name input" sec ws None s]
    by (auto simp: get_pattern_matched_def is_allowed_pub_topic_def py_bind_def py_ret_def py_raise_def sec_def ws_def
        get_endpoint_id_by_sec_id_def get_endpoint_id_by_ws_channel_id_def item_get_run
        split: prod.splits sum.splits option.splits if_splits)
  with is_allowed_SomeD [OF run(1)] False none show ?thesis
    by (auto simp: may_publish_def patterns_of_def sec_def ws_def split: if_splits)
qed

text \<open>Claim C2: whatever is asked, either a publication is refused before it changes anything, or the
  endpoint it comes from, found by its id, its security definition or its WebSocket channel in this
  order, has a line of publishing patterns that matches the topic.\<close>

theorem publishing_needs_matching_line:
  "(\<exists>e. publish_handle env input s = (Inl e, s)) \<or> (\<exists>i line. may_publish env input s i line)"
proof (cases "get_pattern_matched env input s")
  case (Pair r u)
  have u: "u = s" using get_pattern_matched_same_state [of env input s] Pair by simp
  show ?thesis
  proof (cases r)
    case (Inl e)
    with Pair u show ?thesis by (simp add: publish_handle_def py_bind_def)
  next
    case (Inr il)
    obtain i line where "il = (i, line)" by fastforce
    with Pair u Inr have "get_pattern_matched env input s = (Inr (i, line), s)" by simp
    then show ?thesis using get_pattern_matched_sound by blast
  qed
qed

section \<open>Transactions\<close>

lemma in_transaction_Inl: "fst (m (ps_db s)) = Inl e \<Longrightarrow> in_transaction m s = (Inl e, s)"
  by (cases "m (ps_db s)") (simp add: in_transaction_def)

lemma transaction_two_subscribers:
  assumes "gd \<noteq> []" "2 \<le> length subs"
  shows "\<exists>e. fst (publish_transaction check cluster t subs gd now db) = Inl e"
proof -
  obtain b1 b2 bs where subs: "subs = b1 # b2 # bs" using assms(2) by (cases subs; cases "tl subs") auto
  obtain m where m: "m \<in> set gd" using assms(1) by (cases gd) auto
  have "fst (insert_queue_messages cluster (f b1 # f b2 # map f bs) gd (tp_id t) now d) =
      Inl (OtherError ''IntegrityError'')" for f :: "subscription \<Rightarrow> sql_sub" and d
    using two_subscribers_fail [OF m] by simp
  then have insert: "fst (py_when (subs \<noteq> []) (insert_queue_messages cluster (map f subs) gd (tp_id t) now) d) =
      Inl (OtherError ''IntegrityError'')" for f :: "subscription \<Rightarrow> sql_sub" and d
    by (simp add: subs py_when_def)
  have seq: "(\<And>s. \<exists>e. fst (n s) = Inl e) \<Longrightarrow> \<exists>e. fst (py_seq k n s) = Inl e"
    for k :: "(sql_db, unit) py" and n :: "(sql_db, unit) py" and s
    by (simp add: py_seq_def split: prod.split sum.split)
  show ?thesis unfolding publish_transaction_def by (intro seq) (use insert in blast)
qed

text \<open>Claim C3: a topic with two or more subscribers never gets a guaranteed message: whatever a
  publication asks for, the database stays as it is, because queueing the second reference to the
  same message breaks a unique index; at most a notification without guaranteed messages is sent.\<close>

theorem no_guaranteed_messages_for_two_subscribers:
  assumes "2 \<le> length (get_subscriptions_by_topic (pi_topic_name input) s)"
  shows "ps_db (snd (publish_handle env input s)) = ps_db s \<and>
    (ps_jobs (snd (publish_handle env input s)) = ps_jobs s \<or>
     (\<exists>i n subs msgs. ps_jobs (snd (publish_handle env input s)) = ps_jobs s @ [AfterPublish i n subs msgs False]))"
proof (cases rule: publish_handle_cases [of env input s])
  case (1 e u)
  then show ?thesis by (simp add: same_core_def)
next
  case (2 i pattern t now ids gd non_gd u)
  let ?subs = "get_subscriptions_by_topic (pi_topic_name input) s"
  have u: "ps_db u = ps_db s" "ps_jobs u = ps_jobs s" using 2(3) by (simp_all add: same_core_def)
  show ?thesis
  proof (cases "gd = []")
    case True
    then show ?thesis using u unfolding 2(5)
      by (auto simp: publish_messages_def py_seq_def py_when_def py_ret_def spawn_job_def py_modify_def py_bind_def
          py_value_def py_raise_def split: list.split)
  next
    case False
    let ?u = "ps_topics_update (dict_mutate (tp_id t) incr_gd_depth_check) u"
    have "ps_db ?u = ps_db u \<and> ps_jobs ?u = ps_jobs u" by simp
    moreover have "\<exists>e v. publish_gd t ?subs gd now i pattern u = (Inl e, v) \<and> ps_db v = ps_db ?u \<and> ps_jobs v = ps_jobs ?u"
    proof (cases "needs_gd_depth_check (incr_gd_depth_check t)")
      case (Inl e)
      then show ?thesis
        by (simp add: publish_gd_def py_seq_def py_modify_def py_bind_def py_sum_def py_raise_def Let_def)
    next
      case (Inr check)
      let ?run = "publish_transaction check (sv_cluster_id (ps_server u)) (incr_gd_depth_check t) ?subs gd now"
      obtain e where "fst (?run (ps_db ?u)) = Inl e"
        using transaction_two_subscribers [OF False assms] by blast
      then have "in_transaction ?run ?u = (Inl e, ?u)" by (rule in_transaction_Inl)
      then show ?thesis
        by (simp add: publish_gd_def py_seq_def py_modify_def py_bind_def py_sum_def py_ret_def py_get_def Inr Let_def)
    qed
    ultimately show ?thesis using u False unfolding 2(5)
      by (auto simp: publish_messages_def py_seq_def py_when_def)
  qed
qed

definition sample_input :: "bool \<Rightarrow> string \<Rightarrow> publish_input" where
  "sample_input gd data = \<lparr>pi_topic_name = ''/a'', pi_endpoint_id = Some 3, pi_security_id = None,
     pi_ws_channel_id = None, pi_data_list = [], pi_message = \<lparr>mi_data = Some data, mi_msg_id = ''m1'',
       mi_has_gd = GdBool gd, mi_priority = None, mi_expiration = None, mi_mime_type = None, mi_correl_id = '''',
       mi_in_reply_to = '''', mi_ext_client_id = '''', mi_ext_pub_time = '''', mi_group_id = '''',
       mi_position_in_group = 0\<rparr>\<rparr>"

definition sample_env :: publish_env where
  "sample_env = \<lparr>en_globre = (=), en_hook = (\<lambda>_ m. Inr (False, m)), en_new_id = (\<lambda>n. replicate n CHR ''x''),
     en_parse_time = (\<lambda>_. None), en_notify_fails = (\<lambda>_. False)\<rparr>"

definition sample_topic :: topic where
  "sample_topic = \<lparr>tp_id = 1, tp_name = ''/a'', tp_is_active = True, tp_is_internal = False, tp_max_depth_gd = 1,
     tp_max_depth_non_gd = 10, tp_has_gd = True, tp_gd_depth_check_freq = 1, tp_gd_depth_check_iter = 0,
     tp_before_publish_hook = None, tp_before_delivery_hook = None\<rparr>"

definition topic_subscription :: "int \<Rightarrow> string \<Rightarrow> subscription" where
  "topic_subscription i k = \<lparr>sb_id = i, sb_sub_key = k, sb_endpoint_id = 3, sb_topic_name = ''/a'',
     sb_endpoint_type = ''rest'', sb_cluster_id = 1, sb_server_id = Some 2\<rparr>"

definition publishing_state :: "subscription list \<Rightarrow> pubsub" where
  "publishing_state subs = (snd (create_endpoint sample_endpoint sample_pubsub))\<lparr>ps_topics := [(1, sample_topic)],
     ps_topic_name_to_id := [(''/a'', 1)], ps_subscriptions_by_topic := [(''/a'', subs)],
     ps_db := sample_db\<lparr>db_topics := [\<lparr>st_id = 1, st_cluster_id = 1, st_current_depth_gd = 0,
       st_last_pub_time = None\<rparr>]\<rparr>\<rparr>"

theorem no_guaranteed_messages_for_two_subscribers_witness:
  "ps_db (snd (publish_handle sample_env (sample_input True ''hello'')
      (publishing_state [topic_subscription 1 ''k1'', topic_subscription 2 ''k2'']))) =
   ps_db (publishing_state [topic_subscription 1 ''k1'', topic_subscription 2 ''k2''])"
proof -
  have "2 \<le> length (get_subscriptions_by_topic (pi_topic_name (sample_input True ''hello''))
      (publishing_state [topic_subscription 1 ''k1'', topic_subscription 2 ''k2'']))"
    by (simp add: get_subscriptions_by_topic_def publishing_state_def sample_input_def dict_get_def)
  from no_guaranteed_messages_for_two_subscribers [OF this, of sample_env] show ?thesis by blast
qed

section \<open>The depth of a topic\<close>

definition depth_ok :: "pubsub \<Rightarrow> bool" where
  "depth_ok s \<longleftrightarrow> distinct (map (\<lambda>r. (st_id r, st_cluster_id r)) (db_topics (ps_db s))) \<and>
     (\<forall>i t. map_of (ps_topics s) i = Some t \<longrightarrow> tp_id t = i \<and> (tp_gd_depth_check_freq t = 1 \<longrightarrow>
       (\<forall>r \<in> set (db_topics (ps_db s)). st_id r = i \<longrightarrow> st_cluster_id r = sv_cluster_id (ps_server s) \<longrightarrow>
          st_current_depth_gd r \<le> tp_max_depth_gd t)))"

definition deepen :: "int \<Rightarrow> int \<Rightarrow> int \<Rightarrow> int \<Rightarrow> sql_topic \<Rightarrow> sql_topic" where
  "deepen cluster topic now n r =
     (if st_id r = topic \<and> st_cluster_id r = cluster
      then r\<lparr>st_current_depth_gd := st_current_depth_gd r + n, st_last_pub_time := Some now\<rparr> else r)"

lemma deepen_simps [simp]:
  "st_id (deepen c i now n r) = st_id r" "st_cluster_id (deepen c i now n r) = st_cluster_id r"
  "st_current_depth_gd (deepen c i now n r) =
     st_current_depth_gd r + (if st_id r = i \<and> st_cluster_id r = c then n else 0)"
  by (simp_all add: deepen_def)

lemma keeps_topics_insert:
  "keeps (\<lambda>db. db_topics db = T) (insert_topic_messages msgs)"
  "keeps (\<lambda>db. db_topics db = T) (insert_queue_messages c subs msgs i now)"
  unfolding insert_topic_messages_def insert_queue_messages_def Let_def by (intro keeps_intros; simp)+

text \<open>A committed publication adds its messages to the depth of its topic; when the depth is checked,
  the result is within the maximum.\<close>

lemma publish_transaction_depth:
  assumes "publish_transaction check c t subs gd now db = (Inr (), db')"
  shows "db_topics db' = map (deepen c (tp_id t) now (int (length gd))) (db_topics db)"
    and "check \<Longrightarrow> distinct (map (\<lambda>r. (st_id r, st_cluster_id r)) (db_topics db)) \<Longrightarrow> r \<in> set (db_topics db) \<Longrightarrow>
      st_id r = tp_id t \<Longrightarrow> st_cluster_id r = c \<Longrightarrow> st_current_depth_gd r + int (length gd) \<le> tp_max_depth_gd t"
proof -
  let ?n = "int (length gd)"
  let ?checks = "py_when check (py_bind (get_topic_depth c (tp_id t)) (\<lambda>depth.
      py_when (depth + ?n > tp_max_depth_gd t) (py_raise ServiceUnavailable))) :: (sql_db, unit) py"
  let ?rows = "filter (\<lambda>r. st_id r = tp_id t \<and> st_cluster_id r = c) (db_topics db)"
  have unchanged: "snd (?checks db) = db"
    by (simp add: py_when_def py_bind_def get_topic_depth_def py_run split: list.split)
  have checks: "?checks db = (Inr (), db)"
    using assms unchanged by (cases "?checks db") (auto simp: publish_transaction_def py_seq_def split: sum.splits)
  let ?db = "db_topics_update (map (deepen c (tp_id t) now ?n)) db"
  let ?rest = "py_seq (insert_topic_messages gd) (py_when (subs \<noteq> []) (insert_queue_messages c
      (map (\<lambda>b. \<lparr>ss_id = sb_id b, ss_sub_key = sb_sub_key b, ss_endpoint_id = sb_endpoint_id b,
             ss_cluster_id = sb_cluster_id b, ss_server_id = (case sb_server_id b of None \<Rightarrow> 0 | Some i \<Rightarrow> i)\<rparr>) subs)
          gd (tp_id t) now))"
  have incr: "incr_topic_depth c (tp_id t) now ?n db = (Inr (), ?db)"
    unfolding incr_topic_depth_def py_modify_def deepen_def by simp
  have eq: "publish_transaction check c t subs gd now db = ?rest ?db"
    unfolding publish_transaction_def py_seq_Inr [of ?checks, OF checks]
    by (rule py_seq_Inr [where m = "incr_topic_depth c (tp_id t) now ?n", OF incr])
  have rest: "?rest ?db = (Inr (), db')" by (rule trans [OF eq [symmetric] assms])
  have db': "snd (?rest ?db) = db'" unfolding rest by (rule snd_conv)
  have keep: "keeps (\<lambda>d. db_topics d = db_topics ?db) ?rest"
    by (intro keeps_intros keeps_topics_insert)
  have "db_topics (snd (?rest ?db)) = db_topics ?db" by (rule keepsD [OF keep]) (rule refl)
  then have "db_topics db' = db_topics ?db" by (simp only: db')
  then show "db_topics db' = map (deepen c (tp_id t) now ?n) (db_topics db)" by simp
  assume check and dist: "distinct (map (\<lambda>r. (st_id r, st_cluster_id r)) (db_topics db))"
    and r: "r \<in> set (db_topics db)" "st_id r = tp_id t" "st_cluster_id r = c"
  have "r \<in> set ?rows" using r by simp
  then obtain r0 others where rows: "?rows = r0 # others" by (cases ?rows) auto
  have "r0 \<in> set ?rows" unfolding rows by simp
  then have r0: "r0 \<in> set (db_topics db)" "st_id r0 = tp_id t" "st_cluster_id r0 = c" by simp_all
  then have "r0 = r" using dist r by (simp add: distinct_map inj_on_def)
  moreover have "\<not> st_current_depth_gd r0 + ?n > tp_max_depth_gd t"
    using checks \<open>check\<close> rows by (auto simp: py_when_def py_bind_def get_topic_depth_def py_get_def py_ret_def py_raise_def
        split: if_splits)
  ultimately show "st_current_depth_gd r + ?n \<le> tp_max_depth_gd t" by simp
qed

lemma depth_ok_core:
  "same_core s u \<Longrightarrow> depth_ok s \<Longrightarrow> depth_ok u"
  by (simp add: same_core_def depth_ok_def)

lemma depth_ok_other_fields [simp]:
  "depth_ok (ps_jobs_update f u) = depth_ok u" "depth_ok (ps_notified_update g u) = depth_ok u"
  "depth_ok (ps_sub_key_servers_update h u) = depth_ok u" "depth_ok (ps_in_ram_backlog_update k u) = depth_ok u"
  by (simp_all add: depth_ok_def)

lemma depth_ok_check:
  assumes "depth_ok u" shows "depth_ok (ps_topics_update (dict_mutate i incr_gd_depth_check) u)"
  using assms unfolding depth_ok_def by (auto simp: dict_simps incr_gd_depth_check_def split: if_splits)

lemma depth_ok_committed:
  assumes ok: "depth_ok u" and t: "map_of (ps_topics u) (tp_id t) = Some t"
    and check: "needs_gd_depth_check t = Inr check"
    and run: "publish_transaction check (sv_cluster_id (ps_server u)) t subs gd now (ps_db u) = (Inr (), db)"
  shows "depth_ok (u\<lparr>ps_db := db\<rparr>)"
proof -
  let ?c = "sv_cluster_id (ps_server u)"
  let ?f = "deepen ?c (tp_id t) now (int (length gd))"
  have dist: "distinct (map (\<lambda>r. (st_id r, st_cluster_id r)) (db_topics (ps_db u)))" using ok by (simp add: depth_ok_def)
  have rows: "db_topics db = map ?f (db_topics (ps_db u))" by (rule publish_transaction_depth(1) [OF run])
  have "map (\<lambda>r. (st_id r, st_cluster_id r)) (db_topics db) =
      map (\<lambda>r. (st_id r, st_cluster_id r)) (db_topics (ps_db u))" by (simp add: rows)
  then have "distinct (map (\<lambda>r. (st_id r, st_cluster_id r)) (db_topics db))" using dist by simp
  moreover have "tp_id t' = i \<and> (tp_gd_depth_check_freq t' = 1 \<longrightarrow> (\<forall>r \<in> set (db_topics db). st_id r = i \<longrightarrow>
      st_cluster_id r = ?c \<longrightarrow> st_current_depth_gd r \<le> tp_max_depth_gd t'))"
    if t': "map_of (ps_topics u) i = Some t'" for i t'
  proof (intro conjI impI ballI)
    show "tp_id t' = i" using ok t' unfolding depth_ok_def by blast
    fix r assume freq: "tp_gd_depth_check_freq t' = 1" and r: "r \<in> set (db_topics db)" "st_id r = i" "st_cluster_id r = ?c"
    then obtain r' where r': "r' \<in> set (db_topics (ps_db u))" "r = ?f r'" by (auto simp: rows)
    then have same: "st_id r' = i" "st_cluster_id r' = ?c" using r by simp_all
    show "st_current_depth_gd r \<le> tp_max_depth_gd t'"
    proof (cases "i = tp_id t")
      case True
      then have "t' = t" using t t' by simp
      with freq check have check: check by (auto simp: needs_gd_depth_check_def)
      from publish_transaction_depth(2) [OF run this dist r'(1)] same True \<open>t' = t\<close> r'(2)
      show ?thesis by simp
    next
      case False
      have "st_current_depth_gd r' \<le> tp_max_depth_gd t'"
        using ok t' freq r'(1) same unfolding depth_ok_def by blast
      with False same r'(2) show ?thesis by simp
    qed
  qed
  ultimately show ?thesis by (simp add: depth_ok_def)
qed

lemma depth_ok_publish_gd:
  assumes ok: "depth_ok u" and t: "map_of (ps_topics u) i = Some t"
  shows "depth_ok (snd (publish_gd t subs gd now endpoint_id pattern u))"
proof -
  let ?t = "incr_gd_depth_check t"
  have id: "tp_id t = i" using ok t unfolding depth_ok_def by blast
  let ?u = "ps_topics_update (dict_mutate (tp_id t) incr_gd_depth_check) u"
  have ok': "depth_ok ?u" by (rule depth_ok_check [OF ok])
  have id': "tp_id ?t = i" using id by (simp add: incr_gd_depth_check_def)
  then have t': "map_of (ps_topics ?u) (tp_id ?t) = Some ?t" using t id by (simp add: dict_simps)
  show ?thesis
  proof (cases "needs_gd_depth_check ?t")
    case (Inl e)
    then show ?thesis using ok'
      by (simp add: publish_gd_def py_seq_def py_modify_def py_bind_def py_sum_def py_raise_def Let_def)
  next
    case (Inr check)
    let ?run = "publish_transaction check (sv_cluster_id (ps_server ?u)) ?t subs gd now"
    obtain q db where run: "?run (ps_db ?u) = (q, db)" by fastforce
    have gd_run: "publish_gd t subs gd now endpoint_id pattern u =
        py_seq (in_transaction ?run) (spawn_job (UpdatePubMetadata (tp_id t) endpoint_id now gd pattern)) ?u"
      using Inr by (simp add: publish_gd_def py_seq_def py_modify_def py_bind_def py_sum_def py_ret_def py_get_def Let_def)
    show ?thesis
    proof (cases q)
      case (Inl e)
      then have "in_transaction ?run ?u = (Inl e, ?u)" using run by (simp add: in_transaction_def)
      then show ?thesis using ok' unfolding gd_run by (simp add: py_seq_def)
    next
      case (Inr x)
      then have "in_transaction ?run ?u = (Inr (), ?u\<lparr>ps_db := db\<rparr>)" using run by (simp add: in_transaction_def)
      moreover have "depth_ok (?u\<lparr>ps_db := db\<rparr>)"
        using depth_ok_committed [OF ok' t' \<open>needs_gd_depth_check ?t = Inr check\<close>] run Inr by simp
      ultimately show ?thesis unfolding gd_run by (simp add: py_seq_def spawn_job_def py_modify_def)
    qed
  qed
qed

lemma depth_ok_publish:
  assumes ok: "depth_ok s" shows "depth_ok (snd (publish_handle env input s))"
proof (cases rule: publish_handle_cases [of env input s])
  case (1 e u)
  then show ?thesis using ok depth_ok_core by simp
next
  case (2 i pattern t now ids gd non_gd u)
  have u: "depth_ok u" using depth_ok_core [OF 2(3) ok] .
  obtain j where "map_of (ps_topics s) j = Some t"
    using 2(2) by (auto simp: get_topic_by_name_def get_topic_id_by_name_def py_bind_def item_get_run split: option.splits)
  then have t: "map_of (ps_topics u) j = Some t" using 2(3) by (simp add: same_core_def)
  let ?subs = "get_subscriptions_by_topic (pi_topic_name input) s"
  let ?last = "py_seq (py_when (?subs \<noteq> [] \<and> (non_gd \<noteq> [] \<or> gd \<noteq> []))
         (spawn_job (AfterPublish (tp_id t) (tp_name t) ?subs non_gd (gd \<noteq> []))))
       (if length gd + length non_gd = 1
        then py_bind (py_value IndexError (case ids of [] \<Rightarrow> None | i # _ \<Rightarrow> Some i)) (\<lambda>i. py_ret (SingleId i))
        else py_ret (IdList ids))"
  have last: "keeps depth_ok ?last" unfolding spawn_job_def by (intro keeps_intros) simp_all
  obtain q v where first: "py_when (gd \<noteq> []) (publish_gd t ?subs gd now i pattern) u = (q, v)" by fastforce
  have "depth_ok v"
    using first depth_ok_publish_gd [OF u t, of ?subs gd now i pattern] u
    by (auto simp: py_when_def py_ret_def split: if_splits)
  then show ?thesis
    using first keepsD [OF last, of v] unfolding 2(5) publish_messages_def
    by (cases q) (simp_all add: py_seq_def)
qed

lemma depth_ok_metadata:
  assumes ok: "depth_ok s" shows "depth_ok (snd (update_pub_metadata topic_id endpoint_id now gd pattern s))"
proof (cases "gd = []")
  case True
  with ok show ?thesis by (simp add: update_pub_metadata_def py_raise_def)
next
  case False
  let ?m = "update_publish_metadata (sv_cluster_id (ps_server s)) topic_id endpoint_id now pattern
      (pm_pub_msg_id (last gd)) (pm_pub_correl_id (last gd)) (pm_ext_client_id (last gd)) (pm_in_reply_to (last gd))"
  have keep: "keeps (\<lambda>db. db_topics db = db_topics (ps_db s)) ?m"
    unfolding update_publish_metadata_def Let_def by (intro keeps_intros) simp_all
  obtain r db where run: "?m (ps_db s) = (r, db)" by fastforce
  have "db_topics db = db_topics (ps_db s)" using keepsD [OF keep refl] run by simp
  then have "depth_ok (s\<lparr>ps_db := db\<rparr>)" using ok by (simp add: depth_ok_def)
  then show ?thesis using False ok run
    by (simp add: update_pub_metadata_def py_bind_def py_get_def in_transaction_def split: sum.split)
qed

lemma keeps_depth_ok_after_publish: "keeps depth_ok (after_publish env cid topic_id topic_name subs msgs gd)"
proof -
  have backlog: "keeps depth_ok (with_backlog m)" for m :: "(backlog, unit) py"
    by (simp add: keeps_def with_backlog_def split: prod.split)
  have missing: "keeps depth_ok (add_missing_server_for_sub_key k)" for k
    unfolding add_missing_server_for_sub_key_def get_server_pid_for_sub_key_def set_sub_key_server_def
    by (intro keeps_intros) (auto intro!: keeps_intros split: sum.split option.split)
  have servers: "keeps depth_ok (task_servers_loop ks found not_found)" for ks found not_found
    by (induction ks arbitrary: found not_found) (auto intro!: keeps_intros missing)
  have notify: "keeps depth_ok (notify_loop env msgs gd entries)" for entries
    by (induction entries) (auto intro!: keeps_intros simp: Let_def)
  show ?thesis
    unfolding after_publish_def get_task_servers_by_sub_keys_def notify_pub_sub_def store_in_ram_def split_def
    by (intro keeps_intros backlog servers notify)
qed

datatype publish_event = PublishMessage publish_input | RunJob string pubsub_job

definition publish_step :: "publish_env \<Rightarrow> publish_event \<Rightarrow> (pubsub, unit) py" where
  "publish_step env e = (case e of
     PublishMessage input \<Rightarrow> py_bind (publish_handle env input) (\<lambda>_. py_ret ())
   | RunJob cid j \<Rightarrow> run_job env cid j)"

lemma publish_step_depth_ok: "depth_ok s \<Longrightarrow> depth_ok (snd (publish_step env e s))"
proof (cases e)
  case (PublishMessage input)
  have "keeps depth_ok (publish_handle env input)" by (rule keepsI) (rule depth_ok_publish)
  then have "keeps depth_ok (py_bind (publish_handle env input) (\<lambda>_. py_ret ()))" by (intro keeps_intros)
  then show "depth_ok s \<Longrightarrow> depth_ok (snd (publish_step env e s))"
    using PublishMessage by (simp add: publish_step_def keeps_def)
next
  case (RunJob cid j)
  then show "depth_ok s \<Longrightarrow> depth_ok (snd (publish_step env e s))"
    by (cases j) (simp_all add: publish_step_def run_job_def depth_ok_metadata
        keepsD [OF keeps_depth_ok_after_publish])
qed

section \<open>The messages of a topic\<close>

text \<open>The guaranteed messages stored for a topic of a cluster; the counters of the topics cover them.\<close>

definition stored_messages :: "int \<Rightarrow> int \<Rightarrow> sql_db \<Rightarrow> pub_msg list" where
  "stored_messages topic cluster db =
     filter (\<lambda>m. pm_topic_id m = topic \<and> pm_cluster_id m = cluster) (db_messages db)"

definition counted :: "sql_db \<Rightarrow> bool" where
  "counted db \<longleftrightarrow> (\<forall>r \<in> set (db_topics db).
     int (length (stored_messages (st_id r) (st_cluster_id r) db)) \<le> st_current_depth_gd r)"

text \<open>A hook service changes neither the topic of a message nor its cluster.\<close>

definition hooks_keep_topics :: "publish_env \<Rightarrow> bool" where
  "hooks_keep_topics env \<longleftrightarrow> (\<forall>service m b m'. en_hook env service m = Inr (b, m') \<longrightarrow>
     pm_topic_id m' = pm_topic_id m \<and> pm_cluster_id m' = pm_cluster_id m)"

definition for_topic :: "int \<Rightarrow> int \<Rightarrow> pub_msg \<Rightarrow> bool" where
  "for_topic topic cluster m \<longleftrightarrow> pm_topic_id m = topic \<and> pm_cluster_id m = cluster"

lemma keeps_runD: "keeps I m \<Longrightarrow> I s \<Longrightarrow> m s = (r, u) \<Longrightarrow> I u"
  using keepsD [of I m s] by force

lemma bind_InrE:
  assumes "py_bind m f s = (Inr x, u)"
  obtains y v where "m s = (Inr y, v)" "f y v = (Inr x, u)"
  using assms by (auto simp: py_bind_def split: prod.splits sum.splits)

lemma get_message_topic:
  assumes "hooks_keep_topics env" "get_message env t input now pattern i s = (Inr (Some m), u)"
  shows "for_topic (tp_id t) (sv_cluster_id (ps_server s)) m"
proof -
  have prefixes: "set_prefixes gd x = Inr y \<Longrightarrow> for_topic a c y = for_topic a c x" for gd x y a c
    by (auto simp: set_prefixes_def for_topic_def split: if_splits sum.splits)
  have hook: "call_hook env t x = Inr (Some y) \<Longrightarrow> for_topic a c x \<Longrightarrow> for_topic a c y" for x y a c
    using assms(1) by (auto simp: call_hook_def for_topic_def hooks_keep_topics_def split: option.splits sum.splits bool.splits)
  have new: "for_topic (tp_id t) c (new_message t input now pattern i c k p e gd ext data)" for c k p e gd ext data
    by (simp add: new_message_def for_topic_def)
  have made: "for_topic (tp_id t) c y" if "call_hook env t (new_message t input now pattern i c k p e gd ext data) = Inr (Some x)"
      "set_prefixes gd' x = Inr y" for c k p e gd ext data gd' x y
    using prefixes [OF that(2)] hook [OF that(1) new] by blast
  have ids: "ps_server v = ps_server s"
    if "(if utf8 (mi_msg_id input) = [] then new_msg_id env else py_ret (utf8 (mi_msg_id input))) s = (x, v)" for x v
    using that by (cases "utf8 (mi_msg_id input) = []") (auto simp: new_msg_id_def py_run)
  from assms(2) show ?thesis unfolding get_message_def
    by (elim bind_InrE) (auto simp: py_sum_def py_ret_def py_get_def py_value_def py_raise_def ids
        intro: made elim!: bind_InrE split: sum.splits option.splits)
qed

lemma get_messages_topic:
  assumes "hooks_keep_topics env"
  shows "get_messages env t is now pattern i s = (Inr ms, u) \<Longrightarrow>
    list_all (for_topic (tp_id t) (sv_cluster_id (ps_server s))) ms"
proof (induction "is" arbitrary: s ms)
  case (Cons input "is")
  from Cons.prems obtain r v ms' where r: "get_message env t input now pattern i s = (Inr r, v)"
    and ms': "get_messages env t is now pattern i v = (Inr ms', u)" "ms = (case r of None \<Rightarrow> ms' | Some m \<Rightarrow> m # ms')"
    by (auto simp: py_bind_def py_ret_def split: prod.splits sum.splits)
  have "ps_server v = ps_server s"
    using keepsD [OF keeps_same_core_message, of s s env t input now pattern i] r by (simp add: same_core_def)
  with Cons.IH [OF ms'(1)] ms'(2) get_message_topic [OF assms, of t input now pattern i s] r
  show ?case by (auto split: option.splits)
qed (simp add: py_ret_def)

lemma get_messages_from_data_topic:
  assumes "hooks_keep_topics env" "get_messages_from_data env t input now pattern i s = (Inr (ids, gd, non_gd), u)"
  shows "list_all (for_topic (tp_id t) (sv_cluster_id (ps_server s))) gd"
  using assms(2) get_messages_topic [OF assms(1)]
  by (auto simp: get_messages_from_data_def py_bind_def py_ret_def list_all_iff split: prod.splits sum.splits)

lemma keeps_counted:
  "keeps (\<lambda>db. db_messages db = M) (incr_topic_depth c i now n)"
  "keeps (\<lambda>db. db_messages db = M) (insert_queue_messages c subs msgs i now)"
  unfolding incr_topic_depth_def insert_queue_messages_def Let_def by (intro keeps_intros; simp)+

lemma publish_transaction_messages:
  assumes "publish_transaction check c t subs gd now db = (Inr (), db')"
  shows "db_messages db' = db_messages db @ gd"
proof -
  have step: "\<exists>u. m s = (Inr (), u) \<and> n u = (Inr (), v)" if "py_seq m n s = (Inr (), v)"
    for m n :: "(sql_db, unit) py" and s v
    using that by (auto simp: py_seq_def split: prod.splits sum.splits)
  from step [OF assms [unfolded publish_transaction_def]] obtain d1 where
    d1: "py_when check (py_bind (get_topic_depth c (tp_id t)) (\<lambda>depth.
       py_when (depth + int (length gd) > tp_max_depth_gd t) (py_raise ServiceUnavailable))) db = (Inr (), d1)"
    and r1: "py_seq (incr_topic_depth c (tp_id t) now (int (length gd))) (py_seq (insert_topic_messages gd)
       (py_when (subs \<noteq> []) (insert_queue_messages c
          (map (\<lambda>b. \<lparr>ss_id = sb_id b, ss_sub_key = sb_sub_key b, ss_endpoint_id = sb_endpoint_id b,
             ss_cluster_id = sb_cluster_id b, ss_server_id = (case sb_server_id b of None \<Rightarrow> 0 | Some i \<Rightarrow> i)\<rparr>) subs)
          gd (tp_id t) now))) d1 = (Inr (), db')" by blast
  have k1: "keeps (\<lambda>d. db_messages d = db_messages db) (py_when check (py_bind (get_topic_depth c (tp_id t)) (\<lambda>depth.
       py_when (depth + int (length gd) > tp_max_depth_gd t) (py_raise ServiceUnavailable))))"
    unfolding get_topic_depth_def by (intro keeps_intros) (auto intro: keeps_intros split: list.split)
  from keepsD [OF k1, of db] d1 have e1: "db_messages d1 = db_messages db" by simp
  from step [OF r1] obtain d2 where d2: "incr_topic_depth c (tp_id t) now (int (length gd)) d1 = (Inr (), d2)"
    and r2: "py_seq (insert_topic_messages gd) (py_when (subs \<noteq> []) (insert_queue_messages c
          (map (\<lambda>b. \<lparr>ss_id = sb_id b, ss_sub_key = sb_sub_key b, ss_endpoint_id = sb_endpoint_id b,
             ss_cluster_id = sb_cluster_id b, ss_server_id = (case sb_server_id b of None \<Rightarrow> 0 | Some i \<Rightarrow> i)\<rparr>) subs)
          gd (tp_id t) now)) d2 = (Inr (), db')" by blast
  from keepsD [OF keeps_counted(1), of d1 "db_messages d1" c "tp_id t" now "int (length gd)"] d2
  have e2: "db_messages d2 = db_messages db" using e1 by simp
  from step [OF r2] obtain d3 where d3: "insert_topic_messages gd d2 = (Inr (), d3)"
    and r3: "py_when (subs \<noteq> []) (insert_queue_messages c
          (map (\<lambda>b. \<lparr>ss_id = sb_id b, ss_sub_key = sb_sub_key b, ss_endpoint_id = sb_endpoint_id b,
             ss_cluster_id = sb_cluster_id b, ss_server_id = (case sb_server_id b of None \<Rightarrow> 0 | Some i \<Rightarrow> i)\<rparr>) subs)
          gd (tp_id t) now) d3 = (Inr (), db')" by blast
  have e3: "db_messages d3 = db_messages db @ gd"
    using d3 e2 by (auto simp: insert_topic_messages_def py_bind_def py_get_def py_modify_def py_raise_def split: if_splits)
  have k3: "keeps (\<lambda>d. db_messages d = db_messages d3) (py_when b (insert_queue_messages c ss gd (tp_id t) now))" for b ss
    by (intro keeps_when keeps_counted(2))
  have "db_messages db' = db_messages d3" by (rule keeps_runD [OF k3 refl r3])
  with e3 show ?thesis by simp
qed

lemma counted_committed:
  assumes counted: "counted db" and gd: "list_all (for_topic (tp_id t) c) gd"
    and run: "publish_transaction check c t subs gd now db = (Inr (), db')"
  shows "counted db'"
  unfolding counted_def
proof
  fix r assume "r \<in> set (db_topics db')"
  then obtain r' where r': "r' \<in> set (db_topics db)" and r: "r = deepen c (tp_id t) now (int (length gd)) r'"
    using publish_transaction_depth(1) [OF run] by auto
  have "stored_messages (st_id r') (st_cluster_id r') db' = stored_messages (st_id r') (st_cluster_id r') db @
      (if st_id r' = tp_id t \<and> st_cluster_id r' = c then gd else [])"
    using gd unfolding stored_messages_def publish_transaction_messages [OF run]
    by (auto simp: list_all_iff for_topic_def intro!: filter_True filter_False)
  moreover have "int (length (stored_messages (st_id r') (st_cluster_id r') db)) \<le> st_current_depth_gd r'"
    using counted r' by (simp add: counted_def)
  ultimately show "int (length (stored_messages (st_id r) (st_cluster_id r) db')) \<le> st_current_depth_gd r"
    by (auto simp: r)
qed

lemma counted_publish_gd:
  assumes counted: "counted (ps_db u)" and gd: "list_all (for_topic (tp_id t) (sv_cluster_id (ps_server u))) gd"
  shows "counted (ps_db (snd (publish_gd t subs gd now endpoint_id pattern u)))"
proof -
  let ?t = "incr_gd_depth_check t" and ?u = "ps_topics_update (dict_mutate (tp_id t) incr_gd_depth_check) u"
  have id: "tp_id ?t = tp_id t" by (simp add: incr_gd_depth_check_def)
  show ?thesis
  proof (cases "needs_gd_depth_check ?t")
    case (Inl e)
    then show ?thesis using counted
      by (simp add: publish_gd_def py_seq_def py_modify_def py_bind_def py_sum_def py_raise_def Let_def)
  next
    case (Inr check)
    let ?run = "publish_transaction check (sv_cluster_id (ps_server u)) ?t subs gd now"
    obtain q db where run: "?run (ps_db u) = (q, db)" by fastforce
    have gd_run: "publish_gd t subs gd now endpoint_id pattern u =
        py_seq (in_transaction ?run) (spawn_job (UpdatePubMetadata (tp_id t) endpoint_id now gd pattern)) ?u"
      using Inr by (simp add: publish_gd_def py_seq_def py_modify_def py_bind_def py_sum_def py_ret_def py_get_def Let_def)
    have "counted db" if "q = Inr ()"
      using counted_committed [OF counted, of ?t "sv_cluster_id (ps_server u)" gd check subs now db] gd run that id by simp
    then show ?thesis using run counted unfolding gd_run
      by (cases q) (simp_all add: py_seq_def in_transaction_def spawn_job_def py_modify_def)
  qed
qed

lemma counted_publish:
  assumes hooks: "hooks_keep_topics env" and counted: "counted (ps_db s)"
  shows "counted (ps_db (snd (publish_handle env input s)))"
proof (cases rule: publish_handle_cases [of env input s])
  case (1 e u)
  then show ?thesis using counted by (simp add: same_core_def)
next
  case (2 i pattern t now ids gd non_gd u)
  have u: "ps_db u = ps_db s" "ps_server u = ps_server s" using 2(3) by (simp_all add: same_core_def)
  have gd: "list_all (for_topic (tp_id t) (sv_cluster_id (ps_server u))) gd"
    using get_messages_from_data_topic [OF hooks 2(4)] u by simp
  let ?subs = "get_subscriptions_by_topic (pi_topic_name input) s"
  let ?last = "py_seq (py_when (?subs \<noteq> [] \<and> (non_gd \<noteq> [] \<or> gd \<noteq> []))
         (spawn_job (AfterPublish (tp_id t) (tp_name t) ?subs non_gd (gd \<noteq> []))))
       (if length gd + length non_gd = 1
        then py_bind (py_value IndexError (case ids of [] \<Rightarrow> None | i # _ \<Rightarrow> Some i)) (\<lambda>i. py_ret (SingleId i))
        else py_ret (IdList ids))"
  have last: "keeps (\<lambda>s. counted (ps_db s)) ?last" unfolding spawn_job_def by (intro keeps_intros) simp_all
  obtain q v where first: "py_when (gd \<noteq> []) (publish_gd t ?subs gd now i pattern) u = (q, v)" by fastforce
  have "counted (ps_db v)"
    using first counted_publish_gd [of u t gd ?subs now i pattern] gd counted u
    by (auto simp: py_when_def py_ret_def split: if_splits)
  then show ?thesis
    using first keepsD [OF last, of v] unfolding 2(5) publish_messages_def
    by (cases q) (simp_all add: py_seq_def)
qed

lemma counted_metadata:
  "counted (ps_db s) \<Longrightarrow> counted (ps_db (snd (update_pub_metadata topic_id endpoint_id now gd pattern s)))"
proof -
  assume counted: "counted (ps_db s)"
  have keep: "keeps (\<lambda>db. db_topics db = db_topics (ps_db s) \<and> db_messages db = db_messages (ps_db s))
      (update_publish_metadata c i e now p l1 l2 l3 l4)" for c i e p l1 l2 l3 l4
    unfolding update_publish_metadata_def Let_def by (intro keeps_intros) simp_all
  have "counted db" if "update_publish_metadata c i e now p l1 l2 l3 l4 (ps_db s) = (r, db)" for r db c i e p l1 l2 l3 l4
    using keeps_runD [OF keep _ that] counted by (simp add: counted_def stored_messages_def)
  then show ?thesis using counted
    by (auto simp: update_pub_metadata_def py_bind_def py_get_def py_raise_def in_transaction_def split: sum.split prod.split)
qed

lemma keeps_counted_after_publish: "keeps (\<lambda>s. counted (ps_db s)) (after_publish env cid topic_id topic_name subs msgs gd)"
proof -
  have backlog: "keeps (\<lambda>s. counted (ps_db s)) (with_backlog m)" for m :: "(backlog, unit) py"
    by (simp add: keeps_def with_backlog_def split: prod.split)
  have missing: "keeps (\<lambda>s. counted (ps_db s)) (add_missing_server_for_sub_key k)" for k
    unfolding add_missing_server_for_sub_key_def get_server_pid_for_sub_key_def set_sub_key_server_def
    by (intro keeps_intros) (auto intro!: keeps_intros split: sum.split option.split)
  have servers: "keeps (\<lambda>s. counted (ps_db s)) (task_servers_loop ks found not_found)" for ks found not_found
    by (induction ks arbitrary: found not_found) (auto intro!: keeps_intros missing)
  have notify: "keeps (\<lambda>s. counted (ps_db s)) (notify_loop env msgs gd entries)" for entries
    by (induction entries) (auto intro!: keeps_intros simp: Let_def)
  show ?thesis
    unfolding after_publish_def get_task_servers_by_sub_keys_def notify_pub_sub_def store_in_ram_def split_def
    by (intro keeps_intros backlog servers notify)
qed

lemma publish_step_counted:
  assumes "hooks_keep_topics env" "counted (ps_db s)" shows "counted (ps_db (snd (publish_step env e s)))"
proof (cases e)
  case (PublishMessage input)
  have "keeps (\<lambda>s. counted (ps_db s)) (publish_handle env input)"
    by (rule keepsI) (rule counted_publish [OF assms(1)])
  then have "keeps (\<lambda>s. counted (ps_db s)) (py_bind (publish_handle env input) (\<lambda>_. py_ret ()))" by (intro keeps_intros)
  then show ?thesis using PublishMessage assms(2) by (simp add: publish_step_def keeps_def)
next
  case (RunJob cid j)
  then show ?thesis using assms(2)
    by (cases j) (simp_all add: publish_step_def run_job_def counted_metadata
        keepsD [OF keeps_counted_after_publish])
qed

interpretation publisher: py_object "publish_step env" "\<lambda>_ _. True"
    "\<lambda>s. depth_ok s \<and> (hooks_keep_topics env \<longrightarrow> counted (ps_db s))" for env
  by unfold_locales (blast intro: publish_step_depth_ok publish_step_counted)

text \<open>Claim C1: publishing never makes a topic hold more guaranteed messages than its maximum. When the
  depth of the topic is checked at each publication, and the counters of topics cover the messages that
  are stored for them and stay within the maximum at first, then after every run of publications and of
  what they start in background, whichever of them fail, the messages stored for the topic are no more
  than its counter says, and this is within the maximum. Hook services may change messages, but neither
  their topic nor their cluster.\<close>

theorem topic_depth_bounded:
  assumes "reach (publish_step env) (\<lambda>_ _. True) s0 s" "depth_ok s0" "counted (ps_db s0)" "hooks_keep_topics env"
    and "map_of (ps_topics s) i = Some t" "tp_gd_depth_check_freq t = 1"
    and "r \<in> set (db_topics (ps_db s))" "st_id r = i" "st_cluster_id r = sv_cluster_id (ps_server s)"
  shows "int (length (stored_messages i (sv_cluster_id (ps_server s)) (ps_db s))) \<le> st_current_depth_gd r \<and>
    st_current_depth_gd r \<le> tp_max_depth_gd t"
proof -
  from publisher.reach_inv [OF assms(1)] assms(2-4) have "depth_ok s" "counted (ps_db s)" by blast+
  then have "int (length (stored_messages (st_id r) (st_cluster_id r) (ps_db s))) \<le> st_current_depth_gd r"
    and "st_current_depth_gd r \<le> tp_max_depth_gd t"
    using assms(5-9) unfolding depth_ok_def counted_def by blast+
  with assms(8,9) show ?thesis by simp
qed

theorem topic_depth_bounded_witness:
  "\<exists>r. db_topics (ps_db (snd (publish_step sample_env (PublishMessage (sample_input True ''hello''))
      (publishing_state [])))) = [r] \<and>
    int (length (stored_messages 1 1 (ps_db (snd (publish_step sample_env (PublishMessage (sample_input True ''hello''))
      (publishing_state [])))))) \<le> st_current_depth_gd r \<and> st_current_depth_gd r \<le> 1"
proof -
  let ?s = "snd (publish_step sample_env (PublishMessage (sample_input True ''hello'')) (publishing_state []))"
  have ok: "depth_ok (publishing_state [])"
    by (simp add: depth_ok_def publishing_state_def sample_topic_def)
  have counted: "counted (ps_db (publishing_state []))" by code_simp
  have hooks: "hooks_keep_topics sample_env" by (simp add: hooks_keep_topics_def sample_env_def)
  have run: "reach (publish_step sample_env) (\<lambda>_ _. True) (publishing_state []) ?s"
    by (rule reach_step [OF reach_start]) simp
  have s: "map_of (ps_topics ?s) 1 = Some (incr_gd_depth_check sample_topic)" "ps_server ?s = sample_server"
    "map (\<lambda>r. (st_id r, st_cluster_id r)) (db_topics (ps_db ?s)) = [(1, 1)]" by code_simp+
  then obtain r where r: "db_topics (ps_db ?s) = [r]" "st_id r = 1" "st_cluster_id r = 1" by auto
  have "sv_cluster_id (ps_server ?s) = 1" "tp_gd_depth_check_freq (incr_gd_depth_check sample_topic) = 1"
    "tp_max_depth_gd (incr_gd_depth_check sample_topic) = 1"
    by (simp_all add: s(2) sample_server_def incr_gd_depth_check_def sample_topic_def)
  with topic_depth_bounded [OF run ok counted hooks s(1), of r] r show ?thesis by auto
qed

section \<open>Text outside of ASCII\<close>

lemma is_ascii_utf8: "is_ascii (utf8 cs) \<longleftrightarrow> is_ascii cs"
proof -
  have "(\<forall>d \<in> set (utf8_char c). of_char d < (128 :: nat)) \<longleftrightarrow> of_char c < (128 :: nat)" for c
  proof (cases "of_char c < (128 :: nat)")
    case False
    have "of_char c < (256 :: nat)" by (rule nat_of_char_less_256)
    then have "of_char c div 64 < (4 :: nat)" using nat_of_char_less_256 [of c] by linarith
    then have "of_char (char_of (192 + of_char c div 64 :: nat)) = (192 + of_char c div 64 :: nat)" by simp
    with False show ?thesis by (simp add: utf8_char_def Let_def)
  qed (simp add: utf8_char_def)
  then show ?thesis by (auto simp: is_ascii_def utf8_def)
qed

lemma length_utf8: "length (utf8 cs) \<le> 2 * length cs"
  by (induction cs) (auto simp: utf8_def utf8_char_def Let_def)

lemma utf8_append: "utf8 (xs @ ys) = utf8 xs @ utf8 ys"
  by (simp add: utf8_def)

lemma ascii_prefix:
  assumes "is_ascii (take 2048 (utf8 data))" shows "is_ascii (take 1024 data)"
proof -
  have "utf8 data = utf8 (take 1024 data) @ utf8 (drop 1024 data)" by (metis utf8_append append_take_drop_id)
  moreover have "length (utf8 (take 1024 data)) \<le> 2048" using length_utf8 [of "take 1024 data"] by simp
  ultimately have "take 2048 (utf8 data) =
      utf8 (take 1024 data) @ take (2048 - length (utf8 (take 1024 data))) (utf8 (drop 1024 data))" by simp
  with assms have "is_ascii (utf8 (take 1024 data))" by (simp add: is_ascii_def)
  then show ?thesis by (simp add: is_ascii_utf8)
qed

text \<open>Without a hook, a guaranteed message is made only of input whose first 1024 characters
  are ASCII, as its bytes are encoded once more for the prefixes; for a message without guarantees
  any text will do, and every message made has a priority from 1 to 9 and expires after it is
  published.\<close>

theorem guaranteed_messages_are_ascii:
  assumes "get_message env t input now pattern endpoint_id s = (Inr (Some m), u)"
    and "tp_before_publish_hook t = None"
  shows "\<exists>data. mi_data input = Some data \<and> pm_data m = utf8 data \<and> (pm_has_gd m \<longrightarrow> is_ascii (take 1024 data)) \<and>
    1 \<le> pm_priority m \<and> pm_priority m \<le> 9 \<and> now < pm_expiration_time m"
proof -
  obtain p where p: "get_priority input = Inr p" "1 \<le> p" "p \<le> 9"
    using assms(1) by (auto simp: get_message_def py_bind_def py_sum_def py_raise_def get_priority_def
        split: sum.splits option.splits if_splits)
  obtain e where e: "get_expiration input = Inr e" "0 < e"
    using assms(1) p(1) by (auto simp: get_message_def py_bind_def py_sum_def py_raise_def py_ret_def get_expiration_def
        split: sum.splits option.splits if_splits)
  obtain i v where i: "(if utf8 (mi_msg_id input) = [] then new_msg_id env else py_ret (utf8 (mi_msg_id input))) s = (Inr i, v)"
    by (cases "utf8 (mi_msg_id input) = []") (auto simp: new_msg_id_def py_run)
  obtain gd where gd: "get_has_gd t input = Inr gd"
    using assms(1) p(1) e(1) i by (auto simp: get_message_def py_bind_def py_sum_def py_raise_def py_ret_def split: sum.splits)
  obtain ext where ext: "get_ext_pub_time env input = Inr ext"
    using assms(1) p(1) e(1) i gd
    by (auto simp: get_message_def py_bind_def py_sum_def py_raise_def py_ret_def split: sum.splits)
  obtain data where data: "mi_data input = Some data"
    using assms(1) p(1) e(1) i gd ext
    by (auto simp: get_message_def py_bind_def py_sum_def py_value_def py_raise_def py_ret_def split: option.splits)
  let ?new = "new_message t input now pattern endpoint_id (sv_cluster_id (ps_server v)) i p e gd ext data"
  have m: "set_prefixes gd ?new = Inr m"
    using assms p(1) e(1) i gd ext data
    by (auto simp: get_message_def py_bind_def py_sum_def py_value_def py_raise_def py_ret_def py_get_def call_hook_def
        split: sum.splits)
  have new: "pm_data ?new = utf8 data" "pm_has_gd ?new = gd" "pm_priority ?new = p"
    "pm_expiration_time ?new = now + e * 1000" by (simp_all add: new_message_def)
  have "pm_data m = utf8 data \<and> pm_has_gd m = gd \<and> pm_priority m = p \<and> pm_expiration_time m = now + e * 1000"
    using m new by (auto simp: set_prefixes_def split: if_splits sum.splits)
  moreover have "is_ascii (take 1024 data)" if gd
    using m that new by (intro ascii_prefix) (auto simp: set_prefixes_def encode_bytes_def split: if_splits sum.splits)
  ultimately show ?thesis using data p e by auto
qed

theorem guaranteed_messages_are_ascii_witness:
  "\<exists>m u. get_message sample_env sample_topic (pi_message (sample_input True ''hello'')) 10 ''pub=/a'' 3
      sample_pubsub = (Inr (Some m), u) \<and> pm_data m = utf8 ''hello'' \<and> pm_priority m \<le> 9"
proof -
  have "\<exists>m u. get_message sample_env sample_topic (pi_message (sample_input True ''hello'')) 10 ''pub=/a'' 3
      sample_pubsub = (Inr (Some m), u)"
    by (simp add: get_message_def py_run get_priority_def get_expiration_def get_has_gd_def get_ext_pub_time_def
        call_hook_def set_prefixes_def encode_bytes_def is_ascii_def utf8_def utf8_char_def new_message_def
        sample_input_def sample_topic_def)
  then obtain m u where m: "get_message sample_env sample_topic (pi_message (sample_input True ''hello'')) 10 ''pub=/a'' 3
      sample_pubsub = (Inr (Some m), u)" by blast
  have "tp_before_publish_hook sample_topic = None" "mi_data (pi_message (sample_input True ''hello'')) = Some ''hello''"
    by (simp_all add: sample_topic_def sample_input_def)
  with guaranteed_messages_are_ascii [OF m this(1)] m show ?thesis by auto
qed

section \<open>Lists shared among sub_keys\<close>

text \<open>The messages of all answers, with their sub_keys, in the order they are visited.\<close>

definition answer_messages :: "(string, server_answer) dict \<Rightarrow> (string \<times> ram_msg) list" where
  "answer_messages response = [(k, m). (_, server) \<leftarrow> response, (_, pid) \<leftarrow> (case server of None \<Rightarrow> [] | Some ps \<Rightarrow> ps),
     (k, d) \<leftarrow> (case pid of None \<Rightarrow> [] | Some ks \<Rightarrow> ks), m \<leftarrow> dict_values d]"

lemma py_for_concat: "py_for (concat xss) body = py_for xss (\<lambda>xs. py_for xs body)"
  by (induction xss) (simp_all add: py_for_append)

lemma py_for_map: "py_for (map f xs) body = py_for xs (\<lambda>x. body (f x))"
  by (induction xs) simp_all

lemma py_for_case_option:
  "py_for (case v of None \<Rightarrow> [] | Some xs \<Rightarrow> xs) body = (case v of None \<Rightarrow> py_ret () | Some xs \<Rightarrow> py_for xs body)"
  by (cases v) simp_all

lemma answer_loop:
  "py_for response (\<lambda>(_, server). case server of None \<Rightarrow> py_ret ()
     | Some pids \<Rightarrow> py_for pids (\<lambda>(_, pid). case pid of None \<Rightarrow> py_ret ()
       | Some messages \<Rightarrow> py_for messages (\<lambda>(k, d). py_for (dict_values d) (append_message k)))) =
   py_for (answer_messages response) (\<lambda>(k, m). append_message k m)"
  by (simp add: answer_messages_def py_for_concat py_for_map py_for_case_option split_def)

lemma fromkeys_distinct: "distinct ks \<Longrightarrow> fromkeys ks = \<lparr>ng_refs = map (\<lambda>k. (k, 0)) ks, ng_lists = [[]]\<rparr>"
proof -
  have "fold (\<lambda>k. dict_set k (0 :: nat)) ks d = d @ map (\<lambda>k. (k, 0)) ks"
    if "distinct ks" "set ks \<inter> fst ` set d = {}" for ks :: "string list" and d
    using that by (induction ks arbitrary: d) (auto simp: dict_set_new)
  then show "distinct ks \<Longrightarrow> ?thesis" by (simp add: fromkeys_def)
qed

lemma append_loop:
  assumes "fst ` set msgs \<subseteq> set ks"
  shows "py_for msgs (\<lambda>(k, m). append_message k m) \<lparr>ng_refs = map (\<lambda>k. (k, 0)) ks, ng_lists = [xs]\<rparr> =
    (Inr (), \<lparr>ng_refs = map (\<lambda>k. (k, 0)) ks, ng_lists = [xs @ map snd msgs]\<rparr>)"
  using assms
proof (induction msgs arbitrary: xs)
  case Nil
  show ?case by (simp add: py_ret_def)
next
  case (Cons km msgs)
  obtain k m where km: "km = (k, m)" by fastforce
  then have "map_of (map (\<lambda>k. (k, 0 :: nat)) ks) k = Some 0" using Cons.prems by (simp add: map_of_map_restrict)
  then have run: "append_message k m \<lparr>ng_refs = map (\<lambda>k. (k, 0)) ks, ng_lists = [xs]\<rparr> =
      (Inr (), \<lparr>ng_refs = map (\<lambda>k. (k, 0)) ks, ng_lists = [xs @ [m]]\<rparr>)"
    by (simp add: append_message_def py_bind_def item_get_run py_modify_def)
  show ?case using Cons.IH [of "xs @ [m]"] Cons.prems by (simp add: km py_seq_def run)
qed

lemma drop_loop_full:
  assumes "xs \<noteq> []" "set ls \<subseteq> set ks"
  shows "py_for ls drop_empty \<lparr>ng_refs = map (\<lambda>k. (k, 0)) ks, ng_lists = [xs]\<rparr> =
    (Inr (), \<lparr>ng_refs = map (\<lambda>k. (k, 0)) ks, ng_lists = [xs]\<rparr>)"
proof (rule py_for_skip)
  fix k assume "k \<in> set ls"
  then have "map_of (map (\<lambda>k. (k, 0 :: nat)) ks) k = Some 0" using assms(2) by (auto simp: map_of_map_restrict)
  with assms(1) show "drop_empty k \<lparr>ng_refs = map (\<lambda>k. (k, 0)) ks, ng_lists = [xs]\<rparr> =
      (Inr (), \<lparr>ng_refs = map (\<lambda>k. (k, 0)) ks, ng_lists = [xs]\<rparr>)"
    by (simp add: drop_empty_def py_bind_def item_get_run py_get_def py_when_def py_ret_def)
qed

lemma drop_loop_empty:
  "distinct ks \<Longrightarrow> py_for ks drop_empty \<lparr>ng_refs = map (\<lambda>k. (k, 0)) ks, ng_lists = [[]]\<rparr> =
     (Inr (), \<lparr>ng_refs = [], ng_lists = [[]]\<rparr>)"
proof (induction ks)
  case Nil
  show ?case by (simp add: py_ret_def)
next
  case (Cons k ks)
  have "dict_del k (map (\<lambda>k. (k, 0 :: nat)) ks) = map (\<lambda>k. (k, 0)) ks"
    using Cons.prems by (intro delete_id) auto
  then have "drop_empty k \<lparr>ng_refs = map (\<lambda>k. (k, 0)) (k # ks), ng_lists = [[]]\<rparr> =
      (Inr (), \<lparr>ng_refs = map (\<lambda>k. (k, 0)) ks, ng_lists = [[]]\<rparr>)"
    by (simp add: drop_empty_def py_bind_def item_get_run py_get_def py_when_def item_del_run)
  then show ?case using Cons by (simp only: py_for.simps py_seq_def prod.case sum.case distinct.simps)
qed

text \<open>When the messages kept in RAM by all processes are collected for some sub_keys, every
  one of these gets all messages of all of them, as their lists are one and the same; only when
  there is no message at all is the result empty.\<close>

theorem sub_keys_share_one_list:
  assumes "distinct sub_keys" "fst ` set (answer_messages response) \<subseteq> set sub_keys"
  shows "parse_non_gd_messages sub_keys response =
    Inr (if answer_messages response = [] then []
         else map (\<lambda>k. (k, map snd (answer_messages response))) sub_keys)"
proof -
  let ?ms = "answer_messages response"
  let ?refs = "map (\<lambda>k. (k, 0 :: nat)) sub_keys"
  have "py_for ?ms (\<lambda>(k, m). append_message k m) \<lparr>ng_refs = ?refs, ng_lists = [[]]\<rparr> =
      (Inr (), \<lparr>ng_refs = ?refs, ng_lists = [map snd ?ms]\<rparr>)"
    using append_loop [OF assms(2), of "[]"] by simp
  note collect = this [folded answer_loop]
  show ?thesis
  proof (cases "?ms = []")
    case True
    then show ?thesis
      using collect drop_loop_empty [OF assms(1)]
      by (simp add: parse_non_gd_messages_def fromkeys_distinct [OF assms(1)] py_seq_def)
  next
    case False
    then show ?thesis
      using collect drop_loop_full [of "map snd ?ms" sub_keys sub_keys]
      by (simp add: parse_non_gd_messages_def fromkeys_distinct [OF assms(1)] py_seq_def)
  qed
qed

definition kept_message :: "string \<Rightarrow> ram_msg" where
  "kept_message i = \<lparr>rm_pub_msg_id = i, rm_expiration_time = 0, rm_data = i\<rparr>"

theorem sub_keys_share_one_list_witness:
  "parse_non_gd_messages [''k1'', ''k2'']
     [(''server1'', Some [(100, Some [(''k1'', [(''a'', kept_message ''a'')])]), (101, None)]), (''server2'', None)] =
   Inr [(''k1'', [kept_message ''a'']), (''k2'', [kept_message ''a''])]"
  using sub_keys_share_one_list [of "[''k1'', ''k2'']"
      "[(''server1'', Some [(100, Some [(''k1'', [(''a'', kept_message ''a'')])]), (101, None)]), (''server2'', None)]"]
  by (simp add: answer_messages_def)

end
