(* ===== verification/Rbac.thy ===== *)
theory Rbac
  imports Py_Prelude
begin

text \<open>
  Role-based access control (zato-server rbac_.py): the registry of roles and permissions with
  the deletions Zato adds to it, and the tables around it. The base registry is the
  third-party simple-rbac library: what it does when a role, a resource or a rule is added, and
  whether it allows something, are parameters; its tables are read and changed by the code.
  Operations hold a lock, so they are atomic here.
\<close>

section \<open>State\<close>

type_synonym rule_key = "int \<times> int \<times> int"

text \<open>Roles map to their parents; a rule is a role, an operation and a resource.\<close>

record registry =
  rg_roles :: "(int, int list) dict"
  rg_resources :: "int list"
  rg_allowed :: "rule_key list"
  rg_denied :: "rule_key list"

record acl_lib =
  acl_add_role :: "int \<Rightarrow> int list \<Rightarrow> registry \<Rightarrow> exn + registry"
  acl_add_resource :: "int \<Rightarrow> registry \<Rightarrow> exn + registry"
  acl_allow :: "rule_key \<Rightarrow> registry \<Rightarrow> exn + registry"
  acl_deny :: "rule_key \<Rightarrow> registry \<Rightarrow> exn + registry"
  acl_is_allowed :: "registry \<Rightarrow> rule_key \<Rightarrow> exn + bool"
  acl_is_any_allowed :: "registry \<Rightarrow> int list \<Rightarrow> int \<Rightarrow> int \<Rightarrow> exn + bool"

record rbac =
  rb_registry :: registry
  rb_permissions :: "(int, string) dict"
  rb_http_permissions :: "(string, int) dict"
  rb_role_id_to_name :: "(int, string) dict"
  rb_role_name_to_id :: "(string, int) dict"
  rb_client_def_to_role_id :: "(string, int list) dict"
  rb_role_id_to_client_def :: "(int, string list) dict"

definition reg_upd :: "(registry \<Rightarrow> registry) \<Rightarrow> rbac \<Rightarrow> rbac" where
  "reg_upd f s = s\<lparr>rb_registry := f (rb_registry s)\<rparr>"

text \<open>Python's limit on recursion, reached only by a recursion that is too deep.\<close>

abbreviation RecursionError :: exn where
  "RecursionError \<equiv> OtherError ''maximum recursion depth exceeded''"

text \<open>A call of the library on the registry.\<close>

definition lib_call :: "(registry \<Rightarrow> exn + registry) \<Rightarrow> (rbac, unit) py" where
  "lib_call f s = (case f (rb_registry s) of
     Inl e \<Rightarrow> (Inl e, s) | Inr r \<Rightarrow> (Inr (), s\<lparr>rb_registry := r\<rparr>))"

section \<open>The registry\<close>

datatype rule_part = RolePart | OperationPart | ResourcePart

fun rule_item :: "rule_part \<Rightarrow> rule_key \<Rightarrow> int" where
  "rule_item RolePart (r, p, res) = r"
| "rule_item OperationPart (r, p, res) = p"
| "rule_item ResourcePart (r, p, res) = res"

definition delete_from_permissions :: "rule_part \<Rightarrow> int \<Rightarrow> (rbac, unit) py" where
  "delete_from_permissions part item = py_modify (reg_upd (\<lambda>r. r\<lparr>
     rg_allowed := filter (\<lambda>k. rule_item part k \<noteq> item) (rg_allowed r),
     rg_denied := filter (\<lambda>k. rule_item part k \<noteq> item) (rg_denied r)\<rparr>))"

definition rbac_delete_role_names :: "int \<Rightarrow> string \<Rightarrow> (rbac, unit) py" where
  "rbac_delete_role_names i name =
     py_seq (item_del rb_role_id_to_name rb_role_id_to_name_update i)
            (item_del rb_role_name_to_id rb_role_name_to_id_update name)"

definition delete_callback :: "int \<Rightarrow> (rbac, unit) py" where
  "delete_callback i =
     py_bind (item_get rb_role_id_to_name i) (\<lambda>name. rbac_delete_role_names i name)"

abbreviation roles_of :: "rbac \<Rightarrow> (int, int list) dict" where
  "roles_of s \<equiv> rg_roles (rb_registry s)"

definition roles_upd :: "((int, int list) dict \<Rightarrow> (int, int list) dict) \<Rightarrow> rbac \<Rightarrow> rbac" where
  "roles_upd f = reg_upd (rg_roles_update f)"

text \<open>
  The recursive deletion of a role and of the roles below it, up to a depth. The loop goes over
  a snapshot of the roles.
\<close>

primrec delete_role_upto :: "nat \<Rightarrow> int \<Rightarrow> (rbac, unit) py" where
  "delete_role_upto 0 role = py_raise RecursionError"
| "delete_role_upto (Suc n) role =
     py_seq (delete_callback role) (
     py_seq (item_del roles_of roles_upd role) (
     py_bind (py_get roles_of) (\<lambda>snapshot.
     py_seq (py_for snapshot (\<lambda>(child, parents).
               py_when (role \<in> set parents) (delete_role_upto n child)))
            (delete_from_permissions RolePart role))))"

definition registry_delete_role :: "int \<Rightarrow> (rbac, unit) py" where
  "registry_delete_role role s = delete_role_upto (Suc (length (roles_of s))) role s"

definition registry_delete_resource :: "int \<Rightarrow> (rbac, unit) py" where
  "registry_delete_resource resource =
     py_bind (py_get (\<lambda>s. resource \<in> set (rg_resources (rb_registry s)))) (\<lambda>present.
     py_when present (
       py_seq (py_modify (reg_upd (rg_resources_update (removeAll resource))))
              (delete_from_permissions ResourcePart resource)))"

definition delete_rule ::
  "(registry \<Rightarrow> rule_key list) \<Rightarrow> ((rule_key list \<Rightarrow> rule_key list) \<Rightarrow> registry \<Rightarrow> registry) \<Rightarrow>
   rule_key \<Rightarrow> (rbac, unit) py" where
  "delete_rule sel upd k =
     py_bind (py_get (\<lambda>s. k \<in> set (sel (rb_registry s)))) (\<lambda>present.
     if present then py_modify (reg_upd (upd (removeAll k))) else py_raise KeyError)"

definition delete_allow :: "rule_key \<Rightarrow> (rbac, unit) py" where
  "delete_allow config = delete_rule rg_allowed rg_allowed_update config"

definition delete_deny :: "rule_key \<Rightarrow> (rbac, unit) py" where
  "delete_deny config = delete_rule rg_denied rg_denied_update config"

section \<open>Permissions\<close>

definition create_permission :: "int \<Rightarrow> string \<Rightarrow> (rbac, unit) py" where
  "create_permission i name = item_set rb_permissions_update i name"

definition edit_permission :: "int \<Rightarrow> string \<Rightarrow> (rbac, unit) py" where
  "edit_permission i new_name =
     py_bind (py_get (\<lambda>s. dict_has i (rb_permissions s))) (\<lambda>known.
     if known then item_set rb_permissions_update i new_name else py_raise ValueError)"

definition delete_permission :: "int \<Rightarrow> (rbac, unit) py" where
  "delete_permission i =
     py_seq (item_del rb_permissions rb_permissions_update i) (delete_from_permissions OperationPart i)"

definition verb_map :: "(string, string) dict" where
  "verb_map = [(''GET'', ''Read''), (''POST'', ''Create''), (''PATCH'', ''Update''),
     (''PUT'', ''Update''), (''DELETE'', ''Delete'')]"

text \<open>Each verb gets the first permission with its name; verbs without one stay as they were.\<close>

definition set_http_permissions :: "rbac \<Rightarrow> rbac" where
  "set_http_permissions s =
     fold (\<lambda>(verb, target) s.
       case find (\<lambda>(_, name). target = name) (rb_permissions s) of
         None \<Rightarrow> s
       | Some (perm_id, _) \<Rightarrow> rb_http_permissions_update (dict_set verb perm_id) s) verb_map s"

section \<open>Roles\<close>

definition rbac_create_role :: "acl_lib \<Rightarrow> int \<Rightarrow> string \<Rightarrow> int option \<Rightarrow> (rbac, unit) py" where
  "rbac_create_role lib i name parent_id =
     py_seq (item_set rb_role_id_to_name_update i name) (
     py_seq (item_set rb_role_name_to_id_update name i)
       (lib_call (acl_add_role lib i (case parent_id of
          None \<Rightarrow> [] | Some p \<Rightarrow> if p \<noteq> 0 \<and> i \<noteq> p then [p] else []))))"

definition create_role :: "acl_lib \<Rightarrow> int \<Rightarrow> string \<Rightarrow> int option \<Rightarrow> (rbac, unit) py" where
  "create_role lib i name parent_id = rbac_create_role lib i name parent_id"

definition edit_role :: "acl_lib \<Rightarrow> int \<Rightarrow> string \<Rightarrow> string \<Rightarrow> int option \<Rightarrow> (rbac, unit) py" where
  "edit_role lib i old_name name parent_id =
     py_seq (rbac_delete_role_names i old_name) (
     py_seq (py_seq (item_get roles_of i) (py_modify (roles_upd (dict_mutate i (\<lambda>_. [])))))
            (rbac_create_role lib i name parent_id))"

definition delete_role :: "int \<Rightarrow> string \<Rightarrow> (rbac, unit) py" where
  "delete_role i name = registry_delete_role i"

text \<open>Sets of role ids and of client definitions, as lists without duplicates.\<close>

definition add_to_set :: "'k \<Rightarrow> 'v \<Rightarrow> ('k, 'v list) dict \<Rightarrow> ('k, 'v list) dict" where
  "add_to_set k v d = dict_mutate k (List.insert v) (dict_setdefault k [] d)"

definition create_client_role :: "string \<Rightarrow> int \<Rightarrow> (rbac, unit) py" where
  "create_client_role client_def role_id =
     py_bind (py_get (\<lambda>s. dict_has role_id (rb_role_id_to_name s))) (\<lambda>known.
     if \<not> known then py_raise ValueError
     else py_seq (py_modify (rb_client_def_to_role_id_update (add_to_set client_def role_id)))
                 (py_modify (rb_role_id_to_client_def_update (add_to_set role_id client_def))))"

definition remove_from_set ::
  "(rbac \<Rightarrow> ('k, 'v list) dict) \<Rightarrow> ((('k, 'v list) dict \<Rightarrow> ('k, 'v list) dict) \<Rightarrow> rbac \<Rightarrow> rbac) \<Rightarrow>
   'k \<Rightarrow> 'v \<Rightarrow> (rbac, unit) py" where
  "remove_from_set sel upd k v =
     py_bind (item_get sel k) (\<lambda>vs.
     if v \<in> set vs then py_modify (upd (dict_mutate k (removeAll v))) else py_raise KeyError)"

definition delete_client_role :: "string \<Rightarrow> int \<Rightarrow> (rbac, unit) py" where
  "delete_client_role client_def role_id =
     py_seq (remove_from_set rb_client_def_to_role_id rb_client_def_to_role_id_update client_def role_id)
            (remove_from_set rb_role_id_to_client_def rb_role_id_to_client_def_update role_id client_def)"

section \<open>Resources and rules\<close>

definition create_resource :: "acl_lib \<Rightarrow> int \<Rightarrow> (rbac, unit) py" where
  "create_resource lib resource = lib_call (acl_add_resource lib resource)"

definition delete_resource :: "int \<Rightarrow> (rbac, unit) py" where
  "delete_resource resource = registry_delete_resource resource"

definition create_role_permission_allow :: "acl_lib \<Rightarrow> int \<Rightarrow> int \<Rightarrow> int \<Rightarrow> (rbac, unit) py" where
  "create_role_permission_allow lib role_id perm_id resource =
     lib_call (acl_allow lib (role_id, perm_id, resource))"

definition create_role_permission_deny :: "acl_lib \<Rightarrow> int \<Rightarrow> int \<Rightarrow> int \<Rightarrow> (rbac, unit) py" where
  "create_role_permission_deny lib role_id perm_id resource =
     lib_call (acl_deny lib (role_id, perm_id, resource))"

definition delete_role_permission_allow :: "int \<Rightarrow> int \<Rightarrow> int \<Rightarrow> (rbac, unit) py" where
  "delete_role_permission_allow role_id perm_id resource = delete_allow (role_id, perm_id, resource)"

definition delete_role_permission_deny :: "int \<Rightarrow> int \<Rightarrow> int \<Rightarrow> (rbac, unit) py" where
  "delete_role_permission_deny role_id perm_id resource = delete_deny (role_id, perm_id, resource)"

section \<open>Decisions\<close>

definition is_role_allowed :: "acl_lib \<Rightarrow> rbac \<Rightarrow> int \<Rightarrow> int \<Rightarrow> int \<Rightarrow> exn + bool" where
  "is_role_allowed lib s role_id perm_id resource =
     acl_is_allowed lib (rb_registry s) (role_id, perm_id, resource)"

definition is_client_allowed :: "acl_lib \<Rightarrow> rbac \<Rightarrow> string \<Rightarrow> int \<Rightarrow> int \<Rightarrow> exn + bool" where
  "is_client_allowed lib s client_def perm_id resource =
     (case map_of (rb_client_def_to_role_id s) client_def of
        None \<Rightarrow> Inr False
      | Some roles \<Rightarrow> acl_is_any_allowed lib (rb_registry s) roles perm_id resource)"

definition is_http_client_allowed :: "acl_lib \<Rightarrow> rbac \<Rightarrow> string \<Rightarrow> string \<Rightarrow> int \<Rightarrow> exn + bool" where
  "is_http_client_allowed lib s client_def http_verb resource =
     (case map_of (rb_http_permissions s) http_verb of
        None \<Rightarrow> Inl KeyError
      | Some perm_id \<Rightarrow> is_client_allowed lib s client_def perm_id resource)"

end
