(* ===== verification/Rbac_Facts.thy ===== *)
theory Rbac_Facts
  imports Rbac
begin

text \<open>
  Deleting a role deletes exactly the roles below it together with their rules, without
  raising, and the recursion is never deeper than the number of roles.
\<close>

section \<open>The tree of roles\<close>

definition parent_rel :: "(int, int list) dict \<Rightarrow> (int \<times> int) set" where
  "parent_rel roles = {(c, p). \<exists>ps. (c, ps) \<in> set roles \<and> p \<in> set ps}"

text \<open>A role and everything below it.\<close>

definition below :: "(int, int list) dict \<Rightarrow> int \<Rightarrow> int set" where
  "below roles r = {x. (x, r) \<in> (parent_rel roles)\<^sup>*}"

lemma below_self [simp]: "r \<in> below roles r"
  by (simp add: below_def)

lemma parent_rel_mono: "set xs \<subseteq> set ys \<Longrightarrow> parent_rel xs \<subseteq> parent_rel ys"
  by (auto simp: parent_rel_def)

lemma below_mono: "set xs \<subseteq> set ys \<Longrightarrow> below xs r \<subseteq> below ys r"
  using rtrancl_mono [OF parent_rel_mono] by (auto simp: below_def)

lemma below_trans: "c \<in> below roles r \<Longrightarrow> below roles c \<subseteq> below roles r"
  by (auto simp: below_def)

lemma below_child: "(c, ps) \<in> set roles \<Longrightarrow> r \<in> set ps \<Longrightarrow> c \<in> below roles r"
  by (auto simp: below_def parent_rel_def)

section \<open>Consistent tables\<close>

text \<open>Every role has at most one parent and a name of its own.\<close>

definition rbac_ok :: "rbac \<Rightarrow> bool" where
  "rbac_ok s \<longleftrightarrow>
     dict_ok (roles_of s) \<and> (\<forall>(r, ps) \<in> set (roles_of s). length ps \<le> 1) \<and>
     (\<forall>r \<in> fst ` set (roles_of s). \<exists>n.
        map_of (rb_role_id_to_name s) r = Some n \<and> map_of (rb_role_name_to_id s) n = Some r)"

text \<open>What is left of a state when a set of roles is gone.\<close>

definition pruned :: "rbac \<Rightarrow> int set \<Rightarrow> rbac \<Rightarrow> bool" where
  "pruned s gone t \<longleftrightarrow>
     rb_registry t = (rb_registry s)\<lparr>
       rg_roles := filter (\<lambda>k. fst k \<notin> gone) (roles_of s),
       rg_allowed := filter (\<lambda>k. fst k \<notin> gone) (rg_allowed (rb_registry s)),
       rg_denied := filter (\<lambda>k. fst k \<notin> gone) (rg_denied (rb_registry s))\<rparr> \<and>
     rb_permissions t = rb_permissions s \<and> rb_http_permissions t = rb_http_permissions s \<and>
     rb_client_def_to_role_id t = rb_client_def_to_role_id s \<and>
     rb_role_id_to_client_def t = rb_role_id_to_client_def s"

lemma pruned_refl: "pruned s {} s"
  by (simp add: pruned_def)

lemma filter_not_Un:
  "filter (\<lambda>k. fst k \<notin> A \<union> B) xs = filter (\<lambda>k. fst k \<notin> B) (filter (\<lambda>k. fst k \<notin> A) xs)"
  by (auto intro!: filter_cong)

lemma dict_del_filter: "dict_del k d = filter (\<lambda>x. fst x \<noteq> k) d"
  by (auto simp: AList.delete_eq intro!: filter_cong)

lemma pruned_trans:
  assumes "pruned s A t" "pruned t B u"
  shows "pruned s (A \<union> B) u"
  using assms unfolding pruned_def filter_not_Un by simp

lemma set_roles_pruned: "pruned s gone t \<Longrightarrow> set (roles_of t) = {x \<in> set (roles_of s). fst x \<notin> gone}"
  by (auto simp: pruned_def)

section \<open>One deletion\<close>

definition without_name :: "int \<Rightarrow> rbac \<Rightarrow> rbac" where
  "without_name r s = s\<lparr>rb_role_id_to_name := dict_del r (rb_role_id_to_name s),
     rb_role_name_to_id := dict_del (the (map_of (rb_role_id_to_name s) r)) (rb_role_name_to_id s)\<rparr>"

definition without_role :: "int \<Rightarrow> rbac \<Rightarrow> rbac" where
  "without_role r s = roles_upd (dict_del r) (without_name r s)"

lemma delete_callback_run:
  assumes "rbac_ok s" "r \<in> fst ` set (roles_of s)"
  shows "delete_callback r s = (Inr (), without_name r s)"
proof -
  from assms obtain n where n: "map_of (rb_role_id_to_name s) r = Some n"
    "map_of (rb_role_name_to_id s) n = Some r"
    unfolding rbac_ok_def by blast
  then show ?thesis
    by (simp add: delete_callback_def rbac_delete_role_names_def py_bind_def py_seq_def
        item_get_run item_del_run without_name_def)
qed

lemma without_role_sel [simp]:
  "roles_of (without_role r s) = dict_del r (roles_of s)"
  "rb_role_id_to_name (without_role r s) = dict_del r (rb_role_id_to_name s)"
  "rb_role_name_to_id (without_role r s)
     = dict_del (the (map_of (rb_role_id_to_name s) r)) (rb_role_name_to_id s)"
  "rg_allowed (rb_registry (without_role r s)) = rg_allowed (rb_registry s)"
  "rg_denied (rb_registry (without_role r s)) = rg_denied (rb_registry s)"
  by (simp_all add: without_role_def roles_upd_def reg_upd_def without_name_def)

lemma role_deleted_run:
  assumes "rbac_ok s" "r \<in> fst ` set (roles_of s)"
  shows "py_seq (delete_callback r) (py_seq (item_del roles_of roles_upd r) m) s = m (without_role r s)"
proof -
  obtain ps where "map_of (roles_of s) r = Some ps"
    using assms(2) by (metis map_of_None_iff not_None_eq)
  then have "item_del roles_of roles_upd r (without_name r s) = (Inr (), without_role r s)"
    by (simp add: item_del_run without_name_def without_role_def)
  then show ?thesis by (simp add: py_seq_def delete_callback_run [OF assms])
qed

lemma set_dict_del: "set (dict_del r d) = {x \<in> set d. fst x \<noteq> r}"
  by (auto simp: AList.delete_eq)

lemma rbac_ok_without_role:
  assumes ok: "rbac_ok s" and r: "r \<in> fst ` set (roles_of s)"
  shows "rbac_ok (without_role r s)"
proof -
  obtain n where n: "map_of (rb_role_id_to_name s) r = Some n" "map_of (rb_role_name_to_id s) n = Some r"
    using ok r unfolding rbac_ok_def by blast
  have "\<exists>m. map_of (rb_role_id_to_name (without_role r s)) x = Some m \<and>
      map_of (rb_role_name_to_id (without_role r s)) m = Some x"
    if x: "x \<in> fst ` set (roles_of (without_role r s))" for x
  proof -
    from x have xr: "x \<noteq> r" "x \<in> fst ` set (roles_of s)" by (auto simp: set_dict_del)
    then obtain m where m: "map_of (rb_role_id_to_name s) x = Some m" "map_of (rb_role_name_to_id s) m = Some x"
      using ok unfolding rbac_ok_def by blast
    with n xr(1) have "m \<noteq> n" by auto
    with m n xr(1) show ?thesis by (simp add: dict_simps)
  qed
  with ok show ?thesis by (auto simp: rbac_ok_def set_dict_del)
qed

lemma delete_from_permissions_run:
  "delete_from_permissions RolePart r s = (Inr (), reg_upd (\<lambda>g. g\<lparr>
     rg_allowed := filter (\<lambda>k. fst k \<noteq> r) (rg_allowed g),
     rg_denied := filter (\<lambda>k. fst k \<noteq> r) (rg_denied g)\<rparr>) s)"
proof -
  have "rule_item RolePart k = fst k" for k by (cases k) simp
  then show ?thesis by (simp add: delete_from_permissions_def py_modify_def)
qed

section \<open>The recursion\<close>

text \<open>What a deletion does when it may go deep enough.\<close>

definition deletes_tree :: "rbac \<Rightarrow> int \<Rightarrow> (exn + unit) \<times> rbac \<Rightarrow> bool" where
  "deletes_tree s r res \<longleftrightarrow> (\<exists>gone t. res = (Inr (), t) \<and> rbac_ok t \<and> pruned s gone t \<and> r \<in> gone \<and>
     gone \<subseteq> below (roles_of s) r \<and> (\<forall>(x, ps) \<in> set (roles_of t). set ps \<inter> gone = {}))"

text \<open>A child still to be visited is never below one visited before, since it has one parent.\<close>

lemma child_not_below_sibling:
  assumes single: "\<forall>(x, ps) \<in> set roles. length ps \<le> 1" and ok: "dict_ok roles"
    and r: "r \<notin> fst ` set roles" and c: "(c, ps) \<in> set roles" "r \<in> set ps"
    and c': "c' \<in> fst ` set roles" "c' \<noteq> c"
  shows "c \<notin> below roles c'"
proof
  assume "c \<in> below roles c'"
  then have "(c, c') \<in> (parent_rel roles)\<^sup>*" by (simp add: below_def)
  then obtain p where p: "(c, p) \<in> parent_rel roles" "(p, c') \<in> (parent_rel roles)\<^sup>*"
    using c'(2) by (metis converse_rtranclE)
  then obtain qs where qs: "(c, qs) \<in> set roles" "p \<in> set qs" by (auto simp: parent_rel_def)
  from ok qs(1) c(1) have "qs = ps" by (metis map_of_is_SomeI option.inject)
  moreover have "length ps \<le> 1" using single c(1) by auto
  ultimately have "p = r" using qs(2) c(2) by (cases ps) auto
  with p(2) have "r = c' \<or> (\<exists>z. (r, z) \<in> parent_rel roles)" by (metis converse_rtranclE)
  moreover have "(r, z) \<notin> parent_rel roles" for z
    using r by (auto simp: parent_rel_def intro: rev_image_eqI)
  ultimately show False using r c'(1) by blast
qed

lemma children_loop:
  assumes IH: "\<And>s c. rbac_ok s \<Longrightarrow> c \<in> fst ` set (roles_of s) \<Longrightarrow> length (roles_of s) < n \<Longrightarrow>
      deletes_tree s c (delete_role_upto n c s)"
    and ok: "rbac_ok u" and r: "r \<notin> fst ` set (roles_of u)" and len: "length (roles_of u) < n"
    and visited: "roles_of u = pre @ post"
    and v: "rbac_ok v" "pruned u gone v"
      "gone \<subseteq> (\<Union>(c, ps) \<in> {x \<in> set pre. r \<in> set (snd x)}. below (roles_of u) c)"
      "\<forall>(c, ps) \<in> set pre. r \<in> set ps \<longrightarrow> c \<in> gone"
      "\<forall>(x, ps) \<in> set (roles_of v). set ps \<inter> gone = {}"
  shows "\<exists>gone' t. py_for post (\<lambda>(child, parents).
        py_when (r \<in> set parents) (delete_role_upto n child)) v = (Inr (), t) \<and>
     rbac_ok t \<and> pruned u gone' t \<and>
     gone' \<subseteq> (\<Union>(c, ps) \<in> {x \<in> set (roles_of u). r \<in> set (snd x)}. below (roles_of u) c) \<and>
     (\<forall>(c, ps) \<in> set (roles_of u). r \<in> set ps \<longrightarrow> c \<in> gone') \<and>
     (\<forall>(x, ps) \<in> set (roles_of t). set ps \<inter> gone' = {})"
  using visited v
proof (induction post arbitrary: pre gone v)
  case Nil
  then show ?case by (auto simp: py_ret_def)
next
  case (Cons item post)
  obtain c ps where item: "item = (c, ps)" by (cases item)
  have visited: "roles_of u = (pre @ [item]) @ post" using Cons.prems(1) by simp
  show ?case
  proof (cases "r \<in> set ps")
    case False
    have "\<forall>(c, ps) \<in> set (pre @ [item]). r \<in> set ps \<longrightarrow> c \<in> gone"
      "{x \<in> set (pre @ [item]). r \<in> set (snd x)} = {x \<in> set pre. r \<in> set (snd x)}"
      using Cons.prems(5) False by (auto simp: item)
    then show ?thesis
      using Cons.IH [OF visited Cons.prems(2,3) _ _ Cons.prems(6)] Cons.prems(4) False
      by (simp add: item py_seq_def py_when_def py_ret_def)
  next
    case True
    have c_in: "(c, ps) \<in> set (roles_of u)" using Cons.prems(1) by (simp add: item)
    have dok: "dict_ok (roles_of u)" and single: "\<forall>(x, ps) \<in> set (roles_of u). length ps \<le> 1"
      using ok by (simp_all add: rbac_ok_def)
    have "c \<notin> gone"
    proof
      assume "c \<in> gone"
      then obtain c' ps' where c': "(c', ps') \<in> set pre" "c \<in> below (roles_of u) c'"
        using Cons.prems(4) by auto
      have "c' \<noteq> c" "c' \<in> fst ` set (roles_of u)"
        using dok c'(1) by (auto simp: Cons.prems(1) item intro: rev_image_eqI)
      with child_not_below_sibling [OF single dok r c_in True] c'(2) show False by blast
    qed
    then have c_v: "c \<in> fst ` set (roles_of v)"
      using c_in set_roles_pruned [OF Cons.prems(3)] by (auto intro: rev_image_eqI)
    have sub: "set (roles_of v) \<subseteq> set (roles_of u)"
      using set_roles_pruned [OF Cons.prems(3)] by auto
    have "length (roles_of v) \<le> length (roles_of u)"
      using Cons.prems(3) by (auto simp: pruned_def)
    with len have "length (roles_of v) < n" by simp
    from IH [OF Cons.prems(2) c_v this] obtain more w where
      w: "delete_role_upto n c v = (Inr (), w)" "rbac_ok w" "pruned v more w" "c \<in> more"
        "more \<subseteq> below (roles_of v) c" "\<forall>(x, ps) \<in> set (roles_of w). set ps \<inter> more = {}"
      unfolding deletes_tree_def by blast
    have "more \<subseteq> below (roles_of u) c" using w(5) below_mono [OF sub] by blast
    then have "gone \<union> more \<subseteq>
        (\<Union>(c, ps) \<in> {x \<in> set (pre @ [item]). r \<in> set (snd x)}. below (roles_of u) c)"
      using Cons.prems(4) True by (auto simp: item)
    moreover have "\<forall>(c, ps) \<in> set (pre @ [item]). r \<in> set ps \<longrightarrow> c \<in> gone \<union> more"
      using Cons.prems(5) w(4) by (auto simp: item)
    moreover have "\<forall>(x, ps) \<in> set (roles_of w). set ps \<inter> (gone \<union> more) = {}"
      using Cons.prems(6) w(6) set_roles_pruned [OF w(3)] by fastforce
    ultimately show ?thesis
      using Cons.IH [OF visited w(2) pruned_trans [OF Cons.prems(3) w(3)]] True w(1)
      by (simp add: item py_seq_def py_when_def)
  qed
qed

lemma delete_role_upto_run:
  "rbac_ok s \<Longrightarrow> r \<in> fst ` set (roles_of s) \<Longrightarrow> length (roles_of s) < n \<Longrightarrow>
     deletes_tree s r (delete_role_upto n r s)"
proof (induction n arbitrary: s r)
  case (Suc n)
  let ?u = "without_role r s"
  have u: "rbac_ok ?u" by (rule rbac_ok_without_role [OF Suc.prems(1,2)])
  have r_u: "r \<notin> fst ` set (roles_of ?u)" by (auto simp: set_dict_del)
  have "length (dict_del r (roles_of s)) < length (roles_of s)"
    using Suc.prems(2) by (auto simp: AList.delete_eq intro!: length_filter_less)
  then have len: "length (roles_of ?u) < n" using Suc.prems(3) by simp
  obtain gone t where t: "py_for (roles_of ?u) (\<lambda>(child, parents).
        py_when (r \<in> set parents) (delete_role_upto n child)) ?u = (Inr (), t)"
    "rbac_ok t" "pruned ?u gone t"
    "gone \<subseteq> (\<Union>(c, ps) \<in> {x \<in> set (roles_of ?u). r \<in> set (snd x)}. below (roles_of ?u) c)"
    "\<forall>(c, ps) \<in> set (roles_of ?u). r \<in> set ps \<longrightarrow> c \<in> gone"
    "\<forall>(x, ps) \<in> set (roles_of t). set ps \<inter> gone = {}"
    using children_loop [OF Suc.IH u r_u len, of "[]" "roles_of ?u" ?u "{}"] u pruned_refl by auto
  define t' where "t' = reg_upd (\<lambda>g. g\<lparr>
     rg_allowed := filter (\<lambda>k. fst k \<noteq> r) (rg_allowed g),
     rg_denied := filter (\<lambda>k. fst k \<noteq> r) (rg_denied g)\<rparr>) t"
  have run: "delete_role_upto (Suc n) r s = (Inr (), t')"
    using t(1) unfolding delete_role_upto.simps role_deleted_run [OF Suc.prems(1,2)]
    by (simp add: py_bind_def py_get_def py_seq_def delete_from_permissions_run t'_def)
  have t': "roles_of t' = roles_of t" "rbac_ok t'"
    using t(2) by (simp_all add: t'_def reg_upd_def rbac_ok_def)
  have "pruned s (insert r gone) t'"
    using t(3)
    by (simp add: pruned_def t'_def reg_upd_def without_role_def roles_upd_def without_name_def
        dict_del_filter conj_commute)
  moreover have "insert r gone \<subseteq> below (roles_of s) r"
  proof -
    have sub: "set (roles_of ?u) \<subseteq> set (roles_of s)" by (auto simp: set_dict_del)
    have "below (roles_of ?u) c \<subseteq> below (roles_of s) r" if "(c, ps) \<in> set (roles_of ?u)" "r \<in> set ps" for c ps
      using below_mono [OF sub, of c] below_trans [OF below_child [of c ps "roles_of s" r]] that sub by blast
    with t(4) show ?thesis by fastforce
  qed
  moreover have "\<forall>(x, ps) \<in> set (roles_of t'). set ps \<inter> insert r gone = {}"
  proof -
    have "r \<notin> set ps \<and> set ps \<inter> gone = {}" if "(x, ps) \<in> set (roles_of t)" for x ps
      using that t(5,6) set_roles_pruned [OF t(3)] by fastforce
    then show ?thesis by (auto simp: t')
  qed
  ultimately show ?case unfolding deletes_tree_def using run t'(2) by blast
qed simp

lemma gone_is_below:
  assumes pruned: "pruned s gone t" and r: "r \<in> gone" and sub: "gone \<subseteq> below (roles_of s) r"
    and closed: "\<forall>(x, ps) \<in> set (roles_of t). set ps \<inter> gone = {}"
  shows "gone = below (roles_of s) r"
proof
  show "below (roles_of s) r \<subseteq> gone"
  proof
    fix x assume "x \<in> below (roles_of s) r"
    then have "(x, r) \<in> (parent_rel (roles_of s))\<^sup>*" by (simp add: below_def)
    then show "x \<in> gone"
    proof (induction rule: converse_rtrancl_induct)
      case (step y z)
      then obtain ps where ps: "(y, ps) \<in> set (roles_of s)" "z \<in> set ps" by (auto simp: parent_rel_def)
      show ?case
      proof (rule ccontr)
        assume "y \<notin> gone"
        with ps(1) have "(y, ps) \<in> set (roles_of t)" by (simp add: set_roles_pruned [OF pruned])
        with closed ps(2) step.IH show False by auto
      qed
    qed (rule r)
  qed
qed (rule sub)

text \<open>
  Claim C8. Deleting a role always comes to an end and returns: when every role has at most one
  parent and a name of its own, the recursion never needs to go deeper than the number of
  roles, even if the parents form a cycle; what goes is exactly the role and everything below
  it, with all their rules, allowing and denying, and what stays is as it was and consistent.
\<close>

theorem deleting_a_role_deletes_its_tree:
  assumes "rbac_ok s" "role \<in> fst ` set (roles_of s)" "length (roles_of s) < depth"
  shows "\<exists>t. delete_role_upto depth role s = (Inr (), t) \<and> rbac_ok t \<and>
    roles_of t = filter (\<lambda>k. fst k \<notin> below (roles_of s) role) (roles_of s) \<and>
    rg_allowed (rb_registry t)
      = filter (\<lambda>k. fst k \<notin> below (roles_of s) role) (rg_allowed (rb_registry s)) \<and>
    rg_denied (rb_registry t)
      = filter (\<lambda>k. fst k \<notin> below (roles_of s) role) (rg_denied (rb_registry s))"
proof -
  obtain gone t where t: "delete_role_upto depth role s = (Inr (), t)" "rbac_ok t"
    "pruned s gone t" "role \<in> gone" "gone \<subseteq> below (roles_of s) role"
    "\<forall>(x, ps) \<in> set (roles_of t). set ps \<inter> gone = {}"
    using delete_role_upto_run [OF assms] unfolding deletes_tree_def by blast
  have "gone = below (roles_of s) role" using t(3-6) by (rule gone_is_below)
  with t(1-3) show ?thesis by (auto simp: pruned_def)
qed

text \<open>Roles 2 and 3 below role 1, role 4 below role 2, and role 5 apart.\<close>

definition demo_rbac :: rbac where
  "demo_rbac = \<lparr>rb_registry = \<lparr>rg_roles = [(1, []), (2, [1]), (3, [1]), (4, [2]), (5, [])],
       rg_resources = [7], rg_allowed = [(4, 1, 7), (5, 1, 7)], rg_denied = [(3, 1, 7)]\<rparr>,
     rb_permissions = [(1, ''Read'')], rb_http_permissions = [(''GET'', 1)],
     rb_role_id_to_name = [(1, ''a''), (2, ''b''), (3, ''c''), (4, ''d''), (5, ''e'')],
     rb_role_name_to_id = [(''a'', 1), (''b'', 2), (''c'', 3), (''d'', 4), (''e'', 5)],
     rb_client_def_to_role_id = [(''x'', [4])], rb_role_id_to_client_def = [(4, [''x''])]\<rparr>"

lemma demo_rbac_deletion: "map fst (roles_of (snd (delete_role 1 ''a'' demo_rbac))) = [5]"
  by code_simp

theorem deleting_a_role_deletes_its_tree_witness:
  "\<exists>t. delete_role 1 ''a'' demo_rbac = (Inr (), t) \<and> rbac_ok t"
proof -
  have ok: "rbac_ok demo_rbac" by (simp add: rbac_ok_def demo_rbac_def)
  have r: "1 \<in> fst ` set (roles_of demo_rbac)" by (simp add: demo_rbac_def)
  show ?thesis
    using deleting_a_role_deletes_its_tree [OF ok r lessI] unfolding delete_role_def registry_delete_role_def
    by blast
qed

text \<open>The clients of the deleted roles keep them.\<close>

lemma deleted_role_stays_with_clients:
  "map_of (rb_client_def_to_role_id (snd (delete_role 1 ''a'' demo_rbac))) ''x'' = Some [4]"
  by code_simp

end
