(* ===== verification/Url_Data.thy ===== *)
theory Url_Data
  imports Py_Prelude Pubsub_Core
begin

text \<open>
  The URL data of a server (zato-server connection/http_soap/url_data.py): the HTTP/SOAP
  channels, what security each of them uses, and twelve stores of security definitions, kept
  up to date by broker messages. This theory holds the state and the handlers of the messages
  about security definitions. Every handler holds \<open>url_sec_lock\<close>, so handlers are
  atomic here.
\<close>

section \<open>Dynamic values and attribute dictionaries\<close>

text \<open>
  Broker messages, security definitions and channel items are dictionaries from names to
  values of any kind. A security definition is never shared between a store and
  \<open>url_sec\<close>: the code copies it key by key.
\<close>

datatype py_val =
    VNone | VBool bool | VInt int | VStr string
  | VList "py_val list" | VDict "(string \<times> py_val) list"

type_synonym bunch = "(string, py_val) dict"

fun truthy :: "py_val \<Rightarrow> bool" where
  "truthy VNone = False"
| "truthy (VBool b) = b"
| "truthy (VInt i) = (i \<noteq> 0)"
| "truthy (VStr s) = (s \<noteq> [])"
| "truthy (VList xs) = (xs \<noteq> [])"
| "truthy (VDict d) = (d \<noteq> [])"

definition bget :: "string \<Rightarrow> bunch \<Rightarrow> py_val" where
  "bget k b = dict_get k VNone b"

text \<open>Formatting into a string, of values that are text or absent.\<close>

definition format_text :: "py_val \<Rightarrow> string" where
  "format_text v = (case v of VStr s \<Rightarrow> s | VNone \<Rightarrow> ''None'' | VBool True \<Rightarrow> ''True''
     | VBool False \<Rightarrow> ''False'' | _ \<Rightarrow> [])"

text \<open>\<open>msg.name\<close> of a \<open>Bunch\<close>, and \<open>msg['name']\<close>.\<close>

definition battr :: "bunch \<Rightarrow> string \<Rightarrow> ('s, py_val) py" where
  [py_run]: "battr b k = py_value AttributeError (map_of b k)"

definition bitem :: "bunch \<Rightarrow> string \<Rightarrow> ('s, py_val) py" where
  [py_run]: "bitem b k = py_value KeyError (map_of b k)"

lemma keeps_battr [keeps_intros]: "keeps I (battr b k)"
  by (simp add: battr_def keeps_value)

lemma keeps_bitem [keeps_intros]: "keeps I (bitem b k)"
  by (simp add: bitem_def keeps_value)

lemma battr_InrE:
  assumes "battr b k s = (Inr v, t)"
  obtains "map_of b k = Some v" "t = s"
  using assms by (auto simp: py_run split: option.splits)

section \<open>State\<close>

datatype sec_store =
    Apikey | Aws | Openstack | BasicAuth | Vault | Jwt | Ntlm | Oauth | Wss | XpathSec
  | TlsChannelSec | TlsKeyCert

fun sec_def_type :: "sec_store \<Rightarrow> string" where
  "sec_def_type Apikey = ''apikey''"
| "sec_def_type Aws = ''aws''"
| "sec_def_type BasicAuth = ''basic_auth''"
| "sec_def_type Jwt = ''jwt''"
| "sec_def_type Ntlm = ''ntlm''"
| "sec_def_type Oauth = ''oauth''"
| "sec_def_type Openstack = ''openstack''"
| "sec_def_type TlsChannelSec = ''tls_channel_sec''"
| "sec_def_type TlsKeyCert = ''tls_key_cert''"
| "sec_def_type Wss = ''wss''"
| "sec_def_type Vault = ''vault_conn_sec''"
| "sec_def_type XpathSec = ''xpath_sec''"

text \<open>\<open>getattr(self, '{}_config'.format(sec_type))\<close>.\<close>

definition store_of_type :: "string \<Rightarrow> sec_store option" where
  "store_of_type t = find (\<lambda>st. sec_def_type st = t)
     [Apikey, Aws, Openstack, BasicAuth, Vault, Jwt, Ntlm, Oauth, Wss, XpathSec, TlsChannelSec, TlsKeyCert]"

text \<open>The security of one channel; no definition is the constant \<open>ZATO_NONE\<close>.\<close>

record sec_info =
  si_id :: py_val
  si_is_active :: py_val
  si_data_format :: py_val
  si_transport :: py_val
  si_sec_use_rbac :: py_val
  si_sec_def :: "bunch option"

text \<open>
  \<open>ud_config\<close> is the family of attributes \<open>apikey_config\<close>, \<open>aws_config\<close> and
  so on, each a dictionary by name whose items hold a definition under the one key
  \<open>config\<close>; \<open>url_sec\<close> maps match targets to their security.
\<close>

record url_data =
  ud_config :: "sec_store \<Rightarrow> (py_val, bunch) dict"
  ud_url_sec :: "(string, sec_info) dict"
  ud_channel_data :: "bunch list"
  ud_url_path_cache :: "(string, bunch) dict"
  ud_url_target_cache :: "(string, string) dict"

abbreviation config_of :: "sec_store \<Rightarrow> url_data \<Rightarrow> (py_val, bunch) dict" where
  "config_of st s \<equiv> ud_config s st"

definition config_upd ::
  "sec_store \<Rightarrow> ((py_val, bunch) dict \<Rightarrow> (py_val, bunch) dict) \<Rightarrow> url_data \<Rightarrow> url_data" where
  "config_upd st f s = s\<lparr>ud_config := (ud_config s)(st := f (ud_config s st))\<rparr>"

lemma config_upd_sel [simp]:
  "ud_config (config_upd st f s) st' = (if st' = st then f (ud_config s st) else ud_config s st')"
  "ud_url_sec (config_upd st f s) = ud_url_sec s"
  "ud_channel_data (config_upd st f s) = ud_channel_data s"
  "ud_url_path_cache (config_upd st f s) = ud_url_path_cache s"
  "ud_url_target_cache (config_upd st f s) = ud_url_target_cache s"
  by (simp_all add: config_upd_def)

text \<open>\<open>config[name] = Bunch(); config[name].config = cfg\<close>, \<open>del config[name]\<close> and
  \<open>config[name]['config']['password'] = password\<close>.\<close>

definition config_put :: "sec_store \<Rightarrow> py_val \<Rightarrow> bunch \<Rightarrow> (url_data, unit) py" where
  "config_put st name cfg = item_set (config_upd st) name cfg"

definition config_del :: "sec_store \<Rightarrow> py_val \<Rightarrow> (url_data, unit) py" where
  "config_del st name = item_del (config_of st) (config_upd st) name"

definition config_password :: "sec_store \<Rightarrow> bunch \<Rightarrow> (url_data, unit) py" where
  "config_password st msg =
     py_bind (battr msg ''password'') (\<lambda>password.
     py_bind (battr msg ''name'') (\<lambda>name.
     py_seq (item_get (config_of st) name)
            (py_modify (config_upd st (dict_mutate name (dict_set ''password'' password))))))"

section \<open>Propagating a change to the channels\<close>

text \<open>
  \<open>_update_url_sec\<close> goes over a snapshot of the items of \<open>url_sec\<close>. Each matching
  definition is deleted, or takes over the values of the message under the keys it has.
\<close>

definition copy_present :: "bunch \<Rightarrow> bunch \<Rightarrow> bunch" where
  "copy_present msg d = map (\<lambda>(k, v). (k, case map_of msg k of None \<Rightarrow> v | Some new \<Rightarrow> new)) d"

definition msg_old_or_new_name :: "bunch \<Rightarrow> py_val" where
  "msg_old_or_new_name msg =
     (if truthy (bget ''old_name'' msg) then bget ''old_name'' msg else bget ''name'' msg)"

definition update_url_sec_item ::
  "bunch \<Rightarrow> string \<Rightarrow> bool \<Rightarrow> string \<times> sec_info \<Rightarrow> (url_data, unit) py" where
  "update_url_sec_item msg sec_type delete = (\<lambda>(target, info).
     case si_sec_def info of
       None \<Rightarrow> py_ret ()
     | Some d \<Rightarrow>
         py_bind (battr d ''sec_type'') (\<lambda>typ.
         py_when (typ = VStr sec_type) (
         py_bind (battr d ''name'') (\<lambda>name.
         py_when (name = msg_old_or_new_name msg)
           (if delete then item_del ud_url_sec ud_url_sec_update target
            else py_modify (ud_url_sec_update (dict_mutate target
                   (\<lambda>i. i\<lparr>si_sec_def := map_option (copy_present msg) (si_sec_def i)\<rparr>))))))))"

definition update_url_sec :: "bunch \<Rightarrow> string \<Rightarrow> bool \<Rightarrow> (url_data, unit) py" where
  "update_url_sec msg sec_type delete =
     py_bind (py_get ud_url_sec) (\<lambda>items. py_for items (update_url_sec_item msg sec_type delete))"

text \<open>
  The last index at which a test holds; the test may raise. An item is found by equality with
  itself, and no two items are equal because each has a matcher object of its own.
\<close>

fun match_index :: "('a \<Rightarrow> exn + bool) \<Rightarrow> nat \<Rightarrow> nat option \<Rightarrow> 'a list \<Rightarrow> exn + nat option" where
  "match_index p i found [] = Inr found"
| "match_index p i found (x # xs) =
     (case p x of
        Inl e \<Rightarrow> Inl e
      | Inr b \<Rightarrow> match_index p (Suc i) (if b then Some i else found) xs)"

definition pop_at :: "nat \<Rightarrow> 'a list \<Rightarrow> 'a list" where
  "pop_at i xs = take i xs @ drop (Suc i) xs"

definition uses_sec_def :: "string \<Rightarrow> py_val \<Rightarrow> bunch \<Rightarrow> exn + bool" where
  "uses_sec_def sec_type sec_name item =
     (if bget ''sec_type'' item = VStr sec_type
      then (case map_of item ''security_name'' of
              None \<Rightarrow> Inl KeyError
            | Some n \<Rightarrow> Inr (n = sec_name))
      else Inr False)"

definition delete_channel_data :: "string \<Rightarrow> py_val \<Rightarrow> (url_data, unit) py" where
  "delete_channel_data sec_type sec_name s =
     (case match_index (uses_sec_def sec_type sec_name) 0 None (ud_channel_data s) of
        Inl e \<Rightarrow> (Inl e, s)
      | Inr None \<Rightarrow> (Inr (), s)
      | Inr (Some i) \<Rightarrow> (Inr (), s\<lparr>ud_channel_data := pop_at i (ud_channel_data s)\<rparr>))"

end
