(* ===== verification/Url_Stores.thy ===== *)
theory Url_Stores
  imports Url_Data
begin

text \<open>
  The handlers of the broker messages that create, edit and delete security definitions and
  change their passwords, one group per kind of definition, in the order of url_data.py. A
  handler that raises keeps what it changed before: an edit deletes the old definition first.
\<close>

section \<open>API keys\<close>

text \<open>\<open>upper\<close> of the ASCII letters.\<close>

definition upper_char :: "char \<Rightarrow> char" where
  "upper_char c =
     (if 97 \<le> (of_char c :: nat) \<and> (of_char c :: nat) \<le> 122 then char_of ((of_char c :: nat) - 32)
      else c)"

definition upper :: "string \<Rightarrow> string" where
  "upper cs = map upper_char cs"

text \<open>\<open>update_apikey_username\<close> of zato-common util.py: the name of the WSGI variable of the
  header that carries the key.\<close>

definition update_apikey_username :: "bunch \<Rightarrow> exn + bunch" where
  "update_apikey_username config =
     (case dict_get ''username'' (VStr []) config of
        VStr u \<Rightarrow> Inr (dict_set ''username''
          (VStr (''HTTP_'' @ map (\<lambda>c. if c = CHR ''-'' then CHR ''_'' else c) (upper u))) config)
      | _ \<Rightarrow> Inl AttributeError)"

text \<open>The message itself becomes the definition, so the caller goes on with the changed one.\<close>

definition update_apikey :: "py_val \<Rightarrow> bunch \<Rightarrow> (url_data, bunch) py" where
  "update_apikey name config =
     (case update_apikey_username config of
        Inl e \<Rightarrow> py_raise e
      | Inr cfg \<Rightarrow> py_seq (config_put Apikey name cfg) (py_ret cfg))"

definition apikey_get :: "py_val \<Rightarrow> (url_data, bunch option) py" where
  "apikey_get name = py_get (\<lambda>s. map_of (config_of Apikey s) name)"

definition on_broker_msg_SECURITY_APIKEY_CREATE :: "bunch \<Rightarrow> (url_data, unit) py" where
  "on_broker_msg_SECURITY_APIKEY_CREATE msg =
     py_bind (battr msg ''name'') (\<lambda>name. py_seq (update_apikey name msg) (py_ret ()))"

definition on_broker_msg_SECURITY_APIKEY_EDIT :: "bunch \<Rightarrow> (url_data, unit) py" where
  "on_broker_msg_SECURITY_APIKEY_EDIT msg =
     py_bind (battr msg ''old_name'') (\<lambda>old_name.
     py_seq (config_del Apikey old_name) (
     py_bind (battr msg ''name'') (\<lambda>name.
     py_bind (update_apikey name msg) (\<lambda>msg. update_url_sec msg (sec_def_type Apikey) False))))"

definition on_broker_msg_SECURITY_APIKEY_DELETE :: "bunch \<Rightarrow> (url_data, unit) py" where
  "on_broker_msg_SECURITY_APIKEY_DELETE msg =
     py_bind (battr msg ''name'') (\<lambda>name.
     py_seq (delete_channel_data ''apikey'' name) (
       py_seq (config_del Apikey name) (update_url_sec msg (sec_def_type Apikey) True)))"

definition on_broker_msg_SECURITY_APIKEY_CHANGE_PASSWORD :: "bunch \<Rightarrow> (url_data, unit) py" where
  "on_broker_msg_SECURITY_APIKEY_CHANGE_PASSWORD msg =
     py_seq (config_password Apikey msg) (update_url_sec msg (sec_def_type Apikey) False)"

section \<open>AWS\<close>

definition update_aws :: "py_val \<Rightarrow> bunch \<Rightarrow> (url_data, unit) py" where
  "update_aws name config = config_put Aws name config"

definition aws_get :: "py_val \<Rightarrow> (url_data, bunch option) py" where
  "aws_get name = py_get (\<lambda>s. map_of (config_of Aws s) name)"

definition on_broker_msg_SECURITY_AWS_CREATE :: "bunch \<Rightarrow> (url_data, unit) py" where
  "on_broker_msg_SECURITY_AWS_CREATE msg =
     py_bind (battr msg ''name'') (\<lambda>name. update_aws name msg)"

definition on_broker_msg_SECURITY_AWS_EDIT :: "bunch \<Rightarrow> (url_data, unit) py" where
  "on_broker_msg_SECURITY_AWS_EDIT msg =
     py_bind (battr msg ''old_name'') (\<lambda>old_name.
     py_seq (config_del Aws old_name) (
     py_bind (battr msg ''name'') (\<lambda>name. update_aws name msg)))"

definition on_broker_msg_SECURITY_AWS_DELETE :: "bunch \<Rightarrow> (url_data, unit) py" where
  "on_broker_msg_SECURITY_AWS_DELETE msg =
     py_bind (battr msg ''name'') (\<lambda>name.
     py_seq (delete_channel_data ''aws'' name) (config_del Aws name))"

definition on_broker_msg_SECURITY_AWS_CHANGE_PASSWORD :: "bunch \<Rightarrow> (url_data, unit) py" where
  "on_broker_msg_SECURITY_AWS_CHANGE_PASSWORD msg =
     config_password Aws msg"

section \<open>OpenStack\<close>

definition update_openstack :: "py_val \<Rightarrow> bunch \<Rightarrow> (url_data, unit) py" where
  "update_openstack name config = config_put Openstack name config"

definition openstack_get :: "py_val \<Rightarrow> (url_data, bunch option) py" where
  "openstack_get name = py_get (\<lambda>s. map_of (config_of Openstack s) name)"

definition on_broker_msg_SECURITY_OPENSTACK_CREATE :: "bunch \<Rightarrow> (url_data, unit) py" where
  "on_broker_msg_SECURITY_OPENSTACK_CREATE msg =
     py_bind (battr msg ''name'') (\<lambda>name. update_openstack name msg)"

definition on_broker_msg_SECURITY_OPENSTACK_EDIT :: "bunch \<Rightarrow> (url_data, unit) py" where
  "on_broker_msg_SECURITY_OPENSTACK_EDIT msg =
     py_bind (battr msg ''old_name'') (\<lambda>old_name.
     py_seq (config_del Openstack old_name) (
     py_bind (battr msg ''name'') (\<lambda>name. update_openstack name msg)))"

definition on_broker_msg_SECURITY_OPENSTACK_DELETE :: "bunch \<Rightarrow> (url_data, unit) py" where
  "on_broker_msg_SECURITY_OPENSTACK_DELETE msg =
     py_bind (battr msg ''name'') (\<lambda>name.
     py_seq (delete_channel_data ''openstack'' name) (config_del Openstack name))"

definition on_broker_msg_SECURITY_OPENSTACK_CHANGE_PASSWORD :: "bunch \<Rightarrow> (url_data, unit) py" where
  "on_broker_msg_SECURITY_OPENSTACK_CHANGE_PASSWORD msg =
     config_password Openstack msg"

section \<open>HTTP Basic Auth\<close>

definition update_basic_auth :: "py_val \<Rightarrow> bunch \<Rightarrow> (url_data, unit) py" where
  "update_basic_auth name config = config_put BasicAuth name config"

definition basic_auth_get :: "py_val \<Rightarrow> (url_data, bunch option) py" where
  "basic_auth_get name = py_get (\<lambda>s. map_of (config_of BasicAuth s) name)"

definition on_broker_msg_SECURITY_BASIC_AUTH_CREATE :: "bunch \<Rightarrow> (url_data, unit) py" where
  "on_broker_msg_SECURITY_BASIC_AUTH_CREATE msg =
     py_bind (battr msg ''name'') (\<lambda>name. update_basic_auth name msg)"

definition on_broker_msg_SECURITY_BASIC_AUTH_EDIT :: "bunch \<Rightarrow> (url_data, unit) py" where
  "on_broker_msg_SECURITY_BASIC_AUTH_EDIT msg =
     py_bind (battr msg ''old_name'') (\<lambda>old_name.
     py_seq (config_del BasicAuth old_name) (
     py_bind (battr msg ''name'') (\<lambda>name. 
     py_seq (update_basic_auth name msg) (update_url_sec msg (sec_def_type BasicAuth) False))))"

definition on_broker_msg_SECURITY_BASIC_AUTH_DELETE :: "bunch \<Rightarrow> (url_data, unit) py" where
  "on_broker_msg_SECURITY_BASIC_AUTH_DELETE msg =
     py_bind (battr msg ''name'') (\<lambda>name.
     py_seq (delete_channel_data ''basic_auth'' name) (
       py_seq (config_del BasicAuth name) (update_url_sec msg (sec_def_type BasicAuth) True)))"

definition on_broker_msg_SECURITY_BASIC_AUTH_CHANGE_PASSWORD :: "bunch \<Rightarrow> (url_data, unit) py" where
  "on_broker_msg_SECURITY_BASIC_AUTH_CHANGE_PASSWORD msg =
     py_seq (config_password BasicAuth msg) (update_url_sec msg (sec_def_type BasicAuth) False)"

section \<open>Vault connections\<close>

definition update_vault_conn_sec :: "py_val \<Rightarrow> bunch \<Rightarrow> (url_data, unit) py" where
  "update_vault_conn_sec name config = config_put Vault name config"

definition vault_conn_sec_get :: "py_val \<Rightarrow> (url_data, bunch option) py" where
  "vault_conn_sec_get name = py_get (\<lambda>s. map_of (config_of Vault s) name)"

definition on_broker_msg_VAULT_CONNECTION_CREATE :: "bunch \<Rightarrow> (url_data, unit) py" where
  "on_broker_msg_VAULT_CONNECTION_CREATE msg =
     py_bind (battr msg ''name'') (\<lambda>name. update_vault_conn_sec name msg)"

definition on_broker_msg_VAULT_CONNECTION_EDIT :: "bunch \<Rightarrow> (url_data, unit) py" where
  "on_broker_msg_VAULT_CONNECTION_EDIT msg =
     py_bind (battr msg ''old_name'') (\<lambda>old_name.
     py_seq (config_del Vault old_name) (
     py_bind (battr msg ''name'') (\<lambda>name. 
     py_seq (update_vault_conn_sec name msg) (update_url_sec msg (sec_def_type Vault) False))))"

definition on_broker_msg_VAULT_CONNECTION_DELETE :: "bunch \<Rightarrow> (url_data, unit) py" where
  "on_broker_msg_VAULT_CONNECTION_DELETE msg =
     py_bind (battr msg ''name'') (\<lambda>name.
     py_seq (delete_channel_data ''vault_conn_sec'' name) (
       py_seq (config_del Vault name) (update_url_sec msg (sec_def_type Vault) True)))"

section \<open>JWT\<close>

definition update_jwt :: "py_val \<Rightarrow> bunch \<Rightarrow> (url_data, unit) py" where
  "update_jwt name config = config_put Jwt name config"

definition jwt_get :: "py_val \<Rightarrow> (url_data, bunch option) py" where
  "jwt_get name = py_get (\<lambda>s. map_of (config_of Jwt s) name)"

definition on_broker_msg_SECURITY_JWT_CREATE :: "bunch \<Rightarrow> (url_data, unit) py" where
  "on_broker_msg_SECURITY_JWT_CREATE msg =
     py_bind (battr msg ''name'') (\<lambda>name. update_jwt name msg)"

definition on_broker_msg_SECURITY_JWT_EDIT :: "bunch \<Rightarrow> (url_data, unit) py" where
  "on_broker_msg_SECURITY_JWT_EDIT msg =
     py_bind (battr msg ''old_name'') (\<lambda>old_name.
     py_seq (config_del Jwt old_name) (
     py_bind (battr msg ''name'') (\<lambda>name. 
     py_seq (update_jwt name msg) (update_url_sec msg (sec_def_type Jwt) False))))"

definition on_broker_msg_SECURITY_JWT_DELETE :: "bunch \<Rightarrow> (url_data, unit) py" where
  "on_broker_msg_SECURITY_JWT_DELETE msg =
     py_bind (battr msg ''name'') (\<lambda>name.
     py_seq (delete_channel_data ''jwt'' name) (
       py_seq (config_del Jwt name) (update_url_sec msg (sec_def_type Jwt) True)))"

definition on_broker_msg_SECURITY_JWT_CHANGE_PASSWORD :: "bunch \<Rightarrow> (url_data, unit) py" where
  "on_broker_msg_SECURITY_JWT_CHANGE_PASSWORD msg =
     py_seq (config_password Jwt msg) (update_url_sec msg (sec_def_type Jwt) False)"

section \<open>NTLM\<close>

definition update_ntlm :: "py_val \<Rightarrow> bunch \<Rightarrow> (url_data, unit) py" where
  "update_ntlm name config = config_put Ntlm name config"

definition ntlm_get :: "py_val \<Rightarrow> (url_data, bunch option) py" where
  "ntlm_get name = py_get (\<lambda>s. map_of (config_of Ntlm s) name)"

definition on_broker_msg_SECURITY_NTLM_CREATE :: "bunch \<Rightarrow> (url_data, unit) py" where
  "on_broker_msg_SECURITY_NTLM_CREATE msg =
     py_bind (battr msg ''name'') (\<lambda>name. update_ntlm name msg)"

definition on_broker_msg_SECURITY_NTLM_EDIT :: "bunch \<Rightarrow> (url_data, unit) py" where
  "on_broker_msg_SECURITY_NTLM_EDIT msg =
     py_bind (battr msg ''old_name'') (\<lambda>old_name.
     py_seq (config_del Ntlm old_name) (
     py_bind (battr msg ''name'') (\<lambda>name. 
     py_seq (update_ntlm name msg) (update_url_sec msg (sec_def_type Ntlm) False))))"

definition on_broker_msg_SECURITY_NTLM_DELETE :: "bunch \<Rightarrow> (url_data, unit) py" where
  "on_broker_msg_SECURITY_NTLM_DELETE msg =
     py_bind (battr msg ''name'') (\<lambda>name.
     py_seq (delete_channel_data ''ntlm'' name) (
       py_seq (config_del Ntlm name) (update_url_sec msg (sec_def_type Ntlm) True)))"

definition on_broker_msg_SECURITY_NTLM_CHANGE_PASSWORD :: "bunch \<Rightarrow> (url_data, unit) py" where
  "on_broker_msg_SECURITY_NTLM_CHANGE_PASSWORD msg =
     py_seq (config_password Ntlm msg) (update_url_sec msg (sec_def_type Ntlm) False)"

section \<open>OAuth\<close>

definition update_oauth :: "py_val \<Rightarrow> bunch \<Rightarrow> (url_data, unit) py" where
  "update_oauth name config = config_put Oauth name config"

definition oauth_get :: "py_val \<Rightarrow> (url_data, bunch option) py" where
  "oauth_get name = py_get (\<lambda>s. map_of (config_of Oauth s) name)"

definition on_broker_msg_SECURITY_OAUTH_CREATE :: "bunch \<Rightarrow> (url_data, unit) py" where
  "on_broker_msg_SECURITY_OAUTH_CREATE msg =
     py_bind (battr msg ''name'') (\<lambda>name. update_oauth name msg)"

definition on_broker_msg_SECURITY_OAUTH_EDIT :: "bunch \<Rightarrow> (url_data, unit) py" where
  "on_broker_msg_SECURITY_OAUTH_EDIT msg =
     py_bind (battr msg ''old_name'') (\<lambda>old_name.
     py_seq (config_del Oauth old_name) (
     py_bind (battr msg ''name'') (\<lambda>name. 
     py_seq (update_oauth name msg) (update_url_sec msg (sec_def_type Oauth) False))))"

definition on_broker_msg_SECURITY_OAUTH_DELETE :: "bunch \<Rightarrow> (url_data, unit) py" where
  "on_broker_msg_SECURITY_OAUTH_DELETE msg =
     py_bind (battr msg ''name'') (\<lambda>name.
     py_seq (delete_channel_data ''oauth'' name) (
       py_seq (config_del Oauth name) (update_url_sec msg (sec_def_type Oauth) True)))"

definition on_broker_msg_SECURITY_OAUTH_CHANGE_PASSWORD :: "bunch \<Rightarrow> (url_data, unit) py" where
  "on_broker_msg_SECURITY_OAUTH_CHANGE_PASSWORD msg =
     py_seq (config_password Oauth msg) (update_url_sec msg (sec_def_type Oauth) False)"

section \<open>WS-Security\<close>

text \<open>Clearing the wrapper of a definition that is overwritten next leaves nothing behind.\<close>

definition update_wss :: "py_val \<Rightarrow> bunch \<Rightarrow> (url_data, unit) py" where
  "update_wss name config =
     py_bind (py_get (\<lambda>s. dict_has name (config_of Wss s))) (\<lambda>present.
     py_seq (py_when present (py_modify (config_upd Wss (dict_mutate name (\<lambda>_. [])))))
            (config_put Wss name config))"

definition wss_get :: "py_val \<Rightarrow> (url_data, bunch option) py" where
  "wss_get name = py_get (\<lambda>s. map_of (config_of Wss s) name)"

definition on_broker_msg_SECURITY_WSS_CREATE :: "bunch \<Rightarrow> (url_data, unit) py" where
  "on_broker_msg_SECURITY_WSS_CREATE msg =
     py_bind (battr msg ''name'') (\<lambda>name. update_wss name msg)"

definition on_broker_msg_SECURITY_WSS_EDIT :: "bunch \<Rightarrow> (url_data, unit) py" where
  "on_broker_msg_SECURITY_WSS_EDIT msg =
     py_bind (battr msg ''old_name'') (\<lambda>old_name.
     py_seq (config_del Wss old_name) (
     py_bind (battr msg ''name'') (\<lambda>name. 
     py_seq (update_wss name msg) (update_url_sec msg (sec_def_type Wss) False))))"

definition on_broker_msg_SECURITY_WSS_DELETE :: "bunch \<Rightarrow> (url_data, unit) py" where
  "on_broker_msg_SECURITY_WSS_DELETE msg =
     py_bind (battr msg ''name'') (\<lambda>name.
     py_seq (delete_channel_data ''wss'' name) (
       py_seq (config_del Wss name) (update_url_sec msg (sec_def_type Wss) True)))"

definition on_broker_msg_SECURITY_WSS_CHANGE_PASSWORD :: "bunch \<Rightarrow> (url_data, unit) py" where
  "on_broker_msg_SECURITY_WSS_CHANGE_PASSWORD msg =
     py_seq (config_password Wss msg) (update_url_sec msg (sec_def_type Wss) False)"

section \<open>XPath\<close>

definition update_xpath_sec :: "py_val \<Rightarrow> bunch \<Rightarrow> (url_data, unit) py" where
  "update_xpath_sec name config = config_put XpathSec name config"

definition xpath_sec_get :: "py_val \<Rightarrow> (url_data, bunch option) py" where
  "xpath_sec_get name = py_get (\<lambda>s. map_of (config_of XpathSec s) name)"

definition on_broker_msg_SECURITY_XPATH_SEC_CREATE :: "bunch \<Rightarrow> (url_data, unit) py" where
  "on_broker_msg_SECURITY_XPATH_SEC_CREATE msg =
     py_bind (battr msg ''name'') (\<lambda>name. update_xpath_sec name msg)"

definition on_broker_msg_SECURITY_XPATH_SEC_EDIT :: "bunch \<Rightarrow> (url_data, unit) py" where
  "on_broker_msg_SECURITY_XPATH_SEC_EDIT msg =
     py_bind (battr msg ''old_name'') (\<lambda>old_name.
     py_seq (config_del XpathSec old_name) (
     py_bind (battr msg ''name'') (\<lambda>name. 
     py_seq (update_xpath_sec name msg) (update_url_sec msg (sec_def_type XpathSec) False))))"

definition on_broker_msg_SECURITY_XPATH_SEC_DELETE :: "bunch \<Rightarrow> (url_data, unit) py" where
  "on_broker_msg_SECURITY_XPATH_SEC_DELETE msg =
     py_bind (battr msg ''name'') (\<lambda>name.
     py_seq (delete_channel_data ''xpath_sec'' name) (
       py_seq (config_del XpathSec name) (update_url_sec msg (sec_def_type XpathSec) True)))"

definition on_broker_msg_SECURITY_XPATH_SEC_CHANGE_PASSWORD :: "bunch \<Rightarrow> (url_data, unit) py" where
  "on_broker_msg_SECURITY_XPATH_SEC_CHANGE_PASSWORD msg =
     py_seq (config_password XpathSec msg) (update_url_sec msg (sec_def_type XpathSec) False)"

section \<open>TLS channels\<close>

text \<open>
  \<open>parse_tls_channel_security_definition\<close> of zato-common util.py: lines of key and value
  become the WSGI variables a reverse proxy sets, later lines overriding earlier ones.
\<close>

definition parse_tls_line :: "string \<Rightarrow> exn + (string \<times> py_val)" where
  "parse_tls_line line =
     (if CHR ''='' \<notin> set line then Inl ValueError
      else let key = takeWhile (\<lambda>c. c \<noteq> CHR ''='') line; val = after_equals line in
        if key = [] then Inl ValueError
        else if val = [] then Inl ValueError
        else Inr (''HTTP_X_ZATO_TLS_'' @ upper key, VStr val))"

fun parse_tls_lines :: "string list \<Rightarrow> bunch \<Rightarrow> exn + bunch" where
  "parse_tls_lines [] acc = Inr acc"
| "parse_tls_lines (l # ls) acc =
     (let line = strip l in
      if line = [] then parse_tls_lines ls acc
      else (case parse_tls_line line of
              Inl e \<Rightarrow> Inl e
            | Inr (k, v) \<Rightarrow> parse_tls_lines ls (dict_set k v acc)))"

definition parse_tls_channel_security_definition :: "py_val \<Rightarrow> exn + bunch" where
  "parse_tls_channel_security_definition val =
     (if \<not> truthy val then Inl ValueError
      else (case val of VStr s \<Rightarrow> parse_tls_lines (splitlines s) [] | _ \<Rightarrow> Inl AttributeError))"

text \<open>The definition is stored before its value is parsed.\<close>

definition update_tls_channel_sec :: "py_val \<Rightarrow> bunch \<Rightarrow> (url_data, bunch) py" where
  "update_tls_channel_sec name config =
     py_seq (config_put TlsChannelSec name config) (
     py_bind (battr config ''value'') (\<lambda>val.
     case parse_tls_channel_security_definition val of
       Inl e \<Rightarrow> py_raise e
     | Inr d \<Rightarrow>
         let cfg = dict_set ''value'' (VDict d) config in
         py_seq (config_put TlsChannelSec name cfg) (py_ret cfg)))"

definition tls_channel_security_get :: "py_val \<Rightarrow> (url_data, bunch option) py" where
  "tls_channel_security_get name = py_get (\<lambda>s. map_of (config_of TlsChannelSec s) name)"

definition on_broker_msg_SECURITY_TLS_CHANNEL_SEC_CREATE :: "bunch \<Rightarrow> (url_data, unit) py" where
  "on_broker_msg_SECURITY_TLS_CHANNEL_SEC_CREATE msg =
     py_bind (battr msg ''name'') (\<lambda>name. py_seq (update_tls_channel_sec name msg) (py_ret ()))"

definition on_broker_msg_SECURITY_TLS_CHANNEL_SEC_EDIT :: "bunch \<Rightarrow> (url_data, unit) py" where
  "on_broker_msg_SECURITY_TLS_CHANNEL_SEC_EDIT msg =
     py_bind (battr msg ''old_name'') (\<lambda>old_name.
     py_seq (config_del TlsChannelSec old_name) (
     py_bind (battr msg ''name'') (\<lambda>name.
     py_bind (update_tls_channel_sec name msg) (\<lambda>msg. update_url_sec msg (sec_def_type TlsChannelSec) False))))"

definition on_broker_msg_SECURITY_TLS_CHANNEL_SEC_DELETE :: "bunch \<Rightarrow> (url_data, unit) py" where
  "on_broker_msg_SECURITY_TLS_CHANNEL_SEC_DELETE msg =
     py_bind (battr msg ''name'') (\<lambda>name.
     py_seq (config_del TlsChannelSec name) (update_url_sec msg (sec_def_type TlsChannelSec) True))"

section \<open>TLS keys and certificates\<close>

definition update_tls_key_cert :: "py_val \<Rightarrow> bunch \<Rightarrow> (url_data, unit) py" where
  "update_tls_key_cert name config = config_put TlsKeyCert name config"

definition tls_key_cert_get :: "py_val \<Rightarrow> (url_data, bunch option) py" where
  "tls_key_cert_get name = py_get (\<lambda>s. map_of (config_of TlsKeyCert s) name)"

definition on_broker_msg_SECURITY_TLS_KEY_CERT_CREATE :: "bunch \<Rightarrow> (url_data, unit) py" where
  "on_broker_msg_SECURITY_TLS_KEY_CERT_CREATE msg =
     py_bind (battr msg ''name'') (\<lambda>name. update_tls_key_cert name msg)"

definition on_broker_msg_SECURITY_TLS_KEY_CERT_EDIT :: "bunch \<Rightarrow> (url_data, unit) py" where
  "on_broker_msg_SECURITY_TLS_KEY_CERT_EDIT msg =
     py_bind (battr msg ''old_name'') (\<lambda>old_name.
     py_seq (config_del TlsKeyCert old_name) (
     py_bind (battr msg ''name'') (\<lambda>name. 
     py_seq (update_tls_key_cert name msg) (update_url_sec msg (sec_def_type TlsKeyCert) False))))"

definition on_broker_msg_SECURITY_TLS_KEY_CERT_DELETE :: "bunch \<Rightarrow> (url_data, unit) py" where
  "on_broker_msg_SECURITY_TLS_KEY_CERT_DELETE msg =
     py_bind (battr msg ''name'') (\<lambda>name.
     py_seq (config_del TlsKeyCert name) (update_url_sec msg (sec_def_type TlsKeyCert) True))"

section \<open>Dispatching a message to its handler\<close>

text \<open>
  \<open>dispatcher_callback\<close> finds the handler by the name of the event; there is none for a
  change of password in three of the stores. The events about CA certificates do nothing.
\<close>

datatype sec_event =
    OpCreate bunch | OpEdit bunch | OpDelete bunch | OpChangePassword bunch

fun dispatcher_callback :: "sec_store \<Rightarrow> sec_event \<Rightarrow> (url_data, unit) py" where
  "dispatcher_callback Apikey (OpCreate msg) = on_broker_msg_SECURITY_APIKEY_CREATE msg"
| "dispatcher_callback Apikey (OpEdit msg) = on_broker_msg_SECURITY_APIKEY_EDIT msg"
| "dispatcher_callback Apikey (OpDelete msg) = on_broker_msg_SECURITY_APIKEY_DELETE msg"
| "dispatcher_callback Apikey (OpChangePassword msg) = on_broker_msg_SECURITY_APIKEY_CHANGE_PASSWORD msg"
| "dispatcher_callback Aws (OpCreate msg) = on_broker_msg_SECURITY_AWS_CREATE msg"
| "dispatcher_callback Aws (OpEdit msg) = on_broker_msg_SECURITY_AWS_EDIT msg"
| "dispatcher_callback Aws (OpDelete msg) = on_broker_msg_SECURITY_AWS_DELETE msg"
| "dispatcher_callback Aws (OpChangePassword msg) = on_broker_msg_SECURITY_AWS_CHANGE_PASSWORD msg"
| "dispatcher_callback Openstack (OpCreate msg) = on_broker_msg_SECURITY_OPENSTACK_CREATE msg"
| "dispatcher_callback Openstack (OpEdit msg) = on_broker_msg_SECURITY_OPENSTACK_EDIT msg"
| "dispatcher_callback Openstack (OpDelete msg) = on_broker_msg_SECURITY_OPENSTACK_DELETE msg"
| "dispatcher_callback Openstack (OpChangePassword msg) = on_broker_msg_SECURITY_OPENSTACK_CHANGE_PASSWORD msg"
| "dispatcher_callback BasicAuth (OpCreate msg) = on_broker_msg_SECURITY_BASIC_AUTH_CREATE msg"
| "dispatcher_callback BasicAuth (OpEdit msg) = on_broker_msg_SECURITY_BASIC_AUTH_EDIT msg"
| "dispatcher_callback BasicAuth (OpDelete msg) = on_broker_msg_SECURITY_BASIC_AUTH_DELETE msg"
| "dispatcher_callback BasicAuth (OpChangePassword msg) = on_broker_msg_SECURITY_BASIC_AUTH_CHANGE_PASSWORD msg"
| "dispatcher_callback Vault (OpCreate msg) = on_broker_msg_VAULT_CONNECTION_CREATE msg"
| "dispatcher_callback Vault (OpEdit msg) = on_broker_msg_VAULT_CONNECTION_EDIT msg"
| "dispatcher_callback Vault (OpDelete msg) = on_broker_msg_VAULT_CONNECTION_DELETE msg"
| "dispatcher_callback Vault (OpChangePassword msg) = py_raise AttributeError"
| "dispatcher_callback Jwt (OpCreate msg) = on_broker_msg_SECURITY_JWT_CREATE msg"
| "dispatcher_callback Jwt (OpEdit msg) = on_broker_msg_SECURITY_JWT_EDIT msg"
| "dispatcher_callback Jwt (OpDelete msg) = on_broker_msg_SECURITY_JWT_DELETE msg"
| "dispatcher_callback Jwt (OpChangePassword msg) = on_broker_msg_SECURITY_JWT_CHANGE_PASSWORD msg"
| "dispatcher_callback Ntlm (OpCreate msg) = on_broker_msg_SECURITY_NTLM_CREATE msg"
| "dispatcher_callback Ntlm (OpEdit msg) = on_broker_msg_SECURITY_NTLM_EDIT msg"
| "dispatcher_callback Ntlm (OpDelete msg) = on_broker_msg_SECURITY_NTLM_DELETE msg"
| "dispatcher_callback Ntlm (OpChangePassword msg) = on_broker_msg_SECURITY_NTLM_CHANGE_PASSWORD msg"
| "dispatcher_callback Oauth (OpCreate msg) = on_broker_msg_SECURITY_OAUTH_CREATE msg"
| "dispatcher_callback Oauth (OpEdit msg) = on_broker_msg_SECURITY_OAUTH_EDIT msg"
| "dispatcher_callback Oauth (OpDelete msg) = on_broker_msg_SECURITY_OAUTH_DELETE msg"
| "dispatcher_callback Oauth (OpChangePassword msg) = on_broker_msg_SECURITY_OAUTH_CHANGE_PASSWORD msg"
| "dispatcher_callback Wss (OpCreate msg) = on_broker_msg_SECURITY_WSS_CREATE msg"
| "dispatcher_callback Wss (OpEdit msg) = on_broker_msg_SECURITY_WSS_EDIT msg"
| "dispatcher_callback Wss (OpDelete msg) = on_broker_msg_SECURITY_WSS_DELETE msg"
| "dispatcher_callback Wss (OpChangePassword msg) = on_broker_msg_SECURITY_WSS_CHANGE_PASSWORD msg"
| "dispatcher_callback XpathSec (OpCreate msg) = on_broker_msg_SECURITY_XPATH_SEC_CREATE msg"
| "dispatcher_callback XpathSec (OpEdit msg) = on_broker_msg_SECURITY_XPATH_SEC_EDIT msg"
| "dispatcher_callback XpathSec (OpDelete msg) = on_broker_msg_SECURITY_XPATH_SEC_DELETE msg"
| "dispatcher_callback XpathSec (OpChangePassword msg) = on_broker_msg_SECURITY_XPATH_SEC_CHANGE_PASSWORD msg"
| "dispatcher_callback TlsChannelSec (OpCreate msg) = on_broker_msg_SECURITY_TLS_CHANNEL_SEC_CREATE msg"
| "dispatcher_callback TlsChannelSec (OpEdit msg) = on_broker_msg_SECURITY_TLS_CHANNEL_SEC_EDIT msg"
| "dispatcher_callback TlsChannelSec (OpDelete msg) = on_broker_msg_SECURITY_TLS_CHANNEL_SEC_DELETE msg"
| "dispatcher_callback TlsChannelSec (OpChangePassword msg) = py_raise AttributeError"
| "dispatcher_callback TlsKeyCert (OpCreate msg) = on_broker_msg_SECURITY_TLS_KEY_CERT_CREATE msg"
| "dispatcher_callback TlsKeyCert (OpEdit msg) = on_broker_msg_SECURITY_TLS_KEY_CERT_EDIT msg"
| "dispatcher_callback TlsKeyCert (OpDelete msg) = on_broker_msg_SECURITY_TLS_KEY_CERT_DELETE msg"
| "dispatcher_callback TlsKeyCert (OpChangePassword msg) = py_raise AttributeError"

definition on_broker_msg_SECURITY_TLS_CA_CERT_CREATE :: "bunch \<Rightarrow> (url_data, unit) py" where
  "on_broker_msg_SECURITY_TLS_CA_CERT_CREATE msg = py_ret ()"

end
