(* ===== verification/Jwt_Backend.thy ===== *)
theory Jwt_Backend
  imports Py_Prelude
begin

text \<open>
  JSON Web Tokens (zato-server jwt.py) and the cache that holds the valid ones (cache.py):
  the key-value database first, the SQL ODB as a fallback when it cannot be reached. Sealing
  a token (JWT encoding and Fernet encryption) and opening it are parameters. The greenlets
  that write to the two stores run to completion here; their exceptions reach nobody.
\<close>

section \<open>State\<close>

text \<open>
  The key-value database forgets a key at its deadline; the ODB keeps the expiry time in a
  column. \<open>js_uuid\<close> numbers the session ids handed out.
\<close>

record jwt_state =
  js_now :: int
  js_kv_up :: bool
  js_kv :: "(string, string \<times> int option) dict"
  js_odb :: "(string, string \<times> int) dict"
  js_defs :: "(string \<times> string \<times> int) list"
  js_uuid :: nat
  js_cluster_id :: "string option"

section \<open>The robust cache\<close>

definition get_odb_key :: "string \<Rightarrow> jwt_state \<Rightarrow> string" where
  "get_odb_key key s =
     (case js_cluster_id s of None \<Rightarrow> key | Some c \<Rightarrow> ''cluster_id:'' @ c @ ''/'' @ key)"

definition kv_conn_get :: "string \<Rightarrow> (jwt_state, string option) py" where
  "kv_conn_get key s =
     (if \<not> js_kv_up s then (Inl (OtherError ''ConnectionError''), s)
      else (Inr (case map_of (js_kv s) key of
                   None \<Rightarrow> None
                 | Some (v, None) \<Rightarrow> Some v
                 | Some (v, Some deadline) \<Rightarrow> if js_now s < deadline then Some v else None), s))"

definition kv_conn_write ::
  "((string, string \<times> int option) dict \<Rightarrow> (string, string \<times> int option) dict) \<Rightarrow> (jwt_state, unit) py" where
  "kv_conn_write f s =
     (if \<not> js_kv_up s then (Inl (OtherError ''ConnectionError''), s) else (Inr (), js_kv_update f s))"

definition kvdb_put :: "string \<Rightarrow> string \<Rightarrow> int \<Rightarrow> (jwt_state, unit) py" where
  "kvdb_put key v ttl =
     py_try (
       py_seq (kv_conn_write (dict_set key (v, None))) (
       py_bind (py_get js_now) (\<lambda>now.
       py_when (ttl \<noteq> 0) (kv_conn_write (dict_set key (v, Some (now + ttl)))))))
     (\<lambda>_. py_ret ())"

definition odb_put :: "string \<Rightarrow> string \<Rightarrow> int \<Rightarrow> (jwt_state, unit) py" where
  "odb_put key v ttl =
     py_modify (\<lambda>s. js_odb_update (dict_set (get_odb_key key s) (v, js_now s + ttl)) s)"

definition odb_get :: "string \<Rightarrow> (jwt_state, (string \<times> int) option) py" where
  "odb_get key = py_get (\<lambda>s. map_of (js_odb s) (get_odb_key key s))"

definition cache_put :: "string \<Rightarrow> string \<Rightarrow> int \<Rightarrow> (jwt_state, unit) py" where
  "cache_put key v ttl = py_seq (kvdb_put key v ttl) (odb_put key v ttl)"

text \<open>
  Whether \<open>get\<close> returns something that counts as true: a non-empty value, or a row of
  the ODB when the database cannot be reached. The fallback for misses comes after a
  \<open>return\<close> and is never run.
\<close>

definition cache_get :: "string \<Rightarrow> (jwt_state, bool) py" where
  "cache_get key =
     py_try (py_bind (kv_conn_get key) (\<lambda>v. py_ret (v \<noteq> None \<and> v \<noteq> Some [])))
       (\<lambda>_. py_bind (odb_get key) (\<lambda>row. py_ret (row \<noteq> None)))"

definition cache_delete :: "string \<Rightarrow> (jwt_state, unit) py" where
  "cache_delete key =
     py_seq (kv_conn_write (dict_del key))
            (py_modify (\<lambda>s. js_odb_update (dict_del (get_odb_key key s)) s))"

section \<open>Tokens\<close>

text \<open>What is sealed in a token.\<close>

record token_data =
  td_session_id :: nat
  td_creation_time :: int
  td_username :: string
  td_ttl :: int

text \<open>The first definition with these credentials.\<close>

definition jwt_def_of :: "string \<Rightarrow> string \<Rightarrow> (string \<times> string \<times> int) list \<Rightarrow> int option" where
  "jwt_def_of username password defs =
     map_option (\<lambda>(_, _, ttl). ttl) (find (\<lambda>(u, p, _). u = username \<and> p = password) defs)"

definition lookup_jwt :: "string \<Rightarrow> string \<Rightarrow> (jwt_state, int option) py" where
  "lookup_jwt username password = py_get (\<lambda>s. jwt_def_of username password (js_defs s))"

definition create_token ::
  "(token_data \<Rightarrow> string) \<Rightarrow> string \<Rightarrow> int \<Rightarrow> (jwt_state, string) py" where
  "create_token seal username ttl s =
     (Inr (seal \<lparr>td_session_id = js_uuid s, td_creation_time = js_now s,
                 td_username = username, td_ttl = ttl\<rparr>), s\<lparr>js_uuid := Suc (js_uuid s)\<rparr>)"

definition jwt_authenticate ::
  "(token_data \<Rightarrow> string) \<Rightarrow> string \<Rightarrow> string \<Rightarrow> (jwt_state, string option) py" where
  "jwt_authenticate seal username password =
     py_bind (lookup_jwt username password) (\<lambda>sec_def.
     case sec_def of
       None \<Rightarrow> py_ret None
     | Some ttl \<Rightarrow>
         py_bind (create_token seal username ttl) (\<lambda>token.
         py_seq (cache_put token token ttl) (py_ret (Some token))))"

text \<open>\<open>validate\<close>; only the flag \<open>valid\<close> of its result is used by the callers.\<close>

definition jwt_validate ::
  "(string \<Rightarrow> exn + token_data) \<Rightarrow> string \<Rightarrow> string \<Rightarrow> (jwt_state, bool) py" where
  "jwt_validate unseal expected_username token =
     py_bind (cache_get token) (\<lambda>found.
     if found
     then (case unseal token of
             Inl e \<Rightarrow> py_raise e
           | Inr td \<Rightarrow>
               if td_username td = expected_username
               then py_seq (cache_put token token (td_ttl td)) (py_ret True)
               else py_ret False)
     else py_ret False)"

definition jwt_delete :: "string \<Rightarrow> (jwt_state, unit) py" where
  "jwt_delete token = cache_delete token"

section \<open>The life of a token\<close>

text \<open>Time passes, up to which the key-value database forgets what is due.\<close>

definition wait_until :: "int \<Rightarrow> jwt_state \<Rightarrow> jwt_state" where
  "wait_until t s = s\<lparr>js_now := max t (js_now s)\<rparr>"

lemma cache_put_up:
  "js_kv_up s \<Longrightarrow> cache_put key v ttl s =
     (Inr (), s\<lparr>js_kv := dict_set key (v, if ttl \<noteq> 0 then Some (js_now s + ttl) else None) (js_kv s),
               js_odb := dict_set (get_odb_key key s) (v, js_now s + ttl) (js_odb s)\<rparr>)"
  by (simp add: cache_put_def kvdb_put_def odb_put_def kv_conn_write_def py_run get_odb_key_def
      split: option.split)

lemma cache_get_up:
  "js_kv_up s \<Longrightarrow> cache_get key s =
     (Inr (case map_of (js_kv s) key of
             None \<Rightarrow> False
           | Some (v, d) \<Rightarrow> v \<noteq> [] \<and> (case d of None \<Rightarrow> True | Some deadline \<Rightarrow> js_now s < deadline)), s)"
  by (auto simp: cache_get_def kv_conn_get_def py_run split: option.split)

lemma cache_delete_up:
  "js_kv_up s \<Longrightarrow> cache_delete key s =
     (Inr (), s\<lparr>js_kv := dict_del key (js_kv s), js_odb := dict_del (get_odb_key key s) (js_odb s)\<rparr>)"
  by (simp add: cache_delete_def kv_conn_write_def py_run get_odb_key_def split: option.split)

lemma jwt_authenticate_cases:
  assumes "jwt_authenticate seal user pwd s = (Inr (Some token), t)" "js_kv_up s"
  obtains ttl td where "td_username td = user" "td_ttl td = ttl" "token = seal td" "js_kv_up t"
    "js_now t = js_now s" "map_of (js_kv t) token = Some (token, if ttl \<noteq> 0 then Some (js_now s + ttl) else None)"
    "jwt_def_of user pwd (js_defs s) = Some ttl"
proof -
  from assms(1) obtain ttl where d: "jwt_def_of user pwd (js_defs s) = Some ttl"
    by (cases "jwt_def_of user pwd (js_defs s)")
       (auto simp: jwt_authenticate_def lookup_jwt_def py_run)
  let ?td = "\<lparr>td_session_id = js_uuid s, td_creation_time = js_now s, td_username = user, td_ttl = ttl\<rparr>"
  from assms show thesis
    by (intro that [of ?td ttl])
       (auto simp: jwt_authenticate_def lookup_jwt_def create_token_def py_run cache_put_up d dict_simps)
qed

text \<open>What happens to a token after it is handed out: at a time it is validated for a user, or deleted.\<close>

datatype token_event = Check int string | Drop int

primrec event_time :: "token_event \<Rightarrow> int" where
  "event_time (Check now _) = now"
| "event_time (Drop now) = now"

primrec validations ::
  "(string \<Rightarrow> exn + token_data) \<Rightarrow> string \<Rightarrow> token_event list \<Rightarrow> jwt_state \<Rightarrow> (exn + bool) list" where
  "validations unseal token [] s = []"
| "validations unseal token (e # es) s = (case e of
     Check now user \<Rightarrow> (case jwt_validate unseal user token (wait_until now s) of
       (r, t) \<Rightarrow> r # validations unseal token es t)
   | Drop now \<Rightarrow> validations unseal token es (snd (jwt_delete token (wait_until now s))))"

text \<open>The answers promised: \<open>live\<close> says at which times the token is accepted as it stands. An accepted
  validation gives it its whole time to live again.\<close>

definition lives :: "int \<Rightarrow> int \<Rightarrow> int \<Rightarrow> bool" where
  "lives ttl since now \<longleftrightarrow> ttl = 0 \<or> now < since + ttl"

primrec promised :: "string \<Rightarrow> int \<Rightarrow> token_event list \<Rightarrow> (int \<Rightarrow> bool) \<Rightarrow> bool list" where
  "promised user ttl [] live = []"
| "promised user ttl (e # es) live = (case e of
     Check now user' \<Rightarrow> (user' = user \<and> live now) #
       promised user ttl es (if user' = user \<and> live now then lives ttl now else live)
   | Drop _ \<Rightarrow> promised user ttl es (\<lambda>_. False))"

definition kept_until :: "(string \<times> int option) option \<Rightarrow> int \<Rightarrow> bool" where
  "kept_until entry now = (case entry of None \<Rightarrow> False
     | Some (v, d) \<Rightarrow> v \<noteq> [] \<and> (case d of None \<Rightarrow> True | Some deadline \<Rightarrow> now < deadline))"

lemma jwt_validate_up:
  assumes "js_kv_up s" "unseal token = Inr td" "token \<noteq> []" "kept_until (map_of (js_kv s) token) = live"
  shows "\<exists>t. jwt_validate unseal user' token s = (Inr (user' = td_username td \<and> live (js_now s)), t) \<and>
    js_kv_up t \<and> js_now t = js_now s \<and> kept_until (map_of (js_kv t) token) =
      (if user' = td_username td \<and> live (js_now s) then lives (td_ttl td) (js_now s) else live)"
  using assms by (auto simp: jwt_validate_def py_run cache_get_up cache_put_up kept_until_def lives_def dict_simps
      fun_eq_iff split: option.splits)

lemma jwt_delete_up:
  "js_kv_up s \<Longrightarrow> js_kv_up (snd (jwt_delete token s)) \<and> js_now (snd (jwt_delete token s)) = js_now s \<and>
     kept_until (map_of (js_kv (snd (jwt_delete token s))) token) = (\<lambda>_. False)"
  by (simp add: jwt_delete_def cache_delete_up kept_until_def dict_simps fun_eq_iff)

lemma validations_promised:
  assumes "unseal token = Inr td" "token \<noteq> []"
  shows "js_kv_up s \<Longrightarrow> kept_until (map_of (js_kv s) token) = live \<Longrightarrow> sorted (js_now s # map event_time es) \<Longrightarrow>
    validations unseal token es s = map Inr (promised (td_username td) (td_ttl td) es live)"
proof (induction es arbitrary: s live)
  case (Cons e es)
  let ?s = "wait_until (event_time e) s"
  have now: "js_now ?s = event_time e" "js_kv_up ?s" "kept_until (map_of (js_kv ?s) token) = live"
    using Cons.prems by (simp_all add: wait_until_def)
  have sorted: "sorted (event_time e # map event_time es)" using Cons.prems(3) by simp
  show ?case
  proof (cases e)
    case (Check n user')
    from jwt_validate_up [of ?s unseal token td live user', OF now(2) assms now(3)] obtain t where
      t: "jwt_validate unseal user' token ?s = (Inr (user' = td_username td \<and> live (event_time e)), t)" "js_kv_up t"
        "js_now t = event_time e" "kept_until (map_of (js_kv t) token) =
          (if user' = td_username td \<and> live (event_time e) then lives (td_ttl td) (event_time e) else live)"
      by (auto simp: now(1))
    from Cons.IH [OF t(2,4)] t(1,3) sorted Check show ?thesis by simp
  next
    case (Drop n)
    with jwt_delete_up [OF now(2), of token] sorted now(1) Cons.IH show ?thesis by simp
  qed
qed simp


text \<open>A sealing that can be undone: three numbers in unary, and the name.\<close>

definition demo_int :: "int \<Rightarrow> string" where
  "demo_int i = (if i < 0 then CHR ''-'' else CHR ''+'') # replicate (nat \<bar>i\<bar>) CHR ''1'' @ ''.''"

definition demo_read :: "string \<Rightarrow> int \<times> string" where
  "demo_read cs =
     (let n = length (takeWhile (\<lambda>c. c = CHR ''1'') (tl cs))
      in (if hd cs = CHR ''-'' then - int n else int n, drop (n + 2) cs))"

definition demo_seal :: "token_data \<Rightarrow> string" where
  "demo_seal td = demo_int (int (td_session_id td)) @ demo_int (td_creation_time td)
     @ demo_int (td_ttl td) @ td_username td"

definition demo_unseal :: "string \<Rightarrow> exn + token_data" where
  "demo_unseal cs =
     (let (i, cs) = demo_read cs; (c, cs) = demo_read cs; (t, cs) = demo_read cs
      in Inr \<lparr>td_session_id = nat i, td_creation_time = c, td_username = cs, td_ttl = t\<rparr>)"

lemma demo_read_int: "demo_read (demo_int i @ cs) = (i, cs)"
proof -
  have "takeWhile (\<lambda>c. c = CHR ''1'') (replicate n CHR ''1'' @ CHR ''.'' # cs) = replicate n CHR ''1''" for n
    by (induction n) simp_all
  then show ?thesis by (simp add: demo_read_def demo_int_def)
qed

lemma demo_roundtrip: "demo_unseal (demo_seal td) = Inr td"
  by (simp add: demo_unseal_def demo_seal_def demo_read_int)

lemma demo_seal_not_empty: "demo_seal td \<noteq> []"
  by (simp add: demo_seal_def demo_int_def)

definition demo_jwt :: jwt_state where
  "demo_jwt = \<lparr>js_now = 100, js_kv_up = True, js_kv = [], js_odb = [],
     js_defs = [(''ann'', ''secret'', 60)], js_uuid = 0, js_cluster_id = None\<rparr>"


text \<open>When the key-value database is down the row in the ODB decides, however old it is.\<close>

lemma expired_token_accepted_without_kvdb:
  assumes "\<not> js_kv_up s" "map_of (js_odb s) (get_odb_key token s) = Some (v, expiry)"
    and "unseal token = Inr td" "td_username td = user"
  shows "fst (jwt_validate unseal user token s) = Inr True"
  using assms by (simp add: jwt_validate_def cache_get_def kv_conn_get_def odb_get_def py_run cache_put_def
      kvdb_put_def odb_put_def kv_conn_write_def)

end
