(* ===== verification/Url_Auth.thy ===== *)
theory Url_Auth
  imports Url_Stores Jwt_Backend Rbac
begin

text \<open>
  Authentication and authorisation of HTTP requests (url_data.py): one handler for each kind
  of security definition, delegation to RBAC, and WebSocket logins. The security libraries,
  XPath, Vault and services the code invokes are parameters, collected in \<open>auth_world\<close>.
\<close>

section \<open>State and parameters\<close>

text \<open>
  The WSGI environment of the request, which handlers extend, the token cache, and the OAuth
  nonces in the key-value database.
\<close>

type_synonym nonces = "(py_val \<times> py_val) list"

record auth_state =
  au_env :: bunch
  au_jwt :: jwt_state
  au_nonces :: nonces

type_synonym oauth_lookup = "py_val \<Rightarrow> (nonces, (py_val \<times> py_val) option) py"
type_synonym nonce_lookup = "py_val \<Rightarrow> py_val \<Rightarrow> (nonces, py_val option) py"

text \<open>
  What is outside the repository: on_basic_auth and on_wsse_pwd of sec-wall, the oauth
  library, XPath evaluation, the opening of tokens, the Vault client with its constants, the
  simple-rbac library, and the services that are invoked.
\<close>

record auth_world =
  aw_basic_auth :: "py_val \<Rightarrow> py_val \<Rightarrow> py_val \<Rightarrow> exn + bool"
  aw_wsse :: "bunch \<Rightarrow> py_val \<Rightarrow> exn + bool"
  aw_oauth_request :: "bunch \<Rightarrow> bunch \<Rightarrow> py_val option"
  aw_oauth_verify :: "oauth_lookup \<Rightarrow> oauth_lookup \<Rightarrow> nonce_lookup \<Rightarrow> py_val \<Rightarrow> (nonces, unit) py"
  aw_xpath :: "py_val \<Rightarrow> py_val \<Rightarrow> py_val list"
  aw_unseal :: "string \<Rightarrow> exn + token_data"
  aw_vault_client :: "py_val \<Rightarrow> exn + py_val"
  aw_vault_login :: "py_val \<Rightarrow> py_val \<Rightarrow> py_val list \<Rightarrow> exn + bunch option"
  aw_vault_method_header :: "py_val \<Rightarrow> exn + string list"
  aw_vault_token :: "py_val \<times> string"
  aw_vault_user :: "py_val \<times> string \<times> string"
  aw_vault_github :: "py_val \<times> string"
  aw_vault_response_headers :: "string \<times> string"
  aw_vault_service :: "py_val \<Rightarrow> bunch \<Rightarrow> py_val \<Rightarrow> bunch \<Rightarrow> exn + py_val \<times> bunch"
  aw_acl :: acl_lib
  aw_auth_type_hook :: "string \<Rightarrow> bunch \<Rightarrow> exn + string"
  aw_auth_type_hooks :: "(string, string) dict"

definition env_get :: "string \<Rightarrow> (auth_state, py_val) py" where
  "env_get k = py_get (\<lambda>s. bget k (au_env s))"

definition env_item :: "string \<Rightarrow> (auth_state, py_val) py" where
  "env_item k = item_get au_env k"

definition env_set :: "string \<Rightarrow> py_val \<Rightarrow> (auth_state, unit) py" where
  "env_set k v = item_set au_env_update k v"

definition with_jwt :: "(jwt_state, 'a) py \<Rightarrow> (auth_state, 'a) py" where
  "with_jwt m s = (case m (au_jwt s) of (r, j) \<Rightarrow> (r, s\<lparr>au_jwt := j\<rparr>))"

definition py_result :: "exn + 'a \<Rightarrow> ('s, 'a) py" where
  "py_result v s = (v, s)"

text \<open>A failed check raises with a challenge when authentication is enforced.\<close>

definition refuse :: "bool \<Rightarrow> string \<Rightarrow> (auth_state, bool) py" where
  "refuse enforce_auth challenge =
     (if enforce_auth then py_raise (Unauthorized challenge) else py_ret False)"

section \<open>The OAuth data store\<close>

text \<open>The loops over the accounts, in the order of the dictionary.\<close>

fun lookup_oauth :: "bunch list \<Rightarrow> oauth_lookup" where
  "lookup_oauth [] username = py_ret None"
| "lookup_oauth (c # cs) username =
     py_bind (battr c ''username'') (\<lambda>u.
     if u = username then py_bind (battr c ''password'') (\<lambda>p. py_ret (Some (u, p)))
     else lookup_oauth cs username)"

definition lookup_consumer :: "url_data \<Rightarrow> oauth_lookup" where
  "lookup_consumer ud key = lookup_oauth (dict_values (config_of Oauth ud)) key"

definition lookup_token :: "url_data \<Rightarrow> oauth_lookup" where
  "lookup_token ud token_field = lookup_oauth (dict_values (config_of Oauth ud)) token_field"

fun lookup_nonce_in :: "bunch list \<Rightarrow> nonce_lookup" where
  "lookup_nonce_in [] key nonce = py_ret None"
| "lookup_nonce_in (c # cs) key nonce =
     py_bind (battr c ''username'') (\<lambda>u.
     if u = key
     then py_bind (py_get (\<lambda>ns. (key, nonce) \<in> set ns)) (\<lambda>existing.
          if existing then py_ret (Some nonce)
          else py_bind (battr c ''max_nonce_log'') (\<lambda>_.
               py_seq (py_modify (\<lambda>ns. (key, nonce) # ns))
                      (lookup_nonce_in cs key nonce)))
     else lookup_nonce_in cs key nonce)"

definition lookup_nonce :: "url_data \<Rightarrow> nonce_lookup" where
  "lookup_nonce ud key nonce = lookup_nonce_in (dict_values (config_of Oauth ud)) key nonce"

section \<open>Handlers\<close>

definition handle_security_apikey :: "bunch \<Rightarrow> bool \<Rightarrow> (auth_state, bool) py" where
  "handle_security_apikey sec_def enforce_auth =
     py_bind (bitem sec_def ''username'') (\<lambda>username.
     py_bind (py_get (\<lambda>s. map_of (au_env s) (format_text username))) (\<lambda>given.
     let expected_key = dict_get ''password'' (VStr []) sec_def in
     case given of
       None \<Rightarrow> refuse enforce_auth ''zato-apikey''
     | Some key \<Rightarrow>
         if truthy expected_key \<and> key \<noteq> expected_key
         then refuse enforce_auth ''zato-apikey'' else py_ret True))"

definition handle_security_basic_auth :: "auth_world \<Rightarrow> bunch \<Rightarrow> bool \<Rightarrow> (auth_state, bool) py" where
  "handle_security_basic_auth w sec_def enforce_auth =
     py_bind (env_get ''HTTP_AUTHORIZATION'') (\<lambda>header.
     py_bind (battr sec_def ''username'') (\<lambda>username.
     py_bind (battr sec_def ''password'') (\<lambda>password.
     py_bind (py_result (aw_basic_auth w header username password)) (\<lambda>result.
     if result then py_ret True
     else if enforce_auth
     then py_bind (battr sec_def ''realm'') (\<lambda>realm.
          py_raise (Unauthorized (''Basic realm='' @ [CHR 0x22] @ format_text realm @ [CHR 0x22])))
     else py_ret False))))"

definition handle_security_jwt :: "auth_world \<Rightarrow> bunch \<Rightarrow> bool \<Rightarrow> (auth_state, bool) py" where
  "handle_security_jwt w sec_def enforce_auth =
     py_bind (env_get ''HTTP_AUTHORIZATION'') (\<lambda>authorization.
     if \<not> truthy authorization then refuse enforce_auth ''JWT''
     else if \<not> startswith ''Bearer '' (format_text authorization) then refuse enforce_auth ''JWT''
     else py_bind (battr sec_def ''username'') (\<lambda>username.
          py_bind (with_jwt (jwt_validate (aw_unseal w) (format_text username)
                     (drop 7 (format_text authorization)))) (\<lambda>valid.
          if valid then py_ret True else refuse enforce_auth ''JWT'')))"

definition wsse_config :: "bunch \<Rightarrow> exn + bunch" where
  "wsse_config sec_def =
     (case (map_of sec_def ''password'', map_of sec_def ''username'',
            map_of sec_def ''reject_empty_nonce_creat'', map_of sec_def ''reject_stale_tokens'',
            map_of sec_def ''reject_expiry_limit'', map_of sec_def ''nonce_freshness_time'') of
        (Some p, Some u, Some n, Some t, Some l, Some f) \<Rightarrow> Inr
          [(''wsse-pwd-password'', p), (''wsse-pwd-username'', u),
           (''wsse-pwd-reject-empty-nonce-creation'', n), (''wsse-pwd-reject-stale-tokens'', t),
           (''wsse-pwd-reject-expiry-limit'', l), (''wsse-pwd-nonce-freshness-time'', f)]
      | _ \<Rightarrow> Inl KeyError)"

definition handle_security_wss :: "auth_world \<Rightarrow> bunch \<Rightarrow> py_val \<Rightarrow> bool \<Rightarrow> (auth_state, bool) py" where
  "handle_security_wss w sec_def body enforce_auth =
     (if \<not> truthy body then refuse enforce_auth ''zato-wss''
      else py_bind (py_result (wsse_config sec_def)) (\<lambda>url_config.
           case aw_wsse w url_config body of
             Inl e \<Rightarrow> refuse enforce_auth ''zato-wss''
           | Inr result \<Rightarrow> if result then py_ret True else refuse enforce_auth ''zato-wss''))"

text \<open>Whether the verification of the request raised nothing.\<close>

definition oauth_verify :: "auth_world \<Rightarrow> url_data \<Rightarrow> py_val \<Rightarrow> (auth_state, bool) py" where
  "oauth_verify w ud oauth_request s =
     (case aw_oauth_verify w (lookup_consumer ud) (lookup_token ud) (lookup_nonce ud)
             oauth_request (au_nonces s) of
        (r, ns) \<Rightarrow> (Inr (case r of Inl _ \<Rightarrow> False | Inr _ \<Rightarrow> True), s\<lparr>au_nonces := ns\<rparr>))"

definition handle_security_oauth ::
  "auth_world \<Rightarrow> url_data \<Rightarrow> bunch \<Rightarrow> bool \<Rightarrow> (auth_state, bool) py" where
  "handle_security_oauth w ud post_data enforce_auth =
     py_seq (env_item ''wsgi.url_scheme'') (py_seq (env_item ''HTTP_HOST'') (py_seq (env_item ''RAW_URI'') (
     py_bind (env_get ''HTTP_AUTHORIZATION'') (\<lambda>http_auth_header.
     if \<not> truthy http_auth_header then refuse enforce_auth ''OAuth''
     else
       py_seq (env_set ''Authorization'' http_auth_header) (
       py_seq (env_item ''REQUEST_METHOD'') (py_seq (env_item ''QUERY_STRING'') (
       py_bind (py_get (\<lambda>s. aw_oauth_request w (au_env s) post_data)) (\<lambda>oauth_request.
       case oauth_request of
         None \<Rightarrow> refuse enforce_auth ''OAuth''
       | Some req \<Rightarrow>
           py_bind (oauth_verify w ud req) (\<lambda>verified.
           if verified then py_seq (env_set ''zato.oauth.request'' req) (py_ret True)
           else refuse enforce_auth ''OAuth'')))))))))"

definition handle_security_xpath_sec :: "auth_world \<Rightarrow> bunch \<Rightarrow> bool \<Rightarrow> (auth_state, bool) py" where
  "handle_security_xpath_sec w sec_def enforce_auth =
     py_bind (env_item ''zato.request.payload'') (\<lambda>payload.
     py_bind (battr sec_def ''username_expr'') (\<lambda>username_expr.
     case aw_xpath w payload username_expr of
       [] \<Rightarrow> refuse enforce_auth ''zato-xpath''
     | username # _ \<Rightarrow>
         py_bind (battr sec_def ''username'') (\<lambda>expected.
         if username \<noteq> expected then refuse enforce_auth ''zato-xpath''
         else if truthy (bget ''password_expr'' sec_def)
         then (case aw_xpath w payload (bget ''password_expr'' sec_def) of
                 [] \<Rightarrow> refuse enforce_auth ''zato-xpath''
               | password # _ \<Rightarrow>
                   py_bind (battr sec_def ''password'') (\<lambda>expected.
                   if password \<noteq> expected then refuse enforce_auth ''zato-xpath'' else py_ret True))
         else py_ret True)))"

text \<open>The conditions are the dictionary parsed when the definition was stored.\<close>

definition handle_security_tls_channel_sec :: "bunch \<Rightarrow> bool \<Rightarrow> (auth_state, bool) py" where
  "handle_security_tls_channel_sec sec_def enforce_auth =
     py_bind (battr sec_def ''value'') (\<lambda>conditions.
     case conditions of
       VDict items \<Rightarrow>
         py_bind (py_get (\<lambda>s. \<forall>(header, expected) \<in> set items. bget header (au_env s) = expected)) (\<lambda>ok.
         if ok then py_ret True else refuse enforce_auth ''zato-tls-channel-sec'')
     | _ \<Rightarrow> py_raise AttributeError)"

section \<open>Vault\<close>

definition headers_by_name :: "bunch \<Rightarrow> string list \<Rightarrow> exn + py_val list" where
  "headers_by_name env names =
     (if \<forall>n \<in> set names. dict_has n env then Inr (map (\<lambda>n. bget n env) names) else Inl KeyError)"

definition vault_conn_by_method ::
  "auth_world \<Rightarrow> py_val \<Rightarrow> py_val \<Rightarrow> bunch \<Rightarrow> exn + bunch option" where
  "vault_conn_by_method w client meth headers =
     (case aw_vault_method_header w meth of
        Inl e \<Rightarrow> Inl e
      | Inr auth_headers \<Rightarrow> (case headers_by_name headers auth_headers of
          Inl e \<Rightarrow> Inl e
        | Inr auth_attrs \<Rightarrow> aw_vault_login w client meth auth_attrs))"

text \<open>API keys are tried before user names and passwords, and these before GitHub.\<close>

definition vault_conn_check_headers :: "auth_world \<Rightarrow> py_val \<Rightarrow> bunch \<Rightarrow> exn + bunch option" where
  "vault_conn_check_headers w client env =
     (let (token, token_header) = aw_vault_token w;
          (user, user_header, password_header) = aw_vault_user w;
          (github, github_header) = aw_vault_github w
      in if dict_has token_header env then aw_vault_login w client token [bget token_header env]
         else if dict_has user_header env
         then aw_vault_login w client user [bget user_header env, bget password_header env]
         else if dict_has github_header env then aw_vault_login w client github [bget github_header env]
         else Inr None)"

definition vault_response ::
  "auth_world \<Rightarrow> bunch \<Rightarrow> py_val \<Rightarrow> bunch \<Rightarrow> py_val \<Rightarrow> bunch \<Rightarrow> exn + bunch option" where
  "vault_response w config client sec_def body env =
     (case map_of config ''service_name'' of
        None \<Rightarrow> Inl KeyError
      | Some service \<Rightarrow>
          if truthy service
          then (case aw_vault_service w service sec_def body env of
                  Inl e \<Rightarrow> Inl e
                | Inr (meth, headers) \<Rightarrow> vault_conn_by_method w client meth headers)
          else (case map_of config ''default_auth_method'' of
                  None \<Rightarrow> Inl KeyError
                | Some meth \<Rightarrow>
                    if truthy meth then vault_conn_by_method w client meth env
                    else vault_conn_check_headers w client env))"

definition set_response_header :: "string \<Rightarrow> py_val \<Rightarrow> (auth_state, unit) py" where
  "set_response_header k v =
     py_bind (env_item ''zato.http.response.headers'') (\<lambda>headers.
     case headers of
       VDict d \<Rightarrow> env_set ''zato.http.response.headers'' (VDict (dict_set k v d))
     | _ \<Rightarrow> py_raise TypeError)"

definition enforce_vault_sec :: "(auth_state, bool) py" where
  "enforce_vault_sec = py_raise (Unauthorized ''zato-vault'')"

text \<open>A login that fails without an exception raises whether or not it is enforced.\<close>

definition handle_security_vault_conn_sec ::
  "auth_world \<Rightarrow> url_data \<Rightarrow> bunch \<Rightarrow> py_val \<Rightarrow> bool \<Rightarrow> (auth_state, bool) py" where
  "handle_security_vault_conn_sec w ud sec_def body enforce_auth =
     py_bind (battr sec_def ''name'') (\<lambda>name.
     py_bind (py_value KeyError (map_of (config_of Vault ud) name)) (\<lambda>config.
     py_bind (py_result (aw_vault_client w name)) (\<lambda>client.
     py_bind (py_get (\<lambda>s. vault_response w config client sec_def body (au_env s))) (\<lambda>response.
     case response of
       Inl e \<Rightarrow> if enforce_auth then enforce_vault_sec else py_ret False
     | Inr None \<Rightarrow> enforce_vault_sec
     | Inr (Some r) \<Rightarrow>
         py_bind (battr r ''client_token'') (\<lambda>token.
         py_seq (set_response_header (fst (aw_vault_response_headers w)) token) (
         py_bind (battr r ''lease_duration'') (\<lambda>lease.
         py_seq (set_response_header (snd (aw_vault_response_headers w)) (VStr (format_text lease)))
                (py_ret True))))))))"

section \<open>Checking a request\<close>

definition enrich_with_sec_data :: "bunch \<Rightarrow> string \<Rightarrow> (auth_state, unit) py" where
  "enrich_with_sec_data sec_def typ =
     py_seq (env_set ''zato.sec_def'' (VDict [])) (
     py_bind (bitem sec_def ''id'') (\<lambda>i.
     py_seq (env_set ''zato.sec_def'' (VDict [(''id'', i)])) (
     py_bind (bitem sec_def ''name'') (\<lambda>name.
     env_set ''zato.sec_def'' (VDict [(''id'', i), (''name'', name),
       (''username'', bget ''username'' sec_def), (''impl'', VDict sec_def),
       (''type'', VStr typ)])))))"

text \<open>\<open>getattr(self, '_handle_security_' + type)\<close>; four kinds of definitions have none.\<close>

definition handle_security ::
  "auth_world \<Rightarrow> url_data \<Rightarrow> string \<Rightarrow> bunch \<Rightarrow> py_val \<Rightarrow> bunch \<Rightarrow> bool \<Rightarrow> (auth_state, bool) py" where
  "handle_security w ud typ sec_def payload post_data enforce_auth =
     (case store_of_type (map (\<lambda>c. if c = CHR ''-'' then CHR ''_'' else c) typ) of
        Some Apikey \<Rightarrow> handle_security_apikey sec_def enforce_auth
      | Some BasicAuth \<Rightarrow> handle_security_basic_auth w sec_def enforce_auth
      | Some Jwt \<Rightarrow> handle_security_jwt w sec_def enforce_auth
      | Some Wss \<Rightarrow> handle_security_wss w sec_def payload enforce_auth
      | Some Oauth \<Rightarrow> handle_security_oauth w ud post_data enforce_auth
      | Some XpathSec \<Rightarrow> handle_security_xpath_sec w sec_def enforce_auth
      | Some TlsChannelSec \<Rightarrow> handle_security_tls_channel_sec sec_def enforce_auth
      | Some Vault \<Rightarrow> handle_security_vault_conn_sec w ud sec_def payload enforce_auth
      | _ \<Rightarrow> py_raise AttributeError)"

definition rbac_client_name :: "string \<Rightarrow> py_val \<Rightarrow> string" where
  "rbac_client_name typ name = ''sec_def:::'' @ typ @ '':::'' @ format_text name"

definition item_service_id :: "bunch \<Rightarrow> int" where
  "item_service_id item = (case bget ''service_id'' item of VInt i \<Rightarrow> i | _ \<Rightarrow> 0)"

text \<open>\<open>check_security\<close> for security that does not delegate to RBAC.\<close>

definition check_security_def ::
  "auth_world \<Rightarrow> url_data \<Rightarrow> rbac \<Rightarrow> bunch option \<Rightarrow> bunch \<Rightarrow> py_val \<Rightarrow> bunch \<Rightarrow> bool \<Rightarrow> (auth_state, bool) py" where
  "check_security_def w ud rb sec channel_item payload post_data enforce_auth =
     (case sec of
        None \<Rightarrow> py_raise TypeError
      | Some sec_def \<Rightarrow>
          py_bind (bitem sec_def ''sec_type'') (\<lambda>sec_type.
          let typ = format_text sec_type in
          py_bind (handle_security w ud typ sec_def payload post_data enforce_auth) (\<lambda>ok.
          if \<not> ok then py_ret False
          else
            py_seq (py_when (truthy (bget ''has_rbac'' channel_item)) (
              py_bind (bitem sec_def ''name'') (\<lambda>name.
              py_bind (env_item ''REQUEST_METHOD'') (\<lambda>http_verb.
              py_seq (battr channel_item ''service_id'') (
              py_bind (py_result (is_http_client_allowed (aw_acl w) rb (rbac_client_name typ name)
                         (format_text http_verb) (item_service_id channel_item))) (\<lambda>is_allowed.
              if is_allowed then py_ret () else py_raise Forbidden))))))
            (py_seq (enrich_with_sec_data sec_def typ) (py_ret True)))))"

text \<open>\<open>client_def.split(':::')\<close> into exactly three parts.\<close>

function split_sep :: "string \<Rightarrow> string \<Rightarrow> string list" where
  "split_sep [] acc = [rev acc]"
| "split_sep (c # cs) acc =
     (if startswith '':::'' (c # cs) then rev acc # split_sep (drop 2 cs) [] else split_sep cs (c # acc))"
  by pat_completeness auto
termination
  by (relation "measure (\<lambda>(cs, acc). length cs)") auto

definition sec_config_getter :: "string \<Rightarrow> sec_store option" where
  "sec_config_getter typ =
     (if typ = ''basic_auth'' then Some BasicAuth else if typ = ''apikey'' then Some Apikey
      else if typ = ''jwt'' then Some Jwt else None)"

definition client_sec_def :: "url_data \<Rightarrow> string \<Rightarrow> exn + string \<times> bunch" where
  "client_sec_def ud client_def =
     (case split_sep client_def [] of
        [_, sec_type, sec_name] \<Rightarrow>
          (case sec_config_getter sec_type of
             None \<Rightarrow> Inl KeyError
           | Some st \<Rightarrow>
               (case map_of (config_of st ud) (VStr sec_name) of
                  None \<Rightarrow> Inl TypeError
                | Some sec_def \<Rightarrow> Inr (sec_type, sec_def)))
      | _ \<Rightarrow> Inl ValueError)"

fun try_clients ::
  "auth_world \<Rightarrow> url_data \<Rightarrow> rbac \<Rightarrow> bunch \<Rightarrow> py_val \<Rightarrow> bunch \<Rightarrow> string list \<Rightarrow> (auth_state, bool) py" where
  "try_clients w ud rb item payload post_data [] = py_ret False"
| "try_clients w ud rb item payload post_data (c # cs) =
     py_bind (py_result (client_sec_def ud c)) (\<lambda>(sec_type, sec_def).
     py_bind (check_security_def w ud rb (Some sec_def) item payload post_data False) (\<lambda>is_allowed.
     if is_allowed then py_seq (enrich_with_sec_data sec_def sec_type) (py_ret True)
     else try_clients w ud rb item payload post_data cs))"

fun try_rules ::
  "auth_world \<Rightarrow> url_data \<Rightarrow> rbac \<Rightarrow> bunch \<Rightarrow> py_val \<Rightarrow> bunch \<Rightarrow> int \<Rightarrow> rule_key list \<Rightarrow> (auth_state, bool) py" where
  "try_rules w ud rb item payload post_data perm [] = py_ret False"
| "try_rules w ud rb item payload post_data perm ((role_id, perm_id, resource_id) # rules) =
     (if perm_id = perm \<and> bget ''service_id'' item = VInt resource_id
      then py_bind (py_value KeyError (map_of (rb_role_id_to_client_def rb) role_id)) (\<lambda>clients.
           py_bind (try_clients w ud rb item payload post_data clients) (\<lambda>is_allowed.
           if is_allowed then py_ret True
           else try_rules w ud rb item payload post_data perm rules))
      else try_rules w ud rb item payload post_data perm rules)"

definition check_rbac_delegated_security ::
  "auth_world \<Rightarrow> url_data \<Rightarrow> rbac \<Rightarrow> bunch \<Rightarrow> py_val \<Rightarrow> bunch \<Rightarrow> (auth_state, unit) py" where
  "check_rbac_delegated_security w ud rb channel_item payload post_data =
     py_bind (env_get ''REQUEST_METHOD'') (\<lambda>http_method.
     case map_of (rb_http_permissions rb) (format_text http_method) of
       None \<Rightarrow> py_raise Forbidden
     | Some perm \<Rightarrow>
         if perm = 0 then py_raise Forbidden
         else
           py_bind (try_rules w ud rb channel_item payload post_data perm (rg_allowed (rb_registry rb))) (\<lambda>is_allowed.
           if is_allowed then py_ret ()
           else
             py_bind (bitem channel_item ''url_path'') (\<lambda>url_path.
             case map_of (aw_auth_type_hooks w) (format_text url_path) of
               None \<Rightarrow> py_raise (Unauthorized ''zato'')
             | Some service \<Rightarrow>
                 py_bind (py_result (aw_auth_type_hook w service channel_item)) (\<lambda>auth_type.
                 py_raise (Unauthorized auth_type)))))"

text \<open>
  The whole check: delegation to RBAC returns \<open>None\<close> when the request may go on, and
  the other path \<open>True\<close>.
\<close>

definition check_security ::
  "auth_world \<Rightarrow> url_data \<Rightarrow> rbac \<Rightarrow> sec_info \<Rightarrow> bunch \<Rightarrow> py_val \<Rightarrow> bunch \<Rightarrow> bool \<Rightarrow> (auth_state, bool option) py" where
  "check_security w ud rb sec channel_item payload post_data enforce_auth =
     (if truthy (si_sec_use_rbac sec)
      then py_seq (check_rbac_delegated_security w ud rb channel_item payload post_data) (py_ret None)
      else py_bind (check_security_def w ud rb (si_sec_def sec) channel_item payload post_data enforce_auth)
             (\<lambda>ok. py_ret (Some ok)))"

section \<open>WebSocket logins\<close>

text \<open>The codec \<open>base64\<close>: lines of 57 bytes, each ended by a line feed.\<close>

definition base64_char :: "nat \<Rightarrow> char" where
  "base64_char n =
     (if n < 26 then char_of (65 + n) else if n < 52 then char_of (71 + n)
      else if n < 62 then char_of (n - 4) else if n = 62 then CHR ''+'' else CHR ''/'')"

fun base64_group :: "nat list \<Rightarrow> string" where
  "base64_group [] = []"
| "base64_group [a] = [base64_char (a div 4), base64_char (a mod 4 * 16), CHR ''='', CHR ''='']"
| "base64_group [a, b] =
     [base64_char (a div 4), base64_char (a mod 4 * 16 + b div 16), base64_char (b mod 16 * 4), CHR ''='']"
| "base64_group (a # b # c # rest) =
     [base64_char (a div 4), base64_char (a mod 4 * 16 + b div 16),
      base64_char (b mod 16 * 4 + c div 64), base64_char (c mod 64)] @ base64_group rest"

function base64_encode :: "string \<Rightarrow> string" where
  "base64_encode cs =
     (if cs = [] then []
      else base64_group (map of_char (take 57 cs)) @ [CHR 0x0A] @ base64_encode (drop 57 cs))"
  by pat_completeness auto
termination
  by (relation "measure length") auto

declare base64_encode.simps [simp del]

definition vault_ws_headers :: "(string \<times> string) list \<Rightarrow> bunch \<Rightarrow> exn + bunch" where
  "vault_ws_headers names auth =
     (if \<forall>(key, header) \<in> set names. dict_has key auth
      then Inr (map (\<lambda>(key, header). (header, bget key auth)) names) else Inl KeyError)"

text \<open>
  The headers a login needs are put together from its credentials, on top of those the client
  sent first. \<open>ws_headers\<close> are the constants \<open>VAULT.WEB_SOCKET\<close>, flattened.
\<close>

definition ws_sec_headers ::
  "(string \<times> string) list \<Rightarrow> string \<Rightarrow> bunch \<Rightarrow> bunch \<Rightarrow> exn + sec_store \<times> bunch" where
  "ws_sec_headers ws_headers typ auth headers =
     (if typ = ''basic_auth''
      then (case (map_of auth ''username'', map_of auth ''secret'') of
              (Some u, Some p) \<Rightarrow> Inr (BasicAuth, dict_set ''HTTP_AUTHORIZATION''
                (VStr (''Basic '' @ base64_encode (format_text u @ '':'' @ format_text p))) headers)
            | _ \<Rightarrow> Inl KeyError)
      else if typ = ''jwt''
      then (case map_of auth ''secret'' of
              Some t \<Rightarrow> Inr (Jwt, dict_set ''HTTP_AUTHORIZATION'' (VStr (''Bearer '' @ format_text t)) headers)
            | None \<Rightarrow> Inl KeyError)
      else if typ = ''vault_conn_sec''
      then (case vault_ws_headers ws_headers auth of
              Inl e \<Rightarrow> Inl e
            | Inr hs \<Rightarrow> Inr (Vault, fold (\<lambda>(k, v). dict_set k v) hs
                (dict_set ''zato.http.response.headers'' (VDict []) headers)))
      else Inl ValueError)"

definition authenticate_web_socket ::
  "auth_world \<Rightarrow> (string \<times> string) list \<Rightarrow> url_data \<Rightarrow> string \<Rightarrow> bunch \<Rightarrow> py_val \<Rightarrow> bunch \<Rightarrow> bunch option \<Rightarrow>
   (auth_state, bool) py" where
  "authenticate_web_socket w ws_headers ud typ auth sec_name initial_environ initial_headers =
     (let headers = dict_set ''zato.ws.initial_http_wsgi_environ'' (VDict initial_environ)
                      (case initial_headers of None \<Rightarrow> [] | Some h \<Rightarrow> h)
      in case ws_sec_headers ws_headers typ auth headers of
           Inl e \<Rightarrow> py_raise e
         | Inr (st, env) \<Rightarrow>
             py_bind (py_value TypeError (map_of (config_of st ud) sec_name)) (\<lambda>sec_def.
             py_seq (py_modify (au_env_update (\<lambda>_. env)))
               (handle_security w ud (sec_def_type st) sec_def VNone [] False)))"

end
