(* ===== verification/Url_Channels.thy ===== *)
theory Url_Channels
  imports Url_Data "HOL-Library.List_Lexorder" "HOL-Library.Char_ord"
begin

text \<open>
  The HTTP/SOAP channels of url_data.py: their order, creation, edit and deletion, the
  configuration of their audit log, and the matching of requests (zato-cy url_dispatcher.pyx)
  with its two caches. The \<open>regex\<close> library is a parameter: whether a compiled pattern
  matches a target.
\<close>

section \<open>Order\<close>

text \<open>\<open>itemgetter('name')\<close>: names of channels are text.\<close>

definition item_name :: "bunch \<Rightarrow> string" where
  "item_name item = (case bget ''name'' item of VStr s \<Rightarrow> s | _ \<Rightarrow> [])"

definition is_internal_item :: "bunch \<Rightarrow> bool" where
  "is_internal_item item = truthy (bget ''is_internal'' item)"

definition sorted_channels :: "bunch list \<Rightarrow> bunch list" where
  "sorted_channels items =
     sort_key item_name (filter (\<lambda>i. \<not> is_internal_item i) items)
     @ sort_key item_name (filter is_internal_item items)"

definition sort_channel_data :: "(url_data, unit) py" where
  "sort_channel_data s =
     (if \<forall>item \<in> set (ud_channel_data s). dict_has ''is_internal'' item \<and> dict_has ''name'' item
      then (Inr (), s\<lparr>ud_channel_data := sorted_channels (ud_channel_data s)\<rparr>)
      else (Inl KeyError, s))"

section \<open>Channel items\<close>

definition match_target_of :: "py_val \<Rightarrow> py_val \<Rightarrow> string" where
  "match_target_of soap_action url_path =
     format_text soap_action @ '':::'' @ format_text url_path"

definition channel_fields :: "string list" where
  "channel_fields =
     [''connection'', ''content_type'', ''data_format'', ''host'', ''id'', ''has_rbac'',
      ''impl_name'', ''is_active'', ''is_internal'', ''merge_url_params_req'', ''method'',
      ''name'', ''params_pri'', ''ping_method'', ''pool_size'', ''service_id'',
      ''service_name'', ''soap_action'', ''soap_version'', ''transport'', ''url_params_pri'',
      ''url_path'', ''sec_use_rbac'', ''cache_type'', ''cache_id'', ''cache_name'',
      ''cache_expiry'']"

primrec copy_fields :: "string list \<Rightarrow> bunch \<Rightarrow> bunch \<Rightarrow> exn + bunch" where
  "copy_fields [] msg acc = Inr acc"
| "copy_fields (k # ks) msg acc =
     (case map_of msg k of
        None \<Rightarrow> Inl KeyError
      | Some v \<Rightarrow> copy_fields ks msg (dict_set k v acc))"

definition security_fields :: "bunch \<Rightarrow> bunch \<Rightarrow> exn + bunch" where
  "security_fields msg item =
     (if truthy (bget ''security_id'' msg)
      then copy_fields [''sec_type'', ''security_id'', ''security_name''] msg item
      else Inr item)"

definition audit_fields :: "bunch \<Rightarrow> bunch \<Rightarrow> bunch" where
  "audit_fields old_data item =
     dict_set ''replace_patterns_xpath'' (dict_get ''replace_patterns_xpath'' (VList []) old_data) (
     dict_set ''replace_patterns_json_pointer''
       (dict_get ''replace_patterns_json_pointer'' (VList []) old_data) (
     dict_set ''audit_repl_patt_type'' (dict_get ''audit_repl_patt_type'' VNone old_data) (
     dict_set ''audit_max_payload'' (dict_get ''audit_max_payload'' (VInt 0) old_data) (
     dict_set ''audit_enabled'' (dict_get ''audit_enabled'' (VBool False) old_data) item))))"

text \<open>A matcher is known by its pattern, from which it is compiled.\<close>

definition channel_item_from_msg :: "bunch \<Rightarrow> string \<Rightarrow> bunch \<Rightarrow> exn + bunch" where
  "channel_item_from_msg msg match_target old_data =
     (case copy_fields channel_fields msg [] of
        Inl e \<Rightarrow> Inl e
      | Inr item \<Rightarrow> (case security_fields msg item of
          Inl e \<Rightarrow> Inl e
        | Inr item \<Rightarrow> Inr (
            dict_set ''match_target_compiled'' (VStr match_target) (
            dict_set ''match_target'' (VStr match_target) (
            dict_set ''service_impl_name'' (bget ''impl_name'' msg) (
            audit_fields old_data item))))))"

definition sec_def_from_msg :: "bunch \<Rightarrow> (url_data, bunch option) py" where
  "sec_def_from_msg msg =
     (if truthy (bget ''security_name'' msg)
      then py_bind (bitem msg ''sec_type'') (\<lambda>sec_type.
           case store_of_type (format_text sec_type) of
             None \<Rightarrow> py_raise AttributeError
           | Some st \<Rightarrow>
               py_bind (item_get (config_of st) (bget ''security_name'' msg)) (\<lambda>config.
               py_ret (Some config)))
      else py_ret None)"

definition sec_info_from_msg :: "bunch \<Rightarrow> (url_data, sec_info) py" where
  "sec_info_from_msg msg =
     py_bind (battr msg ''id'') (\<lambda>i.
     py_bind (battr msg ''is_active'') (\<lambda>is_active.
     py_bind (battr msg ''data_format'') (\<lambda>data_format.
     py_bind (battr msg ''transport'') (\<lambda>transport.
     py_bind (battr msg ''sec_use_rbac'') (\<lambda>sec_use_rbac.
     py_bind (sec_def_from_msg msg) (\<lambda>sec_def.
     py_ret \<lparr>si_id = i, si_is_active = is_active, si_data_format = data_format,
       si_transport = transport, si_sec_use_rbac = sec_use_rbac, si_sec_def = sec_def\<rparr>))))))"

section \<open>Creation, edit and deletion\<close>

definition create_channel :: "bunch \<Rightarrow> bunch \<Rightarrow> (url_data, unit) py" where
  "create_channel msg old_data =
     py_bind (battr msg ''soap_action'') (\<lambda>soap_action.
     py_bind (battr msg ''url_path'') (\<lambda>url_path.
     let match_target = match_target_of soap_action url_path in
     case channel_item_from_msg msg match_target old_data of
       Inl e \<Rightarrow> py_raise e
     | Inr item \<Rightarrow>
         py_seq (py_modify (ud_channel_data_update (\<lambda>cs. cs @ [item]))) (
         py_bind (sec_info_from_msg msg) (\<lambda>sec_info.
         py_seq (item_set ud_url_sec_update match_target sec_info) (
         py_seq (py_modify (ud_url_path_cache_update (dict_del match_target)))
                sort_channel_data)))))"

definition has_target :: "string \<Rightarrow> bunch \<Rightarrow> exn + bool" where
  "has_target target item =
     (case map_of item ''match_target'' of None \<Rightarrow> Inl KeyError | Some v \<Rightarrow> Inr (v = VStr target))"

definition pop_channel :: "string \<Rightarrow> (url_data, bunch) py" where
  "pop_channel target s =
     (case match_index (has_target target) 0 None (ud_channel_data s) of
        Inl e \<Rightarrow> (Inl e, s)
      | Inr None \<Rightarrow> (Inr [], s)
      | Inr (Some i) \<Rightarrow>
          (Inr (ud_channel_data s ! i), s\<lparr>ud_channel_data := pop_at i (ud_channel_data s)\<rparr>))"

definition delete_channel :: "bunch \<Rightarrow> (url_data, bunch) py" where
  "delete_channel msg =
     (let old_match_target =
        match_target_of (bget ''old_soap_action'' msg) (bget ''old_url_path'' msg) in
      py_bind (pop_channel old_match_target) (\<lambda>old_data.
      py_seq (item_del ud_url_sec ud_url_sec_update old_match_target) (
      py_seq (py_modify (ud_url_path_cache_update (dict_del old_match_target))) (
      py_seq sort_channel_data (py_ret old_data)))))"

definition on_broker_msg_CHANNEL_HTTP_SOAP_CREATE_EDIT :: "bunch \<Rightarrow> (url_data, unit) py" where
  "on_broker_msg_CHANNEL_HTTP_SOAP_CREATE_EDIT msg =
     py_bind (if truthy (bget ''old_name'' msg) then delete_channel msg else py_ret [])
       (create_channel msg)"

definition on_broker_msg_CHANNEL_HTTP_SOAP_DELETE :: "bunch \<Rightarrow> (url_data, unit) py" where
  "on_broker_msg_CHANNEL_HTTP_SOAP_DELETE msg = py_seq (delete_channel msg) (py_ret ())"

section \<open>Audit configuration\<close>

text \<open>
  A loop over the items that changes them in place; the body may raise, and says whether to
  stop (\<open>break\<close>).
\<close>

primrec change_items ::
  "(bunch, bool) py \<Rightarrow> bunch list \<Rightarrow> (exn + unit) \<times> bunch list" where
  "change_items body [] = (Inr (), [])"
| "change_items body (item # items) =
     (case body item of
        (Inl e, item') \<Rightarrow> (Inl e, item' # items)
      | (Inr True, item') \<Rightarrow> (Inr (), item' # items)
      | (Inr False, item') \<Rightarrow> (case change_items body items of (r, items') \<Rightarrow> (r, item' # items')))"

definition each_item :: "(bunch, bool) py \<Rightarrow> (url_data, unit) py" where
  "each_item body s =
     (case change_items body (ud_channel_data s) of (r, items) \<Rightarrow> (r, s\<lparr>ud_channel_data := items\<rparr>))"

definition own_item :: "string \<Rightarrow> (bunch, py_val) py" where
  "own_item k = py_bind (py_get (\<lambda>item. map_of item k)) (py_value KeyError)"

definition when_same_id :: "bunch \<Rightarrow> (bunch, bool) py \<Rightarrow> (bunch, bool) py" where
  "when_same_id msg body =
     py_bind (own_item ''id'') (\<lambda>i. py_bind (battr msg ''id'') (\<lambda>j.
     if i = j then body else py_ret False))"

definition set_from_msg :: "bunch \<Rightarrow> string \<Rightarrow> string \<Rightarrow> (bunch, unit) py" where
  "set_from_msg msg attr k = py_bind (battr msg attr) (\<lambda>v. py_modify (dict_set k v))"

definition on_broker_msg_CHANNEL_HTTP_SOAP_AUDIT_CONFIG :: "bunch \<Rightarrow> (url_data, unit) py" where
  "on_broker_msg_CHANNEL_HTTP_SOAP_AUDIT_CONFIG msg = each_item (when_same_id msg (
     py_seq (set_from_msg msg ''audit_max_payload'' ''audit_max_payload'') (py_ret False)))"

definition on_broker_msg_CHANNEL_HTTP_SOAP_AUDIT_STATE :: "bunch \<Rightarrow> (url_data, unit) py" where
  "on_broker_msg_CHANNEL_HTTP_SOAP_AUDIT_STATE msg = each_item (when_same_id msg (
     py_seq (set_from_msg msg ''audit_enabled'' ''audit_enabled'') (py_ret True)))"

definition json_pointer_type :: py_val where
  "json_pointer_type = VStr ''json-pointer''"

definition on_broker_msg_CHANNEL_HTTP_SOAP_AUDIT_PATTERNS :: "bunch \<Rightarrow> (url_data, unit) py" where
  "on_broker_msg_CHANNEL_HTTP_SOAP_AUDIT_PATTERNS msg = each_item (when_same_id msg (
     py_seq (set_from_msg msg ''audit_repl_patt_type'' ''audit_repl_patt_type'') (
     py_bind (own_item ''audit_repl_patt_type'') (\<lambda>typ.
     py_seq (if typ = json_pointer_type
             then set_from_msg msg ''pattern_list'' ''replace_patterns_json_pointer''
             else set_from_msg msg ''pattern_list'' ''replace_patterns_xpath'')
            (py_ret True)))))"

text \<open>
  \<open>_yield_pattern_list\<close>, and the rename of a pattern: every non-empty list that has the
  old name loses its first occurrence and gets the new name at the end. The handler of a
  deletion is a generator function, so that calling it runs none of its body.
\<close>

definition yield_pattern_list ::
  "bunch \<Rightarrow> (string \<Rightarrow> py_val list \<Rightarrow> (bunch, unit) py) \<Rightarrow> (bunch, bool) py" where
  "yield_pattern_list msg body =
     py_bind (battr msg ''msg_pattern_type'') (\<lambda>typ.
     let k = (if typ = json_pointer_type then ''replace_patterns_json_pointer''
              else ''replace_patterns_xpath'') in
     py_bind (own_item k) (\<lambda>v.
     py_seq (case v of VList (p # ps) \<Rightarrow> body k (p # ps) | _ \<Rightarrow> py_ret ()) (py_ret False)))"

definition on_broker_msg_MSG_JSON_POINTER_EDIT :: "bunch \<Rightarrow> (url_data, unit) py" where
  "on_broker_msg_MSG_JSON_POINTER_EDIT msg = each_item (yield_pattern_list msg (\<lambda>k pattern_list.
     py_bind (battr msg ''old_name'') (\<lambda>old_name.
     if old_name \<in> set pattern_list
     then py_seq (py_modify (dict_set k (VList (remove1 old_name pattern_list))))
          (py_bind (battr msg ''name'') (\<lambda>name.
           py_modify (dict_set k (VList (remove1 old_name pattern_list @ [name])))))
     else py_ret ())))"

definition on_broker_msg_MSG_JSON_POINTER_DELETE :: "bunch \<Rightarrow> (url_data, unit) py" where
  "on_broker_msg_MSG_JSON_POINTER_DELETE msg = py_ret ()"

section \<open>Matching requests\<close>

text \<open>
  \<open>Matcher\<close>: a pattern with a group in braces is not static; one with the path /zato/
  right after the separator is internal.
\<close>

definition is_brace_char :: "char \<Rightarrow> bool" where
  "is_brace_char c \<longleftrightarrow>
     (let n = (of_char c :: nat) in
      (97 \<le> n \<and> n \<le> 122) \<or> (65 \<le> n \<and> n \<le> 90) \<or> (48 \<le> n \<and> n \<le> 57) \<or> c \<in> set '' _$.-|=~^'')"

fun has_group :: "string \<Rightarrow> bool" where
  "has_group [] = False"
| "has_group (c # cs) =
     ((c = CHR ''{'' \<and> takeWhile is_brace_char cs \<noteq> [] \<and>
        startswith ''}'' (dropWhile is_brace_char cs))
      \<or> has_group cs)"

definition is_static :: "string \<Rightarrow> bool" where
  "is_static pattern \<longleftrightarrow> \<not> has_group pattern"

definition is_internal_pattern :: "string \<Rightarrow> bool" where
  "is_internal_pattern pattern \<longleftrightarrow> contains '':::/zato/'' pattern"

definition item_pattern :: "bunch \<Rightarrow> string" where
  "item_pattern item = format_text (bget ''match_target_compiled'' item)"

text \<open>The first item that may answer the request; \<open>re\<close> tells whether the regular
  expression made from a pattern matches a target.\<close>

definition scan_channels ::
  "(string \<Rightarrow> string \<Rightarrow> bool) \<Rightarrow> bool \<Rightarrow> string \<Rightarrow> bunch list \<Rightarrow> bunch option" where
  "scan_channels re needs_user target items =
     find (\<lambda>item. \<not> (needs_user \<and> is_internal_pattern (item_pattern item))
                   \<and> re (item_pattern item) target) items"

definition match_request ::
  "(string \<Rightarrow> string \<Rightarrow> bool) \<Rightarrow> string \<Rightarrow> string \<Rightarrow> bool \<Rightarrow> url_data \<Rightarrow> bunch option \<times> url_data" where
  "match_request re url_path soap_action has_soap_action s =
     (let key = (if has_soap_action then url_path @ soap_action else url_path);
          cached = map_of (ud_url_target_cache s) key;
          target = (case cached of Some t \<Rightarrow> t | None \<Rightarrow> soap_action @ '':::'' @ url_path)
      in case map_of (ud_url_path_cache s) target of
           Some item \<Rightarrow> (Some item, s)
         | None \<Rightarrow>
             (case scan_channels re (\<not> startswith ''/zato'' url_path) target (ud_channel_data s) of
                None \<Rightarrow> (None, s)
              | Some item \<Rightarrow>
                  let static = is_static (item_pattern item);
                      s1 = (if cached = None \<and> static
                            then ud_url_target_cache_update (dict_set key target) s else s);
                      s2 = (if static then ud_url_path_cache_update (dict_set target item) s1 else s1)
                  in (Some item, s2)))"

end
