(* ===== verification/Http_Dispatch.thy ===== *)
theory Http_Dispatch
  imports Url_Auth Url_Channels
begin

text \<open>
  The life of an HTTP request (zato-server connection/http_soap/channel.py, with the audit log
  of url_data.py): matching, audit, security, the invocation of the service through the
  response cache, and the mapping of exceptions to HTTP statuses. Services, parsers,
  serialisers and hashes are parameters.
\<close>

section \<open>State and parameters\<close>

record response =
  rs_payload :: py_val
  rs_content_type :: py_val
  rs_headers :: bunch
  rs_status_code :: int

text \<open>
  \<open>ht_served\<close> lists the channel items whose service was invoked, the latest first;
  \<open>ht_audit\<close> is what the ODB was given for the audit log.
\<close>

record http_state =
  ht_auth :: auth_state
  ht_ud :: url_data
  ht_cache :: "(py_val \<times> py_val \<times> string, response) dict"
  ht_served :: "bunch list"
  ht_audit :: "bunch list"

record http_world =
  hw_auth :: auth_world
  hw_regex :: "string \<Rightarrow> string \<Rightarrow> bool"
  hw_rbac :: rbac
  hw_query :: "py_val \<Rightarrow> (string \<times> py_val list) list"
  hw_post :: "py_val \<Rightarrow> bunch"
  hw_parse_xml :: "py_val \<Rightarrow> exn + py_val"
  hw_is_active :: "py_val \<Rightarrow> exn + bool"
  hw_invoke :: "bunch \<Rightarrow> bunch option \<Rightarrow> py_val \<Rightarrow> bunch \<Rightarrow> exn + response"
  hw_request_hash :: "py_val \<Rightarrow> (py_val \<Rightarrow> bunch option \<Rightarrow> bunch \<Rightarrow> string) option"
  hw_sha256 :: "string \<Rightarrow> string"
  hw_repr :: "bunch \<Rightarrow> string"
  hw_loads :: "py_val \<Rightarrow> exn + py_val"
  hw_dumps :: "py_val \<Rightarrow> py_val"
  hw_store_set :: "bool \<Rightarrow> py_val \<Rightarrow> py_val \<Rightarrow> exn + py_val"
  hw_dump_environ :: "bunch \<Rightarrow> py_val"
  hw_status_text :: "int \<Rightarrow> string option"
  hw_error_wrapper :: "string \<Rightarrow> py_val \<Rightarrow> py_val"

definition with_auth :: "(auth_state, 'a) py \<Rightarrow> (http_state, 'a) py" where
  "with_auth m s = (case m (ht_auth s) of (r, a) \<Rightarrow> (r, s\<lparr>ht_auth := a\<rparr>))"

abbreviation env_of :: "http_state \<Rightarrow> bunch" where
  "env_of s \<equiv> au_env (ht_auth s)"

definition http_env_set :: "string \<Rightarrow> py_val \<Rightarrow> (http_state, unit) py" where
  "http_env_set k v = with_auth (env_set k v)"

section \<open>Parameters of the channel\<close>

definition URL_QS_OVER_PATH :: py_val where
  "URL_QS_OVER_PATH = VStr ''qs-over-path''"

definition one_or_many :: "(string \<times> py_val list) list \<Rightarrow> bunch" where
  "one_or_many items = map (\<lambda>(k, vs). (k, case vs of [v] \<Rightarrow> v | _ \<Rightarrow> VList vs)) items"

definition create_channel_params ::
  "http_world \<Rightarrow> bunch \<Rightarrow> bunch \<Rightarrow> py_val \<Rightarrow> bunch \<Rightarrow> (http_state, bunch) py" where
  "create_channel_params w path_params channel_item raw_request post_data =
     py_bind (py_get (\<lambda>s. bget ''QUERY_STRING'' (env_of s))) (\<lambda>query.
     let qs = (if truthy query then one_or_many (hw_query w query) else []) in
     py_bind (if post_data \<noteq> [] then py_ret post_data
              else py_bind (battr channel_item ''data_format'') (\<lambda>data_format.
                   py_ret (hw_post w (if data_format = VStr ''post'' then raw_request else VNone)))) (\<lambda>post.
     py_bind (battr channel_item ''url_params_pri'') (\<lambda>pri.
     let channel_params = (if pri = URL_QS_OVER_PATH then dict_update qs path_params
                           else dict_update path_params qs) in
     py_seq (http_env_set ''zato.http.GET'' (VDict qs)) (
     py_seq (http_env_set ''zato.http.POST'' (VDict post)) (py_ret channel_params)))))"

section \<open>The cache of responses\<close>

text \<open>\<open>findall('........?')\<close>: pieces of nine characters, the last of eight or nine.\<close>

function split_hash :: "string \<Rightarrow> string list" where
  "split_hash h =
     (if length h < 8 then []
      else if length h = 8 then [h]
      else take 9 h # split_hash (drop 9 h))"
  by pat_completeness auto
termination
  by (relation "measure length") auto

declare split_hash.simps [simp del]

definition join :: "string \<Rightarrow> string list \<Rightarrow> string" where
  "join sep parts = (case parts of [] \<Rightarrow> [] | p # ps \<Rightarrow> p @ concat (map (\<lambda>x. sep @ x) ps))"

definition default_hash :: "http_world \<Rightarrow> bunch \<Rightarrow> bunch \<Rightarrow> py_val \<Rightarrow> exn + string" where
  "default_hash w env channel_params raw_request =
     (case (map_of env ''REQUEST_METHOD'', map_of env ''PATH_INFO'') of
        (Some m, Some p) \<Rightarrow> Inr (join ''-'' (split_hash (hw_sha256 w
          (format_text m @ format_text p @ hw_repr w (sort_key fst channel_params) @ format_text raw_request))))
      | _ \<Rightarrow> Inl KeyError)"

text \<open>The key of a request; without merged parameters the default hash fails on \<open>None\<close>.\<close>

definition request_cache_key ::
  "http_world \<Rightarrow> bunch \<Rightarrow> bunch \<Rightarrow> bunch option \<Rightarrow> py_val \<Rightarrow> exn + string" where
  "request_cache_key w channel_item env channel_params raw_request =
     (case (case hw_request_hash w (bget ''service_impl_name'' channel_item) of
              Some f \<Rightarrow> Inr (f raw_request channel_params env)
            | None \<Rightarrow> (case channel_params of
                None \<Rightarrow> Inl AttributeError
              | Some ps \<Rightarrow> default_hash w env ps raw_request)) of
        Inl e \<Rightarrow> Inl e
      | Inr h \<Rightarrow> Inr (''http-channel-'' @ format_text (bget ''id'' channel_item) @ ''-'' @ h))"

definition cache_place :: "bunch \<Rightarrow> string \<Rightarrow> py_val \<times> py_val \<times> string" where
  "cache_place channel_item key = (bget ''cache_type'' channel_item, bget ''cache_name'' channel_item, key)"

definition get_response_from_cache ::
  "http_world \<Rightarrow> bunch \<Rightarrow> bunch option \<Rightarrow> py_val \<Rightarrow> (http_state, string \<times> response option) py" where
  "get_response_from_cache w channel_item channel_params raw_request =
     py_bind (\<lambda>s. (request_cache_key w channel_item (env_of s) channel_params raw_request, s)) (\<lambda>key.
     py_bind (py_get (\<lambda>s. map_of (ht_cache s) (cache_place channel_item key))) (\<lambda>r. py_ret (key, r)))"

definition set_response_in_cache :: "bunch \<Rightarrow> string \<Rightarrow> response \<Rightarrow> (http_state, unit) py" where
  "set_response_in_cache channel_item key response =
     item_set ht_cache_update (cache_place channel_item key) response"

section \<open>Invoking the service\<close>

definition invoke_service ::
  "http_world \<Rightarrow> bunch \<Rightarrow> bunch option \<Rightarrow> py_val \<Rightarrow> (http_state, response) py" where
  "invoke_service w channel_item channel_params raw_request s =
     (hw_invoke w channel_item channel_params raw_request (env_of s), s\<lparr>ht_served := channel_item # ht_served s\<rparr>)"

definition request_handler_handle ::
  "http_world \<Rightarrow> bunch \<Rightarrow> bunch \<Rightarrow> py_val \<Rightarrow> bunch \<Rightarrow> (http_state, response) py" where
  "request_handler_handle w url_match channel_item raw_request post_data =
     py_bind (battr channel_item ''service_impl_name'') (\<lambda>impl_name.
     py_bind (py_result (hw_is_active w impl_name)) (\<lambda>is_active.
     if \<not> is_active then py_raise NotFound
     else
       py_bind (battr channel_item ''merge_url_params_req'') (\<lambda>merge.
       py_bind (if truthy merge
                then py_bind (create_channel_params w url_match channel_item raw_request post_data)
                       (\<lambda>ps. py_ret (Some ps))
                else py_ret None) (\<lambda>channel_params.
       if truthy (bget ''cache_type'' channel_item)
       then
         py_bind (get_response_from_cache w channel_item channel_params raw_request) (\<lambda>(cache_key, cached).
         case cached of
           Some r \<Rightarrow> py_ret r
         | None \<Rightarrow>
             py_bind (invoke_service w channel_item channel_params raw_request) (\<lambda>r.
             py_seq (set_response_in_cache channel_item cache_key r) (py_ret r)))
       else invoke_service w channel_item channel_params raw_request))))"

section \<open>The audit log\<close>

text \<open>\<open>payload[:n]\<close>.\<close>

definition slice_to :: "int \<Rightarrow> string \<Rightarrow> string" where
  "slice_to n cs = (if n < 0 then take (nat (int (length cs) + n)) cs else take (nat n) cs)"

primrec replace_payloads :: "http_world \<Rightarrow> bool \<Rightarrow> py_val list \<Rightarrow> py_val \<Rightarrow> exn + py_val" where
  "replace_payloads w json [] payload = Inr payload"
| "replace_payloads w json (name # names) payload =
     (case hw_store_set w json name payload of
        Inl e \<Rightarrow> Inl e
      | Inr p \<Rightarrow> replace_payloads w json names p)"

definition pattern_list :: "string \<Rightarrow> bunch \<Rightarrow> exn + py_val list" where
  "pattern_list k item =
     (case map_of item k of Some (VList ps) \<Rightarrow> Inr ps | Some _ \<Rightarrow> Inl TypeError | None \<Rightarrow> Inl KeyError)"

definition audited_payload :: "http_world \<Rightarrow> bunch \<Rightarrow> py_val \<Rightarrow> exn + py_val" where
  "audited_payload w item payload =
     (let json = (bget ''audit_repl_patt_type'' item = json_pointer_type) in
      case (if json then (if truthy payload then hw_loads w payload else Inr (VStr [])) else Inr payload) of
        Inl e \<Rightarrow> Inl e
      | Inr p \<Rightarrow>
          (case pattern_list (if json then ''replace_patterns_json_pointer'' else ''replace_patterns_xpath'') item of
             Inl e \<Rightarrow> Inl e
           | Inr names \<Rightarrow>
               (case (if truthy p then replace_payloads w json names p else Inr p) of
                  Inl e \<Rightarrow> Inl e
                | Inr q \<Rightarrow>
                    let r = (if json then hw_dumps w q else q) in
                    (case bget ''audit_max_payload'' item of
                       VInt n \<Rightarrow> if n \<noteq> 0 then Inr (VStr (slice_to n (format_text r))) else Inr r
                     | _ \<Rightarrow> Inr r))))"

definition remote_address :: "bunch \<Rightarrow> py_val" where
  "remote_address env =
     (if truthy (bget ''HTTP_X_FORWARDED_FOR'' env) then bget ''HTTP_X_FORWARDED_FOR'' env
      else dict_get ''REMOTE_ADDR'' (VStr ''(None)'') env)"

definition audit_set_request :: "http_world \<Rightarrow> bunch \<Rightarrow> py_val \<Rightarrow> (http_state, unit) py" where
  "audit_set_request w item payload =
     py_bind (py_result (audited_payload w item payload)) (\<lambda>audited.
     py_bind (py_get env_of) (\<lambda>env.
     py_modify (ht_audit_update (\<lambda>log.
       [(''id'', bget ''id'' item), (''name'', bget ''name'' item), (''transport'', bget ''transport'' item),
        (''connection'', bget ''connection'' item), (''username'', bget ''username'' item),
        (''remote_addr'', remote_address env), (''environ'', hw_dump_environ w env),
        (''payload'', audited)] # log))))"

text \<open>The flags the response is stored with in the audit log, from its status line.\<close>

definition audit_flags :: "string \<Rightarrow> exn + bool \<times> bool" where
  "audit_flags status =
     (case status of
        [] \<Rightarrow> Inl IndexError
      | c # _ \<Rightarrow> Inr (c \<noteq> CHR ''4'' \<and> c \<noteq> CHR ''5'', c \<noteq> CHR ''4''))"

section \<open>Dispatching\<close>

text \<open>Quotes around a SOAP action; an empty header has no first character.\<close>

definition handle_quotes_soap_action :: "string \<Rightarrow> exn + string" where
  "handle_quotes_soap_action soap_action =
     (if soap_action = [] then Inl IndexError
      else if hd soap_action = CHR 0x22 \<and> last soap_action = CHR 0x22
      then Inr (butlast (tl soap_action)) else Inr soap_action)"

definition request_soap_action :: "bunch \<Rightarrow> exn + string" where
  "request_soap_action env =
     (case map_of env ''HTTP_SOAPACTION'' of
        None \<Rightarrow> Inr [] | Some v \<Rightarrow> handle_quotes_soap_action (format_text v))"

definition match_channel :: "http_world \<Rightarrow> string \<Rightarrow> string \<Rightarrow> (http_state, bunch option) py" where
  "match_channel w path_info soap_action s =
     (case match_request (hw_regex w) path_info soap_action (soap_action \<noteq> []) (ht_ud s) of
        (item, ud) \<Rightarrow> (Inr item, s\<lparr>ht_ud := ud\<rparr>))"

text \<open>
  Reading what a check needs from the request: the form of an OAuth request, and the parsed
  request for XPath.
\<close>

definition prepare_security :: "http_world \<Rightarrow> bunch \<Rightarrow> py_val \<Rightarrow> (http_state, bunch) py" where
  "prepare_security w sec_def payload =
     py_bind (battr sec_def ''sec_type'') (\<lambda>sec_type.
     if sec_type = VStr ''oauth'' then py_ret (hw_post w payload)
     else if sec_type = VStr ''xpath_sec''
     then py_bind (py_result (hw_parse_xml w payload)) (\<lambda>parsed.
          py_seq (http_env_set ''zato.request.payload'' parsed) (py_ret []))
     else py_ret [])"

definition needs_check :: "sec_info \<Rightarrow> bool" where
  "needs_check sec \<longleftrightarrow> si_sec_def sec \<noteq> None \<or> si_sec_use_rbac sec = VBool True"

definition check_request :: "http_world \<Rightarrow> sec_info \<Rightarrow> bunch \<Rightarrow> py_val \<Rightarrow> (http_state, bunch) py" where
  "check_request w sec channel_item payload =
     (if needs_check sec
      then
        py_bind (case si_sec_def sec of
                   Some sec_def \<Rightarrow> prepare_security w sec_def payload
                 | None \<Rightarrow> py_ret []) (\<lambda>post_data.
        py_bind (py_get ht_ud) (\<lambda>ud.
        py_seq (with_auth (check_security (hw_auth w) ud (hw_rbac w) sec channel_item payload post_data True))
               (py_ret post_data)))
      else py_ret [])"

definition check_method :: "bunch \<Rightarrow> (http_state, unit) py" where
  "check_method channel_item =
     py_bind (bitem channel_item ''method'') (\<lambda>expected_method.
     py_when (truthy expected_method) (
       py_bind (with_auth (env_item ''REQUEST_METHOD'')) (\<lambda>actual_method.
       py_when (expected_method \<noteq> actual_method) (py_raise MethodNotAllowed))))"

definition send_response :: "http_world \<Rightarrow> response \<Rightarrow> (http_state, py_val) py" where
  "send_response w response =
     py_seq (with_auth (set_response_header ''Content-Type'' (rs_content_type response))) (
     py_seq (py_for (rs_headers response) (\<lambda>(k, v). with_auth (set_response_header k v))) (
     py_bind (py_value KeyError (hw_status_text w (rs_status_code response))) (\<lambda>status.
     py_seq (http_env_set ''zato.http.response.status'' (VStr status))
            (py_ret (rs_payload response)))))"

definition serve_request :: "http_world \<Rightarrow> bunch \<Rightarrow> py_val \<Rightarrow> (http_state, py_val) py" where
  "serve_request w channel_item payload =
     py_bind (bitem channel_item ''is_active'') (\<lambda>is_active.
     if \<not> truthy is_active then py_raise NotFound
     else
       py_seq (check_method channel_item) (
       py_bind (bitem channel_item ''match_target'') (\<lambda>target.
       py_bind (item_get (\<lambda>s. ud_url_sec (ht_ud s)) (format_text target)) (\<lambda>sec.
       py_bind (check_request w sec channel_item payload) (\<lambda>post_data.
       py_seq (http_env_set ''zato.oauth.post_data'' (VDict post_data)) (
       py_bind (request_handler_handle w [] channel_item payload post_data) (send_response w)))))))"

text \<open>The status of a request that ended in an exception.\<close>

fun status_of_exn :: "exn \<Rightarrow> string" where
  "status_of_exn (Unauthorized _) = ''401 Unauthorized''"
| "status_of_exn BadRequest = ''400 Bad Request''"
| "status_of_exn NotFound = ''404 Not Found''"
| "status_of_exn MethodNotAllowed = ''405 Method Not Allowed''"
| "status_of_exn Forbidden = ''403 Forbidden''"
| "status_of_exn TooManyRequests = ''429 Too Many Requests''"
| "status_of_exn e = ''500 Internal Server Error''"

definition get_client_error_wrapper :: "py_val \<Rightarrow> py_val \<Rightarrow> string option" where
  "get_client_error_wrapper transport data_format =
     (if transport \<in> {VStr ''json'', VStr ''soap''} then Some (format_text transport)
      else if data_format \<in> {VStr ''json'', VStr ''soap''} then Some (format_text data_format)
      else None)"

text \<open>\<open>error_text\<close> stands for the message of the exception.\<close>

definition handle_exception ::
  "http_world \<Rightarrow> (exn \<Rightarrow> py_val) \<Rightarrow> bunch \<Rightarrow> exn \<Rightarrow> (http_state, py_val) py" where
  "handle_exception w error_text channel_item e =
     py_seq (case e of
               Unauthorized challenge \<Rightarrow>
                 with_auth (set_response_header ''WWW-Authenticate'' (VStr challenge))
             | _ \<Rightarrow> py_ret ()) (
     let response =
       (case (if dict_has ''transport'' channel_item \<and> dict_has ''data_format'' channel_item
              then get_client_error_wrapper (bget ''transport'' channel_item) (bget ''data_format'' channel_item)
              else None) of
          None \<Rightarrow> error_text e
        | Some wrapper \<Rightarrow> hw_error_wrapper w wrapper (error_text e))
     in py_seq (http_env_set ''zato.http.response.status'' (VStr (status_of_exn e))) (py_ret response))"

definition dispatch ::
  "http_world \<Rightarrow> (exn \<Rightarrow> py_val) \<Rightarrow> (string \<Rightarrow> string \<Rightarrow> py_val) \<Rightarrow> py_val \<Rightarrow> (http_state, py_val) py" where
  "dispatch w error_text response_404 payload =
     py_bind (with_auth (env_item ''PATH_INFO'')) (\<lambda>path.
     let path_info = format_text path in
     py_bind (\<lambda>s. (request_soap_action (env_of s), s)) (\<lambda>soap_action.
     py_bind (match_channel w path_info soap_action) (\<lambda>found.
     case found of
       None \<Rightarrow>
         py_seq (http_env_set ''zato.channel_item'' VNone) (
         py_seq (http_env_set ''zato.http.response.status'' (VStr ''404 Not Found''))
                (py_ret (response_404 path_info soap_action)))
     | Some channel_item \<Rightarrow>
         py_seq (http_env_set ''zato.channel_item'' (VDict channel_item)) (
         py_bind (bitem channel_item ''audit_enabled'') (\<lambda>audit_enabled.
         py_seq (py_when (truthy audit_enabled) (audit_set_request w channel_item payload)) (
         py_try (serve_request w channel_item payload)
           (handle_exception w error_text channel_item)))))))"

end
