(* ===== verification/Url_Auth_Facts.thy ===== *)
theory Url_Auth_Facts
  imports Url_Auth
begin

text \<open>
  What a successful security check guarantees: the credentials of the request satisfy the
  definition of the channel, or of a client that RBAC allows, and RBAC allows the call.
\<close>

section \<open>Valid credentials\<close>

text \<open>What each kind of definition demands of a request, independently of the handlers.\<close>

fun credentials_ok ::
  "auth_world \<Rightarrow> url_data \<Rightarrow> sec_store \<Rightarrow> bunch \<Rightarrow> py_val \<Rightarrow> bunch \<Rightarrow> auth_state \<Rightarrow> bool" where
  "credentials_ok w ud Apikey d body post s \<longleftrightarrow>
     (\<exists>u k. map_of d ''username'' = Some u \<and> map_of (au_env s) (format_text u) = Some k \<and>
        (truthy (dict_get ''password'' (VStr []) d) \<longrightarrow> k = dict_get ''password'' (VStr []) d))"
| "credentials_ok w ud BasicAuth d body post s \<longleftrightarrow>
     aw_basic_auth w (bget ''HTTP_AUTHORIZATION'' (au_env s)) (bget ''username'' d) (bget ''password'' d)
       = Inr True"
| "credentials_ok w ud Jwt d body post s \<longleftrightarrow>
     startswith ''Bearer '' (format_text (bget ''HTTP_AUTHORIZATION'' (au_env s))) \<and>
     fst (jwt_validate (aw_unseal w) (format_text (bget ''username'' d))
            (drop 7 (format_text (bget ''HTTP_AUTHORIZATION'' (au_env s)))) (au_jwt s)) = Inr True"
| "credentials_ok w ud Wss d body post s \<longleftrightarrow>
     truthy body \<and> (\<exists>cfg. wsse_config d = Inr cfg \<and> aw_wsse w cfg body = Inr True)"
| "credentials_ok w ud Oauth d body post s \<longleftrightarrow>
     truthy (bget ''HTTP_AUTHORIZATION'' (au_env s)) \<and>
     (\<exists>req. aw_oauth_request w (dict_set ''Authorization'' (bget ''HTTP_AUTHORIZATION'' (au_env s)) (au_env s))
          post = Some req \<and>
        fst (aw_oauth_verify w (lookup_consumer ud) (lookup_token ud) (lookup_nonce ud) req (au_nonces s)) = Inr ())"
| "credentials_ok w ud XpathSec d body post s \<longleftrightarrow>
     (\<exists>payload. map_of (au_env s) ''zato.request.payload'' = Some payload \<and>
        (\<exists>us. aw_xpath w payload (bget ''username_expr'' d) = bget ''username'' d # us) \<and>
        (truthy (bget ''password_expr'' d) \<longrightarrow>
          (\<exists>ps. aw_xpath w payload (bget ''password_expr'' d) = bget ''password'' d # ps)))"
| "credentials_ok w ud TlsChannelSec d body post s \<longleftrightarrow>
     (\<exists>items. map_of d ''value'' = Some (VDict items) \<and>
        (\<forall>(header, expected) \<in> set items. bget header (au_env s) = expected))"
| "credentials_ok w ud Vault d body post s \<longleftrightarrow>
     (\<exists>config client r. map_of (config_of Vault ud) (bget ''name'' d) = Some config \<and>
        aw_vault_client w (bget ''name'' d) = Inr client \<and>
        vault_response w config client d body (au_env s) = Inr (Some r))"
| "credentials_ok w ud st d body post s \<longleftrightarrow> False"

lemma refuse_cases:
  "refuse e c s = (Inr b, t) \<longleftrightarrow> \<not> e \<and> \<not> b \<and> t = s"
  by (auto simp: refuse_def py_run)

lemmas handlers =
  handle_security_apikey_def handle_security_basic_auth_def handle_security_jwt_def
  handle_security_wss_def handle_security_oauth_def handle_security_xpath_sec_def
  handle_security_tls_channel_sec_def handle_security_vault_conn_sec_def

lemma bget_Some: "map_of b k = Some v \<Longrightarrow> bget k b = v"
  by (simp add: bget_def dict_get_def)

lemma apikey_accepts:
  "handle_security_apikey d e s = (Inr b, t) \<Longrightarrow>
     (e \<longrightarrow> b) \<and> t = s \<and> (b \<longrightarrow> credentials_ok w ud Apikey d body post s)"
  by (auto simp: handle_security_apikey_def py_run refuse_cases Let_def split: option.splits if_splits)

lemma basic_auth_accepts:
  "handle_security_basic_auth w d e s = (Inr b, t) \<Longrightarrow>
     (e \<longrightarrow> b) \<and> t = s \<and> (b \<longrightarrow> credentials_ok w ud BasicAuth d body post s)"
  by (auto simp: handle_security_basic_auth_def py_run env_get_def py_result_def bget_Some
      split: option.splits if_splits sum.splits)

lemma jwt_accepts:
  "handle_security_jwt w d e s = (Inr b, t) \<Longrightarrow>
     (e \<longrightarrow> b) \<and> au_env t = au_env s \<and> (b \<longrightarrow> credentials_ok w ud Jwt d body post s)"
  by (auto simp: handle_security_jwt_def py_run env_get_def with_jwt_def refuse_cases bget_Some
      split: option.splits if_splits sum.splits prod.splits)

lemma wss_accepts:
  "handle_security_wss w d body e s = (Inr b, t) \<Longrightarrow>
     (e \<longrightarrow> b) \<and> t = s \<and> (b \<longrightarrow> credentials_ok w ud Wss d body post s)"
  by (auto simp: handle_security_wss_def py_run py_result_def refuse_cases
      split: option.splits if_splits sum.splits)

lemma tls_accepts:
  "handle_security_tls_channel_sec d e s = (Inr b, t) \<Longrightarrow>
     (e \<longrightarrow> b) \<and> t = s \<and> (b \<longrightarrow> credentials_ok w ud TlsChannelSec d body post s)"
  by (auto simp: handle_security_tls_channel_sec_def py_run refuse_cases
      split: option.splits if_splits py_val.splits)

lemma xpath_accepts:
  "handle_security_xpath_sec w d e s = (Inr b, t) \<Longrightarrow>
     (e \<longrightarrow> b) \<and> t = s \<and> (b \<longrightarrow> credentials_ok w ud XpathSec d body post s)"
  by (auto simp: handle_security_xpath_sec_def py_run env_item_def refuse_cases bget_Some
      split: option.splits if_splits list.splits)

lemma oauth_accepts:
  assumes "handle_security_oauth w ud post e s = (Inr b, t)"
  shows "(e \<longrightarrow> b) \<and> map_of (au_env t) ''REQUEST_METHOD'' = map_of (au_env s) ''REQUEST_METHOD'' \<and>
     (b \<longrightarrow> credentials_ok w ud Oauth d body post s)"
proof -
  define header where "header = bget ''HTTP_AUTHORIZATION'' (au_env s)"
  let ?s1 = "au_env_update (dict_set ''Authorization'' header) s"
  from assms have "\<not> truthy header \<and> refuse e ''OAuth'' s = (Inr b, t) \<or>
      truthy header \<and> (case aw_oauth_request w (au_env ?s1) post of
        None \<Rightarrow> refuse e ''OAuth'' ?s1 = (Inr b, t)
      | Some req \<Rightarrow> py_bind (oauth_verify w ud req) (\<lambda>verified.
           if verified then py_seq (env_set ''zato.oauth.request'' req) (py_ret True)
           else refuse e ''OAuth'') ?s1 = (Inr b, t))"
    unfolding handle_security_oauth_def
    by (elim py_seq_InrE py_bind_InrE)
       (auto simp: env_item_def env_get_def env_set_def py_get_def item_set_run header_def py_run
          elim!: item_get_InrE split: if_splits option.splits)
  then show ?thesis
    by (auto simp: refuse_cases header_def oauth_verify_def py_run env_set_def dict_simps
        split: option.splits prod.splits sum.splits if_splits)
qed

lemma vault_accepts:
  assumes "handle_security_vault_conn_sec w ud d body e s = (Inr b, t)"
  shows "(e \<longrightarrow> b) \<and> map_of (au_env t) ''REQUEST_METHOD'' = map_of (au_env s) ''REQUEST_METHOD'' \<and>
    (b \<longrightarrow> credentials_ok w ud Vault d body post s)"
proof -
  from assms obtain name config client where
    name: "map_of d ''name'' = Some name" and config: "map_of (config_of Vault ud) name = Some config"
    and client: "aw_vault_client w name = Inr client"
    and run: "(case vault_response w config client d body (au_env s) of
       Inl e' \<Rightarrow> if e then enforce_vault_sec else py_ret False
     | Inr None \<Rightarrow> enforce_vault_sec
     | Inr (Some r) \<Rightarrow>
         py_bind (battr r ''client_token'') (\<lambda>token.
         py_seq (set_response_header (fst (aw_vault_response_headers w)) token) (
         py_bind (battr r ''lease_duration'') (\<lambda>lease.
         py_seq (set_response_header (snd (aw_vault_response_headers w)) (VStr (format_text lease)))
                (py_ret True))))) s = (Inr b, t)"
    unfolding handle_security_vault_conn_sec_def
    by (auto elim!: py_bind_InrE battr_InrE py_value_InrE simp: py_result_def py_get_def)
  have keeps: "map_of (au_env v) ''REQUEST_METHOD'' = map_of (au_env u) ''REQUEST_METHOD''"
    if "set_response_header k x u = (Inr (), v)" for k x u v
    using that by (auto simp: set_response_header_def env_item_def env_set_def py_run dict_simps
        split: option.splits py_val.splits)
  show ?thesis
  proof (cases "vault_response w config client d body (au_env s)")
    case (Inl e')
    with run show ?thesis by (auto simp: enforce_vault_sec_def py_run split: if_splits)
  next
    case (Inr response)
    with run obtain r where r: "response = Some r" by (cases response) (auto simp: enforce_vault_sec_def py_run)
    with run Inr have "b" "map_of (au_env t) ''REQUEST_METHOD'' = map_of (au_env s) ''REQUEST_METHOD''"
      by (auto elim!: py_bind_InrE py_seq_InrE battr_InrE simp: py_ret_def dest!: keeps)
    with Inr r name config client show ?thesis by (auto simp: bget_Some)
  qed
qed

section \<open>One definition\<close>

definition underscored :: "string \<Rightarrow> string" where
  "underscored typ = map (\<lambda>c. if c = CHR ''-'' then CHR ''_'' else c) typ"

lemma handle_security_accepts:
  assumes "handle_security w ud typ d body post e s = (Inr b, t)"
  shows "(e \<longrightarrow> b) \<and> map_of (au_env t) ''REQUEST_METHOD'' = map_of (au_env s) ''REQUEST_METHOD'' \<and>
    (b \<longrightarrow> (\<exists>st. store_of_type (underscored typ) = Some st \<and> credentials_ok w ud st d body post s))"
proof (cases "store_of_type (underscored typ)")
  case None
  with assms show ?thesis by (simp add: handle_security_def underscored_def py_run)
next
  case (Some st)
  note run = assms [unfolded handle_security_def underscored_def [symmetric] Some option.case]
  have "(e \<longrightarrow> b) \<and> map_of (au_env t) ''REQUEST_METHOD'' = map_of (au_env s) ''REQUEST_METHOD'' \<and>
    (b \<longrightarrow> credentials_ok w ud st d body post s)"
  proof (cases st)
    case Apikey with run show ?thesis using apikey_accepts [of d e s b t w ud body post] by simp
  next
    case BasicAuth with run show ?thesis using basic_auth_accepts [of w d e s b t ud body post] by simp
  next
    case Jwt with run show ?thesis using jwt_accepts [of w d e s b t ud body post] by simp
  next
    case Wss with run show ?thesis using wss_accepts [of w d body e s b t ud post] by simp
  next
    case Oauth with run show ?thesis using oauth_accepts [of w ud post e s b t d body] by simp
  next
    case XpathSec with run show ?thesis using xpath_accepts [of w d e s b t ud body post] by simp
  next
    case TlsChannelSec with run show ?thesis using tls_accepts [of d e s b t w ud body post] by simp
  next
    case Vault with run show ?thesis using vault_accepts [of w ud d body e s b t post] by simp
  qed (use run in \<open>simp_all add: py_run\<close>)
  with Some show ?thesis by blast
qed

text \<open>Handlers that refuse leave the request as it was, for the kinds RBAC can delegate to.\<close>

lemma jwt_validate_refuses: "jwt_validate unseal u token j = (Inr False, j') \<Longrightarrow> j' = j"
  by (auto simp: jwt_validate_def cache_get_def kv_conn_get_def odb_get_def py_run cache_put_def
      split: option.splits if_splits sum.splits prod.splits)

lemma handle_security_refuses:
  assumes "store_of_type (underscored typ) \<in> {Some Apikey, Some BasicAuth, Some Jwt}"
    and "handle_security w ud typ d body post e s = (Inr False, t)"
  shows "t = s"
proof -
  have jwt: "t = s" if "handle_security_jwt w d e s = (Inr False, t)"
    using that jwt_validate_refuses
    by (auto simp: handle_security_jwt_def py_run env_get_def with_jwt_def refuse_cases
        split: option.splits if_splits sum.splits prod.splits)
  show ?thesis
    using assms jwt apikey_accepts basic_auth_accepts
    unfolding handle_security_def underscored_def [symmetric] by auto
qed

lemma enrich_frame:
  "enrich_with_sec_data d typ s = (r, t) \<Longrightarrow>
     map_of (au_env t) ''REQUEST_METHOD'' = map_of (au_env s) ''REQUEST_METHOD''"
  by (auto simp: enrich_with_sec_data_def env_set_def py_run dict_simps split: option.splits)

text \<open>RBAC lets the holder of the definition call the service of the channel.\<close>

definition rbac_allows :: "auth_world \<Rightarrow> rbac \<Rightarrow> bunch \<Rightarrow> bunch \<Rightarrow> auth_state \<Rightarrow> bool" where
  "rbac_allows w rb d item s \<longleftrightarrow>
     is_http_client_allowed (aw_acl w) rb
       (rbac_client_name (format_text (bget ''sec_type'' d)) (bget ''name'' d))
       (format_text (bget ''REQUEST_METHOD'' (au_env s))) (item_service_id item) = Inr True"

definition definition_satisfied ::
  "auth_world \<Rightarrow> url_data \<Rightarrow> rbac \<Rightarrow> bunch \<Rightarrow> bunch \<Rightarrow> py_val \<Rightarrow> bunch \<Rightarrow> auth_state \<Rightarrow> bool" where
  "definition_satisfied w ud rb d item body post s \<longleftrightarrow>
     (\<exists>st. store_of_type (underscored (format_text (bget ''sec_type'' d))) = Some st \<and>
        credentials_ok w ud st d body post s) \<and>
     (truthy (bget ''has_rbac'' item) \<longrightarrow> rbac_allows w rb d item s)"

lemma check_security_def_accepts:
  assumes "check_security_def w ud rb sec item body post e s = (Inr b, t)"
  shows "\<exists>d. sec = Some d \<and> (e \<longrightarrow> b) \<and> (b \<longrightarrow> definition_satisfied w ud rb d item body post s)"
proof -
  from assms obtain d where d: "sec = Some d" by (cases sec) (auto simp: check_security_def_def py_run)
  from assms obtain sec_type ok u where st: "map_of d ''sec_type'' = Some sec_type"
    and h: "handle_security w ud (format_text sec_type) d body post e s = (Inr ok, u)"
    and rest: "(if \<not> ok then py_ret False
      else py_seq (py_when (truthy (bget ''has_rbac'' item)) (
              py_bind (bitem d ''name'') (\<lambda>name.
              py_bind (env_item ''REQUEST_METHOD'') (\<lambda>http_verb.
              py_seq (battr item ''service_id'') (
              py_bind (py_result (is_http_client_allowed (aw_acl w) rb
                         (rbac_client_name (format_text sec_type) name)
                         (format_text http_verb) (item_service_id item))) (\<lambda>is_allowed.
              if is_allowed then py_ret () else py_raise Forbidden))))))
            (py_seq (enrich_with_sec_data d (format_text sec_type)) (py_ret True))) u = (Inr b, t)"
    unfolding d check_security_def_def Let_def
    by (auto elim!: py_bind_InrE py_value_InrE simp: bitem_def simp del: py_seq_def)
  note acc = handle_security_accepts [OF h]
  show ?thesis
  proof (cases ok)
    case False
    with rest acc d show ?thesis by (auto simp: py_ret_def)
  next
    case True
    with rest have b: "b" by (auto elim!: py_seq_InrE simp: py_ret_def)
    have "rbac_allows w rb d item s" if "truthy (bget ''has_rbac'' item)"
    proof -
      have method_same: "map_of (au_env u) ''REQUEST_METHOD'' = map_of (au_env s) ''REQUEST_METHOD''"
        using acc by blast
      from rest True that obtain name verb where
        n: "map_of d ''name'' = Some name" and v: "map_of (au_env u) ''REQUEST_METHOD'' = Some verb"
        and r: "is_http_client_allowed (aw_acl w) rb (rbac_client_name (format_text sec_type) name)
                         (format_text verb) (item_service_id item) = Inr True"
        by (auto elim!: py_seq_InrE py_bind_InrE py_value_InrE item_get_InrE
            simp: py_when_def bitem_def env_item_def py_result_def py_raise_def split: if_splits)
      from v have "bget ''REQUEST_METHOD'' (au_env s) = verb" by (simp add: bget_def dict_get_def method_same)
      with r st n show ?thesis by (simp add: rbac_allows_def bget_Some)
    qed
    with acc True st d b show ?thesis by (auto simp: definition_satisfied_def bget_Some)
  qed
qed

text \<open>A WebSocket login that succeeds has valid credentials for the definition it names.\<close>

lemma web_socket_login_accepts:
  assumes "authenticate_web_socket w hs ud typ auth sec_name environ headers s = (Inr True, t)"
  shows "\<exists>st d u. map_of (config_of st ud) sec_name = Some d \<and> credentials_ok w ud st d VNone [] u"
proof -
  from assms obtain st env d where d: "map_of (config_of st ud) sec_name = Some d"
    and h: "handle_security w ud (sec_def_type st) d VNone [] False (au_env_update (\<lambda>_. env) s) = (Inr True, t)"
    by (auto simp: authenticate_web_socket_def Let_def py_raise_def py_modify_def
        elim!: py_bind_InrE py_seq_InrE py_value_InrE split: sum.splits)
  have "store_of_type (underscored (sec_def_type st)) = Some st"
    by (cases st) (simp_all add: underscored_def store_of_type_def)
  with handle_security_accepts [OF h] d show ?thesis by auto
qed

section \<open>Delegation to RBAC\<close>

text \<open>Definitions carry the type of the store they are in.\<close>

definition stores_typed :: "url_data \<Rightarrow> bool" where
  "stores_typed ud \<longleftrightarrow> (\<forall>st n d. map_of (config_of st ud) n = Some d \<longrightarrow>
     map_of d ''sec_type'' = Some (VStr (sec_def_type st)))"

lemma client_sec_def_typed:
  assumes "stores_typed ud" "client_sec_def ud c = Inr (typ, d)"
  shows "map_of d ''sec_type'' = Some (VStr typ) \<and> store_of_type (underscored typ) \<in> {Some Apikey, Some BasicAuth, Some Jwt}"
proof -
  from assms(2) obtain st n where st: "sec_config_getter typ = Some st" "map_of (config_of st ud) n = Some d"
    by (auto simp: client_sec_def_def split: list.splits option.splits)
  then have "map_of d ''sec_type'' = Some (VStr (sec_def_type st))"
    using assms(1) unfolding stores_typed_def by blast
  with st(1) show ?thesis
    by (auto simp: sec_config_getter_def underscored_def store_of_type_def split: if_splits)
qed

lemma check_security_def_refuses:
  assumes "map_of d ''sec_type'' = Some (VStr typ)"
    "store_of_type (underscored typ) \<in> {Some Apikey, Some BasicAuth, Some Jwt}"
    and run: "check_security_def w ud rb (Some d) item body post e s = (Inr False, t)"
  shows "t = s"
proof -
  from run assms(1) obtain ok u where h: "handle_security w ud (format_text (VStr typ)) d body post e s = (Inr ok, u)"
    and rest: "(if \<not> ok then py_ret False
      else py_seq (py_when (truthy (bget ''has_rbac'' item)) (
              py_bind (bitem d ''name'') (\<lambda>name.
              py_bind (env_item ''REQUEST_METHOD'') (\<lambda>http_verb.
              py_seq (battr item ''service_id'') (
              py_bind (py_result (is_http_client_allowed (aw_acl w) rb (rbac_client_name (format_text (VStr typ)) name)
                         (format_text http_verb) (item_service_id item))) (\<lambda>is_allowed.
              if is_allowed then py_ret () else py_raise Forbidden))))))
            (py_seq (enrich_with_sec_data d (format_text (VStr typ))) (py_ret True))) u = (Inr False, t)"
    unfolding check_security_def_def Let_def
    by (auto elim!: py_bind_InrE py_value_InrE simp: bitem_def)
  from rest have "\<not> ok" by (auto elim!: py_seq_InrE simp: py_ret_def split: if_splits)
  moreover have "format_text (VStr typ) = typ" by (simp add: format_text_def)
  ultimately show ?thesis using h rest handle_security_refuses [OF assms(2)] by (auto simp: py_ret_def)
qed

text \<open>A client of a role whose credentials the request carries.\<close>

definition client_satisfied ::
  "auth_world \<Rightarrow> url_data \<Rightarrow> rbac \<Rightarrow> string \<Rightarrow> bunch \<Rightarrow> py_val \<Rightarrow> bunch \<Rightarrow> auth_state \<Rightarrow> bool" where
  "client_satisfied w ud rb c item body post s \<longleftrightarrow>
     (\<exists>typ d. client_sec_def ud c = Inr (typ, d) \<and> definition_satisfied w ud rb d item body post s)"

lemma try_clients_accepts:
  assumes "stores_typed ud" "try_clients w ud rb item body post cs s = (Inr b, t)"
  shows "if b then \<exists>c \<in> set cs. client_satisfied w ud rb c item body post s else t = s"
  using assms(2)
proof (induction cs arbitrary: t)
  case Nil
  then show ?case by (auto simp: py_ret_def)
next
  case (Cons c cs)
  from Cons.prems obtain ty d ok u where c: "client_sec_def ud c = Inr (ty, d)"
    and chk: "check_security_def w ud rb (Some d) item body post False s = (Inr ok, u)"
    and rest: "(if ok then py_seq (enrich_with_sec_data d ty) (py_ret True)
       else try_clients w ud rb item body post cs) u = (Inr b, t)"
    by (auto elim!: py_bind_InrE simp: py_result_def)
  show ?case
  proof (cases ok)
    case True
    with rest have "b" by (auto elim!: py_seq_InrE simp: py_ret_def)
    with True c check_security_def_accepts [OF chk] show ?thesis
      by (auto simp: client_satisfied_def)
  next
    case False
    with chk check_security_def_refuses client_sec_def_typed [OF assms(1) c] have "u = s" by metis
    with False rest Cons.IH [of t] show ?thesis by auto
  qed
qed

lemma try_rules_accepts:
  assumes "stores_typed ud" "try_rules w ud rb item body post perm rules s = (Inr True, t)"
  shows "\<exists>role res cs c. (role, perm, res) \<in> set rules \<and> bget ''service_id'' item = VInt res \<and>
    map_of (rb_role_id_to_client_def rb) role = Some cs \<and> c \<in> set cs \<and>
    client_satisfied w ud rb c item body post s"
  using assms(2)
proof (induction rules)
  case Nil
  then show ?case by (simp add: py_ret_def)
next
  case (Cons rule rules)
  obtain role p res where rule: "rule = (role, p, res)" by (cases rule)
  show ?case
  proof (cases "p = perm \<and> bget ''service_id'' item = VInt res")
    case False
    with Cons.prems have "try_rules w ud rb item body post perm rules s = (Inr True, t)"
      by (auto simp: rule)
    from Cons.IH [OF this] show ?thesis by auto
  next
    case True
    with Cons.prems obtain cs ok u where cs: "map_of (rb_role_id_to_client_def rb) role = Some cs"
      and run: "try_clients w ud rb item body post cs s = (Inr ok, u)"
      and rest: "(if ok then py_ret True else try_rules w ud rb item body post perm rules) u = (Inr True, t)"
      by (auto simp: rule elim!: py_bind_InrE py_value_InrE)
    note acc = try_clients_accepts [OF assms(1) run]
    show ?thesis
    proof (cases ok)
      case True': True
      with acc obtain c where "c \<in> set cs" "client_satisfied w ud rb c item body post s" by auto
      with cs True show ?thesis unfolding rule by (intro exI [of _ role] exI [of _ res]) auto
    next
      case False
      with acc rest have "try_rules w ud rb item body post perm rules s = (Inr True, t)" by auto
      from Cons.IH [OF this] show ?thesis by auto
    qed
  qed
qed

text \<open>
  A rule that allows the operation the method of the request stands for on the service of the
  channel, to a role with a client whose credentials the request carries.
\<close>

definition delegated_satisfied ::
  "auth_world \<Rightarrow> url_data \<Rightarrow> rbac \<Rightarrow> bunch \<Rightarrow> py_val \<Rightarrow> bunch \<Rightarrow> auth_state \<Rightarrow> bool" where
  "delegated_satisfied w ud rb item body post s \<longleftrightarrow>
     (\<exists>role perm res cs c. (role, perm, res) \<in> set (rg_allowed (rb_registry rb)) \<and>
        map_of (rb_http_permissions rb) (format_text (bget ''REQUEST_METHOD'' (au_env s))) = Some perm \<and>
        bget ''service_id'' item = VInt res \<and>
        map_of (rb_role_id_to_client_def rb) role = Some cs \<and> c \<in> set cs \<and>
        client_satisfied w ud rb c item body post s)"

lemma delegated_accepts:
  assumes "stores_typed ud" "check_rbac_delegated_security w ud rb item body post s = (Inr (), t)"
  shows "delegated_satisfied w ud rb item body post s"
proof -
  let ?verb = "format_text (bget ''REQUEST_METHOD'' (au_env s))"
  from assms(2) obtain perm where perm: "map_of (rb_http_permissions rb) ?verb = Some perm"
    by (cases "map_of (rb_http_permissions rb) ?verb")
       (auto simp: check_rbac_delegated_security_def py_run env_get_def)
  from assms(2) perm obtain ok u where
    rules: "try_rules w ud rb item body post perm (rg_allowed (rb_registry rb)) s = (Inr ok, u)"
    and rest: "(if ok then py_ret () else
             py_bind (bitem item ''url_path'') (\<lambda>url_path.
             case map_of (aw_auth_type_hooks w) (format_text url_path) of
               None \<Rightarrow> py_raise (Unauthorized ''zato'')
             | Some service \<Rightarrow>
                 py_bind (py_result (aw_auth_type_hook w service item)) (\<lambda>auth_type.
                 py_raise (Unauthorized auth_type)))) u = (Inr (), t)"
    by (auto simp: check_rbac_delegated_security_def env_get_def py_get_def py_raise_def
        elim!: py_bind_InrE split: if_splits)
  from rest have "ok"
    by (auto elim!: py_bind_InrE simp: py_raise_def split: if_splits option.splits)
  with rules have "try_rules w ud rb item body post perm (rg_allowed (rb_registry rb)) s = (Inr True, u)"
    by simp
  from try_rules_accepts [OF assms(1) this] perm show ?thesis
    unfolding delegated_satisfied_def by metis
qed

text \<open>
  Claim C10. An enforced security check that comes back at all has let the request in for a
  reason, and its callers may ignore what it returns: unless the channel delegates to RBAC it
  returns \<open>True\<close>, never \<open>False\<close>, and the request carries credentials that satisfy
  the definition of the channel (and RBAC allows the call if the channel asks for that); if
  it delegates, some rule allows the operation on the service to a role with a client whose
  credentials the request carries. Every other request ends in an exception.
\<close>

theorem security_check_lets_in_only_authorised:
  assumes typed: "stores_typed ud"
    and check: "check_security w ud rb sec item payload post_data True s = (Inr r, t)"
  shows "if truthy (si_sec_use_rbac sec)
    then r = None \<and> delegated_satisfied w ud rb item payload post_data s
    else r = Some True \<and> (\<exists>d. si_sec_def sec = Some d \<and>
           definition_satisfied w ud rb d item payload post_data s)"
proof (cases "truthy (si_sec_use_rbac sec)")
  case True
  with check have "r = None" "check_rbac_delegated_security w ud rb item payload post_data s = (Inr (), t)"
    by (auto simp: check_security_def py_ret_def elim!: py_seq_InrE)
  with True delegated_accepts [OF typed] show ?thesis by auto
next
  case False
  with check obtain b where "check_security_def w ud rb (si_sec_def sec) item payload post_data True s = (Inr b, t)"
    "r = Some b"
    by (auto simp: check_security_def py_ret_def elim!: py_bind_InrE)
  from check_security_def_accepts [OF this(1)] this(2) False show ?thesis by auto
qed

text \<open>A world whose libraries know nobody; one API key, whose holder RBAC allows to read.\<close>

definition demo_world :: auth_world where
  "demo_world = \<lparr>aw_basic_auth = (\<lambda>_ _ _. Inr False), aw_wsse = (\<lambda>_ _. Inr False),
     aw_oauth_request = (\<lambda>_ _. None), aw_oauth_verify = (\<lambda>_ _ _ _. py_raise ValueError),
     aw_xpath = (\<lambda>_ _. []), aw_unseal = (\<lambda>_. Inl ValueError), aw_vault_client = Inr,
     aw_vault_login = (\<lambda>_ _ _. Inr None), aw_vault_method_header = (\<lambda>_. Inl KeyError),
     aw_vault_token = (VStr ''token'', ''T''), aw_vault_user = (VStr ''user'', ''U'', ''P''),
     aw_vault_github = (VStr ''github'', ''G''), aw_vault_response_headers = (''R'', ''L''),
     aw_vault_service = (\<lambda>_ _ _ _. Inl KeyError),
     aw_acl = \<lparr>acl_add_role = (\<lambda>_ _ r. Inr r), acl_add_resource = (\<lambda>_ r. Inr r),
       acl_allow = (\<lambda>_ r. Inr r), acl_deny = (\<lambda>_ r. Inr r),
       acl_is_allowed = (\<lambda>r k. Inr (k \<in> set (rg_allowed r))),
       acl_is_any_allowed = (\<lambda>r ids p res. Inr (\<exists>i \<in> set ids. (i, p, res) \<in> set (rg_allowed r)))\<rparr>,
     aw_auth_type_hook = (\<lambda>_ _. Inr ''zato''), aw_auth_type_hooks = []\<rparr>"

definition demo_api_key :: bunch where
  "demo_api_key = [(''id'', VInt 1), (''name'', VStr ''k''), (''sec_type'', VStr ''apikey''),
     (''username'', VStr ''HTTP_KEY''), (''password'', VStr ''pw'')]"

definition demo_keys :: url_data where
  "demo_keys = \<lparr>ud_config = (\<lambda>st. if st = Apikey then [(VStr ''k'', demo_api_key)] else []),
     ud_url_sec = [], ud_channel_data = [], ud_url_path_cache = [], ud_url_target_cache = []\<rparr>"

definition demo_rules :: rbac where
  "demo_rules = \<lparr>rb_registry = \<lparr>rg_roles = [(3, [])], rg_resources = [7], rg_allowed = [(3, 1, 7)], rg_denied = []\<rparr>,
     rb_permissions = [(1, ''Read'')], rb_http_permissions = [(''GET'', 1)],
     rb_role_id_to_name = [(3, ''r'')], rb_role_name_to_id = [(''r'', 3)],
     rb_client_def_to_role_id = [(''sec_def:::apikey:::k'', [3])],
     rb_role_id_to_client_def = [(3, [''sec_def:::apikey:::k''])]\<rparr>"

definition demo_request :: auth_state where
  "demo_request = \<lparr>au_env = [(''REQUEST_METHOD'', VStr ''GET''), (''HTTP_KEY'', VStr ''pw'')],
     au_jwt = demo_jwt, au_nonces = []\<rparr>"

definition demo_delegating :: sec_info where
  "demo_delegating = \<lparr>si_id = VInt 1, si_is_active = VBool True, si_data_format = VNone,
     si_transport = VNone, si_sec_use_rbac = VBool True, si_sec_def = None\<rparr>"

definition demo_item :: bunch where
  "demo_item = [(''service_id'', VInt 7), (''has_rbac'', VBool True), (''url_path'', VStr ''/a'')]"

theorem security_check_lets_in_only_authorised_witness:
  "\<exists>t. check_security demo_world demo_keys demo_rules demo_delegating demo_item VNone [] True demo_request
       = (Inr None, t) \<and>
     delegated_satisfied demo_world demo_keys demo_rules demo_item VNone [] demo_request"
proof -
  have typed: "stores_typed demo_keys"
    by (simp add: stores_typed_def demo_keys_def demo_api_key_def)
  have "fst (check_security demo_world demo_keys demo_rules demo_delegating demo_item VNone [] True demo_request)
      = Inr None"
    by code_simp
  then obtain t where t: "check_security demo_world demo_keys demo_rules demo_delegating demo_item VNone [] True
      demo_request = (Inr None, t)"
    by (metis prod.collapse)
  from security_check_lets_in_only_authorised [OF typed t] t show ?thesis
    by (simp add: demo_delegating_def)
qed

text \<open>
  An allowed role without clients makes the delegated check raise \<open>KeyError\<close> before any
  other rule is looked at, so that nobody is let in.
\<close>

lemma role_without_clients_breaks_delegation:
  "fst (check_security demo_world demo_keys
     (demo_rules\<lparr>rb_registry := (rb_registry demo_rules)\<lparr>rg_allowed := [(4, 1, 7), (3, 1, 7)]\<rparr>\<rparr>)
     demo_delegating demo_item VNone [] True demo_request) = Inl KeyError"
  by code_simp

text \<open>An unenforced Vault login that fails raises all the same.\<close>

lemma vault_failure_raises_unenforced:
  assumes "map_of (config_of Vault ud) name = Some config" "map_of d ''name'' = Some name"
    "aw_vault_client w name = Inr client" "vault_response w config client d body (au_env s) = Inr None"
  shows "handle_security_vault_conn_sec w ud d body False s = (Inl (Unauthorized ''zato-vault''), s)"
  using assms by (simp add: handle_security_vault_conn_sec_def py_run py_result_def enforce_vault_sec_def)

end
