(* ===== verification/Url_Stores_Facts.thy ===== *)
theory Url_Stores_Facts
  imports Url_Stores
begin

text \<open>
  The stores of security definitions implement finite maps: every sequence of broker messages
  about definitions, exceptions included, has on each store the effect of the same sequence
  on a map from names to definitions. The laws of the interface \<open>py_refinement\<close> are
  discharged for the twelve groups of handlers together.
\<close>

section \<open>The abstract specification\<close>

type_synonym sec_maps = "sec_store \<Rightarrow> py_val \<rightharpoonup> bunch"

definition stored :: "url_data \<Rightarrow> sec_maps" where
  "stored s = (\<lambda>st. map_of (config_of st s))"

text \<open>What a store keeps for a message: API keys get the name of their variable, and TLS
  definitions their parsed conditions when these parse.\<close>

fun stored_form :: "sec_store \<Rightarrow> bunch \<Rightarrow> bunch option" where
  "stored_form Apikey msg =
     (case update_apikey_username msg of Inl _ \<Rightarrow> None | Inr d \<Rightarrow> Some d)"
| "stored_form TlsChannelSec msg =
     (case map_of msg ''value'' of
        None \<Rightarrow> Some msg
      | Some v \<Rightarrow> (case parse_tls_channel_security_definition v of
          Inl _ \<Rightarrow> Some msg
        | Inr d \<Rightarrow> Some (dict_set ''value'' (VDict d) msg)))"
| "stored_form st msg = Some msg"

definition spec_put :: "sec_store \<Rightarrow> bunch \<Rightarrow> (py_val \<rightharpoonup> bunch) \<Rightarrow> (py_val \<rightharpoonup> bunch)" where
  "spec_put st msg m =
     (case map_of msg ''name'' of
        None \<Rightarrow> m
      | Some n \<Rightarrow> (case stored_form st msg of None \<Rightarrow> m | Some d \<Rightarrow> m(n \<mapsto> d)))"

definition has_password_handler :: "sec_store \<Rightarrow> bool" where
  "has_password_handler st \<longleftrightarrow> st \<notin> {Vault, TlsChannelSec, TlsKeyCert}"

fun spec_store :: "sec_store \<Rightarrow> sec_event \<Rightarrow> (py_val \<rightharpoonup> bunch) \<Rightarrow> (py_val \<rightharpoonup> bunch)" where
  "spec_store st (OpCreate msg) m = spec_put st msg m"
| "spec_store st (OpEdit msg) m =
     (case map_of msg ''old_name'' of
        None \<Rightarrow> m
      | Some old \<Rightarrow> if m old = None then m else spec_put st msg (m(old := None)))"
| "spec_store st (OpDelete msg) m =
     (case map_of msg ''name'' of None \<Rightarrow> m | Some n \<Rightarrow> m(n := None))"
| "spec_store st (OpChangePassword msg) m =
     (case (map_of msg ''password'', map_of msg ''name'') of
        (Some p, Some n) \<Rightarrow>
          if has_password_handler st then m(n := map_option (dict_set ''password'' p) (m n)) else m
      | _ \<Rightarrow> m)"

definition spec_sec :: "sec_store \<times> sec_event \<Rightarrow> sec_maps \<Rightarrow> sec_maps" where
  "spec_sec = (\<lambda>(st, ev) M. M(st := spec_store st ev (M st)))"

section \<open>What the handlers leave alone\<close>

text \<open>Every channel with a security type names its definition.\<close>

definition channels_named :: "url_data \<Rightarrow> bool" where
  "channels_named s \<longleftrightarrow>
     (\<forall>item \<in> set (ud_channel_data s). dict_has ''sec_type'' item \<longrightarrow> dict_has ''security_name'' item)"

lemma keeps_update_url_sec:
  "keeps (\<lambda>s. ud_config s = c \<and> ud_channel_data s = d) (update_url_sec msg t b)"
  unfolding update_url_sec_def update_url_sec_item_def
  by (intro keeps_intros) (auto split: prod.split option.split intro!: keeps_intros)

lemma update_url_sec_frame [simp]:
  "ud_config (snd (update_url_sec msg t b s)) = ud_config s"
  "ud_channel_data (snd (update_url_sec msg t b s)) = ud_channel_data s"
  using keepsD [OF keeps_update_url_sec [of "ud_config s" "ud_channel_data s" msg t b], of s]
  by simp_all

definition drop_channel :: "string \<Rightarrow> py_val \<Rightarrow> url_data \<Rightarrow> url_data" where
  "drop_channel t n s = snd (delete_channel_data t n s)"

lemma set_pop_at: "set (pop_at i xs) \<subseteq> set xs"
  by (auto simp: pop_at_def dest: in_set_takeD in_set_dropD)

lemma drop_channel_sel [simp]:
  "ud_config (drop_channel t n s) = ud_config s"
  "ud_url_sec (drop_channel t n s) = ud_url_sec s"
  by (simp_all add: drop_channel_def delete_channel_data_def split: sum.split option.split)

lemma set_drop_channel: "set (ud_channel_data (drop_channel t n s)) \<subseteq> set (ud_channel_data s)"
  using set_pop_at [THEN subsetD]
  by (auto simp: drop_channel_def delete_channel_data_def split: sum.split option.split)

lemma match_index_total:
  "\<forall>x \<in> set xs. \<exists>b. p x = Inr b \<Longrightarrow> \<exists>r. match_index p i found xs = Inr r"
  by (induction xs arbitrary: i found) auto

lemma delete_channel_data_run:
  assumes "channels_named s"
  shows "delete_channel_data t n s = (Inr (), drop_channel t n s)"
proof -
  have "\<forall>x \<in> set (ud_channel_data s). \<exists>b. uses_sec_def t n x = Inr b"
    using assms
    by (auto simp: channels_named_def uses_sec_def_def bget_def dict_get_def split: option.split)
  from match_index_total [OF this, of 0 None] show ?thesis
    by (auto simp: drop_channel_def delete_channel_data_def split: option.split)
qed

lemma channels_named_drop: "channels_named s \<Longrightarrow> channels_named (drop_channel t n s)"
  unfolding channels_named_def using set_drop_channel by blast

lemma channels_named_cong:
  "ud_channel_data s = ud_channel_data t \<Longrightarrow> channels_named s = channels_named t"
  by (simp add: channels_named_def)

lemma channels_named_config [simp]: "channels_named (config_upd st f s) = channels_named s"
  by (rule channels_named_cong) simp

lemma channels_named_url_sec [simp]:
  "channels_named (snd (update_url_sec msg t b s)) = channels_named s"
  by (rule channels_named_cong) simp

section \<open>The simulation\<close>

lemmas sec_handlers =
  on_broker_msg_SECURITY_APIKEY_CREATE_def on_broker_msg_SECURITY_APIKEY_EDIT_def
  on_broker_msg_SECURITY_APIKEY_DELETE_def on_broker_msg_SECURITY_APIKEY_CHANGE_PASSWORD_def
  on_broker_msg_SECURITY_AWS_CREATE_def on_broker_msg_SECURITY_AWS_EDIT_def
  on_broker_msg_SECURITY_AWS_DELETE_def on_broker_msg_SECURITY_AWS_CHANGE_PASSWORD_def
  on_broker_msg_SECURITY_OPENSTACK_CREATE_def on_broker_msg_SECURITY_OPENSTACK_EDIT_def
  on_broker_msg_SECURITY_OPENSTACK_DELETE_def on_broker_msg_SECURITY_OPENSTACK_CHANGE_PASSWORD_def
  on_broker_msg_SECURITY_BASIC_AUTH_CREATE_def on_broker_msg_SECURITY_BASIC_AUTH_EDIT_def
  on_broker_msg_SECURITY_BASIC_AUTH_DELETE_def on_broker_msg_SECURITY_BASIC_AUTH_CHANGE_PASSWORD_def
  on_broker_msg_VAULT_CONNECTION_CREATE_def on_broker_msg_VAULT_CONNECTION_EDIT_def
  on_broker_msg_VAULT_CONNECTION_DELETE_def
  on_broker_msg_SECURITY_JWT_CREATE_def on_broker_msg_SECURITY_JWT_EDIT_def
  on_broker_msg_SECURITY_JWT_DELETE_def on_broker_msg_SECURITY_JWT_CHANGE_PASSWORD_def
  on_broker_msg_SECURITY_NTLM_CREATE_def on_broker_msg_SECURITY_NTLM_EDIT_def
  on_broker_msg_SECURITY_NTLM_DELETE_def on_broker_msg_SECURITY_NTLM_CHANGE_PASSWORD_def
  on_broker_msg_SECURITY_OAUTH_CREATE_def on_broker_msg_SECURITY_OAUTH_EDIT_def
  on_broker_msg_SECURITY_OAUTH_DELETE_def on_broker_msg_SECURITY_OAUTH_CHANGE_PASSWORD_def
  on_broker_msg_SECURITY_WSS_CREATE_def on_broker_msg_SECURITY_WSS_EDIT_def
  on_broker_msg_SECURITY_WSS_DELETE_def on_broker_msg_SECURITY_WSS_CHANGE_PASSWORD_def
  on_broker_msg_SECURITY_XPATH_SEC_CREATE_def on_broker_msg_SECURITY_XPATH_SEC_EDIT_def
  on_broker_msg_SECURITY_XPATH_SEC_DELETE_def on_broker_msg_SECURITY_XPATH_SEC_CHANGE_PASSWORD_def
  on_broker_msg_SECURITY_TLS_CHANNEL_SEC_CREATE_def on_broker_msg_SECURITY_TLS_CHANNEL_SEC_EDIT_def
  on_broker_msg_SECURITY_TLS_CHANNEL_SEC_DELETE_def
  on_broker_msg_SECURITY_TLS_KEY_CERT_CREATE_def on_broker_msg_SECURITY_TLS_KEY_CERT_EDIT_def
  on_broker_msg_SECURITY_TLS_KEY_CERT_DELETE_def

lemmas sec_updates =
  update_apikey_def update_aws_def update_openstack_def update_basic_auth_def
  update_vault_conn_sec_def update_jwt_def update_ntlm_def update_oauth_def update_wss_def
  update_xpath_sec_def update_tls_channel_sec_def update_tls_key_cert_def

text \<open>One step: what the stores hold and that the channels stay well formed.\<close>

definition simulates :: "url_data \<Rightarrow> sec_store \<times> sec_event \<Rightarrow> url_data \<Rightarrow> bool" where
  "simulates s e t \<longleftrightarrow> stored t = spec_sec e (stored s) \<and> channels_named t"

lemma stored_eqI:
  assumes "\<And>st' n. map_of (config_of st' t) n = M st' n"
  shows "stored t = M"
  using assms by (simp add: stored_def fun_eq_iff)

lemma simulates_create: "channels_named s \<Longrightarrow>
  simulates s (st, OpCreate msg) (snd (dispatcher_callback st (OpCreate msg) s))"
  unfolding simulates_def
  by (intro conjI stored_eqI; cases st)
     (simp_all add: spec_sec_def stored_def spec_put_def sec_handlers sec_updates
        config_put_def py_run dict_simps Let_def split: option.split sum.split)

lemma simulates_edit: "channels_named s \<Longrightarrow>
  simulates s (st, OpEdit msg) (snd (dispatcher_callback st (OpEdit msg) s))"
  unfolding simulates_def
  by (intro conjI stored_eqI; cases st)
     (simp_all add: spec_sec_def stored_def spec_put_def sec_handlers sec_updates
        config_put_def config_del_def py_run dict_simps Let_def split: option.split sum.split)

lemma simulates_delete: "channels_named s \<Longrightarrow>
  simulates s (st, OpDelete msg) (snd (dispatcher_callback st (OpDelete msg) s))"
  unfolding simulates_def
  by (intro conjI stored_eqI; cases st)
     (simp_all add: spec_sec_def stored_def sec_handlers delete_channel_data_run channels_named_drop
        config_del_def py_run dict_simps Let_def split: option.split sum.split)

lemma simulates_password: "channels_named s \<Longrightarrow>
  simulates s (st, OpChangePassword msg) (snd (dispatcher_callback st (OpChangePassword msg) s))"
  unfolding simulates_def
  by (intro conjI stored_eqI; cases st)
     (simp_all add: spec_sec_def stored_def sec_handlers has_password_handler_def
        config_password_def py_run dict_simps Let_def split: option.split sum.split)

lemma simulates_step: "channels_named s \<Longrightarrow>
  simulates s (st, ev) (snd (dispatcher_callback st ev s))"
  by (cases ev) (simp_all add: simulates_create simulates_edit simulates_delete simulates_password)

text \<open>An event and the store it is for.\<close>

definition sec_action :: "sec_store \<times> sec_event \<Rightarrow> (url_data, unit) py" where
  "sec_action = (\<lambda>(st, ev). dispatcher_callback st ev)"

interpretation sec_maps: py_refinement sec_action channels_named stored spec_sec
  using simulates_step by unfold_locales (auto simp: sec_action_def simulates_def split: prod.split)

text \<open>
  Claim C4. Twelve stores of security definitions behave as twelve finite maps: whatever
  messages that create, rename, delete or change the password of definitions arrive, in any
  order and for any stores, each store holds exactly what the same operations leave in a map,
  also when a handler raises: an edit of an unknown name changes nothing, an edit whose new
  form is rejected has lost the old definition, and no operation of one store touches another.
\<close>

theorem security_definitions_refine_maps:
  assumes "channels_named s"
  shows "stored (fold (\<lambda>e s. snd (sec_action e s)) events s) = fold spec_sec events (stored s)"
  using assms by (rule sec_maps.run_refines)

definition demo_url_data :: url_data where
  "demo_url_data = \<lparr>ud_config = (\<lambda>_. []), ud_url_sec = [], ud_channel_data = [],
     ud_url_path_cache = [], ud_url_target_cache = []\<rparr>"

theorem security_definitions_refine_maps_witness:
  "map_of (config_of Apikey (fold (\<lambda>e s. snd (sec_action e s))
      [(Apikey, OpCreate [(''name'', VStr ''k1''), (''username'', VStr ''x-key'')]),
       (Aws, OpCreate [(''name'', VStr ''k1'')]),
       (Apikey, OpEdit [(''old_name'', VStr ''k1''), (''name'', VStr ''k2''), (''username'', VNone)])]
      demo_url_data)) (VStr ''k1'') = None"
proof -
  have ok: "channels_named demo_url_data" by (simp add: demo_url_data_def channels_named_def)
  show ?thesis
    using fun_cong [OF fun_cong [OF security_definitions_refine_maps [OF ok, of
      "[(Apikey, OpCreate [(''name'', VStr ''k1''), (''username'', VStr ''x-key'')]),
        (Aws, OpCreate [(''name'', VStr ''k1'')]),
        (Apikey, OpEdit [(''old_name'', VStr ''k1''), (''name'', VStr ''k2''), (''username'', VNone)])]"],
      of Apikey], of "VStr ''k1''"]
    by (simp add: stored_def spec_sec_def spec_put_def demo_url_data_def update_apikey_username_def
        dict_get_def)
qed

section \<open>Channels follow their definitions\<close>

text \<open>Every definition in \<open>url_sec\<close> has a type and a name.\<close>

definition sec_defs_named :: "(string, sec_info) dict \<Rightarrow> bool" where
  "sec_defs_named us \<longleftrightarrow> (\<forall>(target, info) \<in> set us. \<forall>d. si_sec_def info = Some d \<longrightarrow>
     dict_has ''sec_type'' d \<and> dict_has ''name'' d)"

definition uses_def :: "string \<Rightarrow> py_val \<Rightarrow> sec_info \<Rightarrow> bool" where
  "uses_def t n info = (case si_sec_def info of
     None \<Rightarrow> False
   | Some d \<Rightarrow> map_of d ''sec_type'' = Some (VStr t) \<and> map_of d ''name'' = Some n)"

definition refreshed :: "bunch \<Rightarrow> sec_info \<Rightarrow> sec_info" where
  "refreshed msg i = i\<lparr>si_sec_def := map_option (copy_present msg) (si_sec_def i)\<rparr>"

lemma map_of_copy_present:
  "map_of (copy_present msg d) k =
     (case map_of d k of None \<Rightarrow> None | Some v \<Rightarrow> Some (case map_of msg k of None \<Rightarrow> v | Some w \<Rightarrow> w))"
proof (induction d)
  case (Cons x d)
  then show ?case by (cases x) (simp add: copy_present_def)
qed (simp add: copy_present_def)

lemma sec_defs_named_Cons:
  "sec_defs_named ((k, i) # us) \<longleftrightarrow> sec_defs_named us \<and>
     (\<forall>d. si_sec_def i = Some d \<longrightarrow> dict_has ''sec_type'' d \<and> dict_has ''name'' d)"
  by (auto simp: sec_defs_named_def)

lemma dict_mutate_middle:
  "k \<notin> fst ` set pre \<Longrightarrow> k \<notin> fst ` set post \<Longrightarrow>
     dict_mutate k f (pre @ (k, v) # post) = pre @ (k, f v) # post"
  using dict_mutate_id [of pre k f] dict_mutate_id [of post k f]
  by (simp add: dict_mutate_def map_of_None_iff)

lemma dict_del_middle:
  "k \<notin> fst ` set pre \<Longrightarrow> k \<notin> fst ` set post \<Longrightarrow> dict_del k (pre @ (k, v) # post) = pre @ post"
proof -
  assume "k \<notin> fst ` set pre" "k \<notin> fst ` set post"
  then have "filter (\<lambda>(k', _). k \<noteq> k') pre = pre" "filter (\<lambda>(k', _). k \<noteq> k') post = post"
    by (auto simp: filter_id_conv intro: rev_image_eqI)
  then show ?thesis by (simp add: AList.delete_eq)
qed

lemma update_url_sec_item_run:
  assumes named: "\<forall>d. si_sec_def i = Some d \<longrightarrow> dict_has ''sec_type'' d \<and> dict_has ''name'' d"
    and present: "map_of (ud_url_sec s) k = Some i"
  shows "update_url_sec_item msg t b (k, i) s =
    (Inr (), if uses_def t (msg_old_or_new_name msg) i
             then (if b then ud_url_sec_update (dict_del k) s
                   else ud_url_sec_update (dict_mutate k (refreshed msg)) s)
             else s)"
  using assms
  by (auto simp: update_url_sec_item_def uses_def_def refreshed_def [abs_def] py_run split: option.split)

definition url_sec_after :: "bunch \<Rightarrow> string \<Rightarrow> bool \<Rightarrow> (string, sec_info) dict \<Rightarrow> (string, sec_info) dict" where
  "url_sec_after msg t b us =
     (let hit = uses_def t (msg_old_or_new_name msg) in
      if b then filter (\<lambda>(k, i). \<not> hit i) us
      else map (\<lambda>(k, i). (k, if hit i then refreshed msg i else i)) us)"

lemma url_sec_after_Cons:
  "url_sec_after msg t b ((k, i) # us) =
     (if uses_def t (msg_old_or_new_name msg) i
      then (if b then [] else [(k, refreshed msg i)]) else [(k, i)]) @ url_sec_after msg t b us"
  by (simp add: url_sec_after_def Let_def)

lemma update_url_sec_loop:
  "ud_url_sec s = pre @ us \<Longrightarrow> dict_ok (pre @ us) \<Longrightarrow> sec_defs_named us \<Longrightarrow>
     py_for us (update_url_sec_item msg t b) s
       = (Inr (), s\<lparr>ud_url_sec := pre @ url_sec_after msg t b us\<rparr>)"
proof (induction us arbitrary: pre s)
  case Nil
  then show ?case by (auto simp: url_sec_after_def py_run Let_def)
next
  case (Cons x us)
  obtain k i where x: "x = (k, i)" by (cases x)
  have fresh: "k \<notin> fst ` set pre" "k \<notin> fst ` set us"
    using Cons.prems(2) by (auto simp: x)
  have named: "\<forall>d. si_sec_def i = Some d \<longrightarrow> dict_has ''sec_type'' d \<and> dict_has ''name'' d"
    and rest: "sec_defs_named us"
    using Cons.prems(3) by (auto simp: x sec_defs_named_Cons)
  have present: "map_of (ud_url_sec s) k = Some i"
    using fresh Cons.prems(1) map_of_None_iff [of pre k] by (simp add: x map_add_def)
  define mid where "mid = (if uses_def t (msg_old_or_new_name msg) i
      then (if b then [] else [(k, refreshed msg i)]) else [(k, i)])"
  have step: "update_url_sec_item msg t b (k, i) s = (Inr (), s\<lparr>ud_url_sec := (pre @ mid) @ us\<rparr>)"
    using update_url_sec_item_run [OF named present, of msg t b] Cons.prems(1) fresh
    by (simp add: mid_def x dict_mutate_middle dict_del_middle)
  have ok: "dict_ok ((pre @ mid) @ us)"
    using Cons.prems(2) by (simp add: mid_def x)
  have "py_for us (update_url_sec_item msg t b) (s\<lparr>ud_url_sec := (pre @ mid) @ us\<rparr>)
     = (Inr (), s\<lparr>ud_url_sec := (pre @ mid) @ url_sec_after msg t b us\<rparr>)"
    using Cons.IH [of "s\<lparr>ud_url_sec := (pre @ mid) @ us\<rparr>" "pre @ mid"] ok rest by simp
  then show ?case
    by (simp add: py_seq_def x step url_sec_after_Cons mid_def)
qed

lemma update_url_sec_run:
  "dict_ok (ud_url_sec s) \<Longrightarrow> sec_defs_named (ud_url_sec s) \<Longrightarrow>
     update_url_sec msg t b s = (Inr (), s\<lparr>ud_url_sec := url_sec_after msg t b (ud_url_sec s)\<rparr>)"
  using update_url_sec_loop [of s "[]" "ud_url_sec s" msg t b]
  by (simp add: update_url_sec_def py_run)

lemma map_of_url_sec_after:
  "dict_ok us \<Longrightarrow> map_of (url_sec_after msg t b us) k =
     (case map_of us k of
        None \<Rightarrow> None
      | Some i \<Rightarrow>
          if uses_def t (msg_old_or_new_name msg) i
          then (if b then None else Some (refreshed msg i)) else Some i)"
proof (induction us)
  case (Cons x us)
  obtain k' i where x: "x = (k', i)" by (cases x)
  have none: "map_of us k' = None"
    using Cons.prems by (simp add: x map_of_None_iff)
  from Cons.prems have "dict_ok us" by simp
  from Cons.IH [OF this] none show ?case
    by (cases b; cases "k = k'") (simp_all add: x url_sec_after_Cons)
qed (simp add: url_sec_after_def Let_def)

text \<open>The stores whose definitions secure channels and have passwords.\<close>

definition secures_channels :: "sec_store \<Rightarrow> bool" where
  "secures_channels st \<longleftrightarrow> has_password_handler st \<and> st \<noteq> Aws \<and> st \<noteq> Openstack"

lemma change_password_run:
  assumes "secures_channels st"
  shows "dispatcher_callback st (OpChangePassword msg)
    = py_seq (config_password st msg) (update_url_sec msg (sec_def_type st) False)"
  using assms by (cases st) (simp_all add: secures_channels_def has_password_handler_def sec_handlers)

lemma config_password_run:
  assumes "map_of msg ''password'' = Some p" "map_of msg ''name'' = Some n"
    "map_of (config_of st s) n = Some d"
  shows "config_password st msg s
    = (Inr (), config_upd st (dict_mutate n (dict_set ''password'' p)) s)"
  using assms by (simp add: config_password_def py_run)

text \<open>
  A new password takes effect everywhere at once: when the message arrives for a
  known definition of a kind that secures channels, the handler returns, the store has the
  new password, and so has the copy every channel with that definition keeps in
  \<open>url_sec\<close>, while the security of all other channels is untouched.
\<close>

theorem password_change_reaches_every_channel:
  assumes store: "secures_channels st"
    and named: "dict_ok (ud_url_sec s)" "sec_defs_named (ud_url_sec s)"
    and msg: "map_of msg ''password'' = Some p" "map_of msg ''name'' = Some n"
      "map_of msg ''old_name'' = None"
    and known: "map_of (config_of st s) n = Some old"
    and run: "dispatcher_callback st (OpChangePassword msg) s = (r, t)"
  shows "r = Inr () \<and> map_of (config_of st t) n = Some (dict_set ''password'' p old) \<and>
    (\<forall>target info d. map_of (ud_url_sec s) target = Some info \<and> uses_def (sec_def_type st) n info \<and>
        si_sec_def info = Some d \<and> dict_has ''password'' d \<longrightarrow>
      (\<exists>info' d'. map_of (ud_url_sec t) target = Some info' \<and> si_sec_def info' = Some d' \<and>
        map_of d' ''password'' = Some p)) \<and>
    (\<forall>target info. map_of (ud_url_sec s) target = Some info \<and> \<not> uses_def (sec_def_type st) n info \<longrightarrow>
      map_of (ud_url_sec t) target = Some info)"
proof -
  let ?u = "config_upd st (dict_mutate n (dict_set ''password'' p)) s"
  have name: "msg_old_or_new_name msg = n"
    using msg by (simp add: msg_old_or_new_name_def bget_def dict_get_def)
  have "dispatcher_callback st (OpChangePassword msg) s
      = update_url_sec msg (sec_def_type st) False ?u"
    by (simp add: change_password_run [OF store] py_seq_def config_password_run [OF msg(1,2) known])
  also have "\<dots> = (Inr (), ?u\<lparr>ud_url_sec := url_sec_after msg (sec_def_type st) False (ud_url_sec s)\<rparr>)"
    using update_url_sec_run [of ?u msg "sec_def_type st" False] named by simp
  finally have r: "r = Inr ()" and
    t: "t = ?u\<lparr>ud_url_sec := url_sec_after msg (sec_def_type st) False (ud_url_sec s)\<rparr>"
    using run by simp_all
  have us: "map_of (ud_url_sec t) k = (case map_of (ud_url_sec s) k of None \<Rightarrow> None
      | Some i \<Rightarrow> if uses_def (sec_def_type st) n i then Some (refreshed msg i) else Some i)" for k
    by (simp add: t map_of_url_sec_after [OF named(1)] name split: option.split)
  show ?thesis
    using known msg(1) by (auto simp: r us refreshed_def map_of_copy_present) (simp add: t dict_simps)
qed

definition demo_channel_sec :: sec_info where
  "demo_channel_sec = \<lparr>si_id = VInt 1, si_is_active = VBool True, si_data_format = VNone,
     si_transport = VStr ''plain_http'', si_sec_use_rbac = VBool False,
     si_sec_def = Some [(''name'', VStr ''ba''), (''sec_type'', VStr ''basic_auth''),
       (''username'', VStr ''u''), (''password'', VStr ''old'')]\<rparr>"

definition demo_secured :: url_data where
  "demo_secured = demo_url_data\<lparr>
     ud_config := (\<lambda>st. if st = BasicAuth then [(VStr ''ba'', [(''name'', VStr ''ba''),
       (''sec_type'', VStr ''basic_auth''), (''username'', VStr ''u''), (''password'', VStr ''old'')])] else []),
     ud_url_sec := [(''soap:::/a'', demo_channel_sec)]\<rparr>"

theorem password_change_reaches_every_channel_witness:
  "\<exists>info' d'. map_of (ud_url_sec (snd (dispatcher_callback BasicAuth (OpChangePassword
      [(''name'', VStr ''ba''), (''password'', VStr ''new'')]) demo_secured))) ''soap:::/a'' = Some info' \<and>
    si_sec_def info' = Some d' \<and> map_of d' ''password'' = Some (VStr ''new'')"
proof -
  let ?msg = "[(''name'', VStr ''ba''), (''password'', VStr ''new'')]"
  have a: "secures_channels BasicAuth" by (simp add: secures_channels_def has_password_handler_def)
  have b: "dict_ok (ud_url_sec demo_secured)" "sec_defs_named (ud_url_sec demo_secured)"
    by (simp_all add: demo_secured_def demo_channel_sec_def sec_defs_named_def)
  have c: "map_of ?msg ''password'' = Some (VStr ''new'')" "map_of ?msg ''name'' = Some (VStr ''ba'')"
    "map_of ?msg ''old_name'' = None" by simp_all
  have d: "map_of (config_of BasicAuth demo_secured) (VStr ''ba'') = Some [(''name'', VStr ''ba''),
      (''sec_type'', VStr ''basic_auth''), (''username'', VStr ''u''), (''password'', VStr ''old'')]"
    by (simp add: demo_secured_def)
  have e: "map_of (ud_url_sec demo_secured) ''soap:::/a'' = Some demo_channel_sec \<and>
      uses_def (sec_def_type BasicAuth) (VStr ''ba'') demo_channel_sec \<and>
      si_sec_def demo_channel_sec = Some [(''name'', VStr ''ba''), (''sec_type'', VStr ''basic_auth''),
       (''username'', VStr ''u''), (''password'', VStr ''old'')] \<and>
      dict_has ''password'' [(''name'', VStr ''ba''), (''sec_type'', VStr ''basic_auth''),
       (''username'', VStr ''u''), (''password'', VStr ''old'')]"
    by (simp add: demo_secured_def demo_channel_sec_def uses_def_def)
  show ?thesis
    using password_change_reaches_every_channel [OF a b c d surjective_pairing] e by blast
qed

end
