(* ===== verification/Url_Channels_Facts.thy ===== *)
theory Url_Channels_Facts
  imports Url_Channels Url_Stores_Facts
begin

text \<open>
  The channels and their security stay consistent under creation, edit and deletion, the
  order of the channels is the documented one, and the two caches of request matching change
  no answer for requests without a SOAP action.
\<close>

section \<open>Order\<close>

definition user_first :: "bunch list \<Rightarrow> bool" where
  "user_first cs \<longleftrightarrow> (\<exists>user internal. cs = user @ internal \<and>
     (\<forall>i \<in> set user. \<not> is_internal_item i) \<and> (\<forall>i \<in> set internal. is_internal_item i) \<and>
     sorted (map item_name user) \<and> sorted (map item_name internal))"

lemma user_first_sorted_channels: "user_first (sorted_channels cs)"
  unfolding user_first_def sorted_channels_def by (intro exI conjI) auto

lemma mset_sorted_channels [simp]: "mset (sorted_channels cs) = mset cs"
  by (simp add: sorted_channels_def)

lemma set_sorted_channels [simp]: "set (sorted_channels cs) = set cs"
  using mset_sorted_channels by (rule mset_eq_setD)

lemma distinct_map_sorted_channels [simp]:
  "distinct (map f (sorted_channels cs)) = distinct (map f cs)"
  using mset_eq_imp_distinct_iff [of "map f (sorted_channels cs)" "map f cs"] by simp

section \<open>Consistency\<close>

definition item_target :: "bunch \<Rightarrow> py_val" where
  "item_target item = bget ''match_target'' item"

definition channels_ok :: "url_data \<Rightarrow> bool" where
  "channels_ok s \<longleftrightarrow>
     (\<forall>item \<in> set (ud_channel_data s).
        dict_has ''is_internal'' item \<and> dict_has ''name'' item \<and> dict_has ''match_target'' item) \<and>
     distinct (map item_target (ud_channel_data s)) \<and> dict_ok (ud_url_sec s) \<and>
     item_target ` set (ud_channel_data s) = VStr ` fst ` set (ud_url_sec s) \<and>
     user_first (ud_channel_data s)"

lemma sec_def_from_msg_pure:
  "sec_def_from_msg msg s = (r, t) \<Longrightarrow> t = s"
  by (auto simp: sec_def_from_msg_def py_run split: if_splits option.splits)

lemma sec_info_from_msg_cases:
  assumes "sec_info_from_msg msg s = (Inr info, t)"
  obtains "t = s" "sec_def_from_msg msg s = (Inr (si_sec_def info), s)"
    "map_of msg ''id'' = Some (si_id info)"
    "map_of msg ''sec_use_rbac'' = Some (si_sec_use_rbac info)"
  using assms sec_def_from_msg_pure
  by (auto simp: sec_info_from_msg_def py_run split: option.splits prod.splits sum.splits)

lemma sec_info_from_msg_pure: "snd (sec_info_from_msg msg s) = s"
  using sec_def_from_msg_pure
  by (auto simp: sec_info_from_msg_def py_run split: option.splits prod.splits sum.splits)

lemma sort_channel_data_cases:
  assumes "sort_channel_data s = (Inr x, t)"
  obtains "t = s\<lparr>ud_channel_data := sorted_channels (ud_channel_data s)\<rparr>"
    "\<forall>item \<in> set (ud_channel_data s). dict_has ''is_internal'' item \<and> dict_has ''name'' item"
  using assms by (auto simp: sort_channel_data_def split: if_splits)

lemma sec_def_from_msg_cong:
  "ud_config s = ud_config t \<Longrightarrow> fst (sec_def_from_msg msg s) = fst (sec_def_from_msg msg t)"
  by (simp add: sec_def_from_msg_def py_run split: option.split)

lemma create_channel_cases:
  assumes "create_channel msg old_data s = (Inr (), t)"
  obtains soap_action url_path item info where
    "map_of msg ''soap_action'' = Some soap_action" "map_of msg ''url_path'' = Some url_path"
    "channel_item_from_msg msg (match_target_of soap_action url_path) old_data = Inr item"
    "fst (sec_def_from_msg msg s) = Inr (si_sec_def info)"
    "map_of msg ''sec_use_rbac'' = Some (si_sec_use_rbac info)"
    "ud_config t = ud_config s"
    "ud_channel_data t = sorted_channels (ud_channel_data s @ [item])"
    "ud_url_sec t = dict_set (match_target_of soap_action url_path) info (ud_url_sec s)"
    "ud_url_path_cache t = dict_del (match_target_of soap_action url_path) (ud_url_path_cache s)"
    "\<forall>item \<in> set (ud_channel_data s @ [item]). dict_has ''is_internal'' item \<and> dict_has ''name'' item"
proof -
  from assms obtain sa up where sa: "map_of msg ''soap_action'' = Some sa"
    and up: "map_of msg ''url_path'' = Some up"
    and run: "(case channel_item_from_msg msg (match_target_of sa up) old_data of
       Inl e \<Rightarrow> py_raise e
     | Inr item \<Rightarrow>
         py_seq (py_modify (ud_channel_data_update (\<lambda>cs. cs @ [item]))) (
         py_bind (sec_info_from_msg msg) (\<lambda>sec_info.
         py_seq (item_set ud_url_sec_update (match_target_of sa up) sec_info) (
         py_seq (py_modify (ud_url_path_cache_update (dict_del (match_target_of sa up))))
                sort_channel_data)))) s = (Inr (), t)"
    unfolding create_channel_def by (auto simp: Let_def elim!: py_bind_InrE battr_InrE)
  from run obtain item where item: "channel_item_from_msg msg (match_target_of sa up) old_data = Inr item"
    by (auto simp: py_run split: sum.splits)
  let ?s1 = "ud_channel_data_update (\<lambda>cs. cs @ [item]) s"
  from run have "py_bind (sec_info_from_msg msg) (\<lambda>sec_info.
         py_seq (item_set ud_url_sec_update (match_target_of sa up) sec_info) (
         py_seq (py_modify (ud_url_path_cache_update (dict_del (match_target_of sa up))))
                sort_channel_data)) ?s1 = (Inr (), t)"
    by (simp add: item py_seq_def [of "py_modify _"] py_modify_def)
  then obtain info u where info: "sec_info_from_msg msg ?s1 = (Inr info, u)"
    and rest: "py_seq (item_set ud_url_sec_update (match_target_of sa up) info) (
         py_seq (py_modify (ud_url_path_cache_update (dict_del (match_target_of sa up))))
                sort_channel_data) u = (Inr (), t)"
    by (rule py_bind_InrE)
  from info have u: "u = ?s1" and sd: "sec_def_from_msg msg ?s1 = (Inr (si_sec_def info), ?s1)"
    and rbac: "map_of msg ''sec_use_rbac'' = Some (si_sec_use_rbac info)"
    by (auto elim: sec_info_from_msg_cases)
  have sd': "fst (sec_def_from_msg msg s) = Inr (si_sec_def info)"
    using sec_def_from_msg_cong [of s ?s1 msg] sd by simp
  from rest have sort: "sort_channel_data (ud_url_path_cache_update (dict_del (match_target_of sa up))
      (ud_url_sec_update (dict_set (match_target_of sa up) info) ?s1)) = (Inr (), t)"
    by (simp add: u py_seq_def py_modify_def item_set_run)
  show thesis
    by (rule sort_channel_data_cases [OF sort], rule that [OF sa up item sd' rbac]) simp_all
qed

text \<open>Everything but the order.\<close>

definition tables_ok :: "bunch list \<Rightarrow> (string, sec_info) dict \<Rightarrow> bool" where
  "tables_ok cs us \<longleftrightarrow>
     (\<forall>item \<in> set cs.
        dict_has ''is_internal'' item \<and> dict_has ''name'' item \<and> dict_has ''match_target'' item) \<and>
     distinct (map item_target cs) \<and> dict_ok us \<and>
     item_target ` set cs = VStr ` fst ` set us"

lemma channels_ok_iff:
  "channels_ok s \<longleftrightarrow> tables_ok (ud_channel_data s) (ud_url_sec s) \<and> user_first (ud_channel_data s)"
  by (auto simp: channels_ok_def tables_ok_def)

lemma tables_ok_sorted [simp]: "tables_ok (sorted_channels cs) us = tables_ok cs us"
  by (simp add: tables_ok_def)

lemma sort_channel_data_run:
  "tables_ok (ud_channel_data s) us \<Longrightarrow>
     sort_channel_data s = (Inr (), s\<lparr>ud_channel_data := sorted_channels (ud_channel_data s)\<rparr>)"
  by (simp add: sort_channel_data_def tables_ok_def)

lemma match_index_Some:
  "match_index p i found xs = Inr (Some j) \<Longrightarrow>
     found = Some j \<or> (\<exists>k < length xs. j = i + k \<and> p (xs ! k) = Inr True)"
proof (induction xs arbitrary: i found)
  case (Cons x xs)
  from Cons.prems obtain b where b: "p x = Inr b"
    "match_index p (Suc i) (if b then Some i else found) xs = Inr (Some j)"
    by (auto split: sum.splits)
  from Cons.IH [OF this(2)] b(1) show ?case
    by (cases b) (auto split: if_splits intro: exI [of _ 0] exI [of _ "Suc _"])
qed simp

lemma match_index_None:
  "match_index p i found xs = Inr None \<Longrightarrow> found = None \<and> (\<forall>x \<in> set xs. p x = Inr False)"
proof (induction xs arbitrary: i found)
  case (Cons x xs)
  from Cons.prems obtain b where b: "p x = Inr b"
    "match_index p (Suc i) (if b then Some i else found) xs = Inr None"
    by (auto split: sum.splits)
  from Cons.IH [OF this(2)] b(1) show ?case by (cases b) auto
qed simp

lemma pop_at_mset: "i < length xs \<Longrightarrow> mset xs = add_mset (xs ! i) (mset (pop_at i xs))"
  by (subst id_take_nth_drop [of i xs]) (simp_all add: pop_at_def)

lemma pop_at_distinct:
  assumes "i < length xs" "distinct (map f xs)"
  shows "distinct (map f (pop_at i xs))" "f ` set (pop_at i xs) = f ` set xs - {f (xs ! i)}"
proof -
  have m: "mset (map f xs) = mset (f (xs ! i) # map f (pop_at i xs))"
    using pop_at_mset [OF assms(1)] by simp
  have d: "distinct (f (xs ! i) # map f (pop_at i xs))"
    using mset_eq_imp_distinct_iff [OF m] assms(2) by blast
  then show "distinct (map f (pop_at i xs))" by simp
  have "set (map f xs) = set (f (xs ! i) # map f (pop_at i xs))"
    using m by (rule mset_eq_setD)
  with d show "f ` set (pop_at i xs) = f ` set xs - {f (xs ! i)}" by auto
qed

lemma has_target_iff:
  "has_target target item = Inr b \<longleftrightarrow>
     dict_has ''match_target'' item \<and> b = (item_target item = VStr target)"
  by (auto simp: has_target_def item_target_def bget_def dict_get_def split: option.split)

lemma pop_channel_known:
  assumes ok: "tables_ok (ud_channel_data s) us" and known: "target \<in> fst ` set us"
  obtains old cs where "pop_channel target s = (Inr old, s\<lparr>ud_channel_data := cs\<rparr>)"
    "set cs = {x \<in> set (ud_channel_data s). item_target x \<noteq> VStr target}" "tables_ok cs (dict_del target us)"
proof -
  let ?cs = "ud_channel_data s"
  have "\<forall>x \<in> set ?cs. \<exists>b. has_target target x = Inr b"
    using ok by (simp add: has_target_iff tables_ok_def)
  from match_index_total [OF this, of 0 None]
  obtain r where r: "match_index (has_target target) 0 None ?cs = Inr r" ..
  have in_cs: "VStr target \<in> item_target ` set ?cs"
    using ok known by (simp add: tables_ok_def)
  have "r \<noteq> None"
  proof
    assume "r = None"
    with r match_index_None [of "has_target target" 0 None ?cs]
    have "\<forall>x \<in> set ?cs. item_target x \<noteq> VStr target" by (simp add: has_target_iff)
    with in_cs show False by auto
  qed
  then obtain i where "r = Some i" by blast
  with r match_index_Some [of "has_target target" 0 None ?cs i]
  have i: "i < length ?cs" "item_target (?cs ! i) = VStr target"
    by (auto simp: has_target_iff)
  have d: "distinct (map item_target ?cs)" using ok by (simp add: tables_ok_def)
  have sub: "set (pop_at i ?cs) \<subseteq> set ?cs" by (rule set_pop_at)
  have "tables_ok (pop_at i ?cs) (dict_del target us)"
    using ok sub pop_at_distinct [OF i(1) d] by (auto simp: tables_ok_def i(2))
  moreover have "pop_channel target s = (Inr (?cs ! i), s\<lparr>ud_channel_data := pop_at i ?cs\<rparr>)"
    using r \<open>r = Some i\<close> by (simp add: pop_channel_def)
  moreover have "set (pop_at i ?cs) = {x \<in> set ?cs. item_target x \<noteq> VStr target}"
  proof
    have "item_target x \<noteq> VStr target" if "x \<in> set (pop_at i ?cs)" for x
      using imageI [OF that, of item_target] unfolding pop_at_distinct(2) [OF i(1) d] i(2) by simp
    then show "set (pop_at i ?cs) \<subseteq> {x \<in> set ?cs. item_target x \<noteq> VStr target}" using sub by auto
    have "set ?cs = insert (?cs ! i) (set (pop_at i ?cs))"
      using arg_cong [OF pop_at_mset [OF i(1)], of set_mset] by simp
    then show "{x \<in> set ?cs. item_target x \<noteq> VStr target} \<subseteq> set (pop_at i ?cs)" using i(2) by auto
  qed
  ultimately show thesis using that by blast
qed

lemma pop_channel_unknown:
  assumes ok: "tables_ok (ud_channel_data s) us" and unknown: "target \<notin> fst ` set us"
  shows "pop_channel target s = (Inr [], s)"
proof -
  let ?cs = "ud_channel_data s"
  have "\<forall>x \<in> set ?cs. \<exists>b. has_target target x = Inr b"
    using ok by (simp add: has_target_iff tables_ok_def)
  from match_index_total [OF this, of 0 None]
  obtain r where r: "match_index (has_target target) 0 None ?cs = Inr r" ..
  have "VStr target \<notin> item_target ` set ?cs"
    using ok unknown by (auto simp: tables_ok_def)
  then have none: "\<forall>i < length ?cs. item_target (?cs ! i) \<noteq> VStr target"
    by (metis imageI nth_mem)
  have "r = None"
  proof (cases r)
    case (Some j)
    from match_index_Some [OF r [unfolded Some]] none show ?thesis by (auto simp: has_target_iff)
  qed simp
  with r show ?thesis by (simp add: pop_channel_def)
qed

text \<open>The target a message about an existing channel refers to.\<close>

definition old_target :: "bunch \<Rightarrow> string" where
  "old_target msg = match_target_of (bget ''old_soap_action'' msg) (bget ''old_url_path'' msg)"

lemma delete_channel_known:
  assumes ok: "channels_ok s" and known: "old_target msg \<in> fst ` set (ud_url_sec s)"
  obtains old t where "delete_channel msg s = (Inr old, t)" "channels_ok t"
    "ud_url_sec t = dict_del (old_target msg) (ud_url_sec s)" "ud_config t = ud_config s"
    "ud_url_path_cache t = dict_del (old_target msg) (ud_url_path_cache s)"
    "set (ud_channel_data t) = {x \<in> set (ud_channel_data s). item_target x \<noteq> VStr (old_target msg)}"
proof -
  from ok have tables: "tables_ok (ud_channel_data s) (ud_url_sec s)" by (simp add: channels_ok_iff)
  obtain old cs where pop: "pop_channel (old_target msg) s = (Inr old, s\<lparr>ud_channel_data := cs\<rparr>)"
    and rest: "set cs = {x \<in> set (ud_channel_data s). item_target x \<noteq> VStr (old_target msg)}"
    and cs: "tables_ok cs (dict_del (old_target msg) (ud_url_sec s))"
    by (rule pop_channel_known [OF tables known])
  from known obtain info where info: "map_of (ud_url_sec s) (old_target msg) = Some info"
    by (metis map_of_None_iff not_None_eq)
  let ?u = "ud_url_path_cache_update (dict_del (old_target msg))
    (ud_url_sec_update (dict_del (old_target msg)) (s\<lparr>ud_channel_data := cs\<rparr>))"
  have sort: "sort_channel_data ?u = (Inr (), ?u\<lparr>ud_channel_data := sorted_channels cs\<rparr>)"
    using sort_channel_data_run [of ?u "dict_del (old_target msg) (ud_url_sec s)"] cs by simp
  have "delete_channel msg s = (Inr old, ?u\<lparr>ud_channel_data := sorted_channels cs\<rparr>)"
    using sort pop info
    unfolding delete_channel_def Let_def old_target_def [symmetric]
    by (simp add: py_bind_def py_seq_def item_del_run py_modify_def py_ret_def)
  moreover have "channels_ok (?u\<lparr>ud_channel_data := sorted_channels cs\<rparr>)"
    using cs by (simp add: channels_ok_iff user_first_sorted_channels)
  ultimately show thesis by (rule that) (simp_all add: rest)
qed

lemma delete_channel_unknown:
  assumes "channels_ok s" "old_target msg \<notin> fst ` set (ud_url_sec s)"
  shows "delete_channel msg s = (Inl KeyError, s)"
proof -
  have "map_of (ud_url_sec s) (old_target msg) = None" using assms(2) by (simp add: map_of_None_iff)
  moreover have "pop_channel (old_target msg) s = (Inr [], s)"
    using assms pop_channel_unknown by (auto simp: channels_ok_iff)
  ultimately show ?thesis
    by (simp add: delete_channel_def Let_def old_target_def py_bind_def py_seq_def item_del_run)
qed

section \<open>Creation and edit\<close>

lemma copy_fields_all:
  "\<forall>k \<in> set ks. dict_has k msg \<Longrightarrow>
     \<exists>item. copy_fields ks msg acc = Inr item \<and>
       (\<forall>k. map_of item k = (if k \<in> set ks then map_of msg k else map_of acc k))"
proof (induction ks arbitrary: acc)
  case (Cons k ks)
  then obtain v where v: "map_of msg k = Some v" by auto
  from Cons.IH [of "dict_set k v acc"] Cons.prems
  obtain item where item: "copy_fields ks msg (dict_set k v acc) = Inr item"
    "\<forall>k'. map_of item k' = (if k' \<in> set ks then map_of msg k' else map_of (dict_set k v acc) k')"
    by auto
  then show ?case by (simp add: v dict_simps)
qed simp

definition new_target :: "bunch \<Rightarrow> string" where
  "new_target msg = match_target_of (bget ''soap_action'' msg) (bget ''url_path'' msg)"

definition known_definition :: "bunch \<Rightarrow> url_data \<Rightarrow> bool" where
  "known_definition msg s \<longleftrightarrow> (\<exists>st. map_of msg ''sec_type'' = Some (VStr (sec_def_type st)) \<and>
     dict_has (bget ''security_name'' msg) (config_of st s))"

text \<open>
  A well-formed message: it has every field, the security definition it names exists, an edit
  is of an existing channel, and the new target is not that of another channel.
\<close>

definition channel_msg_ok :: "bunch \<Rightarrow> url_data \<Rightarrow> bool" where
  "channel_msg_ok msg s \<longleftrightarrow>
     (\<forall>k \<in> set channel_fields. dict_has k msg) \<and>
     (truthy (bget ''security_id'' msg) \<longrightarrow> dict_has ''sec_type'' msg \<and> dict_has ''security_name'' msg) \<and>
     (truthy (bget ''security_name'' msg) \<longrightarrow> known_definition msg s) \<and>
     (truthy (bget ''old_name'' msg) \<longrightarrow> old_target msg \<in> fst ` set (ud_url_sec s)) \<and>
     (new_target msg \<in> fst ` set (ud_url_sec s) \<longrightarrow>
        truthy (bget ''old_name'' msg) \<and> new_target msg = old_target msg)"

lemma channel_item_complete:
  assumes fields: "\<forall>k \<in> set channel_fields. dict_has k msg"
    and sec: "truthy (bget ''security_id'' msg) \<longrightarrow> dict_has ''sec_type'' msg \<and> dict_has ''security_name'' msg"
  obtains item where "channel_item_from_msg msg target old = Inr item"
    "map_of item ''match_target'' = Some (VStr target)"
    "\<forall>k \<in> set channel_fields. map_of item k = map_of msg k"
    "map_of item ''audit_enabled'' = Some (dict_get ''audit_enabled'' (VBool False) old)"
proof -
  obtain a where a: "copy_fields channel_fields msg [] = Inr a"
    "\<forall>k. map_of a k = (if k \<in> set channel_fields then map_of msg k else None)"
    using copy_fields_all [OF fields, of "[]"] by auto
  obtain b where b: "security_fields msg a = Inr b"
    "\<forall>k \<in> set channel_fields. map_of b k = map_of a k"
  proof (cases "truthy (bget ''security_id'' msg)")
    case True
    with sec have "\<forall>k \<in> set [''sec_type'', ''security_id'', ''security_name'']. dict_has k msg"
      by (auto simp: bget_def dict_get_def split: option.splits)
    from copy_fields_all [OF this, of a] show thesis
      using True that by (auto simp: security_fields_def channel_fields_def)
  qed (use that in \<open>simp add: security_fields_def\<close>)
  show thesis
  proof (rule that)
    show "channel_item_from_msg msg target old =
      Inr (dict_set ''match_target_compiled'' (VStr target) (dict_set ''match_target'' (VStr target) (
            dict_set ''service_impl_name'' (bget ''impl_name'' msg) (audit_fields old b))))"
      by (simp add: channel_item_from_msg_def a(1) b(1))
  qed (use a(2) b(2) in \<open>simp_all add: dict_simps audit_fields_def channel_fields_def\<close>)
qed

lemma store_of_sec_def_type: "store_of_type (sec_def_type st) = Some st"
  by (cases st) (simp_all add: store_of_type_def)

lemma sec_info_complete:
  assumes "\<forall>k \<in> set channel_fields. dict_has k msg"
    and "truthy (bget ''security_name'' msg) \<longrightarrow> known_definition msg s"
  obtains info where "sec_info_from_msg msg s = (Inr info, s)"
    "truthy (bget ''security_name'' msg) \<Longrightarrow> \<exists>st d. map_of msg ''sec_type'' = Some (VStr (sec_def_type st)) \<and>
       map_of (config_of st s) (bget ''security_name'' msg) = Some d \<and> si_sec_def info = Some d"
    "\<not> truthy (bget ''security_name'' msg) \<Longrightarrow> si_sec_def info = None"
    "Some (si_sec_use_rbac info) = map_of msg ''sec_use_rbac''"
proof -
  obtain d where d: "sec_def_from_msg msg s = (Inr d, s)"
    "truthy (bget ''security_name'' msg) \<Longrightarrow> \<exists>st d'. map_of msg ''sec_type'' = Some (VStr (sec_def_type st)) \<and>
       map_of (config_of st s) (bget ''security_name'' msg) = Some d' \<and> d = Some d'"
    "\<not> truthy (bget ''security_name'' msg) \<Longrightarrow> d = None"
  proof (cases "truthy (bget ''security_name'' msg)")
    case True
    with assms(2) obtain st d' where st: "map_of msg ''sec_type'' = Some (VStr (sec_def_type st))"
      "map_of (config_of st s) (bget ''security_name'' msg) = Some d'"
      unfolding known_definition_def by blast
    then have "sec_def_from_msg msg s = (Inr (Some d'), s)"
      using True
      by (simp add: sec_def_from_msg_def py_run format_text_def store_of_sec_def_type)
    with st True show thesis by (intro that [of "Some d'"]) auto
  next
    case False
    then show thesis by (intro that [of None]) (simp_all add: sec_def_from_msg_def py_run)
  qed
  from assms(1) obtain i a f t r where
    "map_of msg ''id'' = Some i" "map_of msg ''is_active'' = Some a"
    "map_of msg ''data_format'' = Some f" "map_of msg ''transport'' = Some t"
    "map_of msg ''sec_use_rbac'' = Some r"
    by (auto simp: channel_fields_def)
  then have "sec_info_from_msg msg s = (Inr \<lparr>si_id = i, si_is_active = a, si_data_format = f,
       si_transport = t, si_sec_use_rbac = r, si_sec_def = d\<rparr>, s)" "map_of msg ''sec_use_rbac'' = Some r"
    using d(1) by (simp_all add: sec_info_from_msg_def py_run)
  then show thesis using d(2,3) by (intro that) auto
qed

text \<open>An edit first removes the channel it is about; nothing of it is left.\<close>

definition replaces :: "bunch \<Rightarrow> string \<Rightarrow> bool" where
  "replaces msg target \<longleftrightarrow> truthy (bget ''old_name'' msg) \<and> target = old_target msg"

lemma old_channel_removed:
  assumes ok: "channels_ok s" and msg: "channel_msg_ok msg s"
  obtains old u where
    "(if truthy (bget ''old_name'' msg) then delete_channel msg else py_ret []) s = (Inr old, u)"
    "channels_ok u" "ud_config u = ud_config s" "new_target msg \<notin> fst ` set (ud_url_sec u)"
    "set (ud_channel_data u) = {x \<in> set (ud_channel_data s). \<forall>target. item_target x = VStr target \<longrightarrow> \<not> replaces msg target}"
    "\<forall>target. map_of (ud_url_sec u) target = (if replaces msg target then None else map_of (ud_url_sec s) target)"
    "\<forall>target. map_of (ud_url_path_cache u) target = (if replaces msg target then None else map_of (ud_url_path_cache s) target)"
proof (cases "truthy (bget ''old_name'' msg)")
  case True
  with msg have known: "old_target msg \<in> fst ` set (ud_url_sec s)" by (simp add: channel_msg_ok_def)
  obtain old u where "delete_channel msg s = (Inr old, u)" "channels_ok u"
    "ud_url_sec u = dict_del (old_target msg) (ud_url_sec s)" "ud_config u = ud_config s"
    "ud_url_path_cache u = dict_del (old_target msg) (ud_url_path_cache s)"
    "set (ud_channel_data u) = {x \<in> set (ud_channel_data s). item_target x \<noteq> VStr (old_target msg)}"
    by (rule delete_channel_known [OF ok known])
  with True msg show thesis
    by (intro that [of old u]) (auto simp: channel_msg_ok_def replaces_def dict_simps)
next
  case False
  with msg ok show thesis by (intro that [of "[]" s]) (auto simp: channel_msg_ok_def py_ret_def replaces_def)
qed


definition demo_channel_msg :: bunch where
  "demo_channel_msg =
     map (\<lambda>k. (k, VNone)) (filter (\<lambda>k. k \<notin> {''name'', ''soap_action'', ''url_path'', ''is_internal''}) channel_fields)
     @ [(''name'', VStr ''ch''), (''soap_action'', VStr []), (''url_path'', VStr ''/a''),
        (''is_internal'', VBool False), (''security_id'', VInt 1), (''sec_type'', VStr ''basic_auth''),
        (''security_name'', VStr ''ba'')]"

definition demo_with_auth :: url_data where
  "demo_with_auth = demo_url_data\<lparr>ud_config := (\<lambda>st. if st = BasicAuth
     then [(VStr ''ba'', [(''name'', VStr ''ba'')])] else [])\<rparr>"


text \<open>
  A creation that names an unknown definition raises after the item is in place: the channel
  is matched from then on, but has no security information.
\<close>

lemma failed_creation_leaves_item:
  "on_broker_msg_CHANNEL_HTTP_SOAP_CREATE_EDIT demo_channel_msg demo_url_data = (Inl KeyError, t) \<Longrightarrow>
     length (ud_channel_data t) = 1 \<and> ud_url_sec t = []"
  by (simp add: on_broker_msg_CHANNEL_HTTP_SOAP_CREATE_EDIT_def create_channel_def demo_channel_msg_def
      channel_item_from_msg_def channel_fields_def security_fields_def bget_def dict_get_def py_run
      sec_info_from_msg_def sec_def_from_msg_def demo_url_data_def format_text_def store_of_type_def Let_def)
     (auto split: option.splits if_splits)

section \<open>Matching and its caches\<close>

definition needs_user :: "string \<Rightarrow> bool" where
  "needs_user url_path \<longleftrightarrow> \<not> startswith ''/zato'' url_path"

text \<open>What a request without a SOAP action is answered with when nothing is cached.\<close>

definition plain_target :: "string \<Rightarrow> string" where
  "plain_target url_path = '':::'' @ url_path"

lemma plain_target_inj [simp]: "plain_target p = plain_target q \<longleftrightarrow> p = q"
  by (simp add: plain_target_def)

definition uncached_match :: "(string \<Rightarrow> string \<Rightarrow> bool) \<Rightarrow> bunch list \<Rightarrow> string \<Rightarrow> bunch option" where
  "uncached_match re cs url_path = scan_channels re (needs_user url_path) (plain_target url_path) cs"

definition caches_coherent :: "(string \<Rightarrow> string \<Rightarrow> bool) \<Rightarrow> url_data \<Rightarrow> bool" where
  "caches_coherent re s \<longleftrightarrow>
     (\<forall>key target. map_of (ud_url_target_cache s) key = Some target \<longrightarrow> target = plain_target key) \<and>
     (\<forall>path item. map_of (ud_url_path_cache s) (plain_target path) = Some item \<longrightarrow>
        uncached_match re (ud_channel_data s) path = Some item)"

lemma match_request_plain:
  assumes "caches_coherent re s"
  shows "match_request re path [] False s =
    (case map_of (ud_url_path_cache s) (plain_target path) of
       Some item \<Rightarrow> (Some item, s)
     | None \<Rightarrow> (case uncached_match re (ud_channel_data s) path of
         None \<Rightarrow> (None, s)
       | Some item \<Rightarrow> (Some item,
           if is_static (item_pattern item)
           then ud_url_path_cache_update (dict_set (plain_target path) item)
                  (if map_of (ud_url_target_cache s) path = None
                   then ud_url_target_cache_update (dict_set path (plain_target path)) s else s)
           else s)))"
proof -
  have target: "(case map_of (ud_url_target_cache s) path of Some t \<Rightarrow> t | None \<Rightarrow> plain_target path)
      = plain_target path"
    using assms by (auto simp: caches_coherent_def split: option.split)
  show ?thesis
    unfolding match_request_def Let_def if_False append.append_Nil plain_target_def [symmetric] target
      uncached_match_def needs_user_def
    by (auto split: option.split)
qed

lemma match_request_coherent:
  assumes "caches_coherent re s" "match_request re path [] False s = (r, t)"
  shows "r = uncached_match re (ud_channel_data s) path \<and> caches_coherent re t \<and>
    ud_channel_data t = ud_channel_data s"
proof (cases "map_of (ud_url_path_cache s) (plain_target path)")
  case (Some item)
  with assms(1) have "uncached_match re (ud_channel_data s) path = Some item"
    unfolding caches_coherent_def by blast
  with Some assms show ?thesis by (auto simp: match_request_plain [OF assms(1)])
next
  case None
  with assms(2) assms(1) [unfolded caches_coherent_def] show ?thesis
    unfolding match_request_plain [OF assms(1)] caches_coherent_def
    by (auto simp: dict_simps split: option.splits if_splits)
qed

text \<open>The answers to a run of requests, the caches filling up on the way.\<close>

primrec answers :: "(string \<Rightarrow> string \<Rightarrow> bool) \<Rightarrow> string list \<Rightarrow> url_data \<Rightarrow> bunch option list" where
  "answers re [] s = []"
| "answers re (p # ps) s = (case match_request re p [] False s of (r, t) \<Rightarrow> r # answers re ps t)"

text \<open>
  Claim C6. The two caches of request matching are invisible to requests without a SOAP
  action: in any run of them, starting from coherent caches, every request gets exactly the
  channel that scanning all channels for it would give, whatever the regular expressions
  match and however many requests were answered before.
\<close>

theorem caches_change_no_answer:
  assumes "caches_coherent re s"
  shows "answers re paths s = map (uncached_match re (ud_channel_data s)) paths"
  using assms
proof (induction paths arbitrary: s)
  case (Cons p ps)
  obtain r t where m: "match_request re p [] False s = (r, t)" by fastforce
  from match_request_coherent [OF Cons.prems m] Cons.IH [of t] show ?case by (simp add: m)
qed simp

definition demo_channels :: url_data where
  "demo_channels = demo_url_data\<lparr>ud_channel_data :=
     [[(''name'', VStr ''ab''), (''match_target_compiled'', VStr '':::/ab'')],
      [(''name'', VStr ''soap''), (''match_target_compiled'', VStr ''b:::/a'')]]\<rparr>"

theorem caches_change_no_answer_witness:
  "answers (=) [''/ab'', ''/x'', ''/ab''] demo_channels =
     [Some [(''name'', VStr ''ab''), (''match_target_compiled'', VStr '':::/ab'')], None,
      Some [(''name'', VStr ''ab''), (''match_target_compiled'', VStr '':::/ab'')]]"
proof -
  have "caches_coherent (=) demo_channels"
    by (simp add: caches_coherent_def demo_channels_def demo_url_data_def)
  from caches_change_no_answer [OF this, of "[''/ab'', ''/x'', ''/ab'']"] show ?thesis
    by (simp add: uncached_match_def plain_target_def scan_channels_def needs_user_def startswith_def demo_channels_def
        item_pattern_def bget_def dict_get_def format_text_def is_internal_pattern_def)
qed

text \<open>
  With a SOAP action the key of the target cache is the path followed by the action, so that
  different requests can share a key: after a request for /ab, the action b on /a gets the
  channel of /ab.
\<close>

lemma soap_action_takes_cached_target:
  "fst (match_request (=) ''/a'' ''b'' True (snd (match_request (=) ''/ab'' [] False demo_channels)))
     = Some [(''name'', VStr ''ab''), (''match_target_compiled'', VStr '':::/ab'')]"
  "fst (match_request (=) ''/a'' ''b'' True demo_channels)
     = Some [(''name'', VStr ''soap''), (''match_target_compiled'', VStr ''b:::/a'')]"
  by code_simp+

text \<open>Changing the audit state leaves the cached copy of a channel as it was.\<close>

lemma audit_state_misses_cache:
  "ud_url_path_cache (snd (on_broker_msg_CHANNEL_HTTP_SOAP_AUDIT_STATE msg s)) = ud_url_path_cache s"
  by (simp add: on_broker_msg_CHANNEL_HTTP_SOAP_AUDIT_STATE_def each_item_def split: prod.split)

end
