(* ===== verification/Http_Dispatch_Facts.thy ===== *)
theory Http_Dispatch_Facts
  imports Http_Dispatch Url_Auth_Facts Url_Channels_Facts
begin

text \<open>
  No request reaches a service without passing the checks of its channel.
\<close>

section \<open>What leaves the served requests alone\<close>

definition same_services :: "bunch list \<Rightarrow> url_data \<Rightarrow> http_state \<Rightarrow> bool" where
  "same_services l ud s \<longleftrightarrow> ht_served s = l \<and> ht_ud s = ud"

lemma keeps_with_auth [keeps_intros]: "keeps (same_services l ud) (with_auth m)"
  by (auto simp: keeps_def same_services_def with_auth_def split: prod.split)

lemma keeps_http_env_set [keeps_intros]: "keeps (same_services l ud) (http_env_set k v)"
  unfolding http_env_set_def by (rule keeps_with_auth)

lemma keeps_py_result [keeps_intros]: "keeps I (py_result v)"
  by (simp add: keeps_def py_result_def)

lemma keeps_pure_state: "keeps I (\<lambda>s. (f s, s))"
  by (simp add: keeps_def)

lemma keeps_check_method [keeps_intros]: "keeps (same_services l ud) (check_method item)"
  unfolding check_method_def by (intro keeps_intros)

lemma keeps_prepare [keeps_intros]: "keeps (same_services l ud) (prepare_security w d payload)"
  unfolding prepare_security_def by (intro keeps_intros)

lemma keeps_check_request [keeps_intros]: "keeps (same_services l ud) (check_request w sec item payload)"
  unfolding check_request_def by (intro keeps_intros)

lemma keeps_params [keeps_intros]:
  "keeps (same_services l ud) (create_channel_params w ps item raw post)"
  unfolding create_channel_params_def Let_def by (intro keeps_intros)

lemma keeps_cache_get [keeps_intros]:
  "keeps (same_services l ud) (get_response_from_cache w item ps raw)"
  unfolding get_response_from_cache_def by (intro keeps_intros keeps_pure_state)

lemma keeps_cache_set [keeps_intros]: "keeps (same_services l ud) (set_response_in_cache item key r)"
  unfolding set_response_in_cache_def by (intro keeps_intros) (simp add: same_services_def)

lemma keeps_send [keeps_intros]: "keeps (same_services l ud) (send_response w r)"
  unfolding send_response_def by (intro keeps_intros) (simp split: prod.split add: keeps_with_auth)

lemma keeps_handle_exception [keeps_intros]:
  "keeps (same_services l ud) (handle_exception w txt item e)"
  unfolding handle_exception_def Let_def by (intro keeps_intros) (auto split: exn.split intro: keeps_intros)

lemma same_services_after:
  "keeps (same_services (ht_served s) (ht_ud s)) m \<Longrightarrow> m s = (r, t) \<Longrightarrow>
     ht_served t = ht_served s \<and> ht_ud t = ht_ud s"
  using keepsD [of "same_services (ht_served s) (ht_ud s)" m s] by (simp add: same_services_def)

text \<open>Both outcomes of the first of two methods.\<close>

lemma py_bind_cases:
  assumes "py_bind m f s = (r, t)"
  obtains e where "m s = (Inl e, t)" | x u where "m s = (Inr x, u)" "f x u = (r, t)"
  using assms by (auto simp: py_bind_def split: prod.splits sum.splits)

lemma py_seq_cases:
  assumes "py_seq m n s = (r, t)"
  obtains e where "m s = (Inl e, t)" | x u where "m s = (Inr x, u)" "n u = (r, t)"
  using assms by (auto simp: py_seq_def split: prod.splits sum.splits)

text \<open>A method that adds at most one served item, the given one.\<close>

definition serves_at_most :: "bunch \<Rightarrow> (http_state, 'a) py \<Rightarrow> bool" where
  "serves_at_most item m \<longleftrightarrow> (\<forall>s r t. m s = (r, t) \<longrightarrow> ht_served t \<in> {ht_served s, item # ht_served s})"

lemma serves_at_most_bind:
  assumes m: "\<And>l ud. keeps (same_services l ud) m" and f: "\<And>x. serves_at_most item (f x)"
  shows "serves_at_most item (py_bind m f)"
  unfolding serves_at_most_def
proof (intro allI impI)
  fix s r t assume "py_bind m f s = (r, t)"
  then show "ht_served t \<in> {ht_served s, item # ht_served s}"
    by (cases rule: py_bind_cases)
       (use same_services_after [OF m] f in \<open>fastforce simp: serves_at_most_def\<close>)+
qed

lemma serves_at_most_then:
  assumes m: "serves_at_most item m" and f: "\<And>x l ud. keeps (same_services l ud) (f x)"
  shows "serves_at_most item (py_bind m f)"
  unfolding serves_at_most_def
proof (intro allI impI)
  fix s r t assume "py_bind m f s = (r, t)"
  then show "ht_served t \<in> {ht_served s, item # ht_served s}"
    by (cases rule: py_bind_cases)
       (use same_services_after [OF f] m in \<open>fastforce simp: serves_at_most_def\<close>)+
qed

lemma serves_at_most_keeps: "(\<And>l ud. keeps (same_services l ud) m) \<Longrightarrow> serves_at_most item m"
  unfolding serves_at_most_def using same_services_after by blast

lemma serves_at_most_invoke: "serves_at_most item (invoke_service w item ps raw)"
  by (simp add: serves_at_most_def invoke_service_def)

lemma serves_at_most_raise: "serves_at_most item (py_raise e)"
  by (simp add: serves_at_most_def py_raise_def)

lemma serves_at_most_ret: "serves_at_most item (py_ret x)"
  by (simp add: serves_at_most_def py_ret_def)

lemma serves_at_most_cached:
  "serves_at_most item (py_bind (get_response_from_cache w item ps raw) (\<lambda>(cache_key, cached).
     case cached of
       Some r \<Rightarrow> py_ret r
     | None \<Rightarrow>
         py_bind (invoke_service w item ps raw) (\<lambda>r.
         py_seq (set_response_in_cache item cache_key r) (py_ret r))))"
proof (rule serves_at_most_bind [OF keeps_cache_get], clarify)
  fix key cached
  have "serves_at_most item (py_bind (invoke_service w item ps raw) (\<lambda>r.
         py_seq (set_response_in_cache item key r) (py_ret r)))"
    by (rule serves_at_most_then [OF serves_at_most_invoke]) (intro keeps_intros)
  then show "serves_at_most item (case cached of
       Some r \<Rightarrow> py_ret r
     | None \<Rightarrow>
         py_bind (invoke_service w item ps raw) (\<lambda>r.
         py_seq (set_response_in_cache item key r) (py_ret r)))"
    by (simp add: serves_at_most_ret split: option.split)
qed

lemma serves_at_most_handle: "serves_at_most item (request_handler_handle w url_match item raw post)"
  unfolding request_handler_handle_def
  by (rule serves_at_most_bind, (intro keeps_intros), rule serves_at_most_bind, (intro keeps_intros),
      simp add: serves_at_most_raise, intro impI,
      rule serves_at_most_bind, (intro keeps_intros), rule serves_at_most_bind, (intro keeps_intros),
      simp add: serves_at_most_invoke serves_at_most_cached)

section \<open>The check comes first\<close>

text \<open>The security of a channel is satisfied by a request in some state.\<close>

definition authorised ::
  "http_world \<Rightarrow> url_data \<Rightarrow> sec_info \<Rightarrow> bunch \<Rightarrow> py_val \<Rightarrow> bunch \<Rightarrow> auth_state \<Rightarrow> bool" where
  "authorised w ud sec item payload post a \<longleftrightarrow>
     (if truthy (si_sec_use_rbac sec)
      then delegated_satisfied (hw_auth w) ud (hw_rbac w) item payload post a
      else \<exists>d. si_sec_def sec = Some d \<and>
             definition_satisfied (hw_auth w) ud (hw_rbac w) d item payload post a)"

text \<open>
  Up to the check the code adds only the channel and the parsed request to the environment.
\<close>

definition added_keys :: "string set" where
  "added_keys = {''zato.channel_item'', ''zato.request.payload''}"

definition same_request :: "auth_state \<Rightarrow> auth_state \<Rightarrow> bool" where
  "same_request a b \<longleftrightarrow> au_jwt a = au_jwt b \<and> au_nonces a = au_nonces b \<and>
     (\<forall>k. k \<notin> added_keys \<longrightarrow> map_of (au_env a) k = map_of (au_env b) k)"

lemma same_request_refl [simp]: "same_request a a"
  by (simp add: same_request_def)

lemma same_request_trans: "same_request a b \<Longrightarrow> same_request b c \<Longrightarrow> same_request a c"
  by (simp add: same_request_def)

lemma same_request_set:
  "k \<in> added_keys \<Longrightarrow> http_env_set k v s = (r, t) \<Longrightarrow> same_request (ht_auth s) (ht_auth t)"
  by (auto simp: http_env_set_def with_auth_def env_set_def item_set_run same_request_def dict_simps)

lemma prepare_security_same:
  assumes "prepare_security w d payload s = (Inr post, t)"
  shows "same_request (ht_auth s) (ht_auth t)"
  using assms unfolding prepare_security_def
  by (elim py_bind_InrE battr_InrE)
     (auto simp: py_ret_def py_result_def added_keys_def
       elim!: py_bind_InrE py_seq_InrE dest!: same_request_set [rotated] split: if_splits)

lemma check_request_authorised:
  assumes typed: "stores_typed (ht_ud s)" and needs: "needs_check sec"
    and run: "check_request w sec item payload s = (Inr post, t)"
  shows "\<exists>a. same_request (ht_auth s) a \<and> authorised w (ht_ud s) sec item payload post a"
proof -
  from run needs obtain u v x where
    prep: "(case si_sec_def sec of Some d \<Rightarrow> prepare_security w d payload | None \<Rightarrow> py_ret []) s = (Inr post, u)"
    and chk: "with_auth (check_security (hw_auth w) (ht_ud u) (hw_rbac w) sec item payload post True) u = (Inr x, v)"
    unfolding check_request_def by (auto simp: py_get_def py_ret_def elim!: py_bind_InrE py_seq_InrE)
  have same: "same_request (ht_auth s) (ht_auth u)"
    using prep prepare_security_same by (auto simp: py_ret_def split: option.splits)
  have ud: "ht_ud u = ht_ud s"
  proof (cases "si_sec_def sec")
    case (Some d)
    with prep same_services_after [OF keeps_prepare] show ?thesis by simp
  qed (use prep in \<open>simp add: py_ret_def\<close>)
  from chk obtain a where "check_security (hw_auth w) (ht_ud u) (hw_rbac w) sec item payload post True (ht_auth u)
      = (Inr x, a)"
    by (auto simp: with_auth_def split: prod.splits)
  from security_check_lets_in_only_authorised [OF _ this] typed ud same show ?thesis
    unfolding authorised_def by (metis (full_types))
qed

text \<open>What holds of a channel and a request when its service is invoked.\<close>

definition may_serve :: "http_world \<Rightarrow> bunch \<Rightarrow> py_val \<Rightarrow> http_state \<Rightarrow> bool" where
  "may_serve w item payload s \<longleftrightarrow>
     truthy (bget ''is_active'' item) \<and>
     (truthy (bget ''method'' item) \<longrightarrow> bget ''REQUEST_METHOD'' (env_of s) = bget ''method'' item) \<and>
     (\<exists>sec. map_of (ud_url_sec (ht_ud s)) (format_text (bget ''match_target'' item)) = Some sec \<and>
        (needs_check sec \<longrightarrow> (\<exists>post a. same_request (ht_auth s) a \<and>
           authorised w (ht_ud s) sec item payload post a)))"

lemma check_method_returns:
  assumes "check_method item s = (Inr (), t)"
  shows "t = s \<and> (truthy (bget ''method'' item) \<longrightarrow> bget ''REQUEST_METHOD'' (env_of s) = bget ''method'' item)"
  using assms
  by (auto simp: check_method_def bitem_def with_auth_def env_item_def py_run bget_Some
      split: option.splits if_splits)

lemma with_handler_served:
  assumes "py_bind (request_handler_handle w m item payload post) (send_response w) s = (r, t)"
  shows "ht_served t \<in> {ht_served s, item # ht_served s}"
proof -
  have "serves_at_most item (py_bind (request_handler_handle w m item payload post) (send_response w))"
    by (rule serves_at_most_then [OF serves_at_most_handle]) (rule keeps_send)
  with assms show ?thesis unfolding serves_at_most_def by blast
qed

lemma bitem_bind:
  "py_bind (bitem b k) f s = (case map_of b k of None \<Rightarrow> (Inl KeyError, s) | Some v \<Rightarrow> f v s)"
  by (simp add: bitem_def py_run split: option.split)

lemma item_get_bind:
  "py_bind (item_get sel k) f s = (case map_of (sel s) k of None \<Rightarrow> (Inl KeyError, s) | Some v \<Rightarrow> f v s)"
  by (simp add: py_bind_def item_get_run split: option.split)

lemma serve_request_served:
  assumes typed: "stores_typed (ht_ud s)" and run: "serve_request w item payload s = (r, t)"
    and changed: "ht_served t \<noteq> ht_served s"
  shows "ht_served t = item # ht_served s \<and> may_serve w item payload s"
proof -
  from run changed have active: "truthy (bget ''is_active'' item)"
    and run1: "py_seq (check_method item) (
       py_bind (bitem item ''match_target'') (\<lambda>target.
       py_bind (item_get (\<lambda>s. ud_url_sec (ht_ud s)) (format_text target)) (\<lambda>sec.
       py_bind (check_request w sec item payload) (\<lambda>post_data.
       py_seq (http_env_set ''zato.oauth.post_data'' (VDict post_data)) (
       py_bind (request_handler_handle w [] item payload post_data) (send_response w)))))) s = (r, t)"
    unfolding serve_request_def bitem_bind [of item "''is_active''"]
    by (auto simp: py_raise_def bget_Some split: option.splits if_splits)
  from run1 obtain "check_method item s = (Inr (), s)" and
    run2: "py_bind (bitem item ''match_target'') (\<lambda>target.
       py_bind (item_get (\<lambda>s. ud_url_sec (ht_ud s)) (format_text target)) (\<lambda>sec.
       py_bind (check_request w sec item payload) (\<lambda>post_data.
       py_seq (http_env_set ''zato.oauth.post_data'' (VDict post_data)) (
       py_bind (request_handler_handle w [] item payload post_data) (send_response w))))) s = (r, t)"
  proof (cases rule: py_seq_cases)
    case (1 e)
    with same_services_after [OF keeps_check_method] changed show ?thesis by blast
  next
    case (2 x u)
    with check_method_returns [of item s u] that show ?thesis by auto
  qed
  then have meth: "truthy (bget ''method'' item) \<longrightarrow> bget ''REQUEST_METHOD'' (env_of s) = bget ''method'' item"
    using check_method_returns by blast
  from run2 changed obtain target sec where target: "map_of item ''match_target'' = Some target"
    and sec: "map_of (ud_url_sec (ht_ud s)) (format_text target) = Some sec"
    and run3: "py_bind (check_request w sec item payload) (\<lambda>post_data.
       py_seq (http_env_set ''zato.oauth.post_data'' (VDict post_data)) (
       py_bind (request_handler_handle w [] item payload post_data) (send_response w))) s = (r, t)"
    by (auto simp: bitem_bind item_get_bind split: option.splits)
  from run3 obtain post u where chk: "check_request w sec item payload s = (Inr post, u)" and
    run4: "py_seq (http_env_set ''zato.oauth.post_data'' (VDict post)) (
       py_bind (request_handler_handle w [] item payload post) (send_response w)) u = (r, t)"
  proof (cases rule: py_bind_cases)
    case (1 e)
    with same_services_after [OF keeps_check_request] changed show ?thesis by blast
  qed (use that in blast)
  have u: "ht_served u = ht_served s" using same_services_after [OF keeps_check_request chk] by simp
  from run4 have "ht_served t \<in> {ht_served u, item # ht_served u}"
  proof (cases rule: py_seq_cases)
    case (1 e)
    with same_services_after [OF keeps_http_env_set] show ?thesis by fastforce
  next
    case (2 x v)
    with same_services_after [OF keeps_http_env_set] with_handler_served [OF 2(2)] show ?thesis by fastforce
  qed
  with u changed have "ht_served t = item # ht_served s" by auto
  moreover have "needs_check sec \<longrightarrow> (\<exists>post a. same_request (ht_auth s) a \<and>
           authorised w (ht_ud s) sec item payload post a)"
    using check_request_authorised [OF typed _ chk] by blast
  ultimately show ?thesis using active meth target sec by (auto simp: may_serve_def bget_Some)
qed

lemma match_request_frame:
  "match_request re p a b ud = (r, ud') \<Longrightarrow> ud_config ud' = ud_config ud \<and> ud_url_sec ud' = ud_url_sec ud"
  by (auto simp: match_request_def Let_def split: option.splits if_splits)

lemma keeps_audit [keeps_intros]: "keeps (same_services l ud) (audit_set_request w item payload)"
  unfolding audit_set_request_def by (intro keeps_intros) (simp add: same_services_def)

lemma audit_same_request:
  "audit_set_request w item payload s = (r, t) \<Longrightarrow> ht_auth t = ht_auth s"
  by (auto simp: audit_set_request_def py_result_def py_run split: sum.splits)

section \<open>Dispatching\<close>

lemma http_env_set_run:
  "http_env_set k v s = (Inr (), s\<lparr>ht_auth := au_env_update (dict_set k v) (ht_auth s)\<rparr>)"
  by (simp add: http_env_set_def with_auth_def env_set_def item_set_run)

lemma match_channel_run:
  assumes "match_channel w path soap s = (Inr found, t)"
  shows "fst (match_request (hw_regex w) path soap (soap \<noteq> []) (ht_ud s)) = found \<and>
    ht_auth t = ht_auth s \<and> ht_served t = ht_served s \<and>
    ud_config (ht_ud t) = ud_config (ht_ud s) \<and> ud_url_sec (ht_ud t) = ud_url_sec (ht_ud s)"
  using assms match_request_frame
  by (auto simp: match_channel_def split: prod.splits)

lemma match_channel_total: "\<exists>found t. match_channel w path soap s = (Inr found, t)"
  by (auto simp: match_channel_def split: prod.split)

text \<open>From the matched channel on.\<close>

lemma serve_matched:
  assumes typed: "stores_typed (ht_ud s)"
    and run: "py_seq (http_env_set ''zato.channel_item'' (VDict item)) (
         py_bind (bitem item ''audit_enabled'') (\<lambda>audit_enabled.
         py_seq (py_when (truthy audit_enabled) (audit_set_request w item payload)) (
         py_try (serve_request w item payload) (handle_exception w error_text item)))) s = (r, t)"
    and changed: "ht_served t \<noteq> ht_served s"
  shows "\<exists>u. ht_served t = item # ht_served s \<and> may_serve w item payload u \<and>
    same_request (ht_auth s) (ht_auth u) \<and> ht_ud u = ht_ud s"
proof -
  let ?s1 = "s\<lparr>ht_auth := au_env_update (dict_set ''zato.channel_item'' (VDict item)) (ht_auth s)\<rparr>"
  have s1: "same_request (ht_auth s) (ht_auth ?s1)"
    by (simp add: same_request_def added_keys_def dict_simps)
  from run changed obtain enabled where
    run1: "py_seq (py_when (truthy enabled) (audit_set_request w item payload)) (
         py_try (serve_request w item payload) (handle_exception w error_text item)) ?s1 = (r, t)"
    by (auto simp: py_seq_def [of "http_env_set _ _"] http_env_set_run bitem_bind split: option.splits)
  have audit: "keeps (same_services l ud) (py_when (truthy enabled) (audit_set_request w item payload))" for l ud
    by (intro keeps_intros)
  from run1 obtain u where u: "ht_served u = ht_served s" "ht_ud u = ht_ud s" "ht_auth u = ht_auth ?s1"
    and run2: "py_try (serve_request w item payload) (handle_exception w error_text item) u = (r, t)"
  proof (cases rule: py_seq_cases)
    case (1 e)
    with same_services_after [OF audit] changed show ?thesis by fastforce
  next
    case (2 x u)
    have "ht_auth u = ht_auth ?s1"
    proof (cases "truthy enabled")
      case True
      with 2(1) audit_same_request [of w item payload ?s1] show ?thesis by (simp add: py_when_def)
    next
      case False
      with 2(1) show ?thesis by (auto simp: py_when_def py_ret_def)
    qed
    with 2 same_services_after [OF audit 2(1)] show ?thesis by (intro that [of u]) simp_all
  qed
  obtain q v where serve: "serve_request w item payload u = (q, v)" by fastforce
  have "ht_served t = ht_served v"
  proof (cases q)
    case (Inl e)
    with run2 serve have "handle_exception w error_text item e v = (r, t)" by (simp add: py_try_def)
    with same_services_after [OF keeps_handle_exception] show ?thesis by blast
  next
    case (Inr y)
    with run2 serve show ?thesis by (simp add: py_try_def)
  qed
  with serve_request_served [OF _ serve] typed u changed s1 show ?thesis by auto
qed

text \<open>
  Claim C11. No HTTP request reaches a service unauthorised: if dispatching a request invokes a
  service at all, however it ends, it is once, for the channel the request matched; that
  channel was active and the method the one it expects; its security was known; and unless
  the channel is an open one, the request had valid credentials for its definition with RBAC
  allowing the call where asked, or RBAC allows a client with the credentials of the request.
\<close>

theorem dispatch_serves_only_authorised:
  assumes typed: "stores_typed (ht_ud s)"
    and run: "dispatch w error_text response_404 payload s = (r, t)"
    and served: "ht_served t \<noteq> ht_served s"
  shows "\<exists>item path soap u. ht_served t = item # ht_served s \<and>
    map_of (env_of s) ''PATH_INFO'' = Some path \<and> request_soap_action (env_of s) = Inr soap \<and>
    fst (match_request (hw_regex w) (format_text path) soap (soap \<noteq> []) (ht_ud s)) = Some item \<and>
    may_serve w item payload u \<and> same_request (ht_auth s) (ht_auth u) \<and>
    ud_config (ht_ud u) = ud_config (ht_ud s) \<and> ud_url_sec (ht_ud u) = ud_url_sec (ht_ud s)"
proof -
  from run served obtain path where path: "map_of (env_of s) ''PATH_INFO'' = Some path"
    by (cases "map_of (env_of s) ''PATH_INFO''")
       (auto simp: dispatch_def py_bind_def with_auth_def env_item_def item_get_run)
  have pi: "with_auth (env_item ''PATH_INFO'') s = (Inr path, s)"
    using path by (simp add: with_auth_def env_item_def item_get_run)
  from run served pi obtain soap where soap: "request_soap_action (env_of s) = Inr soap"
    by (cases "request_soap_action (env_of s)")
       (auto simp: dispatch_def py_bind_def Let_def)
  have sa: "(request_soap_action (env_of s), s) = (Inr soap, s)" by (simp add: soap)
  obtain found v where found: "match_channel w (format_text path) soap s = (Inr found, v)"
    using match_channel_total by blast
  note m = match_channel_run [OF found]
  have rest: "(case found of
       None \<Rightarrow>
         py_seq (http_env_set ''zato.channel_item'' VNone) (
         py_seq (http_env_set ''zato.http.response.status'' (VStr ''404 Not Found''))
                (py_ret (response_404 (format_text path) soap)))
     | Some channel_item \<Rightarrow>
         py_seq (http_env_set ''zato.channel_item'' (VDict channel_item)) (
         py_bind (bitem channel_item ''audit_enabled'') (\<lambda>audit_enabled.
         py_seq (py_when (truthy audit_enabled) (audit_set_request w channel_item payload)) (
         py_try (serve_request w channel_item payload)
           (handle_exception w error_text channel_item))))) v = (r, t)"
    using run unfolding dispatch_def Let_def py_bind_Inr [where m = "with_auth (env_item ''PATH_INFO'')", OF pi]
      py_bind_Inr [where m = "\<lambda>s. (request_soap_action (env_of s), s)", OF sa]
      py_bind_Inr [where m = "match_channel w (format_text path) soap", OF found] .
  from rest served m obtain item where item: "found = Some item"
    by (cases found) (auto simp: py_seq_def http_env_set_run py_ret_def)
  have typed_v: "stores_typed (ht_ud v)" using typed m by (simp add: stores_typed_def)
  have "ht_served t \<noteq> ht_served v" using served m by simp
  from serve_matched [OF typed_v rest [unfolded item option.case] this] m item path soap show ?thesis
    by auto
qed

text \<open>A channel with an API key and a service that answers everything with OK.\<close>

definition demo_http :: http_world where
  "demo_http = \<lparr>hw_auth = demo_world, hw_regex = (=), hw_rbac = demo_rules, hw_query = (\<lambda>_. []),
     hw_post = (\<lambda>_. []), hw_parse_xml = Inr, hw_is_active = (\<lambda>_. Inr True),
     hw_invoke = (\<lambda>_ _ _ _. Inr \<lparr>rs_payload = VStr ''ok'', rs_content_type = VStr ''text/plain'',
       rs_headers = [], rs_status_code = 200\<rparr>),
     hw_request_hash = (\<lambda>_. None), hw_sha256 = (\<lambda>s. s), hw_repr = (\<lambda>_. []), hw_loads = Inr,
     hw_dumps = (\<lambda>v. v), hw_store_set = (\<lambda>_ _ p. Inr p), hw_dump_environ = (\<lambda>_. VNone),
     hw_status_text = (\<lambda>n. if n = 200 then Some ''200 OK'' else None), hw_error_wrapper = (\<lambda>_ v. v)\<rparr>"

definition demo_http_item :: bunch where
  "demo_http_item = [(''match_target'', VStr '':::/a''), (''match_target_compiled'', VStr '':::/a''),
     (''is_active'', VBool True), (''method'', VStr []), (''audit_enabled'', VBool False),
     (''service_impl_name'', VStr ''svc''), (''merge_url_params_req'', VBool False), (''cache_type'', VNone)]"

definition demo_http_sec :: sec_info where
  "demo_http_sec = \<lparr>si_id = VInt 1, si_is_active = VBool True, si_data_format = VNone,
     si_transport = VNone, si_sec_use_rbac = VBool False, si_sec_def = Some demo_api_key\<rparr>"

definition demo_http_state :: "string \<Rightarrow> http_state" where
  "demo_http_state key = \<lparr>ht_auth = demo_request\<lparr>au_env := [(''PATH_INFO'', VStr ''/a''),
       (''REQUEST_METHOD'', VStr ''GET''), (''HTTP_KEY'', VStr key),
       (''zato.http.response.headers'', VDict [])]\<rparr>,
     ht_ud = demo_keys\<lparr>ud_url_sec := [('':::/a'', demo_http_sec)], ud_channel_data := [demo_http_item]\<rparr>,
     ht_cache = [], ht_served = [], ht_audit = []\<rparr>"

theorem dispatch_serves_only_authorised_witness:
  "\<exists>u. fst (dispatch demo_http (\<lambda>_. VNone) (\<lambda>_ _. VNone) (VStr []) (demo_http_state ''pw'')) = Inr (VStr ''ok'') \<and>
     may_serve demo_http demo_http_item (VStr []) u \<and>
     same_request (ht_auth (demo_http_state ''pw'')) (ht_auth u)"
proof -
  let ?run = "dispatch demo_http (\<lambda>_. VNone) (\<lambda>_ _. VNone) (VStr []) (demo_http_state ''pw'')"
  have typed: "stores_typed (ht_ud (demo_http_state ''pw''))"
    by (simp add: stores_typed_def demo_http_state_def demo_keys_def demo_api_key_def)
  have ok: "fst ?run = Inr (VStr ''ok'')" by code_simp
  have served: "ht_served (snd ?run) = [demo_http_item]" by code_simp
  have none: "ht_served (demo_http_state ''pw'') = []" by (simp add: demo_http_state_def)
  have "ht_served (snd ?run) \<noteq> ht_served (demo_http_state ''pw'')" by (simp add: served none)
  from dispatch_serves_only_authorised [OF typed surjective_pairing this] served none ok show ?thesis
    by auto
qed

text \<open>With another key the same request is answered with 401 and nothing is served.\<close>

lemma wrong_key_not_served:
  "ht_served (snd (dispatch demo_http (\<lambda>_. VNone) (\<lambda>_ _. VNone) (VStr []) (demo_http_state ''no''))) = []"
  "map_of (env_of (snd (dispatch demo_http (\<lambda>_. VNone) (\<lambda>_ _. VNone) (VStr []) (demo_http_state ''no''))))
     ''zato.http.response.status'' = Some (VStr ''401 Unauthorized'')"
  by code_simp+

text \<open>
  A response cache without merged parameters makes every request fail before the service is
  invoked, and an empty SOAP action raises outside the error handling.
\<close>

lemma cache_without_merged_parameters_fails:
  "hw_request_hash w (bget ''service_impl_name'' item) = None \<Longrightarrow>
     get_response_from_cache w item None raw s = (Inl AttributeError, s)"
  by (simp add: get_response_from_cache_def request_cache_key_def py_bind_def)

lemma empty_soap_action_raises:
  assumes "map_of (env_of s) ''HTTP_SOAPACTION'' = Some (VStr [])" "map_of (env_of s) ''PATH_INFO'' = Some path"
  shows "dispatch w error_text response_404 payload s = (Inl IndexError, s)"
  using assms
  by (simp add: dispatch_def py_bind_def with_auth_def env_item_def item_get_run Let_def
      request_soap_action_def handle_quotes_soap_action_def format_text_def)

end
