(* ===== verification/Sched_Job.thy ===== *)
theory Sched_Job
  imports Py_Prelude
begin

text \<open>
  One job of the scheduler (zato-scheduler backend.py): when it starts, how often its callback
  is spawned, and when its loop ends. Times are seconds. The dateutil and crontab libraries
  are parameters: \<open>rr\<close> is the last occurrence of a rule before an instant (from the
  interval, the first occurrence and the number of occurrences), \<open>cron\<close> the seconds to
  the next occurrence of a cron definition.
\<close>

section \<open>Jobs\<close>

datatype job_type = OneTime | IntervalBased | CronStyle

datatype interval = Every int | CronTab string

type_synonym rrule_before = "int \<Rightarrow> int \<Rightarrow> int option \<Rightarrow> int \<Rightarrow> int option"
type_synonym cron_next = "string \<Rightarrow> int \<Rightarrow> int"

definition get_in_seconds :: "int \<Rightarrow> int \<Rightarrow> int \<Rightarrow> int \<Rightarrow> int" where
  "get_in_seconds days hours minutes seconds = ((days * 24 + hours) * 60 + minutes) * 60 + seconds"

definition new_interval :: "int \<Rightarrow> int \<Rightarrow> int \<Rightarrow> int \<Rightarrow> int \<Rightarrow> interval" where
  "new_interval days hours minutes seconds in_seconds =
     Every (if in_seconds \<noteq> 0 then in_seconds else get_in_seconds days hours minutes seconds)"

record job =
  j_id :: int
  j_name :: string
  j_type :: job_type
  j_interval :: interval
  j_start_time :: "int option"
  j_cb_kwargs :: "string \<times> string option"
  j_max_repeats :: "int option"
  j_has_callbacks :: bool
  j_is_active :: bool
  j_cron_definition :: "string option"
  j_current_run :: int
  j_max_repeats_reached :: bool
  j_max_repeats_reached_at :: "int option"
  j_keep_running :: bool

text \<open>A job out of iterations.\<close>

definition out_of_runs :: "int \<Rightarrow> job \<Rightarrow> job" where
  "out_of_runs at j = j\<lparr>j_max_repeats_reached := True, j_max_repeats_reached_at := Some at,
     j_keep_running := False, j_start_time := None\<rparr>"

text \<open>\<open>get_start_time\<close> together with the assignment of its result.\<close>

definition get_start_time :: "rrule_before \<Rightarrow> int \<Rightarrow> int \<Rightarrow> job \<Rightarrow> exn + job" where
  "get_start_time rr now start_time j =
     (case j_interval j of
        CronTab _ \<Rightarrow> Inl AttributeError
      | Every secs \<Rightarrow>
          if start_time > now then Inr (j\<lparr>j_start_time := Some start_time\<rparr>)
          else if start_time + secs > now then Inr (j\<lparr>j_start_time := Some (start_time + secs)\<rparr>)
          else (case rr secs start_time (j_max_repeats j) now of
                  None \<Rightarrow> Inl TypeError
                | Some last_run_time \<Rightarrow>
                    let next_run_time = last_run_time + secs in
                    if next_run_time \<ge> now then Inr (j\<lparr>j_start_time := Some next_run_time\<rparr>)
                    else if j_type j = OneTime \<and> j_is_active j
                    then Inr (j\<lparr>j_start_time := Some (now + 10)\<rparr>)
                    else Inr (out_of_runs next_run_time j)))"

definition get_sleep_time :: "cron_next \<Rightarrow> int \<Rightarrow> job \<Rightarrow> exn + int" where
  "get_sleep_time cron now j =
     (case (j_type j, j_interval j) of
        (IntervalBased, Every secs) \<Rightarrow> Inr secs
      | (IntervalBased, CronTab _) \<Rightarrow> Inl AttributeError
      | (CronStyle, CronTab d) \<Rightarrow> Inr (cron d now)
      | (CronStyle, Every _) \<Rightarrow> Inl AttributeError
      | (OneTime, _) \<Rightarrow> Inl ValueError)"

definition blank_job ::
  "int \<Rightarrow> string \<Rightarrow> job_type \<Rightarrow> interval \<Rightarrow> string \<times> string option \<Rightarrow> int option \<Rightarrow> bool \<Rightarrow> string option \<Rightarrow> job" where
  "blank_job i name typ interval cb_kwargs max_repeats is_active cron_definition =
     \<lparr>j_id = i, j_name = name, j_type = typ, j_interval = interval, j_start_time = None,
      j_cb_kwargs = cb_kwargs, j_max_repeats = max_repeats, j_has_callbacks = False,
      j_is_active = is_active, j_cron_definition = cron_definition, j_current_run = 0,
      j_max_repeats_reached = False, j_max_repeats_reached_at = None, j_keep_running = True\<rparr>"

definition new_job ::
  "rrule_before \<Rightarrow> cron_next \<Rightarrow> int \<Rightarrow> int \<Rightarrow> string \<Rightarrow> job_type \<Rightarrow> interval \<Rightarrow> int option \<Rightarrow>
   string \<times> string option \<Rightarrow> int option \<Rightarrow> string option \<Rightarrow> exn + job" where
  "new_job rr cron now i name typ interval start_time cb_kwargs max_repeats cron_definition =
     (let j = blank_job i name typ interval cb_kwargs max_repeats True cron_definition in
      if typ = CronStyle
      then (case get_sleep_time cron now j of
              Inl e \<Rightarrow> Inl e
            | Inr secs \<Rightarrow> Inr (j\<lparr>j_start_time := Some (now + secs)\<rparr>))
      else get_start_time rr now (case start_time of None \<Rightarrow> now | Some t \<Rightarrow> t) j)"

text \<open>A clone takes over the configuration and the start time, not the progress.\<close>

definition clone_job :: "job \<Rightarrow> job" where
  "clone_job j = (blank_job (j_id j) (j_name j) (j_type j) (j_interval j) (j_cb_kwargs j)
     (j_max_repeats j) (j_is_active j) (j_cron_definition j))
       \<lparr>j_start_time := j_start_time j, j_has_callbacks := j_has_callbacks j\<rparr>"

text \<open>What a callback is given.\<close>

record job_context =
  cx_start_time :: int
  cx_cb_kwargs :: "string \<times> string option"
  cx_cron_definition :: "string option"
  cx_interval_in_seconds :: "int option"
  cx_id :: int
  cx_name :: string
  cx_current_run :: int
  cx_max_repeats_reached :: bool
  cx_max_repeats :: "int option"
  cx_type :: job_type

definition get_context :: "job \<Rightarrow> exn + job_context" where
  "get_context j =
     (case (j_start_time j, j_type j = CronStyle, j_interval j) of
        (None, _, _) \<Rightarrow> Inl AttributeError
      | (Some _, False, CronTab _) \<Rightarrow> Inl AttributeError
      | (Some t, is_cron, interval) \<Rightarrow> Inr
          \<lparr>cx_start_time = t, cx_cb_kwargs = j_cb_kwargs j,
           cx_cron_definition = (if is_cron then j_cron_definition j else None),
           cx_interval_in_seconds = (case interval of Every s \<Rightarrow> if is_cron then None else Some s | CronTab _ \<Rightarrow> None),
           cx_id = j_id j, cx_name = j_name j, cx_current_run = j_current_run j,
           cx_max_repeats_reached = j_max_repeats_reached j, cx_max_repeats = j_max_repeats j,
           cx_type = j_type j\<rparr>)"

section \<open>The loop\<close>

text \<open>
  One turn: count the run, notice the last one (the scheduler's callback then deactivates the
  job), and spawn the callback; an exception on the way is logged.
\<close>

definition count_run :: "int \<Rightarrow> job \<Rightarrow> job" where
  "count_run now j =
     (let j = j\<lparr>j_current_run := j_current_run j + 1\<rparr> in
      case j_max_repeats j of
        None \<Rightarrow> j
      | Some m \<Rightarrow>
          if m \<noteq> 0 \<and> j_current_run j = m
          then j\<lparr>j_keep_running := False, j_max_repeats_reached := True, j_max_repeats_reached_at := Some now,
                 j_is_active := j_is_active j \<and> \<not> j_has_callbacks j\<rparr>
          else j)"

definition spawned_by :: "job \<Rightarrow> job_context list" where
  "spawned_by j = (case get_context j of Inl _ \<Rightarrow> [] | Inr ctx \<Rightarrow> [ctx])"

text \<open>
  \<open>main_loop\<close> with fuel: \<open>None\<close> is a loop that has not ended yet. \<open>killed n\<close>
  tells that the greenlet is killed in the sleep after its run \<open>n\<close>, \<open>clock n\<close> is the
  time of run \<open>n\<close>.
\<close>

fun main_loop ::
  "cron_next \<Rightarrow> (int \<Rightarrow> bool) \<Rightarrow> (int \<Rightarrow> int) \<Rightarrow> nat \<Rightarrow> job \<Rightarrow> (job \<times> job_context list) option" where
  "main_loop cron killed clock 0 j = None"
| "main_loop cron killed clock (Suc n) j =
     (if \<not> j_keep_running j then Some (j, [])
      else
        let j' = count_run (clock (j_current_run j + 1)) j; spawned = spawned_by j' in
        if j_type j = OneTime then Some (j', spawned)
        else (case get_sleep_time cron (clock (j_current_run j + 1)) j' of
                Inl _ \<Rightarrow> Some (j', spawned)
              | Inr _ \<Rightarrow>
                  if killed (j_current_run j') then Some (j', spawned)
                  else map_option (\<lambda>(k, rest). (k, spawned @ rest)) (main_loop cron killed clock n j')))"

text \<open>
  \<open>run\<close>: a job without a start time is not started; otherwise its greenlet sleeps a second
  at a time until the start time has come.
\<close>

fun wait_for_start :: "int \<Rightarrow> int \<Rightarrow> int" where
  "wait_for_start start now = (if start > now then start else now)"

definition job_run ::
  "cron_next \<Rightarrow> (int \<Rightarrow> bool) \<Rightarrow> (int \<Rightarrow> int) \<Rightarrow> nat \<Rightarrow> job \<Rightarrow> (job \<times> job_context list) option" where
  "job_run cron killed clock fuel j =
     (case j_start_time j of
        None \<Rightarrow> Some (j, [])
      | Some start \<Rightarrow> main_loop cron killed (\<lambda>n. wait_for_start start (clock n)) fuel j)"

section \<open>How often a job runs\<close>

lemma count_run_sel [simp]:
  "j_type (count_run now j) = j_type j" "j_interval (count_run now j) = j_interval j"
  "j_start_time (count_run now j) = j_start_time j" "j_max_repeats (count_run now j) = j_max_repeats j"
  "j_current_run (count_run now j) = j_current_run j + 1"
  by (simp_all add: count_run_def Let_def split: option.split)

lemma count_run_keep:
  "j_keep_running (count_run now j) \<longleftrightarrow>
     j_keep_running j \<and> \<not> (\<exists>m. j_max_repeats j = Some m \<and> m \<noteq> 0 \<and> j_current_run j + 1 = m)"
  by (auto simp: count_run_def Let_def split: option.split)

definition runs_of :: "job_context list \<Rightarrow> int list" where
  "runs_of = map cx_current_run"

definition interval_job :: "int \<Rightarrow> job \<Rightarrow> bool" where
  "interval_job secs j \<longleftrightarrow> j_type j = IntervalBased \<and> j_interval j = Every secs \<and> j_start_time j \<noteq> None"

lemma spawned_by_interval: "interval_job secs j \<Longrightarrow> \<exists>ctx. spawned_by j = [ctx] \<and> cx_current_run ctx = j_current_run j"
  by (auto simp: interval_job_def spawned_by_def get_context_def)

lemma interval_job_count [simp]: "interval_job secs (count_run now j) = interval_job secs j"
  by (simp add: interval_job_def)

lemma main_loop_turn:
  assumes j: "interval_job secs j" and keep: "j_keep_running j" and alive: "\<not> killed (j_current_run j + 1)"
  shows "map_option (runs_of \<circ> snd) (main_loop cron killed clock (Suc n) j)
    = map_option ((#) (j_current_run j + 1))
        (map_option (runs_of \<circ> snd)
          (main_loop cron killed clock n (count_run (clock (j_current_run j + 1)) j)))"
proof -
  let ?j' = "count_run (clock (j_current_run j + 1)) j"
  obtain ctx where ctx: "spawned_by ?j' = [ctx]" "cx_current_run ctx = j_current_run j + 1"
    using spawned_by_interval [of secs ?j'] j by auto
  have "get_sleep_time cron (clock (j_current_run j + 1)) ?j' = Inr secs" "j_type j \<noteq> OneTime"
    using j by (simp_all add: interval_job_def get_sleep_time_def)
  with keep alive ctx show ?thesis
    by (simp add: main_loop.simps Let_def option.map_comp comp_def split_def runs_of_def)
qed

declare main_loop.simps [simp del]

lemma main_loop_ended: "\<not> j_keep_running j \<Longrightarrow> main_loop cron killed clock (Suc n) j = Some (j, [])"
  by (simp add: main_loop.simps)

lemma main_loop_remaining:
  assumes "interval_job secs j" "j_keep_running j" "j_max_repeats j = Some m" "\<forall>n. \<not> killed n"
    "j_current_run j \<ge> 0" "m - j_current_run j = int (Suc k)"
  shows "map_option (runs_of \<circ> snd) (main_loop cron killed clock (Suc (Suc k) + extra) j)
    = Some [j_current_run j + 1..m]"
  using assms
proof (induction k arbitrary: j)
  case 0
  let ?j' = "count_run (clock (j_current_run j + 1)) j"
  have "\<not> j_keep_running ?j'" using 0 by (simp add: count_run_keep)
  then have "main_loop cron killed clock (Suc extra) ?j' = Some (?j', [])" by (rule main_loop_ended)
  with main_loop_turn [OF 0(1,2), of killed cron clock "Suc extra"] 0(4)
  have "map_option (runs_of \<circ> snd) (main_loop cron killed clock (Suc (Suc 0) + extra) j) = Some [j_current_run j + 1]"
    by (simp add: runs_of_def)
  moreover have "[j_current_run j + 1..m] = [j_current_run j + 1]" using 0(6) by (simp add: upto_rec1)
  ultimately show ?case by (simp only:)
next
  case (Suc k)
  let ?j' = "count_run (clock (j_current_run j + 1)) j"
  have keep: "j_keep_running ?j'" using Suc.prems by (simp add: count_run_keep)
  have "map_option (runs_of \<circ> snd) (main_loop cron killed clock (Suc (Suc k) + extra) ?j')
      = Some [j_current_run ?j' + 1..m]"
    by (rule Suc.IH) (use Suc.prems keep in simp_all)
  moreover have "[j_current_run j + 1..m] = (j_current_run j + 1) # [j_current_run ?j' + 1..m]"
    using Suc.prems(6) upto_rec1 [of "j_current_run j + 1" m] by simp
  moreover have "\<not> killed (j_current_run j + 1)" using Suc.prems(4) by simp
  ultimately show ?case
    using main_loop_turn [OF Suc.prems(1,2), of killed cron clock "Suc (Suc k) + extra"] by (simp only: add_Suc option.map not_False_eq_True simp_thms)
qed

lemma main_loop_forever:
  assumes "interval_job secs j" "j_keep_running j" "j_max_repeats j = None" "\<forall>n. \<not> killed n"
  shows "main_loop cron killed clock n j = None"
  using assms
proof (induction n arbitrary: j)
  case (Suc n)
  let ?j' = "count_run (clock (j_current_run j + 1)) j"
  have "main_loop cron killed clock n ?j' = None"
    by (rule Suc.IH) (use Suc.prems in \<open>simp_all add: count_run_keep\<close>)
  then have "map_option (runs_of \<circ> snd) (main_loop cron killed clock (Suc n) j) = None"
    using main_loop_turn [OF Suc.prems(1,2), of killed cron clock n] Suc.prems(4) by simp
  then show ?case by simp
qed (simp add: main_loop.simps)

text \<open>
  Claim C39. An interval-based job that nobody stops runs exactly as often as it should: with a
  limit of m runs its loop ends after the runs 1 to m, each of which spawns the callback
  once, and m + 1 turns are enough; without a limit it never ends.
\<close>

theorem job_runs_exactly_its_repeats:
  assumes j: "interval_job secs j" "j_keep_running j" "j_current_run j = 0"
    and alive: "\<forall>n. \<not> killed n"
  shows "case j_max_repeats j of
      Some m \<Rightarrow> m > 0 \<longrightarrow> fuel > nat m \<longrightarrow>
        map_option (runs_of \<circ> snd) (job_run cron killed clock fuel j) = Some [1..m]
    | None \<Rightarrow> job_run cron killed clock fuel j = None"
proof (cases "j_max_repeats j")
  case None
  from j(1) obtain start where "j_start_time j = Some start" by (auto simp: interval_job_def)
  with None main_loop_forever [OF j(1,2) None alive] show ?thesis by (simp add: job_run_def)
next
  case (Some m)
  from j(1) obtain start where start: "j_start_time j = Some start" by (auto simp: interval_job_def)
  have "map_option (runs_of \<circ> snd) (job_run cron killed clock fuel j) = Some [1..m]"
    if m: "m > 0" and fuel: "fuel > nat m"
  proof -
    define k where "k = nat m - 1"
    have mk: "m - j_current_run j = int (Suc k)" "fuel = Suc (Suc k) + (fuel - Suc (Suc k))"
      using m fuel j(3) by (simp_all add: k_def)
    have "0 \<le> j_current_run j" using j(3) by simp
    from main_loop_remaining [OF j(1,2) Some alive this mk(1), of cron
        "\<lambda>n. wait_for_start start (clock n)" "fuel - Suc (Suc k)"]
    have "map_option (runs_of \<circ> snd) (main_loop cron killed (\<lambda>n. wait_for_start start (clock n)) fuel j)
        = Some [j_current_run j + 1..m]"
      unfolding mk(2) [symmetric] .
    then show ?thesis using start j(3) by (simp add: job_run_def)
  qed
  with Some show ?thesis by simp
qed

definition demo_job :: "int option \<Rightarrow> job" where
  "demo_job max_repeats = (blank_job 1 ''stats'' IntervalBased (Every 60) (''svc'', None) max_repeats True None)
     \<lparr>j_start_time := Some 1000\<rparr>"

theorem job_runs_exactly_its_repeats_witness:
  "map_option (runs_of \<circ> snd) (job_run (\<lambda>_ _. 1) (\<lambda>_. False) (\<lambda>n. 940 + 60 * n) 5 (demo_job (Some 3))) = Some [1, 2, 3] \<and>
   job_run (\<lambda>_ _. 1) (\<lambda>_. False) (\<lambda>n. 940 + 60 * n) 50 (demo_job None) = None"
proof -
  have j: "interval_job 60 (demo_job r)" "j_keep_running (demo_job r)" "j_current_run (demo_job r) = 0"
    "j_max_repeats (demo_job r) = r" for r
    by (simp_all add: demo_job_def blank_job_def interval_job_def)
  have a: "\<forall>n. \<not> (\<lambda>_. False) (n::int)" by simp
  have "[1..3] = [1, 2, 3::int]" by code_simp
  with job_runs_exactly_its_repeats
      [OF j(1,2,3) a, of "\<lambda>_ _. 1" "\<lambda>n. 940 + 60 * n" 5 "Some 3", unfolded j(4)]
    job_runs_exactly_its_repeats
      [OF j(1,2,3) a, of "\<lambda>_ _. 1" "\<lambda>n. 940 + 60 * n" 50 None, unfolded j(4)]
  show ?thesis by simp
qed

section \<open>When a job starts\<close>

text \<open>The documented meaning of \<open>rrule(SECONDLY, interval, dtstart).before(now)\<close>: the last
  occurrence strictly before \<open>now\<close>, of unlimited or of \<open>count\<close> many ones.\<close>

definition rrule_last :: rrule_before where
  "rrule_last interval dtstart count now =
     (if dtstart < now \<and> 0 < interval \<and> count \<noteq> Some 0
      then let k = (now - 1 - dtstart) div interval in
           Some (dtstart + interval * (case count of None \<Rightarrow> k | Some c \<Rightarrow> min k (c - 1)))
      else None)"

definition rrule_ok :: "rrule_before \<Rightarrow> bool" where
  "rrule_ok rr \<longleftrightarrow> (\<forall>interval dtstart now. 0 < interval \<longrightarrow> dtstart < now \<longrightarrow>
     (\<exists>k \<ge> 0. rr interval dtstart None now = Some (dtstart + interval * k) \<and>
        dtstart + interval * k < now \<and> now \<le> dtstart + interval * (k + 1)))"

lemma rrule_last_ok: "rrule_ok rrule_last"
  unfolding rrule_ok_def
proof (intro allI impI)
  fix interval dtstart now :: int
  assume a: "0 < interval" "dtstart < now"
  let ?k = "(now - 1 - dtstart) div interval"
  let ?r = "(now - 1 - dtstart) mod interval"
  have "interval * ?k + ?r = now - 1 - dtstart" "0 \<le> ?r" "?r < interval"
    using a(1) by simp_all
  then have "interval * ?k \<le> now - 1 - dtstart" "now - 1 - dtstart < interval * (?k + 1)"
    unfolding distrib_left by linarith+
  then show "\<exists>k \<ge> 0. rrule_last interval dtstart None now = Some (dtstart + interval * k) \<and>
      dtstart + interval * k < now \<and> now \<le> dtstart + interval * (k + 1)"
    using a by (intro exI [of _ ?k]) (auto simp: rrule_last_def pos_imp_zdiv_nonneg_iff)
qed

text \<open>
  A restarted scheduler keeps the rhythm of an interval-based job without a limit:
  however long ago it first started, its next start is a whole number of intervals after the
  first one, not in the past, and at most one interval away; a first start in the future stays
  as it is.
\<close>

theorem next_start_keeps_rhythm:
  assumes rr: "rrule_ok rr" and job: "j_interval j = Every secs" "j_max_repeats j = None" "0 < secs"
  shows "\<exists>t. get_start_time rr now start j = Inr (j\<lparr>j_start_time := Some t\<rparr>) \<and> now \<le> t \<and>
    (if start > now then t = start else t \<le> now + secs \<and> (\<exists>k \<ge> 1. t = start + secs * k))"
proof -
  consider "start > now" | "start \<le> now" "start + secs > now" | "start \<le> now" "start + secs \<le> now" by linarith
  then show ?thesis
  proof cases
    case 1
    then show ?thesis using job by (simp add: get_start_time_def)
  next
    case 2
    then show ?thesis using job
      by (intro exI [of _ "start + secs"] conjI) (auto simp: get_start_time_def intro!: exI [of _ 1])
  next
    case 3
    then have "start < now" using job(3) by linarith
    with rr job obtain k where k: "k \<ge> 0" "rr secs start None now = Some (start + secs * k)"
      "start + secs * k < now" "now \<le> start + secs * (k + 1)"
      unfolding rrule_ok_def by metis
    have "get_start_time rr now start j = Inr (j\<lparr>j_start_time := Some (start + secs * (k + 1))\<rparr>)"
      using 3 job k by (simp add: get_start_time_def Let_def algebra_simps)
    moreover have "start + secs * (k + 1) \<le> now + secs" using k(3) by (simp add: algebra_simps)
    moreover have "\<exists>k' \<ge> 1. start + secs * (k + 1) = start + secs * k'"
      using k(1) by (intro exI [of _ "k + 1"]) simp
    ultimately show ?thesis using 3 k by (intro exI [of _ "start + secs * (k + 1)"]) simp
  qed
qed

theorem next_start_keeps_rhythm_witness:
  "\<exists>t. get_start_time rrule_last 5000 1000 (demo_job None) = Inr ((demo_job None)\<lparr>j_start_time := Some t\<rparr>) \<and>
     5000 \<le> t \<and> t \<le> 5060"
  using next_start_keeps_rhythm [OF rrule_last_ok, of "demo_job None" 60 5000 1000]
  by (auto simp: demo_job_def blank_job_def)

end
