(* ===== verification/Sched.thy ===== *)
theory Sched
  imports Sched_Job
begin

text \<open>
  The scheduler: the jobs it keeps and the greenlets it runs them in (the class Scheduler of
  zato-scheduler backend.py) and the broker messages that drive it (api.py). A job is an
  object: \<open>sc_heap\<close> holds every job object made so far, a reference is its index. The set
  of jobs is a list of references without two of equal names. A greenlet is a number;
  \<open>sc_live\<close> holds the running ones with their jobs, \<open>sc_greenlets\<close> the one known for
  each name. Operations hold the scheduler's lock, so they are atomic; a killed greenlet takes
  no further turn.
\<close>

section \<open>State\<close>

datatype sched_msg = Job_Executed job_context | Set_Inactive int

record sched =
  sc_heap :: "job list"
  sc_jobs :: "nat list"
  sc_greenlets :: "string \<rightharpoonup> nat"
  sc_live :: "(nat \<times> nat) list"
  sc_next :: nat
  sc_sent :: "sched_msg list"
  sc_ready :: bool

definition new_sched :: sched where
  "new_sched = \<lparr>sc_heap = [], sc_jobs = [], sc_greenlets = Map.empty, sc_live = [], sc_next = 0,
     sc_sent = [], sc_ready = False\<rparr>"

abbreviation job_at :: "sched \<Rightarrow> nat \<Rightarrow> job" where
  "job_at s r \<equiv> sc_heap s ! r"

definition alloc_job :: "job \<Rightarrow> sched \<Rightarrow> nat \<times> sched" where
  "alloc_job j s = (length (sc_heap s), s\<lparr>sc_heap := sc_heap s @ [j]\<rparr>)"

definition update_job :: "nat \<Rightarrow> (job \<Rightarrow> job) \<Rightarrow> sched \<Rightarrow> sched" where
  "update_job r f s = s\<lparr>sc_heap := (sc_heap s)[r := f (job_at s r)]\<rparr>"

text \<open>The job of a name, as the loops over the set find it.\<close>

definition job_named :: "string \<Rightarrow> sched \<Rightarrow> nat option" where
  "job_named name s = find (\<lambda>r. j_name (job_at s r) = name) (sc_jobs s)"

section \<open>Operations\<close>

text \<open>Spawning a greenlet is one step: the code waits for it to start, under the lock of the scheduler.\<close>

definition spawn_job :: "nat \<Rightarrow> sched \<Rightarrow> sched" where
  "spawn_job r s =
     (let s = update_job r (\<lambda>j. j\<lparr>j_has_callbacks := True\<rparr>) s; g = sc_next s in
      s\<lparr>sc_greenlets := (sc_greenlets s)(j_name (job_at s r) \<mapsto> g), sc_live := (g, r) # sc_live s,
        sc_next := Suc g\<rparr>)"

text \<open>A set keeps what it has when an equal element is added; jobs are equal when their names are.\<close>

definition add_to_jobs :: "nat \<Rightarrow> sched \<Rightarrow> sched" where
  "add_to_jobs r s =
     (if job_named (j_name (job_at s r)) s = None then s\<lparr>sc_jobs := sc_jobs s @ [r]\<rparr> else s)"

definition create_job :: "bool \<Rightarrow> nat \<Rightarrow> sched \<Rightarrow> sched" where
  "create_job spawn r s =
     (let s = add_to_jobs r s in
      if j_is_active (job_at s r) \<and> spawn then spawn_job r s else s)"

definition kill_greenlet :: "string \<Rightarrow> sched \<Rightarrow> sched" where
  "kill_greenlet name s =
     (case sc_greenlets s name of
        None \<Rightarrow> s
      | Some g \<Rightarrow> s\<lparr>sc_live := filter (\<lambda>(h, _). h \<noteq> g) (sc_live s),
          sc_greenlets := (sc_greenlets s)(name := None)\<rparr>)"

definition unschedule :: "nat \<Rightarrow> sched \<Rightarrow> sched" where
  "unschedule r s =
     (let name = j_name (job_at s r);
          s = update_job r (\<lambda>j. j\<lparr>j_keep_running := False\<rparr>) s;
          s = s\<lparr>sc_jobs := filter (\<lambda>q. j_name (job_at s q) \<noteq> name) (sc_jobs s)\<rparr> in
      kill_greenlet name s)"

definition edit_job :: "nat \<Rightarrow> sched \<Rightarrow> sched" where
  "edit_job r s =
     (let s = unschedule r s; (r', s) = alloc_job (clone_job (job_at s r)) s in create_job True r' s)"

definition unschedule_by_name :: "string \<Rightarrow> sched \<Rightarrow> sched" where
  "unschedule_by_name name s =
     (case job_named name s of None \<Rightarrow> s | Some r \<Rightarrow> unschedule r s)"

definition stop_one :: "nat \<Rightarrow> sched \<Rightarrow> sched" where
  "stop_one r s = (let (r', s) = alloc_job (clone_job (job_at s r)) s in unschedule r' s)"

definition stop_jobs :: "sched \<Rightarrow> sched" where
  "stop_jobs s = fold stop_one (sc_jobs s) s"

text \<open>
  \<open>on_job_executed\<close> of both classes: the broker is told to invoke the service, a one-time
  job is reported as inactive and, unless it was executed by hand, unscheduled.
\<close>

definition on_job_executed_cb :: "job_context \<Rightarrow> sched \<Rightarrow> sched" where
  "on_job_executed_cb ctx s = s\<lparr>sc_sent := sc_sent s @ Job_Executed ctx #
     (if cx_type ctx = OneTime then [Set_Inactive (cx_id ctx)] else [])\<rparr>"

definition on_job_executed :: "bool \<Rightarrow> job_context \<Rightarrow> sched \<Rightarrow> sched" where
  "on_job_executed unschedule_one_time ctx s =
     (let s = on_job_executed_cb ctx s in
      if cx_type ctx = OneTime \<and> unschedule_one_time then unschedule_by_name (cx_name ctx) s else s)"

text \<open>
  \<open>execute\<close>: the warning about an unknown name shows the context of every job, which
  raises for a job without a start time.
\<close>

definition execute_job :: "string \<Rightarrow> (sched, unit) py" where
  "execute_job name s =
     (case job_named name s of
        Some r \<Rightarrow>
          (case get_context (job_at s r) of
             Inl e \<Rightarrow> (Inl e, s)
           | Inr ctx \<Rightarrow> (Inr (), on_job_executed False ctx s))
      | None \<Rightarrow>
          (if \<exists>r \<in> set (sc_jobs s). isl (get_context (job_at s r)) then (Inl AttributeError, s)
           else (Inr (), s)))"

text \<open>
  A turn of a greenlet, the loop body of \<open>main_loop\<close>: it hands back the contexts of the
  callbacks it spawns, each of which calls \<open>on_job_executed\<close> later.
\<close>

definition end_greenlet :: "nat \<Rightarrow> sched \<Rightarrow> sched" where
  "end_greenlet g s = s\<lparr>sc_live := filter (\<lambda>(h, _). h \<noteq> g) (sc_live s)\<rparr>"

definition job_turn :: "cron_next \<Rightarrow> int \<Rightarrow> nat \<Rightarrow> sched \<Rightarrow> job_context list \<times> sched" where
  "job_turn cron now g s =
     (case map_of (sc_live s) g of
        None \<Rightarrow> ([], s)
      | Some r \<Rightarrow>
          if j_start_time (job_at s r) = None \<or> \<not> j_keep_running (job_at s r) then ([], end_greenlet g s)
          else
            let s = update_job r (count_run now) s; j = job_at s r in
            (spawned_by j,
             if j_type j = OneTime then end_greenlet g s
             else case get_sleep_time cron now j of Inl _ \<Rightarrow> end_greenlet g s | Inr _ \<Rightarrow> s))"

section \<open>Broker messages\<close>

text \<open>
  What the scheduler relies on: the two occurrence functions of \<open>Sched_Job\<close>, the parser of
  dates and the constructor of cron definitions, which both may raise.
\<close>

record sched_lib =
  sl_rrule :: rrule_before
  sl_cron :: cron_next
  sl_parse :: "string \<Rightarrow> exn + int"
  sl_crontab :: "string \<Rightarrow> exn + string"

datatype start_date = Date_Text string | Date_Time int

record job_data =
  jd_id :: int
  jd_name :: string
  jd_old_name :: "string option"
  jd_is_active :: bool
  jd_job_type :: job_type
  jd_start_date :: start_date
  jd_service :: string
  jd_extra :: "string option"
  jd_weeks :: "int option"
  jd_days :: "int option"
  jd_hours :: "int option"
  jd_minutes :: "int option"
  jd_seconds :: "int option"
  jd_repeats :: "int option"
  jd_cron_definition :: "string option"

definition start_date_of :: "sched_lib \<Rightarrow> job_data \<Rightarrow> exn + int" where
  "start_date_of lib d = (case jd_start_date d of Date_Text t \<Rightarrow> sl_parse lib t | Date_Time t \<Rightarrow> Inr t)"

definition or_zero :: "int option \<Rightarrow> int" where
  "or_zero v = (case v of None \<Rightarrow> 0 | Some i \<Rightarrow> i)"

definition interval_of ::
  "sched_lib \<Rightarrow> job_type \<Rightarrow> string option \<Rightarrow> int \<Rightarrow> int \<Rightarrow> int \<Rightarrow> int \<Rightarrow> exn + interval" where
  "interval_of lib typ cron_definition days hours minutes seconds =
     (if typ = CronStyle
      then (case cron_definition of
              None \<Rightarrow> Inl AttributeError
            | Some d \<Rightarrow> (case sl_crontab lib d of Inl e \<Rightarrow> Inl e | Inr c \<Rightarrow> Inr (CronTab c)))
      else Inr (new_interval days hours minutes seconds 0))"

text \<open>The job object made by \<open>create_edit_job\<close>.\<close>

definition create_edit_job ::
  "sched_lib \<Rightarrow> int \<Rightarrow> int \<Rightarrow> string \<Rightarrow> int \<Rightarrow> job_type \<Rightarrow> string \<Rightarrow> int option \<Rightarrow>
   int \<Rightarrow> int \<Rightarrow> int \<Rightarrow> int \<Rightarrow> string option \<Rightarrow> string option \<Rightarrow> exn + job" where
  "create_edit_job lib now i name start_time typ service max_repeats days hours minutes seconds extra cron_definition =
     (case interval_of lib typ cron_definition days hours minutes seconds of
        Inl e \<Rightarrow> Inl e
      | Inr interval \<Rightarrow>
          new_job (sl_rrule lib) (sl_cron lib) now i name typ interval (Some start_time) (service, extra)
            max_repeats cron_definition)"

definition create_edit_one_time :: "sched_lib \<Rightarrow> int \<Rightarrow> job_data \<Rightarrow> exn + job" where
  "create_edit_one_time lib now d =
     (case start_date_of lib d of
        Inl e \<Rightarrow> Inl e
      | Inr start \<Rightarrow>
          create_edit_job lib now (jd_id d) (jd_name d) start OneTime (jd_service d) (Some 1) 0 0 0 0 (jd_extra d) None)"

definition create_edit_interval_based :: "sched_lib \<Rightarrow> int \<Rightarrow> job_data \<Rightarrow> exn + job" where
  "create_edit_interval_based lib now d =
     (case start_date_of lib d of
        Inl e \<Rightarrow> Inl e
      | Inr start \<Rightarrow>
          create_edit_job lib now (jd_id d) (jd_name d) start IntervalBased (jd_service d)
            (case jd_repeats d of Some m \<Rightarrow> if m \<noteq> 0 then Some m else None | None \<Rightarrow> None)
            (or_zero (jd_days d) + or_zero (jd_weeks d) * 7) (or_zero (jd_hours d)) (or_zero (jd_minutes d))
            (or_zero (jd_seconds d)) (jd_extra d) None)"

definition create_edit_cron_style :: "sched_lib \<Rightarrow> int \<Rightarrow> job_data \<Rightarrow> exn + job" where
  "create_edit_cron_style lib now d =
     (case start_date_of lib d of
        Inl e \<Rightarrow> Inl e
      | Inr start \<Rightarrow>
          create_edit_job lib now (jd_id d) (jd_name d) start CronStyle (jd_service d) None 0 0 0 0 (jd_extra d)
            (jd_cron_definition d))"

definition job_of :: "sched_lib \<Rightarrow> int \<Rightarrow> job_data \<Rightarrow> exn + job" where
  "job_of lib now d =
     (case jd_job_type d of
        OneTime \<Rightarrow> create_edit_one_time lib now d
      | IntervalBased \<Rightarrow> create_edit_interval_based lib now d
      | CronStyle \<Rightarrow> create_edit_cron_style lib now d)"

text \<open>\<open>create_edit\<close>: inactive jobs are skipped, an exception of a handler is logged.\<close>

definition create_edit :: "sched_lib \<Rightarrow> int \<Rightarrow> bool \<Rightarrow> bool \<Rightarrow> job_data \<Rightarrow> sched \<Rightarrow> sched" where
  "create_edit lib now is_create spawn d s =
     (if \<not> jd_is_active d then s
      else (case job_of lib now d of
              Inl _ \<Rightarrow> s
            | Inr j \<Rightarrow>
                let (r, s) = alloc_job j s in
                if is_create then create_job spawn r s else edit_job r s))"

definition delete_job :: "job_data \<Rightarrow> sched \<Rightarrow> sched" where
  "delete_job d s =
     unschedule_by_name (case jd_old_name d of Some old \<Rightarrow> if old \<noteq> [] then old else jd_name d | None \<Rightarrow> jd_name d) s"

section \<open>Start-up and events\<close>

definition add_scheduler_jobs :: "sched_lib \<Rightarrow> int \<Rightarrow> job_data list \<Rightarrow> sched \<Rightarrow> sched" where
  "add_scheduler_jobs lib now job_list s =
     fold (\<lambda>d s. if jd_is_active d then create_edit lib now True False d s else s) job_list s"

definition start_job :: "nat \<Rightarrow> sched \<Rightarrow> sched" where
  "start_job r s = (if j_max_repeats_reached (job_at s r) then s else spawn_job r s)"

definition sched_run :: "sched_lib \<Rightarrow> int \<Rightarrow> job_data list \<Rightarrow> sched \<Rightarrow> sched" where
  "sched_run lib now job_list s =
     (let s = add_scheduler_jobs lib now job_list s in
      (fold start_job (sc_jobs s) s)\<lparr>sc_ready := True\<rparr>)"

text \<open>
  What happens to a running scheduler: the five broker messages, a turn of a greenlet, and
  the callback that such a turn has spawned.
\<close>

datatype sched_event =
    SCHEDULER_CREATE int job_data
  | SCHEDULER_EDIT int job_data
  | SCHEDULER_DELETE job_data
  | SCHEDULER_EXECUTE job_data
  | SCHEDULER_CLOSE
  | Greenlet_Turn int nat
  | Job_Callback job_context

fun sched_step :: "sched_lib \<Rightarrow> sched_event \<Rightarrow> (sched, job_context list) py" where
  "sched_step lib (SCHEDULER_CREATE now d) s = (Inr [], create_edit lib now True True d s)"
| "sched_step lib (SCHEDULER_EDIT now d) s = (Inr [], create_edit lib now False True d s)"
| "sched_step lib (SCHEDULER_DELETE d) s = (Inr [], delete_job d s)"
| "sched_step lib (SCHEDULER_EXECUTE d) s = py_seq (execute_job (jd_name d)) (py_ret []) s"
| "sched_step lib SCHEDULER_CLOSE s = (Inr [], stop_jobs s)"
| "sched_step lib (Greenlet_Turn now g) s = (case job_turn (sl_cron lib) now g s of (ctxs, t) \<Rightarrow> (Inr ctxs, t))"
| "sched_step lib (Job_Callback ctx) s = (Inr [], on_job_executed True ctx s)"

end
