(* ===== verification/Sched_Facts.thy ===== *)
theory Sched_Facts
  imports Sched
begin

text \<open>
  What the scheduler promises: its jobs are a table from names to configurations, and every job
  that should run has one greenlet, its own. Both are interfaces of the prelude, interpreted on
  the scheduler's steps.
\<close>

section \<open>The operations on the store of jobs\<close>

lemma update_job_sel [simp]:
  "sc_jobs (update_job r f s) = sc_jobs s" "sc_greenlets (update_job r f s) = sc_greenlets s"
  "sc_live (update_job r f s) = sc_live s" "sc_next (update_job r f s) = sc_next s"
  "length (sc_heap (update_job r f s)) = length (sc_heap s)"
  by (simp_all add: update_job_def)

lemma job_at_update [simp]:
  "job_at (update_job r f s) q = (if q = r \<and> r < length (sc_heap s) then f (job_at s r) else job_at s q)"
  by (simp add: update_job_def nth_list_update)
    (metis linorder_not_less list_update_beyond nth_list_update_neq)

lemma job_named_None: "job_named n s = None \<longleftrightarrow> (\<forall>r \<in> set (sc_jobs s). j_name (job_at s r) \<noteq> n)"
  by (auto simp: job_named_def find_None_iff)

lemma job_named_SomeD: "job_named n s = Some r \<Longrightarrow> r \<in> set (sc_jobs s) \<and> j_name (job_at s r) = n"
  by (auto simp: job_named_def find_Some_iff)

definition sched_wf :: "sched \<Rightarrow> bool" where
  "sched_wf s \<longleftrightarrow> (\<forall>r \<in> set (sc_jobs s). r < length (sc_heap s)) \<and>
     distinct (map (\<lambda>r. j_name (job_at s r)) (sc_jobs s))"

lemma job_named_Some:
  assumes "sched_wf s" "r \<in> set (sc_jobs s)"
  shows "job_named (j_name (job_at s r)) s = Some r"
proof -
  obtain q where q: "job_named (j_name (job_at s r)) s = Some q"
    using assms(2) job_named_None [of "j_name (job_at s r)" s] by fastforce
  moreover have "inj_on (\<lambda>r. j_name (job_at s r)) (set (sc_jobs s))"
    using assms(1) by (simp add: sched_wf_def distinct_map)
  ultimately have "q = r"
    using job_named_SomeD [OF q] assms(2) by (meson inj_onD)
  with q show ?thesis by simp
qed

lemma job_named_cong:
  assumes "sc_jobs t = sc_jobs s" "\<And>r. r \<in> set (sc_jobs s) \<Longrightarrow> j_name (job_at t r) = j_name (job_at s r)"
  shows "job_named n t = job_named n s"
  unfolding job_named_def assms(1) by (rule find_cong) (simp_all add: assms(2))

text \<open>\<open>unschedule\<close> marks its argument and forgets the name.\<close>

definition forget_name :: "string \<Rightarrow> sched \<Rightarrow> sched" where
  "forget_name n s = kill_greenlet n (s\<lparr>sc_jobs := filter (\<lambda>q. j_name (job_at s q) \<noteq> n) (sc_jobs s)\<rparr>)"

lemma unschedule_eq:
  "unschedule r s = forget_name (j_name (job_at s r)) (update_job r (\<lambda>j. j\<lparr>j_keep_running := False\<rparr>) s)"
  by (simp add: unschedule_def forget_name_def Let_def)

lemma kill_greenlet_sel [simp]:
  "sc_jobs (kill_greenlet n s) = sc_jobs s" "sc_heap (kill_greenlet n s) = sc_heap s"
  "sc_next (kill_greenlet n s) = sc_next s"
  by (simp_all add: kill_greenlet_def split: option.split)

lemma forget_name_sel [simp]:
  "sc_jobs (forget_name n s) = filter (\<lambda>q. j_name (job_at s q) \<noteq> n) (sc_jobs s)"
  "sc_heap (forget_name n s) = sc_heap s" "sc_next (forget_name n s) = sc_next s"
  by (simp_all add: forget_name_def)

lemma forget_name_greenlets:
  "sc_greenlets (forget_name n s) = (sc_greenlets s)(n := None)"
  "set (sc_live (forget_name n s)) = {(g, r) \<in> set (sc_live s). sc_greenlets s n \<noteq> Some g}"
  by (auto simp: forget_name_def kill_greenlet_def fun_eq_iff split: option.split)

lemma alloc_job_sel [simp]:
  "sc_jobs (snd (alloc_job j s)) = sc_jobs s" "sc_greenlets (snd (alloc_job j s)) = sc_greenlets s"
  "sc_live (snd (alloc_job j s)) = sc_live s" "sc_next (snd (alloc_job j s)) = sc_next s"
  "fst (alloc_job j s) = length (sc_heap s)" "length (sc_heap (snd (alloc_job j s))) = Suc (length (sc_heap s))"
  "job_at (snd (alloc_job j s)) (length (sc_heap s)) = j"
  "r < length (sc_heap s) \<Longrightarrow> job_at (snd (alloc_job j s)) r = job_at s r"
  by (simp_all add: alloc_job_def nth_append)

lemma spawn_job_sel [simp]:
  "sc_jobs (spawn_job r s) = sc_jobs s" "length (sc_heap (spawn_job r s)) = length (sc_heap s)"
  "sc_live (spawn_job r s) = (sc_next s, r) # sc_live s" "sc_next (spawn_job r s) = Suc (sc_next s)"
  by (simp_all add: spawn_job_def Let_def)

lemma job_at_spawn [simp]:
  "job_at (spawn_job r s) q =
     (if q = r \<and> r < length (sc_heap s) then (job_at s r)\<lparr>j_has_callbacks := True\<rparr> else job_at s q)"
  by (simp add: spawn_job_def Let_def job_at_update)

lemma spawn_greenlets [simp]:
  "sc_greenlets (spawn_job r s) = (sc_greenlets s)(j_name (job_at s r) \<mapsto> sc_next s)"
  by (simp add: spawn_job_def Let_def)

lemma add_to_jobs_sel [simp]:
  "sc_heap (add_to_jobs r s) = sc_heap s" "sc_greenlets (add_to_jobs r s) = sc_greenlets s"
  "sc_live (add_to_jobs r s) = sc_live s" "sc_next (add_to_jobs r s) = sc_next s"
  by (simp_all add: add_to_jobs_def)

lemma count_run_config [simp]:
  "j_name (count_run now j) = j_name j" "j_id (count_run now j) = j_id j"
  "j_cb_kwargs (count_run now j) = j_cb_kwargs j" "j_cron_definition (count_run now j) = j_cron_definition j"
  by (simp_all add: count_run_def Let_def split: option.split)

lemma clone_job_sel [simp]:
  "j_name (clone_job j) = j_name j" "j_id (clone_job j) = j_id j" "j_type (clone_job j) = j_type j"
  "j_interval (clone_job j) = j_interval j" "j_start_time (clone_job j) = j_start_time j"
  "j_cb_kwargs (clone_job j) = j_cb_kwargs j" "j_max_repeats (clone_job j) = j_max_repeats j"
  "j_is_active (clone_job j) = j_is_active j" "j_cron_definition (clone_job j) = j_cron_definition j"
  by (simp_all add: clone_job_def blank_job_def)

text \<open>The job a message describes.\<close>

lemma new_job_config:
  "new_job rr cron now i name typ interval start kwargs m cd = Inr j \<Longrightarrow>
     j_name j = name \<and> j_is_active j \<and> j_current_run j = 0 \<and> (j_max_repeats_reached j \<longrightarrow> \<not> j_keep_running j)"
  by (auto simp: new_job_def get_start_time_def blank_job_def out_of_runs_def Let_def
      split: if_splits sum.splits option.splits interval.splits)

lemma job_of_config:
  "job_of lib now d = Inr j \<Longrightarrow>
     j_name j = jd_name d \<and> j_is_active j \<and> j_current_run j = 0 \<and> (j_max_repeats_reached j \<longrightarrow> \<not> j_keep_running j)"
  by (auto simp: job_of_def create_edit_one_time_def create_edit_interval_based_def
      create_edit_cron_style_def create_edit_job_def split: job_type.splits sum.splits dest!: new_job_config)

section \<open>The table of jobs\<close>

text \<open>What a job is configured to do, and the table of all jobs by name.\<close>

record job_config =
  jc_id :: int
  jc_type :: job_type
  jc_interval :: interval
  jc_start_time :: "int option"
  jc_cb_kwargs :: "string \<times> string option"
  jc_max_repeats :: "int option"
  jc_cron_definition :: "string option"

definition config_of :: "job \<Rightarrow> job_config" where
  "config_of j = \<lparr>jc_id = j_id j, jc_type = j_type j, jc_interval = j_interval j,
     jc_start_time = j_start_time j, jc_cb_kwargs = j_cb_kwargs j, jc_max_repeats = j_max_repeats j,
     jc_cron_definition = j_cron_definition j\<rparr>"

definition job_table :: "sched \<Rightarrow> string \<rightharpoonup> job_config" where
  "job_table s n = map_option (\<lambda>r. config_of (job_at s r)) (job_named n s)"

lemma config_of_update [simp]:
  "config_of (j\<lparr>j_keep_running := b\<rparr>) = config_of j" "config_of (j\<lparr>j_has_callbacks := b\<rparr>) = config_of j"
  "config_of (count_run now j) = config_of j" "config_of (clone_job j) = config_of j"
  by (simp_all add: config_of_def)

lemma sched_wf_cong:
  assumes "sc_jobs t = sc_jobs s" "length (sc_heap s) \<le> length (sc_heap t)"
    and "\<And>r. r \<in> set (sc_jobs s) \<Longrightarrow> j_name (job_at t r) = j_name (job_at s r)" "sched_wf s"
  shows "sched_wf t"
proof -
  have "map (\<lambda>r. j_name (job_at t r)) (sc_jobs s) = map (\<lambda>r. j_name (job_at s r)) (sc_jobs s)"
    using assms(3) by simp
  then show ?thesis using assms(1,2,4) unfolding sched_wf_def by (metis order_less_le_trans)
qed

lemma job_table_cong:
  assumes "sc_jobs t = sc_jobs s"
    and "\<And>r. r \<in> set (sc_jobs s) \<Longrightarrow> j_name (job_at t r) = j_name (job_at s r)"
    and "\<And>r. r \<in> set (sc_jobs s) \<Longrightarrow> config_of (job_at t r) = config_of (job_at s r)"
  shows "job_table t = job_table s"
  using job_named_cong [OF assms(1,2)] assms(3) job_named_SomeD [of _ s]
  by (fastforce simp: job_table_def fun_eq_iff intro: option.map_cong)

lemma update_job_table:
  assumes "\<And>j. j_name (f j) = j_name j" "\<And>j. config_of (f j) = config_of j"
  shows "job_table (update_job r f s) = job_table s" "sched_wf s \<Longrightarrow> sched_wf (update_job r f s)"
  by (rule job_table_cong, simp_all add: assms) (rule sched_wf_cong [of _ s], simp_all add: assms)

lemma alloc_job_table:
  assumes "sched_wf s"
  shows "job_table (snd (alloc_job j s)) = job_table s" "sched_wf (snd (alloc_job j s))"
proof -
  have "job_at (snd (alloc_job j s)) r = job_at s r" if "r \<in> set (sc_jobs s)" for r
    using assms that by (simp add: sched_wf_def)
  then show "job_table (snd (alloc_job j s)) = job_table s" "sched_wf (snd (alloc_job j s))"
    using assms by (auto intro!: job_table_cong intro: sched_wf_cong [of _ s])
qed

lemma spawn_job_table:
  "job_table (spawn_job r s) = job_table s" "sched_wf s \<Longrightarrow> sched_wf (spawn_job r s)"
  by (auto intro!: job_table_cong intro: sched_wf_cong [of _ s])

lemma job_table_Some:
  "sched_wf s \<Longrightarrow> r \<in> set (sc_jobs s) \<Longrightarrow> job_table s (j_name (job_at s r)) = Some (config_of (job_at s r))"
  by (simp add: job_table_def job_named_Some)

lemma job_table_None: "job_table s n = None \<longleftrightarrow> job_named n s = None"
  by (simp add: job_table_def)

lemma job_table_eqI:
  assumes "sched_wf s" "\<And>r. r \<in> set (sc_jobs s) \<Longrightarrow> t (j_name (job_at s r)) = Some (config_of (job_at s r))"
    and "\<And>n. n \<notin> (\<lambda>r. j_name (job_at s r)) ` set (sc_jobs s) \<Longrightarrow> t n = None"
  shows "job_table s = t"
proof
  fix n
  show "job_table s n = t n"
  proof (cases "job_named n s")
    case None
    then have "n \<notin> (\<lambda>r. j_name (job_at s r)) ` set (sc_jobs s)" by (auto simp: job_named_None)
    with None assms(3) show ?thesis by (simp add: job_table_def)
  next
    case (Some r)
    with job_named_SomeD [OF Some] assms(2) [of r] show ?thesis by (auto simp: job_table_def)
  qed
qed

lemma add_to_jobs_wf:
  "sched_wf s \<Longrightarrow> r < length (sc_heap s) \<Longrightarrow> sched_wf (add_to_jobs r s)"
  by (auto simp: add_to_jobs_def sched_wf_def job_named_None image_iff)

lemma add_to_jobs_table:
  assumes "sched_wf s" "r < length (sc_heap s)"
  shows "job_table (add_to_jobs r s) = (let n = j_name (job_at s r) in
    if job_table s n = None then (job_table s)(n \<mapsto> config_of (job_at s r)) else job_table s)"
proof (cases "job_named (j_name (job_at s r)) s")
  case None
  show ?thesis
    by (rule job_table_eqI [OF add_to_jobs_wf [OF assms]])
      (use None assms(1) in \<open>auto simp: add_to_jobs_def Let_def job_table_None job_table_Some job_named_None image_iff\<close>)
qed (auto simp: add_to_jobs_def Let_def job_table_None)

lemma forget_name_wf: "sched_wf s \<Longrightarrow> sched_wf (forget_name n s)"
  by (auto simp: sched_wf_def distinct_map inj_on_def)

lemma forget_name_table:
  assumes "sched_wf s"
  shows "job_table (forget_name n s) = (job_table s)(n := None)"
  by (rule job_table_eqI [OF forget_name_wf [OF assms]])
    (use assms in \<open>auto simp: job_table_Some job_table_None job_named_None image_iff\<close>)

lemma unschedule_table:
  assumes "sched_wf s"
  shows "sched_wf (unschedule r s)" "job_table (unschedule r s) = (job_table s)(j_name (job_at s r) := None)"
  using assms by (simp_all add: unschedule_eq update_job_table forget_name_wf forget_name_table)

lemma create_job_table:
  assumes "sched_wf s" "r < length (sc_heap s)"
  shows "sched_wf (create_job spawn r s)" "job_table (create_job spawn r s) = job_table (add_to_jobs r s)"
  using assms by (simp_all add: create_job_def Let_def spawn_job_table add_to_jobs_wf)

lemma unschedule_by_name_table:
  assumes "sched_wf s"
  shows "sched_wf (unschedule_by_name n s)" "job_table (unschedule_by_name n s) = (job_table s)(n := None)"
  using assms unschedule_table [OF assms] job_named_SomeD [of n s]
  by (auto simp: unschedule_by_name_def fun_upd_idem job_table_None split: option.split)

lemma unschedule_sel [simp]:
  "length (sc_heap (unschedule r s)) = length (sc_heap s)"
  "job_at (unschedule r s) q = (if q = r \<and> r < length (sc_heap s) then (job_at s r)\<lparr>j_keep_running := False\<rparr> else job_at s q)"
  by (simp_all add: unschedule_eq)

lemma alloc_job_fst: "alloc_job j s = (length (sc_heap s), snd (alloc_job j s))"
  by (simp add: prod_eq_iff)

lemma edit_job_table:
  assumes "sched_wf s" "r < length (sc_heap s)"
  shows "sched_wf (edit_job r s)"
    "job_table (edit_job r s) = (job_table s)(j_name (job_at s r) \<mapsto> config_of (job_at s r))"
proof -
  let ?u = "unschedule r s"
  let ?t = "snd (alloc_job (clone_job (job_at ?u r)) ?u)"
  have eq: "edit_job r s = create_job True (length (sc_heap s)) ?t"
    unfolding edit_job_def Let_def by (subst alloc_job_fst) simp
  note u = unschedule_table [OF assms(1), of r]
  note t = alloc_job_table [OF u(1), of "clone_job (job_at ?u r)"]
  have at: "job_at ?t (length (sc_heap s)) = clone_job (job_at ?u r)"
    using alloc_job_sel(7) [of "clone_job (job_at ?u r)" ?u] by simp
  have len: "length (sc_heap s) < length (sc_heap ?t)" by simp
  show "sched_wf (edit_job r s)" unfolding eq by (rule create_job_table(1) [OF t(2) len])
  show "job_table (edit_job r s) = (job_table s)(j_name (job_at s r) \<mapsto> config_of (job_at s r))"
    unfolding eq create_job_table(2) [OF t(2) len] add_to_jobs_table [OF t(2) len] at t(1) u(2)
    using assms(2) by (simp add: Let_def)
qed

lemma stop_one_table:
  assumes "sched_wf s"
  shows "sched_wf (stop_one r s)" "job_table (stop_one r s) = (job_table s)(j_name (job_at s r) := None)"
    "q < length (sc_heap s) \<Longrightarrow> job_at (stop_one r s) q = job_at s q" "length (sc_heap s) \<le> length (sc_heap (stop_one r s))"
proof -
  let ?t = "snd (alloc_job (clone_job (job_at s r)) s)"
  have eq: "stop_one r s = unschedule (length (sc_heap s)) ?t"
    unfolding stop_one_def Let_def by (subst alloc_job_fst) simp
  note t = alloc_job_table [OF assms, of "clone_job (job_at s r)"]
  show "sched_wf (stop_one r s)" "job_table (stop_one r s) = (job_table s)(j_name (job_at s r) := None)"
    unfolding eq using unschedule_table [OF t(2)] t(1) by simp_all
  show "q < length (sc_heap s) \<Longrightarrow> job_at (stop_one r s) q = job_at s q"
    "length (sc_heap s) \<le> length (sc_heap (stop_one r s))"
    unfolding eq by simp_all
qed

lemma fold_stop_table:
  assumes "sched_wf s" "\<forall>r \<in> set rs. r < length (sc_heap s)"
  shows "sched_wf (fold stop_one rs s) \<and>
    job_table (fold stop_one rs s) = (\<lambda>n. if \<exists>r \<in> set rs. j_name (job_at s r) = n then None else job_table s n)"
  using assms
proof (induction rs arbitrary: s)
  case (Cons r rs)
  note s = stop_one_table [OF Cons.prems(1), where r = r]
  have "\<forall>q \<in> set rs. q < length (sc_heap (stop_one r s)) \<and> job_at (stop_one r s) q = job_at s q"
    using Cons.prems(2) s(3,4) by (auto intro: order_less_le_trans)
  with Cons.IH [OF s(1)] s(2) show ?case by (auto simp: fun_eq_iff)
qed simp

lemma stop_jobs_table:
  assumes "sched_wf s"
  shows "sched_wf (stop_jobs s)" "job_table (stop_jobs s) = Map.empty"
proof -
  have "\<forall>r \<in> set (sc_jobs s). r < length (sc_heap s)" using assms by (simp add: sched_wf_def)
  note st = fold_stop_table [OF assms this]
  then show "sched_wf (stop_jobs s)" by (simp add: stop_jobs_def)
  show "job_table (stop_jobs s) = Map.empty"
  proof
    fix n
    show "job_table (stop_jobs s) n = None"
      using st job_named_None [of n s] by (auto simp: stop_jobs_def job_table_None)
  qed
qed

lemma job_turn_table:
  assumes "sched_wf s"
  shows "sched_wf (snd (job_turn cron now g s))" "job_table (snd (job_turn cron now g s)) = job_table s"
proof -
  have e: "job_table (end_greenlet g t) = job_table t" "sched_wf (end_greenlet g t) = sched_wf t" for t
    by (simp_all add: end_greenlet_def job_table_def job_named_def sched_wf_def fun_eq_iff)
  show "sched_wf (snd (job_turn cron now g s))" "job_table (snd (job_turn cron now g s)) = job_table s"
    using assms by (auto simp: job_turn_def Let_def e update_job_table split: option.split sum.split)
qed

lemma on_job_executed_table:
  assumes "sched_wf s"
  shows "sched_wf (on_job_executed u ctx s)"
    "job_table (on_job_executed u ctx s) = (if cx_type ctx = OneTime \<and> u then (job_table s)(cx_name ctx := None) else job_table s)"
proof -
  let ?t = "on_job_executed_cb ctx s"
  have e: "job_table ?t = job_table s" "sched_wf ?t"
    using assms by (simp_all add: on_job_executed_cb_def job_table_def job_named_def sched_wf_def fun_eq_iff)
  show "sched_wf (on_job_executed u ctx s)"
    "job_table (on_job_executed u ctx s) = (if cx_type ctx = OneTime \<and> u then (job_table s)(cx_name ctx := None) else job_table s)"
    using unschedule_by_name_table [OF e(2), of "cx_name ctx"] e by (simp_all add: on_job_executed_def Let_def)
qed

lemma create_edit_table:
  assumes "sched_wf s"
  shows "sched_wf (create_edit lib now is_create spawn d s)"
    "job_table (create_edit lib now is_create spawn d s) =
       (case job_of lib now d of
          Inr j \<Rightarrow> if jd_is_active d \<and> (is_create \<longrightarrow> job_table s (jd_name d) = None)
             then (job_table s)(jd_name d \<mapsto> config_of j) else job_table s
        | Inl _ \<Rightarrow> job_table s)"
proof -
  have "sched_wf (create_edit lib now is_create spawn d s) \<and>
      job_table (create_edit lib now is_create spawn d s) = (if is_create \<longrightarrow> job_table s (jd_name d) = None
        then (job_table s)(jd_name d \<mapsto> config_of j) else job_table s)"
    if act: "jd_is_active d" and j: "job_of lib now d = Inr j" for j
  proof -
    let ?t = "snd (alloc_job j s)"
    have eq: "create_edit lib now is_create spawn d s =
        (if is_create then create_job spawn else edit_job) (length (sc_heap s)) ?t"
      unfolding create_edit_def using act j by (subst alloc_job_fst) simp
    note t = alloc_job_table [OF assms, of j]
    have len: "length (sc_heap s) < length (sc_heap ?t)" and n: "j_name j = jd_name d"
      using job_of_config [OF j] by simp_all
    show ?thesis
      unfolding eq using create_job_table [OF t(2) len] edit_job_table [OF t(2) len]
      by (simp add: add_to_jobs_table [OF t(2) len] t(1) n Let_def)
  qed
  then show "sched_wf (create_edit lib now is_create spawn d s)"
    "job_table (create_edit lib now is_create spawn d s) =
       (case job_of lib now d of
          Inr j \<Rightarrow> if jd_is_active d \<and> (is_create \<longrightarrow> job_table s (jd_name d) = None)
             then (job_table s)(jd_name d \<mapsto> config_of j) else job_table s
        | Inl _ \<Rightarrow> job_table s)"
    using assms by (cases "jd_is_active d"; cases "job_of lib now d"; simp add: create_edit_def)+
qed

lemma execute_job_state:
  "snd (execute_job n s) = s \<or> (\<exists>ctx. snd (execute_job n s) = on_job_executed False ctx s)"
  by (auto simp: execute_job_def split: option.split sum.split)

text \<open>What each event does to the table.\<close>

fun table_step :: "sched_lib \<Rightarrow> sched_event \<Rightarrow> (string \<rightharpoonup> job_config) \<Rightarrow> string \<rightharpoonup> job_config" where
  "table_step lib (SCHEDULER_CREATE now d) t =
     (case job_of lib now d of
        Inr j \<Rightarrow> if jd_is_active d \<and> t (jd_name d) = None then t(jd_name d \<mapsto> config_of j) else t
      | Inl _ \<Rightarrow> t)"
| "table_step lib (SCHEDULER_EDIT now d) t =
     (case job_of lib now d of
        Inr j \<Rightarrow> if jd_is_active d then t(jd_name d \<mapsto> config_of j) else t
      | Inl _ \<Rightarrow> t)"
| "table_step lib (SCHEDULER_DELETE d) t =
     t((case jd_old_name d of Some old \<Rightarrow> if old \<noteq> [] then old else jd_name d | None \<Rightarrow> jd_name d) := None)"
| "table_step lib (SCHEDULER_EXECUTE d) t = t"
| "table_step lib SCHEDULER_CLOSE t = Map.empty"
| "table_step lib (Greenlet_Turn now g) t = t"
| "table_step lib (Job_Callback ctx) t = (if cx_type ctx = OneTime then t(cx_name ctx := None) else t)"

lemma snd_py_seq_ret: "snd (py_seq m (py_ret x) s) = snd (m s)"
  by (simp add: py_run split: prod.split sum.split)

lemma sched_step_table:
  assumes "sched_wf s"
  shows "sched_wf (snd (sched_step lib e s))"
    and "job_table (snd (sched_step lib e s)) = table_step lib e (job_table s)"
proof -
  have "sched_wf (snd (sched_step lib e s)) \<and> job_table (snd (sched_step lib e s)) = table_step lib e (job_table s)"
  proof (cases e)
    case (SCHEDULER_EXECUTE d)
    with execute_job_state [of "jd_name d" s] on_job_executed_table [OF assms, of False] assms
    show ?thesis by (auto simp: snd_py_seq_ret)
  next
    case (Greenlet_Turn now g)
    with job_turn_table [OF assms, of "sl_cron lib" now g] show ?thesis
      by (cases "job_turn (sl_cron lib) now g s") simp
  qed (simp_all add: create_edit_table [OF assms] delete_job_def unschedule_by_name_table [OF assms]
      stop_jobs_table [OF assms] on_job_executed_table [OF assms] split: sum.split)
  then show "sched_wf (snd (sched_step lib e s))"
    and "job_table (snd (sched_step lib e s)) = table_step lib e (job_table s)" by blast+
qed

interpretation job_tables: py_refinement "sched_step lib" sched_wf job_table "table_step lib" for lib
  by unfold_locales (simp_all add: sched_step_table)

lemma start_up_table:
  assumes "sched_wf s"
  shows "sched_wf (sched_run lib now l s)"
    "job_table (sched_run lib now l s) = fold (table_step lib) (map (SCHEDULER_CREATE now) l) (job_table s)"
proof -
  have add: "sched_wf (add_scheduler_jobs lib now l s) \<and>
      job_table (add_scheduler_jobs lib now l s) = fold (table_step lib) (map (SCHEDULER_CREATE now) l) (job_table s)"
    using assms
  proof (induction l arbitrary: s)
    case (Cons d l)
    note c = create_edit_table [OF Cons.prems, of lib now True False d]
    show ?case
    proof (cases "jd_is_active d")
      case True
      with Cons.IH [OF c(1)] show ?thesis
        by (cases "job_of lib now d") (simp_all add: add_scheduler_jobs_def c(2))
    next
      case False
      with Cons show ?thesis by (simp add: add_scheduler_jobs_def split: sum.split)
    qed
  qed (simp add: add_scheduler_jobs_def)
  have start: "sched_wf t \<Longrightarrow> sched_wf (fold start_job rs t) \<and> job_table (fold start_job rs t) = job_table t" for rs t
    by (induction rs arbitrary: t) (simp_all add: start_job_def spawn_job_table)
  have ready: "sched_wf (t\<lparr>sc_ready := b\<rparr>) = sched_wf t" "job_table (t\<lparr>sc_ready := b\<rparr>) = job_table t" for t b
    by (simp_all add: sched_wf_def job_table_def job_named_def fun_eq_iff)
  show "sched_wf (sched_run lib now l s)"
    "job_table (sched_run lib now l s) = fold (table_step lib) (map (SCHEDULER_CREATE now) l) (job_table s)"
    using add start [of "add_scheduler_jobs lib now l s"] by (simp_all add: sched_run_def Let_def ready)
qed

text \<open>
  Claim C33. From its start-up on, whatever broker messages, turns of greenlets and callbacks come
  in whatever order, the scheduler's jobs are those of a table from names to configurations:
  the stored jobs and each create add a job unless the name is taken, an edit replaces it, a
  delete and the callback of a one-time job remove it, closing empties it, and nothing else
  changes it.
\<close>

theorem scheduler_refines_table:
  "job_table (fold (\<lambda>e s. snd (sched_step lib e s)) es (sched_run lib now stored new_sched))
     = fold (table_step lib) (map (SCHEDULER_CREATE now) stored @ es) Map.empty"
proof -
  have "sched_wf new_sched" "job_table new_sched = Map.empty"
    by (simp_all add: new_sched_def sched_wf_def job_table_def job_named_def fun_eq_iff)
  with start_up_table [of new_sched lib now stored] show ?thesis
    by (simp add: job_tables.run_refines)
qed

section \<open>The greenlets\<close>

text \<open>A job that has to run: neither stopped nor out of runs, with a start time, and, when it is a
  one-time job, not yet run.\<close>

definition due :: "job \<Rightarrow> bool" where
  "due j \<longleftrightarrow> j_keep_running j \<and> j_start_time j \<noteq> None \<and>
     (case (j_type j, j_interval j) of
        (OneTime, _) \<Rightarrow> j_current_run j = 0
      | (IntervalBased, Every _) \<Rightarrow> True
      | (CronStyle, CronTab _) \<Rightarrow> True
      | _ \<Rightarrow> False)"

definition greenlets_ok :: "sched \<Rightarrow> bool" where
  "greenlets_ok s \<longleftrightarrow> sched_wf s \<and>
     (\<forall>r \<in> set (sc_jobs s). 0 \<le> j_current_run (job_at s r)) \<and>
     (\<forall>(g, r) \<in> set (sc_live s). r \<in> set (sc_jobs s) \<and> sc_greenlets s (j_name (job_at s r)) = Some g) \<and>
     (\<forall>a b g. sc_greenlets s a = Some g \<longrightarrow> sc_greenlets s b = Some g \<longrightarrow> a = b) \<and>
     (\<forall>a g. sc_greenlets s a = Some g \<longrightarrow> g < sc_next s)"

definition all_run :: "nat set \<Rightarrow> sched \<Rightarrow> bool" where
  "all_run R s \<longleftrightarrow> (\<forall>r \<in> set (sc_jobs s) - R. due (job_at s r) \<longrightarrow> (\<exists>g. (g, r) \<in> set (sc_live s)))"

lemma greenlets_okD:
  assumes "greenlets_ok s"
  shows "sched_wf s" "r \<in> set (sc_jobs s) \<Longrightarrow> 0 \<le> j_current_run (job_at s r)"
    "(g, r) \<in> set (sc_live s) \<Longrightarrow> r \<in> set (sc_jobs s)"
    "(g, r) \<in> set (sc_live s) \<Longrightarrow> sc_greenlets s (j_name (job_at s r)) = Some g"
    "sc_greenlets s a = Some g \<Longrightarrow> sc_greenlets s b = Some g \<Longrightarrow> a = b"
    "sc_greenlets s a = Some g \<Longrightarrow> g < sc_next s"
  using assms by (auto simp: greenlets_ok_def)

lemma greenlets_okI:
  assumes "sched_wf s" "\<And>r. r \<in> set (sc_jobs s) \<Longrightarrow> 0 \<le> j_current_run (job_at s r)"
    "\<And>g r. (g, r) \<in> set (sc_live s) \<Longrightarrow> r \<in> set (sc_jobs s) \<and> sc_greenlets s (j_name (job_at s r)) = Some g"
    "\<And>a b g. sc_greenlets s a = Some g \<Longrightarrow> sc_greenlets s b = Some g \<Longrightarrow> a = b"
    "\<And>a g. sc_greenlets s a = Some g \<Longrightarrow> g < sc_next s"
  shows "greenlets_ok s"
  unfolding greenlets_ok_def using assms by blast

lemma greenlets_ok_cong:
  assumes "greenlets_ok s" "sc_jobs t = sc_jobs s" "length (sc_heap s) \<le> length (sc_heap t)"
    "\<And>r. r \<in> set (sc_jobs s) \<Longrightarrow> j_name (job_at t r) = j_name (job_at s r) \<and> 0 \<le> j_current_run (job_at t r)"
    "set (sc_live t) \<subseteq> set (sc_live s)" "sc_greenlets t = sc_greenlets s" "sc_next t = sc_next s"
  shows "greenlets_ok t"
proof (rule greenlets_okI)
  show "sched_wf t" using greenlets_okD(1) [OF assms(1)] assms(2-4) by (blast intro: sched_wf_cong)
  fix g r assume "(g, r) \<in> set (sc_live t)"
  with assms(5) have "(g, r) \<in> set (sc_live s)" by blast
  with greenlets_okD(3,4) [OF assms(1)] assms(2,4,6)
  show "r \<in> set (sc_jobs t) \<and> sc_greenlets t (j_name (job_at t r)) = Some g" by metis
qed (use assms greenlets_okD(5,6) [OF assms(1)] in auto)

lemma forget_name_ok:
  assumes "greenlets_ok s"
  shows "greenlets_ok (forget_name n s)"
proof (rule greenlets_okI)
  fix g r assume "(g, r) \<in> set (sc_live (forget_name n s))"
  then have live: "(g, r) \<in> set (sc_live s)" "sc_greenlets s n \<noteq> Some g" by (simp_all add: forget_name_greenlets)
  with greenlets_okD(3,4) [OF assms live(1)] show
    "r \<in> set (sc_jobs (forget_name n s)) \<and>
     sc_greenlets (forget_name n s) (j_name (job_at (forget_name n s) r)) = Some g"
    by (auto simp: forget_name_greenlets)
qed (use greenlets_okD(2,5,6) [OF assms] forget_name_wf [OF greenlets_okD(1) [OF assms]]
    in \<open>auto simp: forget_name_greenlets split: if_splits\<close>)

lemma forget_name_runs:
  assumes ok: "greenlets_ok s" and run: "all_run {} s"
  shows "all_run {} (forget_name n s)"
  unfolding all_run_def
proof safe
  fix r assume r: "r \<in> set (sc_jobs (forget_name n s))" and d: "due (job_at (forget_name n s) r)"
  then obtain g where g: "(g, r) \<in> set (sc_live s)" using run by (auto simp: all_run_def)
  then have "sc_greenlets s n \<noteq> Some g"
    using greenlets_okD(4) [OF ok g] greenlets_okD(5) [OF ok, of n g "j_name (job_at s r)"] r by auto
  with g show "\<exists>g. (g, r) \<in> set (sc_live (forget_name n s))" by (auto simp: forget_name_greenlets)
qed

lemma update_job_ok:
  assumes "greenlets_ok s" "\<And>j. j_name (f j) = j_name j" "\<And>j. 0 \<le> j_current_run j \<Longrightarrow> 0 \<le> j_current_run (f j)"
  shows "greenlets_ok (update_job r f s)"
  by (rule greenlets_ok_cong [OF assms(1)]) (use assms(2,3) greenlets_okD(2) [OF assms(1)] in auto)

lemma update_job_runs:
  assumes "all_run R s" "\<And>j. due (f j) \<Longrightarrow> due j"
  shows "all_run R (update_job r f s)"
  using assms by (auto simp: all_run_def split: if_splits)

lemma alloc_job_ok:
  assumes "greenlets_ok s"
  shows "greenlets_ok (snd (alloc_job j s))" "all_run R s \<Longrightarrow> all_run R (snd (alloc_job j s))"
proof -
  have at: "job_at (snd (alloc_job j s)) r = job_at s r" if "r \<in> set (sc_jobs s)" for r
    using greenlets_okD(1) [OF assms] that by (simp add: sched_wf_def)
  show "greenlets_ok (snd (alloc_job j s))"
    by (rule greenlets_ok_cong [OF assms]) (use at greenlets_okD(2) [OF assms] in simp_all)
  show "all_run R s \<Longrightarrow> all_run R (snd (alloc_job j s))"
    using at by (auto simp: all_run_def)
qed

lemma greenlets_ok_fresh:
  assumes "greenlets_ok s"
  shows "sc_greenlets s a \<noteq> Some (sc_next s)" "sc_greenlets s a = Some g \<Longrightarrow> g < Suc (sc_next s)"
  using greenlets_okD(6) [OF assms] by (blast intro: less_SucI)+

lemma spawn_job_ok:
  assumes ok: "greenlets_ok s" and r: "r \<in> set (sc_jobs s)" and new: "\<And>g. (g, r) \<notin> set (sc_live s)"
  shows "greenlets_ok (spawn_job r s)"
proof (rule greenlets_okI)
  show "sched_wf (spawn_job r s)" by (rule spawn_job_table) (rule greenlets_okD(1) [OF ok])
  have inj: "j_name (job_at s q) = j_name (job_at s r) \<Longrightarrow> q \<in> set (sc_jobs s) \<Longrightarrow> q = r" for q
    using greenlets_okD(1) [OF ok] r by (auto simp: sched_wf_def distinct_map dest: inj_onD)
  fix g q assume "(g, q) \<in> set (sc_live (spawn_job r s))"
  then consider "g = sc_next s" "q = r" | "(g, q) \<in> set (sc_live s)" by auto
  then show "q \<in> set (sc_jobs (spawn_job r s)) \<and>
      sc_greenlets (spawn_job r s) (j_name (job_at (spawn_job r s) q)) = Some g"
  proof cases
    case 1
    then show ?thesis using r by simp
  next
    case 2
    then have "q \<noteq> r" "q \<in> set (sc_jobs s)" using new greenlets_okD(3) [OF ok] by blast+
    with 2 greenlets_okD(4) [OF ok 2] inj [of q] show ?thesis by auto
  qed
qed (use greenlets_okD(2,5) [OF ok] greenlets_ok_fresh [OF ok] in \<open>auto split: if_splits\<close>)

lemma spawn_job_runs:
  "all_run R s \<Longrightarrow> all_run (R - {r}) (spawn_job r s)"
  by (auto simp: all_run_def due_def split: if_splits)

lemma create_job_ok:
  assumes ok: "greenlets_ok s" and run: "all_run {} s" and r: "r < length (sc_heap s)" "r \<notin> set (sc_jobs s)"
    and new: "job_named (j_name (job_at s r)) s = None" and act: "j_is_active (job_at s r)" "0 \<le> j_current_run (job_at s r)"
  shows "greenlets_ok (create_job True r s) \<and> all_run {} (create_job True r s)"
proof -
  let ?t = "add_to_jobs r s"
  have jobs: "sc_jobs ?t = sc_jobs s @ [r]" using new by (simp add: add_to_jobs_def)
  have t: "greenlets_ok ?t"
    by (rule greenlets_okI) (use greenlets_okD [OF ok] add_to_jobs_wf [OF _ r(1)] act(2) in \<open>auto simp: jobs\<close>)
  have "all_run {r} ?t" using run by (auto simp: all_run_def jobs)
  moreover have "(g, r) \<notin> set (sc_live ?t)" for g using greenlets_okD(3) [OF ok] r(2) by auto
  ultimately show ?thesis
    using spawn_job_ok [OF t, of r] spawn_job_runs [of "{r}" ?t r] act(1) by (simp add: create_job_def jobs)
qed

lemma unschedule_ok:
  assumes "greenlets_ok s"
  shows "greenlets_ok (unschedule r s)" "all_run {} s \<Longrightarrow> all_run {} (unschedule r s)"
proof -
  let ?t = "update_job r (\<lambda>j. j\<lparr>j_keep_running := False\<rparr>) s"
  have t: "greenlets_ok ?t" "all_run {} s \<Longrightarrow> all_run {} ?t"
    using assms by (auto intro!: update_job_ok update_job_runs simp: due_def)
  show "greenlets_ok (unschedule r s)" "all_run {} s \<Longrightarrow> all_run {} (unschedule r s)"
    unfolding unschedule_eq using forget_name_ok [OF t(1)] forget_name_runs [OF t(1) t(2)] by blast+
qed

lemma unschedule_unnames: "job_named (j_name (job_at s r)) (unschedule r s) = None"
  by (auto simp: job_named_None unschedule_eq)

definition sched_ok :: "sched \<Rightarrow> bool" where
  "sched_ok s \<longleftrightarrow> greenlets_ok s \<and> all_run {} s"

lemma unschedule_sched_ok: "sched_ok s \<Longrightarrow> sched_ok (unschedule r s)"
  by (simp add: sched_ok_def unschedule_ok)

lemma unschedule_by_name_sched_ok: "sched_ok s \<Longrightarrow> sched_ok (unschedule_by_name n s)"
  by (simp add: unschedule_by_name_def unschedule_sched_ok split: option.split)

lemma stop_one_sched_ok: "sched_ok s \<Longrightarrow> sched_ok (stop_one r s)"
  unfolding stop_one_def Let_def
  by (subst alloc_job_fst) (simp add: sched_ok_def alloc_job_ok unschedule_ok)

lemma stop_jobs_sched_ok: "sched_ok s \<Longrightarrow> sched_ok (stop_jobs s)"
proof -
  have "sched_ok s \<Longrightarrow> sched_ok (fold stop_one rs s)" for rs
    by (induction rs arbitrary: s) (simp_all add: stop_one_sched_ok)
  then show "sched_ok s \<Longrightarrow> sched_ok (stop_jobs s)" by (simp add: stop_jobs_def)
qed

lemma on_job_executed_sched_ok: "sched_ok s \<Longrightarrow> sched_ok (on_job_executed u ctx s)"
proof -
  have "sched_ok s \<Longrightarrow> sched_ok (on_job_executed_cb ctx s)"
    by (simp add: sched_ok_def greenlets_ok_def all_run_def sched_wf_def on_job_executed_cb_def)
  then show "sched_ok s \<Longrightarrow> sched_ok (on_job_executed u ctx s)"
    by (simp add: on_job_executed_def Let_def unschedule_by_name_sched_ok)
qed

lemma end_greenlet_ok: "greenlets_ok s \<Longrightarrow> greenlets_ok (end_greenlet g s)"
  by (rule greenlets_ok_cong, assumption) (auto simp: end_greenlet_def dest: greenlets_okD(2))

text \<open>A greenlet ends only when its job has nothing left to do.\<close>

lemma end_greenlet_runs:
  assumes "all_run {} s" "greenlets_ok s" "\<And>r. (g, r) \<in> set (sc_live s) \<Longrightarrow> \<not> due (job_at s r)"
  shows "all_run {} (end_greenlet g s)"
  using assms by (auto simp: all_run_def end_greenlet_def)

lemma same_greenlet:
  assumes "greenlets_ok s" "(g, r) \<in> set (sc_live s)" "(g, q) \<in> set (sc_live s)"
  shows "q = r"
proof -
  have "j_name (job_at s q) = j_name (job_at s r)"
    using greenlets_okD(4,5) [OF assms(1)] assms(2,3) by blast
  then show ?thesis
    using greenlets_okD(1,3) [OF assms(1)] assms(2,3)
    by (auto simp: sched_wf_def distinct_map dest: inj_onD)
qed

lemma due_count_run: "due (count_run now j) \<Longrightarrow> 0 \<le> j_current_run j \<Longrightarrow> due j"
  by (auto simp: due_def count_run_keep split: job_type.splits interval.splits)

lemma due_sleeps: "due j \<Longrightarrow> get_sleep_time cron now j = Inl e \<Longrightarrow> j_type j = OneTime"
  by (auto simp: due_def get_sleep_time_def split: job_type.splits interval.splits)

lemma job_turn_sched_ok:
  assumes "sched_ok s"
  shows "sched_ok (snd (job_turn cron now g s))"
proof (cases "map_of (sc_live s) g")
  case None
  then show ?thesis using assms by (simp add: job_turn_def)
next
  case (Some r)
  from assms have ok: "greenlets_ok s" and run: "all_run {} s" by (simp_all add: sched_ok_def)
  from Some have live: "(g, r) \<in> set (sc_live s)" by (rule map_of_SomeD)
  have r: "r \<in> set (sc_jobs s)" "r < length (sc_heap s)" "0 \<le> j_current_run (job_at s r)"
    using greenlets_okD(1-3) [OF ok] live by (auto simp: sched_wf_def)
  let ?t = "update_job r (count_run now) s"
  have t: "greenlets_ok ?t" by (rule update_job_ok [OF ok]) simp_all
  have trun: "all_run {} ?t"
    using run r(3) due_count_run by (auto simp: all_run_def split: if_splits)
  have stop: "sched_ok (end_greenlet g u)" if u: "greenlets_ok u" "all_run {} u" "sc_live u = sc_live s"
    and d: "\<not> due (job_at u r)" for u
  proof -
    have "q = r" if "(g, q) \<in> set (sc_live u)" for q
      by (rule same_greenlet [OF u(1) _ that]) (simp add: u(3) live)
    with d have "all_run {} (end_greenlet g u)" by (intro end_greenlet_runs [OF u(2,1)]) simp
    with end_greenlet_ok [OF u(1)] show ?thesis by (simp add: sched_ok_def)
  qed
  show ?thesis
  proof (cases "j_start_time (job_at s r) = None \<or> \<not> j_keep_running (job_at s r)")
    case True
    then have "\<not> due (job_at s r)" by (auto simp: due_def)
    with True show ?thesis using Some stop [OF ok run] by (simp add: job_turn_def)
  next
    case False
    have "\<not> due (job_at ?t r)" if "j_type (job_at s r) = OneTime"
      using that r(2,3) by (simp add: due_def)
    moreover have "\<not> due (job_at ?t r)" if "get_sleep_time cron now (job_at ?t r) = Inl e" "j_type (job_at s r) \<noteq> OneTime" for e
      using that due_sleeps [of "job_at ?t r"] r(2) by auto
    ultimately show ?thesis
      using Some False stop [OF t trun] t trun r(2)
      by (auto simp: job_turn_def Let_def sched_ok_def split: sum.split)
  qed
qed

lemma clone_job_current [simp]: "j_current_run (clone_job j) = 0"
  by (simp add: clone_job_def blank_job_def)

text \<open>A new job object is scheduled under a free name.\<close>

lemma create_new_ok:
  assumes "sched_ok s" "job_named (j_name j) s = None" "j_is_active j" "j_current_run j = 0"
  shows "sched_ok (create_job True (length (sc_heap s)) (snd (alloc_job j s)))"
proof -
  let ?t = "snd (alloc_job j s)"
  from assms(1) have ok: "greenlets_ok s" and run: "all_run {} s" by (simp_all add: sched_ok_def)
  have lt: "r < length (sc_heap s)" if "r \<in> set (sc_jobs s)" for r
    using greenlets_okD(1) [OF ok] that by (simp add: sched_wf_def)
  then have "length (sc_heap s) \<notin> set (sc_jobs ?t)" by auto
  moreover have "job_named (j_name j) ?t = None"
    using assms(2) lt by (auto simp: job_named_None)
  ultimately show ?thesis
    using create_job_ok [OF alloc_job_ok(1) [OF ok] alloc_job_ok(2) [OF ok run], of "length (sc_heap s)" j] assms(3,4)
    by (simp add: sched_ok_def)
qed

lemma edit_job_sched_ok:
  assumes "sched_ok s" "r < length (sc_heap s)" "j_is_active (job_at s r)"
  shows "sched_ok (edit_job r s)"
proof -
  let ?u = "unschedule r s"
  have "edit_job r s = create_job True (length (sc_heap ?u)) (snd (alloc_job (clone_job (job_at ?u r)) ?u))"
    unfolding edit_job_def Let_def by (subst alloc_job_fst) simp
  moreover have "job_named (j_name (clone_job (job_at ?u r))) ?u = None"
    using unschedule_unnames [of s r] assms(2) by simp
  ultimately show ?thesis
    using create_new_ok [OF unschedule_sched_ok [OF assms(1)], of "clone_job (job_at ?u r)" r] assms(2,3) by simp
qed

text \<open>The messages about a new job carry a new name.\<close>

definition new_names :: "sched_event \<Rightarrow> sched \<Rightarrow> bool" where
  "new_names e s = (case e of SCHEDULER_CREATE now d \<Rightarrow> job_named (jd_name d) s = None | _ \<Rightarrow> True)"

lemma create_edit_sched_ok:
  assumes "sched_ok s" "is_create \<longrightarrow> job_named (jd_name d) s = None"
  shows "sched_ok (create_edit lib now is_create True d s)"
proof (cases "job_of lib now d")
  case (Inr j)
  note j = job_of_config [OF Inr]
  have "sched_ok (snd (alloc_job j s))" using assms(1) by (simp add: sched_ok_def alloc_job_ok)
  then show ?thesis
    using assms j create_new_ok [OF assms(1), of j] edit_job_sched_ok [of "snd (alloc_job j s)" "length (sc_heap s)"]
    unfolding create_edit_def Inr by (subst alloc_job_fst) auto
qed (use assms in \<open>simp add: create_edit_def\<close>)

lemma sched_step_ok:
  assumes "sched_ok s" "new_names e s"
  shows "sched_ok (snd (sched_step lib e s))"
proof (cases e)
  case (SCHEDULER_EXECUTE d)
  with execute_job_state [of "jd_name d" s] on_job_executed_sched_ok [OF assms(1), of False] assms(1)
  show ?thesis by (auto simp: snd_py_seq_ret)
next
  case (Greenlet_Turn now g)
  with job_turn_sched_ok [OF assms(1), of "sl_cron lib" now g] show ?thesis
    by (cases "job_turn (sl_cron lib) now g s") simp
qed (use assms in \<open>simp_all add: new_names_def create_edit_sched_ok delete_job_def
    unschedule_by_name_sched_ok stop_jobs_sched_ok on_job_executed_sched_ok\<close>)

interpretation greenlets: py_object "sched_step lib" new_names sched_ok for lib
  by unfold_locales (rule sched_step_ok)

text \<open>The start-up: the stored jobs are added without a greenlet, then each gets one.\<close>

definition only_stored :: "sched \<Rightarrow> bool" where
  "only_stored s \<longleftrightarrow> greenlets_ok s \<and> sc_live s = [] \<and>
     (\<forall>r \<in> set (sc_jobs s). j_max_repeats_reached (job_at s r) \<longrightarrow> \<not> j_keep_running (job_at s r))"

lemma add_stored:
  assumes "only_stored s"
  shows "only_stored (create_edit lib now True False d s)"
proof (cases "job_of lib now d")
  case (Inr j)
  note j = job_of_config [OF Inr]
  let ?t = "snd (alloc_job j s)"
  let ?u = "add_to_jobs (length (sc_heap s)) ?t"
  from assms have ok: "greenlets_ok s" and live: "sc_live s = []" by (simp_all add: only_stored_def)
  note t = alloc_job_ok(1) [OF ok, of j]
  have at: "job_at ?t r = job_at s r" if "r \<in> set (sc_jobs s)" for r
    using greenlets_okD(1) [OF ok] that by (simp add: sched_wf_def)
  have jobs: "set (sc_jobs ?u) \<subseteq> insert (length (sc_heap s)) (set (sc_jobs s))" by (auto simp: add_to_jobs_def)
  have "greenlets_ok ?u"
    by (rule greenlets_okI)
      (use greenlets_okD [OF t] add_to_jobs_wf [of ?t "length (sc_heap s)"] j jobs live in auto)
  then have "only_stored ?u"
    using assms j at jobs by (auto simp: only_stored_def)
  then show ?thesis
    using assms unfolding create_edit_def Inr by (subst alloc_job_fst) (simp add: create_job_def)
qed (use assms in \<open>simp add: create_edit_def\<close>)

lemma add_scheduler_jobs_stored: "only_stored s \<Longrightarrow> only_stored (add_scheduler_jobs lib now l s)"
  unfolding add_scheduler_jobs_def by (induction l arbitrary: s) (simp_all add: add_stored)

lemma start_jobs_ok:
  assumes "greenlets_ok s" "all_run (set rs) s" "distinct rs" "set rs \<subseteq> set (sc_jobs s)"
    and "\<And>r g. r \<in> set rs \<Longrightarrow> (g, r) \<notin> set (sc_live s)"
    and "\<And>r. r \<in> set rs \<Longrightarrow> j_max_repeats_reached (job_at s r) \<Longrightarrow> \<not> j_keep_running (job_at s r)"
  shows "sched_ok (fold start_job rs s)"
  using assms
proof (induction rs arbitrary: s)
  case Nil
  then show ?case by (simp add: sched_ok_def)
next
  case (Cons r rs)
  show ?case
  proof (cases "j_max_repeats_reached (job_at s r)")
    case True
    with Cons.prems(6) [of r] have "\<not> due (job_at s r)" by (simp add: due_def)
    with Cons.prems(2) have "all_run (set rs) s" by (auto simp: all_run_def)
    with Cons.IH [of s] Cons.prems True show ?thesis by (simp add: start_job_def)
  next
    case False
    have "greenlets_ok (spawn_job r s)" using Cons.prems by (intro spawn_job_ok) auto
    moreover have "all_run (set rs) (spawn_job r s)"
      using spawn_job_runs [OF Cons.prems(2), of r] Cons.prems(3) by (simp add: Diff_insert_absorb)
    ultimately show ?thesis
      using Cons.IH [of "spawn_job r s"] Cons.prems False by (auto simp: start_job_def)
  qed
qed

lemma sched_run_ok: "sched_ok (sched_run lib now stored new_sched)"
proof -
  let ?s = "add_scheduler_jobs lib now stored new_sched"
  have "only_stored new_sched"
    by (auto simp: only_stored_def greenlets_ok_def new_sched_def sched_wf_def)
  then have "only_stored ?s" by (rule add_scheduler_jobs_stored)
  then have "sched_ok (fold start_job (sc_jobs ?s) ?s)"
    by (intro start_jobs_ok) (auto simp: only_stored_def all_run_def sched_wf_def distinct_map dest: greenlets_okD(1))
  then show ?thesis
    by (simp add: sched_run_def Let_def sched_ok_def greenlets_ok_def all_run_def sched_wf_def)
qed

text \<open>
  Claim C32. From start-up on (a CREATE before it may run a job twice, as
  \<open>early_create_runs_twice\<close> shows), and as long as every CREATE has a name that no
  scheduled job has, the scheduler has exactly one greenlet for each scheduled job that has to run: one
  that is kept running and has a start time and an interval of its type, or, of a one-time job, has not
  run. Every live greenlet, also one of a job that need not run any more and is about to end, belongs to
  a scheduled job, and no job name has two; when all jobs are stopped, none is left. Starting a greenlet
  is one step, as the scheduler holds its lock while it waits for it.
\<close>

theorem one_greenlet_per_job:
  assumes "reach (sched_step lib) new_names (sched_run lib now stored new_sched) s"
  shows "(\<forall>r \<in> set (sc_jobs s). due (job_at s r) \<longrightarrow> (\<exists>!g. (g, r) \<in> set (sc_live s))) \<and>
    (\<forall>(g, r) \<in> set (sc_live s). r \<in> set (sc_jobs s) \<and>
      (\<forall>(h, q) \<in> set (sc_live s). j_name (job_at s q) = j_name (job_at s r) \<longrightarrow> h = g \<and> q = r)) \<and>
    sc_live (stop_jobs s) = []"
proof -
  have s: "sched_ok s" by (rule greenlets.reach_inv [OF assms sched_run_ok])
  then have ok: "greenlets_ok s" and run: "all_run {} s" by (simp_all add: sched_ok_def)
  have one: "h = g \<and> q = r" if "(g, r) \<in> set (sc_live s)" "(h, q) \<in> set (sc_live s)"
    "j_name (job_at s q) = j_name (job_at s r)" for g r h q
  proof -
    have "Some h = Some g"
      using greenlets_okD(4) [OF ok that(1)] greenlets_okD(4) [OF ok that(2)] unfolding that(3) by simp
    with same_greenlet [OF ok that(1), of q] that(2) show ?thesis by simp
  qed
  have "\<exists>!g. (g, r) \<in> set (sc_live s)" if r: "r \<in> set (sc_jobs s)" "due (job_at s r)" for r
  proof -
    obtain g where g: "(g, r) \<in> set (sc_live s)" using run r by (auto simp: all_run_def)
    moreover have "h = g" if "(h, r) \<in> set (sc_live s)" for h using one [OF g that refl] by simp
    ultimately show ?thesis by (intro ex1I [of _ g])
  qed
  moreover have "\<forall>(g, r) \<in> set (sc_live s). r \<in> set (sc_jobs s) \<and>
      (\<forall>(h, q) \<in> set (sc_live s). j_name (job_at s q) = j_name (job_at s r) \<longrightarrow> h = g \<and> q = r)"
    using one greenlets_okD(3) [OF ok] by blast
  moreover have t: "sched_ok (stop_jobs s)" by (rule stop_jobs_sched_ok [OF s])
  moreover have "sc_jobs (stop_jobs s) = []"
  proof (rule ccontr)
    assume "sc_jobs (stop_jobs s) \<noteq> []"
    then obtain r where "r \<in> set (sc_jobs (stop_jobs s))" by (cases "sc_jobs (stop_jobs s)") auto
    with stop_jobs_table [OF greenlets_okD(1) [OF ok]] show False
      by (metis job_table_Some option.distinct(1))
  qed
  then have "(g, r) \<notin> set (sc_live (stop_jobs s))" for g r
    using greenlets_okD(3) [of "stop_jobs s" g r] t by (auto simp: sched_ok_def)
  then have "set (sc_live (stop_jobs s)) = {}" by (intro equals0I) (metis surj_pair)
  ultimately show ?thesis by simp
qed

definition demo_data :: "string \<Rightarrow> job_data" where
  "demo_data name = \<lparr>jd_id = 1, jd_name = name, jd_old_name = None, jd_is_active = True,
     jd_job_type = IntervalBased, jd_start_date = Date_Time 5000, jd_service = ''svc'', jd_extra = None,
     jd_weeks = None, jd_days = None, jd_hours = None, jd_minutes = Some 1, jd_seconds = None,
     jd_repeats = None, jd_cron_definition = None\<rparr>"

definition demo_lib :: sched_lib where
  "demo_lib = \<lparr>sl_rrule = rrule_last, sl_cron = (\<lambda>_ _. 1), sl_parse = (\<lambda>_. Inl ValueError), sl_crontab = Inr\<rparr>"

definition demo_sched :: sched where
  "demo_sched = snd (sched_step demo_lib (SCHEDULER_CREATE 1000 (demo_data ''b''))
     (sched_run demo_lib 1000 [demo_data ''a''] new_sched))"

theorem one_greenlet_per_job_witness:
  "sc_live demo_sched = [(1, 1), (0, 0)] \<and> sc_jobs demo_sched = [0, 1] \<and> sc_live (stop_jobs demo_sched) = []"
proof -
  have names: "new_names (SCHEDULER_CREATE 1000 (demo_data ''b'')) (sched_run demo_lib 1000 [demo_data ''a''] new_sched)"
    by code_simp
  have "reach (sched_step demo_lib) new_names (sched_run demo_lib 1000 [demo_data ''a''] new_sched) demo_sched"
    unfolding demo_sched_def by (rule reach_step, rule reach_start, rule names)
  from one_greenlet_per_job [OF this] have "sc_live (stop_jobs demo_sched) = []" by blast
  moreover have "sc_live demo_sched = [(1, 1), (0, 0)] \<and> sc_jobs demo_sched = [0, 1]" by code_simp
  ultimately show ?thesis by blast
qed

section \<open>Where the scheduler falls short\<close>

text \<open>
  A second CREATE under a taken name leaves the old job in the set and starts a second greenlet
  for the new one, which no later deletion can stop.
\<close>

lemma second_create_runs_twice:
  "let s = snd (sched_step demo_lib (SCHEDULER_CREATE 1000 (demo_data ''a''))
        (sched_run demo_lib 1000 [demo_data ''a''] new_sched));
      t = snd (sched_step demo_lib (SCHEDULER_DELETE (demo_data ''a'')) s) in
   length (sc_live s) = 2 \<and> sc_jobs t = [] \<and> sc_live t = [(0, 0)]"
  by code_simp

text \<open>An edit under a new name leaves the job of the old name running beside the new one.\<close>

lemma rename_keeps_old_job:
  "let s = snd (sched_step demo_lib (SCHEDULER_EDIT 1000 ((demo_data ''b'')\<lparr>jd_old_name := Some ''a''\<rparr>))
        (sched_run demo_lib 1000 [demo_data ''a''] new_sched)) in
   length (sc_live s) = 2 \<and> job_table s ''a'' \<noteq> None \<and> job_table s ''b'' \<noteq> None"
  by code_simp

text \<open>A job created before the scheduler has started is started twice.\<close>

lemma early_create_runs_twice:
  "let s = sched_run demo_lib 1000 [] (snd (sched_step demo_lib (SCHEDULER_CREATE 1000 (demo_data ''a'')) new_sched)) in
   sc_jobs s = [0] \<and> sc_live s = [(1, 0), (0, 0)]"
  by code_simp

text \<open>An edit that makes a job inactive changes nothing: the job goes on.\<close>

lemma inactive_edit_ignored:
  "\<not> jd_is_active d \<Longrightarrow> sched_step lib (SCHEDULER_EDIT now d) s = (Inr [], s)"
  by (simp add: create_edit_def)

end
