(* ===== verification/Ws_Channel.thy ===== *)
theory Ws_Channel
  imports Py_Prelude
begin

text \<open>
  A connection of a WebSocket channel: sessions and their tokens, messages from the client,
  requests to it, background pings, and the end of the connection (zato-server
  connection/web_socket/__init__.py, and the messages of msg.py). The JSON library, the
  transport, the authentication of the channel and the services it invokes are functions of a
  world record, each of which may depend on how many messages, sends or calls there were
  before. Handling a message is atomic; waiting for the answer of a client is not.
\<close>

section \<open>Messages\<close>

datatype ws_action = CLIENT_RESPONSE | CREATE_SESSION | OtherAction string

text \<open>The parsed text: its \<open>meta\<close> part, when there is one that is not empty, and its data.\<close>

record ws_meta =
  me_action :: "ws_action option"
  me_id :: "string option"
  me_timestamp :: "string option"
  me_token :: "string option"
  me_client_id :: "string option"
  me_client_name :: "string option"
  me_username :: "string option"
  me_secret :: "string option"
  me_in_reply_to :: "string option"

record wire_msg =
  wm_meta :: "ws_meta option"
  wm_data :: string

text \<open>\<open>ClientMessage\<close>; its attribute \<open>is_auth\<close> exists only after a \<open>meta\<close> part.\<close>

record client_msg =
  cm_cid :: string
  cm_action :: "ws_action option"
  cm_id :: "string option"
  cm_token :: "string option"
  cm_username :: "string option"
  cm_secret :: "string option"
  cm_is_auth :: "bool option"
  cm_in_reply_to :: "string option"
  cm_ext_client_id :: "string option"
  cm_ext_client_name :: "string option"
  cm_data :: string

definition ClientMessage :: "string \<Rightarrow> client_msg" where
  "ClientMessage cid = \<lparr>cm_cid = cid, cm_action = None, cm_id = None, cm_token = None, cm_username = None, cm_secret = None,
     cm_is_auth = None, cm_in_reply_to = None, cm_ext_client_id = None, cm_ext_client_name = None, cm_data = []\<rparr>"

datatype ws_payload = Data_Token string | Data_Cid string | Data_Copy string | Data_Service string

text \<open>\<open>ServerMessage\<close>, serialized without an empty data part.\<close>

record server_msg =
  sm_id :: string
  sm_timestamp :: int
  sm_status :: "nat option"
  sm_in_reply_to :: "string option"
  sm_error_message :: "string option"
  sm_data :: "ws_payload option"

definition truthy_text :: "string option \<Rightarrow> bool" where
  "truthy_text v \<longleftrightarrow> v \<noteq> None \<and> v \<noteq> Some []"

definition ServerMessage ::
  "bool \<Rightarrow> string \<Rightarrow> string \<Rightarrow> string option \<Rightarrow> nat \<Rightarrow> string \<Rightarrow> int \<Rightarrow> ws_payload option \<Rightarrow> server_msg" where
  "ServerMessage is_response id_prefix cid in_reply_to status error_message now data =
     \<lparr>sm_id = id_prefix @ ''.'' @ cid, sm_timestamp = now,
      sm_status = (if is_response then Some status else None),
      sm_in_reply_to = (if is_response \<and> truthy_text in_reply_to then in_reply_to else None),
      sm_error_message = (if error_message \<noteq> [] then Some error_message else None),
      sm_data = data\<rparr>"

definition AuthenticateResponse :: "string \<Rightarrow> string \<Rightarrow> string option \<Rightarrow> int \<Rightarrow> server_msg" where
  "AuthenticateResponse token cid in_reply_to now =
     ServerMessage True ''zato.ws.srv.rsp-auth'' cid in_reply_to 200 [] now (Some (Data_Token token))"

definition OKResponse :: "string \<Rightarrow> string option \<Rightarrow> string \<Rightarrow> int \<Rightarrow> server_msg" where
  "OKResponse cid in_reply_to data now =
     ServerMessage True ''zato.ws.srv.rsp-ok'' cid in_reply_to 200 [] now
       (if data = [] then None else Some (Data_Service data))"

definition ErrorResponse :: "string \<Rightarrow> string option \<Rightarrow> nat \<Rightarrow> string \<Rightarrow> int \<Rightarrow> server_msg" where
  "ErrorResponse cid in_reply_to status error_message now =
     ServerMessage True ''zato.ws.srv.rsp-err'' cid in_reply_to status error_message now (Some (Data_Cid cid))"

definition ClientInvokeRequest :: "string \<Rightarrow> string option \<Rightarrow> int \<Rightarrow> server_msg" where
  "ClientInvokeRequest cid data now =
     ServerMessage False ''zato.ws.srv.rq-client'' cid None 200 [] now
       (case data of None \<Rightarrow> None | Some d \<Rightarrow> if d = [] then None else Some (Data_Service d))"

definition Forbidden_msg :: "string \<Rightarrow> int \<Rightarrow> server_msg" where
  "Forbidden_msg cid now =
     ServerMessage True ''zato.ws.srv.msg-err'' cid None 403 [] now
       (Some (Data_Copy ''You are not authorized to access this resource''))"

section \<open>A connection\<close>

record token_info =
  tk_value :: string
  tk_ttl :: int
  tk_creation_time :: int
  tk_expires_at :: int

definition token_extend :: "int option \<Rightarrow> token_info \<Rightarrow> token_info" where
  "token_extend extend_by t =
     t\<lparr>tk_expires_at := tk_expires_at t + (case extend_by of Some e \<Rightarrow> if e \<noteq> 0 then e else tk_ttl t | None \<Rightarrow> tk_ttl t)\<rparr>"

definition TokenInfo :: "string \<Rightarrow> int \<Rightarrow> int \<Rightarrow> token_info" where
  "TokenInfo val ttl now =
     token_extend None \<lparr>tk_value = val, tk_ttl = ttl, tk_creation_time = now, tk_expires_at = now\<rparr>"

datatype ws_reply = Reply client_msg | Pong

text \<open>What the connection asks of services: its own service, and the internal ones that register it.\<close>

datatype ws_call = Invoke_Channel_Service string | Client_Create | Client_Delete | Unregister_Sub_Keys "string list"

record ws_config =
  wc_name :: string
  wc_service_name :: string
  wc_token_ttl :: int
  wc_needs_auth :: bool
  wc_is_vault :: bool
  wc_is_json :: bool
  wc_pings_missed_threshold :: int
  wc_new_token_wait_time :: int

record ws =
  ws_has_session_opened :: bool
  ws_token :: "token_info option"
  ws_ext_token :: "string option"
  ws_ext_client_id :: "string option"
  ws_ext_client_name :: "string option"
  ws_last_seen :: int
  ws_pings_missed :: int
  ws_ping_last_response_time :: "int option"
  ws_sql_ws_client_id :: "int option"
  ws_responses_received :: "(string, ws_reply) dict"
  ws_server_terminated :: bool
  ws_client_terminated :: bool
  ws_sub_keys :: "string list"
  ws_pingers :: nat
  ws_cids :: nat
  ws_now :: int
  ws_sent :: "server_msg list"
  ws_calls :: "ws_call list"

definition new_ws :: "int \<Rightarrow> ws" where
  "new_ws now = \<lparr>ws_has_session_opened = False, ws_token = None, ws_ext_token = None, ws_ext_client_id = None,
     ws_ext_client_name = None, ws_last_seen = now, ws_pings_missed = 0, ws_ping_last_response_time = None,
     ws_sql_ws_client_id = None, ws_responses_received = [], ws_server_terminated = False,
     ws_client_terminated = False, ws_sub_keys = [], ws_pingers = 0, ws_cids = 0, ws_now = now,
     ws_sent = [], ws_calls = []\<rparr>"

text \<open>
  The world: the parser of texts, correlation ids, the authentication of the channel (which
  gives a Vault token when the channel uses Vault), the transport, the services (the result of
  the creation of a client is its id), and the message of an exception.
\<close>

record ws_world =
  ww_loads :: "string \<Rightarrow> exn + wire_msg"
  ww_cid :: "nat \<Rightarrow> string"
  ww_auth :: "int \<Rightarrow> string option \<Rightarrow> string option \<Rightarrow> exn + (bool \<times> string option)"
  ww_send :: "nat \<Rightarrow> exn option"
  ww_call :: "nat \<Rightarrow> ws_call \<Rightarrow> exn + string"
  ww_client_id :: "nat \<Rightarrow> int"
  ww_exn_msg :: "exn \<Rightarrow> string"

definition new_cid :: "ws_world \<Rightarrow> (ws, string) py" where
  "new_cid w = py_bind (py_get ws_cids) (\<lambda>n. py_seq (py_modify (ws_cids_update Suc)) (py_ret (ww_cid w n)))"

definition ws_send :: "ws_world \<Rightarrow> server_msg \<Rightarrow> (ws, unit) py" where
  "ws_send w m = py_bind (py_get ws_sent) (\<lambda>sent.
     case ww_send w (length sent) of
       Some e \<Rightarrow> py_raise e
     | None \<Rightarrow> py_modify (ws_sent_update (\<lambda>ms. ms @ [m])))"

definition invoke_service :: "ws_world \<Rightarrow> ws_call \<Rightarrow> (ws, string) py" where
  "invoke_service w c = py_bind (py_get ws_calls) (\<lambda>calls.
     py_seq (py_modify (ws_calls_update (\<lambda>cs. cs @ [c])))
       (case ww_call w (length calls) c of Inl e \<Rightarrow> py_raise e | Inr r \<Rightarrow> py_ret r))"

text \<open>The setter of the property \<open>token\<close>.\<close>

definition set_token :: "ws_config \<Rightarrow> string \<Rightarrow> ws \<Rightarrow> ws" where
  "set_token c val s = s\<lparr>ws_token := Some (case ws_token s of
       None \<Rightarrow> TokenInfo val (wc_token_ttl c) (ws_now s)
     | Some t \<Rightarrow> token_extend None (t\<lparr>tk_value := val\<rparr>))\<rparr>"

section \<open>Messages from the client\<close>

definition keep_or :: "string option \<Rightarrow> string option \<Rightarrow> string option" where
  "keep_or new old = (if truthy_text new then new else old)"

definition parse_meta :: "ws_config \<Rightarrow> client_msg \<Rightarrow> ws_meta \<Rightarrow> (ws, client_msg) py" where
  "parse_meta c msg meta =
     (let action = (case me_action meta of None \<Rightarrow> CLIENT_RESPONSE | Some a \<Rightarrow> a) in
      py_bind (py_value AttributeError (me_id meta)) (\<lambda>i.
      py_bind (py_value AttributeError (me_timestamp meta)) (\<lambda>_.
      py_seq (py_modify (\<lambda>s. s\<lparr>ws_ext_client_id := keep_or (me_client_id meta) (ws_ext_client_id s),
                ws_ext_client_name := keep_or (me_client_name meta) (ws_ext_client_name s)\<rparr>)) (
      py_bind (py_get ws_ext_client_id) (\<lambda>client_id.
      py_bind (py_get ws_ext_client_name) (\<lambda>client_name.
      let msg = msg\<lparr>cm_action := Some action, cm_id := Some i, cm_token := me_token meta,
                  cm_ext_client_id := client_id, cm_ext_client_name := client_name\<rparr> in
      if action = CREATE_SESSION
      then py_bind (if wc_needs_auth c then py_value AttributeError (me_secret meta) else py_ret []) (\<lambda>secret.
             py_ret (msg\<lparr>cm_username := me_username meta, cm_secret := Some secret, cm_is_auth := Some True\<rparr>))
      else py_ret (msg\<lparr>cm_in_reply_to := me_in_reply_to meta, cm_is_auth := Some False\<rparr>)))))))"

definition parse_json :: "ws_world \<Rightarrow> ws_config \<Rightarrow> string \<Rightarrow> (ws, client_msg) py" where
  "parse_json w c data =
     (case ww_loads w data of
        Inl e \<Rightarrow> py_raise e
      | Inr parsed \<Rightarrow>
          py_bind (new_cid w) (\<lambda>cid.
          py_bind (case wm_meta parsed of
                     None \<Rightarrow> py_ret (ClientMessage cid)
                   | Some meta \<Rightarrow> parse_meta c (ClientMessage cid) meta)
            (\<lambda>msg. py_ret (msg\<lparr>cm_data := wm_data parsed\<rparr>))))"

definition parse_func :: "ws_world \<Rightarrow> ws_config \<Rightarrow> string \<Rightarrow> (ws, client_msg) py" where
  "parse_func w c data = (if wc_is_json c then parse_json w c data else py_raise NotImplementedError)"

text \<open>\<open>create_session\<close>; the result is the response, if a session was created.\<close>

definition can_create_session ::
  "ws_world \<Rightarrow> ws_config \<Rightarrow> client_msg \<Rightarrow> (ws, bool \<times> string option) py" where
  "can_create_session w c request =
     (if \<not> wc_needs_auth c then py_ret (True, None)
      else py_bind (py_get ws_now) (\<lambda>now.
        case ww_auth w now (cm_username request) (cm_secret request) of Inl e \<Rightarrow> py_raise e | Inr r \<Rightarrow> py_ret r))"

definition create_session ::
  "ws_world \<Rightarrow> ws_config \<Rightarrow> client_msg \<Rightarrow> (ws, server_msg option) py" where
  "create_session w c request = py_bind (can_create_session w c request) (\<lambda>(can_create, vault_token).
     if \<not> can_create then py_ret None
     else py_bind (if wc_is_vault c
            then py_bind (py_value KeyError vault_token) (\<lambda>t.
                   py_seq (py_modify (ws_ext_token_update (\<lambda>_. Some t))) (py_ret t))
            else new_cid w) (\<lambda>self_token.
       let token = ''ws.token.'' @ self_token in
       py_seq (py_modify (\<lambda>s. (set_token c token s)\<lparr>ws_has_session_opened := True,
                 ws_ext_client_id := cm_ext_client_id request, ws_ext_client_name := cm_ext_client_name request\<rparr>)) (
       py_bind (py_get ws_now) (\<lambda>now.
       py_ret (Some (AuthenticateResponse token (cm_cid request) (cm_id request) now))))))"

definition on_forbidden :: "ws_world \<Rightarrow> (ws, unit) py" where
  "on_forbidden w = py_bind (new_cid w) (\<lambda>cid. py_bind (py_get ws_now) (\<lambda>now.
     py_seq (ws_send w (Forbidden_msg cid now))
       (py_modify (\<lambda>s. s\<lparr>ws_server_terminated := True, ws_client_terminated := True\<rparr>))))"

definition register_auth_client :: "ws_world \<Rightarrow> (ws, unit) py" where
  "register_auth_client w =
     py_bind (py_get ws_calls) (\<lambda>calls.
     py_seq (py_bind (new_cid w) (\<lambda>_. invoke_service w Client_Create)) (
     py_modify (\<lambda>s. s\<lparr>ws_sql_ws_client_id := Some (ww_client_id w (length calls)), ws_pingers := Suc (ws_pingers s)\<rparr>)))"

definition handle_create_session :: "ws_world \<Rightarrow> ws_config \<Rightarrow> client_msg \<Rightarrow> (ws, unit) py" where
  "handle_create_session w c request = py_bind (py_value AttributeError (cm_is_auth request)) (\<lambda>is_auth.
     if is_auth
     then py_bind (create_session w c request) (\<lambda>response.
            case response of
              Some m \<Rightarrow> py_seq (ws_send w m) (register_auth_client w)
            | None \<Rightarrow> on_forbidden w)
     else on_forbidden w)"

fun http_status :: "exn \<Rightarrow> nat option" where
  "http_status BadRequest = Some 400" | "http_status Forbidden = Some 403" | "http_status NotFound = Some 404"
| "http_status MethodNotAllowed = Some 405" | "http_status TooManyRequests = Some 429"
| "http_status ServiceUnavailable = Some 503" | "http_status (Unauthorized _) = Some 401"
| "http_status _ = None"

definition error_of_service :: "ws_world \<Rightarrow> ws_config \<Rightarrow> string \<Rightarrow> string option \<Rightarrow> exn \<Rightarrow> nat \<times> string" where
  "error_of_service w c cid i e =
     (case http_status e of
        Some status \<Rightarrow> (status, ww_exn_msg w e)
      | None \<Rightarrow>
          if e = OtherError ''ParsingException'' then (400, ''I/O processing error'')
          else (500, ''Could not invoke service `'' @ wc_service_name c @ ''`, id:`'' @ (case i of None \<Rightarrow> ''None'' | Some t \<Rightarrow> t) @ ''`, cid:`'' @ cid @ ''`''))"

definition handle_invoke_service :: "ws_world \<Rightarrow> ws_config \<Rightarrow> string \<Rightarrow> client_msg \<Rightarrow> (ws, unit) py" where
  "handle_invoke_service w c cid msg =
     py_bind (py_get ws_now) (\<lambda>now.
     py_bind (py_try
       (py_bind (invoke_service w (Invoke_Channel_Service (cm_data msg))) (\<lambda>r. py_ret (OKResponse cid (cm_id msg) r now)))
       (\<lambda>e. case error_of_service w c cid (cm_id msg) e of
              (status, text) \<Rightarrow> py_ret (ErrorResponse cid (cm_id msg) status text now)))
       (ws_send w))"

definition handle_client_response :: "client_msg \<Rightarrow> (ws, unit) py" where
  "handle_client_response msg = py_modify (ws_responses_received_update
     (dict_set (case cm_in_reply_to msg of None \<Rightarrow> [] | Some i \<Rightarrow> i) (Reply msg)))"

definition handle_client_message :: "ws_world \<Rightarrow> ws_config \<Rightarrow> string \<Rightarrow> client_msg \<Rightarrow> (ws, unit) py" where
  "handle_client_message w c cid msg =
     (if cm_action msg = Some CLIENT_RESPONSE then handle_client_response msg else handle_invoke_service w c cid msg)"

definition handle_in_session :: "ws_world \<Rightarrow> ws_config \<Rightarrow> string \<Rightarrow> client_msg \<Rightarrow> (ws, unit) py" where
  "handle_in_session w c cid request =
     (if \<not> truthy_text (cm_token request) then on_forbidden w
      else py_bind (py_get ws_now) (\<lambda>now.
        py_bind (py_bind (py_get ws_token) (py_value AttributeError)) (\<lambda>token.
        if now > tk_expires_at token then on_forbidden w
        else py_bind (py_value AttributeError (cm_is_auth request)) (\<lambda>is_auth.
          if \<not> is_auth then handle_client_message w c cid request else handle_create_session w c request))))"

definition received_message :: "ws_world \<Rightarrow> ws_config \<Rightarrow> string \<Rightarrow> (ws, unit) py" where
  "received_message w c data = py_try
     (py_bind (parse_func w c data) (\<lambda>request.
      py_bind (new_cid w) (\<lambda>cid.
      py_seq (py_modify (\<lambda>s. s\<lparr>ws_last_seen := ws_now s\<rparr>)) (
      py_bind (py_get ws_has_session_opened) (\<lambda>open.
      if open then handle_in_session w c cid request else handle_create_session w c request)))))
     (\<lambda>_. py_ret ())"

section \<open>Requests to the client, pings, and the end\<close>

text \<open>
  \<open>invoke_client\<close> in two parts: sending the request, whose id is the result, and what
  comes of waiting for the answer.
\<close>

definition invoke_client_send :: "ws_world \<Rightarrow> string \<Rightarrow> string option \<Rightarrow> (ws, string) py" where
  "invoke_client_send w cid request = py_bind (py_get ws_now) (\<lambda>now.
     let msg = ClientInvokeRequest cid request now in
     py_seq (ws_send w msg) (py_ret (sm_id msg)))"

definition client_response :: "string \<Rightarrow> ws \<Rightarrow> ws_reply option" where
  "client_response request_id s = map_of (ws_responses_received s) request_id"

definition ping_send :: "ws_world \<Rightarrow> (ws, string) py" where
  "ping_send w = py_bind (new_cid w) (\<lambda>cid. invoke_client_send w cid None)"

text \<open>An answer with empty data counts as none, as does no answer.\<close>

definition is_answer :: "ws_reply option \<Rightarrow> bool" where
  "is_answer r = (case r of Some Pong \<Rightarrow> True | Some (Reply m) \<Rightarrow> cm_data m \<noteq> [] | None \<Rightarrow> False)"

definition ping_extend :: int where
  "ping_extend = 30"

definition ping_result :: "ws_world \<Rightarrow> ws_config \<Rightarrow> string \<Rightarrow> (ws, unit) py" where
  "ping_result w c request_id = py_bind (py_get (client_response request_id)) (\<lambda>r.
     if is_answer r
     then py_seq (py_modify (\<lambda>s. s\<lparr>ws_pings_missed := 0, ws_ping_last_response_time := Some (ws_now s)\<rparr>)) (
       py_bind (py_bind (py_get ws_token) (py_value AttributeError)) (\<lambda>token.
       py_modify (ws_token_update (\<lambda>_. Some (token_extend (Some ping_extend) token)))))
     else py_seq (py_modify (ws_pings_missed_update (\<lambda>n. n + 1))) (
       py_bind (py_get ws_pings_missed) (\<lambda>n.
       if n < wc_pings_missed_threshold c then py_ret () else on_forbidden w)))"

definition ponged :: "string \<Rightarrow> (ws, unit) py" where
  "ponged i = py_modify (ws_responses_received_update (dict_set i Pong))"

text \<open>The end of the time a client has for opening a session.\<close>

definition ensure_session_created :: "ws_world \<Rightarrow> (ws, unit) py" where
  "ensure_session_created w = py_bind (py_get ws_has_session_opened) (\<lambda>open.
     if open then py_ret () else on_forbidden w)"

definition unregister_auth_client :: "ws_world \<Rightarrow> (ws, unit) py" where
  "unregister_auth_client w = py_bind (py_get ws_has_session_opened) (\<lambda>open.
     if \<not> open then py_ret ()
     else
       py_seq (py_bind (new_cid w) (\<lambda>_. invoke_service w Client_Delete)) (
       py_bind (py_get ws_sub_keys) (\<lambda>sub_keys.
       if sub_keys = [] then py_ret ()
       else py_seq (py_bind (new_cid w) (\<lambda>_. invoke_service w (Unregister_Sub_Keys sub_keys)))
              (py_modify (ws_sub_keys_update (\<lambda>_. []))))))"

section \<open>Events\<close>

text \<open>
  What happens to a connection: time goes by, a message comes, a service or the
  delivery of a pub/sub message invokes the client, a ping is sent, its waiting ends, a pong comes, the time for opening a session is over, a service adds or removes a
  sub_key, the connection is closed.
\<close>

datatype ws_event =
    Tick nat
  | Message string
  | Invoke_Client string string
  | Ping_Send
  | Ping_Result string
  | Ponged string
  | Session_Timeout
  | Add_Sub_Key string
  | Remove_Sub_Key string
  | Closed

fun ws_step :: "ws_world \<Rightarrow> ws_config \<Rightarrow> ws_event \<Rightarrow> (ws, string) py" where
  "ws_step w c (Tick n) = py_seq (py_modify (ws_now_update (\<lambda>t. t + int n))) (py_ret [])"
| "ws_step w c (Message data) = py_seq (received_message w c data) (py_ret [])"
| "ws_step w c (Invoke_Client cid data) = invoke_client_send w cid (Some data)"
| "ws_step w c Ping_Send = ping_send w"
| "ws_step w c (Ping_Result i) = py_seq (ping_result w c i) (py_ret [])"
| "ws_step w c (Ponged i) = py_seq (ponged i) (py_ret [])"
| "ws_step w c Session_Timeout = py_seq (ensure_session_created w) (py_ret [])"
| "ws_step w c (Add_Sub_Key k) = py_seq (py_modify (ws_sub_keys_update (\<lambda>ks. ks @ [k]))) (py_ret [])"
| "ws_step w c (Remove_Sub_Key k) = py_seq (py_modify (ws_sub_keys_update (removeAll k))) (py_ret [])"
| "ws_step w c Closed = py_seq (unregister_auth_client w) (py_ret [])"

end
