(* ===== verification/Ws_Facts.thy ===== *)
theory Ws_Facts
  imports Ws_Channel
begin

text \<open>
  What a WebSocket channel promises: its service is invoked only within a live session that
  accepted credentials have opened, and a client that stops answering is disconnected.
\<close>

section \<open>What each method leaves alone\<close>

fun is_service :: "ws_call \<Rightarrow> bool" where
  "is_service (Invoke_Channel_Service d) = True"
| "is_service _ = False"

definition services :: "ws \<Rightarrow> ws_call list" where
  "services s = filter is_service (ws_calls s)"

text \<open>The session, the token, the time and the services invoked are those of \<open>s0\<close>.\<close>

definition same_session :: "ws \<Rightarrow> ws \<Rightarrow> bool" where
  "same_session s0 s \<longleftrightarrow> ws_has_session_opened s = ws_has_session_opened s0 \<and> ws_token s = ws_token s0 \<and>
     ws_now s = ws_now s0 \<and> services s = services s0"

text \<open>An open session has a token, and \<open>acc\<close> justifies it.\<close>

definition justified :: "bool \<Rightarrow> ws \<Rightarrow> bool" where
  "justified acc s \<longleftrightarrow> (ws_has_session_opened s \<longrightarrow> acc \<and> ws_token s \<noteq> None)"

definition invoked :: "ws_call list \<Rightarrow> ws \<Rightarrow> bool" where
  "invoked cs s \<longleftrightarrow> services s = cs"

lemmas ws_frames = same_session_def justified_def invoked_def services_def

text \<open>A predicate that only looks at the session, the token, the time and the services.\<close>

definition session_only :: "(ws \<Rightarrow> bool) \<Rightarrow> bool" where
  "session_only I \<longleftrightarrow> (\<forall>s t. same_session s t \<longrightarrow> I s \<longrightarrow> I t)"

lemma session_only_frames:
  "session_only (same_session s0)" "session_only (justified acc)" "session_only (invoked cs)"
  by (auto simp: session_only_def ws_frames)

lemma keeps_modify_session:
  "session_only I \<Longrightarrow> (\<And>s. same_session s (f s)) \<Longrightarrow> keeps I (py_modify f)"
  by (rule keeps_modify) (auto simp: session_only_def)

lemma new_cid_keeps:
  assumes I: "session_only I"
  shows "keeps I (new_cid w)"
  unfolding new_cid_def by (intro keeps_intros keeps_modify_session [OF I]) (simp add: ws_frames)

lemma send_keeps:
  assumes I: "session_only I"
  shows "keeps I (ws_send w m)"
  unfolding ws_send_def by (intro keeps_intros keeps_modify_session [OF I]) (simp add: ws_frames)

lemma internal_call_keeps:
  assumes I: "session_only I" and no: "\<not> is_service c"
  shows "keeps I (invoke_service w c)"
  using no
  unfolding invoke_service_def
  by (auto intro!: keeps_intros keeps_modify_session [OF I] simp: ws_frames split: sum.split)

lemma on_forbidden_keeps:
  assumes I: "session_only I"
  shows "keeps I (on_forbidden w)"
  unfolding on_forbidden_def
  by (intro keeps_intros new_cid_keeps [OF I] send_keeps [OF I] keeps_modify_session [OF I]) (simp add: ws_frames)

lemma parse_func_keeps:
  assumes I: "session_only I"
  shows "keeps I (parse_func w c data)"
  unfolding parse_func_def parse_json_def parse_meta_def Let_def
  by (auto intro!: keeps_intros new_cid_keeps [OF I] keeps_modify_session [OF I] simp: ws_frames split: sum.split option.split)

lemma register_keeps:
  assumes I: "session_only I"
  shows "keeps I (register_auth_client w)"
  unfolding register_auth_client_def
  by (intro keeps_intros new_cid_keeps [OF I] internal_call_keeps [OF I] keeps_modify_session [OF I]) (simp_all add: ws_frames)

lemma unregister_keeps:
  assumes I: "session_only I"
  shows "keeps I (unregister_auth_client w)"
  unfolding unregister_auth_client_def
  by (intro keeps_intros new_cid_keeps [OF I] internal_call_keeps [OF I] keeps_modify_session [OF I]) (simp_all add: ws_frames)

lemma ping_send_keeps:
  assumes I: "session_only I"
  shows "keeps I (ping_send w)"
  unfolding ping_send_def invoke_client_send_def Let_def by (intro keeps_intros new_cid_keeps [OF I] send_keeps [OF I])

lemma handle_response_keeps:
  assumes I: "session_only I"
  shows "keeps I (handle_client_response m)"
  unfolding handle_client_response_def by (intro keeps_modify_session [OF I]) (simp add: ws_frames)

lemmas ws_keeps = new_cid_keeps send_keeps internal_call_keeps on_forbidden_keeps parse_func_keeps register_keeps
  unregister_keeps ping_send_keeps handle_response_keeps

lemma keeps_case_sum: "(\<And>e. keeps I (m e)) \<Longrightarrow> (\<And>x. keeps I (f x)) \<Longrightarrow> keeps I (case v of Inl e \<Rightarrow> m e | Inr x \<Rightarrow> f x)"
  by (simp split: sum.split)

lemma keeps_case_prod: "(\<And>x y. keeps I (f x y)) \<Longrightarrow> keeps I (case p of (x, y) \<Rightarrow> f x y)"
  by (simp split: prod.split)

section \<open>Sessions\<close>

text \<open>The message of a client that may open a session.\<close>

definition accepted :: "ws_world \<Rightarrow> ws_config \<Rightarrow> string \<Rightarrow> bool" where
  "accepted w c data \<longleftrightarrow> (\<exists>m meta. ww_loads w data = Inr m \<and> wm_meta m = Some meta \<and>
     me_action meta = Some CREATE_SESSION \<and>
     (wc_needs_auth c \<longrightarrow> (\<exists>t vt. ww_auth w t (me_username meta) (me_secret meta) = Inr (True, vt))))"

definition has_token :: "ws_world \<Rightarrow> string \<Rightarrow> bool" where
  "has_token w data \<longleftrightarrow> (\<exists>m meta. ww_loads w data = Inr m \<and> wm_meta m = Some meta \<and> truthy_text (me_token meta))"

definition may_create :: "ws_world \<Rightarrow> ws_config \<Rightarrow> client_msg \<Rightarrow> bool" where
  "may_create w c request \<longleftrightarrow> (wc_needs_auth c \<longrightarrow>
     (\<exists>t vt. ww_auth w t (cm_username request) (cm_secret request) = Inr (True, vt)))"

lemma parsed_token:
  "parse_func w c data s = (Inr msg, t) \<Longrightarrow> truthy_text (cm_token msg) \<Longrightarrow> has_token w data"
  by (auto simp: parse_func_def parse_json_def parse_meta_def new_cid_def py_run Let_def ClientMessage_def
      truthy_text_def has_token_def split: if_splits sum.splits option.splits)

lemma parsed_credentials:
  "parse_func w c data s = (Inr msg, t) \<Longrightarrow> cm_is_auth msg = Some True \<Longrightarrow> may_create w c msg \<Longrightarrow> accepted w c data"
  by (auto simp: parse_func_def parse_json_def parse_meta_def new_cid_def py_run Let_def ClientMessage_def
      accepted_def may_create_def split: if_splits sum.splits option.splits) blast

lemma create_session_refused:
  assumes "\<not> may_create w c request"
  shows "create_session w c request s = (Inr None, s) \<or> (\<exists>e. create_session w c request s = (Inl e, s))"
  using assms by (auto simp: create_session_def can_create_session_def may_create_def py_run split: sum.split prod.split)

lemma create_session_keeps:
  assumes acc: "may_create w c request \<Longrightarrow> acc"
  shows "keeps (\<lambda>s. justified acc s \<and> invoked cs s) (create_session w c request)"
proof (cases acc)
  case True
  have I: "session_only (\<lambda>s. justified acc s \<and> invoked cs s)"
    by (auto simp: session_only_def ws_frames)
  show ?thesis
    unfolding create_session_def can_create_session_def Let_def
    by (intro keeps_intros keeps_case_sum keeps_case_prod new_cid_keeps [OF I])
      (use True in \<open>auto simp: ws_frames set_token_def\<close>)
next
  case False
  with acc have "\<not> may_create w c request" by blast
  then have "snd (create_session w c request s) = s" for s
    using create_session_refused [of w c request s] by auto
  then show ?thesis by (simp add: keeps_def)
qed

lemma handle_create_keeps:
  assumes acc: "cm_is_auth request = Some True \<Longrightarrow> may_create w c request \<Longrightarrow> acc"
  shows "keeps (\<lambda>s. justified acc s \<and> invoked cs s) (handle_create_session w c request)"
proof (cases "cm_is_auth request = Some True")
  case True
  have I: "session_only (\<lambda>s. justified acc s \<and> invoked cs s)"
    by (auto simp: session_only_def ws_frames)
  show ?thesis
    unfolding handle_create_session_def
    by (intro keeps_intros create_session_keeps acc send_keeps [OF I] register_keeps [OF I] on_forbidden_keeps [OF I] True)
next
  case False
  have I: "session_only (\<lambda>s. justified acc s \<and> invoked cs s)"
    by (auto simp: session_only_def ws_frames)
  have eq: "handle_create_session w c request =
      (if cm_is_auth request = None then py_raise AttributeError else on_forbidden w)"
    using False by (auto simp: handle_create_session_def py_value_def py_run fun_eq_iff split: option.split)
  show ?thesis unfolding eq by (intro keeps_intros on_forbidden_keeps [OF I])
qed

lemma invoke_service_justified: "keeps (justified acc) (handle_invoke_service w c cid msg)"
  unfolding handle_invoke_service_def invoke_service_def
  by (intro keeps_intros keeps_case_sum keeps_case_prod send_keeps session_only_frames) (auto simp: ws_frames)

text \<open>What handling a message in a session does.\<close>

lemma handle_in_session_justified:
  assumes "cm_is_auth request = Some True \<Longrightarrow> may_create w c request \<Longrightarrow> acc"
  shows "keeps (justified acc) (handle_in_session w c cid request)"
proof -
  have c: "keeps (justified acc) (handle_create_session w c request)"
  proof (rule keepsI)
    fix s assume "justified acc s"
    then show "justified acc (snd (handle_create_session w c request s))"
      using keepsD [OF handle_create_keeps [OF assms, where cs = "services s"], where s = s] by (simp add: invoked_def)
  qed
  show ?thesis
    unfolding handle_in_session_def handle_client_message_def
    by (intro keeps_intros on_forbidden_keeps handle_response_keeps session_only_frames invoke_service_justified c)
qed

lemma handle_in_session_services:
  assumes "services (snd (handle_in_session w c cid request s)) \<noteq> services s"
  shows "truthy_text (cm_token request) \<and> (\<exists>token. ws_token s = Some token \<and> ws_now s \<le> tk_expires_at token)"
proof (rule ccontr)
  assume no: "\<not> ?thesis"
  have f: "services (snd (on_forbidden w s)) = services s"
    using keepsD [OF on_forbidden_keeps [OF session_only_frames(3)], of "services s" s] by (simp add: invoked_def)
  from no have "handle_in_session w c cid request s = on_forbidden w s \<or>
      (\<exists>e. handle_in_session w c cid request s = (Inl e, s))"
    by (auto simp: handle_in_session_def py_run split: option.split)
  with f assms show False by auto
qed

text \<open>A message, from its parsing to its handler.\<close>

lemma received_message_cases:
  obtains (failed) t where "received_message w c data s = (Inr (), t)" "same_session s t"
  | (handled) request cid t u where "parse_func w c data s = (Inr request, t)" "same_session s u"
      "snd (received_message w c data s) =
         snd ((if ws_has_session_opened s then handle_in_session w c cid request else handle_create_session w c request) u)"
proof -
  have ps: "same_session s (snd (parse_func w c data s))"
    using keepsD [OF parse_func_keeps [OF session_only_frames(1)], of s s] by (simp add: same_session_def)
  obtain r t where p: "parse_func w c data s = (r, t)" by fastforce
  show thesis
  proof (cases r)
    case (Inl e)
    with p ps show thesis by (intro failed [of t]) (auto simp: received_message_def py_run)
  next
    case (Inr request)
    obtain cid v where n: "new_cid w t = (Inr cid, v)" by (simp add: new_cid_def py_run)
    have "same_session s v"
      using keepsD [OF new_cid_keeps [OF session_only_frames(1)], of s t w] ps p n by simp
    then have u: "same_session s (v\<lparr>ws_last_seen := ws_now v\<rparr>)" by (simp add: ws_frames)
    have "snd (received_message w c data s) =
        snd ((if ws_has_session_opened s then handle_in_session w c cid request else handle_create_session w c request)
          (v\<lparr>ws_last_seen := ws_now v\<rparr>))"
      using p Inr n u by (auto simp: received_message_def py_run same_session_def split: prod.split sum.split)
    with p Inr u show thesis by (intro handled [of request t]) auto
  qed
qed

lemma received_message_justified:
  assumes j: "justified acc s" and acc: "accepted w c data \<Longrightarrow> acc"
  shows "justified acc (snd (received_message w c data s))"
proof (cases rule: received_message_cases [of w c data s])
  case (failed t)
  with j show ?thesis by (simp add: ws_frames)
next
  case (handled request cid t u)
  have ok: "cm_is_auth request = Some True \<Longrightarrow> may_create w c request \<Longrightarrow> acc"
    using parsed_credentials [OF handled(1)] acc by blast
  have u: "justified acc u" using j handled(2) by (simp add: ws_frames)
  have "justified acc (snd (handle_create_session w c request u))"
    using keepsD [OF handle_create_keeps [OF ok, where cs = "services u"], where s = u] u by (simp add: invoked_def)
  moreover have "justified acc (snd (handle_in_session w c cid request u))"
    by (rule keepsD [OF handle_in_session_justified [OF ok] u])
  ultimately show ?thesis unfolding handled(3) by simp
qed

lemma received_message_services:
  assumes j: "justified True s" and new: "services (snd (received_message w c data s)) \<noteq> services s"
  shows "ws_has_session_opened s \<and> has_token w data \<and>
    (\<exists>token. ws_token s = Some token \<and> ws_now s \<le> tk_expires_at token)"
proof (cases rule: received_message_cases [of w c data s])
  case (failed t)
  with new show ?thesis by (simp add: ws_frames)
next
  case (handled request cid t u)
  have "justified True u" using j handled(2) by (simp add: ws_frames)
  have u: "services u = services s" "ws_token u = ws_token s" "ws_now u = ws_now s"
    using handled(2) by (simp_all add: same_session_def)
  have "services (snd (handle_create_session w c request u)) = services u"
    using keepsD [OF handle_create_keeps [where acc = True and cs = "services u"], where s = u] \<open>justified True u\<close>
    by (simp add: invoked_def)
  with new handled(3) u handle_in_session_services [of w c cid request u] parsed_token [OF handled(1)]
  show ?thesis by (auto split: if_splits)
qed

section \<open>Runs\<close>

definition ws_run :: "ws_world \<Rightarrow> ws_config \<Rightarrow> ws_event list \<Rightarrow> int \<Rightarrow> ws" where
  "ws_run w c es start = fold (\<lambda>e s. snd (ws_step w c e s)) es (new_ws start)"

lemma snd_seq_ret: "snd (py_seq m (py_ret x) s) = snd (m s)"
  by (simp add: py_run split: prod.split sum.split)

lemma ping_result_keeps: "keeps (\<lambda>s. justified acc s \<and> invoked cs s) (ping_result w c i)"
proof -
  have I: "session_only (\<lambda>s. justified acc s \<and> invoked cs s)"
    by (auto simp: session_only_def ws_frames)
  show ?thesis
    unfolding ping_result_def
    by (intro keeps_intros on_forbidden_keeps [OF I]) (auto simp: ws_frames)
qed

lemma keeps_step:
  "keeps I (ws_step w c (Invoke_Client cid data)) = keeps I (invoke_client_send w cid (Some data))"
  "keeps I (ws_step w c Ping_Send) = keeps I (ping_send w)"
  "keeps I (ws_step w c (Ping_Result i)) = keeps I (ping_result w c i)"
  "keeps I (ws_step w c (Ponged i)) = keeps I (ponged i)"
  "keeps I (ws_step w c Session_Timeout) = keeps I (ensure_session_created w)"
  "keeps I (ws_step w c (Add_Sub_Key k)) = keeps I (py_modify (ws_sub_keys_update (\<lambda>ks. ks @ [k])))"
  "keeps I (ws_step w c (Remove_Sub_Key k)) = keeps I (py_modify (ws_sub_keys_update (removeAll k)))"
  "keeps I (ws_step w c Closed) = keeps I (unregister_auth_client w)"
  by (simp_all add: keeps_def snd_seq_ret)

lemma quiet_step:
  assumes "\<And>data. e \<noteq> Message data"
  shows "keeps (\<lambda>s. justified acc s \<and> invoked cs s) (ws_step w c e)"
proof -
  have I: "session_only (\<lambda>s. justified acc s \<and> invoked cs s)"
    by (auto simp: session_only_def ws_frames)
  note simple = keeps_intros ping_result_keeps ping_send_keeps [OF I] unregister_keeps [OF I]
    on_forbidden_keeps [OF I] keeps_modify_session [OF I] send_keeps [OF I]
  show ?thesis
  proof (cases e)
    case (Tick n)
    have "keeps (\<lambda>s. justified acc s \<and> invoked cs s) (py_modify (ws_now_update (\<lambda>t. t + int n)))"
      by (rule keeps_modify) (simp add: ws_frames)
    with Tick show ?thesis by (auto simp: keeps_def snd_seq_ret)
  qed (use assms in \<open>auto intro!: simple simp: ensure_session_created_def ponged_def
      invoke_client_send_def Let_def same_session_def services_def keeps_step\<close>)
qed

lemma ws_run_justified:
  "justified (\<exists>data. Message data \<in> set es \<and> accepted w c data) (ws_run w c es start)"
proof (induction es rule: rev_induct)
  case Nil
  show ?case by (simp add: ws_run_def new_ws_def justified_def)
next
  case (snoc e es)
  let ?acc = "\<exists>data. Message data \<in> set (es @ [e]) \<and> accepted w c data"
  let ?s = "ws_run w c es start"
  have s: "justified ?acc ?s" using snoc by (auto simp: justified_def)
  have run: "ws_run w c (es @ [e]) start = snd (ws_step w c e ?s)" by (simp add: ws_run_def)
  show ?case
  proof (cases "\<exists>data. e = Message data")
    case True
    then obtain data where e: "e = Message data" by blast
    have "accepted w c data \<Longrightarrow> ?acc" using e by auto
    from received_message_justified [where w = w and c = c and data = data, OF s this] run e show ?thesis
      by (simp add: snd_seq_ret)
  next
    case False
    then show ?thesis
      using keepsD [OF quiet_step [of e ?acc "services ?s" w c], of ?s] s unfolding run by (auto simp: invoked_def)
  qed
qed

text \<open>
  Claim C12. Whatever a client and the services do, the service of a WebSocket channel is invoked
  only for a message with a token that comes within an open session whose token has not
  expired; and a session is open only after some message whose credentials the channel's
  security accepted, unless the channel needs none.
\<close>

theorem ws_service_needs_live_session:
  assumes s: "s = ws_run w c es start"
    and invoked: "services (snd (ws_step w c e s)) \<noteq> services s"
  shows "\<exists>data token. e = Message data \<and> has_token w data \<and> ws_has_session_opened s \<and>
    ws_token s = Some token \<and> ws_now s \<le> tk_expires_at token \<and>
    (\<exists>login. Message login \<in> set es \<and> accepted w c login)"
proof -
  note j = ws_run_justified [of es w c start, folded s]
  obtain data where e: "e = Message data"
  proof (cases "\<exists>data. e = Message data")
    case False
    have "justified True s" using j by (auto simp: justified_def)
    with False keepsD [OF quiet_step [of e True "services s" w c], of s] invoked show thesis
      by (auto simp: invoked_def)
  qed blast
  have "justified True s" using j by (auto simp: justified_def)
  from received_message_services [OF this, of w c data] invoked j e show ?thesis
    by (auto simp: snd_seq_ret justified_def)
qed

text \<open>A channel with credentials, and a client that logs in and calls the service twice.\<close>

definition demo_meta :: "ws_action \<Rightarrow> string option \<Rightarrow> ws_meta" where
  "demo_meta a token = \<lparr>me_action = Some a, me_id = Some ''1'', me_timestamp = Some ''now'', me_token = token,
     me_client_id = Some ''c1'', me_client_name = None, me_username = Some ''ann'', me_secret = Some ''pw'',
     me_in_reply_to = None\<rparr>"

definition demo_world :: ws_world where
  "demo_world = \<lparr>ww_loads = (\<lambda>t. Inr \<lparr>wm_meta = Some (if t = ''login'' then demo_meta CREATE_SESSION None
       else demo_meta (OtherAction ''invoke-service'') (Some t)), wm_data = t\<rparr>),
     ww_cid = (\<lambda>n. replicate n CHR ''c''), ww_auth = (\<lambda>_ u p. Inr (u = Some ''ann'' \<and> p = Some ''pw'', None)),
     ww_send = (\<lambda>_. None), ww_call = (\<lambda>_ _. Inr ''done''), ww_client_id = (\<lambda>_. 7), ww_exn_msg = (\<lambda>_. [])\<rparr>"

definition demo_config :: ws_config where
  "demo_config = \<lparr>wc_name = ''ws'', wc_service_name = ''svc'', wc_token_ttl = 60, wc_needs_auth = True,
     wc_is_vault = False, wc_is_json = True, wc_pings_missed_threshold = 2, wc_new_token_wait_time = 5\<rparr>"

theorem ws_service_needs_live_session_witness:
  "let s = ws_run demo_world demo_config [Message ''login'', Tick 30] 100 in
   services (snd (ws_step demo_world demo_config (Message ''any'') s)) = [Invoke_Channel_Service ''any''] \<and>
   (\<exists>token. ws_token s = Some token \<and> ws_now s \<le> tk_expires_at token)"
proof -
  let ?s = "ws_run demo_world demo_config [Message ''login'', Tick 30] 100"
  have new: "services (snd (ws_step demo_world demo_config (Message ''any'') ?s)) = [Invoke_Channel_Service ''any'']"
    "services ?s = []"
    by code_simp+
  then have "services (snd (ws_step demo_world demo_config (Message ''any'') ?s)) \<noteq> services ?s" by simp
  from ws_service_needs_live_session [OF refl this] new(1) show ?thesis by (auto simp: Let_def)
qed

section \<open>Clients that do not answer\<close>

text \<open>
  A client that answers no ping is disconnected exactly when it has missed as many in a
  row as the channel's threshold says.
\<close>

theorem silent_client_is_disconnected:
  assumes "\<forall>i \<in> set ids. \<not> is_answer (client_response i s)" "\<forall>n. ww_send w n = None"
    and "ws_pings_missed s < wc_pings_missed_threshold c"
  shows "let t = fold (\<lambda>i s. snd (ping_result w c i s)) ids s in
    ws_pings_missed t = ws_pings_missed s + int (length ids) \<and>
    (ws_server_terminated t \<longleftrightarrow> ws_server_terminated s \<or> ws_pings_missed s + int (length ids) \<ge> wc_pings_missed_threshold c)"
proof -
  have one: "ws_pings_missed t = ws_pings_missed s + 1 \<and> ws_responses_received t = ws_responses_received s \<and>
      (ws_server_terminated t \<longleftrightarrow> ws_server_terminated s \<or> ws_pings_missed s + 1 \<ge> wc_pings_missed_threshold c)"
    if "\<not> is_answer (client_response i s)" "t = snd (ping_result w c i s)" for i s t
    using that assms(2)
    by (auto simp: ping_result_def on_forbidden_def new_cid_def ws_send_def py_run)
  have "let t = fold (\<lambda>i s. snd (ping_result w c i s)) ids s in
      ws_pings_missed t = ws_pings_missed s + int (length ids) \<and>
      (ws_server_terminated t \<longleftrightarrow> ws_server_terminated s \<or>
        ids \<noteq> [] \<and> ws_pings_missed s + int (length ids) \<ge> wc_pings_missed_threshold c)"
    using assms(1)
  proof (induction ids arbitrary: s)
    case (Cons i ids)
    let ?u = "snd (ping_result w c i s)"
    have u: "ws_pings_missed ?u = ws_pings_missed s + 1" "ws_responses_received ?u = ws_responses_received s"
      "ws_server_terminated ?u \<longleftrightarrow> ws_server_terminated s \<or> ws_pings_missed s + 1 \<ge> wc_pings_missed_threshold c"
      using one [of i s ?u] Cons.prems by auto
    have "\<forall>i \<in> set ids. \<not> is_answer (client_response i ?u)"
      using Cons.prems u(2) by (simp add: client_response_def)
    from Cons.IH [OF this] u show ?case by (auto simp: Let_def algebra_simps)
  qed simp
  with assms(3) show ?thesis by (cases ids) (auto simp: Let_def)
qed

theorem silent_client_is_disconnected_witness:
  "let s = ws_run demo_world demo_config [Message ''login''] 100;
       t = fold (\<lambda>i s. snd (ping_result demo_world demo_config i s)) [''p1'', ''p2''] s in
   ws_pings_missed t = 2 \<and> ws_server_terminated t"
proof -
  let ?s = "ws_run demo_world demo_config [Message ''login''] 100"
  have "\<forall>i \<in> set [''p1'', ''p2'']. \<not> is_answer (client_response i ?s)" "ws_pings_missed ?s = 0"
    by code_simp+
  moreover have "\<forall>n. ww_send demo_world n = None" "wc_pings_missed_threshold demo_config = 2"
    by (simp_all add: demo_world_def demo_config_def)
  ultimately show ?thesis
    using silent_client_is_disconnected [of "[''p1'', ''p2'']" ?s demo_world demo_config] by (simp add: Let_def)
qed

section \<open>Where sessions fall short\<close>

text \<open>The token of a message is never compared with that of the session: any text will do.\<close>

lemma any_token_accepted:
  "let s = ws_run demo_world demo_config [Message ''login''] 100 in
   map_option tk_value (ws_token s) = Some ''ws.token.cc'' \<and>
   services (snd (ws_step demo_world demo_config (Message ''nonsense'') s)) = [Invoke_Channel_Service ''nonsense'']"
  by code_simp

text \<open>
  Each login within a session starts another greenlet of pings and registers another client;
  and the token, instead of being given a life of its own, is prolonged from its old end.
\<close>

definition relogin_world :: ws_world where
  "relogin_world = demo_world\<lparr>ww_loads := \<lambda>t. Inr \<lparr>wm_meta = Some (demo_meta CREATE_SESSION (Some ''x'')), wm_data = t\<rparr>\<rparr>"

lemma login_twice_pings_twice:
  "let s = ws_run relogin_world demo_config [Message ''a'', Message ''b''] 100 in
   ws_pingers s = 2 \<and> ws_calls s = [Client_Create, Client_Create] \<and> map_option tk_expires_at (ws_token s) = Some 220"
  by code_simp

end
