(* ===== verification/Retry.thy ===== *)
theory Retry
  imports Py_Prelude
begin

text \<open>
  The invoke-retry pattern: a service invokes another one and, when that fails, again, either
  itself, blocking (zato-server pattern/invoke_retry.py), or through a service in the background
  that reports to a callback (service/internal/pattern/invoke_retry.py). What the n-th
  invocation of the target gives is a function \<open>call\<close> of n; a result that is false in
  Python is \<open>None\<close>.
\<close>

section \<open>Settings\<close>

record retry_kwargs =
  rk_async_fallback :: bool
  rk_callback :: "string option"
  rk_context :: string
  rk_repeats :: "int option"
  rk_seconds :: "int option"
  rk_minutes :: "int option"
  rk_cid :: "string option"

record retry_settings =
  rs_async_fallback :: bool
  rs_callback :: "string option"
  rs_context :: string
  rs_repeats :: "int option"
  rs_seconds :: int

definition truthy_int :: "int option \<Rightarrow> bool" where
  "truthy_int v \<longleftrightarrow> v \<noteq> None \<and> v \<noteq> Some 0"

definition truthy_name :: "string option \<Rightarrow> bool" where
  "truthy_name v \<longleftrightarrow> v \<noteq> None \<and> v \<noteq> Some []"

definition get_retry_settings :: "(string \<Rightarrow> bool) \<Rightarrow> retry_kwargs \<Rightarrow> exn + retry_settings" where
  "get_retry_settings service_exists k =
     (if rk_async_fallback k \<and>
         (\<not> truthy_name (rk_callback k) \<or> \<not> truthy_int (rk_repeats k) \<or>
          (truthy_int (rk_seconds k) \<and> truthy_int (rk_minutes k)) \<or>
          \<not> (truthy_int (rk_seconds k) \<or> truthy_int (rk_minutes k)) \<or>
          \<not> service_exists (the (rk_callback k)))
      then Inl ValueError
      else (case (if truthy_int (rk_seconds k) then rk_seconds k else map_option (\<lambda>m. m * 60) (rk_minutes k)) of
              None \<Rightarrow> Inl TypeError
            | Some secs \<Rightarrow> Inr \<lparr>rs_async_fallback = rk_async_fallback k, rs_callback = rk_callback k,
                rs_context = rk_context k, rs_repeats = rk_repeats k, rs_seconds = secs\<rparr>))"

section \<open>In the foreground\<close>

record retry_request =
  rr_target :: string
  rr_retry_repeats :: "int option"
  rr_retry_seconds :: int
  rr_orig_cid :: string
  rr_call_cid :: string
  rr_callback :: "string option"
  rr_callback_context :: string

record retry_state =
  rt_calls :: nat
  rt_sleeps :: "int list"
  rt_async :: "retry_request list"
  rt_cid :: string

text \<open>What the method returns: the result of the target, the id of the background call, or nothing.\<close>

datatype retry_result = Target_Result "string option" | Call_Cid string | Nothing

definition call_target :: "(nat \<Rightarrow> exn + string option) \<Rightarrow> (retry_state, string option) py" where
  "call_target call = py_bind (py_get rt_calls) (\<lambda>n.
     py_seq (py_modify (rt_calls_update Suc))
       (case call n of Inl e \<Rightarrow> py_raise e | Inr r \<Rightarrow> py_ret r))"

text \<open>The loop: only a failure counts down \<open>remaining\<close>; \<open>None\<close> is a loop still running.\<close>

fun retry_loop ::
  "(nat \<Rightarrow> exn + string option) \<Rightarrow> int \<Rightarrow> nat \<Rightarrow> int \<Rightarrow> string option \<Rightarrow> retry_state \<Rightarrow>
   (string option \<times> retry_state) option" where
  "retry_loop call secs fuel remaining result s =
     (if remaining \<le> 1 then Some (result, s)
      else case fuel of
        0 \<Rightarrow> None
      | Suc fuel \<Rightarrow>
          (case call_target call s of
             (Inr r, t) \<Rightarrow> retry_loop call secs fuel remaining r t
           | (Inl _, t) \<Rightarrow>
               retry_loop call secs fuel (remaining - 1) result (t\<lparr>rt_sleeps := rt_sleeps t @ [secs]\<rparr>)))"

declare retry_loop.simps [simp del]

definition invoke_async_retry ::
  "string \<Rightarrow> retry_settings \<Rightarrow> string \<Rightarrow> retry_state \<Rightarrow> retry_state" where
  "invoke_async_retry target st call_cid s = s\<lparr>rt_async := rt_async s @ [\<lparr>rr_target = target,
     rr_retry_repeats = rs_repeats st, rr_retry_seconds = rs_seconds st, rr_orig_cid = rt_cid s,
     rr_call_cid = call_cid, rr_callback = rs_callback st, rr_callback_context = rs_context st\<rparr>]\<rparr>"

definition retry_invoke_async ::
  "(string \<Rightarrow> bool) \<Rightarrow> string \<Rightarrow> retry_kwargs \<Rightarrow> (retry_state, retry_result) py" where
  "retry_invoke_async service_exists target k s =
     (case get_retry_settings service_exists k of
        Inl e \<Rightarrow> (Inl e, s)
      | Inr st \<Rightarrow>
          (case rk_cid k of
             None \<Rightarrow> (Inl KeyError, s)
           | Some cid \<Rightarrow> (Inr (Call_Cid cid), invoke_async_retry target st cid s)))"

definition retry_invoke ::
  "(string \<Rightarrow> bool) \<Rightarrow> (nat \<Rightarrow> exn + string option) \<Rightarrow> string \<Rightarrow> nat \<Rightarrow> string \<Rightarrow> retry_kwargs \<Rightarrow> retry_state \<Rightarrow>
   ((exn + retry_result) \<times> retry_state) option" where
  "retry_invoke service_exists call fresh_cid fuel target k s =
     (case get_retry_settings service_exists k of
        Inl e \<Rightarrow> Some (Inl e, s)
      | Inr st \<Rightarrow>
          let cid = (case rk_cid k of None \<Rightarrow> fresh_cid | Some c \<Rightarrow> c) in
          (case call_target call s of
             (Inr r, t) \<Rightarrow> Some (Inr (Target_Result r), t)
           | (Inl _, t) \<Rightarrow>
               if rs_async_fallback st then Some (Inr (Call_Cid cid), invoke_async_retry target st cid t)
               else map_option (\<lambda>(result, u).
                      (if result = None then Inl (OtherError ''ZatoException'') else Inr Nothing, u))
                      (retry_loop call (rs_seconds st) fuel
                         (case rs_repeats st of None \<Rightarrow> 0 | Some r \<Rightarrow> r) None t)))"

section \<open>In the background\<close>

record callback_request =
  cb_ok :: bool
  cb_orig_cid :: string
  cb_call_cid :: string
  cb_target :: string
  cb_context :: string
  cb_response :: "string option"

definition notify_callback :: "retry_request \<Rightarrow> bool \<Rightarrow> string option \<Rightarrow> callback_request" where
  "notify_callback q is_ok response = \<lparr>cb_ok = is_ok, cb_orig_cid = rr_orig_cid q, cb_call_cid = rr_call_cid q,
     cb_target = rr_target q, cb_context = rr_callback_context q, cb_response = response\<rparr>"

text \<open>
  A run of the background service: each failed attempt is followed, after a delay, by another one
  as long as the count carried by the exception is not zero. The result is what the callback is
  sent and the number of invocations; \<open>None\<close> is a run that is still going on.
\<close>

fun background_retry ::
  "(nat \<Rightarrow> exn + string option) \<Rightarrow> retry_request \<Rightarrow> nat \<Rightarrow> int \<Rightarrow> nat \<Rightarrow> (callback_request \<times> nat) option" where
  "background_retry call q 0 remaining n = None"
| "background_retry call q (Suc fuel) remaining n =
     (case call n of
        Inr r \<Rightarrow> Some (notify_callback q True r, Suc n)
      | Inl _ \<Rightarrow>
          if remaining - 1 \<noteq> 0 then background_retry call q fuel (remaining - 1) (Suc n)
          else Some (notify_callback q False None, Suc n))"

definition background_handle ::
  "(nat \<Rightarrow> exn + string option) \<Rightarrow> nat \<Rightarrow> retry_request \<Rightarrow> nat \<Rightarrow> (callback_request \<times> nat) option" where
  "background_handle call fuel q n =
     (case rr_retry_repeats q of None \<Rightarrow> None | Some r \<Rightarrow> background_retry call q fuel r n)"

section \<open>What becomes of a retried call\<close>

lemma call_target_eq:
  "call_target call s = (call (rt_calls s), s\<lparr>rt_calls := Suc (rt_calls s)\<rparr>)"
  by (cases "call (rt_calls s)") (simp_all add: call_target_def py_run)

definition failed :: "(nat \<Rightarrow> exn + string option) \<Rightarrow> nat \<Rightarrow> bool" where
  "failed call n = isl (call n)"

text \<open>The loop has ended after as many further calls as it needs to see \<open>remaining - 1\<close> failures.\<close>

lemma retry_loop_ends:
  "retry_loop call secs fuel remaining result s \<noteq> None \<longleftrightarrow>
     remaining - 1 \<le> int (length (filter (failed call) [rt_calls s..<rt_calls s + fuel]))"
proof (induction fuel arbitrary: remaining result s)
  case 0
  then show ?case by (subst retry_loop.simps) simp
next
  case (Suc fuel)
  let ?n = "rt_calls s"
  define fs where "fs = length (filter (failed call) [Suc ?n..<Suc ?n + fuel])"
  have "[?n..<?n + Suc fuel] = ?n # [Suc ?n..<Suc ?n + fuel]" by (simp add: upt_conv_Cons)
  then have len: "length (filter (failed call) [?n..<?n + Suc fuel]) = (if failed call ?n then Suc fs else fs)"
    by (simp only: fs_def filter.simps length_Cons if_distrib [of length])
  have IH: "retry_loop call secs fuel r res t \<noteq> None \<longleftrightarrow> r - 1 \<le> int fs" if "rt_calls t = Suc ?n" for r res t
    using Suc.IH [of r res t] that by (simp only: fs_def)
  show ?case
  proof (cases "remaining \<le> 1")
    case True
    then show ?thesis by (subst retry_loop.simps) simp
  next
    case False
    have turn: "retry_loop call secs (Suc fuel) remaining result s =
        (case call ?n of
           Inr r \<Rightarrow> retry_loop call secs fuel remaining r (s\<lparr>rt_calls := Suc ?n\<rparr>)
         | Inl _ \<Rightarrow> retry_loop call secs fuel (remaining - 1) result
             (s\<lparr>rt_calls := Suc ?n, rt_sleeps := rt_sleeps s @ [secs]\<rparr>))"
      using False by (subst retry_loop.simps) (simp add: call_target_eq split: sum.split)
    show ?thesis
    proof (cases "call ?n")
      case (Inl e)
      have "retry_loop call secs (Suc fuel) remaining result s \<noteq> None \<longleftrightarrow> (remaining - 1) - 1 \<le> int fs"
        unfolding turn Inl sum.case by (rule IH) simp
      with Inl show ?thesis unfolding len by (simp add: failed_def) linarith
    next
      case (Inr r)
      have "retry_loop call secs (Suc fuel) remaining result s \<noteq> None \<longleftrightarrow> remaining - 1 \<le> int fs"
        unfolding turn Inr sum.case by (rule IH) simp
      with Inr show ?thesis unfolding len by (simp add: failed_def)
    qed
  qed
qed

lemma retry_loop_all_fail:
  assumes "\<And>i. failed call i" "0 \<le> k" "nat k \<le> fuel"
  shows "retry_loop call secs fuel (k + 1) None s =
    Some (None, s\<lparr>rt_calls := rt_calls s + nat k, rt_sleeps := rt_sleeps s @ replicate (nat k) secs\<rparr>)"
  using assms(2,3)
proof (induction fuel arbitrary: k s)
  case 0
  then show ?case by (subst retry_loop.simps) simp
next
  case (Suc fuel)
  obtain e where e: "call (rt_calls s) = Inl e" using assms(1) [of "rt_calls s"] by (auto simp: failed_def isl_def)
  show ?case
  proof (cases "k = 0")
    case True
    then show ?thesis by (subst retry_loop.simps) simp
  next
    case False
    then obtain m where m: "k = int (Suc m)" using Suc.prems(1) by (metis gr0_implies_Suc nat_0_iff nat_0_le neq0_conv order_antisym of_nat_eq_iff)
    have "retry_loop call secs fuel (int m + 1) None (s\<lparr>rt_calls := Suc (rt_calls s), rt_sleeps := rt_sleeps s @ [secs]\<rparr>)
        = Some (None, s\<lparr>rt_calls := rt_calls s + Suc m, rt_sleeps := rt_sleeps s @ secs # replicate m secs\<rparr>)"
      using Suc.IH [of "int m"] Suc.prems(2) m by simp
    moreover have "nat (1 + int m) = Suc m" by simp
    ultimately show ?thesis using e m
      by (subst retry_loop.simps) (simp add: call_target_eq add.commute [of "int m" 1])
  qed
qed

lemma call_failed: "failed call n \<longleftrightarrow> (\<exists>e. call n = Inl e)"
  by (auto simp: failed_def isl_def)

text \<open>
  Claim C30. When the first attempt of a blocking call fails, the call never hands on the result of a
  retry: it returns nothing or raises. It ends exactly when its further attempts have failed one time
  less than \<open>repeats\<close> says: a target that recovers keeps it in the loop for good, and one that never
  does makes it raise after \<open>repeats\<close> attempts, at least one, with a pause after each retry. The
  arguments are such that the settings of retries can be read from them, with \<open>repeats\<close> given; the
  state counts attempts and pauses, and \<open>fuel\<close> bounds the retries.
\<close>

theorem blocking_retry_outcome:
  assumes st: "get_retry_settings exists k = Inr st" "\<not> rs_async_fallback st" "rs_repeats st = Some repeats"
    and first: "failed call (rt_calls s)"
  defines "fails fuel \<equiv> length (filter (failed call) [Suc (rt_calls s)..<Suc (rt_calls s) + fuel])"
  shows "(retry_invoke exists call cid fuel target k s \<noteq> None \<longleftrightarrow> repeats - 1 \<le> int (fails fuel)) \<and>
    (\<forall>out t. retry_invoke exists call cid fuel target k s = Some (out, t) \<longrightarrow>
      out = Inr Nothing \<or> out = Inl (OtherError ''ZatoException'')) \<and>
    ((\<forall>n. failed call n) \<longrightarrow> 1 \<le> repeats \<longrightarrow> nat repeats \<le> fuel \<longrightarrow>
      retry_invoke exists call cid fuel target k s = Some (Inl (OtherError ''ZatoException''),
        s\<lparr>rt_calls := rt_calls s + nat repeats, rt_sleeps := rt_sleeps s @ replicate (nat repeats - 1) (rs_seconds st)\<rparr>))"
proof -
  let ?t = "s\<lparr>rt_calls := Suc (rt_calls s)\<rparr>"
  obtain e where e: "call (rt_calls s) = Inl e" using first by (auto simp: call_failed)
  have run: "retry_invoke exists call cid fuel target k s =
      map_option (\<lambda>(result, u). (if result = None then Inl (OtherError ''ZatoException'') else Inr Nothing, u))
        (retry_loop call (rs_seconds st) fuel repeats None ?t)"
    using st e by (simp add: retry_invoke_def call_target_eq Let_def)
  have "retry_invoke exists call cid fuel target k s \<noteq> None \<longleftrightarrow> repeats - 1 \<le> int (fails fuel)"
    using retry_loop_ends [of call "rs_seconds st" fuel repeats None ?t] unfolding run fails_def by simp
  moreover have "\<forall>out t. retry_invoke exists call cid fuel target k s = Some (out, t) \<longrightarrow>
      out = Inr Nothing \<or> out = Inl (OtherError ''ZatoException'')"
    unfolding run by auto
  moreover have "retry_invoke exists call cid fuel target k s = Some (Inl (OtherError ''ZatoException''),
        s\<lparr>rt_calls := rt_calls s + nat repeats, rt_sleeps := rt_sleeps s @ replicate (nat repeats - 1) (rs_seconds st)\<rparr>)"
    if all: "\<forall>n. failed call n" and r: "1 \<le> repeats" "nat repeats \<le> fuel"
  proof -
    have "retry_loop call (rs_seconds st) fuel ((repeats - 1) + 1) None ?t = Some (None,
        ?t\<lparr>rt_calls := rt_calls ?t + nat (repeats - 1), rt_sleeps := rt_sleeps ?t @ replicate (nat (repeats - 1)) (rs_seconds st)\<rparr>)"
      by (rule retry_loop_all_fail) (use all r in simp_all)
    moreover have "nat (repeats - 1) = nat repeats - 1" "Suc (nat repeats - 1) = nat repeats" using r by simp_all
    ultimately show ?thesis unfolding run by simp
  qed
  ultimately show ?thesis by blast
qed

definition demo_kwargs :: retry_kwargs where
  "demo_kwargs = \<lparr>rk_async_fallback = False, rk_callback = None, rk_context = [], rk_repeats = Some 3,
     rk_seconds = Some 5, rk_minutes = None, rk_cid = None\<rparr>"

definition demo_retry :: retry_state where
  "demo_retry = \<lparr>rt_calls = 0, rt_sleeps = [], rt_async = [], rt_cid = ''c''\<rparr>"

theorem blocking_retry_outcome_witness:
  "retry_invoke (\<lambda>_. True) (\<lambda>_. Inl TypeError) [] 3 ''svc'' demo_kwargs demo_retry =
     Some (Inl (OtherError ''ZatoException''), demo_retry\<lparr>rt_calls := 3, rt_sleeps := [5, 5]\<rparr>) \<and>
   retry_invoke (\<lambda>_. True) (\<lambda>n. if n = 0 then Inl TypeError else Inr (Some ''ok'')) [] 9 ''svc'' demo_kwargs demo_retry = None"
proof -
  have st: "get_retry_settings (\<lambda>_. True) demo_kwargs = Inr \<lparr>rs_async_fallback = False, rs_callback = None,
      rs_context = [], rs_repeats = Some 3, rs_seconds = 5\<rparr>"
    by (simp add: get_retry_settings_def demo_kwargs_def truthy_int_def)
  have s: "rt_calls demo_retry = 0" "rt_sleeps demo_retry = []" by (simp_all add: demo_retry_def)
  have two: "replicate 2 (5::int) = [5, 5]" by (simp add: numeral_eq_Suc)
  let ?recovers = "\<lambda>n::nat. if n = 0 then Inl TypeError else Inr (Some ''ok'')"
  have "filter (failed ?recovers) [Suc 0..<Suc 0 + 9] = []" by (simp add: failed_def filter_empty_conv)
  with blocking_retry_outcome [OF st, of 3 ?recovers demo_retry "[]" 9 "''svc''"]
  have "\<not> retry_invoke (\<lambda>_. True) ?recovers [] 9 ''svc'' demo_kwargs demo_retry \<noteq> None"
    by (simp add: s failed_def del: upt_Suc)
  moreover have "retry_invoke (\<lambda>_. True) (\<lambda>_. Inl TypeError) [] 3 ''svc'' demo_kwargs demo_retry =
      Some (Inl (OtherError ''ZatoException''), demo_retry\<lparr>rt_calls := 3, rt_sleeps := [5, 5]\<rparr>)"
    using blocking_retry_outcome [OF st, of 3 "\<lambda>_. Inl TypeError" demo_retry "[]" 3 "''svc''"]
    by (simp add: s failed_def two del: upt_Suc)
  ultimately show ?thesis by blast
qed

section \<open>What becomes of a call in the background\<close>

lemma background_retry_calls:
  assumes "0 < r" "nat r \<le> fuel"
  shows "background_retry call q fuel r n =
    (case find (\<lambda>i. \<not> failed call i) [n..<n + nat r] of
       Some i \<Rightarrow> Some (notify_callback q True (projr (call i)), Suc i)
     | None \<Rightarrow> Some (notify_callback q False None, n + nat r))"
  using assms
proof (induction fuel arbitrary: r n)
  case (Suc fuel)
  obtain m where m: "nat r = Suc m" using Suc.prems(1) by (metis gr0_implies_Suc zero_less_nat_eq)
  have upt: "[n..<n + nat r] = n # [Suc n..<Suc n + m]" unfolding m by (simp add: upt_conv_Cons)
  show ?case
  proof (cases "call n")
    case (Inr x)
    then show ?thesis unfolding upt by (simp add: failed_def)
  next
    case (Inl e)
    have r: "r - 1 = int m" using m by simp
    show ?thesis
    proof (cases m)
      case 0
      then show ?thesis using Inl m r unfolding upt by (simp add: failed_def)
    next
      case (Suc m')
      have "background_retry call q (Suc fuel) r n = background_retry call q fuel (int m) (Suc n)"
        using Inl r Suc by simp
      also have "\<dots> = (case find (\<lambda>i. \<not> failed call i) [Suc n..<Suc n + m] of
          Some i \<Rightarrow> Some (notify_callback q True (projr (call i)), Suc i)
        | None \<Rightarrow> Some (notify_callback q False None, Suc n + m))"
        using Suc.IH [of "int m" "Suc n"] Suc Suc.prems(2) m by (simp only: nat_int)
      moreover have "find (\<lambda>i. \<not> failed call i) [n..<n + nat r] = find (\<lambda>i. \<not> failed call i) [Suc n..<Suc n + m]"
        unfolding upt using Inl by (simp add: failed_def del: upt_Suc)
      moreover have "n + nat r = Suc n + m" using m by simp
      ultimately show ?thesis by (simp only:)
    qed
  qed
qed simp

text \<open>
  A call that falls back to the background is tried there until it succeeds, but at most
  as often as \<open>repeats\<close> says, and the callback is then told once: of the result of the
  first success, or that every attempt failed.
\<close>

theorem background_retry_notifies_once:
  assumes st: "get_retry_settings exists k = Inr st" "rs_async_fallback st" "rs_repeats st = Some repeats" "0 < repeats"
    and first: "failed call (rt_calls s)" and fuel: "nat repeats \<le> fuel"
  shows "\<exists>q t. retry_invoke exists call cid fuel' target k s =
      Some (Inr (Call_Cid (case rk_cid k of None \<Rightarrow> cid | Some c \<Rightarrow> c)), t) \<and>
    rt_async t = rt_async s @ [q] \<and> rr_target q = target \<and>
    background_handle call fuel q (rt_calls t) =
      (case find (\<lambda>i. \<not> failed call i) [rt_calls t..<rt_calls t + nat repeats] of
         Some i \<Rightarrow> Some (notify_callback q True (projr (call i)), Suc i)
       | None \<Rightarrow> Some (notify_callback q False None, rt_calls t + nat repeats))"
proof -
  obtain e where e: "call (rt_calls s) = Inl e" using first by (auto simp: call_failed)
  let ?c = "case rk_cid k of None \<Rightarrow> cid | Some c \<Rightarrow> c"
  define t where "t = invoke_async_retry target st ?c (s\<lparr>rt_calls := Suc (rt_calls s)\<rparr>)"
  obtain q where q: "rt_async t = rt_async s @ [q]" "rr_target q = target" "rr_retry_repeats q = Some repeats"
    using st(3) by (simp add: t_def invoke_async_retry_def)
  have run: "retry_invoke exists call cid fuel' target k s = Some (Inr (Call_Cid ?c), t)"
    using st(1,2) e by (simp add: retry_invoke_def call_target_eq Let_def t_def)
  have "background_handle call fuel q (rt_calls t) = background_retry call q fuel repeats (rt_calls t)"
    by (simp add: background_handle_def q(3))
  with q background_retry_calls [OF st(4) fuel, of call q "rt_calls t"] run show ?thesis
    by (intro exI [of _ q] exI [of _ t] conjI) (simp_all only:)
qed

theorem background_retry_notifies_once_witness:
  "\<exists>q. background_handle (\<lambda>n. if n < 2 then Inl TypeError else Inr (Some ''ok'')) 3 q 1 =
     Some (notify_callback q True (Some ''ok''), 3)"
proof -
  let ?k = "demo_kwargs\<lparr>rk_async_fallback := True, rk_callback := Some ''cb''\<rparr>"
  let ?call = "\<lambda>n::nat. if n < 2 then Inl TypeError else Inr (Some ''ok'')"
  have st: "get_retry_settings (\<lambda>_. True) ?k = Inr \<lparr>rs_async_fallback = True, rs_callback = Some ''cb'',
      rs_context = [], rs_repeats = Some 3, rs_seconds = 5\<rparr>"
    by (simp add: get_retry_settings_def demo_kwargs_def truthy_int_def truthy_name_def)
  have "find (\<lambda>i. \<not> failed ?call i) [1..<1 + nat 3] = Some 2" by code_simp
  with background_retry_notifies_once [OF st, of 3 ?call demo_retry 3 "[]" 0 "''svc''"]
  show ?thesis
    by (auto simp: failed_def demo_retry_def retry_invoke_def st call_target_eq Let_def invoke_async_retry_def)
qed

end
