(* ===== verification/Py_Text.thy ===== *)
theory Py_Text
  imports Py_Prelude "HOL-Library.Sublist"
begin

text \<open>
  Texts as Python reads and writes them: stripping, padding, lines, and integers. All characters
  are 8-bit ones.
\<close>

section \<open>Stripping, padding and lines\<close>

definition strip_chars :: "string \<Rightarrow> string \<Rightarrow> string" where
  "strip_chars cs s = rev (dropWhile (\<lambda>c. c \<in> set cs) (rev (dropWhile (\<lambda>c. c \<in> set cs) s)))"

definition whitespace :: string where
  "whitespace = map char_of [9::nat, 10, 11, 12, 13, 32]"

definition newline :: char where
  "newline = char_of (10::nat)"

fun split_on :: "char \<Rightarrow> string \<Rightarrow> string list" where
  "split_on c [] = [[]]"
| "split_on c (x # xs) =
     (if x = c then [] # split_on c xs
      else case split_on c xs of [] \<Rightarrow> [[x]] | t # ts \<Rightarrow> (x # t) # ts)"

fun join_on :: "char \<Rightarrow> string list \<Rightarrow> string" where
  "join_on c [] = []"
| "join_on c [t] = t"
| "join_on c (t # ts) = t @ c # join_on c ts"

text \<open>\<open>s.replace(p, '')\<close>.\<close>

function erase :: "string \<Rightarrow> string \<Rightarrow> string" where
  "erase p s =
     (if s = [] then []
      else if p \<noteq> [] \<and> prefix p s then erase p (drop (length p) s)
      else hd s # erase p (tl s))"
  by pat_completeness auto

termination
  by (relation "measure (\<lambda>(p, s). length s)") auto

declare erase.simps [simp del]

lemma split_on_not_empty [simp]: "split_on c s \<noteq> []"
  by (induction s) (auto split: list.split)

lemma split_on_parts: "t \<in> set (split_on c s) \<Longrightarrow> c \<notin> set t"
proof (induction s arbitrary: t)
  case (Cons x xs)
  then show ?case by (auto split: if_splits list.splits)
qed simp

lemma split_on_no: "c \<notin> set t \<Longrightarrow> split_on c t = [t]"
  by (induction t) auto

lemma split_on_append: "c \<notin> set t \<Longrightarrow> split_on c (t @ c # s) = t # split_on c s"
  by (induction t) auto

lemma split_join: "ts \<noteq> [] \<Longrightarrow> list_all (\<lambda>t. c \<notin> set t) ts \<Longrightarrow> split_on c (join_on c ts) = ts"
  by (induction c ts rule: join_on.induct) (simp_all add: split_on_no split_on_append)

definition ljust :: "nat \<Rightarrow> char \<Rightarrow> string \<Rightarrow> string" where
  "ljust n c s = s @ replicate (n - length s) c"

definition rjust :: "nat \<Rightarrow> char \<Rightarrow> string \<Rightarrow> string" where
  "rjust n c s = replicate (n - length s) c @ s"

text \<open>The lines a file object iterates over, without their ends.\<close>

fun lines_of :: "string \<Rightarrow> string list" where
  "lines_of [] = []"
| "lines_of (c # cs) =
     (if c = newline then [] # lines_of cs
      else case lines_of cs of
        [] \<Rightarrow> [[c]]
      | l # ls \<Rightarrow> (c # l) # ls)"

fun join_lines :: "string list \<Rightarrow> string" where
  "join_lines [] = []"
| "join_lines [l] = l"
| "join_lines (l # ls) = l @ newline # join_lines ls"

lemma lines_of_append_newline:
  "newline \<notin> set l \<Longrightarrow> lines_of (l @ newline # cs) = l # lines_of cs"
proof (induction l)
  case (Cons c l)
  then show ?case by (cases l) auto
qed simp

lemma lines_of_line: "newline \<notin> set l \<Longrightarrow> l \<noteq> [] \<Longrightarrow> lines_of l = [l]"
proof (induction l)
  case (Cons c l)
  then show ?case by (cases l) auto
qed simp

lemma lines_of_join:
  "\<forall>l \<in> set ls. newline \<notin> set l \<and> l \<noteq> [] \<Longrightarrow> lines_of (join_lines ls) = ls"
  by (induction ls rule: join_lines.induct) (simp_all add: lines_of_append_newline lines_of_line del: lines_of.simps(2))

lemma dropWhile_replicate: "P c \<Longrightarrow> dropWhile P (replicate n c @ xs) = dropWhile P xs"
  by (induction n) simp_all

lemma strip_ljust:
  assumes "c \<in> set cs" "s = [] \<or> (hd s \<notin> set cs \<and> last s \<notin> set cs)"
  shows "strip_chars cs (ljust n c s) = s"
proof (cases "s = []")
  case True
  then have "dropWhile (\<lambda>c. c \<in> set cs) (ljust n c s) = []"
    using assms(1) dropWhile_replicate [of "\<lambda>c. c \<in> set cs" c n "[]"] by (simp add: ljust_def)
  with True show ?thesis by (simp only: strip_chars_def rev.simps dropWhile.simps)
next
  case False
  with assms(2) have s: "hd s \<notin> set cs" "last s \<notin> set cs" by auto
  from False s(1) have "dropWhile (\<lambda>c. c \<in> set cs) (ljust n c s) = ljust n c s"
    by (cases s) (simp_all add: ljust_def)
  moreover have "dropWhile (\<lambda>c. c \<in> set cs) (rev (ljust n c s)) = rev s"
    using assms(1) False s(2) by (simp add: ljust_def dropWhile_replicate) (cases s rule: rev_cases; simp)
  ultimately show ?thesis by (simp add: strip_chars_def)
qed

section \<open>Integers\<close>

definition digit :: "nat \<Rightarrow> char" where
  "digit d = char_of (48 + d)"

definition digit_value :: "char \<Rightarrow> nat" where
  "digit_value c = of_char c - 48"

definition is_digit :: "char \<Rightarrow> bool" where
  "is_digit c \<longleftrightarrow> 48 \<le> (of_char c :: nat) \<and> (of_char c :: nat) \<le> 57"

fun show_nat :: "nat \<Rightarrow> string" where
  "show_nat n = (if n < 10 then [digit n] else show_nat (n div 10) @ [digit (n mod 10)])"

declare show_nat.simps [simp del]

definition read_nat :: "string \<Rightarrow> nat" where
  "read_nat ds = foldl (\<lambda>a c. 10 * a + digit_value c) 0 ds"

definition show_int :: "int \<Rightarrow> string" where
  "show_int i = (if i < 0 then CHR ''-'' # show_nat (nat (- i)) else show_nat (nat i))"

text \<open>
  \<open>long(text)\<close>: white space around, a sign, which white space may follow, digits, and an
  \<open>L\<close> at the end.
\<close>

definition skip_space :: "string \<Rightarrow> string" where
  "skip_space = dropWhile (\<lambda>c. c \<in> set whitespace)"

definition py_long :: "string \<Rightarrow> exn + int" where
  "py_long s =
     (let s1 = skip_space s;
          neg = (s1 \<noteq> [] \<and> hd s1 = CHR ''-'');
          s2 = (if s1 \<noteq> [] \<and> hd s1 \<in> set ''+-'' then tl s1 else s1);
          s3 = skip_space s2;
          ds = takeWhile is_digit s3;
          rest = dropWhile is_digit s3;
          rest = (if rest \<noteq> [] \<and> hd rest \<in> set ''Ll'' then tl rest else rest)
      in if ds = [] \<or> skip_space rest \<noteq> [] then Inl ValueError
         else Inr (if neg then - int (read_nat ds) else int (read_nat ds)))"

lemma digit_chars:
  assumes "d < 10"
  shows "is_digit (digit d)" "digit_value (digit d) = d" "digit d \<notin> set whitespace" "digit d \<notin> set ''+-Ll''"
    "digit d \<noteq> newline"
proof -
  have "list_all (\<lambda>d. is_digit (digit d) \<and> digit_value (digit d) = d \<and> digit d \<notin> set whitespace \<and>
      digit d \<notin> set ''+-Ll'' \<and> digit d \<noteq> newline) [0..<10]"
    by code_simp
  moreover have "d \<in> set [0..<10]" using assms by simp
  ultimately show "is_digit (digit d)" "digit_value (digit d) = d" "digit d \<notin> set whitespace" "digit d \<notin> set ''+-Ll''"
    "digit d \<noteq> newline"
    unfolding list_all_iff by blast+
qed

lemma show_nat_digits: "c \<in> set (show_nat n) \<Longrightarrow> \<exists>d < 10. c = digit d"
proof (induction n rule: show_nat.induct)
  case (1 n)
  have "\<exists>d < 10. digit (n mod 10) = digit d" by (intro exI [of _ "n mod 10"]) simp
  with 1 show ?case by (subst (asm) (2) show_nat.simps) (auto split: if_splits)
qed

lemma show_nat_not_empty [simp]: "show_nat n \<noteq> []"
  by (subst show_nat.simps) simp

lemma read_nat_show [simp]: "read_nat (show_nat n) = n"
proof (induction n rule: show_nat.induct)
  case (1 n)
  show ?case
  proof (cases "n < 10")
    case True
    then show ?thesis by (subst show_nat.simps) (simp add: read_nat_def digit_chars)
  next
    case False
    with 1 have "read_nat (show_nat (n div 10)) = n div 10" by simp
    with False show ?thesis
      by (subst show_nat.simps) (simp add: read_nat_def digit_chars)
  qed
qed

lemma show_nat_scan:
  "takeWhile is_digit (show_nat n @ s) = show_nat n @ takeWhile is_digit s"
  "dropWhile is_digit (show_nat n @ s) = dropWhile is_digit s"
  "skip_space (show_nat n @ s) = show_nat n @ s"
  "hd (show_nat n @ s) \<notin> set ''+-''"
proof -
  have d: "is_digit c" "c \<notin> set whitespace" "c \<notin> set ''+-''" if c: "c \<in> set (show_nat n)" for c
  proof -
    obtain d where "d < 10" "c = digit d" using show_nat_digits [OF c] by blast
    with digit_chars [of d] show "is_digit c" "c \<notin> set whitespace" "c \<notin> set ''+-''" by simp_all
  qed
  from d(1) show "takeWhile is_digit (show_nat n @ s) = show_nat n @ takeWhile is_digit s"
    "dropWhile is_digit (show_nat n @ s) = dropWhile is_digit s" by simp_all
  obtain c cs where cs: "show_nat n = c # cs" using show_nat_not_empty by (cases "show_nat n") auto
  with d(2) [of c] show "skip_space (show_nat n @ s) = show_nat n @ s" by (simp add: skip_space_def)
  from cs d(3) [of c] show "hd (show_nat n @ s) \<notin> set ''+-''" by simp
qed

text \<open>Reading an integer back, with any white space after it.\<close>

lemma py_long_show:
  assumes "set s \<subseteq> set whitespace"
  shows "py_long (show_int i @ s) = Inr i"
proof -
  have rest: "takeWhile is_digit s = []" "skip_space s = []" "s = [] \<or> hd s \<notin> set ''Ll''" "dropWhile is_digit s = s"
  proof -
    have w: "\<not> is_digit c" "c \<notin> set ''Ll''" if "c \<in> set whitespace" for c
    proof -
      have "list_all (\<lambda>c. \<not> is_digit c \<and> c \<notin> set ''Ll'') whitespace" by code_simp
      with that show "\<not> is_digit c" "c \<notin> set ''Ll''" unfolding list_all_iff by blast+
    qed
    show "takeWhile is_digit s = []" "s = [] \<or> hd s \<notin> set ''Ll''" "dropWhile is_digit s = s"
      using assms w by (cases s; auto)+
    show "skip_space s = []" using assms by (auto simp: skip_space_def)
  qed
  have minus: "skip_space (CHR ''-'' # t) = CHR ''-'' # t" for t
  proof -
    have "CHR ''-'' \<notin> set whitespace" by code_simp
    then show ?thesis by (simp add: skip_space_def)
  qed
  show ?thesis
  proof (cases "i < 0")
    case True
    then show ?thesis
      using rest by (auto simp: py_long_def Let_def show_int_def minus show_nat_scan)
  next
    case False
    then show ?thesis
      using rest show_nat_scan(4) [of "nat i" s] by (auto simp: py_long_def Let_def show_int_def show_nat_scan)
  qed
qed

end
