(* ===== verification/Fixed_Width.thy ===== *)
theory Fixed_Width
  imports Py_Text
begin

text \<open>
  Fixed-width data (zato-server service/reqresp/fixed_width.py): elements of a definition, lines
  cut into columns and read, and responses written as such lines. Decimals are finite ones with
  the rounding and the precision of their contexts. The parser of dates (dateparser) and the
  formatting of dates and times are functions of a record.
\<close>

section \<open>Decimals\<close>

text \<open>The number \<open>(-1)^neg * coeff * 10^exponent\<close>.\<close>

record dec =
  dc_neg :: bool
  dc_coeff :: nat
  dc_exp :: int

text \<open>\<open>quantize\<close> to \<open>s\<close> decimal places: to the nearest, ties to even; too many digits for the context raise.\<close>

definition round_half_even :: "nat \<Rightarrow> nat \<Rightarrow> nat" where
  "round_half_even n d =
     (let q = n div d; r = n mod d in if 2 * r < d \<or> (2 * r = d \<and> even q) then q else Suc q)"

definition InvalidOperation :: exn where
  "InvalidOperation = OtherError ''InvalidOperation''"

definition quantize :: "nat \<Rightarrow> nat \<Rightarrow> dec \<Rightarrow> exn + dec" where
  "quantize prec s d =
     (let shift = dc_exp d + int s;
          c = (if shift \<ge> 0 then dc_coeff d * 10 ^ nat shift else round_half_even (dc_coeff d) (10 ^ nat (- shift)))
      in if dc_coeff d \<noteq> 0 \<and> (int (length (show_nat (dc_coeff d))) + shift > int prec \<or> length (show_nat c) > prec)
         then Inl InvalidOperation
         else Inr \<lparr>dc_neg = dc_neg d, dc_coeff = c, dc_exp = - int s\<rparr>)"

text \<open>\<open>str\<close> of a decimal, in scientific notation when the point is far off.\<close>

definition show_dec :: "dec \<Rightarrow> string" where
  "show_dec d =
     (let ds = show_nat (dc_coeff d);
          leftdigits = dc_exp d + int (length ds);
          dotplace = (if dc_exp d \<le> 0 \<and> leftdigits > -6 then leftdigits else 1);
          body = (if dotplace \<le> 0 then ''0.'' @ replicate (nat (- dotplace)) CHR ''0'' @ ds
                  else if dotplace \<ge> int (length ds) then ds @ replicate (nat (dotplace - int (length ds))) CHR ''0''
                  else take (nat dotplace) ds @ ''.'' @ drop (nat dotplace) ds);
          exp = (if leftdigits = dotplace then []
                 else ''E'' @ (if leftdigits - dotplace \<ge> 0 then ''+'' else []) @ show_int (leftdigits - dotplace))
      in (if dc_neg d then ''-'' else []) @ body @ exp)"

text \<open>
  Reading one: a sign, digits with or without a point, an exponent. The result is \<open>None\<close> for
  the texts of infinities and of what is no number, which have no exponent.
\<close>

definition lower_char :: "char \<Rightarrow> char" where
  "lower_char c = (let n = of_char c :: nat in if 65 \<le> n \<and> n \<le> 90 then char_of (n + 32) else c)"

definition is_special_text :: "string \<Rightarrow> bool" where
  "is_special_text t =
     (let l = map lower_char t; n = (if l \<noteq> [] \<and> hd l = CHR ''s'' then tl l else l)
      in l = ''inf'' \<or> l = ''infinity'' \<or> (take 3 n = ''nan'' \<and> list_all is_digit (drop 3 n)))"

definition read_exponent :: "string \<Rightarrow> int option" where
  "read_exponent t =
     (case t of
        [] \<Rightarrow> Some 0
      | e # u \<Rightarrow>
          let neg = (u \<noteq> [] \<and> hd u = CHR ''-'');
              ds = (if u \<noteq> [] \<and> hd u \<in> set ''+-'' then tl u else u)
          in if e \<in> set ''eE'' \<and> ds \<noteq> [] \<and> list_all is_digit ds
             then Some (if neg then - int (read_nat ds) else int (read_nat ds)) else None)"

definition dec_of_string :: "string \<Rightarrow> exn + dec option" where
  "dec_of_string text =
     (let s = strip_chars whitespace text;
          neg = (s \<noteq> [] \<and> hd s = CHR ''-'');
          s = (if s \<noteq> [] \<and> hd s \<in> set ''+-'' then tl s else s);
          int_part = takeWhile is_digit s;
          s1 = dropWhile is_digit s;
          point = (s1 \<noteq> [] \<and> hd s1 = CHR ''.'');
          frac = (if point then takeWhile is_digit (tl s1) else []);
          s2 = (if point then dropWhile is_digit (tl s1) else s1)
      in if is_special_text s then Inr None
         else if int_part @ frac = [] then Inl InvalidOperation
         else case read_exponent s2 of
                None \<Rightarrow> Inl InvalidOperation
              | Some e \<Rightarrow> Inr (Some \<lparr>dc_neg = neg, dc_coeff = read_nat (int_part @ frac), dc_exp = e - int (length frac)\<rparr>))"

section \<open>Elements\<close>

datatype padding = Pad_Left | Pad_Right

datatype time_class = Timestamp_Class | Date_Class | Time_Class

datatype fw_value = FStr string | FInt int | FDec dec | FTime time_class int

datatype fw_kind =
    FwString
  | FwInteger
  | FwDecimal (fw_scale: nat) (fw_err_if_scale_too_big: bool) (fw_has_dec_sep: bool) (fw_prec: nat)
  | FwTime (fw_class: time_class) (fw_output_format: "string option")

text \<open>
  An element: what its class says of padding and filling, and what its constructor made of the
  arguments.
\<close>

record fw_elem =
  fe_kind :: fw_kind
  fe_class_padding :: padding
  fe_class_fill_char :: char
  fe_len :: nat
  fe_name :: string
  fe_padding :: padding
  fe_fill_char :: char

definition new_elem ::
  "fw_kind \<Rightarrow> padding \<Rightarrow> char \<Rightarrow> nat \<Rightarrow> string \<Rightarrow> padding option \<Rightarrow> char option \<Rightarrow> fw_elem" where
  "new_elem kind class_padding class_fill_char len name padding fill_char =
     \<lparr>fe_kind = kind, fe_class_padding = class_padding, fe_class_fill_char = class_fill_char,
      fe_len = len, fe_name = name,
      fe_padding = (case padding of None \<Rightarrow> class_padding | Some p \<Rightarrow> p),
      fe_fill_char = (case fill_char of None \<Rightarrow> class_fill_char | Some c \<Rightarrow> c)\<rparr>"

text \<open>The constructor of \<open>Decimal\<close> refuses scales its length has no place for.\<close>

definition new_decimal ::
  "nat \<Rightarrow> nat \<Rightarrow> string \<Rightarrow> nat option \<Rightarrow> bool \<Rightarrow> bool \<Rightarrow> exn + fw_elem" where
  "new_decimal len scale name prec err_if_scale_too_big has_dec_sep =
     (if scale \<noteq> 0 \<and> (if has_dec_sep then len < scale + 1 else len < scale) then Inl ValueError
      else Inr (new_elem (FwDecimal scale err_if_scale_too_big has_dec_sep
             (case prec of None \<Rightarrow> len - 1 | Some p \<Rightarrow> p)) Pad_Right CHR '' '' len name None None))"

record fw_lib =
  fl_parse :: "string \<Rightarrow> exn + int"
  fl_project :: "time_class \<Rightarrow> int \<Rightarrow> int"
  fl_show :: "string option \<Rightarrow> time_class \<Rightarrow> int \<Rightarrow> string"
  fl_str :: "time_class \<Rightarrow> int \<Rightarrow> string"

definition decimal_from_string :: "nat \<Rightarrow> bool \<Rightarrow> bool \<Rightarrow> nat \<Rightarrow> char \<Rightarrow> string \<Rightarrow> exn + dec" where
  "decimal_from_string scale err has_dec_sep prec fill_char text =
     (let text = dropWhile (\<lambda>c. c = fill_char) text;
          text = (if has_dec_sep then text
                  else (if scale \<le> length text then take (length text - scale) text
                        else take (length text - (scale - length text)) text) @ ''.'' @ take scale text)
      in case dec_of_string text of
           Inl e \<Rightarrow> Inl e
         | Inr None \<Rightarrow> Inl TypeError
         | Inr (Some d) \<Rightarrow>
             if nat \<bar>dc_exp d\<bar> > scale
             then (if err then Inl ValueError else quantize prec scale d)
             else Inr d)"

definition from_string :: "fw_lib \<Rightarrow> fw_elem \<Rightarrow> string \<Rightarrow> exn + fw_value" where
  "from_string lib el text =
     (case fe_kind el of
        FwString \<Rightarrow> Inr (FStr (strip_chars [fe_class_fill_char el] text))
      | FwInteger \<Rightarrow> map_sum id FInt (py_long text)
      | FwDecimal scale err sep prec \<Rightarrow>
          map_sum id FDec (decimal_from_string scale err sep prec (fe_class_fill_char el) text)
      | FwTime cls _ \<Rightarrow>
          map_sum id (\<lambda>t. FTime cls (fl_project lib cls t)) (fl_parse lib (strip_chars [fe_class_fill_char el] text)))"

text \<open>Which values are instances of the class of a time element: a timestamp is a date, too.\<close>

definition is_instance :: "time_class \<Rightarrow> time_class \<Rightarrow> bool" where
  "is_instance cls v \<longleftrightarrow> v = cls \<or> (cls = Date_Class \<and> v = Timestamp_Class)"

text \<open>
  \<open>to_string\<close>; of a value that is no text afterwards, \<open>len\<close> raises. Values given to a
  decimal element are texts, integers or finite decimals.
\<close>

definition to_string :: "fw_lib \<Rightarrow> fw_elem \<Rightarrow> fw_value \<Rightarrow> exn + string" where
  "to_string lib el v =
     (case fe_kind el of
        FwString \<Rightarrow> (case v of FStr s \<Rightarrow> Inr s | _ \<Rightarrow> Inl TypeError)
      | FwInteger \<Rightarrow>
          (case v of FInt i \<Rightarrow> Inr (show_int i) | FStr s \<Rightarrow> Inr s | FDec d \<Rightarrow> Inr (show_dec d)
           | FTime cls t \<Rightarrow> Inr (fl_str lib cls t))
      | FwDecimal scale _ _ prec \<Rightarrow>
          (let put = (\<lambda>d. map_sum id show_dec (quantize prec scale d)) in
           case v of
             FInt i \<Rightarrow> put \<lparr>dc_neg = i < 0, dc_coeff = nat \<bar>i\<bar>, dc_exp = 0\<rparr>
           | FDec d \<Rightarrow> put d
           | FStr s \<Rightarrow> (case dec_of_string s of Inl e \<Rightarrow> Inl e | Inr None \<Rightarrow> Inl InvalidOperation | Inr (Some d) \<Rightarrow> put d)
           | FTime _ _ \<Rightarrow> Inl TypeError)
      | FwTime cls fmt \<Rightarrow>
          (case v of
             FStr s \<Rightarrow> (case fmt of None \<Rightarrow> Inr s
                | Some _ \<Rightarrow> map_sum id (fl_show lib fmt Timestamp_Class) (fl_parse lib s))
           | FTime c t \<Rightarrow> if is_instance cls c then Inr (fl_show lib fmt c t) else Inl ValueError
           | _ \<Rightarrow> Inl ValueError))"

section \<open>Lines\<close>

text \<open>The pattern of a line: as many characters for each element as it is long; anything may follow.\<close>

fun match_line :: "fw_elem list \<Rightarrow> string \<Rightarrow> string list option" where
  "match_line [] line = Some []"
| "match_line (el # els) line =
     (if length line < fe_len el then None
      else map_option ((#) (take (fe_len el) line)) (match_line els (drop (fe_len el) line)))"

fun read_elems :: "fw_lib \<Rightarrow> fw_elem list \<Rightarrow> string list \<Rightarrow> exn + (string, fw_value) dict" where
  "read_elems lib (el # els) (t # ts) =
     (case from_string lib el t of
        Inl e \<Rightarrow> Inl e
      | Inr v \<Rightarrow> map_sum id ((#) (fe_name el, v)) (read_elems lib els ts))"
| "read_elems lib _ _ = Inr []"

text \<open>Iterating over the data: \<open>None\<close> for a line that does not match; an exception ends it.\<close>

definition read_line :: "fw_lib \<Rightarrow> fw_elem list \<Rightarrow> string \<Rightarrow> exn + (string, fw_value) dict option" where
  "read_line lib def line =
     (case match_line def line of
        None \<Rightarrow> Inr None
      | Some groups \<Rightarrow> map_sum id Some (read_elems lib def groups))"

fun map_exn :: "('a \<Rightarrow> exn + 'b) \<Rightarrow> 'a list \<Rightarrow> exn + 'b list" where
  "map_exn f [] = Inr []"
| "map_exn f (x # xs) =
     (case f x of Inl e \<Rightarrow> Inl e | Inr y \<Rightarrow> map_sum id ((#) y) (map_exn f xs))"

definition read_fixed_width :: "fw_lib \<Rightarrow> fw_elem list \<Rightarrow> string \<Rightarrow> exn + (string, fw_value) dict option list" where
  "read_fixed_width lib def raw_data = map_exn (read_line lib def) (lines_of raw_data)"

definition pad_value :: "fw_elem \<Rightarrow> string \<Rightarrow> string" where
  "pad_value el v =
     (if length v < fe_len el
      then (if fe_class_padding el = Pad_Right then ljust (fe_len el) (fe_fill_char el) v
            else rjust (fe_len el) (fe_fill_char el) v)
      else v)"

text \<open>A line is given as a list of values; one without a value for an element raises.\<close>

fun serialize_line :: "fw_lib \<Rightarrow> fw_elem list \<Rightarrow> fw_value list \<Rightarrow> exn + string" where
  "serialize_line lib [] vs = Inr []"
| "serialize_line lib (el # els) [] = Inl IndexError"
| "serialize_line lib (el # els) (v # vs) =
     (case to_string lib el v of
        Inl e \<Rightarrow> Inl e
      | Inr t \<Rightarrow> map_sum id ((@) (pad_value el t)) (serialize_line lib els vs))"

definition fw_serialize :: "fw_lib \<Rightarrow> fw_elem list \<Rightarrow> fw_value list list \<Rightarrow> exn + string" where
  "fw_serialize lib def response = map_sum id join_lines (map_exn (serialize_line lib def) response)"

end
