(* ===== verification/Fixed_Width_Facts.thy ===== *)
theory Fixed_Width_Facts
  imports Fixed_Width
begin

text \<open>What was written as fixed-width data reads back, and where it does not.\<close>

section \<open>Decimals\<close>

lemma read_nat_app: "read_nat (xs @ ys) = read_nat xs * 10 ^ length ys + read_nat ys"
proof (induction ys rule: rev_induct)
  case (snoc y ys)
  have last: "read_nat (zs @ [y]) = 10 * read_nat zs + digit_value y" for zs by (simp add: read_nat_def)
  show ?case unfolding append_assoc [symmetric] last snoc.IH by (simp add: algebra_simps)
qed (simp add: read_nat_def)

lemma read_nat_zeros: "read_nat (replicate n CHR ''0'') = 0"
proof (induction n)
  case (Suc n)
  have "read_nat [CHR ''0''] = 0" by code_simp
  with Suc show ?case
    using read_nat_app [of "[CHR ''0'']" "replicate n CHR ''0''"] by simp
qed (simp add: read_nat_def)

definition digits :: "string \<Rightarrow> bool" where
  "digits s \<longleftrightarrow> (\<forall>c \<in> set s. \<exists>d < 10. c = digit d)"

lemma digits_Nil [simp]: "digits []"
  by (simp add: digits_def)

lemma digits_app [simp]: "digits (s @ t) \<longleftrightarrow> digits s \<and> digits t"
  by (auto simp: digits_def)

lemma digits_take: "digits s \<Longrightarrow> digits (take n s) \<and> digits (drop n s)"
  by (auto simp: digits_def dest: in_set_takeD in_set_dropD)

lemma digits_show [simp]: "digits (show_nat n)"
  using show_nat_digits by (simp add: digits_def)

lemma digits_zeros [simp]: "digits (replicate n CHR ''0'')"
proof -
  have "CHR ''0'' = digit 0" by code_simp
  then show ?thesis by (auto simp: digits_def intro!: exI [of _ 0])
qed

lemma digits_char:
  assumes "digits s" "c \<in> set s"
  shows "is_digit c" "c \<notin> set whitespace" "c \<notin> set ''+-Ll''" "c \<noteq> newline"
proof -
  obtain d where "d < 10" "c = digit d" using assms by (auto simp: digits_def)
  with digit_chars [of d] show "is_digit c" "c \<notin> set whitespace" "c \<notin> set ''+-Ll''" "c \<noteq> newline" by simp_all
qed

lemma digits_scan:
  assumes "digits s"
  shows "takeWhile is_digit (s @ t) = s @ takeWhile is_digit t" "dropWhile is_digit (s @ t) = dropWhile is_digit t"
  using digits_char(1) [OF assms] by simp_all

text \<open>The texts of decimals in plain notation.\<close>

definition plain_text :: "bool \<Rightarrow> string \<Rightarrow> string \<Rightarrow> string" where
  "plain_text neg a b = (if neg then ''-'' else []) @ a @ (if b = [] then [] else ''.'' @ b)"

lemma special_chars:
  "CHR ''-'' \<notin> set whitespace" "CHR ''.'' \<notin> set whitespace" "\<not> is_digit CHR ''.''" "\<not> is_digit CHR ''-''"
  "d < 10 \<Longrightarrow> lower_char (digit d) = digit d" "d < 10 \<Longrightarrow> digit d \<notin> set ''nis''"
proof -
  show "CHR ''-'' \<notin> set whitespace" "CHR ''.'' \<notin> set whitespace" "\<not> is_digit CHR ''.''" "\<not> is_digit CHR ''-''"
    by code_simp+
  have "list_all (\<lambda>d. lower_char (digit d) = digit d \<and> digit d \<notin> set ''nis'') [0..<10]" by code_simp
  then show "d < 10 \<Longrightarrow> lower_char (digit d) = digit d" "d < 10 \<Longrightarrow> digit d \<notin> set ''nis''"
    unfolding list_all_iff by auto
qed

lemma not_special:
  assumes "digits a" "a \<noteq> []"
  shows "\<not> is_special_text (a @ t)"
proof -
  obtain c cs where a: "a = c # cs" using assms(2) by (cases a) auto
  then obtain d where d: "d < 10" "c = digit d" using assms(1) by (auto simp: digits_def)
  have "lower_char c = c" "c \<notin> set ''nis''" using special_chars(5,6) [OF d(1)] d(2) by simp_all
  then show ?thesis using a by (auto simp: is_special_text_def Let_def take_Cons')
qed

lemma strip_spaces:
  assumes "set t \<subseteq> set whitespace" "s \<noteq> []" "hd s \<notin> set whitespace" "last s \<notin> set whitespace"
  shows "strip_chars whitespace (s @ t) = s"
proof -
  have "dropWhile (\<lambda>c. c \<in> set whitespace) (s @ t) = s @ t" using assms(2,3) by (cases s) simp_all
  moreover have "dropWhile (\<lambda>c. c \<in> set whitespace) (rev (s @ t)) = rev s"
  proof -
    have "\<And>x. x \<in> set (rev t) \<Longrightarrow> x \<in> set whitespace" using assms(1) by auto
    then have "dropWhile (\<lambda>c. c \<in> set whitespace) (rev t @ rev s) = dropWhile (\<lambda>c. c \<in> set whitespace) (rev s)"
      by (rule dropWhile_append2)
    moreover have "dropWhile (\<lambda>c. c \<in> set whitespace) (rev s) = rev s"
      using assms(2,4) by (cases s rule: rev_cases) simp_all
    ultimately show ?thesis by simp
  qed
  ultimately show ?thesis by (simp add: strip_chars_def)
qed

lemma read_plain_text:
  assumes "digits a" "digits b" "a \<noteq> []" "set t \<subseteq> set whitespace"
  shows "dec_of_string (plain_text neg a b @ t) =
    Inr (Some \<lparr>dc_neg = neg, dc_coeff = read_nat (a @ b), dc_exp = - int (length b)\<rparr>)"
proof -
  let ?u = "a @ (if b = [] then [] else ''.'' @ b)"
  have hd_a: "hd a \<in> set a" using assms(3) by simp
  have hd: "hd ?u \<notin> set whitespace" "hd ?u \<notin> set ''+-''"
    using digits_char(2,3) [OF assms(1) hd_a] assms(3) by auto
  have "last ?u \<in> set a \<union> set b"
    using assms(3) by (cases "b = []") (simp_all add: last_in_set)
  then have last: "last ?u \<notin> set whitespace" using digits_char(2) assms(1,2) by blast
  have strip: "strip_chars whitespace (plain_text neg a b @ t) = plain_text neg a b"
    by (rule strip_spaces) (use assms hd last special_chars(1) in \<open>auto simp: plain_text_def\<close>)
  have scan: "takeWhile is_digit ?u = a" "dropWhile is_digit ?u = (if b = [] then [] else ''.'' @ b)"
    using digits_scan [OF assms(1)] special_chars(3) by simp_all
  have b: "takeWhile is_digit b = b" "dropWhile is_digit b = []"
    using digits_scan [OF assms(2), of "[]"] by simp_all
  have sign: "(if plain_text neg a b \<noteq> [] \<and> hd (plain_text neg a b) \<in> set ''+-'' then tl (plain_text neg a b)
      else plain_text neg a b) = ?u" "(plain_text neg a b \<noteq> [] \<and> hd (plain_text neg a b) = CHR ''-'') = neg"
    using hd assms(3) by (auto simp: plain_text_def)
  show ?thesis
  proof (cases "b = []")
    case True
    then show ?thesis
      unfolding dec_of_string_def Let_def strip sign scan
      using not_special [OF assms(1,3), of "[]"] assms(3) by (simp add: read_exponent_def)
  next
    case False
    then have "(if b = [] then [] else ''.'' @ b) = CHR ''.'' # b" by simp
    then show ?thesis
      unfolding dec_of_string_def Let_def strip sign scan
      using not_special [OF assms(1,3), of "CHR ''.'' # b"] assms(3) b False
      by (simp only: list.sel list.simps simp_thms if_True if_False b append_is_Nil_conv read_exponent_def) simp
  qed
qed

lemma show_plain:
  assumes "dc_exp d = - int s" "s \<le> 6"
  obtains a b where "show_dec d = plain_text (dc_neg d) a b" "digits a" "digits b" "a \<noteq> []" "length b = s"
    "read_nat (a @ b) = dc_coeff d"
proof -
  let ?ds = "show_nat (dc_coeff d)"
  let ?l = "length ?ds"
  have pos: "0 < ?l" by simp
  have left: "int ?l - int s > -6" using pos assms(2) by linarith
  consider (whole) "s = 0" | (inner) "0 < s" "s < ?l" | (zeros) "?l \<le> s" "0 < s" using pos by linarith
  then show thesis
  proof cases
    case whole
    then have "show_dec d = plain_text (dc_neg d) ?ds []"
      using assms by (simp add: show_dec_def Let_def plain_text_def)
    with whole show thesis by (intro that [of ?ds "[]"]) simp_all
  next
    case inner
    let ?a = "take (?l - s) ?ds" and ?b = "drop (?l - s) ?ds"
    have "nat (int ?l - int s) = ?l - s" using inner by linarith
    then have "show_dec d = plain_text (dc_neg d) ?a ?b"
      using assms(1) inner left by (simp add: show_dec_def Let_def plain_text_def)
    then show thesis
      by (rule that) (use digits_take [OF digits_show] inner in simp_all)
  next
    case zeros
    let ?b = "replicate (s - ?l) CHR ''0'' @ ?ds"
    have "nat (- (int ?l - int s)) = s - ?l" using zeros by linarith
    then have "show_dec d = plain_text (dc_neg d) ''0'' ?b"
      using assms(1) zeros left by (simp add: show_dec_def Let_def plain_text_def)
    moreover have "read_nat (''0'' @ ?b) = dc_coeff d"
      using read_nat_zeros [of 1] read_nat_zeros [of "s - ?l"] by (simp add: read_nat_app del: append_Cons)
    moreover have "digits ''0''" using digits_zeros [of 1] by simp
    ultimately show thesis using zeros by (intro that [of "''0''" ?b]) simp_all
  qed
qed

section \<open>Elements and lines\<close>

text \<open>
  Elements that are filled as their class says, numbers with spaces, on either side, and decimals
  with a point and at most six places; and the values that fit into them.
\<close>

definition fw_plain :: "fw_elem \<Rightarrow> bool" where
  "fw_plain el \<longleftrightarrow> fe_fill_char el = fe_class_fill_char el \<and>
     (case fe_kind el of
        FwString \<Rightarrow> fe_fill_char el \<noteq> newline
      | FwInteger \<Rightarrow> fe_fill_char el = CHR '' ''
      | FwDecimal scale err sep prec \<Rightarrow> fe_fill_char el = CHR '' '' \<and> sep \<and> scale \<le> 6
      | FwTime _ _ \<Rightarrow> False)"

definition fw_fits :: "fw_elem \<Rightarrow> fw_value \<Rightarrow> bool" where
  "fw_fits el v \<longleftrightarrow>
     (case (fe_kind el, v) of
        (FwString, FStr s) \<Rightarrow> length s \<le> fe_len el \<and> newline \<notin> set s \<and>
          (s = [] \<or> (hd s \<noteq> fe_fill_char el \<and> last s \<noteq> fe_fill_char el))
      | (FwInteger, FInt i) \<Rightarrow> length (show_int i) \<le> fe_len el
      | (FwDecimal scale err sep prec, FDec d) \<Rightarrow> dc_exp d = - int scale \<and>
          length (show_nat (dc_coeff d)) \<le> prec \<and> length (show_dec d) \<le> fe_len el
      | _ \<Rightarrow> False)"

lemma pad_either:
  assumes "length t \<le> fe_len el" "newline \<notin> set t" "fe_fill_char el \<noteq> newline"
  obtains i n where "pad_value el t = replicate i (fe_fill_char el) @ ljust n (fe_fill_char el) t"
    "length (pad_value el t) = fe_len el" "newline \<notin> set (pad_value el t)"
proof (cases "fe_class_padding el = Pad_Right")
  case True
  with assms show thesis by (intro that [of 0 "fe_len el"]) (auto simp: pad_value_def ljust_def)
next
  case False
  with assms show thesis
    by (intro that [of "fe_len el - length t" 0]) (auto simp: pad_value_def ljust_def rjust_def)
qed

lemma strip_left: "c \<in> set cs \<Longrightarrow> strip_chars cs (replicate i c @ t) = strip_chars cs t"
  by (simp add: strip_chars_def dropWhile_replicate)

lemma py_long_left: "c \<in> set whitespace \<Longrightarrow> py_long (replicate i c @ t) = py_long t"
  by (simp add: py_long_def skip_space_def dropWhile_replicate)

lemma space_char: "CHR '' '' \<in> set whitespace" "CHR '' '' \<noteq> newline" "\<not> is_digit CHR '' ''" "CHR ''-'' \<noteq> newline"
  "CHR ''.'' \<noteq> newline"
  by code_simp+

lemma quantize_same:
  "dc_exp d = - int s \<Longrightarrow> length (show_nat (dc_coeff d)) \<le> prec \<Longrightarrow> quantize prec s d = Inr d"
  by (simp add: quantize_def Let_def)

lemma elem_roundtrip:
  assumes el: "fw_plain el" and v: "fw_fits el v"
  shows "\<exists>t. to_string lib el v = Inr t \<and> length (pad_value el t) = fe_len el \<and>
    newline \<notin> set (pad_value el t) \<and> from_string lib el (pad_value el t) = Inr v"
proof -
  let ?n = "fe_len el"
  consider (str) s where "fe_kind el = FwString" "v = FStr s"
    | (int) i where "fe_kind el = FwInteger" "v = FInt i"
    | (dec) scale err sep prec d where "fe_kind el = FwDecimal scale err sep prec" "v = FDec d"
    using v by (auto simp: fw_fits_def split: fw_kind.splits fw_value.splits)
  then show ?thesis
  proof cases
    case str
    have fits: "length s \<le> ?n" "newline \<notin> set s" "fe_fill_char el \<noteq> newline"
      "s = [] \<or> (hd s \<notin> set [fe_fill_char el] \<and> last s \<notin> set [fe_fill_char el])"
      using str el v by (auto simp: fw_fits_def fw_plain_def)
    obtain i n where p: "pad_value el s = replicate i (fe_fill_char el) @ ljust n (fe_fill_char el) s"
      "length (pad_value el s) = ?n" "newline \<notin> set (pad_value el s)" by (rule pad_either [OF fits(1-3)])
    have "strip_chars [fe_fill_char el] (pad_value el s) = s"
      unfolding p(1) by (simp only: strip_left [of "fe_fill_char el" "[fe_fill_char el]"] strip_ljust [OF _ fits(4)] list.set_intros)
    then show ?thesis
      using p(2,3) str el by (simp add: to_string_def from_string_def fw_plain_def)
  next
    case int
    have space: "fe_fill_char el = CHR '' ''" and len: "length (show_int i) \<le> ?n"
      using int el v by (auto simp: fw_fits_def fw_plain_def)
    have "newline \<notin> set (show_int i)"
      using digits_char(4) [OF digits_show] space_char(4) by (auto simp: show_int_def)
    from pad_either [OF len this] obtain j n where p:
      "pad_value el (show_int i) = replicate j CHR '' '' @ ljust n CHR '' '' (show_int i)"
      "length (pad_value el (show_int i)) = ?n" "newline \<notin> set (pad_value el (show_int i))"
      unfolding space using space_char(2) by metis
    have "py_long (pad_value el (show_int i)) = Inr i"
      unfolding p(1) py_long_left [OF space_char(1)] ljust_def by (rule py_long_show) (use space_char(1) in auto)
    then show ?thesis using p(2,3) int by (simp add: to_string_def from_string_def)
  next
    case dec
    have space: "fe_fill_char el = CHR '' ''" "fe_class_fill_char el = CHR '' ''" and len: "length (show_dec d) \<le> ?n"
      and d: "dc_exp d = - int scale" "length (show_nat (dc_coeff d)) \<le> prec" "scale \<le> 6" "sep"
      using dec el v by (auto simp: fw_fits_def fw_plain_def)
    from show_plain [OF d(1,3)] obtain a b where
      ab: "show_dec d = plain_text (dc_neg d) a b" "digits a" "digits b" "a \<noteq> []" "length b = scale"
        "read_nat (a @ b) = dc_coeff d" .
    have "newline \<notin> set (show_dec d)"
      unfolding ab(1) using digits_char(4) [OF ab(2)] digits_char(4) [OF ab(3)] space_char(4,5) by (auto simp: plain_text_def)
    from pad_either [OF len this] obtain j n where p:
      "pad_value el (show_dec d) = replicate j CHR '' '' @ ljust n CHR '' '' (show_dec d)"
      "length (pad_value el (show_dec d)) = ?n" "newline \<notin> set (pad_value el (show_dec d))"
      unfolding space using space_char(2) by metis
    let ?t = "show_dec d @ replicate (n - length (show_dec d)) CHR '' ''"
    have "hd (show_dec d) \<noteq> CHR '' ''" "show_dec d \<noteq> []"
      unfolding ab(1) using digits_char(1) [OF ab(2), of "hd a"] ab(4) space_char(3) by (auto simp: plain_text_def)
    then have "dropWhile (\<lambda>c. c = CHR '' '') (replicate j CHR '' '' @ ?t) = ?t"
      by (cases "show_dec d") (simp_all add: dropWhile_replicate)
    moreover have "dec_of_string ?t = Inr (Some d)"
      unfolding ab(1) by (subst read_plain_text [OF ab(2,3,4)]) (use space_char(1) ab(5,6) d(1) in auto)
    ultimately have "decimal_from_string scale err sep prec CHR '' '' (replicate j CHR '' '' @ ?t) = Inr d"
      using d(1,4) by (simp add: decimal_from_string_def Let_def)
    then show ?thesis
      using p dec quantize_same [OF d(1,2)] by (simp add: to_string_def from_string_def space ljust_def Let_def)
  qed
qed

lemma line_roundtrip:
  assumes "list_all2 (\<lambda>el v. fw_plain el \<and> fw_fits el v) def vs"
  shows "\<exists>t. serialize_line lib def vs = Inr t \<and> length t = sum_list (map fe_len def) \<and> newline \<notin> set t \<and>
    (\<exists>gs. match_line def t = Some gs \<and> read_elems lib def gs = Inr (zip (map fe_name def) vs))"
  using assms
proof (induction rule: list_all2_induct)
  case (Cons el els v vs)
  then obtain t u where t: "to_string lib el v = Inr t" "length (pad_value el t) = fe_len el"
    "newline \<notin> set (pad_value el t)" "from_string lib el (pad_value el t) = Inr v"
    and u: "serialize_line lib els vs = Inr u" "length u = sum_list (map fe_len els)" "newline \<notin> set u"
    "\<exists>gs. match_line els u = Some gs \<and> read_elems lib els gs = Inr (zip (map fe_name els) vs)"
    using elem_roundtrip [of el v lib] by auto
  then show ?case by auto
qed simp


definition demo_fields :: "fw_elem list" where
  "demo_fields = [new_elem FwString Pad_Right CHR '' '' 4 ''name'' None None,
     new_elem FwInteger Pad_Right CHR '' '' 4 ''count'' None None,
     new_elem (FwDecimal 2 False True 6) Pad_Right CHR '' '' 7 ''price'' None None]"

definition demo_lib :: fw_lib where
  "demo_lib = \<lparr>fl_parse = (\<lambda>_. Inl ValueError), fl_project = (\<lambda>_ t. t), fl_show = (\<lambda>_ _ _. []), fl_str = (\<lambda>_ _. [])\<rparr>"


section \<open>Where reading and writing fall short\<close>

text \<open>
  A decimal without a point is cut after its first digits instead of before its last ones: 12345
  with two places reads as 123.12.
\<close>

lemma no_separator_reads_wrong_places:
  "decimal_from_string 2 False False 8 CHR '' '' ''12345'' = Inr \<lparr>dc_neg = False, dc_coeff = 12312, dc_exp = -2\<rparr>"
  by code_simp

text \<open>The padding of the constructor is ignored, and its filler is not stripped when reading.\<close>

lemma constructor_padding_ignored:
  "pad_value (new_elem FwString Pad_Right CHR '' '' 4 ''n'' (Some Pad_Left) None) ''ab'' = ''ab  ''"
  by code_simp

lemma constructor_filler_not_stripped:
  "let el = new_elem FwString Pad_Right CHR '' '' 4 ''n'' None (Some CHR ''*'') in
   from_string lib el (pad_value el ''ab'') = Inr (FStr ''ab**'')"
  by (simp add: new_elem_def from_string_def pad_value_def ljust_def strip_chars_def numeral_eq_Suc)

text \<open>A value longer than its element moves every element after it.\<close>

lemma long_value_shifts_line:
  "\<exists>raw. fw_serialize demo_lib (take 2 demo_fields) [[FStr ''abcdef'', FInt 1]] = Inr raw \<and>
     read_fixed_width demo_lib (take 2 demo_fields) raw = Inl ValueError"
proof -
  have "fw_serialize demo_lib (take 2 demo_fields) [[FStr ''abcdef'', FInt 1]] = Inr ''abcdef1   ''" by code_simp
  moreover have "read_fixed_width demo_lib (take 2 demo_fields) ''abcdef1   '' = Inl ValueError" by code_simp
  ultimately show ?thesis by blast
qed

end
