(* ===== verification/Sio.thy ===== *)
theory Sio
  imports Py_Text "HOL-Library.Sublist" "HOL-Library.Word"
begin

text \<open>
  SimpleIO (zato-server service/reqresp/sio.py): the types a service declares for its parameters,
  the conversion of a value in either direction, and the choice between the parameters of the
  channel and those of the message. A unicode text is represented by its UTF-8 encoding, and only
  ASCII digits and white space count as such in numbers. Paste, lxml and the formatting and
  reading of floats are functions of a record.
\<close>

section \<open>Values\<close>

text \<open>
  The Python values that requests and responses are made of. A float is its IEEE 754 double; an
  element of an XML document and a publish/subscribe message are identified by numbers, the latter
  different from every text. The keys of a dictionary are texts or \<open>None\<close>.
\<close>

datatype sio_value =
    VNone | VBool bool | VInt int | VFloat "64 word" | VText string | VBytes string
  | VList "sio_value list" | VDict "(string option \<times> sio_value) list" | VElem nat | VMsg nat

text \<open>An XML element to be built: its name, what is assigned to it, and its children.\<close>

datatype xml_tree = Xml_Tree string "sio_value option" "xml_tree list"

text \<open>
  What is called and not read here: \<open>asbool\<close> of Paste; \<open>unicode()\<close> of anything but texts, integers
  and truth values; \<open>float()\<close> of a text and of an integer; of lxml the search for an object path,
  the text of an element, its children, the first of its children with a name and the elements of
  the same name beside an element, its truth value, its equality with a text, \<open>int()\<close> and \<open>float()\<close>
  of it, and the building of an element.
\<close>

record sio_lib =
  lb_asbool :: "sio_value \<Rightarrow> exn + bool"
  lb_repr :: "sio_value \<Rightarrow> exn + string"
  lb_float :: "string \<Rightarrow> (64 word) option"
  lb_float_of_int :: "int \<Rightarrow> exn + 64 word"
  lb_find :: "string \<Rightarrow> sio_value \<Rightarrow> exn + nat"
  lb_text :: "nat \<Rightarrow> sio_value"
  lb_children :: "nat \<Rightarrow> nat list"
  lb_attr :: "nat \<Rightarrow> string \<Rightarrow> nat option"
  lb_siblings :: "nat \<Rightarrow> nat list"
  lb_true :: "nat \<Rightarrow> bool"
  lb_equals :: "nat \<Rightarrow> string \<Rightarrow> bool"
  lb_int :: "nat \<Rightarrow> exn + int"
  lb_float_of :: "nat \<Rightarrow> exn + 64 word"
  lb_build :: "xml_tree \<Rightarrow> nat"

definition ZATO_NONE :: string where "ZATO_NONE = ''ZATO_NONE''"
definition ZATO_SEC_USE_RBAC :: string where "ZATO_SEC_USE_RBAC = ''ZATO_SEC_USE_RBAC''"
definition NO_DEFAULT_VALUE :: string where "NO_DEFAULT_VALUE = ''NO_DEFAULT_VALUE''"
definition NOT_GIVEN :: string where "NOT_GIVEN = ''ZATO_NOT_GIVEN''"

definition ZatoException :: exn where "ZatoException = OtherError ''ZatoException''"
definition ParsingException :: exn where "ParsingException = OtherError ''ParsingException''"
definition ValidationException :: exn where "ValidationException = OtherError ''ValidationException''"
definition OverflowError :: exn where "OverflowError = OtherError ''OverflowError''"
definition UnicodeDecodeError :: exn where "UnicodeDecodeError = OtherError ''UnicodeDecodeError''"

text \<open>Equality with an ASCII text, and truth.\<close>

fun py_is :: "sio_lib \<Rightarrow> string \<Rightarrow> sio_value \<Rightarrow> bool" where
  "py_is l s (VText t) = (t = s)"
| "py_is l s (VBytes t) = (t = s)"
| "py_is l s (VElem e) = lb_equals l e s"
| "py_is l s _ = False"

fun py_true :: "sio_lib \<Rightarrow> sio_value \<Rightarrow> bool" where
  "py_true l VNone = False"
| "py_true l (VBool b) = b"
| "py_true l (VInt i) = (i \<noteq> 0)"
| "py_true l (VFloat f) = (push_bit 1 f \<noteq> 0)"
| "py_true l (VText s) = (s \<noteq> [])"
| "py_true l (VBytes s) = (s \<noteq> [])"
| "py_true l (VList vs) = (vs \<noteq> [])"
| "py_true l (VDict d) = (d \<noteq> [])"
| "py_true l (VElem e) = lb_true l e"
| "py_true l (VMsg m) = True"

section \<open>Texts and numbers\<close>

text \<open>\<open>bytes.decode('utf-8')\<close>: surrogates are accepted, as Python 2 does.\<close>

definition byte_in :: "nat \<Rightarrow> nat \<Rightarrow> char \<Rightarrow> bool" where
  "byte_in lo hi c \<longleftrightarrow> lo \<le> (of_char c :: nat) \<and> (of_char c :: nat) \<le> hi"

fun utf8_valid :: "string \<Rightarrow> bool" where
  "utf8_valid [] = True"
| "utf8_valid (a # s) =
     (if byte_in 0 127 a then utf8_valid s
      else case s of
        [] \<Rightarrow> False
      | b # s2 \<Rightarrow>
          if byte_in 194 223 a then byte_in 128 191 b \<and> utf8_valid s2
          else case s2 of
            [] \<Rightarrow> False
          | c # s3 \<Rightarrow>
              if byte_in 224 239 a
              then byte_in (if byte_in 224 224 a then 160 else 128) 191 b \<and> byte_in 128 191 c \<and> utf8_valid s3
              else case s3 of
                [] \<Rightarrow> False
              | d # s4 \<Rightarrow>
                  byte_in 240 244 a \<and>
                  byte_in (if byte_in 240 240 a then 144 else 128) (if byte_in 244 244 a then 143 else 191) b \<and>
                  byte_in 128 191 c \<and> byte_in 128 191 d \<and> utf8_valid s4)"

definition decode_utf8 :: "string \<Rightarrow> exn + string" where
  "decode_utf8 s = (if utf8_valid s then Inr s else Inl UnicodeDecodeError)"

text \<open>The implicit conversion of bytes that meet a unicode text.\<close>

definition decode_ascii :: "string \<Rightarrow> exn + string" where
  "decode_ascii s = (if list_all (byte_in 0 127) s then Inr s else Inl UnicodeDecodeError)"

text \<open>\<open>int()\<close> of a text, which takes no \<open>L\<close> at its end, and of a float.\<close>

definition int_of_text :: "string \<Rightarrow> exn + int" where
  "int_of_text s =
     (let t = strip_chars whitespace s
      in if t \<noteq> [] \<and> last t \<in> set ''Ll'' then Inl ValueError else py_long s)"

definition int_of_float :: "64 word \<Rightarrow> exn + int" where
  "int_of_float f =
     (let e = unat (drop_bit 53 (push_bit 1 f));
          m = unat (take_bit 52 f);
          n = 2 ^ 52 + m;
          i = (if 1075 \<le> e then n * 2 ^ (e - 1075) else n div 2 ^ (1075 - e))
      in if e = 2047 then Inl (if m = 0 then OverflowError else ValueError)
         else if e = 0 then Inr 0
         else Inr (if bit f 63 then - int i else int i))"

fun py_int :: "sio_lib \<Rightarrow> sio_value \<Rightarrow> exn + int" where
  "py_int l (VBool b) = Inr (if b then 1 else 0)"
| "py_int l (VInt i) = Inr i"
| "py_int l (VFloat f) = int_of_float f"
| "py_int l (VText s) = int_of_text s"
| "py_int l (VBytes s) = int_of_text s"
| "py_int l (VElem e) = lb_int l e"
| "py_int l _ = Inl TypeError"

fun py_float :: "sio_lib \<Rightarrow> sio_value \<Rightarrow> exn + 64 word" where
  "py_float l (VBool b) = lb_float_of_int l (if b then 1 else 0)"
| "py_float l (VInt i) = lb_float_of_int l i"
| "py_float l (VFloat f) = Inr f"
| "py_float l (VText s) = (case lb_float l s of None \<Rightarrow> Inl ValueError | Some f \<Rightarrow> Inr f)"
| "py_float l (VBytes s) = (case lb_float l s of None \<Rightarrow> Inl ValueError | Some f \<Rightarrow> Inr f)"
| "py_float l (VElem e) = lb_float_of l e"
| "py_float l _ = Inl TypeError"

fun py_unicode :: "sio_lib \<Rightarrow> sio_value \<Rightarrow> exn + string" where
  "py_unicode l (VText s) = Inr s"
| "py_unicode l (VInt i) = Inr (show_int i)"
| "py_unicode l (VBool b) = Inr (if b then ''True'' else ''False'')"
| "py_unicode l v = lb_repr l v"

section \<open>Declared types\<close>

datatype force =
    AsIs | Boolean | CSV | Dict "string list" sio_value | Float | Integer | List_Type | ListOfDicts
  | Opaque | Unicode | UTC

text \<open>A parameter: its name only, or an object that forces a type on the parameter of a name.\<close>

datatype param = Name string | Force force string

primrec param_name :: "param \<Rightarrow> string" where
  "param_name (Name n) = n"
| "param_name (Force f n) = n"

fun is_complex :: "param \<Rightarrow> bool" where
  "is_complex (Force f n) = (case f of AsIs \<Rightarrow> True | Dict ks d \<Rightarrow> True | List_Type \<Rightarrow> True | ListOfDicts \<Rightarrow> True
     | Opaque \<Rightarrow> True | _ \<Rightarrow> False)"
| "is_complex (Name n) = False"

text \<open>\<open>Boolean\<close>, \<open>CSV\<close>, \<open>Float\<close>, \<open>Integer\<close>, \<open>Unicode\<close> and \<open>UTC\<close> convert alike from JSON and XML.\<close>

definition bool_from_json :: "sio_lib \<Rightarrow> sio_value \<Rightarrow> exn + sio_value" where
  "bool_from_json l v = map_sum id VBool (lb_asbool l v)"

fun csv_from_json :: "sio_value \<Rightarrow> exn + sio_value" where
  "csv_from_json (VText s) = Inr (VList (map VText (split_on CHR '','' s)))"
| "csv_from_json (VBytes s) = map_sum id (\<lambda>t. VList (map VText (split_on CHR '','' t))) (decode_ascii s)"
| "csv_from_json _ = Inl AttributeError"

text \<open>\<open>','.join\<close> wants texts in the list.\<close>

fun texts_of :: "sio_value list \<Rightarrow> exn + string list" where
  "texts_of [] = Inr []"
| "texts_of (v # vs) =
     (case (case v of VText s \<Rightarrow> Inr s | VBytes s \<Rightarrow> decode_ascii s | _ \<Rightarrow> Inl TypeError) of
        Inl e \<Rightarrow> Inl e
      | Inr t \<Rightarrow> map_sum id ((#) t) (texts_of vs))"

fun csv_to_json :: "sio_value \<Rightarrow> exn + sio_value" where
  "csv_to_json (VList vs) = map_sum id (\<lambda>ts. VText (join_on CHR '','' ts)) (texts_of vs)"
| "csv_to_json v = Inr v"

text \<open>The keys of a \<open>Dict\<close> are picked; a missing one without a default is an error.\<close>

fun pick_keys ::
    "sio_lib \<Rightarrow> (string option, sio_value) dict \<Rightarrow> sio_value \<Rightarrow> string list \<Rightarrow> (string option, sio_value) dict \<Rightarrow>
     exn + (string option, sio_value) dict" where
  "pick_keys l d dflt [] out = Inr out"
| "pick_keys l d dflt (key # ks) out =
     (let v = dict_get (Some key) dflt d
      in if py_is l NO_DEFAULT_VALUE v then Inl ValidationException
         else pick_keys l d dflt ks (dict_set (Some key) v out))"

fun dict_from_json :: "sio_lib \<Rightarrow> string list \<Rightarrow> sio_value \<Rightarrow> sio_value \<Rightarrow> exn + sio_value" where
  "dict_from_json l [] dflt v = Inr v"
| "dict_from_json l ks dflt (VDict d) = map_sum id VDict (pick_keys l d dflt ks [])"
| "dict_from_json l ks dflt v = Inl AttributeError"

text \<open>The message of the \<open>BadRequest\<close> is formatted with the value, whose bytes have to be ASCII.\<close>

definition float_from_json :: "sio_lib \<Rightarrow> sio_value \<Rightarrow> exn + sio_value" where
  "float_from_json l v =
     (case py_float l v of
        Inl e \<Rightarrow> Inl (if e = ValueError
                      then (case v of VBytes s \<Rightarrow> (case decode_ascii s of Inl x \<Rightarrow> x | Inr t \<Rightarrow> BadRequest) | _ \<Rightarrow> BadRequest)
                      else e)
      | Inr f \<Rightarrow> Inr (VFloat f))"

definition int_from_json :: "sio_lib \<Rightarrow> sio_value \<Rightarrow> exn + sio_value" where
  "int_from_json l v = (if py_true l v then map_sum id VInt (py_int l v) else Inr (VInt 0))"

fun unicode_from_json :: "sio_value \<Rightarrow> exn + sio_value" where
  "unicode_from_json (VText s) = Inr (VText s)"
| "unicode_from_json (VBytes s) = map_sum id VText (decode_utf8 s)"
| "unicode_from_json _ = Inl AttributeError"

fun utc_from_json :: "sio_value \<Rightarrow> exn + sio_value" where
  "utc_from_json (VText s) = Inr (VText (erase ''+00:00'' s))"
| "utc_from_json (VBytes s) = map_sum id (\<lambda>t. VText (erase ''+00:00'' t)) (decode_ascii s)"
| "utc_from_json _ = Inl AttributeError"

primrec from_json :: "sio_lib \<Rightarrow> force \<Rightarrow> sio_value \<Rightarrow> exn + sio_value" where
  "from_json l AsIs v = Inr v"
| "from_json l Boolean v = bool_from_json l v"
| "from_json l CSV v = csv_from_json v"
| "from_json l (Dict ks d) v = dict_from_json l ks d v"
| "from_json l Float v = float_from_json l v"
| "from_json l Integer v = int_from_json l v"
| "from_json l List_Type v = Inr v"
| "from_json l ListOfDicts v = Inr v"
| "from_json l Opaque v = Inr v"
| "from_json l Unicode v = unicode_from_json v"
| "from_json l UTC v = utc_from_json v"

definition to_json :: "sio_lib \<Rightarrow> force \<Rightarrow> sio_value \<Rightarrow> exn + sio_value" where
  "to_json l f v = (if f = CSV then csv_to_json v else from_json l f v)"

text \<open>From XML: the items of a \<open>Dict\<close>, of a \<open>List\<close> and of a \<open>ListOfDicts\<close>.\<close>

fun xml_key :: "sio_value \<Rightarrow> string option" where
  "xml_key (VText s) = Some s"
| "xml_key (VBytes s) = Some s"
| "xml_key _ = None"

fun items_from_xml :: "sio_lib \<Rightarrow> nat list \<Rightarrow> (string option, sio_value) dict \<Rightarrow> exn + (string option, sio_value) dict" where
  "items_from_xml l [] out = Inr out"
| "items_from_xml l (item # items) out =
     (case (lb_attr l item ''key'', lb_attr l item ''value'') of
        (Some k, Some v) \<Rightarrow> items_from_xml l items (dict_set (xml_key (lb_text l k)) (lb_text l v) out)
      | _ \<Rightarrow> Inl AttributeError)"

fun dicts_from_xml :: "sio_lib \<Rightarrow> nat list \<Rightarrow> exn + sio_value list" where
  "dicts_from_xml l [] = Inr []"
| "dicts_from_xml l (e # es) =
     (case items_from_xml l (lb_children l e) [] of
        Inl x \<Rightarrow> Inl x
      | Inr d \<Rightarrow> map_sum id ((#) (VDict d)) (dicts_from_xml l es))"

fun elem_of :: "sio_value \<Rightarrow> exn + nat" where
  "elem_of (VElem e) = Inr e"
| "elem_of _ = Inl AttributeError"

definition from_xml :: "sio_lib \<Rightarrow> force \<Rightarrow> sio_value \<Rightarrow> exn + sio_value" where
  "from_xml l f v =
     (case f of
        AsIs \<Rightarrow> Inl NotImplementedError
      | Opaque \<Rightarrow> Inl NotImplementedError
      | Dict ks d \<Rightarrow>
          (case elem_of v of Inl x \<Rightarrow> Inl x | Inr e \<Rightarrow> map_sum id VDict (items_from_xml l (lb_children l e) []))
      | List_Type \<Rightarrow> (case elem_of v of Inl x \<Rightarrow> Inl x | Inr e \<Rightarrow> Inr (VList (map (lb_text l) (lb_children l e))))
      | ListOfDicts \<Rightarrow>
          (case elem_of v of
             Inl x \<Rightarrow> Inl x
           | Inr e \<Rightarrow>
               (case lb_attr l e ''item_dict'' of
                  None \<Rightarrow> Inl AttributeError
                | Some first \<Rightarrow> map_sum id VList (dicts_from_xml l (lb_siblings l first))))
      | _ \<Rightarrow> from_json l f v)"

text \<open>
  To XML: the values that a \<open>for\<close> goes through (the characters of a text are its bytes with
  their continuation bytes), and the elements built.
\<close>

function utf8_chars :: "string \<Rightarrow> string list" where
  "utf8_chars [] = []"
| "utf8_chars (c # cs) =
     (c # takeWhile (byte_in 128 191) cs) # utf8_chars (dropWhile (byte_in 128 191) cs)"
  by pat_completeness auto

termination
  by (relation "measure length") (auto simp: length_dropWhile_le less_Suc_eq_le)

definition key_value :: "string option \<Rightarrow> sio_value" where
  "key_value k = (case k of None \<Rightarrow> VNone | Some s \<Rightarrow> VText s)"

fun iter_values :: "sio_lib \<Rightarrow> sio_value \<Rightarrow> exn + sio_value list" where
  "iter_values l (VList vs) = Inr vs"
| "iter_values l (VText s) = Inr (map VText (utf8_chars s))"
| "iter_values l (VBytes s) = Inr (map (\<lambda>c. VBytes [c]) s)"
| "iter_values l (VDict d) = Inr (map (key_value \<circ> fst) d)"
| "iter_values l (VElem e) = Inr (map VElem (lb_siblings l e))"
| "iter_values l _ = Inl TypeError"

fun get_xml_dict :: "string \<Rightarrow> sio_value \<Rightarrow> exn + xml_tree" where
  "get_xml_dict name (VDict d) =
     Inr (Xml_Tree name None (map (\<lambda>(k, v).
       Xml_Tree ''item'' None [Xml_Tree ''key'' (Some (key_value k)) [], Xml_Tree ''value'' (Some v) []]) d))"
| "get_xml_dict name v = Inl AttributeError"

fun map_values :: "('a \<Rightarrow> exn + 'b) \<Rightarrow> 'a list \<Rightarrow> exn + 'b list" where
  "map_values f [] = Inr []"
| "map_values f (x # xs) = (case f x of Inl e \<Rightarrow> Inl e | Inr y \<Rightarrow> map_sum id ((#) y) (map_values f xs))"

definition to_xml :: "sio_lib \<Rightarrow> force \<Rightarrow> sio_value \<Rightarrow> string \<Rightarrow> exn + sio_value" where
  "to_xml l f v name =
     (case f of
        AsIs \<Rightarrow> Inl NotImplementedError
      | Opaque \<Rightarrow> Inl NotImplementedError
      | Dict ks d \<Rightarrow> map_sum id (\<lambda>t. VElem (lb_build l t)) (get_xml_dict name v)
      | List_Type \<Rightarrow>
          map_sum id (\<lambda>vs. VElem (lb_build l (Xml_Tree name None (map (\<lambda>i. Xml_Tree ''item'' (Some i) []) vs))))
            (iter_values l v)
      | ListOfDicts \<Rightarrow>
          (case iter_values l v of
             Inl x \<Rightarrow> Inl x
           | Inr vs \<Rightarrow> map_sum id (\<lambda>ts. VElem (lb_build l (Xml_Tree name None ts))) (map_values (get_xml_dict ''dict'') vs))
      | _ \<Rightarrow> to_json l f v)"

section \<open>Conversion of a value\<close>

type_synonym data_format = "string option"

abbreviation JSON :: data_format where "JSON \<equiv> Some ''json''"
abbreviation DICT :: data_format where "DICT \<equiv> Some ''dict''"
abbreviation XML :: data_format where "XML \<equiv> Some ''xml''"

definition convert :: "sio_lib \<Rightarrow> force \<Rightarrow> sio_value \<Rightarrow> string \<Rightarrow> data_format \<Rightarrow> bool \<Rightarrow> exn + sio_value" where
  "convert l f v name data_format from_sio_to_external =
     (if v = VNone then Inr VNone
      else if data_format = JSON \<or> data_format = DICT
      then (if from_sio_to_external then to_json l f v else from_json l f v)
      else if data_format = XML
      then (if from_sio_to_external then to_xml l f v name else from_xml l f v)
      else Inl KeyError)"

text \<open>How names tell types: prefixes of truth values, names and suffixes of integers.\<close>

record sio_names =
  sn_bool_prefixes :: "string list"
  sn_int_names :: "string list"
  sn_int_suffixes :: "string list"

definition is_bool :: "sio_names \<Rightarrow> param \<Rightarrow> bool" where
  "is_bool ns p \<longleftrightarrow> list_ex (\<lambda>q. prefix q (param_name p)) (sn_bool_prefixes ns) \<or>
     (case p of Force f n \<Rightarrow> f = Boolean | Name n \<Rightarrow> False)"

definition is_int :: "sio_names \<Rightarrow> string \<Rightarrow> bool" where
  "is_int ns name \<longleftrightarrow> name \<in> set (sn_int_names ns) \<or> list_ex (\<lambda>q. suffix q name) (sn_int_suffixes ns)"

text \<open>\<open>Reportable\<close> exceptions go through as they are, any other becomes a \<open>ZatoException\<close>.\<close>

fun reportable :: "exn \<Rightarrow> bool" where
  "reportable (Unauthorized s) = True"
| "reportable e = (e \<in> {BadRequest, Forbidden, NotFound, MethodNotAllowed, TooManyRequests, ServiceUnavailable})"

definition convert_value ::
    "sio_lib \<Rightarrow> bool \<Rightarrow> sio_names \<Rightarrow> data_format \<Rightarrow> bool \<Rightarrow> param \<Rightarrow> sio_value \<Rightarrow> exn + sio_value" where
  "convert_value l has_config ns data_format from_sio_to_external p v =
     (case p of
        Force f n \<Rightarrow> convert l f v n data_format from_sio_to_external
      | Name n \<Rightarrow>
          let v = (if py_is l [] v \<and> is_int ns n then VNone else v)
          in if py_true l v \<and> \<not> py_is l ZATO_NONE v \<and> \<not> py_is l ZATO_SEC_USE_RBAC v \<and> has_config \<and> is_int ns n
             then map_sum id VInt (py_int l v) else Inr v)"

definition convert_sio ::
    "sio_lib \<Rightarrow> bool \<Rightarrow> sio_names \<Rightarrow> data_format \<Rightarrow> bool \<Rightarrow> param \<Rightarrow> sio_value \<Rightarrow> exn + sio_value" where
  "convert_sio l has_config ns data_format from_sio_to_external p v =
     (case (case (if is_bool ns p then map_sum id VBool (lb_asbool l (if py_true l v then v else VNone)) else Inr v) of
              Inl e \<Rightarrow> Inl e
            | Inr w \<Rightarrow> if w = VNone then Inr VNone
                       else convert_value l has_config ns data_format from_sio_to_external p w) of
        Inl e \<Rightarrow> Inl (if reportable e then e else ZatoException)
      | Inr w \<Rightarrow> Inr w)"

section \<open>Parameters of requests\<close>

fun convert_from_json :: "sio_lib \<Rightarrow> sio_value \<Rightarrow> string \<Rightarrow> exn + sio_value" where
  "convert_from_json l (VDict d) name = Inr (dict_get (Some name) (VBytes NOT_GIVEN) d)"
| "convert_from_json l v name = (if py_true l v then Inl AttributeError else Inr (VBytes NOT_GIVEN))"

definition convert_from_xml ::
    "sio_lib \<Rightarrow> sio_value \<Rightarrow> string \<Rightarrow> bool \<Rightarrow> bool \<Rightarrow> sio_value \<Rightarrow> string \<Rightarrow> bool \<Rightarrow> exn + sio_value" where
  "convert_from_xml l payload name is_required complex default_value path_prefix use_text =
     (case lb_find l (path_prefix @ ''.'' @ name) payload of
        Inl e \<Rightarrow>
          if e \<noteq> ValueError \<and> e \<noteq> AttributeError then Inl e
          else if is_required then Inl ParsingException
          else Inr (if complex then VNone else default_value)
      | Inr elem \<Rightarrow> Inr (if complex \<or> \<not> use_text then VElem elem else lb_text l elem))"

datatype params_priority = CHANNEL_PARAMS_OVER_MSG | MSG_OVER_CHANNEL_PARAMS

record sio_options =
  so_default :: sio_value
  so_path_prefix :: string
  so_use_text :: bool
  so_has_config :: bool
  so_names :: sio_names
  so_format :: data_format
  so_priority :: params_priority
  so_channel :: "(string, sio_value) dict"

definition from_payload :: "sio_lib \<Rightarrow> sio_options \<Rightarrow> sio_value \<Rightarrow> bool \<Rightarrow> param \<Rightarrow> exn + sio_value" where
  "from_payload l opts payload is_required p =
     (if payload = VNone then Inr (VBytes NOT_GIVEN)
      else if so_format opts = XML
      then convert_from_xml l payload (param_name p) is_required (is_complex p) (so_default opts)
             (so_path_prefix opts) (so_use_text opts)
      else if so_format opts \<in> {JSON, DICT, None} then convert_from_json l payload (param_name p)
      else Inl KeyError)"

definition from_channel :: "sio_lib \<Rightarrow> sio_options \<Rightarrow> param \<Rightarrow> exn + sio_value" where
  "from_channel l opts p =
     (let v = dict_get (param_name p) (VBytes ZATO_NONE) (so_channel opts)
      in if py_is l ZATO_NONE v then Inr v
         else convert_sio l (so_has_config opts) (so_names opts) (so_format opts) False p v)"

definition as_text :: "sio_lib \<Rightarrow> sio_value \<Rightarrow> exn + sio_value" where
  "as_text l v = map_sum id VText (case v of VBytes s \<Rightarrow> decode_utf8 s | _ \<Rightarrow> py_unicode l v)"

definition taken_as_is :: "param \<Rightarrow> bool" where
  "taken_as_is p = (case p of Force f n \<Rightarrow> f \<in> {AsIs, Opaque} | Name n \<Rightarrow> False)"

definition convert_given :: "sio_lib \<Rightarrow> sio_options \<Rightarrow> param \<Rightarrow> sio_value \<Rightarrow> exn + sio_value" where
  "convert_given l opts p v =
     (case (if v \<noteq> VNone \<and> \<not> is_complex p then as_text l v else Inr v) of
        Inl e \<Rightarrow> Inl e
      | Inr w \<Rightarrow>
          if taken_as_is p then Inr w
          else convert_sio l (so_has_config opts) (so_names opts) (so_format opts) False p w)"

text \<open>What stands for a parameter that the message does not have.\<close>

definition not_given :: "sio_lib \<Rightarrow> sio_options \<Rightarrow> bool \<Rightarrow> sio_value \<Rightarrow> exn + sio_value" where
  "not_given l opts is_required channel_value =
     (if \<not> py_is l NO_DEFAULT_VALUE (so_default opts) then Inr (so_default opts)
      else if \<not> is_required then Inr (VText [])
      else if channel_value = VNone \<or> py_is l ZATO_NONE channel_value then Inl ParsingException
      else Inr channel_value)"

definition convert_param :: "sio_lib \<Rightarrow> sio_options \<Rightarrow> sio_value \<Rightarrow> bool \<Rightarrow> param \<Rightarrow> exn + string \<times> sio_value" where
  "convert_param l opts payload is_required p =
     (case from_channel l opts p of
        Inl e \<Rightarrow> Inl e
      | Inr channel_value \<Rightarrow>
          map_sum id (Pair (param_name p))
            (if so_priority opts = CHANNEL_PARAMS_OVER_MSG \<and> \<not> py_is l ZATO_NONE channel_value then Inr channel_value
             else case from_payload l opts payload is_required p of
               Inl e \<Rightarrow> Inl e
             | Inr v \<Rightarrow>
                 if py_is l NOT_GIVEN v then not_given l opts is_required channel_value
                 else convert_given l opts p v))"

end
