(* ===== verification/Sio_Request.thy ===== *)
theory Sio_Request
  imports Sio
begin

text \<open>
  Requests and responses of services (zato-server service/reqresp/__init__.py, and
  \<open>ServiceInput\<close> of sio.py): the input of a service out of its declared parameters, and the
  response it declares, down to what the JSON serialiser gets. The flat formats are modelled; the
  rendering of XML and fixed-width requests are not (for the latter see \<open>Fixed_Width\<close>). The
  parameters declared by a service do not have names of \<open>SimpleIOPayload\<close>'s own attributes.
\<close>

section \<open>What a service declares\<close>

record sio_def =
  sd_request_elem :: string
  sd_input_required :: "param list"
  sd_input_optional :: "param list"
  sd_default_value :: sio_value
  sd_use_text :: bool
  sd_channel_params_only :: bool
  sd_output_required :: "param list"
  sd_output_optional :: "param list"
  sd_response_elem :: "string option"
  sd_output_repeated :: bool
  sd_skip_empty_keys :: bool
  sd_force_empty_keys :: "string list"
  sd_allow_empty_required :: bool

section \<open>Requests\<close>

text \<open>The configuration of SimpleIO may be empty.\<close>

record request =
  rq_payload :: sio_value
  rq_raw_request :: sio_value
  rq_input :: "(string, sio_value) dict"
  rq_config :: "sio_names option"
  rq_has_config :: bool
  rq_names :: sio_names
  rq_format :: data_format
  rq_channel_params :: "(string, sio_value) dict"
  rq_merge_channel_params :: bool
  rq_params_priority :: params_priority

definition no_names :: sio_names where
  "no_names = \<lparr>sn_bool_prefixes = [], sn_int_names = [], sn_int_suffixes = []\<rparr>"

definition new_request :: "sio_names option \<Rightarrow> data_format \<Rightarrow> request" where
  "new_request config data_format =
     \<lparr>rq_payload = VText [], rq_raw_request = VText [], rq_input = [], rq_config = config,
      rq_has_config = False, rq_names = (case config of None \<Rightarrow> no_names | Some ns \<Rightarrow> ns),
      rq_format = data_format, rq_channel_params = [], rq_merge_channel_params = True,
      rq_params_priority = CHANNEL_PARAMS_OVER_MSG\<rparr>"

fun get_params ::
    "sio_lib \<Rightarrow> sio_options \<Rightarrow> sio_value \<Rightarrow> bool \<Rightarrow> param list \<Rightarrow> (string, sio_value) dict \<Rightarrow>
     exn + (string, sio_value) dict" where
  "get_params l opts payload is_required [] params = Inr params"
| "get_params l opts payload is_required (p # ps) params =
     (case convert_param l opts payload is_required p of
        Inl e \<Rightarrow> Inl ParsingException
      | Inr (name, v) \<Rightarrow> get_params l opts payload is_required ps (dict_set name v params))"

definition request_options :: "sio_def \<Rightarrow> request \<Rightarrow> sio_options" where
  "request_options sio rq =
     \<lparr>so_default = sd_default_value sio, so_path_prefix = sd_request_elem sio, so_use_text = sd_use_text sio,
      so_has_config = rq_has_config rq, so_names = rq_names rq, so_format = rq_format rq,
      so_priority = rq_params_priority rq, so_channel = rq_channel_params rq\<rparr>"

definition request_params :: "sio_lib \<Rightarrow> sio_def \<Rightarrow> bool \<Rightarrow> param list \<Rightarrow> (request, (string, sio_value) dict) py" where
  "request_params l sio is_required ps rq =
     (get_params l (request_options sio rq) (if sd_channel_params_only sio then VText [] else rq_payload rq)
        is_required ps [], rq)"

text \<open>Parameters of the channel that are no input yet become input.\<close>

definition add_channel_params :: "request \<Rightarrow> request" where
  "add_channel_params rq = rq\<lparr>rq_input :=
     foldl (\<lambda>d (k, v). if dict_has k d then d else dict_set k v d) (rq_input rq) (rq_channel_params rq)\<rparr>"

definition use_config :: "data_format \<Rightarrow> request \<Rightarrow> request" where
  "use_config data_format rq =
     (let rq = rq\<lparr>rq_format := data_format\<rparr>
      in case rq_config rq of
           Some ns \<Rightarrow> rq\<lparr>rq_has_config := True, rq_names := ns\<rparr>
         | None \<Rightarrow> rq\<lparr>rq_payload := rq_raw_request rq\<rparr>)"

definition init_flat_sio :: "sio_lib \<Rightarrow> sio_def \<Rightarrow> data_format \<Rightarrow> (request, unit) py" where
  "init_flat_sio l sio data_format =
     py_seq (py_modify (use_config data_format))
     (py_bind
       (if sd_input_required sio = [] then py_ret []
        else py_bind (py_get (\<lambda>rq. py_is l [] (rq_payload rq) \<and> rq_channel_params rq = [])) (\<lambda>missing.
          if missing then py_raise ZatoException
          else request_params l sio True (sd_input_required sio)))
       (\<lambda>required_params.
     py_bind
       (if sd_input_optional sio = [] then py_ret []
        else request_params l sio False (sd_input_optional sio))
       (\<lambda>optional_params.
     py_modify (\<lambda>rq. add_channel_params
       (rq\<lparr>rq_input := dict_update optional_params (dict_update required_params (rq_input rq))\<rparr>)))))"

definition request_init :: "sio_lib \<Rightarrow> bool \<Rightarrow> sio_def \<Rightarrow> data_format \<Rightarrow> (request, unit) py" where
  "request_init l is_sio sio data_format =
     py_seq (py_modify (rq_input_update (\<lambda>_. [])))
     (if is_sio then init_flat_sio l sio data_format
      else py_modify (\<lambda>rq. if rq_merge_channel_params rq
        then rq\<lparr>rq_input := dict_update (rq_channel_params rq) (rq_input rq)\<rparr> else rq))"

definition require_any :: "sio_lib \<Rightarrow> (string, sio_value) dict \<Rightarrow> string list \<Rightarrow> exn + unit" where
  "require_any l input elems =
     (if list_ex (\<lambda>name. py_true l (dict_get name VNone input)) elems then Inr () else Inl ValueError)"

section \<open>Responses\<close>

record sio_payload =
  pl_attrs :: "(string, sio_value) dict"
  pl_output :: "(string, sio_value) dict list"
  pl_repeated :: bool
  pl_required :: "param list"
  pl_optional :: "param list"
  pl_skip_empty :: bool
  pl_force_empty :: "string list"
  pl_allow_empty_required :: bool
  pl_format :: data_format
  pl_names :: sio_names
  pl_response_elem :: "string option"
  pl_search :: sio_value

definition declared_names :: "sio_payload \<Rightarrow> string list" where
  "declared_names pl = map param_name (pl_required pl @ pl_optional pl)"

definition new_sio_payload :: "sio_def \<Rightarrow> sio_names \<Rightarrow> data_format \<Rightarrow> string option \<Rightarrow> sio_payload" where
  "new_sio_payload sio names data_format response_elem =
     \<lparr>pl_attrs = foldl (\<lambda>d p. dict_set (param_name p) (VText []) d) [] (sd_output_required sio @ sd_output_optional sio),
      pl_output = [], pl_repeated = sd_output_repeated sio, pl_required = sd_output_required sio,
      pl_optional = sd_output_optional sio, pl_skip_empty = sd_skip_empty_keys sio,
      pl_force_empty = sd_force_empty_keys sio, pl_allow_empty_required = sd_allow_empty_required sio,
      pl_format = data_format, pl_names = names, pl_response_elem = response_elem, pl_search = VNone\<rparr>"

text \<open>\<open>payload[i:j] = seq\<close>, \<open>payload.append(item)\<close> and \<open>payload.name = v\<close>.\<close>

definition payload_setslice ::
    "nat \<Rightarrow> nat \<Rightarrow> (string, sio_value) dict list \<Rightarrow> sio_payload \<Rightarrow> sio_payload" where
  "payload_setslice i j seq pl =
     pl\<lparr>pl_output := take i (pl_output pl) @ seq @ drop (max i j) (pl_output pl), pl_repeated := True\<rparr>"

definition payload_append :: "(string, sio_value) dict \<Rightarrow> sio_payload \<Rightarrow> sio_payload" where
  "payload_append item pl = pl\<lparr>pl_output := pl_output pl @ [item], pl_repeated := True\<rparr>"

definition payload_set :: "string \<Rightarrow> sio_value \<Rightarrow> sio_payload \<Rightarrow> sio_payload" where
  "payload_set name v pl = pl\<lparr>pl_attrs := dict_set name v (pl_attrs pl)\<rparr>"

text \<open>What a service may assign to its response: a value, or a row of an SQL query.\<close>

datatype response_value = Value sio_value | Row "(string, sio_value) dict"

definition No_Keys :: exn where "No_Keys = OtherError ''Could not get the keys''"

fun set_attrs :: "(string option \<times> sio_value) list \<Rightarrow> (sio_payload, unit) py" where
  "set_attrs [] = py_ret ()"
| "set_attrs ((None, v) # attrs) = py_raise TypeError"
| "set_attrs ((Some name, v) # attrs) = py_seq (py_modify (payload_set name v)) (set_attrs attrs)"

definition set_payload_attrs :: "response_value \<Rightarrow> (sio_payload, unit) py" where
  "set_payload_attrs rv =
     (case rv of
        Value (VDict d) \<Rightarrow> if d = [] then py_raise No_Keys else set_attrs d
      | Row d \<Rightarrow> if d = [] then py_raise No_Keys else set_attrs (map (\<lambda>(k, v). (Some k, v)) d)
      | _ \<Rightarrow> py_raise No_Keys)"

text \<open>The value of an element of an item.\<close>

definition leave_as_is :: "param \<Rightarrow> bool" where
  "leave_as_is p = (case p of Force f n \<Rightarrow> f = AsIs | Name n \<Rightarrow> False)"

definition getvalue_of :: "sio_lib \<Rightarrow> sio_payload \<Rightarrow> (string, sio_value) dict \<Rightarrow> bool \<Rightarrow> param \<Rightarrow> exn + sio_value" where
  "getvalue_of l pl item is_required p =
     (let v = dict_get (param_name p) (VText []) item
      in if v \<in> {VText [], VBytes []} \<and> pl_allow_empty_required pl then Inr (VText [])
         else if v \<in> {VText [], VBytes []} \<and> is_required then Inl ZatoException
         else if leave_as_is p then Inr v
         else convert_sio l True (pl_names pl) (pl_format pl) True p v)"

definition skipped :: "sio_lib \<Rightarrow> sio_payload \<Rightarrow> param \<Rightarrow> sio_value \<Rightarrow> bool" where
  "skipped l pl p v \<longleftrightarrow> py_is l [] v \<and> pl_skip_empty pl \<and> param_name p \<notin> set (pl_force_empty pl)"

definition out_value :: "sio_value \<Rightarrow> exn + sio_value" where
  "out_value v = (case v of VBytes s \<Rightarrow> map_sum id VText (decode_utf8 s) | _ \<Rightarrow> Inr v)"

fun out_item ::
    "sio_lib \<Rightarrow> sio_payload \<Rightarrow> (string, sio_value) dict \<Rightarrow> (bool \<times> param) list \<Rightarrow> (string option, sio_value) dict \<Rightarrow>
     exn + (string option, sio_value) dict" where
  "out_item l pl item [] out = Inr out"
| "out_item l pl item ((is_required, p) # ps) out =
     (case getvalue_of l pl item is_required p of
        Inl e \<Rightarrow> Inl e
      | Inr v \<Rightarrow>
          if skipped l pl p v then out_item l pl item ps out
          else case out_value v of
            Inl e \<Rightarrow> Inl e
          | Inr w \<Rightarrow> out_item l pl item ps (dict_set (Some (param_name p)) w out))"

definition visited :: "sio_payload \<Rightarrow> (bool \<times> param) list" where
  "visited pl = map (Pair True) (pl_required pl) @ map (Pair False) (pl_optional pl)"

text \<open>The items of a response: those given, or one made of the declared attributes.\<close>

definition payload_items :: "sio_payload \<Rightarrow> (string, sio_value) dict list" where
  "payload_items pl =
     (if pl_repeated pl then pl_output pl
      else [filter (\<lambda>(k, v). k \<in> set (declared_names pl)) (pl_attrs pl)])"

definition getvalue :: "sio_lib \<Rightarrow> sio_payload \<Rightarrow> exn + sio_value" where
  "getvalue l pl =
     (case map_values (\<lambda>item. out_item l pl item (visited pl) []) (payload_items pl) of
        Inl e \<Rightarrow> Inl e
      | Inr outs \<Rightarrow>
          let value = (if pl_repeated pl then VList (map VDict outs) else VDict (hd outs))
          in if py_true l (pl_search pl)
             then (case (case pl_response_elem pl of None \<Rightarrow> value | Some e \<Rightarrow> VDict [(Some e, value)]) of
                     VDict d \<Rightarrow> Inr (VDict (dict_set (Some ''_meta'') (pl_search pl) d))
                   | _ \<Rightarrow> Inl TypeError)
             else Inr (case pl_response_elem pl of None \<Rightarrow> value | Some e \<Rightarrow> VDict [(Some e, value)]))"

datatype rs_payload = Direct sio_value | Declared sio_payload

record response =
  rs_payload :: rs_payload
  rs_format :: data_format
  rs_names :: sio_names
  rs_outgoing_declared :: bool

definition new_response :: "sio_names option \<Rightarrow> data_format \<Rightarrow> response" where
  "new_response config data_format =
     \<lparr>rs_payload = Direct (VText []), rs_format = data_format,
      rs_names = (case config of None \<Rightarrow> no_names | Some ns \<Rightarrow> ns), rs_outgoing_declared = False\<rparr>"

definition response_init :: "sio_def \<Rightarrow> data_format \<Rightarrow> response \<Rightarrow> response" where
  "response_init sio data_format rs =
     (let declared = (sd_output_required sio \<noteq> [] \<or> sd_output_optional sio \<noteq> []);
          response_elem = (if sd_response_elem sio = Some NOT_GIVEN then Some ''response'' else sd_response_elem sio);
          rs = rs\<lparr>rs_format := data_format, rs_outgoing_declared := declared\<rparr>
      in if declared
         then rs\<lparr>rs_payload := Declared (new_sio_payload sio (rs_names rs) data_format response_elem)\<rparr>
         else rs)"

definition Not_Declared :: exn where "Not_Declared = OtherError ''output_required nor output_optional declared''"

definition on_declared :: "(sio_payload, unit) py \<Rightarrow> (response, unit) py" where
  "on_declared m rs =
     (case rs_payload rs of
        Direct v \<Rightarrow> (Inl AttributeError, rs)
      | Declared pl \<Rightarrow> (case m pl of (r, pl') \<Rightarrow> (r, rs\<lparr>rs_payload := Declared pl'\<rparr>)))"

fun is_direct :: "sio_value \<Rightarrow> bool" where
  "is_direct VNone = False"
| "is_direct (VMsg m) = False"
| "is_direct _ = True"

definition set_payload :: "response_value \<Rightarrow> (response, unit) py" where
  "set_payload rv =
     py_bind (py_get rs_outgoing_declared) (\<lambda>declared.
     case rv of
       Value (VDict d) \<Rightarrow>
         if declared then on_declared (set_payload_attrs rv)
         else py_modify (rs_payload_update (\<lambda>_. Direct (VDict d)))
     | Value v \<Rightarrow>
         if is_direct v then py_modify (rs_payload_update (\<lambda>_. Direct v))
         else if declared then on_declared (set_payload_attrs rv) else py_raise Not_Declared
     | Row d \<Rightarrow> if declared then on_declared (set_payload_attrs rv) else py_raise Not_Declared)"

end
