(* ===== verification/Sio_Facts.thy ===== *)
theory Sio_Facts
  imports Sio_Request
begin

text \<open>
  What SimpleIO guarantees: the input of a service has the declared names with values of the
  declared types, a missing required parameter is refused, and what one service responds another
  one reads back.
\<close>

section \<open>Types of converted values\<close>

fun force_type :: "force \<Rightarrow> sio_value \<Rightarrow> bool" where
  "force_type Boolean v = (case v of VBool b \<Rightarrow> True | _ \<Rightarrow> False)"
| "force_type Integer v = (case v of VNone \<Rightarrow> True | VInt i \<Rightarrow> True | _ \<Rightarrow> False)"
| "force_type Float v = (case v of VNone \<Rightarrow> True | VFloat f \<Rightarrow> True | _ \<Rightarrow> False)"
| "force_type CSV v =
     (case v of VNone \<Rightarrow> True
      | VList vs \<Rightarrow> vs \<noteq> [] \<and> list_all (\<lambda>v. case v of VText t \<Rightarrow> CHR '','' \<notin> set t | _ \<Rightarrow> False) vs
      | _ \<Rightarrow> False)"
| "force_type (Dict ks dflt) v =
     (ks = [] \<or> (case v of VNone \<Rightarrow> True | VDict d \<Rightarrow> set (dict_keys d) = Some ` set ks | _ \<Rightarrow> False))"
| "force_type Unicode v = (case v of VNone \<Rightarrow> True | VText t \<Rightarrow> True | _ \<Rightarrow> False)"
| "force_type UTC v = (case v of VNone \<Rightarrow> True | VText t \<Rightarrow> True | _ \<Rightarrow> False)"
| "force_type f v = True"

text \<open>The type of a parameter that is only a name follows from the name.\<close>

definition name_type :: "sio_names \<Rightarrow> string \<Rightarrow> sio_value \<Rightarrow> bool" where
  "name_type ns n v =
     (case v of
        VNone \<Rightarrow> \<not> is_bool ns (Name n)
      | VBool b \<Rightarrow> is_bool ns (Name n)
      | VInt i \<Rightarrow> is_int ns n
      | VText t \<Rightarrow> \<not> is_bool ns (Name n) \<and> (is_int ns n \<longrightarrow> t \<in> {ZATO_NONE, ZATO_SEC_USE_RBAC})
      | _ \<Rightarrow> False)"

primrec has_sio_type :: "sio_names \<Rightarrow> param \<Rightarrow> sio_value \<Rightarrow> bool" where
  "has_sio_type ns (Name n) v = name_type ns n v"
| "has_sio_type ns (Force f n) v = force_type f v"

lemma map_sum_Inr [simp]: "map_sum id f r = Inr y \<longleftrightarrow> (\<exists>x. r = Inr x \<and> y = f x)"
  by (cases r) auto

lemma pick_keys_names:
  "pick_keys l d dflt ks out = Inr r \<Longrightarrow> set (dict_keys r) = Some ` set ks \<union> set (dict_keys out)"
  by (induction ks arbitrary: out) (auto simp: Let_def split: if_splits)

lemma from_json_typed:
  assumes "from_json l f v = Inr w"
  shows "force_type f w"
proof (cases f)
  case CSV
  with assms show ?thesis
    by (cases v) (auto simp: list_all_iff dest: split_on_parts)
next
  case (Dict ks dflt)
  show ?thesis
  proof (cases "ks = []")
    case False
    then obtain k kt where ks: "ks = k # kt" by (cases ks) auto
    with assms Dict obtain d where "v = VDict d" "w \<in> VDict ` {r. pick_keys l d dflt ks [] = Inr r}"
      by (cases v) auto
    with Dict pick_keys_names [of l d dflt ks "[]"] show ?thesis by auto
  qed (use Dict in simp)
next
  case Unicode
  with assms show ?thesis by (cases v) auto
next
  case UTC
  with assms show ?thesis by (cases v) auto
next
  case Float
  with assms show ?thesis by (auto simp: float_from_json_def split: sum.splits)
next
  case Integer
  with assms show ?thesis by (auto simp: int_from_json_def split: if_splits)
next
  case Boolean
  with assms show ?thesis by (auto simp: bool_from_json_def)
qed simp_all

text \<open>A value is fit for a parameter by its name only if it is a text or nothing.\<close>

definition fit_for :: "param \<Rightarrow> sio_value \<Rightarrow> bool" where
  "fit_for p v \<longleftrightarrow> (case p of Name n \<Rightarrow> (case v of VNone \<Rightarrow> True | VText t \<Rightarrow> True | _ \<Rightarrow> False) | Force f n \<Rightarrow> True)"

lemma convert_sio_typed:
  assumes c: "convert_sio l True ns fmt False p v = Inr w" and fmt: "fmt = JSON \<or> fmt = DICT" and v: "fit_for p v"
  shows "has_sio_type ns p w"
proof (cases p)
  case (Name n)
  with c v show ?thesis
    by (cases v; cases "is_bool ns p")
      (auto simp: convert_sio_def convert_value_def name_type_def fit_for_def Let_def split: sum.splits if_splits)
next
  case (Force f n)
  show ?thesis
  proof (cases "w = VNone")
    case True
    have "f = Boolean \<Longrightarrow> is_bool ns p" using Force by (simp add: is_bool_def)
    moreover have "f = Boolean \<Longrightarrow> from_json l f u \<noteq> Inr VNone" for u
      by (auto simp: bool_from_json_def)
    ultimately have "f \<noteq> Boolean"
      using c True Force fmt
      by (auto simp: convert_sio_def convert_value_def convert_def split: sum.splits if_splits)
    with Force True show ?thesis by (cases f) auto
  next
    case False
    with c Force fmt obtain u where "from_json l f u = Inr w"
      by (auto simp: convert_sio_def convert_value_def convert_def split: sum.splits if_splits)
    with Force show ?thesis using from_json_typed by simp
  qed
qed

section \<open>The input of a service\<close>

definition default_options :: "sio_names \<Rightarrow> sio_options \<Rightarrow> bool" where
  "default_options ns opts \<longleftrightarrow> so_has_config opts \<and> so_names opts = ns \<and> (so_format opts = JSON \<or> so_format opts = DICT)"

definition channel_of_texts :: "(string, sio_value) dict \<Rightarrow> bool" where
  "channel_of_texts d \<longleftrightarrow> list_all (\<lambda>(k, v). case v of VText s \<Rightarrow> True | _ \<Rightarrow> False) d"

lemma channel_value_fit:
  "channel_of_texts d \<Longrightarrow> map_of d k = Some v \<Longrightarrow> fit_for p v"
  by (auto simp: channel_of_texts_def list_all_iff fit_for_def dest!: map_of_SomeD split: sio_value.splits param.splits)

lemma from_channel_typed:
  assumes ok: "default_options ns opts" and ch: "channel_of_texts (so_channel opts)"
    and c: "from_channel l opts p = Inr v" and given: "\<not> py_is l ZATO_NONE v"
  shows "has_sio_type ns p v"
proof (cases "map_of (so_channel opts) (param_name p)")
  case None
  with c given show ?thesis by (auto simp: from_channel_def dict_get_def)
next
  case (Some u)
  with c given have "convert_sio l True ns (so_format opts) False p u = Inr v"
    using ok by (auto simp: from_channel_def dict_get_def default_options_def Let_def split: if_splits)
  with ok channel_value_fit [OF ch Some] show ?thesis
    by (auto simp: default_options_def intro: convert_sio_typed)
qed

lemma complex_as_force: "is_complex p \<Longrightarrow> \<exists>f n. p = Force f n"
  by (cases p) auto

lemma convert_given_typed:
  assumes ok: "default_options ns opts" and c: "convert_given l opts p v = Inr w"
  shows "taken_as_is p \<or> has_sio_type ns p w"
proof (cases "taken_as_is p")
  case False
  with c obtain u where u: "(if v \<noteq> VNone \<and> \<not> is_complex p then as_text l v else Inr v) = Inr u"
      "convert_sio l True ns (so_format opts) False p u = Inr w"
    using ok by (auto simp: convert_given_def default_options_def split: sum.splits)
  have "fit_for p u"
    using u(1) complex_as_force [of p] by (auto simp: fit_for_def as_text_def split: if_splits param.splits)
  with u(2) ok show ?thesis by (auto simp: default_options_def intro: convert_sio_typed)
qed simp

text \<open>Whether a message has a value for a parameter.\<close>

definition sent_in :: "sio_lib \<Rightarrow> sio_value \<Rightarrow> param \<Rightarrow> bool" where
  "sent_in l payload p \<longleftrightarrow> (case payload of
     VDict d \<Rightarrow> (\<exists>v. map_of d (Some (param_name p)) = Some v \<and> \<not> py_is l NOT_GIVEN v) | _ \<Rightarrow> False)"

lemma from_payload_not_given:
  assumes "default_options ns opts" "from_payload l opts payload req p = Inr v" "py_is l NOT_GIVEN v"
  shows "\<not> sent_in l payload p"
  using assms by (cases payload) (auto simp: from_payload_def default_options_def sent_in_def dict_get_def
      split: if_splits option.splits)

lemma convert_param_typed:
  assumes ok: "default_options ns opts" and ch: "channel_of_texts (so_channel opts)"
    and c: "convert_param l opts payload req p = Inr (n, w)"
  shows "n = param_name p \<and> (taken_as_is p \<or> has_sio_type ns p w \<or> \<not> sent_in l payload p \<and>
    (if py_is l NO_DEFAULT_VALUE (so_default opts) then \<not> req \<and> w = VText [] else w = so_default opts))"
proof -
  from c obtain ch_v where cv: "from_channel l opts p = Inr ch_v"
    by (auto simp: convert_param_def split: sum.splits)
  note typed = from_channel_typed [OF ok ch cv]
  note unsent = from_payload_not_given [OF ok, of l payload req p]
  from c cv typed unsent convert_given_typed [OF ok] show ?thesis
    by (auto simp: convert_param_def not_given_def split: if_splits sum.splits)
qed

lemma convert_param_name: "convert_param l opts payload req p = Inr (n, w) \<Longrightarrow> n = param_name p"
  by (auto simp: convert_param_def split: sum.splits)

lemma get_params_Cons:
  "get_params l opts payload req (p # ps) acc = Inr r \<longleftrightarrow>
     (\<exists>w. convert_param l opts payload req p = Inr (param_name p, w) \<and>
       get_params l opts payload req ps (dict_set (param_name p) w acc) = Inr r)"
  by (auto dest: convert_param_name split: sum.splits)

lemma get_params_other:
  "get_params l opts payload req ps acc = Inr r \<Longrightarrow> n \<notin> param_name ` set ps \<Longrightarrow> map_of r n = map_of acc n"
  by (induction ps arbitrary: acc) (auto simp: get_params_Cons dict_simps simp del: get_params.simps(2))

lemma get_params_each:
  assumes "get_params l opts payload req ps acc = Inr r" "distinct (map param_name ps)" "p \<in> set ps"
  shows "\<exists>w. convert_param l opts payload req p = Inr (param_name p, w) \<and> map_of r (param_name p) = Some w"
  using assms
proof (induction ps arbitrary: acc)
  case (Cons q ps)
  then obtain w where q: "convert_param l opts payload req q = Inr (param_name q, w)"
    and r: "get_params l opts payload req ps (dict_set (param_name q) w acc) = Inr r"
    by (auto simp: get_params_Cons simp del: get_params.simps(2))
  show ?case
  proof (cases "p = q")
    case True
    have "param_name q \<notin> param_name ` set ps" using Cons.prems(2) by simp
    from get_params_other [OF r this] q True show ?thesis by (simp add: dict_simps)
  next
    case False
    with Cons.prems show ?thesis by (intro Cons.IH [OF r]) auto
  qed
qed simp

lemma get_params_keys:
  "get_params l opts payload req ps acc = Inr r \<Longrightarrow> fst ` set r = param_name ` set ps \<union> fst ` set acc"
proof (induction ps arbitrary: acc)
  case (Cons p ps)
  then obtain w where "get_params l opts payload req ps (dict_set (param_name p) w acc) = Inr r"
    by (auto simp: get_params_Cons simp del: get_params.simps(2))
  from Cons.IH [OF this] show ?case by simp
qed simp

lemma get_params_error: "get_params l opts payload req ps acc = Inl e \<Longrightarrow> e = ParsingException"
  by (induction ps arbitrary: acc) (auto split: sum.splits)

lemma get_params_refused:
  assumes "p \<in> set ps" "convert_param l opts payload req p = Inl e"
  shows "get_params l opts payload req ps acc = Inl ParsingException"
proof (cases "get_params l opts payload req ps acc")
  case (Inr r)
  from this assms have False
    by (induction ps arbitrary: acc) (auto simp: get_params_Cons simp del: get_params.simps(2))
  then show ?thesis ..
qed (simp add: get_params_error)

lemma get_params_ok: "get_params l opts payload req ps acc = Inr r \<Longrightarrow> dict_ok acc \<Longrightarrow> dict_ok r"
  by (induction ps arbitrary: acc) (auto simp: get_params_Cons simp del: get_params.simps(2))

lemma add_channel_params_keeps:
  "map_of (rq_input rq) n = Some v \<Longrightarrow> map_of (rq_input (add_channel_params rq)) n = Some v"
proof -
  have "map_of (foldl (\<lambda>d (k, v). if dict_has k d then d else dict_set k v d) d ch) n = Some v"
    if "map_of d n = Some v" for d ch
    using that
  proof (induction ch arbitrary: d)
    case (Cons kv ch)
    then show ?case by (cases kv; cases "n = fst kv") (auto simp: dict_simps)
  qed simp
  then show "map_of (rq_input rq) n = Some v \<Longrightarrow> ?thesis" by (simp add: add_channel_params_def)
qed
text \<open>How the input comes about.\<close>

definition configured :: "sio_names \<Rightarrow> data_format \<Rightarrow> request \<Rightarrow> request" where
  "configured ns fmt rq = rq\<lparr>rq_format := fmt, rq_has_config := True, rq_names := ns\<rparr>"

definition message_of :: "sio_def \<Rightarrow> request \<Rightarrow> sio_value" where
  "message_of sio rq = (if sd_channel_params_only sio then VText [] else rq_payload rq)"

definition params_of ::
    "sio_lib \<Rightarrow> sio_def \<Rightarrow> sio_names \<Rightarrow> data_format \<Rightarrow> request \<Rightarrow> bool \<Rightarrow> exn + (string, sio_value) dict" where
  "params_of l sio ns fmt rq req =
     get_params l (request_options sio (configured ns fmt rq)) (message_of sio rq) req
       (if req then sd_input_required sio else sd_input_optional sio) []"

lemma init_flat_sio_returns:
  assumes "rq_config rq = Some ns" "init_flat_sio l sio fmt rq = (Inr (), rq')"
  obtains r q where "params_of l sio ns fmt rq True = Inr r" "params_of l sio ns fmt rq False = Inr q"
    "rq' = add_channel_params ((configured ns fmt rq)\<lparr>rq_input := dict_update q (dict_update r (rq_input rq))\<rparr>)"
  using assms
  by (auto simp: init_flat_sio_def use_config_def params_of_def request_params_def configured_def message_of_def py_run Let_def
      split: if_splits sum.splits)

lemma params_ok: "params_of l sio ns fmt rq req = Inr r \<Longrightarrow> dict_ok r"
  unfolding params_of_def by (erule get_params_ok) simp

lemma default_request_options:
  "fmt = JSON \<or> fmt = DICT \<Longrightarrow>
   default_options ns (request_options sio (configured ns fmt rq))"
  by (simp add: default_options_def request_options_def configured_def)

lemma init_input_typed:
  assumes config: "rq_config rq = Some ns" and fmt: "fmt = JSON \<or> fmt = DICT"
    and ch: "channel_of_texts (rq_channel_params rq)"
    and names: "distinct (map param_name (sd_input_required sio @ sd_input_optional sio))"
    and init: "init_flat_sio l sio fmt rq = (Inr (), rq')"
    and p: "p \<in> set (if req then sd_input_required sio else sd_input_optional sio)"
  shows "\<exists>v. map_of (rq_input rq') (param_name p) = Some v \<and>
    (taken_as_is p \<or> has_sio_type ns p v \<or> \<not> sent_in l (message_of sio rq) p \<and>
      (if py_is l NO_DEFAULT_VALUE (sd_default_value sio) then \<not> req \<and> v = VText [] else v = sd_default_value sio))"
proof -
  from init_flat_sio_returns [OF config init] obtain r q where
    r: "params_of l sio ns fmt rq True = Inr r" and q: "params_of l sio ns fmt rq False = Inr q"
    and rq': "rq' = add_channel_params ((configured ns fmt rq)\<lparr>rq_input := dict_update q (dict_update r (rq_input rq))\<rparr>)" .
  note opts = default_request_options [OF fmt, of ns _ rq]
  have ch': "channel_of_texts (so_channel (request_options sio (configured ns fmt rq)))"
    using ch by (simp add: request_options_def configured_def)
  let ?d = "if req then r else q"
  have d: "params_of l sio ns fmt rq req = Inr ?d" using r q by simp
  have dist: "distinct (map param_name (if req then sd_input_required sio else sd_input_optional sio))"
    using names by simp
  obtain w where w: "convert_param l (request_options sio (configured ns fmt rq)) (message_of sio rq) req p =
      Inr (param_name p, w)" "map_of ?d (param_name p) = Some w"
    using get_params_each [OF d [unfolded params_of_def] dist p] by blast
  have "map_of q (param_name p) = None" if req
  proof -
    have "param_name p \<notin> param_name ` set (sd_input_optional sio)"
      using names p that by auto
    with get_params_keys [OF q [unfolded params_of_def]] show ?thesis by (simp add: map_of_None_iff)
  qed
  then have "map_of (dict_update q (dict_update r (rq_input rq))) (param_name p) = Some w"
    using w(2) params_ok [OF r] params_ok [OF q] by (cases req) (simp_all add: map_of_dict_update_ok)
  then have "map_of (rq_input rq') (param_name p) = Some w"
    unfolding rq' by (intro add_channel_params_keeps) simp
  moreover have "so_default (request_options sio (configured ns fmt rq)) = sd_default_value sio"
    by (simp add: request_options_def)
  ultimately show ?thesis using convert_param_typed [OF opts ch' w(1)] by auto
qed

section \<open>What one service responds another one reads\<close>

text \<open>Paste's \<open>asbool\<close> on truth values, on their texts and on nothing.\<close>

definition asbool_ok :: "sio_lib \<Rightarrow> bool" where
  "asbool_ok l \<longleftrightarrow> lb_asbool l VNone = Inr False \<and>
     (\<forall>b. lb_asbool l (VBool b) = Inr b \<and> lb_asbool l (VText (if b then ''True'' else ''False'')) = Inr b)"

definition plain_text :: "string \<Rightarrow> bool" where
  "plain_text s \<longleftrightarrow> s \<noteq> [] \<and> s \<noteq> NOT_GIVEN"

text \<open>The values of a parameter that arrive as they are sent; of floats the text is shorter than their precision.\<close>

fun name_sendable :: "sio_names \<Rightarrow> string \<Rightarrow> sio_value \<Rightarrow> bool" where
  "name_sendable ns n (VText s) = (plain_text s \<and> \<not> is_bool ns (Name n) \<and> \<not> is_int ns n)"
| "name_sendable ns n (VInt i) = (is_int ns n \<and> \<not> is_bool ns (Name n))"
| "name_sendable ns n (VBool b) = (is_bool ns (Name n) \<and> \<not> is_int ns n)"
| "name_sendable ns n _ = False"

fun force_sendable :: "sio_lib \<Rightarrow> force \<Rightarrow> sio_value \<Rightarrow> bool" where
  "force_sendable l AsIs v = (case v of VText s \<Rightarrow> plain_text s | VBytes s \<Rightarrow> False | VElem e \<Rightarrow> False | _ \<Rightarrow> True)"
| "force_sendable l Boolean v = (case v of VBool b \<Rightarrow> True | _ \<Rightarrow> False)"
| "force_sendable l CSV v =
     (case v of
        VList vs \<Rightarrow>
          (case texts_of vs of
             Inl e \<Rightarrow> False
           | Inr ts \<Rightarrow> vs = map VText ts \<and> list_all (\<lambda>t. CHR '','' \<notin> set t) ts \<and> plain_text (join_on CHR '','' ts))
      | _ \<Rightarrow> False)"
| "force_sendable l (Dict ks dflt) v =
     (case v of VDict d \<Rightarrow> ks = [] \<or> pick_keys l d dflt ks [] = Inr d | _ \<Rightarrow> False)"
| "force_sendable l Float v = False"
| "force_sendable l Integer v = (case v of VInt i \<Rightarrow> True | _ \<Rightarrow> False)"
| "force_sendable l List_Type v = (case v of VList vs \<Rightarrow> True | _ \<Rightarrow> False)"
| "force_sendable l ListOfDicts v = (case v of VList vs \<Rightarrow> True | _ \<Rightarrow> False)"
| "force_sendable l Opaque v = (case v of VDict d \<Rightarrow> True | VList vs \<Rightarrow> True | VInt i \<Rightarrow> True | VBool b \<Rightarrow> True | _ \<Rightarrow> False)"
| "force_sendable l Unicode v = (case v of VText s \<Rightarrow> plain_text s | _ \<Rightarrow> False)"
| "force_sendable l UTC v = (case v of VText s \<Rightarrow> plain_text s \<and> erase ''+00:00'' s = s | _ \<Rightarrow> False)"

fun sendable :: "sio_lib \<Rightarrow> sio_names \<Rightarrow> param \<Rightarrow> sio_value \<Rightarrow> bool" where
  "sendable l ns (Name n) v = name_sendable ns n v"
| "sendable l ns (Force f n) v =
     (force_sendable l f v \<and> (f \<notin> {AsIs, Boolean} \<longrightarrow> \<not> is_bool ns (Force f n)))"

text \<open>What is sent: a list of texts as one text, anything else as it is.\<close>

definition wire :: "param \<Rightarrow> sio_value \<Rightarrow> sio_value" where
  "wire p v =
     (case (p, v) of
        (Force CSV n, VList vs) \<Rightarrow> (case texts_of vs of Inr ts \<Rightarrow> VText (join_on CHR '','' ts) | Inl e \<Rightarrow> v)
      | _ \<Rightarrow> v)"

lemma split_join_plain:
  "plain_text (join_on c ts) \<Longrightarrow> list_all (\<lambda>t. c \<notin> set t) ts \<Longrightarrow> split_on c (join_on c ts) = ts"
  by (cases "ts = []") (simp_all add: plain_text_def split_join)

lemma strip_chars_subset: "set (strip_chars cs s) \<subseteq> set s"
  unfolding strip_chars_def by (auto dest!: set_dropWhileD)

lemma show_int_no_suffix: "c \<in> set (show_int i) \<Longrightarrow> c \<notin> set ''Ll''"
proof -
  have "c \<notin> set ''Ll''" if "c \<in> set (show_nat n)" for n
    using show_nat_digits [OF that] digit_chars(4) by fastforce
  moreover assume "c \<in> set (show_int i)"
  ultimately show ?thesis by (auto simp: show_int_def split: if_splits)
qed

lemma int_of_shown [simp]: "int_of_text (show_int i) = Inr i"
proof -
  have "last (strip_chars whitespace (show_int i)) \<notin> set ''Ll''" if "strip_chars whitespace (show_int i) \<noteq> []"
    using that strip_chars_subset [of whitespace "show_int i"] show_int_no_suffix last_in_set by blast
  then show ?thesis using py_long_show [of "[]" i] unfolding int_of_text_def Let_def by auto
qed

lemma show_int_not [simp]:
  "show_int i \<noteq> []" "show_int i \<noteq> ZATO_NONE" "show_int i \<noteq> ZATO_SEC_USE_RBAC" "show_int i \<noteq> NOT_GIVEN"
proof -
  have no: "show_int i \<noteq> s" if "int_of_text s = Inl ValueError" for s
    using that int_of_shown [of i] by auto
  have "int_of_text [] = Inl ValueError" "int_of_text ZATO_NONE = Inl ValueError"
    "int_of_text ZATO_SEC_USE_RBAC = Inl ValueError" "int_of_text NOT_GIVEN = Inl ValueError"
    by code_simp+
  then show "show_int i \<noteq> []" "show_int i \<noteq> ZATO_NONE" "show_int i \<noteq> ZATO_SEC_USE_RBAC" "show_int i \<noteq> NOT_GIVEN"
    by (auto dest: no)
qed

lemma dict_from_json_fixed:
  "ks = [] \<or> pick_keys l d dflt ks [] = Inr d \<Longrightarrow> dict_from_json l ks dflt (VDict d) = Inr (VDict d)"
  by (cases ks) auto

lemma wire_of_sendable:
  assumes "sendable l ns p v"
  shows "wire p v \<notin> {VText [], VBytes []}" "\<not> py_is l [] (wire p v)" "\<not> py_is l NOT_GIVEN (wire p v)"
    "out_value (wire p v) = Inr (wire p v)" "v \<notin> {VText [], VBytes []}"
proof -
  have "wire p v \<notin> {VText [], VBytes []} \<and> \<not> py_is l [] (wire p v) \<and> \<not> py_is l NOT_GIVEN (wire p v) \<and>
    out_value (wire p v) = Inr (wire p v) \<and> v \<notin> {VText [], VBytes []}"
  proof (cases p)
    case (Name n)
    with assms show ?thesis by (cases v) (auto simp: wire_def out_value_def plain_text_def)
  next
    case (Force f n)
    with assms show ?thesis
      by (cases f; cases v) (auto simp: wire_def out_value_def plain_text_def split: sum.splits)
  qed
  then show "wire p v \<notin> {VText [], VBytes []}" "\<not> py_is l [] (wire p v)" "\<not> py_is l NOT_GIVEN (wire p v)"
    "out_value (wire p v) = Inr (wire p v)" "v \<notin> {VText [], VBytes []}" by auto
qed

lemma asbool_of:
  "asbool_ok l \<Longrightarrow> lb_asbool l (if py_true l (VBool b) then VBool b else VNone) = Inr b"
  "asbool_ok l \<Longrightarrow> lb_asbool l (VText (if b then ''True'' else ''False'')) = Inr b"
  "asbool_ok l \<Longrightarrow> lb_asbool l (VBool b) = Inr b"
  by (auto simp: asbool_ok_def)

lemma sent_value:
  assumes l: "asbool_ok l" and fmt: "fmt = JSON \<or> fmt = DICT" and s: "sendable l ns p v" "\<not> leave_as_is p"
  shows "convert_sio l True ns fmt True p v = Inr (wire p v)"
proof (cases p)
  case (Name n)
  with s l show ?thesis
    by (cases v) (auto simp: wire_def convert_sio_def convert_value_def Let_def asbool_ok_def)
next
  case (Force f n)
  show ?thesis
  proof (cases "f = Boolean")
    case True
    with Force s l fmt obtain b where "v = VBool b" by (cases v) auto
    with Force True l fmt show ?thesis
      by (auto simp: wire_def convert_sio_def convert_value_def convert_def to_json_def bool_from_json_def is_bool_def asbool_of
          simp del: py_true.simps)
  next
    case False
    have b: "\<not> is_bool ns p" using Force s False by (auto simp: leave_as_is_def)
    have "to_json l f v = Inr (wire p v) \<and> v \<noteq> VNone"
      using Force s False
      by (cases f; cases v)
        (auto simp: to_json_def wire_def leave_as_is_def int_from_json_def dict_from_json_fixed split: sum.splits)
    with Force b fmt show ?thesis by (auto simp: convert_sio_def convert_value_def convert_def)
  qed
qed

lemma read_value:
  assumes l: "asbool_ok l" and ok: "default_options ns opts" and s: "sendable l ns p v"
  shows "convert_given l opts p (wire p v) = Inr v"
proof (cases p)
  case (Name n)
  have t: "lb_asbool l (VText ''True'') = Inr True" "lb_asbool l (VText ''False'') = Inr False"
    using l by (auto simp: asbool_ok_def dest: spec [of _ True] spec [of _ False])
  show ?thesis
    using Name s ok t
    by (cases v)
      (auto simp: wire_def convert_given_def as_text_def taken_as_is_def default_options_def convert_sio_def
        convert_value_def Let_def is_bool_def)
next
  case (Force f n)
  have t: "lb_asbool l (VText (if b then ''True'' else ''False'')) = Inr b" "lb_asbool l (VBool b) = Inr b" for b
    using l by (auto simp: asbool_ok_def)
  show ?thesis
  proof (cases "f = Boolean")
    case True
    with Force s obtain b where "v = VBool b" by (cases v) auto
    with Force True ok t [of b] show ?thesis
      by (auto simp: wire_def convert_given_def as_text_def taken_as_is_def default_options_def convert_sio_def
        convert_value_def convert_def bool_from_json_def is_bool_def)
  next
    case False
    define u where "u = (if f = Integer then VText (show_int (case v of VInt i \<Rightarrow> i | _ \<Rightarrow> 0)) else wire p v)"
    have given: "(if wire p v \<noteq> VNone \<and> \<not> is_complex p then as_text l (wire p v) else Inr (wire p v)) = Inr u"
      using Force s False by (cases f; cases v) (auto simp: u_def wire_def as_text_def split: sum.splits)
    show ?thesis
    proof (cases "taken_as_is p")
      case True
      with Force given show ?thesis by (cases f) (auto simp: convert_given_def taken_as_is_def wire_def u_def)
    next
      case as_is: False
      have b: "\<not> is_bool ns p" using Force s False as_is by (auto simp: taken_as_is_def)
      have u: "from_json l f u = Inr v" "u \<noteq> VNone"
        using Force s False as_is
        by (cases f; cases v;
            auto simp: u_def wire_def taken_as_is_def int_from_json_def dict_from_json_fixed split_join_plain
              split: sum.splits)+
      have "convert_given l opts p (wire p v) =
          convert_sio l (so_has_config opts) (so_names opts) (so_format opts) False p u"
        unfolding convert_given_def given using as_is by simp
      also have "\<dots> = Inr v"
        using ok b u Force by (auto simp: default_options_def convert_sio_def convert_value_def convert_def)
      finally show ?thesis .
    qed
  qed
qed

text \<open>All parameters of a response, and all of a request.\<close>

lemma sent_item:
  assumes "asbool_ok l" "pl_names pl = ns" "pl_format pl = JSON \<or> pl_format pl = DICT"
    "sendable l ns p v" "dict_get (param_name p) (VText []) item = v"
  shows "getvalue_of l pl item req p = Inr (wire p v)" "\<not> skipped l pl p (wire p v)"
proof -
  have "leave_as_is p \<Longrightarrow> wire p v = v"
    by (cases p) (auto simp: leave_as_is_def wire_def)
  with wire_of_sendable [OF assms(4)] sent_value [OF assms(1,3,4)] assms(2,5)
  show "getvalue_of l pl item req p = Inr (wire p v)" by (auto simp: getvalue_of_def Let_def)
  show "\<not> skipped l pl p (wire p v)" using wire_of_sendable [OF assms(4)] by (simp add: skipped_def)
qed

lemma out_item_all:
  assumes "asbool_ok l" "pl_names pl = ns" "pl_format pl = JSON \<or> pl_format pl = DICT"
    and "\<forall>p\<in>set ps. sendable l ns p (vals p) \<and> dict_get (param_name p) (VText []) item = vals p"
    and "distinct (map param_name ps)" "\<forall>p\<in>set ps. Some (param_name p) \<notin> fst ` set d"
  shows "out_item l pl item (map (Pair req) ps) d = Inr (d @ map (\<lambda>p. (Some (param_name p), wire p (vals p))) ps)"
  using assms(4-)
proof (induction ps arbitrary: d)
  case (Cons p ps)
  have p: "sendable l ns p (vals p)" "dict_get (param_name p) (VText []) item = vals p"
    using Cons.prems by auto
  have "out_item l pl item (map (Pair req) (p # ps)) d =
      out_item l pl item (map (Pair req) ps) (dict_set (Some (param_name p)) (wire p (vals p)) d)"
    using sent_item [OF assms(1-3) p] wire_of_sendable(4) [OF p(1)] by simp
  also have "\<dots> = out_item l pl item (map (Pair req) ps) (d @ [(Some (param_name p), wire p (vals p))])"
    using Cons.prems by (subst dict_set_new) auto
  also have "\<dots> = Inr ((d @ [(Some (param_name p), wire p (vals p))]) @
      map (\<lambda>p. (Some (param_name p), wire p (vals p))) ps)"
    using Cons.prems by (intro Cons.IH) (auto simp: image_iff)
  finally show ?case by simp
qed simp

lemma set_attrs_run:
  "set_attrs (map (\<lambda>p. (Some (param_name p), vals p)) ps) pl =
     (Inr (), pl\<lparr>pl_attrs := dict_update (map (\<lambda>p. (param_name p, vals p)) ps) (pl_attrs pl)\<rparr>)"
  by (induction ps arbitrary: pl) (simp_all add: dict_update_def payload_set_def py_run)

lemma map_of_filter_keys: "map_of (filter (\<lambda>(k, v). k \<in> S) d) k = (if k \<in> S then map_of d k else None)"
  by (induction d) auto

lemma map_of_params:
  "distinct (map param_name ps) \<Longrightarrow> p \<in> set ps \<Longrightarrow> map_of (map (\<lambda>p. (param_name p, vals p)) ps) (param_name p) = Some (vals p)"
  by (induction ps) (auto simp: image_iff)

lemma map_of_some_params:
  "distinct (map param_name ps) \<Longrightarrow> p \<in> set ps \<Longrightarrow>
   map_of (map (\<lambda>p. (Some (param_name p), vals p)) ps) (Some (param_name p)) = Some (vals p)"
  by (induction ps) (auto simp: image_iff)

lemma get_params_all:
  assumes "\<forall>p\<in>set ps. convert_param l opts payload req p = Inr (param_name p, vals p)"
    and "distinct (map param_name ps)" "\<forall>p\<in>set ps. param_name p \<notin> fst ` set d"
  shows "get_params l opts payload req ps d = Inr (d @ map (\<lambda>p. (param_name p, vals p)) ps)"
  using assms
proof (induction ps arbitrary: d)
  case (Cons p ps)
  have "get_params l opts payload req (p # ps) d = get_params l opts payload req ps (d @ [(param_name p, vals p)])"
    using Cons.prems by (simp add: dict_set_new)
  also have "\<dots> = Inr ((d @ [(param_name p, vals p)]) @ map (\<lambda>p. (param_name p, vals p)) ps)"
    using Cons.prems by (intro Cons.IH) (auto simp: image_iff)
  finally show ?case by simp
qed simp

lemma read_param:
  assumes l: "asbool_ok l" and ok: "default_options ns opts" and ch: "so_channel opts = []"
    and s: "sendable l ns p v" and d: "map_of d (Some (param_name p)) = Some (wire p v)"
  shows "convert_param l opts (VDict d) req p = Inr (param_name p, v)"
proof -
  have "from_channel l opts p = Inr (VBytes ZATO_NONE)"
    using ch by (simp add: from_channel_def dict_get_def)
  moreover have "from_payload l opts (VDict d) req p = Inr (wire p v)"
    using ok d by (auto simp: from_payload_def default_options_def dict_get_def)
  ultimately show ?thesis
    using wire_of_sendable(3) [OF s] read_value [OF l ok s] by (simp add: convert_param_def)
qed

lemma response_sent:
  assumes l: "asbool_ok l" and fmt: "fmt = JSON \<or> fmt = DICT"
    and ps: "ps \<noteq> []" "distinct (map param_name ps)" "\<forall>p\<in>set ps. sendable l ns p (vals p)"
    and out: "sd_output_required out = ps" "sd_output_optional out = []" "\<not> sd_output_repeated out"
      "sd_response_elem out = None"
  shows "\<exists>rs pl. set_payload (Value (VDict (map (\<lambda>p. (Some (param_name p), vals p)) ps)))
      (response_init out fmt (new_response (Some ns) fmt)) = (Inr (), rs) \<and> rs_payload rs = Declared pl \<and>
    getvalue l pl = Inr (VDict (map (\<lambda>p. (Some (param_name p), wire p (vals p))) ps))"
proof -
  let ?pl0 = "new_sio_payload out ns fmt None"
  let ?pl = "?pl0\<lparr>pl_attrs := dict_update (map (\<lambda>p. (param_name p, vals p)) ps) (pl_attrs ?pl0)\<rparr>"
  let ?item = "filter (\<lambda>(k, v). k \<in> set (declared_names ?pl)) (pl_attrs ?pl)"
  have "set_payload (Value (VDict (map (\<lambda>p. (Some (param_name p), vals p)) ps)))
      (response_init out fmt (new_response (Some ns) fmt)) =
      (Inr (), (response_init out fmt (new_response (Some ns) fmt))\<lparr>rs_payload := Declared ?pl\<rparr>)"
    using ps out
    by (simp add: set_payload_def response_init_def new_response_def on_declared_def set_payload_attrs_def set_attrs_run
        py_run Let_def)
  moreover have "dict_get (param_name p) (VText []) ?item = vals p" if "p \<in> set ps" for p
  proof -
    have "dict_ok (map (\<lambda>p. (param_name p, vals p)) ps)" using ps(2) by (simp add: comp_def)
    then show ?thesis
      using that ps out
      by (auto simp: dict_get_def map_of_filter_keys map_of_dict_update_ok map_of_params declared_names_def new_sio_payload_def)
  qed
  then have "out_item l ?pl ?item (map (Pair True) ps) [] =
      Inr ([] @ map (\<lambda>p. (Some (param_name p), wire p (vals p))) ps)"
    using ps fmt by (intro out_item_all [OF l, where ns = ns]) (auto simp: new_sio_payload_def)
  then have "getvalue l ?pl = Inr (VDict (map (\<lambda>p. (Some (param_name p), wire p (vals p))) ps))"
    using out by (simp add: getvalue_def payload_items_def visited_def new_sio_payload_def)
  ultimately show ?thesis by auto
qed

lemma request_read:
  assumes l: "asbool_ok l" and fmt: "fmt = JSON \<or> fmt = DICT"
    and ps: "ps \<noteq> []" "distinct (map param_name ps)" "\<forall>p\<in>set ps. sendable l ns p (vals p)"
    and inp: "sd_input_required inp = ps" "sd_input_optional inp = []" "sd_default_value inp = VText NO_DEFAULT_VALUE"
      "\<not> sd_channel_params_only inp"
    and rq: "rq_config rq = Some ns" "rq_channel_params rq = []"
      "rq_payload rq = VDict (map (\<lambda>p. (Some (param_name p), wire p (vals p))) ps)"
  shows "\<exists>rq'. request_init l True inp fmt rq = (Inr (), rq') \<and>
    rq_input rq' = map (\<lambda>p. (param_name p, vals p)) ps"
proof -
  let ?opts = "request_options inp (configured ns fmt rq)"
  have ch: "so_channel ?opts = []" using rq by (simp add: request_options_def configured_def)
  have "convert_param l ?opts (rq_payload rq) True p = Inr (param_name p, vals p)" if "p \<in> set ps" for p
    using ps that unfolding rq(3)
    by (intro read_param [OF l default_request_options [OF fmt, of ns _ rq] ch] map_of_some_params) auto
  then have get: "get_params l ?opts (rq_payload rq) True ps [] = Inr ([] @ map (\<lambda>p. (param_name p, vals p)) ps)"
    using ps by (intro get_params_all) auto
  have d: "dict_update (map (\<lambda>p. (param_name p, vals p)) ps) [] = [] @ map (\<lambda>p. (param_name p, vals p)) ps"
    using ps by (intro dict_update_append) (simp_all add: comp_def)
  from get have "get_params l (request_options inp (rq\<lparr>rq_input := [], rq_format := fmt, rq_has_config := True, rq_names := ns\<rparr>))
      (rq_payload rq) True ps [] = Inr (map (\<lambda>p. (param_name p, vals p)) ps)"
    by (simp add: request_options_def configured_def)
  then show ?thesis
    using rq(1,2) inp ps d
    by (simp add: rq(3) request_init_def init_flat_sio_def use_config_def request_params_def add_channel_params_def
        dict_update_def py_run Let_def)
qed

section \<open>The guarantees\<close>


definition demo_lib :: sio_lib where
  "demo_lib =
     \<lparr>lb_asbool = (\<lambda>v. case v of
        VText s \<Rightarrow> if s \<in> {''True'', ''true'', ''1''} then Inr True else if s \<in> {''False'', ''false'', ''0''} then Inr False
                   else Inl ValueError
      | VBool b \<Rightarrow> Inr b | VNone \<Rightarrow> Inr False | _ \<Rightarrow> Inr True),
      lb_repr = (\<lambda>_. Inr ''...''), lb_float = (\<lambda>_. None), lb_float_of_int = (\<lambda>i. Inr (of_int i)),
      lb_find = (\<lambda>_ _. Inl AttributeError), lb_text = (\<lambda>_. VNone), lb_children = (\<lambda>_. []),
      lb_attr = (\<lambda>_ _. None), lb_siblings = (\<lambda>e. [e]), lb_true = (\<lambda>_. True), lb_equals = (\<lambda>_ _. False),
      lb_int = (\<lambda>_. Inl TypeError), lb_float_of = (\<lambda>_. Inl TypeError), lb_build = (\<lambda>_. 0)\<rparr>"

definition demo_names :: sio_names where
  "demo_names = \<lparr>sn_bool_prefixes = [''is_''], sn_int_names = [''id''], sn_int_suffixes = [''_count'']\<rparr>"

definition demo_params :: "param list" where
  "demo_params = [Name ''id'', Force CSV ''tags'', Force Boolean ''flag'', Name ''name'']"

definition demo_sio :: sio_def where
  "demo_sio =
     \<lparr>sd_request_elem = ''request'', sd_input_required = demo_params, sd_input_optional = [],
      sd_default_value = VText NO_DEFAULT_VALUE, sd_use_text = True, sd_channel_params_only = False,
      sd_output_required = demo_params, sd_output_optional = [], sd_response_elem = None, sd_output_repeated = False,
      sd_skip_empty_keys = False, sd_force_empty_keys = [], sd_allow_empty_required = False\<rparr>"

definition demo_message :: sio_value where
  "demo_message = VDict [(Some ''id'', VText ''17''), (Some ''tags'', VText ''a,b''), (Some ''flag'', VText ''true''),
     (Some ''name'', VText ''x'')]"

definition demo_request :: request where
  "demo_request = (new_request (Some demo_names) JSON)\<lparr>rq_payload := demo_message\<rparr>"

lemmas demo_defs = demo_lib_def demo_names_def demo_params_def demo_sio_def demo_message_def demo_request_def

lemma demo_run:
  "fst (request_init demo_lib True demo_sio JSON demo_request) = Inr ()"
  by code_simp

lemma demo_sent: "sent_in demo_lib (message_of demo_sio demo_request) (Name ''id'')"
  by (simp add: sent_in_def message_of_def demo_request_def demo_message_def demo_sio_def) code_simp


text \<open>
  A required parameter that neither the message nor the channel has makes the request
  fail, whatever else was sent, before anything becomes input of the service.
\<close>

theorem missing_required_refused:
  assumes "rq_config rq = Some ns" "fmt = JSON \<or> fmt = DICT" "sd_default_value sio = VText NO_DEFAULT_VALUE"
    and "rq_payload rq = VDict d" "p \<in> set (sd_input_required sio)"
    and "map_of d (Some (param_name p)) = None" "map_of (rq_channel_params rq) (param_name p) = None"
  shows "\<exists>rq'. request_init l True sio fmt rq = (Inl ParsingException, rq') \<and> rq_input rq' = []"
proof -
  let ?rq = "rq\<lparr>rq_input := [], rq_format := fmt, rq_has_config := True, rq_names := ns\<rparr>"
  let ?m = "if sd_channel_params_only sio then VText [] else rq_payload rq"
  have "from_channel l (request_options sio ?rq) p = Inr (VBytes ZATO_NONE)"
    using assms by (simp add: from_channel_def dict_get_def request_options_def)
  moreover have "from_payload l (request_options sio ?rq) ?m True p = Inr (VBytes NOT_GIVEN)"
    using assms by (auto simp: from_payload_def dict_get_def request_options_def)
  ultimately have "convert_param l (request_options sio ?rq) ?m True p = Inl ParsingException"
    using assms(3) by (simp add: convert_param_def not_given_def request_options_def)
  then have "get_params l (request_options sio ?rq) ?m True (sd_input_required sio) [] = Inl ParsingException"
    by (rule get_params_refused [OF assms(5)])
  then show ?thesis
    using assms by (auto simp: request_init_def init_flat_sio_def use_config_def request_params_def py_run Let_def)
qed

theorem missing_required_refused_witness:
  "\<exists>rq'. request_init demo_lib True demo_sio JSON (demo_request\<lparr>rq_payload := VDict [(Some ''id'', VInt 1)]\<rparr>) =
    (Inl ParsingException, rq') \<and> rq_input rq' = []"
  by (rule missing_required_refused [where ns = demo_names and p = "Name ''name''" and d = "[(Some ''id'', VInt 1)]"])
    (simp_all add: demo_request_def demo_sio_def demo_params_def new_request_def)


definition demo_vals :: "param \<Rightarrow> sio_value" where
  "demo_vals p =
     (if p = Name ''id'' then VInt (- 17) else if p = Force CSV ''tags'' then VList [VText ''a'', VText ''b'']
      else if p = Force Boolean ''flag'' then VBool False else VText ''x'')"

lemma demo_sendable: "\<forall>p\<in>set demo_params. sendable demo_lib demo_names p (demo_vals p)"
  by code_simp


section \<open>What goes wrong\<close>

text \<open>
  With the priority of the message, an optional parameter that only the channel has is lost: the
  empty text that stands for it in the input keeps the channel's value out.
\<close>

lemma optional_channel_param_lost:
  assumes "so_priority opts = MSG_OVER_CHANNEL_PARAMS" "so_default opts = VText NO_DEFAULT_VALUE"
    and "from_channel l opts p = Inr v" "from_payload l opts payload False p = Inr (VBytes NOT_GIVEN)"
  shows "convert_param l opts payload False p = Inr (param_name p, VText [])"
  using assms by (simp add: convert_param_def not_given_def)

text \<open>A default value likewise wins over the channel's.\<close>

lemma default_beats_channel:
  assumes "so_priority opts = MSG_OVER_CHANNEL_PARAMS" "\<not> py_is l NO_DEFAULT_VALUE (so_default opts)"
    and "from_channel l opts p = Inr v" "from_payload l opts payload req p = Inr (VBytes NOT_GIVEN)"
  shows "convert_param l opts payload req p = Inr (param_name p, so_default opts)"
  using assms by (simp add: convert_param_def not_given_def)

text \<open>An optional parameter missing from XML becomes the text that marks the lack of a default value.\<close>

lemma xml_optional_is_marker:
  assumes "so_format opts = XML" "so_default opts = VText NO_DEFAULT_VALUE" "map_of (so_channel opts) n = None"
    and "lb_find l (so_path_prefix opts @ ''.'' @ n) payload = Inl AttributeError" "payload \<noteq> VNone"
    and "\<not> is_int (so_names opts) n" "\<not> is_bool (so_names opts) (Name n)"
  shows "convert_param l opts payload False (Name n) = Inr (n, VText NO_DEFAULT_VALUE)"
proof -
  have "\<not> py_is l NOT_GIVEN (VText NO_DEFAULT_VALUE)" by (simp add: NO_DEFAULT_VALUE_def NOT_GIVEN_def)
  with assms show ?thesis
    by (simp add: convert_param_def from_channel_def from_payload_def convert_from_xml_def convert_given_def
        as_text_def taken_as_is_def convert_sio_def convert_value_def dict_get_def)
qed

text \<open>A value that is no float is answered with a \<open>BadRequest\<close>, which no caller of \<open>get_params\<close> sees.\<close>

lemma bad_request_lost:
  assumes "lb_float l s = None" "fmt = JSON \<or> fmt = DICT" "\<not> is_bool ns (Force Float n)"
  shows "convert_sio l True ns fmt False (Force Float n) (VText s) = Inl BadRequest"
    and "get_params l opts payload req ps [] = Inl e \<Longrightarrow> e = ParsingException"
  using assms get_params_error
  by (auto simp: convert_sio_def convert_value_def convert_def float_from_json_def)

text \<open>A parameter with a declared type cannot be read without a data format, though others can.\<close>

lemma typed_param_needs_format:
  assumes "\<not> is_bool ns (Force f n)" "v \<noteq> VNone"
  shows "convert_sio l True ns None False (Force f n) v = Inl ZatoException"
  using assms by (auto simp: convert_sio_def convert_value_def convert_def)

text \<open>A list of dictionaries sent as XML has no element of the name it is read by.\<close>

lemma list_of_dicts_not_read_back:
  assumes "\<And>n v cs tag. list_all (\<lambda>c. case c of Xml_Tree t _ _ \<Rightarrow> t \<noteq> tag) cs \<Longrightarrow>
      lb_attr l (lb_build l (Xml_Tree n v cs)) tag = None"
  shows "case to_xml l ListOfDicts (VList [VDict d]) n of Inl e \<Rightarrow> False | Inr v \<Rightarrow> from_xml l ListOfDicts v = Inl AttributeError"
  using assms by (simp add: to_xml_def from_xml_def)

end
