(* ===== verification/Cache_Impl.thy ===== *)
theory Cache_Impl
  imports Py_Prelude "HOL-Library.Sublist" "HOL-Library.Word"
begin

text \<open>
  The built-in cache (zato-cy cache.pyx): entries with times and hits, the index that keeps keys in
  order of recency, expiry, and the operations on all keys that match a pattern. Times are whole
  microseconds, an operation takes none, and a dictionary is gone through in insertion order. A
  method with a C result type other than an object cannot raise: Cython reports the exception and
  returns 0.
\<close>

section \<open>Keys, values and entries\<close>

text \<open>Keys of other types are refused, values of other types have no length.\<close>

datatype cache_key = KStr string | KInt int | KOther nat
datatype cache_value = CStr string | CInt int | CNone | COther nat

record entry =
  en_value :: cache_value
  en_last_read :: int
  en_prev_read :: int
  en_last_write :: int
  en_prev_write :: int
  en_expiry :: int
  en_expires_at :: int
  en_hits :: "64 word"
  en_position :: nat

record cache =
  ca_max_size :: int
  ca_max_item_size :: int
  ca_has_max_item_size :: bool
  ca_extend_expiry_on_get :: bool
  ca_extend_expiry_on_set :: bool
  ca_data :: "(cache_key, entry) dict"
  ca_index :: "cache_key list"
  ca_misses :: "64 word"
  ca_hits :: "64 word"
  ca_set_ops :: "64 word"
  ca_get_ops :: "64 word"
  ca_hits_per_position :: "nat \<Rightarrow> nat option"
  ca_expired_on_op :: "cache_key list"

definition DEFAULT_SIZE :: int where "DEFAULT_SIZE = 10000"
definition MAX_ITEM_SIZE :: int where "MAX_ITEM_SIZE = 1000"

definition KeyExpiredError :: exn where "KeyExpiredError = OtherError ''KeyExpiredError''"

text \<open>What reading the NULL of a missing dictionary item leads to.\<close>

definition NULL_Access :: exn where "NULL_Access = OtherError ''NULL''"

text \<open>The configuration of a cache; 0 stands for no value given.\<close>

record cache_config =
  cc_max_size :: int
  cc_max_item_size :: int
  cc_extend_expiry_on_get :: bool
  cc_extend_expiry_on_set :: bool

definition update_config :: "cache_config \<Rightarrow> cache \<Rightarrow> cache" where
  "update_config cfg c =
     (let max_size = (if cc_max_size cfg = 0 then DEFAULT_SIZE else cc_max_size cfg);
          max_item_size = (if cc_max_item_size cfg = 0 then MAX_ITEM_SIZE else cc_max_item_size cfg)
      in c\<lparr>ca_max_size := max_size, ca_max_item_size := max_item_size, ca_has_max_item_size := max_item_size > 0,
          ca_extend_expiry_on_get := cc_extend_expiry_on_get cfg, ca_extend_expiry_on_set := cc_extend_expiry_on_set cfg,
          ca_hits_per_position := (\<lambda>i. if int i < max_size then Some 0 else ca_hits_per_position c i)\<rparr>)"

definition empty_cache :: cache where
  "empty_cache =
     \<lparr>ca_max_size = 0, ca_max_item_size = 0, ca_has_max_item_size = False, ca_extend_expiry_on_get = False,
      ca_extend_expiry_on_set = False, ca_data = [], ca_index = [], ca_misses = 0, ca_hits = 0, ca_set_ops = 0,
      ca_get_ops = 0, ca_hits_per_position = Map.empty, ca_expired_on_op = []\<rparr>"

definition new_cache :: "cache_config \<Rightarrow> cache" where
  "new_cache cfg = update_config cfg empty_cache"

definition cache_clear :: "cache \<Rightarrow> cache" where
  "cache_clear c = c\<lparr>ca_data := [], ca_index := [], ca_hits_per_position := Map.empty, ca_expired_on_op := [],
     ca_hits := 0, ca_misses := 0, ca_set_ops := 0, ca_get_ops := 0\<rparr>"

section \<open>The index\<close>

text \<open>The position of a key, 0 if it is not there: the C function then ends without a value.\<close>

definition get_index :: "cache_key \<Rightarrow> cache_key list \<Rightarrow> nat" where
  "get_index key index =
     (let i = length (takeWhile (\<lambda>k. k \<noteq> key) index) in if i < length index then i else 0)"

definition remove_from_index :: "nat \<Rightarrow> cache_key list \<Rightarrow> cache_key list" where
  "remove_from_index i index = take i index @ drop (Suc i) index"

definition key_position :: "cache_key \<Rightarrow> cache \<Rightarrow> nat option" where
  "key_position key c = (if dict_has key (ca_data c) then Some (get_index key (ca_index c)) else None)"

definition delete_key :: "cache_key \<Rightarrow> (cache, cache_value) py" where
  "delete_key key =
     py_bind (item_get ca_data key) (\<lambda>entry.
     py_seq (item_del ca_data ca_data_update key)
     (py_seq (py_modify (\<lambda>c. ca_index_update (remove_from_index (get_index key (ca_index c))) c))
     (py_ret (en_value entry))))"

text \<open>An expired key goes, is remembered for the next clean-up, and the operation raises.\<close>

definition drop_expired :: "cache_key \<Rightarrow> (cache, 'a) py" where
  "drop_expired key =
     py_seq (delete_key key)
     (py_seq (py_modify (ca_expired_on_op_update (\<lambda>ks. ks @ [key])))
     (py_raise KeyExpiredError))"

section \<open>Setting\<close>

definition too_long :: "cache \<Rightarrow> cache_value \<Rightarrow> bool" where
  "too_long c v \<longleftrightarrow> ca_has_max_item_size c \<and>
     (case v of CStr s \<Rightarrow> int (length s) > ca_max_item_size c | _ \<Rightarrow> False)"

definition expired :: "int \<Rightarrow> entry \<Rightarrow> bool" where
  "expired now e \<longleftrightarrow> en_expires_at e \<noteq> 0 \<and> now \<ge> en_expires_at e"

text \<open>The expiry of an entry that is there and has not expired, when it is set again.\<close>

definition reset_expiry :: "int \<Rightarrow> cache \<Rightarrow> int \<Rightarrow> entry \<Rightarrow> entry" where
  "reset_expiry now c expiry e =
     (if en_expires_at e = 0
      then (if expiry \<noteq> 0 then e\<lparr>en_expiry := expiry, en_expires_at := now + expiry\<rparr> else e)
      else if expiry = 0 then e\<lparr>en_expires_at := 0, en_expiry := 0\<rparr>
      else if ca_extend_expiry_on_set c \<and> en_expiry e \<noteq> 0 then e\<lparr>en_expires_at := now + en_expiry e\<rparr>
      else e)"

definition written :: "int \<Rightarrow> cache_value \<Rightarrow> entry \<Rightarrow> entry" where
  "written now v e = e\<lparr>en_prev_write := en_last_write e, en_last_write := now, en_value := v\<rparr>"

definition new_entry :: "int \<Rightarrow> cache_value \<Rightarrow> int \<Rightarrow> entry" where
  "new_entry now v expiry =
     \<lparr>en_value = v, en_last_read = 0, en_prev_read = 0, en_last_write = now, en_prev_write = 0, en_expiry = expiry,
      en_expires_at = (if expiry = 0 then 0 else now + expiry), en_hits = 0, en_position = 0\<rparr>"

text \<open>Making room takes the last key of the index.\<close>

definition make_room :: "(cache, unit) py" where
  "make_room =
     py_bind (py_get (\<lambda>c. int (length (ca_index c)) = ca_max_size c)) (\<lambda>full.
     py_when full
       (py_bind (py_get ca_index) (\<lambda>index.
        if index = [] then py_raise IndexError
        else py_seq (py_modify (ca_index_update butlast)) (item_del ca_data ca_data_update (last index)))))"

text \<open>The previous value, and when the entry expires.\<close>

definition set_entry :: "int \<Rightarrow> cache_key \<Rightarrow> cache_value \<Rightarrow> int \<Rightarrow> (cache, cache_value \<times> int) py" where
  "set_entry now key v expiry =
     py_bind (py_get (\<lambda>c. (case key of KOther n \<Rightarrow> True | _ \<Rightarrow> False) \<or> too_long c v)) (\<lambda>bad.
     if bad then py_raise ValueError else
     py_seq (py_modify (ca_set_ops_update (\<lambda>n. n + 1)))
     (py_bind (py_get (\<lambda>c. map_of (ca_data c) key)) (\<lambda>found.
      case found of
        Some e \<Rightarrow>
          if expired now e then drop_expired key
          else py_bind (py_get (\<lambda>c. written now v (reset_expiry now c expiry e))) (\<lambda>e'.
               py_seq (item_set ca_data_update key e') (py_ret (en_value e, en_expires_at e')))
      | None \<Rightarrow>
          py_seq make_room
          (py_seq (item_set ca_data_update key (new_entry now v expiry))
          (py_seq (py_modify (ca_index_update ((#) key)))
          (py_ret (CNone, en_expires_at (new_entry now v expiry))))))))"

section \<open>Getting\<close>

datatype found = Nothing | Value cache_value | Details entry

definition read_entry :: "int \<Rightarrow> cache \<Rightarrow> entry \<Rightarrow> entry" where
  "read_entry now c e =
     (let e = e\<lparr>en_prev_read := en_last_read e, en_last_read := now, en_hits := en_hits e + 1\<rparr>
      in if ca_extend_expiry_on_get c \<and> en_expiry e \<noteq> 0 then e\<lparr>en_expires_at := now + en_expiry e\<rparr> else e)"

text \<open>The counter of the position in which the key was found.\<close>

definition count_position :: "nat \<Rightarrow> (cache, unit) py" where
  "count_position i =
     py_bind (py_get (\<lambda>c. ca_hits_per_position c i)) (\<lambda>n.
     case n of
       None \<Rightarrow> py_raise NULL_Access
     | Some n \<Rightarrow> py_modify (ca_hits_per_position_update (\<lambda>m. m(i \<mapsto> Suc n))))"

definition get_entry :: "int \<Rightarrow> cache_key \<Rightarrow> found \<Rightarrow> bool \<Rightarrow> (cache, found) py" where
  "get_entry now key dflt details =
     py_bind (py_get (\<lambda>c. map_of (ca_data c) key)) (\<lambda>found.
     case found of
       None \<Rightarrow> py_seq (py_modify (ca_misses_update (\<lambda>n. n + 1))) (py_ret dflt)
     | Some e \<Rightarrow>
         if expired now e then drop_expired key
         else
           py_seq (py_modify (\<lambda>c. c\<lparr>ca_get_ops := ca_get_ops c + 1, ca_hits := ca_hits c + 1\<rparr>))
           (py_bind (py_get (\<lambda>c. get_index key (ca_index c))) (\<lambda>i.
            py_seq (count_position i)
            (py_seq (py_modify (ca_index_update (\<lambda>ks. key # remove_from_index i ks)))
            (py_bind (py_get (\<lambda>c. let e' = read_entry now c e in if details then e'\<lparr>en_position := i\<rparr> else e')) (\<lambda>e'.
             py_seq (item_set ca_data_update key e')
             (py_ret (if details then Details e' else Value (en_value e')))))))))"

section \<open>Operations on all matching keys\<close>

text \<open>
  The ways in which an operation picks its keys; regular expressions are compiled by the regex
  library, which refuses some.
\<close>

datatype matcher =
    By_Prefix string | By_Suffix string | By_Regex string | Contains string | Not_Contains string
  | Contains_All "string list" | Contains_Any "string list"

type_synonym regex_lib = "string \<Rightarrow> (string \<Rightarrow> bool) option"

fun match_text :: "regex_lib \<Rightarrow> matcher \<Rightarrow> string \<Rightarrow> bool" where
  "match_text rx (By_Prefix p) k = prefix p k"
| "match_text rx (By_Suffix p) k = suffix p k"
| "match_text rx (By_Regex r) k = (case rx r of None \<Rightarrow> False | Some f \<Rightarrow> f k)"
| "match_text rx (Contains t) k = sublist t k"
| "match_text rx (Not_Contains t) k = (\<not> sublist t k)"
| "match_text rx (Contains_All ts) k = list_all (\<lambda>t. sublist t k) ts"
| "match_text rx (Contains_Any ts) k = list_ex (\<lambda>t. sublist t k) ts"

definition compiles :: "regex_lib \<Rightarrow> matcher \<Rightarrow> bool" where
  "compiles rx m = (case m of By_Regex r \<Rightarrow> rx r \<noteq> None | _ \<Rightarrow> True)"

definition Regex_Error :: exn where "Regex_Error = OtherError ''regex''"

text \<open>Keys that are no texts are ignored.\<close>

definition matching :: "regex_lib \<Rightarrow> matcher \<Rightarrow> cache_key \<Rightarrow> bool" where
  "matching rx m key = (case key of KStr k \<Rightarrow> match_text rx m k | _ \<Rightarrow> False)"

definition matching_keys :: "regex_lib \<Rightarrow> matcher \<Rightarrow> cache \<Rightarrow> cache_key list" where
  "matching_keys rx m c = filter (matching rx m) (dict_keys (ca_data c))"

definition on_matching :: "regex_lib \<Rightarrow> matcher \<Rightarrow> (cache_key list \<Rightarrow> (cache, 'a) py) \<Rightarrow> (cache, 'a) py" where
  "on_matching rx m body =
     (if compiles rx m then py_bind (py_get (matching_keys rx m)) body else py_raise Regex_Error)"

fun get_keys :: "int \<Rightarrow> bool \<Rightarrow> cache_key list \<Rightarrow> (cache_key, found) dict \<Rightarrow> (cache, (cache_key, found) dict) py" where
  "get_keys now details [] out = py_ret out"
| "get_keys now details (key # keys) out =
     py_bind (get_entry now key Nothing details) (\<lambda>v. get_keys now details keys (dict_set key v out))"

definition get_by :: "regex_lib \<Rightarrow> int \<Rightarrow> matcher \<Rightarrow> bool \<Rightarrow> (cache, (cache_key, found) dict) py" where
  "get_by rx now m details = on_matching rx m (\<lambda>keys. get_keys now details keys [])"

fun set_keys ::
    "int \<Rightarrow> cache_value \<Rightarrow> int \<Rightarrow> bool \<Rightarrow> cache_key list \<Rightarrow> (cache_key, cache_value) dict \<Rightarrow>
     (cache, (cache_key, cache_value) dict) py" where
  "set_keys now v expiry return_found [] out = py_ret out"
| "set_keys now v expiry return_found (key # keys) out =
     py_bind (if return_found then py_bind (item_get ca_data key) (\<lambda>e. py_ret (dict_set key (en_value e) out))
              else py_ret out) (\<lambda>out.
     py_seq (set_entry now key v expiry) (set_keys now v expiry return_found keys out))"

definition set_by ::
    "regex_lib \<Rightarrow> int \<Rightarrow> matcher \<Rightarrow> cache_value \<Rightarrow> int \<Rightarrow> bool \<Rightarrow> (cache, (cache_key, cache_value) dict) py" where
  "set_by rx now m v expiry return_found =
     on_matching rx m (\<lambda>keys. set_keys now v expiry return_found keys [])"

definition delete_by :: "regex_lib \<Rightarrow> matcher \<Rightarrow> bool \<Rightarrow> (cache, (cache_key, cache_value) dict) py" where
  "delete_by rx m return_found =
     on_matching rx m (\<lambda>keys.
     py_bind (py_get (\<lambda>c. if return_found
       then map (\<lambda>(k, e). (k, en_value e)) (filter (\<lambda>(k, e). k \<in> set keys) (ca_data c)) else [])) (\<lambda>out.
     py_seq (py_for keys (\<lambda>key. py_bind (delete_key key) (\<lambda>_. py_ret ()))) (py_ret out)))"

section \<open>Expiring\<close>

text \<open>An entry is expired later by getting it and setting it again.\<close>

definition expire_entry :: "int \<Rightarrow> cache_key \<Rightarrow> int \<Rightarrow> (cache, int) py" where
  "expire_entry now key expiry =
     py_bind (get_entry now key Nothing False) (\<lambda>r.
     py_bind (set_entry now key (case r of Value v \<Rightarrow> v | _ \<Rightarrow> CNone) expiry) (\<lambda>(_, expires_at). py_ret expires_at))"

text \<open>\<open>Some\<close> time of expiry if the key is there.\<close>

definition expire_key :: "int \<Rightarrow> cache_key \<Rightarrow> int \<Rightarrow> (cache, int option) py" where
  "expire_key now key expiry =
     py_bind (py_get (\<lambda>c. dict_has key (ca_data c))) (\<lambda>found.
     if found then py_bind (expire_entry now key expiry) (\<lambda>t. py_ret (Some t)) else py_ret None)"

definition expire_by :: "regex_lib \<Rightarrow> int \<Rightarrow> matcher \<Rightarrow> int \<Rightarrow> (cache, bool) py" where
  "expire_by rx now m expiry =
     py_try
       (on_matching rx m (\<lambda>keys.
          py_seq (py_for keys (\<lambda>key. py_bind (expire_entry now key expiry) (\<lambda>_. py_ret ()))) (py_ret (keys \<noteq> []))))
       (\<lambda>e. if e = NULL_Access then py_raise e else py_ret False)"

definition set_expiration_data :: "cache_key \<Rightarrow> int \<Rightarrow> int \<Rightarrow> (cache, unit) py" where
  "set_expiration_data key expiry expires_at =
     py_bind (item_get ca_data key) (\<lambda>e.
     py_when (expires_at > en_expires_at e)
       (item_set ca_data_update key (e\<lparr>en_expiry := expiry, en_expires_at := expires_at\<rparr>)))"

text \<open>Regularly, entries are deleted whose time has passed.\<close>

definition delete_expired :: "int \<Rightarrow> (cache, cache_key list) py" where
  "delete_expired now =
     py_bind (py_get (\<lambda>c. map fst (filter (\<lambda>(k, e). en_expires_at e \<noteq> 0 \<and> now > en_expires_at e) (ca_data c)))) (\<lambda>keys.
     py_bind (py_get ca_expired_on_op) (\<lambda>on_op.
     py_seq (py_for keys (\<lambda>key. py_bind (delete_key key) (\<lambda>_. py_ret ())))
     (py_seq (py_modify (ca_expired_on_op_update (\<lambda>_. [])))
     (py_ret (on_op @ keys)))))"

end
