(* ===== verification/Cache_Api.thy ===== *)
theory Cache_Api
  imports Cache_Impl
begin

text \<open>
  The caches of a worker process (zato-server connection/cache.py, base/worker/cache_builtin.py):
  the methods services call, each of which tells the other workers of a change, the handlers of
  such messages, and the registry of caches by type and name. A message goes out when its operation
  ends; memcached itself is known only as a connection.
\<close>

section \<open>State\<close>

text \<open>A change of a cache, as other workers are told.\<close>

datatype sync_op =
    Sync_Clear | Sync_Delete cache_key | Sync_Delete_By matcher
  | Sync_Set cache_key cache_value int | Sync_Set_By matcher cache_value int
  | Sync_Expire cache_key int "int option" | Sync_Expire_By matcher int

record sync_msg =
  sm_op :: sync_op
  sm_cache_name :: string
  sm_source :: string

record api_cache =
  ac_name :: string
  ac_needs_sync :: bool
  ac_impl :: cache

text \<open>
  Built-in caches are objects that the registry and the default cache refer to; so are connections
  to memcached.
\<close>

datatype cache_ref = Builtin nat | Memcached nat

record cache_api =
  wk_id :: string
  wk_objects :: "(nat, api_cache) dict"
  wk_next :: nat
  wk_builtin :: "(string, nat) dict"
  wk_memcached :: "(string, nat) dict"
  wk_default :: "cache_ref option"
  wk_published :: "sync_msg list"

definition new_cache_api :: "string \<Rightarrow> cache_api" where
  "new_cache_api worker_id =
     \<lparr>wk_id = worker_id, wk_objects = [], wk_next = 0, wk_builtin = [], wk_memcached = [], wk_default = None,
      wk_published = []\<rparr>"

record api_config =
  cf_name :: string
  cf_old_name :: string
  cf_is_default :: bool
  cf_sync :: bool
  cf_cache :: cache_config

section \<open>The cache that services use\<close>

text \<open>Running a method of the implementation of an object.\<close>

definition on_impl :: "nat \<Rightarrow> (cache, 'a) py \<Rightarrow> (cache_api, 'a) py" where
  "on_impl i m w =
     (case map_of (wk_objects w) i of
        None \<Rightarrow> (Inl KeyError, w)
      | Some ac \<Rightarrow>
          (case m (ac_impl ac) of (r, c) \<Rightarrow> (r, w\<lparr>wk_objects := dict_set i (ac\<lparr>ac_impl := c\<rparr>) (wk_objects w)\<rparr>)))"

definition after_state_changed :: "nat \<Rightarrow> sync_op \<Rightarrow> (cache_api, unit) py" where
  "after_state_changed i change =
     py_modify (\<lambda>w. case map_of (wk_objects w) i of
       None \<Rightarrow> w
     | Some ac \<Rightarrow>
         if ac_needs_sync ac
         then w\<lparr>wk_published := wk_published w @ [\<lparr>sm_op = change, sm_cache_name = ac_name ac, sm_source = wk_id w\<rparr>]\<rparr>
         else w)"

definition api_get :: "int \<Rightarrow> nat \<Rightarrow> cache_key \<Rightarrow> found \<Rightarrow> bool \<Rightarrow> (cache_api, found) py" where
  "api_get now i key dflt details = on_impl i (get_entry now key dflt details)"

definition api_get_by ::
    "regex_lib \<Rightarrow> int \<Rightarrow> nat \<Rightarrow> matcher \<Rightarrow> bool \<Rightarrow> (cache_api, (cache_key, found) dict) py" where
  "api_get_by rx now i m details = on_impl i (get_by rx now m details)"

definition api_set :: "int \<Rightarrow> nat \<Rightarrow> cache_key \<Rightarrow> cache_value \<Rightarrow> int \<Rightarrow> (cache_api, cache_value) py" where
  "api_set now i key v expiry =
     py_bind (on_impl i (set_entry now key v expiry)) (\<lambda>(old, _).
     py_seq (after_state_changed i (Sync_Set key v expiry)) (py_ret old))"

text \<open>Only an operation that returns something is told to others.\<close>

definition api_set_by ::
    "regex_lib \<Rightarrow> int \<Rightarrow> nat \<Rightarrow> matcher \<Rightarrow> cache_value \<Rightarrow> int \<Rightarrow> bool \<Rightarrow>
     (cache_api, (cache_key, cache_value) dict) py" where
  "api_set_by rx now i m v expiry return_found =
     py_bind (on_impl i (set_by rx now m v expiry return_found)) (\<lambda>out.
     py_seq (py_when (out \<noteq> []) (after_state_changed i (Sync_Set_By m v expiry))) (py_ret out))"

definition api_delete :: "nat \<Rightarrow> cache_key \<Rightarrow> bool \<Rightarrow> (cache_api, cache_value option) py" where
  "api_delete i key raise_key_error =
     py_bind (py_try (py_bind (on_impl i (delete_key key)) (\<lambda>v. py_ret (Some v)))
       (\<lambda>e. if e = KeyError \<and> \<not> raise_key_error then py_ret None else py_raise e)) (\<lambda>r.
     py_seq (py_when (r \<noteq> None) (after_state_changed i (Sync_Delete key))) (py_ret r))"

definition api_delete_by ::
    "regex_lib \<Rightarrow> nat \<Rightarrow> matcher \<Rightarrow> bool \<Rightarrow> (cache_api, (cache_key, cache_value) dict) py" where
  "api_delete_by rx i m return_found =
     py_bind (on_impl i (delete_by rx m return_found)) (\<lambda>out.
     py_seq (py_when (out \<noteq> []) (after_state_changed i (Sync_Delete_By m))) (py_ret out))"

definition api_expire :: "int \<Rightarrow> nat \<Rightarrow> cache_key \<Rightarrow> int \<Rightarrow> (cache_api, bool) py" where
  "api_expire now i key expiry =
     py_bind (on_impl i (expire_key now key expiry)) (\<lambda>expires_at.
     py_seq (after_state_changed i (Sync_Expire key expiry expires_at)) (py_ret (expires_at \<noteq> None)))"

text \<open>\<open>expire_contains_any\<close> goes out as \<open>expire_contains_all\<close>.\<close>

fun expire_op :: "matcher \<Rightarrow> matcher" where
  "expire_op (Contains_Any ts) = Contains_All ts"
| "expire_op m = m"

definition api_expire_by :: "regex_lib \<Rightarrow> int \<Rightarrow> nat \<Rightarrow> matcher \<Rightarrow> int \<Rightarrow> (cache_api, bool) py" where
  "api_expire_by rx now i m expiry =
     py_bind (on_impl i (expire_by rx now m expiry)) (\<lambda>out.
     py_seq (py_when out (after_state_changed i (Sync_Expire_By (expire_op m) expiry))) (py_ret out))"

definition api_clear :: "nat \<Rightarrow> (cache_api, unit) py" where
  "api_clear i = py_seq (on_impl i (py_modify cache_clear)) (after_state_changed i Sync_Clear)"

text \<open>A turn of the greenlet that deletes expired entries; what it raises is logged.\<close>

definition api_delete_expired :: "int \<Rightarrow> nat \<Rightarrow> (cache_api, unit) py" where
  "api_delete_expired now i =
     py_try (py_bind (on_impl i (delete_expired now)) (\<lambda>_. py_ret ())) (\<lambda>_. py_ret ())"

section \<open>The registry\<close>

definition maybe_set_default :: "api_config \<Rightarrow> cache_ref \<Rightarrow> (cache_api, unit) py" where
  "maybe_set_default cfg ref = py_when (cf_is_default cfg) (py_modify (wk_default_update (\<lambda>_. Some ref)))"

definition create_builtin :: "api_config \<Rightarrow> (cache_api, unit) py" where
  "create_builtin cfg =
     py_bind (py_get wk_next) (\<lambda>i.
     py_seq (py_modify (\<lambda>w. w\<lparr>wk_next := Suc i,
       wk_objects := dict_set i \<lparr>ac_name = cf_name cfg, ac_needs_sync = cf_sync cfg, ac_impl = new_cache (cf_cache cfg)\<rparr> (wk_objects w)\<rparr>))
     (py_seq (item_set wk_builtin_update (cf_name cfg) i)
     (maybe_set_default cfg (Builtin i))))"

text \<open>A greenlet connects to memcached; the connection may fail.\<close>

definition memcached_greenlet :: "api_config \<Rightarrow> bool \<Rightarrow> (cache_api, unit) py" where
  "memcached_greenlet cfg connected =
     py_when connected
       (py_bind (py_get wk_next) (\<lambda>i.
        py_seq (py_modify (wk_next_update Suc))
        (py_seq (item_set wk_memcached_update (cf_name cfg) i)
        (maybe_set_default cfg (Memcached i)))))"

text \<open>A cache keeps the name and the kind of synchronisation that it was created with.\<close>

definition edit_builtin :: "api_config \<Rightarrow> (cache_api, unit) py" where
  "edit_builtin cfg =
     py_bind (item_get wk_builtin (cf_old_name cfg)) (\<lambda>i.
     py_seq (item_del wk_builtin wk_builtin_update (cf_old_name cfg))
     (py_seq (on_impl i (py_modify (update_config (cf_cache cfg))))
     (py_seq (item_set wk_builtin_update (cf_name cfg) i)
     (maybe_set_default cfg (Builtin i)))))"

definition delete_memcached :: "string \<Rightarrow> (cache_api, unit) py" where
  "delete_memcached name = item_del wk_memcached wk_memcached_update name"

text \<open>A new greenlet would connect at the end.\<close>

definition edit_memcached :: "api_config \<Rightarrow> (cache_api, unit) py" where
  "edit_memcached cfg =
     py_seq (item_del wk_memcached wk_memcached_update (cf_old_name cfg)) (delete_memcached (cf_old_name cfg))"

definition delete_builtin :: "string \<Rightarrow> (cache_api, unit) py" where
  "delete_builtin name =
     py_bind (item_get wk_builtin name) (\<lambda>i.
     py_seq (api_clear i) (item_del wk_builtin wk_builtin_update name))"

definition clear_builtin :: "string \<Rightarrow> (cache_api, unit) py" where
  "clear_builtin name = py_bind (item_get wk_builtin name) api_clear"

definition get_cache :: "string \<Rightarrow> (cache_api, nat) py" where
  "get_cache name = item_get wk_builtin name"

definition get_size :: "string \<Rightarrow> (cache_api, nat) py" where
  "get_size name = py_bind (item_get wk_builtin name) (\<lambda>i. on_impl i (py_get (\<lambda>c. length (ca_index c))))"

section \<open>Messages from other workers\<close>

definition sync_impl :: "regex_lib \<Rightarrow> int \<Rightarrow> sync_op \<Rightarrow> (cache, unit) py" where
  "sync_impl rx now change =
     (case change of
        Sync_Clear \<Rightarrow> py_modify cache_clear
      | Sync_Delete key \<Rightarrow> py_bind (delete_key key) (\<lambda>_. py_ret ())
      | Sync_Delete_By m \<Rightarrow> py_bind (delete_by rx m False) (\<lambda>_. py_ret ())
      | Sync_Set key v expiry \<Rightarrow> py_bind (set_entry now key v expiry) (\<lambda>_. py_ret ())
      | Sync_Set_By m v expiry \<Rightarrow> py_bind (set_by rx now m v expiry False) (\<lambda>_. py_ret ())
      | Sync_Expire key expiry expires_at \<Rightarrow>
          (case expires_at of None \<Rightarrow> py_raise AttributeError | Some t \<Rightarrow> set_expiration_data key expiry t)
      | Sync_Expire_By m expiry \<Rightarrow> py_bind (expire_by rx now m expiry) (\<lambda>_. py_ret ()))"

definition sync_after :: "regex_lib \<Rightarrow> int \<Rightarrow> sync_msg \<Rightarrow> (cache_api, unit) py" where
  "sync_after rx now msg =
     py_bind (item_get wk_builtin (sm_cache_name msg)) (\<lambda>i. on_impl i (sync_impl rx now (sm_op msg)))"

text \<open>A worker leaves out its own messages, except those of \<open>set_by_suffix\<close>.\<close>

fun taken_from_self :: "sync_op \<Rightarrow> bool" where
  "taken_from_self (Sync_Set_By (By_Suffix p) v expiry) = True"
| "taken_from_self change = False"

definition on_broker_msg :: "regex_lib \<Rightarrow> int \<Rightarrow> sync_msg \<Rightarrow> (cache_api, unit) py" where
  "on_broker_msg rx now msg =
     py_bind (py_get wk_id) (\<lambda>me.
     py_when (sm_source msg \<noteq> me \<or> taken_from_self (sm_op msg)) (sync_after rx now msg))"

end
