(* ===== verification/Cache_Facts.thy ===== *)
theory Cache_Facts
  imports Cache_Api
begin

text \<open>
  The cache: its index and its dictionary agree whatever is called, and it implements the list of
  entries in order of recency that an LRU cache with expiry is.
\<close>

section \<open>Index and dictionary\<close>

definition cache_ok :: "cache \<Rightarrow> bool" where
  "cache_ok c \<longleftrightarrow> dict_ok (ca_data c) \<and> distinct (ca_index c) \<and> set (ca_index c) = fst ` set (ca_data c)"

lemma takeWhile_before: "key \<in> set index \<Longrightarrow> length (takeWhile (\<lambda>k. k \<noteq> key) index) < length index"
  by (induction index) auto

lemma get_index_eq: "key \<in> set index \<Longrightarrow> get_index key index = length (takeWhile (\<lambda>k. k \<noteq> key) index)"
  by (simp add: get_index_def takeWhile_before)

lemma get_index_less: "key \<in> set index \<Longrightarrow> get_index key index < length index"
  by (simp add: get_index_eq takeWhile_before)

lemma remove_at_index: "key \<in> set index \<Longrightarrow> remove_from_index (get_index key index) index = remove1 key index"
proof (induction index)
  case (Cons k index)
  then show ?case by (cases "k = key") (auto simp: get_index_eq remove_from_index_def)
qed simp

lemma set_remove1_distinct: "distinct xs \<Longrightarrow> set (remove1 x xs) = set xs - {x}"
  by simp

lemma delete_key_run:
  assumes "cache_ok c" "map_of (ca_data c) key = Some e"
  shows "delete_key key c =
    (Inr (en_value e), c\<lparr>ca_data := dict_del key (ca_data c), ca_index := remove1 key (ca_index c)\<rparr>)"
proof -
  have "key \<in> set (ca_index c)" using assms by (force simp: cache_ok_def dest: map_of_SomeD)
  with assms show ?thesis by (simp add: delete_key_def py_run remove_at_index)
qed

lemma delete_key_missing: "map_of (ca_data c) key = None \<Longrightarrow> delete_key key c = (Inl KeyError, c)"
  by (simp add: delete_key_def py_run)

lemma deleted_ok:
  "cache_ok c \<Longrightarrow> cache_ok (c\<lparr>ca_data := dict_del key (ca_data c), ca_index := remove1 key (ca_index c)\<rparr>)"
  by (auto simp: cache_ok_def)

lemma delete_key_ok: "keeps cache_ok (delete_key key)"
proof (rule keepsI)
  fix c assume c: "cache_ok c"
  then show "cache_ok (snd (delete_key key c))"
    using delete_key_run [OF c] delete_key_missing [of c key] deleted_ok [OF c]
    by (cases "map_of (ca_data c) key") auto
qed

lemma drop_expired_ok: "keeps cache_ok (drop_expired key)"
  unfolding drop_expired_def by (intro keeps_intros delete_key_ok) (auto simp: cache_ok_def)

lemma replaced_ok: "cache_ok c \<Longrightarrow> map_of (ca_data c) key = Some e \<Longrightarrow> cache_ok (c\<lparr>ca_data := dict_set key e' (ca_data c)\<rparr>)"
  by (auto simp: cache_ok_def insert_absorb dest: map_of_SomeD intro: rev_image_eqI)

lemma make_room_run:
  assumes "cache_ok c"
  obtains (room) "int (length (ca_index c)) \<noteq> ca_max_size c" "make_room c = (Inr (), c)"
  | (full) "ca_index c \<noteq> []" "int (length (ca_index c)) = ca_max_size c"
      "make_room c = (Inr (), c\<lparr>ca_index := butlast (ca_index c), ca_data := dict_del (last (ca_index c)) (ca_data c)\<rparr>)"
  | (none) "ca_index c = []" "ca_max_size c = 0" "make_room c = (Inl IndexError, c)"
proof (cases "int (length (ca_index c)) = ca_max_size c")
  case True
  show thesis
  proof (cases "ca_index c = []")
    case empty: True
    with True show thesis by (intro none) (simp_all add: make_room_def py_run)
  next
    case False
    then have "last (ca_index c) \<in> fst ` set (ca_data c)"
      using assms last_in_set [OF False] by (auto simp: cache_ok_def)
    then obtain e where "map_of (ca_data c) (last (ca_index c)) = Some e"
      by (metis map_of_None_iff not_Some_eq)
    with True False show thesis by (intro full) (simp_all add: make_room_def py_run)
  qed
qed (simp add: room make_room_def py_run)

lemma set_butlast_distinct: "distinct xs \<Longrightarrow> xs \<noteq> [] \<Longrightarrow> set (butlast xs) = set xs - {last xs}"
  by (induction xs rule: rev_induct) auto

lemma evicted_ok:
  "cache_ok c \<Longrightarrow> ca_index c \<noteq> [] \<Longrightarrow>
   cache_ok (c\<lparr>ca_index := butlast (ca_index c), ca_data := dict_del (last (ca_index c)) (ca_data c)\<rparr>)"
  by (auto simp: cache_ok_def set_butlast_distinct distinct_butlast)

lemma inserted_ok:
  "cache_ok c \<Longrightarrow> map_of (ca_data c) key = None \<Longrightarrow>
   cache_ok (c\<lparr>ca_data := dict_set key e (ca_data c), ca_index := key # ca_index c\<rparr>)"
  by (auto simp: cache_ok_def map_of_None_iff)

section \<open>What the operations do\<close>

definition bad_item :: "cache_key \<Rightarrow> cache_value \<Rightarrow> cache \<Rightarrow> bool" where
  "bad_item key v c \<longleftrightarrow> (case key of KOther n \<Rightarrow> True | _ \<Rightarrow> False) \<or> too_long c v"

definition dropped :: "cache_key \<Rightarrow> cache \<Rightarrow> cache" where
  "dropped key c = c\<lparr>ca_data := dict_del key (ca_data c), ca_index := remove1 key (ca_index c),
     ca_expired_on_op := ca_expired_on_op c @ [key]\<rparr>"

lemma drop_expired_run:
  assumes "cache_ok c" "map_of (ca_data c) key = Some e"
  shows "drop_expired key c = (Inl KeyExpiredError, dropped key c)"
  using delete_key_run [OF assms] by (simp add: drop_expired_def py_run dropped_def)

lemma cache_ok_counters [simp]:
  "cache_ok (ca_set_ops_update f c) = cache_ok c" "cache_ok (ca_get_ops_update f c) = cache_ok c"
  "cache_ok (ca_hits_update f c) = cache_ok c" "cache_ok (ca_misses_update f c) = cache_ok c"
  "cache_ok (ca_hits_per_position_update g c) = cache_ok c" "cache_ok (ca_expired_on_op_update h c) = cache_ok c"
  by (simp_all add: cache_ok_def)

lemma set_entry_bad: "bad_item key v c \<Longrightarrow> set_entry now key v expiry c = (Inl ValueError, c)"
  by (simp add: set_entry_def bad_item_def py_run)

lemma set_entry_expired:
  assumes "cache_ok c" "\<not> bad_item key v c" "map_of (ca_data c) key = Some e" "expired now e"
  shows "set_entry now key v expiry c = (Inl KeyExpiredError, dropped key (ca_set_ops_update (\<lambda>n. n + 1) c))"
  using assms drop_expired_run [of "ca_set_ops_update (\<lambda>n. n + 1) c" key e]
  by (auto simp: set_entry_def bad_item_def py_run)

lemma reset_expiry_counter [simp]: "reset_expiry now (ca_set_ops_update f c) expiry e = reset_expiry now c expiry e"
  by (simp add: reset_expiry_def)

lemma set_entry_present:
  assumes "\<not> bad_item key v c" "map_of (ca_data c) key = Some e" "\<not> expired now e"
  shows "set_entry now key v expiry c =
    (let e' = written now v (reset_expiry now c expiry e)
     in (Inr (en_value e, en_expires_at e'), c\<lparr>ca_set_ops := ca_set_ops c + 1, ca_data := dict_set key e' (ca_data c)\<rparr>))"
  using assms by (auto simp: set_entry_def bad_item_def py_run Let_def)

definition inserted :: "int \<Rightarrow> cache_key \<Rightarrow> cache_value \<Rightarrow> int \<Rightarrow> cache \<Rightarrow> cache" where
  "inserted now key v expiry c = c\<lparr>ca_data := dict_set key (new_entry now v expiry) (ca_data c), ca_index := key # ca_index c\<rparr>"

lemma set_entry_new:
  assumes "\<not> bad_item key v c" "map_of (ca_data c) key = None" "make_room (ca_set_ops_update (\<lambda>n. n + 1) c) = (Inr (), c')"
  shows "set_entry now key v expiry c =
    (Inr (CNone, en_expires_at (new_entry now v expiry)), inserted now key v expiry c')"
  using assms by (auto simp: set_entry_def bad_item_def py_run inserted_def)

lemma set_entry_no_room:
  assumes "\<not> bad_item key v c" "map_of (ca_data c) key = None" "make_room (ca_set_ops_update (\<lambda>n. n + 1) c) = (Inl x, c')"
  shows "set_entry now key v expiry c = (Inl x, c')"
  using assms by (auto simp: set_entry_def bad_item_def py_run)

lemma set_entry_ok: "keeps cache_ok (set_entry now key v expiry)"
proof (rule keepsI)
  fix c assume c: "cache_ok c"
  let ?c = "ca_set_ops_update (\<lambda>n. n + 1) c"
  have c': "cache_ok ?c" using c by simp
  show "cache_ok (snd (set_entry now key v expiry c))"
  proof (cases "bad_item key v c")
    case True
    with c show ?thesis by (simp add: set_entry_bad)
  next
    case good: False
    show ?thesis
    proof (cases "map_of (ca_data c) key")
      case (Some e)
      show ?thesis
      proof (cases "expired now e")
        case True
        with set_entry_expired [OF c good Some] deleted_ok [OF c', of key] show ?thesis
          by (simp add: dropped_def cache_ok_def)
      next
        case False
        with set_entry_present [OF good Some] replaced_ok [OF c Some] show ?thesis by (simp add: Let_def cache_ok_def)
      qed
    next
      case None
      show ?thesis
      proof (cases rule: make_room_run [OF c'])
        case room: 1
        with set_entry_new [OF good None] inserted_ok [OF c', of key] None show ?thesis
          by (simp add: inserted_def)
      next
        case full: 2
        with set_entry_new [OF good None] inserted_ok [OF evicted_ok [OF c'], of key] None show ?thesis
          by (simp add: inserted_def dict_simps)
      next
        case none: 3
        with set_entry_no_room [OF good None] c' show ?thesis by simp
      qed
    qed
  qed
qed

text \<open>Getting an entry that is there.\<close>

definition read_from :: "int \<Rightarrow> cache \<Rightarrow> bool \<Rightarrow> nat \<Rightarrow> entry \<Rightarrow> entry" where
  "read_from now c details i e = (let e' = read_entry now c e in if details then e'\<lparr>en_position := i\<rparr> else e')"

lemma get_entry_missing:
  "map_of (ca_data c) key = None \<Longrightarrow> get_entry now key dflt details c = (Inr dflt, ca_misses_update (\<lambda>n. n + 1) c)"
  by (simp add: get_entry_def py_run)

lemma get_entry_expired:
  "cache_ok c \<Longrightarrow> map_of (ca_data c) key = Some e \<Longrightarrow> expired now e \<Longrightarrow>
   get_entry now key dflt details c = (Inl KeyExpiredError, dropped key c)"
  using drop_expired_run by (simp add: get_entry_def py_run)

lemma get_entry_present:
  assumes "cache_ok c" "map_of (ca_data c) key = Some e" "\<not> expired now e"
    and "ca_hits_per_position c (get_index key (ca_index c)) = Some n"
  shows "get_entry now key dflt details c =
    (let i = get_index key (ca_index c); e' = read_from now c details i e
     in (Inr (if details then Details e' else Value (en_value e')),
         c\<lparr>ca_get_ops := ca_get_ops c + 1, ca_hits := ca_hits c + 1,
           ca_hits_per_position := (ca_hits_per_position c)(i \<mapsto> Suc n),
           ca_index := key # remove1 key (ca_index c), ca_data := dict_set key e' (ca_data c)\<rparr>))"
proof -
  have "key \<in> set (ca_index c)" using assms by (force simp: cache_ok_def dest: map_of_SomeD)
  with assms show ?thesis
    by (simp add: get_entry_def count_position_def py_run Let_def remove_at_index read_from_def read_entry_def)
qed

lemma get_entry_crash:
  assumes "map_of (ca_data c) key = Some e" "\<not> expired now e"
    and "ca_hits_per_position c (get_index key (ca_index c)) = None"
  shows "get_entry now key dflt details c =
    (Inl NULL_Access, c\<lparr>ca_get_ops := ca_get_ops c + 1, ca_hits := ca_hits c + 1\<rparr>)"
  using assms by (simp add: get_entry_def count_position_def py_run)

lemma fronted_ok:
  assumes "cache_ok c" "map_of (ca_data c) key = Some e"
  shows "cache_ok (c\<lparr>ca_index := key # remove1 key (ca_index c), ca_data := dict_set key e' (ca_data c)\<rparr>)"
proof -
  have "key \<in> fst ` set (ca_data c)" using assms(2) by (force dest: map_of_SomeD)
  with assms show ?thesis by (auto simp: cache_ok_def)
qed

lemma get_entry_ok: "keeps cache_ok (get_entry now key dflt details)"
proof (rule keepsI)
  fix c assume c: "cache_ok c"
  show "cache_ok (snd (get_entry now key dflt details c))"
  proof (cases "map_of (ca_data c) key")
    case None
    with c show ?thesis by (simp add: get_entry_missing)
  next
    case (Some e)
    show ?thesis
    proof (cases "expired now e")
      case True
      with get_entry_expired [OF c Some] deleted_ok [OF c, of key] show ?thesis by (simp add: dropped_def cache_ok_def)
    next
      case False
      show ?thesis
      proof (cases "ca_hits_per_position c (get_index key (ca_index c))")
        case None
        with get_entry_crash [OF Some False] c show ?thesis by simp
      next
        case (Some n)
        with get_entry_present [OF c \<open>map_of (ca_data c) key = Some e\<close> False] fronted_ok [OF c \<open>map_of (ca_data c) key = Some e\<close>]
        show ?thesis by (simp add: Let_def cache_ok_def)
      qed
    qed
  qed
qed

lemma keys_ok:
  "keeps cache_ok (get_keys now details keys got)"
  "keeps cache_ok (set_keys now v expiry return_found keys out)"
proof -
  show "keeps cache_ok (get_keys now details keys got)"
    by (induction keys arbitrary: got) (auto intro!: keeps_intros get_entry_ok)
  show "keeps cache_ok (set_keys now v expiry return_found keys out)"
    by (induction keys arbitrary: out) (auto intro!: keeps_intros set_entry_ok simp: item_get_def)
qed

lemma bulk_ok:
  "keeps cache_ok (get_by rx now m details)" "keeps cache_ok (set_by rx now m v expiry return_found)"
  "keeps cache_ok (delete_by rx m return_found)" "keeps cache_ok (expire_by rx now m expiry)"
  unfolding get_by_def set_by_def delete_by_def expire_by_def on_matching_def expire_entry_def
  by (auto intro!: keeps_intros keys_ok delete_key_ok get_entry_ok set_entry_ok split: prod.split)

lemma expire_ok:
  "keeps cache_ok (expire_key now key expiry)" "keeps cache_ok (set_expiration_data key expiry expires_at)"
  "keeps cache_ok (delete_expired now)"
proof -
  show "keeps cache_ok (expire_key now key expiry)"
    unfolding expire_key_def expire_entry_def
    by (auto intro!: keeps_intros get_entry_ok set_entry_ok split: prod.split)
  show "keeps cache_ok (delete_expired now)"
    unfolding delete_expired_def by (auto intro!: keeps_intros delete_key_ok)
  show "keeps cache_ok (set_expiration_data key expiry expires_at)"
  proof (rule keepsI)
    fix c assume c: "cache_ok c"
    then show "cache_ok (snd (set_expiration_data key expiry expires_at c))"
      using replaced_ok [OF c]
      by (cases "map_of (ca_data c) key") (simp_all add: set_expiration_data_def py_run cache_ok_def)
  qed
qed

section \<open>Runs of a cache\<close>

text \<open>What may happen to a cache, each event with the time at which it happens.\<close>

datatype cache_event =
    Get cache_key bool | Get_By matcher bool | Set cache_key cache_value int | Set_By matcher cache_value int bool
  | Delete cache_key | Delete_By matcher bool | Expire cache_key int | Expire_By matcher int
  | Set_Expiration cache_key int int | Delete_Expired | Clear | Update_Config cache_config

definition ignore :: "('s, 'a) py \<Rightarrow> ('s, unit) py" where
  "ignore m = py_bind m (\<lambda>_. py_ret ())"

primrec cache_event_step :: "regex_lib \<Rightarrow> int \<Rightarrow> cache_event \<Rightarrow> (cache, unit) py" where
  "cache_event_step rx now (Get key details) = ignore (get_entry now key Nothing details)"
| "cache_event_step rx now (Get_By m details) = ignore (get_by rx now m details)"
| "cache_event_step rx now (Set key v expiry) = ignore (set_entry now key v expiry)"
| "cache_event_step rx now (Set_By m v expiry ret) = ignore (set_by rx now m v expiry ret)"
| "cache_event_step rx now (Delete key) = ignore (delete_key key)"
| "cache_event_step rx now (Delete_By m ret) = ignore (delete_by rx m ret)"
| "cache_event_step rx now (Expire key expiry) = ignore (expire_key now key expiry)"
| "cache_event_step rx now (Expire_By m expiry) = ignore (expire_by rx now m expiry)"
| "cache_event_step rx now (Set_Expiration key expiry expires_at) = set_expiration_data key expiry expires_at"
| "cache_event_step rx now Delete_Expired = ignore (delete_expired now)"
| "cache_event_step rx now Clear = py_modify cache_clear"
| "cache_event_step rx now (Update_Config cfg) = py_modify (update_config cfg)"

definition cache_step :: "regex_lib \<Rightarrow> int \<times> cache_event \<Rightarrow> (cache, unit) py" where
  "cache_step rx te = cache_event_step rx (fst te) (snd te)"

lemma snd_ignore: "snd (ignore m s) = snd (m s)"
  by (simp add: ignore_def py_run split: prod.split sum.split)

lemma keeps_ignore [keeps_intros]: "keeps I m \<Longrightarrow> keeps I (ignore m)"
  by (simp add: keeps_def snd_ignore)

lemma cache_step_ok: "keeps cache_ok (cache_step rx te)"
proof (cases te)
  case (Pair now e)
  have "keeps cache_ok (cache_event_step rx now e)"
    by (cases e) (auto intro!: keeps_intros get_entry_ok set_entry_ok delete_key_ok bulk_ok expire_ok
        simp: cache_clear_def update_config_def cache_ok_def Let_def)
  with Pair show ?thesis by (simp add: cache_step_def)
qed

interpretation caches: py_object "cache_step rx" "\<lambda>_ _. True" cache_ok for rx
  by unfold_locales (rule keepsD [OF cache_step_ok])

lemma new_cache_ok: "cache_ok (new_cache cfg)"
  by (simp add: new_cache_def update_config_def empty_cache_def cache_ok_def Let_def)

text \<open>
  Whatever is called on a cache, in every order and at every time, exceptions, expiry,
  clean-up and reconfiguration included, the index lists each key of the dictionary exactly once
  and no other key.
\<close>

theorem cache_index_matches_data:
  assumes "reach (cache_step rx) (\<lambda>_ _. True) (new_cache cfg) c"
  shows "distinct (ca_index c) \<and> set (ca_index c) = fst ` set (ca_data c) \<and> length (ca_index c) = length (ca_data c)"
proof -
  have ok: "cache_ok c" by (rule caches.reach_inv [OF assms new_cache_ok])
  then have "card (set (ca_index c)) = card (set (dict_keys (ca_data c)))" by (simp add: cache_ok_def)
  with ok show ?thesis using distinct_card [of "dict_keys (ca_data c)"] distinct_card [of "ca_index c"]
    by (simp add: cache_ok_def)
qed

definition demo_config :: cache_config where
  "demo_config = \<lparr>cc_max_size = 2, cc_max_item_size = 0, cc_extend_expiry_on_get = True, cc_extend_expiry_on_set = True\<rparr>"

theorem cache_index_matches_data_witness:
  "distinct (ca_index (snd (cache_step (\<lambda>_. None) (5, Set (KStr ''k'') (CInt 1) 0) (new_cache demo_config))))"
  by (rule conjunct1 [OF cache_index_matches_data [where rx = "\<lambda>_. None" and cfg = demo_config]])
    (rule reach_step [OF reach_start], simp)

end
