(* ===== verification/Cache_Lru.thy ===== *)
theory Cache_Lru
  imports Cache_Facts
begin

text \<open>
  What the cache is: a bounded list of entries, the most recently created or read first, each with
  a value, an expiry and a time to expire. The cache of dictionary, index and counters refines it.
\<close>

section \<open>The specification\<close>

type_synonym lru_item = "cache_value \<times> int \<times> int"

record lru =
  lr_capacity :: int
  lr_item_limit :: "int option"
  lr_extend_get :: bool
  lr_extend_set :: bool
  lr_items :: "(cache_key, lru_item) dict"

definition li_expired :: "int \<Rightarrow> lru_item \<Rightarrow> bool" where
  "li_expired now it = (case it of (v, expiry, at) \<Rightarrow> at \<noteq> 0 \<and> now \<ge> at)"

definition li_read :: "int \<Rightarrow> bool \<Rightarrow> lru_item \<Rightarrow> lru_item" where
  "li_read now ext it = (case it of (v, expiry, at) \<Rightarrow> (v, expiry, if ext \<and> expiry \<noteq> 0 then now + expiry else at))"

definition li_write :: "int \<Rightarrow> bool \<Rightarrow> cache_value \<Rightarrow> int \<Rightarrow> lru_item \<Rightarrow> lru_item" where
  "li_write now ext new_value new_expiry it =
     (case it of (v, expiry, at) \<Rightarrow>
        if at = 0 then (new_value, if new_expiry = 0 then (expiry, 0) else (new_expiry, now + new_expiry))
        else if new_expiry = 0 then (new_value, 0, 0)
        else (new_value, expiry, if ext \<and> expiry \<noteq> 0 then now + expiry else at))"

definition lru_accepts :: "cache_key \<Rightarrow> cache_value \<Rightarrow> lru \<Rightarrow> bool" where
  "lru_accepts key v l \<longleftrightarrow> (case key of KOther n \<Rightarrow> False | _ \<Rightarrow> True) \<and>
     (case (lr_item_limit l, v) of (Some n, CStr s) \<Rightarrow> int (length s) \<le> n | _ \<Rightarrow> True)"

definition lru_get :: "int \<Rightarrow> cache_key \<Rightarrow> lru \<Rightarrow> lru" where
  "lru_get now key l = l\<lparr>lr_items :=
     (case map_of (lr_items l) key of
        None \<Rightarrow> lr_items l
      | Some it \<Rightarrow>
          if li_expired now it then dict_del key (lr_items l)
          else (key, li_read now (lr_extend_get l) it) # dict_del key (lr_items l))\<rparr>"

definition lru_set :: "int \<Rightarrow> cache_key \<Rightarrow> cache_value \<Rightarrow> int \<Rightarrow> lru \<Rightarrow> lru" where
  "lru_set now key v expiry l =
     (if lru_accepts key v l
      then l\<lparr>lr_items :=
        (case map_of (lr_items l) key of
           Some it \<Rightarrow>
             if li_expired now it then dict_del key (lr_items l)
             else dict_mutate key (li_write now (lr_extend_set l) v expiry) (lr_items l)
         | None \<Rightarrow>
             (key, v, expiry, if expiry = 0 then 0 else now + expiry) #
             (if int (length (lr_items l)) = lr_capacity l then butlast (lr_items l) else lr_items l))\<rparr>
      else l)"

definition lru_expire :: "int \<Rightarrow> cache_key \<Rightarrow> int \<Rightarrow> lru \<Rightarrow> lru" where
  "lru_expire now key expiry l =
     (case map_of (lr_items l) key of
        None \<Rightarrow> l
      | Some it \<Rightarrow> if li_expired now it then lru_get now key l else lru_set now key (fst it) expiry (lru_get now key l))"

definition lru_filter :: "(cache_key \<Rightarrow> lru_item \<Rightarrow> bool) \<Rightarrow> lru \<Rightarrow> lru" where
  "lru_filter P l = l\<lparr>lr_items := filter (\<lambda>(k, it). P k it) (lr_items l)\<rparr>"

definition lru_later :: "cache_key \<Rightarrow> int \<Rightarrow> int \<Rightarrow> lru \<Rightarrow> lru" where
  "lru_later key expiry expires_at l = l\<lparr>lr_items :=
     dict_mutate key (\<lambda>(v, old, at). if expires_at > at then (v, expiry, expires_at) else (v, old, at)) (lr_items l)\<rparr>"

text \<open>The operations on single keys, deletions by pattern and the clean-up.\<close>

datatype lru_event =
    L_Get cache_key bool | L_Set cache_key cache_value int | L_Delete cache_key | L_Delete_By matcher bool
  | L_Expire cache_key int | L_Set_Expiration cache_key int int | L_Delete_Expired

primrec lru_event_of :: "lru_event \<Rightarrow> cache_event" where
  "lru_event_of (L_Get key details) = Get key details"
| "lru_event_of (L_Set key v expiry) = Set key v expiry"
| "lru_event_of (L_Delete key) = Delete key"
| "lru_event_of (L_Delete_By m ret) = Delete_By m ret"
| "lru_event_of (L_Expire key expiry) = Expire key expiry"
| "lru_event_of (L_Set_Expiration key expiry expires_at) = Set_Expiration key expiry expires_at"
| "lru_event_of L_Delete_Expired = Delete_Expired"

primrec lru_spec :: "regex_lib \<Rightarrow> int \<Rightarrow> lru_event \<Rightarrow> lru \<Rightarrow> lru" where
  "lru_spec rx now (L_Get key details) l = lru_get now key l"
| "lru_spec rx now (L_Set key v expiry) l = lru_set now key v expiry l"
| "lru_spec rx now (L_Delete key) l = lru_filter (\<lambda>k it. k \<noteq> key) l"
| "lru_spec rx now (L_Delete_By m ret) l = (if compiles rx m then lru_filter (\<lambda>k it. \<not> matching rx m k) l else l)"
| "lru_spec rx now (L_Expire key expiry) l = lru_expire now key expiry l"
| "lru_spec rx now (L_Set_Expiration key expiry expires_at) l = lru_later key expiry expires_at l"
| "lru_spec rx now L_Delete_Expired l = lru_filter (\<lambda>k (v, expiry, at). \<not> (at \<noteq> 0 \<and> now > at)) l"

section \<open>The cache as such a list\<close>

definition item_of :: "entry \<Rightarrow> lru_item" where
  "item_of e = (en_value e, en_expiry e, en_expires_at e)"

definition items_of :: "(cache_key, entry) dict \<Rightarrow> cache_key list \<Rightarrow> (cache_key, lru_item) dict" where
  "items_of d index = map (\<lambda>k. (k, item_of (the (map_of d k)))) index"

definition lru_of :: "cache \<Rightarrow> lru" where
  "lru_of c =
     \<lparr>lr_capacity = ca_max_size c, lr_item_limit = (if ca_has_max_item_size c then Some (ca_max_item_size c) else None),
      lr_extend_get = ca_extend_expiry_on_get c, lr_extend_set = ca_extend_expiry_on_set c,
      lr_items = items_of (ca_data c) (ca_index c)\<rparr>"

text \<open>A cache that is not overfull and counts hits for each of its positions.\<close>

definition lru_ok :: "cache \<Rightarrow> bool" where
  "lru_ok c \<longleftrightarrow> cache_ok c \<and> 0 < ca_max_size c \<and> int (length (ca_index c)) \<le> ca_max_size c \<and>
     (\<forall>i. int i < ca_max_size c \<longrightarrow> ca_hits_per_position c i \<noteq> None)"

lemma map_of_items:
  "map_of (items_of d index) k = (if k \<in> set index then Some (item_of (the (map_of d k))) else None)"
  by (induction index) (auto simp: items_of_def)

lemma map_of_lru_items:
  "cache_ok c \<Longrightarrow> map_of (items_of (ca_data c) (ca_index c)) k = map_option item_of (map_of (ca_data c) k)"
  by (cases "map_of (ca_data c) k") (force simp: map_of_items cache_ok_def map_of_None_iff dest: map_of_SomeD)+

lemma items_of_other: "k \<notin> set index \<Longrightarrow> items_of (dict_set k e d) index = items_of d index"
  by (auto simp: items_of_def dict_simps)

lemma items_of_del_other: "k \<notin> set index \<Longrightarrow> items_of (dict_del k d) index = items_of d index"
  by (auto simp: items_of_def dict_simps)

lemma items_of_remove:
  "distinct index \<Longrightarrow> items_of d (remove1 k index) = dict_del k (items_of d index)"
  by (simp add: items_of_def distinct_remove1_removeAll AList.delete_eq removeAll_filter_not_eq filter_map comp_def)

lemma items_of_deleted:
  "distinct index \<Longrightarrow> items_of (dict_del k d) (remove1 k index) = dict_del k (items_of d index)"
  by (subst items_of_del_other) (simp_all add: items_of_remove)

lemma items_of_set:
  assumes "k \<in> set index" "map_of d k = Some e" "item_of e' = f (item_of e)"
  shows "items_of (dict_set k e' d) index = dict_mutate k f (items_of d index)"
  using assms by (auto simp: items_of_def dict_mutate_def dict_simps)

lemma items_of_front:
  "distinct index \<Longrightarrow> items_of (dict_set k e d) (k # remove1 k index) = (k, item_of e) # dict_del k (items_of d index)"
  by (simp add: items_of_other items_of_remove [symmetric]) (simp add: items_of_def dict_simps)

lemma items_of_new:
  "k \<notin> set index \<Longrightarrow> items_of (dict_set k e d) (k # index) = (k, item_of e) # items_of d index"
  using items_of_other [of k index e d] by (simp add: items_of_def dict_simps)

lemma items_of_butlast:
  "distinct index \<Longrightarrow> index \<noteq> [] \<Longrightarrow> items_of (dict_del (last index) d) (butlast index) = butlast (items_of d index)"
  by (subst items_of_del_other) (simp_all add: items_of_def map_butlast set_butlast_distinct)

lemma length_items [simp]: "length (items_of d index) = length index"
  by (simp add: items_of_def)

lemma filter_items: "filter (\<lambda>(k, it). P k it) (items_of d index) = items_of d (filter (\<lambda>k. P k (item_of (the (map_of d k)))) index)"
  by (simp add: items_of_def filter_map comp_def)

lemma item_rules:
  "li_expired now (item_of e) = expired now e"
  "item_of (read_from now c details i e) = li_read now (ca_extend_expiry_on_get c) (item_of e)"
  "item_of (written now v (reset_expiry now c expiry e)) = li_write now (ca_extend_expiry_on_set c) v expiry (item_of e)"
  "item_of (new_entry now v expiry) = (v, expiry, if expiry = 0 then 0 else now + expiry)"
  by (simp_all add: li_expired_def item_of_def expired_def read_from_def read_entry_def li_read_def written_def
      reset_expiry_def li_write_def new_entry_def Let_def)

lemma lru_of_fields [simp]:
  "lr_capacity (lru_of c) = ca_max_size c" "lr_extend_get (lru_of c) = ca_extend_expiry_on_get c"
  "lr_extend_set (lru_of c) = ca_extend_expiry_on_set c" "lr_items (lru_of c) = items_of (ca_data c) (ca_index c)"
  by (simp_all add: lru_of_def)

lemma lru_of_accepts: "lru_accepts key v (lru_of c) \<longleftrightarrow> \<not> bad_item key v c"
  by (auto simp: lru_accepts_def lru_of_def bad_item_def too_long_def split: cache_key.split cache_value.split)

lemma lru_ok_cache: "lru_ok c \<Longrightarrow> cache_ok c"
  by (simp add: lru_ok_def)

lemma lru_dropped:
  assumes "cache_ok c"
  shows "lru_of (dropped key c) = (lru_of c)\<lparr>lr_items := dict_del key (lr_items (lru_of c))\<rparr>"
  using assms by (simp add: lru_of_def dropped_def items_of_deleted cache_ok_def)

lemma lru_ok_dropped: "lru_ok c \<Longrightarrow> lru_ok (dropped key c)"
  using deleted_ok [of c key] by (auto simp: lru_ok_def dropped_def cache_ok_def length_remove1)

lemma get_refines:
  assumes ok: "lru_ok c"
  shows "lru_of (snd (get_entry now key dflt details c)) = lru_get now key (lru_of c)"
    and "lru_ok (snd (get_entry now key dflt details c))"
proof -
  note c = lru_ok_cache [OF ok]
  have "lru_of (snd (get_entry now key dflt details c)) = lru_get now key (lru_of c) \<and>
    lru_ok (snd (get_entry now key dflt details c))"
  proof (cases "map_of (ca_data c) key")
    case None
    with ok c show ?thesis
      by (auto simp: get_entry_missing lru_get_def map_of_lru_items lru_ok_def) (simp_all add: lru_of_def)
  next
    case (Some e)
    show ?thesis
    proof (cases "expired now e")
      case True
      with get_entry_expired [OF c Some] lru_dropped [OF c] lru_ok_dropped [OF ok] Some show ?thesis
        by (simp add: lru_get_def map_of_lru_items [OF c] item_rules)
    next
      case False
      have "key \<in> set (ca_index c)" using c Some by (force simp: cache_ok_def dest: map_of_SomeD)
      then have "int (get_index key (ca_index c)) < ca_max_size c"
        using ok get_index_less [of key "ca_index c"] by (auto simp: lru_ok_def)
      with ok obtain n where n: "ca_hits_per_position c (get_index key (ca_index c)) = Some n"
        by (auto simp: lru_ok_def)
      have d: "distinct (ca_index c)" using c by (simp add: cache_ok_def)
      note run = get_entry_present [OF c Some False n, of dflt details]
      have "lru_of (snd (get_entry now key dflt details c)) = lru_get now key (lru_of c)"
        using Some False
        by (simp add: run Let_def lru_get_def map_of_lru_items [OF c] item_rules lru_of_def items_of_front [OF d])
      moreover have "lru_ok (snd (get_entry now key dflt details c))"
        using fronted_ok [OF c Some] ok \<open>key \<in> set (ca_index c)\<close>
        by (auto simp: run Let_def lru_ok_def cache_ok_def length_remove1 split: if_splits)
      ultimately show ?thesis ..
    qed
  qed
  then show "lru_of (snd (get_entry now key dflt details c)) = lru_get now key (lru_of c)"
    "lru_ok (snd (get_entry now key dflt details c))" by auto
qed

lemma set_refines:
  assumes ok: "lru_ok c"
  shows "lru_of (snd (set_entry now key v expiry c)) = lru_set now key v expiry (lru_of c)"
    and "lru_ok (snd (set_entry now key v expiry c))"
proof -
  let ?c = "ca_set_ops_update (\<lambda>n. n + 1) c"
  note c = lru_ok_cache [OF ok]
  have ok': "lru_ok ?c" and c': "cache_ok ?c" using ok c by (simp_all add: lru_ok_def)
  have same: "lru_of ?c = lru_of c" by (simp add: lru_of_def)
  have d: "distinct (ca_index c)" using c by (simp add: cache_ok_def)
  have "lru_of (snd (set_entry now key v expiry c)) = lru_set now key v expiry (lru_of c) \<and>
    lru_ok (snd (set_entry now key v expiry c))"
  proof (cases "bad_item key v c")
    case True
    with ok show ?thesis by (simp add: set_entry_bad lru_set_def lru_of_accepts)
  next
    case good: False
    show ?thesis
    proof (cases "map_of (ca_data c) key")
      case (Some e)
      show ?thesis
      proof (cases "expired now e")
        case True
        with set_entry_expired [OF c good Some] lru_dropped [OF c'] lru_ok_dropped [OF ok'] Some same good show ?thesis
          by (simp add: lru_set_def map_of_lru_items [OF c] item_rules lru_of_accepts)
      next
        case False
        have k: "key \<in> set (ca_index c)" using c Some by (force simp: cache_ok_def dest: map_of_SomeD)
        let ?e = "written now v (reset_expiry now c expiry e)"
        have "items_of (dict_set key ?e (ca_data c)) (ca_index c) =
            dict_mutate key (li_write now (ca_extend_expiry_on_set c) v expiry) (items_of (ca_data c) (ca_index c))"
          using k Some by (rule items_of_set) (simp add: item_rules)
        then have "lru_of (c\<lparr>ca_set_ops := ca_set_ops c + 1, ca_data := dict_set key ?e (ca_data c)\<rparr>) =
            lru_set now key v expiry (lru_of c)"
          using Some good False
          by (simp add: lru_set_def map_of_lru_items [OF c] item_rules lru_of_accepts) (simp add: lru_of_def)
        moreover have "lru_ok (c\<lparr>ca_set_ops := ca_set_ops c + 1, ca_data := dict_set key ?e (ca_data c)\<rparr>)"
          using replaced_ok [OF c Some, of ?e] ok by (simp add: lru_ok_def cache_ok_def)
        ultimately show ?thesis using set_entry_present [OF good Some False] by (simp add: Let_def)
      qed
    next
      case None
      have k: "key \<notin> set (ca_index c)" using c None by (auto simp: cache_ok_def map_of_None_iff)
      note spec = lru_set_def [of now key v expiry "lru_of c"]
      show ?thesis
      proof (cases rule: make_room_run [OF c'])
        case room: 1
        have "lru_ok (inserted now key v expiry ?c)"
          using room ok' inserted_ok [OF c', of key] None by (auto simp: lru_ok_def inserted_def)
        moreover have "lru_of (inserted now key v expiry ?c) = lru_set now key v expiry (lru_of c)"
          using room None good items_of_new [OF k]
          by (simp add: spec map_of_lru_items [OF c] lru_of_accepts inserted_def) (simp add: lru_of_def item_rules)
        ultimately show ?thesis using set_entry_new [OF good None room(2)] by simp
      next
        case full: 2
        let ?f = "?c\<lparr>ca_index := butlast (ca_index ?c), ca_data := dict_del (last (ca_index ?c)) (ca_data ?c)\<rparr>"
        have "lru_ok (inserted now key v expiry ?f)"
          using full ok' inserted_ok [OF evicted_ok [OF c'], of key] None
          by (auto simp: lru_ok_def inserted_def dict_simps)
        moreover have "key \<notin> set (butlast (ca_index c))" using k in_set_butlastD by fast
        then have "lru_of (inserted now key v expiry ?f) = lru_set now key v expiry (lru_of c)"
          using full None good items_of_new [of key "butlast (ca_index c)"] items_of_butlast [OF d]
          by (simp add: spec map_of_lru_items [OF c] lru_of_accepts inserted_def) (simp add: lru_of_def item_rules)
        ultimately show ?thesis using set_entry_new [OF good None full(3)] by simp
      next
        case none: 3
        with ok show ?thesis by (simp add: lru_ok_def)
      qed
    qed
  qed
  then show "lru_of (snd (set_entry now key v expiry c)) = lru_set now key v expiry (lru_of c)"
    "lru_ok (snd (set_entry now key v expiry c))" by auto
qed

lemma delete_refines:
  assumes ok: "lru_ok c"
  shows "lru_of (snd (delete_key key c)) = lru_filter (\<lambda>k it. k \<noteq> key) (lru_of c)"
    and "lru_ok (snd (delete_key key c))"
proof -
  note c = lru_ok_cache [OF ok]
  have del: "dict_del key xs = filter (\<lambda>(k, it). k \<noteq> key) xs" for xs :: "(cache_key, lru_item) dict"
    by (auto simp: AList.delete_eq intro!: filter_cong)
  have "lru_of (snd (delete_key key c)) = lru_filter (\<lambda>k it. k \<noteq> key) (lru_of c) \<and> lru_ok (snd (delete_key key c))"
  proof (cases "map_of (ca_data c) key")
    case None
    then have "key \<notin> set (ca_index c)" using c by (auto simp: cache_ok_def map_of_None_iff)
    then have "filter (\<lambda>(k, it). k \<noteq> key) (items_of (ca_data c) (ca_index c)) = items_of (ca_data c) (ca_index c)"
      by (auto simp: items_of_def intro!: filter_True)
    with None ok show ?thesis by (simp add: delete_key_missing lru_filter_def)
  next
    case (Some e)
    with delete_key_run [OF c Some] deleted_ok [OF c, of key] ok c show ?thesis
      by (auto simp: lru_filter_def lru_of_def items_of_deleted cache_ok_def del lru_ok_def length_remove1)
  qed
  then show "lru_of (snd (delete_key key c)) = lru_filter (\<lambda>k it. k \<noteq> key) (lru_of c)" "lru_ok (snd (delete_key key c))"
    by auto
qed

lemma delete_keys_refine:
  assumes "lru_ok c" "set keys \<subseteq> fst ` set (ca_data c)" "distinct keys"
  shows "\<exists>c'. py_for keys (\<lambda>key. py_bind (delete_key key) (\<lambda>_. py_ret ())) c = (Inr (), c') \<and> lru_ok c' \<and>
    lru_of c' = lru_filter (\<lambda>k it. k \<notin> set keys) (lru_of c) \<and> ca_expired_on_op c' = ca_expired_on_op c"
  using assms
proof (induction keys arbitrary: c)
  case Nil
  then show ?case by (simp add: py_run lru_filter_def)
next
  case (Cons key keys)
  then obtain e where e: "map_of (ca_data c) key = Some e" by (metis insert_subset list.set(2) map_of_None_iff not_Some_eq)
  let ?c = "snd (delete_key key c)"
  note run = delete_key_run [OF lru_ok_cache [OF Cons.prems(1)] e]
  have "\<exists>c'. py_for keys (\<lambda>key. py_bind (delete_key key) (\<lambda>_. py_ret ())) ?c = (Inr (), c') \<and> lru_ok c' \<and>
      lru_of c' = lru_filter (\<lambda>k it. k \<notin> set keys) (lru_of ?c) \<and> ca_expired_on_op c' = ca_expired_on_op ?c"
    using Cons.prems run by (intro Cons.IH delete_refines) auto
  moreover have "lru_filter (\<lambda>k it. k \<notin> set keys) (lru_of ?c) = lru_filter (\<lambda>k it. k \<notin> set (key # keys)) (lru_of c)"
    unfolding delete_refines(1) [OF Cons.prems(1)]
    by (auto simp: lru_filter_def split_def intro!: filter_cong)
  moreover have "py_bind (delete_key key) (\<lambda>_. py_ret ()) c = (Inr (), ?c)" using run by (simp add: py_run)
  ultimately show ?case using run by (auto simp: py_seq_Inr)
qed

text \<open>Filtering the items by the keys of the dictionary that satisfy something.\<close>

lemma lru_filter_keys:
  assumes c: "cache_ok c" and P: "\<And>k e. map_of (ca_data c) k = Some e \<Longrightarrow> k \<in> S \<longleftrightarrow> \<not> P k (item_of e)"
  shows "lru_filter (\<lambda>k it. k \<notin> S) (lru_of c) = lru_filter P (lru_of c)"
proof -
  have "filter (\<lambda>k. k \<notin> S) (ca_index c) = filter (\<lambda>k. P k (item_of (the (map_of (ca_data c) k)))) (ca_index c)"
  proof (rule filter_cong [OF refl])
    fix k assume "k \<in> set (ca_index c)"
    then have "k \<in> fst ` set (ca_data c)" using c by (simp add: cache_ok_def)
    then obtain e where "map_of (ca_data c) k = Some e" by (metis map_of_None_iff not_Some_eq)
    with P show "(k \<notin> S) = P k (item_of (the (map_of (ca_data c) k)))" by simp
  qed
  then show ?thesis by (simp add: lru_filter_def filter_items)
qed

lemma delete_by_refines:
  assumes ok: "lru_ok c"
  shows "lru_of (snd (delete_by rx m ret c)) =
      (if compiles rx m then lru_filter (\<lambda>k it. \<not> matching rx m k) (lru_of c) else lru_of c)"
    and "lru_ok (snd (delete_by rx m ret c))"
proof -
  note c = lru_ok_cache [OF ok]
  let ?keys = "matching_keys rx m c"
  have keys: "set ?keys \<subseteq> fst ` set (ca_data c)" "distinct ?keys"
    using c by (auto simp: matching_keys_def cache_ok_def)
  from delete_keys_refine [OF ok keys] obtain c' where
    c': "py_for ?keys (\<lambda>key. py_bind (delete_key key) (\<lambda>_. py_ret ())) c = (Inr (), c')" "lru_ok c'"
      "lru_of c' = lru_filter (\<lambda>k it. k \<notin> set ?keys) (lru_of c)" by blast
  have "lru_filter (\<lambda>k it. k \<notin> set ?keys) (lru_of c) = lru_filter (\<lambda>k it. \<not> matching rx m k) (lru_of c)"
    by (rule lru_filter_keys [OF c]) (force simp: matching_keys_def dest: map_of_SomeD)
  with c' have run: "compiles rx m \<Longrightarrow> snd (delete_by rx m ret c) = c'"
    by (simp add: delete_by_def on_matching_def py_bind_Inr py_seq_Inr py_get_def py_ret_def)
  show "lru_of (snd (delete_by rx m ret c)) =
      (if compiles rx m then lru_filter (\<lambda>k it. \<not> matching rx m k) (lru_of c) else lru_of c)"
    "lru_ok (snd (delete_by rx m ret c))"
    using run c' ok \<open>lru_filter _ _ = _\<close>
    by (cases "compiles rx m"; simp add: delete_by_def on_matching_def py_raise_def)+
qed

lemma delete_expired_refines:
  assumes ok: "lru_ok c"
  shows "lru_of (snd (delete_expired now c)) = lru_filter (\<lambda>k (v, expiry, at). \<not> (at \<noteq> 0 \<and> now > at)) (lru_of c)"
    and "lru_ok (snd (delete_expired now c))"
proof -
  note c = lru_ok_cache [OF ok]
  let ?late = "\<lambda>e. en_expires_at e \<noteq> 0 \<and> now > en_expires_at e"
  let ?keys = "map fst (filter (\<lambda>(k, e). ?late e) (ca_data c))"
  have data: "dict_ok (ca_data c)" using c by (simp add: cache_ok_def)
  have keys: "set ?keys \<subseteq> fst ` set (ca_data c)" "distinct ?keys"
    using data by (auto intro: distinct_map_filter)
  from delete_keys_refine [OF ok keys] obtain c' where
    c': "py_for ?keys (\<lambda>key. py_bind (delete_key key) (\<lambda>_. py_ret ())) c = (Inr (), c')" "lru_ok c'"
      "lru_of c' = lru_filter (\<lambda>k it. k \<notin> set ?keys) (lru_of c)" by blast
  have "k \<in> set ?keys \<longleftrightarrow> ?late e" if "map_of (ca_data c) k = Some e" for k e
    using that map_of_in_set [OF data] by force
  then have "lru_filter (\<lambda>k it. k \<notin> set ?keys) (lru_of c) =
      lru_filter (\<lambda>k (v, expiry, at). \<not> (at \<noteq> 0 \<and> now > at)) (lru_of c)"
    by (intro lru_filter_keys [OF c]) (simp add: item_of_def)
  with c'(3) have "lru_of c' = lru_filter (\<lambda>k (v, expiry, at). \<not> (at \<noteq> 0 \<and> now > at)) (lru_of c)" by simp
  moreover have "snd (delete_expired now c) = c'\<lparr>ca_expired_on_op := []\<rparr>"
    using c'(1) by (simp add: delete_expired_def py_bind_Inr py_seq_Inr py_get_def py_ret_def py_modify_def)
  moreover have "lru_of (c'\<lparr>ca_expired_on_op := []\<rparr>) = lru_of c'" "lru_ok (c'\<lparr>ca_expired_on_op := []\<rparr>)"
    using c'(2) by (simp_all add: lru_of_def lru_ok_def)
  ultimately show "lru_of (snd (delete_expired now c)) =
      lru_filter (\<lambda>k (v, expiry, at). \<not> (at \<noteq> 0 \<and> now > at)) (lru_of c)" "lru_ok (snd (delete_expired now c))"
    by simp_all
qed

lemma expire_refines:
  assumes ok: "lru_ok c"
  shows "lru_of (snd (expire_key now key expiry c)) = lru_expire now key expiry (lru_of c)"
    and "lru_ok (snd (expire_key now key expiry c))"
proof -
  note c = lru_ok_cache [OF ok]
  note get = get_refines [OF ok, of now key Nothing False]
  have "lru_of (snd (expire_key now key expiry c)) = lru_expire now key expiry (lru_of c) \<and>
    lru_ok (snd (expire_key now key expiry c))"
  proof (cases "map_of (ca_data c) key")
    case None
    with ok show ?thesis by (simp add: expire_key_def lru_expire_def map_of_lru_items [OF c] py_run)
  next
    case (Some e)
    show ?thesis
    proof (cases "expired now e")
      case True
      with get_entry_expired [OF c Some True, of Nothing False] get Some show ?thesis
        by (simp add: expire_key_def expire_entry_def lru_expire_def map_of_lru_items [OF c] item_rules py_run)
    next
      case False
      have "key \<in> set (ca_index c)" using c Some by (force simp: cache_ok_def dest: map_of_SomeD)
      then have "int (get_index key (ca_index c)) < ca_max_size c"
        using ok get_index_less [of key "ca_index c"] by (auto simp: lru_ok_def)
      with ok obtain n where "ca_hits_per_position c (get_index key (ca_index c)) = Some n"
        by (auto simp: lru_ok_def)
      from get_entry_present [OF c Some False this, of Nothing False] obtain c' where
        run: "get_entry now key Nothing False c = (Inr (Value (en_value e)), c')"
        by (simp add: Let_def read_from_def read_entry_def)
      have "snd (expire_key now key expiry c) = snd (set_entry now key (en_value e) expiry c')"
        using Some run by (simp add: expire_key_def expire_entry_def py_run split: prod.split sum.split)
      moreover have "fst (item_of e) = en_value e" by (simp add: item_of_def)
      ultimately show ?thesis
        using set_refines [of c' now key "en_value e" expiry] get run Some False
        by (simp add: lru_expire_def map_of_lru_items [OF c] item_rules)
    qed
  qed
  then show "lru_of (snd (expire_key now key expiry c)) = lru_expire now key expiry (lru_of c)"
    "lru_ok (snd (expire_key now key expiry c))" by auto
qed

lemma expiration_refines:
  assumes ok: "lru_ok c"
  shows "lru_of (snd (set_expiration_data key expiry expires_at c)) = lru_later key expiry expires_at (lru_of c)"
    and "lru_ok (snd (set_expiration_data key expiry expires_at c))"
proof -
  note c = lru_ok_cache [OF ok]
  let ?f = "\<lambda>(v, old, at). if expires_at > at then (v, expiry, expires_at) else (v, old, at)"
  have "lru_of (snd (set_expiration_data key expiry expires_at c)) = lru_later key expiry expires_at (lru_of c) \<and>
    lru_ok (snd (set_expiration_data key expiry expires_at c))"
  proof (cases "map_of (ca_data c) key")
    case None
    with ok show ?thesis
      by (simp add: set_expiration_data_def lru_later_def dict_mutate_id map_of_lru_items [OF c] py_run)
  next
    case (Some e)
    have k: "key \<in> set (ca_index c)" using c Some by (force simp: cache_ok_def dest: map_of_SomeD)
    let ?e = "if expires_at > en_expires_at e then e\<lparr>en_expiry := expiry, en_expires_at := expires_at\<rparr> else e"
    let ?c = "c\<lparr>ca_data := dict_set key ?e (ca_data c)\<rparr>"
    have same: "dict_set key e (ca_data c) = ca_data c" using Some by (simp add: update_triv)
    have run: "snd (set_expiration_data key expiry expires_at c) = ?c"
      using Some same by (simp add: set_expiration_data_def py_run)
    have "items_of (dict_set key ?e (ca_data c)) (ca_index c) = dict_mutate key ?f (items_of (ca_data c) (ca_index c))"
      using k Some by (rule items_of_set) (simp add: item_of_def)
    moreover have "lru_ok ?c" using replaced_ok [OF c Some, of ?e] ok by (simp add: lru_ok_def)
    moreover have "lru_of ?c = (lru_of c)\<lparr>lr_items := items_of (dict_set key ?e (ca_data c)) (ca_index c)\<rparr>"
      by (simp add: lru_of_def)
    ultimately show ?thesis unfolding run lru_later_def by (simp only: lru_of_fields)
  qed
  then show "lru_of (snd (set_expiration_data key expiry expires_at c)) = lru_later key expiry expires_at (lru_of c)"
    "lru_ok (snd (set_expiration_data key expiry expires_at c))" by auto
qed

section \<open>Refinement\<close>

definition lru_action :: "regex_lib \<Rightarrow> int \<times> lru_event \<Rightarrow> (cache, unit) py" where
  "lru_action rx te = cache_step rx (fst te, lru_event_of (snd te))"

definition lru_step :: "regex_lib \<Rightarrow> int \<times> lru_event \<Rightarrow> lru \<Rightarrow> lru" where
  "lru_step rx te = lru_spec rx (fst te) (snd te)"

lemma lru_action_refines:
  assumes "lru_ok c"
  shows "lru_of (snd (lru_action rx te c)) = lru_step rx te (lru_of c) \<and> lru_ok (snd (lru_action rx te c))"
proof (cases te)
  case (Pair now e)
  show ?thesis
    unfolding Pair lru_action_def lru_step_def cache_step_def fst_conv snd_conv
    using get_refines [OF assms] set_refines [OF assms] delete_refines [OF assms] delete_by_refines [OF assms]
      expire_refines [OF assms] expiration_refines [OF assms] delete_expired_refines [OF assms]
    by (cases e) (simp_all only: lru_event_of.simps cache_event_step.simps lru_spec.simps snd_ignore simp_thms)
qed

interpretation lru: py_refinement "lru_action rx" lru_ok lru_of "lru_step rx" for rx
  by unfold_locales (use lru_action_refines in auto)

definition new_lru :: "cache_config \<Rightarrow> lru" where
  "new_lru cfg =
     (let limit = (if cc_max_item_size cfg = 0 then MAX_ITEM_SIZE else cc_max_item_size cfg)
      in \<lparr>lr_capacity = (if cc_max_size cfg = 0 then DEFAULT_SIZE else cc_max_size cfg),
          lr_item_limit = (if limit > 0 then Some limit else None),
          lr_extend_get = cc_extend_expiry_on_get cfg, lr_extend_set = cc_extend_expiry_on_set cfg, lr_items = []\<rparr>)"

lemma new_cache_lru:
  assumes "0 \<le> cc_max_size cfg"
  shows "lru_ok (new_cache cfg) \<and> lru_of (new_cache cfg) = new_lru cfg"
  using assms new_cache_ok [of cfg]
  by (auto simp: lru_ok_def lru_of_def new_lru_def new_cache_def update_config_def empty_cache_def items_of_def
      DEFAULT_SIZE_def Let_def)

text \<open>
  Claim C5. In every sequence of gets, sets, expirations, deletions and clean-ups, at whatever
  times, a cache is the list of entries in order of recency: a key that is read or created comes
  first, a new key in a full cache pushes out exactly the least recently read or created one, an
  expired key is gone as soon as it is touched, and no other entry changes; there are never more
  entries than the maximum.
\<close>

theorem cache_refines_lru:
  assumes "0 \<le> cc_max_size cfg"
  shows "lru_of (fold (\<lambda>te c. snd (lru_action rx te c)) tes (new_cache cfg)) = fold (lru_step rx) tes (new_lru cfg) \<and>
    int (length (ca_index (fold (\<lambda>te c. snd (lru_action rx te c)) tes (new_cache cfg)))) \<le>
      lr_capacity (fold (lru_step rx) tes (new_lru cfg))"
proof -
  let ?c = "fold (\<lambda>te c. snd (lru_action rx te c)) tes (new_cache cfg)"
  have "lru_ok (new_cache cfg)" "lru_of (new_cache cfg) = new_lru cfg" using new_cache_lru [OF assms] by auto
  then have r: "lru_of ?c = fold (lru_step rx) tes (new_lru cfg)" "lru_ok ?c"
    using lru.run_refines [of "new_cache cfg" rx tes] lru.run_inv [of "new_cache cfg" rx tes] by auto
  then show ?thesis by (simp add: r(1) [symmetric]) (simp add: lru_ok_def)
qed

definition demo_run_events :: "(int \<times> lru_event) list" where
  "demo_run_events =
     [(1, L_Set (KStr ''a'') (CInt 1) 0), (2, L_Set (KStr ''b'') (CInt 2) 0), (3, L_Get (KStr ''a'') False),
      (4, L_Set (KStr ''c'') (CInt 3) 0)]"

lemma demo_lru_items:
  "lr_items (fold (lru_step (\<lambda>_. None)) demo_run_events (new_lru demo_config)) =
     [(KStr ''c'', CInt 3, 0, 0), (KStr ''a'', CInt 1, 0, 0)]"
  by (simp add: demo_run_events_def demo_config_def new_lru_def lru_step_def lru_set_def lru_get_def lru_accepts_def
      li_expired_def li_read_def MAX_ITEM_SIZE_def AList.delete_eq)

theorem cache_refines_lru_witness:
  "lr_items (lru_of (fold (\<lambda>te c. snd (lru_action (\<lambda>_. None) te c)) demo_run_events (new_cache demo_config))) =
     [(KStr ''c'', CInt 3, 0, 0), (KStr ''a'', CInt 1, 0, 0)]"
  using cache_refines_lru [of demo_config "\<lambda>_. None" demo_run_events] demo_lru_items by (simp add: demo_config_def)

section \<open>What goes wrong\<close>

text \<open>
  Clearing a cache also drops the counters of its positions, which only a reconfiguration brings
  back: the first hit after it reads a missing one in C.
\<close>

lemma get_after_clear_crashes:
  assumes "ca_max_size c > 0" "\<not> bad_item key v c"
  shows "fst (get_entry now key dflt details (snd (set_entry now key v 0 (cache_clear c)))) = Inl NULL_Access"
proof -
  have "\<not> bad_item key v (cache_clear c)" using assms(2)
    by (cases v) (simp_all add: bad_item_def too_long_def cache_clear_def)
  moreover have "make_room (ca_set_ops_update (\<lambda>n. n + 1) (cache_clear c)) =
      (Inr (), ca_set_ops_update (\<lambda>n. n + 1) (cache_clear c))"
    using assms(1) by (simp add: make_room_def cache_clear_def py_run)
  ultimately have "snd (set_entry now key v 0 (cache_clear c)) =
      inserted now key v 0 (ca_set_ops_update (\<lambda>n. n + 1) (cache_clear c))"
    by (subst set_entry_new) (simp_all add: cache_clear_def)
  then show ?thesis
    by (subst get_entry_crash [of _ _ "new_entry now v 0"])
      (simp_all add: inserted_def cache_clear_def expired_def new_entry_def dict_simps)
qed

text \<open>A cache whose maximum was lowered below its size no longer makes room and grows without bound.\<close>

lemma lowered_maximum_is_no_bound:
  assumes "cache_ok c" "int (length (ca_index c)) > ca_max_size c" "map_of (ca_data c) key = None" "\<not> bad_item key v c"
  shows "length (ca_index (snd (set_entry now key v expiry c))) = Suc (length (ca_index c))"
proof -
  have "make_room (ca_set_ops_update (\<lambda>n. n + 1) c) = (Inr (), ca_set_ops_update (\<lambda>n. n + 1) c)"
    using assms(2) by (simp add: make_room_def py_run)
  with set_entry_new [OF assms(4,3)] show ?thesis by (simp add: inserted_def)
qed

text \<open>Once a key has an expiry, neither setting nor expiring it gives it another one.\<close>

lemma expiry_stays:
  assumes "at \<noteq> 0" "new_expiry \<noteq> 0"
  shows "snd (li_write now ext v new_expiry (w, expiry, at)) = (expiry, if ext \<and> expiry \<noteq> 0 then now + expiry else at)"
  using assms by (simp add: li_write_def)

text \<open>One expired key among those that match, and getting all of them raises.\<close>

lemma get_by_raises_for_expired:
  assumes "cache_ok c" "map_of (ca_data c) key = Some e" "expired now e"
  shows "fst (get_keys now details (key # keys) out c) = Inl KeyExpiredError"
  using get_entry_expired [OF assms] by (simp add: py_run)

text \<open>The same while expiring them is not reported at all.\<close>

lemma expire_by_hides_errors:
  "fst (expire_by rx now m expiry c) = Inl x \<Longrightarrow> x = NULL_Access"
  by (auto simp: expire_by_def py_run split: prod.splits sum.splits if_splits)

end
