(* ===== verification/Cache_Sync.thy ===== *)
theory Cache_Sync
  imports Cache_Lru
begin

text \<open>
  Caches of several workers: a change made in one is told to the others. While entries do not
  expire and nobody has to make room, all workers hold the same values after every change whose
  message is sent; the last section shows the changes of which none is sent, or a wrong one.
\<close>

section \<open>The values of a cache\<close>

type_synonym values_of = "cache_key \<Rightarrow> cache_value option"

definition view :: "cache \<Rightarrow> values_of" where
  "view c k = map_option en_value (map_of (ca_data c) k)"

text \<open>No entry of the cache expires.\<close>

definition lasting :: "cache \<Rightarrow> bool" where
  "lasting c \<longleftrightarrow> cache_ok c \<and> (\<forall>k e. map_of (ca_data c) k = Some e \<longrightarrow> en_expires_at e = 0)"

definition limits :: "cache \<Rightarrow> int \<times> bool \<times> int" where
  "limits c = (ca_max_size c, ca_has_max_item_size c, ca_max_item_size c)"

definition has_room :: "cache_key \<Rightarrow> cache \<Rightarrow> bool" where
  "has_room key c \<longleftrightarrow> dict_has key (ca_data c) \<or> int (length (ca_index c)) \<noteq> ca_max_size c"

lemma lasting_ok: "lasting c \<Longrightarrow> cache_ok c"
  by (simp add: lasting_def)

lemma lasting_not_expired: "lasting c \<Longrightarrow> map_of (ca_data c) key = Some e \<Longrightarrow> \<not> expired now e"
  by (simp add: lasting_def expired_def)

lemma view_None: "view c k = None \<longleftrightarrow> map_of (ca_data c) k = None"
  by (simp add: view_def)

lemma bad_item_limits: "limits c = limits d \<Longrightarrow> bad_item key v c = bad_item key v d"
  by (cases v) (auto simp: limits_def bad_item_def too_long_def)

lemma size_of_view:
  assumes "cache_ok c"
  shows "length (ca_index c) = card {k. view c k \<noteq> None}"
proof -
  have "set (ca_index c) = {k. view c k \<noteq> None}"
    using assms by (auto simp: cache_ok_def view_def map_of_None_iff [symmetric])
  with assms distinct_card [of "ca_index c"] show ?thesis by (simp add: cache_ok_def)
qed

lemma has_room_view:
  assumes "cache_ok c" "cache_ok d" "view c = view d" "limits c = limits d"
  shows "has_room key c = has_room key d"
  using assms view_None [of c key] view_None [of d key]
  by (auto simp: has_room_def size_of_view limits_def)

lemma set_view:
  assumes c: "lasting c" and good: "\<not> bad_item key v c" and room: "has_room key c"
  shows "\<exists>old t c'. set_entry now key v 0 c = (Inr (old, t), c') \<and> lasting c' \<and> view c' = (view c)(key \<mapsto> v) \<and>
    limits c' = limits c"
proof (cases "map_of (ca_data c) key")
  case (Some e)
  let ?c = "snd (set_entry now key v 0 c)"
  note run = set_entry_present [OF good Some lasting_not_expired [OF c Some], of now 0]
  have "en_expires_at (written now v (reset_expiry now c 0 e)) = 0" "en_value (written now v (reset_expiry now c 0 e)) = v"
    using c Some by (simp_all add: written_def reset_expiry_def lasting_def)
  moreover have "cache_ok ?c" by (rule keepsD [OF set_entry_ok lasting_ok [OF c]])
  ultimately show ?thesis
    using c run by (auto simp: lasting_def view_def limits_def fun_eq_iff Let_def dict_simps)
next
  case None
  let ?c = "snd (set_entry now key v 0 c)"
  have "make_room (ca_set_ops_update (\<lambda>n. n + 1) c) = (Inr (), ca_set_ops_update (\<lambda>n. n + 1) c)"
    using room None by (simp add: has_room_def make_room_def py_run)
  note run = set_entry_new [OF good None this, of now 0]
  have "cache_ok ?c" by (rule keepsD [OF set_entry_ok lasting_ok [OF c]])
  with c run show ?thesis
    by (auto simp: lasting_def view_def limits_def fun_eq_iff inserted_def new_entry_def dict_simps)
qed

lemma delete_view:
  assumes c: "lasting c" and v: "view c key = Some v"
  shows "\<exists>c'. delete_key key c = (Inr v, c') \<and> lasting c' \<and> view c' = (view c)(key := None) \<and> limits c' = limits c"
proof -
  from v obtain e where e: "map_of (ca_data c) key = Some e" "v = en_value e" by (auto simp: view_def)
  from delete_key_run [OF lasting_ok [OF c] e(1)] deleted_ok [OF lasting_ok [OF c], of key] c e show ?thesis
    by (auto simp: lasting_def view_def limits_def fun_eq_iff dict_simps)
qed

lemma has_room_present: "dict_has key (ca_data c) \<Longrightarrow> has_room key c"
  by (simp add: has_room_def)

lemma set_keys_view:
  assumes "lasting c" "\<forall>key\<in>set keys. view c key \<noteq> None \<and> \<not> bad_item key v c"
  shows "\<exists>r c'. set_keys now v 0 ret keys out c = (Inr r, c') \<and> lasting c' \<and> limits c' = limits c \<and>
    view c' = (\<lambda>k. if k \<in> set keys then Some v else view c k) \<and> (r = [] \<longleftrightarrow> out = [] \<and> (ret \<longrightarrow> keys = []))"
  using assms
proof (induction keys arbitrary: c out)
  case (Cons key keys)
  then obtain e where e: "map_of (ca_data c) key = Some e" "\<not> bad_item key v c"
    by (force simp: view_def)
  from set_view [OF Cons.prems(1) e(2) has_room_present, of now] e obtain old t c1 where
    c1: "set_entry now key v 0 c = (Inr (old, t), c1)" "lasting c1" "view c1 = (view c)(key \<mapsto> v)" "limits c1 = limits c"
    by auto
  let ?out = "if ret then dict_set key (en_value e) out else out"
  have "\<forall>key\<in>set keys. view c1 key \<noteq> None \<and> \<not> bad_item key v c1"
    using Cons.prems c1(3) bad_item_limits [OF c1(4)] by auto
  from Cons.IH [OF c1(2) this, of ?out] obtain r c' where
    ih: "set_keys now v 0 ret keys ?out c1 = (Inr r, c')" "lasting c'" "limits c' = limits c1"
      "view c' = (\<lambda>k. if k \<in> set keys then Some v else view c1 k)" "r = [] \<longleftrightarrow> ?out = [] \<and> (ret \<longrightarrow> keys = [])" by blast
  have "set_keys now v 0 ret (key # keys) out c = set_keys now v 0 ret keys ?out c1"
    using e c1(1) by (simp add: py_run)
  moreover have "dict_set key (en_value e) out \<noteq> []" by (cases out) auto
  ultimately show ?case using ih c1 by (auto simp: fun_eq_iff split: if_splits)
qed (simp add: py_run)

lemma delete_keys_view:
  assumes "lasting c" "\<forall>key\<in>set keys. view c key \<noteq> None" "distinct keys"
  shows "\<exists>c'. py_for keys (\<lambda>key. py_bind (delete_key key) (\<lambda>_. py_ret ())) c = (Inr (), c') \<and> lasting c' \<and>
    limits c' = limits c \<and> view c' = (\<lambda>k. if k \<in> set keys then None else view c k)"
  using assms
proof (induction keys arbitrary: c)
  case (Cons key keys)
  then obtain v where "view c key = Some v" by auto
  from delete_view [OF Cons.prems(1) this] obtain c1 where
    c1: "delete_key key c = (Inr v, c1)" "lasting c1" "view c1 = (view c)(key := None)" "limits c1 = limits c" by blast
  have "\<forall>key\<in>set keys. view c1 key \<noteq> None" using Cons.prems c1(3) by auto
  from Cons.IH [OF c1(2) this] Cons.prems obtain c' where
    ih: "py_for keys (\<lambda>key. py_bind (delete_key key) (\<lambda>_. py_ret ())) c1 = (Inr (), c')" "lasting c'"
      "limits c' = limits c1" "view c' = (\<lambda>k. if k \<in> set keys then None else view c1 k)" by auto
  have "py_bind (delete_key key) (\<lambda>_. py_ret ()) c = (Inr (), c1)" using c1(1) by (simp add: py_run)
  with ih c1 show ?case by (auto simp: py_seq_Inr fun_eq_iff)
qed (simp add: py_run)

section \<open>A change and its message\<close>

text \<open>
  Changes of entries that do not expire; those by pattern ask for what was found (\<open>return_found\<close>), as
  without it, which is the default, they are told to nobody.
\<close>

datatype shared_op =
    Share_Set cache_key cache_value | Share_Delete cache_key | Share_Set_By matcher cache_value
  | Share_Delete_By matcher | Share_Clear

primrec run_shared :: "regex_lib \<Rightarrow> int \<Rightarrow> nat \<Rightarrow> shared_op \<Rightarrow> (cache_api, unit) py" where
  "run_shared rx now i (Share_Set key v) = ignore (api_set now i key v 0)"
| "run_shared rx now i (Share_Delete key) = ignore (api_delete i key True)"
| "run_shared rx now i (Share_Set_By m v) = ignore (api_set_by rx now i m v 0 True)"
| "run_shared rx now i (Share_Delete_By m) = ignore (api_delete_by rx i m True)"
| "run_shared rx now i Share_Clear = api_clear i"

definition effect_of :: "(cache, 'a) py \<Rightarrow> ('a \<Rightarrow> sync_op option) \<Rightarrow> cache \<Rightarrow> cache \<times> sync_op option" where
  "effect_of m f c = (case m c of (Inl e, c') \<Rightarrow> (c', None) | (Inr x, c') \<Rightarrow> (c', f x))"

primrec shared_effect :: "regex_lib \<Rightarrow> int \<Rightarrow> shared_op \<Rightarrow> cache \<Rightarrow> cache \<times> sync_op option" where
  "shared_effect rx now (Share_Set key v) c = effect_of (set_entry now key v 0) (\<lambda>_. Some (Sync_Set key v 0)) c"
| "shared_effect rx now (Share_Delete key) c = effect_of (delete_key key) (\<lambda>_. Some (Sync_Delete key)) c"
| "shared_effect rx now (Share_Set_By m v) c =
     effect_of (set_by rx now m v 0 True) (\<lambda>out. if out = [] then None else Some (Sync_Set_By m v 0)) c"
| "shared_effect rx now (Share_Delete_By m) c =
     effect_of (delete_by rx m True) (\<lambda>out. if out = [] then None else Some (Sync_Delete_By m)) c"
| "shared_effect rx now Share_Clear c = (cache_clear c, Some Sync_Clear)"

definition told :: "cache_api \<Rightarrow> api_cache \<Rightarrow> sync_op option \<Rightarrow> sync_msg list" where
  "told w ac change =
     (case change of
        None \<Rightarrow> []
      | Some so \<Rightarrow> if ac_needs_sync ac then [\<lparr>sm_op = so, sm_cache_name = ac_name ac, sm_source = wk_id w\<rparr>] else [])"

lemma run_shared_effect:
  assumes "map_of (wk_objects w) i = Some ac"
  shows "snd (run_shared rx now i opn w) =
    (case shared_effect rx now opn (ac_impl ac) of (c', change) \<Rightarrow>
       w\<lparr>wk_objects := dict_set i (ac\<lparr>ac_impl := c'\<rparr>) (wk_objects w), wk_published := wk_published w @ told w ac change\<rparr>)"
  using assms
  by (cases opn)
    (simp_all add: snd_ignore api_set_def api_delete_def api_set_by_def api_delete_by_def api_clear_def on_impl_def
      after_state_changed_def effect_of_def told_def py_run dict_simps split: prod.split sum.split)

lemma matching_keys_view:
  "cache_ok c \<Longrightarrow> set (matching_keys rx m c) = {k. matching rx m k \<and> view c k \<noteq> None}"
  by (auto simp: matching_keys_def view_None map_of_None_iff)

lemma set_by_view:
  assumes c: "lasting c" and rx: "compiles rx m"
    and good: "\<forall>key\<in>set (matching_keys rx m c). \<not> bad_item key v c"
  shows "\<exists>r c'. set_by rx now m v 0 ret c = (Inr r, c') \<and> lasting c' \<and> limits c' = limits c \<and>
    view c' = (\<lambda>k. if matching rx m k \<and> view c k \<noteq> None then Some v else view c k) \<and>
    (r = [] \<longleftrightarrow> (ret \<longrightarrow> matching_keys rx m c = []))"
proof -
  have "\<forall>key\<in>set (matching_keys rx m c). view c key \<noteq> None \<and> \<not> bad_item key v c"
    using good matching_keys_view [OF lasting_ok [OF c]] by auto
  from set_keys_view [OF c this, of now ret "[]"] rx matching_keys_view [OF lasting_ok [OF c], of rx m] show ?thesis
    by (simp add: set_by_def on_matching_def py_bind_Inr py_get_def)
qed

lemma delete_by_view:
  assumes c: "lasting c" and rx: "compiles rx m"
  shows "\<exists>r c'. delete_by rx m ret c = (Inr r, c') \<and> lasting c' \<and> limits c' = limits c \<and>
    view c' = (\<lambda>k. if matching rx m k then None else view c k) \<and>
    (r = [] \<longleftrightarrow> (ret \<longrightarrow> matching_keys rx m c = []))"
proof -
  let ?keys = "matching_keys rx m c"
  have keys: "\<forall>key\<in>set ?keys. view c key \<noteq> None" "distinct ?keys"
    using c matching_keys_view [OF lasting_ok [OF c]] by (auto simp: matching_keys_def lasting_def cache_ok_def)
  from delete_keys_view [OF c keys] obtain c' where
    c': "py_for ?keys (\<lambda>key. py_bind (delete_key key) (\<lambda>_. py_ret ())) c = (Inr (), c')" "lasting c'"
      "limits c' = limits c" "view c' = (\<lambda>k. if k \<in> set ?keys then None else view c k)" by blast
  let ?out = "if ret then map (\<lambda>(k, e). (k, en_value e)) (filter (\<lambda>(k, e). k \<in> set ?keys) (ca_data c)) else []"
  have "delete_by rx m ret c = (Inr ?out, c')"
    using rx c'(1) by (simp add: delete_by_def on_matching_def py_bind_Inr py_seq_Inr py_get_def py_ret_def)
  moreover have "?out = [] \<longleftrightarrow> (ret \<longrightarrow> ?keys = [])"
    by (auto simp: filter_empty_conv matching_keys_def) force
  moreover have "view c' = (\<lambda>k. if matching rx m k then None else view c k)"
    unfolding c'(4) using matching_keys_view [OF lasting_ok [OF c], of rx m] by auto
  ultimately show ?thesis using c' by auto
qed

text \<open>Taking over a change that another cache with the same values has made.\<close>

definition same_values :: "cache \<Rightarrow> cache \<Rightarrow> bool" where
  "same_values c d \<longleftrightarrow> lasting c \<and> lasting d \<and> view c = view d \<and> limits c = limits d"

fun op_has_room :: "shared_op \<Rightarrow> cache \<Rightarrow> bool" where
  "op_has_room (Share_Set key v) c = has_room key c"
| "op_has_room opn c = True"

lemma bad_of_matching: "matching rx m key \<Longrightarrow> bad_item key v c = too_long c v"
  by (cases key) (auto simp: matching_def bad_item_def)

lemma too_long_limits: "limits c = limits d \<Longrightarrow> too_long c v = too_long d v"
  using bad_item_limits [of c d "KInt 0" v] by (simp add: bad_item_def)

lemma set_keys_too_long:
  assumes "too_long c v" "keys \<noteq> []" "\<forall>key\<in>set keys. map_of (ca_data c) key \<noteq> None"
  shows "set_keys now v 0 ret keys out c = (Inl ValueError, c)"
proof -
  from assms(2) obtain key rest where keys: "keys = key # rest" by (cases keys) auto
  from assms(3) keys obtain e where "map_of (ca_data c) key = Some e" by auto
  with keys set_entry_bad [of key v c now 0] assms(1) show ?thesis by (simp add: bad_item_def py_run)
qed

text \<open>What a change by pattern does to a cache, and whether it is told.\<close>

lemma set_by_effect:
  assumes c: "lasting c"
  obtains (unchanged) c' where "effect_of (set_by rx now m v 0 True) (\<lambda>out. if out = [] then None else Some s) c = (c', None)"
      "lasting c'" "view c' = view c" "limits c' = limits c"
  | (changed) c' where "effect_of (set_by rx now m v 0 True) (\<lambda>out. if out = [] then None else Some s) c = (c', Some s)"
      "compiles rx m" "\<not> too_long c v" "lasting c'" "limits c' = limits c"
      "view c' = (\<lambda>k. if matching rx m k \<and> view c k \<noteq> None then Some v else view c k)"
proof (cases "compiles rx m \<and> matching_keys rx m c \<noteq> []")
  case False
  then have "effect_of (set_by rx now m v 0 True) (\<lambda>out. if out = [] then None else Some s) c = (c, None)"
    by (auto simp: effect_of_def set_by_def on_matching_def py_run)
  from unchanged [OF this c] show thesis by simp
next
  case True
  show thesis
  proof (cases "too_long c v")
    case long: True
    have "\<forall>key\<in>set (matching_keys rx m c). map_of (ca_data c) key \<noteq> None"
      using matching_keys_view [OF lasting_ok [OF c], of rx m] by (auto simp: view_None [symmetric])
    with True long have "set_by rx now m v 0 True c = (Inl ValueError, c)"
      by (simp add: set_by_def on_matching_def py_bind_Inr py_get_def set_keys_too_long)
    with c show thesis by (intro unchanged [of c]) (simp_all add: effect_of_def)
  next
    case False
    then have "\<forall>key\<in>set (matching_keys rx m c). \<not> bad_item key v c"
      using bad_of_matching by (auto simp: matching_keys_def)
    from set_by_view [OF c _ this, of now True] True obtain r c' where
      "set_by rx now m v 0 True c = (Inr r, c')" "lasting c'" "limits c' = limits c" "r \<noteq> []"
      "view c' = (\<lambda>k. if matching rx m k \<and> view c k \<noteq> None then Some v else view c k)" by auto
    with True False show thesis by (intro changed [of c']) (simp_all add: effect_of_def)
  qed
qed

lemma change_taken_over:
  assumes same: "same_values c d" and room: "op_has_room opn c"
    and change: "shared_effect rx now opn c = (c', change)"
  shows "lasting c' \<and> limits c' = limits c \<and>
    (case change of None \<Rightarrow> same_values c' d | Some so \<Rightarrow> same_values c' (snd (sync_impl rx now so d)))"
proof (cases opn)
  case (Share_Set key v)
  have c: "lasting c" and d: "lasting d" and vl: "view c = view d" "limits c = limits d"
    using same by (auto simp: same_values_def)
  show ?thesis
  proof (cases "bad_item key v c")
    case True
    with change Share_Set same show ?thesis by (auto simp: effect_of_def set_entry_bad same_values_def)
  next
    case False
    have r: "has_room key c" "has_room key d"
      using room Share_Set has_room_view [OF lasting_ok [OF c] lasting_ok [OF d] vl] by auto
    have "\<not> bad_item key v d" using False bad_item_limits [OF vl(2)] by simp
    from set_view [OF c False r(1), of now] set_view [OF d this r(2), of now] change Share_Set vl show ?thesis
      by (auto simp: effect_of_def sync_impl_def same_values_def py_run)
  qed
next
  case (Share_Delete key)
  have c: "lasting c" and d: "lasting d" and vl: "view c = view d" "limits c = limits d"
    using same by (auto simp: same_values_def)
  show ?thesis
  proof (cases "view c key")
    case None
    then have "delete_key key c = (Inl KeyError, c)" by (simp add: view_None delete_key_missing)
    with change Share_Delete same show ?thesis by (auto simp: effect_of_def same_values_def)
  next
    case (Some v)
    from delete_view [OF c Some] delete_view [OF d, of key v] Some change Share_Delete vl show ?thesis
      by (auto simp: effect_of_def sync_impl_def same_values_def py_run)
  qed
next
  case (Share_Set_By m v)
  have c: "lasting c" and d: "lasting d" and vl: "view c = view d" "limits c = limits d"
    using same by (auto simp: same_values_def)
  show ?thesis
  proof (cases rule: set_by_effect [OF c, of rx now m v "Sync_Set_By m v 0"])
    case (1 c1)
    with change Share_Set_By same vl show ?thesis by (auto simp: same_values_def)
  next
    case (2 c1)
    have "\<forall>key\<in>set (matching_keys rx m d). \<not> bad_item key v d"
      using 2(3) too_long_limits [OF vl(2)] bad_of_matching by (auto simp: matching_keys_def)
    from set_by_view [OF d 2(2) this, of now False] obtain r d1 where
      d1: "set_by rx now m v 0 False d = (Inr r, d1)" "lasting d1" "limits d1 = limits d"
      "view d1 = (\<lambda>k. if matching rx m k \<and> view d k \<noteq> None then Some v else view d k)" by auto
    have "view c1 = view d1" unfolding 2(6) d1(4) vl(1) ..
    moreover have "c' = c1" "change = Some (Sync_Set_By m v 0)" using 2(1) change Share_Set_By by auto
    ultimately show ?thesis using 2(4,5) d1(1-3) vl(2) by (simp add: sync_impl_def same_values_def py_run)
  qed
next
  case (Share_Delete_By m)
  have c: "lasting c" and d: "lasting d" and vl: "view c = view d" "limits c = limits d"
    using same by (auto simp: same_values_def)
  show ?thesis
  proof (cases "compiles rx m")
    case False
    with change Share_Delete_By same show ?thesis
      by (auto simp: effect_of_def delete_by_def on_matching_def py_run same_values_def)
  next
    case True
    from delete_by_view [OF c True, of True] obtain r c1 where
      c1: "delete_by rx m True c = (Inr r, c1)" "lasting c1" "limits c1 = limits c"
        "view c1 = (\<lambda>k. if matching rx m k then None else view c k)" "r = [] \<longleftrightarrow> matching_keys rx m c = []" by auto
    have "r = [] \<Longrightarrow> view c1 = view c"
      using c1(4,5) matching_keys_view [OF lasting_ok [OF c], of rx m] by (force simp: fun_eq_iff)
    moreover obtain q d1 where d1: "delete_by rx m False d = (Inr q, d1)" "lasting d1" "limits d1 = limits d"
      "view d1 = (\<lambda>k. if matching rx m k then None else view d k)"
      using delete_by_view [OF d True, of False] by auto
    moreover have "view c1 = view d1" unfolding c1(4) d1(4) vl(1) ..
    moreover have "c' = c1" "change = (if r = [] then None else Some (Sync_Delete_By m))"
      using c1(1) change Share_Delete_By by (auto simp: effect_of_def)
    ultimately show ?thesis
      using c1(2,3) d vl by (auto simp: sync_impl_def same_values_def py_run simp del: view_def)
  qed
next
  case Share_Clear
  with change same show ?thesis
    by (auto simp: cache_clear_def sync_impl_def same_values_def lasting_def cache_ok_def view_def limits_def fun_eq_iff py_run)
qed

section \<open>Workers\<close>

definition cache_of :: "string \<Rightarrow> cache_api \<Rightarrow> api_cache option" where
  "cache_of n w = (case map_of (wk_builtin w) n of None \<Rightarrow> None | Some i \<Rightarrow> map_of (wk_objects w) i)"

definition impl_of :: "string \<Rightarrow> cache_api \<Rightarrow> cache" where
  "impl_of n w = (case cache_of n w of None \<Rightarrow> empty_cache | Some ac \<Rightarrow> ac_impl ac)"

text \<open>A worker changes its cache, and the message reaches all workers, itself included.\<close>

definition deliver :: "regex_lib \<Rightarrow> int \<Rightarrow> sync_msg list \<Rightarrow> cache_api \<Rightarrow> cache_api" where
  "deliver rx now msgs w = fold (\<lambda>msg w. snd (on_broker_msg rx now msg w)) msgs w"

definition cluster_step ::
    "regex_lib \<Rightarrow> string \<Rightarrow> int \<times> nat \<times> shared_op \<Rightarrow> (cache_api list, unit) py" where
  "cluster_step rx n e ws =
     (case e of (now, k, opn) \<Rightarrow>
        case map_of (wk_builtin (ws ! k)) n of
          None \<Rightarrow> (Inl KeyError, ws)
        | Some i \<Rightarrow>
            let w = snd (run_shared rx now i opn (ws ! k))
            in (Inr (), map (deliver rx now (drop (length (wk_published (ws ! k))) (wk_published w))) (ws[k := w])))"

definition cluster_allowed :: "string \<Rightarrow> int \<times> nat \<times> shared_op \<Rightarrow> cache_api list \<Rightarrow> bool" where
  "cluster_allowed n e ws = (case e of (now, k, opn) \<Rightarrow> k < length ws \<and> op_has_room opn (impl_of n (ws ! k)))"

definition shares :: "string \<Rightarrow> cache_api \<Rightarrow> bool" where
  "shares n w \<longleftrightarrow> (\<exists>ac. cache_of n w = Some ac \<and> ac_name ac = n \<and> ac_needs_sync ac)"

definition agreeing :: "string \<Rightarrow> cache_api list \<Rightarrow> bool" where
  "agreeing n ws \<longleftrightarrow> distinct (map wk_id ws) \<and> (\<forall>w\<in>set ws. shares n w) \<and>
     (\<forall>w\<in>set ws. \<forall>u\<in>set ws. same_values (impl_of n w) (impl_of n u))"

lemma same_values_sym: "same_values c d \<Longrightarrow> same_values d c"
  by (simp add: same_values_def)

lemma same_values_trans: "same_values c d \<Longrightarrow> same_values d e \<Longrightarrow> same_values c e"
  by (simp add: same_values_def)

lemma message_applied:
  assumes w: "cache_of n w = Some ac" and msg: "sm_cache_name msg = n"
  shows "wk_id (snd (on_broker_msg rx now msg w)) = wk_id w"
    and "cache_of n (snd (on_broker_msg rx now msg w)) =
      Some (if sm_source msg \<noteq> wk_id w \<or> taken_from_self (sm_op msg)
            then ac\<lparr>ac_impl := snd (sync_impl rx now (sm_op msg) (ac_impl ac))\<rparr> else ac)"
  using assms
  by (auto simp: on_broker_msg_def sync_after_def on_impl_def cache_of_def py_run dict_simps
      split: option.splits prod.splits)

lemma changed_worker:
  assumes "map_of (wk_builtin w) n = Some i" "map_of (wk_objects w) i = Some ac"
    and "shared_effect rx now opn (ac_impl ac) = (c', change)"
  shows "cache_of n (snd (run_shared rx now i opn w)) = Some (ac\<lparr>ac_impl := c'\<rparr>)"
    and "wk_id (snd (run_shared rx now i opn w)) = wk_id w"
    and "drop (length (wk_published w)) (wk_published (snd (run_shared rx now i opn w))) = told w ac change"
  using assms run_shared_effect [OF assms(2), of rx now opn] by (simp_all add: cache_of_def dict_simps)

text \<open>Handling its own message once more changes nothing.\<close>

lemma own_message_again:
  assumes c: "lasting c" and change: "shared_effect rx now opn c = (c', Some so)" and self: "taken_from_self so"
    and c': "lasting c'"
  shows "same_values c' (snd (sync_impl rx now so c'))"
proof -
  from self obtain p v x where so: "so = Sync_Set_By (By_Suffix p) v x"
    by (cases so rule: taken_from_self.cases) auto
  with change have opn: "opn = Share_Set_By (By_Suffix p) v" "x = 0"
    by (cases opn; auto simp: effect_of_def split: prod.splits sum.splits if_splits)+
  have run: "effect_of (set_by rx now (By_Suffix p) v 0 True)
      (\<lambda>out. if out = [] then None else Some (Sync_Set_By (By_Suffix p) v 0)) c = (c', Some (Sync_Set_By (By_Suffix p) v 0))"
    using change unfolding opn so by simp
  show ?thesis
  proof (cases rule: set_by_effect [OF c, of rx now "By_Suffix p" v "Sync_Set_By (By_Suffix p) v 0"])
    case (1 c1)
    with run show ?thesis by simp
  next
    case (2 c1)
    then have c1: "c1 = c'" using run by simp
    have "\<forall>key\<in>set (matching_keys rx (By_Suffix p) c'). \<not> bad_item key v c'"
      using 2 c1 too_long_limits [of c c' v] bad_of_matching by (auto simp: matching_keys_def)
    from set_by_view [OF c' 2(2) this, of now False] obtain r d where
      d: "set_by rx now (By_Suffix p) v 0 False c' = (Inr r, d)" "lasting d" "limits d = limits c'"
        "view d = (\<lambda>k. if matching rx (By_Suffix p) k \<and> view c' k \<noteq> None then Some v else view c' k)" by auto
    have "view d = view c'" unfolding d(4) 2(6) [unfolded c1] by auto
    with d c' so opn show ?thesis by (simp add: sync_impl_def same_values_def py_run)
  qed
qed

lemma agreeing_step:
  assumes agree: "agreeing n ws" and ok: "cluster_allowed n e ws"
  shows "agreeing n (snd (cluster_step rx n e ws))"
proof -
  obtain now k opn where e: "e = (now, k, opn)" by (cases e) auto
  let ?w = "ws ! k"
  have k: "k < length ws" and room: "op_has_room opn (impl_of n ?w)" using ok e by (simp_all add: cluster_allowed_def)
  then have "shares n ?w" using agree by (simp add: agreeing_def)
  then obtain i ac where i: "map_of (wk_builtin ?w) n = Some i" "map_of (wk_objects ?w) i = Some ac"
      "ac_name ac = n" "ac_needs_sync ac"
    by (auto simp: shares_def cache_of_def split: option.splits)
  have impl: "impl_of n ?w = ac_impl ac" using i by (simp add: impl_of_def cache_of_def)
  obtain c' change where effect: "shared_effect rx now opn (ac_impl ac) = (c', change)" by fastforce
  let ?w' = "snd (run_shared rx now i opn ?w)"
  note changed = changed_worker [OF i(1,2) effect]
  let ?f = "deliver rx now (told ?w ac change)"
  have step: "snd (cluster_step rx n e ws) = map ?f (ws[k := ?w'])"
    using i(1) e changed(3) by (simp add: cluster_step_def Let_def)
  have taken: "lasting c' \<and> (case change of None \<Rightarrow> same_values c' (impl_of n u) | Some so \<Rightarrow>
      same_values c' (snd (sync_impl rx now so (impl_of n u))))" if "u \<in> set ws" for u
  proof -
    have "same_values (ac_impl ac) (impl_of n u)" using agree that k unfolding impl [symmetric] by (simp add: agreeing_def)
    from change_taken_over [OF this _ effect] room impl show ?thesis by simp
  qed
  have each: "shares n (?f u) \<and> wk_id (?f u) = wk_id (ws ! j) \<and> same_values c' (impl_of n (?f u))"
    if u: "u = ws[k := ?w'] ! j" and j: "j < length ws" for u j
  proof (cases "j = k")
    case True
    have c': "lasting c'" using taken [of ?w] k by simp
    with True u k changed show ?thesis
    proof (cases change)
      case None
      with True u k changed i c' show ?thesis
        by (simp add: deliver_def told_def shares_def impl_of_def same_values_def)
    next
      case (Some so)
      let ?msg = "\<lparr>sm_op = so, sm_cache_name = n, sm_source = wk_id ?w\<rparr>"
      have "same_values (impl_of n ?w) (impl_of n ?w)" using agree k by (simp add: agreeing_def)
      then have c: "lasting (ac_impl ac)" unfolding impl same_values_def by simp
      have "?f u = snd (on_broker_msg rx now ?msg u)" using Some i by (simp add: deliver_def told_def)
      with message_applied [of n u _ ?msg rx now] True u k changed i own_message_again [OF c] effect Some c'
      show ?thesis by (auto simp: shares_def impl_of_def same_values_def)
    qed
  next
    case False
    then have uj: "u = ws ! j" "u \<in> set ws" using u j by auto
    then obtain au where au: "cache_of n u = Some au" "ac_name au = n" "ac_needs_sync au"
      using agree by (auto simp: agreeing_def shares_def)
    have id: "wk_id u \<noteq> wk_id ?w"
      using agree False uj j k by (auto simp: agreeing_def distinct_conv_nth)
    show ?thesis
    proof (cases change)
      case None
      with taken [OF uj(2)] au uj show ?thesis by (simp add: deliver_def told_def shares_def)
    next
      case (Some so)
      let ?msg = "\<lparr>sm_op = so, sm_cache_name = n, sm_source = wk_id ?w\<rparr>"
      have "?f u = snd (on_broker_msg rx now ?msg u)" using Some i by (simp add: deliver_def told_def)
      with message_applied [of n u au ?msg rx now] au id uj taken [OF uj(2)] Some
      show ?thesis by (auto simp: shares_def impl_of_def)
    qed
  qed
  have "map wk_id (map ?f (ws[k := ?w'])) = map wk_id ws"
    using each by (intro nth_equalityI) auto
  moreover have "shares n w \<and> same_values c' (impl_of n w)" if "w \<in> set (map ?f (ws[k := ?w']))" for w
    using that each by (auto simp: in_set_conv_nth)
  ultimately show ?thesis
    using agree unfolding step agreeing_def by (metis same_values_sym same_values_trans)
qed

interpretation cluster: py_object "cluster_step rx n" "cluster_allowed n" "agreeing n" for rx n
  by unfold_locales (rule agreeing_step)

text \<open>
  Claim C15. Workers that share a cache hold the same values in it after any sequence of sets, deletions
  and clearings, of single keys or by pattern, made in any of them, when each message is handled by all
  workers before the next operation starts. Operations by pattern are those that ask for what was found
  (without \<open>return_found\<close>, which is the default, their changes are told to nobody, as
  \<open>change_by_pattern_not_told\<close> shows); no entry expires and no new key meets a full cache.
\<close>

theorem workers_agree:
  assumes "reach (cluster_step rx n) (cluster_allowed n) ws0 ws" and "agreeing n ws0"
    and "w \<in> set ws" "u \<in> set ws"
  shows "view (impl_of n w) key = view (impl_of n u) key"
proof -
  have "same_values (impl_of n w) (impl_of n u)"
    using cluster.reach_inv [OF assms(1,2)] assms(3,4) unfolding agreeing_def by blast
  then show ?thesis by (simp add: same_values_def)
qed

definition demo_api :: "string \<Rightarrow> cache_api" where
  "demo_api me = snd (create_builtin
     \<lparr>cf_name = ''c'', cf_old_name = ''c'', cf_is_default = True, cf_sync = True, cf_cache = demo_config\<rparr> (new_cache_api me))"

definition demo_cluster :: "cache_api list" where
  "demo_cluster = [demo_api ''w1'', demo_api ''w2'']"

lemma demo_api_run:
  "demo_api me =
     \<lparr>wk_id = me, wk_objects = [(0, \<lparr>ac_name = ''c'', ac_needs_sync = True, ac_impl = new_cache demo_config\<rparr>)],
      wk_next = 1, wk_builtin = [(''c'', 0)], wk_memcached = [], wk_default = Some (Builtin 0), wk_published = []\<rparr>"
  by (simp add: demo_api_def create_builtin_def new_cache_api_def maybe_set_default_def py_run)

lemma demo_api_cache: "impl_of ''c'' (demo_api me) = new_cache demo_config" "shares ''c'' (demo_api me)" "wk_id (demo_api me) = me"
  by (simp_all add: demo_api_run impl_of_def cache_of_def shares_def)

lemma demo_cluster_agreeing: "agreeing ''c'' demo_cluster"
proof -
  have "lasting (new_cache demo_config)"
    using new_cache_ok [of demo_config] by (simp add: lasting_def) (simp add: new_cache_def update_config_def empty_cache_def Let_def)
  then show ?thesis by (simp add: agreeing_def demo_cluster_def same_values_def demo_api_cache)
qed

theorem workers_agree_witness:
  "let ws = snd (cluster_step (\<lambda>_. None) ''c'' (1, 0, Share_Set (KStr ''k'') (CInt 7)) demo_cluster)
   in view (impl_of ''c'' (ws ! 0)) (KStr ''k'') = view (impl_of ''c'' (ws ! 1)) (KStr ''k'')"
proof -
  let ?step = "cluster_step (\<lambda>_. None) ''c''" and ?e = "(1, 0, Share_Set (KStr ''k'') (CInt 7))"
  have "has_room key (new_cache demo_config)" for key
    by (simp add: has_room_def new_cache_def update_config_def empty_cache_def demo_config_def)
  then have "cluster_allowed ''c'' ?e demo_cluster"
    by (simp add: cluster_allowed_def demo_cluster_def demo_api_cache)
  then have "reach ?step (cluster_allowed ''c'') demo_cluster (snd (?step ?e demo_cluster))"
    using reach_step [where action = ?step and allowed = "cluster_allowed ''c''" and e = ?e, OF reach_start] by blast
  moreover have "length (snd (?step ?e demo_cluster)) = 2"
    by (simp add: cluster_step_def demo_cluster_def Let_def split: option.split)
  then have "snd (?step ?e demo_cluster) ! 0 \<in> set (snd (?step ?e demo_cluster))"
    "snd (?step ?e demo_cluster) ! 1 \<in> set (snd (?step ?e demo_cluster))" by (auto intro: nth_mem)
  ultimately show ?thesis
    unfolding Let_def using demo_cluster_agreeing by (blast intro: workers_agree)
qed

section \<open>Changes that others do not learn of\<close>

text \<open>A change by pattern that does not ask for what was found returns nothing, and is not told.\<close>

lemma set_keys_returns_nothing: "set_keys now v expiry False keys [] c = (Inr r, c') \<Longrightarrow> r = []"
  by (induction keys arbitrary: c) (auto simp: py_run split: prod.splits sum.splits)

lemma change_by_pattern_not_told:
  "wk_published (snd (api_set_by rx now i m v expiry False w)) = wk_published w"
  "wk_published (snd (api_delete_by rx i m False w)) = wk_published w"
proof -
  have "set_by rx now m v expiry False c = (Inr r, c') \<Longrightarrow> r = []" for c r c'
    by (auto simp: set_by_def on_matching_def py_run set_keys_returns_nothing split: if_splits)
  then show "wk_published (snd (api_set_by rx now i m v expiry False w)) = wk_published w"
    by (fastforce simp: api_set_by_def on_impl_def py_run split: option.splits prod.splits sum.splits)
  have "delete_by rx m False c = (Inr r, c') \<Longrightarrow> r = []" for c r c'
    by (auto simp: delete_by_def on_matching_def py_run split: if_splits prod.splits sum.splits)
  then show "wk_published (snd (api_delete_by rx i m False w)) = wk_published w"
    by (fastforce simp: api_delete_by_def on_impl_def py_run split: option.splits prod.splits sum.splits)
qed

text \<open>Expiring the keys with any of some texts makes others expire those with all of them.\<close>

lemma expire_any_told_as_all:
  assumes "map_of (wk_objects w) i = Some ac" "ac_needs_sync ac"
    and "expire_by rx now (Contains_Any ts) expiry (ac_impl ac) = (Inr True, c')"
  shows "map sm_op (wk_published (snd (api_expire_by rx now i (Contains_Any ts) expiry w))) =
    map sm_op (wk_published w) @ [Sync_Expire_By (Contains_All ts) expiry]"
  using assms by (simp add: api_expire_by_def on_impl_def after_state_changed_def py_run dict_simps)

text \<open>Expiring an unknown key sends a message that nobody can handle.\<close>

lemma expiring_unknown_key:
  assumes "map_of (wk_objects w) i = Some ac" "ac_needs_sync ac" "map_of (ca_data (ac_impl ac)) key = None"
  shows "map sm_op (wk_published (snd (api_expire now i key expiry w))) =
      map sm_op (wk_published w) @ [Sync_Expire key expiry None]"
    and "fst (sync_impl rx now (Sync_Expire key expiry None) c) = Inl AttributeError"
  using assms by (simp_all add: api_expire_def expire_key_def on_impl_def after_state_changed_def sync_impl_def py_run dict_simps)

text \<open>An expiry that is taken away here stays everywhere else.\<close>

lemma removed_expiry_not_taken_over:
  assumes "map_of (ca_data c) key = Some e" "0 \<le> en_expires_at e"
  shows "sync_impl rx now (Sync_Expire key 0 (Some 0)) c = (Inr (), c)"
  using assms by (simp add: sync_impl_def set_expiration_data_def py_run)

text \<open>
  A cache that is renamed goes on telling of its changes under its old name, which no worker knows
  any longer; switching its synchronisation on or off has no effect either.
\<close>

lemma renamed_cache_tells_old_name:
  assumes "map_of (wk_builtin w) (cf_old_name cfg) = Some i" "map_of (wk_objects w) i = Some ac"
  shows "case edit_builtin cfg w of (r, w') \<Rightarrow>
    r = Inr () \<and> cache_of (cf_name cfg) w' = Some (ac\<lparr>ac_impl := update_config (cf_cache cfg) (ac_impl ac)\<rparr>) \<and>
    (cf_old_name cfg \<noteq> cf_name cfg \<longrightarrow>
      on_broker_msg rx now \<lparr>sm_op = change, sm_cache_name = cf_old_name cfg, sm_source = other\<rparr> w' =
        (if other = wk_id w \<and> \<not> taken_from_self change then Inr () else Inl KeyError, w'))"
  using assms
  by (auto simp: edit_builtin_def maybe_set_default_def on_impl_def cache_of_def on_broker_msg_def sync_after_def py_run dict_simps)

text \<open>The connection of a cache in memcached cannot be edited: it is taken out, and then missed.\<close>

lemma memcached_edit_fails:
  "fst (edit_memcached cfg w) = Inl KeyError \<and> map_of (wk_memcached (snd (edit_memcached cfg w))) (cf_old_name cfg) = None"
  by (simp add: edit_memcached_def delete_memcached_def py_run dict_simps split: option.split)

text \<open>A default cache stays the default one when it is deleted.\<close>

lemma deleted_cache_stays_default:
  "wk_default (snd (delete_builtin name w)) = wk_default w"
  by (auto simp: delete_builtin_def api_clear_def on_impl_def after_state_changed_def py_run
      split: option.splits prod.splits sum.splits)

end
