(* ===== verification/Service_Store.thy ===== *)
theory Service_Store
  imports Py_Prelude "HOL-Library.Sublist" "HOL-Library.List_Lexorder" "HOL-Library.Char_ord"
begin

text \<open>
  The services that are deployed on a server (zato-server service/store.py, with what
  service/__init__.py and zato-common util.py add to a class), and the lists of names that are
  allowed (zato-common match.py). The globre library, Paste's \<open>asbool\<close>, the ODB and the hooks of a
  class are functions; the deployment of one object holds a lock.
\<close>

section \<open>Names that are allowed\<close>

text \<open>\<open>nm_items\<close> is the dictionary from answers to patterns.\<close>

record name_matcher =
  nm_items :: "bool \<Rightarrow> string list"
  nm_order :: "(bool \<times> bool) option"
  nm_is_allowed_cache :: "(string, bool) dict"
  nm_special_case :: "bool option"

definition new_matcher :: name_matcher where
  "new_matcher = \<lparr>nm_items = (\<lambda>_. []), nm_order = None, nm_is_allowed_cache = [], nm_special_case = None\<rparr>"

record match_lib =
  ml_globre :: "string \<Rightarrow> string \<Rightarrow> bool"
  ml_asbool :: "string \<Rightarrow> bool option"

definition TRUE_FALSE :: string where "TRUE_FALSE = ''true_false''"

definition read_item :: "match_lib \<Rightarrow> string \<times> string \<Rightarrow> (name_matcher, unit) py" where
  "read_item ml kv =
     (case kv of (key, v) \<Rightarrow>
        if key = ''order'' then py_ret ()
        else py_bind (py_value ValueError (ml_asbool ml v)) (\<lambda>b.
             py_modify (nm_items_update (\<lambda>items. items(b := items b @ [key])))))"

definition find_special_case :: "name_matcher \<Rightarrow> bool option" where
  "find_special_case m =
     (if nm_items m True = [] \<and> ''*'' \<in> set (nm_items m False) then Some False
      else if nm_items m False = [] \<and> ''*'' \<in> set (nm_items m True) then Some True
      else nm_special_case m)"

definition read_config :: "match_lib \<Rightarrow> (string, string) dict \<Rightarrow> (name_matcher, unit) py" where
  "read_config ml config =
     py_seq (py_modify (nm_order_update (\<lambda>_.
       if map_of config ''order'' = Some TRUE_FALSE then Some (True, False) else Some (False, True))))
     (py_seq (py_for config (read_item ml))
     (py_seq (py_modify (nm_items_update (\<lambda>items b. rev (sort (items b)))))
     (py_modify (\<lambda>m. m\<lparr>nm_special_case := find_special_case m\<rparr>))))"

text \<open>Every pattern is tried; the answer of the last one that matches stays.\<close>

definition last_match :: "match_lib \<Rightarrow> string \<Rightarrow> bool \<Rightarrow> string list \<Rightarrow> bool option \<Rightarrow> bool option" where
  "last_match ml v order patterns answer =
     foldl (\<lambda>answer pattern. if ml_globre ml pattern v then Some order else answer) answer patterns"

definition name_allowed :: "match_lib \<Rightarrow> string \<Rightarrow> (name_matcher, bool) py" where
  "name_allowed ml v =
     py_bind (py_get nm_special_case) (\<lambda>special.
     case special of
       Some b \<Rightarrow> py_ret b
     | None \<Rightarrow>
         py_bind (py_get (\<lambda>m. map_of (nm_is_allowed_cache m) v)) (\<lambda>cached.
         case cached of
           Some b \<Rightarrow> py_ret b
         | None \<Rightarrow>
             py_bind (py_get nm_order) (\<lambda>order.
             case order of
               None \<Rightarrow> py_raise KeyError
             | Some (order1, order2) \<Rightarrow>
                 py_bind (py_get (\<lambda>m. last_match ml v order2 (nm_items m order2)
                   (last_match ml v order1 (nm_items m order1) None) = Some True)) (\<lambda>b.
                 py_seq (item_set nm_is_allowed_cache_update v b) (py_ret b)))))"

section \<open>Classes of services\<close>

text \<open>Methods that users may override to be called around a service, in the order of the source.\<close>

datatype hook =
    Accept | Get_Request_Hash | Before_Handle | After_Handle | Finalize_Handle
  | Before_Job | Before_One_Time_Job | Before_Interval_Based_Job | Before_Cron_Style_Job
  | After_Job | After_One_Time_Job | After_Interval_Based_Job | After_Cron_Style_Job

definition before_job_hooks :: "hook list" where
  "before_job_hooks = [Before_Job, Before_One_Time_Job, Before_Interval_Based_Job, Before_Cron_Style_Job]"

definition after_job_hooks :: "hook list" where
  "after_job_hooks = [After_Job, After_One_Time_Job, After_Interval_Based_Job, After_Cron_Style_Job]"

definition hook_methods :: "hook list" where
  "hook_methods =
     [Accept, Get_Request_Hash, Before_Handle, After_Handle, Finalize_Handle] @ before_job_hooks @ after_job_hooks"

text \<open>
  A class as its author wrote it. \<open>uc_bases\<close> are the classes it inherits from, nearest first;
  \<open>uc_methods\<close> the names of its methods, inherited ones included, in the order of \<open>dir\<close>, each with
  the class that defines it. The last two are its hooks around its addition to the store: a
  condition, and something that may raise. A base that overrides a hook overrides it here, too.
\<close>

record user_class =
  uc_name :: string
  uc_impl_name :: string
  uc_bases :: "string list"
  uc_methods :: "(string \<times> string) list"
  uc_overridden :: "hook list"
  uc_invokes :: "string list"
  uc_has_sio :: bool
  uc_dont_deploy :: bool
  uc_before_add :: "exn + bool"
  uc_after_add :: "exn option"

text \<open>The class once its attributes are set up.\<close>

record service_class =
  sc_class :: user_class
  sc_hooks :: "hook list"
  sc_before_job_hooks :: "hook list"
  sc_after_job_hooks :: "hook list"
  sc_enforce_service_invokes :: bool
  sc_req_resp_freq :: int

text \<open>An entry of the store is a dictionary that is filled key by key.\<close>

record service_entry =
  se_name :: "string option"
  se_class :: "service_class option"
  se_is_active :: "bool option"
  se_slow_threshold :: "int option"

text \<open>A method taken from a class: it refuses objects of other classes; and the class that defines it.\<close>

type_synonym unbound_method = "string \<times> string"

text \<open>
  \<open>st_handlers\<close> holds the attribute \<open>http_method_handlers\<close> of the classes that have one of their own;
  the ODB answers each call with an id, whether the service is active, and its threshold.
\<close>

record service_store =
  st_services :: "(string, service_entry) dict"
  st_id_to_impl_name :: "(int, string) dict"
  st_impl_name_to_id :: "(string, int) dict"
  st_name_to_impl_name :: "(string, string) dict"
  st_patterns_matcher :: name_matcher
  st_handlers :: "(string, (string, unbound_method) dict) dict"
  st_deployed :: "string list"
  st_odb_calls :: nat

record store_world =
  ow_match :: match_lib
  ow_add_service :: "nat \<Rightarrow> string \<Rightarrow> exn + int \<times> bool \<times> int"
  ow_enforce_service_invokes :: bool
  ow_req_resp_freq :: "string \<Rightarrow> exn + int"

definition new_store :: "name_matcher \<Rightarrow> service_store" where
  "new_store matcher =
     \<lparr>st_services = [], st_id_to_impl_name = [], st_impl_name_to_id = [], st_name_to_impl_name = [],
      st_patterns_matcher = matcher, st_handlers = [], st_deployed = [], st_odb_calls = 0\<rparr>"

text \<open>The class whose dictionary of handlers a class has: its own or the first that its bases have.\<close>

definition handlers_owner :: "user_class \<Rightarrow> service_store \<Rightarrow> string option" where
  "handlers_owner c s = find (\<lambda>i. dict_has i (st_handlers s)) (uc_impl_name c # uc_bases c)"

definition http_method_handlers :: "user_class \<Rightarrow> service_store \<Rightarrow> (string, unbound_method) dict" where
  "http_method_handlers c s = (case handlers_owner c s of None \<Rightarrow> [] | Some i \<Rightarrow> dict_get i [] (st_handlers s))"

text \<open>\<open>name.replace('handle_', '')\<close>.\<close>

function replace_handle :: "string \<Rightarrow> string" where
  "replace_handle name =
     (if prefix ''handle_'' name then replace_handle (drop (length ''handle_'') name)
      else case name of [] \<Rightarrow> [] | c # cs \<Rightarrow> c # replace_handle cs)"
  by pat_completeness auto
termination
  by (relation "measure length") (auto simp: prefix_def)

declare replace_handle.simps [simp del]

definition add_handler :: "user_class \<Rightarrow> string \<times> string \<Rightarrow> service_store \<Rightarrow> service_store" where
  "add_handler c md s =
     (let s' = (if http_method_handlers c s = [] then st_handlers_update (dict_set (uc_impl_name c) []) s else s)
      in case handlers_owner c s' of
           None \<Rightarrow> s'
         | Some i \<Rightarrow> st_handlers_update (dict_mutate i (dict_set (replace_handle (fst md)) (uc_impl_name c, snd md))) s')"

definition add_http_method_handlers :: "user_class \<Rightarrow> service_store \<Rightarrow> service_store" where
  "add_http_method_handlers c s = fold (add_handler c) (filter (\<lambda>md. prefix ''handle_'' (fst md)) (uc_methods c)) s"

definition set_up_class_attributes :: "store_world \<Rightarrow> user_class \<Rightarrow> (service_store, service_class) py" where
  "set_up_class_attributes w c =
     py_seq (py_modify (add_http_method_handlers c))
     (py_bind (\<lambda>s. (ow_req_resp_freq w (uc_name c), s)) (\<lambda>freq.
      let hooks = filter (\<lambda>h. h \<in> set (uc_overridden c)) hook_methods
      in py_ret \<lparr>sc_class = c, sc_hooks = hooks,
           sc_before_job_hooks = filter (\<lambda>h. h \<in> set before_job_hooks) hooks,
           sc_after_job_hooks = filter (\<lambda>h. h \<in> set after_job_hooks) hooks,
           sc_enforce_service_invokes = ow_enforce_service_invokes w, sc_req_resp_freq = freq\<rparr>))"

section \<open>Deployment\<close>

definition on_entry :: "string \<Rightarrow> (service_entry \<Rightarrow> service_entry) \<Rightarrow> (service_store, unit) py" where
  "on_entry impl_name f =
     py_seq (item_get st_services impl_name) (py_modify (st_services_update (dict_mutate impl_name f)))"

definition add_service :: "store_world \<Rightarrow> string \<Rightarrow> (service_store, int \<times> bool \<times> int) py" where
  "add_service w impl_name =
     py_bind (py_get st_odb_calls) (\<lambda>n.
     py_seq (py_modify (st_odb_calls_update Suc)) (\<lambda>s. (ow_add_service w n impl_name, s)))"

text \<open>What is known of the class may come from the cache of internal services.\<close>

definition visit_class :: "store_world \<Rightarrow> user_class \<Rightarrow> (int \<times> bool \<times> int) option \<Rightarrow> (service_store, unit) py" where
  "visit_class w c known =
     (let impl_name = uc_impl_name c in
      py_bind (set_up_class_attributes w c) (\<lambda>sc.
      py_seq (item_set st_services_update impl_name
        \<lparr>se_name = None, se_class = None, se_is_active = None, se_slow_threshold = None\<rparr>)
      (py_seq (on_entry impl_name (se_name_update (\<lambda>_. Some (uc_name c))))
      (py_seq (on_entry impl_name (se_class_update (\<lambda>_. Some sc)))
      (py_bind (case known of
          Some (i, b, t) \<Rightarrow> if i \<noteq> 0 \<and> t \<noteq> 0 then py_ret (i, b, t) else add_service w impl_name
        | None \<Rightarrow> add_service w impl_name) (\<lambda>(service_id, is_active, slow_threshold).
      py_seq (py_modify (st_deployed_update (\<lambda>ds. ds @ [impl_name])))
      (py_seq (on_entry impl_name (se_is_active_update (\<lambda>_. Some is_active)))
      (py_seq (on_entry impl_name (se_slow_threshold_update (\<lambda>_. Some slow_threshold)))
      (py_seq (item_set st_id_to_impl_name_update service_id impl_name)
      (py_seq (item_set st_impl_name_to_id_update impl_name service_id)
      (py_seq (item_set st_name_to_impl_name_update (uc_name c) impl_name)
      (case uc_after_add c of None \<Rightarrow> py_ret () | Some e \<Rightarrow> py_raise e))))))))))))"

text \<open>What a module holds under a name; \<open>Base_Class\<close> stands for Service and AdminService.\<close>

datatype module_item = Not_A_Class | Other_Class | Base_Class | Service_Class user_class

definition on_patterns_matcher :: "(name_matcher, 'a) py \<Rightarrow> (service_store, 'a) py" where
  "on_patterns_matcher m s = (case m (st_patterns_matcher s) of (r, nm) \<Rightarrow> (r, s\<lparr>st_patterns_matcher := nm\<rparr>))"

definition should_deploy :: "store_world \<Rightarrow> module_item \<Rightarrow> (service_store, bool) py" where
  "should_deploy w item =
     (case item of
        Service_Class c \<Rightarrow>
          if uc_dont_deploy c then py_ret False
          else py_try (on_patterns_matcher (name_allowed (ow_match w) (uc_name c)))
            (\<lambda>e. if e = TypeError then py_ret False else py_raise e)
      | _ \<Rightarrow> py_ret False)"

definition visit_item :: "store_world \<Rightarrow> module_item \<Rightarrow> (service_store, unit) py" where
  "visit_item w item =
     py_bind (should_deploy w item) (\<lambda>ok.
     case item of
       Service_Class c \<Rightarrow>
         py_when ok (py_bind (\<lambda>s. (uc_before_add c, s)) (\<lambda>add. py_when add (visit_class w c None)))
     | _ \<Rightarrow> py_ret ())"

text \<open>Whatever is raised, the names of the classes deployed so far are returned.\<close>

definition visit_module :: "store_world \<Rightarrow> module_item list \<Rightarrow> (service_store, string list) py" where
  "visit_module w items =
     py_bind (py_get (\<lambda>s. length (st_deployed s))) (\<lambda>n.
     py_seq (py_try (py_for items (visit_item w)) (\<lambda>_. py_ret ()))
     (py_get (\<lambda>s. drop n (st_deployed s))))"

text \<open>Importing a file may fail; then nothing is deployed.\<close>

definition import_services_from_file :: "store_world \<Rightarrow> module_item list option \<Rightarrow> (service_store, string list) py" where
  "import_services_from_file w file = (case file of None \<Rightarrow> py_ret [] | Some items \<Rightarrow> visit_module w items)"

fun import_services_from_directory ::
    "store_world \<Rightarrow> module_item list option list \<Rightarrow> (service_store, string list) py" where
  "import_services_from_directory w [] = py_ret []"
| "import_services_from_directory w (file # files) =
     py_bind (import_services_from_file w file) (\<lambda>ds.
     py_bind (import_services_from_directory w files) (\<lambda>es. py_ret (ds @ es)))"

datatype import_source =
    From_Directory "module_item list option list" | From_File "module_item list option"
  | From_Module "exn + module_item list"

fun import_services_from_anywhere :: "store_world \<Rightarrow> import_source list \<Rightarrow> (service_store, string list) py" where
  "import_services_from_anywhere w [] = py_ret []"
| "import_services_from_anywhere w (source # sources) =
     py_bind (case source of
         From_Directory files \<Rightarrow> import_services_from_directory w files
       | From_File file \<Rightarrow> import_services_from_file w file
       | From_Module m \<Rightarrow> py_bind (\<lambda>s. (m, s)) (visit_module w)) (\<lambda>ds.
     py_bind (import_services_from_anywhere w sources) (\<lambda>es. py_ret (ds @ es)))"

section \<open>New instances\<close>

text \<open>An instance is known by its class; whether it is active is returned along.\<close>

definition new_instance :: "string \<Rightarrow> (service_store, service_class \<times> bool) py" where
  "new_instance impl_name =
     py_bind (item_get st_services impl_name) (\<lambda>info.
     py_bind (py_value KeyError (se_class info)) (\<lambda>c.
     py_bind (py_value KeyError (se_is_active info)) (\<lambda>active. py_ret (c, active))))"

definition new_instance_by_id :: "int \<Rightarrow> (service_store, service_class \<times> bool) py" where
  "new_instance_by_id service_id = py_bind (item_get st_id_to_impl_name service_id) new_instance"

definition new_instance_by_name :: "string \<Rightarrow> (service_store, service_class \<times> bool) py" where
  "new_instance_by_name name = py_bind (item_get st_name_to_impl_name name) new_instance"

end
