(* ===== verification/Service_Run.thy ===== *)
theory Service_Run
  imports Service_Store Sio
begin

text \<open>
  The invocation of services (zato-server service/__init__.py, and \<open>on_message_invoke_service\<close> of
  base/worker/__init__.py): hooks, the handler for the verb of a request, the response, its
  statistics, and who may invoke whom. What users' code does is a function of the calls made so far:
  each may raise and change the response. A payload is anything; \<open>rw_is_raw\<close> tells those that are
  responses as they are from the ones that have \<open>getvalue\<close>. Times are whole microseconds.
\<close>

section \<open>One invocation\<close>

datatype channel_type =
    Ch_Http_Soap | Ch_Invoke | Ch_Invoke_Async | Ch_Invoke_Async_Callback | Ch_Scheduler | Ch_Worker
  | Ch_Fanout_Call | Ch_Fanout_On_Target | Ch_Fanout_On_Final | Ch_Parallel_Exec_Call | Ch_Parallel_Exec_On_Target
  | Ch_Other string

datatype service_call = Hook hook | Validate_Input | Validate_Output | Handle | Handle_Method string string

datatype kvdb_cmd =
    Incr string | Hset string string int | Rpush string int | Expire string int | Hmset string
  | Pipeline "kvdb_cmd list" | Store_Slow_Response string

text \<open>\<open>rs_notified\<close> are the greenlets spawned to tell a parallel call's pattern that it has finished.\<close>

record 'p run_state =
  rs_calls :: "service_call list"
  rs_payload :: 'p
  rs_status :: int
  rs_usage :: int
  rs_invocation_time :: "int option"
  rs_processing_time :: "int option"
  rs_kvdb :: "kvdb_cmd list"
  rs_notified :: "(channel_type \<times> 'p \<times> string option) list"

text \<open>
  \<open>rw_prepare\<close> is what reading the payload and filling the request raise, if anything; \<open>rw_kvdb\<close>
  what the last of the commands raises; \<open>rw_minute\<close> the key of the statistics of a minute.
\<close>

record 'p run_world =
  rw_call :: "service_call list \<Rightarrow> 'p \<times> int \<Rightarrow> exn option \<times> 'p \<times> int"
  rw_accept :: "exn + bool"
  rw_is_raw :: "'p \<Rightarrow> bool"
  rw_getvalue :: "bool \<Rightarrow> 'p \<Rightarrow> exn + 'p"
  rw_bunchify :: "'p \<Rightarrow> 'p"
  rw_empty :: 'p
  rw_format_exc :: "exn \<Rightarrow> string"
  rw_prepare :: "exn option"
  rw_kvdb :: "kvdb_cmd list \<Rightarrow> exn option"
  rw_incr :: int
  rw_invoked_at :: int
  rw_returned_at :: int
  rw_minute :: "string \<Rightarrow> int \<Rightarrow> string"
  rw_stats :: bool
  rw_slow_response :: bool

text \<open>An object of a class, with the attributes that come from the store.\<close>

record instance_of =
  io_class :: service_class
  io_handlers :: "(string, unbound_method) dict"
  io_slow_threshold :: int

definition io_user_class :: "instance_of \<Rightarrow> user_class" where
  "io_user_class i = sc_class (io_class i)"

definition has_hook :: "hook \<Rightarrow> instance_of \<Rightarrow> bool" where
  "has_hook h i \<longleftrightarrow> h \<in> set (sc_hooks (io_class i))"

definition UnboundLocalError :: exn where "UnboundLocalError = OtherError ''UnboundLocalError''"

definition user_call :: "'p run_world \<Rightarrow> service_call \<Rightarrow> ('p run_state, unit) py" where
  "user_call w c =
     py_seq (py_modify (rs_calls_update (\<lambda>cs. cs @ [c]))) (\<lambda>s.
     case rw_call w (rs_calls s) (rs_payload s, rs_status s) of
       (e, payload, status) \<Rightarrow>
         (case e of None \<Rightarrow> Inr () | Some e \<Rightarrow> Inl e, s\<lparr>rs_payload := payload, rs_status := status\<rparr>))"

text \<open>A hook whose exceptions are logged.\<close>

definition run_hook :: "'p run_world \<Rightarrow> hook \<Rightarrow> ('p run_state, unit) py" where
  "run_hook w h = py_try (user_call w (Hook h)) (\<lambda>_. py_ret ())"

definition kvdb_run :: "'p run_world \<Rightarrow> kvdb_cmd \<Rightarrow> ('p run_state, unit) py" where
  "kvdb_run w cmd =
     py_seq (py_modify (rs_kvdb_update (\<lambda>cs. cs @ [cmd]))) (\<lambda>s.
     (case rw_kvdb w (rs_kvdb s) of None \<Rightarrow> Inr () | Some e \<Rightarrow> Inl e, s))"

definition METHOD_NOT_ALLOWED :: int where "METHOD_NOT_ALLOWED = 405"
definition BAD_REQUEST :: int where "BAD_REQUEST = 400"

text \<open>The method of a request is known to services invoked over HTTP only.\<close>

definition invoke_handler ::
    "'p run_world \<Rightarrow> instance_of \<Rightarrow> channel_type \<Rightarrow> string option \<Rightarrow> ('p run_state, unit) py" where
  "invoke_handler w i channel http_method =
     (if channel \<in> {Ch_Http_Soap, Ch_Invoke} \<and> io_handlers i \<noteq> []
      then (case (case http_method of None \<Rightarrow> None | Some m \<Rightarrow> map_option (Pair m) (map_of (io_handlers i) m)) of
              None \<Rightarrow> py_modify (rs_status_update (\<lambda>_. METHOD_NOT_ALLOWED))
            | Some (m, im_class, definer) \<Rightarrow>
                if im_class \<in> set (uc_impl_name (io_user_class i) # uc_bases (io_user_class i))
                then user_call w (Handle_Method m definer) else py_raise TypeError)
      else user_call w Handle)"

text \<open>Milliseconds; what takes at most one counts as nothing.\<close>

definition processing_time :: "int \<Rightarrow> int" where
  "processing_time us = (if us > 1000 then (us + 500) div 1000 else 0)"

definition getvalue_for_log :: "'p run_world \<Rightarrow> ('p run_state, unit) py" where
  "getvalue_for_log w =
     py_bind (py_get rs_payload) (\<lambda>p.
     if rw_is_raw w p then py_ret ()
     else case rw_getvalue w True p of Inl e \<Rightarrow> py_raise e | Inr _ \<Rightarrow> py_ret ())"

text \<open>The key under which a sample is stored is the local variable of the statistics' block.\<close>

definition post_handle :: "'p run_world \<Rightarrow> instance_of \<Rightarrow> ('p run_state, unit) py" where
  "post_handle w i =
     (let name = uc_name (io_user_class i); key = rw_minute w name (rw_returned_at w); freq = sc_req_resp_freq (io_class i) in
      py_seq (py_when (rw_stats w)
        (py_bind (py_get (\<lambda>s. processing_time (rw_returned_at w - (case rs_invocation_time s of None \<Rightarrow> 0 | Some t \<Rightarrow> t)))) (\<lambda>ms.
         py_seq (py_modify (rs_processing_time_update (\<lambda>_. Some ms)))
         (kvdb_run w (Pipeline
           [Hset (''zato:stats:service:time:basic:'' @ name) ''last'' ms, Rpush (''zato:stats:service:time:raw:'' @ name) ms, Rpush key ms, Expire key 300])))))
      (py_bind (py_get rs_usage) (\<lambda>usage.
       py_seq (py_when (freq \<noteq> 0 \<and> usage mod freq = 0)
         (py_seq (getvalue_for_log w) (if rw_stats w then kvdb_run w (Hmset key) else py_raise UnboundLocalError)))
       (py_bind (py_get rs_processing_time) (\<lambda>ms.
        py_when (rw_slow_response w \<and> (case ms of None \<Rightarrow> False | Some n \<Rightarrow> n > io_slow_threshold i))
          (py_seq (getvalue_for_log w) (kvdb_run w (Store_Slow_Response name))))))))"

text \<open>Everything from the first hook to the last.\<close>

definition run_service ::
    "'p run_world \<Rightarrow> channel_type \<Rightarrow> instance_of \<Rightarrow> channel_type \<Rightarrow> string option \<Rightarrow> ('p run_state, unit) py" where
  "run_service w self_channel i channel http_method =
     py_seq (py_when (rw_stats w)
       (py_seq (kvdb_run w (Incr (''zato:stats:service:usage:'' @ uc_name (io_user_class i)))) (py_modify (rs_usage_update (\<lambda>_. rw_incr w)))))
     (py_seq (py_modify (rs_invocation_time_update (\<lambda>_. Some (rw_invoked_at w))))
     (py_seq (py_when (self_channel = Ch_Scheduler) (py_for (sc_before_job_hooks (io_class i)) (run_hook w)))
     (py_seq (py_when (has_hook Before_Handle i) (run_hook w Before_Handle))
     (py_seq (user_call w Validate_Input)
     (py_seq (invoke_handler w i channel http_method)
     (py_seq (user_call w Validate_Output)
     (py_seq (py_when (has_hook After_Handle i) (run_hook w After_Handle))
     (py_seq (py_when (self_channel = Ch_Scheduler) (py_for (sc_after_job_hooks (io_class i)) (run_hook w)))
     (py_seq (post_handle w i)
     (py_when (has_hook Finalize_Handle i) (run_hook w Finalize_Handle)))))))))))"

text \<open>
  \<open>self\<close>, whose method \<open>update_handle\<close> is, and the service that it runs are the same object when a
  message invokes the service; otherwise \<open>self\<close> is the service that invokes.
\<close>

record invoking_self =
  is_class :: service_class
  is_channel :: channel_type
  is_patterns_enabled :: bool

datatype 'p handled = Response_Payload 'p | Response_Object | No_Response

definition notify_pattern :: "'p run_world \<Rightarrow> invoking_self \<Rightarrow> channel_type \<Rightarrow> exn option \<Rightarrow> ('p run_state, unit) py" where
  "notify_pattern w self channel e =
     py_when (channel \<in> {Ch_Fanout_Call, Ch_Parallel_Exec_Call})
       (if is_patterns_enabled self
        then py_modify (\<lambda>s. s\<lparr>rs_notified := rs_notified s @ [(channel, rs_payload s, map_option (rw_format_exc w) e)]\<rparr>)
        else py_raise AttributeError)"

text \<open>What is raised when there is no response, after an earlier exception or without one.\<close>

definition no_response :: "'p run_world \<Rightarrow> exn option \<Rightarrow> exn \<Rightarrow> exn" where
  "no_response w e resp_e =
     (case e of None \<Rightarrow> resp_e | Some e \<Rightarrow> if reportable e then e else OtherError (rw_format_exc w e))"

definition respond ::
    "'p run_world \<Rightarrow> ('p run_state, 'p) py \<Rightarrow> invoking_self \<Rightarrow> channel_type \<Rightarrow> exn option \<Rightarrow> ('p run_state, 'p handled) py" where
  "respond w set_response self channel e s =
     (case py_bind set_response (\<lambda>r. py_seq (notify_pattern w self channel e) (py_ret r)) s of
        (Inl resp_e, t) \<Rightarrow> (Inl (no_response w e resp_e), t)
      | (Inr r, t) \<Rightarrow> (case e of None \<Rightarrow> (Inr (Response_Payload r), t) | Some e \<Rightarrow> (Inl e, t)))"

definition accepts_call :: "'p run_world \<Rightarrow> service_class \<Rightarrow> instance_of \<Rightarrow> ('p run_state, bool) py" where
  "accepts_call w self_class i =
     (if Accept \<notin> set (sc_hooks self_class) then py_ret True
      else if has_hook Accept i
      then py_seq (py_modify (rs_calls_update (\<lambda>cs. cs @ [Hook Accept]))) (\<lambda>s. (rw_accept w, s))
      else py_raise TypeError)"

definition update_handle ::
    "'p run_world \<Rightarrow> ('p run_state, 'p) py \<Rightarrow> invoking_self \<Rightarrow> instance_of \<Rightarrow> channel_type \<Rightarrow> string option \<Rightarrow>
     ('p run_state, 'p handled) py" where
  "update_handle w set_response self i channel request_method =
     py_seq (case rw_prepare w of None \<Rightarrow> py_ret () | Some e \<Rightarrow> py_raise e)
     (py_bind (accepts_call w (is_class self) i) (\<lambda>ok.
      if ok then (\<lambda>s.
        case run_service w (is_channel self) i channel (if channel = Ch_Http_Soap then request_method else None) s of
          (Inl e, t) \<Rightarrow> respond w set_response self channel (Some e) t
        | (Inr _, t) \<Rightarrow> respond w set_response self channel None t)
      else py_seq (py_modify (\<lambda>s. s\<lparr>rs_payload := rw_empty w, rs_status := BAD_REQUEST\<rparr>)) (py_ret Response_Object)))"

definition set_response_data :: "'p run_world \<Rightarrow> bool \<Rightarrow> bool \<Rightarrow> ('p run_state, 'p) py" where
  "set_response_data w serialize as_bunch =
     py_bind (py_get rs_payload) (\<lambda>p.
     if rw_is_raw w p then py_ret p
     else case rw_getvalue w serialize p of
       Inl e \<Rightarrow> py_raise e
     | Inr v \<Rightarrow>
         let v = (if as_bunch then rw_bunchify w v else v)
         in py_seq (py_modify (rs_payload_update (\<lambda>_. v))) (py_ret v))"

text \<open>The worker's own version, which returns nothing.\<close>

definition set_service_response_data :: "'p run_world \<Rightarrow> bool \<Rightarrow> ('p run_state, 'p) py" where
  "set_service_response_data w serialize = py_seq (set_response_data w serialize False) (py_get rs_payload)"

definition new_run :: "'p \<Rightarrow> 'p run_state" where
  "new_run payload =
     \<lparr>rs_calls = [], rs_payload = payload, rs_status = 200, rs_usage = 0, rs_invocation_time = None,
      rs_processing_time = None, rs_kvdb = [], rs_notified = []\<rparr>"

end
