(* ===== verification/Service_Invoke.thy ===== *)
theory Service_Invoke
  imports Service_Run
begin

text \<open>
  How a service is found and invoked: by other services, synchronously or through the broker
  (zato-server service/__init__.py), and by messages (\<open>on_message_invoke_service\<close> of
  base/worker/__init__.py). The flags of messages that were processed are in a database that all
  workers of a server share.
\<close>

section \<open>State\<close>

text \<open>What users set for a message travels in its context.\<close>

record msg_ctx =
  mx_target :: string
  mx_fanout_cid :: "string option"
  mx_parallel_exec_cid :: "string option"

datatype 'p msg_payload = Given_Payload 'p | Json_Text 'p

record 'p service_msg =
  ms_service :: string
  ms_payload :: "'p msg_payload"
  ms_cid :: string
  ms_channel :: channel_type
  ms_is_async :: bool
  ms_callback :: "string option"
  ms_ctx :: msg_ctx
  ms_in_reply_to :: "string option"

text \<open>
  \<open>ex_published\<close> went to all servers, \<open>ex_async\<close> to one of them; \<open>ex_processed\<close> has the time, in
  seconds, at which the flag of a processed message expires.
\<close>

record 'p service_exec =
  ex_store :: service_store
  ex_target_matcher :: name_matcher
  ex_invoke_matcher :: name_matcher
  ex_run :: "'p run_state"
  ex_ran :: "(string \<times> channel_type) list"
  ex_published :: "'p service_msg list"
  ex_async :: "'p service_msg list"
  ex_now :: int
  ex_processed :: "(string, int) dict"
  ex_new_cids :: nat

record exec_config =
  xc_match :: match_lib
  xc_target_matcher :: bool
  xc_invoke_matcher :: bool
  xc_patterns :: bool
  xc_new_cid :: "nat \<Rightarrow> string"

text \<open>The service that invokes another one.\<close>

record caller =
  cl_class :: service_class
  cl_channel :: channel_type
  cl_cid :: string

definition cl_name :: "caller \<Rightarrow> string" where "cl_name c = uc_name (sc_class (cl_class c))"
definition cl_impl_name :: "caller \<Rightarrow> string" where "cl_impl_name c = uc_impl_name (sc_class (cl_class c))"

definition ZatoError :: exn where "ZatoError = OtherError ''ZatoException''"
definition Inactive :: exn where "Inactive = OtherError ''Inactive''"
definition Timeout :: exn where "Timeout = OtherError ''Timeout''"

definition on_store :: "(service_store, 'a) py \<Rightarrow> ('p service_exec, 'a) py" where
  "on_store m s = (case m (ex_store s) of (r, t) \<Rightarrow> (r, s\<lparr>ex_store := t\<rparr>))"

definition on_target_matcher :: "(name_matcher, 'a) py \<Rightarrow> ('p service_exec, 'a) py" where
  "on_target_matcher m s = (case m (ex_target_matcher s) of (r, t) \<Rightarrow> (r, s\<lparr>ex_target_matcher := t\<rparr>))"

definition on_invoke_matcher :: "(name_matcher, 'a) py \<Rightarrow> ('p service_exec, 'a) py" where
  "on_invoke_matcher m s = (case m (ex_invoke_matcher s) of (r, t) \<Rightarrow> (r, s\<lparr>ex_invoke_matcher := t\<rparr>))"

text \<open>The run of a service, with a note of what ran on which channel.\<close>

definition on_run :: "string \<Rightarrow> channel_type \<Rightarrow> ('p run_state, 'a) py \<Rightarrow> ('p service_exec, 'a) py" where
  "on_run impl_name channel m s =
     (case m (ex_run s) of (r, t) \<Rightarrow> (r, s\<lparr>ex_run := t, ex_ran := ex_ran s @ [(impl_name, channel)]\<rparr>))"

definition new_cid_of :: "exec_config \<Rightarrow> ('p service_exec, string) py" where
  "new_cid_of xc = py_bind (py_get ex_new_cids) (\<lambda>n. py_seq (py_modify (ex_new_cids_update Suc)) (py_ret (xc_new_cid xc n)))"

text \<open>An object of a deployed class.\<close>

definition make_instance :: "service_class \<Rightarrow> ('p service_exec, instance_of) py" where
  "make_instance c =
     py_bind (on_store (item_get st_services (uc_impl_name (sc_class c)))) (\<lambda>entry.
     py_bind (py_value KeyError (se_slow_threshold entry)) (\<lambda>threshold.
     py_get (\<lambda>s. \<lparr>io_class = c, io_handlers = http_method_handlers (sc_class c) (ex_store s), io_slow_threshold = threshold\<rparr>)))"

section \<open>Synchronous invocation\<close>

text \<open>The parts of a text between the separators; two are expected where there is an \<open>@\<close>.\<close>

fun split_at :: "string \<Rightarrow> string \<times> string list" where
  "split_at [] = ([], [])"
| "split_at (c # cs) = (case split_at cs of (part, parts) \<Rightarrow> if c = CHR ''@'' then ([], part # parts) else (c # part, parts))"

definition extract_target :: "string \<Rightarrow> exn + string \<times> string" where
  "extract_target name =
     (case split_at name of
        (part, []) \<Rightarrow> Inr (part, [])
      | (part, [target]) \<Rightarrow> if target = [] then Inl ZatoError else Inr (part, target)
      | (part, _ # _ # _) \<Rightarrow> Inl ValueError)"

text \<open>A time limit: the greenlet finishes in time, or it is killed and leaves something behind.\<close>

datatype 's time_limit = No_Limit | In_Time | Too_Late "'s \<Rightarrow> 's"

text \<open>
  \<open>target\<close> is what \<open>invoke\<close> or \<open>invoke_by_id\<close> found out. The cid and the function that sets the
  response may come from users; the default is that of the service invoked.
\<close>

definition invoke_by_impl_name ::
    "exec_config \<Rightarrow> 'p run_world \<Rightarrow> caller \<Rightarrow> string \<Rightarrow> string \<Rightarrow> channel_type \<Rightarrow> bool \<Rightarrow> bool \<Rightarrow> 'p run_state time_limit \<Rightarrow> bool \<Rightarrow>
     ('p service_exec, 'p handled) py" where
  "invoke_by_impl_name xc w c impl_name target channel serialize as_bunch limit raise_timeout =
     py_bind (if xc_target_matcher xc
        then py_bind (py_sum (extract_target impl_name)) (\<lambda>(impl_name, given).
             py_bind (on_target_matcher (name_allowed (xc_match xc) (if given \<noteq> [] then given else target))) (\<lambda>ok.
             if ok then py_ret impl_name else py_raise ZatoError))
        else py_ret impl_name) (\<lambda>impl_name.
     py_seq (py_when (xc_invoke_matcher xc)
        (py_bind (on_invoke_matcher (name_allowed (xc_match xc) impl_name)) (\<lambda>ok. if ok then py_ret () else py_raise ZatoError)))
     (py_seq (py_when (cl_impl_name c = impl_name) (py_raise ZatoError))
     (py_bind (on_store (new_instance impl_name)) (\<lambda>(sc, is_active).
     if \<not> is_active then py_raise Inactive
     else
       py_bind (make_instance sc) (\<lambda>i.
       let self = \<lparr>is_class = cl_class c, is_channel = cl_channel c, is_patterns_enabled = xc_patterns xc\<rparr>;
           run = update_handle w (set_response_data w serialize as_bunch) self i channel None
       in case limit of
            Too_Late left \<Rightarrow>
              py_seq (on_run impl_name channel (py_modify left)) (if raise_timeout then py_raise Timeout else py_ret No_Response)
          | _ \<Rightarrow> on_run impl_name channel run)))))"

definition invoke_checks :: "exec_config \<Rightarrow> caller \<Rightarrow> string \<Rightarrow> ('p service_exec, string \<times> string) py" where
  "invoke_checks xc c name =
     py_bind (if xc_target_matcher xc then py_sum (extract_target name) else py_ret (name, [])) (\<lambda>(name, target).
     py_seq (py_when (sc_enforce_service_invokes (cl_class c) \<and> uc_invokes (sc_class (cl_class c)) \<noteq> [] \<and>
         name \<notin> set (uc_invokes (sc_class (cl_class c)))) (py_raise ValueError))
     (py_ret (name, target)))"

definition service_invoke ::
    "exec_config \<Rightarrow> 'p run_world \<Rightarrow> caller \<Rightarrow> string \<Rightarrow> channel_type \<Rightarrow> bool \<Rightarrow> bool \<Rightarrow> 'p run_state time_limit \<Rightarrow> bool \<Rightarrow>
     ('p service_exec, 'p handled) py" where
  "service_invoke xc w c name channel serialize as_bunch limit raise_timeout =
     py_bind (invoke_checks xc c name) (\<lambda>(name, target).
     py_bind (on_store (item_get st_name_to_impl_name name)) (\<lambda>impl_name.
     invoke_by_impl_name xc w c impl_name target channel serialize as_bunch limit raise_timeout))"

text \<open>Ids are numbers, in which no separator can be looked for.\<close>

definition service_invoke_by_id ::
    "exec_config \<Rightarrow> 'p run_world \<Rightarrow> caller \<Rightarrow> int \<Rightarrow> channel_type \<Rightarrow> bool \<Rightarrow> bool \<Rightarrow> 'p run_state time_limit \<Rightarrow> bool \<Rightarrow>
     ('p service_exec, 'p handled) py" where
  "service_invoke_by_id xc w c service_id channel serialize as_bunch limit raise_timeout =
     (if xc_target_matcher xc then py_raise TypeError
      else py_bind (on_store (item_get st_id_to_impl_name service_id)) (\<lambda>impl_name.
        invoke_by_impl_name xc w c impl_name [] channel serialize as_bunch limit raise_timeout))"

section \<open>Asynchronous invocation\<close>

text \<open>A callback: the service itself, another one by its name, or none.\<close>

datatype async_callback = No_Callback | Call_Self | Callback_Name string

definition callback_name :: "service_store \<Rightarrow> caller \<Rightarrow> async_callback \<Rightarrow> string option" where
  "callback_name st c callback =
     (let sink = cl_name c @ ''-async-callback''; sink = (if dict_has sink (st_name_to_impl_name st) then Some sink else None)
      in case callback of
           Call_Self \<Rightarrow> Some (cl_name c)
         | Callback_Name n \<Rightarrow> if n = [] then sink else Some n
         | No_Callback \<Rightarrow> sink)"

text \<open>The variable \<open>target\<close> is only set where targets are enabled.\<close>

definition invoke_async ::
    "exec_config \<Rightarrow> caller \<Rightarrow> string \<Rightarrow> 'p \<Rightarrow> channel_type \<Rightarrow> bool \<Rightarrow> string option \<Rightarrow> async_callback \<Rightarrow> msg_ctx \<Rightarrow>
     ('p service_exec, string) py" where
  "invoke_async xc c name payload channel to_json_string cid callback ctx =
     py_bind (if xc_target_matcher xc then py_sum (extract_target name) else py_ret (name, [])) (\<lambda>(name, target).
     let ctx = (if xc_target_matcher xc then ctx\<lparr>mx_target := target\<rparr> else ctx) in
     py_bind (on_store (item_get st_name_to_impl_name name)) (\<lambda>impl_name.
     py_seq (py_when (xc_invoke_matcher xc)
        (py_bind (on_invoke_matcher (name_allowed (xc_match xc) impl_name)) (\<lambda>ok. if ok then py_ret () else py_raise ZatoError)))
     (py_bind (case cid of Some cid \<Rightarrow> if cid \<noteq> [] then py_ret cid else new_cid_of xc | None \<Rightarrow> new_cid_of xc) (\<lambda>cid.
     py_bind (py_get (\<lambda>s.
       \<lparr>ms_service = name, ms_payload = (if to_json_string then Json_Text payload else Given_Payload payload), ms_cid = cid,
        ms_channel = channel, ms_is_async = True, ms_callback = callback_name (ex_store s) c callback, ms_ctx = ctx,
        ms_in_reply_to = None\<rparr>)) (\<lambda>msg.
     if \<not> xc_target_matcher xc then py_raise UnboundLocalError
     else py_seq (if target \<noteq> [] then py_modify (ex_published_update (\<lambda>ms. ms @ [msg]))
                  else py_modify (ex_async_update (\<lambda>ms. ms @ [msg])))
          (py_ret cid))))))"

section \<open>Messages\<close>

text \<open>
  Whether a message to a target is for this worker: it is flagged by the first to come, for five minutes.
\<close>

definition takes_message :: "exec_config \<Rightarrow> 'p service_msg \<Rightarrow> ('p service_exec, bool) py" where
  "takes_message xc msg =
     (if mx_target (ms_ctx msg) = [] then py_ret True
      else py_bind (on_target_matcher (name_allowed (xc_match xc) (mx_target (ms_ctx msg)))) (\<lambda>ok.
        if \<not> ok then py_ret False
        else py_bind (py_get (\<lambda>s. case map_of (ex_processed s) (ms_cid msg) of None \<Rightarrow> False | Some t \<Rightarrow> ex_now s < t)) (\<lambda>processed.
          if processed then py_ret False
          else py_seq (py_modify (\<lambda>s. ex_processed_update (dict_set (ms_cid msg) (ex_now s + 300)) s)) (py_ret True))))"

text \<open>Payloads of callbacks are read as JSON, so they have to be such texts.\<close>

definition read_payload :: "'p service_msg \<Rightarrow> exn + 'p" where
  "read_payload msg =
     (if ms_channel msg \<in> {Ch_Fanout_On_Target, Ch_Fanout_On_Final, Ch_Parallel_Exec_On_Target}
      then (case ms_payload msg of Json_Text p \<Rightarrow> Inr p | Given_Payload p \<Rightarrow> Inl ValueError)
      else Inr (case ms_payload msg of Json_Text p \<Rightarrow> p | Given_Payload p \<Rightarrow> p))"

definition send_callback :: "exec_config \<Rightarrow> 'p service_msg \<Rightarrow> ('p service_exec, unit) py" where
  "send_callback xc msg =
     (case ms_callback msg of
        Some cb \<Rightarrow>
          py_when (ms_is_async msg \<and> cb \<noteq> [])
            (py_bind (new_cid_of xc) (\<lambda>cid.
             py_modify (\<lambda>s. s\<lparr>ex_async := ex_async s @
               [\<lparr>ms_service = cb, ms_payload = Given_Payload (rs_payload (ex_run s)), ms_cid = cid, ms_channel = Ch_Invoke_Async_Callback,
                 ms_is_async = True, ms_callback = None,
                 ms_ctx = \<lparr>mx_target = [], mx_fanout_cid = None, mx_parallel_exec_cid = None\<rparr>,
                 ms_in_reply_to = Some (ms_cid msg)\<rparr>]\<rparr>)))
      | None \<Rightarrow> py_ret ())"

definition on_message_invoke_service ::
    "exec_config \<Rightarrow> 'p run_world \<Rightarrow> 'p service_msg \<Rightarrow> channel_type \<Rightarrow> bool \<Rightarrow> ('p service_exec, 'p option) py" where
  "on_message_invoke_service xc w msg channel needs_response =
     py_bind (takes_message xc msg) (\<lambda>takes.
     if \<not> takes then py_ret None
     else
       py_bind (py_sum (read_payload msg)) (\<lambda>_.
       py_bind (on_store (new_instance_by_name (ms_service msg))) (\<lambda>(sc, is_active).
       if \<not> is_active then py_raise (OtherError ''Exception'')
       else
         py_bind (make_instance sc) (\<lambda>i.
         let self = \<lparr>is_class = sc, is_channel = channel, is_patterns_enabled = xc_patterns xc\<rparr> in
         py_seq (on_run (uc_impl_name (sc_class sc)) channel
           (update_handle w (set_service_response_data w True) self i channel None))
         (py_seq (send_callback xc msg)
         (if needs_response then py_get (\<lambda>s. Some (rs_payload (ex_run s))) else py_ret None))))))"

end
