(* ===== verification/Service_Facts.thy ===== *)
theory Service_Facts
  imports Service_Invoke
begin

text \<open>
  What the invocation of services guarantees: the calls of users' code come in their order and stop
  at the first exception that counts, parallel calls report, and one service runs another one
  only as far as the configuration allows.
\<close>

section \<open>Allowed names\<close>

text \<open>What the patterns say, with neither cache nor order within the patterns.\<close>

definition allowed_by :: "match_lib \<Rightarrow> name_matcher \<Rightarrow> string \<Rightarrow> bool" where
  "allowed_by ml m v =
     (let matches = (\<lambda>b. list_ex (\<lambda>pattern. ml_globre ml pattern v) (nm_items m b)) in
      case nm_special_case m of
        Some b \<Rightarrow> b
      | None \<Rightarrow> (case nm_order m of
          None \<Rightarrow> False
        | Some (order1, order2) \<Rightarrow> if matches order2 then order2 else matches order1 \<and> order1))"

definition matcher_ok :: "match_lib \<Rightarrow> name_matcher \<Rightarrow> bool" where
  "matcher_ok ml m \<longleftrightarrow> nm_order m \<noteq> None \<and> (\<forall>v b. map_of (nm_is_allowed_cache m) v = Some b \<longrightarrow> b = allowed_by ml m v)"

text \<open>Everything but the cache.\<close>

definition same_rules :: "name_matcher \<Rightarrow> name_matcher \<Rightarrow> bool" where
  "same_rules m n \<longleftrightarrow> nm_items m = nm_items n \<and> nm_order m = nm_order n \<and> nm_special_case m = nm_special_case n"

lemma allowed_by_rules: "same_rules m n \<Longrightarrow> allowed_by ml m v = allowed_by ml n v"
  by (auto simp: same_rules_def allowed_by_def split: option.split)

lemma last_match_eq:
  "last_match ml v b patterns answer = (if list_ex (\<lambda>pattern. ml_globre ml pattern v) patterns then Some b else answer)"
  unfolding last_match_def by (induction patterns arbitrary: answer) auto

lemma matcher_run:
  assumes ok: "matcher_ok ml m"
  shows "\<exists>n. name_allowed ml v m = (Inr (allowed_by ml m v), n) \<and> same_rules n m \<and> matcher_ok ml n"
proof (cases "nm_special_case m")
  case (Some b)
  with ok show ?thesis by (simp add: name_allowed_def py_run allowed_by_def same_rules_def)
next
  case special: None
  obtain o1 o2 where order: "nm_order m = Some (o1, o2)" using ok by (auto simp: matcher_ok_def)
  show ?thesis
  proof (cases "map_of (nm_is_allowed_cache m) v")
    case (Some b)
    with ok special show ?thesis by (auto simp: name_allowed_def py_run matcher_ok_def same_rules_def)
  next
    case None
    let ?n = "nm_is_allowed_cache_update (dict_set v (allowed_by ml m v)) m"
    have eq: "(last_match ml v o2 (nm_items m o2) (last_match ml v o1 (nm_items m o1) None) = Some True) = allowed_by ml m v"
      using special order by (simp add: last_match_eq allowed_by_def)
    have rules: "same_rules ?n m" by (simp add: same_rules_def)
    moreover have "matcher_ok ml ?n"
      using ok allowed_by_rules [OF rules] unfolding matcher_ok_def by (auto simp: dict_simps)
    moreover have "name_allowed ml v m = (Inr (allowed_by ml m v), ?n)"
      using special order None eq by (simp add: name_allowed_def py_run)
    ultimately show ?thesis by blast
  qed
qed

text \<open>Reading a configuration for the first time.\<close>

lemma read_item_run:
  "k \<noteq> ''order'' \<Longrightarrow> ml_asbool ml v = Some b \<Longrightarrow>
   read_item ml (k, v) m = (Inr (), nm_items_update (\<lambda>items. items(b := items b @ [k])) m)"
  by (simp add: read_item_def py_run)

lemma read_items_run:
  assumes "py_for items (read_item ml) m = (Inr (), n)"
  shows "nm_order n = nm_order m \<and> nm_special_case n = nm_special_case m \<and> nm_is_allowed_cache n = nm_is_allowed_cache m \<and>
    nm_items n = (\<lambda>b. nm_items m b @ map fst (filter (\<lambda>(k, v). k \<noteq> ''order'' \<and> ml_asbool ml v = Some b) items))"
  using assms
proof (induction items arbitrary: m)
  case (Cons kv items)
  obtain k v where kv: "kv = (k, v)" by fastforce
  show ?case
  proof (cases "k = ''order''")
    case True
    with Cons kv show ?thesis by (simp add: read_item_def py_run)
  next
    case False
    then obtain b where b: "ml_asbool ml v = Some b"
      using Cons.prems kv by (auto simp: read_item_def py_run split: option.splits)
    let ?m = "nm_items_update (\<lambda>items. items(b := items b @ [k])) m"
    have "py_for items (read_item ml) ?m = (Inr (), n)"
      using Cons.prems False kv by (simp add: read_item_run [OF False b] py_seq_def)
    note IH = Cons.IH [OF this]
    have "nm_items n = (\<lambda>c. nm_items m c @ map fst (filter (\<lambda>(k, v). k \<noteq> ''order'' \<and> ml_asbool ml v = Some c) (kv # items)))"
      using conjunct2 [OF conjunct2 [OF conjunct2 [OF IH]]] b False kv by (simp add: fun_eq_iff)
    with IH show ?thesis by simp
  qed
qed (simp add: py_run)

lemma read_config_new:
  assumes "read_config ml config new_matcher = (Inr (), m)"
  shows "matcher_ok ml m \<and>
    nm_order m = Some (if map_of config ''order'' = Some TRUE_FALSE then (True, False) else (False, True)) \<and>
    (\<forall>b. set (nm_items m b) = {k. \<exists>v. (k, v) \<in> set config \<and> k \<noteq> ''order'' \<and> ml_asbool ml v = Some b})"
proof -
  obtain n where n: "py_for config (read_item ml)
      (nm_order_update (\<lambda>_. if map_of config ''order'' = Some TRUE_FALSE then Some (True, False) else Some (False, True)) new_matcher) = (Inr (), n)"
    and m: "m = (nm_items_update (\<lambda>items b. rev (sort (items b))) n)\<lparr>nm_special_case :=
        find_special_case (nm_items_update (\<lambda>items b. rev (sort (items b))) n)\<rparr>"
    using assms by (auto simp: read_config_def py_run split: prod.splits sum.splits)
  note items = read_items_run [OF n]
  have "set (nm_items m b) = {k. \<exists>v. (k, v) \<in> set config \<and> k \<noteq> ''order'' \<and> ml_asbool ml v = Some b}" for b
    using items unfolding m by (force simp: new_matcher_def)
  with items show ?thesis unfolding m by (auto simp: matcher_ok_def new_matcher_def ex_bool_eq)
qed

primrec ask_all :: "match_lib \<Rightarrow> string list \<Rightarrow> (name_matcher, bool list) py" where
  "ask_all ml [] = py_ret []"
| "ask_all ml (v # vs) = py_bind (name_allowed ml v) (\<lambda>b. py_bind (ask_all ml vs) (\<lambda>bs. py_ret (b # bs)))"

lemma ask_all_run:
  "matcher_ok ml m \<Longrightarrow> \<exists>n. ask_all ml vs m = (Inr (map (allowed_by ml m) vs), n)"
proof (induction vs arbitrary: m)
  case (Cons v vs)
  obtain n where n: "name_allowed ml v m = (Inr (allowed_by ml m v), n)" "same_rules n m" "matcher_ok ml n"
    using matcher_run [OF Cons.prems] by blast
  then have "map (allowed_by ml n) vs = map (allowed_by ml m) vs" using allowed_by_rules by simp
  with n Cons.IH [of n] show ?case by (auto simp: py_run)
qed (simp add: py_run)

text \<open>The rules, read off the configuration: the patterns that say yes or no, and which of the two counts.\<close>

definition patterns_of :: "match_lib \<Rightarrow> (string, string) dict \<Rightarrow> bool \<Rightarrow> string list" where
  "patterns_of ml config b = map fst (filter (\<lambda>(k, t). k \<noteq> ''order'' \<and> ml_asbool ml t = Some b) config)"

definition by_rules :: "match_lib \<Rightarrow> (string, string) dict \<Rightarrow> string \<Rightarrow> bool" where
  "by_rules ml config v =
     (let allow = patterns_of ml config True; forbid = patterns_of ml config False;
          matches = list_ex (\<lambda>pattern. ml_globre ml pattern v) in
      if allow = [] \<and> ''*'' \<in> set forbid then False
      else if forbid = [] \<and> ''*'' \<in> set allow then True
      else if map_of config ''order'' = Some TRUE_FALSE then matches allow \<and> \<not> matches forbid
      else matches allow)"

lemma read_config_rules:
  assumes "read_config ml config new_matcher = (Inr (), m)"
  shows "allowed_by ml m v = by_rules ml config v"
proof -
  obtain n where n: "py_for config (read_item ml)
      (nm_order_update (\<lambda>_. if map_of config ''order'' = Some TRUE_FALSE then Some (True, False) else Some (False, True)) new_matcher) = (Inr (), n)"
    and m: "m = (nm_items_update (\<lambda>items b. rev (sort (items b))) n)\<lparr>nm_special_case :=
        find_special_case (nm_items_update (\<lambda>items b. rev (sort (items b))) n)\<rparr>"
    using assms by (auto simp: read_config_def py_run split: prod.splits sum.splits)
  note items = read_items_run [OF n]
  have i: "nm_items m b = rev (sort (patterns_of ml config b))" for b
    using items unfolding m by (simp add: new_matcher_def patterns_of_def)
  have s: "nm_special_case m = (let allow = patterns_of ml config True; forbid = patterns_of ml config False in
      if allow = [] \<and> ''*'' \<in> set forbid then Some False else if forbid = [] \<and> ''*'' \<in> set allow then Some True else None)"
  proof -
    have "nm_items n b = patterns_of ml config b" for b using items by (simp add: new_matcher_def patterns_of_def)
    moreover have "sort xs = [] \<longleftrightarrow> xs = []" for xs :: "string list" by (metis set_empty set_sort)
    ultimately show ?thesis using items unfolding m by (simp add: find_special_case_def new_matcher_def Let_def)
  qed
  have e: "list_ex (\<lambda>pattern. ml_globre ml pattern v) (nm_items m b) = list_ex (\<lambda>pattern. ml_globre ml pattern v) (patterns_of ml config b)" for b
    unfolding i by (simp add: list_ex_iff)
  have o: "nm_order m = Some (if map_of config ''order'' = Some TRUE_FALSE then (True, False) else (False, True))"
    using read_config_new [OF assms] by blast
  show ?thesis unfolding allowed_by_def by_rules_def s o e Let_def by auto
qed

text \<open>
  Claim C36. A matcher that has read its configuration for the first time answers every question, in
  every order of questions and through its cache, as the rules say: when all patterns say the same and
  one of them is the catch-all, so does every answer; else, under the order true-false, what matches a
  pattern that allows and none that forbids is allowed; under any other order what matches one that
  allows. What a pattern matches and which texts are true are for the libraries to say.
\<close>

theorem matcher_answers_by_rules:
  assumes "read_config ml config new_matcher = (Inr (), m)"
  shows "\<exists>n. ask_all ml vs m = (Inr (map (by_rules ml config) vs), n)"
proof -
  have "allowed_by ml m = by_rules ml config" by (rule ext) (rule read_config_rules [OF assms])
  with ask_all_run [of ml m vs] read_config_new [OF assms] show ?thesis by simp
qed

definition demo_match :: match_lib where
  "demo_match = \<lparr>ml_globre = (\<lambda>pattern v. pattern = v \<or> pattern = ''*''), ml_asbool = (\<lambda>t. Some (t = ''True''))\<rparr>"

definition demo_allowed :: "(string, string) dict" where
  "demo_allowed = [(''order'', ''true_false''), (''a'', ''True''), (''b'', ''False'')]"

lemma demo_allowed_read: "fst (read_config demo_match demo_allowed new_matcher) = Inr ()"
  by (simp add: read_config_def read_item_def demo_match_def demo_allowed_def new_matcher_def py_run)

theorem matcher_answers_by_rules_witness:
  "fst (ask_all demo_match [''a'', ''b'', ''a''] (snd (read_config demo_match demo_allowed new_matcher))) = Inr [True, False, True]"
proof -
  let ?m = "snd (read_config demo_match demo_allowed new_matcher)"
  have "read_config demo_match demo_allowed new_matcher = (Inr (), ?m)"
    by (simp add: prod_eq_iff demo_allowed_read)
  moreover have "map (by_rules demo_match demo_allowed) [''a'', ''b'', ''a''] = [True, False, True]" by code_simp
  ultimately show ?thesis using matcher_answers_by_rules [of demo_match demo_allowed ?m "[''a'', ''b'', ''a'']"] by (metis fst_conv)
qed

section \<open>The order of calls\<close>

text \<open>
  \<open>makes w plan m\<close>: whatever the state, \<open>m\<close> calls an initial part of the plan, all of it if it
  returns, and a call that is no hook and raises whatever the response is the last one, and \<open>m\<close>
  raises.
\<close>

definition raising :: "'p run_world \<Rightarrow> service_call list \<Rightarrow> bool" where
  "raising w calls \<longleftrightarrow> calls \<noteq> [] \<and> last calls \<notin> range Hook \<and> (\<forall>r. fst (rw_call w calls r) \<noteq> None)"

definition makes :: "'p run_world \<Rightarrow> service_call list \<Rightarrow> ('p run_state, 'a) py \<Rightarrow> bool" where
  "makes w plan m \<longleftrightarrow> (\<forall>s r t. m s = (r, t) \<longrightarrow>
     (\<exists>n. rs_calls t = rs_calls s @ take n plan \<and> (isl r \<or> length plan \<le> n) \<and>
       (\<forall>k. k < min n (length plan) \<and> raising w (rs_calls s @ take (Suc k) plan) \<longrightarrow> Suc k = min n (length plan) \<and> isl r)))"

lemma makesI:
  assumes "\<And>s r t. m s = (r, t) \<Longrightarrow>
     \<exists>n. rs_calls t = rs_calls s @ take n plan \<and> (isl r \<or> length plan \<le> n) \<and>
       (\<forall>k. k < min n (length plan) \<and> raising w (rs_calls s @ take (Suc k) plan) \<longrightarrow> Suc k = min n (length plan) \<and> isl r)"
  shows "makes w plan m"
  using assms by (simp add: makes_def)

text \<open>What calls nothing.\<close>

lemma makes_nothing: "(\<And>s. rs_calls (snd (m s)) = rs_calls s) \<Longrightarrow> makes w [] m"
  unfolding makes_def by (auto intro!: exI [of _ 0] simp: prod_eq_iff)

lemma makes_seq:
  assumes m: "makes w p m" and n: "makes w q n"
  shows "makes w (p @ q) (py_seq m n)"
proof (rule makesI)
  fix s r t assume run: "py_seq m n s = (r, t)"
  obtain r1 u where u: "m s = (r1, u)" by fastforce
  obtain i where i: "rs_calls u = rs_calls s @ take i p" "isl r1 \<or> length p \<le> i"
    "\<And>k. k < min i (length p) \<Longrightarrow> raising w (rs_calls s @ take (Suc k) p) \<Longrightarrow> Suc k = min i (length p) \<and> isl r1"
    using m u unfolding makes_def by blast
  show "\<exists>i. rs_calls t = rs_calls s @ take i (p @ q) \<and> (isl r \<or> length (p @ q) \<le> i) \<and>
      (\<forall>k. k < min i (length (p @ q)) \<and> raising w (rs_calls s @ take (Suc k) (p @ q)) \<longrightarrow> Suc k = min i (length (p @ q)) \<and> isl r)"
  proof (cases r1)
    case (Inl e)
    then have rt: "r = Inl e" "t = u" using run u by (simp_all add: py_seq_def)
    show ?thesis
      using i rt Inl by (intro exI [of _ "min i (length p)"]) (auto simp: min_def)
  next
    case (Inr x)
    then have nu: "n u = (r, t)" and pi: "length p \<le> i" using run u i(2) by (simp_all add: py_seq_def)
    then have cu: "rs_calls u = rs_calls s @ p" using i(1) by simp
    obtain j where j: "rs_calls t = rs_calls u @ take j q" "isl r \<or> length q \<le> j"
      "\<And>k. k < min j (length q) \<Longrightarrow> raising w (rs_calls u @ take (Suc k) q) \<Longrightarrow> Suc k = min j (length q) \<and> isl r"
      using n nu unfolding makes_def by blast
    have "Suc k = min (length p + j) (length (p @ q)) \<and> isl r"
      if k: "k < min (length p + j) (length (p @ q))" "raising w (rs_calls s @ take (Suc k) (p @ q))" for k
    proof (cases "k < length p")
      case True
      then have "raising w (rs_calls s @ take (Suc k) p)" using k(2) by simp
      with i(3) [of k] True pi Inr show ?thesis by simp
    next
      case False
      then have "raising w (rs_calls u @ take (Suc (k - length p)) q)" using k(2) cu by (simp add: Suc_diff_le)
      moreover have "k - length p < min j (length q)" using k(1) False by auto
      ultimately have "Suc (k - length p) = min j (length q) \<and> isl r" using j(3) by blast
      with False show ?thesis by (auto simp: min_def split: if_splits)
    qed
    with j cu show ?thesis by (intro exI [of _ "length p + j"]) auto
  qed
qed

lemma makes_user_call: "makes w [c] (user_call w c)"
proof (rule makesI)
  fix s r t assume run: "user_call w c s = (r, t)"
  obtain e p st where e: "rw_call w (rs_calls s @ [c]) (rs_payload s, rs_status s) = (e, p, st)" by (cases "rw_call w (rs_calls s @ [c]) (rs_payload s, rs_status s)")
  then have t: "rs_calls t = rs_calls s @ [c]" and r: "r = (case e of None \<Rightarrow> Inr () | Some e \<Rightarrow> Inl e)"
    using run by (auto simp: user_call_def py_run)
  have "raising w (rs_calls s @ [c]) \<Longrightarrow> isl r"
    using e r unfolding raising_def by (metis (no_types, lifting) fst_conv option.case_eq_if sum.disc(1))
  with t show "\<exists>n. rs_calls t = rs_calls s @ take n [c] \<and> (isl r \<or> length [c] \<le> n) \<and>
      (\<forall>k. k < min n (length [c]) \<and> raising w (rs_calls s @ take (Suc k) [c]) \<longrightarrow> Suc k = min n (length [c]) \<and> isl r)"
    by (intro exI [of _ 1]) auto
qed

lemma call_hook_calls: "rs_calls (snd (run_hook w h s)) = rs_calls s @ [Hook h]" "\<not> isl (fst (run_hook w h s))"
  by (simp_all add: run_hook_def user_call_def py_run split: prod.split option.split)

lemma makes_hook: "makes w [Hook h] (run_hook w h)"
proof (rule makesI)
  fix s r t assume "run_hook w h s = (r, t)"
  then show "\<exists>n. rs_calls t = rs_calls s @ take n [Hook h] \<and> (isl r \<or> length [Hook h] \<le> n) \<and>
      (\<forall>k. k < min n (length [Hook h]) \<and> raising w (rs_calls s @ take (Suc k) [Hook h]) \<longrightarrow> Suc k = min n (length [Hook h]) \<and> isl r)"
    using call_hook_calls [of w h s] by (intro exI [of _ 1]) (auto simp: raising_def)
qed

lemma makes_hooks: "makes w (map Hook hs) (py_for hs (run_hook w))"
proof (induction hs)
  case (Cons h hs)
  with makes_seq [OF makes_hook [of w h]] show ?case by simp
qed (simp add: makes_nothing py_run)

lemma makes_when: "makes w p m \<Longrightarrow> makes w (if b then p else []) (py_when b m)"
  by (simp add: py_when_def makes_nothing py_run)

text \<open>The calls that an accepted invocation makes if nothing stops it.\<close>

definition handler_calls :: "instance_of \<Rightarrow> channel_type \<Rightarrow> string option \<Rightarrow> service_call list" where
  "handler_calls i channel http_method =
     (if channel \<in> {Ch_Http_Soap, Ch_Invoke} \<and> io_handlers i \<noteq> []
      then (case http_method of
              None \<Rightarrow> []
            | Some m \<Rightarrow> (case map_of (io_handlers i) m of
                None \<Rightarrow> []
              | Some (im_class, definer) \<Rightarrow>
                  if im_class \<in> set (uc_impl_name (io_user_class i) # uc_bases (io_user_class i)) then [Handle_Method m definer] else []))
      else [Handle])"

definition service_plan :: "channel_type \<Rightarrow> instance_of \<Rightarrow> channel_type \<Rightarrow> string option \<Rightarrow> service_call list" where
  "service_plan self_channel i channel http_method =
     (if self_channel = Ch_Scheduler then map Hook (sc_before_job_hooks (io_class i)) else []) @
     (if has_hook Before_Handle i then [Hook Before_Handle] else []) @
     [Validate_Input] @ handler_calls i channel http_method @ [Validate_Output] @
     (if has_hook After_Handle i then [Hook After_Handle] else []) @
     (if self_channel = Ch_Scheduler then map Hook (sc_after_job_hooks (io_class i)) else []) @
     (if has_hook Finalize_Handle i then [Hook Finalize_Handle] else [])"

lemma makes_invoke_handler: "makes w (handler_calls i channel http_method) (invoke_handler w i channel http_method)"
  by (auto simp: invoke_handler_def handler_calls_def py_run intro: makes_user_call intro!: makes_nothing split: option.split)

lemma kvdb_run_calls: "rs_calls (snd (kvdb_run w cmd s)) = rs_calls s"
  by (simp add: kvdb_run_def py_run split: option.split)

lemma getvalue_for_log_calls: "rs_calls (snd (getvalue_for_log w s)) = rs_calls s"
  by (simp add: getvalue_for_log_def py_run split: sum.split)

lemma keeps_calls [keeps_intros]:
  "keeps (\<lambda>s. rs_calls s = cs) (kvdb_run w cmd)" "keeps (\<lambda>s. rs_calls s = cs) (getvalue_for_log w)"
  by (auto intro!: keepsI simp: kvdb_run_calls getvalue_for_log_calls)

lemma makes_keeps: "(\<And>cs. keeps (\<lambda>s. rs_calls s = cs) m) \<Longrightarrow> makes w [] m"
  by (rule makes_nothing) (simp add: keeps_def)

lemma makes_post_handle: "makes w [] (post_handle w i)"
  unfolding post_handle_def Let_def by (rule makes_keeps) (intro keeps_intros; simp)

lemma makes_seq_nothing: "makes w [] m \<Longrightarrow> makes w q n \<Longrightarrow> makes w q (py_seq m n)"
  using makes_seq [of w "[]" m q n] by simp

lemma makes_run_service: "makes w (service_plan self_channel i channel m) (run_service w self_channel i channel m)"
proof -
  let ?usage = "py_when (rw_stats w)
       (py_seq (kvdb_run w (Incr (''zato:stats:service:usage:'' @ uc_name (io_user_class i)))) (py_modify (rs_usage_update (\<lambda>_. rw_incr w))))"
  have u: "makes w [] ?usage" by (rule makes_keeps) (intro keeps_intros; simp)
  have t: "makes w [] (py_modify (rs_invocation_time_update (\<lambda>_. Some (rw_invoked_at w))))"
    by (rule makes_nothing) (simp add: py_run)
  show ?thesis
    unfolding run_service_def service_plan_def
    by (rule makes_seq_nothing [OF u], rule makes_seq_nothing [OF t])
      (rule makes_seq_nothing [OF makes_post_handle] makes_seq makes_when makes_hooks makes_hook makes_user_call makes_invoke_handler)+
qed

text \<open>An invocation that is prepared and accepted runs the service and responds.\<close>

definition start_run :: "invoking_self \<Rightarrow> 'p run_state \<Rightarrow> 'p run_state" where
  "start_run self s = (if Accept \<in> set (sc_hooks (is_class self)) then rs_calls_update (\<lambda>cs. cs @ [Hook Accept]) s else s)"

definition accepts :: "'p run_world \<Rightarrow> invoking_self \<Rightarrow> instance_of \<Rightarrow> bool" where
  "accepts w self i \<longleftrightarrow> rw_prepare w = None \<and>
     (Accept \<in> set (sc_hooks (is_class self)) \<longrightarrow> has_hook Accept i \<and> rw_accept w = Inr True)"

definition exn_of :: "exn + 'a \<Rightarrow> exn option" where
  "exn_of r = (case r of Inl e \<Rightarrow> Some e | Inr x \<Rightarrow> None)"

lemma update_handle_accepts:
  assumes "accepts w self i"
  shows "update_handle w set_response self i channel m s =
    (case run_service w (is_channel self) i channel (if channel = Ch_Http_Soap then m else None) (start_run self s) of
       (r1, v) \<Rightarrow> respond w set_response self channel (exn_of r1) v)"
  using assms by (auto simp: accepts_def start_run_def exn_of_def update_handle_def accepts_call_def py_run split: prod.split sum.split)

lemma update_handle_cases:
  assumes "update_handle w set_response self i channel m s = (r, t)"
  obtains (refused) "\<not> accepts w self i" "rs_calls t = rs_calls s \<or> Accept \<in> set (sc_hooks (is_class self)) \<and> rs_calls t = rs_calls s @ [Hook Accept]"
      "\<forall>x. r \<noteq> Inr (Response_Payload x)" "rs_notified t = rs_notified s"
  | (ran) r1 v where "accepts w self i"
      "run_service w (is_channel self) i channel (if channel = Ch_Http_Soap then m else None) (start_run self s) = (r1, v)"
      "respond w set_response self channel (exn_of r1) v = (r, t)"
proof (cases "accepts w self i")
  case True
  with assms show thesis by (auto simp: update_handle_accepts split: prod.splits intro: ran)
next
  case False
  with assms show thesis
    by (intro refused) (auto simp: accepts_def update_handle_def accepts_call_def py_run split: sum.splits if_splits option.splits)
qed

lemma respond_calls:
  assumes "\<And>u. rs_calls (snd (set_response u)) = rs_calls u" and "respond w set_response self channel e s = (r, t)"
  shows "rs_calls t = rs_calls s \<and> ((\<exists>x. r = Inr (Response_Payload x)) \<longrightarrow> e = None)"
proof -
  obtain r1 u where u: "set_response s = (r1, u)" by fastforce
  with assms(1) [of s] have "rs_calls u = rs_calls s" by simp
  with assms(2) u show ?thesis
    by (auto simp: respond_def notify_pattern_def py_run split: sum.splits if_splits option.splits prod.splits)
qed

lemma makesD:
  assumes "makes w plan m" "m s = (r, t)"
  obtains n where "rs_calls t = rs_calls s @ take n plan" "isl r \<or> length plan \<le> n"
    "\<And>k. k < min n (length plan) \<Longrightarrow> raising w (rs_calls s @ take (Suc k) plan) \<Longrightarrow> Suc k = min n (length plan) \<and> isl r"
  using assms unfolding makes_def by blast

text \<open>The calls end where one raises that is no hook.\<close>

lemma calls_end:
  assumes calls: "calls = acc @ take n plan" and acc: "set acc \<subseteq> range Hook"
    and halts: "\<And>k. k < min n (length plan) \<Longrightarrow> raising w (acc @ take (Suc k) plan) \<Longrightarrow> Suc k = min n (length plan) \<and> halted"
    and c: "calls = pre @ c # post" "c \<notin> range Hook" "\<forall>p. fst (rw_call w (pre @ [c]) p) \<noteq> None"
  shows "post = [] \<and> halted"
proof -
  have len: "length acc \<le> length pre"
  proof (rule ccontr)
    assume "\<not> length acc \<le> length pre"
    then have "c = acc ! length pre" using arg_cong [where f = "\<lambda>xs. xs ! length pre", OF c(1)] calls by (simp add: nth_append)
    moreover have "acc ! length pre \<in> set acc" using \<open>\<not> length acc \<le> length pre\<close> by (intro nth_mem) simp
    ultimately show False using acc c(2) by blast
  qed
  define k where "k = length pre - length acc"
  have kn: "k < min n (length plan)"
    using arg_cong [where f = length, OF c(1)] arg_cong [where f = length, OF calls] len by (auto simp: k_def)
  have "pre @ [c] = take (Suc (length pre)) calls" using c(1) by simp
  then have "pre @ [c] = acc @ take (Suc k) plan"
    using calls len min_absorb1 [of "Suc k" n] kn by (simp add: k_def Suc_diff_le)
  then have "raising w (acc @ take (Suc k) plan)" using c(2,3) by (metis last_snoc raising_def snoc_eq_iff_butlast)
  from halts [OF kn this] have "Suc k = min n (length plan)" "halted" by auto
  moreover from this have "length calls = Suc (length pre)" using calls len by (simp add: k_def)
  ultimately show ?thesis using c(1) by simp
qed

text \<open>
  Claim C16. The code that users write for a service is called in the order in which
  \<open>update_handle\<close> calls it: the filter, the job hooks if the scheduler is on the channel
  (those of all kinds of jobs), \<open>before_handle\<close>, the validation of input, the handler of
  the request's verb, the validation of output, the later hooks. A response is returned only if all of
  them were called, and after a validation or a handler that raises nothing else is called,
  \<open>after_handle\<close> included, and the invocation raises. The docstrings of hooks promise
  another order: \<open>after_handle\<close> whether or not the service raised, and job hooks for jobs
  of their own kind only. \<open>set_response\<close>, which puts the response together, calls no code
  of users.
\<close>

theorem calls_come_in_order:
  assumes run: "update_handle w set_response self i channel m s = (r, t)"
    and set: "\<And>u. rs_calls (snd (set_response u)) = rs_calls u" and start: "rs_calls s = []"
  shows "let plan = (if Accept \<in> set (sc_hooks (is_class self)) then [Hook Accept] else []) @
        service_plan (is_channel self) i channel (if channel = Ch_Http_Soap then m else None)
    in (\<exists>n. rs_calls t = take n plan) \<and>
       ((\<exists>x. r = Inr (Response_Payload x)) \<longrightarrow> rs_calls t = plan) \<and>
       (\<forall>pre c post. rs_calls t = pre @ c # post \<and> c \<notin> range Hook \<and> (\<forall>p. fst (rw_call w (pre @ [c]) p) \<noteq> None) \<longrightarrow> post = [] \<and> isl r)"
  (is "let plan = ?acc @ ?plan in ?P plan")
  using run
proof (cases rule: update_handle_cases)
  case refused
  then show ?thesis
    using start by (auto simp: Let_def Cons_eq_append_conv append_eq_Cons_conv intro: exI [of _ 0] exI [of _ 1])
next
  case (ran r1 v)
  note resp = respond_calls [OF set ran(3)]
  have cs: "rs_calls (start_run self s) = ?acc" using start by (simp add: start_run_def)
  obtain n where n: "rs_calls v = ?acc @ take n ?plan" "isl r1 \<or> length ?plan \<le> n"
    "\<And>k. k < min n (length ?plan) \<Longrightarrow> raising w (?acc @ take (Suc k) ?plan) \<Longrightarrow> Suc k = min n (length ?plan) \<and> isl r1"
    using makesD [OF makes_run_service ran(2)] unfolding cs by blast
  have ct: "rs_calls t = ?acc @ take n ?plan" using resp n(1) by simp
  have raised: "isl r1 \<longrightarrow> isl r"
    using ran(3) by (cases r1) (auto simp: exn_of_def respond_def py_run split: prod.splits sum.splits)
  have "post = [] \<and> isl r1"
    if c: "rs_calls t = pre @ c # post" "c \<notin> range Hook" "\<forall>p. fst (rw_call w (pre @ [c]) p) \<noteq> None" for pre c post
    by (rule calls_end [OF ct _ n(3) c]) auto
  moreover have "rs_calls t = take (length ?acc + n) (?acc @ ?plan)" using ct by simp
  moreover have "rs_calls t = ?acc @ ?plan" if "\<exists>x. r = Inr (Response_Payload x)"
    using that resp n(2) ct by (cases r1) (auto simp: exn_of_def)
  ultimately show ?thesis using raised unfolding Let_def by blast
qed

definition demo_user_class :: "string \<Rightarrow> hook list \<Rightarrow> user_class" where
  "demo_user_class name hooks =
     \<lparr>uc_name = name, uc_impl_name = ''mod.'' @ name, uc_bases = [], uc_methods = [], uc_overridden = hooks, uc_invokes = [],
      uc_has_sio = False, uc_dont_deploy = False, uc_before_add = Inr True, uc_after_add = None\<rparr>"

definition demo_class :: "string \<Rightarrow> hook list \<Rightarrow> service_class" where
  "demo_class name hooks =
     \<lparr>sc_class = demo_user_class name hooks, sc_hooks = hooks, sc_before_job_hooks = filter (\<lambda>h. h \<in> set before_job_hooks) hooks,
      sc_after_job_hooks = filter (\<lambda>h. h \<in> set after_job_hooks) hooks, sc_enforce_service_invokes = False, sc_req_resp_freq = 0\<rparr>"

definition demo_instance :: "string \<Rightarrow> hook list \<Rightarrow> instance_of" where
  "demo_instance name hooks = \<lparr>io_class = demo_class name hooks, io_handlers = [], io_slow_threshold = 1000\<rparr>"

text \<open>A service that answers; payloads are texts.\<close>

definition demo_run_world :: "string run_world" where
  "demo_run_world =
     \<lparr>rw_call = (\<lambda>calls (p, st). (None, if last calls = Handle then ''done'' else p, st)), rw_accept = Inr True,
      rw_is_raw = (\<lambda>_. True), rw_getvalue = (\<lambda>_. Inr), rw_bunchify = id, rw_empty = [], rw_format_exc = (\<lambda>_. ''error''),
      rw_prepare = None, rw_kvdb = (\<lambda>_. None), rw_incr = 1, rw_invoked_at = 0, rw_returned_at = 5000, rw_minute = (\<lambda>n t. n),
      rw_stats = True, rw_slow_response = True\<rparr>"

definition demo_self :: "string \<Rightarrow> hook list \<Rightarrow> channel_type \<Rightarrow> invoking_self" where
  "demo_self name hooks channel = \<lparr>is_class = demo_class name hooks, is_channel = channel, is_patterns_enabled = True\<rparr>"

lemmas demo_service =
  demo_user_class_def demo_class_def demo_instance_def demo_run_world_def demo_self_def

lemmas service_defs =
  update_handle_def accepts_call_def run_service_def invoke_handler_def post_handle_def respond_def notify_pattern_def
  set_response_data_def run_hook_def user_call_def kvdb_run_def getvalue_for_log_def no_response_def
  io_user_class_def has_hook_def new_run_def py_run

lemma set_response_data_calls: "rs_calls (snd (set_response_data w serialize as_bunch s)) = rs_calls s"
  by (simp add: set_response_data_def py_run Let_def split: sum.split)

theorem calls_come_in_order_witness:
  "rs_calls (snd (update_handle demo_run_world (set_response_data demo_run_world True False)
     (demo_self ''s'' [Before_Handle, Before_Job] Ch_Scheduler) (demo_instance ''s'' [Before_Handle, Before_Job]) Ch_Scheduler None (new_run [])))
   = [Hook Before_Job, Hook Before_Handle, Validate_Input, Handle, Validate_Output]"
proof -
  let ?run = "update_handle demo_run_world (set_response_data demo_run_world True False)
     (demo_self ''s'' [Before_Handle, Before_Job] Ch_Scheduler) (demo_instance ''s'' [Before_Handle, Before_Job]) Ch_Scheduler None"
  have r: "fst (?run (new_run [])) = Inr (Response_Payload ''done'')"
    by (simp add: service_defs demo_service before_job_hooks_def after_job_hooks_def Let_def)
  have "?run (new_run []) = (fst (?run (new_run [])), snd (?run (new_run [])))" by simp
  from calls_come_in_order [OF this set_response_data_calls] r show ?thesis
    by (simp add: new_run_def Let_def service_plan_def handler_calls_def demo_service has_hook_def before_job_hooks_def after_job_hooks_def)
qed

section \<open>Parallel calls\<close>

lemma run_keeps_notified:
  "keeps (\<lambda>s. rs_notified s = ns) (user_call w c)" "keeps (\<lambda>s. rs_notified s = ns) (run_hook w h)"
  "keeps (\<lambda>s. rs_notified s = ns) (kvdb_run w cmd)" "keeps (\<lambda>s. rs_notified s = ns) (getvalue_for_log w)"
  by (auto intro!: keepsI simp: run_hook_def user_call_def kvdb_run_def getvalue_for_log_def py_run split: prod.split option.split sum.split)

lemma run_service_notified: "rs_notified (snd (run_service w sc i channel m s)) = rs_notified s"
proof -
  have "keeps (\<lambda>t. rs_notified t = rs_notified s) (run_service w sc i channel m)"
    unfolding run_service_def invoke_handler_def post_handle_def Let_def
    by (intro keeps_intros run_keeps_notified keeps_if; (intro keeps_intros run_keeps_notified)?; auto intro!: keeps_intros run_keeps_notified split: option.split)
  then show ?thesis by (simp add: keeps_def)
qed



text \<open>
  Claim C37. A parallel call that is accepted and whose response can be set reports to its pattern
  exactly once, whether the service returned or raised, with its final payload and, if and only if
  it raised, with that exception.
\<close>

theorem parallel_calls_report:
  assumes run: "update_handle w set_response self i channel m s = (r, t)"
    and channel: "channel \<in> {Ch_Fanout_Call, Ch_Parallel_Exec_Call}" and "is_patterns_enabled self" and acc: "accepts w self i"
    and set: "\<And>u. \<not> isl (fst (set_response u)) \<and> rs_notified (snd (set_response u)) = rs_notified u"
  shows "\<exists>exc. rs_notified t = rs_notified s @ [(channel, rs_payload t, exc)] \<and>
    (case r of Inl e \<Rightarrow> exc = Some (rw_format_exc w e) | Inr x \<Rightarrow> exc = None)"
proof -
  obtain r1 v where v: "run_service w (is_channel self) i channel None (start_run self s) = (r1, v)"
    and resp: "respond w set_response self channel (exn_of r1) v = (r, t)"
    using run channel by (auto simp: update_handle_accepts [OF acc] split: prod.splits)
  have v: "rs_notified v = rs_notified s"
    using run_service_notified [of w "is_channel self" i channel None "start_run self s"] v by (simp add: start_run_def split: if_splits)
  obtain p x where x: "set_response v = (Inr p, x)" "rs_notified x = rs_notified v"
    using set [of v] by (cases "set_response v"; cases "fst (set_response v)") auto
  show ?thesis
    using resp x v channel assms(3) by (cases r1) (auto simp: exn_of_def respond_def notify_pattern_def py_run)
qed

theorem parallel_calls_report_witness:
  "rs_notified (snd (update_handle demo_run_world (set_response_data demo_run_world True False)
     (demo_self ''s'' [] Ch_Fanout_Call) (demo_instance ''s'' []) Ch_Fanout_Call None (new_run []))) =
   [(Ch_Fanout_Call, ''done'', None)]"
proof -
  let ?run = "update_handle demo_run_world (set_response_data demo_run_world True False)
     (demo_self ''s'' [] Ch_Fanout_Call) (demo_instance ''s'' []) Ch_Fanout_Call None (new_run [])"
  have r: "fst ?run = Inr (Response_Payload ''done'')" "rs_payload (snd ?run) = ''done''"
    by (simp_all add: service_defs demo_service before_job_hooks_def after_job_hooks_def Let_def)
  have "?run = (fst ?run, snd ?run)" by simp
  from parallel_calls_report [OF this] r show ?thesis
    by (force simp: demo_service set_response_data_def new_run_def py_run accepts_def)
qed

text \<open>The calls that never report: refused ones, and those whose response cannot be set.\<close>

lemma unreported_call:
  assumes "\<not> accepts w self i \<or> (\<forall>u. isl (fst (set_response u)) \<and> rs_notified (snd (set_response u)) = rs_notified u)"
  shows "rs_notified (snd (update_handle w set_response self i channel m s)) = rs_notified s"
proof -
  obtain r t where run: "update_handle w set_response self i channel m s = (r, t)" by fastforce
  then show ?thesis
  proof (cases rule: update_handle_cases)
    case (ran r1 v)
    let ?m = "if channel = Ch_Http_Soap then m else None"
    have v: "rs_notified v = rs_notified s"
      using run_service_notified [of w "is_channel self" i channel ?m "start_run self s"] ran(2) by (simp add: start_run_def split: if_splits)
    have "\<forall>u. isl (fst (set_response u)) \<and> rs_notified (snd (set_response u)) = rs_notified u" using assms ran(1) by blast
    then obtain e x where "set_response v = (Inl e, x)" "rs_notified x = rs_notified v"
      by (metis isl_def prod.collapse)
    with ran(3) v run show ?thesis by (auto simp: respond_def py_run)
  qed (simp add: run)
qed

end
