(* ===== verification/Service_Policy.thy ===== *)
theory Service_Policy
  imports Service_Facts
begin

text \<open>
  Which services may run: what a service that invokes another one is held to, messages for a
  target that only one worker processes, the consistency of the store, and where the code does
  not do what its documentation says.
\<close>

section \<open>One service invokes another\<close>

lemma on_store_ran: "ex_ran (snd (on_store m s)) = ex_ran s"
  by (simp add: on_store_def split: prod.split)

lemma on_target_matcher_run:
  assumes "matcher_ok ml (ex_target_matcher s)"
  obtains t where "on_target_matcher (name_allowed ml v) s = (Inr (allowed_by ml (ex_target_matcher s) v), s\<lparr>ex_target_matcher := t\<rparr>)"
    "same_rules t (ex_target_matcher s)" "matcher_ok ml t"
  using matcher_run [OF assms, of v] by (auto simp: on_target_matcher_def)

lemma on_invoke_matcher_run:
  assumes "matcher_ok ml (ex_invoke_matcher s)"
  obtains t where "on_invoke_matcher (name_allowed ml v) s = (Inr (allowed_by ml (ex_invoke_matcher s) v), s\<lparr>ex_invoke_matcher := t\<rparr>)"
    "same_rules t (ex_invoke_matcher s)" "matcher_ok ml t"
  using matcher_run [OF assms, of v] by (auto simp: on_invoke_matcher_def)

text \<open>A name that may carry a target, where targets are enabled.\<close>

definition names_target :: "exec_config \<Rightarrow> string \<Rightarrow> string \<times> string \<Rightarrow> bool" where
  "names_target xc name nt \<longleftrightarrow> (if xc_target_matcher xc then extract_target name = Inr nt else nt = (name, []))"

definition active_service :: "service_store \<Rightarrow> string \<Rightarrow> bool" where
  "active_service st impl_name \<longleftrightarrow> (\<exists>entry. map_of (st_services st) impl_name = Some entry \<and> se_is_active entry = Some True)"

definition may_run :: "exec_config \<Rightarrow> caller \<Rightarrow> 'p service_exec \<Rightarrow> string \<Rightarrow> string \<Rightarrow> bool" where
  "may_run xc c s impl_name target \<longleftrightarrow>
     impl_name \<noteq> cl_impl_name c \<and> active_service (ex_store s) impl_name \<and>
     (xc_target_matcher xc \<longrightarrow> allowed_by (xc_match xc) (ex_target_matcher s) target) \<and>
     (xc_invoke_matcher xc \<longrightarrow> allowed_by (xc_match xc) (ex_invoke_matcher s) impl_name)"

text \<open>The three stages of an invocation by implementation name.\<close>

definition target_stage :: "exec_config \<Rightarrow> string \<Rightarrow> string \<Rightarrow> ('p service_exec, string) py" where
  "target_stage xc impl_name target =
     (if xc_target_matcher xc
      then py_bind (py_sum (extract_target impl_name)) (\<lambda>(impl_name, given).
           py_bind (on_target_matcher (name_allowed (xc_match xc) (if given \<noteq> [] then given else target))) (\<lambda>ok.
           if ok then py_ret impl_name else py_raise ZatoError))
      else py_ret impl_name)"

lemma target_stage_run:
  assumes "target_stage xc impl_name target s = (r, t)" "xc_target_matcher xc \<longrightarrow> matcher_ok (xc_match xc) (ex_target_matcher s)"
  shows "\<exists>m. t = s\<lparr>ex_target_matcher := m\<rparr> \<and> same_rules m (ex_target_matcher s) \<and>
    (\<forall>impl. r = Inr impl \<longrightarrow> (\<exists>given. names_target xc impl_name (impl, given) \<and>
       (xc_target_matcher xc \<longrightarrow> allowed_by (xc_match xc) (ex_target_matcher s) (if given \<noteq> [] then given else target))))"
proof -
  have same: "s = s\<lparr>ex_target_matcher := ex_target_matcher s\<rparr>" "same_rules (ex_target_matcher s) (ex_target_matcher s)"
    by (simp_all add: same_rules_def)
  show ?thesis
  proof (cases "xc_target_matcher xc")
    case False
    then have "t = s" "r = Inr impl_name" using assms(1) by (simp_all add: target_stage_def py_run)
    with False same show ?thesis by (auto simp: names_target_def intro!: exI [of _ "ex_target_matcher s"])
  next
    case True
    show ?thesis
    proof (cases "extract_target impl_name")
      case (Inl e)
      with True assms(1) have "t = s" "r = Inl e" by (auto simp: target_stage_def py_run py_sum_def)
      with same show ?thesis by (auto intro!: exI [of _ "ex_target_matcher s"])
    next
      case (Inr ig)
      obtain impl given where ig: "ig = (impl, given)" by fastforce
      obtain m where m: "on_target_matcher (name_allowed (xc_match xc) (if given \<noteq> [] then given else target)) s =
          (Inr (allowed_by (xc_match xc) (ex_target_matcher s) (if given \<noteq> [] then given else target)), s\<lparr>ex_target_matcher := m\<rparr>)"
          "same_rules m (ex_target_matcher s)"
        using on_target_matcher_run [of "xc_match xc" s "if given \<noteq> [] then given else target"] assms(2) True by metis
      have "t = s\<lparr>ex_target_matcher := m\<rparr> \<and> (\<forall>impl'. r = Inr impl' \<longrightarrow> impl' = impl \<and> allowed_by (xc_match xc) (ex_target_matcher s) (if given \<noteq> [] then given else target))"
        using assms(1) True Inr ig m(1) by (auto simp: target_stage_def py_bind_def py_sum_def py_ret_def py_raise_def split: if_splits)
      with m(2) True Inr ig show ?thesis by (auto simp: names_target_def)
    qed
  qed
qed

definition invoke_stage :: "exec_config \<Rightarrow> string \<Rightarrow> ('p service_exec, unit) py" where
  "invoke_stage xc impl_name =
     py_when (xc_invoke_matcher xc)
        (py_bind (on_invoke_matcher (name_allowed (xc_match xc) impl_name)) (\<lambda>ok. if ok then py_ret () else py_raise ZatoError))"

lemma invoke_stage_run:
  assumes "invoke_stage xc impl_name s = (r, t)" "xc_invoke_matcher xc \<longrightarrow> matcher_ok (xc_match xc) (ex_invoke_matcher s)"
  shows "\<exists>m. t = s\<lparr>ex_invoke_matcher := m\<rparr> \<and> same_rules m (ex_invoke_matcher s) \<and>
    (r = Inr () \<longrightarrow> xc_invoke_matcher xc \<longrightarrow> allowed_by (xc_match xc) (ex_invoke_matcher s) impl_name)"
proof (cases "xc_invoke_matcher xc")
  case False
  then have "t = s" using assms(1) by (simp add: invoke_stage_def py_run)
  with False show ?thesis by (auto simp: same_rules_def intro!: exI [of _ "ex_invoke_matcher s"])
next
  case True
  with assms(2) obtain m where m: "on_invoke_matcher (name_allowed (xc_match xc) impl_name) s =
      (Inr (allowed_by (xc_match xc) (ex_invoke_matcher s) impl_name), s\<lparr>ex_invoke_matcher := m\<rparr>)" "same_rules m (ex_invoke_matcher s)"
    using on_invoke_matcher_run by blast
  with assms(1) True show ?thesis
    by (auto simp: invoke_stage_def py_bind_def py_when_def py_ret_def py_raise_def split: if_splits)
qed

text \<open>What comes after the checks.\<close>

definition run_stage ::
    "exec_config \<Rightarrow> 'p run_world \<Rightarrow> caller \<Rightarrow> string \<Rightarrow> channel_type \<Rightarrow> bool \<Rightarrow> bool \<Rightarrow> 'p run_state time_limit \<Rightarrow> bool \<Rightarrow>
     ('p service_exec, 'p handled) py" where
  "run_stage xc w c impl_name channel serialize as_bunch limit raise_timeout =
     py_bind (on_store (new_instance impl_name)) (\<lambda>(sc, is_active).
     if \<not> is_active then py_raise Inactive
     else
       py_bind (make_instance sc) (\<lambda>i.
       let self = \<lparr>is_class = cl_class c, is_channel = cl_channel c, is_patterns_enabled = xc_patterns xc\<rparr>;
           run = update_handle w (set_response_data w serialize as_bunch) self i channel None
       in case limit of
            Too_Late left \<Rightarrow>
              py_seq (on_run impl_name channel (py_modify left)) (if raise_timeout then py_raise Timeout else py_ret No_Response)
          | _ \<Rightarrow> on_run impl_name channel run))"

lemma invoke_by_impl_name_stages:
  "invoke_by_impl_name xc w c impl_name target channel serialize as_bunch limit raise_timeout =
     py_bind (target_stage xc impl_name target) (\<lambda>impl_name.
     py_seq (invoke_stage xc impl_name)
     (py_seq (py_when (cl_impl_name c = impl_name) (py_raise ZatoError))
     (run_stage xc w c impl_name channel serialize as_bunch limit raise_timeout)))"
  by (simp add: invoke_by_impl_name_def target_stage_def invoke_stage_def run_stage_def)

lemma on_run_ran: "ex_ran (snd (on_run impl_name channel m s)) = ex_ran s @ [(impl_name, channel)]"
  by (simp add: on_run_def split: prod.split)

lemma on_run_eqD: "on_run impl_name channel m s = (r, t) \<Longrightarrow> ex_ran t = ex_ran s @ [(impl_name, channel)]"
  using on_run_ran [of impl_name channel m s] by simp

lemma make_instance_ran: "ex_ran (snd (make_instance sc s)) = ex_ran s"
  by (simp add: make_instance_def on_store_def py_run split: option.split)

lemma new_instance_run:
  assumes "on_store (new_instance impl_name) s = (Inr (sc, active), t)"
  shows "t = s \<and> (\<exists>entry. map_of (st_services (ex_store s)) impl_name = Some entry \<and> se_class entry = Some sc \<and> se_is_active entry = Some active)"
  using assms by (auto simp: on_store_def new_instance_def py_run split: prod.splits sum.splits option.splits)

lemma run_stage_ran:
  assumes "run_stage xc w c impl_name channel serialize as_bunch limit raise_timeout s = (r, t)" "ex_ran t \<noteq> ex_ran s"
  shows "ex_ran t = ex_ran s @ [(impl_name, channel)] \<and> active_service (ex_store s) impl_name"
proof -
  obtain r1 u where u: "on_store (new_instance impl_name) s = (r1, u)" by fastforce
  have ru: "ex_ran u = ex_ran s" using on_store_ran [of "new_instance impl_name" s] u by simp
  with assms u obtain sc active where r1: "r1 = Inr (sc, active)"
    by (cases r1) (auto simp: run_stage_def py_bind_def)
  have act: "active" using assms u r1 ru by (auto simp: run_stage_def py_bind_def py_raise_def split: if_splits)
  with new_instance_run [of impl_name s sc active u] u r1 have entry: "active_service (ex_store s) impl_name"
    by (auto simp: active_service_def)
  obtain r2 v where v: "make_instance sc u = (r2, v)" by fastforce
  then have rv: "ex_ran v = ex_ran s" using make_instance_ran [of sc u] ru by simp
  with assms u r1 act v obtain i where i: "r2 = Inr i" by (cases r2) (auto simp: run_stage_def py_bind_def)
  have run: "(let self = \<lparr>is_class = cl_class c, is_channel = cl_channel c, is_patterns_enabled = xc_patterns xc\<rparr>;
           run = update_handle w (set_response_data w serialize as_bunch) self i channel None
       in case limit of
            Too_Late left \<Rightarrow>
              py_seq (on_run impl_name channel (py_modify left)) (if raise_timeout then py_raise Timeout else py_ret No_Response)
          | _ \<Rightarrow> on_run impl_name channel run) v = (r, t)"
    using assms(1) u r1 act v i by (simp add: run_stage_def py_bind_def)
  have "ex_ran t = ex_ran v @ [(impl_name, channel)]"
  proof (cases limit)
    case (Too_Late left)
    with run show ?thesis by (auto simp: Let_def on_run_def py_run split: if_splits)
  qed (use run in \<open>simp_all add: Let_def on_run_ran on_run_eqD\<close>)
  with rv entry show ?thesis by simp
qed

lemma invoke_by_impl_name_ran:
  assumes run: "invoke_by_impl_name xc w c impl_name target channel serialize as_bunch limit raise_timeout s = (r, t)"
    and ran: "ex_ran t \<noteq> ex_ran s"
    and ok: "xc_target_matcher xc \<longrightarrow> matcher_ok (xc_match xc) (ex_target_matcher s)"
      "xc_invoke_matcher xc \<longrightarrow> matcher_ok (xc_match xc) (ex_invoke_matcher s)"
  shows "\<exists>impl given. names_target xc impl_name (impl, given) \<and> ex_ran t = ex_ran s @ [(impl, channel)] \<and>
    may_run xc c s impl (if given \<noteq> [] then given else target)"
proof -
  obtain r1 u where u: "target_stage xc impl_name target s = (r1, u)" by fastforce
  obtain m where m: "u = s\<lparr>ex_target_matcher := m\<rparr>" and r1: "\<And>impl. r1 = Inr impl \<Longrightarrow> \<exists>given. names_target xc impl_name (impl, given) \<and>
       (xc_target_matcher xc \<longrightarrow> allowed_by (xc_match xc) (ex_target_matcher s) (if given \<noteq> [] then given else target))"
    using target_stage_run [OF u ok(1)] by blast
  from run ran u m obtain impl where impl: "r1 = Inr impl"
    by (cases r1) (auto simp: invoke_by_impl_name_stages py_bind_def)
  obtain r2 v where v: "invoke_stage xc impl u = (r2, v)" by fastforce
  obtain n where n: "v = u\<lparr>ex_invoke_matcher := n\<rparr>"
    and allowed: "r2 = Inr () \<Longrightarrow> xc_invoke_matcher xc \<Longrightarrow> allowed_by (xc_match xc) (ex_invoke_matcher s) impl"
    using invoke_stage_run [OF v] ok(2) m by auto
  from run ran u m impl v n have r2: "r2 = Inr ()"
    by (cases r2) (auto simp: invoke_by_impl_name_stages py_bind_def py_seq_def)
  have other: "cl_impl_name c \<noteq> impl"
    using run ran u m impl v n r2 by (auto simp: invoke_by_impl_name_stages py_bind_def py_seq_def py_when_def py_raise_def)
  then have "run_stage xc w c impl channel serialize as_bunch limit raise_timeout v = (r, t)"
    using run u impl v r2 by (simp add: invoke_by_impl_name_stages py_bind_def py_seq_def py_when_def py_ret_def)
  from run_stage_ran [OF this] ran m n have "ex_ran t = ex_ran s @ [(impl, channel)]" "active_service (ex_store s) impl" by auto
  with r1 [OF impl] allowed [OF r2] other show ?thesis by (auto simp: may_run_def)
qed

text \<open>
  Claim C9. When one service synchronously invokes another by its name, something runs only if the
  name is among those it declares to invoke (where that is enforced), the name is known, the service is
  active and not the invoking one, and both the target and the service are allowed; and then exactly that service
  runs, once.
\<close>

theorem invoke_stays_within_policy:
  assumes run: "service_invoke xc w c name channel serialize as_bunch limit raise_timeout s = (r, t)"
    and ran: "ex_ran t \<noteq> ex_ran s"
    and ok: "xc_target_matcher xc \<longrightarrow> matcher_ok (xc_match xc) (ex_target_matcher s)"
      "xc_invoke_matcher xc \<longrightarrow> matcher_ok (xc_match xc) (ex_invoke_matcher s)"
  shows "\<exists>base target full impl given. names_target xc name (base, target) \<and>
    (sc_enforce_service_invokes (cl_class c) \<and> uc_invokes (sc_class (cl_class c)) \<noteq> [] \<longrightarrow> base \<in> set (uc_invokes (sc_class (cl_class c)))) \<and>
    map_of (st_name_to_impl_name (ex_store s)) base = Some full \<and> names_target xc full (impl, given) \<and>
    may_run xc c s impl (if given \<noteq> [] then given else target) \<and> ex_ran t = ex_ran s @ [(impl, channel)]"
proof -
  obtain r1 u where u: "invoke_checks xc c name s = (r1, u)" by fastforce
  then have us: "u = s" by (auto simp: invoke_checks_def py_run py_sum_def split: prod.splits sum.splits if_splits)
  from run ran u us obtain base target where bt: "r1 = Inr (base, target)"
    by (cases r1) (auto simp: service_invoke_def py_bind_def)
  have checks: "names_target xc name (base, target)"
    "sc_enforce_service_invokes (cl_class c) \<and> uc_invokes (sc_class (cl_class c)) \<noteq> [] \<longrightarrow> base \<in> set (uc_invokes (sc_class (cl_class c)))"
    using u bt by (auto simp: invoke_checks_def names_target_def py_run py_sum_def split: prod.splits sum.splits if_splits)
  have st: "on_store (item_get st_name_to_impl_name base) s =
      (case map_of (st_name_to_impl_name (ex_store s)) base of None \<Rightarrow> (Inl KeyError, s) | Some full \<Rightarrow> (Inr full, s))"
    by (simp add: on_store_def py_run split: option.split)
  from run ran u us bt st obtain full where full: "map_of (st_name_to_impl_name (ex_store s)) base = Some full"
    by (cases "map_of (st_name_to_impl_name (ex_store s)) base") (auto simp: service_invoke_def py_bind_def)
  then have "invoke_by_impl_name xc w c full target channel serialize as_bunch limit raise_timeout s = (r, t)"
    using run u us bt st by (simp add: service_invoke_def py_bind_def)
  from invoke_by_impl_name_ran [OF this ran ok] checks full show ?thesis by blast
qed

definition demo_entry :: "service_class \<Rightarrow> service_entry" where
  "demo_entry sc = \<lparr>se_name = Some (uc_name (sc_class sc)), se_class = Some sc, se_is_active = Some True, se_slow_threshold = Some 1000\<rparr>"

definition demo_store :: "service_class list \<Rightarrow> service_store" where
  "demo_store scs = (new_store new_matcher)\<lparr>
     st_services := map (\<lambda>sc. (uc_impl_name (sc_class sc), demo_entry sc)) scs,
     st_name_to_impl_name := map (\<lambda>sc. (uc_name (sc_class sc), uc_impl_name (sc_class sc))) scs\<rparr>"

definition demo_exec :: "service_class list \<Rightarrow> string service_exec" where
  "demo_exec scs =
     \<lparr>ex_store = demo_store scs, ex_target_matcher = new_matcher, ex_invoke_matcher = new_matcher, ex_run = new_run [], ex_ran = [],
      ex_published = [], ex_async = [], ex_now = 0, ex_processed = [], ex_new_cids = 0\<rparr>"

definition demo_xc :: exec_config where
  "demo_xc = \<lparr>xc_match = demo_match, xc_target_matcher = False, xc_invoke_matcher = False, xc_patterns = True, xc_new_cid = (\<lambda>n. ''cid'')\<rparr>"

definition demo_caller :: "service_class \<Rightarrow> caller" where
  "demo_caller sc = \<lparr>cl_class = sc, cl_channel = Ch_Http_Soap, cl_cid = ''cid''\<rparr>"

lemmas exec_defs =
  service_invoke_def invoke_checks_def invoke_by_impl_name_def on_store_def on_run_def new_instance_def make_instance_def
  http_method_handlers_def handlers_owner_def

lemmas demo_exec_defs =
  demo_entry_def demo_store_def demo_exec_def demo_xc_def demo_caller_def new_store_def new_matcher_def

lemma demo_invoked:
  "ex_ran (snd (service_invoke demo_xc demo_run_world (demo_caller (demo_class ''a'' [])) ''b'' Ch_Invoke True False No_Limit True
     (demo_exec [demo_class ''a'' [], demo_class ''b'' []]))) = [(''mod.b'', Ch_Invoke)]"
  by (simp add: exec_defs demo_exec_defs service_defs demo_service cl_impl_name_def before_job_hooks_def after_job_hooks_def Let_def)

theorem invoke_stays_within_policy_witness:
  "active_service (demo_store [demo_class ''a'' [], demo_class ''b'' []]) ''mod.b'' \<and> ''mod.b'' \<noteq> cl_impl_name (demo_caller (demo_class ''a'' []))"
proof -
  let ?s = "demo_exec [demo_class ''a'' [], demo_class ''b'' []]" and ?c = "demo_caller (demo_class ''a'' [])"
  let ?run = "service_invoke demo_xc demo_run_world ?c ''b'' Ch_Invoke True False No_Limit True ?s"
  have run: "?run = (fst ?run, snd ?run)" by simp
  have "ex_ran (snd ?run) \<noteq> ex_ran ?s" "\<not> xc_target_matcher demo_xc" "\<not> xc_invoke_matcher demo_xc"
    unfolding demo_invoked by (simp_all add: demo_exec_def demo_xc_def)
  with invoke_stays_within_policy [OF run] demo_invoked show ?thesis by (force simp: may_run_def demo_exec_def)
qed

section \<open>Messages for a target\<close>

text \<open>
  A message comes to one worker after the other, each at its time; they share the flags of processed
  messages.
\<close>

primrec offer ::
    "exec_config \<Rightarrow> 'p run_world \<Rightarrow> 'p service_msg \<Rightarrow> channel_type \<Rightarrow> (int \<times> 'p service_exec) list \<Rightarrow> (string, int) dict \<Rightarrow>
     'p service_exec list" where
  "offer xc w msg channel [] flags = []"
| "offer xc w msg channel (ns # ss) flags =
     (let t = snd (on_message_invoke_service xc w msg channel False ((snd ns)\<lparr>ex_now := fst ns, ex_processed := flags\<rparr>))
      in t # offer xc w msg channel ss (ex_processed t))"

text \<open>The workers in which something ran.\<close>

definition ran_in :: "'p service_exec list \<Rightarrow> 'p service_exec list \<Rightarrow> ('p service_exec \<times> 'p service_exec) list" where
  "ran_in ss ts = filter (\<lambda>(s, t). ex_ran t \<noteq> ex_ran s) (zip ss ts)"

text \<open>\<open>runs_upto n m\<close>: at most \<open>n\<close> services run in \<open>m\<close>, and no message is flagged.\<close>

definition runs_upto :: "nat \<Rightarrow> ('p service_exec, 'a) py \<Rightarrow> bool" where
  "runs_upto n m \<longleftrightarrow> (\<forall>s. ex_processed (snd (m s)) = ex_processed s \<and>
     length (ex_ran s) \<le> length (ex_ran (snd (m s))) \<and> length (ex_ran (snd (m s))) \<le> n + length (ex_ran s))"

lemma runs_upto_bind:
  assumes m: "runs_upto i m" and f: "\<And>x. runs_upto j (f x)"
  shows "runs_upto (i + j) (py_bind m f)"
  unfolding runs_upto_def
proof
  fix s
  obtain r u where u: "m s = (r, u)" by fastforce
  then have mu: "ex_processed u = ex_processed s" "length (ex_ran s) \<le> length (ex_ran u)" "length (ex_ran u) \<le> i + length (ex_ran s)"
    using m unfolding runs_upto_def by (metis snd_conv)+
  show "ex_processed (snd (py_bind m f s)) = ex_processed s \<and> length (ex_ran s) \<le> length (ex_ran (snd (py_bind m f s))) \<and>
      length (ex_ran (snd (py_bind m f s))) \<le> i + j + length (ex_ran s)"
  proof (cases r)
    case (Inr x)
    have "ex_processed (snd (f x u)) = ex_processed u" "length (ex_ran u) \<le> length (ex_ran (snd (f x u)))"
      "length (ex_ran (snd (f x u))) \<le> j + length (ex_ran u)" using f [of x] unfolding runs_upto_def by auto
    with mu u Inr show ?thesis by (simp add: py_bind_def)
  qed (use mu u in \<open>simp add: py_bind_def\<close>)
qed

lemma runs_upto_more: "runs_upto i m \<Longrightarrow> i \<le> j \<Longrightarrow> runs_upto j m"
  unfolding runs_upto_def by (meson add_le_mono1 le_trans)

lemma runs_upto_seq: "runs_upto i m \<Longrightarrow> runs_upto j n \<Longrightarrow> runs_upto (i + j) (py_seq m n)"
proof -
  assume "runs_upto i m" "runs_upto j n"
  then have "runs_upto (i + j) (py_bind m (\<lambda>_. n))" by (rule runs_upto_bind)
  moreover have "py_bind m (\<lambda>_. n) = py_seq m n" by (simp add: fun_eq_iff py_seq_def py_bind_def)
  ultimately show "runs_upto (i + j) (py_seq m n)" by simp
qed

lemma runs_upto_simple:
  "runs_upto 0 (on_store m)" "runs_upto 0 (new_cid_of xc)" "runs_upto 0 (py_sum x)" "runs_upto 0 (py_ret y)"
  "runs_upto 0 (py_raise e)" "runs_upto 0 (py_get f)" "runs_upto 0 (make_instance sc)" "runs_upto 0 (send_callback xc msg)"
  "runs_upto 1 (on_run a b k)"
  by (auto simp: runs_upto_def on_store_def new_cid_of_def py_sum_def make_instance_def send_callback_def on_run_def py_run
      split: prod.split option.split sum.split)

definition run_message :: "exec_config \<Rightarrow> 'p run_world \<Rightarrow> 'p service_msg \<Rightarrow> channel_type \<Rightarrow> bool \<Rightarrow> ('p service_exec, 'p option) py" where
  "run_message xc w msg channel needs_response =
     py_bind (py_sum (read_payload msg)) (\<lambda>_.
       py_bind (on_store (new_instance_by_name (ms_service msg))) (\<lambda>(sc, is_active).
       if \<not> is_active then py_raise (OtherError ''Exception'')
       else
         py_bind (make_instance sc) (\<lambda>i.
         let self = \<lparr>is_class = sc, is_channel = channel, is_patterns_enabled = xc_patterns xc\<rparr> in
         py_seq (on_run (uc_impl_name (sc_class sc)) channel
           (update_handle w (set_service_response_data w True) self i channel None))
         (py_seq (send_callback xc msg)
         (if needs_response then py_get (\<lambda>s. Some (rs_payload (ex_run s))) else py_ret None)))))"

lemma on_message_stages:
  "on_message_invoke_service xc w msg channel needs_response =
     py_bind (takes_message xc msg) (\<lambda>takes. if takes then run_message xc w msg channel needs_response else py_ret None)"
  by (simp add: on_message_invoke_service_def run_message_def if_distrib cong: if_cong) (simp add: fun_eq_iff py_bind_def split: prod.split sum.split)

lemma run_message_once: "runs_upto 1 (run_message xc w msg channel needs_response)"
proof -
  have tail: "runs_upto 0 (py_seq (send_callback xc msg) (if needs_response then py_get g else py_ret None))" for g
    using runs_upto_seq [OF runs_upto_simple(8) runs_upto_simple(6)] runs_upto_seq [OF runs_upto_simple(8) runs_upto_simple(4)]
    by (cases needs_response) simp_all
  have run: "runs_upto 1 (py_seq (on_run a b k) (py_seq (send_callback xc msg) (if needs_response then py_get g else py_ret None)))" for a b k g
    using runs_upto_seq [OF runs_upto_simple(9) tail] by (simp only: add_0_right)
  have inst: "runs_upto 1 (py_bind (make_instance sc) (\<lambda>i. py_seq (on_run a b (k i)) (py_seq (send_callback xc msg) (if needs_response then py_get g else py_ret None))))" for sc a b k g
    using runs_upto_bind [OF runs_upto_simple(7) run] by (simp only: add_0_left)
  have active: "runs_upto 1 (case p of (sc, is_active) \<Rightarrow> if \<not> is_active then py_raise e else py_bind (make_instance sc) (\<lambda>i.
      py_seq (on_run (h sc) b (k sc i)) (py_seq (send_callback xc msg) (if needs_response then py_get g else py_ret None))))" for p e h b k g
    by (cases p) (simp only: prod.case if_split inst runs_upto_more [OF runs_upto_simple(5) zero_le] simp_thms)
  show ?thesis
    unfolding run_message_def Let_def
    using runs_upto_bind [OF runs_upto_simple(3) runs_upto_bind [OF runs_upto_simple(1) active]] by (simp only: add_0_left)
qed

definition flagged :: "'p service_msg \<Rightarrow> 'p service_exec \<Rightarrow> bool" where
  "flagged msg s \<longleftrightarrow> (\<exists>t. map_of (ex_processed s) (ms_cid msg) = Some t \<and> ex_now s < t)"

lemma takes_message_run:
  assumes "takes_message xc msg s = (r, t)"
  shows "ex_ran t = ex_ran s \<and>
    (if mx_target (ms_ctx msg) \<noteq> [] \<and> r = Inr True
     then \<not> flagged msg s \<and> map_of (ex_processed t) (ms_cid msg) = Some (ex_now s + 300) else ex_processed t = ex_processed s)"
  using assms
  by (auto simp: takes_message_def on_target_matcher_def py_run flagged_def dict_simps split: prod.splits sum.splits if_splits option.splits)

lemma message_run:
  assumes run: "on_message_invoke_service xc w msg channel needs_response s = (r, t)" and target: "mx_target (ms_ctx msg) \<noteq> []"
  shows "length (ex_ran t) \<le> Suc (length (ex_ran s)) \<and>
    (ex_ran t = ex_ran s \<and> ex_processed t = ex_processed s \<or>
     \<not> flagged msg s \<and> map_of (ex_processed t) (ms_cid msg) = Some (ex_now s + 300))"
proof -
  obtain r1 u where u: "takes_message xc msg s = (r1, u)" by fastforce
  note taken = takes_message_run [OF u]
  show ?thesis
  proof (cases "r1 = Inr True")
    case False
    then have "t = u" using run u by (auto simp: on_message_stages py_bind_def py_ret_def split: sum.splits if_splits)
    with taken False show ?thesis by simp
  next
    case True
    then have "run_message xc w msg channel needs_response u = (r, t)" using run u by (simp add: on_message_stages py_bind_def)
    then have "ex_processed t = ex_processed u" "length (ex_ran t) \<le> Suc (length (ex_ran u))"
      using run_message_once [of xc w msg channel needs_response] unfolding runs_upto_def by (metis snd_conv, metis Suc_eq_plus1_left snd_conv)
    with taken target True show ?thesis by simp
  qed
qed

text \<open>
  Claim C26. However many workers of a server receive a message that names a target within five
  minutes, and whatever each of them allows, at most one of them runs the service, at most once; and
  none does while the flag of an earlier run lasts.
\<close>

theorem targeted_message_runs_once:
  assumes target: "mx_target (ms_ctx msg) \<noteq> []"
    and times: "\<forall>(now, s)\<in>set ss. start \<le> now \<and> now < start + 300"
  shows "length (ran_in (map snd ss) (offer xc w msg channel ss flags)) \<le>
      (if \<exists>t. map_of flags (ms_cid msg) = Some t \<and> start + 300 \<le> t then 0 else 1) \<and>
    list_all2 (\<lambda>s t. length (ex_ran t) \<le> Suc (length (ex_ran s))) (map snd ss) (offer xc w msg channel ss flags)"
  using times
proof (induction ss arbitrary: flags)
  case (Cons ns ss)
  obtain now s where ns: "ns = (now, s)" by fastforce
  obtain r t where t: "on_message_invoke_service xc w msg channel False (s\<lparr>ex_now := now, ex_processed := flags\<rparr>) = (r, t)" by fastforce
  have now: "start \<le> now" "now < start + 300" using Cons.prems by (auto simp: ns)
  note run = message_run [OF t target, simplified]
  have rest: "length (ran_in (map snd ss) (offer xc w msg channel ss (ex_processed t))) \<le>
      (if \<exists>t'. map_of (ex_processed t) (ms_cid msg) = Some t' \<and> start + 300 \<le> t' then 0 else 1)"
    "list_all2 (\<lambda>s t. length (ex_ran t) \<le> Suc (length (ex_ran s))) (map snd ss) (offer xc w msg channel ss (ex_processed t))"
    using Cons by auto
  have unfolded: "offer xc w msg channel (ns # ss) flags = t # offer xc w msg channel ss (ex_processed t)"
    by (simp add: ns t Let_def)
  from run consider (idle) "ex_ran t = ex_ran s" "ex_processed t = flags"
    | (took) "\<not> (\<exists>t'. map_of flags (ms_cid msg) = Some t' \<and> now < t')" "map_of (ex_processed t) (ms_cid msg) = Some (now + 300)"
    by (auto simp: flagged_def)
  then have "length (ran_in (map snd (ns # ss)) (offer xc w msg channel (ns # ss) flags)) \<le>
      (if \<exists>t. map_of flags (ms_cid msg) = Some t \<and> start + 300 \<le> t then 0 else 1)"
  proof cases
    case idle
    with rest(1) show ?thesis unfolding unfolded by (simp add: ran_in_def ns)
  next
    case took
    then have none: "length (ran_in (map snd ss) (offer xc w msg channel ss (ex_processed t))) = 0" using rest(1) now by simp
    have "\<not> (\<exists>t. map_of flags (ms_cid msg) = Some t \<and> start + 300 \<le> t)" using took(1) now by fastforce
    with none show ?thesis unfolding unfolded by (simp add: ran_in_def)
  qed
  moreover have "length (ex_ran t) \<le> Suc (length (ex_ran s))" using run by blast
  ultimately show ?case using rest(2) unfolding unfolded by (simp add: ns)
qed (simp add: ran_in_def)

definition demo_target_xc :: exec_config where
  "demo_target_xc = demo_xc\<lparr>xc_target_matcher := True\<rparr>"

definition allow_all :: name_matcher where
  "allow_all = new_matcher\<lparr>nm_special_case := Some True\<rparr>"

definition demo_msg :: "string service_msg" where
  "demo_msg = \<lparr>ms_service = ''b'', ms_payload = Given_Payload ''p'', ms_cid = ''c1'', ms_channel = Ch_Invoke_Async, ms_is_async = True,
     ms_callback = None, ms_ctx = \<lparr>mx_target = ''here'', mx_fanout_cid = None, mx_parallel_exec_cid = None\<rparr>, ms_in_reply_to = None\<rparr>"

definition demo_worker :: "string service_exec" where
  "demo_worker = (demo_exec [demo_class ''b'' []])\<lparr>ex_target_matcher := allow_all\<rparr>"

theorem targeted_message_runs_once_witness:
  "length (ran_in [demo_worker, demo_worker] (offer demo_target_xc demo_run_world demo_msg Ch_Invoke_Async [(10, demo_worker), (12, demo_worker)] [])) \<le> 1"
  using targeted_message_runs_once [of demo_msg "[(10, demo_worker), (12, demo_worker)]" 10 demo_target_xc demo_run_world Ch_Invoke_Async "[]"]
  by (simp add: demo_msg_def)

section \<open>The store\<close>

definition store_ok :: "service_store \<Rightarrow> bool" where
  "store_ok st \<longleftrightarrow>
     (\<forall>impl entry sc. map_of (st_services st) impl = Some entry \<longrightarrow> se_class entry = Some sc \<longrightarrow> uc_impl_name (sc_class sc) = impl) \<and>
     (\<forall>name impl. map_of (st_name_to_impl_name st) name = Some impl \<longrightarrow> dict_has impl (st_services st)) \<and>
     (\<forall>i impl. map_of (st_id_to_impl_name st) i = Some impl \<longrightarrow> dict_has impl (st_services st))"

lemma set_up_class_sc:
  assumes "set_up_class_attributes w c s = (Inr sc, t)"
  shows "sc_class sc = c"
  using assms by (auto simp: set_up_class_attributes_def py_run Let_def split: sum.splits)

lemma store_ok_fields:
  "store_ok (st_handlers_update f s) = store_ok s" "store_ok (st_deployed_update g s) = store_ok s"
  "store_ok (st_odb_calls_update h s) = store_ok s" "store_ok (st_patterns_matcher_update k s) = store_ok s"
  "store_ok (st_impl_name_to_id_update l s) = store_ok s"
  by (simp_all add: store_ok_def)

lemma handlers_only: "\<exists>f. add_http_method_handlers c s = st_handlers_update f s"
proof -
  have one: "\<exists>f. add_handler c md s = st_handlers_update f s" for md s
    unfolding add_handler_def Let_def
    by (cases s) (auto split: option.split if_splits intro!: exI [where P = "\<lambda>f. _ = st_handlers_update f _"])
  have "\<exists>f. fold (add_handler c) mds s = st_handlers_update f s" for mds
  proof (induction mds arbitrary: s)
    case (Cons md mds)
    obtain f where "add_handler c md s = st_handlers_update f s" using one by blast
    with Cons [of "st_handlers_update f s"] show ?case by auto
  next
    case Nil
    show ?case by (cases s) (auto intro!: exI [of _ id])
  qed
  then show ?thesis by (simp add: add_http_method_handlers_def)
qed

lemma keeps_set_up: "keeps store_ok (set_up_class_attributes w c)"
proof -
  have "store_ok s \<Longrightarrow> store_ok (add_http_method_handlers c s)" for s
    using handlers_only [of c s] by (auto simp: store_ok_fields)
  then show ?thesis
    by (auto intro!: keepsI simp: set_up_class_attributes_def py_run Let_def split: sum.split)
qed

text \<open>While a class is visited its entry exists, so that the other tables may lead to it.\<close>

definition visiting :: "string \<Rightarrow> service_store \<Rightarrow> bool" where
  "visiting impl st \<longleftrightarrow> store_ok st \<and> dict_has impl (st_services st)"

lemma keeps_on_entry:
  assumes "\<And>entry sc. se_class (f entry) = Some sc \<Longrightarrow> se_class entry = Some sc \<or> uc_impl_name (sc_class sc) = impl"
  shows "keeps (visiting impl) (on_entry impl f)"
proof (rule keepsI)
  fix s assume "visiting impl s"
  with assms show "visiting impl (snd (on_entry impl f s))"
    by (fastforce simp: on_entry_def visiting_def store_ok_def py_run dict_simps split: option.splits)
qed

lemma visiting_modify:
  "visiting impl s \<Longrightarrow> visiting impl (st_deployed_update f s)"
  "visiting impl s \<Longrightarrow> visiting impl (st_id_to_impl_name_update (dict_set i impl) s)"
  "visiting impl s \<Longrightarrow> visiting impl (st_impl_name_to_id_update g s)"
  "visiting impl s \<Longrightarrow> visiting impl (st_name_to_impl_name_update (dict_set n impl) s)"
  by (auto simp: visiting_def store_ok_def dict_simps)

lemma keeps_add_service: "keeps (visiting impl) (add_service w n)"
  by (auto intro!: keepsI simp: add_service_def visiting_def store_ok_def py_run)

lemma keeps_case_pair [keeps_intros]: "(\<And>a b. keeps I (f a b)) \<Longrightarrow> keeps I (case p of (a, b) \<Rightarrow> f a b)"
  by (cases p) simp

lemma keeps_result [keeps_intros]: "keeps I (\<lambda>s. (r, s))"
  by (simp add: keeps_def)

lemma keeps_visit_class: "keeps store_ok (visit_class w c known)"
proof (rule keepsI)
  fix s assume ok: "store_ok s"
  obtain r1 u where u: "set_up_class_attributes w c s = (r1, u)" by fastforce
  have uok: "store_ok u" using keepsD [OF keeps_set_up ok, of w c] u by simp
  show "store_ok (snd (visit_class w c known s))"
  proof (cases r1)
    case (Inl e)
    with u uok show ?thesis by (simp add: visit_class_def Let_def py_bind_def)
  next
    case (Inr sc)
    let ?impl = "uc_impl_name c"
    have sc: "uc_impl_name (sc_class sc) = ?impl" using set_up_class_sc u Inr by simp
    have entry: "keeps (visiting ?impl) (on_entry ?impl (se_name_update f))" "keeps (visiting ?impl) (on_entry ?impl (se_class_update (\<lambda>_. Some sc)))"
      "keeps (visiting ?impl) (on_entry ?impl (se_is_active_update g))" "keeps (visiting ?impl) (on_entry ?impl (se_slow_threshold_update h))" for f g h
      using sc by (auto intro: keeps_on_entry)
    define e0 where "e0 = \<lparr>se_name = None, se_class = None, se_is_active = None, se_slow_threshold = None\<rparr>"
    have start: "visiting ?impl (st_services_update (dict_set ?impl e0) u)"
      using uok by (auto simp: visiting_def store_ok_def dict_simps e0_def)
    define rest where "rest =
      py_seq (on_entry ?impl (se_name_update (\<lambda>_. Some (uc_name c))))
      (py_seq (on_entry ?impl (se_class_update (\<lambda>_. Some sc)))
      (py_bind (case known of
          Some (i, b, t) \<Rightarrow> if i \<noteq> 0 \<and> t \<noteq> 0 then py_ret (i, b, t) else add_service w ?impl
        | None \<Rightarrow> add_service w ?impl) (\<lambda>(service_id, is_active, slow_threshold).
      py_seq (py_modify (st_deployed_update (\<lambda>ds. ds @ [?impl])))
      (py_seq (on_entry ?impl (se_is_active_update (\<lambda>_. Some is_active)))
      (py_seq (on_entry ?impl (se_slow_threshold_update (\<lambda>_. Some slow_threshold)))
      (py_seq (item_set st_id_to_impl_name_update service_id ?impl)
      (py_seq (item_set st_impl_name_to_id_update ?impl service_id)
      (py_seq (item_set st_name_to_impl_name_update (uc_name c) ?impl)
      (case uc_after_add c of None \<Rightarrow> py_ret () | Some e \<Rightarrow> py_raise e)))))))))"
    have keeps: "keeps (visiting ?impl) rest"
      unfolding rest_def
      by (intro keeps_intros entry keeps_add_service visiting_modify; (assumption | (rule visiting_modify, assumption))?)
    have "visit_class w c known s = rest (st_services_update (dict_set ?impl e0) u)"
      using u Inr by (simp add: visit_class_def Let_def py_bind_Inr py_seq_Inr item_set_run rest_def e0_def)
    with keepsD [OF keeps start] show ?thesis by (simp add: visiting_def)
  qed
qed

lemma keeps_visit_item: "keeps store_ok (visit_item w item)"
proof (cases item)
  case (Service_Class c)
  have "keeps store_ok (on_patterns_matcher m)" for m :: "(name_matcher, bool) py"
    by (auto intro!: keepsI simp: on_patterns_matcher_def store_ok_fields split: prod.split)
  then show ?thesis
    unfolding visit_item_def should_deploy_def Service_Class by (auto intro!: keeps_intros keeps_visit_class)
qed (auto simp: visit_item_def should_deploy_def intro!: keeps_intros)

lemma keeps_visit_module: "keeps store_ok (visit_module w items)"
  unfolding visit_module_def by (auto intro!: keeps_intros keeps_visit_item)

interpretation store: py_object "visit_module w" "\<lambda>_ _. True" store_ok for w
  by unfold_locales (rule keepsD [OF keeps_visit_module])

lemma new_store_ok: "store_ok (new_store m)"
  by (simp add: new_store_def store_ok_def)

text \<open>
  Whatever modules were deployed, failed deployments included: what a name of a service leads to is
  an object of a class with the implementation name that the name is for, or \<open>KeyError\<close> if the
  last deployment of the class was not completed.
\<close>

lemma names_lead_to_their_classes:
  assumes "reach (visit_module w) (\<lambda>_ _. True) (new_store m) st"
    and "map_of (st_name_to_impl_name st) name = Some impl"
  shows "case fst (new_instance_by_name name st) of Inl e \<Rightarrow> e = KeyError | Inr (sc, active) \<Rightarrow> uc_impl_name (sc_class sc) = impl"
proof -
  have "store_ok st" by (rule store.reach_inv [OF assms(1) new_store_ok])
  with assms(2) show ?thesis
    by (auto simp: new_instance_by_name_def new_instance_def store_ok_def py_run split: option.split)
qed

text \<open>A class whose deployment completes is found under its name.\<close>

lemma deployed_class_is_found:
  assumes "visit_class w c known s = (Inr (), t)"
  shows "\<exists>sc active. new_instance_by_name (uc_name c) t = (Inr (sc, active), t) \<and> sc_class sc = c"
proof -
  obtain sc u where u: "set_up_class_attributes w c s = (Inr sc, u)"
    using assms by (cases "set_up_class_attributes w c s"; cases "fst (set_up_class_attributes w c s)") (auto simp: visit_class_def Let_def py_bind_def)
  with set_up_class_sc have "sc_class sc = c" by blast
  with assms u show ?thesis
    by (auto simp: visit_class_def Let_def py_run on_entry_def add_service_def new_instance_by_name_def new_instance_def dict_simps
        split: option.splits prod.splits sum.splits if_splits)
qed

section \<open>Where the code does not do what it is meant to do\<close>

text \<open>A deployment that fails in the ODB takes a service away that worked before.\<close>

definition demo_store_world :: "nat \<Rightarrow> store_world" where
  "demo_store_world n =
     \<lparr>ow_match = demo_match, ow_add_service = (\<lambda>k impl. if k < n then Inr (int k + 1, True, 1000) else Inl (OtherError ''OperationalError'')),
      ow_enforce_service_invokes = False, ow_req_resp_freq = (\<lambda>_. Inr 0)\<rparr>"

lemmas deploy_defs =
  visit_module_def visit_item_def should_deploy_def on_patterns_matcher_def name_allowed_def visit_class_def set_up_class_attributes_def
  add_http_method_handlers_def on_entry_def add_service_def new_instance_by_name_def new_instance_def

lemma failed_redeployment_breaks_service:
  "let module = [Service_Class (demo_user_class ''a'' [])]; w = demo_store_world 1;
       once = snd (visit_module w module (new_store allow_all)); twice = snd (visit_module w module once)
   in \<not> isl (fst (new_instance_by_name ''a'' once)) \<and> fst (new_instance_by_name ''a'' twice) = Inl KeyError"
  by (simp add: Let_def deploy_defs demo_store_world_def demo_user_class_def new_store_def allow_all_def new_matcher_def dict_mutate_def py_run)

text \<open>
  A class that inherits from a class with handlers for verbs puts its own into the dictionary of its
  base; they refuse the objects of the base.
\<close>

definition rest_class :: "string \<Rightarrow> string list \<Rightarrow> user_class" where
  "rest_class name bases = (demo_user_class name [])\<lparr>uc_bases := bases, uc_methods := [(''handle_GET'', ''mod.Base'')]\<rparr>"

lemma replace_handle_GET: "replace_handle ''handle_GET'' = ''GET''"
  by (simp add: replace_handle.simps)

lemma subclass_breaks_base:
  "let s = add_http_method_handlers (rest_class ''Base'' []) (new_store allow_all);
       t = add_http_method_handlers (rest_class ''Derived'' [''mod.Base'']) s
   in http_method_handlers (rest_class ''Base'' []) s = [(''GET'', ''mod.Base'', ''mod.Base'')] \<and>
      http_method_handlers (rest_class ''Base'' []) t = [(''GET'', ''mod.Derived'', ''mod.Base'')]"
  by (simp add: Let_def add_http_method_handlers_def add_handler_def http_method_handlers_def handlers_owner_def rest_class_def
      demo_user_class_def new_store_def replace_handle_GET dict_get_def dict_mutate_def)

lemma handler_of_another_class:
  assumes "map_of (io_handlers i) m = Some (im_class, definer)" "im_class \<notin> set (uc_impl_name (io_user_class i) # uc_bases (io_user_class i))"
  shows "invoke_handler w i Ch_Http_Soap (Some m) s = (Inl TypeError, s)"
  using assms by (auto simp: invoke_handler_def py_run)

text \<open>
  The filter \<open>accept\<close> of the service that invokes decides whether the one of the invoked service is
  asked; if only the former has one, the latter's is called though it has none.
\<close>

lemma filter_of_invoked_service_not_asked:
  assumes "Accept \<notin> set (sc_hooks (is_class self))" "rw_prepare w = None"
  shows "accepts w self i"
  using assms by (simp add: accepts_def)

lemma filter_of_invoking_service_breaks:
  assumes "Accept \<in> set (sc_hooks (is_class self))" "\<not> has_hook Accept i" "rw_prepare w = None"
  shows "update_handle w set_response self i channel m s = (Inl TypeError, s)"
  using assms by (simp add: update_handle_def accepts_call_def py_run)

text \<open>A service with handlers for verbs, invoked by another service, has no verb to look for.\<close>

lemma rest_service_invoked_is_refused:
  assumes "io_handlers i \<noteq> []"
  shows "handler_calls i Ch_Invoke (if Ch_Invoke = Ch_Http_Soap then m else None) = [] \<and>
    invoke_handler w i Ch_Invoke None s = (Inr (), s\<lparr>rs_status := METHOD_NOT_ALLOWED\<rparr>)"
  using assms by (simp add: handler_calls_def invoke_handler_def py_run)

text \<open>With the default configuration, in which there are no targets, no asynchronous message is ever sent.\<close>

lemma async_invocation_raises:
  assumes "\<not> xc_target_matcher xc"
  shows "isl (fst (invoke_async xc c name payload channel js cid cb ctx s)) \<and>
    ex_async (snd (invoke_async xc c name payload channel js cid cb ctx s)) = ex_async s \<and>
    ex_published (snd (invoke_async xc c name payload channel js cid cb ctx s)) = ex_published s"
proof -
  let ?I = "\<lambda>t. ex_async t = ex_async s \<and> ex_published t = ex_published s"
  have parts: "keeps ?I (on_store m)" "keeps ?I (on_invoke_matcher n)" "keeps ?I (new_cid_of xc)" for m :: "(service_store, string) py" and n :: "(name_matcher, bool) py"
    by (auto intro!: keepsI simp: on_store_def on_invoke_matcher_def new_cid_of_def py_run split: prod.split)
  have "keeps ?I (invoke_async xc c name payload channel js cid cb ctx)"
    unfolding invoke_async_def Let_def using assms by (auto intro!: keeps_intros parts split: option.split)
  moreover have "isl (fst (invoke_async xc c name payload channel js cid cb ctx s))"
    using assms
    by (auto simp: invoke_async_def py_bind_def py_seq_def py_raise_def py_get_def py_ret_def Let_def split: prod.split sum.split)
  ultimately show ?thesis by (simp add: keeps_def)
qed

text \<open>With targets, no service can be invoked by its id.\<close>

lemma invoke_by_id_raises:
  "xc_target_matcher xc \<Longrightarrow> service_invoke_by_id xc w c n channel serialize as_bunch limit rt s = (Inl TypeError, s)"
  by (simp add: service_invoke_by_id_def py_run)

text \<open>Samples of requests without statistics: the invocation of a service that succeeds raises.\<close>

lemma sample_without_statistics:
  assumes "\<not> rw_stats w" "sc_req_resp_freq (io_class i) \<noteq> 0" "rs_usage s mod sc_req_resp_freq (io_class i) = 0" "rw_is_raw w (rs_payload s)"
  shows "post_handle w i s = (Inl UnboundLocalError, s)"
  using assms by (simp add: post_handle_def getvalue_for_log_def py_run Let_def)

text \<open>Hooks of one kind of job run for jobs of every kind, and for services that a job's service invokes.\<close>

lemma job_hooks_regardless_of_job:
  "set (map Hook (sc_before_job_hooks (io_class i))) \<subseteq> set (service_plan Ch_Scheduler i channel m)"
  by (auto simp: service_plan_def)

end
