(* ===== verification/Fan_Out.thy ===== *)
theory Fan_Out
  imports Service_Invoke
begin

text \<open>
  Fan-out/fan-in and parallel execution (zato-server pattern/__init__.py, fanout.py, parallel.py): a
  service invokes many targets asynchronously; each that finishes stores its response in Redis and
  invokes the callbacks for targets, and the last one those for the whole. Redis is a record of
  operations. JSON texts are the values that they stand for; \<open>jsonable\<close> tells the responses that
  have one. Both methods hold a distributed lock on the cid, so they are atomic here.
\<close>

section \<open>What is stored and sent\<close>

text \<open>A field of the hash of a fan-out: a text, the names of callbacks, or how a call ended.\<close>

datatype 'p field =
    Raw string
  | Names "string list"
  | Result (cr_cid: string) (cr_resp_ts: string) (cr_response: 'p) (cr_exception: "string option")
      (cr_source: "'p field option") (cr_target: string) (cr_req_ts: "'p field option")

datatype 'p fan_payload =
    For_Target 'p
  | For_On_Target "'p field"
  | For_On_Final (of_source: "'p field option") (of_on_final: "string list") (of_on_target: "string list")
      (of_data: "(string \<times> 'p field) list") (of_req_ts: "'p field option")

text \<open>The commands of Redis that the code uses; a hash is known by its fields.\<close>

record ('r, 'p) redis_ops =
  rd_set :: "string \<Rightarrow> int \<Rightarrow> 'r \<Rightarrow> 'r"
  rd_decr :: "string \<Rightarrow> 'r \<Rightarrow> int \<times> 'r"
  rd_hmset :: "string \<Rightarrow> (string, 'p field) dict \<Rightarrow> 'r \<Rightarrow> 'r"
  rd_hset :: "string \<Rightarrow> string \<Rightarrow> 'p field \<Rightarrow> 'r \<Rightarrow> 'r"
  rd_hget :: "string \<Rightarrow> string \<Rightarrow> 'r \<Rightarrow> 'p field option"
  rd_hgetall :: "string \<Rightarrow> 'r \<Rightarrow> (string, 'p field) dict"
  rd_delete :: "string \<Rightarrow> 'r \<Rightarrow> 'r"

record ('r, 'p) fan_state =
  fo_redis :: 'r
  fo_exec :: "'p fan_payload service_exec"

record parallel_pattern =
  pp_counter_pattern :: string
  pp_data_pattern :: string
  pp_call_channel :: channel_type
  pp_on_target_channel :: channel_type
  pp_on_final_channel :: channel_type
  pp_needs_on_final :: bool
  pp_is_fanout :: bool

definition FanOut :: parallel_pattern where
  "FanOut = \<lparr>pp_counter_pattern = ''zato:fanout:counter:'', pp_data_pattern = ''zato:fanout:data:'',
     pp_call_channel = Ch_Fanout_Call, pp_on_target_channel = Ch_Fanout_On_Target, pp_on_final_channel = Ch_Fanout_On_Final,
     pp_needs_on_final = True, pp_is_fanout = True\<rparr>"

text \<open>Parallel execution has no final callbacks, and no channel for them.\<close>

definition ParallelExec :: parallel_pattern where
  "ParallelExec = \<lparr>pp_counter_pattern = ''zato:parallel-exec:counter:'', pp_data_pattern = ''zato:parallel-exec:data:'',
     pp_call_channel = Ch_Parallel_Exec_Call, pp_on_target_channel = Ch_Parallel_Exec_On_Target,
     pp_on_final_channel = Ch_Other ''None'', pp_needs_on_final = False, pp_is_fanout = False\<rparr>"

definition JSON_KEYS :: "string list" where
  "JSON_KEYS = [''source'', ''on_final'', ''on_target'', ''data'', ''req_ts_utc'']"

definition counter_key :: "parallel_pattern \<Rightarrow> string \<Rightarrow> string" where "counter_key p cid = pp_counter_pattern p @ cid"
definition data_key :: "parallel_pattern \<Rightarrow> string \<Rightarrow> string" where "data_key p cid = pp_data_pattern p @ cid"

definition redis :: "('r \<Rightarrow> 'r) \<Rightarrow> (('r, 'p) fan_state, unit) py" where
  "redis f = py_modify (fo_redis_update f)"

definition on_exec :: "('p fan_payload service_exec, 'a) py \<Rightarrow> (('r, 'p) fan_state, 'a) py" where
  "on_exec m s = (case m (fo_exec s) of (r, t) \<Rightarrow> (r, s\<lparr>fo_exec := t\<rparr>))"

definition ctx_of :: "string option \<Rightarrow> string option \<Rightarrow> msg_ctx" where
  "ctx_of fanout_cid parallel_cid = \<lparr>mx_target = [], mx_fanout_cid = fanout_cid, mx_parallel_exec_cid = parallel_cid\<rparr>"

section \<open>Invoking targets\<close>

text \<open>One name or a list of them, or nothing.\<close>

datatype callbacks = No_Callbacks | One_Callback string | Many_Callbacks "string list"

fun callback_list :: "callbacks \<Rightarrow> string list" where
  "callback_list No_Callbacks = []"
| "callback_list (One_Callback name) = [name]"
| "callback_list (Many_Callbacks names) = names"

text \<open>A target has a payload; one that is no text is sent as JSON.\<close>

definition pattern_invoke ::
    "('r, 'p) redis_ops \<Rightarrow> exec_config \<Rightarrow> parallel_pattern \<Rightarrow> caller \<Rightarrow> (string, 'p \<times> bool) dict \<Rightarrow> callbacks \<Rightarrow> callbacks \<Rightarrow>
     string \<Rightarrow> string \<Rightarrow> (('r, 'p) fan_state, string) py" where
  "pattern_invoke ops xc p c targets on_final on_target cid now =
     (let cid = (if cid = [] then cl_cid c else cid);
          ctx = (if pp_is_fanout p then ctx_of (Some cid) None else ctx_of None (Some cid))
      in py_seq (redis (rd_set ops (counter_key p cid) (int (length targets))))
         (py_seq (redis (rd_hmset ops (data_key p cid)
           [(''source'', Raw (cl_name c)), (''on_final'', Names (callback_list on_final)), (''on_target'', Names (callback_list on_target)),
            (''req_ts_utc'', Raw now)]))
         (py_seq (py_for targets (\<lambda>(name, payload, is_text).
           on_exec (py_bind (invoke_async xc c name (For_Target payload) (pp_call_channel p) (\<not> is_text) None No_Callback ctx) (\<lambda>_. py_ret ()))))
         (py_ret cid))))"

definition parallel_invoke ::
    "('r, 'p) redis_ops \<Rightarrow> exec_config \<Rightarrow> caller \<Rightarrow> (string, 'p \<times> bool) dict \<Rightarrow> callbacks \<Rightarrow> string \<Rightarrow> string \<Rightarrow>
     (('r, 'p) fan_state, string) py" where
  "parallel_invoke ops xc c targets on_target cid now = pattern_invoke ops xc ParallelExec c targets No_Callbacks on_target cid now"

section \<open>Calls that finished\<close>

text \<open>Reading a field as JSON, in order to go through it.\<close>

fun json_names :: "'p field option \<Rightarrow> exn + string list" where
  "json_names None = Inl TypeError"
| "json_names (Some (Raw s)) = Inl ValueError"
| "json_names (Some (Names names)) = Inr names"
| "json_names (Some (Result _ _ _ _ _ _ _)) =
     Inr [''cid'', ''resp_ts_utc'', ''response'', ''exception'', ''ok'', ''source'', ''target'', ''req_ts_utc'']"

definition invoke_callbacks ::
    "exec_config \<Rightarrow> caller \<Rightarrow> 'p fan_payload \<Rightarrow> string list \<Rightarrow> channel_type \<Rightarrow> string \<Rightarrow> (('r, 'p) fan_state, unit) py" where
  "invoke_callbacks xc c payload cb_list channel cid =
     py_for cb_list (\<lambda>name. py_when (name \<noteq> [])
       (on_exec (py_bind (invoke_async xc c name payload channel True None No_Callback (ctx_of (Some cid) None)) (\<lambda>_. py_ret ()))))"

text \<open>The fields that are no metadata, each read as JSON.\<close>

definition call_results :: "(string, 'p field) dict \<Rightarrow> exn + (string \<times> 'p field) list" where
  "call_results stored_fields =
     (let results = filter (\<lambda>(key, v). key \<notin> set JSON_KEYS) stored_fields
      in if list_ex (\<lambda>(key, v). case v of Raw s \<Rightarrow> True | _ \<Rightarrow> False) results then Inl ValueError else Inr results)"

definition finish_last ::
    "('r, 'p) redis_ops \<Rightarrow> exec_config \<Rightarrow> parallel_pattern \<Rightarrow> caller \<Rightarrow> string \<Rightarrow> (('r, 'p) fan_state, unit) py" where
  "finish_last ops xc p c cid =
     py_bind (py_get (\<lambda>s. rd_hgetall ops (data_key p cid) (fo_redis s))) (\<lambda>stored_fields.
     py_bind (py_sum (call_results stored_fields)) (\<lambda>results.
     py_seq (py_when (map_of stored_fields ''on_final'' = None \<or> map_of stored_fields ''on_target'' = None) (py_raise KeyError))
     (py_bind (py_sum (json_names (map_of stored_fields ''on_final''))) (\<lambda>on_final.
     py_bind (py_sum (json_names (map_of stored_fields ''on_target''))) (\<lambda>on_target.
     py_seq (invoke_callbacks xc c (For_On_Final (map_of stored_fields ''source'') on_final on_target results (map_of stored_fields ''req_ts_utc''))
       on_final (pp_on_final_channel p) cid)
     (py_seq (redis (rd_delete ops (counter_key p cid)))
     (redis (rd_delete ops (data_key p cid)))))))))"

text \<open>\<open>c\<close> is the service that finished, \<open>cid\<close> what its context says.\<close>

definition on_call_finished ::
    "('r, 'p) redis_ops \<Rightarrow> ('p \<Rightarrow> bool) \<Rightarrow> exec_config \<Rightarrow> parallel_pattern \<Rightarrow> caller \<Rightarrow> string \<Rightarrow> 'p \<Rightarrow> string option \<Rightarrow> string \<Rightarrow>
     (('r, 'p) fan_state, unit) py" where
  "on_call_finished ops jsonable xc p c cid response exception now =
     (let key = data_key p cid in
      py_bind (py_get (\<lambda>s. (rd_hget ops key ''source'' (fo_redis s), rd_hget ops key ''req_ts_utc'' (fo_redis s),
        rd_hget ops key ''on_target'' (fo_redis s)))) (\<lambda>(source, req_ts, on_target).
      let data = Result cid now response exception source (cl_name c) req_ts in
      py_seq (py_when (\<not> jsonable response) (py_raise TypeError))
      (py_seq (redis (rd_hset ops key (cl_name c) data))
      (py_bind (py_sum (json_names on_target)) (\<lambda>on_target.
      py_seq (invoke_callbacks xc c (For_On_Target data) on_target (pp_on_target_channel p) cid)
      (py_bind (\<lambda>s. case rd_decr ops (counter_key p cid) (fo_redis s) of (n, r) \<Rightarrow> (Inr n, s\<lparr>fo_redis := r\<rparr>)) (\<lambda>n.
       py_when (n = 0 \<and> pp_needs_on_final p) (finish_last ops xc p c cid))))))))"

section \<open>What Redis promises\<close>

text \<open>
  \<open>cnt\<close> and \<open>hsh\<close> read the counters and hashes of a database; the commands change those of their
  key as documented, and nothing else.
\<close>

definition redis_spec :: "('r, 'p) redis_ops \<Rightarrow> ('r \<Rightarrow> string \<Rightarrow> int option) \<Rightarrow> ('r \<Rightarrow> string \<Rightarrow> string \<Rightarrow> 'p field option) \<Rightarrow> bool" where
  "redis_spec ops cnt hsh \<longleftrightarrow>
     (\<forall>k n r. cnt (rd_set ops k n r) k = Some n \<and> (\<forall>k'. k' \<noteq> k \<longrightarrow> cnt (rd_set ops k n r) k' = cnt r k' \<and> hsh (rd_set ops k n r) k' = hsh r k')) \<and>
     (\<forall>k r. case rd_decr ops k r of (n, t) \<Rightarrow> n = (case cnt r k of None \<Rightarrow> 0 | Some m \<Rightarrow> m) - 1 \<and> cnt t k = Some n \<and>
        (\<forall>k'. k' \<noteq> k \<longrightarrow> cnt t k' = cnt r k' \<and> hsh t k' = hsh r k')) \<and>
     (\<forall>k fs r. distinct (map fst fs) \<longrightarrow> hsh (rd_hmset ops k fs r) k = hsh r k ++ map_of fs \<and>
        (\<forall>k'. k' \<noteq> k \<longrightarrow> cnt (rd_hmset ops k fs r) k' = cnt r k' \<and> hsh (rd_hmset ops k fs r) k' = hsh r k')) \<and>
     (\<forall>k f v r. hsh (rd_hset ops k f v r) k = (hsh r k)(f \<mapsto> v) \<and>
        (\<forall>k'. k' \<noteq> k \<longrightarrow> cnt (rd_hset ops k f v r) k' = cnt r k' \<and> hsh (rd_hset ops k f v r) k' = hsh r k')) \<and>
     (\<forall>k f r. rd_hget ops k f r = hsh r k f) \<and>
     (\<forall>k r. distinct (map fst (rd_hgetall ops k r)) \<and> map_of (rd_hgetall ops k r) = hsh r k) \<and>
     (\<forall>k r. cnt (rd_delete ops k r) k = None \<and> hsh (rd_delete ops k r) k = (\<lambda>_. None) \<and>
        (\<forall>k'. k' \<noteq> k \<longrightarrow> cnt (rd_delete ops k r) k' = cnt r k' \<and> hsh (rd_delete ops k r) k' = hsh r k'))"

end
