(* ===== verification/Fan_Facts.thy ===== *)
theory Fan_Facts
  imports Fan_Out Service_Facts "HOL-Library.Multiset"
begin

text \<open>
  Fan-in: whatever the order in which the targets of a fan-out finish, and whatever else happens
  in between, each tells the callbacks for targets, and the last one, and only that one, the
  callbacks for the whole, with the results of all. The last section shows the fan-outs that never
  come to their end.
\<close>

section \<open>Messages\<close>

fun payload_of :: "'p msg_payload \<Rightarrow> 'p" where
  "payload_of (Given_Payload p) = p"
| "payload_of (Json_Text p) = p"

type_synonym 'p sent_view = "string \<times> 'p fan_payload \<times> channel_type \<times> string option"

definition view_msg :: "'p fan_payload service_msg \<Rightarrow> 'p sent_view" where
  "view_msg m = (ms_service m, payload_of (ms_payload m), ms_channel m, mx_fanout_cid (ms_ctx m))"

definition sent :: "('r, 'p) fan_state \<Rightarrow> 'p sent_view list" where
  "sent s = map view_msg (ex_async (fo_exec s))"

text \<open>A name that can be invoked asynchronously.\<close>

definition target_sendable :: "exec_config \<Rightarrow> service_store \<Rightarrow> string \<Rightarrow> bool" where
  "target_sendable xc st name \<longleftrightarrow> xc_target_matcher xc \<and> \<not> xc_invoke_matcher xc \<and> extract_target name = Inr (name, []) \<and>
     dict_has name (st_name_to_impl_name st)"

text \<open>What only sends messages.\<close>

definition sends_only :: "'p sent_view list \<Rightarrow> ('r, 'p) fan_state \<Rightarrow> ('r, 'p) fan_state \<Rightarrow> bool" where
  "sends_only views s t \<longleftrightarrow> fo_redis t = fo_redis s \<and> ex_store (fo_exec t) = ex_store (fo_exec s) \<and> sent t = sent s @ views"

lemma sends_only_trans: "sends_only vs s t \<Longrightarrow> sends_only ws t u \<Longrightarrow> sends_only (vs @ ws) s u"
  by (simp add: sends_only_def)

lemma sends_only_refl: "sends_only [] s s"
  by (simp add: sends_only_def)

lemma async_sends:
  assumes "target_sendable xc (ex_store (fo_exec s)) name"
  shows "\<exists>t. on_exec (py_bind (invoke_async xc c name payload channel js None No_Callback ctx) (\<lambda>_. py_ret ())) s = (Inr (), t) \<and>
    sends_only [(name, payload, channel, mx_fanout_cid ctx)] s t"
proof -
  obtain impl where impl: "map_of (st_name_to_impl_name (ex_store (fo_exec s))) name = Some impl"
    using assms by (auto simp: target_sendable_def)
  with assms show ?thesis
    by (cases js) (auto simp: on_exec_def invoke_async_def target_sendable_def py_run py_sum_def on_store_def new_cid_of_def Let_def
        sends_only_def sent_def view_msg_def)
qed

lemma callbacks_sent:
  assumes "\<forall>name\<in>set cbs. name \<noteq> [] \<longrightarrow> target_sendable xc (ex_store (fo_exec s)) name"
  shows "\<exists>t. invoke_callbacks xc c payload cbs channel cid s = (Inr (), t) \<and>
    sends_only (map (\<lambda>name. (name, payload, channel, Some cid)) (filter (\<lambda>name. name \<noteq> []) cbs)) s t"
  using assms
proof (induction cbs arbitrary: s)
  case (Cons name cbs)
  show ?case
  proof (cases "name = []")
    case True
    with Cons show ?thesis by (simp add: invoke_callbacks_def py_run)
  next
    case False
    obtain u where u: "on_exec (py_bind (invoke_async xc c name payload channel True None No_Callback (ctx_of (Some cid) None)) (\<lambda>_. py_ret ())) s = (Inr (), u)"
      "sends_only [(name, payload, channel, Some cid)] s u"
      using async_sends [of xc s name c payload channel True "ctx_of (Some cid) None"] Cons.prems False by (auto simp: ctx_of_def)
    have "\<forall>name\<in>set cbs. name \<noteq> [] \<longrightarrow> target_sendable xc (ex_store (fo_exec u)) name"
      using Cons.prems u(2) by (simp add: sends_only_def)
    from Cons.IH [OF this] obtain t where t: "invoke_callbacks xc c payload cbs channel cid u = (Inr (), t)"
      "sends_only (map (\<lambda>name. (name, payload, channel, Some cid)) (filter (\<lambda>name. name \<noteq> []) cbs)) u t" by blast
    with u False sends_only_trans [OF u(2) t(2)] show ?thesis
      by (simp add: invoke_callbacks_def py_seq_def py_when_def)
  qed
qed (simp add: invoke_callbacks_def py_run sends_only_refl)

lemma targets_sent:
  assumes "\<forall>name\<in>set (dict_keys targets). target_sendable xc (ex_store (fo_exec s)) name"
  shows "\<exists>t. py_for targets (\<lambda>(name, payload, is_text).
      on_exec (py_bind (invoke_async xc c name (For_Target payload) channel (\<not> is_text) None No_Callback ctx) (\<lambda>_. py_ret ()))) s = (Inr (), t) \<and>
    sends_only (map (\<lambda>(name, payload, is_text). (name, For_Target payload, channel, mx_fanout_cid ctx)) targets) s t"
  using assms
proof (induction targets arbitrary: s)
  case (Cons target targets)
  obtain name payload is_text where target: "target = (name, payload, is_text)" by (cases target)
  obtain u where u: "on_exec (py_bind (invoke_async xc c name (For_Target payload) channel (\<not> is_text) None No_Callback ctx) (\<lambda>_. py_ret ())) s = (Inr (), u)"
    "sends_only [(name, For_Target payload, channel, mx_fanout_cid ctx)] s u"
    using async_sends [of xc s name c "For_Target payload" channel "\<not> is_text" ctx] Cons.prems target by auto
  have "\<forall>name\<in>set (dict_keys targets). target_sendable xc (ex_store (fo_exec u)) name"
    using Cons.prems u(2) by (simp add: sends_only_def)
  from Cons.IH [OF this] obtain t where t: "py_for targets (\<lambda>(name, payload, is_text).
      on_exec (py_bind (invoke_async xc c name (For_Target payload) channel (\<not> is_text) None No_Callback ctx) (\<lambda>_. py_ret ()))) u = (Inr (), t)"
    "sends_only (map (\<lambda>(name, payload, is_text). (name, For_Target payload, channel, mx_fanout_cid ctx)) targets) u t" by blast
  with u target sends_only_trans [OF u(2) t(2)] show ?case by (simp add: py_seq_def)
qed (simp add: py_run sends_only_refl)

section \<open>One fan-out\<close>

text \<open>A call that finished: the service, its response, an exception if any, and when.\<close>

type_synonym 'p finished = "caller \<times> 'p \<times> string option \<times> string"

text \<open>What a fan-out was started with.\<close>

record fan_info =
  fi_cid :: string
  fi_source :: string
  fi_on_final :: "string list"
  fi_on_target :: "string list"
  fi_req_ts :: string

definition fan_meta :: "fan_info \<Rightarrow> (string, 'p field) dict" where
  "fan_meta fi = [(''source'', Raw (fi_source fi)), (''on_final'', Names (fi_on_final fi)), (''on_target'', Names (fi_on_target fi)),
     (''req_ts_utc'', Raw (fi_req_ts fi))]"

definition fan_result :: "fan_info \<Rightarrow> 'p finished \<Rightarrow> 'p field" where
  "fan_result fi e = (case e of (c, response, exception, now) \<Rightarrow>
     Result (fi_cid fi) now response exception (Some (Raw (fi_source fi))) (cl_name c) (Some (Raw (fi_req_ts fi))))"

definition fan_results :: "fan_info \<Rightarrow> 'p finished list \<Rightarrow> (string, 'p field) dict" where
  "fan_results fi es = map (\<lambda>e. (cl_name (fst e), fan_result fi e)) es"

text \<open>What the database says of a fan-out of which some calls have finished and \<open>n\<close> have not.\<close>

definition fan_stored ::
    "('r \<Rightarrow> string \<Rightarrow> int option) \<Rightarrow> ('r \<Rightarrow> string \<Rightarrow> string \<Rightarrow> 'p field option) \<Rightarrow> fan_info \<Rightarrow> 'p finished list \<Rightarrow> nat \<Rightarrow> 'r \<Rightarrow> bool" where
  "fan_stored cnt hsh fi es n r \<longleftrightarrow> cnt r (counter_key FanOut (fi_cid fi)) = Some (int n) \<and>
     hsh r (data_key FanOut (fi_cid fi)) = map_of (fan_meta fi) ++ map_of (rev (fan_results fi es))"

definition callbacks_sendable :: "exec_config \<Rightarrow> fan_info \<Rightarrow> service_store \<Rightarrow> bool" where
  "callbacks_sendable xc fi st \<longleftrightarrow> (\<forall>name\<in>set (fi_on_final fi @ fi_on_target fi). name \<noteq> [] \<longrightarrow> target_sendable xc st name)"

text \<open>The messages for callbacks.\<close>

definition on_target_views :: "fan_info \<Rightarrow> 'p finished \<Rightarrow> 'p sent_view list" where
  "on_target_views fi e =
     map (\<lambda>name. (name, For_On_Target (fan_result fi e), Ch_Fanout_On_Target, Some (fi_cid fi))) (filter (\<lambda>n. n \<noteq> []) (fi_on_target fi))"

definition on_final_views :: "fan_info \<Rightarrow> (string \<times> 'p field) list \<Rightarrow> 'p sent_view list" where
  "on_final_views fi data =
     map (\<lambda>name. (name, For_On_Final (Some (Raw (fi_source fi))) (fi_on_final fi) (fi_on_target fi) data (Some (Raw (fi_req_ts fi))),
       Ch_Fanout_On_Final, Some (fi_cid fi))) (filter (\<lambda>n. n \<noteq> []) (fi_on_final fi))"

lemma redis_run: "redis f s = (Inr (), s\<lparr>fo_redis := f (fo_redis s)\<rparr>)"
  by (cases s) (simp add: redis_def py_run)

lemma FanOut_sel [simp]:
  "pp_call_channel FanOut = Ch_Fanout_Call" "pp_on_target_channel FanOut = Ch_Fanout_On_Target"
  "pp_on_final_channel FanOut = Ch_Fanout_On_Final" "pp_needs_on_final FanOut" "pp_is_fanout FanOut"
  by (simp_all add: FanOut_def)

lemma keys_differ: "counter_key FanOut cid \<noteq> data_key FanOut cid'" "data_key FanOut cid' \<noteq> counter_key FanOut cid"
  by (simp_all add: counter_key_def data_key_def FanOut_def)

lemma redis_law_set: "redis_spec ops cnt hsh \<Longrightarrow>
    \<forall>k n r. cnt (rd_set ops k n r) k = Some n \<and> (\<forall>k'. k' \<noteq> k \<longrightarrow> cnt (rd_set ops k n r) k' = cnt r k' \<and> hsh (rd_set ops k n r) k' = hsh r k')"
  and redis_law_decr: "redis_spec ops cnt hsh \<Longrightarrow>
    \<forall>k r. case rd_decr ops k r of (n, t) \<Rightarrow> n = (case cnt r k of None \<Rightarrow> 0 | Some m \<Rightarrow> m) - 1 \<and> cnt t k = Some n \<and>
        (\<forall>k'. k' \<noteq> k \<longrightarrow> cnt t k' = cnt r k' \<and> hsh t k' = hsh r k')"
  and redis_law_hmset: "redis_spec ops cnt hsh \<Longrightarrow>
    \<forall>k fs r. distinct (map fst fs) \<longrightarrow> hsh (rd_hmset ops k fs r) k = hsh r k ++ map_of fs \<and>
        (\<forall>k'. k' \<noteq> k \<longrightarrow> cnt (rd_hmset ops k fs r) k' = cnt r k' \<and> hsh (rd_hmset ops k fs r) k' = hsh r k')"
  and redis_law_hset: "redis_spec ops cnt hsh \<Longrightarrow>
    \<forall>k f v r. hsh (rd_hset ops k f v r) k = (hsh r k)(f \<mapsto> v) \<and>
        (\<forall>k'. k' \<noteq> k \<longrightarrow> cnt (rd_hset ops k f v r) k' = cnt r k' \<and> hsh (rd_hset ops k f v r) k' = hsh r k')"
  and redis_law_hget: "redis_spec ops cnt hsh \<Longrightarrow> \<forall>k f r. rd_hget ops k f r = hsh r k f"
  and redis_law_hgetall: "redis_spec ops cnt hsh \<Longrightarrow>
    \<forall>k r. distinct (map fst (rd_hgetall ops k r)) \<and> map_of (rd_hgetall ops k r) = hsh r k"
  and redis_law_delete: "redis_spec ops cnt hsh \<Longrightarrow>
    \<forall>k r. cnt (rd_delete ops k r) k = None \<and> hsh (rd_delete ops k r) k = (\<lambda>_. None) \<and>
        (\<forall>k'. k' \<noteq> k \<longrightarrow> cnt (rd_delete ops k r) k' = cnt r k' \<and> hsh (rd_delete ops k r) k' = hsh r k')"
  unfolding redis_spec_def by (elim conjE, assumption)+

lemma redis_decr:
  assumes "redis_spec ops cnt hsh" "cnt r k = Some n"
  obtains t where "rd_decr ops k r = (n - 1, t)" "cnt t k = Some (n - 1)" "\<And>k'. k' \<noteq> k \<Longrightarrow> hsh t k' = hsh r k'"
  using redis_law_decr [OF assms(1), THEN spec, THEN spec, of r k] assms(2) by (cases "rd_decr ops k r") auto

text \<open>Starting a fan-out with a new cid.\<close>

lemma fan_out_started:
  assumes rd: "redis_spec ops cnt hsh" and cid: "cid \<noteq> []"
    and new: "hsh (fo_redis s) (data_key FanOut cid) = (\<lambda>_. None)"
    and send: "\<forall>name\<in>set (dict_keys targets). target_sendable xc (ex_store (fo_exec s)) name"
  shows "\<exists>t. pattern_invoke ops xc FanOut c targets on_final on_target cid now s = (Inr cid, t) \<and>
    fan_stored cnt hsh \<lparr>fi_cid = cid, fi_source = cl_name c, fi_on_final = callback_list on_final, fi_on_target = callback_list on_target,
      fi_req_ts = now\<rparr> [] (length targets) (fo_redis t) \<and>
    ex_store (fo_exec t) = ex_store (fo_exec s) \<and>
    sent t = sent s @ map (\<lambda>(name, payload, is_text). (name, For_Target payload, Ch_Fanout_Call, Some cid)) targets"
proof -
  let ?fi = "\<lparr>fi_cid = cid, fi_source = cl_name c, fi_on_final = callback_list on_final, fi_on_target = callback_list on_target, fi_req_ts = now\<rparr>"
  let ?r1 = "rd_set ops (counter_key FanOut cid) (int (length targets)) (fo_redis s)"
  let ?r2 = "rd_hmset ops (data_key FanOut cid) (fan_meta ?fi) ?r1"
  let ?s2 = "s\<lparr>fo_redis := ?r2\<rparr>"
  have d: "distinct (map fst (fan_meta ?fi))" by (simp add: fan_meta_def)
  have stored: "fan_stored cnt hsh ?fi [] (length targets) ?r2"
    using redis_law_set [OF rd, THEN spec, THEN spec, THEN spec, of "counter_key FanOut cid" "int (length targets)" "fo_redis s"]
      redis_law_hmset [OF rd, THEN spec, THEN spec, THEN spec, THEN mp, OF d, of "data_key FanOut cid" ?r1] keys_differ new
    by (simp add: fan_stored_def fan_results_def)
  obtain t where t: "py_for targets (\<lambda>(name, payload, is_text).
      on_exec (py_bind (invoke_async xc c name (For_Target payload) Ch_Fanout_Call (\<not> is_text) None No_Callback (ctx_of (Some cid) None)) (\<lambda>_. py_ret ()))) ?s2 = (Inr (), t)"
    "sends_only (map (\<lambda>(name, payload, is_text). (name, For_Target payload, Ch_Fanout_Call, mx_fanout_cid (ctx_of (Some cid) None))) targets) ?s2 t"
    using targets_sent [of targets xc ?s2 c Ch_Fanout_Call "ctx_of (Some cid) None"] send by auto
  have "pattern_invoke ops xc FanOut c targets on_final on_target cid now s = (Inr cid, t)"
    using t(1) cid by (simp add: pattern_invoke_def Let_def fan_meta_def py_seq_def py_ret_def redis_run)
  with t(2) stored show ?thesis
    by (auto simp: sends_only_def sent_def ctx_of_def)
qed

section \<open>One call after the other\<close>

definition plain_name :: "'p finished \<Rightarrow> bool" where
  "plain_name e \<longleftrightarrow> cl_name (fst e) \<notin> set JSON_KEYS"

lemma results_keys: "\<forall>e\<in>set es. plain_name e \<Longrightarrow> key \<in> set JSON_KEYS \<Longrightarrow> map_of (rev (fan_results fi es)) key = None"
  unfolding map_of_None_iff by (auto simp: fan_results_def plain_name_def)

lemma meta_keys: "key \<notin> set JSON_KEYS \<Longrightarrow> map_of (fan_meta fi) key = None"
  by (auto simp: fan_meta_def JSON_KEYS_def)

lemma results_are_results: "map_of (rev (fan_results fi es)) key = Some v \<Longrightarrow> \<exists>a b c d e f g. v = Result a b c d e f g"
  by (auto dest!: map_of_SomeD simp: fan_results_def fan_result_def split: prod.splits)

lemma map_of_not_json:
  "map_of (filter (\<lambda>(key, v). key \<notin> set JSON_KEYS) xs) k = (if k \<in> set JSON_KEYS then None else map_of xs k)"
  by (induction xs) auto

lemma last_results:
  assumes "distinct (map fst stored_fields)" "map_of stored_fields = map_of (fan_meta fi) ++ map_of (rev (fan_results fi es))"
    and "\<forall>e\<in>set es. plain_name e"
  shows "\<exists>data. call_results stored_fields = Inr data \<and> map_of data = map_of (rev (fan_results fi es)) \<and> distinct (map fst data)"
proof -
  let ?data = "filter (\<lambda>(key, v). key \<notin> set JSON_KEYS) stored_fields"
  have m: "map_of ?data = map_of (rev (fan_results fi es))"
    using assms(2,3) results_keys meta_keys by (fastforce simp: map_of_not_json fun_eq_iff map_add_def split: option.split)
  have d: "distinct (map fst ?data)" using assms(1) by (rule distinct_map_filter)
  have "\<not> list_ex (\<lambda>(key, v). case v of Raw s \<Rightarrow> True | _ \<Rightarrow> False) ?data"
  proof
    assume "list_ex (\<lambda>(key, v). case v of Raw s \<Rightarrow> True | _ \<Rightarrow> False) ?data"
    then obtain key v where kv: "(key, v) \<in> set ?data" "case v of Raw s \<Rightarrow> True | _ \<Rightarrow> False" by (auto simp: list_ex_iff)
    then have "map_of ?data key = Some v" using d by (simp add: map_of_in_set)
    with m have "map_of (rev (fan_results fi es)) key = Some v" by simp
    from results_are_results [OF this] kv(2) show False by auto
  qed
  with m d show ?thesis by (simp add: call_results_def Let_def)
qed

lemma stored_hget:
  assumes rd: "redis_spec ops cnt hsh" and st: "fan_stored cnt hsh fi es n r" and names: "\<forall>e\<in>set es. plain_name e"
  shows "rd_hget ops (data_key FanOut (fi_cid fi)) ''source'' r = Some (Raw (fi_source fi))"
    "rd_hget ops (data_key FanOut (fi_cid fi)) ''req_ts_utc'' r = Some (Raw (fi_req_ts fi))"
    "rd_hget ops (data_key FanOut (fi_cid fi)) ''on_target'' r = Some (Names (fi_on_target fi))"
proof -
  have "rd_hget ops (data_key FanOut (fi_cid fi)) key r = map_of (fan_meta fi) key" if "key \<in> set JSON_KEYS" for key
    using redis_law_hget [OF rd] st results_keys [OF names that] by (simp add: fan_stored_def map_add_def)
  then show "rd_hget ops (data_key FanOut (fi_cid fi)) ''source'' r = Some (Raw (fi_source fi))"
    "rd_hget ops (data_key FanOut (fi_cid fi)) ''req_ts_utc'' r = Some (Raw (fi_req_ts fi))"
    "rd_hget ops (data_key FanOut (fi_cid fi)) ''on_target'' r = Some (Names (fi_on_target fi))"
    by (simp_all add: fan_meta_def JSON_KEYS_def)
qed

text \<open>Storing the result, telling the callbacks for targets, and counting.\<close>

lemma call_counted:
  assumes rd: "redis_spec ops cnt hsh" and st: "fan_stored cnt hsh fi es (Suc n) (fo_redis s)"
    and names: "\<forall>e\<in>set (es @ [(c, response, exception, now)]). plain_name e" and json: "jsonable response"
    and cbs: "callbacks_sendable xc fi (ex_store (fo_exec s))"
  shows "\<exists>t. on_call_finished ops jsonable xc FanOut c (fi_cid fi) response exception now s =
      py_when (n = 0) (finish_last ops xc FanOut c (fi_cid fi)) t \<and>
    fan_stored cnt hsh fi (es @ [(c, response, exception, now)]) n (fo_redis t) \<and> ex_store (fo_exec t) = ex_store (fo_exec s) \<and>
    sent t = sent s @ on_target_views fi (c, response, exception, now)"
proof -
  let ?e = "(c, response, exception, now)" and ?dk = "data_key FanOut (fi_cid fi)" and ?ck = "counter_key FanOut (fi_cid fi)"
  let ?data = "fan_result fi ?e"
  let ?s1 = "s\<lparr>fo_redis := rd_hset ops ?dk (cl_name c) ?data (fo_redis s)\<rparr>"
  note hget = stored_hget [OF rd st]
  have stored: "hsh (fo_redis ?s1) ?dk = map_of (fan_meta fi) ++ map_of (rev (fan_results fi (es @ [?e])))" "cnt (fo_redis ?s1) ?ck = Some (int (Suc n))"
    using redis_law_hset [OF rd] st keys_differ by (simp_all add: fan_stored_def fan_results_def)
  obtain u where u: "invoke_callbacks xc c (For_On_Target ?data) (fi_on_target fi) Ch_Fanout_On_Target (fi_cid fi) ?s1 = (Inr (), u)"
    "sends_only (on_target_views fi ?e) ?s1 u"
    using callbacks_sent [of "fi_on_target fi" xc ?s1 c "For_On_Target ?data" Ch_Fanout_On_Target "fi_cid fi"] cbs
    by (auto simp: callbacks_sendable_def on_target_views_def)
  have cu: "cnt (fo_redis u) ?ck = Some (int (Suc n))" and hu: "hsh (fo_redis u) ?dk = hsh (fo_redis ?s1) ?dk"
    using u(2) stored(2) by (simp_all add: sends_only_def)
  obtain r where r: "rd_decr ops ?ck (fo_redis u) = (int n, r)" "cnt r ?ck = Some (int n)" "hsh r ?dk = hsh (fo_redis u) ?dk"
    using redis_decr [OF rd cu] keys_differ by (metis add_diff_cancel_left' of_nat_Suc)
  let ?t = "u\<lparr>fo_redis := r\<rparr>"
  have "on_call_finished ops jsonable xc FanOut c (fi_cid fi) response exception now s = py_when (n = 0) (finish_last ops xc FanOut c (fi_cid fi)) ?t"
    using hget names json u(1) r(1)
    by (simp add: on_call_finished_def Let_def py_bind_def py_seq_def py_get_def py_when_def py_ret_def redis_run py_sum_def fan_result_def)
  moreover have "fan_stored cnt hsh fi (es @ [?e]) n (fo_redis ?t)" using r hu stored(1) by (simp add: fan_stored_def)
  ultimately show ?thesis using u(2) by (intro exI [of _ ?t]) (simp add: sends_only_def sent_def)
qed

text \<open>The callbacks for the whole, after the last call.\<close>

lemma last_call_finished:
  assumes rd: "redis_spec ops cnt hsh" and st: "fan_stored cnt hsh fi es 0 (fo_redis s)" and names: "\<forall>e\<in>set es. plain_name e"
    and cbs: "callbacks_sendable xc fi (ex_store (fo_exec s))"
  shows "\<exists>t data. finish_last ops xc FanOut c (fi_cid fi) s = (Inr (), t) \<and> map_of data = map_of (rev (fan_results fi es)) \<and>
    distinct (map fst data) \<and> ex_store (fo_exec t) = ex_store (fo_exec s) \<and> sent t = sent s @ on_final_views fi data \<and>
    cnt (fo_redis t) (counter_key FanOut (fi_cid fi)) = None \<and> hsh (fo_redis t) (data_key FanOut (fi_cid fi)) = (\<lambda>_. None)"
proof -
  let ?dk = "data_key FanOut (fi_cid fi)" and ?ck = "counter_key FanOut (fi_cid fi)"
  define fs where "fs = rd_hgetall ops ?dk (fo_redis s)"
  have fs: "distinct (map fst fs)" "map_of fs = map_of (fan_meta fi) ++ map_of (rev (fan_results fi es))"
    using redis_law_hgetall [OF rd] st by (simp_all add: fan_stored_def fs_def)
  obtain data where data: "call_results fs = Inr data" "map_of data = map_of (rev (fan_results fi es))" "distinct (map fst data)"
    using last_results [OF fs names] by blast
  have key: "map_of fs key = map_of (fan_meta fi) key" if "key \<in> set JSON_KEYS" for key
    using fs(2) results_keys [OF names that] by (simp add: map_add_def)
  have meta: "map_of fs ''source'' = Some (Raw (fi_source fi))" "map_of fs ''on_final'' = Some (Names (fi_on_final fi))"
    "map_of fs ''on_target'' = Some (Names (fi_on_target fi))" "map_of fs ''req_ts_utc'' = Some (Raw (fi_req_ts fi))"
    using key by (simp_all add: fan_meta_def JSON_KEYS_def)
  let ?payload = "For_On_Final (Some (Raw (fi_source fi))) (fi_on_final fi) (fi_on_target fi) data (Some (Raw (fi_req_ts fi)))"
  obtain u where u: "invoke_callbacks xc c ?payload (fi_on_final fi) Ch_Fanout_On_Final (fi_cid fi) s = (Inr (), u)"
    "sends_only (on_final_views fi data) s u"
    using callbacks_sent [of "fi_on_final fi" xc s c ?payload Ch_Fanout_On_Final "fi_cid fi"] cbs
    by (auto simp: callbacks_sendable_def on_final_views_def)
  let ?t = "u\<lparr>fo_redis := rd_delete ops ?dk (rd_delete ops ?ck (fo_redis u))\<rparr>"
  have "finish_last ops xc FanOut c (fi_cid fi) s = (Inr (), ?t)"
    using u(1) data(1) meta
    by (simp add: finish_last_def py_bind_def py_seq_def py_get_def py_when_def py_ret_def redis_run py_sum_def fs_def [symmetric])
  moreover have "cnt (fo_redis ?t) ?ck = None \<and> hsh (fo_redis ?t) ?dk = (\<lambda>_. None)"
    using redis_law_delete [OF rd] keys_differ by simp
  ultimately show ?thesis
    using u(2) data by (intro exI [of _ ?t] exI [of _ data]) (simp add: sends_only_def sent_def)
qed

section \<open>All calls\<close>

text \<open>What happens in between does not touch the fan-out or the names of services.\<close>

definition undisturbed ::
    "('r \<Rightarrow> string \<Rightarrow> int option) \<Rightarrow> ('r \<Rightarrow> string \<Rightarrow> string \<Rightarrow> 'p field option) \<Rightarrow> string \<Rightarrow> (('r, 'p) fan_state \<Rightarrow> ('r, 'p) fan_state) \<Rightarrow> bool" where
  "undisturbed cnt hsh cid f \<longleftrightarrow> (\<forall>s. cnt (fo_redis (f s)) (counter_key FanOut cid) = cnt (fo_redis s) (counter_key FanOut cid) \<and>
     hsh (fo_redis (f s)) (data_key FanOut cid) = hsh (fo_redis s) (data_key FanOut cid) \<and> ex_store (fo_exec (f s)) = ex_store (fo_exec s))"

text \<open>The messages that each call sends when it finishes, and the state in the end.\<close>

primrec finish_calls ::
    "('r, 'p) redis_ops \<Rightarrow> ('p \<Rightarrow> bool) \<Rightarrow> exec_config \<Rightarrow> string \<Rightarrow> ('p finished \<times> (('r, 'p) fan_state \<Rightarrow> ('r, 'p) fan_state)) list \<Rightarrow>
     ('r, 'p) fan_state \<Rightarrow> 'p sent_view list list \<times> ('r, 'p) fan_state" where
  "finish_calls ops jsonable xc cid [] s = ([], s)"
| "finish_calls ops jsonable xc cid (ef # es) s =
     (case fst ef of (c, response, exception, now) \<Rightarrow>
        let u = snd ef s;
            t = snd (on_call_finished ops jsonable xc FanOut c cid response exception now u);
            rest = finish_calls ops jsonable xc cid es t
        in (drop (length (sent u)) (sent t) # fst rest, snd rest))"

lemma fan_stored_undisturbed:
  "undisturbed cnt hsh (fi_cid fi) f \<Longrightarrow> fan_stored cnt hsh fi es n (fo_redis s) \<Longrightarrow> fan_stored cnt hsh fi es n (fo_redis (f s))"
  by (simp add: fan_stored_def undisturbed_def)

lemma finish_calls_run:
  assumes rd: "redis_spec ops cnt hsh"
  shows "evs \<noteq> [] \<Longrightarrow> fan_stored cnt hsh fi es (length evs) (fo_redis s) \<Longrightarrow> \<forall>e\<in>set (es @ map fst evs). plain_name e \<Longrightarrow>
    \<forall>(e, f)\<in>set evs. jsonable (fst (snd e)) \<and> undisturbed cnt hsh (fi_cid fi) f \<Longrightarrow> callbacks_sendable xc fi (ex_store (fo_exec s)) \<Longrightarrow>
    \<exists>data. fst (finish_calls ops jsonable xc (fi_cid fi) evs s) =
        map (\<lambda>ef. on_target_views fi (fst ef)) (butlast evs) @ [on_target_views fi (fst (last evs)) @ on_final_views fi data] \<and>
      map_of data = map_of (rev (fan_results fi (es @ map fst evs))) \<and> distinct (map fst data) \<and>
      cnt (fo_redis (snd (finish_calls ops jsonable xc (fi_cid fi) evs s))) (counter_key FanOut (fi_cid fi)) = None \<and>
      hsh (fo_redis (snd (finish_calls ops jsonable xc (fi_cid fi) evs s))) (data_key FanOut (fi_cid fi)) = (\<lambda>_. None)"
proof (induction evs arbitrary: es s)
  case (Cons ef evs)
  obtain c response exception now f where ef: "ef = ((c, response, exception, now), f)" by (cases ef) auto
  let ?e = "(c, response, exception, now)" and ?u = "f s"
  have f: "undisturbed cnt hsh (fi_cid fi) f" and json: "jsonable response" using Cons.prems(4) ef by auto
  have st: "fan_stored cnt hsh fi es (Suc (length evs)) (fo_redis ?u)" using fan_stored_undisturbed [OF f] Cons.prems(2) by simp
  have cbs: "callbacks_sendable xc fi (ex_store (fo_exec ?u))" using Cons.prems(5) f by (simp add: undisturbed_def)
  have names: "\<forall>e\<in>set (es @ [?e]). plain_name e" using Cons.prems(3) ef by auto
  obtain v where v: "on_call_finished ops jsonable xc FanOut c (fi_cid fi) response exception now ?u =
      py_when (length evs = 0) (finish_last ops xc FanOut c (fi_cid fi)) v"
    "fan_stored cnt hsh fi (es @ [?e]) (length evs) (fo_redis v)" "ex_store (fo_exec v) = ex_store (fo_exec ?u)"
    "sent v = sent ?u @ on_target_views fi ?e"
    using call_counted [where jsonable = jsonable, OF rd st names json cbs] by blast
  have cbs': "callbacks_sendable xc fi (ex_store (fo_exec v))" using cbs v(3) by simp
  show ?case
  proof (cases "evs = []")
    case True
    have st0: "fan_stored cnt hsh fi (es @ [?e]) 0 (fo_redis v)" using v(2) True by simp
    from last_call_finished [OF rd st0 names cbs', of c] v(1,4) ef True show ?thesis
      by (fastforce simp: py_when_def Let_def)
  next
    case False
    then have done1: "on_call_finished ops jsonable xc FanOut c (fi_cid fi) response exception now ?u = (Inr (), v)"
      using v(1) by (simp add: py_when_def py_ret_def)
    obtain data where "fst (finish_calls ops jsonable xc (fi_cid fi) evs v) =
        map (\<lambda>ef. on_target_views fi (fst ef)) (butlast evs) @ [on_target_views fi (fst (last evs)) @ on_final_views fi data]"
      "map_of data = map_of (rev (fan_results fi ((es @ [?e]) @ map fst evs)))" "distinct (map fst data)"
      "cnt (fo_redis (snd (finish_calls ops jsonable xc (fi_cid fi) evs v))) (counter_key FanOut (fi_cid fi)) = None"
      "hsh (fo_redis (snd (finish_calls ops jsonable xc (fi_cid fi) evs v))) (data_key FanOut (fi_cid fi)) = (\<lambda>_. None)"
      using Cons.IH [OF False v(2) _ _ cbs'] Cons.prems(3,4) ef by auto
    with done1 v(4) ef False show ?thesis by (intro exI [of _ data]) (simp add: Let_def)
  qed
qed simp

text \<open>
  Claim C17. A fan-out with fresh ids to one or more distinct targets invokes each of them once. When
  they finish, in whatever order, with responses that can be serialised to JSON, and whatever else
  happens in between, under other keys of the database and without changing what is deployed, each tells
  the callbacks for targets of its result; the last one, and no other, tells the final callbacks, once
  each and with the results of all targets; and nothing of the fan-out is left in the database. Targets
  and callbacks are deployed services, named without a target in their names and unlike the fields of
  the fan-out itself; services are checked for targets and not for patterns of what they may invoke; and
  the database keeps counters and hashes as Redis documents it.
\<close>

theorem fan_in_completes:
  assumes rd: "redis_spec ops cnt hsh"
    and start: "cid \<noteq> []" "hsh (fo_redis s) (data_key FanOut cid) = (\<lambda>_. None)" "targets \<noteq> []" "dict_ok targets"
    and send: "\<forall>name\<in>set (dict_keys targets). target_sendable xc (ex_store (fo_exec s)) name"
      "callbacks_sendable xc fi (ex_store (fo_exec s))"
    and fi: "fi = \<lparr>fi_cid = cid, fi_source = cl_name c, fi_on_final = callback_list on_final, fi_on_target = callback_list on_target, fi_req_ts = now\<rparr>"
    and evs: "mset (map (\<lambda>ef. cl_name (fst (fst ef))) evs) = mset (dict_keys targets)"
      "\<forall>(e, f)\<in>set evs. plain_name e \<and> jsonable (fst (snd e)) \<and> undisturbed cnt hsh cid f"
  shows "\<exists>t data. pattern_invoke ops xc FanOut c targets on_final on_target cid now s = (Inr cid, t) \<and>
    sent t = sent s @ map (\<lambda>(name, payload, is_text). (name, For_Target payload, Ch_Fanout_Call, Some cid)) targets \<and>
    fst (finish_calls ops jsonable xc cid evs t) =
      map (\<lambda>ef. on_target_views fi (fst ef)) (butlast evs) @ [on_target_views fi (fst (last evs)) @ on_final_views fi data] \<and>
    dict_ok data \<and> set data = (\<lambda>ef. (cl_name (fst (fst ef)), fan_result fi (fst ef))) ` set evs \<and>
    cnt (fo_redis (snd (finish_calls ops jsonable xc cid evs t))) (counter_key FanOut cid) = None \<and>
    hsh (fo_redis (snd (finish_calls ops jsonable xc cid evs t))) (data_key FanOut cid) = (\<lambda>_. None)"
proof -
  obtain t where t: "pattern_invoke ops xc FanOut c targets on_final on_target cid now s = (Inr cid, t)"
    "fan_stored cnt hsh fi [] (length targets) (fo_redis t)" "ex_store (fo_exec t) = ex_store (fo_exec s)"
    "sent t = sent s @ map (\<lambda>(name, payload, is_text). (name, For_Target payload, Ch_Fanout_Call, Some cid)) targets"
    using fan_out_started [OF rd start(1,2) send(1), of c on_final on_target now] fi by blast
  have len: "length evs = length targets" using arg_cong [OF evs(1), of size] by simp
  then have ne: "evs \<noteq> []" using start(3) by auto
  have "distinct (map (\<lambda>ef. cl_name (fst (fst ef))) evs)" using mset_eq_imp_distinct_iff [OF evs(1)] start(4) by blast
  then have d0: "distinct (map fst (fan_results fi (map fst evs)))" by (simp add: fan_results_def comp_def)
  have d: "distinct (map fst (rev (fan_results fi (map fst evs))))"
    using d0 by (metis distinct_rev rev_map)
  have "fan_stored cnt hsh fi [] (length evs) (fo_redis t)" "\<forall>e\<in>set ([] @ map fst evs). plain_name e"
    "\<forall>(e, f)\<in>set evs. jsonable (fst (snd e)) \<and> undisturbed cnt hsh (fi_cid fi) f" "callbacks_sendable xc fi (ex_store (fo_exec t))"
    using t(2,3) len evs(2) send(2) fi by auto
  from finish_calls_run [OF rd ne this] obtain data where data: "fst (finish_calls ops jsonable xc cid evs t) =
        map (\<lambda>ef. on_target_views fi (fst ef)) (butlast evs) @ [on_target_views fi (fst (last evs)) @ on_final_views fi data]"
      "map_of data = map_of (rev (fan_results fi (map fst evs)))" "distinct (map fst data)"
      "cnt (fo_redis (snd (finish_calls ops jsonable xc cid evs t))) (counter_key FanOut cid) = None"
      "hsh (fo_redis (snd (finish_calls ops jsonable xc cid evs t))) (data_key FanOut cid) = (\<lambda>_. None)"
    using fi by auto
  have "set data = set (rev (fan_results fi (map fst evs)))" by (rule map_of_inject_set [OF data(3) d, THEN iffD1, OF data(2)])
  then have "set data = (\<lambda>ef. (cl_name (fst (fst ef)), fan_result fi (fst ef))) ` set evs"
    by (auto simp: fan_results_def image_comp)
  with t(1,4) data show ?thesis by blast
qed

text \<open>A database of two dictionaries.\<close>

type_synonym 'p demo_redis = "(string, int) dict \<times> (string, (string, 'p field) dict) dict"

definition demo_redis_ops :: "('p demo_redis, 'p) redis_ops" where
  "demo_redis_ops =
     \<lparr>rd_set = (\<lambda>k n (c, h). (dict_set k n c, h)),
      rd_decr = (\<lambda>k (c, h). let n = dict_get k 0 c - 1 in (n, (dict_set k n c, h))),
      rd_hmset = (\<lambda>k new (c, h). (c, dict_set k (dict_update new (dict_get k [] h)) h)),
      rd_hset = (\<lambda>k f v (c, h). (c, dict_set k (dict_set f v (dict_get k [] h)) h)),
      rd_hget = (\<lambda>k f (c, h). map_of (dict_get k [] h) f),
      rd_hgetall = (\<lambda>k (c, h). AList.clearjunk (dict_get k [] h)),
      rd_delete = (\<lambda>k (c, h). (dict_del k c, dict_del k h))\<rparr>"

definition demo_cnt :: "'p demo_redis \<Rightarrow> string \<Rightarrow> int option" where "demo_cnt r k = map_of (fst r) k"
definition demo_hsh :: "'p demo_redis \<Rightarrow> string \<Rightarrow> string \<Rightarrow> 'p field option" where "demo_hsh r k = map_of (dict_get k [] (snd r))"

lemma demo_redis_run:
  "demo_cnt (rd_set demo_redis_ops k n r) k' = (if k' = k then Some n else demo_cnt r k')"
  "demo_hsh (rd_set demo_redis_ops k n r) k' = demo_hsh r k'"
  "rd_decr demo_redis_ops k r = ((case demo_cnt r k of None \<Rightarrow> 0 | Some m \<Rightarrow> m) - 1,
     rd_set demo_redis_ops k ((case demo_cnt r k of None \<Rightarrow> 0 | Some m \<Rightarrow> m) - 1) r)"
  "demo_cnt (rd_hmset demo_redis_ops k fs r) k' = demo_cnt r k'"
  "demo_cnt (rd_hset demo_redis_ops k f v r) k' = demo_cnt r k'"
  "demo_cnt (rd_delete demo_redis_ops k r) k' = (if k' = k then None else demo_cnt r k')"
  by (simp_all add: demo_redis_ops_def demo_cnt_def demo_hsh_def dict_get_def dict_simps Let_def split: prod.split)

lemma demo_hsh_run:
  "distinct (map fst fs) \<Longrightarrow> demo_hsh (rd_hmset demo_redis_ops k fs r) k' = (if k' = k then demo_hsh r k ++ map_of fs else demo_hsh r k')"
  "demo_hsh (rd_hset demo_redis_ops k f v r) k' = (if k' = k then (demo_hsh r k)(f \<mapsto> v) else demo_hsh r k')"
  "rd_hget demo_redis_ops k f r = demo_hsh r k f"
  "distinct (map fst (rd_hgetall demo_redis_ops k r)) \<and> map_of (rd_hgetall demo_redis_ops k r) = demo_hsh r k"
  "demo_hsh (rd_delete demo_redis_ops k r) k' = (if k' = k then (\<lambda>_. None) else demo_hsh r k')"
proof -
  obtain c h where r: "r = (c, h)" by fastforce
  show "distinct (map fst fs) \<Longrightarrow> demo_hsh (rd_hmset demo_redis_ops k fs r) k' = (if k' = k then demo_hsh r k ++ map_of fs else demo_hsh r k')"
    by (simp add: r demo_redis_ops_def demo_hsh_def dict_get_def dict_simps fun_eq_iff map_add_def map_of_dict_update_ok)
  show "demo_hsh (rd_hset demo_redis_ops k f v r) k' = (if k' = k then (demo_hsh r k)(f \<mapsto> v) else demo_hsh r k')"
    by (simp add: r demo_redis_ops_def demo_hsh_def dict_get_def dict_simps fun_eq_iff)
  show "rd_hget demo_redis_ops k f r = demo_hsh r k f" by (simp add: r demo_redis_ops_def demo_hsh_def)
  show "distinct (map fst (rd_hgetall demo_redis_ops k r)) \<and> map_of (rd_hgetall demo_redis_ops k r) = demo_hsh r k"
    by (simp add: r demo_redis_ops_def demo_hsh_def map_of_clearjunk distinct_clearjunk)
  show "demo_hsh (rd_delete demo_redis_ops k r) k' = (if k' = k then (\<lambda>_. None) else demo_hsh r k')"
    by (simp add: r demo_redis_ops_def demo_hsh_def dict_get_def dict_simps)
qed

lemma demo_redis_spec: "redis_spec demo_redis_ops demo_cnt demo_hsh"
  unfolding redis_spec_def by (simp add: demo_redis_run demo_hsh_run)

definition fan_class :: "string \<Rightarrow> service_class" where "fan_class name = demo_class name []"
definition fan_caller :: "string \<Rightarrow> caller" where
  "fan_caller name = \<lparr>cl_class = fan_class name, cl_channel = Ch_Fanout_Call, cl_cid = ''cid''\<rparr>"

definition fan_xc :: exec_config where
  "fan_xc = \<lparr>xc_match = demo_match, xc_target_matcher = True, xc_invoke_matcher = False, xc_patterns = True, xc_new_cid = (\<lambda>n. ''cid'')\<rparr>"

definition fan_demo :: "(string demo_redis, string) fan_state" where
  "fan_demo = \<lparr>fo_redis = ([], []), fo_exec =
     \<lparr>ex_store = (new_store new_matcher)\<lparr>st_name_to_impl_name := [(''a'', ''mod.a''), (''b'', ''mod.b''), (''f'', ''mod.f'')]\<rparr>,
      ex_target_matcher = new_matcher, ex_invoke_matcher = new_matcher, ex_run = new_run (For_Target []), ex_ran = [], ex_published = [],
      ex_async = [], ex_now = 0, ex_processed = [], ex_new_cids = 0\<rparr>\<rparr>"

definition fan_demo_targets :: "(string, string \<times> bool) dict" where
  "fan_demo_targets = [(''a'', ''1'', True), (''b'', ''2'', True)]"

text \<open>The second target finishes first.\<close>

definition fan_demo_calls :: "(string finished \<times> ((string demo_redis, string) fan_state \<Rightarrow> (string demo_redis, string) fan_state)) list" where
  "fan_demo_calls = [((fan_caller ''b'', ''two'', None, ''t''), id), ((fan_caller ''a'', ''one'', Some ''failed'', ''t''), id)]"

lemma demo_targets_sendable: "name \<in> {''a'', ''b'', ''f''} \<Longrightarrow> target_sendable fan_xc (ex_store (fo_exec fan_demo)) name"
  by (auto simp: target_sendable_def fan_xc_def fan_demo_def new_store_def extract_target_def)

lemma cl_name_demo [simp]: "cl_name (fan_caller name) = name"
  by (simp add: cl_name_def fan_caller_def fan_class_def demo_service)

theorem fan_in_completes_witness:
  "\<exists>t data. pattern_invoke demo_redis_ops fan_xc FanOut (fan_caller ''s'') fan_demo_targets (One_Callback ''f'') No_Callbacks ''c'' ''now'' fan_demo = (Inr ''c'', t) \<and>
     fst (finish_calls demo_redis_ops (\<lambda>_. True) fan_xc ''c'' fan_demo_calls t) =
       [[], [(''f'', For_On_Final (Some (Raw ''s'')) [''f''] [] data (Some (Raw ''now'')), Ch_Fanout_On_Final, Some ''c'')]] \<and>
     dict_ok data \<and> fst ` set data = {''b'', ''a''}"
proof -
  let ?fi = "\<lparr>fi_cid = ''c'', fi_source = cl_name (fan_caller ''s''), fi_on_final = callback_list (One_Callback ''f''),
    fi_on_target = callback_list No_Callbacks, fi_req_ts = ''now''\<rparr>"
  have h: "demo_hsh (fo_redis fan_demo) (data_key FanOut ''c'') = (\<lambda>_. None)" "fan_demo_targets \<noteq> []" "dict_ok fan_demo_targets"
    "mset (map (\<lambda>ef. cl_name (fst (fst ef))) fan_demo_calls) = mset (dict_keys fan_demo_targets)"
    by (simp_all add: demo_hsh_def fan_demo_def fan_demo_targets_def fan_demo_calls_def dict_get_def)
  have send: "\<forall>name\<in>set (dict_keys fan_demo_targets). target_sendable fan_xc (ex_store (fo_exec fan_demo)) name"
    "callbacks_sendable fan_xc ?fi (ex_store (fo_exec fan_demo))"
    using demo_targets_sendable by (auto simp: fan_demo_targets_def callbacks_sendable_def)
  have calls: "\<forall>(e, f)\<in>set fan_demo_calls. plain_name e \<and> (\<lambda>_. True) (fst (snd e)) \<and> undisturbed demo_cnt demo_hsh ''c'' f"
    by (simp add: fan_demo_calls_def plain_name_def JSON_KEYS_def undisturbed_def)
  have c: "''c'' \<noteq> []" by simp
  obtain t data where *:
    "pattern_invoke demo_redis_ops fan_xc FanOut (fan_caller ''s'') fan_demo_targets (One_Callback ''f'') No_Callbacks ''c'' ''now'' fan_demo = (Inr ''c'', t)"
    "fst (finish_calls demo_redis_ops (\<lambda>_. True) fan_xc ''c'' fan_demo_calls t) =
      map (\<lambda>ef. on_target_views ?fi (fst ef)) (butlast fan_demo_calls) @ [on_target_views ?fi (fst (last fan_demo_calls)) @ on_final_views ?fi data]"
    "dict_ok data" "set data = (\<lambda>ef. (cl_name (fst (fst ef)), fan_result ?fi (fst ef))) ` set fan_demo_calls"
    using fan_in_completes [OF demo_redis_spec c h(1-3) send refl h(4) calls] by blast
  have "fst ` set data = {''b'', ''a''}" by (simp add: *(4) fan_demo_calls_def)
  moreover have "map (\<lambda>ef. on_target_views ?fi (fst ef)) (butlast fan_demo_calls) @ [on_target_views ?fi (fst (last fan_demo_calls)) @ on_final_views ?fi data]
      = [[], [(''f'', For_On_Final (Some (Raw ''s'')) [''f''] [] data (Some (Raw ''now'')), Ch_Fanout_On_Final, Some ''c'')]]"
    by (simp add: fan_demo_calls_def on_target_views_def on_final_views_def)
  ultimately show ?thesis using *(1-3) by metis
qed


section \<open>Fan-outs that never come to their end\<close>

text \<open>With no targets, no call finishes, so the callbacks for the whole are never invoked.\<close>

lemma fan_out_to_nobody:
  assumes "cid \<noteq> []"
  shows "\<exists>r. pattern_invoke ops xc FanOut c [] on_final on_target cid now s = (Inr cid, s\<lparr>fo_redis := r\<rparr>)"
  using assms by (simp add: pattern_invoke_def Let_def py_seq_def py_ret_def redis_run) (rule exI, rule refl)

text \<open>A response that has no JSON text is not counted: nothing at all happens.\<close>

lemma unserialisable_response_is_not_counted:
  assumes "\<not> jsonable response"
  shows "on_call_finished ops jsonable xc p c cid response exception now s = (Inl TypeError, s)"
  using assms by (simp add: on_call_finished_def Let_def py_run)

text \<open>A name of a callback that is not known stops the call before it is counted.\<close>

lemma unknown_callback_stops_counting:
  assumes rd: "redis_spec ops cnt hsh" and json: "jsonable response"
    and stored: "hsh (fo_redis s) (data_key p cid) ''on_target'' = Some (Names [name])"
    and name: "name \<noteq> []" "xc_target_matcher xc" "\<not> xc_invoke_matcher xc" "extract_target name = Inr (name, [])"
      "\<not> dict_has name (st_name_to_impl_name (ex_store (fo_exec s)))"
  shows "\<exists>data. on_call_finished ops jsonable xc p c cid response exception now s =
    (Inl KeyError, s\<lparr>fo_redis := rd_hset ops (data_key p cid) (cl_name c) data (fo_redis s)\<rparr>)"
proof -
  have g: "rd_hget ops (data_key p cid) ''on_target'' (fo_redis s) = Some (Names [name])"
    using redis_law_hget [OF rd] stored by simp
  have n: "map_of (st_name_to_impl_name (ex_store (fo_exec s))) name = None"
    using name(5) by simp
  have "on_exec (py_bind (invoke_async xc c name payload channel True None No_Callback ctx) (\<lambda>_. py_ret ())) u = (Inl KeyError, u)"
    if "fo_exec u = fo_exec s" for u :: "('a, 'b) fan_state" and payload channel ctx
    using name n that by (cases u) (simp add: on_exec_def invoke_async_def py_run py_sum_def on_store_def Let_def)
  then have cb: "invoke_callbacks xc c payload [name] channel cid u = (Inl KeyError, u)"
    if "fo_exec u = fo_exec s" for u :: "('a, 'b) fan_state" and payload channel
    using name(1) that by (simp add: invoke_callbacks_def py_seq_def py_bind_def py_when_def)
  show ?thesis
    using json g by (simp add: on_call_finished_def Let_def py_bind_def py_seq_def py_get_def py_when_def py_ret_def redis_run py_sum_def cb) (rule exI, rule refl)
qed

text \<open>Parallel execution never removes what it stored.\<close>

lemma parallel_results_stay:
  assumes rd: "redis_spec ops cnt hsh" and run: "on_call_finished ops jsonable xc ParallelExec c cid response exception now s = (Inr (), t)"
    and cbs: "hsh (fo_redis s) (data_key ParallelExec cid) ''on_target'' = Some (Names [])"
  shows "\<exists>data. hsh (fo_redis t) (data_key ParallelExec cid) (cl_name c) = Some data"
proof -
  let ?dk = "data_key ParallelExec cid" and ?ck = "counter_key ParallelExec cid"
  have ne: "?dk \<noteq> ?ck" by (simp add: data_key_def counter_key_def ParallelExec_def)
  have g: "rd_hget ops ?dk ''on_target'' (fo_redis s) = Some (Names [])" using redis_law_hget [OF rd] cbs by simp
  have pp: "\<not> pp_needs_on_final ParallelExec" by (simp add: ParallelExec_def)
  let ?data = "Result cid now response exception (rd_hget ops ?dk ''source'' (fo_redis s)) (cl_name c) (rd_hget ops ?dk ''req_ts_utc'' (fo_redis s))"
  have "fo_redis t = snd (rd_decr ops ?ck (rd_hset ops ?dk (cl_name c) ?data (fo_redis s)))"
    using run g pp
    by (cases "jsonable response")
      (auto simp: on_call_finished_def Let_def py_bind_def py_seq_def py_get_def py_when_def py_ret_def py_raise_def redis_run py_sum_def
        invoke_callbacks_def split: prod.splits)
  moreover have "hsh (rd_hset ops ?dk (cl_name c) ?data (fo_redis s)) ?dk (cl_name c) = Some ?data"
    using redis_law_hset [OF rd] by simp
  moreover have "hsh (snd (rd_decr ops ?ck r)) ?dk = hsh r ?dk" for r
    using redis_law_decr [OF rd, THEN spec, THEN spec, of r ?ck] ne by (auto split: prod.splits)
  ultimately show ?thesis by simp
qed

end
