(* ===== verification/Enmasse.thy ===== *)
theory Enmasse
  imports Py_Text
begin

text \<open>
  Files of configuration objects (zato-cli enmasse.py): the types of objects and what each depends
  on, reading a file with the files that it includes, validating objects, and what is written of
  them. What the codecs, JSON and YAML, read from a path is a function; texts of notices are left
  out.
\<close>

section \<open>Values\<close>

datatype jval = JNone | JBool bool | JInt int | JText string | JList "jval list" | JDict "(string \<times> jval) list"

type_synonym item = "(string, jval) dict"

lemma size_in_zip: "(x, y) \<in> set (zip xs ys) \<Longrightarrow> size x < Suc (size_list size xs)"
  using size_list_estimation' [of x xs "size x" size] set_zip_leftD [of x y xs ys] by simp

lemma size_in_dict: "(k, x) \<in> set d \<Longrightarrow> size x < Suc (size_list (size_prod (\<lambda>_. 0) size) d)"
  using size_list_estimation' [of "(k, x)" d "size x" "size_prod (\<lambda>_. 0) size"] by simp

text \<open>Python's \<open>==\<close>: a boolean is the integer 0 or 1, and the order of a dictionary does not count.\<close>

function jeq :: "jval \<Rightarrow> jval \<Rightarrow> bool" where
  "jeq JNone w = (w = JNone)"
| "jeq (JBool b) w = (case w of JBool c \<Rightarrow> b = c | JInt n \<Rightarrow> n = of_bool b | _ \<Rightarrow> False)"
| "jeq (JInt n) w = (case w of JBool c \<Rightarrow> n = of_bool c | JInt m \<Rightarrow> n = m | _ \<Rightarrow> False)"
| "jeq (JText s) w = (w = JText s)"
| "jeq (JList xs) w = (case w of JList ys \<Rightarrow> length xs = length ys \<and> list_all (\<lambda>(x, y). jeq x y) (zip xs ys) | _ \<Rightarrow> False)"
| "jeq (JDict d) w = (case w of
     JDict e \<Rightarrow> length d = length e \<and> list_all (\<lambda>(k, x). case map_of e k of None \<Rightarrow> False | Some y \<Rightarrow> jeq x y) d
   | _ \<Rightarrow> False)"
  by pat_completeness auto
termination
  by (relation "measure (\<lambda>(v, w). size v)") (auto intro: size_in_zip size_in_dict)

definition jget :: "item \<Rightarrow> string \<Rightarrow> jval" where
  "jget d k = dict_get k JNone d"

text \<open>\<open>item.name\<close>.\<close>

definition attr :: "string \<Rightarrow> item \<Rightarrow> exn + jval" where
  "attr k d = (case map_of d k of None \<Rightarrow> Inl AttributeError | Some v \<Rightarrow> Inr v)"

fun jtruthy :: "jval \<Rightarrow> bool" where
  "jtruthy JNone = False"
| "jtruthy (JBool b) = b"
| "jtruthy (JInt n) = (n \<noteq> 0)"
| "jtruthy (JText s) = (s \<noteq> [])"
| "jtruthy (JList xs) = (xs \<noteq> [])"
| "jtruthy (JDict d) = (d \<noteq> [])"

definition dict_match :: "item \<Rightarrow> item \<Rightarrow> bool" where
  "dict_match haystack needle = list_all (\<lambda>(k, v). jeq (jget haystack k) v) needle"

section \<open>Types of objects\<close>

text \<open>A field whose value decides; the values are one or many.\<close>

record condition =
  only_if_field :: string
  only_if_value :: "jval list"

record object_dep =
  dependent_type :: string
  dependent_field :: string
  empty_value :: jval
  dep_condition :: "condition option"
  id_field :: "string option"

text \<open>What a specification says of a service: its name and the names of required parameters, if any.\<close>

record method_sig =
  mg_name :: string
  mg_required :: "string list option"

record service_info =
  si_name :: string
  si_prefix :: "string option"
  si_methods :: "(string, method_sig) dict"
  si_object_deps :: "(string, object_dep) dict"
  si_service_deps :: "(string, condition option) dict"
  si_export_filter :: item

text \<open>The module's variables: types are objects, referred to by their position in the list.\<close>

record em_services =
  gs_services :: "service_info list"
  gs_by_name :: "(string, nat) dict"
  gs_by_prefix :: "(string option, nat) dict"

definition ZATO_NO_SECURITY :: jval where "ZATO_NO_SECURITY = JText ''zato-no-security''"

definition new_info :: "string \<Rightarrow> string option \<Rightarrow> service_info" where
  "new_info name pfx =
     \<lparr>si_name = (if name = [] then (case pfx of None \<Rightarrow> [] | Some p \<Rightarrow> p) else name), si_prefix = pfx, si_methods = [],
      si_object_deps = [], si_service_deps = [], si_export_filter = []\<rparr>"

definition dep_on :: "string \<Rightarrow> object_dep" where
  "dep_on t = \<lparr>dependent_type = t, dependent_field = ''name'', empty_value = JNone, dep_condition = None, id_field = None\<rparr>"

definition with_object_deps :: "(string, object_dep) dict \<Rightarrow> service_info \<Rightarrow> service_info" where
  "with_object_deps deps = si_object_deps_update (\<lambda>_. deps)"

definition with_service_deps :: "(string, condition option) dict \<Rightarrow> service_info \<Rightarrow> service_info" where
  "with_service_deps deps = si_service_deps_update (\<lambda>_. deps)"

definition SERVICES :: "service_info list" where
  "SERVICES =
     [with_object_deps [(''def_name'', dep_on ''def_amqp'')]
        (with_service_deps [(''service_name'', None)] (new_info ''channel_amqp'' (Some ''zato.channel.amqp''))),
      with_service_deps [(''service'', None)] (new_info ''web_socket'' None),
      with_object_deps
        [(''ws_channel_name'', (dep_on ''web_socket'')
            \<lparr>dep_condition := Some \<lparr>only_if_field = ''endpoint_type'', only_if_value = [JText ''wsx'']\<rparr>, id_field := Some ''ws_channel_id''\<rparr>),
         (''sec_def'', (dep_on ''basic_auth'')
            \<lparr>empty_value := ZATO_NO_SECURITY,
             dep_condition := Some \<lparr>only_if_field = ''endpoint_type'', only_if_value = [JText ''soap'', JText ''rest'']\<rparr>,
             id_field := Some ''security_id''\<rparr>)]
        (new_info ''pubsub_endpoint'' (Some ''zato.pubsub.endpoint'')),
      with_object_deps [(''def_name'', dep_on ''def_jms_wmq'')]
        (with_service_deps [(''service_name'', None)] (new_info ''channel_jms_wmq'' (Some ''zato.channel.jms-wmq''))),
      with_service_deps [(''service_name'', None)] (new_info ''channel_zmq'' (Some ''zato.channel.zmq'')),
      new_info ''def_sec'' (Some ''zato.security''),
      (with_object_deps
        [(''sec_def'', (dep_on ''def_sec'')\<lparr>empty_value := ZATO_NO_SECURITY, id_field := Some ''security_id''\<rparr>)]
        (with_service_deps
          [(''service_name'', Some \<lparr>only_if_field = ''connection'', only_if_value = [JText ''channel'']\<rparr>)]
          (new_info ''http_soap'' (Some ''zato.http-soap''))))\<lparr>si_export_filter := [(''is_internal'', JBool True)]\<rparr>,
      with_service_deps [(''service_name'', None)] (new_info ''scheduler'' None),
      with_object_deps [(''def_name'', dep_on ''outconn_sql'')] (new_info ''notif_sql'' (Some ''zato.notif.sql'')),
      with_object_deps [(''def_name'', dep_on ''def_amqp'')] (new_info ''outconn_amqp'' (Some ''zato.outgoing.amqp'')),
      with_object_deps [(''def_name'', dep_on ''def_jms_wmq'')] (new_info ''outconn_jms_wmq'' (Some ''zato.outgoing.jms-wmq'')),
      with_object_deps [(''def_name'', (dep_on ''def_cassandra'')\<lparr>empty_value := ZATO_NO_SECURITY\<rparr>)]
        (new_info ''query_cassandra'' (Some ''zato.query.cassandra''))]"

text \<open>A dictionary built from a list: later entries replace earlier ones.\<close>

definition index_by :: "(service_info \<Rightarrow> 'k) \<Rightarrow> service_info list \<Rightarrow> ('k, nat) dict" where
  "index_by f infos = dict_update (zip (map f infos) [0..<length infos]) []"

definition initial_services :: em_services where
  "initial_services =
     \<lparr>gs_services = SERVICES, gs_by_name = index_by si_name SERVICES, gs_by_prefix = index_by si_prefix SERVICES\<rparr>"

definition service_by_name :: "em_services \<Rightarrow> string \<Rightarrow> service_info option" where
  "service_by_name gs t = map_option (\<lambda>i. gs_services gs ! i) (map_of (gs_by_name gs) t)"

definition is_security :: "service_info \<Rightarrow> bool" where
  "is_security info = (case si_prefix info of None \<Rightarrow> False | Some p \<Rightarrow> startswith ''zato.security.'' p)"

definition security_names :: "em_services \<Rightarrow> string list" where
  "security_names gs = map si_name (filter is_security (gs_services gs))"

definition get_service_name :: "string \<Rightarrow> service_info \<Rightarrow> string option" where
  "get_service_name m info = map_option mg_name (map_of (si_methods info) m)"

text \<open>The names form a set.\<close>

definition get_required_keys :: "service_info \<Rightarrow> exn + string list" where
  "get_required_keys info =
     (case map_of (si_methods info) ''create'' of
        None \<Rightarrow> Inr []
      | Some sig \<Rightarrow> (case mg_required sig of None \<Rightarrow> Inl KeyError | Some names \<Rightarrow> Inr (remdups (filter (\<lambda>n. n \<noteq> ''cluster_id'') names))))"

definition test_item :: "item \<Rightarrow> condition option \<Rightarrow> bool" where
  "test_item d cond =
     (case cond of None \<Rightarrow> True | Some c \<Rightarrow> only_if_field c = [] \<or> list_ex (jeq (jget d (only_if_field c))) (only_if_value c))"

text \<open>\<open>service\<close> and \<open>service_name\<close> mean the same.\<close>

definition normalize_service_name :: "item \<Rightarrow> item" where
  "normalize_service_name d =
     (if dict_has ''service'' d \<or> dict_has ''service_name'' d
      then (let e = dict_setdefault ''service'' (jget d ''service_name'') d in dict_setdefault ''service_name'' (jget e ''service'') e)
      else d)"

section \<open>Types known to a server\<close>

definition IGNORE_PREFIXES :: "string list" where
  "IGNORE_PREFIXES = [''zato.kvdb.data-dict.dictionary'', ''zato.kvdb.data-dict.translation'']"

definition SHORTNAME_BY_PREFIX :: "(string \<times> string) list" where
  "SHORTNAME_BY_PREFIX =
     [(''zato.pubsub.'', ''pubsub''), (''zato.definition.'', ''def''), (''zato.email.'', ''email''),
      (''zato.message.namespace'', ''def_namespace''), (''zato.cloud.aws.s3'', ''cloud_aws_s3''),
      (''zato.cloud.openstack.swift'', ''def_cloud_openstack_swift''), (''zato.message.xpath'', ''xpath''),
      (''zato.message.json-pointer'', ''json_pointer''), (''zato.notif.'', ''notif''), (''zato.outgoing.'', ''outconn''),
      (''zato.scheduler.job'', ''scheduler''), (''zato.search.'', ''search''), (''zato.security.tls.channel'', ''tls_channel_sec''),
      (''zato.security.xpath'', ''xpath_sec''), (''zato.security.'', []), (''zato.channel.'', [])]"

fun short_name :: "(string \<times> string) list \<Rightarrow> string \<Rightarrow> string \<Rightarrow> string" where
  "short_name [] pfx escaped = escaped"
| "short_name ((module_prefix, name_prefix) # rest) pfx escaped =
     (if startswith module_prefix pfx \<and> last module_prefix = CHR ''.''
      then (let name = drop (length module_prefix) escaped in if name_prefix = [] then name else name_prefix @ ''_'' @ name)
      else if pfx = module_prefix then name_prefix
      else short_name rest pfx escaped)"

definition make_service_name :: "string \<Rightarrow> string" where
  "make_service_name pfx =
     short_name SHORTNAME_BY_PREFIX pfx (map (\<lambda>c. if c = CHR ''.'' \<or> c = CHR ''-'' then CHR ''_'' else c) pfx)"

text \<open>\<open>name.rpartition('.')\<close>, without the separator.\<close>

definition rpartition_dot :: "string \<Rightarrow> string \<times> string" where
  "rpartition_dot name =
     (if CHR ''.'' \<in> set name
      then (rev (tl (dropWhile (\<lambda>c. c \<noteq> CHR ''.'') (rev name))), rev (takeWhile (\<lambda>c. c \<noteq> CHR ''.'') (rev name)))
      else ([], name))"

definition methods_by_prefix :: "method_sig list \<Rightarrow> (string, (string, method_sig) dict) dict" where
  "methods_by_prefix sigs =
     fold (\<lambda>sig d. case rpartition_dot (mg_name sig) of
       (pfx, name) \<Rightarrow> dict_mutate pfx (dict_set name sig) (dict_setdefault pfx [] d)) sigs []"

definition populate_prefix :: "string \<times> (string, method_sig) dict \<Rightarrow> (em_services, unit) py" where
  "populate_prefix pm =
     (case pm of (pfx, methods) \<Rightarrow>
      py_when (list_all (\<lambda>n. dict_has n methods) [''get-list'', ''create'', ''edit''] \<and> pfx \<notin> set IGNORE_PREFIXES)
        (py_bind (py_get (\<lambda>gs. map_of (gs_by_prefix gs) (Some pfx))) (\<lambda>found.
         py_bind (case found of
             Some i \<Rightarrow> py_ret i
           | None \<Rightarrow>
               let info = new_info (make_service_name pfx) (Some pfx) in
               if si_name info = [] then py_raise (OtherError ''AssertionError'')
               else py_bind (py_get (\<lambda>gs. length (gs_services gs))) (\<lambda>i.
                 py_seq (item_set gs_by_prefix_update (Some pfx) i)
                 (py_seq (item_set gs_by_name_update (si_name info) i)
                 (py_seq (py_modify (gs_services_update (\<lambda>infos. infos @ [info])))
                 (py_ret i))))) (\<lambda>i.
         py_modify (gs_services_update (\<lambda>infos. infos[i := (infos ! i)\<lparr>si_methods := methods\<rparr>]))))))"

text \<open>The specification is \<open>None\<close> when it could not be fetched.\<close>

definition populate_services_from_apispec :: "method_sig list option \<Rightarrow> (em_services, unit) py" where
  "populate_services_from_apispec spec =
     (case spec of None \<Rightarrow> py_ret () | Some sigs \<Rightarrow> py_for (methods_by_prefix sigs) populate_prefix)"

end
