(* ===== verification/Enmasse_Files.thy ===== *)
theory Enmasse_Files
  imports Enmasse
begin

text \<open>
  Reading files of configuration objects with what they include, validating the objects, and what
  is written of them (zato-cli enmasse.py: InputParser, InputValidator, DependencyScanner and
  \<open>write_output\<close>). Items are dictionaries, or texts that are paths of includes; a list of pairs, which
  would also make a dictionary, is refused like other values.
\<close>

section \<open>Notices\<close>

type_synonym code = "string \<times> string"

definition WARNING_ALREADY_EXISTS_IN_ODB :: code where "WARNING_ALREADY_EXISTS_IN_ODB = (''W01'', ''already exists in ODB'')"
definition ERROR_ITEM_INCLUDED_MULTIPLE_TIMES :: code where "ERROR_ITEM_INCLUDED_MULTIPLE_TIMES = (''E01'', ''item incl multiple'')"
definition ERROR_INVALID_INPUT :: code where "ERROR_INVALID_INPUT = (''E05'', ''invalid JSON'')"
definition ERROR_UNKNOWN_ELEM :: code where "ERROR_UNKNOWN_ELEM = (''E06'', ''unrecognized import element'')"
definition ERROR_KEYS_MISSING :: code where "ERROR_KEYS_MISSING = (''E08'', ''missing keys'')"
definition ERROR_INVALID_SEC_DEF_TYPE :: code where "ERROR_INVALID_SEC_DEF_TYPE = (''E09'', ''invalid sec def type'')"
definition ERROR_INVALID_KEY :: code where "ERROR_INVALID_KEY = (''E10'', ''invalid key'')"
definition ERROR_SERVICE_NAME_MISSING :: code where "ERROR_SERVICE_NAME_MISSING = (''E11'', ''service name missing'')"
definition ERROR_SERVICE_MISSING :: code where "ERROR_SERVICE_MISSING = (''E12'', ''service missing'')"
definition ERROR_MISSING_DEP :: code where "ERROR_MISSING_DEP = (''E13'', ''dependency missing'')"
definition ERROR_COULD_NOT_IMPORT_OBJECT :: code where "ERROR_COULD_NOT_IMPORT_OBJECT = (''E13'', ''could not import object'')"
definition ERROR_TYPE_MISSING :: code where "ERROR_TYPE_MISSING = (''E04'', ''type missing'')"

text \<open>A notice has a code and the type or key and the item that it is about.\<close>

record notice =
  nt_code :: code
  nt_type :: string
  nt_item :: item

record results =
  re_warnings :: "notice list"
  re_errors :: "notice list"

definition no_results :: results where "no_results = \<lparr>re_warnings = [], re_errors = []\<rparr>"

definition add_error :: "code \<Rightarrow> string \<Rightarrow> item \<Rightarrow> results \<Rightarrow> results" where
  "add_error c t d = re_errors_update (\<lambda>ns. ns @ [\<lparr>nt_code = c, nt_type = t, nt_item = d\<rparr>])"

definition add_warning :: "code \<Rightarrow> string \<Rightarrow> item \<Rightarrow> results \<Rightarrow> results" where
  "add_warning c t d = re_warnings_update (\<lambda>ns. ns @ [\<lparr>nt_code = c, nt_type = t, nt_item = d\<rparr>])"

definition results_ok :: "results \<Rightarrow> bool" where
  "results_ok r \<longleftrightarrow> re_warnings r = [] \<and> re_errors r = []"

section \<open>Paths\<close>

text \<open>\<open>os.path\<close>: \<open>join\<close>, \<open>dirname\<close>, \<open>normpath\<close> and \<open>abspath\<close> in the directory \<open>cwd\<close>.\<close>

definition path_join :: "string \<Rightarrow> string \<Rightarrow> string" where
  "path_join a b = (if startswith ''/'' b then b else if a = [] \<or> last a = CHR ''/'' then a @ b else a @ ''/'' @ b)"

definition path_dirname :: "string \<Rightarrow> string" where
  "path_dirname p =
     (let head = rev (dropWhile (\<lambda>c. c \<noteq> CHR ''/'') (rev p))
      in if list_all (\<lambda>c. c = CHR ''/'') head then head else rev (dropWhile (\<lambda>c. c = CHR ''/'') (rev head)))"

definition path_component :: "bool \<Rightarrow> string \<Rightarrow> string list \<Rightarrow> string list" where
  "path_component rooted part comps =
     (if part = [] \<or> part = ''.'' then comps
      else if part \<noteq> ''..'' \<or> \<not> rooted \<and> comps = [] \<or> comps \<noteq> [] \<and> last comps = ''..'' then comps @ [part]
      else butlast comps)"

definition normpath :: "string \<Rightarrow> string" where
  "normpath p =
     (let slashes = (if startswith ''//'' p \<and> \<not> startswith ''///'' p then ''//'' else if startswith ''/'' p then ''/'' else []);
          path = slashes @ join_on CHR ''/'' (fold (path_component (slashes \<noteq> [])) (split_on CHR ''/'' p) [])
      in if path = [] then ''.'' else path)"

definition abspath :: "string \<Rightarrow> string \<Rightarrow> string" where
  "abspath cwd p = normpath (path_join cwd p)"

section \<open>Reading\<close>

definition HTTP_SOAP_KINDS :: "(string \<times> string \<times> string) list" where
  "HTTP_SOAP_KINDS =
     [(''channel_soap'', ''channel'', ''soap''), (''channel_plain_http'', ''channel'', ''plain_http''),
      (''outconn_soap'', ''outgoing'', ''soap''), (''outconn_plain_http'', ''outgoing'', ''plain_http'')]"

definition HTTP_SOAP_ITEM_TYPES :: "string list" where
  "HTTP_SOAP_ITEM_TYPES = map fst HTTP_SOAP_KINDS"

record parser =
  pa_json :: "(string, item list) dict"
  pa_seen_includes :: "string list"
  pa_results :: results

text \<open>\<open>ip_load\<close> opens a file and decodes it; \<open>ip_cwd\<close> is the current directory.\<close>

record parser_env =
  ip_services :: em_services
  ip_path :: string
  ip_cwd :: string
  ip_load :: "string \<Rightarrow> exn + jval"

definition IOError :: exn where "IOError = OtherError ''IOError''"
definition RuntimeError :: exn where "RuntimeError = OtherError ''RuntimeError''"

definition parser_error :: "code \<Rightarrow> string \<Rightarrow> item \<Rightarrow> (parser, unit) py" where
  "parser_error c t d = py_modify (pa_results_update (add_error c t d))"

definition parse_file :: "parser_env \<Rightarrow> string \<Rightarrow> (parser, jval) py" where
  "parse_file env path =
     (case ip_load env path of
        Inr v \<Rightarrow> py_ret v
      | Inl e \<Rightarrow>
          if e \<in> {IOError, TypeError, ValueError} then py_seq (parser_error ERROR_INVALID_INPUT path []) (py_ret JNone)
          else py_raise e)"

definition get_include_path :: "parser_env \<Rightarrow> string \<Rightarrow> string" where
  "get_include_path env include_path = abspath (ip_cwd env) (path_join (path_dirname (ip_path env)) (erase ''file://'' include_path))"

text \<open>\<open>Bunch(item)\<close>, appended to the list of a type.\<close>

definition to_bunch :: "jval \<Rightarrow> exn + item" where
  "to_bunch v = (case v of JDict d \<Rightarrow> Inr d | JList [] \<Rightarrow> Inr [] | _ \<Rightarrow> Inl TypeError)"

definition append_item :: "string \<Rightarrow> jval \<Rightarrow> (parser, unit) py" where
  "append_item t v =
     py_seq (py_modify (pa_json_update (dict_setdefault t [])))
     (py_bind (py_sum (to_bunch v)) (\<lambda>d.
      py_modify (pa_json_update (dict_mutate t (\<lambda>ds. ds @ [d])))))"

definition parse_def_sec :: "parser_env \<Rightarrow> jval \<Rightarrow> (parser, unit) py" where
  "parse_def_sec env v =
     (case v of
        JDict d \<Rightarrow>
          let sec_type = jget d ''type''; d = dict_del ''type'' d in
          (case sec_type of
             JNone \<Rightarrow> parser_error ERROR_TYPE_MISSING ''def_sec'' d
           | JText t \<Rightarrow>
               if t \<in> set (security_names (ip_services env)) then append_item t (JDict d)
               else parser_error ERROR_INVALID_SEC_DEF_TYPE ''def_sec'' d
           | _ \<Rightarrow> parser_error ERROR_INVALID_SEC_DEF_TYPE ''def_sec'' d)
      | JList xs \<Rightarrow> py_raise TypeError
      | _ \<Rightarrow> py_raise AttributeError)"

text \<open>\<open>include\<close> reads the file of a path.\<close>

definition parse_item :: "parser_env \<Rightarrow> (string \<Rightarrow> string \<Rightarrow> (parser, unit) py) \<Rightarrow> string \<Rightarrow> jval \<Rightarrow> (parser, unit) py" where
  "parse_item env include t v =
     (case v of
        JText path \<Rightarrow> include t path
      | _ \<Rightarrow> if t = ''def_sec'' then parse_def_sec env v else append_item t v)"

text \<open>Four kinds of objects are one type with a connection and a transport.\<close>

definition maybe_fixup_http_soap :: "string \<Rightarrow> item \<Rightarrow> string \<times> item" where
  "maybe_fixup_http_soap t d =
     (case map_of HTTP_SOAP_KINDS t of
        None \<Rightarrow> (t, d)
      | Some (connection, transport) \<Rightarrow>
          (''http_soap'', dict_set ''transport'' (JText transport) (dict_set ''connection'' (JText connection) d)))"

text \<open>What a loop goes through: a dictionary's keys, a text's characters.\<close>

definition elements :: "jval \<Rightarrow> exn + jval list" where
  "elements v =
     (case v of JList xs \<Rightarrow> Inr xs | JDict d \<Rightarrow> Inr (map JText (dict_keys d)) | JText s \<Rightarrow> Inr (map (\<lambda>c. JText [c]) s) | _ \<Rightarrow> Inl TypeError)"

definition parse_items :: "parser_env \<Rightarrow> (string \<Rightarrow> string \<Rightarrow> (parser, unit) py) \<Rightarrow> item \<Rightarrow> (parser, unit) py" where
  "parse_items env include dct =
     py_for dct (\<lambda>(t, vs).
       if \<not> dict_has t (gs_by_name (ip_services env)) \<and> t \<notin> set HTTP_SOAP_ITEM_TYPES then parser_error ERROR_UNKNOWN_ELEM t []
       else py_bind (py_sum (elements vs)) (\<lambda>vs. py_for vs (\<lambda>v.
         case v of
           JDict d \<Rightarrow> (case maybe_fixup_http_soap t d of (t, d) \<Rightarrow> parse_item env include t (JDict (normalize_service_name d)))
         | _ \<Rightarrow> parse_item env include t v)))"

text \<open>Includes nest at most as deep as the interpreter's stack allows.\<close>

primrec load_include :: "parser_env \<Rightarrow> nat \<Rightarrow> string \<Rightarrow> string \<Rightarrow> (parser, unit) py" where
  "load_include env 0 t relpath = py_raise RuntimeError"
| "load_include env (Suc n) t relpath =
     (let abs_path = get_include_path env relpath in
      py_bind (py_get (\<lambda>p. abs_path \<in> set (pa_seen_includes p))) (\<lambda>seen.
      py_seq (py_when seen (parser_error ERROR_ITEM_INCLUDED_MULTIPLE_TIMES abs_path []))
      (py_seq (py_modify (pa_seen_includes_update (List.insert abs_path)))
      (py_bind (parse_file env abs_path) (\<lambda>v.
       case v of
         JNone \<Rightarrow> py_ret ()
       | JDict d \<Rightarrow>
           if dict_has ''name'' d \<or> dict_has ''id'' d then parse_item env (load_include env n) t v
           else parse_items env (load_include env n) d
       | _ \<Rightarrow> parser_error ERROR_INVALID_INPUT abs_path [])))))"

definition new_parser :: parser where
  "new_parser = \<lparr>pa_json = [], pa_seen_includes = [], pa_results = no_results\<rparr>"

text \<open>Returns the results, with the objects in the state.\<close>

definition parse :: "parser_env \<Rightarrow> nat \<Rightarrow> (parser, results) py" where
  "parse env depth =
     py_bind (parse_file env (ip_path env)) (\<lambda>v.
     py_bind (py_get (\<lambda>p. results_ok (pa_results p))) (\<lambda>ok.
     py_seq (py_when ok (case v of JDict d \<Rightarrow> parse_items env (load_include env depth) d | _ \<Rightarrow> py_raise AttributeError))
     (py_get pa_results)))"

section \<open>Validating\<close>

definition validate_one :: "em_services \<Rightarrow> string \<Rightarrow> item \<Rightarrow> (results, unit) py" where
  "validate_one gs t d =
     (case service_by_name gs t of
        None \<Rightarrow> py_modify (add_error ERROR_INVALID_KEY t d)
      | Some info \<Rightarrow>
          py_bind (py_sum (get_required_keys info)) (\<lambda>required.
          py_for required (\<lambda>req_key. py_when (jget d req_key = JNone) (py_modify (add_error ERROR_KEYS_MISSING t d)))))"

definition validate :: "em_services \<Rightarrow> (string, item list) dict \<Rightarrow> (results, unit) py" where
  "validate gs json = py_for json (\<lambda>(t, ds). py_for ds (validate_one gs t))"

text \<open>\<open>find\<close> is called with its fields only, which Python refuses; so no missing definition is ever noted.\<close>

definition scan_item :: "em_services \<Rightarrow> string \<Rightarrow> item \<Rightarrow> (results, unit) py" where
  "scan_item gs t d =
     py_bind (py_value KeyError (service_by_name gs t)) (\<lambda>info.
     py_for (si_object_deps info) (\<lambda>(dep_key, dep).
       py_when (test_item d (dep_condition dep))
         (py_seq (py_when (\<not> dict_has dep_key d) (py_modify (add_error ERROR_MISSING_DEP t d)))
         (py_when (\<not> jeq (jget d dep_key) (empty_value dep)) (py_raise TypeError)))))"

definition scan :: "em_services \<Rightarrow> (string, item list) dict \<Rightarrow> (results, unit) py" where
  "scan gs json = py_for json (\<lambda>(t, ds). py_for ds (scan_item gs t))"

section \<open>Writing\<close>

text \<open>The state is what is going to be written. Objects of one type over HTTP are split into the four kinds.\<close>

definition split_http_soap :: "item \<Rightarrow> ((string, item list) dict, unit) py" where
  "split_http_soap d =
     py_for HTTP_SOAP_KINDS (\<lambda>(t, connection, transport).
       py_bind (py_value KeyError (map_of d ''connection'')) (\<lambda>c.
       py_when (jeq c (JText connection))
         (py_bind (py_value KeyError (map_of d ''transport'')) (\<lambda>tr.
          py_when (jeq tr (JText transport)) (py_modify (\<lambda>out. dict_mutate t (\<lambda>ds. ds @ [d]) (dict_setdefault t [] out)))))))"

definition wrap_security :: "service_info \<Rightarrow> ((string, item list) dict, unit) py" where
  "wrap_security info =
     py_when (is_security info)
       (py_bind (py_get (dict_get (si_name info) [])) (\<lambda>ds.
        py_modify (\<lambda>out. dict_mutate ''def_sec'' (\<lambda>secs. secs @ map (dict_set ''type'' (JText (si_name info))) ds)
          (dict_del (si_name info) out))))"

text \<open>\<open>key\<close> is the place of an id among all values.\<close>

definition sort_by_id :: "(jval \<Rightarrow> int) \<Rightarrow> string \<Rightarrow> ((string, item list) dict, unit) py" where
  "sort_by_id key t =
     py_seq (py_modify (dict_mutate t (map normalize_service_name)))
     (py_bind (py_get (\<lambda>out. list_all (dict_has ''id'') (dict_get t [] out))) (\<lambda>ok.
      if ok then py_modify (dict_mutate t (sort_key (\<lambda>d. key (jget d ''id'')))) else py_raise KeyError))"

definition write_output :: "em_services \<Rightarrow> (jval \<Rightarrow> int) \<Rightarrow> ((string, item list) dict, unit) py" where
  "write_output gs key =
     py_bind (py_get (dict_get ''http_soap'' [])) (\<lambda>ds.
     py_seq (py_modify (dict_del ''http_soap''))
     (py_seq (py_for ds split_http_soap)
     (py_seq (py_modify (dict_set ''def_sec'' []))
     (py_seq (py_for (gs_services gs) wrap_security)
     (py_bind (py_get dict_keys) (\<lambda>ts. py_for ts (sort_by_id key)))))))"

text \<open>The file has what was written, as JSON or YAML.\<close>

definition output_file :: "(string, item list) dict \<Rightarrow> jval" where
  "output_file out = JDict (map (\<lambda>(t, ds). (t, JList (map JDict ds))) out)"

end
