(* ===== verification/Enmasse_Import.thy ===== *)
theory Enmasse_Import
  imports Enmasse_Files
begin

text \<open>
  Importing objects into a cluster and merging those of the cluster with those of a file (zato-cli
  enmasse.py: ObjectManager, ObjectImporter and the export of EnMasse). The client is a function of
  the requests made so far. An object is handed over by value: what the import of one changes in it is
  not looked at again.
\<close>

section \<open>State\<close>

type_synonym objects = "(string, item list) dict"

record em_response =
  rp_ok :: bool
  rp_has_data :: bool
  rp_data :: jval

text \<open>
  \<open>es_services\<close> is unset until services have been read; \<open>es_imported\<close> notes what services were
  asked to import: the type, the name, and whether an edit was asked for.
\<close>

record enmasse =
  es_objects :: objects
  es_services :: "(string, item) dict option"
  es_json :: objects
  es_results :: results
  es_calls :: "(string option \<times> item) list"
  es_imported :: "(string \<times> jval \<times> bool) list"

record client =
  cl_invoke :: "(string option \<times> item) list \<Rightarrow> exn + em_response"
  cl_cluster_id :: jval

definition client_invoke :: "client \<Rightarrow> string option \<Rightarrow> item \<Rightarrow> (enmasse, em_response) py" where
  "client_invoke cl name payload =
     py_seq (py_modify (es_calls_update (\<lambda>cs. cs @ [(name, payload)]))) (\<lambda>s. (cl_invoke cl (es_calls s), s))"

text \<open>The dictionaries of a list.\<close>

fun rows :: "jval list \<Rightarrow> exn + item list" where
  "rows [] = Inr []"
| "rows (v # vs) = (case to_bunch v of Inl e \<Rightarrow> Inl e | Inr d \<Rightarrow> map_sum id ((#) d) (rows vs))"

definition data_rows :: "jval \<Rightarrow> exn + item list" where
  "data_rows v = (case elements v of Inl e \<Rightarrow> Inl e | Inr vs \<Rightarrow> rows vs)"

section \<open>Objects of the cluster\<close>

definition find_plain :: "objects \<Rightarrow> string \<Rightarrow> item \<Rightarrow> item option" where
  "find_plain objs t needle =
     find (\<lambda>d. dict_match d needle) (dict_get (map (\<lambda>c. if c = CHR ''-'' then CHR ''_'' else c) t) [] objs)"

text \<open>No security definition has the name \<open>def_sec\<close>.\<close>

fun find_first :: "('a \<Rightarrow> 'b option) \<Rightarrow> 'a list \<Rightarrow> 'b option" where
  "find_first f [] = None"
| "find_first f (x # xs) = (case f x of None \<Rightarrow> find_first f xs | Some y \<Rightarrow> Some y)"

definition find_sec :: "em_services \<Rightarrow> objects \<Rightarrow> item \<Rightarrow> item option" where
  "find_sec gs objs needle = find_first (\<lambda>t. find_plain objs t needle) (security_names gs)"

definition om_find :: "em_services \<Rightarrow> objects \<Rightarrow> string \<Rightarrow> item \<Rightarrow> item option" where
  "om_find gs objs t needle = (if t = ''def_sec'' then find_sec gs objs needle else find_plain objs t needle)"

definition named :: "jval \<Rightarrow> item" where "named name = [(''name'', name)]"

definition ascii_lower :: "char \<Rightarrow> char" where
  "ascii_lower c = (if of_char c \<in> {65..90 :: nat} then char_of (of_char c + 32 :: nat) else c)"

definition is_ignored_name :: "item \<Rightarrow> exn + bool" where
  "is_ignored_name d =
     (case map_of d ''name'' of
        None \<Rightarrow> Inr False
      | Some (JText n) \<Rightarrow> (let n = map ascii_lower n in Inr (contains ''zato'' n \<or> n \<in> set [''admin.invoke'', ''pubapi'']))
      | Some _ \<Rightarrow> Inl AttributeError)"

definition refresh_services :: "client \<Rightarrow> (enmasse, unit) py" where
  "refresh_services cl =
     py_bind (client_invoke cl (Some ''zato.service.get-list'') [(''cluster_id'', cl_cluster_id cl), (''name_filter'', JText ''*'')]) (\<lambda>response.
     py_when (rp_has_data response)
       (py_bind (py_sum (data_rows (rp_data response))) (\<lambda>ds.
        if list_all (\<lambda>d. case map_of d ''name'' of Some (JText n) \<Rightarrow> True | _ \<Rightarrow> False) ds
        then py_modify (es_services_update (\<lambda>_. Some (dict_update (map (\<lambda>d. (case jget d ''name'' of JText n \<Rightarrow> n | _ \<Rightarrow> [], d)) ds) [])))
        else py_raise KeyError)))"

definition fix_up_odb_object :: "em_services \<Rightarrow> string \<Rightarrow> objects \<Rightarrow> (item, unit) py" where
  "fix_up_odb_object gs t objs =
     py_seq (py_modify normalize_service_name)
     (py_bind (py_value KeyError (service_by_name gs t)) (\<lambda>info.
      py_for (si_object_deps info) (\<lambda>(field_name, dep).
        case id_field dep of
          None \<Rightarrow> py_ret ()
        | Some idf \<Rightarrow>
            py_bind (py_get (\<lambda>d. test_item d (dep_condition dep))) (\<lambda>applies.
            if \<not> applies
            then py_modify (\<lambda>d. dict_set idf JNone (dict_set field_name (empty_value dep) d))
            else py_bind (py_get (\<lambda>d. jget d idf)) (\<lambda>dep_id.
              if dep_id = JNone then py_modify (dict_set field_name (empty_value dep))
              else py_bind (py_value TypeError (om_find gs objs (dependent_type dep) [(''id'', dep_id)])) (\<lambda>found.
                py_bind (py_value KeyError (map_of found (dependent_field dep))) (\<lambda>v. py_modify (dict_set field_name v))))))))"

definition fix_up_at :: "em_services \<Rightarrow> string \<times> nat \<Rightarrow> (enmasse, unit) py" where
  "fix_up_at gs ti s =
     (case ti of (t, i) \<Rightarrow>
        (case fix_up_odb_object gs t (es_objects s) (dict_get t [] (es_objects s) ! i) of
           (r, d) \<Rightarrow> (r, s\<lparr>es_objects := dict_mutate t (\<lambda>ds. ds[i := d]) (es_objects s)\<rparr>)))"

definition filtered_out :: "service_info \<Rightarrow> item \<Rightarrow> bool" where
  "filtered_out info d = list_ex (\<lambda>(k, v). jeq (jget d k) v) (si_export_filter info)"

definition refresh_by_type :: "em_services \<Rightarrow> client \<Rightarrow> string \<Rightarrow> (enmasse, unit) py" where
  "refresh_by_type gs cl t =
     py_bind (py_value KeyError (service_by_name gs t)) (\<lambda>info.
     case get_service_name ''get-list'' info of
       None \<Rightarrow> py_ret ()
     | Some service_name \<Rightarrow>
         py_bind (client_invoke cl (Some service_name) [(''cluster_id'', cl_cluster_id cl)]) (\<lambda>response.
         py_when (rp_ok response)
           (py_seq (item_set es_objects_update (si_name info) [])
           (py_bind (py_sum (data_rows (rp_data response))) (\<lambda>ds.
            py_for ds (\<lambda>d.
              if filtered_out info d then py_ret ()
              else py_bind (py_sum (is_ignored_name d)) (\<lambda>ignored.
                py_when (\<not> ignored) (py_modify (es_objects_update (dict_mutate (si_name info) (\<lambda>ds. ds @ [d])))))))))))"

definition refresh_objects :: "em_services \<Rightarrow> client \<Rightarrow> (enmasse, unit) py" where
  "refresh_objects gs cl =
     py_seq (py_modify (es_objects_update (\<lambda>_. [])))
     (py_seq (py_for (map si_name (gs_services gs)) (refresh_by_type gs cl))
     (py_bind (py_get (\<lambda>s. concat (map (\<lambda>(t, ds). map (Pair t) [0..<length ds]) (es_objects s)))) (\<lambda>tis.
      py_for tis (fix_up_at gs))))"

definition refresh :: "em_services \<Rightarrow> client \<Rightarrow> (enmasse, unit) py" where
  "refresh gs cl = py_seq (refresh_services cl) (refresh_objects gs cl)"

definition delete_object :: "em_services \<Rightarrow> client \<Rightarrow> string \<Rightarrow> item \<Rightarrow> (enmasse, unit) py" where
  "delete_object gs cl t d =
     py_bind (py_value KeyError (service_by_name gs t)) (\<lambda>info.
     case get_service_name ''delete'' info of
       None \<Rightarrow> py_ret ()
     | Some service_name \<Rightarrow>
         py_bind (py_sum (attr ''id'' d)) (\<lambda>i.
         py_bind (client_invoke cl (Some service_name) [(''cluster_id'', cl_cluster_id cl), (''id'', i)]) (\<lambda>_. py_ret ())))"

definition delete_all :: "em_services \<Rightarrow> client \<Rightarrow> (enmasse, nat) py" where
  "delete_all gs cl =
     py_bind (py_get es_objects) (\<lambda>objs.
     py_seq (py_for objs (\<lambda>(t, ds). py_for ds (delete_object gs cl t)))
     (py_ret (length (concat (map snd objs)))))"

section \<open>Checks before an import\<close>

definition importer_error :: "code \<Rightarrow> string \<Rightarrow> item \<Rightarrow> (enmasse, unit) py" where
  "importer_error c t d = py_modify (es_results_update (add_error c t d))"

definition validate_service_required :: "em_services \<Rightarrow> string \<Rightarrow> item \<Rightarrow> (enmasse, unit) py" where
  "validate_service_required gs t d =
     py_bind (py_value KeyError (service_by_name gs t)) (\<lambda>info.
     py_for (si_service_deps info) (\<lambda>(dep_field, cond).
       py_when (test_item d cond)
         (let service_name = jget d dep_field in
          if \<not> jtruthy service_name then importer_error ERROR_SERVICE_NAME_MISSING t d
          else py_bind (py_get es_services) (\<lambda>known.
            py_bind (py_value AttributeError known) (\<lambda>known.
            case service_name of
              JText n \<Rightarrow> py_when (\<not> dict_has n known) (importer_error ERROR_SERVICE_MISSING t d)
            | JList xs \<Rightarrow> py_raise TypeError
            | JDict e \<Rightarrow> py_raise TypeError
            | _ \<Rightarrow> importer_error ERROR_SERVICE_MISSING t d)))))"

text \<open>What is found out about services goes to the importer's results; those returned are others.\<close>

definition validate_import_data :: "em_services \<Rightarrow> (enmasse, results) py" where
  "validate_import_data gs =
     py_bind (py_get (\<lambda>s. scan gs (es_json s) no_results)) (\<lambda>(r, scanned).
     py_seq (case r of Inl e \<Rightarrow> py_raise e | Inr u \<Rightarrow> py_ret ())
     (if \<not> results_ok scanned then py_ret scanned
      else py_bind (py_get es_json) (\<lambda>json.
        py_seq (py_for json (\<lambda>(t, ds). py_for ds (validate_service_required gs t)))
        (py_ret no_results))))"

text \<open>\<open>find_first\<close> over the objects, whose attributes it reads until one of them differs.\<close>

fun find_http :: "jval \<Rightarrow> jval \<Rightarrow> jval \<Rightarrow> item list \<Rightarrow> exn + item option" where
  "find_http connection transport name [] = Inr None"
| "find_http connection transport name (d # ds) =
     (case attr ''connection'' d of Inl e \<Rightarrow> Inl e | Inr c \<Rightarrow>
      if \<not> jeq connection c then find_http connection transport name ds
      else case attr ''transport'' d of Inl e \<Rightarrow> Inl e | Inr t \<Rightarrow>
      if \<not> jeq transport t then find_http connection transport name ds
      else case attr ''name'' d of Inl e \<Rightarrow> Inl e | Inr n \<Rightarrow>
      if \<not> jeq name n then find_http connection transport name ds else Inr (Some d))"

text \<open>For objects over HTTP the warning carries the object of the cluster, for others that of the file.\<close>

definition find_existing_one :: "em_services \<Rightarrow> objects \<Rightarrow> string \<Rightarrow> item \<Rightarrow> (results, unit) py" where
  "find_existing_one gs objs t d =
     (let name = jget d ''name'' in
      py_seq (py_when (\<not> jtruthy name) (py_modify (add_error ERROR_KEYS_MISSING t d)))
      (if t = ''http_soap''
       then py_bind (py_value AttributeError (map_of objs ''http_soap'')) (\<lambda>ds.
         py_bind (py_sum (find_http (jget d ''connection'') (jget d ''transport'') name ds)) (\<lambda>found.
         case found of None \<Rightarrow> py_ret () | Some e \<Rightarrow> py_modify (add_warning WARNING_ALREADY_EXISTS_IN_ODB t e)))
       else (case om_find gs objs t (named name) of
               None \<Rightarrow> py_ret ()
             | Some e \<Rightarrow> py_modify (add_warning WARNING_ALREADY_EXISTS_IN_ODB t d))))"

definition find_already_existing_odb_objects :: "em_services \<Rightarrow> objects \<Rightarrow> objects \<Rightarrow> (results, unit) py" where
  "find_already_existing_odb_objects gs objs json = py_for json (\<lambda>(t, ds). py_for ds (find_existing_one gs objs t))"

section \<open>The import\<close>

text \<open>Removes the first item with the name.\<close>

fun remove_named :: "jval \<Rightarrow> item list \<Rightarrow> exn + item list" where
  "remove_named name [] = Inl KeyError"
| "remove_named name (d # ds) =
     (case attr ''name'' d of Inl e \<Rightarrow> Inl e | Inr n \<Rightarrow>
      if jeq n name then Inr ds else map_sum id ((#) d) (remove_named name ds))"

definition remove_from_import_list :: "string \<Rightarrow> jval \<Rightarrow> (enmasse, unit) py" where
  "remove_from_import_list t name =
     py_bind (py_get (\<lambda>s. remove_named name (dict_get t [] (es_json s)))) (\<lambda>r.
     py_bind (py_sum r) (\<lambda>ds. py_modify (es_json_update (dict_mutate t (\<lambda>_. ds)))))"

definition should_skip_item :: "string \<Rightarrow> item \<Rightarrow> exn + bool" where
  "should_skip_item t d =
     (if t = ''rbac_role'' then map_sum id (\<lambda>n. jeq n (JText ''Root'')) (attr ''name'' d) else Inr False)"

definition swap_service_name :: "string list \<Rightarrow> string \<Rightarrow> string \<Rightarrow> item \<Rightarrow> item" where
  "swap_service_name required a b d = (if a \<in> set required then (case map_of d b of None \<Rightarrow> d | Some v \<Rightarrow> dict_set a v d) else d)"

fun dependency_ids :: "em_services \<Rightarrow> (string \<times> object_dep) list \<Rightarrow> item \<Rightarrow> (enmasse, item) py" where
  "dependency_ids gs [] d = py_ret d"
| "dependency_ids gs ((field_name, dep) # deps) d =
     (case id_field dep of
        None \<Rightarrow> dependency_ids gs deps d
      | Some idf \<Rightarrow>
          if jeq (jget d field_name) (empty_value dep) then dependency_ids gs deps d
          else py_bind (py_value KeyError (map_of d field_name)) (\<lambda>v.
            py_bind (py_get (\<lambda>s. om_find gs (es_objects s) (dependent_type dep) [(dependent_field dep, v)])) (\<lambda>found.
            py_bind (py_value AttributeError found) (\<lambda>found.
            py_bind (py_sum (attr ''id'' found)) (\<lambda>i. dependency_ids gs deps (dict_set idf i d))))))"

text \<open>An edit needs the id of the object.\<close>

definition with_object_id :: "em_services \<Rightarrow> string \<Rightarrow> bool \<Rightarrow> item \<Rightarrow> (enmasse, item) py" where
  "with_object_id gs t is_edit d =
     (if is_edit
      then py_bind (py_sum (attr ''name'' d)) (\<lambda>name.
        py_bind (py_get (\<lambda>s. om_find gs (es_objects s) t (named name))) (\<lambda>found.
        py_bind (py_value AttributeError found) (\<lambda>found.
        py_bind (py_sum (attr ''id'' found)) (\<lambda>i. py_ret (dict_set ''id'' i d)))))
      else py_ret d)"

text \<open>What is asked of which service.\<close>

definition prepare_object :: "em_services \<Rightarrow> string \<Rightarrow> item \<Rightarrow> bool \<Rightarrow> (enmasse, string option \<times> item) py" where
  "prepare_object gs t d is_edit =
     py_bind (py_value KeyError (service_by_name gs t)) (\<lambda>info.
     py_bind (py_sum (get_required_keys info)) (\<lambda>required.
     py_bind (with_object_id gs t is_edit
       (swap_service_name required ''service_name'' ''service'' (swap_service_name required ''service'' ''service_name'' d))) (\<lambda>d.
     py_bind (dependency_ids gs (si_object_deps info) d) (\<lambda>d.
     py_ret (get_service_name (if is_edit then ''edit'' else ''create'') info, d)))))"

definition import_object :: "em_services \<Rightarrow> client \<Rightarrow> string \<Rightarrow> item \<Rightarrow> bool \<Rightarrow> (enmasse, em_response \<times> item) py" where
  "import_object gs cl t d is_edit =
     py_bind (prepare_object gs t d is_edit) (\<lambda>(service_name, d).
     py_seq (py_modify (es_imported_update (\<lambda>xs. xs @ [(t, jget d ''name'', is_edit)])))
     (py_bind (client_invoke cl service_name d) (\<lambda>response.
     py_ret (response, d))))"

definition maybe_change_password :: "em_services \<Rightarrow> client \<Rightarrow> jval \<Rightarrow> string \<Rightarrow> item \<Rightarrow> (enmasse, em_response option) py" where
  "maybe_change_password gs cl object_id t d =
     py_bind (py_value KeyError (service_by_name gs t)) (\<lambda>info.
     case (get_service_name ''change-password'' info, map_of d ''password'') of
       (Some service_name, Some password) \<Rightarrow>
         py_bind (client_invoke cl (Some service_name) [(''id'', object_id), (''password1'', password), (''password2'', password)])
           (\<lambda>response. py_ret (Some response))
     | _ \<Rightarrow> py_ret None)"

text \<open>\<open>response.data['id']\<close>.\<close>

definition response_id :: "em_response \<Rightarrow> exn + jval" where
  "response_id response =
     (case rp_data response of
        JDict d \<Rightarrow> (case map_of d ''id'' of None \<Rightarrow> Inl KeyError | Some i \<Rightarrow> Inr i)
      | _ \<Rightarrow> Inl TypeError)"

text \<open>Returns whether the import failed.\<close>

definition import_one :: "em_services \<Rightarrow> client \<Rightarrow> string \<Rightarrow> item \<Rightarrow> bool \<Rightarrow> (enmasse, bool) py" where
  "import_one gs cl t d is_edit =
     py_bind (import_object gs cl t (dict_set ''cluster_id'' (cl_cluster_id cl) d) is_edit) (\<lambda>(response, attrs).
     py_bind (if rp_ok response
        then py_bind (py_sum (response_id response)) (\<lambda>object_id. maybe_change_password gs cl object_id t attrs)
        else py_ret (Some response)) (\<lambda>response.
     if (case response of None \<Rightarrow> False | Some response \<Rightarrow> \<not> rp_ok response)
     then py_bind (py_sum (attr ''name'' attrs)) (\<lambda>name. py_seq (importer_error ERROR_COULD_NOT_IMPORT_OBJECT t d) (py_ret True))
     else
       py_seq (if is_edit then py_bind (py_sum (attr ''name'' attrs)) (remove_from_import_list t) else py_ret ())
       (py_seq (refresh_by_type gs cl t)
       (py_ret False))))"

text \<open>The first failure ends the import.\<close>

fun import_all :: "em_services \<Rightarrow> client \<Rightarrow> bool \<Rightarrow> (string \<times> item) list \<Rightarrow> (enmasse, bool) py" where
  "import_all gs cl is_edit [] = py_ret False"
| "import_all gs cl is_edit ((t, d) # tds) =
     py_bind (py_sum (should_skip_item t d)) (\<lambda>skip.
     if skip then import_all gs cl is_edit tds
     else py_bind (import_one gs cl t d is_edit) (\<lambda>failed.
       if failed then py_ret True else import_all gs cl is_edit tds))"

definition is_def :: "string \<Rightarrow> bool" where "is_def t = contains ''def'' t"

definition flat_items :: "objects \<Rightarrow> (string \<times> item) list" where
  "flat_items objs = concat (map (\<lambda>(t, ds). map (Pair t) ds) objs)"

definition created_first :: "em_services \<Rightarrow> string \<Rightarrow> bool" where
  "created_first gs t \<longleftrightarrow> (case service_by_name gs t of None \<Rightarrow> False | Some info \<Rightarrow> is_security info) \<or> is_def t"

text \<open>Existing objects before new ones, and definitions first among both.\<close>

definition import_objects :: "em_services \<Rightarrow> client \<Rightarrow> results \<Rightarrow> (enmasse, results) py" where
  "import_objects gs cl already_existing =
     (let ws = map (\<lambda>w. (nt_type w, nt_item w)) (re_warnings already_existing);
          existing = filter (is_def \<circ> fst) ws @ filter (Not \<circ> is_def \<circ> fst) ws
      in py_bind (import_all gs cl True existing) (\<lambda>failed.
      if failed then py_get es_results
      else py_bind (py_get es_json) (\<lambda>json.
        if list_ex (\<lambda>(t, ds). service_by_name gs t = None) json then py_raise KeyError
        else py_seq (import_all gs cl False
            (flat_items (filter (created_first gs \<circ> fst) json) @ flat_items (filter (Not \<circ> created_first gs \<circ> fst) json)))
          (py_get es_results))))"

text \<open>The results that are reported.\<close>

definition run_import :: "em_services \<Rightarrow> client \<Rightarrow> bool \<Rightarrow> (enmasse, results list) py" where
  "run_import gs cl replace_odb_objects =
     py_seq (refresh gs cl)
     (py_bind (validate_import_data gs) (\<lambda>validated.
      if \<not> results_ok validated then py_ret [validated]
      else py_bind (py_get (\<lambda>s. find_already_existing_odb_objects gs (es_objects s) (es_json s) no_results)) (\<lambda>(r, already_existing).
        py_seq (case r of Inl e \<Rightarrow> py_raise e | Inr u \<Rightarrow> py_ret ())
        (if \<not> results_ok already_existing \<and> \<not> replace_odb_objects then py_ret [already_existing]
         else py_bind (import_objects gs cl already_existing) (\<lambda>imported.
           py_ret (if results_ok imported then [] else [imported]))))))"

section \<open>Merging and exporting\<close>

text \<open>\<open>ds.remove(d)\<close>, of a list that the loop goes through by index.\<close>

fun remove_equal :: "item \<Rightarrow> item list \<Rightarrow> item list" where
  "remove_equal d [] = []"
| "remove_equal d (e # es) = (if jeq (JDict e) (JDict d) then es else e # remove_equal d es)"

lemma length_remove_equal: "length (remove_equal d ds) \<le> length ds"
  by (induction ds) auto

function remove_loop :: "(item \<Rightarrow> exn + bool) \<Rightarrow> nat \<Rightarrow> item list \<Rightarrow> exn + item list" where
  "remove_loop p i ds =
     (if i < length ds
      then (case p (ds ! i) of
          Inl e \<Rightarrow> Inl e
        | Inr b \<Rightarrow> remove_loop p (Suc i) (if b then remove_equal (ds ! i) ds else ds))
      else Inr ds)"
  by pat_completeness auto
termination
  by (relation "measure (\<lambda>(p, i, ds). length ds - i)")
    (auto intro!: diff_less_mono2 simp: diff_less_mono less_Suc_eq_le le_less_trans [OF diff_le_mono [OF length_remove_equal]])

declare remove_loop.simps [simp del]

text \<open>\<open>odb_elem.name == json_elem.name\<close>.\<close>

definition same_name :: "item \<Rightarrow> item \<Rightarrow> exn + bool" where
  "same_name d e =
     (case attr ''name'' e of Inl x \<Rightarrow> Inl x | Inr n \<Rightarrow> (case attr ''name'' d of Inl x \<Rightarrow> Inl x | Inr m \<Rightarrow> Inr (jeq n m)))"

definition is_http_key :: "string \<Rightarrow> bool" where
  "is_http_key key \<longleftrightarrow> contains ''http'' key \<or> contains ''soap'' key"

text \<open>The connection and the transport are read from the key.\<close>

definition connection_transport :: "string \<Rightarrow> exn + string \<times> string" where
  "connection_transport key =
     (if CHR ''_'' \<in> set key
      then (let c = takeWhile (\<lambda>x. x \<noteq> CHR ''_'') key
            in Inr (if c = ''outconn'' then ''outgoing'' else c, tl (dropWhile (\<lambda>x. x \<noteq> CHR ''_'') key)))
      else Inl ValueError)"

definition merge_elem :: "string \<Rightarrow> item \<Rightarrow> (objects, unit) py" where
  "merge_elem json_key d =
     (let odb_key = (if is_http_key json_key then ''http_soap'' else json_key) in
      py_seq
        (py_bind (if is_http_key json_key
            then py_bind (py_sum (connection_transport json_key)) (\<lambda>(connection, transport).
              py_ret (\<lambda>e. if jeq (jget e ''transport'') (JText transport) \<and> jeq (jget e ''connection'') (JText connection)
                then same_name d e else Inr False))
            else py_ret (same_name d)) (\<lambda>p.
         py_bind (py_get (\<lambda>merged. remove_loop p 0 (dict_get odb_key [] merged))) (\<lambda>r.
         py_bind (py_sum r) (\<lambda>ds. py_modify (dict_mutate odb_key (\<lambda>_. ds))))))
        (py_modify (dict_mutate odb_key (\<lambda>ds. ds @ [d]))))"

text \<open>Returns the results; the state is what is merged.\<close>

fun merge_types :: "objects \<Rightarrow> results \<Rightarrow> (objects, results) py" where
  "merge_types [] results = py_ret results"
| "merge_types ((json_key, ds) # json) results =
     py_bind (py_get (dict_has (if is_http_key json_key then ''http_soap'' else json_key))) (\<lambda>known.
     if known then py_seq (py_for ds (merge_elem json_key)) (merge_types json results)
     else merge_types json (add_error ERROR_INVALID_KEY json_key [] results))"

definition merge_json :: "objects \<Rightarrow> (objects, results) py" where
  "merge_json json = merge_types json no_results"

definition merge_odb_json :: "(enmasse, results) py" where
  "merge_odb_json s =
     (case merge_json (es_json s) (es_objects s) of
        (Inl e, merged) \<Rightarrow> (Inl e, s)
      | (Inr results, merged) \<Rightarrow> (Inr results, if results_ok results then s\<lparr>es_json := merged\<rparr> else s))"

definition export_checks :: "em_services \<Rightarrow> (enmasse, results list) py" where
  "export_checks gs =
     py_bind (py_get (\<lambda>s. scan gs (es_json s) no_results)) (\<lambda>(r, missing_defs).
     py_seq (case r of Inl e \<Rightarrow> py_raise e | Inr u \<Rightarrow> py_ret ())
     (if \<not> results_ok missing_defs then py_ret [missing_defs]
      else py_bind (py_get (\<lambda>s. validate gs (es_json s) no_results)) (\<lambda>(r, results).
        py_seq (case r of Inl e \<Rightarrow> py_raise e | Inr u \<Rightarrow> py_ret ())
        (py_ret (if results_ok results then [] else [results])))))"

definition export_local_odb :: "em_services \<Rightarrow> client \<Rightarrow> (enmasse, results list) py" where
  "export_local_odb gs cl =
     py_seq (refresh gs cl)
     (py_bind merge_odb_json (\<lambda>results.
      if results_ok results then export_checks gs else py_ret [results]))"

end
