(* ===== verification/Enmasse_Facts.thy ===== *)
theory Enmasse_Facts
  imports Enmasse_Import "HOL-Library.Multiset"
begin

text \<open>
  What the import and export of configuration objects guarantee: the validation of a file, includes
  that end, merging by names, the order of an import and its completeness. The last section shows where the code fails.
\<close>

section \<open>Equality of values\<close>

lemma jeq_text [simp]: "jeq v (JText s) \<longleftrightarrow> v = JText s"
  by (cases v) auto

lemma jeq_name:
  assumes "jeq (JDict e) (JDict d)" "map_of e ''name'' = Some (JText n)"
  shows "map_of d ''name'' = Some (JText n)"
proof -
  have "(''name'', JText n) \<in> set e" using assms(2) by (rule map_of_SomeD)
  with assms(1) show ?thesis by (auto simp: list_all_iff split: option.splits)
qed

section \<open>Validation\<close>

text \<open>\<open>checks m P\<close>: \<open>m\<close> returns and adds errors exactly unless \<open>P\<close>.\<close>

definition checks :: "(results, unit) py \<Rightarrow> bool \<Rightarrow> bool" where
  "checks m P \<longleftrightarrow> (\<forall>r. \<exists>ns. m r = (Inr (), re_errors_update (\<lambda>es. es @ ns) r) \<and> (ns = [] \<longleftrightarrow> P))"

lemma checks_for:
  assumes "\<And>x. x \<in> set xs \<Longrightarrow> checks (body x) (P x)"
  shows "checks (py_for xs body) (\<forall>x\<in>set xs. P x)"
  using assms
proof (induction xs)
  case Nil
  show ?case by (auto simp: checks_def py_run intro: exI [of _ "[]"])
next
  case (Cons x xs)
  show ?case unfolding checks_def
  proof
    fix r
    obtain ns where ns: "body x r = (Inr (), re_errors_update (\<lambda>es. es @ ns) r)" "ns = [] \<longleftrightarrow> P x"
      using Cons.prems [of x] unfolding checks_def by fastforce
    obtain ms where ms: "py_for xs body (re_errors_update (\<lambda>es. es @ ns) r) = (Inr (), re_errors_update (\<lambda>es. es @ ms) (re_errors_update (\<lambda>es. es @ ns) r))"
      "ms = [] \<longleftrightarrow> (\<forall>x\<in>set xs. P x)"
      using Cons.IH Cons.prems unfolding checks_def by fastforce
    show "\<exists>ns. py_for (x # xs) body r = (Inr (), re_errors_update (\<lambda>es. es @ ns) r) \<and> (ns = [] \<longleftrightarrow> (\<forall>x\<in>set (x # xs). P x))"
      using ns ms by (intro exI [of _ "ns @ ms"]) (auto simp: py_seq_def comp_def)
  qed
qed

lemma checks_error: "checks (py_when b (py_modify (add_error c t d))) (\<not> b)"
  by (auto simp: checks_def py_run add_error_def intro: exI [of _ "[]"])

text \<open>
  A type that is known, and a value for every input parameter, but for the cluster's id, that the
  specification of its service \<open>create\<close> says is required; without such a service nothing is required.
\<close>

definition valid_item :: "em_services \<Rightarrow> string \<Rightarrow> item \<Rightarrow> bool" where
  "valid_item gs t d \<longleftrightarrow> (\<exists>info. service_by_name gs t = Some info \<and>
     (\<forall>sig names k. map_of (si_methods info) ''create'' = Some sig \<longrightarrow> mg_required sig = Some names \<longrightarrow>
        k \<in> set names \<longrightarrow> k \<noteq> ''cluster_id'' \<longrightarrow> (\<exists>v. map_of d k = Some v \<and> v \<noteq> JNone)))"

lemma jget_given: "jget d k = JNone \<longleftrightarrow> \<not> (\<exists>v. map_of d k = Some v \<and> v \<noteq> JNone)"
  by (auto simp: jget_def dict_get_def split: option.split)

lemma valid_item_required:
  "get_required_keys info = Inr required \<Longrightarrow> service_by_name gs t = Some info \<Longrightarrow>
   valid_item gs t d \<longleftrightarrow> (\<forall>k\<in>set required. jget d k \<noteq> JNone)"
  by (auto simp: valid_item_def get_required_keys_def jget_given split: option.splits)

lemma checks_one:
  assumes "\<And>info sig. service_by_name gs t = Some info \<Longrightarrow> map_of (si_methods info) ''create'' = Some sig \<Longrightarrow> mg_required sig \<noteq> None"
  shows "checks (validate_one gs t d) (valid_item gs t d)"
proof (cases "service_by_name gs t")
  case None
  then show ?thesis using checks_error [of True ERROR_INVALID_KEY t d] by (simp add: validate_one_def valid_item_def py_when_def)
next
  case (Some info)
  then obtain required where required: "get_required_keys info = Inr required"
    using assms [OF Some]
    by (cases "map_of (si_methods info) ''create''") (fastforce simp: get_required_keys_def split: option.splits)+
  have "checks (py_for required (\<lambda>k. py_when (jget d k = JNone) (py_modify (add_error ERROR_KEYS_MISSING t d)))) (\<forall>k\<in>set required. \<not> jget d k = JNone)"
    by (rule checks_for, rule checks_error)
  with Some required show ?thesis by (simp add: validate_one_def valid_item_required [OF required Some] py_bind_sum)
qed

text \<open>
  Claim C29. A file is found valid exactly if every object in it is of a known type and has a value other
  than null for every input parameter, but for \<open>cluster_id\<close>, that the service creating
  objects of its type requires; the validation always returns, provided that the specification of each
  such service says what is required.
\<close>

theorem validation_is_exact:
  assumes "\<And>t ds info sig. (t, ds) \<in> set json \<Longrightarrow> service_by_name gs t = Some info \<Longrightarrow>
      map_of (si_methods info) ''create'' = Some sig \<Longrightarrow> mg_required sig \<noteq> None"
  shows "\<exists>r. validate gs json no_results = (Inr (), r) \<and>
    (results_ok r \<longleftrightarrow> (\<forall>(t, ds)\<in>set json. \<forall>d\<in>set ds. valid_item gs t d))"
proof -
  have "checks (validate gs json) (\<forall>tds\<in>set json. case tds of (t, ds) \<Rightarrow> \<forall>d\<in>set ds. valid_item gs t d)"
    unfolding validate_def using assms by (intro checks_for) (auto intro!: checks_for checks_one dest: assms)
  then obtain ns where "validate gs json no_results = (Inr (), re_errors_update (\<lambda>es. es @ ns) no_results)"
    "ns = [] \<longleftrightarrow> (\<forall>tds\<in>set json. case tds of (t, ds) \<Rightarrow> \<forall>d\<in>set ds. valid_item gs t d)"
    unfolding checks_def by blast
  then show ?thesis by (auto simp: results_ok_def no_results_def)
qed

definition demo_sigs :: "method_sig list" where
  "demo_sigs = map (\<lambda>(n, ps). \<lparr>mg_name = n, mg_required = Some ps\<rparr>)
     [(''zato.channel.zmq.get-list'', []), (''zato.channel.zmq.create'', [''cluster_id'', ''name'', ''address'']), (''zato.channel.zmq.edit'', [])]"

definition demo_services :: em_services where
  "demo_services = snd (populate_services_from_apispec (Some demo_sigs) initial_services)"

lemma demo_create:
  "map_option (\<lambda>info. map_of (si_methods info) ''create'') (service_by_name demo_services ''channel_zmq'') =
   Some (Some \<lparr>mg_name = ''zato.channel.zmq.create'', mg_required = Some [''cluster_id'', ''name'', ''address'']\<rparr>)"
  by code_simp

theorem validation_is_exact_witness:
  "\<exists>r. validate demo_services [(''channel_zmq'', [[(''name'', JText ''x'')]])] no_results = (Inr (), r) \<and> \<not> results_ok r"
proof -
  let ?json = "[(''channel_zmq'', [[(''name'', JText ''x'')]])]"
  have "mg_required sig \<noteq> None" if "(t, ds) \<in> set ?json" "service_by_name demo_services t = Some info"
    "map_of (si_methods info) ''create'' = Some sig" for t ds info sig
    using that demo_create by auto
  then have "\<exists>r. validate demo_services ?json no_results = (Inr (), r) \<and>
      (results_ok r \<longleftrightarrow> (\<forall>(t, ds)\<in>set ?json. \<forall>d\<in>set ds. valid_item demo_services t d))"
    by (rule validation_is_exact)
  then obtain r where
    r: "validate demo_services ?json no_results = (Inr (), r)" "results_ok r \<longleftrightarrow> valid_item demo_services ''channel_zmq'' [(''name'', JText ''x'')]"
    by auto
  have "\<not> valid_item demo_services ''channel_zmq'' [(''name'', JText ''x'')]"
    using demo_create by (auto simp: valid_item_def intro!: exI [of _ "''address''"])
  with r show ?thesis by blast
qed


section \<open>Includes\<close>

text \<open>The paths that a file includes.\<close>

definition item_includes :: "item \<Rightarrow> string set" where
  "item_includes d = {path. \<exists>t vs xs. (t, vs) \<in> set d \<and> elements vs = Inr xs \<and> JText path \<in> set xs}"

definition file_includes :: "parser_env \<Rightarrow> string \<Rightarrow> string set" where
  "file_includes env path =
     (case ip_load env path of
        Inr (JDict d) \<Rightarrow> if (dict_has ''name'' d \<or> dict_has ''id'' d) \<and> path \<noteq> ip_path env then {} else item_includes d
      | _ \<Rightarrow> {})"

lemma py_for_cong: "(\<And>x. x \<in> set xs \<Longrightarrow> f x = g x) \<Longrightarrow> py_for xs f = py_for xs g"
  by (induction xs) auto

lemma parse_item_cong: "(\<And>path. v = JText path \<Longrightarrow> i t path = j t path) \<Longrightarrow> parse_item env i t v = parse_item env j t v"
  by (cases v) (simp_all add: parse_item_def)

lemma parse_items_cong:
  assumes "\<And>t path. path \<in> item_includes d \<Longrightarrow> i t path = j t path"
  shows "parse_items env i d = parse_items env j d"
proof -
  have same: "parse_item env i t v = parse_item env j t v" if "(t, vs) \<in> set d" "elements vs = Inr xs" "v \<in> set xs" for t vs xs v
  proof (rule parse_item_cong)
    fix path assume "v = JText path"
    with that have "path \<in> item_includes d" by (auto simp: item_includes_def)
    then show "i t path = j t path" by (rule assms)
  qed
  have dicts: "parse_item env i u (JDict e) = parse_item env j u (JDict e)" for u e
    by (rule parse_item_cong) simp
  show ?thesis unfolding parse_items_def
  proof (rule py_for_cong)
    fix tvs assume tvs: "tvs \<in> set d"
    obtain t vs where tv: "tvs = (t, vs)" by fastforce
    define F where "F k = (\<lambda>vs. py_for vs (\<lambda>v. case v of
        JDict d \<Rightarrow> (case maybe_fixup_http_soap t d of (t, d) \<Rightarrow> parse_item env k t (JDict (normalize_service_name d))) | _ \<Rightarrow> parse_item env k t v))" for k
    have "py_bind (py_sum (elements vs)) (F i) = py_bind (py_sum (elements vs)) (F j)"
    proof (cases "elements vs")
      case (Inr xs)
      have "F i xs = F j xs" unfolding F_def
        using same [of t vs xs] tvs tv Inr by (intro py_for_cong) (auto simp: dicts split: jval.split prod.split)
      then show ?thesis by (simp add: Inr py_bind_sum)
    qed (simp add: py_bind_sum)
    then show "(case tvs of (t, vs) \<Rightarrow>
        if \<not> dict_has t (gs_by_name (ip_services env)) \<and> t \<notin> set HTTP_SOAP_ITEM_TYPES then parser_error ERROR_UNKNOWN_ELEM t []
        else py_bind (py_sum (elements vs)) (\<lambda>vs. py_for vs (\<lambda>v. case v of
          JDict d \<Rightarrow> (case maybe_fixup_http_soap t d of (t, d) \<Rightarrow> parse_item env i t (JDict (normalize_service_name d))) | _ \<Rightarrow> parse_item env i t v))) =
      (case tvs of (t, vs) \<Rightarrow>
        if \<not> dict_has t (gs_by_name (ip_services env)) \<and> t \<notin> set HTTP_SOAP_ITEM_TYPES then parser_error ERROR_UNKNOWN_ELEM t []
        else py_bind (py_sum (elements vs)) (\<lambda>vs. py_for vs (\<lambda>v. case v of
          JDict d \<Rightarrow> (case maybe_fixup_http_soap t d of (t, d) \<Rightarrow> parse_item env j t (JDict (normalize_service_name d))) | _ \<Rightarrow> parse_item env j t v)))"
      by (simp add: tv F_def cong: if_cong)
  qed
qed

lemma py_bind_ret: "py_bind (py_ret x) f = f x"
  by (rule ext) (simp add: py_run)

lemma py_bind_raise: "py_bind (py_raise e) f = py_raise e"
  by (rule ext) (simp add: py_run)

lemma py_bind_seq_ret: "py_bind (py_seq m (py_ret x)) f = py_seq m (f x)"
  by (rule ext) (simp add: py_run split: prod.split sum.split)

text \<open>What is done with a file depends on what it has only.\<close>

lemma bind_parse_file_cong:
  assumes "\<And>v. v = JNone \<or> ip_load env path = Inr v \<Longrightarrow> f v = g v"
  shows "py_bind (parse_file env path) f = py_bind (parse_file env path) g"
proof (cases "ip_load env path")
  case (Inl e)
  have "f JNone = g JNone" using assms by blast
  then show ?thesis
    by (cases "e \<in> {IOError, TypeError, ValueError}")
      (simp_all only: Inl parse_file_def sum.case if_True if_False py_bind_seq_ret py_bind_raise)
next
  case (Inr v)
  then show ?thesis using assms by (simp add: parse_file_def py_bind_ret)
qed

text \<open>
  Among the files \<open>F\<close>, which include only files of \<open>F\<close>, includes go down in some rank; depths beyond
  the rank make no difference.
\<close>

definition ranked :: "parser_env \<Rightarrow> string set \<Rightarrow> (string \<Rightarrow> nat) \<Rightarrow> bool" where
  "ranked env F rank \<longleftrightarrow> (\<forall>path\<in>F. \<forall>rel\<in>file_includes env path.
     get_include_path env rel \<in> F \<and> rank (get_include_path env rel) < rank path)"

lemma load_include_enough:
  assumes ends: "ranked env F rank"
  shows "get_include_path env rel \<in> F \<Longrightarrow> rank (get_include_path env rel) < n \<Longrightarrow> rank (get_include_path env rel) < m \<Longrightarrow>
    load_include env n t rel = load_include env m t rel"
proof (induction n arbitrary: m t rel)
  case (Suc n)
  then obtain k where m: "m = Suc k" by (cases m) auto
  let ?path = "get_include_path env rel"
  have IH: "load_include env n u r = load_include env k u r" if "r \<in> file_includes env ?path" for u r
    using ends that Suc.prems m unfolding ranked_def by (intro Suc.IH) fastforce+
  have "py_bind (parse_file env ?path) (\<lambda>v. case v of JNone \<Rightarrow> py_ret ()
       | JDict d \<Rightarrow> if dict_has ''name'' d \<or> dict_has ''id'' d then parse_item env (load_include env n) t v else parse_items env (load_include env n) d
       | _ \<Rightarrow> parser_error ERROR_INVALID_INPUT ?path []) =
    py_bind (parse_file env ?path) (\<lambda>v. case v of JNone \<Rightarrow> py_ret ()
       | JDict d \<Rightarrow> if dict_has ''name'' d \<or> dict_has ''id'' d then parse_item env (load_include env k) t v else parse_items env (load_include env k) d
       | _ \<Rightarrow> parser_error ERROR_INVALID_INPUT ?path [])"
  proof (rule bind_parse_file_cong)
    fix v assume v: "v = JNone \<or> ip_load env ?path = Inr v"
    show "(case v of JNone \<Rightarrow> py_ret ()
       | JDict d \<Rightarrow> if dict_has ''name'' d \<or> dict_has ''id'' d then parse_item env (load_include env n) t v else parse_items env (load_include env n) d
       | _ \<Rightarrow> parser_error ERROR_INVALID_INPUT ?path []) =
      (case v of JNone \<Rightarrow> py_ret ()
       | JDict d \<Rightarrow> if dict_has ''name'' d \<or> dict_has ''id'' d then parse_item env (load_include env k) t v else parse_items env (load_include env k) d
       | _ \<Rightarrow> parser_error ERROR_INVALID_INPUT ?path [])"
    proof (cases v)
      case (JDict d)
      show ?thesis
      proof (cases "dict_has ''name'' d \<or> dict_has ''id'' d")
        case True
        then show ?thesis using JDict by (auto intro!: parse_item_cong)
      next
        case False
        with v JDict have "file_includes env ?path = item_includes d" by (auto simp: file_includes_def)
        with False JDict show ?thesis using IH by (auto intro!: parse_items_cong)
      qed
    qed simp_all
  qed
  then show ?case by (simp add: m Let_def)
qed simp

text \<open>Methods that do not raise some exception.\<close>

definition never :: "exn \<Rightarrow> ('s, 'a) py \<Rightarrow> bool" where "never e m \<longleftrightarrow> (\<forall>s. fst (m s) \<noteq> Inl e)"

lemma never_simple:
  "never e (py_ret x)" "never e (py_get f)" "never e (py_modify g)" "never e (py_raise y) \<longleftrightarrow> y \<noteq> e"
  "never e (py_sum r) \<longleftrightarrow> r \<noteq> Inl e"
  by (auto simp: never_def py_run py_sum_def)

lemma never_seq: "never e m \<Longrightarrow> never e n \<Longrightarrow> never e (py_seq m n)"
  unfolding never_def by (auto simp: py_seq_def split: prod.split sum.split) (metis fst_conv)+

lemma never_bind: "never e m \<Longrightarrow> (\<And>x. never e (f x)) \<Longrightarrow> never e (py_bind m f)"
  unfolding never_def by (auto simp: py_bind_def split: prod.split sum.split) (metis fst_conv)+

lemma never_when: "never e m \<Longrightarrow> never e (py_when b m)"
  by (simp add: py_when_def never_simple)

lemma never_for: "(\<And>x. x \<in> set xs \<Longrightarrow> never e (body x)) \<Longrightarrow> never e (py_for xs body)"
  by (induction xs) (auto intro: never_seq simp: never_simple)

lemmas never_intros = never_seq never_bind never_when never_for


lemma never_parts:
  "(\<And>path. ip_load env path \<noteq> Inl e) \<Longrightarrow> never e (parse_file env path)"
  "never e (parser_error c t d)"
  by (auto simp: parse_file_def parser_error_def IOError_def intro!: never_intros simp: never_simple split: sum.split)

lemma never_append: "e \<noteq> TypeError \<Longrightarrow> never e (append_item t v)"
  by (auto simp: append_item_def to_bunch_def intro!: never_intros simp: never_simple split: jval.split list.split)

lemma never_def_sec: "e \<noteq> TypeError \<Longrightarrow> e \<noteq> AttributeError \<Longrightarrow> never e (parse_def_sec env v)"
  by (auto simp: parse_def_sec_def Let_def intro!: never_parts never_append simp: never_simple split: jval.split)

lemma never_parse_item:
  assumes "e \<noteq> TypeError" "e \<noteq> AttributeError" "\<And>path. v = JText path \<Longrightarrow> never e (include t path)"
  shows "never e (parse_item env include t v)"
  using assms by (cases v) (auto simp: parse_item_def intro: never_append never_def_sec)

lemma never_parse_items:
  assumes e: "e \<noteq> TypeError" "e \<noteq> AttributeError" and inc: "\<And>t path. path \<in> item_includes d \<Longrightarrow> never e (include t path)"
  shows "never e (parse_items env include d)"
  unfolding parse_items_def
proof (rule never_for)
  fix x assume x: "x \<in> set d"
  obtain t vs where tv: "x = (t, vs)" by fastforce
  then have tvs: "(t, vs) \<in> set d" using x by simp
  have "never e (py_bind (py_sum (elements vs)) (\<lambda>vs. py_for vs (\<lambda>v. case v of
      JDict d \<Rightarrow> (case maybe_fixup_http_soap t d of (t, d) \<Rightarrow> parse_item env include t (JDict (normalize_service_name d)))
    | _ \<Rightarrow> parse_item env include t v)))"
  proof (cases "elements vs")
    case (Inl x)
    then have "x = TypeError" by (auto simp: elements_def split: jval.splits)
    with Inl e show ?thesis by (simp add: py_bind_sum never_simple)
  next
    case (Inr xs)
    have "never e (parse_item env include t v)" if "v \<in> set xs" for v
    proof (rule never_parse_item [OF e])
      fix path assume "v = JText path"
      with that tvs Inr have "path \<in> item_includes d" by (auto simp: item_includes_def)
      then show "never e (include t path)" by (rule inc)
    qed
    moreover have "never e (parse_item env include u (JDict b))" for u b
      by (rule never_parse_item [OF e]) simp
    ultimately show ?thesis by (auto simp: Inr py_bind_sum intro!: never_for split: jval.split prod.split)
  qed
  then show "never e (case x of (t, vs) \<Rightarrow>
      if \<not> dict_has t (gs_by_name (ip_services env)) \<and> t \<notin> set HTTP_SOAP_ITEM_TYPES then parser_error ERROR_UNKNOWN_ELEM t []
      else py_bind (py_sum (elements vs)) (\<lambda>vs. py_for vs (\<lambda>v. case v of
        JDict d \<Rightarrow> (case maybe_fixup_http_soap t d of (t, d) \<Rightarrow> parse_item env include t (JDict (normalize_service_name d)))
      | _ \<Rightarrow> parse_item env include t v)))"
    by (simp add: tv never_parts)
qed

lemma never_bind_file:
  assumes "\<And>path. ip_load env path \<noteq> Inl e" "\<And>v. v = JNone \<or> ip_load env path = Inr v \<Longrightarrow> never e (f v)"
  shows "never e (py_bind (parse_file env path) f)"
proof (cases "ip_load env path")
  case (Inl x)
  then show ?thesis using assms
    by (cases "x \<in> {IOError, TypeError, ValueError}")
      (auto simp: parse_file_def py_bind_seq_ret py_bind_raise never_simple intro!: never_seq never_parts)
qed (use assms in \<open>simp add: parse_file_def py_bind_ret\<close>)

lemma never_load_include:
  assumes ends: "ranked env F rank"
    and load: "\<And>path. ip_load env path \<noteq> Inl RuntimeError"
  shows "get_include_path env rel \<in> F \<Longrightarrow> rank (get_include_path env rel) < n \<Longrightarrow> never RuntimeError (load_include env n t rel)"
proof (induction n arbitrary: t rel)
  case (Suc n)
  let ?path = "get_include_path env rel"
  have E: "RuntimeError \<noteq> TypeError" "RuntimeError \<noteq> AttributeError" by (simp_all add: RuntimeError_def)
  have IH: "never RuntimeError (load_include env n u r)" if "r \<in> file_includes env ?path" for u r
    using ends that Suc.prems unfolding ranked_def by (intro Suc.IH) fastforce+
  have "never RuntimeError (py_bind (parse_file env ?path) (\<lambda>v. case v of JNone \<Rightarrow> py_ret ()
       | JDict d \<Rightarrow> if dict_has ''name'' d \<or> dict_has ''id'' d then parse_item env (load_include env n) t v else parse_items env (load_include env n) d
       | _ \<Rightarrow> parser_error ERROR_INVALID_INPUT ?path []))"
  proof (rule never_bind_file [OF load])
    fix v assume v: "v = JNone \<or> ip_load env ?path = Inr v"
    show "never RuntimeError (case v of JNone \<Rightarrow> py_ret ()
       | JDict d \<Rightarrow> if dict_has ''name'' d \<or> dict_has ''id'' d then parse_item env (load_include env n) t v else parse_items env (load_include env n) d
       | _ \<Rightarrow> parser_error ERROR_INVALID_INPUT ?path [])"
    proof (cases v)
      case (JDict d)
      show ?thesis
      proof (cases "dict_has ''name'' d \<or> dict_has ''id'' d")
        case True
        then show ?thesis using JDict never_parse_item [OF E] by auto
      next
        case False
        with v JDict have "file_includes env ?path = item_includes d" by (auto simp: file_includes_def)
        with False JDict IH show ?thesis by (auto intro: never_parse_items [OF E])
      qed
    qed (simp_all add: never_simple never_parts)
  qed
  then show ?case by (auto simp: Let_def intro!: never_seq never_bind never_when never_parts simp: never_simple)
qed simp

lemma parse_enough:
  assumes ends: "ranked env F rank" and root_in: "ip_path env \<in> F"
    and load: "\<And>path. ip_load env path \<noteq> Inl RuntimeError" and depth: "rank (ip_path env) \<le> depth"
  shows "parse env depth = parse env (rank (ip_path env)) \<and> fst (parse env depth p) \<noteq> Inl RuntimeError"
proof
  let ?root = "ip_path env"
  have E: "RuntimeError \<noteq> TypeError" "RuntimeError \<noteq> AttributeError" by (simp_all add: RuntimeError_def)
  have root: "file_includes env ?root = item_includes d" if "ip_load env ?root = Inr (JDict d)" for d
    using that by (simp add: file_includes_def)
  have "py_bind (parse_file env ?root) (\<lambda>v. py_bind (py_get (\<lambda>p. results_ok (pa_results p))) (\<lambda>ok.
      py_seq (py_when ok (case v of JDict d \<Rightarrow> parse_items env (load_include env depth) d | _ \<Rightarrow> py_raise AttributeError)) (py_get pa_results))) =
    py_bind (parse_file env ?root) (\<lambda>v. py_bind (py_get (\<lambda>p. results_ok (pa_results p))) (\<lambda>ok.
      py_seq (py_when ok (case v of JDict d \<Rightarrow> parse_items env (load_include env (rank ?root)) d | _ \<Rightarrow> py_raise AttributeError)) (py_get pa_results)))"
  proof (rule bind_parse_file_cong)
    fix v assume v: "v = JNone \<or> ip_load env ?root = Inr v"
    have "parse_items env (load_include env depth) d = parse_items env (load_include env (rank ?root)) d" if "v = JDict d" for d
    proof (rule parse_items_cong)
      fix t path assume "path \<in> item_includes d"
      with that v root have "get_include_path env path \<in> F" "rank (get_include_path env path) < rank ?root"
        using ends root_in by (auto simp: ranked_def)
      then show "load_include env depth t path = load_include env (rank ?root) t path"
        using depth by (intro load_include_enough [OF ends]) auto
    qed
    then show "py_bind (py_get (\<lambda>p. results_ok (pa_results p))) (\<lambda>ok.
        py_seq (py_when ok (case v of JDict d \<Rightarrow> parse_items env (load_include env depth) d | _ \<Rightarrow> py_raise AttributeError)) (py_get pa_results)) =
      py_bind (py_get (\<lambda>p. results_ok (pa_results p))) (\<lambda>ok.
        py_seq (py_when ok (case v of JDict d \<Rightarrow> parse_items env (load_include env (rank ?root)) d | _ \<Rightarrow> py_raise AttributeError)) (py_get pa_results))"
      by (cases v) simp_all
  qed
  then show "parse env depth = parse env (rank ?root)" by (simp add: parse_def)
  have "never RuntimeError (parse env depth)" unfolding parse_def
  proof (rule never_bind_file [OF load])
    fix v assume v: "v = JNone \<or> ip_load env ?root = Inr v"
    have "never RuntimeError (parse_items env (load_include env depth) d)" if "v = JDict d" for d
    proof (rule never_parse_items [OF E])
      fix t path assume "path \<in> item_includes d"
      with that v root have "get_include_path env path \<in> F" "rank (get_include_path env path) < rank ?root"
        using ends root_in by (auto simp: ranked_def)
      then show "never RuntimeError (load_include env depth t path)"
        using depth by (intro never_load_include [OF ends load]) auto
    qed
    then show "never RuntimeError (py_bind (py_get (\<lambda>p. results_ok (pa_results p))) (\<lambda>ok.
        py_seq (py_when ok (case v of JDict d \<Rightarrow> parse_items env (load_include env depth) d | _ \<Rightarrow> py_raise AttributeError)) (py_get pa_results)))"
      by (cases v) (auto intro!: never_bind never_seq never_when simp: never_simple E E [symmetric])
  qed
  then show "fst (parse env depth p) \<noteq> Inl RuntimeError" by (simp add: never_def)
qed

text \<open>Which file is included by which; what a file leads to ranks it.\<close>

definition included :: "parser_env \<Rightarrow> (string \<times> string) set" where
  "included env = {(get_include_path env rel, path) | rel path. rel \<in> file_includes env path}"

lemma ranked_by_descendants:
  assumes acyclic: "acyclic (included env)" and "finite F"
    and closed: "\<forall>path\<in>F. \<forall>rel\<in>file_includes env path. get_include_path env rel \<in> F"
  shows "ranked env F (\<lambda>path. card {q \<in> F. (q, path) \<in> (included env)\<^sup>+})"
  unfolding ranked_def
proof (intro ballI conjI)
  fix path rel assume path: "path \<in> F" and rel: "rel \<in> file_includes env path"
  let ?q = "get_include_path env rel" and ?below = "\<lambda>p. {q \<in> F. (q, p) \<in> (included env)\<^sup>+}"
  show q: "?q \<in> F" using closed path rel by blast
  have edge: "(?q, path) \<in> included env" using rel by (auto simp: included_def)
  have "?below ?q \<subseteq> ?below path" using edge by (auto intro: trancl_into_trancl)
  moreover have "?q \<in> ?below path" using q edge by auto
  moreover have "?q \<notin> ?below ?q" using acyclic by (simp add: acyclic_def)
  ultimately have "?below ?q \<subset> ?below path" by blast
  then show "card (?below ?q) < card (?below path)" using \<open>finite F\<close> by (intro psubset_card_mono) simp_all
qed

text \<open>
  Claim C28. When no file includes itself, directly or through others, reading a file that leads to
  finitely many files comes to its end: includes nest no deeper than there are files, any greater
  depth gives the same, and the stack is not exhausted, provided that decoding a file does not exhaust it.
\<close>

theorem includes_come_to_an_end:
  assumes acyclic: "acyclic (included env)"
    and files: "finite F" "ip_path env \<in> F" "\<forall>path\<in>F. \<forall>rel\<in>file_includes env path. get_include_path env rel \<in> F"
    and load: "\<And>path. ip_load env path \<noteq> Inl RuntimeError" and depth: "card F \<le> depth"
  shows "parse env depth = parse env (card F) \<and> fst (parse env depth p) \<noteq> Inl RuntimeError"
proof -
  let ?rank = "\<lambda>path. card {q \<in> F. (q, path) \<in> (included env)\<^sup>+}"
  have r: "ranked env F ?rank" by (rule ranked_by_descendants [OF acyclic files(1,3)])
  have "?rank (ip_path env) \<le> card F" using files(1) by (intro card_mono) auto
  then have a: "parse env depth = parse env (?rank (ip_path env)) \<and> fst (parse env depth p) \<noteq> Inl RuntimeError"
    and b: "parse env (card F) = parse env (?rank (ip_path env)) \<and> fst (parse env (card F) p) \<noteq> Inl RuntimeError"
    using depth by (intro parse_enough [OF r files(2) load], simp)+
  from a b show ?thesis by (metis (no_types, lifting))
qed

definition demo_env :: parser_env where
  "demo_env = \<lparr>ip_services = initial_services, ip_path = ''/d/a'', ip_cwd = ''/'', ip_load = (\<lambda>path.
     if path = ''/d/a'' then Inr (JDict [(''channel_zmq'', JList [JText ''file://b''])])
     else if path = ''/d/b'' then Inr (JDict [(''name'', JText ''x'')]) else Inl IOError)\<rparr>"

lemma demo_include_path: "get_include_path demo_env ''file://b'' = ''/d/b''" by code_simp

theorem includes_come_to_an_end_witness:
  "parse demo_env 7 = parse demo_env 2 \<and> fst (parse demo_env 7 new_parser) \<noteq> Inl RuntimeError"
proof -
  let ?F = "{''/d/a'', ''/d/b''}"
  have r: "rel = ''file://b'' \<and> path = ''/d/a''" if "rel \<in> file_includes demo_env path" for rel path
    using that by (auto simp: file_includes_def demo_env_def item_includes_def elements_def split: if_splits)
  have "included demo_env \<subseteq> {(''/d/b'', ''/d/a'')}" using r demo_include_path by (auto simp: included_def)
  moreover have "acyclic {(''/d/b'', ''/d/a'')}" by (simp add: acyclic_insert) (simp add: acyclic_def)
  ultimately have a: "acyclic (included demo_env)" by (rule acyclic_subset [rotated])
  have b: "ip_load demo_env path \<noteq> Inl RuntimeError" for path
    by (simp add: demo_env_def IOError_def RuntimeError_def)
  have c: "\<forall>path\<in>?F. \<forall>rel\<in>file_includes demo_env path. get_include_path demo_env rel \<in> ?F"
    using r demo_include_path by (metis insertCI)
  have d: "ip_path demo_env \<in> ?F" "card ?F \<le> 7" "card ?F = 2" by (simp_all add: demo_env_def)
  have "finite ?F" by simp
  from includes_come_to_an_end [OF a this d(1) c b d(2), of new_parser] show ?thesis unfolding d(3) .
qed

text \<open>A file that includes itself is noticed, and read again nevertheless.\<close>

lemma including_itself_never_ends:
  assumes load: "ip_load env (ip_path env) = Inr (JDict [(t, JList [JText rel])])" and self: "get_include_path env rel = ip_path env"
    and t: "dict_has t (gs_by_name (ip_services env))" "t \<noteq> ''name''" "t \<noteq> ''id''"
  shows "fst (parse env depth new_parser) = Inl RuntimeError"
proof -
  have items: "parse_items env inc [(t, JList [JText rel])] p = inc t rel p"
    if "fst (inc t rel p) = Inl RuntimeError" for inc p
    using that t(1) by (cases "inc t rel p") (auto simp: parse_items_def py_bind_sum elements_def parse_item_def py_seq_def)
  have loop: "fst (load_include env n t rel p) = Inl RuntimeError" for n p
  proof (induction n arbitrary: p)
    case 0
    show ?case by (simp add: py_raise_def)
  next
    case (Suc n)
    show ?case
      using Suc.IH t(2,3) items [of "load_include env n"]
      by (simp add: self load parse_file_def py_bind_ret Let_def)
        (auto simp: py_bind_def py_seq_def py_get_def py_modify_def py_when_def py_ret_def parser_error_def)
  qed
  have "parse_items env (load_include env depth) [(t, JList [JText rel])] new_parser = (Inl RuntimeError, snd (load_include env depth t rel new_parser))"
    using items [of "load_include env depth" new_parser] loop [of depth new_parser] by (simp add: prod_eq_iff)
  then show ?thesis
    by (simp add: parse_def load parse_file_def py_bind_ret py_bind_def py_get_def py_when_def py_seq_def)
      (simp add: new_parser_def results_ok_def no_results_def)
qed

section \<open>Merging\<close>

text \<open>Objects with names that are texts, each name once.\<close>

definition json_name :: "item \<Rightarrow> string" where
  "json_name d = (case jget d ''name'' of JText n \<Rightarrow> n | _ \<Rightarrow> [])"

definition has_name :: "item \<Rightarrow> bool" where
  "has_name d \<longleftrightarrow> (\<exists>n. map_of d ''name'' = Some (JText n))"

lemma has_nameD: "has_name d \<Longrightarrow> map_of d ''name'' = Some (JText (json_name d))"
  by (auto simp: has_name_def json_name_def jget_def dict_get_def)

lemma same_name_run: "has_name d \<Longrightarrow> has_name e \<Longrightarrow> same_name d e = Inr (json_name e = json_name d)"
  by (auto simp: same_name_def attr_def dest!: has_nameD)

text \<open>A dictionary that is no list of dictionaries equals itself.\<close>

definition regular :: "item \<Rightarrow> bool" where "regular d \<longleftrightarrow> jeq (JDict d) (JDict d)"

lemma remove_equal_run:
  assumes "regular x" "has_name x" "\<forall>d\<in>set pre. has_name d \<and> json_name d \<noteq> json_name x"
  shows "remove_equal x (pre @ x # rest) = pre @ rest"
  using assms
proof (induction pre)
  case (Cons d pre)
  have "\<not> jeq (JDict d) (JDict x)"
  proof
    assume "jeq (JDict d) (JDict x)"
    from jeq_name [OF this has_nameD] Cons.prems show False by (auto simp: has_name_def json_name_def jget_def dict_get_def)
  qed
  with Cons show ?case by (simp del: jeq.simps)
qed (simp add: regular_def del: jeq.simps)

lemma remove_loop_done:
  assumes "\<forall>d\<in>set (drop i ds). p d = Inr False"
  shows "remove_loop p i ds = Inr ds"
  using assms
proof (induction p i ds rule: remove_loop.induct)
  case (1 p i ds)
  show ?case
  proof (cases "i < length ds")
    case True
    then have "drop i ds = ds ! i # drop (Suc i) ds" by (simp add: Cons_nth_drop_Suc)
    with 1(2) have p: "p (ds ! i) = Inr False" "\<forall>d\<in>set (drop (Suc i) ds). p d = Inr False" by simp_all
    with "1.IH" [OF True p(1)] have "remove_loop p (Suc i) ds = Inr ds" by simp
    with True p show ?thesis by (subst remove_loop.simps) simp
  next
    case False
    then show ?thesis by (subst remove_loop.simps) simp
  qed
qed

lemma remove_loop_names:
  assumes d: "has_name d" and ds: "\<forall>e\<in>set (pre @ rest). has_name e \<and> regular e" "distinct (map json_name (pre @ rest))"
    and pre: "\<forall>e\<in>set pre. json_name e \<noteq> json_name d"
  shows "remove_loop (same_name d) (length pre) (pre @ rest) = Inr (pre @ filter (\<lambda>e. json_name e \<noteq> json_name d) rest)"
  using ds pre
proof (induction rest arbitrary: pre)
  case Nil
  then show ?case by (subst remove_loop.simps) simp
next
  case (Cons x rest)
  have x: "same_name d x = Inr (json_name x = json_name d)" using Cons.prems d by (intro same_name_run) auto
  show ?case
  proof (cases "json_name x = json_name d")
    case True
    have "remove_equal x (pre @ x # rest) = pre @ rest"
      using Cons.prems True by (intro remove_equal_run) auto
    moreover have others: "\<forall>e\<in>set rest. json_name e \<noteq> json_name d" using Cons.prems(2) True by (auto simp: image_iff)
    have "remove_loop (same_name d) (Suc (length pre)) (pre @ rest) = Inr (pre @ rest)"
    proof (rule remove_loop_done, intro ballI)
      fix e assume "e \<in> set (drop (Suc (length pre)) (pre @ rest))"
      then have "e \<in> set rest" by (auto dest: in_set_dropD)
      with Cons.prems(1) d others show "same_name d e = Inr False" by (simp add: same_name_run)
    qed
    ultimately show ?thesis using x True others by (subst remove_loop.simps) (simp add: nth_append)
  next
    case False
    have "remove_loop (same_name d) (length (pre @ [x])) ((pre @ [x]) @ rest) = Inr ((pre @ [x]) @ filter (\<lambda>e. json_name e \<noteq> json_name d) rest)"
      using Cons.prems False by (intro Cons.IH) auto
    with x False show ?thesis by (subst remove_loop.simps) (simp add: nth_append)
  qed
qed


definition distinct_names :: "item list \<Rightarrow> bool" where
  "distinct_names ds \<longleftrightarrow> (\<forall>d\<in>set ds. has_name d \<and> regular d) \<and> distinct (map json_name ds)"

lemma dict_mutate_after: "dict_mutate t f (dict_mutate t (\<lambda>_. a) objs) = dict_mutate t (\<lambda>_. f a) objs"
  by (simp add: dict_mutate_def comp_def split_def cong: if_cong)

lemma merge_elem_run:
  assumes t: "\<not> is_http_key t" "map_of objs t = Some ds" and d: "has_name d" and ds: "distinct_names ds"
  shows "merge_elem t d objs = (Inr (), dict_mutate t (\<lambda>_. filter (\<lambda>e. json_name e \<noteq> json_name d) ds @ [d]) objs)"
proof -
  have r: "remove_loop (same_name d) 0 ds = Inr (filter (\<lambda>e. json_name e \<noteq> json_name d) ds)"
    using remove_loop_names [of d "[]" ds] d ds by (auto simp: distinct_names_def)
  have g: "dict_get t [] objs = ds" using t(2) by (simp add: dict_get_def)
  show ?thesis
    by (simp add: merge_elem_def t(1) py_bind_ret py_bind_sum py_seq_def py_bind_def py_get_def py_modify_def py_sum_def g r dict_mutate_after)
qed

text \<open>Objects of the cluster whose names the file does not have, then those of the file.\<close>

definition override :: "item list \<Rightarrow> item list \<Rightarrow> item list" where
  "override ds js = filter (\<lambda>e. json_name e \<notin> json_name ` set js) ds @ js"

lemma dict_mutate_same: "dict_ok objs \<Longrightarrow> map_of objs t = Some ds \<Longrightarrow> dict_mutate t (\<lambda>_. ds) objs = objs"
  unfolding dict_mutate_def by (intro map_idI) (auto simp del: map_of_eq_Some_iff dest: map_of_is_SomeI)

lemma merge_elems_run:
  assumes t: "\<not> is_http_key t" "dict_ok objs" "map_of objs t = Some ds"
    and names: "distinct_names (done' @ js)" "distinct_names ds"
  shows "py_for js (merge_elem t) (dict_mutate t (\<lambda>_. override ds done') objs) =
    (Inr (), dict_mutate t (\<lambda>_. override ds (done' @ js)) objs)"
  using names(1)
proof (induction js arbitrary: done')
  case Nil
  then show ?case by (simp add: py_run)
next
  case (Cons d js)
  let ?ov = "override ds done'" and ?objs = "dict_mutate t (\<lambda>_. override ds done') objs"
  have ov: "distinct_names ?ov"
    using Cons.prems names(2) by (auto simp: distinct_names_def override_def distinct_map_filter)
  have "map_of ?objs t = Some ?ov" using t(3) by (simp add: dict_simps)
  then have "merge_elem t d ?objs = (Inr (), dict_mutate t (\<lambda>_. filter (\<lambda>e. json_name e \<noteq> json_name d) ?ov @ [d]) ?objs)"
    using Cons.prems ov by (intro merge_elem_run [OF t(1)]) (auto simp: distinct_names_def)
  moreover have "\<forall>e\<in>set done'. json_name e \<noteq> json_name d" using Cons.prems by (auto simp: distinct_names_def image_iff)
  then have "filter (\<lambda>e. json_name e \<noteq> json_name d) ?ov @ [d] = override ds (done' @ [d])"
    by (auto simp: override_def intro!: filter_cong)
  ultimately have "merge_elem t d ?objs = (Inr (), dict_mutate t (\<lambda>_. override ds (done' @ [d])) objs)"
    by (simp add: dict_mutate_after)
  with Cons.IH [of "done' @ [d]"] Cons.prems show ?case by (simp add: py_seq_def)
qed

lemma override_nothing: "override ds [] = ds" by (simp add: override_def)

text \<open>What is found under a name.\<close>

definition by_name :: "item list \<Rightarrow> string \<Rightarrow> item option" where
  "by_name ds = map_of (map (\<lambda>d. (json_name d, d)) ds)"

lemma by_name_override:
  assumes "distinct_names ds" "distinct_names js"
  shows "by_name (override ds js) = by_name ds ++ by_name js"
proof
  fix n
  have none: "by_name (filter (\<lambda>e. json_name e \<notin> json_name ` set js) ds) n = (if n \<in> json_name ` set js then None else by_name ds n)"
    unfolding by_name_def by (induction ds) auto
  have dom: "by_name js n = None \<longleftrightarrow> n \<notin> json_name ` set js"
    unfolding by_name_def by (simp add: map_of_eq_None_iff image_comp comp_def)
  show "by_name (override ds js) n = (by_name ds ++ by_name js) n"
    using none dom by (cases "by_name js n") (auto simp: override_def by_name_def map_of_append map_add_def split: option.splits)
qed

text \<open>
  Claim C20. When objects of a file are merged with those of the cluster, the result has, for each type
  of object, under each name the object of the file, or else that of the cluster; no type is added or
  lost. The file has no objects over HTTP, which are not told apart by their names alone, and only types
  that the cluster knows; within each list of the file, and of the cluster for the types that the file
  has, names are texts and distinct, and every object is equal to itself.
\<close>

theorem merging_prefers_the_file:
  assumes objs: "dict_ok objs" "\<forall>(t, ds)\<in>set objs. t \<in> fst ` set json \<longrightarrow> distinct_names ds"
    and json: "dict_ok json" "\<forall>(t, js)\<in>set json. \<not> is_http_key t \<and> dict_has t objs \<and> distinct_names js"
  shows "\<exists>merged. merge_json json objs = (Inr no_results, merged) \<and> dict_keys merged = dict_keys objs \<and>
    (\<forall>t. by_name (dict_get t [] merged) = by_name (dict_get t [] objs) ++ by_name (dict_get t [] json))"
proof -
  have run: "merge_types json no_results objs = (Inr no_results, fold (\<lambda>(t, js). dict_mutate t (\<lambda>ds. override ds js)) json objs)"
    using objs json
  proof (induction json arbitrary: objs)
    case (Cons tj json)
    obtain t js where tj: "tj = (t, js)" by fastforce
    from Cons.prems(4) have t: "\<not> is_http_key t" "dict_has t objs" "distinct_names js" by (auto simp: tj)
    then obtain ds where ds: "map_of objs t = Some ds" by auto
    let ?objs = "dict_mutate t (\<lambda>ds. override ds js) objs"
    have "?objs = dict_mutate t (\<lambda>_. override ds js) objs"
      using Cons.prems(1) ds by (auto simp: dict_mutate_def simp del: map_of_eq_Some_iff dest: map_of_is_SomeI)
    moreover have "distinct_names ds" using Cons.prems(2) map_of_SomeD [OF ds] by (auto simp: tj)
    ultimately have "py_for js (merge_elem t) objs = (Inr (), ?objs)"
      using merge_elems_run [OF t(1) Cons.prems(1) ds, of "[]" js] t(3) by (simp add: override_nothing dict_mutate_same [OF Cons.prems(1) ds])
    moreover have names: "distinct_names us" if a: "(u, us) \<in> set ?objs" "u \<in> fst ` set json" for u us
    proof -
      have "t \<notin> fst ` set json" using Cons.prems(3) by (simp add: tj)
      with a(2) have "u \<noteq> t" by metis
      with a(1) have "(u, us) \<in> set objs" by (auto simp: dict_mutate_def)
      then have "u \<in> fst ` set (tj # json) \<longrightarrow> distinct_names us" using Cons.prems(2) by blast
      then show ?thesis using a(2) by force
    qed
    moreover have "merge_types json no_results ?objs = (Inr no_results, fold (\<lambda>(t, js). dict_mutate t (\<lambda>ds. override ds js)) json ?objs)"
    proof (rule Cons.IH)
      show "\<forall>(u, us)\<in>set ?objs. u \<in> fst ` set json \<longrightarrow> distinct_names us"
        using names by blast
    qed (use Cons.prems tj in \<open>auto simp: dict_simps split: if_splits\<close>)
    ultimately show ?case using t ds by (simp add: tj py_seq_def py_bind_def py_get_def)
  qed (simp add: py_ret_def)
  have m: "map_of (fold (\<lambda>(t, js). dict_mutate t (\<lambda>ds. override ds js)) json objs) t =
      map_option (\<lambda>ds. override ds (dict_get t [] json)) (map_of objs t)" for t
    using json(1)
  proof (induction json arbitrary: objs)
    case (Cons tj json)
    obtain u us where tj: "tj = (u, us)" by fastforce
    show ?case using Cons.IH [of "dict_mutate u (\<lambda>ds. override ds us) objs"] Cons.prems
      by (cases "map_of objs t") (auto simp: tj dict_simps dict_get_def override_nothing map_of_None_iff [THEN iffD2] split: option.split)
  qed (simp add: dict_get_def override_nothing option.map_ident)
  have k: "dict_keys (fold (\<lambda>(t, js). dict_mutate t (\<lambda>ds. override ds js)) json objs) = dict_keys objs"
    by (induction json arbitrary: objs) auto
  have "by_name (dict_get t [] (fold (\<lambda>(t, js). dict_mutate t (\<lambda>ds. override ds js)) json objs)) =
      by_name (dict_get t [] objs) ++ by_name (dict_get t [] json)" for t
  proof (cases "map_of objs t")
    case None
    with json(2) have "map_of json t = None" by (metis (mono_tags, lifting) case_prodD map_of_SomeD not_None_eq)
    with None m show ?thesis by (simp add: dict_get_def by_name_def)
  next
    case (Some ds)
    show ?thesis
    proof (cases "map_of json t")
      case None
      with Some m show ?thesis by (simp add: dict_get_def by_name_def override_nothing)
    next
      case (Some js)
      have "distinct_names ds" "distinct_names js"
        using objs(2) json(2) map_of_SomeD [OF Some] map_of_SomeD [OF \<open>map_of objs t = Some ds\<close>] by force+
      with Some \<open>map_of objs t = Some ds\<close> m show ?thesis by (simp add: dict_get_def by_name_override)
    qed
  qed
  with run k show ?thesis by (simp add: merge_json_def)
qed


definition zmq_item :: "string \<Rightarrow> string \<Rightarrow> item" where
  "zmq_item name address = [(''name'', JText name), (''address'', JText address)]"

theorem merging_prefers_the_file_witness:
  "\<exists>merged. merge_json [(''channel_zmq'', [zmq_item ''a'' ''new''])] [(''channel_zmq'', [zmq_item ''a'' ''old'', zmq_item ''b'' ''old''])] = (Inr no_results, merged) \<and>
     by_name (dict_get ''channel_zmq'' [] merged) ''a'' = Some (zmq_item ''a'' ''new'') \<and>
     by_name (dict_get ''channel_zmq'' [] merged) ''b'' = Some (zmq_item ''b'' ''old'')"
proof -
  let ?objs = "[(''channel_zmq'', [zmq_item ''a'' ''old'', zmq_item ''b'' ''old''])]" and ?json = "[(''channel_zmq'', [zmq_item ''a'' ''new''])]"
  have d: "distinct_names [zmq_item ''a'' ''old'', zmq_item ''b'' ''old'']" "distinct_names [zmq_item ''a'' ''new'']"
    by (simp_all add: distinct_names_def has_name_def regular_def json_name_def jget_def dict_get_def zmq_item_def)
  have h: "\<not> is_http_key ''channel_zmq''" by code_simp
  have "\<exists>merged. merge_json ?json ?objs = (Inr no_results, merged) \<and> dict_keys merged = dict_keys ?objs \<and>
      (\<forall>t. by_name (dict_get t [] merged) = by_name (dict_get t [] ?objs) ++ by_name (dict_get t [] ?json))"
    using d h by (intro merging_prefers_the_file) simp_all
  then obtain merged where m: "merge_json ?json ?objs = (Inr no_results, merged)"
    "\<forall>t. by_name (dict_get t [] merged) = by_name (dict_get t [] ?objs) ++ by_name (dict_get t [] ?json)" by blast
  have "by_name (dict_get ''channel_zmq'' [] merged) ''a'' = Some (zmq_item ''a'' ''new'')"
    "by_name (dict_get ''channel_zmq'' [] merged) ''b'' = Some (zmq_item ''b'' ''old'')"
    unfolding m(2) [rule_format] by (simp_all add: by_name_def dict_get_def json_name_def jget_def zmq_item_def)
  with m(1) show ?thesis by blast
qed

text \<open>Objects over HTTP have the one key \<open>http_soap\<close>, from which no connection is read: both are kept.\<close>

lemma http_objects_are_kept_twice:
  assumes "map_of objs ''http_soap'' = Some [d]" "map_of d ''connection'' = Some (JText ''channel'')"
  shows "\<exists>merged. merge_json [(''http_soap'', [d])] objs = (Inr no_results, merged) \<and> map_of merged ''http_soap'' = Some [d, d]"
proof -
  have h: "is_http_key ''http_soap''" "connection_transport ''http_soap'' = Inr (''http'', ''soap'')" by code_simp+
  let ?p = "\<lambda>e. if jeq (jget e ''transport'') (JText ''soap'') \<and> jeq (jget e ''connection'') (JText ''http'') then same_name d e else Inr False"
  have c: "jget d ''connection'' \<noteq> JText ''http''" using assms(2) by (simp add: jget_def dict_get_def)
  have r: "remove_loop ?p 0 [d] = Inr [d]" by (intro remove_loop_done) (simp add: c)
  have "merge_elem ''http_soap'' d objs = (Inr (), dict_mutate ''http_soap'' (\<lambda>ds. ds @ [d]) (dict_mutate ''http_soap'' (\<lambda>_. [d]) objs))"
    using assms(1) r
    by (simp add: merge_elem_def h Let_def py_bind_ret py_bind_sum py_seq_def py_bind_def py_get_def py_modify_def py_sum_def dict_get_def cong: if_cong)
  then show ?thesis using assms(1) h by (simp add: merge_json_def py_bind_def py_get_def py_seq_def py_ret_def dict_simps)
qed

section \<open>Imports\<close>

text \<open>The field for the id of a dependency is none for a name.\<close>

definition names_untouched :: "em_services \<Rightarrow> bool" where
  "names_untouched gs \<longleftrightarrow> (\<forall>info\<in>set (gs_services gs). \<forall>(f, dep)\<in>set (si_object_deps info). id_field dep \<noteq> Some ''name'') \<and>
     (\<forall>t i. map_of (gs_by_name gs) t = Some i \<longrightarrow> i < length (gs_services gs))"

lemma initial_names_untouched: "names_untouched initial_services"
proof -
  have "\<forall>info\<in>set (gs_services initial_services). \<forall>(f, dep)\<in>set (si_object_deps info). id_field dep \<noteq> Some ''name''"
    by (simp add: initial_services_def SERVICES_def with_object_deps_def with_service_deps_def new_info_def dep_on_def)
  moreover have "i < length (gs_services initial_services)" if "map_of (gs_by_name initial_services) t = Some i" for t i
  proof -
    have "list_all (\<lambda>(t, i). i < length (gs_services initial_services)) (gs_by_name initial_services)" by code_simp
    with map_of_SomeD [OF that] show ?thesis by (auto simp: list_all_iff)
  qed
  ultimately show ?thesis by (simp add: names_untouched_def)
qed

lemma populate_names_untouched: "keeps names_untouched (populate_services_from_apispec spec)"
proof -
  have "keeps names_untouched (populate_prefix pm)" for pm
  proof (rule keepsI)
    fix gs assume gs: "names_untouched gs"
    obtain pfx methods where pm: "pm = (pfx, methods)" by fastforce
    have upd: "names_untouched (gs_services_update (\<lambda>infos. infos[i := (infos ! i)\<lparr>si_methods := methods\<rparr>]) g)" if "names_untouched g" for i g
    proof (cases "i < length (gs_services g)")
      case True
      have "\<forall>(f, dep)\<in>set (si_object_deps (gs_services g ! i)). id_field dep \<noteq> Some ''name''"
        using nth_mem [OF True] that unfolding names_untouched_def by blast
      with that show ?thesis unfolding names_untouched_def by (auto dest!: set_update_subset_insert [THEN subsetD])
    qed (use that in \<open>simp add: names_untouched_def list_update_beyond\<close>)
    have new: "names_untouched (gs_services_update (\<lambda>infos. infos @ [new_info n (Some pfx)])
        (gs_by_name_update (dict_set m (length (gs_services gs))) (gs_by_prefix_update (dict_set (Some pfx) (length (gs_services gs))) gs)))" for n m
      using gs by (auto simp: names_untouched_def new_info_def dict_simps less_Suc_eq)
    show "names_untouched (snd (populate_prefix pm gs))"
      using gs upd [OF gs] upd [OF new]
      by (auto simp: pm populate_prefix_def py_run Let_def split: option.split)
  qed
  then show ?thesis by (auto simp: populate_services_from_apispec_def intro: keeps_intros split: option.split)
qed

text \<open>What only the import itself changes.\<close>

definition import_state :: "enmasse \<Rightarrow> (string \<times> jval \<times> bool) list \<times> objects \<times> results" where
  "import_state s = (es_imported s, es_json s, es_results s)"

lemma keeps_sum [keeps_intros]: "keeps I (py_sum r)"
  by (simp add: keeps_def py_sum_def)

lemma keeps_client: "keeps (\<lambda>s. import_state s = x) (client_invoke cl name payload)"
  unfolding client_invoke_def
  by (intro keeps_seq keeps_modify) (auto simp: import_state_def keeps_def)

lemma keeps_refresh: "keeps (\<lambda>s. import_state s = x) (refresh_by_type gs cl t)"
  unfolding refresh_by_type_def item_set_def
  by (intro keeps_intros keeps_client keeps_if) (auto simp: import_state_def)

lemma keeps_password: "keeps (\<lambda>s. import_state s = x) (maybe_change_password gs cl i t d)"
  unfolding maybe_change_password_def
  by (auto intro!: keeps_intros keeps_client split: option.split)

lemma keeps_dependency: "keeps (\<lambda>s. import_state s = x) (dependency_ids gs deps d)"
  by (induction gs deps d rule: dependency_ids.induct) (auto intro!: keeps_intros split: option.split)

lemma keeps_prepare_object: "keeps (\<lambda>s. import_state s = x) (prepare_object gs t d is_edit)"
  unfolding prepare_object_def with_object_id_def
  by (intro keeps_intros keeps_dependency)

lemma py_simple_Inr:
  "py_sum r s = (Inr x, t) \<longleftrightarrow> r = Inr x \<and> t = s" "py_get f s = (Inr x, t) \<longleftrightarrow> x = f s \<and> t = s"
  "py_ret y s = (Inr x, t) \<longleftrightarrow> x = y \<and> t = s" "py_value e v s = (Inr x, t) \<longleftrightarrow> v = Some x \<and> t = s"
  "py_modify g s = (Inr w, t) \<longleftrightarrow> t = g s" "py_raise e s \<noteq> (Inr x, t)"
  by (auto simp: py_sum_def py_get_def py_ret_def py_value_def py_raise_def py_modify_def split: option.splits)

text \<open>The name of what is imported.\<close>

lemma dependency_ids_name:
  "dependency_ids gs deps d s = (Inr e, u) \<Longrightarrow> \<forall>(f, dep)\<in>set deps. id_field dep \<noteq> Some ''name'' \<Longrightarrow> map_of e ''name'' = map_of d ''name''"
proof (induction gs deps d arbitrary: s rule: dependency_ids.induct)
  case (2 gs f dep deps d)
  then show ?case
    by (auto simp: py_bind_def py_value_def py_get_def py_sum_def py_ret_def py_raise_def dict_simps
        split: option.splits if_splits prod.splits sum.splits)
qed (simp add: py_ret_def)

lemma swap_name: "a \<noteq> ''name'' \<Longrightarrow> map_of (swap_service_name required a b d) ''name'' = map_of d ''name''"
  by (simp add: swap_service_name_def dict_simps split: option.split)

lemma service_by_name_in:
  assumes gs: "names_untouched gs" and info: "service_by_name gs t = Some info"
  shows "\<forall>(f, dep)\<in>set (si_object_deps info). id_field dep \<noteq> Some ''name''"
proof -
  obtain i where "map_of (gs_by_name gs) t = Some i" "info = gs_services gs ! i" using info by (auto simp: service_by_name_def)
  with gs have "info \<in> set (gs_services gs)" unfolding names_untouched_def by (metis nth_mem)
  with gs show ?thesis unfolding names_untouched_def by blast
qed

lemma with_object_id_name: "with_object_id gs t is_edit d s = (Inr e, u) \<Longrightarrow> map_of e ''name'' = map_of d ''name''"
  by (cases is_edit) (auto simp: with_object_id_def py_simple_Inr dict_simps elim!: py_bind_InrE)

lemma prepare_object_name:
  assumes gs: "names_untouched gs" and run: "prepare_object gs t d is_edit s = (Inr (n, e), u)"
  shows "map_of e ''name'' = map_of d ''name''"
proof -
  obtain info required d1 s1 s2 s3 where info: "service_by_name gs t = Some info"
    and m: "with_object_id gs t is_edit
       (swap_service_name required ''service_name'' ''service'' (swap_service_name required ''service'' ''service_name'' d)) s1 = (Inr d1, s2)"
    and n: "dependency_ids gs (si_object_deps info) d1 s2 = (Inr e, s3)"
    using run unfolding prepare_object_def by (elim py_bind_InrE, simp only: py_simple_Inr prod.inject)
  have "map_of e ''name'' = map_of d1 ''name''" by (rule dependency_ids_name [OF n service_by_name_in [OF gs info]])
  also have "\<dots> = map_of d ''name''" using with_object_id_name [OF m] by (simp add: swap_name)
  finally show ?thesis .
qed

text \<open>What the import of one object changes.\<close>

lemma keeps_stateD: "(\<And>x. keeps (\<lambda>s. import_state s = x) m) \<Longrightarrow> m s = (r, u) \<Longrightarrow> import_state u = import_state s"
  using keepsD [of "\<lambda>v. import_state v = import_state s" m s] by simp

text \<open>A service is asked for an object, or the preparations fail.\<close>

lemma import_object_run:
  assumes gs: "names_untouched gs" and run: "import_object gs cl t d e s = (r, u)"
  obtains (failed) ex where "r = Inl ex" "import_state u = import_state s"
  | (asked) "import_state u = import_state (es_imported_update (\<lambda>xs. xs @ [(t, jget d ''name'', e)]) s)"
      "\<And>response attrs. r = Inr (response, attrs) \<Longrightarrow> map_of attrs ''name'' = map_of d ''name''"
proof -
  obtain x s1 where x: "prepare_object gs t d e s = (x, s1)" by fastforce
  have st: "import_state s1 = import_state s" by (rule keeps_stateD [OF keeps_prepare_object x])
  show ?thesis
  proof (cases x)
    case (Inl ex)
    with run x have "r = Inl ex" "u = s1" by (simp_all add: import_object_def py_bind_def)
    with st failed show ?thesis by blast
  next
    case (Inr nd)
    obtain n d1 where nd: "nd = (n, d1)" by fastforce
    have name: "map_of d1 ''name'' = map_of d ''name''" using prepare_object_name [OF gs] x Inr nd by blast
    let ?s2 = "es_imported_update (\<lambda>xs. xs @ [(t, jget d1 ''name'', e)]) s1"
    obtain y s3 where y: "client_invoke cl n d1 ?s2 = (y, s3)" by fastforce
    have "import_state s3 = import_state ?s2" by (rule keeps_stateD [OF keeps_client y])
    with st name have st3: "import_state s3 = import_state (es_imported_update (\<lambda>xs. xs @ [(t, jget d ''name'', e)]) s)"
      by (simp add: import_state_def jget_def dict_get_def)
    from run x Inr nd y have "u = s3" "\<And>response attrs. r = Inr (response, attrs) \<Longrightarrow> attrs = d1"
      by (auto simp: import_object_def py_bind_def py_seq_def py_modify_def py_ret_def split: sum.splits)
    with st3 name asked show ?thesis by blast
  qed
qed

lemma import_one_run:
  assumes gs: "names_untouched gs" and run: "import_one gs cl t d e s = (r, u)"
  shows "es_imported u = es_imported s @ [(t, jget d ''name'', e)] \<or> es_imported u = es_imported s \<and> (\<exists>ex. r = Inl ex)"
    "r = Inr True \<Longrightarrow> es_results u \<noteq> es_results s"
    "r = Inr False \<Longrightarrow> es_results u = es_results s \<and>
      (if e then \<exists>n ds. map_of d ''name'' = Some n \<and> remove_named n (dict_get t [] (es_json s)) = Inr ds \<and>
         es_json u = dict_mutate t (\<lambda>_. ds) (es_json s)
       else es_json u = es_json s)"
proof -
  let ?s1 = "es_imported_update (\<lambda>xs. xs @ [(t, jget d ''name'', e)]) s" and ?d = "dict_set ''cluster_id'' (cl_cluster_id cl) d"
  have same: "jget ?d ''name'' = jget d ''name''" by (simp add: jget_def dict_get_def dict_simps)
  obtain x s2 where x: "import_object gs cl t ?d e s = (x, s2)" by fastforce
  have "(es_imported u = es_imported s @ [(t, jget d ''name'', e)] \<or> es_imported u = es_imported s \<and> (\<exists>ex. r = Inl ex)) \<and> (r = Inr True \<longrightarrow> es_results u \<noteq> es_results s) \<and>
    (r = Inr False \<longrightarrow> es_results u = es_results s \<and>
      (if e then \<exists>n ds. map_of d ''name'' = Some n \<and> remove_named n (dict_get t [] (es_json s)) = Inr ds \<and>
         es_json u = dict_mutate t (\<lambda>_. ds) (es_json s)
       else es_json u = es_json s))"
  proof (cases x)
    case (Inl ex)
    then have "r = Inl ex" "u = s2" using run x by (simp_all add: import_one_def py_bind_def)
    with import_object_run [OF gs x] same show ?thesis by (auto simp: import_state_def)
  next
    case (Inr ra)
    obtain response attrs where ra: "ra = (response, attrs)" by fastforce
    have st2: "import_state s2 = import_state ?s1" and n: "map_of attrs ''name'' = map_of d ''name''"
      by (rule import_object_run [OF gs x]; use Inr ra same in \<open>force simp: dict_simps\<close>)+
    let ?m = "if rp_ok response then py_bind (py_sum (response_id response)) (\<lambda>object_id. maybe_change_password gs cl object_id t attrs)
        else py_ret (Some response)"
    obtain y s3 where y: "?m s2 = (y, s3)" by fastforce
    have "keeps (\<lambda>s. import_state s = x) ?m" for x by (intro keeps_intros keeps_password)
    from keeps_stateD [OF this y] st2 have st3: "import_state s3 = import_state ?s1" by simp
    show ?thesis
    proof (cases y)
      case (Inl ex)
      with run x Inr ra y st3 show ?thesis by (auto simp: import_one_def py_bind_def import_state_def)
    next
      case y': (Inr resp)
      show ?thesis
      proof (cases "case resp of None \<Rightarrow> False | Some response \<Rightarrow> \<not> rp_ok response")
        case True
        with run x Inr ra y y' st3 show ?thesis
          by (auto simp: import_one_def py_seq_def py_bind_def py_modify_def py_sum_def py_ret_def import_state_def importer_error_def add_error_def
              attr_def n split: option.splits)
            (auto dest: arg_cong [of _ _ re_errors])
      next
        case False
        let ?k = "if e then py_bind (py_sum (attr ''name'' attrs)) (remove_from_import_list t) else py_ret ()"
        obtain z s4 where z: "?k s3 = (z, s4)" by fastforce
        have k: "es_imported s4 = es_imported ?s1 \<and> es_results s4 = es_results s \<and> (z = Inr () \<longrightarrow>
          (if e then \<exists>n ds. map_of d ''name'' = Some n \<and> remove_named n (dict_get t [] (es_json s)) = Inr ds \<and>
             es_json s4 = dict_mutate t (\<lambda>_. ds) (es_json s)
           else es_json s4 = es_json s))"
          using z st3 n
          by (auto simp: import_state_def py_bind_def py_sum_def py_ret_def py_get_def py_modify_def attr_def remove_from_import_list_def
              split: if_splits option.splits sum.splits)
        obtain w s5 where w: "refresh_by_type gs cl t s4 = (w, s5)" by fastforce
        have "import_state s5 = import_state s4" by (rule keeps_stateD [OF keeps_refresh w])
        with run x Inr ra y y' False z k w show ?thesis
          by (cases z; cases w) (auto simp: import_one_def py_seq_def py_bind_def py_ret_def import_state_def)
      qed
    qed
  qed
  then show "es_imported u = es_imported s @ [(t, jget d ''name'', e)] \<or> es_imported u = es_imported s \<and> (\<exists>ex. r = Inl ex)"
    "r = Inr True \<Longrightarrow> es_results u \<noteq> es_results s"
    "r = Inr False \<Longrightarrow> es_results u = es_results s \<and>
      (if e then \<exists>n ds. map_of d ''name'' = Some n \<and> remove_named n (dict_get t [] (es_json s)) = Inr ds \<and>
         es_json u = dict_mutate t (\<lambda>_. ds) (es_json s)
       else es_json u = es_json s)"
    by blast+
qed

text \<open>The root of all roles is not imported.\<close>

definition skipped :: "string \<times> jval \<Rightarrow> bool" where
  "skipped x \<longleftrightarrow> x = (''rbac_role'', JText ''Root'')"

definition object_key :: "string \<times> item \<Rightarrow> string \<times> jval" where
  "object_key td = (fst td, jget (snd td) ''name'')"

definition kept :: "string \<times> item \<Rightarrow> bool" where
  "kept td \<longleftrightarrow> \<not> skipped (object_key td)"

lemma should_skip: "should_skip_item t d = Inr b \<Longrightarrow> b \<longleftrightarrow> skipped (object_key (t, d))"
  by (auto simp: should_skip_item_def skipped_def object_key_def attr_def jget_def dict_get_def split: if_splits option.splits)

definition as_import :: "bool \<Rightarrow> string \<times> item \<Rightarrow> string \<times> jval \<times> bool" where
  "as_import e td = (fst td, jget (snd td) ''name'', e)"

text \<open>What imports of many objects change, as \<open>import_one_run\<close> says it of one.\<close>

definition file_keys :: "objects \<Rightarrow> (string \<times> jval) multiset" where
  "file_keys json = image_mset object_key (mset (flat_items json))"

definition file_ok :: "objects \<Rightarrow> bool" where
  "file_ok json \<longleftrightarrow> dict_ok json \<and> (\<forall>(t, ds)\<in>set json. \<forall>d\<in>set ds. has_name d)"

lemma remove_named_run:
  assumes "remove_named n ds = Inr es" "\<forall>d\<in>set ds. has_name d"
  shows "add_mset n (image_mset (\<lambda>d. jget d ''name'') (mset es)) = image_mset (\<lambda>d. jget d ''name'') (mset ds)" "set es \<subseteq> set ds"
proof -
  have "add_mset n (image_mset (\<lambda>d. jget d ''name'') (mset es)) = image_mset (\<lambda>d. jget d ''name'') (mset ds) \<and> set es \<subseteq> set ds"
    using assms
  proof (induction ds arbitrary: es)
    case (Cons d ds)
    from Cons.prems(2) obtain m where m: "map_of d ''name'' = Some (JText m)" by (auto simp: has_name_def)
    then have attr: "attr ''name'' d = Inr (JText m)" "jget d ''name'' = JText m" by (simp_all add: attr_def jget_def dict_get_def)
    show ?case
    proof (cases "jeq (JText m) n")
      case True
      with Cons.prems attr show ?thesis by auto
    next
      case False
      with Cons.prems(1) attr obtain fs where "remove_named n ds = Inr fs" "es = d # fs"
        by (cases "remove_named n ds") auto
      with Cons show ?thesis by (auto simp: add_mset_commute)
    qed
  qed simp
  then show "add_mset n (image_mset (\<lambda>d. jget d ''name'') (mset es)) = image_mset (\<lambda>d. jget d ''name'') (mset ds)" "set es \<subseteq> set ds" by blast+
qed

lemma file_keys_Cons: "file_keys ((t, ds) # json) = image_mset (\<lambda>d. (t, jget d ''name'')) (mset ds) + file_keys json"
  by (simp add: file_keys_def flat_items_def object_key_def image_mset.compositionality comp_def)

lemma file_keys_removed:
  assumes "file_ok json" "remove_named n (dict_get t [] json) = Inr es"
  shows "add_mset (t, n) (file_keys (dict_mutate t (\<lambda>_. es) json)) = file_keys json" "file_ok (dict_mutate t (\<lambda>_. es) json)"
proof -
  have "add_mset (t, n) (file_keys (dict_mutate t (\<lambda>_. es) json)) = file_keys json \<and> file_ok (dict_mutate t (\<lambda>_. es) json)"
    using assms
  proof (induction json)
    case (Cons x json)
    obtain u ds where x: "x = (u, ds)" by fastforce
    show ?case
    proof (cases "u = t")
      case True
      from Cons.prems x True have ok: "\<forall>d\<in>set ds. has_name d" "t \<notin> fst ` set json" and r: "remove_named n ds = Inr es"
        by (auto simp: file_ok_def dict_get_def)
      have same: "dict_mutate t (\<lambda>_. es) json = json" using ok(2) by (force simp: dict_mutate_def intro: map_idI)
      have "add_mset (t, n) (image_mset (\<lambda>d. (t, jget d ''name'')) (mset es)) = image_mset (Pair t) (add_mset n (image_mset (\<lambda>d. jget d ''name'') (mset es)))"
        by (simp add: image_mset.compositionality comp_def)
      also have "\<dots> = image_mset (\<lambda>d. (t, jget d ''name'')) (mset ds)"
        unfolding remove_named_run(1) [OF r ok(1)] by (simp add: image_mset.compositionality comp_def)
      finally have "add_mset (t, n) (image_mset (\<lambda>d. (t, jget d ''name'')) (mset es)) = image_mset (\<lambda>d. (t, jget d ''name'')) (mset ds)" .
      moreover have "dict_mutate t (\<lambda>_. es) (x # json) = (t, es) # json" using same True x by (simp add: dict_mutate_def)
      ultimately show ?thesis using Cons.prems(1) True x ok remove_named_run(2) [OF r ok(1)]
        by (auto simp: file_keys_Cons file_ok_def)
    next
      case False
      then have m: "dict_mutate t (\<lambda>_. es) (x # json) = (u, ds) # dict_mutate t (\<lambda>_. es) json" using x by (simp add: dict_mutate_def)
      have "file_ok json" "remove_named n (dict_get t [] json) = Inr es" using Cons.prems x False by (auto simp: file_ok_def dict_get_def)
      with Cons.IH have "add_mset (t, n) (file_keys (dict_mutate t (\<lambda>_. es) json)) = file_keys json" "file_ok (dict_mutate t (\<lambda>_. es) json)" by blast+
      with m Cons.prems(1) x show ?thesis by (auto simp: file_keys_Cons file_ok_def)
    qed
  qed (simp add: dict_get_def)
  then show "add_mset (t, n) (file_keys (dict_mutate t (\<lambda>_. es) json)) = file_keys json" "file_ok (dict_mutate t (\<lambda>_. es) json)" by blast+
qed

lemma import_all_run:
  assumes gs: "names_untouched gs"
  shows "import_all gs cl e tds s = (r, u) \<Longrightarrow>
    (\<exists>ys zs. es_imported u = es_imported s @ map (as_import e) ys \<and> filter kept tds = ys @ zs \<and>
      (r = Inr True \<longrightarrow> es_results u \<noteq> es_results s) \<and>
      (r = Inr False \<longrightarrow> zs = [] \<and> es_results u = es_results s \<and> (\<not> e \<longrightarrow> es_json u = es_json s) \<and>
        (e \<longrightarrow> file_ok (es_json s) \<longrightarrow> file_ok (es_json u) \<and> file_keys (es_json u) + image_mset object_key (mset ys) = file_keys (es_json s))))"
proof (induction tds arbitrary: s)
  case Nil
  then show ?case by (auto simp: py_ret_def)
next
  case (Cons td tds)
  obtain t d where td: "td = (t, d)" by fastforce
  show ?case
  proof (cases "should_skip_item t d")
    case (Inl ex)
    with Cons.prems td show ?thesis
      by (intro exI [of _ "filter kept (td # tds)", THEN exI [of _ "[]"]]) (auto simp: py_bind_def py_sum_def)
  next
    case (Inr skip)
    from should_skip [OF this] have skip: "skip \<longleftrightarrow> skipped (object_key td)" by (simp add: td)
    show ?thesis
    proof (cases skip)
      case True
      with Cons.prems Inr td have "import_all gs cl e tds s = (r, u)" by (simp add: py_bind_def py_sum_def)
      from Cons.IH [OF this] skip True show ?thesis by (simp add: kept_def)
    next
      case False
      obtain x s1 where x: "import_one gs cl t d e s = (x, s1)" by fastforce
      note one = import_one_run [OF gs x]
      have keep: "filter kept (td # tds) = td # filter kept tds" using skip False by (simp add: kept_def)
      show ?thesis
      proof (cases "x = Inr False")
        case True
        with x Cons.prems Inr False td have "import_all gs cl e tds s1 = (r, u)" by (simp add: py_bind_def py_sum_def)
        from Cons.IH [OF this] obtain ys zs where ys: "es_imported u = es_imported s1 @ map (as_import e) ys"
          "filter kept tds = ys @ zs" "r = Inr True \<longrightarrow> es_results u \<noteq> es_results s1"
          "r = Inr False \<longrightarrow> zs = [] \<and> es_results u = es_results s1 \<and> (\<not> e \<longrightarrow> es_json u = es_json s1) \<and>
            (e \<longrightarrow> file_ok (es_json s1) \<longrightarrow> file_ok (es_json u) \<and> file_keys (es_json u) + image_mset object_key (mset ys) = file_keys (es_json s1))"
          by blast
        have im: "es_imported s1 = es_imported s @ [as_import e td]" using one(1) True by (simp add: as_import_def td)
        have json: "\<not> e \<longrightarrow> es_json s1 = es_json s"
          "e \<longrightarrow> file_ok (es_json s) \<longrightarrow> file_ok (es_json s1) \<and> add_mset (object_key td) (file_keys (es_json s1)) = file_keys (es_json s)"
          using one(3) [OF True] file_keys_removed [of "es_json s" _ t]
          by (auto simp: object_key_def td jget_def dict_get_def split: if_splits)
        have "es_imported u = es_imported s @ map (as_import e) (td # ys)" using im ys(1) by simp
        moreover have "filter kept (td # tds) = (td # ys) @ zs" using keep ys(2) by simp
        ultimately show ?thesis using ys(3,4) one(3) [OF True] json
          by (intro exI [of _ zs, THEN exI [of _ "td # ys"]]) auto
      next
        case failed: False
        then have ru: "u = s1" "(\<exists>ex. x = Inl ex \<and> r = Inl ex) \<or> x = Inr True \<and> r = Inr True"
          using x Cons.prems Inr False td by (auto simp: py_bind_def py_sum_def py_ret_def split: sum.splits)
        then have res: "r = Inr True \<longrightarrow> es_results u \<noteq> es_results s" "r \<noteq> Inr False" using one(2) by auto
        from one(1) consider "es_imported s1 = es_imported s @ [as_import e td]" | "es_imported s1 = es_imported s"
          by (auto simp: as_import_def td)
        then show ?thesis
        proof cases
          case 1
          with ru res keep show ?thesis by (intro exI [of _ "filter kept tds", THEN exI [of _ "[td]"]]) simp
        next
          case 2
          with ru res keep show ?thesis by (intro exI [of _ "td # filter kept tds", THEN exI [of _ "[]"]]) simp
        qed
      qed
    qed
  qed
qed

text \<open>Edits come before creations, and among both those of definitions come first.\<close>

definition import_rank :: "em_services \<Rightarrow> string \<times> jval \<times> bool \<Rightarrow> nat" where
  "import_rank gs x = (case x of (t, n, is_edit) \<Rightarrow> if is_edit then (if is_def t then 0 else 1) else if created_first gs t then 2 else 3)"

lemma sorted_imports:
  assumes "filter P (filter q xs @ filter (Not \<circ> q) xs) = ys @ zs" "\<And>x. x \<in> set xs \<Longrightarrow> f x = (if q x then a else b)" "a \<le> (b :: nat)"
  shows "sorted (map f ys)" "\<forall>y\<in>set ys. f y \<in> {a, b}"
proof -
  have f: "map f (filter P (filter q xs)) = replicate (length (filter P (filter q xs))) a"
    "map f (filter P (filter (Not \<circ> q) xs)) = replicate (length (filter P (filter (Not \<circ> q) xs))) b"
    using assms(2) by (intro map_replicate_const [THEN trans [rotated]] map_cong; simp)+
  have "sorted (map f (ys @ zs))" unfolding assms(1) [symmetric] filter_append map_append f
    using assms(3) by (auto simp: sorted_append)
  then show "sorted (map f ys)" by (simp add: sorted_append)
  have "set ys \<subseteq> set xs" using arg_cong [OF assms(1), of set] by auto
  with assms(2) show "\<forall>y\<in>set ys. f y \<in> {a, b}" by fastforce
qed


lemma mset_parted: "mset (filter k (filter p xs @ filter (Not \<circ> p) xs)) = mset (filter k xs)"
  by (induction xs) (auto simp del: mset_filter)

lemma imported_keys: "image_mset (\<lambda>(t, n, e). (t, n)) (mset (map (as_import e) ys)) = image_mset object_key (mset ys)"
  by (simp add: as_import_def object_key_def [abs_def] image_mset.compositionality comp_def split_beta)

lemma kept_keys: "image_mset object_key (mset (filter kept tds)) =
    filter_mset (\<lambda>x. \<not> skipped x) (image_mset object_key (mset tds))"
  by (induction tds) (auto simp: kept_def)

lemma flat_items_filter: "flat_items (filter (p \<circ> fst) json) = filter (p \<circ> fst) (flat_items json)"
  by (induction json) (auto simp: flat_items_def filter_map comp_def)

text \<open>An import is one of edits, and one of creations of what they leave.\<close>

lemma import_objects_run:
  assumes "import_all gs cl True (filter (is_def \<circ> fst) ws @ filter (Not \<circ> (is_def \<circ> fst)) ws) s = (x, s1)"
    and "ws = map (\<lambda>w. (nt_type w, nt_item w)) (re_warnings found)"
  shows "import_objects gs cl found s =
      (case x of Inl e \<Rightarrow> (Inl e, s1) | Inr True \<Rightarrow> (Inr (es_results s1), s1)
       | Inr False \<Rightarrow> if list_ex (\<lambda>(t, ds). service_by_name gs t = None) (es_json s1) then (Inl KeyError, s1)
         else py_seq (import_all gs cl False
            (filter (created_first gs \<circ> fst) (flat_items (es_json s1)) @ filter (Not \<circ> (created_first gs \<circ> fst)) (flat_items (es_json s1))))
          (py_get es_results) s1)"
  using assms flat_items_filter [of "created_first gs" "es_json s1"] flat_items_filter [of "Not \<circ> created_first gs" "es_json s1"]
  unfolding import_objects_def Let_def
  by (simp add: py_bind_def py_get_def py_raise_def comp_assoc split: sum.split bool.split)

lemma creations_run:
  assumes gs: "names_untouched gs"
    and run: "import_all gs cl False (filter (created_first gs \<circ> fst) (flat_items json) @
      filter (Not \<circ> (created_first gs \<circ> fst)) (flat_items json)) s = (y, u)"
  obtains vs where "es_imported u = es_imported s @ map (as_import False) vs"
    "sorted (map (import_rank gs \<circ> as_import False) vs)" "\<forall>td\<in>set vs. 2 \<le> import_rank gs (as_import False td)"
    "y = Inr True \<Longrightarrow> es_results u \<noteq> es_results s"
    "y = Inr False \<Longrightarrow> image_mset object_key (mset vs) = filter_mset (\<lambda>x. \<not> skipped x) (file_keys json)"
proof -
  let ?first = "created_first gs \<circ> fst" and ?items = "flat_items json"
  from import_all_run [OF gs run] obtain vs ws where vs: "es_imported u = es_imported s @ map (as_import False) vs"
    "filter kept (filter ?first ?items @ filter (Not \<circ> ?first) ?items) = vs @ ws"
    "y = Inr True \<longrightarrow> es_results u \<noteq> es_results s" "y = Inr False \<longrightarrow> ws = []" by auto
  have rank: "(import_rank gs \<circ> as_import False) td = (if ?first td then 2 else 3)" for td
    by (simp add: import_rank_def as_import_def)
  have le: "(2 :: nat) \<le> 3" by simp
  note creations = sorted_imports [OF vs(2) rank le]
  have "import_rank gs (as_import False td) \<in> {2, 3}" if "td \<in> set vs" for td
    using creations(2) that unfolding comp_def by blast
  then have ge: "\<forall>td\<in>set vs. 2 \<le> import_rank gs (as_import False td)" by fastforce
  have "image_mset object_key (mset vs) = filter_mset (\<lambda>x. \<not> skipped x) (file_keys json)" if "y = Inr False"
  proof -
    from vs(2,4) that have "vs = filter kept (filter ?first ?items @ filter (Not \<circ> ?first) ?items)" by simp
    then have "mset vs = mset (filter kept ?items)" by (simp only: mset_parted)
    then show ?thesis by (simp only: kept_keys file_keys_def)
  qed
  with that [OF vs(1) creations(1) ge] vs(3) show ?thesis by blast
qed

lemma import_runs:
  assumes gs: "names_untouched gs" and run: "import_objects gs cl found s = (r, u)"
    and s: "es_imported s = []" "file_ok (es_json s)"
  shows "sorted (map (import_rank gs) (es_imported u)) \<and>
    (r = Inr (es_results s) \<longrightarrow>
       image_mset (\<lambda>(t, n, e). (t, n)) (mset (es_imported u)) = filter_mset (\<lambda>x. \<not> skipped x) (file_keys (es_json s)))"
proof -
  define ws where "ws = map (\<lambda>w. (nt_type w, nt_item w)) (re_warnings found)"
  obtain x s1 where x: "import_all gs cl True (filter (is_def \<circ> fst) ws @ filter (Not \<circ> (is_def \<circ> fst)) ws) s = (x, s1)" by fastforce
  from import_all_run [OF gs x] obtain ys zs where ys: "es_imported s1 = map (as_import True) ys"
    "filter kept (filter (is_def \<circ> fst) ws @ filter (Not \<circ> (is_def \<circ> fst)) ws) = ys @ zs"
    "x = Inr True \<longrightarrow> es_results s1 \<noteq> es_results s"
    "x = Inr False \<longrightarrow> es_results s1 = es_results s \<and> file_ok (es_json s1) \<and> file_keys (es_json s1) + image_mset object_key (mset ys) = file_keys (es_json s)"
    using s by auto
  have rank: "(import_rank gs \<circ> as_import True) td = (if (is_def \<circ> fst) td then 0 else 1)" for td
    by (simp add: import_rank_def as_import_def)
  note edits = sorted_imports [OF ys(2) rank zero_le]
  note run' = import_objects_run [OF x ws_def]
  show ?thesis
  proof (cases "x = Inr False \<and> \<not> list_ex (\<lambda>(t, ds). service_by_name gs t = None) (es_json s1)")
    case False
    then have "u = s1" "r \<noteq> Inr (es_results s)"
      using run run' ys(3) by (auto split: sum.splits bool.splits)
    with edits(1) ys(1) show ?thesis by (simp add: comp_def)
  next
    case True
    then obtain y where y: "import_all gs cl False (filter (created_first gs \<circ> fst) (flat_items (es_json s1)) @
        filter (Not \<circ> (created_first gs \<circ> fst)) (flat_items (es_json s1))) s1 = (y, u)" "r = map_sum id (\<lambda>_. es_results u) y"
      using run run' by (auto simp: py_seq_def py_get_def split: sum.splits prod.splits)
    obtain vs where vs: "es_imported u = es_imported s1 @ map (as_import False) vs"
      "sorted (map (import_rank gs \<circ> as_import False) vs)" "\<forall>td\<in>set vs. 2 \<le> import_rank gs (as_import False td)"
      "y = Inr True \<Longrightarrow> es_results u \<noteq> es_results s1"
      "y = Inr False \<Longrightarrow> image_mset object_key (mset vs) = filter_mset (\<lambda>x. \<not> skipped x) (file_keys (es_json s1))"
      using creations_run [OF gs y(1)] by blast
    have "\<forall>td\<in>set ys. import_rank gs (as_import True td) \<le> 1" using edits(2) by auto
    with vs(2,3) have order: "sorted (map (import_rank gs) (es_imported u))"
      using edits(1) vs(1) ys(1) by (fastforce simp: sorted_append comp_def)
    have k: "td \<in> set (ys @ zs) \<Longrightarrow> kept td" for td unfolding ys(2) [symmetric] by auto
    have "filter kept ys = ys" by (rule filter_True) (use k in auto)
    then have w: "filter_mset (\<lambda>x. \<not> skipped x) (image_mset object_key (mset ys)) = image_mset object_key (mset ys)"
      using kept_keys [of ys] by simp
    have "image_mset (\<lambda>(t, n, e). (t, n)) (mset (es_imported u)) = filter_mset (\<lambda>x. \<not> skipped x) (file_keys (es_json s))" if "r = Inr (es_results s)"
    proof -
      from that y(2) vs(4) ys(4) True have v: "y = Inr False" by (cases y) auto
      have "image_mset (\<lambda>(t, n, e). (t, n)) (mset (es_imported u)) = image_mset object_key (mset ys) + image_mset object_key (mset vs)"
        using imported_keys [of True ys] imported_keys [of False vs] by (simp add: vs(1) ys(1) del: mset_map)
      also have "\<dots> = filter_mset (\<lambda>x. \<not> skipped x) (file_keys (es_json s1) + image_mset object_key (mset ys))"
        unfolding vs(5) [OF v] filter_union_mset w by (rule add.commute)
      finally show ?thesis using ys(4) True by simp
    qed
    with order show ?thesis by blast
  qed
qed

text \<open>
  What services an import calls. A call is one for an object that is imported, of the service that edits
  or creates objects of its type and with the object's name, or it is one that lists objects or changes a
  password.
\<close>

fun call_for :: "em_services \<Rightarrow> (string \<times> jval \<times> bool) option \<Rightarrow> string option \<times> item \<Rightarrow> bool" where
  "call_for gs (Some (t, name, is_edit)) (service, payload) \<longleftrightarrow> (\<exists>info. service_by_name gs t = Some info \<and>
     service = get_service_name (if is_edit then ''edit'' else ''create'') info \<and> jget payload ''name'' = name)"
| "call_for gs None (service, payload) \<longleftrightarrow> (\<exists>t info. service_by_name gs t = Some info \<and>
     (service = get_service_name ''get-list'' info \<or> service = get_service_name ''change-password'' info))"

definition calls_explained :: "em_services \<Rightarrow> (string option \<times> item) list \<Rightarrow> enmasse \<Rightarrow> bool" where
  "calls_explained gs before s \<longleftrightarrow> (\<exists>tags calls. es_calls s = before @ calls \<and> list_all2 (call_for gs) tags calls \<and>
     es_imported s = List.map_filter id tags)"

lemma explained_other:
  assumes "calls_explained gs b s" "call_for gs None c"
  shows "calls_explained gs b (es_calls_update (\<lambda>cs. cs @ [c]) s)"
proof -
  from assms(1) obtain tags calls where "es_calls s = b @ calls" "list_all2 (call_for gs) tags calls"
    "es_imported s = List.map_filter id tags" unfolding calls_explained_def by blast
  with assms(2) show ?thesis unfolding calls_explained_def
    by (intro exI [of _ "tags @ [None]"] exI [of _ "calls @ [c]"]) (simp add: list_all2_appendI map_filter_def)
qed

lemma explained_import:
  assumes "calls_explained gs b s" "call_for gs (Some x) c"
  shows "calls_explained gs b (es_calls_update (\<lambda>cs. cs @ [c]) (es_imported_update (\<lambda>xs. xs @ [x]) s))"
proof -
  from assms(1) obtain tags calls where "es_calls s = b @ calls" "list_all2 (call_for gs) tags calls"
    "es_imported s = List.map_filter id tags" unfolding calls_explained_def by blast
  with assms(2) show ?thesis unfolding calls_explained_def
    by (intro exI [of _ "tags @ [Some x]"] exI [of _ "calls @ [c]"]) (cases x, simp add: list_all2_appendI map_filter_def)
qed

lemma explained_simps [simp]:
  "calls_explained gs b (es_objects_update f s) = calls_explained gs b s"
  "calls_explained gs b (es_json_update g s) = calls_explained gs b s"
  "calls_explained gs b (es_results_update h s) = calls_explained gs b s"
  by (simp_all add: calls_explained_def)

lemma keeps_other_call:
  "call_for gs None (name, payload) \<Longrightarrow> keeps (calls_explained gs b) (client_invoke cl name payload)"
  unfolding client_invoke_def
  by (intro keeps_seq keeps_modify) (simp_all add: explained_other keeps_def)

lemma explained_refresh: "keeps (calls_explained gs b) (refresh_by_type gs cl t)"
proof (cases "service_by_name gs t")
  case None
  then show ?thesis by (simp add: refresh_by_type_def py_value_def py_bind_raise keeps_raise)
next
  case (Some info)
  have "keeps (calls_explained gs b) (client_invoke cl (Some n) payload)" if "get_service_name ''get-list'' info = Some n" for n payload
    using Some that by (intro keeps_other_call) (auto intro!: exI [of _ t] exI [of _ info])
  with Some show ?thesis unfolding refresh_by_type_def item_set_def
    by (auto simp: py_value_def py_bind_ret intro!: keeps_intros split: option.split)
qed

lemma explained_password: "keeps (calls_explained gs b) (maybe_change_password gs cl i t d)"
proof (cases "service_by_name gs t")
  case None
  then show ?thesis by (simp add: maybe_change_password_def py_value_def py_bind_raise keeps_raise)
next
  case (Some info)
  have "keeps (calls_explained gs b) (client_invoke cl (Some n) payload)" if "get_service_name ''change-password'' info = Some n" for n payload
    using Some that by (intro keeps_other_call) (auto intro!: exI [of _ t] exI [of _ info])
  with Some show ?thesis unfolding maybe_change_password_def
    by (auto simp: py_value_def py_bind_ret intro!: keeps_intros split: option.split)
qed

lemma prepare_object_service:
  assumes "prepare_object gs t d is_edit s = (Inr (n, e), u)"
  shows "\<exists>info. service_by_name gs t = Some info \<and> n = get_service_name (if is_edit then ''edit'' else ''create'') info"
  using assms unfolding prepare_object_def by (elim py_bind_InrE, simp only: py_simple_Inr prod.inject) blast

lemma explained_import_object: "keeps (calls_explained gs b) (import_object gs cl t d is_edit)"
proof (rule keepsI)
  fix s assume s: "calls_explained gs b s"
  obtain x s1 where x: "prepare_object gs t d is_edit s = (x, s1)" by fastforce
  have "keeps (calls_explained gs b) (dependency_ids gs deps e)" for deps e
    by (induction gs deps e rule: dependency_ids.induct) (auto intro!: keeps_intros split: option.split)
  then have "keeps (calls_explained gs b) (prepare_object gs t d is_edit)"
    unfolding prepare_object_def with_object_id_def by (intro keeps_intros)
  from keepsD [OF this s] x have s1: "calls_explained gs b s1" by simp
  show "calls_explained gs b (snd (import_object gs cl t d is_edit s))"
  proof (cases x)
    case (Inl ex)
    with x s1 show ?thesis by (simp add: import_object_def py_bind_def)
  next
    case (Inr nd)
    obtain n d1 where nd: "nd = (n, d1)" by fastforce
    have "call_for gs (Some (t, jget d1 ''name'', is_edit)) (n, d1)"
      using prepare_object_service x Inr nd by simp
    from explained_import [OF s1 this] x Inr nd show ?thesis
      by (simp add: import_object_def client_invoke_def py_bind_def py_seq_def py_modify_def py_ret_def split: sum.split)
  qed
qed

lemma explained_import_one: "keeps (calls_explained gs b) (import_one gs cl t d is_edit)"
  unfolding import_one_def importer_error_def remove_from_import_list_def split_def
  by (intro keeps_intros explained_import_object explained_password explained_refresh) simp_all

lemma explained_import_all: "keeps (calls_explained gs b) (import_all gs cl is_edit tds)"
  by (induction gs cl is_edit tds rule: import_all.induct) (auto intro!: keeps_intros explained_import_one)

lemma explained_import_objects: "keeps (calls_explained gs b) (import_objects gs cl found)"
  unfolding import_objects_def Let_def by (intro keeps_intros explained_import_all)

text \<open>
  Claim C19. An import asks the services that edit objects before those that create them, and for
  definitions first among both; apart from this it only asks for lists of objects and for changes of
  passwords. When it ends without reporting a failure it has asked, for each type and name, for as many
  edits and creations as the file has objects of them, apart from the root of all roles: nothing is left
  out and nothing that was edited is created again, whatever the services have answered. No dependency
  of a type fills in its name, and the objects of the file have names.
\<close>

theorem import_covers_file:
  assumes gs: "names_untouched gs" and run: "import_objects gs cl found s = (r, u)"
    and s: "es_imported s = []" "file_ok (es_json s)"
  shows "(\<exists>tags calls. es_calls u = es_calls s @ calls \<and> list_all2 (call_for gs) tags calls \<and>
       es_imported u = List.map_filter id tags) \<and>
    sorted (map (import_rank gs) (es_imported u)) \<and>
    (r = Inr (es_results s) \<longrightarrow>
       image_mset (\<lambda>(t, n, e). (t, n)) (mset (es_imported u)) = filter_mset (\<lambda>x. \<not> skipped x) (file_keys (es_json s)))"
proof -
  have "calls_explained gs (es_calls s) s"
    using s(1) unfolding calls_explained_def by (intro exI [of _ "[]"]) (simp add: map_filter_def)
  from keepsD [OF explained_import_objects this, of cl found] run have "calls_explained gs (es_calls s) u" by simp
  with import_runs [OF gs run s] show ?thesis unfolding calls_explained_def by blast
qed

definition demo_cluster :: client where
  "demo_cluster = \<lparr>cl_invoke = (\<lambda>calls. Inr \<lparr>rp_ok = True, rp_has_data = True,
     rp_data = (if fst (last calls) = Some ''zato.channel.zmq.get-list'' then JList [] else JDict [(''id'', JInt 5)])\<rparr>), cl_cluster_id = JInt 1\<rparr>"

definition demo_import :: enmasse where
  "demo_import = \<lparr>es_objects = [(''channel_zmq'', [dict_set ''id'' (JInt 5) (zmq_item ''b'' ''old'')])], es_services = None,
     es_json = [(''channel_zmq'', [zmq_item ''a'' ''new'', zmq_item ''b'' ''new''])], es_results = no_results, es_calls = [], es_imported = []\<rparr>"

definition demo_existing :: results where
  "demo_existing = \<lparr>re_warnings = [\<lparr>nt_code = WARNING_ALREADY_EXISTS_IN_ODB, nt_type = ''channel_zmq'', nt_item = zmq_item ''b'' ''new''\<rparr>], re_errors = []\<rparr>"

lemma demo_import_ends: "fst (import_objects demo_services demo_cluster demo_existing demo_import) = Inr no_results"
  by code_simp

lemma demo_names_untouched: "names_untouched demo_services"
  unfolding demo_services_def by (rule keepsD [OF populate_names_untouched initial_names_untouched])

theorem import_covers_file_witness:
  "\<exists>u tags calls. import_objects demo_services demo_cluster demo_existing demo_import = (Inr no_results, u) \<and>
     es_calls u = calls \<and> list_all2 (call_for demo_services) tags calls \<and> es_imported u = List.map_filter id tags \<and>
     image_mset (\<lambda>(t, n, e). (t, n)) (mset (es_imported u)) = {#(''channel_zmq'', JText ''a''), (''channel_zmq'', JText ''b'')#}"
proof -
  obtain u where u: "import_objects demo_services demo_cluster demo_existing demo_import = (Inr no_results, u)"
    using demo_import_ends by (metis prod.collapse)
  have f: "file_ok (es_json demo_import)" "es_imported demo_import = []"
    "file_keys (es_json demo_import) = {#(''channel_zmq'', JText ''a''), (''channel_zmq'', JText ''b'')#}"
    "es_results demo_import = no_results" "es_calls demo_import = []"
    by (simp_all add: demo_import_def file_ok_def has_name_def zmq_item_def file_keys_def flat_items_def object_key_def jget_def dict_get_def)
  from import_covers_file [OF demo_names_untouched u f(2,1)] obtain tags calls where
    "es_calls u = calls" "list_all2 (call_for demo_services) tags calls" "es_imported u = List.map_filter id tags"
    "image_mset (\<lambda>(t, n, e). (t, n)) (mset (es_imported u)) = {#(''channel_zmq'', JText ''a''), (''channel_zmq'', JText ''b'')#}"
    by (auto simp: f(3-5) skipped_def)
  with u show ?thesis by blast
qed

end
