(* ===== verification/Spec2Isabelle.thy ===== *)
theory Spec2Isabelle
  imports Mdp_Runs Backlog_Adding Pubsub_Delivery Pubsub_Servers Pubsub_Publishing
    Rbac_Facts Http_Dispatch_Facts Sched_Facts
    Ws_Facts Retry Fixed_Width_Facts Sio_Facts Cache_Lru Cache_Sync Service_Policy Fan_Facts Enmasse_Facts
begin

text \<open>
  The Zato integration platform: a development that models the parts of its servers, its scheduler and
  its ZeroMQ broker that carry behaviour of their own, and proves what makes them correct. All paths
  below are under \<^verbatim>\<open>src/code\<close>.

  A Zato server is a set of worker processes. Each holds its configuration in memory and changes it
  upon messages from a broker; requests come over HTTP, WebSockets, ZeroMQ, from the scheduler and from
  messages, pass the security of their channel, and end in the invocation of a service, which may
  invoke other services, publish messages to topics, or read and write caches. These parts and the
  data that they exchange are modelled; libraries, databases, brokers and what users' services do
  are parameters.
\<close>

section \<open>How Python is modelled\<close>

text \<open>
  \<open>Py_Prelude\<close> and \<open>Py_Text\<close> hold what all components share. A method is a function of type
  \<open>('s, 'a) py\<close>, from a state to an exception or a value and the next state: a mutation that was made
  before an exception stays, as it does in Python. Every raise and early return of the source is a
  branch. A dictionary is an association list in the order in which it is gone through, that is of
  insertion (Python 2 leaves the order open; no property depends on it where it says nothing of
  order). Objects that the code shares or compares by identity are references into a heap of the
  state (jobs, greenlets, MDP workers). Texts are 8-bit characters; \<open>Sio\<close> has the UTF-8 encoding
  where the code encodes. Python's integers are \<open>int\<close>; times are exact, in the unit of the code.

  What is called but not in the repository is an argument: records of functions such as \<open>auth_world\<close>,
  \<open>run_world\<close>, \<open>match_lib\<close>, \<open>sio_lib\<close> or \<open>redis_ops\<close> stand for globre, the regex library, Paste, lxml,
  dateutil, simple-rbac, JWT and Fernet, Redis, SQL and users' services. Where a property relies on
  what such code promises, that is a named hypothesis (\<open>sorted_list_spec\<close>, \<open>redis_spec\<close>, \<open>rrule_ok\<close>, \<open>asbool_ok\<close>
  and others), which its witness discharges for a concrete function. Methods that hold a lock, and
  handlers that do not yield, are atomic steps; a killed greenlet takes no more turns.

  Two locales state what a component promises. \<open>py_object\<close>: each event that the environment may send
  keeps an invariant; hence it holds in every reachable state of the relation \<open>reach\<close>. \<open>py_refinement\<close>
  extends it: each event acts on the state as a step of an abstract specification does on what the
  state stands for; hence whole runs do. Each is interpreted by the components' own steps:
  \<open>registries\<close> and \<open>pool\<close> (MDP broker), \<open>backlog\<close>, \<open>tool\<close> (delivery), \<open>publisher\<close>, \<open>registry\<close>
  (publish/subscribe), \<open>caches\<close> and \<open>cluster\<close>, \<open>greenlets\<close> (scheduler), \<open>store\<close> (services), and, as
  refinements, \<open>sec_maps\<close> (security definitions and finite maps), \<open>job_tables\<close> (the scheduler and a table
  of jobs), \<open>lru\<close> (caches and the list that an LRU cache is).
\<close>

section \<open>Components, theories and code\<close>

text \<open>
  \<^item> ZeroMQ Majordomo: \<^verbatim>\<open>zato-zmq/src/zato/zmq_/mdp\<close>. \<open>Mdp_Wire\<close> has the frames and the events that are read
    from them (\<^verbatim>\<open>__init__.py\<close>), \<open>Mdp_Broker\<close> the broker's registries and handlers (\<^verbatim>\<open>broker.py\<close>), \<open>Mdp_Peers\<close> the
    worker and the client. \<open>Mdp_Broker_Facts\<close> and \<open>Mdp_Broker_Pool\<close> prove the invariants of single
    handlers, \<open>Mdp_Runs\<close> those of whole runs, the order of dispatch, the authorisation of internal
    workers, and the way of a request and its reply through all three parties.

  \<^item> Publish/subscribe: \<^verbatim>\<open>zato-server/src/zato/server/pubsub\<close>, \<^verbatim>\<open>service/internal/pubsub\<close> and
    \<^verbatim>\<open>zato-common/src/zato/common/odb/query_ps_*.py\<close>. \<open>Backlog\<close> (with \<open>Backlog_Facts\<close>, \<open>Backlog_Adding\<close>) is the
    in-RAM backlog; \<open>Pubsub_Core\<close> the registry of endpoints, topics, subscriptions and delivery servers
    (facts in \<open>Pubsub_Registry\<close>, \<open>Pubsub_Servers\<close>); \<open>Pubsub_Sql\<close> the rows and queries of guaranteed messages;
    \<open>Pubsub_Task\<close> the delivery tasks and the tool that owns them (facts in \<open>Pubsub_Delivery\<close>);
    \<open>Pubsub_Publish\<close> the service that publishes and what follows a publication (facts in
    \<open>Pubsub_Publishing\<close>).

  \<^item> HTTP: \<^verbatim>\<open>zato-server/src/zato/server/connection/http_soap\<close>, \<^verbatim>\<open>jwt.py\<close>, \<^verbatim>\<open>cache.py\<close>, \<^verbatim>\<open>rbac_.py\<close>. \<open>Url_Data\<close> and
    \<open>Url_Stores\<close> hold the security definitions and the handlers of their messages; \<open>Url_Channels\<close> the
    channels, their order, and the matching of requests with its two caches; \<open>Url_Auth\<close> the handlers that
    check credentials and the delegation to RBAC; \<open>Jwt_Backend\<close> the tokens; \<open>Rbac\<close> the registry of roles
    and permissions; \<open>Http_Dispatch\<close> the life of a request, from matching to the status of an exception.
    The facts are in the theories of the same names with \<open>_Facts\<close>.

  \<^item> Services: \<^verbatim>\<open>zato-server/src/zato/server/service\<close>. \<open>Service_Store\<close> is their deployment (\<^verbatim>\<open>store.py\<close>) and the lists
    of allowed names (\<^verbatim>\<open>zato-common/src/zato/common/match.py\<close>); \<open>Service_Run\<close> one run of a service with its hooks,
    handlers of HTTP verbs, response and statistics; \<open>Service_Invoke\<close> who invokes whom: services each
    other, at once or through the broker, and messages (\<^verbatim>\<open>base/worker/__init__.py\<close>). \<open>Service_Facts\<close> proves
    the order of calls and the reports of parallel calls, \<open>Service_Policy\<close> the limits on who may be invoked,
    messages for targets, and the consistency of the store. \<open>Sio\<close>, \<open>Sio_Request\<close> and \<open>Sio_Facts\<close>
    are SimpleIO, requests and responses (\<^verbatim>\<open>reqresp\<close>); \<open>Fixed_Width\<close> and \<open>Fixed_Width_Facts\<close> fixed-width data.

  \<^item> Integration patterns: \<^verbatim>\<open>zato-server/src/zato/server/pattern\<close>. \<open>Retry\<close> is invoke-retry, \<open>Fan_Out\<close> fan-out/fan-in and
    parallel execution, \<open>Fan_Facts\<close> their completion.

  \<^item> Scheduler: \<^verbatim>\<open>zato-scheduler/src/zato/scheduler\<close>. \<open>Sched_Job\<close> is one job and its loop, \<open>Sched\<close> the scheduler with its
    greenlets and messages, \<open>Sched_Facts\<close> their invariant and the refinement of a table of jobs.

  \<^item> WebSockets: \<^verbatim>\<open>connection/web_socket\<close>. \<open>Ws_Channel\<close> is a connection with its sessions, messages and pings,
    \<open>Ws_Facts\<close> what guards its service and when it ends.

  \<^item> Caches: \<^verbatim>\<open>zato-cy/src/zato/cy/cache.pyx\<close>, \<^verbatim>\<open>connection/cache.py\<close>, \<^verbatim>\<open>base/worker/cache_builtin.py\<close>. \<open>Cache_Impl\<close> is one cache,
    \<open>Cache_Api\<close> what services call and what workers tell each other; \<open>Cache_Facts\<close>, \<open>Cache_Lru\<close> and
    \<open>Cache_Sync\<close> prove that a cache is consistent, that it is an LRU cache, and when workers agree.

  \<^item> Files of configuration objects: \<^verbatim>\<open>zato-cli/src/zato/cli/enmasse.py\<close>. \<open>Enmasse\<close> has the types of objects and what
    a server tells of them, \<open>Enmasse_Files\<close> (\<^verbatim>\<open>InputParser\<close>, \<^verbatim>\<open>InputValidator\<close>, \<^verbatim>\<open>DependencyScanner\<close>, \<^verbatim>\<open>write_output\<close>)
    reads, validates and writes files, \<open>Enmasse_Import\<close> (\<^verbatim>\<open>ObjectManager\<close>, \<^verbatim>\<open>ObjectImporter\<close>, \<^verbatim>\<open>merge_odb_json\<close>) imports
    them into a cluster and merges them with it; \<open>Enmasse_Facts\<close> proves that imports leave nothing out and do
    nothing twice, what merging keeps, and when reading ends.
\<close>

section \<open>What the properties show\<close>

text \<open>
  Each property is a theorem after a text that names it C1, C2, and so on, in the order of importance.

  \<^item> Who may do what: publications need a matching line of their endpoint; security checks and the
    dispatch of requests let in only who is authorised; tokens are valid for their user and time, however often they are used;
    WebSocket services need a live session; services invoke each other within the policy; internal
    MDP workers are authorised first.

  \<^item> State stays consistent in every run: the broker's registries and pool, the backlog, the
    channels and their security, the scheduler's greenlets (lemmas: the publish/subscribe registry, the
    cache's index).

  \<^item> Code implements its specification: security definitions are finite maps, caches are LRU lists,
    the scheduler is a table of jobs, request matching through its caches is a scan of the channels,
    lists of allowed names are their rules, merged configuration is the file's over the cluster's.

  \<^item> Things come to their end: deliveries, fan-outs, deletions of roles, jobs with a limit, included files, and retries
    exactly when they fail often enough; imports cover the whole file.

  \<^item> Data survives: JSON and SimpleIO responses, fixed-width lines and MDP frames read back as
    they were written.

  Lemmas that no property names show where code does not do what it says; those for which the title of
  their section says so (\<open>Service_Policy\<close>, \<open>Fan_Facts\<close>, \<open>Cache_Sync\<close>, \<open>Pubsub_Delivery\<close> and others) are
  about inputs on which the code fails.
\<close>

section \<open>Bounds and fuel\<close>

text \<open>
  Functions are total. Where the code loops, the recursion is on the data, or on a number that is enough:
  \<open>dispatch_loop\<close> has as many rounds as there are pending requests, as each round takes one;
  \<open>delivery_loop\<close> and \<open>remove_while_iterating\<close> are bounded by the length of the list that they go through; \<open>load_include\<close> by the depth of the interpreter's stack, which \<open>includes_come_to_an_end\<close> shows not to
  matter once it reaches the number of files; \<open>delete_role_upto\<close> by the number of roles, and \<open>deleting_a_role_deletes_its_tree\<close> shows that to be
  enough for any hierarchy without cycles; loops that the code never ends by itself (\<open>main_loop\<close>,
  \<open>job_run\<close>, \<open>retry_loop\<close>) take a number of rounds, and the theorems about them say from which number on
  they have ended, or that no number suffices.
\<close>

section \<open>Not modelled\<close>

text \<open>
  The web admin (Django views and templates) with the vendored Brython library that it serves,
  more than half of the Python lines of the repository; the commands other than enmasse, which write files
  and start processes; the SQLAlchemy declarations of the ODB, and internal services that are forms over its
  tables; the broker client, outgoing HTTP and SOAP, the client library and the load balancer's agent,
  which wrap a library or an external process each; the start-up of servers. Within modelled parts:
  the importing of internal services from a cache file, representations as text, and logging.
  SQL, Redis and the network fail only where a parameter says so, and processes do not crash.
\<close>

end
